(* ===== verification/Prelude.thy ===== *)
theory Prelude
  imports Main "HOL-Library.Sublist"
begin

text \<open>
  Shared vocabulary of the development: the exceptions of the modelled services as one
  datatype, results as sums, the byte and text operations of the Python standard library
  that the code calls, and the generic lemmas the components share.

  A Python \<open>bytes\<close> value is a \<open>char list\<close> (a HOL character is exactly one octet).
  A Python \<open>str\<close> is a \<open>char list\<close> as well, one character per code point; code points
  above U+00FF are outside the model.
\<close>

named_theorems eval_simps \<open>definitions unfolded when a model function is evaluated on a concrete input\<close>
named_theorems result_simps \<open>unfolding equations for results, guards and folds over results\<close>

section \<open>Errors and results\<close>

datatype error =
    RequestDenied string
  | ValueError string
  | ContextFailure string
  | ContextOverflow string
  | StaleConfiguration nat nat
  | RevisionConflict
  | ConfigurationUnavailable
  | AccessDenied string
  | AuthenticationRequired string
  | OtherError string
  | OutOfFuel \<comment> \<open>never raised by the code: a bounded recursion of the model gave up\<close>

type_synonym bytes = "char list"
type_synonym headers = "(bytes \<times> bytes) list"

definition bindE :: "'e + 'a \<Rightarrow> ('a \<Rightarrow> 'e + 'b) \<Rightarrow> 'e + 'b" where
  "bindE m f = (case m of Inl e \<Rightarrow> Inl e | Inr x \<Rightarrow> f x)"

lemma bindE_simps [simp]: "bindE (Inl e) f = Inl e" "bindE (Inr x) f = f x"
  by (simp_all add: bindE_def)

lemma bindE_eq_Inr [result_simps]: "bindE m f = Inr y \<longleftrightarrow> (\<exists>x. m = Inr x \<and> f x = Inr y)"
  by (cases m) auto

lemma bindE_eq_Inl: "bindE m f = Inl e \<longleftrightarrow> m = Inl e \<or> (\<exists>x. m = Inr x \<and> f x = Inl e)"
  by (cases m) auto

lemma bindE_assoc: "bindE (bindE m f) g = bindE m (\<lambda>x. bindE (f x) g)"
  by (cases m) auto

lemma bindE_cong [fundef_cong]:
  "m = m' \<Longrightarrow> (\<And>x. m' = Inr x \<Longrightarrow> f x = f' x) \<Longrightarrow> bindE m f = bindE m' f'"
  by (cases m') auto

text \<open>\<open>foldE\<close> is a \<open>for\<close> loop over a list whose body may raise.\<close>

fun foldE :: "('s \<Rightarrow> 'a \<Rightarrow> 'e + 's) \<Rightarrow> 's \<Rightarrow> 'a list \<Rightarrow> 'e + 's" where
  "foldE f s [] = Inr s"
| "foldE f s (x # xs) = bindE (f s x) (\<lambda>s'. foldE f s' xs)"

lemma foldE_append: "foldE f s (xs @ ys) = bindE (foldE f s xs) (\<lambda>s'. foldE f s' ys)"
  by (induction xs arbitrary: s) (auto simp: bindE_assoc)

lemma foldE_invariant:
  assumes "foldE f s xs = Inr s'" and "I s"
    and "\<And>s x s'. f s x = Inr s' \<Longrightarrow> x \<in> set xs \<Longrightarrow> I s \<Longrightarrow> I s'"
  shows "I s'"
  using assms
proof (induction xs arbitrary: s)
  case Nil
  then show ?case by simp
next
  case (Cons x xs)
  from Cons.prems(1) obtain t where "f s x = Inr t" "foldE f t xs = Inr s'"
    by (auto simp: result_simps)
  with Cons.prems(2,3) have "I t" by auto
  with \<open>foldE f t xs = Inr s'\<close> Cons.IH Cons.prems(3) show ?case
    by (meson list.set_intros(2))
qed

text \<open>\<open>mapE\<close> is a comprehension whose element expression may raise.\<close>

fun mapE :: "('a \<Rightarrow> 'e + 'b) \<Rightarrow> 'a list \<Rightarrow> 'e + 'b list" where
  "mapE f [] = Inr []"
| "mapE f (x # xs) = bindE (f x) (\<lambda>y. bindE (mapE f xs) (\<lambda>ys. Inr (y # ys)))"

lemma mapE_eq_Inr: "mapE f xs = Inr ys \<longleftrightarrow> list_all2 (\<lambda>x y. f x = Inr y) xs ys"
proof (induction xs arbitrary: ys)
  case Nil
  then show ?case by auto
next
  case (Cons x xs)
  then show ?case by (cases ys) (auto simp: result_simps)
qed

lemma mapE_Inr_fixed: "(\<And>x. x \<in> set xs \<Longrightarrow> f x = Inr x) \<Longrightarrow> mapE f xs = Inr xs"
  by (induction xs) auto

section \<open>Effects\<close>

text \<open>
  Code that talks to its environment: a result and the environment afterwards, also when an
  exception is raised. \<open>catchE\<close> is \<open>except Exception\<close>; running out of fuel passes through it.
\<close>

type_synonym ('env, 'a) eff = "'env \<Rightarrow> (error + 'a) \<times> 'env"

definition ret :: "'a \<Rightarrow> ('env, 'a) eff" where
  "ret x = (\<lambda>s. (Inr x, s))"

definition lift :: "error + 'a \<Rightarrow> ('env, 'a) eff" where
  "lift r = (\<lambda>s. (r, s))"

abbreviation throw :: "error \<Rightarrow> ('env, 'a) eff" where
  "throw e \<equiv> lift (Inl e)"

definition bindM :: "('env, 'a) eff \<Rightarrow> ('a \<Rightarrow> ('env, 'b) eff) \<Rightarrow> ('env, 'b) eff" where
  "bindM m f = (\<lambda>s. case m s of (Inl e, s') \<Rightarrow> (Inl e, s') | (Inr x, s') \<Rightarrow> f x s')"

definition catchE :: "('env, 'a) eff \<Rightarrow> (error \<Rightarrow> ('env, 'a) eff) \<Rightarrow> ('env, 'a) eff" where
  "catchE m h = (\<lambda>s. case m s of
     (Inl e, s') \<Rightarrow> if e = OutOfFuel then (Inl e, s') else h e s'
   | (Inr x, s') \<Rightarrow> (Inr x, s'))"

text \<open>\<open>foldM\<close> is a \<open>for\<close> loop whose body has effects.\<close>

fun foldM :: "('s \<Rightarrow> 'a \<Rightarrow> ('env, 's) eff) \<Rightarrow> 's \<Rightarrow> 'a list \<Rightarrow> ('env, 's) eff" where
  "foldM f s [] = ret s"
| "foldM f s (x # xs) = bindM (f s x) (\<lambda>s'. foldM f s' xs)"

lemmas [eval_simps] = ret_def lift_def bindM_def catchE_def

text \<open>\<open>returns m Q\<close>: whenever \<open>m\<close> returns, its result satisfies \<open>Q\<close>.\<close>

definition returns :: "('env, 'a) eff \<Rightarrow> ('a \<Rightarrow> bool) \<Rightarrow> bool" where
  "returns m Q \<longleftrightarrow> (\<forall>s x s'. m s = (Inr x, s') \<longrightarrow> Q x)"

named_theorems returns_intros \<open>rules that establish \<open>returns\<close> along the structure of the code\<close>

lemma returns_ret [returns_intros]: "Q x \<Longrightarrow> returns (ret x) Q"
  by (simp add: returns_def ret_def)

lemma returns_lift [returns_intros]: "(\<And>x. r = Inr x \<Longrightarrow> Q x) \<Longrightarrow> returns (lift r) Q"
  by (simp add: returns_def lift_def)

lemma returns_bind:
  "returns m P \<Longrightarrow> (\<And>x. P x \<Longrightarrow> returns (f x) Q) \<Longrightarrow> returns (bindM m f) Q"
  unfolding returns_def bindM_def by (fastforce split: prod.splits sum.splits)

lemma returns_lift_bind [returns_intros]:
  "(\<And>x. r = Inr x \<Longrightarrow> returns (f x) Q) \<Longrightarrow> returns (bindM (lift r) f) Q"
  by (rule returns_bind [of _ "\<lambda>x. r = Inr x"]) (auto intro: returns_lift)

lemma returns_catch:
  "returns m Q \<Longrightarrow> (\<And>e. e \<noteq> OutOfFuel \<Longrightarrow> returns (h e) Q) \<Longrightarrow> returns (catchE m h) Q"
  unfolding returns_def catchE_def by (fastforce split: prod.splits sum.splits if_splits)

lemma returns_weaken: "returns m P \<Longrightarrow> (\<And>x. P x \<Longrightarrow> Q x) \<Longrightarrow> returns m Q"
  by (auto simp: returns_def)

lemma returns_True: "returns m (\<lambda>_. True)"
  by (simp add: returns_def)

lemma returns_foldM:
  assumes "I s" "\<And>s x. x \<in> set xs \<Longrightarrow> I s \<Longrightarrow> returns (f s x) I"
  shows "returns (foldM f s xs) I"
  using assms
  by (induction xs arbitrary: s) (auto intro: returns_ret returns_bind)

text \<open>\<open>keeps I m\<close>: \<open>m\<close> preserves a property of the environment, whatever its outcome.\<close>

definition keeps :: "('env \<Rightarrow> bool) \<Rightarrow> ('env, 'a) eff \<Rightarrow> bool" where
  "keeps I m \<longleftrightarrow> (\<forall>s. I s \<longrightarrow> I (snd (m s)))"

lemma keeps_lift: "keeps I (lift r)" "keeps I (ret x)"
  by (simp_all add: keeps_def lift_def ret_def)

lemma keeps_bind:
  "keeps I m \<Longrightarrow> returns m P \<Longrightarrow> (\<And>x. P x \<Longrightarrow> keeps I (f x)) \<Longrightarrow> keeps I (bindM m f)"
  unfolding keeps_def bindM_def returns_def
  by (auto split: prod.splits sum.splits) (metis snd_conv)+

lemma keeps_catch: "keeps I m \<Longrightarrow> (\<And>e. keeps I (h e)) \<Longrightarrow> keeps I (catchE m h)"
  unfolding keeps_def catchE_def by (auto split: prod.splits sum.splits)

section \<open>JSON values\<close>

datatype json =
    JNull | JBool bool | JNum int
  | JFrac int int \<comment> \<open>a float given as the quotient that computes it\<close>
  | JStr string | JList "json list" | JObj "(string \<times> json) list"

section \<open>Characters\<close>

abbreviation code :: "char \<Rightarrow> nat" where
  "code c \<equiv> of_char c"

definition is_digit :: "char \<Rightarrow> bool" where
  "is_digit c \<longleftrightarrow> 48 \<le> code c \<and> code c \<le> 57"

definition is_lower_alpha :: "char \<Rightarrow> bool" where
  "is_lower_alpha c \<longleftrightarrow> 97 \<le> code c \<and> code c \<le> 122"

definition is_upper_alpha :: "char \<Rightarrow> bool" where
  "is_upper_alpha c \<longleftrightarrow> 65 \<le> code c \<and> code c \<le> 90"

definition is_ascii :: "char \<Rightarrow> bool" where
  "is_ascii c \<longleftrightarrow> code c < 128"

lemma is_digit_iff: "is_digit c \<longleftrightarrow> c \<in> set ''0123456789''"
proof -
  have "is_digit c \<longleftrightarrow> code c \<in> set (map code ''0123456789'')"
    by (simp add: is_digit_def) arith
  also have "\<dots> \<longleftrightarrow> c \<in> set ''0123456789''"
    by (simp only: list.map list.set insert_iff empty_iff of_char_eq_iff)
  finally show ?thesis .
qed

text \<open>\<open>str.isspace\<close> on the code points below 256.\<close>

definition is_space :: "char \<Rightarrow> bool" where
  "is_space c \<longleftrightarrow> (9 \<le> code c \<and> code c \<le> 13) \<or> (28 \<le> code c \<and> code c \<le> 32)
     \<or> code c = 133 \<or> code c = 160"

text \<open>\<open>bytes.strip()\<close> without argument removes ASCII whitespace.\<close>

definition is_bytes_space :: "char \<Rightarrow> bool" where
  "is_bytes_space c \<longleftrightarrow> (9 \<le> code c \<and> code c \<le> 13) \<or> code c = 32"

text \<open>\<open>bytes.lower\<close> touches ASCII letters only; \<open>str.lower\<close> also maps the Latin-1 letters.\<close>

definition lower_char :: "char \<Rightarrow> char" where
  "lower_char c = (if is_upper_alpha c then char_of (code c + 32) else c)"

definition str_lower_char :: "char \<Rightarrow> char" where
  "str_lower_char c =
     (if is_upper_alpha c \<or> (192 \<le> code c \<and> code c \<le> 222 \<and> code c \<noteq> 215)
      then char_of (code c + 32) else c)"

definition lower :: "bytes \<Rightarrow> bytes" where
  "lower s = map lower_char s"

definition str_lower :: "string \<Rightarrow> string" where
  "str_lower s = map str_lower_char s"

text \<open>\<open>s.encode("utf-8")\<close> on code points below 256.\<close>

definition utf8_char :: "char \<Rightarrow> bytes" where
  "utf8_char c =
     (if code c < 128 then [c] else [char_of (192 + code c div 64), char_of (128 + code c mod 64)])"

definition utf8_encode :: "string \<Rightarrow> bytes" where
  "utf8_encode s = List.maps utf8_char s"

lemma code_lt_256 [simp]: "code c < 256"
  using of_char_mod_256 [of c] by (metis mod_less_divisor zero_less_numeral)

lemma code_char_of [simp]: "n < 256 \<Longrightarrow> code (char_of n) = n"
  by simp

lemma lower_char_idem [simp]: "lower_char (lower_char c) = lower_char c"
  by (auto simp: lower_char_def is_upper_alpha_def)

lemma lower_idem [simp]: "lower (lower s) = lower s"
  by (simp add: lower_def)

lemma length_lower [simp]: "length (lower s) = length s"
  by (simp add: lower_def)

lemma lower_Nil [simp]: "lower [] = []" "lower s = [] \<longleftrightarrow> s = []"
  by (simp_all add: lower_def)

lemma lower_append [simp]: "lower (s @ t) = lower s @ lower t"
  by (simp add: lower_def)

lemma lower_char_not_upper [simp]: "\<not> is_upper_alpha (lower_char c)"
  by (auto simp: lower_char_def is_upper_alpha_def)

lemma str_lower_ascii: "list_all is_ascii s \<Longrightarrow> str_lower s = lower s"
  by (induction s) (auto simp: str_lower_def lower_def str_lower_char_def lower_char_def is_ascii_def)

lemma lower_id_iff: "lower s = s \<longleftrightarrow> list_all (\<lambda>c. \<not> is_upper_alpha c) s"
proof (induction s)
  case Nil
  then show ?case by simp
next
  case (Cons c s)
  have "lower_char c = c \<longleftrightarrow> \<not> is_upper_alpha c"
    by (metis lower_char_def lower_char_not_upper)
  with Cons show ?case by (simp add: lower_def)
qed

section \<open>Splitting, joining, stripping\<close>

text \<open>\<open>s.split(sep)\<close> for a one-character separator: never empty.\<close>

fun split_on :: "char \<Rightarrow> string \<Rightarrow> string list" where
  "split_on sep [] = [[]]"
| "split_on sep (c # cs) =
     (if c = sep then [] # split_on sep cs
      else (case split_on sep cs of [] \<Rightarrow> [[c]] | p # ps \<Rightarrow> (c # p) # ps))"

text \<open>\<open>sep.join(parts)\<close> for a one-character separator.\<close>

fun join_with :: "char \<Rightarrow> string list \<Rightarrow> string" where
  "join_with sep [] = []"
| "join_with sep [p] = p"
| "join_with sep (p # q # ps) = p @ sep # join_with sep (q # ps)"

lemma split_on_not_Nil [simp]: "split_on sep s \<noteq> []"
  by (induction s) (auto split: list.splits)

lemma join_split_on [simp]: "join_with sep (split_on sep s) = s"
proof (induction s)
  case Nil
  then show ?case by simp
next
  case (Cons c cs)
  then show ?case
    by (cases "split_on sep cs"; cases "tl (split_on sep cs)") auto
qed

lemma split_on_no_sep: "p \<in> set (split_on sep s) \<Longrightarrow> sep \<notin> set p"
  by (induction s arbitrary: p) (auto split: list.splits if_splits)

lemma split_on_single: "sep \<notin> set s \<Longrightarrow> split_on sep s = [s]"
  by (induction s) auto

lemma split_on_append_sep: "sep \<notin> set p \<Longrightarrow> split_on sep (p @ sep # s) = p # split_on sep s"
  by (induction p) auto

lemma split_on_snoc_sep: "split_on sep (s @ [sep]) = split_on sep s @ [[]]"
  by (induction s) (auto split: list.splits)

lemma split_join:
  "ps \<noteq> [] \<Longrightarrow> \<forall>p \<in> set ps. sep \<notin> set p \<Longrightarrow> split_on sep (join_with sep ps) = ps"
  by (induction sep ps rule: join_with.induct) (auto simp: split_on_single split_on_append_sep)

lemma set_join_with:
  "set (join_with sep ps) \<subseteq> insert sep (\<Union> (set ` set ps))"
  by (induction sep ps rule: join_with.induct) auto

lemma set_split_on: "p \<in> set (split_on sep s) \<Longrightarrow> set p \<subseteq> set s"
  by (induction s arbitrary: p) (auto split: list.splits if_splits, blast+)

text \<open>\<open>s.partition(sep)\<close>: head, whether the separator occurs, tail.\<close>

fun partition_on :: "char \<Rightarrow> string \<Rightarrow> string \<times> bool \<times> string" where
  "partition_on sep [] = ([], False, [])"
| "partition_on sep (c # cs) =
     (if c = sep then ([], True, cs)
      else (case partition_on sep cs of (h, found, t) \<Rightarrow> (c # h, found, t)))"

lemma partition_on_Cons:
  "partition_on sep (c # cs) =
     (if c = sep then ([], True, cs)
      else (c # fst (partition_on sep cs), fst (snd (partition_on sep cs)),
            snd (snd (partition_on sep cs))))"
  by (simp add: case_prod_beta)

lemma partition_on_found:
  "partition_on sep s = (h, True, t) \<longleftrightarrow> s = h @ sep # t \<and> sep \<notin> set h"
proof (induction s arbitrary: h)
  case Nil
  then show ?case by simp
next
  case (Cons c cs)
  show ?case
  proof (cases h)
    case Nil
    then show ?thesis by (auto simp: partition_on_Cons simp del: partition_on.simps)
  next
    case (Cons d h')
    with Cons.IH [of h'] show ?thesis
      by (cases "partition_on sep cs") (auto simp: partition_on_Cons simp del: partition_on.simps)
  qed
qed

lemma partition_on_absent:
  "partition_on sep s = (h, False, t) \<longleftrightarrow> h = s \<and> t = [] \<and> sep \<notin> set s"
proof (induction s arbitrary: h)
  case Nil
  then show ?case by auto
next
  case (Cons c cs)
  show ?case
  proof (cases h)
    case Nil
    then show ?thesis by (auto simp: partition_on_Cons simp del: partition_on.simps)
  next
    case (Cons d h')
    with Cons.IH [of h'] show ?thesis
      by (cases "partition_on sep cs") (auto simp: partition_on_Cons simp del: partition_on.simps)
  qed
qed

text \<open>\<open>lstrip\<close>, \<open>rstrip\<close> and \<open>strip\<close> with the set of removed characters as a predicate.\<close>

definition lstrip :: "(char \<Rightarrow> bool) \<Rightarrow> string \<Rightarrow> string" where
  "lstrip p s = dropWhile p s"

definition rstrip :: "(char \<Rightarrow> bool) \<Rightarrow> string \<Rightarrow> string" where
  "rstrip p s = rev (dropWhile p (rev s))"

definition strip :: "(char \<Rightarrow> bool) \<Rightarrow> string \<Rightarrow> string" where
  "strip p s = rstrip p (lstrip p s)"

definition is_blank_tab :: "char \<Rightarrow> bool" where
  "is_blank_tab c \<longleftrightarrow> c = CHR '' '' \<or> code c = 9"

text \<open>\<open>s.removesuffix(t)\<close> and \<open>s.removeprefix(t)\<close>.\<close>

definition removesuffix :: "string \<Rightarrow> string \<Rightarrow> string" where
  "removesuffix t s = (if suffix t s then take (length s - length t) s else s)"

definition removeprefix :: "string \<Rightarrow> string \<Rightarrow> string" where
  "removeprefix t s = (if prefix t s then drop (length t) s else s)"

section \<open>Numbers in text\<close>

definition digit_val :: "char \<Rightarrow> nat" where
  "digit_val c = code c - 48"

definition hex_val :: "char \<Rightarrow> nat" where
  "hex_val c = (if is_digit c then code c - 48
                else if is_lower_alpha c then code c - 87 else code c - 55)"

definition is_hex :: "char \<Rightarrow> bool" where
  "is_hex c \<longleftrightarrow> is_digit c \<or> (97 \<le> code c \<and> code c \<le> 102) \<or> (65 \<le> code c \<and> code c \<le> 70)"

definition dec_value :: "string \<Rightarrow> nat" where
  "dec_value s = foldl (\<lambda>n c. 10 * n + digit_val c) 0 s"

definition hex_value :: "string \<Rightarrow> nat" where
  "hex_value s = foldl (\<lambda>n c. 16 * n + hex_val c) 0 s"

text \<open>Decimal and hexadecimal rendering of a natural number, as \<open>str(n)\<close> and \<open>'%x' % n\<close>.\<close>

definition digit_char :: "nat \<Rightarrow> char" where
  "digit_char d = (if d < 10 then char_of (d + 48) else char_of (d + 87))"

fun nat_str :: "nat \<Rightarrow> string" where
  "nat_str n = (if n < 10 then [digit_char n] else nat_str (n div 10) @ [digit_char (n mod 10)])"

fun hex_str :: "nat \<Rightarrow> string" where
  "hex_str n = (if n < 16 then [digit_char n] else hex_str (n div 16) @ [digit_char (n mod 16)])"

declare nat_str.simps [simp del] hex_str.simps [simp del]

lemmas [eval_simps] = is_digit_def is_lower_alpha_def is_upper_alpha_def is_ascii_def is_space_def
  is_bytes_space_def is_blank_tab_def is_hex_def lower_char_def str_lower_char_def lower_def
  str_lower_def digit_val_def hex_val_def dec_value_def hex_value_def digit_char_def nat_str.simps
  hex_str.simps lstrip_def rstrip_def strip_def removesuffix_def removeprefix_def char_of_eq_iff
  char_of_eq_iff [THEN trans [OF eq_commute]]

text \<open>Digits rendered and read back.\<close>

lemma digit_char_simps:
  "d < 10 \<Longrightarrow> is_digit (digit_char d)" "d < 16 \<Longrightarrow> is_hex (digit_char d)"
  "d < 10 \<Longrightarrow> digit_val (digit_char d) = d" "d < 16 \<Longrightarrow> hex_val (digit_char d) = d"
  by (auto simp: digit_char_def is_digit_def is_hex_def digit_val_def hex_val_def is_lower_alpha_def)

lemma nat_str_cases:
  "n < 10 \<Longrightarrow> nat_str n = [digit_char n]"
  "\<not> n < 10 \<Longrightarrow> nat_str n = nat_str (n div 10) @ [digit_char (n mod 10)]"
  by (subst nat_str.simps, simp)+

lemma hex_str_cases:
  "n < 16 \<Longrightarrow> hex_str n = [digit_char n]"
  "\<not> n < 16 \<Longrightarrow> hex_str n = hex_str (n div 16) @ [digit_char (n mod 16)]"
  by (subst hex_str.simps, simp)+

lemma nat_str_digits: "list_all is_digit (nat_str n)" "nat_str n \<noteq> []"
proof (induction n rule: nat_str.induct)
  case (1 n)
  { case 1 then show ?case using "1.IH" by (cases "n < 10") (auto simp: nat_str_cases digit_char_simps) }
  { case 2 then show ?case by (cases "n < 10") (auto simp: nat_str_cases) }
qed

lemma hex_str_digits: "list_all is_hex (hex_str n)" "hex_str n \<noteq> []"
proof (induction n rule: hex_str.induct)
  case (1 n)
  { case 1 then show ?case using "1.IH" by (cases "n < 16") (auto simp: hex_str_cases digit_char_simps) }
  { case 2 then show ?case by (cases "n < 16") (auto simp: hex_str_cases) }
qed

lemma dec_value_snoc: "dec_value (s @ [c]) = 10 * dec_value s + digit_val c"
  by (simp add: dec_value_def)

lemma hex_value_snoc: "hex_value (s @ [c]) = 16 * hex_value s + hex_val c"
  by (simp add: hex_value_def)

lemma dec_value_nat_str [simp]: "dec_value (nat_str n) = n"
proof (induction n rule: nat_str.induct)
  case (1 n)
  show ?case
  proof (cases "n < 10")
    case True
    then show ?thesis
      by (subst nat_str.simps) (simp add: dec_value_def digit_char_simps)
  next
    case False
    with 1 show ?thesis
      by (subst nat_str.simps) (simp add: dec_value_snoc digit_char_simps)
  qed
qed

lemma hex_value_hex_str [simp]: "hex_value (hex_str n) = n"
proof (induction n rule: hex_str.induct)
  case (1 n)
  show ?case
  proof (cases "n < 16")
    case True
    then show ?thesis
      by (subst hex_str.simps) (simp add: hex_value_def digit_char_simps)
  next
    case False
    with 1 show ?thesis
      by (subst hex_str.simps) (simp add: hex_value_snoc digit_char_simps)
  qed
qed

lemma length_hex_str: "n < 16 ^ k \<Longrightarrow> 0 < k \<Longrightarrow> length (hex_str n) \<le> k"
proof (induction n arbitrary: k rule: hex_str.induct)
  case (1 n)
  show ?case
  proof (cases "n < 16")
    case True
    with 1 show ?thesis by (subst hex_str.simps) simp
  next
    case False
    with "1.prems" have "k \<noteq> 1" by auto
    with "1.prems" obtain j where j: "k = Suc j" "0 < j" by (cases k) auto
    with "1.prems" False have "n div 16 < 16 ^ j" by (simp add: less_mult_imp_div_less)
    with "1.IH" False j have "length (hex_str (n div 16)) \<le> j" by simp
    with False j show ?thesis by (subst hex_str.simps) simp
  qed
qed

lemma length_nat_str: "n < 10 ^ k \<Longrightarrow> 0 < k \<Longrightarrow> length (nat_str n) \<le> k"
proof (induction n arbitrary: k rule: nat_str.induct)
  case (1 n)
  show ?case
  proof (cases "n < 10")
    case True
    with 1 show ?thesis by (subst nat_str.simps) simp
  next
    case False
    with "1.prems" have "k \<noteq> 1" by auto
    with "1.prems" obtain j where j: "k = Suc j" "0 < j" by (cases k) auto
    with "1.prems" False have "n div 10 < 10 ^ j" by (simp add: less_mult_imp_div_less)
    with "1.IH" False j have "length (nat_str (n div 10)) \<le> j" by simp
    with False j show ?thesis by (subst nat_str.simps) simp
  qed
qed

lemma hd_nat_str: "0 < n \<Longrightarrow> hd (nat_str n) \<noteq> CHR ''0''"
proof (induction n rule: nat_str.induct)
  case (1 n)
  show ?case
  proof (cases "n < 10")
    case True
    with "1.prems" show ?thesis
      by (auto simp: nat_str_cases digit_char_def char_of_eq_iff take_bit_eq_mod)
  next
    case False
    with 1 have "hd (nat_str (n div 10)) \<noteq> CHR ''0''" by simp
    with False show ?thesis
      by (subst nat_str.simps) (simp add: nat_str_digits)
  qed
qed

text \<open>Rendered digits are lower-case ASCII and contain no separator.\<close>

lemma nat_str_chars: "c \<in> set (nat_str n) \<Longrightarrow> is_digit c"
  using nat_str_digits(1) [of n] by (simp add: list_all_iff)

lemma hex_str_lower: "c \<in> set (hex_str n) \<Longrightarrow> is_hex c \<and> \<not> is_upper_alpha c"
proof (induction n rule: hex_str.induct)
  case (1 n)
  have d: "d < 16 \<Longrightarrow> is_hex (digit_char d) \<and> \<not> is_upper_alpha (digit_char d)" for d
    by (auto simp: digit_char_def is_hex_def is_digit_def is_upper_alpha_def)
  show ?case
    using 1 d [of "n mod 16"] d [of n] by (cases "n < 16") (auto simp: hex_str_cases)
qed

section \<open>Transition systems\<close>

text \<open>
  The stateful components are transition systems: a step relation labelled by the operation
  that ran. \<open>reachable\<close> collects the states a component can be in after any sequence of
  operations; the locale \<open>invariant_system\<close> is the contract every component invariant meets.
\<close>

inductive reachable :: "('s \<Rightarrow> bool) \<Rightarrow> ('s \<Rightarrow> 'e \<Rightarrow> 's \<Rightarrow> bool) \<Rightarrow> 's \<Rightarrow> bool"
  for start step where
  reachable_start: "start s \<Longrightarrow> reachable start step s"
| reachable_step: "reachable start step s \<Longrightarrow> step s e t \<Longrightarrow> reachable start step t"

locale invariant_system =
  fixes start :: "'s \<Rightarrow> bool"
    and step :: "'s \<Rightarrow> 'e \<Rightarrow> 's \<Rightarrow> bool"
    and inv :: "'s \<Rightarrow> bool"
  assumes start_inv: "start s \<Longrightarrow> inv s"
    and step_inv: "inv s \<Longrightarrow> step s e t \<Longrightarrow> inv t"
begin

lemma reachable_inv: "reachable start step s \<Longrightarrow> inv s"
  by (induction rule: reachable.induct) (auto intro: start_inv step_inv)

lemma reachable_from_inv: "reachable (\<lambda>s. s = s0) step t \<Longrightarrow> inv s0 \<Longrightarrow> inv t"
  by (induction rule: reachable.induct) (auto intro: step_inv)

end

end
