(* ===== verification/Framing.thy ===== *)
theory Framing
  imports Prelude
begin

text \<open>
  The framing gates of \<open>ads_sandbox_egress/framing.py\<close>, applied before a protocol parser sees the
  bytes: header validation, the raw HTTP/1 header block, trailers, the headers that may be
  forwarded, body length accounting and the chunked transfer coding observer \<open>ChunkedWire\<close>.
\<close>

section \<open>Tokens and header classes\<close>

definition is_tchar :: "char \<Rightarrow> bool" where
  "is_tchar c \<longleftrightarrow> is_lower_alpha c \<or> is_upper_alpha c \<or> is_digit c
     \<or> c \<in> set ''!#$%&*+-.^_|~'' \<or> code c = 39 \<or> code c = 96"

definition token :: "bytes \<Rightarrow> bool" where
  "token s \<longleftrightarrow> s \<noteq> [] \<and> list_all is_tchar s"

definition forbidden_trailers :: "bytes list" where
  "forbidden_trailers =
     [''host'', ''authorization'', ''proxy-authorization'', ''content-length'',
      ''transfer-encoding'', ''connection'', ''te'', ''trailer'', ''upgrade'', ''expect'',
      ''content-encoding'', ''content-type'', ''content-range'', ''cookie'', ''set-cookie'',
      ''proxy-authenticate'', ''www-authenticate'']"

definition hop_by_hop :: "bytes list" where
  "hop_by_hop = [''connection'', ''keep-alive'', ''proxy-connection'', ''transfer-encoding'', ''upgrade'']"

definition pseudo_names :: "bytes list" where
  "pseudo_names = ['':method'', '':scheme'', '':authority'', '':path'', '':status'', '':protocol'']"

definition ctl_value :: "bytes \<Rightarrow> bool" where
  "ctl_value v \<longleftrightarrow> list_ex (\<lambda>c. (code c < 32 \<and> code c \<noteq> 9) \<or> code c = 127) v"

section \<open>Header validation\<close>

record header_scan =
  hs_result :: headers
  hs_total :: nat
  hs_regular :: bool
  hs_pseudo :: "bytes list"

definition header_scan_init :: header_scan where
  "header_scan_init = \<lparr>hs_result = [], hs_total = 0, hs_regular = False, hs_pseudo = []\<rparr>"

text \<open>One iteration of the loop of \<open>validate_headers\<close>.\<close>

definition scan_header :: "bool \<Rightarrow> header_scan \<Rightarrow> bytes \<times> bytes \<Rightarrow> error + header_scan" where
  "scan_header h2 s nv =
     (case nv of (name, value) \<Rightarrow>
      let total = hs_total s + length name + length value + 4 in
      if length (hs_result s) \<ge> 128 \<or> total > 65536 \<or> length name > 256 \<or> length value > 16384
      then Inl (RequestDenied ''header_limit'')
      else if name = [] \<or> ctl_value value then Inl (RequestDenied ''invalid_header'')
      else if h2 \<and> name \<noteq> lower name then Inl (RequestDenied ''uppercase_h2_header'')
      else
        let name = lower name in
        bindE
          (if prefix '':'' name
           then if \<not> h2 \<or> hs_regular s \<or> name \<in> set (hs_pseudo s) \<or> name \<notin> set pseudo_names
                then Inl (RequestDenied ''invalid_pseudo_header'')
                else Inr (s\<lparr>hs_pseudo := hs_pseudo s @ [name]\<rparr>)
           else if \<not> token name then Inl (RequestDenied ''invalid_header_name'')
           else Inr (s\<lparr>hs_regular := True\<rparr>))
          (\<lambda>s. if h2 \<and> (name \<in> set hop_by_hop \<or> name = ''te'' \<and> lower value \<noteq> ''trailers'')
               then Inl (RequestDenied ''h2_connection_header'')
               else Inr (s\<lparr>hs_result := hs_result s @ [(name, value)], hs_total := total\<rparr>)))"

definition header_values :: "bytes \<Rightarrow> headers \<Rightarrow> bytes list" where
  "header_values name hs = map snd (filter (\<lambda>nv. fst nv = name) hs)"

text \<open>The checks after the loop.\<close>

definition framing_checks :: "headers \<Rightarrow> error + headers" where
  "framing_checks result =
     (let lengths = header_values ''content-length'' result;
          transfers = header_values ''transfer-encoding'' result
      in if length lengths > 1 \<or> (lengths \<noteq> [] \<and> transfers \<noteq> [])
         then Inl (RequestDenied ''ambiguous_framing'')
         else if lengths \<noteq> [] \<and>
           (\<not> (list_all is_digit (hd lengths) \<and> 1 \<le> length (hd lengths) \<and> length (hd lengths) \<le> 19)
            \<or> dec_value (hd lengths) > 2 ^ 63 - 1)
         then Inl (RequestDenied ''invalid_content_length'')
         else if transfers \<noteq> [] \<and> (length transfers \<noteq> 1 \<or> lower (hd transfers) \<noteq> ''chunked'')
         then Inl (RequestDenied ''unsupported_transfer_coding'')
         else Inr result)"

definition validate_headers :: "bool \<Rightarrow> headers \<Rightarrow> error + headers" where
  "validate_headers h2 hs =
     bindE (foldE (scan_header h2) header_scan_init hs) (\<lambda>s. framing_checks (hs_result s))"

section \<open>The raw HTTP/1 header block\<close>

abbreviation CR :: char where "CR \<equiv> CHR 0x0D"
abbreviation LF :: char where "LF \<equiv> CHR 0x0A"

text \<open>\<open>block.split(b"\r\n")\<close>\<close>

fun split_crlf :: "bytes \<Rightarrow> bytes list" where
  "split_crlf [] = [[]]"
| "split_crlf [c] = [[c]]"
| "split_crlf (c # d # cs) =
     (if c = CR \<and> d = LF then [] # split_crlf cs
      else (case split_crlf (d # cs) of [] \<Rightarrow> [[c]] | p # ps \<Rightarrow> (c # p) # ps))"

definition header_line :: "bytes \<Rightarrow> error + bytes \<times> bytes" where
  "header_line line =
     (case partition_on (CHR '':'') line of (name, colon, value) \<Rightarrow>
        if \<not> colon \<or> \<not> token name then Inl (RequestDenied ''invalid_header_line'')
        else Inr (name, strip is_blank_tab value))"

definition raw_http1_headers :: "bytes \<Rightarrow> error + bytes \<times> headers" where
  "raw_http1_headers block =
     (if length block > 65536 \<or> \<not> suffix [CR, LF, CR, LF] block
      then Inl (RequestDenied ''invalid_header_block'')
      else
        let lines = split_crlf (take (length block - 4) block); start = hd lines in
        if start = [] \<or> LF \<in> set start \<or> CR \<in> set start \<or> length start > 16384
        then Inl (RequestDenied ''invalid_start_line'')
        else bindE (mapE header_line (tl lines)) (\<lambda>hs.
               bindE (validate_headers False hs) (\<lambda>hs. Inr (start, hs))))"

section \<open>Trailers and forwarded headers\<close>

definition headers_size :: "headers \<Rightarrow> nat" where
  "headers_size hs = sum_list (map (\<lambda>(n, v). length n + length v) hs)"

definition validate_trailers :: "bool \<Rightarrow> headers \<Rightarrow> error + headers" where
  "validate_trailers h2 hs =
     bindE (validate_headers h2 hs) (\<lambda>values.
       if length values > 32 \<or> headers_size values > 16384
       then Inl (RequestDenied ''trailer_limit'')
       else if list_ex (\<lambda>nv. prefix '':'' (fst nv) \<or> fst nv \<in> set forbidden_trailers) values
       then Inl (RequestDenied ''forbidden_trailer'')
       else Inr values)"

definition connection_tokens :: "bytes \<Rightarrow> bytes list" where
  "connection_tokens value = map (\<lambda>item. lower (strip is_bytes_space item)) (split_on (CHR '','') value)"

definition nominate :: "bytes list \<Rightarrow> bytes \<times> bytes \<Rightarrow> error + bytes list" where
  "nominate nominated nv =
     (if fst nv \<noteq> ''connection'' then Inr nominated
      else if list_ex (\<lambda>item. \<not> token item \<or>
             item \<in> {''host'', ''content-length'', ''authorization'', ''proxy-authorization''})
             (connection_tokens (snd nv))
      then Inl (RequestDenied ''unsafe_connection_nomination'')
      else Inr (nominated @ connection_tokens (snd nv)))"

definition forwarding_headers :: "headers \<Rightarrow> error + headers" where
  "forwarding_headers hs =
     bindE (foldE nominate [] hs) (\<lambda>nominated.
       Inr (filter (\<lambda>nv. fst nv \<notin> set hop_by_hop \<union> set nominated) hs))"

section \<open>Body length\<close>

record body_length =
  expected :: "nat option"
  received :: nat

definition body_add :: "body_length \<Rightarrow> int \<Rightarrow> error + body_length" where
  "body_add b count =
     (if count < 0 \<or> int (received b) + count > 2 ^ 63 - 1
      then Inl (RequestDenied ''body_length_limit'')
      else
        let b = b\<lparr>received := received b + nat count\<rparr> in
        if (case expected b of None \<Rightarrow> False | Some e \<Rightarrow> received b > e)
        then Inl (RequestDenied ''body_length_exceeded'')
        else Inr b)"

definition body_finish :: "body_length \<Rightarrow> error + unit" where
  "body_finish b =
     (if (case expected b of None \<Rightarrow> False | Some e \<Rightarrow> received b \<noteq> e)
      then Inl (RequestDenied ''body_truncated'')
      else Inr ())"


lemmas [eval_simps] = is_tchar_def token_def forbidden_trailers_def hop_by_hop_def pseudo_names_def
  ctl_value_def header_scan_init_def scan_header_def header_values_def framing_checks_def
  validate_headers_def header_line_def raw_http1_headers_def headers_size_def validate_trailers_def
  connection_tokens_def nominate_def forwarding_headers_def body_add_def body_finish_def
  suffix_def prefix_def

section \<open>What validated headers satisfy\<close>

text \<open>The condition on one accepted header field.\<close>

definition field_ok :: "bool \<Rightarrow> bytes \<times> bytes \<Rightarrow> bool" where
  "field_ok h2 nv \<longleftrightarrow> lower (fst nv) = fst nv \<and> \<not> ctl_value (snd nv)
     \<and> length (fst nv) \<le> 256 \<and> length (snd nv) \<le> 16384
     \<and> (if prefix '':'' (fst nv) then h2 \<and> fst nv \<in> set pseudo_names else token (fst nv))
     \<and> (h2 \<longrightarrow> fst nv \<notin> set hop_by_hop \<and> (fst nv = ''te'' \<longrightarrow> lower (snd nv) = ''trailers''))"

text \<open>Pseudo headers come first and are distinct.\<close>

fun pseudo_first :: "headers \<Rightarrow> bool" where
  "pseudo_first [] \<longleftrightarrow> True"
| "pseudo_first (nv # hs) \<longleftrightarrow>
     (if prefix '':'' (fst nv) then fst nv \<notin> fst ` set hs \<and> pseudo_first hs
      else \<forall>m \<in> set hs. \<not> prefix '':'' (fst m))"

definition headers_ok :: "bool \<Rightarrow> headers \<Rightarrow> bool" where
  "headers_ok h2 hs \<longleftrightarrow> list_all (field_ok h2) hs \<and> pseudo_first hs
     \<and> length hs \<le> 128 \<and> headers_size hs + 4 * length hs \<le> 65536
     \<and> length (header_values ''content-length'' hs) \<le> 1
     \<and> (header_values ''content-length'' hs = [] \<or> header_values ''transfer-encoding'' hs = [])
     \<and> (\<forall>v \<in> set (header_values ''content-length'' hs). dec_value v \<le> 2 ^ 63 - 1)
     \<and> (\<forall>v \<in> set (header_values ''transfer-encoding'' hs). lower v = ''chunked'')
     \<and> length (header_values ''transfer-encoding'' hs) \<le> 1"

definition scan_ok :: "bool \<Rightarrow> header_scan \<Rightarrow> bool" where
  "scan_ok h2 s \<longleftrightarrow> list_all (field_ok h2) (hs_result s) \<and> pseudo_first (hs_result s)
     \<and> length (hs_result s) \<le> 128 \<and> hs_total s = headers_size (hs_result s) + 4 * length (hs_result s)
     \<and> hs_total s \<le> 65536
     \<and> hs_regular s = (\<exists>nv \<in> set (hs_result s). \<not> prefix '':'' (fst nv))
     \<and> hs_pseudo s = map fst (filter (\<lambda>nv. prefix '':'' (fst nv)) (hs_result s))"

lemma pseudo_first_snoc:
  "pseudo_first (hs @ [nv]) \<longleftrightarrow> pseudo_first hs \<and>
     (prefix '':'' (fst nv) \<longrightarrow> (\<forall>m \<in> set hs. prefix '':'' (fst m)) \<and> fst nv \<notin> fst ` set hs)"
  by (induction hs) auto

lemma headers_size_snoc [simp]:
  "headers_size (hs @ [(n, v)]) = headers_size hs + length n + length v" "headers_size [] = 0"
  by (simp_all add: headers_size_def)

lemma scan_init_ok: "scan_ok h2 header_scan_init"
  by (simp add: scan_ok_def header_scan_init_def)

text \<open>What one iteration of the loop guarantees when it does not raise.\<close>

lemma scan_header_Inr:
  "scan_header h2 s (name, value) = Inr t \<longleftrightarrow>
     length (hs_result s) < 128 \<and> hs_total s + length name + length value + 4 \<le> 65536
     \<and> name \<noteq> [] \<and> (h2 \<longrightarrow> name = lower name)
     \<and> field_ok h2 (lower name, value)
     \<and> (prefix '':'' (lower name) \<longrightarrow> \<not> hs_regular s \<and> lower name \<notin> set (hs_pseudo s))
     \<and> t = s\<lparr>hs_result := hs_result s @ [(lower name, value)],
              hs_total := hs_total s + length name + length value + 4,
              hs_regular := hs_regular s \<or> \<not> prefix '':'' (lower name),
              hs_pseudo := hs_pseudo s @ (if prefix '':'' (lower name) then [lower name] else [])\<rparr>"
  by (cases s; cases "prefix '':'' (lower name)")
    (auto simp: scan_header_def Let_def field_ok_def)

lemma scan_header_ok: "scan_header h2 s nv = Inr t \<Longrightarrow> scan_ok h2 s \<Longrightarrow> scan_ok h2 t"
proof -
  assume step: "scan_header h2 s nv = Inr t" and ok: "scan_ok h2 s"
  obtain name val where nv: "nv = (name, val)" by (cases nv)
  note facts = step [unfolded nv scan_header_Inr]
  have "pseudo_first (hs_result s @ [(lower name, val)])"
    using facts ok by (fastforce simp: pseudo_first_snoc scan_ok_def)
  with facts ok show ?thesis
    by (cases "prefix '':'' (lower name)") (auto simp: scan_ok_def)
qed

lemma framing_checks_Inr:
  assumes "framing_checks hs = Inr hs'"
  shows "hs' = hs" "length (header_values ''content-length'' hs) \<le> 1"
    "header_values ''content-length'' hs = [] \<or> header_values ''transfer-encoding'' hs = []"
    "header_values ''content-length'' hs = [] \<or> dec_value (hd (header_values ''content-length'' hs)) \<le> 2 ^ 63 - 1"
    "length (header_values ''transfer-encoding'' hs) \<le> 1"
    "header_values ''transfer-encoding'' hs = [] \<or> lower (hd (header_values ''transfer-encoding'' hs)) = ''chunked''"
proof -
  define L where "L = header_values ''content-length'' hs"
  define T where "T = header_values ''transfer-encoding'' hs"
  have "framing_checks hs = Inr hs' \<Longrightarrow> hs' = hs \<and> length L \<le> 1 \<and> (L = [] \<or> T = [])
      \<and> (L = [] \<or> dec_value (hd L) \<le> 2 ^ 63 - 1) \<and> length T \<le> 1 \<and> (T = [] \<or> lower (hd T) = ''chunked'')"
    unfolding framing_checks_def Let_def L_def [symmetric] T_def [symmetric]
    by (auto split: if_splits)
  with assms show "hs' = hs" "length (header_values ''content-length'' hs) \<le> 1"
    "header_values ''content-length'' hs = [] \<or> header_values ''transfer-encoding'' hs = []"
    "header_values ''content-length'' hs = [] \<or> dec_value (hd (header_values ''content-length'' hs)) \<le> 2 ^ 63 - 1"
    "length (header_values ''transfer-encoding'' hs) \<le> 1"
    "header_values ''transfer-encoding'' hs = [] \<or> lower (hd (header_values ''transfer-encoding'' hs)) = ''chunked''"
    unfolding L_def T_def by blast+
qed

lemma headers_okI:
  assumes "scan_ok h2 s" and "framing_checks (hs_result s) = Inr hs"
  shows "headers_ok h2 hs"
proof -
  have one: "length xs \<le> 1 \<Longrightarrow> xs = [] \<or> P (hd xs) \<Longrightarrow> \<forall>x \<in> set xs. P x" for P and xs :: "bytes list"
    by (cases xs) auto
  note f = framing_checks_Inr [OF assms(2)]
  from assms(1) show ?thesis
    unfolding headers_ok_def scan_ok_def f(1) using f(2,3,5) one [where P = "\<lambda>v. dec_value v \<le> 2 ^ 63 - 1", OF f(2,4)]
      one [where P = "\<lambda>v. lower v = ''chunked''", OF f(5,6)]
    by (intro conjI) (elim conjE, simp)+
qed

theorem validate_headers_ok: "validate_headers h2 hs = Inr hs' \<Longrightarrow> headers_ok h2 hs'"
proof -
  assume "validate_headers h2 hs = Inr hs'"
  then obtain s where scan: "foldE (scan_header h2) header_scan_init hs = Inr s"
    and f: "framing_checks (hs_result s) = Inr hs'"
    by (auto simp: validate_headers_def result_simps)
  from scan have "scan_ok h2 s"
    by (rule foldE_invariant [where I = "scan_ok h2"]) (auto simp: scan_init_ok scan_header_ok)
  then show ?thesis using f by (rule headers_okI)
qed

text \<open>The validated headers are the input with lower-cased names, in the same order.\<close>

lemma scan_result:
  "foldE (scan_header h2) s hs = Inr t \<Longrightarrow>
   hs_result t = hs_result s @ map (\<lambda>(n, v). (lower n, v)) hs"
proof (induction hs arbitrary: s)
  case Nil
  then show ?case by simp
next
  case (Cons nv hs)
  then obtain u where u: "scan_header h2 s nv = Inr u" "foldE (scan_header h2) u hs = Inr t"
    by (auto simp: result_simps)
  obtain n v where nv: "nv = (n, v)" by (cases nv)
  from u(1) have "hs_result u = hs_result s @ [(lower n, v)]"
    unfolding nv scan_header_Inr by auto
  with Cons.IH [OF u(2)] show ?case by (simp add: nv)
qed

lemma framing_checks_result: "framing_checks hs = Inr hs' \<Longrightarrow> hs' = hs"
  by (auto simp: framing_checks_def Let_def split: if_splits)

theorem validate_headers_result:
  "validate_headers h2 hs = Inr hs' \<Longrightarrow> hs' = map (\<lambda>(n, v). (lower n, v)) hs"
  by (auto simp: validate_headers_def result_simps header_scan_init_def
      dest!: scan_result framing_checks_result)

text \<open>Validation is idempotent: an accepted list is accepted again, unchanged.\<close>

lemma scan_header_lower:
  "scan_header h2 s (name, value) = Inr t \<Longrightarrow> scan_header h2 s (lower name, value) = Inr t"
  unfolding scan_header_Inr by (auto simp: field_ok_def)

lemma scan_lower:
  "foldE (scan_header h2) s hs = Inr t \<Longrightarrow>
   foldE (scan_header h2) s (map (\<lambda>(n, v). (lower n, v)) hs) = Inr t"
proof (induction hs arbitrary: s)
  case Nil
  then show ?case by simp
next
  case (Cons nv hs)
  then show ?case
    using scan_header_lower by (cases nv) (fastforce simp: result_simps)
qed

theorem validate_headers_idem:
  "validate_headers h2 hs = Inr hs' \<Longrightarrow> validate_headers h2 hs' = Inr hs'"
proof -
  assume v: "validate_headers h2 hs = Inr hs'"
  then obtain s where scan: "foldE (scan_header h2) header_scan_init hs = Inr s"
    and f: "framing_checks (hs_result s) = Inr hs'"
    by (auto simp: validate_headers_def result_simps)
  from scan_lower [OF scan] validate_headers_result [OF v] f show ?thesis
    by (simp add: validate_headers_def)
qed

section \<open>Forwarded headers\<close>

lemma nominate_fold:
  "foldE nominate ns hs = Inr ns' \<Longrightarrow>
   set ns' = set ns \<union> (\<Union>nv \<in> {nv \<in> set hs. fst nv = ''connection''}. set (connection_tokens (snd nv)))
   \<and> (\<forall>n \<in> set ns' - set ns. token n
        \<and> n \<notin> {''host'', ''content-length'', ''authorization'', ''proxy-authorization''})"
proof (induction hs arbitrary: ns)
  case Nil
  then show ?case by simp
next
  case (Cons nv hs)
  then obtain ms where ms: "nominate ns nv = Inr ms" "foldE nominate ms hs = Inr ns'"
    by (auto simp: result_simps)
  show ?case
  proof (cases "fst nv = ''connection''")
    case True
    with ms(1) have "ms = ns @ connection_tokens (snd nv)"
      and "\<forall>n \<in> set (connection_tokens (snd nv)). token n
        \<and> n \<notin> {''host'', ''content-length'', ''authorization'', ''proxy-authorization''}"
      by (auto simp: nominate_def list_ex_iff split: if_splits)
    with Cons.IH [OF ms(2)] True show ?thesis by auto
  next
    case False
    with ms(1) have "ms = ns" by (simp add: nominate_def)
    with Cons.IH [OF ms(2)] False show ?thesis by auto
  qed
qed

definition nominated_by :: "headers \<Rightarrow> bytes set" where
  "nominated_by hs = (\<Union>nv \<in> {nv \<in> set hs. fst nv = ''connection''}. set (connection_tokens (snd nv)))"

lemma forwarding_headers_result:
  "forwarding_headers hs = Inr out \<Longrightarrow>
   out = filter (\<lambda>nv. fst nv \<notin> set hop_by_hop \<and> fst nv \<notin> nominated_by hs) hs"
proof -
  assume "forwarding_headers hs = Inr out"
  then obtain ns where fold: "foldE nominate [] hs = Inr ns"
    and out: "out = filter (\<lambda>nv. fst nv \<notin> set hop_by_hop \<union> set ns) hs"
    by (auto simp: forwarding_headers_def result_simps)
  from nominate_fold [OF fold] have "set ns = nominated_by hs" by (simp add: nominated_by_def)
  then show ?thesis unfolding out by simp
qed

lemma forwarding_keeps_protected:
  "forwarding_headers hs = Inr out \<Longrightarrow> nv \<in> set hs \<Longrightarrow>
   fst nv \<in> {''host'', ''content-length'', ''authorization'', ''proxy-authorization''} \<Longrightarrow> nv \<in> set out"
proof -
  assume f: "forwarding_headers hs = Inr out" and nv: "nv \<in> set hs"
    and p: "fst nv \<in> {''host'', ''content-length'', ''authorization'', ''proxy-authorization''}"
  from f obtain ns where fold: "foldE nominate [] hs = Inr ns" by (auto simp: forwarding_headers_def result_simps)
  have "set ns = nominated_by hs"
    using nominate_fold [OF fold] by (simp add: nominated_by_def)
  moreover have "\<forall>n \<in> set ns. n \<notin> {''host'', ''content-length'', ''authorization'', ''proxy-authorization''}"
    using nominate_fold [OF fold] by simp
  ultimately have "fst nv \<notin> nominated_by hs" using p by metis
  with p nv show ?thesis
    by (auto simp: forwarding_headers_result [OF f] hop_by_hop_def)
qed

section \<open>Body length accounting\<close>

definition body_inv :: "body_length \<Rightarrow> bool" where
  "body_inv b \<longleftrightarrow> received b \<le> 2 ^ 63 - 1 \<and> (\<forall>e. expected b = Some e \<longrightarrow> received b \<le> e)"

lemma body_add_inv: "body_add b n = Inr b' \<Longrightarrow> body_inv b'"
  by (auto simp: body_add_def body_inv_def Let_def split: if_splits option.splits)

lemma body_add_Inr:
  "body_add b n = Inr b' \<Longrightarrow> 0 \<le> n \<and> b' = b\<lparr>received := received b + nat n\<rparr>"
  by (auto simp: body_add_def Let_def split: if_splits option.splits)

lemma body_adds:
  "foldE body_add b ns = Inr b' \<Longrightarrow>
   expected b' = expected b \<and> int (received b') = int (received b) + sum_list ns"
proof (induction ns arbitrary: b)
  case Nil
  then show ?case by simp
next
  case (Cons n ns)
  then obtain c where "body_add b n = Inr c" "foldE body_add c ns = Inr b'"
    by (auto simp: result_simps)
  with Cons.IH body_add_Inr [of b n c] show ?case by fastforce
qed

section \<open>Properties\<close>

text \<open>Header fields that pass the gate are the input with lower-case names, satisfy the documented
  limits and the framing rules (at most one Content-Length, never together with Transfer-Encoding),
  and pass the gate again unchanged.\<close>

theorem validated_headers:
  assumes "validate_headers h2 hs = Inr out"
  shows "out = map (\<lambda>(n, v). (lower n, v)) hs \<and> headers_ok h2 out \<and> validate_headers h2 out = Inr out"
  using validate_headers_result [OF assms] validate_headers_ok [OF assms]
    validate_headers_idem [OF assms] by blast

theorem validated_headers_witness:
  "\<exists>out. validate_headers False [(''Host'', ''a.b''), (''Content-Length'', ''12'')] = Inr out
     \<and> out = [(''host'', ''a.b''), (''content-length'', ''12'')] \<and> headers_ok False out"
proof -
  have v: "validate_headers False [(''Host'', ''a.b''), (''Content-Length'', ''12'')]
      = Inr [(''host'', ''a.b''), (''content-length'', ''12'')]"
    by (simp add: eval_simps Let_def)
  from validated_headers [OF v] v show ?thesis by blast
qed

text \<open>What is forwarded is the input without the hop-by-hop fields and the fields nominated by
  Connection, in order, and Host, Content-Length and the authorization fields are always kept.\<close>

theorem forwarded_headers:
  assumes "forwarding_headers hs = Inr out"
  shows "out = filter (\<lambda>nv. fst nv \<notin> set hop_by_hop \<and> fst nv \<notin> nominated_by hs) hs
    \<and> {nv \<in> set hs. fst nv \<in> {''host'', ''content-length'', ''authorization'', ''proxy-authorization''}}
        \<subseteq> set out"
  using forwarding_headers_result [OF assms] forwarding_keeps_protected [OF assms] by auto

theorem forwarded_headers_witness:
  "\<exists>out. forwarding_headers [(''host'', ''a''), (''connection'', ''close, X-Y''), (''x-y'', ''1'')] = Inr out
     \<and> (''host'', ''a'') \<in> set out \<and> (''x-y'', ''1'') \<notin> set out"
proof -
  have f: "forwarding_headers [(''host'', ''a''), (''connection'', ''close, X-Y''), (''x-y'', ''1'')]
      = Inr [(''host'', ''a'')]"
    by (simp add: eval_simps Let_def)
  have "(''host'', ''a'') \<in> set [(''host'', ''a'')]"
    by (rule subsetD [OF conjunct2 [OF forwarded_headers [OF f]]]) simp
  with f show ?thesis by simp
qed

text \<open>A body is accepted exactly when its parts add up to the announced length: whatever the
  sizes of the parts, \<open>finish\<close> after them succeeds only on the exact total.\<close>

theorem body_exact_length:
  assumes "foldE body_add \<lparr>expected = Some e, received = 0\<rparr> sizes = Inr b" "body_finish b = Inr ()"
  shows "sum_list sizes = int e"
proof -
  from body_adds [OF assms(1)] have "expected b = Some e" "int (received b) = sum_list sizes" by simp_all
  with assms(2) show ?thesis by (simp add: body_finish_def split: if_splits)
qed

theorem body_exact_length_witness: "sum_list [3, 0, 4] = int (7::nat)"
  by (rule body_exact_length [where b = "\<lparr>expected = Some 7, received = 7\<rparr>"])
    (simp_all add: eval_simps Let_def)

end
