(* ===== verification/Chunked_Wire.thy ===== *)
theory Chunked_Wire
  imports Framing
begin

text \<open>
  The class \<open>ChunkedWire\<close> of \<open>framing.py\<close>: a bounded observer of the chunked transfer coding.
  Its state survives between reads, so the same bytes may arrive in any number of pieces.
\<close>

datatype wire_state = WSize | WData | WDataEnd | WTrailers | WDone

record chunked_wire =
  wstate :: wire_state
  remaining :: nat
  wline :: bytes
  wtrailers :: headers
  trailer_bytes :: nat

definition new_wire :: chunked_wire where
  "new_wire = \<lparr>wstate = WSize, remaining = 0, wline = [], wtrailers = [], trailer_bytes = 0\<rparr>"

section \<open>Chunk extensions\<close>

text \<open>
  The pattern of a complete extension list:
  \<open>[ \t]*ext([ \t]*;[ \t]*ext)*[ \t]*\<close> with \<open>ext = token([ \t]*=[ \t]*(token|quoted))?\<close>.
  No blank, semicolon or equals sign is a token character, so the greedy reading is the only one.
\<close>

definition skip_blank :: "bytes \<Rightarrow> bytes" where
  "skip_blank s = dropWhile is_blank_tab s"

definition eat_token :: "bytes \<Rightarrow> bytes option" where
  "eat_token s = (if s = [] \<or> \<not> is_tchar (hd s) then None else Some (dropWhile is_tchar s))"

definition quoted_plain :: "char \<Rightarrow> bool" where
  "quoted_plain c \<longleftrightarrow> code c = 9 \<or> code c = 32 \<or> code c = 33 \<or> (35 \<le> code c \<and> code c \<le> 91)
     \<or> (93 \<le> code c \<and> code c \<le> 126) \<or> 128 \<le> code c"

definition quoted_escaped :: "char \<Rightarrow> bool" where
  "quoted_escaped c \<longleftrightarrow> code c = 9 \<or> (32 \<le> code c \<and> code c \<le> 126) \<or> 128 \<le> code c"

text \<open>The rest of a quoted string after its opening quote.\<close>

fun eat_quoted :: "bytes \<Rightarrow> bytes option" where
  "eat_quoted [] = None"
| "eat_quoted (c # cs) =
     (if code c = 34 then Some cs
      else if code c = 92
      then (case cs of [] \<Rightarrow> None | d # ds \<Rightarrow> if quoted_escaped d then eat_quoted ds else None)
      else if quoted_plain c then eat_quoted cs else None)"

definition eat_value :: "bytes \<Rightarrow> bytes option" where
  "eat_value s = (case s of [] \<Rightarrow> None | c # cs \<Rightarrow> if code c = 34 then eat_quoted cs else eat_token s)"

definition eat_extension :: "bytes \<Rightarrow> bytes option" where
  "eat_extension s =
     (case eat_token s of
        None \<Rightarrow> None
      | Some r \<Rightarrow>
          let t = skip_blank r in
          if t \<noteq> [] \<and> hd t = CHR ''='' then eat_value (skip_blank (tl t)) else Some r)"

lemma eat_quoted_shorter: "eat_quoted s = Some r \<Longrightarrow> length r < length s"
  by (induction s rule: eat_quoted.induct) (auto split: if_splits list.splits)

lemma eat_token_shorter: "eat_token s = Some r \<Longrightarrow> length r < length s"
proof -
  assume e: "eat_token s = Some r"
  then obtain c cs where "s = c # cs" "is_tchar c" "r = dropWhile is_tchar cs"
    by (cases s) (auto simp: eat_token_def split: if_splits)
  then show ?thesis using length_dropWhile_le [of is_tchar cs] by simp
qed

lemma skip_blank_length: "length (skip_blank s) \<le> length s"
  by (simp add: skip_blank_def length_dropWhile_le)

lemma eat_extension_shorter: "eat_extension s = Some r \<Longrightarrow> length r < length s"
proof -
  assume e: "eat_extension s = Some r"
  then obtain t where t: "eat_token s = Some t" by (auto simp: eat_extension_def split: option.splits)
  have val: "eat_value u = Some r \<Longrightarrow> length r < length u" for u
    by (auto simp: eat_value_def split: list.splits if_splits dest: eat_quoted_shorter eat_token_shorter)
  show ?thesis
  proof (cases "skip_blank t \<noteq> [] \<and> hd (skip_blank t) = CHR ''=''")
    case True
    with e t have "eat_value (skip_blank (tl (skip_blank t))) = Some r"
      by (simp add: eat_extension_def Let_def)
    from val [OF this] eat_token_shorter [OF t] skip_blank_length [of t]
      skip_blank_length [of "tl (skip_blank t)"]
    show ?thesis by simp
  next
    case False
    with e t eat_token_shorter [OF t] show ?thesis by (simp add: eat_extension_def Let_def split: if_splits)
  qed
qed

function extensions_ok :: "bytes \<Rightarrow> bool" where
  "extensions_ok s =
     (case eat_extension (skip_blank s) of
        None \<Rightarrow> False
      | Some r \<Rightarrow>
          (case skip_blank r of
             [] \<Rightarrow> True
           | c # cs \<Rightarrow> if c = CHR '';'' then extensions_ok cs else False))"
  by pat_completeness auto
termination
proof (relation "measure length", goal_cases)
  case (2 s r c cs)
  have "length (c # cs) \<le> length r" using skip_blank_length [of r] 2(2) by simp
  with eat_extension_shorter [OF 2(1)] skip_blank_length [of s] show ?case by simp
qed simp

declare extensions_ok.simps [simp del]

section \<open>Feeding bytes\<close>

definition chunk_size_line :: "chunked_wire \<Rightarrow> bytes \<Rightarrow> error + chunked_wire" where
  "chunk_size_line w line =
     (case partition_on (CHR '';'') line of (size0, separator, extensions) \<Rightarrow>
      let size = (if separator then rstrip is_blank_tab size0 else size0) in
      if \<not> (list_all is_hex size \<and> 1 \<le> length size \<and> length size \<le> 16)
      then Inl (RequestDenied ''invalid_chunk_size'')
      else if hex_value size > 2 ^ 63 - 1 then Inl (RequestDenied ''chunk_size_limit'')
      else if separator \<and> \<not> extensions_ok extensions
      then Inl (RequestDenied ''invalid_chunk_extension'')
      else Inr (w\<lparr>remaining := hex_value size,
                  wstate := (if hex_value size \<noteq> 0 then WData else WTrailers)\<rparr>))"

definition chunk_trailer_line :: "chunked_wire \<Rightarrow> bytes \<Rightarrow> error + chunked_wire" where
  "chunk_trailer_line w line =
     (let w = w\<lparr>trailer_bytes := trailer_bytes w + length line + 2\<rparr> in
      if trailer_bytes w > 16384 then Inl (RequestDenied ''trailer_limit'')
      else if line = []
      then bindE (validate_trailers False (wtrailers w)) (\<lambda>_. Inr (w\<lparr>wstate := WDone\<rparr>))
      else (case partition_on (CHR '':'') line of (name, colon, value) \<Rightarrow>
        if \<not> colon \<or> \<not> token name \<or> length (wtrailers w) \<ge> 32
        then Inl (RequestDenied ''invalid_trailer_line'')
        else Inr (w\<lparr>wtrailers := wtrailers w @ [(name, strip is_blank_tab value)]\<rparr>)))"

text \<open>One byte outside chunk data: collect a line, and act when it is complete.\<close>

definition feed_char :: "chunked_wire \<Rightarrow> char \<Rightarrow> error + chunked_wire" where
  "feed_char w c =
     (let line = wline w @ [c] in
      if length line > 8192 then Inl (RequestDenied ''chunk_line_limit'')
      else if c \<noteq> LF then Inr (w\<lparr>wline := line\<rparr>)
      else if length line < 2 \<or> \<not> suffix [CR, LF] line
      then Inl (RequestDenied ''invalid_chunk_line'')
      else
        let line = take (length line - 2) line; w = w\<lparr>wline := []\<rparr> in
        (case wstate w of
           WDataEnd \<Rightarrow> if line \<noteq> [] then Inl (RequestDenied ''invalid_chunk_terminator'')
                       else Inr (w\<lparr>wstate := WSize\<rparr>)
         | WSize \<Rightarrow> chunk_size_line w line
         | WTrailers \<Rightarrow> chunk_trailer_line w line
         | _ \<Rightarrow> Inr w))"

definition consume_data :: "chunked_wire \<Rightarrow> nat \<Rightarrow> chunked_wire" where
  "consume_data w n =
     (let w = w\<lparr>remaining := remaining w - n\<rparr> in
      if remaining w = 0 then w\<lparr>wstate := WDataEnd\<rparr> else w)"

function feed :: "chunked_wire \<Rightarrow> bytes \<Rightarrow> error + chunked_wire" where
  "feed w data =
     (if data = [] \<or> wstate w = WDone then Inr w
      else if wstate w = WData
      then let consumed = min (remaining w) (length data)
           in feed (consume_data w consumed) (drop consumed data)
      else bindE (feed_char w (hd data)) (\<lambda>w'. feed w' (tl data)))"
  by pat_completeness auto
termination
  by (relation "measures [\<lambda>(w, data). length data, \<lambda>(w, data). if wstate w = WData then 1 else 0]")
    (auto simp: consume_data_def Let_def min_def)

declare feed.simps [simp del]

section \<open>Splitting the input does not matter\<close>

lemma feed_Nil [simp]: "feed w [] = Inr w"
  by (subst feed.simps) simp

lemma feed_done: "wstate w = WDone \<Longrightarrow> feed w data = Inr w"
  by (subst feed.simps) simp

lemma feed_data:
  "wstate w = WData \<Longrightarrow> data \<noteq> [] \<Longrightarrow>
   feed w data = feed (consume_data w (min (remaining w) (length data))) (drop (min (remaining w) (length data)) data)"
  by (subst feed.simps) (simp add: Let_def)

lemma feed_line:
  "wstate w \<notin> {WData, WDone} \<Longrightarrow> feed w (c # cs) = bindE (feed_char w c) (\<lambda>w'. feed w' cs)"
  by (subst feed.simps) simp

text \<open>
  Inside chunk data something is always outstanding: the size line that enters the state has a
  positive size, and the state is left when the count reaches zero.
\<close>

definition wire_inv :: "chunked_wire \<Rightarrow> bool" where
  "wire_inv w \<longleftrightarrow> (wstate w = WData \<longrightarrow> 0 < remaining w) \<and> remaining w \<le> 2 ^ 63 - 1
     \<and> length (wline w) \<le> 8192 \<and> (LF \<notin> set (wline w)) \<and> length (wtrailers w) \<le> 32
     \<and> trailer_bytes w \<le> 16384"


lemma consume_data_add:
  "n < remaining w \<Longrightarrow> consume_data (consume_data w n) m = consume_data w (n + m)"
  by (simp add: consume_data_def Let_def)

lemma consume_data_state: "n < remaining w \<Longrightarrow> wstate (consume_data w n) = wstate w"
  by (simp add: consume_data_def Let_def)

lemma remaining_consume_data [simp]: "remaining (consume_data w n) = remaining w - n"
  by (simp add: consume_data_def Let_def)

lemma feed_append: "feed w (a @ b) = bindE (feed w a) (\<lambda>w'. feed w' b)"
proof (induction w a rule: feed.induct)
  case (1 w a)
  show ?case
  proof (cases "a = [] \<or> wstate w = WDone")
    case True
    then show ?thesis by (auto simp: feed_done)
  next
    case notdone: False
    show ?thesis
    proof (cases "wstate w = WData")
      case data: True
      let ?n = "min (remaining w) (length a)"
      show ?thesis
      proof (cases "remaining w \<le> length a")
        case True
        have "feed w (a @ b) = feed (consume_data w (remaining w)) (drop (remaining w) a @ b)"
          using feed_data [OF data, of "a @ b"] True notdone by (simp add: min_def)
        also have "\<dots> = bindE (feed (consume_data w (remaining w)) (drop (remaining w) a)) (\<lambda>w'. feed w' b)"
          using "1.IH"(1) [OF notdone data refl] True by (simp add: min_def)
        also have "feed (consume_data w (remaining w)) (drop (remaining w) a) = feed w a"
          using feed_data [OF data, of a] True notdone by (simp add: min_def)
        finally show ?thesis .
      next
        case False
        then have less: "length a < remaining w" by simp
        have fa: "feed w a = Inr (consume_data w (length a))"
          using feed_data [OF data, of a] less notdone by (simp add: min_def)
        show ?thesis
        proof (cases "b = []")
          case True
          then show ?thesis by (simp add: fa)
        next
          case b: False
          let ?w = "consume_data w (length a)"
          have state: "wstate ?w = WData" using consume_data_state [OF less] data by simp
          have m: "min (remaining w) (length (a @ b)) = length a + min (remaining w - length a) (length b)"
            using less by (auto simp: min_def)
          have "feed w (a @ b) = feed (consume_data w (length a + min (remaining w - length a) (length b)))
              (drop (min (remaining w - length a) (length b)) b)"
            using feed_data [OF data, of "a @ b"] b m by simp
          also have "\<dots> = feed ?w b"
            using feed_data [OF state b] by (simp add: consume_data_add [OF less])
          finally show ?thesis by (simp add: fa)
        qed
      qed
    next
      case False
      then have line: "wstate w \<notin> {WData, WDone}" using notdone by simp
      obtain c cs where a: "a = c # cs" using notdone by (cases a) auto
      show ?thesis
      proof (cases "feed_char w c")
        case (Inl e)
        then show ?thesis by (simp add: a feed_line [OF line])
      next
        case (Inr w')
        then show ?thesis
          using "1.IH"(2) [OF notdone False] by (simp add: a feed_line [OF line])
      qed
    qed
  qed
qed

section \<open>Bounds\<close>

lemma chunk_size_line_inv:
  "chunk_size_line w line = Inr w' \<Longrightarrow> wire_inv w \<Longrightarrow> wire_inv w'"
  by (auto simp: chunk_size_line_def wire_inv_def Let_def split: prod.splits if_splits)

lemma chunk_trailer_line_inv:
  "chunk_trailer_line w line = Inr w' \<Longrightarrow> wire_inv w \<Longrightarrow> wstate w = WTrailers \<Longrightarrow> wire_inv w'"
  by (auto simp: chunk_trailer_line_def wire_inv_def Let_def result_simps split: prod.splits if_splits)

lemma feed_char_inv:
  assumes f: "feed_char w c = Inr w'" and inv: "wire_inv w" and state: "wstate w \<noteq> WData"
  shows "wire_inv w'"
proof (cases "c = LF")
  case False
  with f inv show ?thesis
    by (auto simp: feed_char_def wire_inv_def Let_def split: if_splits)
next
  case True
  let ?w = "w\<lparr>wline := []\<rparr>" and ?line = "take (length (wline w @ [c]) - 2) (wline w @ [c])"
  have inv': "wire_inv ?w" using inv by (auto simp: wire_inv_def)
  show ?thesis
  proof (cases "wstate w")
    case WSize
    with f True have "chunk_size_line ?w ?line = Inr w'"
      by (auto simp: feed_char_def Let_def split: if_splits)
    then show ?thesis using inv' by (rule chunk_size_line_inv)
  next
    case WTrailers
    with f True have "chunk_trailer_line ?w ?line = Inr w'"
      by (auto simp: feed_char_def Let_def split: if_splits)
    then show ?thesis using inv' WTrailers by (simp add: chunk_trailer_line_inv)
  next
    case WDataEnd
    with f inv True show ?thesis
      by (auto simp: feed_char_def wire_inv_def Let_def split: if_splits)
  qed (use f inv True state in \<open>auto simp: feed_char_def wire_inv_def Let_def split: if_splits\<close>)
qed

lemma consume_data_inv:
  "wire_inv w \<Longrightarrow> wstate w = WData \<Longrightarrow> wire_inv (consume_data w n)"
  by (auto simp: wire_inv_def consume_data_def Let_def)

lemma feed_inv: "feed w data = Inr w' \<Longrightarrow> wire_inv w \<Longrightarrow> wire_inv w'"
proof (induction w data rule: feed.induct)
  case (1 w data)
  show ?case
  proof (cases "data = [] \<or> wstate w = WDone")
    case True
    with "1.prems" show ?thesis by (auto simp: feed_done)
  next
    case notdone: False
    show ?thesis
    proof (cases "wstate w = WData")
      case True
      with "1.prems" notdone show ?thesis
        using "1.IH"(1) [OF notdone True refl] feed_data [OF True, of data] consume_data_inv by auto
    next
      case False
      with notdone have line: "wstate w \<notin> {WData, WDone}" by simp
      obtain c cs where d: "data = c # cs" using notdone by (cases data) auto
      with "1.prems"(1) obtain w1 where w1: "feed_char w c = Inr w1" "feed w1 cs = Inr w'"
        by (auto simp: feed_line [OF line] result_simps)
      from feed_char_inv [OF w1(1) "1.prems"(2) False] w1 "1.IH"(2) [OF notdone False] d
      show ?thesis by auto
    qed
  qed
qed

lemma new_wire_inv: "wire_inv new_wire"
  by (simp add: wire_inv_def new_wire_def)

section \<open>A well-formed body is recognised\<close>

definition chunk_wire :: "bytes \<Rightarrow> bytes" where
  "chunk_wire body = hex_str (length body) @ [CR, LF] @ body @ [CR, LF]"

definition encode_body :: "bytes list \<Rightarrow> bytes" where
  "encode_body chunks = List.maps chunk_wire chunks @ ''0'' @ [CR, LF, CR, LF]"

text \<open>A line without LF is collected byte by byte and acted on at its CR LF.\<close>

lemma feed_collect:
  assumes "wstate w \<notin> {WData, WDone}" "LF \<notin> set s" "length (wline w) + length s \<le> 8192"
  shows "feed w (s @ rest) = feed (w\<lparr>wline := wline w @ s\<rparr>) rest"
  using assms
proof (induction s arbitrary: w)
  case Nil
  then show ?case by simp
next
  case (Cons c s)
  let ?w = "w\<lparr>wline := wline w @ [c]\<rparr>"
  have "feed_char w c = Inr ?w"
    using Cons.prems by (auto simp: feed_char_def Let_def)
  then have "feed w (c # s @ rest) = feed ?w (s @ rest)"
    using Cons.prems(1) by (simp add: feed_line)
  also have "\<dots> = feed (?w\<lparr>wline := wline ?w @ s\<rparr>) rest"
    using Cons.prems by (intro Cons.IH) auto
  finally show ?case by simp
qed

lemma feed_full_line:
  assumes "wstate w \<notin> {WData, WDone}" "wline w = []" "LF \<notin> set s" "length s + 2 \<le> 8192"
  shows "feed w (s @ CR # LF # rest) =
    bindE (case wstate w of
             WDataEnd \<Rightarrow> if s \<noteq> [] then Inl (RequestDenied ''invalid_chunk_terminator'')
                         else Inr (w\<lparr>wstate := WSize\<rparr>)
           | WSize \<Rightarrow> chunk_size_line w s
           | WTrailers \<Rightarrow> chunk_trailer_line w s
           | _ \<Rightarrow> Inr w) (\<lambda>w'. feed w' rest)"
proof -
  let ?w = "w\<lparr>wline := s @ [CR]\<rparr>"
  have "feed w ((s @ [CR]) @ LF # rest) = feed ?w (LF # rest)"
    using assms by (subst feed_collect) auto
  moreover have "feed ?w (LF # rest) = bindE (feed_char ?w LF) (\<lambda>w'. feed w' rest)"
    using assms(1) by (intro feed_line) auto
  moreover have "feed_char ?w LF =
    (case wstate w of
       WDataEnd \<Rightarrow> if s \<noteq> [] then Inl (RequestDenied ''invalid_chunk_terminator'')
                   else Inr (w\<lparr>wstate := WSize\<rparr>)
     | WSize \<Rightarrow> chunk_size_line w s
     | WTrailers \<Rightarrow> chunk_trailer_line w s
     | _ \<Rightarrow> Inr w)"
  proof -
    have "w\<lparr>wline := []\<rparr> = w" using assms(2) by simp
    moreover have "suffix [CR, LF] (s @ [CR, LF])" by (simp add: suffix_def)
    ultimately show ?thesis
      using assms(4) by (simp add: feed_char_def Let_def split: wire_state.split)
  qed
  ultimately show ?thesis by simp
qed

lemma chunk_size_line_hex:
  "n \<le> 2 ^ 63 - 1 \<Longrightarrow> chunk_size_line w (hex_str n) =
     Inr (w\<lparr>remaining := n, wstate := (if n \<noteq> 0 then WData else WTrailers)\<rparr>)"
proof -
  assume n: "n \<le> 2 ^ 63 - 1"
  have "CHR '';'' \<notin> set (hex_str n)"
    using hex_str_lower [of "CHR '';''" n] by (auto simp: is_hex_def is_digit_def)
  then have "partition_on (CHR '';'') (hex_str n) = (hex_str n, False, [])"
    by (simp add: partition_on_absent)
  moreover have "length (hex_str n) \<le> 16" using n by (intro length_hex_str) auto
  moreover have "1 \<le> length (hex_str n)" using hex_str_digits(2) [of n] by (cases "hex_str n") auto
  ultimately show ?thesis
    using n by (auto simp: chunk_size_line_def Let_def hex_str_digits)
qed

lemma hex_str_no_LF: "LF \<notin> set (hex_str n)"
  using hex_str_lower [of LF n] by (auto simp: is_hex_def is_digit_def)

lemma feed_chunk:
  assumes "wstate w = WSize" "wline w = []" "body \<noteq> []" "length body \<le> 2 ^ 63 - 1"
  shows "feed w (chunk_wire body @ rest) = feed (w\<lparr>remaining := 0\<rparr>) rest"
proof -
  let ?n = "length body" and ?tail = "body @ CR # LF # rest"
  let ?w = "w\<lparr>remaining := ?n, wstate := WData\<rparr>"
  have len: "length (hex_str ?n) + 2 \<le> 8192"
    using length_hex_str [of ?n 16] assms(4) by simp
  have "feed w (hex_str ?n @ CR # LF # ?tail) = feed ?w ?tail"
    using assms by (subst feed_full_line [OF _ _ _ len]) (auto simp: hex_str_no_LF chunk_size_line_hex)
  also have "\<dots> = feed (consume_data ?w ?n) (CR # LF # rest)"
    using assms(3) by (subst feed_data) (auto simp: min_def)
  also have "consume_data ?w ?n = w\<lparr>remaining := 0, wstate := WDataEnd\<rparr>"
    by (simp add: consume_data_def)
  also have "feed (w\<lparr>remaining := 0, wstate := WDataEnd\<rparr>) (CR # LF # rest) = feed (w\<lparr>remaining := 0\<rparr>) rest"
    using feed_full_line [of "w\<lparr>remaining := 0, wstate := WDataEnd\<rparr>" "[]" rest] assms(1,2)
    by (cases w) simp
  finally show ?thesis by (simp add: chunk_wire_def)
qed

lemma feed_chunks:
  assumes "wstate w = WSize" "wline w = []" "remaining w = 0"
    and "\<forall>body \<in> set chunks. body \<noteq> [] \<and> length body \<le> 2 ^ 63 - 1"
  shows "feed w (List.maps chunk_wire chunks @ rest) = feed w rest"
  using assms(4)
proof (induction chunks)
  case Nil
  then show ?case by simp
next
  case (Cons body chunks)
  have same: "w\<lparr>remaining := 0\<rparr> = w" using assms(3) by simp
  have "feed w (chunk_wire body @ List.maps chunk_wire chunks @ rest)
      = feed w (List.maps chunk_wire chunks @ rest)"
    using feed_chunk [OF assms(1,2)] Cons.prems same by simp
  with Cons show ?case by simp
qed

lemma feed_encoded_body:
  assumes "\<forall>body \<in> set chunks. body \<noteq> [] \<and> length body \<le> 2 ^ 63 - 1"
  shows "feed new_wire (encode_body chunks @ rest) =
    Inr (new_wire\<lparr>wstate := WDone, trailer_bytes := 2\<rparr>)"
proof -
  let ?w = "new_wire\<lparr>wstate := WTrailers\<rparr>"
  have hex0: "hex_str 0 = ''0''" by (simp add: hex_str_cases digit_char_def char_of_eq_iff)
  have "feed new_wire (encode_body chunks @ rest) = feed new_wire (''0'' @ CR # LF # CR # LF # rest)"
    using feed_chunks [of new_wire chunks "''0'' @ CR # LF # CR # LF # rest"] assms
    by (simp add: encode_body_def new_wire_def)
  also have "\<dots> = feed ?w ([] @ CR # LF # rest)"
    using feed_full_line [of new_wire "''0''" "CR # LF # rest"] chunk_size_line_hex [of 0 new_wire] hex0
    by (simp add: new_wire_def)
  also have "\<dots> = feed (new_wire\<lparr>wstate := WDone, trailer_bytes := 2\<rparr>) rest"
    by (subst feed_full_line) (auto simp: new_wire_def chunk_trailer_line_def validate_trailers_def
        validate_headers_def header_scan_init_def framing_checks_def header_values_def headers_size_def
        numeral_2_eq_2)
  finally show ?thesis by (simp add: feed_done)
qed

section \<open>Properties\<close>

text \<open>C36: The chunk observer does not depend on how the bytes are cut into reads: feeding the pieces
  one after the other is feeding their concatenation, accepted or rejected alike.\<close>

theorem feed_split_independent: "foldE feed w pieces = feed w (concat pieces)"
proof (induction pieces arbitrary: w)
  case Nil
  then show ?case by (subst feed.simps) simp
next
  case (Cons p ps)
  then show ?case by (simp add: feed_append)
qed

text \<open>Whatever bytes arrive, the observer stays within its bounds: a line of at most 8192 bytes,
  at most 32 trailers in at most 16384 bytes, and a chunk size below 2^63.\<close>

theorem feed_bounded:
  assumes "feed new_wire bytes = Inr w"
  shows "length (wline w) \<le> 8192 \<and> length (wtrailers w) \<le> 32 \<and> trailer_bytes w \<le> 16384
    \<and> remaining w \<le> 2 ^ 63 - 1 \<and> (wstate w = WData \<longrightarrow> 0 < remaining w)"
  using feed_inv [OF assms new_wire_inv] by (simp add: wire_inv_def)

theorem feed_bounded_witness:
  "\<exists>w. feed new_wire (''5'' @ [CR, LF] @ ''ab'') = Inr w \<and> remaining w = 3 \<and> remaining w \<le> 2 ^ 63 - 1"
proof -
  have f: "feed new_wire (''5'' @ [CR, LF] @ ''ab'') = Inr (new_wire\<lparr>wstate := WData, remaining := 3\<rparr>)"
    by (simp add: feed.simps [of _ "_ # _"] feed.simps [of _ "[]"] eval_simps Let_def new_wire_def
        consume_data_def chunk_size_line_def feed_char_def)
  have "remaining (new_wire\<lparr>wstate := WData, remaining := 3\<rparr>) \<le> 2 ^ 63 - 1"
    using feed_bounded [OF f] by blast
  with f show ?thesis by (intro exI [of _ "new_wire\<lparr>wstate := WData, remaining := 3\<rparr>"]) simp
qed

text \<open>C37: A body in chunked coding, whatever its chunks and whatever follows it, is read to its end:
  the observer finishes, and the bytes of the next message are not touched.\<close>

theorem chunked_body_recognised:
  assumes "\<forall>body \<in> set chunks. body \<noteq> [] \<and> length body \<le> 2 ^ 63 - 1"
  shows "feed new_wire (encode_body chunks @ rest) = Inr (new_wire\<lparr>wstate := WDone, trailer_bytes := 2\<rparr>)"
  by (rule feed_encoded_body [OF assms])

theorem chunked_body_recognised_witness:
  "feed new_wire (encode_body [''abc'', ''d''] @ ''GET'') = Inr (new_wire\<lparr>wstate := WDone, trailer_bytes := 2\<rparr>)"
  by (rule chunked_body_recognised) simp

end
