(* ===== verification/Base64.thy ===== *)
theory Base64
  imports Prelude
begin

text \<open>
  \<open>base64.b64encode\<close> and the strict \<open>base64.b64decode(..., validate=True)\<close>, with the round trip
  that the callers rely on when they compare a re-encoded value with the original text.
\<close>

definition b64_char :: "nat \<Rightarrow> char" where
  "b64_char n =
     (if n < 26 then char_of (n + 65) else if n < 52 then char_of (n + 71)
      else if n < 62 then char_of (n - 4) else if n = 62 then CHR ''+'' else CHR ''/'')"

definition b64_val :: "char \<Rightarrow> nat option" where
  "b64_val c =
     (if is_upper_alpha c then Some (code c - 65) else if is_lower_alpha c then Some (code c - 71)
      else if is_digit c then Some (code c + 4) else if c = CHR ''+'' then Some 62
      else if c = CHR ''/'' then Some 63 else None)"

fun b64_encode :: "bytes \<Rightarrow> bytes" where
  "b64_encode [] = []"
| "b64_encode [a] = [b64_char (code a div 4), b64_char (code a mod 4 * 16), CHR ''='', CHR ''='']"
| "b64_encode [a, b] =
     [b64_char (code a div 4), b64_char (code a mod 4 * 16 + code b div 16),
      b64_char (code b mod 16 * 4), CHR ''='']"
| "b64_encode (a # b # c # rest) =
     b64_char (code a div 4) # b64_char (code a mod 4 * 16 + code b div 16)
       # b64_char (code b mod 16 * 4 + code c div 64) # b64_char (code c mod 64) # b64_encode rest"

text \<open>One padded last group, or a full group followed by more text.\<close>

definition b64_pad2 :: "char \<Rightarrow> char \<Rightarrow> bytes option" where
  "b64_pad2 w x =
     (case (b64_val w, b64_val x) of
        (Some p, Some q) \<Rightarrow> Some [char_of (p * 4 + q div 16)] | _ \<Rightarrow> None)"

definition b64_pad1 :: "char \<Rightarrow> char \<Rightarrow> char \<Rightarrow> bytes option" where
  "b64_pad1 w x y =
     (case (b64_val w, b64_val x, b64_val y) of
        (Some p, Some q, Some r) \<Rightarrow>
          Some [char_of (p * 4 + q div 16), char_of (q mod 16 * 16 + r div 4)]
      | _ \<Rightarrow> None)"

definition b64_full :: "char \<Rightarrow> char \<Rightarrow> char \<Rightarrow> char \<Rightarrow> bytes option" where
  "b64_full w x y z =
     (case (b64_val w, b64_val x, b64_val y, b64_val z) of
        (Some p, Some q, Some r, Some s) \<Rightarrow>
          Some [char_of (p * 4 + q div 16), char_of (q mod 16 * 16 + r div 4), char_of (r mod 4 * 64 + s)]
      | _ \<Rightarrow> None)"

fun b64_decode :: "bytes \<Rightarrow> bytes option" where
  "b64_decode [] = Some []"
| "b64_decode (w # x # y # z # rest) =
     (if rest = [] \<and> z = CHR ''=''
      then (if y = CHR ''='' then b64_pad2 w x else b64_pad1 w x y)
      else (case (b64_full w x y z, b64_decode rest) of
              (Some g, Some t) \<Rightarrow> Some (g @ t) | _ \<Rightarrow> None))"
| "b64_decode _ = None"

lemma b64_val_char: "n < 64 \<Longrightarrow> b64_val (b64_char n) = Some n"
proof -
  assume n: "n < 64"
  consider "n < 26" | "26 \<le> n" "n < 52" | "52 \<le> n" "n < 62" | "n = 62" | "n = 63"
    using n by linarith
  then show ?thesis
    by cases (auto simp: b64_val_def b64_char_def is_upper_alpha_def is_lower_alpha_def is_digit_def
        char_of_eq_iff take_bit_eq_mod)
qed

lemma b64_char_not_pad: "n < 64 \<Longrightarrow> b64_char n \<noteq> CHR ''=''"
proof
  assume n: "n < 64" and eq: "b64_char n = CHR ''=''"
  from b64_val_char [OF n] eq show False
    by (simp add: b64_val_def is_upper_alpha_def is_lower_alpha_def is_digit_def)
qed

lemma div_mod_64: "(k::nat) < 256 \<Longrightarrow> k div 4 < 64" "(k::nat) < 256 \<Longrightarrow> k div 16 < 16"
    "(k::nat) < 256 \<Longrightarrow> k div 64 < 4"
  by auto

text \<open>The sextets that \<open>b64_encode\<close> renders are in range, and they give the octets back.\<close>

lemma sextets:
  fixes a b c :: char
  shows "code a div 4 < 64" "code a mod 4 * 16 < 64" "code a mod 4 * 16 + code b div 16 < 64"
    "code b mod 16 * 4 < 64" "code b mod 16 * 4 + code c div 64 < 64" "code c mod 64 < 64"
proof -
  have lt: "code a < 256" "code b < 256" "code c < 256" by simp_all
  have m: "code a mod 4 \<le> 3" "code b mod 16 \<le> 15" by (simp_all add: le_simps)
  have d: "code a div 4 < 64" "code b div 16 < 16" "code c div 64 < 4"
    using div_mod_64 lt by blast+
  from m d show "code a div 4 < 64" "code a mod 4 * 16 < 64" "code a mod 4 * 16 + code b div 16 < 64"
    "code b mod 16 * 4 < 64" "code b mod 16 * 4 + code c div 64 < 64" "code c mod 64 < 64"
    by auto
qed

lemma octets:
  fixes a b c :: nat
  assumes "a < 256" "b < 256" "c < 256"
  shows "a div 4 * 4 + (a mod 4 * 16 + b div 16) div 16 = a"
    "a div 4 * 4 + (a mod 4 * 16) div 16 = a"
    "(a mod 4 * 16 + b div 16) mod 16 * 16 + (b mod 16 * 4 + c div 64) div 4 = b"
    "(a mod 4 * 16 + b div 16) mod 16 * 16 + (b mod 16 * 4) div 4 = b"
    "(b mod 16 * 4 + c div 64) mod 4 * 64 + c mod 64 = c"
proof -
  have "b div 16 < 16" "c div 64 < 4" using assms by auto
  then have q: "(a mod 4 * 16 + b div 16) div 16 = a mod 4" "(a mod 4 * 16 + b div 16) mod 16 = b div 16"
    "(b mod 16 * 4 + c div 64) div 4 = b mod 16" "(b mod 16 * 4 + c div 64) mod 4 = c div 64"
    by simp_all
  show "a div 4 * 4 + (a mod 4 * 16 + b div 16) div 16 = a"
    "a div 4 * 4 + (a mod 4 * 16) div 16 = a"
    "(a mod 4 * 16 + b div 16) mod 16 * 16 + (b mod 16 * 4 + c div 64) div 4 = b"
    "(a mod 4 * 16 + b div 16) mod 16 * 16 + (b mod 16 * 4) div 4 = b"
    "(b mod 16 * 4 + c div 64) mod 4 * 64 + c mod 64 = c"
    unfolding q by simp_all
qed

lemma char_of_code: "char_of (code c) = (c :: char)"
  by simp

lemma b64_full_encode:
  "b64_full (b64_char (code a div 4)) (b64_char (code a mod 4 * 16 + code b div 16))
     (b64_char (code b mod 16 * 4 + code c div 64)) (b64_char (code c mod 64)) = Some [a, b, c]"
  unfolding b64_full_def b64_val_char [OF sextets(1)] b64_val_char [OF sextets(3)]
    b64_val_char [OF sextets(5)] b64_val_char [OF sextets(6)]
  by (simp only: option.case prod.case octets [OF code_lt_256 code_lt_256 code_lt_256] char_of_code)

lemma b64_pad1_encode:
  "b64_pad1 (b64_char (code a div 4)) (b64_char (code a mod 4 * 16 + code b div 16))
     (b64_char (code b mod 16 * 4)) = Some [a, b]"
  unfolding b64_pad1_def b64_val_char [OF sextets(1)] b64_val_char [OF sextets(3)]
    b64_val_char [OF sextets(4)]
  by (simp only: option.case prod.case octets [OF code_lt_256 code_lt_256 code_lt_256] char_of_code)

lemma b64_pad2_encode:
  "b64_pad2 (b64_char (code a div 4)) (b64_char (code a mod 4 * 16)) = Some [a]"
  unfolding b64_pad2_def b64_val_char [OF sextets(1)] b64_val_char [OF sextets(2)]
  by (simp only: option.case prod.case octets [OF code_lt_256 code_lt_256 code_lt_256] char_of_code)

lemma b64_decode_encode: "b64_decode (b64_encode s) = Some s"
  by (induction s rule: b64_encode.induct)
    (simp_all add: b64_pad2_encode b64_pad1_encode b64_full_encode
      b64_char_not_pad [OF sextets(4)] b64_char_not_pad [OF sextets(6)])

lemmas [eval_simps] = b64_char_def b64_val_def b64_pad2_def b64_pad1_def b64_full_def

end
