(* ===== verification/Websocket.thy ===== *)
theory Websocket
  imports Framing Base64
begin

text \<open>
  The opening-handshake checks of \<open>ads_sandbox_egress/websocket.py\<close>. The SHA-1 digest is a
  parameter of the response check; the byte relay that follows the handshake is not modelled.
\<close>

section \<open>Header lists\<close>

definition one_header :: "headers \<Rightarrow> bytes \<Rightarrow> error + bytes" where
  "one_header hs name =
     (case header_values name hs of
        [v] \<Rightarrow> Inr v
      | _ \<Rightarrow> Inl (RequestDenied ''websocket_singleton_header''))"

definition ws_protocols :: "headers \<Rightarrow> error + bytes list" where
  "ws_protocols hs =
     (let values = concat (map (\<lambda>v. map (strip is_bytes_space) (split_on (CHR '','') v))
                     (header_values ''sec-websocket-protocol'' hs))
      in if list_ex (\<lambda>v. \<not> token v) values \<or> \<not> distinct values
         then Inl (RequestDenied ''websocket_subprotocol'') else Inr values)"

text \<open>The quoted parameter pattern: printable text with backslash escapes between two quotes.\<close>

fun quoted_body :: "bytes \<Rightarrow> bytes option" where
  "quoted_body [] = None"
| "quoted_body (c # cs) =
     (if code c = 34 then (if cs = [] then Some [] else None)
      else if code c = 92
      then (case cs of [] \<Rightarrow> None
            | d # ds \<Rightarrow> if d = LF then None else map_option ((#) d) (quoted_body ds))
      else if c = CR \<or> c = LF then None
      else map_option ((#) c) (quoted_body cs))"

definition ws_parameter :: "bytes \<Rightarrow> error + unit" where
  "ws_parameter parameter =
     (case partition_on (CHR ''='') parameter of (name, separator, val) \<Rightarrow>
        if \<not> token (strip is_bytes_space name)
        then Inl (RequestDenied ''websocket_extension_parameter'')
        else if \<not> separator then Inr ()
        else
          let val = strip is_bytes_space val in
          bindE (if val \<noteq> [] \<and> code (hd val) = 34
                 then (case quoted_body (tl val) of
                         None \<Rightarrow> Inl (RequestDenied ''websocket_extension_parameter'')
                       | Some u \<Rightarrow> Inr u)
                 else Inr val)
            (\<lambda>v. if \<not> token v then Inl (RequestDenied ''websocket_extension_parameter'') else Inr ()))"

definition ws_extension :: "bytes \<Rightarrow> error + bytes" where
  "ws_extension part =
     (let items = map (strip is_bytes_space) (split_on (CHR '';'') part); tok = hd items in
      if \<not> token tok then Inl (RequestDenied ''websocket_extension_syntax'')
      else bindE (mapE ws_parameter (tl items)) (\<lambda>_. Inr tok))"

definition ws_extensions :: "headers \<Rightarrow> error + bytes list" where
  "ws_extensions hs =
     mapE ws_extension
       (concat (map (split_on (CHR '','')) (header_values ''sec-websocket-extensions'' hs)))"

section \<open>The HTTP/1.1 transition\<close>

definition transition_headers :: "headers \<Rightarrow> error + headers" where
  "transition_headers hs =
     bindE (validate_headers False hs) (\<lambda>flds.
       let tokens = concat (map connection_tokens (header_values ''connection'' flds)) in
       bindE (one_header flds ''upgrade'') (\<lambda>up.
         if lower up \<noteq> ''websocket'' \<or> ''upgrade'' \<notin> set tokens \<or> ''close'' \<in> set tokens
            \<or> list_ex (prefix ''sec-websocket-'') tokens
         then Inl (RequestDenied ''websocket_upgrade_fields'')
         else bindE (forwarding_headers flds) (\<lambda>fwd.
           Inr (fwd @ [(''connection'', ''Upgrade''), (''upgrade'', ''websocket'')]))))"

definition ws_request_headers :: "bytes \<Rightarrow> headers \<Rightarrow> error + headers" where
  "ws_request_headers meth hs =
     bindE (transition_headers hs) (\<lambda>flds.
       if meth \<noteq> ''GET'' then Inl (RequestDenied ''websocket_opening_request'')
       else bindE (one_header flds ''sec-websocket-version'') (\<lambda>version.
         if version \<noteq> ''13''
            \<or> list_ex (\<lambda>(n, v). n = ''transfer-encoding'' \<or> (n = ''content-length'' \<and> dec_value v \<noteq> 0)) hs
            \<or> list_ex (\<lambda>(n, v). n = ''sec-websocket-accept'' \<or> n = ''expect'') hs
         then Inl (RequestDenied ''websocket_opening_request'')
         else bindE (one_header flds ''sec-websocket-key'') (\<lambda>key.
           case b64_decode key of
             None \<Rightarrow> Inl (RequestDenied ''websocket_key'')
           | Some nonce \<Rightarrow>
               if length nonce \<noteq> 16 \<or> b64_encode nonce \<noteq> key
               then Inl (RequestDenied ''websocket_key'')
               else bindE (ws_protocols flds) (\<lambda>_. bindE (ws_extensions flds) (\<lambda>_. Inr flds)))))"

text \<open>
  \<open>_negotiated\<close>: the generator over the request's protocols and extensions is evaluated only when
  the response selected something.
\<close>

definition negotiated :: "headers \<Rightarrow> headers \<Rightarrow> error + unit" where
  "negotiated request flds =
     bindE (ws_protocols flds) (\<lambda>selected.
       if length selected > 1 \<or> length (header_values ''sec-websocket-protocol'' flds) > 1
       then Inl (RequestDenied ''websocket_unoffered_negotiation'')
       else bindE (if selected = [] then Inr [] else ws_protocols request) (\<lambda>offered.
         if list_ex (\<lambda>v. v \<notin> set offered) selected
         then Inl (RequestDenied ''websocket_unoffered_negotiation'')
         else bindE (ws_extensions flds) (\<lambda>exts.
           bindE (if exts = [] then Inr [] else ws_extensions request) (\<lambda>offered_exts.
             if list_ex (\<lambda>v. v \<notin> set offered_exts) exts
             then Inl (RequestDenied ''websocket_unoffered_negotiation'')
             else Inr ()))))"

definition ws_guid :: bytes where
  "ws_guid = ''258EAFA5-E914-47DA-95CA-C5AB0DC85B11''"

definition ws_response_headers :: "(bytes \<Rightarrow> bytes) \<Rightarrow> headers \<Rightarrow> headers \<Rightarrow> error + headers" where
  "ws_response_headers sha1 request response =
     bindE (transition_headers response) (\<lambda>flds.
       if list_ex (\<lambda>(n, v). n \<in> {''content-length'', ''transfer-encoding'', ''sec-websocket-key''}) response
       then Inl (RequestDenied ''websocket_opening_response'')
       else bindE (one_header request ''sec-websocket-key'') (\<lambda>key.
         bindE (one_header flds ''sec-websocket-accept'') (\<lambda>accept.
           if accept \<noteq> b64_encode (sha1 (key @ ws_guid))
           then Inl (RequestDenied ''websocket_accept'')
           else bindE (negotiated request flds) (\<lambda>_. Inr flds))))"

section \<open>The HTTP/2 transition\<close>

definition ws_h2_request :: "headers \<Rightarrow> error + unit" where
  "ws_h2_request hs =
     bindE (validate_headers True hs) (\<lambda>flds.
       bindE (one_header flds '':method'') (\<lambda>meth.
         if meth \<noteq> ''CONNECT'' then Inl (RequestDenied ''websocket_h2_request'')
         else bindE (one_header flds '':protocol'') (\<lambda>proto.
           if proto \<noteq> ''websocket'' then Inl (RequestDenied ''websocket_h2_request'')
           else bindE (one_header flds '':authority'') (\<lambda>auth.
             if auth = [] then Inl (RequestDenied ''websocket_h2_request'')
             else bindE (one_header flds ''sec-websocket-version'') (\<lambda>version.
               if version \<noteq> ''13'' \<or> list_ex (\<lambda>(n, v). n = ''content-length'' \<or> n = ''expect'') flds
               then Inl (RequestDenied ''websocket_h2_request'')
               else bindE (ws_protocols flds) (\<lambda>_. bindE (ws_extensions flds) (\<lambda>_. Inr ())))))))"

definition ws_h2_response :: "headers \<Rightarrow> headers \<Rightarrow> error + unit" where
  "ws_h2_response request response =
     bindE (validate_headers True response) (\<lambda>flds.
       if list_ex (\<lambda>(n, v). n = ''content-length'') flds
       then Inl (RequestDenied ''websocket_h2_response'')
       else negotiated request flds)"

lemmas [eval_simps] = one_header_def ws_protocols_def ws_parameter_def ws_extension_def
  ws_extensions_def transition_headers_def ws_request_headers_def negotiated_def ws_guid_def
  ws_response_headers_def ws_h2_request_def ws_h2_response_def

section \<open>Facts\<close>

lemma one_header_Inr: "one_header hs n = Inr v \<longleftrightarrow> header_values n hs = [v]"
  by (auto simp: one_header_def split: list.splits)

lemma header_values_append: "header_values n (hs @ hs') = header_values n hs @ header_values n hs'"
  by (simp add: header_values_def)

lemma negotiated_Inr:
  assumes "negotiated request flds = Inr ()"
  obtains selected exts where "ws_protocols flds = Inr selected" "length selected \<le> 1"
    "selected = [] \<or> (\<exists>offered. ws_protocols request = Inr offered \<and> set selected \<subseteq> set offered)"
    "ws_extensions flds = Inr exts"
    "exts = [] \<or> (\<exists>offered. ws_extensions request = Inr offered \<and> set exts \<subseteq> set offered)"
  using assms
  by (auto simp: negotiated_def result_simps list_ex_iff subset_iff split: if_splits)

text \<open>The transition keeps exactly one upgrade offer: the one it writes itself.\<close>

lemma transition_headers_result:
  assumes "transition_headers hs = Inr flds"
  obtains valid fwd where "validate_headers False hs = Inr valid" "forwarding_headers valid = Inr fwd"
    "flds = fwd @ [(''connection'', ''Upgrade''), (''upgrade'', ''websocket'')]"
    "\<exists>up. header_values ''upgrade'' valid = [up] \<and> lower up = ''websocket''"
    "''upgrade'' \<in> nominated_by valid" "''close'' \<notin> nominated_by valid"
proof -
  from assms obtain valid up fwd where valid: "validate_headers False hs = Inr valid"
    and up: "one_header valid ''upgrade'' = Inr up" "lower up = ''websocket''"
    and toks: "''upgrade'' \<in> set (concat (map connection_tokens (header_values ''connection'' valid)))"
      "''close'' \<notin> set (concat (map connection_tokens (header_values ''connection'' valid)))"
    and fwd: "forwarding_headers valid = Inr fwd"
      "flds = fwd @ [(''connection'', ''Upgrade''), (''upgrade'', ''websocket'')]"
    by (auto simp: transition_headers_def result_simps Let_def split: if_splits)
  have "set (concat (map connection_tokens (header_values ''connection'' valid))) = nominated_by valid"
    by (auto simp: nominated_by_def header_values_def)
  with valid up toks fwd show thesis by (intro that) (auto simp: one_header_Inr)
qed

lemma transition_headers_upgrade:
  assumes "transition_headers hs = Inr flds"
  shows "header_values ''upgrade'' flds = [''websocket'']"
    "header_values ''connection'' flds = [''Upgrade'']"
    "header_values ''transfer-encoding'' flds = []"
proof -
  from assms obtain valid fwd where fwd: "forwarding_headers valid = Inr fwd"
    and flds: "flds = fwd @ [(''connection'', ''Upgrade''), (''upgrade'', ''websocket'')]"
    by (rule transition_headers_result)
  have "n \<in> set hop_by_hop \<Longrightarrow> header_values n fwd = []" for n
    unfolding forwarding_headers_result [OF fwd] header_values_def by (auto simp: filter_empty_conv)
  then show "header_values ''upgrade'' flds = [''websocket'']"
    "header_values ''connection'' flds = [''Upgrade'']"
    "header_values ''transfer-encoding'' flds = []"
    unfolding flds header_values_append by (simp_all add: hop_by_hop_def header_values_def)
qed

section \<open>Properties\<close>

text \<open>An accepted websocket response proves possession of the request key, selects at most one of
  the offered subprotocols and only offered extensions, and leaves exactly one Upgrade and one
  Connection field. SHA-1 is a parameter.\<close>

theorem websocket_response_sound:
  assumes "ws_response_headers sha1 request response = Inr flds"
  shows "(\<exists>key. header_values ''sec-websocket-key'' request = [key]
      \<and> header_values ''sec-websocket-accept'' flds = [b64_encode (sha1 (key @ ws_guid))])
    \<and> header_values ''upgrade'' flds = [''websocket''] \<and> header_values ''connection'' flds = [''Upgrade'']
    \<and> (\<exists>selected. ws_protocols flds = Inr selected \<and> length selected \<le> 1 \<and>
        (selected = [] \<or> (\<exists>offered. ws_protocols request = Inr offered \<and> set selected \<subseteq> set offered)))
    \<and> (\<exists>exts. ws_extensions flds = Inr exts \<and>
        (exts = [] \<or> (\<exists>offered. ws_extensions request = Inr offered \<and> set exts \<subseteq> set offered)))"
proof -
  from assms obtain key where t: "transition_headers response = Inr flds"
    and key: "header_values ''sec-websocket-key'' request = [key]"
    and accept: "header_values ''sec-websocket-accept'' flds = [b64_encode (sha1 (key @ ws_guid))]"
    and neg: "negotiated request flds = Inr ()"
    unfolding ws_response_headers_def bindE_eq_Inr
    by (auto simp: one_header_Inr bindE_eq_Inr split: if_split_asm)
  from negotiated_Inr [OF neg] obtain selected exts where
    "ws_protocols flds = Inr selected" "length selected \<le> 1"
    "selected = [] \<or> (\<exists>offered. ws_protocols request = Inr offered \<and> set selected \<subseteq> set offered)"
    "ws_extensions flds = Inr exts"
    "exts = [] \<or> (\<exists>offered. ws_extensions request = Inr offered \<and> set exts \<subseteq> set offered)"
    by metis
  with key accept transition_headers_upgrade [OF t] show ?thesis by blast
qed

theorem websocket_response_sound_witness:
  "\<exists>flds. ws_response_headers (\<lambda>_. ''abc'') [(''sec-websocket-key'', ''k'')]
      [(''Upgrade'', ''websocket''), (''Connection'', ''Upgrade''), (''Sec-WebSocket-Accept'', ''YWJj'')] = Inr flds
    \<and> header_values ''upgrade'' flds = [''websocket'']"
proof -
  have r: "ws_response_headers (\<lambda>_. ''abc'') [(''sec-websocket-key'', ''k'')]
      [(''Upgrade'', ''websocket''), (''Connection'', ''Upgrade''), (''Sec-WebSocket-Accept'', ''YWJj'')]
      = Inr [(''sec-websocket-accept'', ''YWJj''), (''connection'', ''Upgrade''), (''upgrade'', ''websocket'')]"
    by (simp add: eval_simps Let_def)
  from websocket_response_sound [OF r] r show ?thesis by blast
qed

end
