(* ===== verification/Ip_Address.thy ===== *)
theory Ip_Address
  imports Prelude
begin

text \<open>
  The part of Python's \<open>ipaddress\<close> module (Python 3.12) that the egress service calls:
  parsing of the text forms, the canonical text form, IPv4-mapped addresses and membership of
  an address in a network. An address is its integer; zone identifiers are rejected by every
  caller that keeps the address, so they appear only in \<open>ipv6_text_ok\<close>.
\<close>

datatype ip_address = IPv4 nat | IPv6 nat

datatype ip_network = Net4 nat nat | Net6 nat nat \<comment> \<open>network integer, prefix length\<close>

fun ip_wf :: "ip_address \<Rightarrow> bool" where
  "ip_wf (IPv4 n) \<longleftrightarrow> n < 2 ^ 32"
| "ip_wf (IPv6 n) \<longleftrightarrow> n < 2 ^ 128"

fun ip_version :: "ip_address \<Rightarrow> nat" where
  "ip_version (IPv4 _) = 4"
| "ip_version (IPv6 _) = 6"

text \<open>\<open>address in network\<close>, false when the versions differ.\<close>

fun in_network :: "ip_address \<Rightarrow> ip_network \<Rightarrow> bool" where
  "in_network (IPv4 a) (Net4 n len) \<longleftrightarrow> a div 2 ^ (32 - len) = n div 2 ^ (32 - len)"
| "in_network (IPv6 a) (Net6 n len) \<longleftrightarrow> a div 2 ^ (128 - len) = n div 2 ^ (128 - len)"
| "in_network _ _ \<longleftrightarrow> False"

section \<open>IPv4 text\<close>

definition parse_octet :: "string \<Rightarrow> nat option" where
  "parse_octet s =
     (if s = [] \<or> \<not> list_all is_digit s \<or> length s > 3 \<or> (s \<noteq> ''0'' \<and> hd s = CHR ''0'')
         \<or> dec_value s > 255
      then None else Some (dec_value s))"

definition parse_ipv4 :: "string \<Rightarrow> nat option" where
  "parse_ipv4 s =
     (case map parse_octet (split_on (CHR ''.'') s) of
        [Some a, Some b, Some c, Some d] \<Rightarrow> Some (((a * 256 + b) * 256 + c) * 256 + d)
      | _ \<Rightarrow> None)"

definition ipv4_str :: "nat \<Rightarrow> string" where
  "ipv4_str n = join_with (CHR ''.'')
     (map nat_str [n div 16777216 mod 256, n div 65536 mod 256, n div 256 mod 256, n mod 256])"

section \<open>IPv6 text\<close>

definition parse_hextet :: "string \<Rightarrow> nat option" where
  "parse_hextet s =
     (if s = [] \<or> \<not> list_all is_hex s \<or> length s > 4 then None else Some (hex_value s))"

text \<open>The hextets of one side of the double colon, most significant first.\<close>

fun hextets_value :: "nat \<Rightarrow> string list \<Rightarrow> nat option" where
  "hextets_value n [] = Some n"
| "hextets_value n (p # ps) =
     (case parse_hextet p of None \<Rightarrow> None | Some h \<Rightarrow> hextets_value (n * 65536 + h) ps)"

text \<open>A dotted IPv4 suffix becomes two hextets.\<close>

definition expand_v4_suffix :: "string list \<Rightarrow> string list option" where
  "expand_v4_suffix parts =
     (if CHR ''.'' \<in> set (last parts)
      then (case parse_ipv4 (last parts) of
              None \<Rightarrow> None
            | Some v \<Rightarrow> Some (butlast parts @ [hex_str (v div 65536), hex_str (v mod 65536)]))
      else Some parts)"

text \<open>Indices of the empty inner parts (the double colons).\<close>

definition skip_indices :: "string list \<Rightarrow> nat list" where
  "skip_indices parts = filter (\<lambda>i. parts ! i = []) [1..<length parts - 1]"

definition parse_parts :: "string list \<Rightarrow> nat option" where
  "parse_parts parts =
     (case skip_indices parts of
        [] \<Rightarrow>
          (if length parts \<noteq> 8 \<or> hd parts = [] \<or> last parts = [] then None
           else hextets_value 0 parts)
      | [i] \<Rightarrow>
          (let hi = (if hd parts = [] then i - 1 else i);
               lo = (if last parts = [] then length parts - i - 2 else length parts - i - 1)
           in if (hd parts = [] \<and> hi \<noteq> 0) \<or> (last parts = [] \<and> lo \<noteq> 0) \<or> hi + lo > 7 then None
              else (case hextets_value 0 (take hi parts) of
                      None \<Rightarrow> None
                    | Some n \<Rightarrow> hextets_value (n * 65536 ^ (8 - (hi + lo)))
                                  (if lo = 0 then [] else drop (length parts - lo) parts)))
      | _ \<Rightarrow> None)"

definition parse_ipv6 :: "string \<Rightarrow> nat option" where
  "parse_ipv6 s =
     (let parts = split_on (CHR '':'') s in
      if length parts < 3 \<or> CHR ''/'' \<in> set s then None
      else (case expand_v4_suffix parts of
              None \<Rightarrow> None
            | Some parts \<Rightarrow> if length parts > 9 then None else parse_parts parts))"

text \<open>\<open>ipaddress.IPv6Address(s)\<close> as a validity test: here a zone identifier is allowed.\<close>

definition ipv6_text_ok :: "string \<Rightarrow> bool" where
  "ipv6_text_ok s =
     (case partition_on (CHR ''%'') s of
        (addr, False, _) \<Rightarrow> parse_ipv6 addr \<noteq> None
      | (addr, True, zone) \<Rightarrow> zone \<noteq> [] \<and> CHR ''%'' \<notin> set zone \<and> CHR ''/'' \<notin> set zone
           \<and> parse_ipv6 addr \<noteq> None)"

text \<open>The canonical text: hextets without leading zeros, the longest zero run compressed.\<close>

definition hextets :: "nat \<Rightarrow> nat list" where
  "hextets n = map (\<lambda>k. n div 65536 ^ k mod 65536) [7, 6, 5, 4, 3, 2, 1, 0]"

text \<open>
  The scan of \<open>_compress_hextets\<close>: state is (best length, best start, current length) and the
  current run starts at \<open>index + 1 - current length\<close>.
\<close>

fun zero_run :: "nat \<Rightarrow> nat \<times> nat \<times> nat \<Rightarrow> nat list \<Rightarrow> nat \<times> nat" where
  "zero_run index (best, start, cur) [] = (best, start)"
| "zero_run index (best, start, cur) (h # hs) =
     (if h = 0
      then (if Suc cur > best then zero_run (Suc index) (Suc cur, index - cur, Suc cur) hs
            else zero_run (Suc index) (best, start, Suc cur) hs)
      else zero_run (Suc index) (best, start, 0) hs)"

definition compress_at :: "nat \<Rightarrow> nat \<Rightarrow> string list \<Rightarrow> string list" where
  "compress_at start len hs =
     (let hs' = (if start + len = length hs then hs @ [[]] else hs);
          mid = take start hs' @ [[]] @ drop (start + len) hs'
      in if start = 0 then [] # mid else mid)"

definition ipv6_str :: "nat \<Rightarrow> string" where
  "ipv6_str n =
     (let hs = hextets n; (len, start) = zero_run 0 (0, 0, 0) hs; texts = map hex_str hs
      in join_with (CHR '':'') (if len > 1 then compress_at start len texts else texts))"

section \<open>Addresses of either family\<close>

text \<open>\<open>ipaddress.ip_address(s)\<close> on text without a zone identifier; \<open>None\<close> is the ValueError.\<close>

definition parse_ip :: "string \<Rightarrow> ip_address option" where
  "parse_ip s =
     (case parse_ipv4 s of
        Some n \<Rightarrow> Some (IPv4 n)
      | None \<Rightarrow> map_option IPv6 (parse_ipv6 s))"

fun ip_str :: "ip_address \<Rightarrow> string" where
  "ip_str (IPv4 n) = ipv4_str n"
| "ip_str (IPv6 n) = ipv6_str n"

definition ipv4_mapped :: "ip_address \<Rightarrow> nat option" where
  "ipv4_mapped a =
     (case a of IPv6 n \<Rightarrow> (if n div 2 ^ 32 = 65535 then Some (n mod 2 ^ 32) else None)
              | IPv4 _ \<Rightarrow> None)"


lemmas [eval_simps] = parse_ip_def parse_ipv4_def parse_octet_def parse_ipv6_def expand_v4_suffix_def
  parse_parts_def skip_indices_def upt_rec parse_hextet_def ipv4_str_def ipv6_str_def hextets_def
  compress_at_def ipv4_mapped_def ipv6_text_ok_def

section \<open>The canonical text parses back\<close>

lemma parse_octet_nat_str: "n < 256 \<Longrightarrow> parse_octet (nat_str n) = Some n"
proof (cases "n = 0")
  case True
  then show ?thesis by (simp add: eval_simps)
next
  case False
  assume "n < 256"
  with False length_nat_str [of n 3] hd_nat_str [of n] show ?thesis
    by (auto simp: parse_octet_def nat_str_digits)
qed

lemma nat_str_no_sep: "\<not> is_digit c \<Longrightarrow> c \<notin> set (nat_str n)"
  using nat_str_chars by blast

lemma hex_str_no_sep: "\<not> is_hex c \<Longrightarrow> c \<notin> set (hex_str n)"
  using hex_str_lower by blast

lemma parse_ipv4_str: "n < 2 ^ 32 \<Longrightarrow> parse_ipv4 (ipv4_str n) = Some n"
proof -
  assume n: "n < 2 ^ 32"
  have split: "split_on (CHR ''.'') (ipv4_str n)
    = map nat_str [n div 16777216 mod 256, n div 65536 mod 256, n div 256 mod 256, n mod 256]"
    unfolding ipv4_str_def by (rule split_join) (auto simp: nat_str_no_sep is_digit_def)
  have "n div 16777216 * 256 + n div 65536 mod 256 = n div 65536"
    using div_mult_mod_eq [of "n div 65536" 256] by (simp flip: div_mult2_eq)
  moreover have "n div 65536 * 256 + n div 256 mod 256 = n div 256"
    using div_mult_mod_eq [of "n div 256" 256] by (simp flip: div_mult2_eq)
  ultimately have bytes:
    "((n div 16777216 * 256 + n div 65536 mod 256) * 256 + n div 256 mod 256) * 256 + n mod 256 = n"
    by simp
  have "n div 16777216 mod 256 = n div 16777216" using n by simp
  moreover have "n div 16777216 < 256" using n by simp
  ultimately show ?thesis
    using bytes by (simp add: parse_ipv4_def split parse_octet_nat_str)
qed

lemma parse_ipv4_chars: "parse_ipv4 s = Some n \<Longrightarrow> c \<in> set s \<Longrightarrow> is_digit c \<or> c = CHR ''.''"
proof -
  assume p: "parse_ipv4 s = Some n" and c: "c \<in> set s"
  have octet: "parse_octet p = Some k \<Longrightarrow> list_all is_digit p" for p k
    by (auto simp: parse_octet_def split: if_splits)
  from p have "\<forall>p \<in> set (split_on (CHR ''.'') s). list_all is_digit p"
    using octet by (fastforce simp: parse_ipv4_def split: list.splits option.splits)
  moreover have "set s \<subseteq> insert (CHR ''.'') (\<Union> (set ` set (split_on (CHR ''.'') s)))"
    using set_join_with [of "CHR ''.''" "split_on (CHR ''.'') s"] by simp
  ultimately show ?thesis using c by (fastforce simp: list_all_iff)
qed

lemma parse_ipv4_no_colon: "CHR '':'' \<in> set s \<Longrightarrow> parse_ipv4 s = None"
  using parse_ipv4_chars [of s _ "CHR '':''"] by (cases "parse_ipv4 s") (auto simp: is_digit_def)

lemma parse_hextet_hex_str: "h < 65536 \<Longrightarrow> parse_hextet (hex_str h) = Some h"
  using length_hex_str [of h 4] by (auto simp: parse_hextet_def hex_str_digits)

text \<open>The run found by the scan consists of zeros.\<close>

lemma zero_run_correct:
  assumes "zero_run (length pre) (best, start, cur) hs = (len, s)"
    and "best = 0 \<or> (start + best \<le> length pre \<and> (\<forall>i \<in> {start..<start + best}. pre ! i = 0))"
    and "cur \<le> length pre" "\<forall>i \<in> {length pre - cur..<length pre}. pre ! i = 0"
  shows "len = 0 \<or> (s + len \<le> length (pre @ hs) \<and> (\<forall>i \<in> {s..<s + len}. (pre @ hs) ! i = 0))"
  using assms
proof (induction hs arbitrary: pre best start cur)
  case Nil
  then show ?case by auto
next
  case (Cons h hs)
  have app: "pre @ h # hs = (pre @ [h]) @ hs" by simp
  show ?case
  proof (cases "h = 0")
    case False
    with Cons.prems show ?thesis
      unfolding app by (intro Cons.IH [of _ best start 0]) (auto simp: nth_append)
  next
    case h: True
    have run: "\<forall>i \<in> {length (pre @ [h]) - Suc cur..<length (pre @ [h])}. (pre @ [h]) ! i = 0"
      using Cons.prems(4) h by (auto simp: nth_append)
    show ?thesis
    proof (cases "Suc cur > best")
      case True
      with h Cons.prems(1,3) run show ?thesis
        unfolding app
        by (intro Cons.IH [of _ "Suc cur" "length pre - cur" "Suc cur"]) auto
    next
      case False
      with h Cons.prems run show ?thesis
        unfolding app
        by (intro Cons.IH [of _ best start "Suc cur"]) (auto simp: nth_append)
    qed
  qed
qed

lemma hextets_lt: "h \<in> set (hextets n) \<Longrightarrow> h < 65536"
  by (auto simp: hextets_def)

lemma hextets_value_hextets:
  "n < 2 ^ 128 \<Longrightarrow> foldl (\<lambda>n h. n * 65536 + h) 0 (hextets n) = n"
proof -
  assume n: "n < 2 ^ 128"
  have step: "n div 65536 ^ Suc k * 65536 + n div 65536 ^ k mod 65536 = n div 65536 ^ k" for k
    by (simp add: div_mult2_eq mult.commute [of 65536])
  have top: "n div 65536 ^ 7 mod 65536 = n div 65536 ^ 7"
    using n by (simp add: less_mult_imp_div_less)
  show ?thesis
    using step [of 6] step [of 5] step [of 4] step [of 3] step [of 2] step [of 1] step [of 0] top
    by (simp add: hextets_def)
qed

lemma hextets_value_foldl:
  "\<forall>h \<in> set hs. h < 65536 \<Longrightarrow> hextets_value n (map hex_str hs) = Some (foldl (\<lambda>n h. n * 65536 + h) n hs)"
  by (induction hs arbitrary: n) (auto simp: parse_hextet_hex_str)

lemma parse_parts_full:
  assumes "length hs = 8" "\<forall>h \<in> set hs. h < 65536"
  shows "parse_parts (map hex_str hs) = Some (foldl (\<lambda>n h. n * 65536 + h) 0 hs)"
proof -
  have "skip_indices (map hex_str hs) = []"
    by (auto simp: skip_indices_def filter_empty_conv hex_str_digits)
  moreover have "hd (map hex_str hs) \<noteq> []" "last (map hex_str hs) \<noteq> []"
    using assms(1) by (cases hs; auto simp: hex_str_digits last_map)+
  ultimately show ?thesis
    using assms by (simp add: parse_parts_def hextets_value_foldl)
qed

lemma parse_parts_compressed:
  assumes "length hs = 8" "\<forall>h \<in> set hs. h < 65536"
    and "1 < len" "start + len \<le> 8" "\<forall>i \<in> {start..<start + len}. hs ! i = 0"
  shows "parse_parts (compress_at start len (map hex_str hs)) = Some (foldl (\<lambda>n h. n * 65536 + h) 0 hs)"
proof -
  from assms(1) obtain a b c d e f g h where hs: "hs = [a, b, c, d, e, f, g, h]"
    by (auto simp: length_Suc_conv numeral_eq_Suc)
  have cases: "(start, len) \<in> set [(i, j). i \<leftarrow> [0..<8], j \<leftarrow> [2..<9], i + j \<le> 8]"
    using assms(3,4) by auto
  have zeros: "start \<le> i \<Longrightarrow> i < start + len \<Longrightarrow> hs ! i = 0" for i
    using assms(5) by simp
  show ?thesis
    using cases zeros [of 0] zeros [of 1] zeros [of 2] zeros [of 3] zeros [of 4] zeros [of 5]
      zeros [of 6] zeros [of 7] assms(2)
    by (simp add: hs upt_rec)
      (elim disjE; simp add: compress_at_def parse_parts_def skip_indices_def upt_rec hex_str_digits
        parse_hextet_hex_str)
qed


lemma compress_at_chars:
  "p \<in> set (compress_at start len hs) \<Longrightarrow> p = [] \<or> p \<in> set hs"
  by (auto simp: compress_at_def Let_def split: if_splits dest: in_set_takeD in_set_dropD)

lemma length_compress_at:
  "1 < len \<Longrightarrow> start + len \<le> length hs \<Longrightarrow> length hs = 8 \<Longrightarrow>
   3 \<le> length (compress_at start len hs) \<and> length (compress_at start len hs) \<le> 9"
  by (auto simp: compress_at_def Let_def)

text \<open>Either shape of the canonical text: eight groups, or a compressed run.\<close>

lemma ipv6_str_parts:
  assumes "n < 2 ^ 128"
  obtains ps where "ipv6_str n = join_with (CHR '':'') ps" "3 \<le> length ps" "length ps \<le> 9"
    "\<forall>p \<in> set ps. p = [] \<or> (\<exists>h. p = hex_str h)" "parse_parts ps = Some n"
proof -
  let ?hs = "hextets n"
  obtain len start where run: "zero_run 0 (0, 0, 0) ?hs = (len, start)" by fastforce
  have len8: "length ?hs = 8" by (simp add: hextets_def)
  from zero_run_correct [of "[]" 0 0 0 ?hs len start] run len8
  have zeros: "len = 0 \<or> (start + len \<le> 8 \<and> (\<forall>i \<in> {start..<start + len}. ?hs ! i = 0))"
    by simp
  have lt: "\<forall>h \<in> set ?hs. h < 65536" using hextets_lt by blast
  note val = hextets_value_hextets [OF assms]
  show thesis
  proof (cases "1 < len")
    case True
    with zeros have z: "start + len \<le> 8" "\<forall>i \<in> {start..<start + len}. ?hs ! i = 0" by auto
    show thesis
    proof (rule that [of "compress_at start len (map hex_str ?hs)"])
      show "ipv6_str n = join_with (CHR '':'') (compress_at start len (map hex_str ?hs))"
        using run True by (simp add: ipv6_str_def)
      show "parse_parts (compress_at start len (map hex_str ?hs)) = Some n"
        using parse_parts_compressed [OF len8 lt True z] val by simp
      show "\<forall>p \<in> set (compress_at start len (map hex_str ?hs)). p = [] \<or> (\<exists>h. p = hex_str h)"
        using compress_at_chars by fastforce
    qed (use length_compress_at [of len start "map hex_str ?hs"] True z len8 in auto)
  next
    case False
    show thesis
    proof (rule that [of "map hex_str ?hs"])
      show "ipv6_str n = join_with (CHR '':'') (map hex_str ?hs)"
        using run False by (simp add: ipv6_str_def)
      show "parse_parts (map hex_str ?hs) = Some n"
        using parse_parts_full [OF len8 lt] val by simp
    qed (use len8 in auto)
  qed
qed

lemma ipv6_str_chars: "n < 2 ^ 128 \<Longrightarrow> c \<in> set (ipv6_str n) \<Longrightarrow> (is_hex c \<and> \<not> is_upper_alpha c) \<or> c = CHR '':''"
proof -
  assume n: "n < 2 ^ 128" and c: "c \<in> set (ipv6_str n)"
  obtain ps where ps: "ipv6_str n = join_with (CHR '':'') ps"
    "\<forall>p \<in> set ps. p = [] \<or> (\<exists>h. p = hex_str h)"
    using ipv6_str_parts [OF n] by metis
  from c ps(1) set_join_with [of "CHR '':''" ps] consider "c = CHR '':''" | p where "p \<in> set ps" "c \<in> set p"
    by auto
  then show ?thesis
  proof cases
    case 2
    with ps(2) obtain h where "c \<in> set (hex_str h)" by force
    then show ?thesis using hex_str_lower by blast
  qed simp
qed

lemma ipv6_str_colon: "n < 2 ^ 128 \<Longrightarrow> CHR '':'' \<in> set (ipv6_str n)"
proof -
  assume n: "n < 2 ^ 128"
  obtain ps where ps: "ipv6_str n = join_with (CHR '':'') ps" "3 \<le> length ps"
    using ipv6_str_parts [OF n] by metis
  from ps(2) obtain p q qs where "ps = p # q # qs"
    by (auto simp: Suc_le_length_iff numeral_eq_Suc)
  with ps(1) show ?thesis by simp
qed

lemma parse_ipv6_str: "n < 2 ^ 128 \<Longrightarrow> parse_ipv6 (ipv6_str n) = Some n"
proof -
  assume n: "n < 2 ^ 128"
  obtain ps where ps: "ipv6_str n = join_with (CHR '':'') ps" "3 \<le> length ps" "length ps \<le> 9"
    "\<forall>p \<in> set ps. p = [] \<or> (\<exists>h. p = hex_str h)" "parse_parts ps = Some n"
    using ipv6_str_parts [OF n] by metis
  have "split_on (CHR '':'') (ipv6_str n) = ps"
    unfolding ps(1) using ps(2,4) by (intro split_join) (auto simp: hex_str_no_sep is_hex_def is_digit_def)
  moreover have "CHR ''/'' \<notin> set (ipv6_str n)"
    using ipv6_str_chars [OF n, of "CHR ''/''"] by (auto simp: is_hex_def is_digit_def)
  moreover have "CHR ''.'' \<notin> set (last ps)"
  proof -
    have "last ps \<in> set ps" using ps(2) by (intro last_in_set) auto
    with ps(4) show ?thesis by (auto simp: hex_str_no_sep is_hex_def is_digit_def)
  qed
  ultimately show ?thesis
    using ps(2,3,5) by (simp add: parse_ipv6_def expand_v4_suffix_def)
qed

theorem parse_ip_str: "ip_wf a \<Longrightarrow> parse_ip (ip_str a) = Some a"
  by (cases a) (simp_all add: parse_ip_def parse_ipv4_str parse_ipv6_str parse_ipv4_no_colon ipv6_str_colon)

section \<open>Parsed addresses are in range\<close>

lemma hextets_value_lt:
  "hextets_value n ps = Some m \<Longrightarrow> m < (n + 1) * 65536 ^ length ps"
proof (induction ps arbitrary: n)
  case Nil
  then show ?case by simp
next
  case (Cons p ps)
  from Cons.prems obtain h where h: "parse_hextet p = Some h"
    and m: "hextets_value (n * 65536 + h) ps = Some m"
    by (auto split: option.splits)
  have "h < 65536"
  proof -
    have "list_all is_hex s \<Longrightarrow> hex_value s < 16 ^ length s" for s
    proof (induction s rule: rev_induct)
      case Nil
      then show ?case by (simp add: hex_value_def)
    next
      case (snoc c s)
      have "hex_val c < 16" using snoc.prems
        by (auto simp: hex_val_def is_hex_def is_digit_def is_lower_alpha_def)
      with snoc show ?case by (simp add: hex_value_snoc)
    qed
    moreover have "(16::nat) ^ length p \<le> 16 ^ 4" if "length p \<le> 4"
      using that by (intro power_increasing) auto
    ultimately show ?thesis
      using h by (fastforce simp: parse_hextet_def split: if_splits)
  qed
  then have "(n * 65536 + h + 1) * 65536 ^ length ps \<le> ((n + 1) * 65536) * 65536 ^ length ps"
    by (intro mult_right_mono) auto
  with Cons.IH [OF m] have "m < ((n + 1) * 65536) * 65536 ^ length ps"
    by (rule less_le_trans)
  then show ?case by (simp only: length_Cons power_Suc mult.assoc)
qed

lemma parse_parts_lt: "parse_parts ps = Some n \<Longrightarrow> n < 2 ^ 128"
proof -
  assume p: "parse_parts ps = Some n"
  have scale: "m < 65536 ^ a \<Longrightarrow> a + b + c \<le> 8 \<Longrightarrow> k < (m * 65536 ^ b + 1) * 65536 ^ c \<Longrightarrow>
      k < (2::nat) ^ 128" for a b c m k :: nat
  proof -
    assume m: "m < 65536 ^ a" and abc: "a + b + c \<le> 8" and k: "k < (m * 65536 ^ b + 1) * 65536 ^ c"
    have "m * 65536 ^ b + 1 \<le> (m + 1) * 65536 ^ b" by simp
    also have "\<dots> \<le> 65536 ^ a * 65536 ^ b" using m by (intro mult_right_mono) auto
    finally have "(m * 65536 ^ b + 1) * 65536 ^ c \<le> 65536 ^ a * 65536 ^ b * 65536 ^ c"
      by (rule mult_right_mono) simp
    also have "\<dots> = (65536 :: nat) ^ (a + b + c)" by (simp add: power_add)
    also have "\<dots> \<le> 65536 ^ 8" using abc by (intro power_increasing) auto
    finally show ?thesis using k by simp
  qed
  have i: "skip_indices ps = [i] \<Longrightarrow> i < length ps" for i
  proof -
    assume "skip_indices ps = [i]"
    then have "i \<in> set (skip_indices ps)" by simp
    then show ?thesis by (auto simp: skip_indices_def)
  qed
  consider "length ps = 8" "hextets_value 0 ps = Some n"
    | hi lo m where "hi + lo \<le> 7" "hi \<le> length ps" "lo \<le> length ps"
        "hextets_value 0 (take hi ps) = Some m"
        "hextets_value (m * 65536 ^ (8 - (hi + lo))) (if lo = 0 then [] else drop (length ps - lo) ps) = Some n"
  proof (cases "skip_indices ps")
    case Nil
    with p that(1) show thesis by (simp add: parse_parts_def split: if_splits)
  next
    case (Cons i rest)
    with p have one: "skip_indices ps = [i]" by (auto simp: parse_parts_def split: list.splits)
    define hi where "hi = (if hd ps = [] then i - 1 else i)"
    define lo where "lo = (if last ps = [] then length ps - i - 2 else length ps - i - 1)"
    have "hi + lo \<le> 7 \<and> (\<exists>m. hextets_value 0 (take hi ps) = Some m \<and>
        hextets_value (m * 65536 ^ (8 - (hi + lo)))
          (if lo = 0 then [] else drop (length ps - lo) ps) = Some n)"
      using p unfolding parse_parts_def one
      by (simp add: Let_def flip: hi_def lo_def split: if_splits option.splits)
    moreover have "hi \<le> length ps" "lo \<le> length ps"
      using i [OF one] by (auto simp: hi_def lo_def)
    ultimately show thesis using that(2) by blast
  qed
  then show ?thesis
  proof cases
    case 1
    then show ?thesis using hextets_value_lt [of 0 ps n] by simp
  next
    case 2
    have "m < 65536 ^ hi" using hextets_value_lt [OF 2(4)] 2(2) by (simp add: min_absorb2)
    moreover have "n < (m * 65536 ^ (8 - (hi + lo)) + 1) * 65536 ^ lo"
      using hextets_value_lt [OF 2(5)] 2(3) by (auto split: if_splits)
    ultimately show ?thesis using scale [of m hi "8 - (hi + lo)" lo n] 2(1) by simp
  qed
qed

lemma parse_ipv4_lt: "parse_ipv4 s = Some n \<Longrightarrow> n < 2 ^ 32"
proof -
  assume p: "parse_ipv4 s = Some n"
  have octet: "parse_octet p = Some k \<Longrightarrow> k \<le> 255" for p k
    by (auto simp: parse_octet_def split: if_splits)
  from p obtain a b c d where q: "map parse_octet (split_on (CHR ''.'') s) = [Some a, Some b, Some c, Some d]"
    and n: "n = ((a * 256 + b) * 256 + c) * 256 + d"
    by (auto simp: parse_ipv4_def split: list.splits option.splits)
  from q have "a \<le> 255 \<and> b \<le> 255 \<and> c \<le> 255 \<and> d \<le> 255"
    using octet by (auto simp: map_eq_Cons_conv)
  with n show ?thesis by simp
qed

theorem parse_ip_wf: "parse_ip s = Some a \<Longrightarrow> ip_wf a"
  by (auto simp: parse_ip_def parse_ipv6_def Let_def
      split: option.splits if_splits dest: parse_ipv4_lt parse_parts_lt)

lemma ipv4_mapped_wf: "ipv4_mapped a = Some n \<Longrightarrow> ip_wf (IPv4 n)"
  by (auto simp: ipv4_mapped_def split: ip_address.splits if_splits)

end
