(* ===== verification/Egress_Settings.thy ===== *)
theory Egress_Settings
  imports Prelude
begin

text \<open>
  The project egress wire contracts of \<open>libraries/ads-commons/src/ads_commons/egress.py\<close>:
  the settings a project stores, the checks their constructors run, and \<open>canonical_settings\<close>,
  which expands the semantic defaults so that two settings can be compared. The JSON library
  (msgspec) is a parameter.
\<close>

datatype egress_mode = Whitelist | Blacklist

datatype upgrades = UpgradesAny | UpgradesNone | UpgradeTargets "string list"

record egress_path =
  pattern :: string
  case_insensitive :: "bool option" \<comment> \<open>\<open>None\<close> is msgspec's UNSET\<close>

record protocol_settings =
  ps_method :: string
  ps_upgrades :: upgrades
  ps_paths :: "egress_path list"

record egress_rule =
  domain :: string
  rule_port :: nat
  rule_protocol :: string
  options :: protocol_settings
  rule_sub_protocol :: string

record egress_settings =
  rules :: "egress_rule list"
  mode :: egress_mode

record egress_snapshot =
  revision :: nat
  settings :: egress_settings

section \<open>Constructor checks\<close>

definition egress_path_post_init :: "egress_path \<Rightarrow> error + egress_path" where
  "egress_path_post_init p =
     (if \<not> prefix ''/'' (pattern p) \<or> CHR 0x00 \<in> set (pattern p)
      then Inl (ValueError ''path pattern must start with / and contain no NUL'')
      else Inr p)"

definition protocol_settings_post_init :: "protocol_settings \<Rightarrow> error + protocol_settings" where
  "protocol_settings_post_init ps =
     (case ps_upgrades ps of
        UpgradeTargets ts \<Rightarrow>
          (if \<not> distinct ts then Inl (ValueError ''upgrade targets must be unique'') else Inr ps)
      | _ \<Rightarrow> Inr ps)"

text \<open>The pattern \<open>[a-z0-9](?:[a-z0-9-]{0,61}[a-z0-9])?\<close>, matched against the whole label.\<close>

definition is_alnum_lower :: "char \<Rightarrow> bool" where
  "is_alnum_lower c \<longleftrightarrow> is_lower_alpha c \<or> is_digit c"

definition label_ok :: "string \<Rightarrow> bool" where
  "label_ok s \<longleftrightarrow> s \<noteq> [] \<and> length s \<le> 63 \<and> is_alnum_lower (hd s) \<and> is_alnum_lower (last s)
     \<and> list_all (\<lambda>c. is_alnum_lower c \<or> c = CHR ''-'') s"

definition egress_rule_post_init :: "egress_rule \<Rightarrow> error + egress_rule" where
  "egress_rule_post_init r =
     (if domain r = ''*'' then Inr r
      else let value = str_lower (domain r);
               name = (if prefix ''*.'' value then drop 2 value else value)
           in if \<not> list_all label_ok (split_on (CHR ''.'') name)
              then Inl (ValueError ''domain must be an ASCII DNS name, *, or *.suffix'')
              else Inr (r\<lparr>domain := value\<rparr>))"

section \<open>Canonical settings\<close>

definition canonical_path :: "egress_mode \<Rightarrow> egress_path \<Rightarrow> egress_path" where
  "canonical_path m p =
     p\<lparr>case_insensitive := Some (case case_insensitive p of None \<Rightarrow> m = Blacklist | Some b \<Rightarrow> b)\<rparr>"

text \<open>\<open>sorted\<close> on the upgrade strings; the code has at most two of them.\<close>

definition char_less :: "char \<Rightarrow> char \<Rightarrow> bool" where
  "char_less a b \<longleftrightarrow> code a < code b"

fun str_le :: "string \<Rightarrow> string \<Rightarrow> bool" where
  "str_le [] _ = True"
| "str_le (_ # _) [] = False"
| "str_le (a # as) (b # bs) = (char_less a b \<or> (a = b \<and> str_le as bs))"

fun insert_sorted :: "string \<Rightarrow> string list \<Rightarrow> string list" where
  "insert_sorted x [] = [x]"
| "insert_sorted x (y # ys) = (if str_le x y then x # y # ys else y # insert_sorted x ys)"

definition sort_strings :: "string list \<Rightarrow> string list" where
  "sort_strings xs = foldr insert_sorted xs []"

definition canonical_rule :: "egress_mode \<Rightarrow> egress_rule \<Rightarrow> egress_rule" where
  "canonical_rule m r =
     r\<lparr>options := (options r)\<lparr>
         ps_upgrades := (case ps_upgrades (options r) of
                           UpgradeTargets ts \<Rightarrow> UpgradeTargets (sort_strings ts) | u \<Rightarrow> u),
         ps_paths := map (canonical_path m) (ps_paths (options r))\<rparr>\<rparr>"

text \<open>\<open>recode\<close> is msgspec's \<open>decode(encode(settings))\<close>.\<close>

definition canonical_settings ::
  "(egress_settings \<Rightarrow> error + egress_settings) \<Rightarrow> egress_settings \<Rightarrow> error + egress_settings" where
  "canonical_settings recode s =
     bindE (recode s) (\<lambda>s. Inr (s\<lparr>rules := map (canonical_rule (mode s)) (rules s)\<rparr>))"

section \<open>Facts\<close>

lemma set_insert_sorted: "set (insert_sorted x ys) = insert x (set ys)"
  by (induction ys) auto

lemma set_sort_strings [simp]: "set (sort_strings xs) = set xs"
  by (induction xs) (auto simp: sort_strings_def set_insert_sorted)

lemma str_le_refl [simp]: "str_le s s"
  by (induction s) (auto simp: char_less_def)

lemma str_le_total: "str_le s t \<or> str_le t s"
proof (induction s t rule: str_le.induct)
  case (3 a as b bs)
  then show ?case using of_char_eq_iff [of a b] by (auto simp: char_less_def)
qed auto

lemma str_le_trans: "str_le s t \<Longrightarrow> str_le t u \<Longrightarrow> str_le s u"
proof (induction s arbitrary: t u)
  case Nil
  then show ?case by simp
next
  case (Cons a s)
  from Cons.prems obtain b t' c u' where "t = b # t'" "u = c # u'"
    by (cases t; cases u) auto
  with Cons show ?case by (auto simp: char_less_def)
qed

lemma str_le_antisym: "str_le s t \<Longrightarrow> str_le t s \<Longrightarrow> s = t"
proof (induction s arbitrary: t)
  case Nil
  then show ?case by (cases t) auto
next
  case (Cons a s)
  then show ?case by (cases t) (auto simp: char_less_def)
qed

lemma sorted_insert_sorted: "sorted_wrt str_le ys \<Longrightarrow> sorted_wrt str_le (insert_sorted x ys)"
proof (induction ys)
  case (Cons a ys)
  then show ?case
    using str_le_total [of x a] by (auto simp: set_insert_sorted intro: str_le_trans)
qed simp

lemma sorted_sort_strings: "sorted_wrt str_le (sort_strings xs)"
  by (induction xs) (auto simp: sort_strings_def sorted_insert_sorted)

lemma insert_sorted_le: "\<forall>y \<in> set ys. str_le x y \<Longrightarrow> insert_sorted x ys = x # ys"
  by (cases ys) auto

lemma sort_strings_sorted: "sorted_wrt str_le xs \<Longrightarrow> sort_strings xs = xs"
  by (induction xs) (auto simp: sort_strings_def insert_sorted_le)

lemma sort_strings_idem [simp]: "sort_strings (sort_strings xs) = sort_strings xs"
  by (simp add: sort_strings_sorted sorted_sort_strings)

lemma canonical_path_idem [simp]: "canonical_path m (canonical_path m p) = canonical_path m p"
  by (simp add: canonical_path_def)

lemma canonical_rule_idem [simp]: "canonical_rule m (canonical_rule m r) = canonical_rule m r"
  by (simp add: canonical_rule_def split: upgrades.split)

text \<open>
  When msgspec gives back the value it encoded, canonical settings are a fixed point.
\<close>

lemma canonical_settings_idem:
  assumes "recode s = Inr s" "canonical_settings recode s = Inr c" "recode c = Inr c"
  shows "canonical_settings recode c = Inr c"
  using assms by (auto simp: canonical_settings_def)

end
