(* ===== verification/Egress_Policy.thy ===== *)
theory Egress_Policy
  imports Ip_Address Egress_Settings
begin

text \<open>
  The per-request policy of \<open>ads_sandbox_egress/policy.py\<close>: canonical host names, authority
  parsing, identity agreement, domain patterns, the budgeted Ant path matcher and \<open>permitted\<close>.
  The matching budget is threaded explicitly; a spent budget is a denial.
\<close>

section \<open>Host names\<close>

definition canonical_host :: "string \<Rightarrow> error + string" where
  "canonical_host value =
     (if value = [] \<or> \<not> list_all is_ascii value \<or> CHR ''%'' \<in> set value
      then Inl (RequestDenied ''invalid_host'')
      else let value = str_lower value in
        (case parse_ip value of
           Some a \<Rightarrow> Inr (ip_str a)
         | None \<Rightarrow>
             let value = removesuffix ''.'' value in
             if length value > 253 \<or> \<not> list_all label_ok (split_on (CHR ''.'') value)
             then Inl (RequestDenied ''invalid_host'')
             else if list_all (\<lambda>c. c \<in> set ''0123456789.'') value
             then Inl (RequestDenied ''ambiguous_address'')
             else Inr value))"

record authority_t =
  host :: string
  port :: nat

text \<open>Python's \<open>int\<close> refuses more than 4300 digits with a ValueError.\<close>

definition int_of_digits :: "string \<Rightarrow> error + nat" where
  "int_of_digits s =
     (if length s > 4300 then Inl (ValueError ''int_max_str_digits'') else Inr (dec_value s))"

text \<open>The bracketed or plain split of an authority into the host and the \<open>:port\<close> suffix.\<close>

definition split_authority :: "string \<Rightarrow> error + (string \<times> string)" where
  "split_authority value =
     (if prefix ''['' value
      then (case partition_on (CHR '']'') value of
              (_, False, _) \<Rightarrow> Inl (RequestDenied ''invalid_authority'')
            | (before, True, rest) \<Rightarrow>
                let h = drop 1 before in
                if \<not> ipv6_text_ok h then Inl (RequestDenied ''invalid_authority'')
                else Inr (h, rest))
      else if count_list value (CHR '':'') > 1 then Inl (RequestDenied ''unbracketed_ipv6'')
      else (case partition_on (CHR '':'') value of
              (h, found, p) \<Rightarrow> Inr (h, (if found then CHR '':'' # p else []))))"

definition authority :: "string \<Rightarrow> nat \<Rightarrow> error + authority_t option" where
  "authority value default_port =
     (if value = [] then Inr None
      else if list_ex is_space value \<or> list_ex (\<lambda>c. c \<in> set [CHR ''/'', CHR 0x5C, CHR ''@'', CHR ''?'', CHR ''#'']) value
      then Inl (RequestDenied ''invalid_authority'')
      else bindE (split_authority value) (\<lambda>(h, rest).
        if rest \<noteq> [] \<and> (\<not> prefix '':'' rest \<or> tl rest = [] \<or> \<not> list_all is_digit (tl rest))
        then Inl (RequestDenied ''invalid_port'')
        else bindE (if rest \<noteq> [] then int_of_digits (tl rest) else Inr default_port) (\<lambda>port_number.
          if \<not> (1 \<le> port_number \<and> port_number \<le> 65535)
          then Inl (RequestDenied ''invalid_port'')
          else bindE (canonical_host h) (\<lambda>h. Inr (Some \<lparr>host = h, port = port_number\<rparr>)))))"


section \<open>Identity agreement and domain patterns\<close>

definition consistent_identity :: "authority_t option list \<Rightarrow> string option \<Rightarrow> error + string list" where
  "consistent_identity authorities tls_name =
     (if authorities \<noteq> [] \<and> list_ex (\<lambda>item. item \<noteq> hd authorities) authorities
      then Inl (RequestDenied ''conflicting_authorities'')
      else
        let hname = (if authorities \<noteq> [] then map_option host (hd authorities) else None) in
        bindE (case tls_name of None \<Rightarrow> Inr None
                 | Some t \<Rightarrow> bindE (canonical_host t) (\<lambda>c. Inr (Some c))) (\<lambda>tls.
          if tls \<noteq> None \<and> hname \<noteq> None \<and> tls \<noteq> hname
          then Inl (RequestDenied ''tls_http_identity_mismatch'')
          else Inr (remdups (List.map_filter id [tls, hname]))))"

definition domain_matches :: "string \<Rightarrow> string \<Rightarrow> bool" where
  "domain_matches pat name =
     (if pat = ''*'' then True
      else if prefix ''*.'' pat
      then snd (snd (partition_on (CHR ''.'') name)) = drop 2 pat \<and> CHR ''.'' \<in> set name
      else name = pat)"

section \<open>The Ant matcher\<close>

type_synonym budget = int

definition consume :: "budget \<Rightarrow> nat \<Rightarrow> error + budget" where
  "consume b count =
     (let b' = b - int count in
      if b' < 0 then Inl (RequestDenied ''path_match_limit'') else Inr b')"

text \<open>
  One row of the segment table: \<open>left\<close> is \<open>current[j - 1]\<close>, the row list starts at
  \<open>previous[j - 1]\<close>, and the value list starts at the byte of column \<open>j\<close>.
\<close>

fun seg_cells :: "char \<Rightarrow> bool \<Rightarrow> bool list \<Rightarrow> bytes \<Rightarrow> bool list" where
  "seg_cells c left (p0 # p1 # ps) (a # as) =
     (let cell = (if c = CHR ''*'' then p1 \<or> left else p0 \<and> (c = CHR ''?'' \<or> c = a))
      in cell # seg_cells c cell (p1 # ps) as)"
| "seg_cells c left _ _ = []"

definition seg_row :: "char \<Rightarrow> bool list \<Rightarrow> bytes \<Rightarrow> bool list" where
  "seg_row c previous value =
     (let first = hd previous \<and> c = CHR ''*'' in first # seg_cells c first previous value)"

fun seg_rows :: "bytes \<Rightarrow> budget \<Rightarrow> bool list \<Rightarrow> bytes \<Rightarrow> error + (bool list \<times> budget)" where
  "seg_rows [] b previous value = Inr (previous, b)"
| "seg_rows (c # glob) b previous value =
     bindE (consume b (length value + 1)) (\<lambda>b'. seg_rows glob b' (seg_row c previous value) value)"

definition seg_match :: "budget \<Rightarrow> bytes \<Rightarrow> bytes \<Rightarrow> error + (bool \<times> budget)" where
  "seg_match b glob value =
     bindE (seg_rows glob b (True # replicate (length value) False) value)
       (\<lambda>(row, b'). Inr (last row, b'))"

text \<open>
  The set of reachable part indices is kept as the list of its members; the outcome does not
  depend on the order in which Python iterates over the set, because only the total number of
  consumed units matters.
\<close>

fun step_segments :: "bytes \<Rightarrow> bytes list \<Rightarrow> nat list \<Rightarrow> budget \<Rightarrow> error + (nat list \<times> budget)" where
  "step_segments glob parts [] b = Inr ([], b)"
| "step_segments glob parts (index # rest) b =
     (if index < length parts
      then bindE (seg_match b glob (parts ! index)) (\<lambda>(ok, b1).
             bindE (step_segments glob parts rest b1) (\<lambda>(out, b2).
               Inr (if ok then Suc index # out else out, b2)))
      else step_segments glob parts rest b)"

fun match_parts :: "bytes list \<Rightarrow> bytes list \<Rightarrow> nat list \<Rightarrow> budget \<Rightarrow> error + (bool \<times> budget)" where
  "match_parts [] parts reach b = Inr (length parts \<in> set reach, b)"
| "match_parts (glob # globs) parts reach b =
     bindE (consume b (length parts + length reach)) (\<lambda>b1.
       bindE (if glob = ''**''
              then Inr (if reach \<noteq> [] then [Min (set reach)..<length parts + 1] else [], b1)
              else step_segments glob parts reach b1) (\<lambda>(reach', b2).
         if reach' = [] then Inr (False, b2) else match_parts globs parts reach' b2))"

definition ant_matches :: "bytes \<Rightarrow> bytes \<Rightarrow> bool \<Rightarrow> budget \<Rightarrow> error + (bool \<times> budget)" where
  "ant_matches pat path insensitive b =
     (if \<not> prefix ''/'' path \<or> \<not> prefix ''/'' pat then Inr (False, b)
      else if length path > 8192 \<or> length pat > 8192 \<or> CHR 0x00 \<in> set path
      then Inl (RequestDenied ''path_limit'')
      else
        let pat = (if insensitive then lower pat else pat);
            path = (if insensitive then lower path else path);
            patterns = split_on (CHR ''/'') pat;
            parts = split_on (CHR ''/'') path
        in bindE (consume b (length pat + length path)) (\<lambda>b1.
             match_parts patterns parts [0] b1))"

definition match_budget :: budget where
  "match_budget = 1000000"

section \<open>Permission\<close>

record policy_request =
  names :: "string list"
  req_port :: int
  req_protocol :: string
  req_sub_protocol :: string
  req_method :: string
  normalized_path :: "bytes option"
  upgrade :: "string option"

definition request_shape_ok :: "policy_request \<Rightarrow> bool" where
  "request_shape_ok r \<longleftrightarrow>
     req_protocol r \<in> {''http'', ''https''}
     \<and> req_sub_protocol r \<in> {''http/1.1'', ''http/2'', ''websocket''}
     \<and> 1 \<le> req_port r \<and> req_port r \<le> 65535
     \<and> upgrade r \<in> {None, Some ''http/2'', Some ''websocket''}
     \<and> (normalized_path r = None \<longrightarrow> req_method r = ''OPTIONS'')
     \<and> (case normalized_path r of None \<Rightarrow> True
        | Some p \<Rightarrow> prefix ''/'' p \<and> length p \<le> 8192 \<and> CHR 0x00 \<notin> set p)
     \<and> (req_method r = ''CONNECT'' \<longrightarrow>
          req_sub_protocol r = ''http/2'' \<and> upgrade r = Some ''websocket'')"

text \<open>\<open>any(ant_matches(...) for item in options.paths)\<close>: stops at the first match.\<close>

fun any_path :: "bool \<Rightarrow> bytes \<Rightarrow> egress_path list \<Rightarrow> budget \<Rightarrow> error + (bool \<times> budget)" where
  "any_path whitelist path [] b = Inr (False, b)"
| "any_path whitelist path (item # items) b =
     bindE (ant_matches (utf8_encode (pattern item)) path
              (case case_insensitive item of None \<Rightarrow> \<not> whitelist | Some ci \<Rightarrow> ci) b)
       (\<lambda>(ok, b'). if ok then Inr (True, b') else any_path whitelist path items b')"

definition upgrade_allowed :: "protocol_settings \<Rightarrow> string option \<Rightarrow> bool" where
  "upgrade_allowed ps u =
     (case u of None \<Rightarrow> True
      | Some t \<Rightarrow> (case ps_upgrades ps of
                     UpgradesAny \<Rightarrow> True | UpgradesNone \<Rightarrow> False | UpgradeTargets ts \<Rightarrow> t \<in> set ts))"

definition rule_scope :: "egress_rule \<Rightarrow> policy_request \<Rightarrow> bool" where
  "rule_scope rule r \<longleftrightarrow> int (rule_port rule) = req_port r \<and> rule_protocol rule = req_protocol r
     \<and> rule_sub_protocol rule \<in> {''any'', req_sub_protocol r}
     \<and> ps_method (options rule) \<in> {''any'', req_method r}"

text \<open>The path condition of one rule: no paths, or a present path that one of them matches.\<close>

definition rule_paths :: "bool \<Rightarrow> egress_rule \<Rightarrow> policy_request \<Rightarrow> budget \<Rightarrow> error + (bool \<times> budget)" where
  "rule_paths whitelist rule r b =
     (if ps_paths (options rule) = [] then Inr (True, b)
      else (case normalized_path r of
              None \<Rightarrow> Inr (False, b)
            | Some path \<Rightarrow> any_path whitelist path (ps_paths (options rule)) b))"

fun evaluate :: "bool \<Rightarrow> string list \<Rightarrow> policy_request \<Rightarrow> egress_rule list \<Rightarrow> budget \<Rightarrow> error + bool" where
  "evaluate whitelist nms r [] b = Inr (\<not> whitelist)"
| "evaluate whitelist nms r (rule # rest) b =
     bindE (consume b 1) (\<lambda>b1.
       if \<not> rule_scope rule r then evaluate whitelist nms r rest b1
       else bindE (rule_paths whitelist rule r b1) (\<lambda>(ok, b2).
         if \<not> ok then evaluate whitelist nms r rest b2
         else if \<not> upgrade_allowed (options rule) (upgrade r) then evaluate whitelist nms r rest b2
         else if domain rule = ''*'' then Inr whitelist
         else if nms = [] then (if \<not> whitelist then Inr False else evaluate whitelist nms r rest b2)
         else if (if whitelist then list_all (domain_matches (domain rule)) nms
                  else list_ex (domain_matches (domain rule)) nms)
         then Inr whitelist
         else evaluate whitelist nms r rest b2))"

definition permitted :: "egress_snapshot option \<Rightarrow> policy_request \<Rightarrow> error + bool" where
  "permitted snapshot r =
     (case snapshot of
        None \<Rightarrow> Inr False
      | Some snap \<Rightarrow>
          if \<not> request_shape_ok r then Inr False
          else bindE (mapE canonical_host (names r)) (\<lambda>nms.
            if card (set nms) > 1 then Inr False
            else evaluate (mode (settings snap) = Whitelist) nms r (rules (settings snap)) match_budget))"


lemmas [eval_simps] = canonical_host_def int_of_digits_def split_authority_def authority_def
  consistent_identity_def domain_matches_def consume_def seg_row_def seg_match_def ant_matches_def
  match_budget_def request_shape_ok_def upgrade_allowed_def rule_scope_def rule_paths_def
  permitted_def label_ok_def is_alnum_lower_def utf8_encode_def utf8_char_def map_filter_simps
  authority_t.defs policy_request.defs

section \<open>What the matcher decides\<close>

inductive seg_spec :: "bytes \<Rightarrow> bytes \<Rightarrow> bool" where
  seg_empty: "seg_spec [] []"
| seg_star: "seg_spec g v \<Longrightarrow> seg_spec (g @ [CHR ''*'']) (v @ w)"
| seg_one: "c \<noteq> CHR ''*'' \<Longrightarrow> c = CHR ''?'' \<or> c = a \<Longrightarrow> seg_spec g v \<Longrightarrow> seg_spec (g @ [c]) (v @ [a])"

inductive parts_spec :: "bytes list \<Rightarrow> bytes list \<Rightarrow> bool" where
  parts_empty: "parts_spec [] []"
| parts_deep: "parts_spec ps vs \<Longrightarrow> parts_spec (ps @ [''**'']) (vs @ ws)"
| parts_seg: "g \<noteq> ''**'' \<Longrightarrow> seg_spec g v \<Longrightarrow> parts_spec ps vs \<Longrightarrow> parts_spec (ps @ [g]) (vs @ [v])"

definition fold_case :: "bool \<Rightarrow> bytes \<Rightarrow> bytes" where
  "fold_case insensitive s = (if insensitive then lower s else s)"

definition ant_spec :: "bytes \<Rightarrow> bytes \<Rightarrow> bool \<Rightarrow> bool" where
  "ant_spec pat path insensitive \<longleftrightarrow> prefix ''/'' pat \<and> prefix ''/'' path
     \<and> parts_spec (split_on (CHR ''/'') (fold_case insensitive pat))
                  (split_on (CHR ''/'') (fold_case insensitive path))"

inductive_cases seg_spec_snocE: "seg_spec (g @ [c]) v"
inductive_cases parts_spec_snocE: "parts_spec (ps @ [g]) vs"

lemma seg_spec_Nil [simp]: "seg_spec [] v \<longleftrightarrow> v = []"
  by (auto intro: seg_empty elim: seg_spec.cases)

lemma parts_spec_Nil [simp]: "parts_spec [] vs \<longleftrightarrow> vs = []"
  by (auto intro: parts_empty elim: parts_spec.cases)

lemma seg_spec_star_iff: "seg_spec (g @ [CHR ''*'']) v \<longleftrightarrow> (\<exists>k \<le> length v. seg_spec g (take k v))"
proof
  assume "seg_spec (g @ [CHR ''*'']) v"
  then obtain v' w where "v = v' @ w" "seg_spec g v'"
    by (auto elim: seg_spec_snocE)
  then show "\<exists>k \<le> length v. seg_spec g (take k v)"
    by (intro exI [of _ "length v'"]) auto
next
  assume "\<exists>k \<le> length v. seg_spec g (take k v)"
  then obtain k where "seg_spec g (take k v)" by blast
  from seg_star [OF this, of "drop k v"] show "seg_spec (g @ [CHR ''*'']) v" by simp
qed

lemma seg_spec_one_iff:
  "c \<noteq> CHR ''*'' \<Longrightarrow>
   seg_spec (g @ [c]) v \<longleftrightarrow> v \<noteq> [] \<and> (c = CHR ''?'' \<or> c = last v) \<and> seg_spec g (butlast v)"
proof
  assume "c \<noteq> CHR ''*''" "seg_spec (g @ [c]) v"
  then show "v \<noteq> [] \<and> (c = CHR ''?'' \<or> c = last v) \<and> seg_spec g (butlast v)"
    by (auto elim: seg_spec_snocE)
next
  assume "c \<noteq> CHR ''*''" "v \<noteq> [] \<and> (c = CHR ''?'' \<or> c = last v) \<and> seg_spec g (butlast v)"
  then show "seg_spec (g @ [c]) v"
    using seg_one [of c "last v" g "butlast v"] by simp
qed

lemma seg_spec_star_Suc:
  "j < length v \<Longrightarrow> seg_spec (g @ [CHR ''*'']) (take (Suc j) v) \<longleftrightarrow>
     seg_spec g (take (Suc j) v) \<or> seg_spec (g @ [CHR ''*'']) (take j v)"
proof -
  assume j: "j < length v"
  have prefixes: "seg_spec (g @ [CHR ''*'']) (take i v) \<longleftrightarrow> (\<exists>k \<le> i. seg_spec g (take k v))"
    if "i \<le> length v" for i
    using that by (auto simp: seg_spec_star_iff min_def)
  show ?thesis
    using prefixes [of j] prefixes [of "Suc j"] j by (auto simp: le_Suc_eq)
qed

text \<open>The table row after a glob prefix: column \<open>j\<close> says whether it matches the first \<open>j\<close> bytes.\<close>

definition row_ok :: "bytes \<Rightarrow> bytes \<Rightarrow> bool list \<Rightarrow> bool" where
  "row_ok g v row \<longleftrightarrow> length row = Suc (length v) \<and> (\<forall>j \<le> length v. row ! j = seg_spec g (take j v))"

lemma length_seg_cells: "length ps = Suc (length as) \<Longrightarrow> length (seg_cells c left ps as) = length as"
  by (induction c left ps as rule: seg_cells.induct) (auto simp: Let_def)

lemma nth_seg_cells:
  "length ps = Suc (length as) \<Longrightarrow> i < length as \<Longrightarrow>
   seg_cells c left ps as ! i =
     (if c = CHR ''*'' then ps ! Suc i \<or> (left # seg_cells c left ps as) ! i
      else ps ! i \<and> (c = CHR ''?'' \<or> c = as ! i))"
proof (induction c left ps as arbitrary: i rule: seg_cells.induct)
  case (1 c left p0 p1 ps a as)
  show ?case
  proof (cases i)
    case 0
    then show ?thesis by (simp add: Let_def)
  next
    case (Suc k)
    with 1 show ?thesis by (cases k) (simp_all add: Let_def)
  qed
qed auto

lemma seg_row_ok: "row_ok g v row \<Longrightarrow> row_ok (g @ [c]) v (seg_row c row v)"
proof -
  assume ok: "row_ok g v row"
  let ?cells = "seg_cells c (hd row \<and> c = CHR ''*'') row v"
  have len: "length row = Suc (length v)" and row: "\<And>j. j \<le> length v \<Longrightarrow> row ! j = seg_spec g (take j v)"
    using ok by (auto simp: row_ok_def)
  have first: "(hd row \<and> c = CHR ''*'') = seg_spec (g @ [c]) []"
  proof (cases "c = CHR ''*''")
    case True
    then show ?thesis using row [of 0] len by (cases row) (auto simp: seg_spec_star_iff)
  next
    case False
    then show ?thesis by (auto simp: seg_spec_one_iff)
  qed
  have "(seg_row c row v) ! j = seg_spec (g @ [c]) (take j v)" if "j \<le> length v" for j
    using that
  proof (induction j)
    case 0
    then show ?case using first by (simp add: seg_row_def Let_def)
  next
    case (Suc j)
    then have cell: "seg_row c row v ! Suc j = ?cells ! j" and j: "j < length v"
      by (auto simp: seg_row_def Let_def)
    show ?case
    proof (cases "c = CHR ''*''")
      case True
      have "(?cells ! j) = (row ! Suc j \<or> seg_row c row v ! j)"
        using nth_seg_cells [OF len j] True by (simp add: seg_row_def Let_def)
      then show ?thesis
        using cell Suc j True row [of "Suc j"] seg_spec_star_Suc [OF j, of g] by simp
    next
      case False
      have "(?cells ! j) = (row ! j \<and> (c = CHR ''?'' \<or> c = v ! j))"
        using nth_seg_cells [OF len j] False by simp
      moreover have "take (Suc j) v \<noteq> []" using j by auto
      moreover have "last (take (Suc j) v) = v ! j" "butlast (take (Suc j) v) = take j v"
        using j by (simp_all add: take_Suc_conv_app_nth)
      ultimately show ?thesis
        using cell False row [of j] j by (auto simp: seg_spec_one_iff)
    qed
  qed
  moreover have "length (seg_row c row v) = Suc (length v)"
    using len by (simp add: seg_row_def Let_def length_seg_cells)
  ultimately show ?thesis by (simp add: row_ok_def)
qed

lemma consume_Inr [result_simps]: "consume b n = Inr b' \<longleftrightarrow> b' = b - int n \<and> 0 \<le> b'"
  by (auto simp: consume_def Let_def)

lemma seg_rows_ok:
  "seg_rows glob b row v = Inr (row', b') \<Longrightarrow> row_ok g v row \<Longrightarrow> row_ok (g @ glob) v row'"
proof (induction glob arbitrary: b row g)
  case Nil
  then show ?case by simp
next
  case (Cons c glob)
  then show ?case
    using seg_row_ok [of g v row c] by (fastforce simp: result_simps)
qed

theorem seg_match_correct: "seg_match b glob v = Inr (ok, b') \<Longrightarrow> ok = seg_spec glob v"
proof -
  assume "seg_match b glob v = Inr (ok, b')"
  then obtain row where rows: "seg_rows glob b (True # replicate (length v) False) v = Inr (row, b')"
    and ok: "ok = last row"
    by (auto simp: seg_match_def result_simps)
  have "row_ok [] v (True # replicate (length v) False)"
    by (auto simp: row_ok_def nth_Cons split: nat.splits)
  from seg_rows_ok [OF rows this] have "row_ok glob v row" by simp
  then show ?thesis
    using ok by (simp add: row_ok_def last_conv_nth flip: length_0_conv)
qed


text \<open>The part indices reached after a prefix of the pattern segments.\<close>

definition reach_ok :: "bytes list \<Rightarrow> bytes list \<Rightarrow> nat list \<Rightarrow> bool" where
  "reach_ok ps parts reach \<longleftrightarrow> distinct reach
     \<and> (\<forall>k. k \<in> set reach \<longleftrightarrow> k \<le> length parts \<and> parts_spec ps (take k parts))"

lemma parts_spec_deep_iff:
  "parts_spec (ps @ [''**'']) vs \<longleftrightarrow> (\<exists>k \<le> length vs. parts_spec ps (take k vs))"
proof
  assume "parts_spec (ps @ [''**'']) vs"
  then obtain us ws where "vs = us @ ws" "parts_spec ps us"
    by (auto elim: parts_spec_snocE)
  then show "\<exists>k \<le> length vs. parts_spec ps (take k vs)"
    by (intro exI [of _ "length us"]) auto
next
  assume "\<exists>k \<le> length vs. parts_spec ps (take k vs)"
  then obtain k where "parts_spec ps (take k vs)" by blast
  from parts_deep [OF this, of "drop k vs"] show "parts_spec (ps @ [''**'']) vs" by simp
qed

lemma parts_spec_seg_iff:
  "g \<noteq> ''**'' \<Longrightarrow>
   parts_spec (ps @ [g]) vs \<longleftrightarrow> vs \<noteq> [] \<and> seg_spec g (last vs) \<and> parts_spec ps (butlast vs)"
proof
  assume "g \<noteq> ''**''" "parts_spec (ps @ [g]) vs"
  then show "vs \<noteq> [] \<and> seg_spec g (last vs) \<and> parts_spec ps (butlast vs)"
    by (auto elim: parts_spec_snocE)
next
  assume "g \<noteq> ''**''" "vs \<noteq> [] \<and> seg_spec g (last vs) \<and> parts_spec ps (butlast vs)"
  then show "parts_spec (ps @ [g]) vs"
    using parts_seg [of g "last vs" ps "butlast vs"] by simp
qed

lemma step_segments_set:
  "step_segments glob parts reach b = Inr (out, b') \<Longrightarrow>
   out = map Suc (filter (\<lambda>i. i < length parts \<and> seg_spec glob (parts ! i)) reach)"
proof (induction reach arbitrary: b out b')
  case Nil
  then show ?case by simp
next
  case (Cons i reach)
  show ?case
  proof (cases "i < length parts")
    case True
    with Cons.prems obtain ok b1 out' where "seg_match b glob (parts ! i) = Inr (ok, b1)"
      "step_segments glob parts reach b1 = Inr (out', b')" "out = (if ok then Suc i # out' else out')"
      by (fastforce simp: result_simps)
    with Cons.IH seg_match_correct True show ?thesis by fastforce
  next
    case False
    with Cons show ?thesis by simp
  qed
qed

lemma reach_step_seg:
  assumes "g \<noteq> ''**''" "reach_ok ps parts reach"
  shows "reach_ok (ps @ [g]) parts
     (map Suc (filter (\<lambda>i. i < length parts \<and> seg_spec g (parts ! i)) reach))"
proof -
  have "k \<in> Suc ` {i \<in> set reach. i < length parts \<and> seg_spec g (parts ! i)} \<longleftrightarrow>
      k \<le> length parts \<and> parts_spec (ps @ [g]) (take k parts)" for k
  proof (cases k)
    case 0
    with assms(1) show ?thesis by (auto simp: parts_spec_seg_iff)
  next
    case (Suc i)
    show ?thesis
    proof (cases "i < length parts")
      case True
      then have "last (take k parts) = parts ! i" "butlast (take k parts) = take i parts" "take k parts \<noteq> []"
        using Suc by (auto simp: take_Suc_conv_app_nth)
      with assms True Suc show ?thesis
        by (auto simp: parts_spec_seg_iff reach_ok_def image_iff)
    next
      case False
      with Suc show ?thesis by auto
    qed
  qed
  with assms(2) show ?thesis
    by (auto simp: reach_ok_def distinct_map)
qed

lemma reach_step_deep:
  assumes "reach_ok ps parts reach"
  shows "reach_ok (ps @ [''**'']) parts
     (if reach \<noteq> [] then [Min (set reach)..<length parts + 1] else [])"
proof -
  have member: "k \<in> set reach \<longleftrightarrow> k \<le> length parts \<and> parts_spec ps (take k parts)" for k
    using assms by (auto simp: reach_ok_def)
  have deep: "k \<le> length parts \<and> parts_spec (ps @ [''**'']) (take k parts) \<longleftrightarrow>
      k \<le> length parts \<and> (\<exists>i \<in> set reach. i \<le> k)" for k
    using member by (auto simp: parts_spec_deep_iff min_def)
  have "Min (set reach) \<le> k \<longleftrightarrow> (\<exists>i \<in> set reach. i \<le> k)" if "reach \<noteq> []" for k
    using that by (simp add: Min_le_iff)
  with deep show ?thesis
    by (auto simp: reach_ok_def less_Suc_eq_le)
qed

lemma parts_spec_dead:
  "reach_ok ps parts [] \<Longrightarrow> k \<le> length parts \<Longrightarrow> \<not> parts_spec (ps @ globs) (take k parts)"
proof (induction globs arbitrary: ps)
  case Nil
  then show ?case by (auto simp: reach_ok_def)
next
  case (Cons g globs)
  have "reach_ok (ps @ [g]) parts []"
    using reach_step_seg [of g ps parts "[]"] reach_step_deep [of ps parts "[]"] Cons.prems(1)
    by (cases "g = ''**''") auto
  from Cons.IH [OF this Cons.prems(2)] show ?case by simp
qed

lemma match_parts_correct:
  "match_parts globs parts reach b = Inr (ok, b') \<Longrightarrow> reach_ok ps parts reach \<Longrightarrow>
   ok = parts_spec (ps @ globs) parts"
proof (induction globs arbitrary: reach b ps)
  case Nil
  then show ?case by (auto simp: reach_ok_def)
next
  case (Cons g globs)
  from Cons.prems(1) obtain b1 reach' b2 where
    next_reach: "(if g = ''**''
      then Inr (if reach \<noteq> [] then [Min (set reach)..<length parts + 1] else [], b1)
      else step_segments g parts reach b1) = Inr (reach', b2)"
    and rest: "(if reach' = [] then Inr (False, b2) else match_parts globs parts reach' b2) = Inr (ok, b')"
    by (auto simp: result_simps simp del: upt_Suc split: prod.splits)
  have ok': "reach_ok (ps @ [g]) parts reach'"
  proof (cases "g = ''**''")
    case True
    with next_reach reach_step_deep [OF Cons.prems(2)] show ?thesis by auto
  next
    case False
    with next_reach have "reach' = map Suc (filter (\<lambda>i. i < length parts \<and> seg_spec g (parts ! i)) reach)"
      by (auto dest: step_segments_set)
    with reach_step_seg [OF False Cons.prems(2)] show ?thesis by simp
  qed
  show ?case
  proof (cases "reach' = []")
    case True
    with rest ok' parts_spec_dead [of "ps @ [g]" parts "length parts" globs] show ?thesis by auto
  next
    case False
    with rest have "match_parts globs parts reach' b2 = Inr (ok, b')" by simp
    from Cons.IH [OF this ok'] show ?thesis by simp
  qed
qed

theorem ant_matches_correct: "ant_matches pat path ci b = Inr (ok, b') \<Longrightarrow> ok = ant_spec pat path ci"
proof -
  assume m: "ant_matches pat path ci b = Inr (ok, b')"
  have start: "reach_ok [] (split_on (CHR ''/'') (fold_case ci path)) [0]"
    by (auto simp: reach_ok_def)
  show ?thesis
  proof (cases "prefix ''/'' path \<and> prefix ''/'' pat")
    case False
    with m show ?thesis by (auto simp: ant_matches_def ant_spec_def)
  next
    case True
    with m obtain b1 where
      "match_parts (split_on (CHR ''/'') (fold_case ci pat)) (split_on (CHR ''/'') (fold_case ci path)) [0] b1
        = Inr (ok, b')"
      by (auto simp: ant_matches_def fold_case_def Let_def result_simps split: if_splits)
    from match_parts_correct [OF this start] True show ?thesis
      by (simp add: ant_spec_def)
  qed
qed


section \<open>A sufficient budget\<close>

lemma seg_rows_cost:
  "int (length glob * (length v + 1)) \<le> b \<Longrightarrow>
   \<exists>row'. seg_rows glob b row v = Inr (row', b - int (length glob * (length v + 1)))"
proof (induction glob arbitrary: b row)
  case Nil
  then show ?case by simp
next
  case (Cons c glob)
  let ?n = "int (length v + 1)"
  have "consume b (length v + 1) = Inr (b - ?n)"
    using Cons.prems by (simp add: consume_Inr algebra_simps) (smt (verit) of_nat_0_le_iff zero_le_mult_iff)
  moreover have "int (length glob * (length v + 1)) \<le> b - ?n"
    using Cons.prems by (simp add: algebra_simps)
  ultimately show ?case
    using Cons.IH [of "b - ?n" "seg_row c row v"] by (auto simp: algebra_simps)
qed

lemma seg_match_cost:
  "int (length glob * (length v + 1)) \<le> b \<Longrightarrow>
   \<exists>ok. seg_match b glob v = Inr (ok, b - int (length glob * (length v + 1)))"
  using seg_rows_cost [of glob v b "True # replicate (length v) False"]
  by (auto simp: seg_match_def)

definition parts_size :: "bytes list \<Rightarrow> nat" where
  "parts_size parts = sum_list (map (\<lambda>p. length p + 1) parts)"

lemma parts_size_split [simp]: "parts_size (split_on sep s) = length s + 1"
  by (induction s) (auto simp: parts_size_def split: list.splits)

lemma length_le_parts_size: "length parts \<le> parts_size parts"
  by (induction parts) (auto simp: parts_size_def)

lemma sum_parts_size: "(\<Sum>i < length parts. length (parts ! i) + 1) = parts_size parts"
  by (simp add: parts_size_def sum_list_sum_nth atLeast0LessThan)

lemma step_segments_cost:
  "int (\<Sum>i \<leftarrow> filter (\<lambda>i. i < length parts) reach. length glob * (length (parts ! i) + 1)) \<le> b \<Longrightarrow>
   \<exists>out. step_segments glob parts reach b =
     Inr (out, b - int (\<Sum>i \<leftarrow> filter (\<lambda>i. i < length parts) reach. length glob * (length (parts ! i) + 1)))"
proof (induction reach arbitrary: b)
  case Nil
  then show ?case by simp
next
  case (Cons i reach)
  show ?case
  proof (cases "i < length parts")
    case True
    let ?c = "int (length glob * (length (parts ! i) + 1))"
    let ?r = "\<Sum>i \<leftarrow> filter (\<lambda>i. i < length parts) reach. length glob * (length (parts ! i) + 1)"
    from Cons.prems True have le: "?c \<le> b" "int ?r \<le> b - ?c" by auto
    obtain ok where "seg_match b glob (parts ! i) = Inr (ok, b - ?c)"
      using seg_match_cost [OF le(1)] by blast
    moreover obtain out where "step_segments glob parts reach (b - ?c) = Inr (out, b - ?c - int ?r)"
      using Cons.IH [OF le(2)] by blast
    ultimately show ?thesis using True by (auto simp: algebra_simps)
  next
    case False
    with Cons show ?thesis by simp
  qed
qed

lemma step_segments_sum_le:
  assumes "distinct reach"
  shows "(\<Sum>i \<leftarrow> filter (\<lambda>i. i < length parts) reach. length glob * (length (parts ! i) + 1))
     \<le> length glob * parts_size parts"
proof -
  have "(\<Sum>i \<leftarrow> filter (\<lambda>i. i < length parts) reach. length glob * (length (parts ! i) + 1))
      = (\<Sum>i \<in> {i \<in> set reach. i < length parts}. length glob * (length (parts ! i) + 1))"
    using assms by (simp add: sum_list_distinct_conv_sum_set)
  also have "\<dots> \<le> (\<Sum>i < length parts. length glob * (length (parts ! i) + 1))"
    by (intro sum_mono2) auto
  also have "\<dots> = length glob * parts_size parts"
    by (simp flip: sum_parts_size add: sum_distrib_left)
  finally show ?thesis .
qed

definition parts_cost :: "bytes list \<Rightarrow> bytes list \<Rightarrow> nat" where
  "parts_cost globs parts =
     (\<Sum>g \<leftarrow> globs. 2 * length parts + 1 + length g * parts_size parts)"

lemma reach_ok_length: "reach_ok ps parts reach \<Longrightarrow> length reach \<le> length parts + 1"
proof -
  assume ok: "reach_ok ps parts reach"
  then have "set reach \<subseteq> {..length parts}" by (auto simp: reach_ok_def)
  then have "card (set reach) \<le> length parts + 1"
    using card_mono [of "{..length parts}" "set reach"] by simp
  with ok show ?thesis by (simp add: reach_ok_def distinct_card)
qed

lemma match_parts_total:
  "reach_ok ps parts reach \<Longrightarrow> int (parts_cost globs parts) \<le> b \<Longrightarrow>
   \<exists>ok b'. match_parts globs parts reach b = Inr (ok, b')"
proof (induction globs arbitrary: reach b ps)
  case Nil
  then show ?case by simp
next
  case (Cons g globs)
  let ?b1 = "b - int (length parts + length reach)"
  have cost: "int (2 * length parts + 1) + int (length g * parts_size parts) + int (parts_cost globs parts) \<le> b"
    using Cons.prems(2) by (simp add: parts_cost_def)
  have reach: "int (length parts + length reach) \<le> int (2 * length parts + 1)"
    using reach_ok_length [OF Cons.prems(1)] by simp
  have b1: "int (length g * parts_size parts) + int (parts_cost globs parts) \<le> ?b1"
    using cost reach by linarith
  then have "0 \<le> ?b1" by linarith
  then have c1: "consume b (length parts + length reach) = Inr ?b1"
    unfolding consume_Inr by simp
  have "\<exists>reach' b2. (if g = ''**''
      then Inr (if reach \<noteq> [] then [Min (set reach)..<length parts + 1] else [], ?b1)
      else step_segments g parts reach ?b1) = Inr (reach', b2)
      \<and> reach_ok (ps @ [g]) parts reach' \<and> int (parts_cost globs parts) \<le> b2"
  proof (cases "g = ''**''")
    case True
    with b1 reach_step_deep [OF Cons.prems(1)] show ?thesis by auto
  next
    case False
    have dist: "distinct reach" using Cons.prems(1) by (simp add: reach_ok_def)
    let ?s = "\<Sum>i \<leftarrow> filter (\<lambda>i. i < length parts) reach. length g * (length (parts ! i) + 1)"
    have s: "?s \<le> length g * parts_size parts"
      by (rule step_segments_sum_le [OF dist])
    then have "int ?s \<le> ?b1" using b1 by linarith
    from step_segments_cost [OF this] obtain out where
      out: "step_segments g parts reach ?b1 = Inr (out, ?b1 - int ?s)" by blast
    moreover have "reach_ok (ps @ [g]) parts out"
      using reach_step_seg [OF False Cons.prems(1)] step_segments_set [OF out] by simp
    moreover have "int (parts_cost globs parts) \<le> ?b1 - int ?s" using s b1 by linarith
    ultimately show ?thesis using False by auto
  qed
  then obtain reach' b2 where step: "(if g = ''**''
      then Inr (if reach \<noteq> [] then [Min (set reach)..<length parts + 1] else [], ?b1)
      else step_segments g parts reach ?b1) = Inr (reach', b2)"
    and ok: "reach_ok (ps @ [g]) parts reach'" and b2: "int (parts_cost globs parts) \<le> b2"
    by blast
  have eq: "match_parts (g # globs) parts reach b =
      (if reach' = [] then Inr (False, b2) else match_parts globs parts reach' b2)"
    by (simp only: match_parts.simps c1 step bindE_simps prod.case)
  show ?case
    unfolding eq using Cons.IH [OF ok b2] by (cases "reach' = []") auto
qed

definition ant_cost :: "bytes \<Rightarrow> bytes \<Rightarrow> nat" where
  "ant_cost pat path = length pat + length path
     + (length pat + 1) * (2 * (length path + 1) + 1) + length pat * (length path + 1)"

lemma parts_cost_le:
  "parts_cost (split_on sep pat) (split_on sep path)
     \<le> (length pat + 1) * (2 * (length path + 1) + 1) + length pat * (length path + 1)"
proof -
  have len: "length (split_on sep t) \<le> length t + 1" for t
    using length_le_parts_size [of "split_on sep t"] by simp
  have size: "sum_list (map length (split_on sep pat)) \<le> length pat"
    using parts_size_split [of sep pat] split_on_not_Nil [of sep pat]
      sum_list_mono [of "tl (split_on sep pat)" length "\<lambda>p. Suc (length p)"]
    by (cases "split_on sep pat") (auto simp: parts_size_def)
  have cost: "parts_cost globs parts =
      length globs * (2 * length parts + 1) + sum_list (map length globs) * parts_size parts" for globs parts
    by (induction globs) (auto simp: parts_cost_def algebra_simps)
  show ?thesis
    unfolding cost using len [of pat] len [of path] size
    by (intro add_mono mult_mono) auto
qed

theorem ant_matches_total:
  assumes "length pat \<le> 8192" "length path \<le> 8192" "CHR 0x00 \<notin> set path"
    and "int (ant_cost pat path) \<le> b"
  shows "\<exists>b'. ant_matches pat path ci b = Inr (ant_spec pat path ci, b')"
proof -
  have "\<exists>ok b'. ant_matches pat path ci b = Inr (ok, b')"
  proof (cases "prefix ''/'' path \<and> prefix ''/'' pat")
    case False
    then show ?thesis by (auto simp: ant_matches_def)
  next
    case True
    let ?pat = "fold_case ci pat" and ?path = "fold_case ci path"
    let ?b1 = "b - int (length pat + length path)"
    have len: "length ?pat = length pat" "length ?path = length path"
      by (simp_all add: fold_case_def)
    have "length pat + length path \<le> ant_cost pat path" by (simp add: ant_cost_def)
    then have "0 \<le> ?b1" using assms(4) by linarith
    then have c: "consume b (length pat + length path) = Inr ?b1"
      unfolding consume_Inr by simp
    have b1: "int (parts_cost (split_on (CHR ''/'') ?pat) (split_on (CHR ''/'') ?path)) \<le> ?b1"
      using assms(4) parts_cost_le [of "CHR ''/''" ?pat ?path] unfolding len ant_cost_def by linarith
    have start: "reach_ok [] (split_on (CHR ''/'') ?path) [0]"
      by (auto simp: reach_ok_def)
    from match_parts_total [OF start b1] True assms(1-3) c show ?thesis
      by (cases ci) (simp_all add: ant_matches_def Let_def fold_case_def)
  qed
  then obtain ok b' where m: "ant_matches pat path ci b = Inr (ok, b')" by blast
  with ant_matches_correct [OF m] show ?thesis by simp
qed


section \<open>What a policy decides\<close>

text \<open>The pure meaning of one rule for one request; \<open>nms\<close> are the canonical names.\<close>

definition path_accepts :: "bool \<Rightarrow> egress_rule \<Rightarrow> policy_request \<Rightarrow> bool" where
  "path_accepts whitelist rule r \<longleftrightarrow> ps_paths (options rule) = []
     \<or> (\<exists>path. normalized_path r = Some path \<and> (\<exists>item \<in> set (ps_paths (options rule)).
          ant_spec (utf8_encode (pattern item)) path
            (case case_insensitive item of None \<Rightarrow> \<not> whitelist | Some ci \<Rightarrow> ci)))"

definition rule_applies :: "bool \<Rightarrow> string list \<Rightarrow> policy_request \<Rightarrow> egress_rule \<Rightarrow> bool" where
  "rule_applies whitelist nms r rule \<longleftrightarrow> rule_scope rule r \<and> path_accepts whitelist rule r
     \<and> upgrade_allowed (options rule) (upgrade r)
     \<and> (domain rule = ''*''
        \<or> (if whitelist then nms \<noteq> [] \<and> (\<forall>n \<in> set nms. domain_matches (domain rule) n)
           else nms = [] \<or> (\<exists>n \<in> set nms. domain_matches (domain rule) n)))"

definition policy_spec :: "bool \<Rightarrow> string list \<Rightarrow> policy_request \<Rightarrow> egress_rule list \<Rightarrow> bool" where
  "policy_spec whitelist nms r rs \<longleftrightarrow>
     (if whitelist then \<exists>rule \<in> set rs. rule_applies True nms r rule
      else \<not> (\<exists>rule \<in> set rs. rule_applies False nms r rule))"

lemma any_path_correct:
  "any_path whitelist path items b = Inr (ok, b') \<Longrightarrow>
   ok = (\<exists>item \<in> set items. ant_spec (utf8_encode (pattern item)) path
          (case case_insensitive item of None \<Rightarrow> \<not> whitelist | Some ci \<Rightarrow> ci))"
proof (induction items arbitrary: b)
  case Nil
  then show ?case by simp
next
  case (Cons item items)
  then show ?case
    by (auto simp: result_simps split: if_splits dest!: ant_matches_correct)
qed

lemma rule_paths_correct:
  "rule_paths whitelist rule r b = Inr (ok, b') \<Longrightarrow> ok = path_accepts whitelist rule r"
proof (cases "normalized_path r")
  case None
  assume "rule_paths whitelist rule r b = Inr (ok, b')"
  with None show ?thesis by (auto simp: rule_paths_def path_accepts_def split: if_splits)
next
  case (Some path)
  assume paths: "rule_paths whitelist rule r b = Inr (ok, b')"
  show ?thesis
  proof (cases "ps_paths (options rule) = []")
    case True
    with paths show ?thesis by (simp add: rule_paths_def path_accepts_def)
  next
    case False
    with paths Some have "any_path whitelist path (ps_paths (options rule)) b = Inr (ok, b')"
      by (simp add: rule_paths_def)
    from any_path_correct [OF this] Some False show ?thesis by (simp add: path_accepts_def)
  qed
qed

lemma evaluate_correct:
  "evaluate whitelist nms r rs b = Inr d \<Longrightarrow> d = policy_spec whitelist nms r rs"
proof (induction rs arbitrary: b)
  case Nil
  then show ?case by (auto simp: policy_spec_def)
next
  case (Cons rule rs)
  have IH: "\<And>b. evaluate whitelist nms r rs b = Inr d \<Longrightarrow> d = policy_spec whitelist nms r rs"
    by (rule Cons.IH)
  from Cons.prems obtain b1 where eval:
    "(if \<not> rule_scope rule r then evaluate whitelist nms r rs b1
      else bindE (rule_paths whitelist rule r b1) (\<lambda>(ok, b2).
         if \<not> ok then evaluate whitelist nms r rs b2
         else if \<not> upgrade_allowed (options rule) (upgrade r) then evaluate whitelist nms r rs b2
         else if domain rule = ''*'' then Inr whitelist
         else if nms = [] then (if \<not> whitelist then Inr False else evaluate whitelist nms r rs b2)
         else if (if whitelist then list_all (domain_matches (domain rule)) nms
                  else list_ex (domain_matches (domain rule)) nms)
         then Inr whitelist
         else evaluate whitelist nms r rs b2)) = Inr d"
    by (auto simp: result_simps)
  have skip: "\<not> rule_applies whitelist nms r rule \<Longrightarrow>
      policy_spec whitelist nms r (rule # rs) = policy_spec whitelist nms r rs"
    by (auto simp: policy_spec_def)
  have hit: "rule_applies whitelist nms r rule \<Longrightarrow> policy_spec whitelist nms r (rule # rs) = whitelist"
    by (auto simp: policy_spec_def)
  show ?case
  proof (cases "rule_scope rule r")
    case False
    with eval IH skip show ?thesis by (simp add: rule_applies_def)
  next
    case True
    with eval obtain ok b2 where paths: "rule_paths whitelist rule r b1 = Inr (ok, b2)"
      by (auto simp: result_simps)
    note ok = rule_paths_correct [OF paths]
    show ?thesis
    proof (cases "rule_applies whitelist nms r rule")
      case applies: True
      with eval True paths ok have "d = whitelist"
        by (auto simp: rule_applies_def list_all_iff list_ex_iff split: if_splits)
      with hit [OF applies] show ?thesis by simp
    next
      case no: False
      with eval True paths ok have "evaluate whitelist nms r rs b2 = Inr d"
        by (auto simp: rule_applies_def list_all_iff list_ex_iff split: if_splits)
      from IH [OF this] skip [OF no] show ?thesis by simp
    qed
  qed
qed

lemma permitted_cases:
  assumes "permitted (Some snap) r = Inr d"
  shows "(\<not> request_shape_ok r \<and> \<not> d)
     \<or> (request_shape_ok r \<and> (\<exists>nms. mapE canonical_host (names r) = Inr nms
          \<and> (if card (set nms) > 1 then \<not> d
             else d = policy_spec (mode (settings snap) = Whitelist) nms r (rules (settings snap)))))"
  using assms by (auto simp: permitted_def result_simps dest: evaluate_correct split: if_splits)

text \<open>Canonicalisation of the settings does not change any decision, not even the budget spent.\<close>

lemma any_path_canonical:
  "(m = Blacklist) = (\<not> whitelist) \<Longrightarrow>
   any_path whitelist path (map (canonical_path m) items) b = any_path whitelist path items b"
  by (induction items arbitrary: b) (simp_all add: canonical_path_def split: option.split cong: if_cong)

lemma rule_paths_canonical:
  "(m = Blacklist) = (\<not> whitelist) \<Longrightarrow>
   rule_paths whitelist (canonical_rule m rule) r b = rule_paths whitelist rule r b"
  by (simp add: rule_paths_def canonical_rule_def any_path_canonical split: option.split)

lemma rule_canonical_simps:
  "rule_scope (canonical_rule m rule) r = rule_scope rule r"
  "upgrade_allowed (options (canonical_rule m rule)) u = upgrade_allowed (options rule) u"
  "domain (canonical_rule m rule) = domain rule"
  by (auto simp: rule_scope_def canonical_rule_def upgrade_allowed_def split: upgrades.splits option.splits)

lemma evaluate_canonical:
  assumes "(m = Blacklist) = (\<not> whitelist)"
  shows "evaluate whitelist nms r (map (canonical_rule m) rs) b = evaluate whitelist nms r rs b"
proof (induction rs arbitrary: b nms)
  case Nil
  then show ?case by simp
next
  case (Cons rule rs)
  then show ?case
    by (simp only: list.map evaluate.simps rule_paths_canonical [OF assms] rule_canonical_simps cong: if_cong)
qed


section \<open>Canonical host names\<close>

definition dns_host :: "string \<Rightarrow> bool" where
  "dns_host v \<longleftrightarrow> length v \<le> 253 \<and> list_all label_ok (split_on (CHR ''.'') v)
     \<and> \<not> list_all (\<lambda>c. c \<in> set ''0123456789.'') v"

text \<open>The two shapes of an accepted host.\<close>

lemma canonical_host_cases:
  assumes "canonical_host v = Inr h"
  obtains a where "parse_ip (lower v) = Some a" "ip_wf a" "h = ip_str a"
  | "parse_ip (lower v) = None" "h = removesuffix ''.'' (lower v)" "dns_host h"
proof -
  from assms have ascii: "list_all is_ascii v" by (auto simp: canonical_host_def split: if_splits)
  note low = str_lower_ascii [OF ascii]
  show thesis
  proof (cases "parse_ip (lower v)")
    case None
    with assms that(2) show thesis
      by (auto simp: canonical_host_def Let_def low dns_host_def split: if_splits)
  next
    case (Some a)
    with assms that(1) show thesis
      by (auto simp: canonical_host_def Let_def low parse_ip_wf split: if_splits)
  qed
qed

lemma label_ok_chars: "label_ok s \<Longrightarrow> c \<in> set s \<Longrightarrow> is_lower_alpha c \<or> is_digit c \<or> c = CHR ''-''"
  by (auto simp: label_ok_def is_alnum_lower_def list_all_iff)

lemma dns_host_chars:
  assumes "dns_host v" "c \<in> set v"
  shows "is_lower_alpha c \<or> is_digit c \<or> c = CHR ''-'' \<or> c = CHR ''.''"
proof -
  have "set v \<subseteq> insert (CHR ''.'') (\<Union> (set ` set (split_on (CHR ''.'') v)))"
    using set_join_with [of "CHR ''.''" "split_on (CHR ''.'') v"] by simp
  with assms(2) consider "c = CHR ''.''" | p where "p \<in> set (split_on (CHR ''.'') v)" "c \<in> set p"
    by blast
  then show ?thesis
  proof cases
    case 2
    with assms(1) have "label_ok p" by (simp add: dns_host_def list_all_iff)
    with 2 label_ok_chars show ?thesis by blast
  qed simp
qed

lemma dns_host_ascii_lower:
  assumes "dns_host v"
  shows "list_all is_ascii v" "lower v = v" "CHR ''%'' \<notin> set v" "CHR '':'' \<notin> set v" "v \<noteq> []"
proof -
  have c: "c \<in> set v \<Longrightarrow> is_ascii c \<and> \<not> is_upper_alpha c \<and> c \<noteq> CHR ''%'' \<and> c \<noteq> CHR '':''" for c
  proof -
    assume "c \<in> set v"
    from dns_host_chars [OF assms this] show ?thesis
      by (elim disjE) (auto simp: is_ascii_def is_lower_alpha_def is_digit_def is_upper_alpha_def)
  qed
  then show "list_all is_ascii v" "lower v = v" "CHR ''%'' \<notin> set v" "CHR '':'' \<notin> set v"
    by (auto simp: list_all_iff lower_id_iff)
  show "v \<noteq> []" using assms by (auto simp: dns_host_def)
qed

lemma parse_ip_dns_host: "dns_host v \<Longrightarrow> parse_ip v = None"
proof -
  assume v: "dns_host v"
  have "parse_ipv4 v = None"
  proof (cases "parse_ipv4 v")
    case (Some n)
    then have "c \<in> set v \<Longrightarrow> c \<in> set ''0123456789.''" for c
      using parse_ipv4_chars [OF Some, of c] by (auto simp: is_digit_iff)
    then have "list_all (\<lambda>c. c \<in> set ''0123456789.'') v" by (simp add: list_all_iff)
    with v show ?thesis by (simp add: dns_host_def)
  qed simp
  moreover have "parse_ipv6 v = None"
    using dns_host_ascii_lower(4) [OF v] by (simp add: parse_ipv6_def split_on_single)
  ultimately show ?thesis by (simp add: parse_ip_def)
qed

lemma removesuffix_dns_host: "dns_host v \<Longrightarrow> removesuffix ''.'' v = v"
proof -
  assume v: "dns_host v"
  have "\<not> suffix ''.'' v"
  proof
    assume "suffix ''.'' v"
    then obtain u where "v = u @ ''.''" by (auto simp: suffix_def)
    then have "[] \<in> set (split_on (CHR ''.'') v)"
      by (simp add: split_on_snoc_sep)
    with v show False by (auto simp: dns_host_def list_all_iff label_ok_def)
  qed
  then show ?thesis by (simp add: removesuffix_def)
qed

lemma canonical_host_dns: "dns_host v \<Longrightarrow> canonical_host v = Inr v"
  using dns_host_ascii_lower [of v] parse_ip_dns_host [of v] removesuffix_dns_host [of v]
  by (auto simp: canonical_host_def Let_def str_lower_ascii dns_host_def)

lemma ip_str_chars: "ip_wf a \<Longrightarrow> c \<in> set (ip_str a) \<Longrightarrow> (is_hex c \<and> \<not> is_upper_alpha c) \<or> c = CHR '':'' \<or> c = CHR ''.''"
proof (cases a)
  case (IPv4 n)
  assume "c \<in> set (ip_str a)"
  with IPv4 set_join_with [of "CHR ''.''"] have "c = CHR ''.'' \<or> is_digit c"
    by (fastforce simp: ipv4_str_def dest: nat_str_chars)
  then show ?thesis by (auto simp: is_hex_def is_digit_def is_upper_alpha_def)
next
  case (IPv6 n)
  assume "ip_wf a" "c \<in> set (ip_str a)"
  with IPv6 ipv6_str_chars [of n c] show ?thesis by auto
qed

lemma canonical_host_ip: "ip_wf a \<Longrightarrow> canonical_host (ip_str a) = Inr (ip_str a)"
proof -
  assume a: "ip_wf a"
  have c: "c \<in> set (ip_str a) \<Longrightarrow> is_ascii c \<and> \<not> is_upper_alpha c \<and> c \<noteq> CHR ''%''" for c
    using ip_str_chars [OF a, of c]
    by (auto simp: is_ascii_def is_hex_def is_digit_def is_upper_alpha_def)
  then have "list_all is_ascii (ip_str a)" "lower (ip_str a) = ip_str a" "CHR ''%'' \<notin> set (ip_str a)"
    by (auto simp: list_all_iff lower_id_iff)
  moreover have "ip_str a \<noteq> []"
    using parse_ip_str [OF a] by (auto simp: parse_ip_def parse_ipv4_def parse_ipv6_def parse_octet_def)
  ultimately show ?thesis
    using parse_ip_str [OF a] by (simp add: canonical_host_def str_lower_ascii)
qed

lemma canonical_host_fixed: "canonical_host v = Inr h \<Longrightarrow> canonical_host h = Inr h"
  by (erule canonical_host_cases) (auto simp: canonical_host_ip canonical_host_dns)

section \<open>Properties\<close>

text \<open>The inputs the witnesses use.\<close>

definition example_rule :: egress_rule where
  "example_rule = \<lparr>domain = ''*.example.com'', rule_port = 443, rule_protocol = ''https'',
     options = \<lparr>ps_method = ''GET'', ps_upgrades = UpgradesNone,
       ps_paths = [\<lparr>pattern = ''/a/*'', case_insensitive = None\<rparr>]\<rparr>,
     rule_sub_protocol = ''any''\<rparr>"

definition example_snapshot :: egress_snapshot where
  "example_snapshot = \<lparr>revision = 7, settings = \<lparr>rules = [example_rule], mode = Whitelist\<rparr>\<rparr>"

definition example_request :: policy_request where
  "example_request = \<lparr>names = [''api.example.com''], req_port = 443, req_protocol = ''https'',
     req_sub_protocol = ''http/1.1'', req_method = ''GET'', normalized_path = Some ''/a/b'',
     upgrade = None\<rparr>"

lemmas [eval_simps] = example_rule_def example_snapshot_def example_request_def match_budget_def

lemma example_permitted: "permitted (Some example_snapshot) example_request = Inr True"
  by (simp add: eval_simps Let_def suffix_to_prefix)

text \<open>C1: A request is permitted exactly when a policy is configured, the request is well formed with
  at most one canonical name, and the declarative policy allows it: in whitelist mode some rule
  applies, in blacklist mode none does. The order of the rules does not matter.\<close>

theorem permitted_decision:
  assumes "permitted snapshot r = Inr d"
  shows "d \<longleftrightarrow> (\<exists>snap nms. snapshot = Some snap \<and> request_shape_ok r
    \<and> mapE canonical_host (names r) = Inr nms \<and> card (set nms) \<le> 1
    \<and> policy_spec (mode (settings snap) = Whitelist) nms r (rules (settings snap)))"
proof (cases snapshot)
  case None
  with assms show ?thesis by (simp add: permitted_def)
next
  case (Some snap)
  with assms have "permitted (Some snap) r = Inr d" by simp
  from permitted_cases [OF this] Some show ?thesis by (auto simp: not_less split: if_splits)
qed

theorem permitted_decision_witness:
  "request_shape_ok example_request \<and> policy_spec True [''api.example.com''] example_request [example_rule]"
proof -
  have "mapE canonical_host (names example_request) = Inr [''api.example.com'']"
    by (simp add: eval_simps Let_def suffix_to_prefix)
  with permitted_decision [OF example_permitted] show ?thesis
    by (auto simp: example_snapshot_def)
qed

text \<open>C35: Within the documented size limits and with enough budget the Ant matcher returns, and it
  returns exactly what the declarative pattern language says.\<close>

theorem ant_matches_decides:
  assumes "length pat \<le> 8192" "length path \<le> 8192" "CHR 0x00 \<notin> set path"
    and "int (ant_cost pat path) \<le> b"
  shows "\<exists>b'. ant_matches pat path ci b = Inr (ant_spec pat path ci, b')"
  by (rule ant_matches_total [OF assms])

theorem ant_matches_decides_witness:
  "\<exists>b'. ant_matches ''/a/**'' ''/a/b/c'' False 1000 = Inr (ant_spec ''/a/**'' ''/a/b/c'' False, b')"
  by (rule ant_matches_decides) (simp_all add: ant_cost_def eval_simps Let_def)

text \<open>Storing settings in canonical form does not change a single decision, nor any denial by
  the matching budget.\<close>

theorem canonical_settings_same_decisions:
  assumes "recode st = Inr st" "canonical_settings recode st = Inr canonical"
  shows "permitted (Some \<lparr>revision = n, settings = canonical\<rparr>) r
       = permitted (Some \<lparr>revision = n, settings = st\<rparr>) r"
proof -
  have "(mode st = Blacklist) = (\<not> mode st = Whitelist)" by (cases "mode st") auto
  from assms evaluate_canonical [OF this] show ?thesis
    by (auto simp: canonical_settings_def permitted_def cong: if_cong)
qed

theorem canonical_settings_same_decisions_witness:
  "\<exists>c. canonical_settings Inr (settings example_snapshot) = Inr c \<and> c \<noteq> settings example_snapshot \<and>
     permitted (Some \<lparr>revision = 7, settings = c\<rparr>) example_request = Inr True"
proof -
  let ?s = "settings example_snapshot"
  obtain c where c: "canonical_settings Inr ?s = Inr c" by (simp add: canonical_settings_def)
  moreover have "c \<noteq> ?s"
    using c by (auto simp: canonical_settings_def canonical_rule_def canonical_path_def
        example_snapshot_def example_rule_def)
  moreover have "permitted (Some \<lparr>revision = 7, settings = c\<rparr>) example_request
      = permitted (Some \<lparr>revision = 7, settings = ?s\<rparr>) example_request"
    by (rule canonical_settings_same_decisions [OF _ c]) simp
  moreover have "\<lparr>revision = 7, settings = ?s\<rparr> = example_snapshot" by (simp add: example_snapshot_def)
  ultimately show ?thesis using example_permitted by auto
qed

text \<open>A canonical host name is a fixed point: canonicalising it again gives it back.\<close>

theorem canonical_host_stable: "canonical_host v = Inr h \<Longrightarrow> canonical_host h = Inr h"
  by (rule canonical_host_fixed)

theorem canonical_host_stable_witness:
  "canonical_host ''API.Example.com.'' = Inr ''api.example.com''
   \<and> canonical_host ''api.example.com'' = Inr ''api.example.com''"
proof -
  have "canonical_host ''API.Example.com.'' = Inr ''api.example.com''" by (simp add: eval_simps Let_def suffix_to_prefix)
  with canonical_host_stable [OF this] show ?thesis by simp
qed

text \<open>An accepted authority has a port in range and a canonical host; every authority of an
  accepted identity, and its TLS name, then stand for the same single name.\<close>

theorem authority_canonical:
  assumes "authority v d = Inr (Some a)"
  shows "1 \<le> port a \<and> port a \<le> 65535 \<and> canonical_host (host a) = Inr (host a)"
  using assms canonical_host_fixed
  by (auto simp: authority_def bindE_eq_Inr split: if_splits)

theorem authority_canonical_witness:
  "\<exists>a. authority ''Example.COM:8443'' 443 = Inr (Some a) \<and> port a = 8443
     \<and> canonical_host (host a) = Inr ''example.com''"
proof -
  have a: "authority ''Example.COM:8443'' 443 = Inr (Some \<lparr>host = ''example.com'', port = 8443\<rparr>)"
    by (simp add: eval_simps Let_def suffix_to_prefix)
  from authority_canonical [OF a] a show ?thesis by auto
qed

end
