(* ===== verification/Destinations.thy ===== *)
theory Destinations
  imports Egress_Policy
begin

text \<open>
  The destination boundary of \<open>ads_sandbox_egress/destinations.py\<close>: the special-purpose
  nets, parsing of address text, \<open>DestinationBoundary\<close>, DNS names and
  \<open>ResolverBoundary\<close> (discovery from \<open>resolv.conf\<close> and the check of a queried name).
\<close>

section \<open>Networks\<close>

text \<open>\<open>ipaddress.ip_network(text)\<close>: the host bits have to be zero.\<close>

definition parse_network :: "string \<Rightarrow> ip_network option" where
  "parse_network s =
     (case partition_on (CHR ''/'') s of (addr, _, len) \<Rightarrow>
        if len = [] \<or> \<not> list_all is_digit len then None
        else (case parse_ip addr of
                Some (IPv4 n) \<Rightarrow>
                  if dec_value len \<le> 32 \<and> 2 ^ (32 - dec_value len) dvd n
                  then Some (Net4 n (dec_value len)) else None
              | Some (IPv6 n) \<Rightarrow>
                  if dec_value len \<le> 128 \<and> 2 ^ (128 - dec_value len) dvd n
                  then Some (Net6 n (dec_value len)) else None
              | None \<Rightarrow> None))"

definition special_prefixes :: "string list" where
  "special_prefixes =
    [''0.0.0.0/8'', ''10.0.0.0/8'', ''100.64.0.0/10'', ''127.0.0.0/8'', ''169.254.0.0/16'',
     ''172.16.0.0/12'', ''192.0.0.0/24'', ''192.0.2.0/24'', ''192.31.196.0/24'',
     ''192.52.193.0/24'', ''192.88.99.0/24'', ''192.168.0.0/16'', ''192.175.48.0/24'',
     ''198.18.0.0/15'', ''198.51.100.0/24'', ''203.0.113.0/24'', ''224.0.0.0/4'', ''240.0.0.0/4'',
     ''::/128'', ''::1/128'', ''::ffff:0:0/96'', ''64:ff9b::/96'', ''64:ff9b:1::/48'', ''100::/64'',
     ''100:0:0:1::/64'', ''2001::/23'', ''2001:db8::/32'', ''2002::/16'', ''2620:4f:8000::/48'',
     ''3fff::/20'', ''5f00::/16'', ''fc00::/7'', ''fe80::/10'', ''ff00::/8'']"

definition special :: "ip_network list" where
  "special = List.map_filter parse_network special_prefixes"

definition v6_candidate :: ip_network where
  "v6_candidate = Net6 (2 ^ 125) 3"

section \<open>Addresses\<close>

definition parse_address :: "string \<Rightarrow> bool \<Rightarrow> error + ip_address" where
  "parse_address v socket_peer =
     (if CHR ''%'' \<in> set v then Inl (RequestDenied ''malformed_address'')
      else (case parse_ip v of
              None \<Rightarrow> Inl (RequestDenied ''malformed_address'')
            | Some a \<Rightarrow>
                (case ipv4_mapped a of
                   None \<Rightarrow> Inr a
                 | Some n \<Rightarrow> if \<not> socket_peer then Inl (RequestDenied ''mapped_dns_address'')
                             else Inr (IPv4 n))))"

record destination_boundary =
  infrastructure :: "ip_network list"
  translation_nets :: "ip_network list"
  inventory_version :: string

definition destination_boundary_post_init ::
  "destination_boundary \<Rightarrow> error + destination_boundary" where
  "destination_boundary_post_init b =
     (if infrastructure b = [] \<or> inventory_version b = [] \<or> length (inventory_version b) > 128
         \<or> length (infrastructure b) + length (translation_nets b) > 4096
      then Inl (ValueError ''valid nonempty trusted infrastructure inventory required'')
      else Inr b)"

text \<open>The loop over the three prefix lists: the reason of the first list that contains the address.\<close>

fun excluded_by :: "ip_address \<Rightarrow> (string \<times> ip_network list) list \<Rightarrow> string option" where
  "excluded_by a [] = None"
| "excluded_by a ((reason, nets) # rest) =
     (if list_ex (in_network a) nets then Some reason else excluded_by a rest)"

definition prefix_classes :: "destination_boundary \<Rightarrow> (string \<times> ip_network list) list" where
  "prefix_classes b =
     [(''translation'', translation_nets b), (''infrastructure'', infrastructure b),
      (''special_purpose'', special)]"

definition require_public :: "destination_boundary \<Rightarrow> string \<Rightarrow> bool \<Rightarrow> error + ip_address" where
  "require_public b v socket_peer =
     bindE (parse_address v socket_peer) (\<lambda>a.
       case excluded_by a (prefix_classes b) of
         Some reason \<Rightarrow> Inl (RequestDenied reason)
       | None \<Rightarrow> if ip_version a = 6 \<and> \<not> in_network a v6_candidate
                 then Inl (RequestDenied ''unsupported_address_family_range'') else Inr a)"

definition require_peer :: "destination_boundary \<Rightarrow> ip_address \<Rightarrow> string \<Rightarrow> error + unit" where
  "require_peer b expected actual =
     bindE (require_public b actual True) (\<lambda>a.
       if a \<noteq> expected then Inl (RequestDenied ''upstream_peer_changed'') else Inr ())"

section \<open>DNS names\<close>

definition dns_char :: "char \<Rightarrow> bool" where
  "dns_char c \<longleftrightarrow> is_lower_alpha c \<or> is_digit c \<or> c = CHR ''_'' \<or> c = CHR ''-''"

definition dns_label_ok :: "bool \<Rightarrow> string \<Rightarrow> bool" where
  "dns_label_ok first label \<longleftrightarrow>
     1 \<le> length label \<and> length label \<le> 63 \<and> ((first \<and> label = ''*'') \<or> list_all dns_char label)"

definition dns_name :: "string \<Rightarrow> error + string" where
  "dns_name v =
     (if v = ''.'' then Inr ''.''
      else let name = removesuffix ''.'' (str_lower v); labels = split_on (CHR ''.'') name in
        if \<not> list_all is_ascii name \<or> length name > 253
           \<or> \<not> (dns_label_ok True (hd labels) \<and> list_all (dns_label_ok False) (tl labels))
        then Inl (RequestDenied ''invalid_dns_name'') else Inr name)"

section \<open>Resolver boundary\<close>

record resolver_boundary =
  upstreams :: "ip_address list"
  zones :: "string set"
  exact_names :: "string set"
  addresses :: destination_boundary

text \<open>\<open>str.splitlines()\<close>; the accumulator is the reversed current line.\<close>

definition is_line_break :: "char \<Rightarrow> bool" where
  "is_line_break c \<longleftrightarrow> (10 \<le> code c \<and> code c \<le> 13) \<or> (28 \<le> code c \<and> code c \<le> 30) \<or> code c = 133"

fun splitlines_acc :: "string \<Rightarrow> string \<Rightarrow> string list" where
  "splitlines_acc cur [] = (if cur = [] then [] else [rev cur])"
| "splitlines_acc cur (c # cs) =
     (if is_line_break c
      then rev cur # splitlines_acc [] (if code c = 13 \<and> cs \<noteq> [] \<and> code (hd cs) = 10 then tl cs else cs)
      else splitlines_acc (c # cur) cs)"

definition splitlines :: "string \<Rightarrow> string list" where
  "splitlines s = splitlines_acc [] s"

text \<open>\<open>str.split()\<close>: runs of whitespace separate, nothing empty.\<close>

fun ws_fields_acc :: "string \<Rightarrow> string \<Rightarrow> string list" where
  "ws_fields_acc cur [] = (if cur = [] then [] else [rev cur])"
| "ws_fields_acc cur (c # cs) =
     (if is_space c then (if cur = [] then ws_fields_acc [] cs else rev cur # ws_fields_acc [] cs)
      else ws_fields_acc (c # cur) cs)"

definition ws_fields :: "string \<Rightarrow> string list" where
  "ws_fields s = ws_fields_acc [] s"

record discovery =
  discovered :: "string list"
  discovered_zones :: "string set"
  bases :: "string set"

definition add_base :: "string \<Rightarrow> discovery \<Rightarrow> string \<Rightarrow> error + discovery" where
  "add_base name d pre =
     (if prefix pre name
      then bindE (dns_name (drop (length pre) name)) (\<lambda>b. Inr (d\<lparr>bases := insert b (bases d)\<rparr>))
      else Inr d)"

definition add_zone :: "string \<Rightarrow> discovery \<Rightarrow> string \<Rightarrow> error + discovery" where
  "add_zone namespace d field =
     bindE (dns_name field) (\<lambda>name.
       foldE (add_base name) (d\<lparr>discovered_zones := insert name (discovered_zones d)\<rparr>)
         [''svc.'', str_lower namespace @ ''.svc.''])"

definition discover_line :: "string \<Rightarrow> discovery \<Rightarrow> string \<Rightarrow> error + discovery" where
  "discover_line namespace d line =
     (case ws_fields (takeWhile (\<lambda>c. c \<noteq> CHR '';'') (takeWhile (\<lambda>c. c \<noteq> CHR ''#'') line)) of
        [] \<Rightarrow> Inr d
      | kind # args \<Rightarrow>
          if kind = ''nameserver''
          then (if length args \<noteq> 1 then Inl (ValueError ''invalid nameserver entry'')
                else Inr (d\<lparr>discovered := discovered d @ args\<rparr>))
          else if kind = ''search'' \<or> kind = ''domain''
          then (if args = [] \<or> (kind = ''domain'' \<and> length args \<noteq> 1)
                then Inl (ValueError ''invalid infrastructure suffix entry'')
                else foldE (add_zone namespace) d args)
          else Inr d)"

text \<open>\<open>dict.fromkeys\<close> keeps the first occurrence of every key.\<close>

definition dedup :: "'a list \<Rightarrow> 'a list" where
  "dedup xs = rev (remdups (rev xs))"

definition bad_resolver :: "ip_address \<Rightarrow> bool" where
  "bad_resolver a \<longleftrightarrow> a = IPv4 0 \<or> a = IPv6 0 \<or> in_network a (Net4 3758096384 4)
     \<or> in_network a (Net6 (255 * 2 ^ 120) 8)"

definition discover ::
  "string \<Rightarrow> string \<Rightarrow> destination_boundary \<Rightarrow> string list \<Rightarrow> string list \<Rightarrow> string list
   \<Rightarrow> error + resolver_boundary" where
  "discover resolv_conf namespace boundary ups zs exacts =
     (if length resolv_conf > 65536 \<or> namespace = []
      then Inl (ValueError ''bounded trusted resolver configuration required'')
      else bindE (foldE (discover_line namespace)
                   \<lparr>discovered = [], discovered_zones = {}, bases = {}\<rparr> (splitlines resolv_conf)) (\<lambda>d.
        if card (bases d) > 1 then Inl (ValueError ''inconsistent cluster-domain evidence'')
        else bindE (mapE dns_name zs) (\<lambda>extra.
          let effective = discovered_zones d \<union> bases d \<union> set extra in
          if effective = {} \<or> ''.'' \<in> effective
          then Inl (ValueError ''nonempty infrastructure inventory without root wildcard required'')
          else bindE (mapE (\<lambda>v. parse_address v False) (if ups \<noteq> [] then ups else discovered d)) (\<lambda>as.
            let selected = dedup as in
            if selected = [] \<or> length selected > 16
            then Inl (ValueError ''bounded nonempty upstream list required'')
            else if list_ex bad_resolver selected then Inl (ValueError ''invalid resolver address'')
            else bindE (mapE dns_name exacts) (\<lambda>exact.
              Inr \<lparr>upstreams = selected, zones = effective, exact_names = set exact,
                   addresses = boundary\<rparr>)))))"

text \<open>The address text a reverse name stands for.\<close>

definition hex_digit_label :: "string \<Rightarrow> bool" where
  "hex_digit_label v \<longleftrightarrow> length v = 1 \<and> set v \<subseteq> set ''0123456789abcdef''"

fun group4 :: "string \<Rightarrow> string list" where
  "group4 (a # b # c # d # rest) = [a, b, c, d] # group4 rest"
| "group4 [] = []"
| "group4 rest = [rest]"

definition reverse_address :: "string \<Rightarrow> string option" where
  "reverse_address name =
     (if suffix ''.in-addr.arpa'' name
      then let labels = split_on (CHR ''.'') (removesuffix ''.in-addr.arpa'' name) in
           (if length labels = 4 then Some (join_with (CHR ''.'') (rev labels)) else None)
      else if suffix ''.ip6.arpa'' name
      then let labels = split_on (CHR ''.'') (removesuffix ''.ip6.arpa'' name) in
           (if length labels = 32 \<and> list_all hex_digit_label labels
            then Some (join_with (CHR '':'') (group4 (concat (rev labels)))) else None)
      else None)"

definition in_zone :: "string \<Rightarrow> string \<Rightarrow> bool" where
  "in_zone name zone \<longleftrightarrow> name = zone \<or> suffix (CHR ''.'' # zone) name"

definition check_name :: "resolver_boundary \<Rightarrow> string \<Rightarrow> error + string" where
  "check_name rb v =
     bindE (dns_name v) (\<lambda>name.
       if name \<in> exact_names rb \<or> (\<exists>zone \<in> zones rb. in_zone name zone)
       then Inl (RequestDenied ''infrastructure_name'')
       else (case reverse_address name of
               None \<Rightarrow> Inr name
             | Some text \<Rightarrow> bindE (require_public (addresses rb) text False) (\<lambda>_. Inr name)))"

lemmas [eval_simps] = parse_network_def parse_address_def destination_boundary_post_init_def
  require_public_def require_peer_def prefix_classes_def dns_char_def dns_label_ok_def dns_name_def
  splitlines_def is_line_break_def ws_fields_def discover_line_def add_zone_def add_base_def dedup_def
  bad_resolver_def discover_def reverse_address_def hex_digit_label_def in_zone_def check_name_def
  v6_candidate_def

section \<open>What the boundary guarantees\<close>

text \<open>The registry as numbers.\<close>

lemma special_eq: "special =
  [Net4 0 8, Net4 167772160 8, Net4 1681915904 10, Net4 2130706432 8, Net4 2851995648 16,
   Net4 2886729728 12, Net4 3221225472 24, Net4 3221225984 24, Net4 3223307264 24,
   Net4 3224682752 24, Net4 3227017984 24, Net4 3232235520 16, Net4 3232706560 24,
   Net4 3323068416 15, Net4 3325256704 24, Net4 3405803776 24, Net4 3758096384 4,
   Net4 4026531840 4, Net6 0 128, Net6 1 128, Net6 (65535 * 2 ^ 32) 96,
   Net6 (0x64ff9b * 2 ^ 96) 96, Net6 (0x64ff9b0001 * 2 ^ 80) 48, Net6 (0x100 * 2 ^ 112) 64,
   Net6 (0x100 * 2 ^ 112 + 2 ^ 64) 64, Net6 (0x2001 * 2 ^ 112) 23, Net6 (0x20010db8 * 2 ^ 96) 32,
   Net6 (0x2002 * 2 ^ 112) 16, Net6 (0x2620004f8000 * 2 ^ 80) 48, Net6 (0x3fff * 2 ^ 112) 20,
   Net6 (0x5f00 * 2 ^ 112) 16, Net6 (0xfc00 * 2 ^ 112) 7, Net6 (0xfe80 * 2 ^ 112) 10,
   Net6 (0xff00 * 2 ^ 112) 8]"
  by (simp add: special_def special_prefixes_def List.map_filter_simps eval_simps)

definition public_address :: "destination_boundary \<Rightarrow> ip_address \<Rightarrow> bool" where
  "public_address b a \<longleftrightarrow>
     (\<forall>net \<in> set (translation_nets b @ infrastructure b @ special). \<not> in_network a net)
     \<and> (ip_version a = 6 \<longrightarrow> in_network a v6_candidate)"

lemma public_not_mapped:
  assumes "public_address b a"
  shows "ipv4_mapped a = None"
proof (cases "ipv4_mapped a")
  case (Some n)
  then obtain k where "a = IPv6 k" "k div 2 ^ 32 = 65535"
    by (auto simp: ipv4_mapped_def split: ip_address.splits if_splits)
  then have "in_network a (Net6 (65535 * 2 ^ 32) 96)" by simp
  moreover have "Net6 (65535 * 2 ^ 32) 96 \<in> set special" unfolding special_eq by simp
  ultimately have False using assms unfolding public_address_def by auto
  then show ?thesis ..
qed

lemma excluded_by_None: "excluded_by a rs = None \<longleftrightarrow> (\<forall>(r, nets) \<in> set rs. \<not> list_ex (in_network a) nets)"
  by (induction a rs rule: excluded_by.induct) auto

lemma excluded_by_classes:
  "excluded_by a (prefix_classes b) = None \<longleftrightarrow>
     (\<forall>net \<in> set (translation_nets b @ infrastructure b @ special). \<not> in_network a net)"
  unfolding excluded_by_None prefix_classes_def by (auto simp only: list_ex_iff set_append
    list.set prod.case ball_Un ball_simps)

lemma require_public_Inr [result_simps]:
  "require_public b v sp = Inr a \<longleftrightarrow> parse_address v sp = Inr a \<and> public_address b a"
proof -
  have "(case excluded_by x (prefix_classes b) of
           Some reason \<Rightarrow> Inl (RequestDenied reason)
         | None \<Rightarrow> if ip_version x = 6 \<and> \<not> in_network x v6_candidate
                   then Inl (RequestDenied ''unsupported_address_family_range'') else Inr x) = Inr a
        \<longleftrightarrow> x = a \<and> public_address b x" for x
    unfolding public_address_def excluded_by_classes [symmetric]
    by (cases "excluded_by x (prefix_classes b)") auto
  then show ?thesis by (simp add: require_public_def bindE_eq_Inr)
qed

lemma ip_str_no_percent: "ip_wf a \<Longrightarrow> CHR ''%'' \<notin> set (ip_str a)"
  using ip_str_chars [of a "CHR ''%''"] by (auto simp: is_digit_def is_hex_def)

lemma parse_address_ip_str:
  "ip_wf a \<Longrightarrow> ipv4_mapped a = None \<Longrightarrow> parse_address (ip_str a) sp = Inr a"
  by (simp add: parse_address_def ip_str_no_percent parse_ip_str)

text \<open>On the text of an address, exactly the public addresses pass, and they come back unchanged.\<close>

lemma require_public_ip_str:
  assumes "ip_wf a"
  shows "require_public b (ip_str a) False = Inr a' \<longleftrightarrow> a' = a \<and> public_address b a"
proof (cases "ipv4_mapped a")
  case None
  then show ?thesis using assms by (auto simp: result_simps parse_address_ip_str)
next
  case (Some n)
  then have "\<not> public_address b a" using public_not_mapped by fastforce
  with Some assms show ?thesis
    by (auto simp: result_simps parse_address_def ip_str_no_percent parse_ip_str)
qed

lemma require_public_wf: "require_public b v sp = Inr a \<Longrightarrow> ip_wf a"
  using ipv4_mapped_wf
  by (auto simp: result_simps parse_address_def parse_ip_wf split: if_splits option.splits)

lemma require_peer_Inr:
  "require_peer b expected actual = Inr () \<longleftrightarrow>
     parse_address actual True = Inr expected \<and> public_address b expected"
  by (auto simp: require_peer_def result_simps)

section \<open>Names\<close>

lemma dns_char_not_upper: "dns_char c \<Longrightarrow> str_lower_char c = c \<and> is_ascii c \<and> c \<noteq> CHR ''.''"
  by (auto simp: dns_char_def is_lower_alpha_def is_digit_def str_lower_char_def is_upper_alpha_def
      is_ascii_def)

definition dns_fixed :: "string \<Rightarrow> bool" where
  "dns_fixed n \<longleftrightarrow> n = ''.'' \<or> (length n \<le> 253 \<and> list_all is_ascii n
     \<and> dns_label_ok True (hd (split_on (CHR ''.'') n))
     \<and> list_all (dns_label_ok False) (tl (split_on (CHR ''.'') n)))"

lemma dns_name_fixed: "dns_name v = Inr n \<Longrightarrow> dns_fixed n"
  by (auto simp: dns_name_def dns_fixed_def Let_def split: if_splits)

lemma dns_fixed_label:
  assumes "dns_fixed n" "n \<noteq> ''.''" "l \<in> set (split_on (CHR ''.'') n)"
  shows "l \<noteq> [] \<and> (\<forall>c \<in> set l. str_lower_char c = c)"
proof -
  from assms(3) have "l = hd (split_on (CHR ''.'') n) \<or> l \<in> set (tl (split_on (CHR ''.'') n))"
    by (metis empty_iff empty_set hd_Cons_tl set_ConsD)
  with assms(1,2) have "dns_label_ok True l \<or> dns_label_ok False l"
    by (auto simp: dns_fixed_def list_all_iff)
  moreover have "str_lower_char (CHR ''*'') = CHR ''*''"
    by (simp add: eval_simps is_upper_alpha_def)
  ultimately show ?thesis by (auto simp: dns_label_ok_def list_all_iff dns_char_not_upper)
qed

lemma dns_fixed_lower: "dns_fixed n \<Longrightarrow> str_lower n = n"
proof (cases "n = ''.''")
  case False
  assume n: "dns_fixed n"
  have dot: "str_lower_char (CHR ''.'') = CHR ''.''" by (simp add: eval_simps is_upper_alpha_def)
  have "set n \<subseteq> insert (CHR ''.'') (\<Union> (set ` set (split_on (CHR ''.'') n)))"
    using set_join_with [of "CHR ''.''" "split_on (CHR ''.'') n"] by simp
  with dns_fixed_label [OF n False] dot have "\<forall>c \<in> set n. str_lower_char c = c" by fastforce
  then show ?thesis by (simp add: str_lower_def map_idI)
qed (simp add: str_lower_def str_lower_char_def is_upper_alpha_def)

lemma removesuffix_dns_fixed:
  assumes "dns_fixed n" "n \<noteq> ''.''"
  shows "removesuffix ''.'' n = n"
proof -
  have "\<not> suffix ''.'' n"
  proof
    assume "suffix ''.'' n"
    then obtain m where "n = m @ ''.''" by (auto simp: suffix_def)
    then have "[] \<in> set (split_on (CHR ''.'') n)" by (simp add: split_on_snoc_sep)
    with dns_fixed_label [OF assms] show False by blast
  qed
  then show ?thesis by (simp add: removesuffix_def)
qed

lemma dns_name_of_fixed: "dns_fixed n \<Longrightarrow> dns_name n = Inr n"
  by (cases "n = ''.''")
    (auto simp: dns_name_def dns_fixed_lower removesuffix_dns_fixed Let_def dns_fixed_def)

lemma dns_name_idem: "dns_name v = Inr n \<Longrightarrow> dns_name n = Inr n"
  by (rule dns_name_of_fixed [OF dns_name_fixed])

section \<open>Reverse names and discovery\<close>

text \<open>The reverse name of an address, as RFC 1035 and RFC 3596 write it.\<close>

definition reverse_name :: "ip_address \<Rightarrow> string" where
  "reverse_name a =
     (case a of
        IPv4 n \<Rightarrow> join_with (CHR ''.'') (map nat_str
            [n mod 256, n div 256 mod 256, n div 65536 mod 256, n div 16777216 mod 256])
          @ ''.in-addr.arpa''
      | IPv6 n \<Rightarrow> join_with (CHR ''.'') (map (\<lambda>k. hex_str (n div 16 ^ k mod 16)) [0..<32])
          @ ''.ip6.arpa'')"

lemma removesuffix_append: "removesuffix t (s @ t) = s"
  by (simp add: removesuffix_def suffix_def)

lemma reverse_name_v4: "reverse_address (reverse_name (IPv4 n)) = Some (ip_str (IPv4 n))"
proof -
  let ?labels = "map nat_str [n mod 256, n div 256 mod 256, n div 65536 mod 256, n div 16777216 mod 256]"
  have "split_on (CHR ''.'') (join_with (CHR ''.'') ?labels) = ?labels"
    by (rule split_join) (auto simp: nat_str_no_sep is_digit_def)
  moreover have "suffix ''.in-addr.arpa'' (reverse_name (IPv4 n))"
    by (simp add: reverse_name_def suffix_def)
  ultimately show ?thesis
    unfolding reverse_address_def
    by (simp add: reverse_name_def removesuffix_append ipv4_str_def del: join_with.simps)
qed

lemma hex_digit_label_hex_str: "d < 16 \<Longrightarrow> hex_digit_label (hex_str d)"
proof -
  assume d: "d < 16"
  then have "d \<in> set [0..<16]" by simp
  moreover have "list_all (\<lambda>d. digit_char d \<in> set ''0123456789abcdef'') [0..<16]"
    by (simp add: upt_rec digit_char_def eval_simps)
  ultimately have "digit_char d \<in> set ''0123456789abcdef''" by (simp only: list_all_iff)
  with d show ?thesis by (simp add: hex_digit_label_def hex_str_cases)
qed

lemma nibble_group:
  "hex_value [digit_char (n div 4096 mod 16), digit_char (n div 256 mod 16),
     digit_char (n div 16 mod 16), digit_char (n mod 16)] = n mod 65536"
proof -
  have "n mod 65536 = 16 * (n div 16 mod 4096) + n mod 16"
    using mod_mult2_eq [of n 16 4096] by simp
  also have "n div 16 mod 4096 = 16 * (n div 256 mod 256) + n div 16 mod 16"
    using mod_mult2_eq [of "n div 16" 16 256] by (simp flip: div_mult2_eq)
  also have "n div 256 mod 256 = 16 * (n div 4096 mod 16) + n div 256 mod 16"
    using mod_mult2_eq [of "n div 256" 16 16] by (simp flip: div_mult2_eq)
  finally show ?thesis by (simp add: hex_value_def digit_char_simps)
qed

definition nibbles :: "nat \<Rightarrow> nat \<Rightarrow> string" where
  "nibbles n k = map (\<lambda>j. digit_char (n div 16 ^ (4 * k + j) mod 16)) [3, 2, 1, 0]"

lemma parse_hextet_nibbles: "parse_hextet (nibbles n k) = Some (n div 65536 ^ k mod 65536)"
proof -
  have "n div 16 ^ (4 * k + j) = n div 65536 ^ k div 16 ^ j" for j
    by (simp add: power_add power_mult div_mult2_eq)
  then have "hex_value (nibbles n k) = n div 65536 ^ k mod 65536"
    using nibble_group [of "n div 65536 ^ k"] by (simp add: nibbles_def)
  then show ?thesis
    by (simp add: parse_hextet_def nibbles_def digit_char_simps)
qed

lemma reverse_address_v6:
  "reverse_address (reverse_name (IPv6 n)) =
     Some (join_with (CHR '':'') (map (nibbles n) [7, 6, 5, 4, 3, 2, 1, 0]))"
proof -
  let ?labels = "map (\<lambda>k. hex_str (n div 16 ^ k mod 16)) [0..<32]"
  have split: "split_on (CHR ''.'') (join_with (CHR ''.'') ?labels) = ?labels"
    by (rule split_join) (auto simp: hex_str_no_sep is_hex_def is_digit_def)
  have ok: "list_all hex_digit_label ?labels"
    by (simp add: list_all_iff hex_digit_label_hex_str)
  have "?labels = map (\<lambda>k. [digit_char (n div 16 ^ k mod 16)]) [0..<32]"
    by (simp add: hex_str_cases)
  then have groups: "group4 (concat (rev ?labels)) = map (nibbles n) [7, 6, 5, 4, 3, 2, 1, 0]"
    by (simp add: upt_rec nibbles_def)
  have "suffix ''.ip6.arpa'' (reverse_name (IPv6 n))"
    by (simp add: reverse_name_def suffix_def)
  moreover have "\<not> suffix ''.in-addr.arpa'' (reverse_name (IPv6 n))"
    by (simp add: reverse_name_def suffix_to_prefix)
  moreover have "removesuffix ''.ip6.arpa'' (reverse_name (IPv6 n)) = join_with (CHR ''.'') ?labels"
    by (simp add: reverse_name_def removesuffix_append del: upt_conv_Cons)
  ultimately show ?thesis
    using split ok groups by (simp add: reverse_address_def Let_def del: join_with.simps map_map list.map)
qed

lemma parse_ip_nibbles:
  assumes "n < 2 ^ 128"
  shows "parse_ip (join_with (CHR '':'') (map (nibbles n) [7, 6, 5, 4, 3, 2, 1, 0])) = Some (IPv6 n)"
proof -
  let ?ps = "map (nibbles n) [7, 6, 5, 4, 3, 2, 1, 0]"
  let ?s = "join_with (CHR '':'') ?ps"
  have chars: "c \<in> set (nibbles n k) \<Longrightarrow> is_hex c" for c k
    by (auto simp: nibbles_def digit_char_simps)
  have seps: "CHR '':'' \<notin> set (nibbles n k)" "CHR ''.'' \<notin> set (nibbles n k)"
    "CHR ''/'' \<notin> set (nibbles n k)" for k
    using chars [of "CHR '':''" k] chars [of "CHR ''.''" k] chars [of "CHR ''/''" k]
    by (auto simp: is_hex_def is_digit_def)
  have split: "split_on (CHR '':'') ?s = ?ps"
    by (rule split_join) (auto simp: seps)
  have colon: "CHR '':'' \<in> set ?s" by simp
  have slash: "CHR ''/'' \<notin> set ?s"
    using set_join_with [of "CHR '':''" ?ps] seps(3) by (auto simp del: join_with.simps)
  have ne: "nibbles n k \<noteq> []" for k by (simp add: nibbles_def)
  have "skip_indices ?ps = []"
    by (auto simp: skip_indices_def filter_empty_conv ne upt_rec)
  moreover have "hextets_value 0 ?ps = Some (foldl (\<lambda>n h. n * 65536 + h) 0 (hextets n))"
    by (simp add: parse_hextet_nibbles hextets_def)
  ultimately have "parse_parts ?ps = Some n"
    using hextets_value_hextets [OF assms] by (simp add: parse_parts_def ne)
  then have "parse_ipv6 ?s = Some n"
    unfolding parse_ipv6_def Let_def split using slash
    by (simp add: expand_v4_suffix_def seps del: join_with.simps)
  with parse_ipv4_no_colon [OF colon] show ?thesis by (simp only: parse_ip_def) simp
qed

text \<open>A reverse query is answered only when the address it asks about is public.\<close>

lemma check_name_reverse:
  assumes "ip_wf a" "dns_name v = Inr (reverse_name a)" "check_name rb v = Inr n"
  shows "public_address (addresses rb) a"
proof -
  obtain t where t: "reverse_address (reverse_name a) = Some t" "parse_ip t = Some a"
    using assms(1) reverse_name_v4 reverse_address_v6 parse_ip_nibbles parse_ip_str
    by (cases a) (metis ip_wf.simps)+
  with assms(2,3) obtain a' where "require_public (addresses rb) t False = Inr a'"
    by (auto simp: check_name_def result_simps split: if_splits)
  then have "parse_address t False = Inr a'" "public_address (addresses rb) a'"
    by (simp_all add: result_simps)
  with t(2) show ?thesis by (auto simp: parse_address_def split: if_splits option.splits)
qed

lemma check_name_zone:
  "check_name rb v = Inr n \<Longrightarrow> dns_name v = Inr n \<and> n \<notin> exact_names rb \<and> (\<forall>z \<in> zones rb. \<not> in_zone n z)"
  by (auto simp: check_name_def result_simps split: if_splits option.splits)

section \<open>What discovery establishes\<close>

definition boundary_ok :: "resolver_boundary \<Rightarrow> bool" where
  "boundary_ok rb \<longleftrightarrow>
     upstreams rb \<noteq> [] \<and> length (upstreams rb) \<le> 16 \<and> distinct (upstreams rb)
     \<and> (\<forall>a \<in> set (upstreams rb). ip_wf a \<and> ipv4_mapped a = None \<and> \<not> bad_resolver a)
     \<and> zones rb \<noteq> {} \<and> ''.'' \<notin> zones rb
     \<and> (\<forall>z \<in> zones rb \<union> exact_names rb. dns_fixed z)"

lemma mapE_dns_name: "mapE dns_name xs = Inr ys \<Longrightarrow> \<forall>y \<in> set ys. dns_fixed y"
  by (fastforce simp: mapE_eq_Inr list_all2_conv_all_nth in_set_conv_nth dest: dns_name_fixed)

lemma parse_address_strict: "parse_address v False = Inr a \<Longrightarrow> ip_wf a \<and> ipv4_mapped a = None"
  by (auto simp: parse_address_def parse_ip_wf split: if_splits option.splits)

lemma mapE_parse_address:
  "mapE (\<lambda>v. parse_address v False) xs = Inr as \<Longrightarrow> \<forall>a \<in> set as. ip_wf a \<and> ipv4_mapped a = None"
  by (fastforce simp: mapE_eq_Inr list_all2_conv_all_nth in_set_conv_nth dest: parse_address_strict)

definition discovery_ok :: "discovery \<Rightarrow> bool" where
  "discovery_ok d \<longleftrightarrow> (\<forall>z \<in> discovered_zones d \<union> bases d. dns_fixed z)"

lemma add_base_ok: "add_base name d pre = Inr d' \<Longrightarrow> discovery_ok d \<Longrightarrow> discovery_ok d'"
  by (auto simp: add_base_def discovery_ok_def result_simps dest: dns_name_fixed split: if_splits)

lemma add_zone_ok:
  assumes "add_zone namespace d field = Inr d'" "discovery_ok d"
  shows "discovery_ok d'"
proof -
  from assms(1) obtain name where name: "dns_name field = Inr name"
    and fold: "foldE (add_base name) (d\<lparr>discovered_zones := insert name (discovered_zones d)\<rparr>)
      [''svc.'', str_lower namespace @ ''.svc.''] = Inr d'"
    by (auto simp: add_zone_def bindE_eq_Inr)
  show ?thesis
    by (rule foldE_invariant [OF fold])
      (use assms(2) dns_name_fixed [OF name] add_base_ok in \<open>auto simp: discovery_ok_def\<close>)
qed

lemma discover_line_cases:
  assumes "discover_line namespace d line = Inr d'"
  shows "d' = d \<or> (\<exists>args. d' = d\<lparr>discovered := discovered d @ args\<rparr>)
    \<or> (\<exists>args. foldE (add_zone namespace) d args = Inr d')"
proof (cases "ws_fields (takeWhile (\<lambda>c. c \<noteq> CHR '';'') (takeWhile (\<lambda>c. c \<noteq> CHR ''#'') line))")
  case Nil
  with assms show ?thesis by (simp add: discover_line_def)
next
  case (Cons kind args)
  consider "kind = ''nameserver''" | "kind \<noteq> ''nameserver''" "kind = ''search'' \<or> kind = ''domain''"
    | "kind \<noteq> ''nameserver''" "\<not> (kind = ''search'' \<or> kind = ''domain'')" by blast
  then show ?thesis
    by cases (use assms Cons in \<open>simp add: discover_line_def split: if_split_asm; fast\<close>)+
qed

lemma discover_line_ok:
  assumes "discover_line namespace d line = Inr d'" "discovery_ok d"
  shows "discovery_ok d'"
proof -
  have "discovery_ok d'" if "foldE (add_zone namespace) d args = Inr d'" for args
    using that by (rule foldE_invariant) (use assms(2) add_zone_ok in auto)
  with discover_line_cases [OF assms(1)] assms(2) show ?thesis
    by (auto simp: discovery_ok_def)
qed

lemma discover_ok:
  assumes "discover conf namespace b ups zs exacts = Inr rb"
  shows "boundary_ok rb \<and> addresses rb = b"
proof -
  let ?lines = "foldE (discover_line namespace) \<lparr>discovered = [], discovered_zones = {}, bases = {}\<rparr>
          (splitlines conf)"
  from assms obtain d where d: "?lines = Inr d"
    by (cases ?lines) (simp_all add: discover_def split: if_split_asm)
  from assms d obtain extra where extra: "mapE dns_name zs = Inr extra"
    by (cases "mapE dns_name zs") (simp_all add: discover_def split: if_split_asm)
  let ?as = "mapE (\<lambda>v. parse_address v False) (if ups \<noteq> [] then ups else discovered d)"
  from assms d extra obtain as where as: "?as = Inr as"
    by (cases ?as) (simp_all add: discover_def Let_def split: if_split_asm)
  from assms d extra as obtain exact where exact: "mapE dns_name exacts = Inr exact"
    by (cases "mapE dns_name exacts") (simp_all add: discover_def Let_def split: if_split_asm)
  have rb: "rb = \<lparr>upstreams = dedup as, zones = discovered_zones d \<union> bases d \<union> set extra,
          exact_names = set exact, addresses = b\<rparr>"
    and checks: "dedup as \<noteq> []" "length (dedup as) \<le> 16" "\<not> list_ex bad_resolver (dedup as)"
      "discovered_zones d \<union> bases d \<union> set extra \<noteq> {}"
      "''.'' \<notin> discovered_zones d \<union> bases d \<union> set extra"
    using assms d extra as exact by (simp_all add: discover_def Let_def split: if_split_asm)
  have "discovery_ok d"
    by (rule foldE_invariant [OF d]) (auto simp: discovery_ok_def [of "\<lparr>discovered = _, discovered_zones = _, bases = _\<rparr>"]
        intro: discover_line_ok)
  with checks rb mapE_dns_name [OF extra] mapE_dns_name [OF exact] mapE_parse_address [OF as]
  show ?thesis
    by (auto simp: boundary_ok_def discovery_ok_def dedup_def list_ex_iff)
qed

section \<open>Properties\<close>

definition example_boundary :: destination_boundary where
  "example_boundary = \<lparr>infrastructure = [Net4 134744064 24], translation_nets = [], inventory_version = ''v1''\<rparr>"

text \<open>On the text of an address the boundary answers with that address exactly when it lies in no
  special-purpose, infrastructure or translation network and, for IPv6, inside 2000::/3.\<close>

theorem require_public_exact:
  assumes "ip_wf a"
  shows "require_public b (ip_str a) False = Inr a' \<longleftrightarrow> a' = a \<and> public_address b a"
  by (rule require_public_ip_str [OF assms])

theorem require_public_exact_witness:
  "ip_str (IPv4 16843009) = ''1.1.1.1'' \<and> public_address example_boundary (IPv4 16843009)
   \<and> \<not> public_address example_boundary (IPv4 167772161)"
proof -
  have one: "ip_str (IPv4 16843009) = ''1.1.1.1''" by (simp add: eval_simps)
  have "require_public example_boundary (ip_str (IPv4 16843009)) False = Inr (IPv4 16843009)"
    by (simp add: eval_simps special_eq example_boundary_def)
  moreover have "require_public example_boundary (ip_str (IPv4 167772161)) False \<noteq> Inr (IPv4 167772161)"
    by (simp add: eval_simps special_eq example_boundary_def)
  ultimately show ?thesis
    using one require_public_exact [of "IPv4 16843009" example_boundary "IPv4 16843009"]
      require_public_exact [of "IPv4 167772161" example_boundary "IPv4 167772161"] by simp
qed

text \<open>A reverse DNS query is let through only when the address it asks about is itself public,
  for IPv4 and IPv6 names alike.\<close>

theorem reverse_query_public:
  assumes "ip_wf a" "dns_name v = Inr (reverse_name a)" "check_name rb v = Inr n"
  shows "public_address (addresses rb) a"
  by (rule check_name_reverse [OF assms])

theorem reverse_query_public_witness: "public_address example_boundary (IPv4 16843009)"
proof -
  let ?rb = "\<lparr>upstreams = [], zones = {''cluster.local''}, exact_names = {}, addresses = example_boundary\<rparr>"
  have n: "dns_name ''1.1.1.1.in-addr.arpa'' = Inr (reverse_name (IPv4 16843009))"
    by (simp add: eval_simps reverse_name_def suffix_to_prefix)
  have "check_name ?rb ''1.1.1.1.in-addr.arpa'' = Inr ''1.1.1.1.in-addr.arpa''"
    by (simp add: eval_simps suffix_to_prefix special_eq example_boundary_def)
  from reverse_query_public [OF _ n this] show ?thesis by simp
qed

text \<open>C38: A discovered resolver boundary is usable and never the root: between 1 and 16 distinct
  upstream addresses, none unspecified, multicast or IPv4-mapped, and a nonempty set of
  normalised zones without the root zone.\<close>

theorem discovered_boundary:
  assumes "discover conf namespace b ups zs exacts = Inr rb"
  shows "boundary_ok rb \<and> addresses rb = b"
  by (rule discover_ok [OF assms])

theorem discovered_boundary_witness:
  "\<exists>rb. discover (''nameserver 10.0.0.10'' @ [char_of (10::nat)] @ ''search svc.cluster.local'')
      ''ads'' example_boundary [] [] [] = Inr rb \<and> boundary_ok rb"
proof -
  have d: "discover (''nameserver 10.0.0.10'' @ [char_of (10::nat)] @ ''search svc.cluster.local'')
      ''ads'' example_boundary [] [] [] =
      Inr \<lparr>upstreams = [IPv4 167772170], zones = {''cluster.local'', ''svc.cluster.local''}, exact_names = {},
           addresses = example_boundary\<rparr>"
    by (simp add: eval_simps suffix_to_prefix Let_def)
  from discovered_boundary [OF d] d show ?thesis by blast
qed

end
