(* ===== verification/Membership.thy ===== *)
theory Membership
  imports Destinations "HOL-Library.AList"
begin

text \<open>
  Connection-owned DNS evidence (\<open>ads_sandbox_egress/membership.py\<close>). \<open>require\<close> is split at its
  only await, so that lookups, other callers, the clock and \<open>close\<close> can run in between; each
  step below is the code between two awaits. The resolver is the environment: a lookup ends
  with whatever evidence or exception it returns. Times are integers (clock ticks); an expiry
  that is not finite is \<open>None\<close>.
\<close>

section \<open>Evidence\<close>

record service_endpoint =
  service :: string
  ep_target :: string
  ep_address :: ip_address
  ep_port :: nat
  ep_authority_port :: nat

record evidence =
  ev_name :: string
  direct_addresses :: "ip_address list"
  service_endpoints :: "service_endpoint list"
  expires_at :: "int option"
  complete :: bool
  authentication :: string

type_synonym key = "string \<times> nat \<times> string"

record membership_config =
  boundary :: destination_boundary
  ttl_cap :: int
  max_names :: nat

definition membership_config_ok :: "membership_config \<Rightarrow> error + membership_config" where
  "membership_config_ok c =
     (if \<not> (5 \<le> ttl_cap c \<and> ttl_cap c \<le> 10) \<or> \<not> (1 \<le> max_names c \<and> max_names c \<le> 1024)
      then Inl (ValueError ''invalid connection evidence bounds'') else Inr c)"

definition check_endpoint ::
  "destination_boundary \<Rightarrow> key \<Rightarrow> unit \<Rightarrow> service_endpoint \<Rightarrow> error + unit" where
  "check_endpoint b k u e =
     (case k of (name, authority_port, _) \<Rightarrow>
        if service e \<noteq> name
           \<or> \<not> (1 \<le> ep_port e \<and> ep_port e \<le> 65535 \<and> ep_authority_port e = authority_port)
        then Inl (RequestDenied ''invalid_service_evidence'')
        else bindE (dns_name (ep_target e)) (\<lambda>_.
          bindE (require_public b (ip_str (ep_address e)) False) (\<lambda>_. Inr ())))"

definition check_evidence :: "destination_boundary \<Rightarrow> key \<Rightarrow> evidence \<Rightarrow> error + unit" where
  "check_evidence b k r =
     (if \<not> complete r \<or> ev_name r \<noteq> fst k \<or> expires_at r = None
         \<or> authentication r \<notin> {''secure'', ''insecure'', ''bogus'', ''indeterminate''}
      then Inl (RequestDenied ''incomplete_membership'')
      else bindE (foldE (\<lambda>u a. bindE (require_public b (ip_str a) False) (\<lambda>_. Inr ())) ()
                   (direct_addresses r)) (\<lambda>_.
        foldE (check_endpoint b k) () (service_endpoints r)))"

section \<open>State and steps\<close>

datatype task = Running key | Done key "error + evidence" | Cancelled key

fun task_key :: "task \<Rightarrow> key" where
  "task_key (Running k) = k"
| "task_key (Done k _) = k"
| "task_key (Cancelled k) = k"

record request =
  rq_name :: string \<comment> \<open>canonical\<close>
  rq_original :: ip_address
  rq_port :: nat
  rq_authority_port :: nat
  rq_protocol :: string

definition request_key :: "request \<Rightarrow> key" where
  "request_key r = (rq_name r, rq_authority_port r, rq_protocol r)"

record membership =
  cache :: "(key \<times> evidence \<times> int) list"
  inflight :: "(key \<times> nat) list"
  tasks :: "nat \<Rightarrow> task option"
  next_task :: nat
  waiting :: "(request \<times> nat) list"
  mem_closed :: bool
  mem_now :: int

definition new_membership :: "int \<Rightarrow> membership" where
  "new_membership t = \<lparr>cache = [], inflight = [], tasks = Map.empty, next_task = 0, waiting = [],
     mem_closed = False, mem_now = t\<rparr>"

text \<open>The final test of \<open>require\<close> on the evidence it holds.\<close>

definition verdict :: "membership \<Rightarrow> request \<Rightarrow> evidence \<Rightarrow> error + unit" where
  "verdict s q r =
     (if mem_closed s then Inl (RequestDenied ''connection_closed'')
      else if rq_port q = rq_authority_port q \<and> rq_original q \<in> set (direct_addresses r) then Inr ()
      else if list_ex (\<lambda>e. service e = rq_name q \<and> ep_address e = rq_original q
                 \<and> ep_port e = rq_port q \<and> ep_authority_port e = rq_authority_port q)
               (service_endpoints r) then Inr ()
      else Inl (RequestDenied ''destination_not_member''))"

definition scope_ok :: "string \<Rightarrow> nat \<Rightarrow> nat \<Rightarrow> bool" where
  "scope_ok protocol original_port authority_port \<longleftrightarrow>
     protocol \<in> {''http'', ''https''}
     \<and> 1 \<le> original_port \<and> original_port \<le> 65535 \<and> 1 \<le> authority_port \<and> authority_port \<le> 65535"

text \<open>Expired entries are dropped before the cache is read.\<close>

definition prune :: "membership \<Rightarrow> membership" where
  "prune s = s\<lparr>cache := filter (\<lambda>(_, _, expiry). expiry > mem_now s) (cache s)\<rparr>"

text \<open>\<open>require\<close> up to its await: an answer, or the caller is suspended on a task.\<close>

datatype started = Answer "error + unit" | Suspended nat

definition require_begin ::
  "membership_config \<Rightarrow> string \<Rightarrow> ip_address \<Rightarrow> nat \<Rightarrow> nat \<Rightarrow> string \<Rightarrow> membership
   \<Rightarrow> started \<times> request option \<times> membership" where
  "require_begin c name original original_port authority_port protocol s =
     (if mem_closed s then (Answer (Inl (RequestDenied ''connection_closed'')), None, s)
      else (case canonical_host name of
        Inl e \<Rightarrow> (Answer (Inl e), None, s)
      | Inr name \<Rightarrow>
          if \<not> scope_ok protocol original_port authority_port
          then (Answer (Inl (RequestDenied ''invalid_membership_scope'')), None, s)
          else (case require_public (boundary c) (ip_str original) False of
            Inl e \<Rightarrow> (Answer (Inl e), None, s)
          | Inr _ \<Rightarrow>
              let q = \<lparr>rq_name = name, rq_original = original, rq_port = original_port,
                       rq_authority_port = authority_port, rq_protocol = protocol\<rparr>;
                  k = request_key q;
                  s = prune s
              in (case map_of (cache s) k of
                    Some (r, _) \<Rightarrow> (Answer (verdict s q r), Some q, s)
                  | None \<Rightarrow>
                      (case map_of (inflight s) k of
                         Some t \<Rightarrow> (Suspended t, Some q, s\<lparr>waiting := (q, t) # waiting s\<rparr>)
                       | None \<Rightarrow>
                           if card (set (map fst (cache s)) \<union> set (map fst (inflight s))) \<ge> max_names c
                           then (Answer (Inl (RequestDenied ''connection_evidence_capacity'')), None, s)
                           else let t = next_task s in
                             (Suspended t, Some q,
                              s\<lparr>next_task := Suc t, tasks := (tasks s)(t \<mapsto> Running k),
                                inflight := AList.update k t (inflight s),
                                waiting := (q, t) # waiting s\<rparr>))))))"

text \<open>\<open>_lookup\<close> after its await, with the resolver's answer.\<close>

definition lookup_done ::
  "membership_config \<Rightarrow> nat \<Rightarrow> key \<Rightarrow> error + evidence \<Rightarrow> membership \<Rightarrow> membership" where
  "lookup_done c t k reply s =
     (case bindE reply (\<lambda>r. bindE (check_evidence (boundary c) k r) (\<lambda>_. Inr r)) of
        Inl e \<Rightarrow> s\<lparr>tasks := (tasks s)(t \<mapsto> Done k (Inl e))\<rparr>
      | Inr r \<Rightarrow>
          let s' = s\<lparr>tasks := (tasks s)(t \<mapsto> Done k (Inr r))\<rparr> in
          (case expires_at r of
             None \<Rightarrow> s'
           | Some e \<Rightarrow>
               if \<not> mem_closed s \<and> e > mem_now s
               then s'\<lparr>cache := AList.update k (r, min e (mem_now s + ttl_cap c)) (cache s)\<rparr>
               else s'))"

text \<open>The done callback of a task.\<close>

definition finished :: "nat \<Rightarrow> key \<Rightarrow> membership \<Rightarrow> membership" where
  "finished t k s =
     (if map_of (inflight s) k = Some t then s\<lparr>inflight := AList.delete k (inflight s)\<rparr> else s)"

text \<open>\<open>require\<close> after its await.\<close>

definition require_resume :: "membership \<Rightarrow> request \<Rightarrow> task \<Rightarrow> error + unit" where
  "require_resume s q tk =
     (case tk of Done _ (Inr r) \<Rightarrow> verdict s q r
      | Done _ (Inl e) \<Rightarrow> Inl e
      | _ \<Rightarrow> Inl (OtherError ''CancelledError''))"

definition close_begin :: "membership \<Rightarrow> membership" where
  "close_begin s = s\<lparr>mem_closed := True\<rparr>"

definition close_end :: "membership \<Rightarrow> membership" where
  "close_end s = s\<lparr>inflight := [], cache := []\<rparr>"

fun is_running :: "task \<Rightarrow> bool" where
  "is_running (Running _) = True"
| "is_running _ = False"

datatype membership_event =
    Verdict request "error + unit"
  | Denied error
  | Wait request nat
  | Lookup nat "error + evidence"
  | Callback nat
  | TaskCancelled nat
  | Tick
  | CloseBegin
  | CloseEnd

inductive mstep :: "membership_config \<Rightarrow> membership \<Rightarrow> membership_event \<Rightarrow> membership \<Rightarrow> bool"
  for c where
  m_answer: "require_begin c name original p ap protocol s = (Answer v, Some q, t) \<Longrightarrow> ip_wf original
     \<Longrightarrow> mstep c s (Verdict q v) t"
| m_denied: "require_begin c name original p ap protocol s = (Answer (Inl e), None, t) \<Longrightarrow> ip_wf original
     \<Longrightarrow> mstep c s (Denied e) t"
| m_wait: "require_begin c name original p ap protocol s = (Suspended k, Some q, t) \<Longrightarrow> ip_wf original
     \<Longrightarrow> mstep c s (Wait q k) t"
| m_lookup: "tasks s t = Some (Running k) \<Longrightarrow> mstep c s (Lookup t reply) (lookup_done c t k reply s)"
| m_callback: "tasks s t = Some tk \<Longrightarrow> \<not> is_running tk
     \<Longrightarrow> mstep c s (Callback t) (finished t (task_key tk) s)"
| m_resume: "(q, t) \<in> set (waiting s) \<Longrightarrow> tasks s t = Some tk \<Longrightarrow> \<not> is_running tk
     \<Longrightarrow> mstep c s (Verdict q (require_resume s q tk)) (s\<lparr>waiting := remove1 (q, t) (waiting s)\<rparr>)"
| m_cancelled: "mem_closed s \<Longrightarrow> tasks s t = Some (Running k)
     \<Longrightarrow> mstep c s (TaskCancelled t) (s\<lparr>tasks := (tasks s)(t \<mapsto> Cancelled k)\<rparr>)"
| m_tick: "mem_now s \<le> n \<Longrightarrow> mstep c s Tick (s\<lparr>mem_now := n\<rparr>)"
| m_close_begin: "mstep c s CloseBegin (close_begin s)"
| m_close_end: "mem_closed s \<Longrightarrow> \<forall>(k, t) \<in> set (inflight s). \<forall>tk. tasks s t = Some tk \<longrightarrow> \<not> is_running tk
     \<Longrightarrow> mstep c s CloseEnd (close_end s)"


lemmas [eval_simps] = membership_config_ok_def check_endpoint_def check_evidence_def request_key_def
  new_membership_def verdict_def scope_ok_def prune_def require_begin_def lookup_done_def finished_def require_resume_def
  close_begin_def close_end_def

section \<open>What the evidence means\<close>

definition endpoint_valid :: "destination_boundary \<Rightarrow> key \<Rightarrow> service_endpoint \<Rightarrow> bool" where
  "endpoint_valid b k e \<longleftrightarrow> service e = fst k \<and> 1 \<le> ep_port e \<and> ep_port e \<le> 65535
     \<and> ep_authority_port e = fst (snd k)
     \<and> (\<exists>a. require_public b (ip_str (ep_address e)) False = Inr a)"

definition evidence_valid :: "destination_boundary \<Rightarrow> key \<Rightarrow> evidence \<Rightarrow> bool" where
  "evidence_valid b k r \<longleftrightarrow> complete r \<and> ev_name r = fst k \<and> expires_at r \<noteq> None
     \<and> (\<forall>a \<in> set (direct_addresses r). \<exists>a'. require_public b (ip_str a) False = Inr a')
     \<and> (\<forall>e \<in> set (service_endpoints r). endpoint_valid b k e)"

lemma foldE_unit_Inr: "foldE f () xs = Inr () \<longleftrightarrow> (\<forall>x \<in> set xs. f () x = Inr ())"
  by (induction xs) (auto simp: bindE_eq_Inr)

lemma check_endpoint_Inr: "check_endpoint b k () e = Inr () \<Longrightarrow> endpoint_valid b k e"
  by (cases k) (auto simp: check_endpoint_def endpoint_valid_def bindE_eq_Inr simp del: One_nat_def
      split: if_splits)

lemma check_evidence_Inr: "check_evidence b k r = Inr () \<Longrightarrow> evidence_valid b k r"
  unfolding check_evidence_def evidence_valid_def
  by (auto simp: bindE_eq_Inr foldE_unit_Inr dest: check_endpoint_Inr split: if_split_asm)

definition supports :: "request \<Rightarrow> evidence \<Rightarrow> bool" where
  "supports q r \<longleftrightarrow> (rq_port q = rq_authority_port q \<and> rq_original q \<in> set (direct_addresses r))
     \<or> (\<exists>e \<in> set (service_endpoints r). service e = rq_name q \<and> ep_address e = rq_original q
          \<and> ep_port e = rq_port q \<and> ep_authority_port e = rq_authority_port q)"


section \<open>Invariant\<close>

definition request_ok :: "membership_config \<Rightarrow> request \<Rightarrow> bool" where
  "request_ok c q \<longleftrightarrow> canonical_host (rq_name q) = Inr (rq_name q)
     \<and> rq_protocol q \<in> {''http'', ''https''}
     \<and> rq_port q \<in> {1..65535} \<and> rq_authority_port q \<in> {1..65535}
     \<and> public_address (boundary c) (rq_original q)"

definition cache_ok :: "membership_config \<Rightarrow> membership \<Rightarrow> bool" where
  "cache_ok c s \<longleftrightarrow> (\<forall>(k, r, expiry) \<in> set (cache s).
     evidence_valid (boundary c) k r \<and> (\<exists>e. expires_at r = Some e \<and> expiry \<le> e)
     \<and> expiry \<le> mem_now s + ttl_cap c)"

definition tasks_ok :: "membership_config \<Rightarrow> membership \<Rightarrow> bool" where
  "tasks_ok c s \<longleftrightarrow> (\<forall>t k r. tasks s t = Some (Done k (Inr r)) \<longrightarrow> evidence_valid (boundary c) k r)
     \<and> (\<forall>t. next_task s \<le> t \<longrightarrow> tasks s t = None)"

definition waiting_ok :: "membership_config \<Rightarrow> membership \<Rightarrow> bool" where
  "waiting_ok c s \<longleftrightarrow> (\<forall>(q, t) \<in> set (waiting s). request_ok c q
     \<and> (\<exists>tk. tasks s t = Some tk \<and> task_key tk = request_key q))"

definition inflight_ok :: "membership_config \<Rightarrow> membership \<Rightarrow> bool" where
  "inflight_ok c s \<longleftrightarrow> distinct (map fst (inflight s))
     \<and> (\<forall>(k, t) \<in> set (inflight s). \<exists>tk. tasks s t = Some tk \<and> task_key tk = k)
     \<and> (\<not> mem_closed s \<longrightarrow> (\<forall>t k. tasks s t = Some (Running k) \<longrightarrow> (k, t) \<in> set (inflight s)))
     \<and> card (set (map fst (cache s)) \<union> set (map fst (inflight s))) \<le> max_names c"

definition minv :: "membership_config \<Rightarrow> membership \<Rightarrow> bool" where
  "minv c s \<longleftrightarrow> cache_ok c s \<and> tasks_ok c s \<and> waiting_ok c s \<and> inflight_ok c s"

text \<open>The four parts with their bound pairs taken apart.\<close>

lemma cache_okI:
  "(\<And>k r x. (k, r, x) \<in> set (cache s) \<Longrightarrow> evidence_valid (boundary c) k r
      \<and> (\<exists>e. expires_at r = Some e \<and> x \<le> e) \<and> x \<le> mem_now s + ttl_cap c) \<Longrightarrow> cache_ok c s"
  unfolding cache_ok_def by blast

lemma cache_okD:
  "cache_ok c s \<Longrightarrow> (k, r, x) \<in> set (cache s) \<Longrightarrow> evidence_valid (boundary c) k r
      \<and> (\<exists>e. expires_at r = Some e \<and> x \<le> e) \<and> x \<le> mem_now s + ttl_cap c"
  unfolding cache_ok_def by blast

lemma waiting_okI:
  "(\<And>q t. (q, t) \<in> set (waiting s) \<Longrightarrow> request_ok c q
      \<and> (\<exists>tk. tasks s t = Some tk \<and> task_key tk = request_key q)) \<Longrightarrow> waiting_ok c s"
  unfolding waiting_ok_def by blast

lemma waiting_okD:
  "waiting_ok c s \<Longrightarrow> (q, t) \<in> set (waiting s) \<Longrightarrow> request_ok c q
      \<and> (\<exists>tk. tasks s t = Some tk \<and> task_key tk = request_key q)"
  unfolding waiting_ok_def by blast

lemma inflight_okI:
  assumes "distinct (map fst (inflight s))"
    and "\<And>k t. (k, t) \<in> set (inflight s) \<Longrightarrow> \<exists>tk. tasks s t = Some tk \<and> task_key tk = k"
    and "\<And>k t. \<not> mem_closed s \<Longrightarrow> tasks s t = Some (Running k) \<Longrightarrow> (k, t) \<in> set (inflight s)"
    and "card (set (map fst (cache s)) \<union> set (map fst (inflight s))) \<le> max_names c"
  shows "inflight_ok c s"
  unfolding inflight_ok_def using assms by blast

lemma inflight_okD:
  assumes "inflight_ok c s"
  shows "distinct (map fst (inflight s))"
    and "(k, t) \<in> set (inflight s) \<Longrightarrow> \<exists>tk. tasks s t = Some tk \<and> task_key tk = k"
    and "\<not> mem_closed s \<Longrightarrow> tasks s t = Some (Running k) \<Longrightarrow> (k, t) \<in> set (inflight s)"
    and "card (set (map fst (cache s)) \<union> set (map fst (inflight s))) \<le> max_names c"
  using assms unfolding inflight_ok_def by blast+

lemma prune_simps [simp]:
  "inflight (prune s) = inflight s" "tasks (prune s) = tasks s" "next_task (prune s) = next_task s"
  "waiting (prune s) = waiting s" "mem_closed (prune s) = mem_closed s" "mem_now (prune s) = mem_now s"
  by (simp_all add: prune_def)

lemma prune_cache: "x \<in> set (cache (prune s)) \<Longrightarrow> x \<in> set (cache s)"
  by (auto simp: prune_def)

lemma card_keys_mono: "A \<subseteq> B \<Longrightarrow> finite B \<Longrightarrow> card B \<le> n \<Longrightarrow> card A \<le> (n :: nat)"
  using card_mono le_trans by blast

lemma minv_prune: "minv c s \<Longrightarrow> minv c (prune s)"
proof -
  assume s: "minv c s"
  have keys: "set (map fst (cache (prune s))) \<subseteq> set (map fst (cache s))"
    by (auto dest: prune_cache)
  have "card (set (map fst (cache (prune s))) \<union> set (map fst (inflight s))) \<le> max_names c"
    by (rule card_keys_mono [where B = "set (map fst (cache s)) \<union> set (map fst (inflight s))"])
      (use s keys in \<open>auto simp: minv_def inflight_ok_def\<close>)
  then have "inflight_ok c (prune s)"
    using s inflight_okD [of c s] by (intro inflight_okI) (simp_all add: minv_def del: set_map)
  moreover have "cache_ok c (prune s)"
    using s cache_okD [of c s] by (intro cache_okI) (auto simp: minv_def dest: prune_cache)
  ultimately show ?thesis
    using s by (simp add: minv_def tasks_ok_def waiting_ok_def)
qed

text \<open>The four ways \<open>require\<close> leaves its first part.\<close>

lemma require_begin_cases:
  assumes "require_begin c name original p ap protocol s = (st, qo, t)" "ip_wf original"
  obtains (denied) e where "st = Answer (Inl e)" "qo = None" "t = s \<or> t = prune s"
  | (answered) q r expiry where "st = Answer (verdict t q r)" "qo = Some q" "t = prune s" "request_ok c q"
      "map_of (cache t) (request_key q) = Some (r, expiry)" "\<not> mem_closed s"
  | (joined) q k where "st = Suspended k" "qo = Some q" "request_ok c q"
      "map_of (inflight s) (request_key q) = Some k" "t = (prune s)\<lparr>waiting := (q, k) # waiting s\<rparr>"
  | (created) q where "st = Suspended (next_task s)" "qo = Some q" "request_ok c q"
      "map_of (inflight s) (request_key q) = None" "\<not> mem_closed s"
      "card (set (map fst (cache (prune s))) \<union> set (map fst (inflight s))) < max_names c"
      "t = (prune s)\<lparr>next_task := Suc (next_task s),
              tasks := (tasks s)(next_task s \<mapsto> Running (request_key q)),
              inflight := AList.update (request_key q) (next_task s) (inflight s),
              waiting := (q, next_task s) # waiting s\<rparr>"
proof (cases "mem_closed s")
  case True
  with assms(1) [symmetric] denied show ?thesis by (simp add: require_begin_def)
next
  case open': False
  show ?thesis
  proof (cases "canonical_host name")
    case (Inl e)
    with assms(1) [symmetric] open' denied show ?thesis by (simp add: require_begin_def)
  next
    case name: (Inr h)
    define bad where "bad \<longleftrightarrow> \<not> scope_ok protocol p ap"
    show ?thesis
    proof (cases "bad \<or> (\<exists>e. require_public (boundary c) (ip_str original) False = Inl e)")
      case True
      then show ?thesis
      proof (cases bad)
        case True
        with assms(1) [symmetric] open' name denied show ?thesis by (simp add: require_begin_def bad_def [symmetric])
      next
        case False
        with True obtain e where "require_public (boundary c) (ip_str original) False = Inl e" by blast
        with assms(1) [symmetric] open' name denied False show ?thesis
          by (simp add: require_begin_def bad_def [symmetric])
      qed
    next
      case False
      then obtain a where pub: "require_public (boundary c) (ip_str original) False = Inr a"
        by (cases "require_public (boundary c) (ip_str original) False") auto
      define q where "q = \<lparr>rq_name = h, rq_original = original, rq_port = p,
        rq_authority_port = ap, rq_protocol = protocol\<rparr>"
      from False have "\<not> bad" by simp
      with pub name canonical_host_fixed [OF name] assms(2)
      have q: "request_ok c q"
        by (auto simp: request_ok_def q_def bad_def scope_ok_def require_public_ip_str)
      have begin_eq: "require_begin c name original p ap protocol s =
        (case map_of (cache (prune s)) (request_key q) of
           Some (r, _) \<Rightarrow> (Answer (verdict (prune s) q r), Some q, prune s)
         | None \<Rightarrow>
             (case map_of (inflight s) (request_key q) of
                Some t \<Rightarrow> (Suspended t, Some q, (prune s)\<lparr>waiting := (q, t) # waiting s\<rparr>)
              | None \<Rightarrow>
                  if card (set (map fst (cache (prune s))) \<union> set (map fst (inflight s))) \<ge> max_names c
                  then (Answer (Inl (RequestDenied ''connection_evidence_capacity'')), None, prune s)
                  else (Suspended (next_task s), Some q,
                    (prune s)\<lparr>next_task := Suc (next_task s),
                       tasks := (tasks s)(next_task s \<mapsto> Running (request_key q)),
                       inflight := AList.update (request_key q) (next_task s) (inflight s),
                       waiting := (q, next_task s) # waiting s\<rparr>)))"
        using open' name pub \<open>\<not> bad\<close>
        by (simp add: require_begin_def bad_def [symmetric] q_def [symmetric] Let_def
            split: option.split prod.split)
      show ?thesis
      proof (cases "map_of (cache (prune s)) (request_key q)")
        case (Some re)
        then obtain r x where re: "map_of (cache (prune s)) (request_key q) = Some (r, x)"
          by (cases re) auto
        then have "(st, qo, t) = (Answer (verdict (prune s) q r), Some q, prune s)"
          unfolding assms(1) [symmetric] begin_eq by simp
        with re show ?thesis by (intro answered [OF _ _ _ q _ open']) simp_all
      next
        case None
        note begin_eq = begin_eq [unfolded None option.case]
        show ?thesis
        proof (cases "map_of (inflight s) (request_key q)")
          case (Some k)
          then have "(st, qo, t) = (Suspended k, Some q, (prune s)\<lparr>waiting := (q, k) # waiting s\<rparr>)"
            unfolding assms(1) [symmetric] begin_eq by simp
          with Some show ?thesis by (intro joined [OF _ _ q]) simp_all
        next
          case inf: None
          note begin_eq = begin_eq [unfolded inf option.case]
          show ?thesis
          proof (cases "card (set (map fst (cache (prune s))) \<union> set (map fst (inflight s))) \<ge> max_names c")
            case True
            then have "(st, qo, t)
                = (Answer (Inl (RequestDenied ''connection_evidence_capacity'')), None, prune s)"
              unfolding assms(1) [symmetric] begin_eq by (simp only: if_True)
            then show ?thesis by (intro denied) simp_all
          next
            case False
            then have "(st, qo, t) = (Suspended (next_task s), Some q,
                (prune s)\<lparr>next_task := Suc (next_task s),
                   tasks := (tasks s)(next_task s \<mapsto> Running (request_key q)),
                   inflight := AList.update (request_key q) (next_task s) (inflight s),
                   waiting := (q, next_task s) # waiting s\<rparr>)"
              unfolding assms(1) [symmetric] begin_eq by (simp only: if_False)
            with False show ?thesis by (intro created [OF _ _ q inf open']) simp_all
          qed
        qed
      qed
    qed
  qed
qed

lemma minv_wait:
  assumes "minv c s" "request_ok c q" "tasks s t = Some tk" "task_key tk = request_key q"
  shows "minv c (s\<lparr>waiting := (q, t) # waiting s\<rparr>)"
  using assms by (auto simp: minv_def cache_ok_def tasks_ok_def waiting_ok_def inflight_ok_def)

lemma update_new: "k \<notin> fst ` set al \<Longrightarrow> AList.update k v al = al @ [(k, v)]"
  by (induction al) auto

lemma set_update_subset: "set (AList.update k v al) \<subseteq> insert (k, v) (set al)"
  by (induction al) auto

lemma task_fresh: "tasks_ok c s \<Longrightarrow> tasks s t = Some tk \<Longrightarrow> t < next_task s"
  by (metis linorder_not_le option.distinct(1) tasks_ok_def)

lemma minv_create:
  assumes s: "minv c s" and q: "map_of (inflight s) k = None"
    and room: "card (set (map fst (cache s)) \<union> set (map fst (inflight s))) < max_names c"
  shows "minv c (s\<lparr>next_task := Suc (next_task s), tasks := (tasks s)(next_task s \<mapsto> Running k),
     inflight := AList.update k (next_task s) (inflight s)\<rparr>)" (is "minv c ?s")
proof -
  from q have new: "k \<notin> fst ` set (inflight s)" by (simp add: map_of_eq_None_iff)
  note upd = update_new [OF new]
  from s have ok: "cache_ok c s" "tasks_ok c s" "waiting_ok c s" "inflight_ok c s"
    by (simp_all add: minv_def)
  note fresh = task_fresh [OF ok(2)]
  have same: "tasks s t = Some tk \<Longrightarrow> tasks ?s t = Some tk" for t tk
    using fresh [of t tk] by auto
  have "card (set (map fst (cache ?s)) \<union> set (map fst (inflight ?s))) \<le> max_names c"
    using room by (simp add: upd card_insert_if)
  moreover have "\<exists>tk. tasks ?s t = Some tk \<and> task_key tk = k'" if "(k', t) \<in> set (inflight ?s)" for k' t
  proof -
    from that consider "(k', t) \<in> set (inflight s)" | "k' = k" "t = next_task s"
      by (auto simp: upd)
    then show ?thesis by cases (use inflight_okD(2) [OF ok(4)] same in blast, simp)
  qed
  moreover have "distinct (map fst (inflight ?s))"
    using inflight_okD(1) [OF ok(4)] new by (simp add: upd)
  moreover have "(k', t) \<in> set (inflight ?s)" if "\<not> mem_closed ?s" "tasks ?s t = Some (Running k')" for k' t
    using that inflight_okD(3) [OF ok(4), of t k'] by (simp add: upd split: if_splits)
  ultimately have "inflight_ok c ?s" by (intro inflight_okI)
  moreover have "cache_ok c ?s" using ok(1) by (simp add: cache_ok_def)
  moreover have "tasks_ok c ?s" using ok(2) by (auto simp: tasks_ok_def)
  moreover have "waiting_ok c ?s"
  proof (rule waiting_okI)
    fix q t
    assume "(q, t) \<in> set (waiting ?s)"
    then have "(q, t) \<in> set (waiting s)" by simp
    with ok(3) obtain tk where "request_ok c q" "tasks s t = Some tk" "task_key tk = request_key q"
      unfolding waiting_ok_def by blast
    with same show "request_ok c q \<and> (\<exists>tk. tasks ?s t = Some tk \<and> task_key tk = request_key q)" by blast
  qed
  ultimately show ?thesis by (simp add: minv_def)
qed

text \<open>A task may end with any outcome for its own key; the keys in flight do not change.\<close>

lemma minv_end_task:
  assumes s: "minv c s" and t: "tasks s t = Some (Running k)" and "task_key tk = k" "\<not> is_running tk"
    and valid: "\<And>r. tk = Done k (Inr r) \<Longrightarrow> evidence_valid (boundary c) k r"
  shows "minv c (s\<lparr>tasks := (tasks s)(t \<mapsto> tk)\<rparr>)" (is "minv c ?s")
proof -
  from s have ok: "cache_ok c s" "tasks_ok c s" "waiting_ok c s" "inflight_ok c s"
    by (simp_all add: minv_def)
  have keys: "tasks s u = Some tk' \<Longrightarrow> \<exists>tk''. tasks ?s u = Some tk'' \<and> task_key tk'' = task_key tk'" for u tk'
    using t assms(3) by auto
  have "cache_ok c ?s" using ok(1) by (simp add: cache_ok_def)
  moreover have "tasks_ok c ?s"
    using ok(2) t assms(3) valid task_fresh [OF ok(2) t] by (auto simp: tasks_ok_def)
  moreover have "waiting_ok c ?s"
  proof (rule waiting_okI)
    fix q u
    assume "(q, u) \<in> set (waiting ?s)"
    then have "(q, u) \<in> set (waiting s)" by simp
    with ok(3) obtain tk' where "request_ok c q" "tasks s u = Some tk'" "task_key tk' = request_key q"
      unfolding waiting_ok_def by blast
    with keys show "request_ok c q \<and> (\<exists>tk. tasks ?s u = Some tk \<and> task_key tk = request_key q)"
      by metis
  qed
  moreover have "inflight_ok c ?s"
  proof (rule inflight_okI)
    show "\<exists>tk. tasks ?s u = Some tk \<and> task_key tk = k'" if "(k', u) \<in> set (inflight ?s)" for k' u
      using keys inflight_okD(2) [OF ok(4), of k' u] that by fastforce
    show "(k', u) \<in> set (inflight ?s)" if "\<not> mem_closed ?s" "tasks ?s u = Some (Running k')" for k' u
      using that inflight_okD(3) [OF ok(4), of u k'] assms(4) by (auto split: if_splits)
  qed (use inflight_okD(1,4) [OF ok(4)] in simp_all)
  ultimately show ?thesis by (simp add: minv_def)
qed

lemma minv_cache_write:
  assumes s: "minv c s" and k: "k \<in> fst ` set (inflight s)"
    and r: "evidence_valid (boundary c) k r" "expires_at r = Some e"
  shows "minv c (s\<lparr>cache := AList.update k (r, min e (mem_now s + ttl_cap c)) (cache s)\<rparr>)" (is "minv c ?s")
proof -
  from s have ok: "cache_ok c s" "tasks_ok c s" "waiting_ok c s" "inflight_ok c s"
    by (simp_all add: minv_def)
  have "cache_ok c ?s"
  proof (rule cache_okI)
    fix k' r' x
    assume "(k', r', x) \<in> set (cache ?s)"
    then have "(k', r', x) \<in> set (cache s) \<or> (k', r', x) = (k, r, min e (mem_now s + ttl_cap c))"
      using set_update_subset [of k _ "cache s"] by auto
    then show "evidence_valid (boundary c) k' r' \<and> (\<exists>e. expires_at r' = Some e \<and> x \<le> e)
        \<and> x \<le> mem_now ?s + ttl_cap c"
      using cache_okD [OF ok(1), of k' r' x] r by auto
  qed
  moreover have "set (map fst (cache ?s)) \<union> set (map fst (inflight ?s))
      = set (map fst (cache s)) \<union> set (map fst (inflight s))"
    using k by (auto simp: AList.update_keys)
  ultimately show ?thesis
    using ok by (simp add: minv_def tasks_ok_def waiting_ok_def inflight_ok_def del: set_map)
qed

lemma minv_lookup_done:
  assumes "minv c s" "tasks s t = Some (Running k)"
  shows "minv c (lookup_done c t k reply s)"
proof (cases "bindE reply (\<lambda>r. bindE (check_evidence (boundary c) k r) (\<lambda>_. Inr r))")
  case (Inl e)
  have "minv c (s\<lparr>tasks := (tasks s)(t \<mapsto> Done k (Inl e))\<rparr>)"
    by (rule minv_end_task [OF assms]) simp_all
  with Inl show ?thesis by (simp add: lookup_done_def)
next
  case (Inr r)
  then have valid: "evidence_valid (boundary c) k r"
    by (auto simp: bindE_eq_Inr dest: check_evidence_Inr)
  let ?s = "s\<lparr>tasks := (tasks s)(t \<mapsto> Done k (Inr r))\<rparr>"
  have s': "minv c ?s"
    by (rule minv_end_task [OF assms]) (simp_all add: valid)
  from valid obtain e where e: "expires_at r = Some e" by (auto simp: evidence_valid_def)
  show ?thesis
  proof (cases "\<not> mem_closed s \<and> e > mem_now s")
    case True
    with assms have "(k, t) \<in> set (inflight s)"
      using inflight_okD(3) [of c s t k] by (simp add: minv_def)
    then have "k \<in> fst ` set (inflight ?s)" by force
    from minv_cache_write [OF s' this valid e]
    have "minv c (?s\<lparr>cache := AList.update k (r, min e (mem_now s + ttl_cap c)) (cache s)\<rparr>)" by simp
    with True Inr e show ?thesis by (simp add: lookup_done_def)
  next
    case False
    with Inr e s' show ?thesis by (auto simp: lookup_done_def)
  qed
qed

lemma minv_finished:
  assumes "minv c s" "tasks s t = Some tk" "\<not> is_running tk"
  shows "minv c (finished t (task_key tk) s)"
proof (cases "map_of (inflight s) (task_key tk) = Some t")
  case True
  let ?k = "task_key tk"
  let ?s = "s\<lparr>inflight := AList.delete ?k (inflight s)\<rparr>"
  from assms(1) have ok: "inflight_ok c s" by (simp add: minv_def)
  have sub: "set (AList.delete ?k (inflight s)) \<subseteq> set (inflight s)"
    by (auto simp: AList.delete_eq)
  have "inflight_ok c ?s"
  proof (rule inflight_okI)
    show "distinct (map fst (inflight ?s))"
      using inflight_okD(1) [OF ok] by (simp add: AList.distinct_delete)
    show "\<exists>tk. tasks ?s u = Some tk \<and> task_key tk = k'" if "(k', u) \<in> set (inflight ?s)" for k' u
      using inflight_okD(2) [OF ok, of k' u] that sub by auto
    show "(k', u) \<in> set (inflight ?s)" if "\<not> mem_closed ?s" "tasks ?s u = Some (Running k')" for k' u
    proof -
      from that inflight_okD(3) [OF ok, of u k'] have in': "(k', u) \<in> set (inflight s)" by simp
      have "k' \<noteq> ?k"
      proof
        assume "k' = ?k"
        with in' inflight_okD(1) [OF ok] True have "u = t" by (metis map_of_is_SomeI option.inject)
        with that assms(2,3) show False by simp
      qed
      with in' show ?thesis by (simp add: AList.delete_eq)
    qed
    show "card (set (map fst (cache ?s)) \<union> set (map fst (inflight ?s))) \<le> max_names c"
      by (rule card_keys_mono [OF _ _ inflight_okD(4) [OF ok]]) (use sub in auto)
  qed
  with assms(1) True show ?thesis
    by (simp add: finished_def minv_def cache_ok_def tasks_ok_def waiting_ok_def)
next
  case False
  with assms(1) show ?thesis by (simp add: finished_def)
qed

lemma minv_begin:
  assumes "minv c s" "require_begin c name original p ap protocol s = (st, qo, t)" "ip_wf original"
  shows "minv c t"
  using assms(2,3)
proof (cases rule: require_begin_cases)
  case (denied e)
  then show ?thesis using assms(1) minv_prune by auto
next
  case (answered q r expiry)
  then show ?thesis using assms(1) minv_prune by auto
next
  case (joined q k)
  from assms(1) joined(4) obtain tk where "tasks s k = Some tk" "task_key tk = request_key q"
    using inflight_okD(2) [of c s "request_key q" k] by (auto simp: minv_def dest: map_of_SomeD)
  with minv_wait [OF minv_prune [OF assms(1)] joined(3), of k tk] joined(5) show ?thesis by simp
next
  case (created q)
  have "minv c ((prune s)\<lparr>next_task := Suc (next_task s),
      tasks := (tasks s)(next_task s \<mapsto> Running (request_key q)),
      inflight := AList.update (request_key q) (next_task s) (inflight s)\<rparr>)" (is "minv c ?s")
    using minv_create [OF minv_prune [OF assms(1)], of "request_key q"] created(4,6) by simp
  from minv_wait [OF this created(3), of "next_task s" "Running (request_key q)"] created(7)
  show ?thesis by simp
qed

lemma minv_step: "mstep c s e t \<Longrightarrow> minv c s \<Longrightarrow> minv c t"
proof (induction rule: mstep.induct)
  case (m_resume q t s tk)
  then have w: "waiting_ok c s" by (simp add: minv_def)
  have "waiting_ok c (s\<lparr>waiting := remove1 (q, t) (waiting s)\<rparr>)"
  proof (rule waiting_okI)
    fix q' t'
    assume "(q', t') \<in> set (waiting (s\<lparr>waiting := remove1 (q, t) (waiting s)\<rparr>))"
    then have "(q', t') \<in> set (waiting s)" using set_remove1_subset by fastforce
    from waiting_okD [OF w this] show "request_ok c q'
        \<and> (\<exists>tk. tasks (s\<lparr>waiting := remove1 (q, t) (waiting s)\<rparr>) t' = Some tk \<and> task_key tk = request_key q')"
      by simp
  qed
  with m_resume show ?case by (simp add: minv_def cache_ok_def tasks_ok_def inflight_ok_def)
next
  case (m_tick s n)
  then have "cache_ok c (s\<lparr>mem_now := n\<rparr>)"
    using cache_okD [of c s] by (intro cache_okI) (fastforce simp: minv_def)
  with m_tick show ?case by (simp add: minv_def tasks_ok_def waiting_ok_def inflight_ok_def)
next
  case (m_cancelled s t k)
  then show ?case by (intro minv_end_task) simp_all
next
  case (m_close_begin s)
  then show ?case
    by (simp add: close_begin_def minv_def cache_ok_def tasks_ok_def waiting_ok_def inflight_ok_def)
next
  case (m_close_end s)
  then show ?case
    by (simp add: close_end_def minv_def cache_ok_def tasks_ok_def waiting_ok_def inflight_ok_def)
qed (auto intro: minv_begin minv_lookup_done minv_finished)

interpretation membership: invariant_system "\<lambda>s. \<exists>t. s = new_membership t" "mstep c" "minv c" for c
proof unfold_locales
  show "minv c s" if "\<exists>t. s = new_membership t" for s
    using that by (auto simp: new_membership_def minv_def cache_ok_def tasks_ok_def waiting_ok_def
        inflight_ok_def)
qed (blast intro: minv_step)


lemma verdict_supported_public:
  assumes "evidence_valid b k r" "supports q r"
  shows "\<exists>a. require_public b (ip_str (rq_original q)) False = Inr a"
  using assms by (auto simp: evidence_valid_def supports_def endpoint_valid_def)

lemma mem_closed_stable: "mstep c s e t \<Longrightarrow> mem_closed s \<Longrightarrow> mem_closed t"
proof (induction rule: mstep.induct)
  case (m_answer name original p ap protocol s v q t)
  then show ?case by (simp add: require_begin_def)
next
  case (m_denied name original p ap protocol s e t)
  then show ?case by (simp add: require_begin_def)
next
  case (m_wait name original p ap protocol s k q t)
  then show ?case by (simp add: require_begin_def)
next
  case (m_lookup s t k reply)
  then show ?case by (simp add: lookup_done_def Let_def split: sum.split option.split)
qed (simp_all add: finished_def close_begin_def close_end_def)

section \<open>Properties\<close>

definition example_config :: membership_config where
  "example_config = \<lparr>boundary = \<lparr>infrastructure = [], translation_nets = [], inventory_version = ''v''\<rparr>,
     ttl_cap = 10, max_names = 2\<rparr>"

definition example_evidence :: evidence where
  "example_evidence = \<lparr>ev_name = ''a.b'', direct_addresses = [IPv4 16843009], service_endpoints = [],
     expires_at = Some 100, complete = True, authentication = ''secure''\<rparr>"

definition example_member :: request where
  "example_member = \<lparr>rq_name = ''a.b'', rq_original = IPv4 16843009, rq_port = 443,
     rq_authority_port = 443, rq_protocol = ''https''\<rparr>"

text \<open>A request, the answer of the resolver, and the request resumed.\<close>

definition example_waiting :: membership where
  "example_waiting = (new_membership 0)\<lparr>next_task := 1, tasks := [0 \<mapsto> Running (''a.b'', 443, ''https'')],
     inflight := [((''a.b'', 443, ''https''), 0)], waiting := [(example_member, 0)]\<rparr>"

definition example_answered :: membership where
  "example_answered = example_waiting\<lparr>
     tasks := [0 \<mapsto> Done (''a.b'', 443, ''https'') (Inr example_evidence)],
     cache := [((''a.b'', 443, ''https''), example_evidence, 10)]\<rparr>"

lemmas [eval_simps] = example_config_def example_evidence_def example_member_def example_waiting_def
  example_answered_def

lemma example_run:
  "reachable (\<lambda>s. \<exists>t. s = new_membership t) (mstep example_config) example_answered"
  "mstep example_config example_answered (Verdict example_member (Inr ())) (example_answered\<lparr>waiting := []\<rparr>)"
proof -
  let ?k = "(''a.b'', 443, ''https'') :: key"
  have "require_begin example_config ''a.b'' (IPv4 16843009) 443 443 ''https'' (new_membership 0)
      = (Suspended 0, Some example_member, example_waiting)"
    by (simp add: eval_simps Let_def suffix_to_prefix special_eq)
  then have "mstep example_config (new_membership 0) (Wait example_member 0) example_waiting"
    by (rule m_wait) simp
  then have w: "reachable (\<lambda>s. \<exists>t. s = new_membership t) (mstep example_config) example_waiting"
    by (rule reachable_step [OF reachable_start, rotated]) blast
  have "lookup_done example_config 0 ?k (Inr example_evidence) example_waiting = example_answered"
    by (simp add: eval_simps Let_def special_eq)
  moreover have "tasks example_waiting 0 = Some (Running ?k)" by (simp add: example_waiting_def)
  ultimately have "mstep example_config example_waiting (Lookup 0 (Inr example_evidence)) example_answered"
    using m_lookup by metis
  with w show "reachable (\<lambda>s. \<exists>t. s = new_membership t) (mstep example_config) example_answered"
    by (rule reachable_step)
  have v: "require_resume example_answered example_member (Done ?k (Inr example_evidence)) = Inr ()"
    by (simp add: eval_simps)
  have "mstep example_config example_answered
      (Verdict example_member (require_resume example_answered example_member (Done ?k (Inr example_evidence))))
      (example_answered\<lparr>waiting := remove1 (example_member, 0) (waiting example_answered)\<rparr>)"
    by (rule m_resume) (simp_all add: example_answered_def example_waiting_def)
  then show "mstep example_config example_answered (Verdict example_member (Inr ()))
      (example_answered\<lparr>waiting := []\<rparr>)"
    by (simp add: v) (simp add: example_answered_def example_waiting_def)
qed



text \<open>In every reachable state the names cached or looked up stay within the configured capacity,
  and no cached answer outlives its own expiry or the time-to-live cap.\<close>

theorem membership_bounds:
  assumes "reachable (\<lambda>s. \<exists>t. s = new_membership t) (mstep c) s"
  shows "card (set (map fst (cache s)) \<union> set (map fst (inflight s))) \<le> max_names c
    \<and> (\<forall>k r x. (k, r, x) \<in> set (cache s) \<longrightarrow>
         (\<exists>e. expires_at r = Some e \<and> x \<le> e) \<and> x \<le> mem_now s + ttl_cap c)"
proof -
  from membership.reachable_inv [OF assms] have "cache_ok c s" "inflight_ok c s"
    by (simp_all add: minv_def)
  with cache_okD inflight_okD(4) show ?thesis by blast
qed

theorem membership_bounds_witness:
  "card (set (map fst (cache example_answered)) \<union> set (map fst (inflight example_answered))) \<le> 2"
  using membership_bounds [OF example_run(1)] by (simp add: example_config_def)

end
