(* ===== verification/Security.thy ===== *)
theory Security
  imports Egress_Settings
begin

text \<open>
  The caller identity of \<open>libraries/ads-commons/src/ads_commons/security\<close>: the context bound to a
  request, the caller and role checks, and the identity read from the claims of a verified token.
  Verification of the token itself is outside. The context variable is an argument: \<open>None\<close>
  when nothing is bound.
\<close>

section \<open>UUID text\<close>

text \<open>\<open>s.replace(old, "")\<close>, scanning from the left; \<open>n\<close> characters of a match are still skipped.\<close>

fun erase_from :: "string \<Rightarrow> nat \<Rightarrow> string \<Rightarrow> string" where
  "erase_from old n [] = []"
| "erase_from old (Suc n) (c # cs) = erase_from old n cs"
| "erase_from old 0 (c # cs) =
     (if prefix old (c # cs) then erase_from old (length old - 1) cs else c # erase_from old 0 cs)"

definition erase :: "string \<Rightarrow> string \<Rightarrow> string" where
  "erase old s = (if old = [] then s else erase_from old 0 s)"

text \<open>Digits with single underscores between them, as \<open>int(s, 16)\<close> reads them.\<close>

fun grouped_digits :: "bool \<Rightarrow> string \<Rightarrow> bool" where
  "grouped_digits need [] = (\<not> need)"
| "grouped_digits need (c # cs) =
     (if is_hex c then grouped_digits False cs else c = CHR ''_'' \<and> \<not> need \<and> grouped_digits True cs)"

definition int_base16 :: "string \<Rightarrow> int option" where
  "int_base16 s =
     (let t = strip is_space s;
          negative = (prefix ''-'' t);
          u = (if prefix ''-'' t \<or> prefix ''+'' t then tl t else t);
          prefixed = (prefix ''0x'' u \<or> prefix ''0X'' u);
          digits = (if prefixed then drop 2 u else u)
      in if digits = [] \<or> \<not> grouped_digits (\<not> prefixed) digits then None
         else let n = int (hex_value (filter (\<lambda>c. c \<noteq> CHR ''_'') digits)) in
              Some (if negative then - n else n))"

definition parse_uuid :: "string \<Rightarrow> nat option" where
  "parse_uuid s =
     (let hex = erase ''-'' (strip (\<lambda>c. c \<in> {CHR ''{'', CHR ''}''}) (erase ''uuid:'' (erase ''urn:'' s)))
      in if length hex \<noteq> 32 then None
         else (case int_base16 hex of
                 None \<Rightarrow> None
               | Some n \<Rightarrow> if 0 \<le> n \<and> n < 2 ^ 128 then Some (nat n) else None))"

section \<open>The security context\<close>

record security_context =
  subject :: string
  sc_name :: string
  roles :: "string set"
  email :: "string option"
  authorized_party :: "string option"

definition user_id :: "security_context \<Rightarrow> error + nat" where
  "user_id c = (case parse_uuid (subject c) of
     None \<Rightarrow> Inl (ValueError ''badly formed hexadecimal UUID string'') | Some n \<Rightarrow> Inr n)"

definition has_role :: "security_context \<Rightarrow> string \<Rightarrow> bool" where
  "has_role c role \<longleftrightarrow> role \<in> roles c"

definition has_caller :: "security_context \<Rightarrow> string list \<Rightarrow> bool" where
  "has_caller c allowed \<longleftrightarrow>
     (case authorized_party c of None \<Rightarrow> False | Some p \<Rightarrow> p \<in> set allowed)"

definition require_context :: "security_context option \<Rightarrow> error + security_context" where
  "require_context current =
     (case current of None \<Rightarrow> Inl (AuthenticationRequired ''authentication required'')
      | Some c \<Rightarrow> Inr c)"

definition ensure_caller :: "security_context \<Rightarrow> string list \<Rightarrow> error + unit" where
  "ensure_caller c allowed =
     (if allowed = [] \<or> \<not> has_caller c allowed then Inl (AccessDenied ''caller is not allowed'')
      else Inr ())"

definition check_caller :: "security_context option \<Rightarrow> string list \<Rightarrow> error + security_context" where
  "check_caller current allowed =
     bindE (require_context current) (\<lambda>c. bindE (ensure_caller c allowed) (\<lambda>_. Inr c))"

text \<open>\<open>configured\<close> is \<open>instance.allowed_callers\<close>, \<open>None\<close> when the attribute is missing.\<close>

definition enforce_caller ::
  "security_context option \<Rightarrow> string list option \<Rightarrow> string list \<Rightarrow> error + security_context" where
  "enforce_caller current configured allowed =
     (if allowed \<noteq> [] then check_caller current allowed
      else (case configured of
              None \<Rightarrow> Inl (AccessDenied ''no allowed callers configured'')
            | Some parties \<Rightarrow>
                if parties = [] then Inl (AccessDenied ''no allowed callers configured'')
                else check_caller current parties))"

definition ensure_role :: "security_context \<Rightarrow> string \<Rightarrow> error + unit" where
  "ensure_role c role =
     (if \<not> has_role c role then Inl (AccessDenied (''role '' @ role @ '' required'')) else Inr ())"

definition check_role :: "security_context option \<Rightarrow> string \<Rightarrow> error + security_context" where
  "check_role current role =
     bindE (require_context current) (\<lambda>c. bindE (ensure_role c role) (\<lambda>_. Inr c))"

section \<open>Claims\<close>

fun is_mapping :: "json option \<Rightarrow> (string \<times> json) list option" where
  "is_mapping (Some (JObj kvs)) = Some kvs"
| "is_mapping _ = None"

fun is_list :: "json option \<Rightarrow> json list option" where
  "is_list (Some (JList xs)) = Some xs"
| "is_list _ = None"

text \<open>Truth of a claim value and \<open>str()\<close> of it; \<open>py_str\<close> renders what is not a string.\<close>

fun truthy :: "json \<Rightarrow> bool" where
  "truthy JNull = False"
| "truthy (JBool b) = b"
| "truthy (JNum n) = (n \<noteq> 0)"
| "truthy (JFrac n d) = (n \<noteq> 0)"
| "truthy (JStr s) = (s \<noteq> [])"
| "truthy (JList xs) = (xs \<noteq> [])"
| "truthy (JObj kvs) = (kvs \<noteq> [])"

definition to_str :: "(json \<Rightarrow> string) \<Rightarrow> json \<Rightarrow> string" where
  "to_str py_str j = (case j of JStr s \<Rightarrow> s | _ \<Rightarrow> py_str j)"

definition role_items :: "(json \<Rightarrow> string) \<Rightarrow> (string \<times> json) list \<Rightarrow> string list" where
  "role_items py_str access =
     (case is_list (map_of access ''roles'') of None \<Rightarrow> [] | Some xs \<Rightarrow> map (to_str py_str) xs)"

definition roles_from_claims ::
  "(json \<Rightarrow> string) \<Rightarrow> (string \<times> json) list \<Rightarrow> string \<Rightarrow> string list" where
  "roles_from_claims py_str payload client_id =
     (let realm = (case is_mapping (map_of payload ''realm_access'') of
                     None \<Rightarrow> [] | Some access \<Rightarrow> role_items py_str access);
          client = (case is_mapping (map_of payload ''resource_access'') of
                      None \<Rightarrow> []
                    | Some resource \<Rightarrow>
                        (case is_mapping (map_of resource client_id) of
                           None \<Rightarrow> [] | Some access \<Rightarrow> role_items py_str access))
      in sort_strings (remdups (realm @ client)))"

record identity =
  sub :: string
  id_name :: string
  id_roles :: "string list"
  id_email :: "string option"
  azp :: "string option"

fun first_truthy :: "json option list \<Rightarrow> json \<Rightarrow> json" where
  "first_truthy [] d = d"
| "first_truthy (None # js) d = first_truthy js d"
| "first_truthy (Some j # js) d = (if truthy j then j else first_truthy js d)"

definition identity_from_claims ::
  "(json \<Rightarrow> string) \<Rightarrow> (string \<times> json) list \<Rightarrow> string \<Rightarrow> error + identity" where
  "identity_from_claims py_str payload client_id =
     (case map_of payload ''sub'' of
        Some (JStr s) \<Rightarrow>
          if s = [] then Inl (ValueError ''token missing sub'')
          else if parse_uuid s = None then Inl (ValueError ''sub must be a UUID'')
          else Inr \<lparr>
            sub = s,
            id_name = to_str py_str (first_truthy
              [map_of payload ''name'', map_of payload ''preferred_username''] (JStr s)),
            id_roles = roles_from_claims py_str payload client_id,
            id_email = (case map_of payload ''email'' of Some (JStr e) \<Rightarrow> Some e | _ \<Rightarrow> None),
            azp = (case map_of payload ''azp'' of
                     Some (JStr a) \<Rightarrow> if a = [] then None else Some a | _ \<Rightarrow> None)\<rparr>
      | _ \<Rightarrow> Inl (ValueError ''token missing sub''))"

definition security_context_from_identity :: "identity \<Rightarrow> security_context" where
  "security_context_from_identity i =
     \<lparr>subject = sub i, sc_name = id_name i, roles = set (id_roles i), email = id_email i,
      authorized_party = azp i\<rparr>"

lemmas [eval_simps] = erase_def int_base16_def parse_uuid_def user_id_def has_role_def has_caller_def
  require_context_def ensure_caller_def check_caller_def enforce_caller_def ensure_role_def
  check_role_def to_str_def role_items_def roles_from_claims_def identity_from_claims_def
  security_context_from_identity_def sort_strings_def char_less_def

section \<open>Facts\<close>

lemma ensure_caller_Inr:
  "ensure_caller c allowed = Inr () \<longleftrightarrow> (\<exists>p \<in> set allowed. authorized_party c = Some p)"
  by (auto simp: ensure_caller_def has_caller_def split: option.splits)

lemma check_caller_Inr:
  "check_caller current allowed = Inr c \<longleftrightarrow>
     current = Some c \<and> (\<exists>p \<in> set allowed. authorized_party c = Some p)"
  by (auto simp: check_caller_def require_context_def bindE_eq_Inr ensure_caller_Inr
      split: option.splits)

lemma enforce_caller_Inr:
  "enforce_caller current configured allowed = Inr c \<longleftrightarrow>
     current = Some c \<and> (\<exists>p. authorized_party c = Some p \<and>
       p \<in> set (if allowed \<noteq> [] then allowed else (case configured of None \<Rightarrow> [] | Some ps \<Rightarrow> ps)))"
  by (auto simp: enforce_caller_def check_caller_Inr split: option.splits)

lemma check_role_Inr: "check_role current role = Inr c \<longleftrightarrow> current = Some c \<and> role \<in> roles c"
  by (auto simp: check_role_def require_context_def ensure_role_def has_role_def bindE_eq_Inr
      split: option.splits if_splits)

definition granted_roles ::
  "(json \<Rightarrow> string) \<Rightarrow> (string \<times> json) list \<Rightarrow> string \<Rightarrow> string set" where
  "granted_roles py_str payload client_id =
     {to_str py_str j | j access xs. map_of payload ''realm_access'' = Some (JObj access)
        \<and> map_of access ''roles'' = Some (JList xs) \<and> j \<in> set xs}
     \<union> {to_str py_str j | j resource access xs. map_of payload ''resource_access'' = Some (JObj resource)
        \<and> map_of resource client_id = Some (JObj access)
        \<and> map_of access ''roles'' = Some (JList xs) \<and> j \<in> set xs}"

lemma is_mapping_Some: "is_mapping x = Some kvs \<longleftrightarrow> x = Some (JObj kvs)"
  by (cases x rule: is_mapping.cases) auto

lemma is_list_Some: "is_list x = Some xs \<longleftrightarrow> x = Some (JList xs)"
  by (cases x rule: is_list.cases) auto

lemma set_roles_from_claims:
  "set (roles_from_claims py_str payload client_id) = granted_roles py_str payload client_id"
  unfolding roles_from_claims_def granted_roles_def role_items_def Let_def
  by (auto simp: is_mapping_Some is_list_Some is_mapping_Some [THEN trans [OF eq_commute]]
      is_list_Some [THEN trans [OF eq_commute]] split: option.splits)

lemma identity_from_claims_Inr:
  assumes "identity_from_claims py_str payload client_id = Inr i"
  shows "map_of payload ''sub'' = Some (JStr (sub i)) \<and> parse_uuid (sub i) \<noteq> None
    \<and> id_roles i = roles_from_claims py_str payload client_id
    \<and> (\<forall>a. azp i = Some a \<longleftrightarrow> map_of payload ''azp'' = Some (JStr a) \<and> a \<noteq> [])"
proof -
  from assms obtain s where s: "map_of payload ''sub'' = Some (JStr s)" "s \<noteq> []" "parse_uuid s \<noteq> None"
    by (auto simp: identity_from_claims_def split: option.splits json.splits if_splits)
  with assms show ?thesis
    by (auto simp: identity_from_claims_def split: option.splits json.splits if_splits)
qed

lemma context_from_claims:
  assumes "identity_from_claims py_str payload client_id = Inr i"
  shows "has_role (security_context_from_identity i) r \<longleftrightarrow> r \<in> granted_roles py_str payload client_id"
    and "\<exists>u. user_id (security_context_from_identity i) = Inr u"
    and "ensure_caller (security_context_from_identity i) allowed = Inr () \<longleftrightarrow>
       (\<exists>p \<in> set allowed. p \<noteq> [] \<and> map_of payload ''azp'' = Some (JStr p))"
  using identity_from_claims_Inr [OF assms]
  by (auto simp: has_role_def security_context_from_identity_def set_roles_from_claims user_id_def
      ensure_caller_Inr)

section \<open>Properties\<close>

text \<open>The context built from verified claims has exactly the realm and client roles of the claims,
  a UUID subject, and passes a caller check only for the nonempty \<open>azp\<close> of the claims.\<close>

theorem context_matches_claims:
  assumes "identity_from_claims py_str payload client_id = Inr i"
  shows "roles (security_context_from_identity i) = granted_roles py_str payload client_id
    \<and> (\<exists>u. user_id (security_context_from_identity i) = Inr u)
    \<and> (check_caller (Some (security_context_from_identity i)) allowed
         = Inr (security_context_from_identity i)
       \<longleftrightarrow> (\<exists>p \<in> set allowed. p \<noteq> [] \<and> map_of payload ''azp'' = Some (JStr p)))"
proof -
  have "roles (security_context_from_identity i) = granted_roles py_str payload client_id"
    using context_from_claims(1) [OF assms] by (auto simp: has_role_def)
  with context_from_claims(2) [OF assms] context_from_claims(3) [OF assms, of allowed] show ?thesis
    by (simp add: check_caller_Inr ensure_caller_Inr)
qed

theorem context_matches_claims_witness:
  "\<exists>i. identity_from_claims (\<lambda>_. []) [(''sub'', JStr ''00000000-0000-0000-0000-000000000001''),
        (''azp'', JStr ''ads-engine''),
        (''realm_access'', JObj [(''roles'', JList [JStr ''user''])])] ''ads'' = Inr i
     \<and> ''user'' \<in> roles (security_context_from_identity i)"
proof -
  let ?claims = "[(''sub'', JStr ''00000000-0000-0000-0000-000000000001''),
        (''azp'', JStr ''ads-engine''),
        (''realm_access'', JObj [(''roles'', JList [JStr ''user''])])]"
  obtain i where i: "identity_from_claims (\<lambda>_. []) ?claims ''ads'' = Inr i"
    by (simp add: eval_simps Let_def)
  have "''user'' \<in> granted_roles (\<lambda>_. []) ?claims ''ads''"
    by (simp add: granted_roles_def to_str_def)
  with context_matches_claims [OF i] i show ?thesis by auto
qed

end
