(* ===== verification/Policy_Store.thy ===== *)
theory Policy_Store
  imports Security
begin

text \<open>
  The configuration side of the egress process (\<open>ads_sandbox_egress/configuration.py\<close>): the
  atomic policy snapshot of \<open>PolicyStore\<close> and the IPC handlers of \<open>ConfigurationService\<close>.
  \<open>install\<close> and \<open>close\<close> hold the lock for their whole body and do not await inside it, so each is
  one transition. \<open>recode\<close> is msgspec's encode and decode, as in \<open>canonical_settings\<close>.
\<close>

record pair_identity =
  project_id :: nat
  sandbox_id :: nat
  ipc_service_subject :: nat
  health_timeout :: "int option" \<comment> \<open>milliseconds; \<open>None\<close> is a value that is not finite\<close>

definition pair_identity_post_init :: "pair_identity \<Rightarrow> error + pair_identity" where
  "pair_identity_post_init p =
     (case health_timeout p of
        None \<Rightarrow> Inl (ValueError ''health timeout must be finite and positive'')
      | Some t \<Rightarrow> if t \<le> 0 then Inl (ValueError ''health timeout must be finite and positive'')
                  else Inr p)"

section \<open>The store\<close>

record policy_store =
  instance_id :: nat
  store_snapshot :: "egress_snapshot option"
  accepting :: bool

definition new_store :: "nat \<Rightarrow> policy_store" where
  "new_store i = \<lparr>instance_id = i, store_snapshot = None, accepting = True\<rparr>"

definition capture :: "policy_store \<Rightarrow> egress_snapshot option" where
  "capture s = store_snapshot s"

record applied =
  applied_instance :: nat
  applied_revision :: nat

type_synonym recoder = "egress_settings \<Rightarrow> error + egress_settings"

definition canonical_snapshot :: "recoder \<Rightarrow> egress_snapshot \<Rightarrow> error + egress_snapshot" where
  "canonical_snapshot recode snap =
     bindE (recode (settings snap)) (\<lambda>st.
       bindE (canonical_settings recode st) (\<lambda>c. Inr \<lparr>revision = revision snap, settings = c\<rparr>))"

definition install ::
  "recoder \<Rightarrow> egress_snapshot \<Rightarrow> policy_store \<Rightarrow> (error + applied) \<times> policy_store" where
  "install recode snap s =
     (case canonical_snapshot recode snap of
        Inl e \<Rightarrow> (Inl e, s)
      | Inr canonical \<Rightarrow>
          if \<not> accepting s then (Inl ConfigurationUnavailable, s)
          else (case store_snapshot s of
                  None \<Rightarrow> (Inr \<lparr>applied_instance = instance_id s, applied_revision = revision canonical\<rparr>,
                           s\<lparr>store_snapshot := Some canonical\<rparr>)
                | Some previous \<Rightarrow>
                    if revision canonical < revision previous
                    then (Inl (StaleConfiguration (revision canonical) (revision previous)), s)
                    else if revision canonical = revision previous
                    then (if settings canonical \<noteq> settings previous then (Inl RevisionConflict, s)
                          else (Inr \<lparr>applied_instance = instance_id s,
                                     applied_revision = revision previous\<rparr>, s))
                    else (Inr \<lparr>applied_instance = instance_id s, applied_revision = revision canonical\<rparr>,
                          s\<lparr>store_snapshot := Some canonical\<rparr>)))"

definition close_store :: "policy_store \<Rightarrow> policy_store" where
  "close_store s = s\<lparr>accepting := False\<rparr>"

section \<open>The IPC handlers\<close>

definition apply_configuration ::
  "recoder \<Rightarrow> pair_identity \<Rightarrow> security_context option \<Rightarrow> nat \<Rightarrow> egress_snapshot \<Rightarrow> policy_store
   \<Rightarrow> (error + applied) \<times> policy_store" where
  "apply_configuration recode pair current body_project snap s =
     (case bindE (require_context current) (\<lambda>c.
             bindE (ensure_caller c [''ads-sandbox-ipc'']) (\<lambda>_.
               bindE (user_id c) (\<lambda>uid.
                 if uid \<noteq> ipc_service_subject pair
                 then Inl (AccessDenied ''expected IPC service identity'')
                 else if body_project \<noteq> project_id pair
                 then Inl (AccessDenied ''paired project mismatch'') else Inr ()))) of
        Inl e \<Rightarrow> (Inl e, s)
      | Inr _ \<Rightarrow> install recode snap s)"

text \<open>
  The health probe answers, fails or times out, or the ping itself is cancelled. The store may be
  closed while the probe runs: \<open>before\<close> and \<open>after\<close> are the store at the two reads.
\<close>

datatype probe = Answered bool | ProbeFailed | PingCancelled

record ping_result =
  ping_instance :: nat
  healthy :: bool

definition ping_configuration :: "policy_store \<Rightarrow> probe \<Rightarrow> policy_store \<Rightarrow> error + ping_result" where
  "ping_configuration before p after =
     (if \<not> accepting before
      then Inr \<lparr>ping_instance = instance_id after, healthy = False\<rparr>
      else (case p of
              PingCancelled \<Rightarrow> Inl (OtherError ''CancelledError'')
            | ProbeFailed \<Rightarrow> Inr \<lparr>ping_instance = instance_id after, healthy = False\<rparr>
            | Answered ok \<Rightarrow>
                Inr \<lparr>ping_instance = instance_id after, healthy = ok \<and> accepting after\<rparr>))"

lemmas [eval_simps] = pair_identity_post_init_def new_store_def capture_def canonical_snapshot_def
  install_def close_store_def apply_configuration_def ping_configuration_def

section \<open>The store as a transition system\<close>

datatype store_event =
    InstallEvent egress_snapshot "error + applied"
  | CloseEvent

inductive store_step :: "recoder \<Rightarrow> policy_store \<Rightarrow> store_event \<Rightarrow> policy_store \<Rightarrow> bool"
  for recode where
  step_install: "install recode snap s = (r, t) \<Longrightarrow> store_step recode s (InstallEvent snap r) t"
| step_close: "store_step recode s CloseEvent (close_store s)"

inductive_cases store_stepE: "store_step recode s e t"

lemma install_cases:
  assumes "install recode snap s = (r, t)"
  obtains (unchanged) "t = s" "\<And>a. r = Inr a \<Longrightarrow> \<exists>p. store_snapshot s = Some p
      \<and> canonical_snapshot recode snap = Inr p
      \<and> a = \<lparr>applied_instance = instance_id s, applied_revision = revision p\<rparr>"
  | (replaced) c where "canonical_snapshot recode snap = Inr c" "accepting s"
      "\<And>p. store_snapshot s = Some p \<Longrightarrow> revision p < revision c"
      "t = s\<lparr>store_snapshot := Some c\<rparr>"
      "r = Inr \<lparr>applied_instance = instance_id s, applied_revision = revision c\<rparr>"
proof (cases "canonical_snapshot recode snap")
  case (Inl e)
  with assms have "t = s" "r = Inl e" by (simp_all add: install_def)
  then show ?thesis using unchanged by simp
next
  case (Inr c)
  show ?thesis
  proof (cases "store_snapshot s")
    case None
    then show ?thesis using assms Inr unchanged replaced [of c]
      by (auto simp: install_def split: if_splits)
  next
    case (Some p)
    consider "\<not> accepting s" | "accepting s" "revision c < revision p"
      | "accepting s" "revision c = revision p" | "accepting s" "revision p < revision c"
      by linarith
    then show ?thesis
    proof cases
      case 1
      with assms Inr have "t = s" "r = Inl ConfigurationUnavailable" by (simp_all add: install_def)
      then show ?thesis using unchanged by simp
    next
      case 2
      with assms Inr Some have "t = s" "\<exists>e. r = Inl e" by (auto simp: install_def)
      then show ?thesis using unchanged by auto
    next
      case 3
      show ?thesis
      proof (cases "settings c = settings p")
        case True
        with 3 have "c = p" by (intro egress_snapshot.equality) simp_all
        with assms Inr Some 3 have "t = s"
          "r = Inr \<lparr>applied_instance = instance_id s, applied_revision = revision p\<rparr>"
          by (auto simp: install_def)
        then show ?thesis using unchanged Inr Some \<open>c = p\<close> by simp
      next
        case False
        with assms Inr Some 3 have "t = s" "r = Inl RevisionConflict" by (simp_all add: install_def)
        then show ?thesis using unchanged by simp
      qed
    next
      case 4
      with assms Inr Some have "t = s\<lparr>store_snapshot := Some c\<rparr>"
        "r = Inr \<lparr>applied_instance = instance_id s, applied_revision = revision c\<rparr>"
        by (simp_all add: install_def)
      then show ?thesis using replaced [of c] Inr Some 4 by simp
    qed
  qed
qed

text \<open>
  \<open>store_le s t\<close>: everything an observer of \<open>s\<close> may still rely on in \<open>t\<close>. The process is the same,
  the revision has not gone back, one revision never names two policies, and a closed store is
  frozen.
\<close>

definition store_le :: "policy_store \<Rightarrow> policy_store \<Rightarrow> bool" where
  "store_le s t \<longleftrightarrow>
     instance_id t = instance_id s
     \<and> (\<forall>p. store_snapshot s = Some p \<longrightarrow>
          (\<exists>q. store_snapshot t = Some q \<and> revision p \<le> revision q
             \<and> (revision p = revision q \<longrightarrow> p = q)))
     \<and> (\<not> accepting s \<longrightarrow> t = s)"

lemma store_le_refl [simp]: "store_le s s"
  by (simp add: store_le_def)

lemma store_le_trans:
  assumes "store_le s t" "store_le t u"
  shows "store_le s u"
proof -
  have "\<exists>q. store_snapshot u = Some q \<and> revision p \<le> revision q \<and> (revision p = revision q \<longrightarrow> p = q)"
    if p: "store_snapshot s = Some p" for p
  proof -
    from assms(1) p obtain q where q: "store_snapshot t = Some q" "revision p \<le> revision q"
      "revision p = revision q \<longrightarrow> p = q" by (auto simp: store_le_def)
    from assms(2) q(1) obtain r where "store_snapshot u = Some r" "revision q \<le> revision r"
      "revision q = revision r \<longrightarrow> q = r" by (auto simp: store_le_def)
    with q show ?thesis by (metis le_antisym le_trans)
  qed
  with assms show ?thesis unfolding store_le_def by metis
qed

lemma store_step_le: "store_step recode s e t \<Longrightarrow> store_le s t"
proof (erule store_stepE)
  fix snap r
  assume "install recode snap s = (r, t)"
  then show "store_le s t"
    by (cases rule: install_cases) (auto simp: store_le_def less_imp_le)
next
  assume "t = close_store s"
  then show "store_le s t" by (auto simp: store_le_def close_store_def)
qed

text \<open>Every policy in force is canonical: it came out of \<open>canonical_snapshot\<close>.\<close>

definition store_ok :: "recoder \<Rightarrow> policy_store \<Rightarrow> bool" where
  "store_ok recode s \<longleftrightarrow>
     (\<forall>p. store_snapshot s = Some p \<longrightarrow> (\<exists>snap. canonical_snapshot recode snap = Inr p))"

lemma store_step_ok: "store_ok recode s \<Longrightarrow> store_step recode s e t \<Longrightarrow> store_ok recode t"
  by (erule store_stepE, erule install_cases) (auto simp: store_ok_def close_store_def)

interpretation policy_store: invariant_system "\<lambda>s. s = new_store i" "store_step recode" "store_ok recode"
  for i recode
proof unfold_locales
  show "store_ok recode s" if "s = new_store i" for s
    using that by (simp add: store_ok_def new_store_def)
qed (rule store_step_ok)

interpretation policy_history: invariant_system "\<lambda>s. s = s0" "store_step recode" "store_le s0"
  for s0 recode
  by unfold_locales (auto intro: store_le_trans store_step_le)

lemma apply_configuration_Inr:
  assumes "apply_configuration recode pair current body_project snap s = (Inr a, t)"
  shows "\<exists>c. current = Some c \<and> authorized_party c = Some ''ads-sandbox-ipc''
     \<and> user_id c = Inr (ipc_service_subject pair) \<and> body_project = project_id pair
     \<and> install recode snap s = (Inr a, t)"
proof (cases current)
  case None
  with assms show ?thesis by (simp add: apply_configuration_def require_context_def)
next
  case (Some c)
  show ?thesis
  proof (cases "user_id c")
    case (Inl e)
    with assms Some show ?thesis
      by (cases "ensure_caller c [''ads-sandbox-ipc'']")
        (simp_all add: apply_configuration_def require_context_def)
  next
    case (Inr uid)
    with assms Some show ?thesis
      by (cases "ensure_caller c [''ads-sandbox-ipc'']")
        (auto simp: apply_configuration_def require_context_def ensure_caller_Inr split: if_splits)
  qed
qed

lemma apply_configuration_denied:
  assumes "apply_configuration recode pair current body_project snap s = (Inl e, t)"
  shows "t = s"
proof -
  have "install recode snap s = (Inl e, t) \<Longrightarrow> t = s"
    by (erule install_cases) auto
  with assms show ?thesis
    by (auto simp: apply_configuration_def split: sum.splits)
qed

lemma ping_healthy:
  "ping_configuration before p after = Inr r \<Longrightarrow> healthy r \<Longrightarrow>
   accepting before \<and> accepting after \<and> p = Answered True"
  by (cases p) (auto simp: ping_configuration_def split: if_splits)

section \<open>Properties\<close>

text \<open>Over any sequence of installs and closes the store keeps its instance, its revision never
  goes back, one revision never names two different policies, and a closed store never changes.\<close>

theorem policy_history_monotone:
  assumes "reachable (\<lambda>s. s = s0) (store_step recode) t"
  shows "instance_id t = instance_id s0
    \<and> (\<forall>p. store_snapshot s0 = Some p \<longrightarrow>
         (\<exists>q. store_snapshot t = Some q \<and> revision p \<le> revision q \<and> (revision p = revision q \<longrightarrow> p = q)))
    \<and> (\<not> accepting s0 \<longrightarrow> t = s0)"
  using policy_history.reachable_inv [OF assms] by (simp add: store_le_def)

theorem policy_history_monotone_witness:
  "\<exists>t. reachable (\<lambda>s. s = new_store 3) (store_step Inr) t \<and> accepting t = False \<and> instance_id t = 3"
proof -
  let ?s = "new_store 3"
  let ?snap = "\<lparr>revision = 1, settings = \<lparr>rules = [], mode = Blacklist\<rparr>\<rparr>"
  have inst: "install Inr ?snap ?s = (Inr \<lparr>applied_instance = 3, applied_revision = 1\<rparr>, ?s\<lparr>store_snapshot := Some ?snap\<rparr>)"
    by (simp add: eval_simps canonical_settings_def)
  have "reachable (\<lambda>s. s = ?s) (store_step Inr) ?s" by (rule reachable_start) simp
  from reachable_step [OF this step_install [OF inst]] have r: "reachable (\<lambda>s. s = ?s) (store_step Inr) (close_store (?s\<lparr>store_snapshot := Some ?snap\<rparr>))"
    by (rule reachable_step) (rule step_close)
  from policy_history_monotone [OF r] r show ?thesis
    by (intro exI [of _ "close_store (?s\<lparr>store_snapshot := Some ?snap\<rparr>)"])
      (simp add: close_store_def new_store_def)
qed

text \<open>A configuration is applied only for the paired project, on behalf of the paired IPC service
  identity and its client; a refused call leaves the store unchanged.\<close>

theorem apply_authorized:
  assumes "apply_configuration recode pair current body_project snap s = (r, t)"
  shows "case r of
      Inl e \<Rightarrow> t = s
    | Inr a \<Rightarrow> body_project = project_id pair \<and> install recode snap s = (Inr a, t)
        \<and> (\<exists>c. current = Some c \<and> authorized_party c = Some ''ads-sandbox-ipc''
             \<and> user_id c = Inr (ipc_service_subject pair))"
proof (cases r)
  case (Inl e)
  with apply_configuration_denied assms show ?thesis by simp
next
  case (Inr a)
  with apply_configuration_Inr assms show ?thesis by fastforce
qed

theorem apply_authorized_witness:
  "\<exists>t. apply_configuration Inr \<lparr>project_id = 5, sandbox_id = 6, ipc_service_subject = 1, health_timeout = Some 2000\<rparr>
      (Some \<lparr>subject = ''00000000000000000000000000000001'', sc_name = ''n'', roles = {}, email = None,
        authorized_party = Some ''ads-sandbox-ipc''\<rparr>) 9
      \<lparr>revision = 1, settings = \<lparr>rules = [], mode = Blacklist\<rparr>\<rparr> (new_store 3)
      = (Inl (AccessDenied ''paired project mismatch''), t) \<and> t = new_store 3"
proof -
  have a: "apply_configuration Inr \<lparr>project_id = 5, sandbox_id = 6, ipc_service_subject = 1, health_timeout = Some 2000\<rparr>
      (Some \<lparr>subject = ''00000000000000000000000000000001'', sc_name = ''n'', roles = {}, email = None,
        authorized_party = Some ''ads-sandbox-ipc''\<rparr>) 9
      \<lparr>revision = 1, settings = \<lparr>rules = [], mode = Blacklist\<rparr>\<rparr> (new_store 3)
      = (Inl (AccessDenied ''paired project mismatch''), new_store 3)"
    by (simp add: eval_simps Let_def)
  from apply_authorized [OF a] a show ?thesis by simp
qed

end
