(* ===== verification/Normalization.thy ===== *)
theory Normalization
  imports Framing Base64
begin

text \<open>
  The exchange with the local NGINX helper of \<open>ads_sandbox_egress/normalization.py\<close>: the request
  that is written and the interpretation of the response. The helper itself and the socket are
  the environment: the response arrives as the list of header blocks that were read, and reading
  past its end is the unavailability of the helper.
\<close>

definition printable_target :: "bytes \<Rightarrow> bool" where
  "printable_target t \<longleftrightarrow> t \<noteq> [] \<and> length t \<le> 8192 \<and> list_all (\<lambda>c. 32 < code c \<and> code c \<noteq> 127) t"

definition render_headers :: "headers \<Rightarrow> bytes" where
  "render_headers hs = concat (map (\<lambda>(n, v). n @ '': '' @ v @ [CR, LF]) hs)"

definition normalize_request :: "bytes \<Rightarrow> bytes \<Rightarrow> headers \<Rightarrow> error + bytes" where
  "normalize_request meth target hs =
     (if \<not> token meth \<or> \<not> printable_target target
      then Inl (RequestDenied ''invalid_normalization_request'')
      else bindE (validate_headers False hs) (\<lambda>hs.
        if list_ex (\<lambda>nv. prefix '':'' (fst nv)) hs
        then Inl (RequestDenied ''normalizer_requires_protocol_adapter'')
        else
          let hosts = header_values ''host'' hs in
          if length hosts > 1 then Inl (RequestDenied ''normalization_multiple_hosts'')
          else
            let bare = (hosts = [] \<or> hosts = [[]]);
                version = (if bare then ''1.0'' else ''1.1'');
                hs = (if bare then filter (\<lambda>nv. fst nv \<notin> {''host'', ''transfer-encoding''}) hs else hs);
                request = meth @ '' '' @ target @ '' HTTP/'' @ version @ [CR, LF]
                            @ render_headers hs @ [CR, LF]
            in if length request > 65536 then Inl (RequestDenied ''normalization_header_limit'')
               else Inr request))"

text \<open>The status line pattern \<open>HTTP/1[.][01] [0-9]{3}(?: [^\r\n]*)?\<close> and its status code.\<close>

definition status_line :: "bytes \<Rightarrow> nat option" where
  "status_line s =
     (if length s \<ge> 12 \<and> take 7 s = ''HTTP/1.'' \<and> s ! 7 \<in> {CHR ''0'', CHR ''1''} \<and> s ! 8 = CHR '' ''
         \<and> list_all is_digit (take 3 (drop 9 s))
         \<and> (length s = 12 \<or> (s ! 12 = CHR '' '' \<and> CR \<notin> set (drop 13 s) \<and> LF \<notin> set (drop 13 s)))
      then Some (dec_value (take 3 (drop 9 s))) else None)"

definition normalized_field :: "headers \<Rightarrow> error + bytes" where
  "normalized_field result =
     (case header_values ''x-ads-normalized-path'' result of
        [v] \<Rightarrow>
          if length v > 10924 then Inl (RequestDenied ''invalid_normalization_result'')
          else if list_ex (\<lambda>(n, v). n = ''transfer-encoding'' \<or> (n = ''content-length'' \<and> v \<noteq> ''0'')) result
          then Inl (RequestDenied ''normalization_response_body'')
          else (case b64_decode v of
                  None \<Rightarrow> Inl (RequestDenied ''normalization_unavailable'')
                | Some path \<Rightarrow>
                    if b64_encode path \<noteq> v \<or> \<not> prefix ''/'' path \<or> length path > 8192
                       \<or> CHR 0x00 \<in> set path
                    then Inl (RequestDenied ''invalid_normalization_result'')
                    else Inr path)
      | _ \<Rightarrow> Inl (RequestDenied ''invalid_normalization_result''))"

text \<open>The response loop: at most four interim responses, then the 204 with the path.\<close>

fun normalize_response :: "nat \<Rightarrow> bytes list \<Rightarrow> error + bytes" where
  "normalize_response informational [] = Inl (RequestDenied ''normalization_unavailable'')"
| "normalize_response informational (block # blocks) =
     bindE (raw_http1_headers block) (\<lambda>(start, result).
       case status_line start of
         None \<Rightarrow> Inl (RequestDenied ''invalid_normalization_response'')
       | Some status \<Rightarrow>
           if 100 \<le> status \<and> status < 200 \<and> status \<noteq> 101
           then if Suc informational > 4 then Inl (RequestDenied ''normalization_interim_limit'')
                else normalize_response (Suc informational) blocks
           else if status \<noteq> 204 then Inl (RequestDenied ''normalization_rejected'')
           else normalized_field result)"

text \<open>\<open>helper\<close> maps the request to the header blocks that the socket delivers.\<close>

definition normalize :: "(bytes \<Rightarrow> bytes list) \<Rightarrow> bytes \<Rightarrow> bytes \<Rightarrow> headers \<Rightarrow> error + bytes" where
  "normalize helper meth target hs =
     bindE (normalize_request meth target hs) (\<lambda>request. normalize_response 0 (helper request))"

lemmas [eval_simps] = printable_target_def render_headers_def normalize_request_def status_line_def
  normalized_field_def normalize_def

definition clean_path :: "bytes \<Rightarrow> bool" where
  "clean_path p \<longleftrightarrow> prefix ''/'' p \<and> length p \<le> 8192 \<and> CHR 0x00 \<notin> set p"

lemma normalized_field_clean:
  assumes "normalized_field result = Inr p"
  shows "clean_path p"
proof -
  from assms obtain v where "header_values ''x-ads-normalized-path'' result = [v]"
    by (auto simp: normalized_field_def split: list.splits)
  with assms obtain q where "b64_decode v = Some q"
    by (auto simp: normalized_field_def split: if_splits option.splits)
  with \<open>header_values _ _ = [v]\<close> assms show ?thesis
    by (simp add: normalized_field_def clean_path_def split: if_splits)
qed

text \<open>One step of the loop: either the answer is final or an interim response was skipped.\<close>

lemma normalize_response_Inr_Cons:
  assumes "normalize_response k (b # bs) = Inr p"
  shows "clean_path p \<and> (\<forall>cs. normalize_response k (b # cs) = Inr p) \<or>
         k < 4 \<and> normalize_response (Suc k) bs = Inr p \<and>
         (\<forall>cs. normalize_response k (b # cs) = normalize_response (Suc k) cs)"
proof -
  from assms obtain start result where raw: "raw_http1_headers b = Inr (start, result)"
    by (auto simp: result_simps)
  with assms obtain status where status: "status_line start = Some status"
    by (auto split: option.splits)
  show ?thesis
  proof (cases "100 \<le> status \<and> status < 200 \<and> status \<noteq> 101")
    case True
    with assms raw status show ?thesis by (auto split: if_splits)
  next
    case False
    with assms raw status have "status = 204" "normalized_field result = Inr p"
      by (auto split: if_splits)
    with raw status False show ?thesis by (auto dest: normalized_field_clean)
  qed
qed

lemma normalize_response_clean: "normalize_response k blocks = Inr p \<Longrightarrow> clean_path p"
proof (induction blocks arbitrary: k)
  case (Cons b bs)
  from normalize_response_Inr_Cons [OF Cons.prems] Cons.IH show ?case by blast
qed simp

text \<open>At most five blocks are ever read.\<close>

lemma normalize_response_bound:
  "normalize_response k (bs @ cs) = Inr p \<Longrightarrow> 5 \<le> k + length bs \<Longrightarrow> k \<le> 4 \<Longrightarrow>
   normalize_response k bs = Inr p"
proof (induction bs arbitrary: k)
  case (Cons b bs)
  from normalize_response_Inr_Cons [of k b "bs @ cs"] Cons.prems(1)
  consider (final) "\<forall>cs. normalize_response k (b # cs) = Inr p"
    | (interim) "k < 4" "normalize_response (Suc k) (bs @ cs) = Inr p"
        "\<forall>cs. normalize_response k (b # cs) = normalize_response (Suc k) cs"
    by (metis append_Cons)
  then show ?case
  proof cases
    case final
    then show ?thesis by simp
  next
    case interim
    then show ?thesis using Cons.IH [of "Suc k"] Cons.prems(2) by (metis Suc_leI add_Suc_shift length_Cons)
  qed
qed simp

lemma normalize_clean: "normalize helper meth target hs = Inr p \<Longrightarrow> clean_path p"
  by (auto simp: normalize_def result_simps dest: normalize_response_clean)

lemma normalize_five_blocks:
  "normalize helper meth target hs = Inr p \<Longrightarrow>
   normalize (take 5 \<circ> helper) meth target hs = Inr p"
  by (auto simp: normalize_def result_simps)
     (metis (no_types, lifting) append_take_drop_id length_take linorder_linear min.absorb2 
        normalize_response_bound take_all add.left_neutral le0)

section \<open>Properties\<close>

text \<open>Whatever the helper sends, a normalized path is absolute, at most 8192 bytes and without NUL,
  and it is decided by the first five header blocks: at most four interim responses are read.\<close>

theorem normalized_path_clean:
  assumes "normalize helper meth target hs = Inr p"
  shows "prefix ''/'' p \<and> length p \<le> 8192 \<and> CHR 0x00 \<notin> set p
    \<and> normalize (take 5 \<circ> helper) meth target hs = Inr p"
  using normalize_clean [OF assms] normalize_five_blocks [OF assms] by (simp add: clean_path_def)

theorem normalized_path_clean_witness:
  "\<exists>p. normalize (\<lambda>_. [''HTTP/1.1 204 No Content'' @ [CR, LF] @ ''X-ADS-Normalized-Path: L2E='' @ [CR, LF, CR, LF]])
        ''GET'' ''/x/../a'' [(''Host'', ''h'')] = Inr p \<and> p = ''/a'' \<and> length p \<le> 8192"
proof -
  have n: "normalize (\<lambda>_. [''HTTP/1.1 204 No Content'' @ [CR, LF] @ ''X-ADS-Normalized-Path: L2E='' @ [CR, LF, CR, LF]])
        ''GET'' ''/x/../a'' [(''Host'', ''h'')] = Inr ''/a''"
    by (simp add: eval_simps Let_def suffix_to_prefix)
  from normalized_path_clean [OF n] n show ?thesis by blast
qed

end
