(* ===== verification/Authorization.thy ===== *)
theory Authorization
  imports Membership Policy_Store Normalization
begin

text \<open>
  Request identity and the authorization decision (\<open>ads_sandbox_egress/request_authorization.py\<close>).
  A request line parsed by h11 is a record of its parts. \<open>authorize\<close> takes the normalizer and
  the membership test as functions, and the policy store at the moment of the decision, after
  both awaits; the locale \<open>request_evidence\<close> states what the decision may rely on.
\<close>

section \<open>Connection and request heads\<close>

record connection_target =
  ct_address :: ip_address
  ct_port :: int
  secure :: bool
  tls_name :: "string option"

definition connection_target_post_init :: "connection_target \<Rightarrow> error + connection_target" where
  "connection_target_post_init t =
     (if \<not> (1 \<le> ct_port t \<and> ct_port t \<le> 65535)
      then Inl (ValueError ''immutable original destination and TLS identity required'')
      else (case tls_name t of
              None \<Rightarrow> Inr t
            | Some n \<Rightarrow>
                if \<not> secure t
                then Inl (ValueError ''immutable original destination and TLS identity required'')
                else bindE (canonical_host n) (\<lambda>c.
                  if c \<noteq> n
                  then Inl (ValueError ''immutable original destination and TLS identity required'')
                  else Inr t)))"

definition protocol :: "connection_target \<Rightarrow> string" where
  "protocol t = (if secure t then ''https'' else ''http'')"

definition default_port :: "connection_target \<Rightarrow> nat" where
  "default_port t = (if secure t then 443 else 80)"

definition request_authority :: "bytes \<Rightarrow> connection_target \<Rightarrow> error + authority_t option" where
  "request_authority v t =
     (if \<not> list_all is_ascii v then Inl (RequestDenied ''non_ascii_authority'')
      else authority v (default_port t))"

record request_head =
  rh_method :: bytes
  rh_target :: bytes
  rh_headers :: headers
  rh_authorities :: "authority_t option list"
  rh_sub_protocol :: string
  rh_upgrade :: "string option"

record h11_request =
  h11_method :: bytes
  h11_target :: bytes
  h11_headers :: headers
  h11_version :: bytes

text \<open>
  \<open>(https?)://([^/?#]*)([^#]*)\<close> against the whole target: the scheme and the authority part.
\<close>

definition split_absolute :: "bytes \<Rightarrow> bytes \<Rightarrow> (bytes \<times> bytes) option" where
  "split_absolute scheme t =
     (if prefix (scheme @ ''://'') t \<and> CHR ''#'' \<notin> set (drop (length scheme + 3) t)
      then Some (scheme, takeWhile (\<lambda>c. c \<notin> {CHR ''/'', CHR ''?'', CHR ''#''})
                   (drop (length scheme + 3) t))
      else None)"

definition absolute_target :: "bytes \<Rightarrow> (bytes \<times> bytes) option" where
  "absolute_target t =
     (case split_absolute ''http'' t of Some r \<Rightarrow> Some r | None \<Rightarrow> split_absolute ''https'' t)"

definition bad_target_char :: "char \<Rightarrow> bool" where
  "bad_target_char c \<longleftrightarrow> code c \<le> 32 \<or> code c = 127"

text \<open>The upgrade an HTTP/1.1 request asks for.\<close>

definition http1_upgrade :: "headers \<Rightarrow> bool \<Rightarrow> error + string option" where
  "http1_upgrade hs is_secure =
     (let tokens = concat (map connection_tokens (header_values ''connection'' hs));
          upgrades = map lower (header_values ''upgrade'' hs);
          settings = header_values ''http2-settings'' hs
      in if upgrades \<noteq> [] \<or> ''upgrade'' \<in> set tokens
         then if length upgrades \<noteq> 1 \<or> ''upgrade'' \<notin> set tokens
              then Inl (RequestDenied ''invalid_upgrade'')
              else if hd upgrades = ''websocket'' \<and> settings = [] then Inr (Some ''websocket'')
              else if hd upgrades = ''h2c'' \<and> length settings = 1
                      \<and> ''http2-settings'' \<in> set tokens \<and> \<not> is_secure
              then Inr (Some ''http/2'')
              else Inl (RequestDenied ''unsupported_upgrade'')
         else if settings \<noteq> [] then Inl (RequestDenied ''unexpected_upgrade_settings'')
         else Inr None)"

text \<open>The authority of an absolute target, appended to that of the Host field.\<close>

definition http1_target_authority ::
  "h11_request \<Rightarrow> connection_target \<Rightarrow> error + authority_t option list" where
  "http1_target_authority r t =
     (let target = h11_target r in
      if target = ''*'' \<and> h11_method r = ''OPTIONS'' then Inr []
      else if \<not> prefix ''/'' target
      then (case absolute_target target of
              None \<Rightarrow> Inl (RequestDenied ''unsupported_request_target'')
            | Some (scheme, auth) \<Rightarrow>
                if scheme \<noteq> protocol t then Inl (RequestDenied ''unsupported_request_target'')
                else bindE (request_authority auth t) (\<lambda>a. Inr [a]))
      else if CHR ''#'' \<in> set target then Inl (RequestDenied ''fragment_in_request_target'')
      else Inr [])"

definition http1_head :: "h11_request \<Rightarrow> connection_target \<Rightarrow> error + request_head" where
  "http1_head r t =
     bindE (validate_headers False (h11_headers r)) (\<lambda>hs.
       let hosts = header_values ''host'' hs; target = h11_target r in
       if h11_version r \<noteq> ''1.1'' \<or> length hosts \<noteq> 1 \<or> \<not> token (h11_method r)
       then Inl (RequestDenied ''http1_request_profile'')
       else bindE (request_authority (hd hosts) t) (\<lambda>a.
         if target = [] \<or> length target > 8192 \<or> list_ex bad_target_char target
         then Inl (RequestDenied ''invalid_request_target'')
         else if h11_method r = ''CONNECT'' then Inl (RequestDenied ''generic_connect'')
         else bindE (http1_target_authority r t) (\<lambda>more.
           bindE (forwarding_headers hs) (\<lambda>_.
             bindE (http1_upgrade hs (secure t)) (\<lambda>up.
               Inr \<lparr>rh_method = h11_method r, rh_target = target, rh_headers = hs,
                    rh_authorities = a # more, rh_sub_protocol = ''http/1.1'',
                    rh_upgrade = up\<rparr>)))))"

text \<open>The pseudo-header dictionary: a later field replaces an earlier one of the same name.\<close>

definition pseudo :: "headers \<Rightarrow> bytes \<Rightarrow> bytes option" where
  "pseudo hs n = map_of (rev (filter (\<lambda>nv. prefix '':'' (fst nv)) hs)) n"

definition pseudo_keys :: "headers \<Rightarrow> bytes set" where
  "pseudo_keys hs = fst ` set (filter (\<lambda>nv. prefix '':'' (fst nv)) hs)"

definition http2_identity_ok :: "headers \<Rightarrow> connection_target \<Rightarrow> bool" where
  "http2_identity_ok hs t \<longleftrightarrow>
     (case (pseudo hs '':method'', pseudo hs '':scheme'', pseudo hs '':path'') of
        (Some m, Some scheme, Some path) \<Rightarrow>
          pseudo_keys hs \<subseteq> {'':method'', '':scheme'', '':path'', '':authority'', '':protocol''}
          \<and> token m \<and> scheme = protocol t
          \<and> (prefix ''/'' path \<or> (path = ''*'' \<and> m = ''OPTIONS''))
          \<and> length path \<le> 8192 \<and> CHR ''#'' \<notin> set path \<and> \<not> list_ex bad_target_char path
          \<and> length (header_values ''host'' hs) \<le> 1
      | _ \<Rightarrow> False)"

definition http2_upgrade :: "headers \<Rightarrow> bytes \<Rightarrow> error + string option" where
  "http2_upgrade hs m =
     (if m = ''CONNECT''
      then if pseudo hs '':protocol'' \<noteq> Some ''websocket''
              \<or> pseudo hs '':authority'' = None \<or> pseudo hs '':authority'' = Some []
           then Inl (RequestDenied ''generic_connect'') else Inr (Some ''websocket'')
      else if pseudo hs '':protocol'' \<noteq> None then Inl (RequestDenied ''unexpected_protocol'')
      else Inr None)"

definition http2_head :: "headers \<Rightarrow> connection_target \<Rightarrow> error + request_head" where
  "http2_head vals t =
     bindE (validate_headers True vals) (\<lambda>hs.
       if \<not> http2_identity_ok hs t then Inl (RequestDenied ''http2_request_identity'')
       else let m = the (pseudo hs '':method''); path = the (pseudo hs '':path'') in
         bindE (http2_upgrade hs m) (\<lambda>up.
           bindE (mapE (\<lambda>nv. request_authority (snd nv) t)
                    (filter (\<lambda>nv. fst nv \<in> {'':authority'', ''host''}) hs)) (\<lambda>as.
             Inr \<lparr>rh_method = m, rh_target = path, rh_headers = hs, rh_authorities = as,
                  rh_sub_protocol = ''http/2'', rh_upgrade = up\<rparr>)))"

definition normalization_headers :: "request_head \<Rightarrow> headers" where
  "normalization_headers h =
     (if rh_sub_protocol h = ''http/1.1'' then rh_headers h
      else
        let regular = filter (\<lambda>nv. \<not> prefix '':'' (fst nv)) (rh_headers h) in
        if \<not> list_ex (\<lambda>nv. fst nv = ''host'') regular
        then (''host'', (case header_values '':authority'' (rh_headers h) of [] \<Rightarrow> [] | v # _ \<Rightarrow> v)) # regular
        else regular)"

definition normalization_method :: "request_head \<Rightarrow> bytes" where
  "normalization_method h =
     (if rh_sub_protocol h = ''http/2'' \<and> rh_upgrade h = Some ''websocket'' \<and> rh_method h = ''CONNECT''
      then ''GET'' else rh_method h)"

section \<open>The decision\<close>

record authorized_request =
  ar_head :: request_head
  policy_revision :: nat
  ar_normalized_path :: "bytes option"

type_synonym normalizer = "bytes \<Rightarrow> bytes \<Rightarrow> headers \<Rightarrow> error + bytes"
type_synonym member_test = "string \<Rightarrow> ip_address \<Rightarrow> nat \<Rightarrow> nat \<Rightarrow> string \<Rightarrow> error + unit"

text \<open>
  The identity part: the names, the port the authority gives, and the name that still needs
  evidence (\<open>None\<close> for an address literal or a nameless request).
\<close>

definition selected_port :: "connection_target \<Rightarrow> request_head \<Rightarrow> nat" where
  "selected_port t h =
     (case (if rh_authorities h \<noteq> [] then hd (rh_authorities h) else None) of
        Some a \<Rightarrow> port a | None \<Rightarrow> default_port t)"

definition resolve_identity ::
  "connection_target \<Rightarrow> request_head \<Rightarrow> error + (string list \<times> nat \<times> string option)" where
  "resolve_identity t h =
     bindE (consistent_identity (rh_authorities h) (tls_name t)) (\<lambda>nms.
       let authority_port = selected_port t h in
       case nms of
            name # _ \<Rightarrow>
              (case parse_ip name of
                 None \<Rightarrow> Inr (nms, authority_port, Some name)
               | Some literal \<Rightarrow>
                   if literal \<noteq> ct_address t \<or> int authority_port \<noteq> ct_port t
                   then Inl (RequestDenied ''literal_destination_mismatch'')
                   else Inr (nms, authority_port, None))
          | [] \<Rightarrow>
              if int authority_port \<noteq> ct_port t
              then Inl (RequestDenied ''unnamed_destination_port'')
              else Inr (nms, authority_port, None))"

definition decide ::
  "connection_target \<Rightarrow> request_head \<Rightarrow> string list \<Rightarrow> bytes option \<Rightarrow> policy_store
   \<Rightarrow> error + authorized_request" where
  "decide t h nms normalized store =
     (if \<not> accepting store then Inl (RequestDenied ''request_policy'')
      else if \<not> list_all is_ascii (rh_method h) then Inl (ValueError ''ordinal not in range(128)'')
      else bindE (permitted (capture store)
             \<lparr>names = nms, req_port = ct_port t, req_protocol = protocol t,
              req_sub_protocol = rh_sub_protocol h, req_method = rh_method h,
              normalized_path = normalized, upgrade = rh_upgrade h\<rparr>) (\<lambda>ok.
        case capture store of
          Some snapshot \<Rightarrow>
            if \<not> ok then Inl (RequestDenied ''request_policy'')
            else Inr \<lparr>ar_head = h, policy_revision = revision snapshot, ar_normalized_path = normalized\<rparr>
        | None \<Rightarrow> Inl (RequestDenied ''request_policy'')))"

definition authorize ::
  "destination_boundary \<Rightarrow> normalizer \<Rightarrow> member_test \<Rightarrow> policy_store \<Rightarrow> connection_target
   \<Rightarrow> request_head \<Rightarrow> error + authorized_request" where
  "authorize b normalizer member store t h =
     bindE (require_public b (ip_str (ct_address t)) False) (\<lambda>_.
       bindE (resolve_identity t h) (\<lambda>(nms, authority_port, membership_name).
         bindE (if rh_target h = ''*'' \<and> rh_method h = ''OPTIONS'' then Inr None
                else bindE (normalizer (normalization_method h) (rh_target h) (normalization_headers h))
                       (\<lambda>p. Inr (Some p))) (\<lambda>normalized.
           bindE (case membership_name of
                    None \<Rightarrow> Inr ()
                  | Some name \<Rightarrow>
                      member name (ct_address t) (nat (ct_port t)) authority_port (protocol t)) (\<lambda>_.
             decide t h nms normalized store))))"

lemmas [eval_simps] = connection_target_post_init_def protocol_def default_port_def
  request_authority_def split_absolute_def absolute_target_def bad_target_char_def http1_upgrade_def
  http1_target_authority_def http1_head_def pseudo_def pseudo_keys_def http2_identity_ok_def
  http2_upgrade_def http2_head_def normalization_headers_def normalization_method_def
  selected_port_def resolve_identity_def decide_def authorize_def connection_tokens_def

section \<open>Identity\<close>


lemma request_authority_port:
  "request_authority v t = Inr (Some a) \<Longrightarrow>
   1 \<le> port a \<and> port a \<le> 65535 \<and> (\<exists>h. canonical_host h = Inr (host a))"
  by (auto simp: request_authority_def authority_def bindE_eq_Inr split: if_splits)



section \<open>The decision\<close>












section \<open>What the parsed heads guarantee\<close>

definition head_ok :: "connection_target \<Rightarrow> request_head \<Rightarrow> bool" where
  "head_ok t h \<longleftrightarrow> token (rh_method h) \<and> rh_target h \<noteq> [] \<and> length (rh_target h) \<le> 8192
     \<and> \<not> list_ex bad_target_char (rh_target h)
     \<and> rh_upgrade h \<in> {None, Some ''websocket'', Some ''http/2''}
     \<and> (rh_upgrade h = Some ''http/2'' \<longrightarrow> rh_sub_protocol h = ''http/1.1'' \<and> \<not> secure t)
     \<and> (rh_method h = ''CONNECT'' \<longrightarrow> rh_sub_protocol h = ''http/2'' \<and> rh_upgrade h = Some ''websocket'')"

lemma http1_upgrade_Inr:
  assumes "http1_upgrade hs sec = Inr up"
  shows "up \<in> {None, Some ''websocket'', Some ''http/2''} \<and> (up = Some ''http/2'' \<longrightarrow> \<not> sec)"
  using assms unfolding http1_upgrade_def Let_def by (simp split: if_split_asm) blast+

lemma http1_head_ok:
  assumes "http1_head r t = Inr h"
  shows "head_ok t h" and "headers_ok False (rh_headers h)" and "rh_sub_protocol h = ''http/1.1''"
    and "length (header_values ''host'' (rh_headers h)) = 1"
proof -
  from assms obtain hs where hs: "validate_headers False (h11_headers r) = Inr hs"
    by (auto simp: http1_head_def bindE_eq_Inr)
  from assms hs have profile: "\<not> (h11_version r \<noteq> ''1.1'' \<or> length (header_values ''host'' hs) \<noteq> 1
      \<or> \<not> token (h11_method r))"
    by (auto simp: http1_head_def Let_def split: if_split_asm)
  with assms hs obtain a where
    rest: "(if h11_target r = [] \<or> length (h11_target r) > 8192 \<or> list_ex bad_target_char (h11_target r)
         then Inl (RequestDenied ''invalid_request_target'')
         else if h11_method r = ''CONNECT'' then Inl (RequestDenied ''generic_connect'')
         else bindE (http1_target_authority r t) (\<lambda>more.
           bindE (forwarding_headers hs) (\<lambda>_.
             bindE (http1_upgrade hs (secure t)) (\<lambda>up.
               Inr \<lparr>rh_method = h11_method r, rh_target = h11_target r, rh_headers = hs,
                    rh_authorities = a # more, rh_sub_protocol = ''http/1.1'',
                    rh_upgrade = up\<rparr>)))) = Inr h"
    unfolding http1_head_def Let_def by (simp only: bindE_simps if_False bindE_eq_Inr) blast
  then have target: "\<not> (h11_target r = [] \<or> length (h11_target r) > 8192 \<or> list_ex bad_target_char (h11_target r))"
    "h11_method r \<noteq> ''CONNECT''" by (auto split: if_split_asm)
  with rest obtain more up where up: "http1_upgrade hs (secure t) = Inr up"
    and h: "h = \<lparr>rh_method = h11_method r, rh_target = h11_target r, rh_headers = hs,
                    rh_authorities = a # more, rh_sub_protocol = ''http/1.1'', rh_upgrade = up\<rparr>"
    by (simp only: if_False bindE_eq_Inr) blast
  show "head_ok t h" using profile target http1_upgrade_Inr [OF up] by (auto simp: head_ok_def h)
  show "headers_ok False (rh_headers h)" using validate_headers_ok [OF hs] by (simp add: h)
  show "rh_sub_protocol h = ''http/1.1''" "length (header_values ''host'' (rh_headers h)) = 1"
    using profile by (simp_all add: h)
qed

lemma http2_head_ok:
  assumes "http2_head vals t = Inr h"
  shows "head_ok t h" and "headers_ok True (rh_headers h)" and "rh_sub_protocol h = ''http/2''"
    and "length (header_values ''host'' (rh_headers h)) \<le> 1"
    and "pseudo (rh_headers h) '':scheme'' = Some (protocol t)"
proof -
  from assms obtain hs where hs: "validate_headers True vals = Inr hs"
    by (auto simp: http2_head_def bindE_eq_Inr)
  with assms have id: "http2_identity_ok hs t" by (auto simp: http2_head_def split: if_split_asm)
  then obtain m scheme path where p: "pseudo hs '':method'' = Some m" "pseudo hs '':scheme'' = Some scheme"
    "pseudo hs '':path'' = Some path"
    and ok: "token m" "scheme = protocol t" "prefix ''/'' path \<or> (path = ''*'' \<and> m = ''OPTIONS'')"
      "length path \<le> 8192" "\<not> list_ex bad_target_char path" "length (header_values ''host'' hs) \<le> 1"
    by (auto simp: http2_identity_ok_def split: option.splits)
  from assms hs id p obtain up as where up: "http2_upgrade hs m = Inr up"
    and h: "h = \<lparr>rh_method = m, rh_target = path, rh_headers = hs, rh_authorities = as,
                  rh_sub_protocol = ''http/2'', rh_upgrade = up\<rparr>"
    by (auto simp: http2_head_def bindE_eq_Inr)
  from up have "if m = ''CONNECT'' then up = Some ''websocket'' else up = None"
    by (auto simp: http2_upgrade_def split: if_split_asm)
  moreover have "path \<noteq> []" using ok(3) by auto
  ultimately show "head_ok t h" using ok by (auto simp: head_ok_def h split: if_split_asm)
  show "headers_ok True (rh_headers h)" using validate_headers_ok [OF hs] by (simp add: h)
  show "rh_sub_protocol h = ''http/2''" "length (header_values ''host'' (rh_headers h)) \<le> 1"
    "pseudo (rh_headers h) '':scheme'' = Some (protocol t)"
    using ok p by (simp_all add: h)
qed

text \<open>
  What is sent to the helper: no CONNECT, no pseudo header, one Host field, so the adapter checks
  of \<open>normalize_request\<close> never fire for a parsed head.
\<close>

lemma normalization_method_not_connect: "head_ok t h \<Longrightarrow> normalization_method h \<noteq> ''CONNECT''"
  by (auto simp: head_ok_def normalization_method_def)

lemma header_values_regular:
  "header_values ''host'' (filter (\<lambda>nv. \<not> prefix '':'' (fst nv)) hs) = header_values ''host'' hs"
  by (induction hs) (auto simp: header_values_def)

lemma normalization_headers_http2:
  assumes "http2_head vals t = Inr h"
  shows "length (header_values ''host'' (normalization_headers h)) = 1"
    and "\<not> list_ex (\<lambda>nv. prefix '':'' (fst nv)) (normalization_headers h)"
proof -
  let ?regular = "filter (\<lambda>nv. \<not> prefix '':'' (fst nv)) (rh_headers h)"
  from http2_head_ok [OF assms] have le: "length (header_values ''host'' ?regular) \<le> 1"
    by (simp add: header_values_regular)
  have sub: "rh_sub_protocol h = ''http/2''" by (rule http2_head_ok [OF assms])
  have empty: "header_values ''host'' ?regular = [] \<longleftrightarrow> \<not> list_ex (\<lambda>nv. fst nv = ''host'') ?regular"
    by (auto simp: header_values_def filter_empty_conv list_ex_iff)
  have nopseudo: "\<not> list_ex (\<lambda>nv. prefix '':'' (fst nv)) ?regular" by (auto simp: list_ex_iff)
  show "length (header_values ''host'' (normalization_headers h)) = 1"
    using le sub empty
    by (cases "header_values ''host'' ?regular")
      (auto simp: normalization_headers_def Let_def header_values_def)
  show "\<not> list_ex (\<lambda>nv. prefix '':'' (fst nv)) (normalization_headers h)"
    using sub nopseudo by (auto simp: normalization_headers_def Let_def)
qed

lemma normalization_headers_http1:
  assumes "http1_head r t = Inr h"
  shows "length (header_values ''host'' (normalization_headers h)) = 1"
    and "\<not> list_ex (\<lambda>nv. prefix '':'' (fst nv)) (normalization_headers h)"
  using http1_head_ok [OF assms]
  by (auto simp: normalization_headers_def headers_ok_def field_ok_def list_all_iff list_ex_iff)

section \<open>Properties\<close>



text \<open>The envelope sent to the helper for an HTTP/2 head is never a CONNECT, has no pseudo header
  and exactly one Host field, so the helper adapter cannot reject it for those reasons.\<close>

theorem http2_normalizable:
  assumes "http2_head vals t = Inr h"
  shows "head_ok t h \<and> normalization_method h \<noteq> ''CONNECT''
    \<and> length (header_values ''host'' (normalization_headers h)) = 1
    \<and> \<not> list_ex (\<lambda>nv. prefix '':'' (fst nv)) (normalization_headers h)"
  using http2_head_ok(1) [OF assms] normalization_headers_http2 [OF assms]
    normalization_method_not_connect by blast

theorem http2_normalizable_witness:
  "\<exists>h. http2_head [('':method'', ''CONNECT''), ('':scheme'', ''https''), ('':path'', ''/ws''),
        ('':authority'', ''a.b''), ('':protocol'', ''websocket'')]
      \<lparr>ct_address = IPv4 16843009, ct_port = 443, secure = True, tls_name = Some ''a.b''\<rparr> = Inr h
    \<and> rh_upgrade h = Some ''websocket'' \<and> normalization_method h \<noteq> ''CONNECT''"
proof -
  let ?t = "\<lparr>ct_address = IPv4 16843009, ct_port = 443, secure = True, tls_name = Some ''a.b''\<rparr>"
  obtain h where h: "http2_head [('':method'', ''CONNECT''), ('':scheme'', ''https''), ('':path'', ''/ws''),
        ('':authority'', ''a.b''), ('':protocol'', ''websocket'')] ?t = Inr h"
    and up: "rh_upgrade h = Some ''websocket''"
    by (simp add: eval_simps Let_def suffix_to_prefix)
  with http2_normalizable [OF h] show ?thesis by blast
qed

end
