(* ===== verification/History.thy ===== *)
theory History
  imports Prelude
begin

text \<open>
  The history a session keeps (\<open>libraries/ads-commons/src/ads_commons/engine.py\<close>) and the visible
  projection of archived memory (\<open>context_compactor.py\<close>). A \<open>Tombstone\<close> replaces a prefix of the
  history: it holds the turns it replaced, the tombstone that stood before them and the turns
  that were kept. The free-form \<open>metadata\<close> of calls and results is never read and is left out.
\<close>

section \<open>Turns\<close>

datatype lifecycle = Created | Succeeded | Failed | TaskCancelled

record task_transition =
  task_id :: string
  task_state :: lifecycle

record tool_call =
  call_id :: string
  call_name :: string
  arguments :: "(string \<times> json) list"

record tool_result =
  tool_call_id :: string
  result_name :: string
  success :: bool
  content :: json
  task_transitions :: "task_transition list"

datatype plain =
    UserTurn string
  | AssistantTurn string
  | CallTurn tool_call
  | ResultTurn tool_result

datatype tombstone =
  Tombstone (memory_id: nat) (summarization: string) (messages: "plain list")
    (remaining_messages: "plain list") (inner_tombstone: "tombstone option")

datatype turn = Plain plain | Memory tombstone

definition make_tombstone ::
  "nat \<Rightarrow> string \<Rightarrow> plain list \<Rightarrow> plain list \<Rightarrow> tombstone option \<Rightarrow> error + tombstone" where
  "make_tombstone i summary archived remaining inner =
     (if strip is_space summary = [] then Inl (ValueError ''summarization must be nonempty'')
      else Inr (Tombstone i summary archived remaining inner))"

fun is_memory :: "turn \<Rightarrow> bool" where
  "is_memory (Memory _) = True"
| "is_memory (Plain _) = False"

text \<open>\<open>[item for item in turns if not isinstance(item, Tombstone)]\<close>\<close>

fun plains :: "turn list \<Rightarrow> plain list" where
  "plains [] = []"
| "plains (Plain p # ts) = p # plains ts"
| "plains (Memory _ # ts) = plains ts"

fun memories :: "turn list \<Rightarrow> tombstone list" where
  "memories [] = []"
| "memories (Plain _ # ts) = memories ts"
| "memories (Memory m # ts) = m # memories ts"

section \<open>Visible memory\<close>

text \<open>\<open>str(uuid)\<close>\<close>

definition hex_digits :: "nat \<Rightarrow> nat \<Rightarrow> nat \<Rightarrow> string" where
  "hex_digits n from count = map (\<lambda>k. digit_char (n div 16 ^ (from - Suc k) mod 16)) [0..<count]"

definition uuid_str :: "nat \<Rightarrow> string" where
  "uuid_str n = join_with (CHR ''-'')
     [hex_digits n 32 8, hex_digits n 24 4, hex_digits n 20 4, hex_digits n 16 4, hex_digits n 12 12]"

definition memory_text :: "tombstone \<Rightarrow> json" where
  "memory_text m = JObj
     [(''memory_id'', JStr (uuid_str (memory_id m))),
      (''summary'', JStr (summarization m)),
      (''recall'', JStr ''memory_recall(memory_id, question) retrieves archived evidence'')]"

definition active_context :: "tombstone \<Rightarrow> turn list" where
  "active_context m = Memory m # map Plain (remaining_messages m)"

definition recall_source :: "tombstone \<Rightarrow> turn list" where
  "recall_source m =
     (case inner_tombstone m of None \<Rightarrow> [] | Some i \<Rightarrow> [Memory i]) @ map Plain (messages m)"

text \<open>\<open>msgspec.to_builtins\<close> of a plain turn without \<open>metadata\<close> and \<open>task_transitions\<close>.\<close>

definition plain_json :: "plain \<Rightarrow> json" where
  "plain_json p =
     (case p of
        UserTurn t \<Rightarrow> JObj [(''type'', JStr ''user''), (''text'', JStr t)]
      | AssistantTurn t \<Rightarrow> JObj [(''type'', JStr ''assistant''), (''text'', JStr t)]
      | CallTurn c \<Rightarrow> JObj [(''type'', JStr ''tool_call''), (''id'', JStr (call_id c)),
          (''name'', JStr (call_name c)), (''arguments'', JObj (arguments c))]
      | ResultTurn r \<Rightarrow> JObj [(''type'', JStr ''tool_result''), (''tool_call_id'', JStr (tool_call_id r)),
          (''name'', JStr (result_name r)),
          (''status'', JStr (if success r then ''success'' else ''error'')),
          (''content'', content r)])"

lemmas [eval_simps] = make_tombstone_def hex_digits_def uuid_str_def memory_text_def
  active_context_def recall_source_def plain_json_def

section \<open>The turns a memory stands for\<close>

text \<open>
  \<open>archive m\<close> is the part of the history that \<open>m\<close> replaced, oldest first; \<open>full_history\<close> unfolds a
  leading memory. Both are the yardstick for what compaction must not lose.
\<close>

fun archive :: "tombstone \<Rightarrow> plain list" where
  "archive (Tombstone i s ms rs inner) = (case inner of None \<Rightarrow> [] | Some m \<Rightarrow> archive m) @ ms"

fun full_history :: "turn list \<Rightarrow> plain list" where
  "full_history [] = []"
| "full_history (Plain p # ts) = p # full_history ts"
| "full_history (Memory m # ts) = archive m @ full_history ts"

fun depth :: "tombstone \<Rightarrow> nat" where
  "depth (Tombstone i s ms rs inner) = (case inner of None \<Rightarrow> 0 | Some m \<Rightarrow> Suc (depth m))"

lemma archive_unfold:
  "archive m = (case inner_tombstone m of None \<Rightarrow> [] | Some i \<Rightarrow> archive i) @ messages m"
  by (cases m) simp

lemma full_history_append [simp]: "full_history (xs @ ys) = full_history xs @ full_history ys"
  by (induction xs rule: full_history.induct) auto

lemma full_history_plain [simp]: "full_history (map Plain ps) = ps"
  by (induction ps) auto

lemma plains_append [simp]: "plains (xs @ ys) = plains xs @ plains ys"
  by (induction xs rule: plains.induct) auto

lemma plains_map_Plain [simp]: "plains (map Plain ps) = ps"
  by (induction ps) auto

lemma map_Plain_plains: "\<not> list_ex is_memory ts \<Longrightarrow> map Plain (plains ts) = ts"
  by (induction ts rule: plains.induct) auto

lemma full_history_no_memory: "\<not> list_ex is_memory ts \<Longrightarrow> full_history ts = plains ts"
  by (induction ts rule: plains.induct) auto

lemma full_history_active [simp]: "full_history (active_context m) = archive m @ remaining_messages m"
  by (simp add: active_context_def)

lemma full_history_recall [simp]: "full_history (recall_source m) = archive m"
  by (cases m) (auto simp: recall_source_def split: option.split)

text \<open>The frames opened by nested recalls see strictly older memories.\<close>

lemma recall_source_depth: "i \<in> set (memories (recall_source m)) \<Longrightarrow> depth i < depth m"
proof -
  have "memories (xs @ map Plain ps) = memories xs" for xs ps
    by (induction xs rule: memories.induct) (auto, induction ps, auto)
  then show "i \<in> set (memories (recall_source m)) \<Longrightarrow> depth i < depth m"
    by (cases m) (auto simp: recall_source_def split: option.splits)
qed

end
