(* ===== verification/Frame_Facts.thy ===== *)
theory Frame_Facts
  imports Recall_Frames
begin

text \<open>
  What the recall frames guarantee: fuel of one unit per provider outcome is enough and more fuel
  changes nothing; every admitted call is closed by exactly one result, in the frame and in every
  transcript sent to the provider; a reported capacity never overstates the measured one.
\<close>

section \<open>Fuel\<close>

text \<open>
  \<open>settles k m\<close>: with fewer than \<open>k\<close> outcomes left \<open>m\<close> does not run out of fuel and gives none
  back. \<open>consumes k m\<close>: with at most \<open>k\<close> outcomes left, it also uses one whenever it returns.
\<close>

definition settles :: "nat \<Rightarrow> 'a io \<Rightarrow> bool" where
  "settles k m \<longleftrightarrow> (\<forall>p. length (outcomes p) < k \<longrightarrow>
     fst (m p) \<noteq> Inl OutOfFuel \<and> length (outcomes (snd (m p))) \<le> length (outcomes p))"

definition consumes :: "nat \<Rightarrow> 'a io \<Rightarrow> bool" where
  "consumes k m \<longleftrightarrow> (\<forall>p. length (outcomes p) < Suc k \<longrightarrow>
     fst (m p) \<noteq> Inl OutOfFuel \<and> length (outcomes (snd (m p))) \<le> length (outcomes p)
     \<and> (\<forall>x. fst (m p) = Inr x \<longrightarrow> length (outcomes (snd (m p))) < k))"

named_theorems settles_intros \<open>rules for \<open>settles\<close> and \<open>consumes\<close>\<close>

lemma settles_ret [settles_intros]: "settles k (ret x)"
  by (simp add: settles_def ret_def)

lemma settles_lift [settles_intros]: "r \<noteq> Inl OutOfFuel \<Longrightarrow> settles k (lift r)"
  by (simp add: settles_def lift_def)

lemma bindM_cases:
  obtains e p' where "m p = (Inl e, p')" "bindM m f p = (Inl e, p')"
  | x p' where "m p = (Inr x, p')" "bindM m f p = f x p'"
  by (cases "m p"; cases "fst (m p)") (auto simp: bindM_def)

lemma settles_bind [settles_intros]:
  assumes "settles k m" "\<And>x. settles k (f x)"
  shows "settles k (bindM m f)"
  unfolding settles_def
proof (intro allI impI)
  fix p :: provider
  assume p: "length (outcomes p) < k"
  show "fst (bindM m f p) \<noteq> Inl OutOfFuel \<and> length (outcomes (snd (bindM m f p))) \<le> length (outcomes p)"
  proof (cases rule: bindM_cases [of m p f])
    case (1 e p')
    from assms(1) p have "fst (m p) \<noteq> Inl OutOfFuel \<and> length (outcomes (snd (m p))) \<le> length (outcomes p)"
      unfolding settles_def by blast
    with 1 show ?thesis by simp
  next
    case (2 x p')
    from assms(1) p have "length (outcomes (snd (m p))) \<le> length (outcomes p)"
      unfolding settles_def by blast
    with 2 have le: "length (outcomes p') \<le> length (outcomes p)" by simp
    with p assms(2) [of x] have "fst (f x p') \<noteq> Inl OutOfFuel
        \<and> length (outcomes (snd (f x p'))) \<le> length (outcomes p')"
      unfolding settles_def by auto
    with 2 le show ?thesis by auto
  qed
qed

lemma settles_catch [settles_intros]:
  assumes "settles k m" "\<And>e. e \<noteq> OutOfFuel \<Longrightarrow> settles k (h e)"
  shows "settles k (catchE m h)"
  unfolding settles_def
proof (intro allI impI)
  fix p :: provider
  assume p: "length (outcomes p) < k"
  with assms(1) have m: "fst (m p) \<noteq> Inl OutOfFuel" "length (outcomes (snd (m p))) \<le> length (outcomes p)"
    unfolding settles_def by blast+
  show "fst (catchE m h p) \<noteq> Inl OutOfFuel \<and> length (outcomes (snd (catchE m h p))) \<le> length (outcomes p)"
  proof (cases "fst (m p)")
    case (Inl e)
    with m have "catchE m h p = h e (snd (m p))" by (cases "m p") (auto simp: catchE_def)
    moreover have "fst (h e (snd (m p))) \<noteq> Inl OutOfFuel
        \<and> length (outcomes (snd (h e (snd (m p))))) \<le> length (outcomes (snd (m p)))"
      using assms(2) [of e] m Inl p unfolding settles_def by auto
    ultimately show ?thesis using m(2) by auto
  next
    case (Inr x)
    with m show ?thesis by (cases "m p") (auto simp: catchE_def)
  qed
qed

lemma settles_foldM [settles_intros]: "(\<And>s x. settles k (f s x)) \<Longrightarrow> settles k (foldM f s xs)"
  by (induction xs arbitrary: s) (auto intro: settles_intros)

lemma consumes_lift_bind [settles_intros]:
  "r \<noteq> Inl OutOfFuel \<Longrightarrow> (\<And>x. consumes k (f x)) \<Longrightarrow> consumes k (bindM (lift r) f)"
  by (cases r) (auto simp: consumes_def bindM_def lift_def)

lemma classify_no_fuel: "classify_outcome out \<noteq> Inl OutOfFuel"
  by (simp add: classify_outcome_def split: provider_outcome.split)

lemma consumes_invoke_bind:
  assumes "\<And>r. settles k (f r)"
  shows "consumes k (bindM (invoke msgs tools c) f)"
  unfolding consumes_def
proof (intro allI impI)
  fix p :: provider
  assume p: "length (outcomes p) < Suc k"
  let ?m = "bindM (invoke msgs tools c) f"
  show "fst (?m p) \<noteq> Inl OutOfFuel \<and> length (outcomes (snd (?m p))) \<le> length (outcomes p)
      \<and> (\<forall>x. fst (?m p) = Inr x \<longrightarrow> length (outcomes (snd (?m p))) < k)"
  proof (cases "outcomes p")
    case Nil
    then show ?thesis
      by (simp add: bindM_def invoke_def classify_outcome_def provider_code_def)
  next
    case (Cons out rest)
    define p' where "p' = p\<lparr>sent := sent p @ [\<lparr>sent_messages = msgs, sent_tools = tools, sent_cap = c\<rparr>],
      outcomes := rest\<rparr>"
    with Cons have inv: "invoke msgs tools c p = (classify_outcome out, p')"
      by (simp add: invoke_def)
    have len: "length (outcomes p') < k" using Cons p by (simp add: p'_def)
    show ?thesis
    proof (cases "classify_outcome out")
      case (Inl e)
      with inv len Cons classify_no_fuel [of out] show ?thesis
        by (auto simp: bindM_def p'_def)
    next
      case (Inr r)
      with inv have eq: "?m p = f r p'" by (simp add: bindM_def)
      from assms [of r] len have fr: "fst (f r p') \<noteq> Inl OutOfFuel"
        "length (outcomes (snd (f r p'))) \<le> length (outcomes p')"
        unfolding settles_def by blast+
      from fr(2) len have "length (outcomes (snd (f r p'))) < k" by simp
      moreover from fr(2) Cons have "length (outcomes (snd (f r p'))) \<le> length (outcomes p)"
        by (simp add: p'_def)
      ultimately show ?thesis using eq fr(1) by simp
    qed
  qed
qed

lemma settles_consumes_bind:
  assumes "consumes k m" "\<And>x. settles k (f x)"
  shows "settles (Suc k) (bindM m f)"
  unfolding settles_def
proof (intro allI impI)
  fix p :: provider
  assume p: "length (outcomes p) < Suc k"
  with assms(1) have m: "fst (m p) \<noteq> Inl OutOfFuel" "length (outcomes (snd (m p))) \<le> length (outcomes p)"
    "\<And>x. fst (m p) = Inr x \<Longrightarrow> length (outcomes (snd (m p))) < k"
    unfolding consumes_def by blast+
  show "fst (bindM m f p) \<noteq> Inl OutOfFuel \<and> length (outcomes (snd (bindM m f p))) \<le> length (outcomes p)"
  proof (cases rule: bindM_cases [of m p f])
    case (1 e p')
    with m show ?thesis by simp
  next
    case (2 x p')
    with m(3) have "length (outcomes p') < k" by simp
    with assms(2) [of x] have "fst (f x p') \<noteq> Inl OutOfFuel
        \<and> length (outcomes (snd (f x p'))) \<le> length (outcomes p')"
      unfolding settles_def by blast
    with 2 m(2) show ?thesis by auto
  qed
qed

text \<open>The pure parts never report missing fuel.\<close>

lemma no_fuel [settles_intros]:
  "count meter msgs \<noteq> Inl OutOfFuel"
  "remaining meter rt msgs f \<noteq> Inl OutOfFuel"
  "guard meter rt f \<noteq> Inl OutOfFuel"
  "must_fit meter rt f call result \<noteq> Inl OutOfFuel"
  "visible_memory py_str ctx call \<noteq> Inl OutOfFuel"
proof -
  show count: "count meter msgs \<noteq> Inl OutOfFuel" for msgs
    by (simp add: count_def split: sum.split)
  then show rem: "remaining meter rt msgs f \<noteq> Inl OutOfFuel" for msgs f
    by (simp add: remaining_def Let_def bindE_eq_Inl)
  then show "guard meter rt f \<noteq> Inl OutOfFuel"
    by (auto simp: guard_def bindE_eq_Inl split: if_splits)
  from rem show "must_fit meter rt f call result \<noteq> Inl OutOfFuel"
    by (auto simp: must_fit_def bindE_eq_Inl split: if_splits)
  show "visible_memory py_str ctx call \<noteq> Inl OutOfFuel"
    by (auto simp: visible_memory_def split: option.splits json.splits if_splits)
qed

lemma resolve_loop_no_fuel [settles_intros]:
  "resolve_loop n meter rt f call v rep \<noteq> Inl OutOfFuel"
proof (induction n arbitrary: rep)
  case (Suc n)
  then show ?case using no_fuel(2) by (auto simp: Let_def bindE_eq_Inl split: if_split_asm)
qed simp

lemma resolved_no_fuel [settles_intros]: "resolved_result meter rt f call v \<noteq> Inl OutOfFuel"
  by (simp add: resolved_result_def resolve_loop_no_fuel)

locale frame_runner =
  fixes runner :: runner
    and k :: nat
  assumes runner: "settles k (runner f)"
begin

lemma child_answer_settles: "settles k (child_answer runner meter rt m q c attempt level)"
  unfolding child_answer_def by (auto intro!: settles_intros runner split: prod.split)

lemma recall_body_settles: "settles k (recall_body py_str runner meter rt f call rep)"
proof -
  have attempt: "settles k (recall_attempt runner meter rt f call rep m q a)" for m q a
    unfolding recall_attempt_def Let_def
    by (auto intro!: settles_intros child_answer_settles split: option.split)
  show ?thesis
    unfolding recall_body_def
    by (auto intro!: settles_intros attempt split: prod.split option.split)
qed

lemma dispatch_settles: "settles k (dispatch py_str runner meter rt f call)"
  unfolding dispatch_def call_result_def Let_def
  by (auto intro!: settles_intros recall_body_settles split: prod.split option.split)

lemma batch_step_settles: "settles k (batch_step py_str runner meter rt f call)"
  unfolding batch_step_def
  by (auto intro!: settles_intros dispatch_settles split: prod.split option.split)

lemma dispatch_batch_settles: "settles k (dispatch_batch py_str runner meter rt f calls)"
  unfolding dispatch_batch_def Let_def
  by (auto intro!: settles_intros batch_step_settles split: prod.split)

lemma frame_step_consumes: "consumes k (frame_step dumps py_str runner meter rt f)"
  unfolding frame_step_def Let_def
  by (auto intro!: settles_intros consumes_invoke_bind dispatch_batch_settles
      split: prod.split ai_content.split)

end

lemma run_settles: "settles n (run n dumps py_str meter rt f)"
proof (induction n arbitrary: f)
  case 0
  then show ?case by (simp add: settles_def)
next
  case (Suc n)
  have "consumes n (frame_step dumps py_str (run n dumps py_str meter rt) meter rt f)"
    by (rule frame_runner.frame_step_consumes) (simp add: frame_runner_def Suc.IH)
  then show ?case
    unfolding run.simps
    by (rule settles_consumes_bind) (auto intro!: settles_intros Suc.IH split: prod.split option.split)
qed

interpretation fuelled: frame_runner "run n dumps py_str meter rt" n
  by unfold_locales (rule run_settles)

section \<open>Capacity reports\<close>

lemma resolve_loop_sound:
  assumes "resolve_loop n meter rt f call v rep = Inr (Some r)"
  shows "\<exists>rep' m. r = answer_result call v (Some rep')
    \<and> remaining meter rt (with_result f call r) f = Inr m
    \<and> 0 \<le> remaining_tokens m \<and> remaining_tokens rep' \<le> remaining_tokens m"
  using assms
proof (induction n arbitrary: rep)
  case (Suc n)
  from Suc.prems obtain m where
    m: "remaining meter rt (with_result f call (answer_result call v rep)) f = Inr m"
    by (auto simp: Let_def bindE_eq_Inr)
  with Suc.prems have pos: "0 \<le> remaining_tokens m" by (auto simp: Let_def split: if_split_asm)
  show ?case
  proof (cases rep)
    case None
    with Suc.prems m pos Suc.IH show ?thesis by (auto simp: Let_def)
  next
    case (Some old)
    with Suc.prems m pos Suc.IH show ?thesis
      by (cases "remaining_tokens old \<le> remaining_tokens m"; cases "m = old") (auto simp: Let_def)
  qed
qed simp

lemma resolved_id: "resolved_result meter rt f call v = Inr (Some r) \<Longrightarrow> tool_call_id r = call_id call"
  unfolding resolved_result_def by (drule resolve_loop_sound) (auto simp: answer_result_def)

section \<open>Every admitted call is closed once\<close>

definition same_core :: "frame \<Rightarrow> frame \<Rightarrow> bool" where
  "same_core f g \<longleftrightarrow> source g = source f \<and> question g = question f
     \<and> exchanges g = exchanges f \<and> pending_results g = pending_results f"

lemma same_core_refl [simp, intro]: "same_core f f"
  by (simp add: same_core_def)

lemma same_core_trans: "same_core f g \<Longrightarrow> same_core g h \<Longrightarrow> same_core f h"
  by (simp add: same_core_def)

lemma guard_core: "guard meter rt f = Inr (rep, g) \<Longrightarrow> same_core f g"
  by (auto simp: guard_def bindE_eq_Inr same_core_def split: if_split_asm)

text \<open>Unfolding the recorded calls and results of an exchange list.\<close>

lemma ids_append [simp]:
  "call_ids (ps @ qs) = call_ids ps @ call_ids qs"
  "result_ids (ps @ qs) = result_ids ps @ result_ids qs"
  by (simp_all add: call_ids_def result_ids_def map_filter_def)

lemma ids_simps [simp]:
  "call_ids [] = []" "result_ids [] = []"
  "call_ids (CallTurn c # ps) = call_id c # call_ids ps"
  "call_ids (ResultTurn r # ps) = call_ids ps"
  "call_ids (AssistantTurn t # ps) = call_ids ps"
  "call_ids (UserTurn t # ps) = call_ids ps"
  "result_ids (CallTurn c # ps) = result_ids ps"
  "result_ids (ResultTurn r # ps) = tool_call_id r # result_ids ps"
  "result_ids (AssistantTurn t # ps) = result_ids ps"
  "result_ids (UserTurn t # ps) = result_ids ps"
  by (simp_all add: call_ids_def result_ids_def map_filter_def)

lemma ids_map_CallTurn [simp]:
  "call_ids (map CallTurn cs) = map call_id cs" "result_ids (map CallTurn cs) = []"
  by (induction cs) auto

text \<open>
  \<open>awaiting f cs\<close>: the calls \<open>cs\<close> hold the reserved results, in order; every other recorded call
  has its one result.
\<close>

definition awaiting :: "frame \<Rightarrow> tool_call list \<Rightarrow> bool" where
  "awaiting f cs \<longleftrightarrow> map tool_call_id (pending_results f) = map call_id cs
     \<and> distinct (call_ids (exchanges f)) \<and> distinct (result_ids (exchanges f) @ map call_id cs)
     \<and> set (call_ids (exchanges f)) = set (result_ids (exchanges f)) \<union> set (map call_id cs)"

abbreviation closed_frame :: "frame \<Rightarrow> bool" where
  "closed_frame f \<equiv> awaiting f []"

lemma awaiting_core: "same_core f g \<Longrightarrow> awaiting f cs \<Longrightarrow> awaiting g cs"
  by (simp add: awaiting_def same_core_def)

lemma awaiting_close:
  assumes "awaiting f (c # cs)" "tool_call_id r = call_id c"
    "exchanges g = exchanges f @ [ResultTurn r]" "pending_results g = tl (pending_results f)"
  shows "awaiting g cs"
  using assms by (auto simp: awaiting_def map_tl)

lemma awaiting_hd:
  assumes "awaiting f (c # cs)"
  obtains p ps where "pending_results f = p # ps" "tool_call_id p = call_id c"
    "\<And>q. q \<in> set ps \<Longrightarrow> tool_call_id q \<noteq> call_id c"
proof -
  from assms obtain p ps where p: "pending_results f = p # ps" "tool_call_id p = call_id c"
    "map tool_call_id ps = map call_id cs"
    by (auto simp: awaiting_def Cons_eq_map_conv map_eq_Cons_conv)
  from assms have "call_id c \<notin> set (map call_id cs)" by (simp add: awaiting_def)
  with p(3) have "\<And>q. q \<in> set ps \<Longrightarrow> tool_call_id q \<noteq> call_id c"
    by (metis image_eqI list.set_map)
  with p(1,2) show thesis by (rule that)
qed

lemma awaiting_close_call:
  assumes "awaiting f (c # cs)" "tool_call_id r = call_id c"
  shows "awaiting (close_call f c r) cs"
proof -
  obtain p ps where p: "pending_results f = p # ps" "tool_call_id p = call_id c"
    "\<And>q. q \<in> set ps \<Longrightarrow> tool_call_id q \<noteq> call_id c"
    using assms(1) by (rule awaiting_hd) blast
  then have "filter (\<lambda>p. tool_call_id p \<noteq> call_id c) ps = ps" by simp
  with p assms show ?thesis
    by (intro awaiting_close [OF assms]) (simp_all add: close_call_def)
qed

lemma recall_attempt_id:
  "returns (recall_attempt runner meter rt f call rep m q a) (\<lambda>r. \<forall>x. r = Some x \<longrightarrow> tool_call_id x = call_id call)"
  unfolding recall_attempt_def Let_def
  by (rule returns_bind [OF returns_True])
     (auto intro!: returns_intros dest: resolved_id split: option.split)

lemma recall_body_id:
  "returns (recall_body py_str runner meter rt f call rep) (\<lambda>r. \<forall>x. r = Some x \<longrightarrow> tool_call_id x = call_id call)"
  unfolding recall_body_def
  by (auto intro!: returns_intros recall_attempt_id returns_bind [OF recall_attempt_id]
      split: prod.split option.split)

lemma call_result_core:
  "returns (call_result py_str runner meter rt f call rep)
     (\<lambda>(r, g). same_core f g \<and> (\<forall>x. r = Some x \<longrightarrow> tool_call_id x = call_id call))"
  unfolding call_result_def Let_def
  by (auto intro!: returns_intros returns_bind [OF recall_body_id] returns_catch
      simp: error_result_def same_core_def dest: resolved_id)

lemma returns_prod:
  "(\<And>a b. x = (a, b) \<Longrightarrow> returns (f a b) Q) \<Longrightarrow> returns (case x of (a, b) \<Rightarrow> f a b) Q"
  by (cases x) simp

lemma dispatch_core:
  "returns (dispatch py_str runner meter rt f call)
     (\<lambda>(r, g). tool_call_id r = call_id call \<and>
        (\<exists>h. same_core f h \<and> same_core (close_call h call r) g))" (is "returns _ ?Q")
proof -
  let ?pick = "\<lambda>r f1. case r of Some result \<Rightarrow> ret (result, f1)
        | None \<Rightarrow> let f2 = f1\<lparr>finalization_only := True\<rparr>; result = error_result call starvation
            in bindM (lift (must_fit meter rt f2 call result)) (\<lambda>_. ret (result, f2))"
  let ?tail = "\<lambda>r f1. bindM (?pick r f1) (\<lambda>(result, f2).
        bindM (lift (guard meter rt (close_call f2 call result))) (\<lambda>(_, f3). ret (result, f3)))"
  have closing: "returns (?tail r f1) ?Q"
    if "same_core f f1" "\<forall>x. r = Some x \<longrightarrow> tool_call_id x = call_id call" for r f1
  proof -
    have pick: "returns (?pick r f1) (\<lambda>(result, f2). tool_call_id result = call_id call \<and> same_core f f2)"
      using that by (auto simp: Let_def error_result_def same_core_def
          intro!: returns_intros split: option.split)
    show ?thesis
      by (rule returns_bind [OF pick]) (auto intro!: returns_intros dest: guard_core)
  qed
  have call: "returns (bindM (call_result py_str runner meter rt g call rep) (\<lambda>(r, f1). ?tail r f1)) ?Q"
    if "same_core f g" for g rep
    by (rule returns_bind [OF call_result_core], intro returns_prod, rule closing)
       (auto intro: same_core_trans [OF that])
  show ?thesis
    unfolding dispatch_def
  proof (intro returns_lift_bind returns_prod)
    fix x rep g
    assume "guard meter rt f = Inr x" "x = (rep, g)"
    then have "same_core f g" by (simp add: guard_core)
    then show "returns (if finalization_only g then throw (ContextFailure starvation)
        else bindM (call_result py_str runner meter rt g call rep) (\<lambda>(r, f1). ?tail r f1)) ?Q"
      using call by (cases "finalization_only g") (simp_all add: returns_def lift_def)
  qed
qed

lemma awaiting_close_core:
  assumes "awaiting g (c # cs)" "tool_call_id r = call_id c" "same_core g h" "same_core (close_call h c r) g'"
  shows "source g' = source g \<and> awaiting g' cs"
proof -
  from assms(1,3) have "awaiting h (c # cs)" by (blast intro: awaiting_core)
  from awaiting_close_call [OF this assms(2)] assms(4) have "awaiting g' cs" by (blast intro: awaiting_core)
  moreover have "source g' = source g"
    using assms(3,4) by (simp add: same_core_def close_call_def Let_def)
  ultimately show ?thesis by simp
qed

lemma batch_step_awaiting:
  assumes "awaiting f (c # cs)"
  shows "returns (batch_step py_str runner meter rt f c) (\<lambda>g. source g = source f \<and> awaiting g cs)"
    (is "returns _ ?Q")
  unfolding batch_step_def
proof (intro returns_lift_bind returns_prod)
  fix x rep g
  assume "guard meter rt f = Inr x" "x = (rep, g)"
  then have core: "same_core f g" by (simp add: guard_core)
  with assms have aw: "awaiting g (c # cs)" and src: "source g = source f"
    by (blast intro: awaiting_core) (use core in \<open>simp add: same_core_def\<close>)
  obtain p ps where p: "pending_results g = p # ps" "tool_call_id p = call_id c"
    using aw by (rule awaiting_hd) blast
  then have "awaiting (g\<lparr>pending_results := remove1 p (pending_results g),
      exchanges := exchanges g @ [ResultTurn (error_result c (finalization_reason g))]\<rparr>) cs"
    by (intro awaiting_close [OF aw, of "error_result c (finalization_reason g)"])
       (simp_all add: error_result_def)
  then have close: "?Q (g\<lparr>pending_results := remove1 p (pending_results g),
      exchanges := exchanges g @ [ResultTurn (error_result c (finalization_reason g))]\<rparr>)"
    by (simp add: src)
  have disp: "returns (bindM (dispatch py_str runner meter rt g c) (\<lambda>(_, f'). ret f')) ?Q"
  proof (rule returns_bind [OF dispatch_core], intro returns_prod)
    fix y r h'
    assume "case y of (r, k) \<Rightarrow> tool_call_id r = call_id c
        \<and> (\<exists>h. same_core g h \<and> same_core (close_call h c r) k)" "y = (r, h')"
    then obtain h where "tool_call_id r = call_id c" "same_core g h" "same_core (close_call h c r) h'"
      by auto
    from awaiting_close_core [OF aw this] show "returns (ret h') ?Q"
      by (intro returns_ret) (simp add: src)
  qed
  show "returns (if finalization_only g
       then (case find (\<lambda>p. tool_call_id p = call_id c) (pending_results g) of
               None \<Rightarrow> throw (OtherError ''StopIteration'')
             | Some p \<Rightarrow>
                 ret (g\<lparr>pending_results := remove1 p (pending_results g),
                        exchanges := exchanges g
                          @ [ResultTurn (error_result c (finalization_reason g))]\<rparr>))
       else bindM (dispatch py_str runner meter rt g c) (\<lambda>(_, f'). ret f')) ?Q"
  proof (cases "finalization_only g")
    case True
    from p have "find (\<lambda>p. tool_call_id p = call_id c) (pending_results g) = Some p" by simp
    with True close show ?thesis by (simp only: if_True option.case returns_ret)
  next
    case False
    with disp show ?thesis by (simp only: if_False)
  qed
qed

lemma batch_awaiting:
  "awaiting f cs \<Longrightarrow> returns (foldM (batch_step py_str runner meter rt) f cs)
     (\<lambda>g. source g = source f \<and> closed_frame g)"
proof (induction cs arbitrary: f)
  case Nil
  then show ?case by (auto intro: returns_intros)
next
  case (Cons c cs)
  show ?case
    unfolding foldM.simps
  proof (rule returns_bind [OF batch_step_awaiting [OF Cons.prems]])
    fix g
    assume "source g = source f \<and> awaiting g cs"
    with Cons.IH [of g] show "returns (foldM (batch_step py_str runner meter rt) g cs)
        (\<lambda>h. source h = source f \<and> closed_frame h)"
      by simp
  qed
qed

lemma fresh_callsD:
  "fresh_calls seen cs \<Longrightarrow> distinct (map call_id cs) \<and> set (map call_id cs) \<inter> seen = {}"
  by (induction seen cs rule: fresh_calls.induct) auto

lemma reserve_awaiting:
  assumes "closed_frame f" "fresh_calls (set (call_ids (plains (source f) @ exchanges f))) cs"
  shows "awaiting (f\<lparr>exchanges := exchanges f @ map CallTurn cs,
      pending_results := pending_results f @ map (\<lambda>c. error_result c starvation) cs\<rparr>) cs"
  using assms(1) fresh_callsD [OF assms(2)]
  by (auto simp: awaiting_def error_result_def o_def)

lemma dispatch_batch_closed:
  assumes "closed_frame f"
  shows "returns (dispatch_batch py_str runner meter rt f cs) (\<lambda>g. source g = source f \<and> closed_frame g)"
    (is "returns _ ?Q")
proof (cases "fresh_calls (set (call_ids (plains (source f) @ exchanges f))) cs")
  case False
  then show ?thesis by (simp add: dispatch_batch_def returns_def lift_def)
next
  case True
  let ?f1 = "f\<lparr>exchanges := exchanges f @ map CallTurn cs,
      pending_results := pending_results f @ map (\<lambda>c. error_result c starvation) cs\<rparr>"
  have fin: "returns (bindM (lift (guard meter rt f2)) (\<lambda>(_, f3). ret f3)) ?Q"
    if "source f2 = source ?f1 \<and> closed_frame f2" for f2
  proof (intro returns_lift_bind returns_prod returns_ret)
    fix x rep g
    assume "guard meter rt f2 = Inr x" "x = (rep, g)"
    then have "same_core f2 g" by (simp add: guard_core)
    with that show "?Q g" using awaiting_core [of f2 g "[]"] by (simp add: same_core_def)
  qed
  have batch: "returns (bindM (foldM (batch_step py_str runner meter rt) ?f1 cs)
      (\<lambda>f2. bindM (lift (guard meter rt f2)) (\<lambda>(_, f3). ret f3))) ?Q"
    by (rule returns_bind [OF batch_awaiting [OF reserve_awaiting [OF assms True]]]) (rule fin)
  show ?thesis
    unfolding dispatch_batch_def Let_def
  proof (simp only: True not_True_eq_False if_False, intro returns_lift_bind)
    fix rep
    show "returns (if remaining_tokens rep < 0
         then throw (ContextOverflow ''recall_batch_closure_does_not_fit'')
         else bindM (foldM (batch_step py_str runner meter rt) ?f1 cs)
           (\<lambda>f2. bindM (lift (guard meter rt f2)) (\<lambda>(_, f3). ret f3))) ?Q"
      using batch by (simp add: returns_def lift_def)
  qed
qed

lemma frame_step_closed:
  assumes "closed_frame f"
  shows "returns (frame_step dumps py_str runner meter rt f)
    (\<lambda>(g, a). source g = source f \<and> closed_frame g \<and> (\<forall>t. a = Some t \<longrightarrow> strip is_space t \<noteq> []))"
    (is "returns _ ?Q")
proof -
  let ?body = "\<lambda>g response.
         if finish_reason response = Some ''length''
         then throw (ContextFailure ''frame_completion_truncated'')
         else if invalid_tool_calls response
         then throw (ContextFailure ''invalid_recall_tool_calls'')
         else if native_calls response \<noteq> []
         then (if finalization_only g then throw (ContextFailure ''recall_tools_prohibited'')
               else
                 let f1 = (case reply_content response of
                             TextContent t \<Rightarrow> if t \<noteq> []
                               then g\<lparr>exchanges := exchanges g @ [AssistantTurn t]\<rparr> else g
                           | OtherContent \<Rightarrow> g);
                     calls = map (\<lambda>n. \<lparr>call_id = (case native_id n of None \<Rightarrow> [] | Some i \<Rightarrow> i),
                               call_name = native_name n, arguments = native_args n\<rparr>)
                               (native_calls response)
                 in bindM (dispatch_batch py_str runner meter rt f1 calls) (\<lambda>f2. ret (f2, None)))
         else (case reply_content response of
                 TextContent t \<Rightarrow>
                   if strip is_space t = [] then throw (ContextFailure ''empty_frame_answer'')
                   else ret (g, Some t)
               | OtherContent \<Rightarrow> throw (ContextFailure ''empty_frame_answer''))"
  have throw: "returns (throw e) ?Q" for e
    by (simp add: returns_def lift_def)
  have batch: "returns (bindM (dispatch_batch py_str runner meter rt f1 cs) (\<lambda>f2. ret (f2, None))) ?Q"
    if "closed_frame f1" "source f1 = source f" for f1 cs
    by (rule returns_bind [OF dispatch_batch_closed [OF that(1)]])
       (simp add: returns_def ret_def that(2))
  have body: "returns (?body g response) ?Q" if "same_core f g" for g response
  proof -
    from that assms have g: "closed_frame g" "source g = source f"
      using awaiting_core [of f g "[]"] by (simp_all add: same_core_def)
    then have "closed_frame (g\<lparr>exchanges := exchanges g @ [AssistantTurn t]\<rparr>)" for t
      by (simp add: awaiting_def)
    with g show ?thesis
      by (auto simp: Let_def throw intro!: batch returns_ret split: ai_content.split)
  qed
  have ask: "returns (bindM (invoke msgs tools c) (?body g)) ?Q" if "same_core f g" for msgs tools c g
    using body [OF that] by (rule returns_bind [OF returns_True])
  show ?thesis
    unfolding frame_step_def Let_def
    by (intro returns_lift_bind returns_prod, rule ask [unfolded Let_def], simp add: guard_core)
qed

lemma run_returns_closed:
  "closed_frame f \<Longrightarrow> returns (run n dumps py_str meter rt f)
     (\<lambda>(a, g). source g = source f \<and> closed_frame g \<and> strip is_space a \<noteq> [])"
proof (induction n arbitrary: f)
  case 0
  then show ?case by (simp add: returns_def lift_def)
next
  case (Suc n)
  show ?case
    unfolding run.simps
  proof (rule returns_bind [OF frame_step_closed [OF Suc.prems]], intro returns_prod)
    fix x g a
    assume "case x of (g, a) \<Rightarrow> source g = source f \<and> closed_frame g \<and> (\<forall>t. a = Some t \<longrightarrow> strip is_space t \<noteq> [])"
      "x = (g, a)"
    with Suc.IH [of g] show "returns (case a of None \<Rightarrow> run n dumps py_str meter rt g | Some a \<Rightarrow> ret (a, g))
        (\<lambda>(a, g). source g = source f \<and> closed_frame g \<and> strip is_space a \<noteq> [])"
      by (cases a) (auto intro: returns_ret)
  qed
qed

lemma new_frame_closed [simp]: "closed_frame (new_frame src q pr c)"
  by (simp add: awaiting_def new_frame_def)

section \<open>Transcripts\<close>

text \<open>The calls and results of a message list, and the transcripts in which they match.\<close>

definition msg_call_ids :: "message list \<Rightarrow> string list" where
  "msg_call_ids msgs = concat (map (\<lambda>m. case m of AIMsg t cs \<Rightarrow> map call_id cs | _ \<Rightarrow> []) msgs)"

definition msg_result_ids :: "message list \<Rightarrow> string list" where
  "msg_result_ids msgs = concat (map (\<lambda>m. case m of ToolMsg c i n \<Rightarrow> [i] | _ \<Rightarrow> []) msgs)"

definition answered :: "message list \<Rightarrow> bool" where
  "answered msgs \<longleftrightarrow> distinct (msg_call_ids msgs) \<and> distinct (msg_result_ids msgs)
     \<and> set (msg_call_ids msgs) = set (msg_result_ids msgs)"

definition answered_log :: "provider \<Rightarrow> bool" where
  "answered_log p \<longleftrightarrow> (\<forall>i \<in> set (sent p). answered (sent_messages i))"

lemma append_exchange_ids:
  assumes "msgs \<noteq> []"
  shows "msg_call_ids (append_exchange msgs x) = msg_call_ids msgs @ call_ids [x]"
    and "msg_result_ids (append_exchange msgs x) = msg_result_ids msgs @ result_ids [x]"
    and "append_exchange msgs x \<noteq> []"
proof -
  obtain ms m where "msgs = ms @ [m]" using assms by (metis rev_exhaust)
  then show "msg_call_ids (append_exchange msgs x) = msg_call_ids msgs @ call_ids [x]"
    "msg_result_ids (append_exchange msgs x) = msg_result_ids msgs @ result_ids [x]"
    "append_exchange msgs x \<noteq> []"
    by (auto simp: append_exchange_def msg_call_ids_def msg_result_ids_def
        split: plain.split message.split)
qed

lemma exchanged_ids:
  "msgs \<noteq> [] \<Longrightarrow> msg_call_ids (foldl append_exchange msgs xs) = msg_call_ids msgs @ call_ids xs
     \<and> msg_result_ids (foldl append_exchange msgs xs) = msg_result_ids msgs @ result_ids xs"
proof (induction xs arbitrary: msgs)
  case (Cons x xs)
  from Cons.IH [of "append_exchange msgs x"] append_exchange_ids [OF Cons.prems, of x]
  show ?case using ids_append [of "[x]" xs] by simp
qed simp

lemma provider_messages_answered:
  "closed_frame f \<Longrightarrow> answered (provider_messages dumps f budget)"
  using exchanged_ids [of "[SystemMsg (frame_prompt f budget),
      HumanMsg (''Historical evidence:'' @ newline @ dumps (JList (map evidence_json (source f)))),
      HumanMsg (question f)]" "exchanges f"]
  by (simp add: answered_def awaiting_def provider_messages_def msg_call_ids_def msg_result_ids_def)

lemma keeps_invoke:
  "answered msgs \<Longrightarrow> keeps answered_log (invoke msgs tools c)"
  by (auto simp: keeps_def invoke_def answered_log_def Let_def split: list.split)

named_theorems keeps_intros \<open>rules that establish \<open>keeps\<close> along the structure of the code\<close>

declare keeps_lift [keeps_intros]

lemma keeps_lift_bind [keeps_intros]:
  "(\<And>x. r = Inr x \<Longrightarrow> keeps I (f x)) \<Longrightarrow> keeps I (bindM (lift r) f)"
  by (cases r) (auto simp: keeps_def bindM_def lift_def)

lemma keeps_then: "keeps I m \<Longrightarrow> (\<And>x. keeps I (f x)) \<Longrightarrow> keeps I (bindM m f)"
  by (rule keeps_bind [OF _ returns_True])

lemma keeps_foldM: "(\<And>s x. keeps I (f s x)) \<Longrightarrow> keeps I (foldM f s xs)"
  by (induction xs arbitrary: s) (auto intro: keeps_intros keeps_then)

lemma child_closed: "closed_frame (child_frame rt m q c attempt level)"
  by (simp add: child_frame_def awaiting_def new_frame_def Let_def)

lemma guarded_closed: "guard meter rt f = Inr (rep, g) \<Longrightarrow> closed_frame f \<Longrightarrow> closed_frame g"
  by (blast intro: awaiting_core guard_core)

text \<open>A runner that keeps the log answered on closed frames, as every call of \<open>run\<close> does.\<close>

locale logging_runner =
  fixes runner :: runner
  assumes logs: "closed_frame f \<Longrightarrow> keeps answered_log (runner f)"
begin

lemma child_answer_logs: "keeps answered_log (child_answer runner meter rt m q c attempt level)"
  unfolding child_answer_def
  by (auto intro!: keeps_intros keeps_then logs guarded_closed [OF _ child_closed] split: prod.split)

lemma recall_attempt_logs: "keeps answered_log (recall_attempt runner meter rt f call rep m q a)"
  unfolding recall_attempt_def Let_def
  by (auto intro!: keeps_intros keeps_then child_answer_logs split: option.split)

lemma recall_body_logs: "keeps answered_log (recall_body py_str runner meter rt f call rep)"
  unfolding recall_body_def
  by (auto intro!: keeps_intros keeps_then recall_attempt_logs split: prod.split option.split)

lemma dispatch_logs: "keeps answered_log (dispatch py_str runner meter rt f call)"
  unfolding dispatch_def call_result_def Let_def
  by (auto intro!: keeps_intros keeps_then keeps_catch recall_body_logs split: prod.split option.split)

lemma batch_step_logs: "keeps answered_log (batch_step py_str runner meter rt f call)"
  unfolding batch_step_def
  by (auto intro!: keeps_intros keeps_then dispatch_logs split: prod.split option.split)

lemma dispatch_batch_logs: "keeps answered_log (dispatch_batch py_str runner meter rt f calls)"
  unfolding dispatch_batch_def Let_def
  by (auto intro!: keeps_intros keeps_then keeps_foldM batch_step_logs split: prod.split)

lemma frame_step_logs:
  assumes "closed_frame f"
  shows "keeps answered_log (frame_step dumps py_str runner meter rt f)"
proof -
  have ask: "keeps answered_log (invoke (provider_messages dumps g b) s c)"
    if "guard meter rt f = Inr (rep, g)" for rep g b s c
    by (intro keeps_invoke provider_messages_answered guarded_closed [OF that assms])
  show ?thesis
    unfolding frame_step_def Let_def
    by (auto intro!: keeps_intros keeps_then dispatch_batch_logs ask
        split: prod.split ai_content.split)
qed

end

lemma run_logs: "closed_frame f \<Longrightarrow> keeps answered_log (run n dumps py_str meter rt f)"
proof (induction n arbitrary: f)
  case 0
  then show ?case by (simp add: keeps_lift)
next
  case (Suc n)
  have runner: "logging_runner (run n dumps py_str meter rt)"
    by unfold_locales (rule Suc.IH)
  show ?case
    unfolding run.simps
  proof (rule keeps_bind [OF logging_runner.frame_step_logs [OF runner Suc.prems]
        frame_step_closed [OF Suc.prems]])
    fix x
    assume "case x of (g, a) \<Rightarrow> source g = source f \<and> closed_frame g \<and> (\<forall>t. a = Some t \<longrightarrow> strip is_space t \<noteq> [])"
    then show "keeps answered_log (case x of (g, a) \<Rightarrow>
        (case a of None \<Rightarrow> run n dumps py_str meter rt g | Some a \<Rightarrow> ret (a, g)))"
      by (auto intro: keeps_intros Suc.IH split: prod.split option.split)
  qed
qed

interpretation logged: logging_runner "run n dumps py_str meter rt"
  by unfold_locales (rule run_logs)

lemma recall_settles: "settles n (recall n dumps py_str meter rt context i q)"
  unfolding recall_def
  by (auto intro!: settles_intros fuelled.dispatch_settles split: prod.split)

lemma child_answer_within:
  "returns (child_answer runner meter rt m q c attempt level)
     (\<lambda>a. \<forall>t. a = Some t \<longrightarrow> (\<exists>n. count meter [Plain (AssistantTurn t)] = Inr n \<and> n \<le> c))"
  unfolding child_answer_def
  by (intro returns_lift_bind returns_prod returns_bind [OF returns_True] returns_ret) auto

definition within_cap :: "meter \<Rightarrow> runtime \<Rightarrow> tool_call \<Rightarrow> tool_result \<Rightarrow> bool" where
  "within_cap meter rt call r \<longleftrightarrow> (success r \<longrightarrow> (\<exists>t n. r = answer_result call (JStr t) None
     \<and> count meter [Plain (AssistantTurn t)] = Inr n \<and> n \<le> max 1 (top_level_answer_cap rt)))"

lemma within_cap_answer:
  "count meter [Plain (AssistantTurn t)] = Inr n \<Longrightarrow> n \<le> max 1 (top_level_answer_cap rt) \<Longrightarrow>
   returns (ret (answer_result call (JStr t) None)) (within_cap meter rt call)"
  by (intro returns_ret) (auto simp: within_cap_def)

lemma within_cap_half:
  "n \<le> max 1 (top_level_answer_cap rt div 2) \<Longrightarrow> n \<le> max 1 (top_level_answer_cap rt)"
  by linarith

lemma within_cap_error: "returns (ret (error_result call reason)) (within_cap meter rt call)"
  by (intro returns_ret) (simp add: within_cap_def error_result_def)

lemma top_level_within:
  "returns (recall_top_level py_str runner meter rt context call) (within_cap meter rt call)"
proof -
  have second: "returns (bindM (child_answer runner meter rt m q (max 1 (top_level_answer_cap rt div 2)) 1 True)
      (\<lambda>b. case b of Some answer \<Rightarrow> ret (answer_result call (JStr answer) None)
         | None \<Rightarrow> ret (error_result call ''recall_answer_limit_exceeded'')))
      (within_cap meter rt call)" for m q
    by (rule returns_bind [OF child_answer_within])
       (auto split: option.split intro: within_cap_answer within_cap_error dest!: within_cap_half)
  have first: "returns (bindM (child_answer runner meter rt m q (max 1 (top_level_answer_cap rt)) 0 True)
      (\<lambda>a. case a of Some answer \<Rightarrow> ret (answer_result call (JStr answer) None)
       | None \<Rightarrow> bindM (child_answer runner meter rt m q (max 1 (top_level_answer_cap rt div 2)) 1 True)
          (\<lambda>b. case b of Some answer \<Rightarrow> ret (answer_result call (JStr answer) None)
           | None \<Rightarrow> ret (error_result call ''recall_answer_limit_exceeded''))))
      (within_cap meter rt call)" for m q
    by (rule returns_bind [OF child_answer_within])
       (use second in \<open>auto split: option.split intro: within_cap_answer\<close>)
  show ?thesis
    unfolding recall_top_level_def Let_def
  proof (split if_split, intro conjI impI)
    show "returns (throw (ContextFailure ''unknown_recall_tool'')) (within_cap meter rt call)"
      by (simp add: returns_def lift_def)
  qed (intro returns_lift_bind returns_prod first)
qed

section \<open>Properties\<close>

text \<open>A concrete runtime and provider, for the witnesses: the model asks for its capacity, then
  answers.\<close>

definition example_runtime :: runtime where
  "example_runtime = \<lparr>total_context = 1000, reserve = 10, answer_cap = 50, answer_completion_cap = None,
     starvation_percentage = 20, top_level_reserve = 10, top_level_answer_cap = 50,
     top_level_completion_cap = None, top_level_starvation_percentage = 20\<rparr>"

definition example_meter :: meter where
  "example_meter ts = Inr (int (length ts))"

definition example_provider :: provider where
  "example_provider = \<lparr>outcomes =
     [Reply \<lparr>finish_reason = None, invalid_tool_calls = False,
        native_calls = [\<lparr>native_id = Some ''c'', native_name = ''remaining_context'', native_args = []\<rparr>],
        reply_content = OtherContent\<rparr>,
      Reply \<lparr>finish_reason = None, invalid_tool_calls = False, native_calls = [],
        reply_content = TextContent ''ok''\<rparr>], sent = []\<rparr>"

definition example_memory :: tombstone where
  "example_memory = Tombstone 0 ''s'' [UserTurn ''x''] [] None"

lemmas example_simps = example_runtime_def example_meter_def example_provider_def example_memory_def

lemma example_frame_run:
  "\<exists>g p'. run 3 (\<lambda>_. []) (\<lambda>_. []) example_meter example_runtime
     (new_frame [] ''q'' ''p'' 5) example_provider = (Inr (''ok'', g), p')"
proof -
  let ?r = "run 3 (\<lambda>_. []) (\<lambda>_. []) example_meter example_runtime
     (new_frame [] ''q'' ''p'' 5) example_provider"
  have "(case fst ?r of Inl e \<Rightarrow> False | Inr (a, g) \<Rightarrow> a = ''ok'')" by code_simp
  then show ?thesis by (cases ?r) (auto split: sum.splits)
qed

definition example_recall :: tool_call where
  "example_recall = \<lparr>call_id = ''c'', call_name = ''memory_recall'',
     arguments = [(''memory_id'', JStr (uuid_str 0)), (''question'', JStr ''q'')]\<rparr>"

lemma example_top_level:
  "\<exists>r p'. recall_top_level (\<lambda>_. []) (run 3 (\<lambda>_. []) (\<lambda>_. []) example_meter example_runtime)
       example_meter example_runtime [Memory example_memory] example_recall example_provider = (Inr r, p')
     \<and> success r"
proof -
  let ?child = "child_answer (run 3 (\<lambda>_. []) (\<lambda>_. []) example_meter example_runtime)
      example_meter example_runtime example_memory ''q'' 50 0 True example_provider"
  have c: "(case fst ?child of Inl e \<Rightarrow> False | Inr a \<Rightarrow> a \<noteq> None)" by code_simp
  have "visible_memory (\<lambda>_. []) [Memory example_memory] example_recall = Inr (example_memory, ''q'')"
    by (simp add: visible_memory_def memory_key_def example_recall_def example_memory_def eval_simps
        del: hex_digits_def uuid_str_def)
  moreover have "max 1 (top_level_answer_cap example_runtime) = 50" "call_name example_recall = ''memory_recall''"
    by (simp_all add: example_runtime_def example_recall_def)
  ultimately have "recall_top_level (\<lambda>_. []) (run 3 (\<lambda>_. []) (\<lambda>_. []) example_meter example_runtime)
       example_meter example_runtime [Memory example_memory] example_recall example_provider
     = (case ?child of (Inl e, p') \<Rightarrow> (Inl e, p') | (Inr (Some t), p') \<Rightarrow>
          ret (answer_result example_recall (JStr t) None) p' | (Inr None, p') \<Rightarrow> undefined)"
    using c unfolding recall_top_level_def
    by (cases ?child) (auto simp: Let_def bindM_def lift_def ret_def split: sum.splits)
  with c show ?thesis
    by (cases ?child) (auto simp: ret_def answer_result_def split: sum.splits)
qed

definition example_ask :: tool_call where
  "example_ask = \<lparr>call_id = ''c'', call_name = ''remaining_context'', arguments = []\<rparr>"

definition example_report :: tool_result where
  "example_report = answer_result example_ask (JStr [])
     (Some \<lparr>remaining_tokens = 987, remaining_percentage = JFrac 98700 1000, recall_permitted = True\<rparr>)"

lemma example_resolved:
  "resolved_result example_meter example_runtime (new_frame [] ''q'' ''p'' 5) example_ask (JStr []) =
   Inr (Some example_report)"
  by (simp add: example_simps example_ask_def example_report_def eval_simps Let_def numeral_eq_Suc)

text \<open>C33: A recall ends: with one unit of fuel more than the provider has outcomes left, the frame
  graph with all its nested child frames comes to an answer or to a failure the code raises.\<close>

theorem recall_terminates:
  assumes "length (outcomes p) < n"
  shows "fst (recall n dumps py_str meter rt context i q p) \<noteq> Inl OutOfFuel"
  using recall_settles [of n dumps py_str meter rt "context" i q] assms
  unfolding settles_def by blast

theorem recall_terminates_witness:
  "fst (recall 3 (\<lambda>_. []) (\<lambda>_. []) example_meter example_runtime [Memory example_memory] 0 ''q''
     example_provider) \<noteq> Inl OutOfFuel"
  by (rule recall_terminates) (simp add: example_provider_def)

text \<open>C34: When a frame answers, each call it admitted has exactly one result, no reserved result is
  left, its evidence is the one it was opened on, and the answer is not blank.\<close>

theorem run_closes_calls:
  assumes "run n dumps py_str meter rt (new_frame src q pr c) p = (Inr (a, g), p')"
  shows "distinct (call_ids (exchanges g)) \<and> distinct (result_ids (exchanges g))
    \<and> set (call_ids (exchanges g)) = set (result_ids (exchanges g))
    \<and> pending_results g = [] \<and> source g = src \<and> strip is_space a \<noteq> []"
  using run_returns_closed [of "new_frame src q pr c" n dumps py_str meter rt] assms
  unfolding returns_def by (auto simp: awaiting_def new_frame_def)

theorem run_closes_calls_witness:
  "\<exists>g p'. run 3 (\<lambda>_. []) (\<lambda>_. []) example_meter example_runtime
     (new_frame [] ''q'' ''p'' 5) example_provider = (Inr (''ok'', g), p')
   \<and> pending_results g = [] \<and> set (call_ids (exchanges g)) = set (result_ids (exchanges g))"
  using example_frame_run run_closes_calls [of 3 "\<lambda>_. []" "\<lambda>_. []" example_meter example_runtime "[]"
      "''q''" "''p''" 5 example_provider "''ok''"] by blast

text \<open>In every transcript that a recall sends to the model provider, in whatever nested frame
  and also when it fails, each tool call has exactly one tool message.\<close>

theorem recall_transcripts_answered:
  assumes "answered_log p"
  shows "answered_log (snd (recall n dumps py_str meter rt context i q p))"
proof -
  have "keeps answered_log (recall n dumps py_str meter rt context i q)"
    unfolding recall_def by (auto intro!: keeps_then keeps_intros logged.dispatch_logs split: prod.split)
  with assms show ?thesis unfolding keeps_def by blast
qed

theorem recall_transcripts_answered_witness:
  "answered_log (snd (recall 3 (\<lambda>_. []) (\<lambda>_. []) example_meter example_runtime
     [Memory example_memory] 0 ''q'' example_provider))"
  by (rule recall_transcripts_answered) (simp add: answered_log_def example_provider_def)

text \<open>A capacity report is never too high: the result that is admitted reports at most what is
  measured as remaining with that very result in the frame, and that is not negative.\<close>

theorem resolved_result_honest:
  assumes "resolved_result meter rt f call v = Inr (Some r)"
  shows "\<exists>rep m. r = answer_result call v (Some rep)
    \<and> remaining meter rt (with_result f call r) f = Inr m
    \<and> 0 \<le> remaining_tokens m \<and> remaining_tokens rep \<le> remaining_tokens m"
  using assms unfolding resolved_result_def by (rule resolve_loop_sound)

theorem resolved_result_honest_witness:
  "\<exists>m. remaining example_meter example_runtime
     (with_result (new_frame [] ''q'' ''p'' 5) example_ask example_report) (new_frame [] ''q'' ''p'' 5) = Inr m
     \<and> 0 \<le> remaining_tokens m"
  using resolved_result_honest [OF example_resolved] by (elim exE conjE) (intro exI conjI)

text \<open>A top-level recall that succeeds gives an answer of at most the configured number of
  tokens; otherwise its result is the error of that name.\<close>

theorem top_level_answer_bounded:
  assumes "recall_top_level py_str runner meter rt context call p = (Inr r, p')" "success r"
  shows "\<exists>t n. r = answer_result call (JStr t) None
    \<and> count meter [Plain (AssistantTurn t)] = Inr n \<and> n \<le> max 1 (top_level_answer_cap rt)"
  using top_level_within [of py_str runner meter rt "context" call] assms
  unfolding returns_def within_cap_def by blast

theorem top_level_answer_bounded_witness:
  "\<exists>r p'. recall_top_level (\<lambda>_. []) (run 3 (\<lambda>_. []) (\<lambda>_. []) example_meter example_runtime)
       example_meter example_runtime [Memory example_memory] example_recall example_provider = (Inr r, p')
     \<and> (\<exists>t n. r = answer_result example_recall (JStr t) None
          \<and> count example_meter [Plain (AssistantTurn t)] = Inr n \<and> n \<le> 50)"
proof -
  obtain r p' where r: "recall_top_level (\<lambda>_. []) (run 3 (\<lambda>_. []) (\<lambda>_. []) example_meter example_runtime)
       example_meter example_runtime [Memory example_memory] example_recall example_provider = (Inr r, p')"
    "success r"
    using example_top_level by blast
  from r(1) top_level_answer_bounded [OF r] show ?thesis by (auto simp: example_runtime_def)
qed

end
