(* ===== verification/Compactor_Facts.thy ===== *)
theory Compactor_Facts
  imports Compactor
begin

text \<open>
  What compaction guarantees: the boundaries are exactly the user turns at which every call has its
  result and no task runs; no turn of the history is lost; the result is within the target; every
  memory pays for itself; and the rounds come to an end.
\<close>

section \<open>Safe boundaries\<close>

definition apply_transition :: "string set \<Rightarrow> task_transition \<Rightarrow> string set" where
  "apply_transition T t = (if task_state t = Created then insert (task_id t) T else T - {task_id t})"

definition turn_transitions :: "turn \<Rightarrow> task_transition list" where
  "turn_transitions t = (case t of Plain (ResultTurn r) \<Rightarrow> task_transitions r | _ \<Rightarrow> [])"

text \<open>The tasks that run after a history, and the histories whose calls all have a result.\<close>

definition running :: "turn list \<Rightarrow> string set" where
  "running ts = foldl apply_transition {} (concat (map turn_transitions ts))"

definition calls_closed :: "turn list \<Rightarrow> bool" where
  "calls_closed ts \<longleftrightarrow> set (call_ids (plains ts)) = set (result_ids (plains ts))"

definition is_boundary :: "turn list \<Rightarrow> nat \<Rightarrow> bool" where
  "is_boundary ts i \<longleftrightarrow> 0 < i \<and> is_user (ts ! i) \<and> calls_closed (take i ts) \<and> running (take i ts) = {}"

text \<open>What the scan knows of the turns it has seen.\<close>

definition scan_inv :: "turn list \<Rightarrow> scan \<Rightarrow> bool" where
  "scan_inv ts s \<longleftrightarrow> seen_calls s = set (call_ids (plains ts))
     \<and> set (map fst (open_calls s)) = set (call_ids (plains ts)) - set (result_ids (plains ts))
     \<and> set (result_ids (plains ts)) \<subseteq> set (call_ids (plains ts))
     \<and> open_tasks s = running ts
     \<and> found s = filter (is_boundary ts) [0..<length ts]
     \<and> \<not> list_ex is_memory (tl ts)"

lemma scan_transitions:
  "foldE scan_transition T xs = Inr T' \<Longrightarrow> T' = foldl apply_transition T xs"
  by (induction xs arbitrary: T)
     (auto simp: result_simps scan_transition_def apply_transition_def split: if_split_asm)

lemma running_snoc: "running (ts @ [t]) = foldl apply_transition (running ts) (turn_transitions t)"
  by (simp add: running_def)

lemma boundary_append: "i < length ts \<Longrightarrow> is_boundary (ts @ us) i \<longleftrightarrow> is_boundary ts i"
  by (simp add: is_boundary_def nth_append)

lemma boundaries_snoc:
  "filter (is_boundary (ts @ [t])) [0..<length (ts @ [t])] =
     filter (is_boundary ts) [0..<length ts]
     @ (if 0 < length ts \<and> is_user t \<and> calls_closed ts \<and> running ts = {} then [length ts] else [])"
proof -
  have "filter (is_boundary (ts @ [t])) [0..<length ts] = filter (is_boundary ts) [0..<length ts]"
    by (rule filter_cong) (auto simp: boundary_append)
  then show ?thesis by (simp add: is_boundary_def nth_append)
qed

lemma open_empty: "scan_inv ts s \<Longrightarrow> open_calls s = [] \<longleftrightarrow> calls_closed ts"
  by (auto simp: scan_inv_def calls_closed_def)

lemma not_user_boundary:
  "\<not> is_user t \<Longrightarrow> filter (is_boundary (ts @ [t])) [0..<length (ts @ [t])] = filter (is_boundary ts) [0..<length ts]"
  by (simp only: boundaries_snoc) simp

lemma not_user: "\<not> is_user (Plain (CallTurn c))" "\<not> is_user (Plain (ResultTurn r))" "\<not> is_user (Memory m)"
  "\<not> is_user (Plain (AssistantTurn t))"
  by simp_all

lemma tl_plain: "\<not> list_ex is_memory (tl ts) \<Longrightarrow> \<not> list_ex is_memory (tl (ts @ [Plain p]))"
  by (cases ts) auto

lemma scan_call_inv:
  assumes "scan_inv ts s" "scan_call s c = Inr s'"
  shows "scan_inv (ts @ [Plain (CallTurn c)]) s'"
proof -
  from assms(2) have c: "call_id c \<notin> seen_calls s"
    "s' = s\<lparr>open_calls := open_calls s @ [(call_id c, call_name c)],
            seen_calls := insert (call_id c) (seen_calls s)\<rparr>"
    by (auto simp: scan_call_def split: if_split_asm)
  with assms(1) have "insert (call_id c) (set (map fst (open_calls s)))
      = insert (call_id c) (set (call_ids (plains ts))) - set (result_ids (plains ts))"
    unfolding scan_inv_def by blast
  with assms(1) show ?thesis
    unfolding scan_inv_def not_user_boundary [of "Plain (CallTurn c)" ts, OF not_user(1)]
    by (elim conjE, intro conjI, simp_all add: c(2) running_snoc turn_transitions_def tl_plain)
       blast
qed

lemma scan_result_inv:
  assumes "scan_inv ts s" "scan_result s r = Inr s'"
  shows "scan_inv (ts @ [Plain (ResultTurn r)]) s'"
proof -
  from assms(2) obtain name T where r: "map_of (open_calls s) (tool_call_id r) = Some name"
    "foldE scan_transition (open_tasks s) (task_transitions r) = Inr T"
    "s' = s\<lparr>open_calls := filter (\<lambda>(i, n). i \<noteq> tool_call_id r) (open_calls s), open_tasks := T\<rparr>"
    by (auto simp: scan_result_def result_simps split: option.splits if_split_asm)
  from r(1) have mem: "tool_call_id r \<in> set (map fst (open_calls s))"
    by (auto dest: map_of_SomeD intro: rev_image_eqI)
  have del: "set (map fst (filter (\<lambda>(i, n). i \<noteq> x) cs)) = set (map fst cs) - {x}" for x and cs :: "(string \<times> string) list"
    by (induction cs) auto
  have O: "set (map fst (open_calls s')) = set (map fst (open_calls s)) - {tool_call_id r}"
    using del [of "tool_call_id r" "open_calls s"] by (simp add: r(3))
  have "found s' = found s" "seen_calls s' = seen_calls s" "open_tasks s' = T"
    by (simp_all add: r(3))
  moreover have "plains (ts @ [Plain (ResultTurn r)]) = plains ts @ [ResultTurn r]" by simp
  moreover have "running (ts @ [Plain (ResultTurn r)]) = T"
    using assms(1) scan_transitions [OF r(2)]
    by (simp add: scan_inv_def running_snoc turn_transitions_def)
  moreover have "set (call_ids (plains ts @ [ResultTurn r])) = set (call_ids (plains ts))"
    "set (result_ids (plains ts @ [ResultTurn r])) = insert (tool_call_id r) (set (result_ids (plains ts)))"
    by simp_all
  ultimately show ?thesis
    using assms(1) mem tl_plain
    unfolding scan_inv_def not_user_boundary [of "Plain (ResultTurn r)" ts, OF not_user(2)] O
    by (elim conjE, intro conjI, simp_all only:) blast+
qed

lemma scan_turn_inv:
  assumes "scan_inv ts s" "scan_turn s (length ts, t) = Inr s'"
  shows "scan_inv (ts @ [t]) s'"
proof -
  have skip: "scan_inv (ts @ [Plain p]) s"
    if "p = AssistantTurn x" for p x
    using assms(1) tl_plain
    unfolding scan_inv_def that not_user_boundary [of "Plain (AssistantTurn x)" ts, OF not_user(4)]
    by (elim conjE, intro conjI, simp_all add: running_snoc turn_transitions_def)
  consider (user) x where "t = Plain (UserTurn x)" | (call) c where "t = Plain (CallTurn c)"
    | (result) r where "t = Plain (ResultTurn r)" | (assistant) x where "t = Plain (AssistantTurn x)"
    | (memory) m where "t = Memory m"
    by (cases t; cases "case t of Plain p \<Rightarrow> p") auto
  then show ?thesis
  proof cases
    case user
    have "scan_inv (ts @ [t]) (if 0 < length ts \<and> open_calls s = [] \<and> open_tasks s = {}
        then s\<lparr>found := found s @ [length ts]\<rparr> else s)"
      using assms(1) open_empty [OF assms(1)]
      unfolding scan_inv_def boundaries_snoc user
      by (elim conjE, intro conjI, simp_all add: running_snoc turn_transitions_def tl_plain)
    with assms(2) show ?thesis by (simp add: user scan_turn_def)
  next
    case call
    with assms scan_call_inv [OF assms(1), of _ s'] show ?thesis by (simp add: scan_turn_def)
  next
    case result
    with assms scan_result_inv [OF assms(1), of _ s'] show ?thesis by (simp add: scan_turn_def)
  next
    case assistant
    with assms(2) skip show ?thesis by (simp add: scan_turn_def)
  next
    case memory
    with assms have "ts = []" "s' = s" by (auto simp: scan_turn_def split: if_split_asm)
    with assms(1) memory show ?thesis
      by (simp add: scan_inv_def running_def turn_transitions_def is_boundary_def)
  qed
qed

lemma scan_spec: "foldE scan_turn new_scan (enumerate 0 ts) = Inr s \<Longrightarrow> scan_inv ts s"
proof (induction ts arbitrary: s rule: rev_induct)
  case Nil
  then show ?case by (auto simp: scan_inv_def new_scan_def running_def)
next
  case (snoc t ts)
  from snoc.prems obtain s0 where "foldE scan_turn new_scan (enumerate 0 ts) = Inr s0"
    "scan_turn s0 (length ts, t) = Inr s"
    by (auto simp: enumerate_append_eq foldE_append result_simps)
  with snoc.IH scan_turn_inv show ?case by blast
qed

lemma safe_boundaries_spec:
  assumes "safe_boundaries src = Inr bs"
  shows "bs = filter (is_boundary src) [0..<length src]" "calls_closed src" "\<not> list_ex is_memory (tl src)"
proof -
  from assms obtain s where s: "foldE scan_turn new_scan (enumerate 0 src) = Inr s" "open_calls s = []"
    "bs = found s"
    by (auto simp: safe_boundaries_def result_simps split: if_split_asm)
  from scan_spec [OF s(1)] open_empty [OF scan_spec [OF s(1)]] s(2,3)
  show "bs = filter (is_boundary src) [0..<length src]" "calls_closed src" "\<not> list_ex is_memory (tl src)"
    by (simp_all add: scan_inv_def)
qed

section \<open>Replacement\<close>

text \<open>One round on a history whose memories stand first: the memory that comes out stands for the
  same turns, keeps fewer of them outside, and costs less than what it replaced.\<close>

definition memory_first :: "turn list \<Rightarrow> bool" where
  "memory_first ts \<longleftrightarrow> \<not> list_ex is_memory (tl ts)"

lemma replacement_memoryD:
  assumes "replacement_memory out c i pre rest summary = Inr m" "pre \<noteq> []"
  shows "archive m = full_history pre" "remaining_messages m = plains rest"
    "full_history (active_context m) = full_history (pre @ rest)"
    "\<exists>before after'. count (tokens out) pre = Inr before \<and> count (tokens out) [Memory m] = Inr after'
       \<and> after' * 100 \<le> before * (100 - minimum_reduction c)"
    "\<exists>n. count (tokens out) [Plain (AssistantTurn summary)] = Inr n \<and> n \<le> c_summary_cap c"
    "summarization m = summary" "strip is_space summary \<noteq> []"
proof -
  define inner where "inner = (case pre of Memory m # _ \<Rightarrow> Some m | _ \<Rightarrow> None)"
  define originals where "originals = (if inner \<noteq> None then tl pre else pre)"
  have "replacement_memory out c i pre rest summary =
     bindE (count (tokens out) [Plain (AssistantTurn summary)]) (\<lambda>n.
       if n > c_summary_cap c then Inl (ContextFailure ''summary_output_limit'')
       else if list_ex is_memory (originals @ rest) then Inl (ContextFailure ''invalid_memory_position'')
       else bindE (make_tombstone i summary (plains originals) (plains rest) inner) (\<lambda>memory.
           bindE (count (tokens out) pre) (\<lambda>before.
           bindE (count (tokens out) [Memory memory]) (\<lambda>after'.
             if after' * 100 > before * (100 - minimum_reduction c)
             then Inl (ContextFailure ''insufficient_compaction_progress'')
             else Inr memory))))"
    by (simp only: replacement_memory_def Let_def inner_def originals_def)
  with assms(1) obtain n before after' where r: "count (tokens out) [Plain (AssistantTurn summary)] = Inr n"
    "n \<le> c_summary_cap c" "\<not> list_ex is_memory (originals @ rest)"
    "make_tombstone i summary (plains originals) (plains rest) inner = Inr m"
    "count (tokens out) pre = Inr before" "count (tokens out) [Memory m] = Inr after'"
    "after' * 100 \<le> before * (100 - minimum_reduction c)"
    by (auto simp: result_simps split: if_split_asm)
  then have m: "m = Tombstone i summary (plains originals) (plains rest) inner"
    "strip is_space summary \<noteq> []"
    by (auto simp: make_tombstone_def split: if_split_asm)
  have split: "full_history pre = (case inner of None \<Rightarrow> [] | Some k \<Rightarrow> archive k) @ full_history originals"
  proof (cases pre)
    case (Cons t ts)
    then show ?thesis by (cases t) (auto simp: inner_def originals_def)
  qed (use assms(2) in simp)
  from r(3) have "full_history originals = plains originals" "full_history rest = plains rest"
    by (auto intro: full_history_no_memory)
  with split m show "archive m = full_history pre" "remaining_messages m = plains rest"
    "full_history (active_context m) = full_history (pre @ rest)"
    "summarization m = summary" "strip is_space summary \<noteq> []"
    by simp_all
  from r show "\<exists>before after'. count (tokens out) pre = Inr before \<and> count (tokens out) [Memory m] = Inr after'
       \<and> after' * 100 \<le> before * (100 - minimum_reduction c)"
    "\<exists>n. count (tokens out) [Plain (AssistantTurn summary)] = Inr n \<and> n \<le> c_summary_cap c"
    by auto
qed

text \<open>The memory a round may return for a history.\<close>

definition good_memory :: "outside \<Rightarrow> compactor \<Rightarrow> turn list \<Rightarrow> tombstone \<Rightarrow> bool" where
  "good_memory out c src m \<longleftrightarrow>
     (\<exists>k before after' n. is_boundary src k \<and> k < length src
        \<and> full_history (active_context m) = full_history src
        \<and> remaining_messages m = plains (drop k src) \<and> plains (take k src) \<noteq> []
        \<and> count (tokens out) (take k src) = Inr before \<and> count (tokens out) [Memory m] = Inr after'
        \<and> after' * 100 \<le> before * (100 - minimum_reduction c)
        \<and> count (tokens out) [Plain (AssistantTurn (summarization m))] = Inr n \<and> n \<le> c_summary_cap c
        \<and> strip is_space (summarization m) \<noteq> [])"

lemma good_memory_history: "good_memory out c src m \<Longrightarrow> full_history (active_context m) = full_history src"
  by (auto simp: good_memory_def simp del: full_history_active)

lemma good_memory_shrinks:
  assumes "good_memory out c src m"
  shows "length (plains (active_context m)) < length (plains src)"
proof -
  from assms obtain k where k: "remaining_messages m = plains (drop k src)" "plains (take k src) \<noteq> []"
    unfolding good_memory_def by blast
  have "length (plains (take k src @ drop k src)) = length (plains (take k src)) + length (remaining_messages m)"
    by (simp only: plains_append length_append k(1))
  with k(2) show ?thesis by (simp add: active_context_def)
qed

lemma prefix_plain:
  assumes "memory_first src" "0 < k" "k < length src"
    "\<not> (length (take k src) = 1 \<and> list_ex is_memory (take k src))"
  shows "plains (take k src) \<noteq> []"
proof -
  obtain t ts where src: "src = t # ts" using assms(3) by (cases src) auto
  obtain j where j: "k = Suc j" using assms(2) by (cases k) auto
  show ?thesis
  proof (cases t)
    case (Memory m)
    with assms src j have "j \<noteq> 0" by auto
    with src assms(3) j obtain u us where "take j ts = u # us" by (cases j; cases ts) auto
    moreover from this have "u \<in> set ts" by (metis list.set_intros(1) in_set_takeD)
    with assms(1) src have "\<not> is_memory u" by (auto simp: memory_first_def list_ex_iff)
    ultimately show ?thesis using src j Memory by (cases u) auto
  qed (simp add: src j)
qed

lemma try_ratios_good:
  assumes "memory_first src" "\<forall>(k, n) \<in> set positions. is_boundary src k \<and> k < length src"
  shows "returns (try_ratios out c runner i src whole positions ratios seen)
    (\<lambda>r. \<forall>m. r = Some m \<longrightarrow> good_memory out c src m)"
proof (induction ratios arbitrary: seen)
  case Nil
  then show ?case by (auto intro: returns_intros)
next
  case (Cons ratio ratios)
  show ?case
  proof (cases "find (\<lambda>(k, n). 100 * n \<ge> whole * ratio) positions")
    case None
    with Cons.IH show ?thesis by simp
  next
    case (Some kn)
    then have "kn \<in> set positions" by (metis find_Some_iff nth_mem)
    moreover obtain k n where "kn = (k, n)" by (cases kn)
    ultimately have kn: "kn = (k, n)" "(k, n) \<in> set positions" by simp_all
    with assms(2) have k: "is_boundary src k" "k < length src" "0 < k" "take k src \<noteq> []"
      by (auto simp: is_boundary_def)
    have replace: "returns (bindM (lift (replacement_memory out c i (take k src) (drop k src) summary))
        (\<lambda>m. ret (Some m))) (\<lambda>r. \<forall>m. r = Some m \<longrightarrow> good_memory out c src m)"
      if "\<not> (length (take k src) = 1 \<and> list_ex is_memory (take k src))" for summary
    proof (intro returns_lift_bind returns_ret allI impI)
      fix m m'
      assume m: "replacement_memory out c i (take k src) (drop k src) summary = Inr m" "Some m = Some m'"
      from replacement_memoryD [OF m(1) k(4)] prefix_plain [OF assms(1) k(3,2) that] k(1,2) m(2)
      show "good_memory out c src m'" unfolding good_memory_def by (fastforce simp: append_take_drop_id)
    qed
    have "returns (bindM (summarize out c runner (take k src)) (\<lambda>s.
            case s of None \<Rightarrow> try_ratios out c runner i src whole positions ratios (k # seen)
            | Some summary \<Rightarrow>
                bindM (lift (replacement_memory out c i (take k src) (drop k src) summary))
                  (\<lambda>m. ret (Some m))))
        (\<lambda>r. \<forall>m. r = Some m \<longrightarrow> good_memory out c src m)"
      if "\<not> (length (take k src) = 1 \<and> list_ex is_memory (take k src))"
      by (rule returns_bind [OF returns_True]) (auto intro: Cons.IH replace [OF that] split: option.split)
    with Cons.IH show ?thesis
      unfolding try_ratios.simps Some kn option.case prod.case by (simp split: if_split)
  qed
qed

section \<open>Rounds\<close>

definition round_result :: "outside \<Rightarrow> compactor \<Rightarrow> int \<Rightarrow> working \<Rightarrow> working \<Rightarrow> bool" where
  "round_result out c target w w' \<longleftrightarrow>
     (w' = w\<lparr>w_done := True\<rparr> \<and> w_memory w \<noteq> None
        \<and> (\<exists>n. count (tokens out) (w_source w) = Inr n \<and> n \<le> target))
     \<or> (\<exists>m. w' = \<lparr>w_source = active_context m, w_memory = Some m, w_done = False\<rparr>
        \<and> good_memory out c (w_source w) m)"

lemma positions_boundaries:
  assumes "safe_boundaries src = Inr bs"
    "mapE (\<lambda>k. bindE (count (tokens out) (take k src)) (\<lambda>n. Inr (k, n))) bs = Inr positions"
  shows "\<forall>(k, n) \<in> set positions. is_boundary src k \<and> k < length src"
proof -
  from assms(2) have "map fst positions = bs"
    unfolding mapE_eq_Inr by (induction rule: list_all2_induct) (auto simp: result_simps)
  then have "fst ` set positions = set bs" by (metis list.set_map)
  with safe_boundaries_spec(1) [OF assms(1)] show ?thesis by force
qed

lemma compact_round_result: "returns (compact_round out c runner target i w) (round_result out c target w)"
proof -
  have replaced: "returns (bindM (try_ratios out c runner (new_uuid out i) (w_source w) n positions [50, 40, 30, 20, 10] [])
      (\<lambda>replacement. case replacement of
          None \<Rightarrow> throw (ContextFailure ''no_safe_fitting_prefix'')
        | Some m \<Rightarrow> ret \<lparr>w_source = active_context m, w_memory = Some m, w_done = False\<rparr>))
      (round_result out c target w)"
    if "safe_boundaries (w_source w) = Inr bs"
      "mapE (\<lambda>k. bindE (count (tokens out) (take k (w_source w))) (\<lambda>n. Inr (k, n))) bs = Inr positions"
    for n bs positions
  proof (rule returns_bind [OF try_ratios_good])
    show "memory_first (w_source w)"
      using safe_boundaries_spec(3) [OF that(1)] by (simp add: memory_first_def)
    show "\<forall>(k, n) \<in> set positions. is_boundary (w_source w) k \<and> k < length (w_source w)"
      by (rule positions_boundaries [OF that])
  qed (auto intro!: returns_intros simp: round_result_def split: option.split)
  show ?thesis
    unfolding compact_round_def
    by (auto intro!: returns_intros replaced simp: round_result_def simp del: try_ratios.simps)
qed

text \<open>What holds between rounds, for a compaction of \<open>msgs\<close>.\<close>

definition compaction_inv :: "outside \<Rightarrow> compactor \<Rightarrow> int \<Rightarrow> turn list \<Rightarrow> working \<Rightarrow> bool" where
  "compaction_inv out c target msgs w \<longleftrightarrow>
     full_history (w_source w) = full_history msgs
     \<and> (\<forall>m. w_memory w = Some m \<longrightarrow> w_source w = active_context m \<and> (\<exists>src. good_memory out c src m))
     \<and> (w_done w \<longrightarrow> w_memory w \<noteq> None \<and> (\<exists>n. count (tokens out) (w_source w) = Inr n \<and> n \<le> target))"

lemma round_result_inv:
  assumes "compaction_inv out c target msgs w" "round_result out c target w w'"
  shows "compaction_inv out c target msgs w'"
  using assms(2) unfolding round_result_def
proof (elim disjE exE conjE)
  assume w': "w' = w\<lparr>w_done := True\<rparr>" "w_memory w \<noteq> None"
  fix n
  assume "count (tokens out) (w_source w) = Inr n" "n \<le> target"
  with assms(1) w' show ?thesis by (auto simp: compaction_inv_def)
next
  fix m
  assume "w' = \<lparr>w_source = active_context m, w_memory = Some m, w_done = False\<rparr>"
    and m: "good_memory out c (w_source w) m"
  then show ?thesis
    using assms(1) good_memory_history [OF m] by (auto simp: compaction_inv_def simp del: full_history_active)
qed

lemma compact_rounds_inv:
  "compaction_inv out c target msgs w \<Longrightarrow>
   returns (compact_rounds k out c runner target i w) (\<lambda>w'. compaction_inv out c target msgs w' \<and> w_done w')"
proof (induction k arbitrary: i w)
  case 0
  then show ?case by (simp add: returns_def lift_def)
next
  case (Suc k)
  show ?case
  proof (cases "w_done w")
    case True
    with Suc.prems show ?thesis by (auto intro: returns_ret)
  next
    case False
    have "returns (bindM (compact_round out c runner target i w) (compact_rounds k out c runner target (Suc i)))
        (\<lambda>w'. compaction_inv out c target msgs w' \<and> w_done w')"
      by (rule returns_bind [OF compact_round_result])
         (blast intro: Suc.IH round_result_inv [OF Suc.prems])
    with False show ?thesis by simp
  qed
qed

section \<open>The rounds end\<close>

lemma settles_returns_bind:
  assumes "settles k m" "returns m P" "\<And>x. P x \<Longrightarrow> settles k (f x)"
  shows "settles k (bindM m f)"
  unfolding settles_def
proof (intro allI impI)
  fix p :: provider
  assume p: "length (outcomes p) < k"
  with assms(1) have m: "fst (m p) \<noteq> Inl OutOfFuel" "length (outcomes (snd (m p))) \<le> length (outcomes p)"
    unfolding settles_def by blast+
  show "fst (bindM m f p) \<noteq> Inl OutOfFuel \<and> length (outcomes (snd (bindM m f p))) \<le> length (outcomes p)"
  proof (cases rule: bindM_cases [of m p f])
    case (1 e p')
    with m show ?thesis by simp
  next
    case (2 x p')
    with assms(2) have "P x" unfolding returns_def by blast
    moreover from 2 m(2) p have "length (outcomes p') < k" by simp
    ultimately have "fst (f x p') \<noteq> Inl OutOfFuel
        \<and> length (outcomes (snd (f x p'))) \<le> length (outcomes p')"
      using assms(3) unfolding settles_def by blast
    with 2 m(2) show ?thesis by auto
  qed
qed

lemma parse_summary_no_fuel [settles_intros]: "parse_summary loads decode t \<noteq> Inl OutOfFuel"
  by (simp add: parse_summary_def split: option.split)

lemma foldE_error:
  "(\<And>s x. f s x \<noteq> Inl e) \<Longrightarrow> foldE f s xs \<noteq> Inl e"
  by (induction xs arbitrary: s) (auto simp: bindE_eq_Inl)

lemma mapE_error: "(\<And>x. f x \<noteq> Inl e) \<Longrightarrow> mapE f xs \<noteq> Inl e"
  by (induction xs) (auto simp: bindE_eq_Inl)

lemma safe_boundaries_no_fuel [settles_intros]: "safe_boundaries src \<noteq> Inl OutOfFuel"
proof -
  have "foldE scan_transition T xs \<noteq> Inl OutOfFuel" for T xs
    by (rule foldE_error) (simp add: scan_transition_def)
  then have "scan_turn s it \<noteq> Inl OutOfFuel" for s it
    by (auto simp: scan_turn_def scan_call_def scan_result_def bindE_eq_Inl Let_def
        split: prod.split turn.split plain.split option.split)
  then have "foldE scan_turn new_scan (enumerate 0 src) \<noteq> Inl OutOfFuel" by (rule foldE_error)
  then show ?thesis by (auto simp: safe_boundaries_def bindE_eq_Inl)
qed

lemma replacement_no_fuel [settles_intros]: "replacement_memory out c i pre rest summary \<noteq> Inl OutOfFuel"
  using no_fuel(1) by (auto simp: replacement_memory_def bindE_eq_Inl Let_def make_tombstone_def)

lemma unless_overflow_settles: "settles k m \<Longrightarrow> settles k (unless_overflow m)"
  unfolding unless_overflow_def by (auto intro!: settles_intros split: error.split)

context frame_runner
begin

lemma summarize_settles: "settles k (summarize out c runner pre)"
  unfolding summarize_def
  by (auto intro!: settles_intros unless_overflow_settles runner split: option.split prod.split sum.split)

lemma try_ratios_settles: "settles k (try_ratios out c runner i src whole positions ratios seen)"
  by (induction ratios arbitrary: seen)
     (auto intro!: settles_intros summarize_settles split: option.split prod.split)

lemma compact_round_settles: "settles k (compact_round out c runner target i w)"
proof -
  have "mapE (\<lambda>j. bindE (count (tokens out) (take j (w_source w))) (\<lambda>n. Inr (j, n))) bs \<noteq> Inl OutOfFuel" for bs
    using no_fuel(1) by (intro mapE_error) (simp add: bindE_eq_Inl)
  then show ?thesis
    unfolding compact_round_def
    by (auto intro!: settles_intros try_ratios_settles simp del: try_ratios.simps split: option.split)
qed

end

text \<open>Each replacement leaves fewer turns outside the memory, so that their number, plus two, is
  enough for the rounds.\<close>

lemma compact_rounds_settle:
  assumes "frame_runner runner k"
  shows "w_done w \<or> length (plains (w_source w)) + 2 \<le> r \<Longrightarrow> 0 < r \<Longrightarrow>
    settles k (compact_rounds r out c runner target i w)"
proof (induction r arbitrary: i w)
  case 0
  then show ?case by simp
next
  case (Suc r)
  show ?case
  proof (cases "w_done w")
    case True
    then show ?thesis by (auto intro: settles_intros)
  next
    case False
    have "settles k (bindM (compact_round out c runner target i w) (compact_rounds r out c runner target (Suc i)))"
    proof (rule settles_returns_bind [OF frame_runner.compact_round_settles [OF assms] compact_round_result])
      fix w'
      assume "round_result out c target w w'"
      then show "settles k (compact_rounds r out c runner target (Suc i) w')"
        unfolding round_result_def
      proof (elim disjE exE conjE)
        assume "w' = w\<lparr>w_done := True\<rparr>" "w_memory w \<noteq> None"
        with Suc.prems False show ?thesis by (intro Suc.IH) auto
      next
        fix m
        assume w': "w' = \<lparr>w_source = active_context m, w_memory = Some m, w_done = False\<rparr>"
          and m: "good_memory out c (w_source w) m"
        with Suc.prems False good_memory_shrinks [OF m] show ?thesis
          by (intro Suc.IH) (auto split: if_split_asm)
      qed
    qed
    with False show ?thesis by simp
  qed
qed

section \<open>Compaction\<close>

lemma compact_returned:
  assumes "compact rounds fuel current out c b p = (Inr m, p')"
  shows "full_history (active_context m) = full_history (request_messages b)"
    "\<exists>n. count (tokens out) (active_context m) = Inr n \<and> n \<le> target_tokens b"
    "\<exists>src. good_memory out c src m"
proof -
  let ?start = "\<lparr>w_source = request_messages b, w_memory = None, w_done = False\<rparr>"
  have start: "compaction_inv out c (target_tokens b) (request_messages b) ?start"
    by (simp add: compaction_inv_def)
  have loop: "returns (bindM (compact_rounds rounds out c
        (run fuel (json_dumps out) (render out) (tokens out) rt) (target_tokens b) 0 ?start)
        (\<lambda>w. case w_memory w of None \<Rightarrow> throw (ContextFailure ''no_compaction_result'') | Some m \<Rightarrow> ret m))
      (\<lambda>m. \<exists>w. w_memory w = Some m \<and> w_done w
         \<and> compaction_inv out c (target_tokens b) (request_messages b) w)" for rt
    by (rule returns_bind [OF compact_rounds_inv [OF start]])
       (auto intro!: returns_intros split: option.split)
  have "returns (compact rounds fuel current out c b)
      (\<lambda>m. \<exists>w. w_memory w = Some m \<and> w_done w
         \<and> compaction_inv out c (target_tokens b) (request_messages b) w)"
    unfolding compact_def
    by (intro returns_lift_bind returns_catch loop) (simp add: returns_def lift_def)
  with assms obtain w where w: "w_memory w = Some m" "w_done w"
    "compaction_inv out c (target_tokens b) (request_messages b) w"
    unfolding returns_def by blast
  then show "full_history (active_context m) = full_history (request_messages b)"
    "\<exists>n. count (tokens out) (active_context m) = Inr n \<and> n \<le> target_tokens b"
    "\<exists>src. good_memory out c src m"
    by (auto simp: compaction_inv_def simp del: full_history_active)
qed

lemma compact_settles:
  assumes "length (plains (request_messages b)) + 2 \<le> rounds"
  shows "settles fuel (compact rounds fuel current out c b)"
proof -
  have runner: "frame_runner (run fuel dumps py_str meter rt) fuel" for dumps py_str meter rt
    by (simp add: frame_runner_def run_settles)
  have errors: "enforce_caller current None xs \<noteq> Inl OutOfFuel" "runtime_init rt \<noteq> Inl OutOfFuel" for xs rt
    by (auto simp: enforce_caller_def check_caller_def require_context_def ensure_caller_def
        bindE_eq_Inl runtime_init_def split: option.splits)
  show ?thesis
    unfolding compact_def
    using assms
    by (auto intro!: settles_intros errors compact_rounds_settle [OF runner]
        split: option.split if_split_asm)
qed

section \<open>Properties\<close>

text \<open>A history of two exchanges, a model that answers with an empty envelope, and a meter that
  charges ten tokens for a turn and one for a memory, for the witnesses.\<close>

definition example_outside :: outside where
  "example_outside = \<lparr>json_loads = (\<lambda>_. Some JNull), decode_summary = (\<lambda>_. Some ''s''),
     json_dumps = (\<lambda>_. []), render = (\<lambda>_. []),
     tokens = (\<lambda>ts. Inr (sum_list (map (\<lambda>t. if is_memory t then 1 else 10) ts))), new_uuid = (\<lambda>i. i)\<rparr>"

definition example_compactor :: compactor where
  "example_compactor = \<lparr>c_reserve = 10, c_summary_cap = 100, c_completion_cap = 100, c_starvation = 10,
     recall_reserve = 10, recall_answer_cap = 10, recall_completion_cap = None, recall_starvation = 10,
     minimum_reduction = 10\<rparr>"

definition example_request :: compact_request where
  "example_request = \<lparr>request_messages = map Plain
     [UserTurn ''a'', AssistantTurn ''b'', UserTurn ''c'', AssistantTurn ''d''],
     max_context_tokens = 1000, target_percentage = 3\<rparr>"

definition example_caller :: security_context where
  "example_caller = \<lparr>subject = [], sc_name = [], roles = {}, email = None,
     authorized_party = Some ''ads-engine''\<rparr>"

definition summary_provider :: provider where
  "summary_provider = \<lparr>outcomes =
     [Reply \<lparr>finish_reason = None, invalid_tool_calls = False, native_calls = [],
        reply_content = TextContent ''<ads-compaction-result></ads-compaction-result>''\<rparr>], sent = []\<rparr>"

lemma example_compact:
  "\<exists>m p'. compact 6 2 (Some example_caller) example_outside example_compactor example_request
     summary_provider = (Inr m, p') \<and> summarization m = ''s''"
proof -
  let ?r = "compact 6 2 (Some example_caller) example_outside example_compactor example_request
     summary_provider"
  have "(case fst ?r of Inl e \<Rightarrow> False | Inr m \<Rightarrow> summarization m = ''s'')" by code_simp
  then show ?thesis by (cases ?r) (auto split: sum.splits)
qed

lemma example_boundaries: "safe_boundaries (request_messages example_request) = Inr [2]"
  by code_simp

text \<open>C32: A history is split only where nothing is under way: the boundaries found are exactly the
  user turns after the first turn before which each call has its result and no task runs; a
  history is accepted only when all its calls have results and a memory stands nowhere but first.\<close>

theorem safe_boundaries_exact:
  assumes "safe_boundaries src = Inr bs"
  shows "bs = filter (\<lambda>i. 0 < i \<and> is_user (src ! i) \<and> calls_closed (take i src) \<and> running (take i src) = {})
      [0..<length src]
    \<and> calls_closed src \<and> \<not> list_ex is_memory (tl src)"
  using safe_boundaries_spec [OF assms] by (simp add: is_boundary_def [abs_def])

theorem safe_boundaries_exact_witness:
  "calls_closed (request_messages example_request) \<and> \<not> list_ex is_memory (tl (request_messages example_request))"
  using safe_boundaries_exact [OF example_boundaries] by blast

text \<open>C29: Compaction loses nothing: the turns archived under the memory it returns, followed by those
  that stay visible, are the turns of the request, memories of the request unfolded.\<close>

theorem compact_loses_nothing:
  assumes "compact rounds fuel current out c b p = (Inr m, p')"
  shows "archive m @ remaining_messages m = full_history (request_messages b)"
  using compact_returned(1) [OF assms] by simp

theorem compact_loses_nothing_witness:
  "\<exists>m p'. compact 6 2 (Some example_caller) example_outside example_compactor example_request
     summary_provider = (Inr m, p')
   \<and> archive m @ remaining_messages m = [UserTurn ''a'', AssistantTurn ''b'', UserTurn ''c'', AssistantTurn ''d'']"
  using example_compact compact_loses_nothing [of 6 2 "Some example_caller" example_outside
      example_compactor example_request summary_provider]
  by (fastforce simp: example_request_def)

text \<open>C30: What a compaction returns fits: the memory with the turns that stay measures at most the
  target, its summary at most the summary cap and is not blank, and the prefix that the memory
  replaced was dearer than the memory by at least the configured percentage.\<close>

theorem compact_fits:
  assumes "compact rounds fuel current out c b p = (Inr m, p')"
  shows "(\<exists>n. count (tokens out) (active_context m) = Inr n
       \<and> n \<le> target_percentage b * max_context_tokens b div 100)
    \<and> (\<exists>n. count (tokens out) [Plain (AssistantTurn (summarization m))] = Inr n \<and> n \<le> c_summary_cap c)
    \<and> strip is_space (summarization m) \<noteq> []
    \<and> (\<exists>src k before after'. count (tokens out) (take k src) = Inr before
       \<and> archive m @ remaining_messages m = full_history src \<and> remaining_messages m = plains (drop k src)
       \<and> count (tokens out) [Memory m] = Inr after' \<and> after' * 100 \<le> before * (100 - minimum_reduction c))"
proof -
  from compact_returned(3) [OF assms] obtain src where good: "good_memory out c src m" ..
  then show ?thesis
    using compact_returned(2) [OF assms] good_memory_history [OF good]
    unfolding good_memory_def target_tokens_def full_history_active by blast
qed

theorem compact_fits_witness:
  "\<exists>m p'. compact 6 2 (Some example_caller) example_outside example_compactor example_request
     summary_provider = (Inr m, p')
   \<and> (\<exists>n. count (tokens example_outside) (active_context m) = Inr n \<and> n \<le> 30)"
  using example_compact compact_fits [of 6 2 "Some example_caller" example_outside
      example_compactor example_request summary_provider]
  by (fastforce simp: example_request_def)

text \<open>C31: Compaction ends: as many rounds as the request has turns, plus two, are enough, whatever
  the model provider does, and it fails with nothing but a failure of the context services once
  the caller and the budgets have been accepted.\<close>

theorem compact_ends:
  assumes "length (plains (request_messages b)) + 2 \<le> rounds" "length (outcomes p) < fuel"
    "enforce_caller current None [''ads-engine''] = Inr sc"
    "runtime_init (compactor_runtime c b) = Inr rt"
  shows "case fst (compact rounds fuel current out c b p) of Inr m \<Rightarrow> True | Inl e \<Rightarrow> is_context_failure e"
proof -
  have fuel: "fst (compact rounds fuel current out c b p) \<noteq> Inl OutOfFuel"
    using compact_settles [OF assms(1), of fuel current out c] assms(2) unfolding settles_def by blast
  have catch: "fst (catchE m (\<lambda>e. throw (if is_context_failure e then e else ContextFailure ''internal_error'')) p)
      \<in> range Inr \<union> {Inl e | e. is_context_failure e \<or> e = OutOfFuel}" for m :: "tombstone io"
    by (auto simp: catchE_def lift_def split: prod.split sum.split)
  have "fst (compact rounds fuel current out c b p)
      \<in> range Inr \<union> {Inl e | e. is_context_failure e \<or> e = OutOfFuel}"
    unfolding compact_def
    by (simp only: assms(3,4) bindM_def lift_def prod.case sum.case catch [unfolded lift_def])
  with fuel show ?thesis by (auto split: sum.split)
qed

theorem compact_ends_witness:
  "case fst (compact 6 1 (Some example_caller) example_outside example_compactor example_request
      \<lparr>outcomes = [], sent = []\<rparr>) of Inr m \<Rightarrow> True | Inl e \<Rightarrow> is_context_failure e"
  by (rule compact_ends [where sc = example_caller and rt = "compactor_runtime example_compactor example_request"])
     (code_simp, simp, code_simp, code_simp)

end
