(* ===== verification/Engine_Chat.thy ===== *)
theory Engine_Chat
  imports Recall_Frames
begin

text \<open>
  What the engine streams and what it sends to the model (\<open>services/ads-engine/src/ads_engine/chat.py\<close>):
  the deltas of a chunk, the provider messages of a history, and the trip of calls and results
  between the provider and the history. Metadata is left out, as in the history itself.
\<close>

section \<open>Stream deltas\<close>

datatype delta_kind = KReasoning | KMessage | KToolCall | KToolResult | KCompaction | KTombstone

record stream_delta =
  sd_kind :: delta_kind
  sd_text :: string
  sd_call :: "tool_call option"
  sd_result :: "tool_result option"
  sd_compaction :: "string option"
  sd_tombstone :: "tombstone option"
  sd_pressure :: "(int \<times> int) option"

definition text_delta :: "delta_kind \<Rightarrow> string \<Rightarrow> stream_delta" where
  "text_delta kind t =
     \<lparr>sd_kind = kind, sd_text = t, sd_call = None, sd_result = None, sd_compaction = None,
      sd_tombstone = None, sd_pressure = None\<rparr>"

abbreviation call_delta :: "tool_call \<Rightarrow> (int \<times> int) option \<Rightarrow> stream_delta" where
  "call_delta c p \<equiv> (text_delta KToolCall [])\<lparr>sd_call := Some c, sd_pressure := p\<rparr>"

abbreviation result_delta :: "tool_result \<Rightarrow> (int \<times> int) option \<Rightarrow> stream_delta" where
  "result_delta r p \<equiv> (text_delta KToolResult [])\<lparr>sd_result := Some r, sd_pressure := p\<rparr>"

abbreviation compaction_delta :: "string \<Rightarrow> (int \<times> int) option \<Rightarrow> stream_delta" where
  "compaction_delta t p \<equiv> (text_delta KCompaction [])\<lparr>sd_compaction := Some t, sd_pressure := p\<rparr>"

abbreviation tombstone_delta :: "tombstone \<Rightarrow> (int \<times> int) option \<Rightarrow> stream_delta" where
  "tombstone_delta m p \<equiv> (text_delta KTombstone [])\<lparr>sd_tombstone := Some m, sd_pressure := p\<rparr>"

section \<open>Chunks\<close>

definition text_of_key :: "(string \<times> json) list \<Rightarrow> string \<Rightarrow> string" where
  "text_of_key kvs k = (case map_of kvs k of Some (JStr t) \<Rightarrow> t | _ \<Rightarrow> [])"

text \<open>\<open>_text_from_value\<close>: the first nonempty text of a mapping, else its summary; a list is joined.\<close>

function text_from_value :: "json \<Rightarrow> string" where
  "text_from_value (JStr t) = t"
| "text_from_value (JObj kvs) =
     (case filter (\<lambda>t. t \<noteq> []) (map (text_of_key kvs) [''text'', ''reasoning'', ''thinking'']) of
        t # _ \<Rightarrow> t
      | [] \<Rightarrow> (case map_of kvs ''summary'' of
                 Some (JList xs) \<Rightarrow> concat (map text_from_value xs)
               | _ \<Rightarrow> []))"
| "text_from_value (JList xs) = concat (map text_from_value xs)"
| "text_from_value JNull = []"
| "text_from_value (JBool b) = []"
| "text_from_value (JNum n) = []"
| "text_from_value (JFrac a b) = []"
  by pat_completeness auto
termination
proof (relation "measure size")
  fix kvs :: "(string \<times> json) list" and xs x and s :: json
  assume "map_of kvs ''summary'' = Some s" "s = JList xs" "x \<in> set xs"
  then have "(''summary'', JList xs) \<in> set kvs" by (simp add: map_of_SomeD)
  then have "size_prod (\<lambda>x. 0) size (''summary'', JList xs) \<le> size_list (size_prod (\<lambda>x. 0) size) kvs"
    by (rule size_list_estimation') simp
  moreover have "size x \<le> size_list size xs" using \<open>x \<in> set xs\<close> by (rule size_list_estimation') simp
  ultimately show "(x, JObj kvs) \<in> measure size" by (simp add: size_list_conv_sum_list)
qed (auto simp: size_list_estimation less_Suc_eq_le intro: size_list_estimation')

record chunk =
  chunk_kwargs :: "(string \<times> json) list"
  chunk_content :: json

definition reasoning_text :: "(string \<times> json) list \<Rightarrow> string" where
  "reasoning_text kvs =
     (case filter (\<lambda>t. t \<noteq> []) (map (\<lambda>k. case map_of kvs k of None \<Rightarrow> [] | Some v \<Rightarrow> text_from_value v)
             [''reasoning_content'', ''reasoning'', ''thinking'']) of
        t # _ \<Rightarrow> t | [] \<Rightarrow> [])"

definition block_delta :: "json \<Rightarrow> stream_delta list" where
  "block_delta b =
     (let t = text_from_value b;
          kind = (case b of JObj kvs \<Rightarrow> map_of kvs ''type'' | _ \<Rightarrow> None)
      in if t = [] then []
         else [text_delta (if kind \<in> {Some (JStr ''reasoning''), Some (JStr ''thinking'')}
                           then KReasoning else KMessage) t])"

definition deltas_from_chunk :: "chunk \<Rightarrow> stream_delta list" where
  "deltas_from_chunk c =
     (let r = reasoning_text (chunk_kwargs c);
          first = (if r = [] then [] else [text_delta KReasoning r])
      in first @ (case chunk_content c of
                    JStr t \<Rightarrow> (if t = [] then [] else [text_delta KMessage t])
                  | JList bs \<Rightarrow> concat (map block_delta bs)
                  | _ \<Rightarrow> []))"

section \<open>Provider messages\<close>

datatype chat_message =
    ChatSystem string
  | ChatHuman string
  | ChatAI string "tool_call list"
  | ChatTool string string string bool \<comment> \<open>content, call id, name, success\<close>

text \<open>The assistant message that is being put together.\<close>

record assembling =
  ready :: "chat_message list"
  open_text :: string
  pending_calls :: "tool_call list"
  open_assistant :: bool

definition flush_assistant :: "assembling \<Rightarrow> assembling" where
  "flush_assistant a =
     (if open_assistant a
      then \<lparr>ready = ready a @ [ChatAI (open_text a) (pending_calls a)], open_text = [], pending_calls = [],
            open_assistant = False\<rparr>
      else a)"

text \<open>\<open>dumps\<close> is \<open>json.dumps\<close>, \<open>encode\<close> is \<open>msgspec.json.encode\<close>.\<close>

definition tool_message :: "(json \<Rightarrow> string) \<Rightarrow> tool_result \<Rightarrow> chat_message" where
  "tool_message dumps r =
     ChatTool (case content r of JStr t \<Rightarrow> t | j \<Rightarrow> dumps j) (tool_call_id r) (result_name r) (success r)"

definition add_turn :: "(json \<Rightarrow> string) \<Rightarrow> (json \<Rightarrow> string) \<Rightarrow> assembling \<Rightarrow> turn \<Rightarrow> assembling" where
  "add_turn dumps enc a t =
     (case t of
        Memory m \<Rightarrow> (flush_assistant a)\<lparr>ready := ready (flush_assistant a) @ [ChatHuman (enc (memory_text m))]\<rparr>
      | Plain (UserTurn t) \<Rightarrow> (flush_assistant a)\<lparr>ready := ready (flush_assistant a) @ [ChatHuman t]\<rparr>
      | Plain (AssistantTurn t) \<Rightarrow> (flush_assistant a)\<lparr>open_text := t, open_assistant := True\<rparr>
      | Plain (CallTurn c) \<Rightarrow> a\<lparr>open_assistant := True, pending_calls := pending_calls a @ [c]\<rparr>
      | Plain (ResultTurn r) \<Rightarrow>
          (flush_assistant a)\<lparr>ready := ready (flush_assistant a) @ [tool_message dumps r]\<rparr>)"

definition context_messages ::
  "(json \<Rightarrow> string) \<Rightarrow> (json \<Rightarrow> string) \<Rightarrow> turn list \<Rightarrow> string \<Rightarrow> chat_message list" where
  "context_messages dumps enc history instructions =
     ready (flush_assistant
       (foldl (add_turn dumps enc)
          \<lparr>ready = (if instructions = [] then [] else [ChatSystem instructions]), open_text = [],
           pending_calls = [], open_assistant = False\<rparr> history))"

section \<open>Calls and results\<close>

definition tool_call_from_native :: "native_call \<Rightarrow> tool_call" where
  "tool_call_from_native n =
     \<lparr>call_id = (case native_id n of None \<Rightarrow> [] | Some i \<Rightarrow> i), call_name = native_name n,
      arguments = native_args n\<rparr>"

text \<open>A \<open>ToolMessage\<close> of the sandbox; \<open>loads\<close> is \<open>json.loads\<close>.\<close>

definition tool_result_from_message ::
  "(string \<Rightarrow> json option) \<Rightarrow> string \<Rightarrow> string \<Rightarrow> string \<Rightarrow> bool \<Rightarrow> tool_result" where
  "tool_result_from_message loads raw i name ok =
     \<lparr>tool_call_id = i, result_name = name, success = ok,
      content = (case loads raw of None \<Rightarrow> JStr raw | Some j \<Rightarrow> j), task_transitions = []\<rparr>"

end
