(* ===== verification/Engine_Exec.thy ===== *)
theory Engine_Exec
  imports Engine_Chat
begin

text \<open>
  The executor of the engine (\<open>services/ads-engine/src/ads_engine\<close>): context checks
  (\<open>context.py\<close>), the sandbox tools (\<open>mcp_client.py\<close>) and the loop of model turns, tool calls and
  compactions (\<open>executor.py\<close>).

  The language model, the sandbox, the compactor and the token meter are the environment: the
  record \<open>exec\<close> holds what they will answer, next to the local variables that \<open>stream\<close> shares
  with its inner functions, and the log of what was done. How LangChain adds chunks up is the
  parameter \<open>combine\<close>. The consumer of the stream accepts the first \<open>accepts\<close> deltas and then
  closes it; whoever waits for the acceptance of a later one is cancelled.
\<close>

abbreviation ExecutionFailed :: "string \<Rightarrow> error" where
  "ExecutionFailed t \<equiv> OtherError (''ExecutionFailed: '' @ t)"

abbreviation StreamClosed :: error where "StreamClosed \<equiv> OtherError ''GeneratorExit''"

section \<open>The environment\<close>

datatype stream_item = ChunkItem chunk | OtherItem

record model_stream =
  items :: "stream_item list"
  breaks :: bool \<comment> \<open>raises after its items\<close>

record model_response =
  response_calls :: "native_call list"
  response_invalid :: bool

datatype tool_outcome =
    NoCredentials                     \<comment> \<open>\<open>credentials.current()\<close> raises\<close>
  | ToolRaised
  | ToolReply string bool             \<comment> \<open>content, \<open>is_error\<close>\<close>

datatype boundary_phase = Admission | Continuation | AtFinish

datatype engine_event =
    Emitted stream_delta
  | Dispatched native_call
  | Asked "chat_message list" "string list"   \<comment> \<open>messages, names of the bound tools\<close>
  | CompactAsked "turn list" boundary_phase
  | Recalled tool_call
  | Warned string

record sandbox_tools =
  tools_remaining :: int
  tools_pending :: "native_call list"
  tools_seen :: "string list"

record exec =
  streams :: "model_stream list"
  frame_provider :: provider
  tool_outcomes :: "tool_outcome list"
  compactions :: "(error + tombstone) list"
  clock :: nat
  log :: "engine_event list"
  emitted :: bool
  dispatched :: bool
  meter_unavailable :: bool
  admission_failure :: "string option"
  step_text :: string
  tools :: sandbox_tools

text \<open>What a run is given: the request, the settings and the outside.\<close>

record engine_setup =
  s_history :: "turn list"
  s_input :: string
  s_instructions :: string
  s_total :: int
  s_trigger :: int
  s_target :: int
  s_schemas :: "string list"
  s_runtime :: runtime
  s_accepts :: "nat option"
  s_meter :: "nat \<Rightarrow> meter"
  s_combine :: "chunk list \<Rightarrow> model_response"
  s_dumps :: "json \<Rightarrow> string"
  s_encode :: "json \<Rightarrow> string"
  s_loads :: "string \<Rightarrow> json option"
  s_str :: "json \<Rightarrow> string"

type_synonym 'a exe = "(exec, 'a) eff"

definition update :: "(exec \<Rightarrow> exec) \<Rightarrow> unit exe" where
  "update f = (\<lambda>w. (Inr (), f w))"

definition emit :: "stream_delta \<Rightarrow> unit exe" where
  "emit d = update (\<lambda>w. w\<lparr>log := log w @ [Emitted d], emitted := True\<rparr>)"

definition warn :: "string \<Rightarrow> unit exe" where
  "warn t = update (\<lambda>w. w\<lparr>log := log w @ [Warned t]\<rparr>)"

definition emitted_count :: "engine_event list \<Rightarrow> nat" where
  "emitted_count es = length (filter (\<lambda>e. case e of Emitted _ \<Rightarrow> True | _ \<Rightarrow> False) es)"

text \<open>\<open>publish_call\<close>: write the delta and wait until the consumer has accepted it.\<close>

definition publish_call :: "engine_setup \<Rightarrow> stream_delta \<Rightarrow> unit exe" where
  "publish_call s d =
     bindM (emit d) (\<lambda>_ w.
       if (case s_accepts s of None \<Rightarrow> False | Some n \<Rightarrow> n < emitted_count (log w))
       then (Inl StreamClosed, w) else (Inr (), w))"

section \<open>The context\<close>

text \<open>\<open>EngineContext.measure\<close>; the constructor of \<open>ContextPressure\<close> checks the numbers.\<close>

definition measure_context :: "engine_setup \<Rightarrow> turn list \<Rightarrow> (int \<times> int) exe" where
  "measure_context s active w =
     (bindE (count (s_meter s (clock w)) active) (\<lambda>n.
        if s_total s \<le> 0 \<or> n < 0 then Inl (ValueError ''invalid context pressure'') else Inr (s_total s, n)),
      w\<lparr>clock := Suc (clock w)\<rparr>)"

definition ask_compactor :: "engine_setup \<Rightarrow> turn list \<Rightarrow> boundary_phase \<Rightarrow> tombstone exe" where
  "ask_compactor s active phase w =
     (if \<not> (0 < s_target s \<and> s_target s < 100)
      then (Inl (ValueError ''target_percentage must be between 1 and 99''), w)
      else let w' = w\<lparr>log := log w @ [CompactAsked active phase]\<rparr>
           in case compactions w of
                [] \<Rightarrow> (Inl (ContextFailure ''context_service_failed''), w')
              | c # cs \<Rightarrow> (c, w'\<lparr>compactions := cs\<rparr>))"

text \<open>\<open>EngineContext.boundary\<close>: the context afterwards, or the reason of \<open>CompactionFailed\<close>.\<close>

definition context_boundary :: "engine_setup \<Rightarrow> turn list \<Rightarrow> boundary_phase \<Rightarrow> (string + turn list) exe" where
  "context_boundary s active phase =
     bindM (measure_context s active) (\<lambda>(tokens, used).
       if used * 100 < tokens * s_trigger s then ret (Inr active)
       else bindM (emit (compaction_delta ''compacting_context'' (Some (tokens, used)))) (\<lambda>_.
         catchE
           (bindM (ask_compactor s active phase) (\<lambda>memory.
             bindM (measure_context s (active_context memory)) (\<lambda>pressure.
               bindM (emit (compaction_delta ''compacted_context'' (Some pressure))) (\<lambda>_.
               bindM (emit (tombstone_delta memory (Some pressure))) (\<lambda>_.
                 ret (Inr (active_context memory)))))))
           (\<lambda>e. ret (Inl (failure_reason e)))))"

section \<open>The sandbox tools\<close>

record listed_tool =
  listed_name :: string
  listed_schema :: "(string \<times> json) list"

definition tool_argument :: "string \<Rightarrow> string option" where
  "tool_argument name = map_of [(''exec_shell'', ''command''), (''exec_python'', ''code'')] name"

definition schema_ok :: "listed_tool \<Rightarrow> bool" where
  "schema_ok t =
     (case tool_argument (listed_name t) of
        None \<Rightarrow> False
      | Some a \<Rightarrow>
          map_of (listed_schema t) ''type'' = Some (JStr ''object'')
          \<and> map_of (listed_schema t) ''additionalProperties'' = Some (JBool False)
          \<and> map_of (listed_schema t) ''required'' = Some (JList [JStr a])
          \<and> (case map_of (listed_schema t) ''properties'' of
               Some (JObj ps) \<Rightarrow>
                 set (map fst ps) = {a}
                 \<and> (case map_of ps a of
                      Some (JObj p) \<Rightarrow> map_of p ''type'' = Some (JStr ''string'')
                        \<and> map_of p ''minLength'' = Some (JNum 1)
                    | _ \<Rightarrow> False)
             | _ \<Rightarrow> False))"

text \<open>\<open>schemas\<close>: the protocol version is supported, the list complete and the two tools as expected.\<close>

definition sandbox_schemas :: "bool \<Rightarrow> bool \<Rightarrow> listed_tool list \<Rightarrow> error + string list" where
  "sandbox_schemas supported next_cursor listing =
     (if \<not> supported then Inl (ExecutionFailed ''required MCP protocol unavailable'')
      else if next_cursor \<or> set (map listed_name listing) \<noteq> {''exec_shell'', ''exec_python''}
      then Inl (ExecutionFailed ''required sandbox tools unavailable'')
      else if length listing \<noteq> 2 then Inl (ExecutionFailed ''duplicate sandbox tools'')
      else if \<not> list_all schema_ok listing then Inl (ExecutionFailed ''invalid sandbox tool contract'')
      else Inr (map listed_name listing))"

text \<open>One call of a batch that may be admitted.\<close>

definition call_admissible :: "string list \<Rightarrow> native_call \<Rightarrow> bool" where
  "call_admissible seen n =
     (case (tool_argument (native_name n), native_id n) of
        (Some a, Some i) \<Rightarrow>
          i \<noteq> [] \<and> i \<notin> set seen \<and> set (map fst (native_args n)) = {a}
          \<and> (case map_of (native_args n) a of Some (JStr t) \<Rightarrow> t \<noteq> [] | _ \<Rightarrow> False)
      | _ \<Rightarrow> False)"

fun batch_admissible :: "string list \<Rightarrow> native_call list \<Rightarrow> string list option" where
  "batch_admissible seen [] = Some []"
| "batch_admissible seen (n # ns) =
     (if call_admissible seen n
      then (let i = the (native_id n) in map_option (Cons i) (batch_admissible (i # seen) ns))
      else None)"

text \<open>\<open>admit\<close>; \<open>_busy\<close> is only set while a call is awaited, so never here.\<close>

definition admit :: "model_response \<Rightarrow> sandbox_tools \<Rightarrow> error + sandbox_tools" where
  "admit r t =
     (if tools_pending t \<noteq> [] then Inl (ExecutionFailed ''invalid executor invocation'')
      else if response_invalid r \<or> int (length (response_calls r)) > tools_remaining t
      then Inl (ExecutionFailed ''invalid tool calls or tool budget exceeded'')
      else (case batch_admissible (tools_seen t) (response_calls r) of
              None \<Rightarrow> Inl (ExecutionFailed ''invalid native sandbox call'')
            | Some ids \<Rightarrow> Inr (t\<lparr>tools_pending := response_calls r, tools_seen := tools_seen t @ ids\<rparr>)))"

text \<open>\<open>call\<close>: only the first admitted call that was not dispatched.\<close>

definition call_tool :: "engine_setup \<Rightarrow> native_call \<Rightarrow> tool_result exe" where
  "call_tool s n w =
     (case tools_pending (tools w) of
        [] \<Rightarrow> (Inl (ExecutionFailed ''sandbox dispatch requires an admitted native executor call''), w)
      | p # ps \<Rightarrow>
          if p \<noteq> n
          then (Inl (ExecutionFailed ''sandbox dispatch requires an admitted native executor call''), w)
          else
            let (out, rest) = (case tool_outcomes w of [] \<Rightarrow> (ToolRaised, []) | t # ts \<Rightarrow> (t, ts));
                w1 = w\<lparr>tool_outcomes := rest\<rparr>;
                w2 = w1\<lparr>tools := (tools w)\<lparr>tools_pending := ps, tools_remaining := tools_remaining (tools w) - 1\<rparr>,
                        log := log w @ [Dispatched n]\<rparr>
            in (case out of
                  NoCredentials \<Rightarrow> (Inl (ExecutionFailed ''MCP credentials closed''), w1)
                | ToolRaised \<Rightarrow> (Inl (OtherError ''McpError''), w2)
                | ToolReply raw is_error \<Rightarrow>
                    (Inr (tool_result_from_message (s_loads s) raw
                       (case native_id n of None \<Rightarrow> [] | Some i \<Rightarrow> i) (native_name n) (\<not> is_error)), w2)))"

section \<open>A model turn\<close>

record exec_state =
  active :: "turn list"
  finished_turn :: bool \<comment> \<open>\<open>done\<close>\<close>
  started :: bool
  complete_only :: bool

definition complete_only_prompt :: string where
  "complete_only_prompt =
     newline @ ''Context compaction or recall failed. Complete the answer now using available evidence. ''
     @ ''No further tools are available or permitted, including memory_recall. ''
     @ ''State any limitations; do not claim unperformed work or invent tool results.''"

definition empty_completion :: string where
  "empty_completion =
     ''I cannot continue tool-based work in this turn because context compaction or recall ''
     @ ''could not complete. No further tools were executed after that failure.''"

text \<open>\<open>measure\<close> of the stream: in the completion mode a failed meter is not used again.\<close>

definition measure :: "engine_setup \<Rightarrow> turn list \<Rightarrow> bool \<Rightarrow> (int \<times> int) option exe" where
  "measure s msgs only w =
     (if meter_unavailable w then (Inr None, w)
      else (case measure_context s msgs w of
              (Inr p, w') \<Rightarrow> (Inr (Some p), w')
            | (Inl e, w') \<Rightarrow>
                if \<not> only then (Inl e, w')
                else (Inr None, w'\<lparr>meter_unavailable := True,
                        log := log w' @ [Warned ''complete_only_meter_unavailable'']\<rparr>)))"

definition with_text :: "turn list \<Rightarrow> string \<Rightarrow> turn list" where
  "with_text msgs t = (if t = [] then msgs else msgs @ [Plain (AssistantTurn t)])"

text \<open>One delta of a chunk: the text grows before the context is measured.\<close>

definition stream_one :: "engine_setup \<Rightarrow> exec_state \<Rightarrow> stream_delta \<Rightarrow> unit exe" where
  "stream_one s st d =
     bindM (update (\<lambda>w. if sd_kind d = KMessage then w\<lparr>step_text := step_text w @ sd_text d\<rparr> else w)) (\<lambda>_ w.
       bindM (measure s (with_text (active st) (step_text w)) (complete_only st)) (\<lambda>p.
         emit (d\<lparr>sd_pressure := p\<rparr>)) w)"

fun read_stream :: "engine_setup \<Rightarrow> exec_state \<Rightarrow> bool \<Rightarrow> stream_item list \<Rightarrow> chunk list \<Rightarrow> chunk list exe" where
  "read_stream s st fails [] got =
     (if fails then throw (OtherError ''provider error'') else ret got)"
| "read_stream s st fails (OtherItem # xs) got = read_stream s st fails xs got"
| "read_stream s st fails (ChunkItem c # xs) got =
     bindM (foldM (\<lambda>_. stream_one s st) () (deltas_from_chunk c)) (\<lambda>_.
       read_stream s st fails xs (got @ [c]))"

definition open_stream :: "engine_setup \<Rightarrow> exec_state \<Rightarrow> chunk list exe" where
  "open_stream s st w =
     (case streams w of
        [] \<Rightarrow> (Inl (OtherError ''provider error''), w)
      | m # ms \<Rightarrow> read_stream s st (breaks m) (items m) [] (w\<lparr>streams := ms\<rparr>))"

text \<open>\<open>for attempt in range(3)\<close>: a new attempt only while nothing was emitted or dispatched. The text
  that a failed attempt collected stays.\<close>

fun attempts :: "nat \<Rightarrow> engine_setup \<Rightarrow> exec_state \<Rightarrow> chunk list exe" where
  "attempts 0 s st = ret []"
| "attempts (Suc n) s st =
     (\<lambda>w. case open_stream s st w of
            (Inr got, w') \<Rightarrow> (Inr got, w')
          | (Inl e, w') \<Rightarrow>
              if emitted w' \<or> dispatched w' \<or> n = 0 then (Inl e, w') else attempts n s st w')"

definition budget_prompt :: "engine_setup \<Rightarrow> (int \<times> int) option \<Rightarrow> string" where
  "budget_prompt s p =
     newline
     @ (case p of
          Some (tokens, used) \<Rightarrow>
            ''ADS context budget (estimated model-visible messages; ''
            @ ''excludes system instructions, tool schemas and provider ''
            @ ''overhead): total_context_tokens='' @ int_str tokens
            @ ''; remaining_context_tokens='' @ int_str (max 0 (tokens - used)) @ ''.''
        | None \<Rightarrow>
            ''ADS context budget: total_context_tokens='' @ int_str (s_total s)
            @ ''; remaining_context_tokens=unknown (meter unavailable).'')"

text \<open>The invocation: instructions, budget, messages and the tools that are bound.\<close>

definition ask_model :: "engine_setup \<Rightarrow> exec_state \<Rightarrow> chunk list exe" where
  "ask_model s st =
     (let visible = list_ex is_memory (active st);
          bound = (if complete_only st then []
                   else s_schemas s @ (if visible then [''memory_recall''] else []))
      in bindM (measure s (active st) (complete_only st)) (\<lambda>p.
           let instructions = s_instructions s
                 @ (if visible \<and> \<not> complete_only st
                    then newline @ ''Visible memory can be queried with memory_recall.'' else [])
                 @ budget_prompt s p
                 @ (if complete_only st then complete_only_prompt else [])
           in bindM (update (\<lambda>w. w\<lparr>log := log w
                  @ [Asked (context_messages (s_dumps s) (s_encode s) (active st) instructions) bound],
                  step_text := []\<rparr>)) (\<lambda>_. attempts 3 s st)))"

text \<open>The end of a turn without tools: what the provider tried to call is ignored.\<close>

definition complete_turn :: "engine_setup \<Rightarrow> exec_state \<Rightarrow> model_response \<Rightarrow> exec_state exe" where
  "complete_turn s st r w =
     bindM (if response_calls r \<noteq> [] \<or> response_invalid r then warn ''complete_only_tool_calls_ignored'' else ret ()) (\<lambda>_ w.
       bindM (if step_text w = []
              then bindM (measure s (active st @ [Plain (AssistantTurn empty_completion)]) True) (\<lambda>p.
                     bindM (emit ((text_delta KMessage empty_completion)\<lparr>sd_pressure := p\<rparr>)) (\<lambda>_.
                       ret empty_completion))
              else ret (step_text w)) (\<lambda>t.
         ret (st\<lparr>active := active st @ [Plain (AssistantTurn t)], started := True, finished_turn := True\<rparr>)) w) w"

text \<open>The sandbox calls of a response, one after the other.\<close>

definition sandbox_step :: "engine_setup \<Rightarrow> exec_state \<Rightarrow> native_call \<Rightarrow> exec_state exe" where
  "sandbox_step s st n =
     (let c = tool_call_from_native n in
      bindM (measure_context s (active st @ [Plain (CallTurn c)])) (\<lambda>p.
      bindM (publish_call s (call_delta c (Some p))) (\<lambda>_.
      bindM (update (\<lambda>w. w\<lparr>dispatched := True\<rparr>)) (\<lambda>_.
      bindM (call_tool s n) (\<lambda>r.
        let st' = st\<lparr>active := active st @ [Plain (CallTurn c), Plain (ResultTurn r)]\<rparr> in
        bindM (measure_context s (active st')) (\<lambda>p.
        bindM (emit (result_delta r (Some p))) (\<lambda>_. ret st')))))))"

text \<open>The calls of a batch of local recalls are published first.\<close>

definition publish_local :: "engine_setup \<Rightarrow> exec_state \<Rightarrow> tool_call \<Rightarrow> exec_state exe" where
  "publish_local s st c =
     (let st' = st\<lparr>active := active st @ [Plain (CallTurn c)]\<rparr> in
      bindM (measure_context s (active st')) (\<lambda>p.
      bindM (publish_call s (call_delta c (Some p))) (\<lambda>_. ret st')))"

text \<open>\<open>context.recall.recall_top_level\<close>, with a failure as an error result.\<close>

definition recall_call :: "engine_setup \<Rightarrow> turn list \<Rightarrow> tool_call \<Rightarrow> tool_result exe" where
  "recall_call s msgs c w =
     (let meter = s_meter s (clock w);
          p = frame_provider w;
          (r, p') = recall_top_level (s_str s)
                      (run (Suc (length (outcomes p))) (s_dumps s) (s_str s) meter (s_runtime s))
                      meter (s_runtime s) msgs c p
      in (Inr (case r of Inr result \<Rightarrow> result | Inl e \<Rightarrow> error_result c (failure_reason e)),
          w\<lparr>frame_provider := p', log := log w @ [Recalled c]\<rparr>))"

definition recall_step :: "engine_setup \<Rightarrow> exec_state \<Rightarrow> tool_call \<Rightarrow> exec_state exe" where
  "recall_step s st c =
     bindM (if complete_only st then ret (error_result c ''recall_failed'', st)
            else bindM (recall_call s (active st) c) (\<lambda>r.
                   if \<not> success r
                   then bindM (warn ''recall_complete_only'') (\<lambda>_. ret (r, st\<lparr>complete_only := True\<rparr>))
                   else ret (r, st))) (\<lambda>(r, st1).
       let st2 = st1\<lparr>active := active st1 @ [Plain (ResultTurn r)]\<rparr> in
       bindM (measure s (active st2) (complete_only st2)) (\<lambda>p.
       bindM (emit (result_delta r p)) (\<lambda>_. ret st2)))"

text \<open>The ids of the calls already in the context.\<close>

definition context_call_ids :: "turn list \<Rightarrow> string list" where
  "context_call_ids msgs = call_ids (plains msgs)"

definition local_turn :: "engine_setup \<Rightarrow> exec_state \<Rightarrow> native_call list \<Rightarrow> exec_state exe" where
  "local_turn s st natives =
     (let calls = map tool_call_from_native natives in
      if \<not> fresh_calls (set (context_call_ids (active st))) calls
      then throw (ExecutionFailed ''invalid local recall call id'')
      else bindM (foldM (publish_local s) st calls) (\<lambda>st1. foldM (recall_step s) st1 calls))"

definition tools_turn :: "engine_setup \<Rightarrow> exec_state \<Rightarrow> model_response \<Rightarrow> exec_state exe" where
  "tools_turn s st r w =
     (case admit r (tools w) of
        Inl e \<Rightarrow> (Inl e, w)
      | Inr t \<Rightarrow> foldM (sandbox_step s) st (response_calls r) (w\<lparr>tools := t\<rparr>))"

definition model_step :: "engine_setup \<Rightarrow> exec_state \<Rightarrow> exec_state exe" where
  "model_step s st =
     bindM (ask_model s st) (\<lambda>got.
       if got = [] then throw (ExecutionFailed ''invalid model response'')
       else
         let r = s_combine s got in
         if complete_only st then complete_turn s st r
         else if response_invalid r then throw (ExecutionFailed ''invalid model response'')
         else (\<lambda>w.
           let st1 = st\<lparr>active := with_text (active st) (step_text w)\<rparr>;
               local_calls = filter (\<lambda>n. native_name n = ''memory_recall'') (response_calls r)
           in bindM (if local_calls \<noteq> []
                     then (if \<not> list_ex is_memory (active st) \<or> length local_calls \<noteq> length (response_calls r)
                           then throw (ExecutionFailed ''invalid local recall batch'')
                           else local_turn s st1 local_calls)
                     else tools_turn s st1 r) (\<lambda>st2.
                ret (st2\<lparr>started := True, finished_turn := (response_calls r = [])\<rparr>)) w))"

section \<open>The loop\<close>

definition phase_of :: "exec_state \<Rightarrow> boundary_phase" where
  "phase_of st = (if \<not> started st then Admission else if finished_turn st then AtFinish else Continuation)"

definition boundary :: "engine_setup \<Rightarrow> exec_state \<Rightarrow> exec_state exe" where
  "boundary s st =
     (if complete_only st then ret st
      else bindM (context_boundary s (active st) (phase_of st)) (\<lambda>r.
        case r of
          Inr msgs \<Rightarrow> ret (st\<lparr>active := msgs\<rparr>)
        | Inl reason \<Rightarrow>
            if \<not> started st
            then bindM (update (\<lambda>w. w\<lparr>admission_failure := Some reason,
                     log := log w @ [Warned ''context_compaction_admission_failed'']\<rparr>)) (\<lambda>_.
                   throw (ContextFailure reason))
            else bindM (warn ''context_compaction_complete_only'') (\<lambda>_. ret (st\<lparr>complete_only := True\<rparr>))))"

text \<open>One pass of the compiled graph.\<close>

definition graph_pass :: "engine_setup \<Rightarrow> exec_state \<Rightarrow> exec_state exe" where
  "graph_pass s st = bindM (boundary s st) (\<lambda>st1. bindM (model_step s st1) (boundary s))"

fun passes :: "nat \<Rightarrow> engine_setup \<Rightarrow> exec_state \<Rightarrow> exec_state exe" where
  "passes 0 s st = throw OutOfFuel"
| "passes (Suc n) s st =
     (if finished_turn st then ret st else bindM (graph_pass s st) (passes n s))"

definition first_state :: "engine_setup \<Rightarrow> exec_state" where
  "first_state s =
     \<lparr>active = s_history s @ [Plain (UserTurn (s_input s))], finished_turn = False, started = False,
      complete_only = False\<rparr>"

definition first_exec ::
  "int \<Rightarrow> model_stream list \<Rightarrow> provider \<Rightarrow> tool_outcome list \<Rightarrow> (error + tombstone) list \<Rightarrow> exec" where
  "first_exec budget ms p ts cs =
     \<lparr>streams = ms, frame_provider = p, tool_outcomes = ts, compactions = cs, clock = 0, log = [],
      emitted = False, dispatched = False, meter_unavailable = False, admission_failure = None,
      step_text = [],
      tools = \<lparr>tools_remaining = budget, tools_pending = [], tools_seen = []\<rparr>\<rparr>"

text \<open>\<open>stream\<close>: \<open>opened\<close> is what opening the context, the credentials and the sandbox gave. Every
  failure is reported as one of two texts; a closed stream just ends.\<close>

definition execute :: "nat \<Rightarrow> engine_setup \<Rightarrow> error + unit \<Rightarrow> exec_state exe" where
  "execute fuel s opened w =
     (case bindM (lift opened) (\<lambda>_. passes fuel s (first_state s)) w of
        (Inr st, w') \<Rightarrow> (Inr st, w')
      | (Inl e, w') \<Rightarrow>
          (Inl (if e = StreamClosed \<or> e = OutOfFuel then e
                else case admission_failure w' of
                       Some reason \<Rightarrow> ExecutionFailed (''context compaction failed: '' @ reason)
                     | None \<Rightarrow> ExecutionFailed ''sandbox executor failed''), w'))"

end
