(* ===== verification/Effect_Logic.thy ===== *)
theory Effect_Logic
  imports Prelude
begin

text \<open>
  Rules for programs with state and errors: \<open>post r Q E\<close> says of an outcome that its value and state
  satisfy \<open>Q\<close>, or its error and state satisfy \<open>E\<close>. The equations in \<open>post_simps\<close> compute the weakest
  precondition along the structure of a program; loops and calls take rules.
\<close>

definition post :: "(error + 'a) \<times> 'env \<Rightarrow> ('a \<Rightarrow> 'env \<Rightarrow> bool) \<Rightarrow> (error \<Rightarrow> 'env \<Rightarrow> bool) \<Rightarrow> bool" where
  "post r Q E = (case r of (Inr x, w) \<Rightarrow> Q x w | (Inl e, w) \<Rightarrow> E e w)"

named_theorems post_simps \<open>weakest preconditions of the program constructors\<close>

lemma post_pair [post_simps]:
  "post (Inr x, w) Q E = Q x w" "post (Inl e, w) Q E = E e w"
  by (simp_all add: post_def)

lemma post_ret [post_simps]: "post (ret x w) Q E = Q x w"
  by (simp add: post_def ret_def)

lemma post_lift [post_simps]: "post (lift r w) Q E = (case r of Inr x \<Rightarrow> Q x w | Inl e \<Rightarrow> E e w)"
  by (simp add: post_def lift_def split: sum.split)

lemma post_bind [post_simps]: "post (bindM m f w) Q E = post (m w) (\<lambda>x v. post (f x v) Q E) E"
  by (simp add: post_def bindM_def split: prod.split sum.split)

lemma post_catch [post_simps]:
  "post (catchE m h w) Q E = post (m w) Q (\<lambda>e v. if e = OutOfFuel then E e v else post (h e v) Q E)"
  by (simp add: post_def catchE_def split: prod.split sum.split)

lemma post_if [post_simps]: "post ((if c then m else k) w) Q E = (if c then post (m w) Q E else post (k w) Q E)"
  by simp

lemma post_mono:
  assumes "post r Q E" "\<And>x w. Q x w \<Longrightarrow> Q' x w" "\<And>e w. E e w \<Longrightarrow> E' e w"
  shows "post r Q' E'"
  using assms by (auto simp: post_def split: prod.splits sum.splits)

lemma post_bindI:
  assumes "post (m w) R E" "\<And>x v. R x v \<Longrightarrow> post (f x v) Q E"
  shows "post (bindM m f w) Q E"
  unfolding post_bind using assms by (rule post_mono)

lemma post_conj:
  "post r Q E \<Longrightarrow> post r Q' E' \<Longrightarrow> post r (\<lambda>x w. Q x w \<and> Q' x w) (\<lambda>e w. E e w \<and> E' e w)"
  by (auto simp: post_def split: prod.splits sum.splits)

lemma post_foldM:
  assumes "I xs s w" "\<And>x xs s w. I (x # xs) s w \<Longrightarrow> post (f s x w) (I xs) E"
  shows "post (foldM f s xs w) (I []) E"
  using assms(1)
proof (induction xs arbitrary: s w)
  case Nil
  then show ?case by (simp add: post_simps)
next
  case (Cons x xs)
  show ?case
    unfolding foldM.simps
    by (rule post_bindI [where R = "I xs"]) (use Cons assms(2) in auto)
qed

lemma post_result:
  "post r Q E \<Longrightarrow> r = (Inr x, w) \<Longrightarrow> Q x w" "post r Q E \<Longrightarrow> r = (Inl e, w) \<Longrightarrow> E e w"
  by (simp_all add: post_def)

lemma outcome_cases [case_names Value Error]:
  obtains x w where "r = (Inr x, w)" | e w where "r = (Inl e, w)"
  by (cases r) (metis sum.exhaust)

lemma post_state: "post r (\<lambda>_. P) (\<lambda>_. P) = P (snd r)"
  by (simp add: post_def split: prod.split sum.split)

section \<open>Programs that keep an invariant\<close>

text \<open>A run keeps \<open>I\<close> whatever it ends with, its value has \<open>P\<close>, and the model's fuel has not run out.\<close>

definition maintains :: "('env \<Rightarrow> bool) \<Rightarrow> ('a \<Rightarrow> bool) \<Rightarrow> (error + 'a) \<times> 'env \<Rightarrow> bool" where
  "maintains I P outcome \<longleftrightarrow> post outcome (\<lambda>x s. I s \<and> P x) (\<lambda>e s. I s \<and> e \<noteq> OutOfFuel)"

lemma maintains_bind:
  assumes "maintains I Q (m s)" "\<And>x s. I s \<Longrightarrow> Q x \<Longrightarrow> maintains I P (k x s)"
  shows "maintains I P (bindM m k s)"
  unfolding maintains_def post_bind
  by (rule post_mono [OF assms(1) [unfolded maintains_def]]) (use assms(2) in \<open>auto simp: maintains_def\<close>)

lemma maintains_ret: "I s \<Longrightarrow> P x \<Longrightarrow> maintains I P (ret x s)"
  by (simp add: maintains_def post_simps)

lemma maintains_throw: "I s \<Longrightarrow> e \<noteq> OutOfFuel \<Longrightarrow> maintains I P (throw e s)"
  by (simp add: maintains_def post_simps)

lemma maintains_lift:
  assumes "I s" "\<And>x. m = Inr x \<Longrightarrow> P x" "m \<noteq> Inl OutOfFuel"
  shows "maintains I P (lift m s)"
  using assms by (cases m) (auto simp: maintains_def post_simps)

lemma maintains_foldM:
  assumes "I s" "P acc"
    and "\<And>x acc s. x \<in> set xs \<Longrightarrow> I s \<Longrightarrow> P acc \<Longrightarrow> maintains I P (f acc x s)"
  shows "maintains I P (foldM f acc xs s)"
  using assms
proof (induction xs arbitrary: acc s)
  case Nil
  then show ?case by (simp add: maintains_ret)
next
  case (Cons x xs)
  show ?case
    unfolding foldM.simps by (rule maintains_bind [where Q = P]) (use Cons in auto)
qed

end
