(* ===== verification/Engine_Protocol.thy ===== *)
theory Engine_Protocol
  imports Engine_Exec Effect_Logic
begin

text \<open>
  What the executor promises, as an abstract protocol over the events of a run: a tool is called only
  when its call was published and accepted, its result follows directly, no id is used twice, the
  budget holds, and after a failed compaction or recall nothing but the answer is produced. Every run
  of the executor is a run of the protocol.
\<close>

section \<open>The protocol\<close>

record protocol =
  answer_only :: bool
  sent_parts :: nat
  offered :: "tool_call option"       \<comment> \<open>published and accepted by the event before\<close>
  in_sandbox :: "native_call option"  \<comment> \<open>called, its result is due\<close>
  used_ids :: "string list"
  budget :: int

definition protocol_start :: "int \<Rightarrow> protocol" where
  "protocol_start b = \<lparr>answer_only = False, sent_parts = 0, offered = None, in_sandbox = None,
     used_ids = [], budget = b\<rparr>"

definition fallback :: "string \<Rightarrow> bool" where
  "fallback t \<longleftrightarrow> t = ''context_compaction_complete_only'' \<or> t = ''recall_complete_only''"

definition accepts_part :: "engine_setup \<Rightarrow> nat \<Rightarrow> bool" where
  "accepts_part s k \<longleftrightarrow> (case s_accepts s of None \<Rightarrow> True | Some n \<Rightarrow> k \<le> n)"

definition tool_kind :: "delta_kind \<Rightarrow> bool" where
  "tool_kind k \<longleftrightarrow> k \<in> {KToolCall, KCompaction, KTombstone}"

definition answers :: "native_call \<Rightarrow> stream_delta \<Rightarrow> bool" where
  "answers n d \<longleftrightarrow> sd_kind d = KToolResult
     \<and> (case sd_result d of
          Some r \<Rightarrow> native_id n = Some (tool_call_id r) \<and> result_name r = native_name n
        | None \<Rightarrow> False)"

text \<open>A delta carries what its kind says; a text is not empty.\<close>

definition complete_delta :: "stream_delta \<Rightarrow> bool" where
  "complete_delta d \<longleftrightarrow>
     (case sd_kind d of
        KReasoning \<Rightarrow> sd_text d \<noteq> []
      | KMessage \<Rightarrow> sd_text d \<noteq> []
      | KToolCall \<Rightarrow> sd_call d \<noteq> None
      | KToolResult \<Rightarrow> sd_result d \<noteq> None
      | KCompaction \<Rightarrow> sd_compaction d = Some ''compacting_context'' \<or> sd_compaction d = Some ''compacted_context''
      | KTombstone \<Rightarrow> sd_tombstone d \<noteq> None)"

definition idle :: "protocol \<Rightarrow> bool" where
  "idle p \<longleftrightarrow> in_sandbox p = None"

definition protocol_step :: "engine_setup \<Rightarrow> protocol \<Rightarrow> engine_event \<Rightarrow> protocol option" where
  "protocol_step s p e =
     (let q = p\<lparr>offered := None\<rparr> in
      case e of
        Emitted d \<Rightarrow>
          (let q' = q\<lparr>sent_parts := Suc (sent_parts p)\<rparr> in
           case in_sandbox p of
             Some n \<Rightarrow> if answers n d then Some (q'\<lparr>in_sandbox := None\<rparr>) else None
           | None \<Rightarrow>
               if tool_kind (sd_kind d) \<and> answer_only p \<or> \<not> complete_delta d then None
               else Some (q'\<lparr>offered := (if sd_kind d = KToolCall \<and> accepts_part s (Suc (sent_parts p))
                                         then sd_call d else None)\<rparr>))
      | Dispatched n \<Rightarrow>
          if idle p \<and> \<not> answer_only p \<and> offered p = Some (tool_call_from_native n)
             \<and> call_admissible (used_ids p) n \<and> 0 < budget p
          then Some (q\<lparr>in_sandbox := Some n, used_ids := used_ids p @ [the (native_id n)],
                       budget := budget p - 1\<rparr>)
          else None
      | Asked msgs ts \<Rightarrow> if idle p \<and> (answer_only p \<longrightarrow> ts = []) then Some q else None
      | CompactAsked msgs ph \<Rightarrow> if idle p \<and> \<not> answer_only p then Some q else None
      | Recalled c \<Rightarrow> if idle p \<and> \<not> answer_only p then Some q else None
      | Warned t \<Rightarrow> if idle p then Some (q\<lparr>answer_only := answer_only p \<or> fallback t\<rparr>) else None)"

fun protocol_run :: "engine_setup \<Rightarrow> protocol \<Rightarrow> engine_event list \<Rightarrow> protocol option" where
  "protocol_run s p [] = Some p"
| "protocol_run s p (e # es) =
     (case protocol_step s p e of None \<Rightarrow> None | Some q \<Rightarrow> protocol_run s q es)"

section \<open>What a run of the protocol looks like\<close>

lemma protocol_run_append:
  "protocol_run s p (xs @ ys) =
     (case protocol_run s p xs of None \<Rightarrow> None | Some q \<Rightarrow> protocol_run s q ys)"
  by (induction xs arbitrary: p) (auto split: option.split)

lemma protocol_run_split:
  assumes "protocol_run s p (xs @ e # ys) = Some r"
  obtains q q' where "protocol_run s p xs = Some q" "protocol_step s q e = Some q'"
    "protocol_run s q' ys = Some r"
  using assms by (auto simp: protocol_run_append split: option.splits)

lemmas step_cases = protocol_step_def Let_def idle_def

lemma protocol_snoc:
  assumes "protocol_run s p (xs @ [e]) = Some r"
  obtains q where "protocol_run s p xs = Some q" "protocol_step s q e = Some r"
  using assms by (rule protocol_run_split) auto

lemma emitted_count_simps [simp]:
  "emitted_count [] = 0"
  "emitted_count (xs @ ys) = emitted_count xs + emitted_count ys"
  "emitted_count [Emitted d] = 1"
  "\<not> (\<exists>d. e = Emitted d) \<Longrightarrow> emitted_count [e] = 0"
  by (auto simp: emitted_count_def split: engine_event.split)

lemma sent_parts_run:
  "protocol_run s (protocol_start b) es = Some p \<Longrightarrow> sent_parts p = emitted_count es"
proof (induction es arbitrary: p rule: rev_induct)
  case Nil
  then show ?case by (auto simp: protocol_start_def)
next
  case (snoc e es)
  then obtain q where "protocol_run s (protocol_start b) es = Some q" "protocol_step s q e = Some p"
    by (auto elim: protocol_snoc)
  with snoc.IH [of q] show ?case
    by (cases e) (auto simp: step_cases split: option.splits if_splits)
qed

text \<open>An accepted call was published by the very last event.\<close>

lemma offered_run:
  assumes "protocol_run s (protocol_start b) es = Some p" "offered p = Some c"
  shows "\<exists>us d. es = us @ [Emitted d] \<and> sd_kind d = KToolCall \<and> sd_call d = Some c
     \<and> accepts_part s (emitted_count es)"
proof (cases es rule: rev_cases)
  case Nil
  with assms show ?thesis by (auto simp: protocol_start_def)
next
  case (snoc us e)
  with assms(1) obtain q where q: "protocol_run s (protocol_start b) us = Some q"
    "protocol_step s q e = Some p" by (auto elim: protocol_snoc)
  with sent_parts_run [OF q(1)] assms(2) snoc show ?thesis
    by (cases e) (auto simp: step_cases split: option.splits if_splits)
qed

definition dispatched_calls :: "engine_event list \<Rightarrow> native_call list" where
  "dispatched_calls es = List.map_filter (\<lambda>e. case e of Dispatched n \<Rightarrow> Some n | _ \<Rightarrow> None) es"

lemma dispatched_calls_simps [simp]:
  "dispatched_calls [] = []"
  "dispatched_calls (xs @ ys) = dispatched_calls xs @ dispatched_calls ys"
  "dispatched_calls [Dispatched n] = [n]"
  "\<not> (\<exists>n. e = Dispatched n) \<Longrightarrow> dispatched_calls [e] = []"
  by (auto simp: dispatched_calls_def map_filter_def split: engine_event.split)

lemma call_admissible_seen:
  "call_admissible seen n \<longleftrightarrow> call_admissible [] n \<and> the (native_id n) \<notin> set seen"
  by (auto simp: call_admissible_def split: option.split)

lemma used_ids_run:
  "protocol_run s (protocol_start b) es = Some p \<Longrightarrow>
     used_ids p = map (the \<circ> native_id) (dispatched_calls es) \<and> distinct (used_ids p)
     \<and> budget p = b - int (length (dispatched_calls es))
     \<and> int (length (dispatched_calls es)) \<le> max 0 b
     \<and> list_all (call_admissible []) (dispatched_calls es)"
proof (induction es arbitrary: p rule: rev_induct)
  case Nil
  then show ?case by (auto simp: protocol_start_def)
next
  case (snoc e es)
  then obtain q where q: "protocol_run s (protocol_start b) es = Some q" "protocol_step s q e = Some p"
    by (auto elim: protocol_snoc)
  show ?case
  proof (cases "\<exists>n. e = Dispatched n")
    case True
    then obtain n where n: "e = Dispatched n" by blast
    with q(2) have "call_admissible (used_ids q) n" by (auto simp: step_cases split: if_splits)
    then have "call_admissible [] n \<and> the (native_id n) \<notin> set (used_ids q)"
      using call_admissible_seen by blast
    with q(2) n snoc.IH [OF q(1)] show ?thesis
      by (auto simp: step_cases split: if_splits)
  next
    case False
    then have "used_ids p = used_ids q \<and> budget p = budget q"
      using q(2) by (cases e) (auto simp: step_cases split: option.splits if_splits)
    with snoc.IH [OF q(1)] False show ?thesis by auto
  qed
qed

text \<open>The mode of the answer never ends, and in it no tool is named.\<close>

definition without_tools :: "engine_event \<Rightarrow> bool" where
  "without_tools e =
     (case e of
        Emitted d \<Rightarrow> \<not> tool_kind (sd_kind d)
      | Asked msgs ts \<Rightarrow> ts = []
      | Warned t \<Rightarrow> True
      | _ \<Rightarrow> False)"

lemma answer_only_run:
  assumes "protocol_run s p es = Some q" "answer_only p" "in_sandbox p = None"
  shows "list_all without_tools es"
  using assms
proof (induction es arbitrary: p)
  case (Cons e es)
  then show ?case
    by (cases e) (auto simp: step_cases without_tools_def split: option.splits if_splits)
qed simp

end
