(* ===== verification/Engine_Runs.thy ===== *)
theory Engine_Runs
  imports Engine_Protocol Frame_Facts
begin

text \<open>
  Every run of the executor is a run of the protocol, whatever the model, the sandbox, the compactor,
  the meter and the consumer do; what follows for the tools; and the end of every run.
\<close>

section \<open>Keeping to the protocol\<close>

text \<open>Between two operations: the events so far are a run of the protocol, and the sandbox tools hold
  what the protocol knows.\<close>

definition tracked :: "engine_setup \<Rightarrow> int \<Rightarrow> bool \<Rightarrow> engine_event list \<Rightarrow> sandbox_tools \<Rightarrow> bool" where
  "tracked s b only es t \<longleftrightarrow>
     (\<exists>p. protocol_run s (protocol_start b) es = Some p \<and> answer_only p = only \<and> in_sandbox p = None
        \<and> budget p = tools_remaining t
        \<and> tools_seen t = used_ids p @ map (the \<circ> native_id) (tools_pending t)
        \<and> list_all (call_admissible []) (tools_pending t) \<and> distinct (tools_seen t)
        \<and> (tools_pending t \<noteq> [] \<longrightarrow> int (length (tools_pending t)) \<le> tools_remaining t))"

definition lawful :: "engine_setup \<Rightarrow> int \<Rightarrow> engine_event list \<Rightarrow> bool" where
  "lawful s b es \<longleftrightarrow> protocol_run s (protocol_start b) es \<noteq> None"

abbreviation on_track :: "engine_setup \<Rightarrow> int \<Rightarrow> bool \<Rightarrow> exec \<Rightarrow> bool" where
  "on_track s b only w \<equiv> tracked s b only (log w) (tools w)"

named_theorems track \<open>operations that keep to the protocol\<close>

lemma tracked_lawful: "tracked s b only es t \<Longrightarrow> lawful s b es"
  by (auto simp: tracked_def lawful_def)

lemma tracked_snoc:
  assumes "tracked s b only es t"
    "\<And>p. answer_only p = only \<Longrightarrow> in_sandbox p = None \<Longrightarrow>
       \<exists>q. protocol_step s p e = Some q \<and> answer_only q = only' \<and> in_sandbox q = None
         \<and> used_ids q = used_ids p \<and> budget q = budget p"
  shows "tracked s b only' (es @ [e]) t"
proof -
  from assms(1) obtain p where p: "protocol_run s (protocol_start b) es = Some p"
    "answer_only p = only" "in_sandbox p = None" "budget p = tools_remaining t"
    "tools_seen t = used_ids p @ map (the \<circ> native_id) (tools_pending t)"
    and rest: "list_all (call_admissible []) (tools_pending t)" "distinct (tools_seen t)"
      "tools_pending t \<noteq> [] \<longrightarrow> int (length (tools_pending t)) \<le> tools_remaining t"
    by (auto simp: tracked_def)
  from assms(2) [OF p(2,3)] obtain q where q: "protocol_step s p e = Some q" "answer_only q = only'"
    "in_sandbox q = None" "used_ids q = used_ids p" "budget q = budget p" by blast
  from p(1) q(1) have "protocol_run s (protocol_start b) (es @ [e]) = Some q"
    by (simp add: protocol_run_append)
  with p q rest show ?thesis unfolding tracked_def by (intro exI [of _ q]) auto
qed

lemma tracked_emit [track]:
  "tracked s b only es t \<Longrightarrow> tool_kind (sd_kind d) \<longrightarrow> \<not> only \<Longrightarrow> complete_delta d \<Longrightarrow> tracked s b only (es @ [Emitted d]) t"
  by (rule tracked_snoc) (auto simp: step_cases)

lemma tracked_emit2 [track]:
  "tracked s b only es t \<Longrightarrow> tool_kind (sd_kind d) \<or> tool_kind (sd_kind d') \<longrightarrow> \<not> only \<Longrightarrow>
     complete_delta d \<Longrightarrow> complete_delta d' \<Longrightarrow> tracked s b only (es @ [Emitted d, Emitted d']) t"
  using tracked_emit [of s b only "es @ [Emitted d]" t d'] tracked_emit [of s b only es t d] by simp

lemma tracked_warn [track]:
  "tracked s b only es t \<Longrightarrow> \<not> fallback x \<Longrightarrow> tracked s b only (es @ [Warned x]) t"
  by (rule tracked_snoc) (auto simp: step_cases)

lemma tracked_fall_back: "tracked s b only es t \<Longrightarrow> fallback x \<Longrightarrow> tracked s b True (es @ [Warned x]) t"
  by (rule tracked_snoc) (auto simp: step_cases)

lemma tracked_asked [track]:
  "tracked s b only es t \<Longrightarrow> only \<longrightarrow> ts = [] \<Longrightarrow> tracked s b only (es @ [Asked msgs ts]) t"
  by (rule tracked_snoc) (auto simp: step_cases)

lemma tracked_compact [track]: "tracked s b False es t \<Longrightarrow> tracked s b False (es @ [CompactAsked msgs ph]) t"
  by (rule tracked_snoc) (auto simp: step_cases)

lemma tracked_recalled [track]: "tracked s b False es t \<Longrightarrow> tracked s b False (es @ [Recalled c]) t"
  by (rule tracked_snoc) (auto simp: step_cases)

section \<open>Context and streams\<close>

lemma post_update [post_simps]: "post (update f w) Q E = Q () (f w)"
  by (simp add: update_def post_simps)

lemma post_events [post_simps]:
  "post (emit d w) Q E = Q () (w\<lparr>log := log w @ [Emitted d], emitted := True\<rparr>)"
  "post (warn x w) Q E = Q () (w\<lparr>log := log w @ [Warned x]\<rparr>)"
  by (simp_all add: emit_def warn_def post_simps)

lemma fallbacks [simp]:
  "\<not> fallback ''complete_only_meter_unavailable''" "\<not> fallback ''complete_only_tool_calls_ignored''"
  "\<not> fallback ''context_compaction_admission_failed''"
  "fallback ''context_compaction_complete_only''" "fallback ''recall_complete_only''"
  by (simp_all add: fallback_def)

lemma tool_kind_simps [simp]:
  "tool_kind KToolCall" "tool_kind KCompaction" "tool_kind KTombstone"
  "\<not> tool_kind KReasoning" "\<not> tool_kind KMessage" "\<not> tool_kind KToolResult"
  by (simp_all add: tool_kind_def)

lemma text_delta_simps [simp]:
  "sd_kind (text_delta k x) = k" "sd_text (text_delta k x) = x" "sd_call (text_delta k x) = None"
  "sd_result (text_delta k x) = None" "sd_tombstone (text_delta k x) = None"
  by (simp_all add: text_delta_def)

lemma complete_delta_simps [simp]:
  "complete_delta (d\<lparr>sd_pressure := p\<rparr>) = complete_delta d"
  "complete_delta (text_delta KReasoning x) = (x \<noteq> [])" "complete_delta (text_delta KMessage x) = (x \<noteq> [])"
  "complete_delta ((text_delta KToolCall x)\<lparr>sd_call := Some c\<rparr>)"
  "complete_delta ((text_delta KToolResult x)\<lparr>sd_result := Some r\<rparr>)"
  "complete_delta ((text_delta KTombstone x)\<lparr>sd_tombstone := Some m\<rparr>)"
  "complete_delta ((text_delta KCompaction x)\<lparr>sd_compaction := Some ''compacting_context''\<rparr>)"
  "complete_delta ((text_delta KCompaction x)\<lparr>sd_compaction := Some ''compacted_context''\<rparr>)"
  by (simp_all add: complete_delta_def text_delta_def split: delta_kind.split)

lemma measure_context_frame:
  "post (measure_context s msgs w) (\<lambda>p v. v = w\<lparr>clock := Suc (clock w)\<rparr>)
     (\<lambda>e v. v = w\<lparr>clock := Suc (clock w)\<rparr>)"
  by (simp add: measure_context_def post_def split: sum.split)

lemma measure_context_track [track]:
  "on_track s b only w \<Longrightarrow> post (measure_context s msgs w) (\<lambda>_. on_track s b only) (\<lambda>_. on_track s b only)"
  by (rule post_mono [OF measure_context_frame]) auto

lemma measure_track [track]:
  "on_track s b only w \<Longrightarrow> post (measure s msgs o' w) (\<lambda>_. on_track s b only) (\<lambda>_. on_track s b only)"
  using measure_context_frame [of s msgs w]
  by (auto simp: measure_def post_def intro!: track split: prod.splits sum.splits)

lemma ask_compactor_track [track]:
  "on_track s b False w \<Longrightarrow>
     post (ask_compactor s msgs ph w) (\<lambda>_. on_track s b False) (\<lambda>_. on_track s b False)"
  by (auto simp: ask_compactor_def post_simps Let_def post_def intro!: track split: list.split sum.split)

lemma context_boundary_track [track]:
  assumes "on_track s b False w"
  shows "post (context_boundary s msgs ph w) (\<lambda>_. on_track s b False) (\<lambda>_. on_track s b False)"
proof -
  have inner: "post (bindM (ask_compactor s msgs ph) (\<lambda>memory.
      bindM (measure_context s (active_context memory)) (\<lambda>pressure.
      bindM (emit (compaction_delta ''compacted_context'' (Some pressure))) (\<lambda>_.
      bindM (emit (tombstone_delta memory (Some pressure))) (\<lambda>_. ret (Inr (active_context memory)))))) v)
      (\<lambda>_. on_track s b False) (\<lambda>_. on_track s b False)" if "on_track s b False v" for v
    unfolding post_bind [of "ask_compactor s msgs ph"]
    by (rule post_mono [OF ask_compactor_track [OF that]])
       (auto simp: post_simps intro!: track post_mono [OF measure_context_track])
  show ?thesis
    unfolding context_boundary_def post_bind [of "measure_context s msgs"]
    by (rule post_mono [OF measure_context_track [OF assms]])
       (auto simp: post_bind [of "emit d" for d] post_catch post_events post_ret post_if
          split: prod.split intro!: track post_mono [OF inner])
qed

lemma block_delta_kind: "d \<in> set (block_delta b) \<Longrightarrow> \<not> tool_kind (sd_kind d) \<and> complete_delta d"
  by (auto simp: block_delta_def Let_def split: if_splits)

lemma chunk_kind: "d \<in> set (deltas_from_chunk c) \<Longrightarrow> \<not> tool_kind (sd_kind d) \<and> complete_delta d"
  by (auto simp: deltas_from_chunk_def Let_def split: if_splits json.splits dest: block_delta_kind)

lemma stream_one_track:
  assumes "on_track s b only w" "\<not> tool_kind (sd_kind d)" "complete_delta d"
  shows "post (stream_one s st d w) (\<lambda>_. on_track s b only) (\<lambda>_. on_track s b only)"
  unfolding stream_one_def post_bind post_update
  by (rule post_mono [OF measure_track]) (use assms in \<open>auto simp: post_simps intro!: track\<close>)

lemma chunk_track:
  assumes "on_track s b only w"
  shows "post (foldM (\<lambda>_. stream_one s st) () (deltas_from_chunk c) w) (\<lambda>_. on_track s b only)
    (\<lambda>_. on_track s b only)"
proof -
  let ?I = "\<lambda>(ds :: stream_delta list) (_ :: unit) w. on_track s b only w \<and> (\<forall>d \<in> set ds. \<not> tool_kind (sd_kind d) \<and> complete_delta d)"
  have "post (foldM (\<lambda>_. stream_one s st) () (deltas_from_chunk c) w) (?I []) (\<lambda>_. on_track s b only)"
    by (rule post_foldM [of ?I]) (use assms chunk_kind in \<open>auto intro!: post_mono [OF stream_one_track]\<close>)
  then show ?thesis by simp
qed

lemma read_stream_track:
  "on_track s b only w \<Longrightarrow>
     post (read_stream s st f xs got w) (\<lambda>_. on_track s b only) (\<lambda>_. on_track s b only)"
proof (induction s st f xs got arbitrary: w rule: read_stream.induct)
  case (3 s st f c xs got)
  show ?case
    unfolding read_stream.simps post_bind
    by (rule post_mono [OF chunk_track [OF "3.prems"]]) (rule "3.IH", assumption+)
qed (auto simp: post_simps)

lemma open_stream_track:
  "on_track s b only w \<Longrightarrow> post (open_stream s st w) (\<lambda>_. on_track s b only) (\<lambda>_. on_track s b only)"
  by (auto simp: open_stream_def post_simps split: list.split intro!: read_stream_track)

lemma attempts_track [track]:
  "on_track s b only w \<Longrightarrow> post (attempts n s st w) (\<lambda>_. on_track s b only) (\<lambda>_. on_track s b only)"
proof (induction n arbitrary: w)
  case (Suc n)
  have "post (case open_stream s st w of (Inr got, w') \<Rightarrow> (Inr got, w')
       | (Inl e, w') \<Rightarrow> if emitted w' \<or> dispatched w' \<or> n = 0 then (Inl e, w') else attempts n s st w')
      (\<lambda>_. on_track s b only) (\<lambda>_. on_track s b only)"
    using open_stream_track [OF Suc.prems, of st]
    by (cases "open_stream s st w" rule: outcome_cases) (auto simp: post_simps intro: Suc.IH)
  then show ?case by simp
qed (simp add: post_simps)

lemma ask_model_track:
  assumes "on_track s b (complete_only st) w"
  shows "post (ask_model s st w) (\<lambda>_. on_track s b (complete_only st)) (\<lambda>_. on_track s b (complete_only st))"
  unfolding ask_model_def Let_def post_bind post_update
  by (rule post_mono [OF measure_track [OF assms]]) (auto intro!: track)

section \<open>Tools\<close>

abbreviation keeping :: "engine_setup \<Rightarrow> int \<Rightarrow> exec_state \<Rightarrow> exec \<Rightarrow> bool" where
  "keeping s b st w \<equiv> on_track s b (complete_only st) w"

abbreviation lawful_end :: "engine_setup \<Rightarrow> int \<Rightarrow> error \<Rightarrow> exec \<Rightarrow> bool" where
  "lawful_end s b e w \<equiv> lawful s b (log w)"

lemmas lawfulI = tracked_lawful

lemma complete_turn_track:
  assumes "on_track s b True w" "complete_only st"
  shows "post (complete_turn s st r w) (keeping s b) (lawful_end s b)"
proof -
  have warned: "on_track s b True (w\<lparr>log := log w @ [Warned ''complete_only_tool_calls_ignored'']\<rparr>)"
    using assms(1) by (simp add: track)
  show ?thesis
    using assms
    by (auto simp: complete_turn_def post_simps empty_completion_def intro!: track lawfulI post_mono [OF measure_track]
          post_mono [OF measure_track [OF warned]] split: prod.split)
qed

lemma batch_admissible_ids:
  "batch_admissible seen ns = Some ids \<Longrightarrow>
     ids = map (the \<circ> native_id) ns \<and> list_all (call_admissible []) ns \<and> distinct ids
     \<and> (\<forall>i \<in> set ids. i \<notin> set seen)"
proof (induction ns arbitrary: seen ids)
  case (Cons n ns)
  then obtain js where js: "call_admissible seen n" "ids = the (native_id n) # js"
    "batch_admissible (the (native_id n) # seen) ns = Some js"
    by (auto simp: Let_def split: if_splits)
  with Cons.IH [OF js(3)] show ?case using call_admissible_seen [of seen n] by auto
qed simp

lemma admit_track:
  assumes "tracked s b False es t" "admit r t = Inr t'"
  shows "tracked s b False es t' \<and> tools_pending t' = response_calls r"
proof -
  from assms(2) obtain ids where ids: "tools_pending t = []"
    "int (length (response_calls r)) \<le> tools_remaining t"
    "batch_admissible (tools_seen t) (response_calls r) = Some ids"
    "t' = t\<lparr>tools_pending := response_calls r, tools_seen := tools_seen t @ ids\<rparr>"
    by (auto simp: admit_def split: if_splits option.splits)
  from batch_admissible_ids [OF ids(3)] assms(1) ids show ?thesis
    by (fastforce simp: tracked_def)
qed

text \<open>The call in front of the queue, after its delta was published.\<close>

lemma tracked_call:
  assumes "tracked s b False es t" "tools_pending t = n # ns"
    and d: "sd_kind d = KToolCall" "sd_call d = Some (tool_call_from_native n)"
    and accepted: "accepts_part s (Suc (emitted_count es))"
    and t': "t' = t\<lparr>tools_pending := ns, tools_remaining := tools_remaining t - 1\<rparr>"
  shows "lawful s b (es @ [Emitted d, Dispatched n])"
    "answers n d' \<Longrightarrow> tracked s b False (es @ [Emitted d, Dispatched n, Emitted d']) t'"
proof -
  from assms(1) obtain p where p: "protocol_run s (protocol_start b) es = Some p"
    "\<not> answer_only p" "in_sandbox p = None" "budget p = tools_remaining t"
    "tools_seen t = used_ids p @ map (the \<circ> native_id) (tools_pending t)"
    and rest: "list_all (call_admissible []) (tools_pending t)" "distinct (tools_seen t)"
      "tools_pending t \<noteq> [] \<longrightarrow> int (length (tools_pending t)) \<le> tools_remaining t"
    by (auto simp: tracked_def)
  define q where "q = p\<lparr>sent_parts := Suc (sent_parts p), offered := Some (tool_call_from_native n)\<rparr>"
  define q' where "q' = q\<lparr>offered := None, in_sandbox := Some n,
     used_ids := used_ids p @ [the (native_id n)], budget := budget p - 1\<rparr>"
  have e1: "protocol_step s p (Emitted d) = Some q"
    using p d accepted sent_parts_run [OF p(1)] by (simp add: step_cases q_def complete_delta_def)
  have "call_admissible (used_ids p) n" "0 < budget p"
    using rest p assms(2) call_admissible_seen [of "used_ids p" n] by auto
  then have e2: "protocol_step s q (Dispatched n) = Some q'"
    using p by (simp add: step_cases q_def q'_def)
  from p(1) e1 e2 have run: "protocol_run s (protocol_start b) (es @ [Emitted d, Dispatched n]) = Some q'"
    by (simp add: protocol_run_append)
  then show "lawful s b (es @ [Emitted d, Dispatched n])" by (simp add: lawful_def)
  assume "answers n d'"
  then have e3: "protocol_step s q' (Emitted d')
      = Some (q'\<lparr>offered := None, sent_parts := Suc (sent_parts q'), in_sandbox := None\<rparr>)"
    by (simp add: step_cases q'_def q_def)
  from p(1) e1 e2 e3 have "protocol_run s (protocol_start b) (es @ [Emitted d, Dispatched n, Emitted d'])
      = Some (q'\<lparr>offered := None, sent_parts := Suc (sent_parts q'), in_sandbox := None\<rparr>)"
    by (simp add: protocol_run_append)
  with p rest assms(2) t' show "tracked s b False (es @ [Emitted d, Dispatched n, Emitted d']) t'"
    unfolding tracked_def by (auto simp: q'_def q_def)
qed

lemma post_publish [post_simps]:
  "post (publish_call s d w) Q E =
     (let v = w\<lparr>log := log w @ [Emitted d], emitted := True\<rparr> in
      if accepts_part s (Suc (emitted_count (log w))) then Q () v else E StreamClosed v)"
  by (auto simp: publish_call_def post_bind post_events post_pair accepts_part_def Let_def not_less
      split: option.split)

lemma call_tool_post:
  assumes "tools_pending (tools w) = n # ns"
  shows "post (call_tool s n w)
    (\<lambda>r v. log v = log w @ [Dispatched n] \<and> tool_call_id r = (case native_id n of None \<Rightarrow> [] | Some i \<Rightarrow> i)
       \<and> result_name r = native_name n
       \<and> tools v = (tools w)\<lparr>tools_pending := ns, tools_remaining := tools_remaining (tools w) - 1\<rparr>)
    (\<lambda>e v. log v = log w \<or> log v = log w @ [Dispatched n])"
  using assms
  by (auto simp: call_tool_def post_simps Let_def tool_result_from_message_def split: list.split tool_outcome.split
      prod.split)

lemma call_admissible_id: "call_admissible seen n \<Longrightarrow> \<exists>i. native_id n = Some i"
  by (auto simp: call_admissible_def split: option.splits)

lemma sandbox_step_track:
  assumes w: "on_track s b False w" "tools_pending (tools w) = n # ns" and st: "\<not> complete_only st"
  shows "post (sandbox_step s st n w)
     (\<lambda>st' v. on_track s b False v \<and> tools_pending (tools v) = ns \<and> \<not> complete_only st') (lawful_end s b)"
proof -
  from w obtain i where i: "native_id n = Some i"
    using call_admissible_id [of "[]" n] by (auto simp: tracked_def)
  let ?d = "\<lambda>p. call_delta (tool_call_from_native n) (Some p)"
  have refused: "lawful s b (log w @ [Emitted (?d p)])" for p
    by (rule lawfulI [OF tracked_emit [OF w(1)]]) simp_all
  have after: "post (bindM (call_tool s n) (\<lambda>r.
        let st' = st\<lparr>active := active st @ [Plain (CallTurn c), Plain (ResultTurn r)]\<rparr> in
        bindM (measure_context s (active st')) (\<lambda>p. bindM (emit (result_delta r (Some p))) (\<lambda>_. ret st'))) v)
      (\<lambda>st' v. on_track s b False v \<and> tools_pending (tools v) = ns \<and> \<not> complete_only st') (lawful_end s b)"
    if v: "log v = log w @ [Emitted (?d p)]" "tools v = tools w" and ok: "accepts_part s (Suc (emitted_count (log w)))"
    for v c p
  proof -
    note call = tracked_call [OF w, where d = "?d p", OF _ _ ok refl]
    show ?thesis
      unfolding post_bind Let_def
    proof (rule post_mono [OF call_tool_post])
      show "tools_pending (tools v) = n # ns" using v w by simp
    next
      fix r :: tool_result and u :: exec
      assume u: "log u = log v @ [Dispatched n] \<and> tool_call_id r = (case native_id n of None \<Rightarrow> [] | Some i \<Rightarrow> i)
        \<and> result_name r = native_name n
        \<and> tools u = (tools v)\<lparr>tools_pending := ns, tools_remaining := tools_remaining (tools v) - 1\<rparr>"
      then have "answers n (result_delta r q)" for q using i by (simp add: answers_def)
      with u v call show "post (measure_context s
           (active (st\<lparr>active := active st @ [Plain (CallTurn c), Plain (ResultTurn r)]\<rparr>)) u)
         (\<lambda>x v. post (emit (result_delta r (Some x)) v)
            (\<lambda>_ v. post (ret (st\<lparr>active := active st @ [Plain (CallTurn c), Plain (ResultTurn r)]\<rparr>) v)
               (\<lambda>st' v. on_track s b False v \<and> tools_pending (tools v) = ns \<and> \<not> complete_only st') (lawful_end s b))
            (lawful_end s b)) (lawful_end s b)"
        using st by (intro post_mono [OF measure_context_frame]) (auto simp: post_simps)
    next
      fix e and u :: exec
      assume "log u = log v \<or> log u = log v @ [Dispatched n]"
      with v refused [of p] call(1) show "lawful s b (log u)" by auto
    qed
  qed
  show ?thesis
    unfolding sandbox_step_def Let_def post_bind [of "measure_context s msgs" for msgs]
    by (rule post_mono [OF measure_context_frame])
       (use refused after tracked_lawful [OF w(1)] in
         \<open>auto simp: post_bind [of "publish_call s d" for d] post_bind [of "update g" for g] post_publish post_update
            Let_def\<close>)
qed

lemma tools_turn_track:
  assumes "on_track s b False w" "\<not> complete_only st"
  shows "post (tools_turn s st r w) (\<lambda>st' v. on_track s b False v \<and> \<not> complete_only st') (lawful_end s b)"
proof (cases "admit r (tools w)")
  case (Inl e)
  with assms show ?thesis by (simp add: tools_turn_def post_simps lawfulI)
next
  case (Inr t)
  note admitted = admit_track [OF assms(1) Inr]
  let ?I = "\<lambda>ns st' (v :: exec). on_track s b False v \<and> tools_pending (tools v) = ns \<and> \<not> complete_only (st' :: exec_state)"
  have "post (foldM (sandbox_step s) st (response_calls r) (w\<lparr>tools := t\<rparr>)) (?I []) (lawful_end s b)"
    by (rule post_foldM [of ?I]) (use admitted assms(2) in \<open>auto intro!: sandbox_step_track\<close>)
  then have "post (tools_turn s st r w) (?I []) (lawful_end s b)" by (simp add: tools_turn_def Inr)
  then show ?thesis by (rule post_mono) auto
qed

section \<open>Local recalls\<close>

lemma publish_local_track:
  assumes "on_track s b False w" "\<not> complete_only st"
  shows "post (publish_local s st c w) (\<lambda>st' v. on_track s b False v \<and> \<not> complete_only st') (lawful_end s b)"
  unfolding publish_local_def Let_def post_bind
  by (rule post_mono [OF measure_context_track [OF assms(1)]])
     (use assms(2) in \<open>auto simp: post_simps Let_def intro!: track lawfulI\<close>)

lemma recall_call_track:
  "on_track s b False w \<Longrightarrow> post (recall_call s msgs c w) (\<lambda>_. on_track s b False) E"
  by (auto simp: recall_call_def Let_def post_pair split: prod.split intro!: track)

lemma recall_step_track:
  assumes "keeping s b st w"
  shows "post (recall_step s st c w) (keeping s b) (lawful_end s b)"
proof -
  have rest: "post (bindM (measure s msgs o') (\<lambda>p. bindM (emit (result_delta r p)) (\<lambda>_. ret st'')) v)
      (keeping s b) (lawful_end s b)" if "keeping s b st'' v" for st'' v r msgs o'
    unfolding post_bind
    by (rule post_mono [OF measure_track [OF that]]) (auto simp: post_simps intro!: track lawfulI)
  show ?thesis
  proof (cases "complete_only st")
    case True
    with assms show ?thesis by (auto simp: recall_step_def post_ret post_bind [of "ret x" for x] intro!: rest)
  next
    case False
    with assms have w: "on_track s b False w" by simp
    show ?thesis
      unfolding recall_step_def post_bind [of "if c then m else k" for c m k]
      using False
      by (auto simp: post_bind [of "recall_call s m d" for m d] post_bind [of "warn d" for d] post_ret post_events
          Let_def post_if intro!: rest post_mono [OF recall_call_track [OF w]] tracked_fall_back)
  qed
qed

lemma local_turn_track:
  assumes "on_track s b False w" "\<not> complete_only st"
  shows "post (local_turn s st ns w) (keeping s b) (lawful_end s b)"
proof -
  let ?P = "\<lambda>(cs :: tool_call list) st' (v :: exec). on_track s b False v \<and> \<not> complete_only (st' :: exec_state)"
  let ?R = "\<lambda>(cs :: tool_call list) st' (v :: exec). keeping s b st' v"
  have "post (foldM (publish_local s) st cs w) (?P []) (lawful_end s b)" for cs
    by (rule post_foldM [of ?P]) (use assms in \<open>auto intro!: publish_local_track\<close>)
  moreover have "post (foldM (recall_step s) st' cs v) (?R []) (lawful_end s b)" if "?P [] st' v" for st' v cs
    by (rule post_foldM [of ?R]) (use that in \<open>auto intro!: recall_step_track\<close>)
  ultimately have "post (bindM (foldM (publish_local s) st cs) (\<lambda>st1. foldM (recall_step s) st1 cs) w)
      (keeping s b) (lawful_end s b)" for cs
    unfolding post_bind by (rule post_mono) auto
  with assms show ?thesis by (simp add: local_turn_def Let_def post_if post_lift lawfulI)
qed

section \<open>Turns and runs\<close>

lemma model_step_track:
  assumes "keeping s b st w"
  shows "post (model_step s st w) (keeping s b) (lawful_end s b)"
proof -
  have closing: "post (bindM m (\<lambda>st2. ret (st2\<lparr>started := True, finished_turn := f\<rparr>)) v) (keeping s b) (lawful_end s b)"
    if "post (m v) (keeping s b) (lawful_end s b)" for m :: "exec_state exe" and f v
    unfolding post_bind by (rule post_mono [OF that]) (auto simp: post_ret)
  have tools: "post (tools_turn s st' r v) (keeping s b) (lawful_end s b)"
    if "on_track s b False v" "\<not> complete_only st'" for st' r v
    by (rule post_mono [OF tools_turn_track [OF that]]) auto
  show ?thesis
    unfolding model_step_def post_bind [of "ask_model s st"]
    by (rule post_mono [OF ask_model_track [OF assms]])
       (auto simp: Let_def post_if post_lift lawfulI intro!: complete_turn_track closing tools local_turn_track)
qed

lemma boundary_track:
  assumes "keeping s b st w"
  shows "post (boundary s st w) (keeping s b) (lawful_end s b)"
proof (cases "complete_only st")
  case False
  with assms have w: "on_track s b False w" by simp
  show ?thesis
    unfolding boundary_def using False
    by (auto simp: post_bind [of "context_boundary s m p" for m p] intro!: post_mono [OF context_boundary_track [OF w]])
       (auto simp: post_simps split: sum.split intro!: lawfulI track tracked_fall_back)
qed (use assms in \<open>simp add: boundary_def post_ret\<close>)

lemma graph_pass_track:
  assumes "keeping s b st w"
  shows "post (graph_pass s st w) (keeping s b) (lawful_end s b)"
  unfolding graph_pass_def post_bind
  by (rule post_mono [OF boundary_track [OF assms]], rule post_mono [OF model_step_track], assumption,
      rule boundary_track)

lemma passes_track:
  "keeping s b st w \<Longrightarrow> post (passes n s st w) (keeping s b) (lawful_end s b)"
proof (induction n arbitrary: st w)
  case (Suc n)
  have "post (bindM (graph_pass s st) (passes n s) w) (keeping s b) (lawful_end s b)"
    unfolding post_bind by (rule post_mono [OF graph_pass_track [OF Suc.prems]]) (rule Suc.IH)
  with Suc.prems show ?case by (simp add: post_ret)
qed (simp add: post_simps lawfulI)

lemma first_track: "tracked s b False [] \<lparr>tools_remaining = b, tools_pending = [], tools_seen = []\<rparr>"
  by (simp add: tracked_def protocol_start_def)

lemma execute_lawful: "lawful s b (log (snd (execute fuel s opened (first_exec b ms p ts cs))))"
proof -
  have "post (bindM (lift opened) (\<lambda>_. passes fuel s (first_state s)) (first_exec b ms p ts cs))
      (keeping s b) (lawful_end s b)"
    unfolding post_bind post_lift
    using passes_track [of s b "first_state s" "first_exec b ms p ts cs"] first_track tracked_lawful [OF first_track]
    by (auto simp: first_exec_def first_state_def lawfulI split: sum.split)
  then show ?thesis
    unfolding execute_def
    by (cases "bindM (lift opened) (\<lambda>_. passes fuel s (first_state s)) (first_exec b ms p ts cs)" rule: outcome_cases)
       (auto simp: post_pair lawfulI)
qed

section \<open>The end of every run\<close>

text \<open>\<open>mild k m\<close>: with at most \<open>k\<close> streams left, \<open>m\<close> gives none back and does not run out of fuel.\<close>

definition left :: "nat \<Rightarrow> exec \<Rightarrow> bool" where
  "left k w \<longleftrightarrow> length (streams w) \<le> k \<and> Inl OutOfFuel \<notin> set (compactions w)"

abbreviation mild_end :: "nat \<Rightarrow> error \<Rightarrow> exec \<Rightarrow> bool" where
  "mild_end k e w \<equiv> e \<noteq> OutOfFuel \<and> left k w"

definition mild :: "nat \<Rightarrow> 'a exe \<Rightarrow> bool" where
  "mild k m \<longleftrightarrow> (\<forall>w. left k w \<longrightarrow> post (m w) (\<lambda>_. left k) (mild_end k))"

named_theorems mild_intros \<open>operations that do not run out of fuel\<close>

lemma mildD: "mild k m \<Longrightarrow> left k w \<Longrightarrow> post (m w) (\<lambda>_. left k) (mild_end k)"
  by (simp add: mild_def)

lemma mild_basic [mild_intros]:
  "mild k (ret x)" "r \<noteq> Inl OutOfFuel \<Longrightarrow> mild k (lift r)" "mild k (emit d)" "mild k (warn t)"
  by (auto simp: mild_def post_simps left_def split: sum.split)

lemma mild_update [mild_intros]:
  "(\<And>w. streams (f w) = streams w \<and> compactions (f w) = compactions w) \<Longrightarrow> mild k (update f)"
  by (auto simp: mild_def post_simps left_def)

lemma mild_bind [mild_intros]:
  assumes "mild k m" "\<And>x. mild k (f x)"
  shows "mild k (bindM m f)"
  unfolding mild_def post_bind
proof (intro allI impI)
  fix w
  assume "left k w"
  show "post (m w) (\<lambda>x v. post (f x v) (\<lambda>_. left k) (mild_end k)) (mild_end k)"
    by (rule post_mono [OF mildD [OF assms(1) \<open>left k w\<close>]]) (auto intro: mildD assms(2))
qed

lemma mild_catch [mild_intros]:
  assumes "mild k m" "\<And>e. mild k (h e)"
  shows "mild k (catchE m h)"
  unfolding mild_def post_catch
proof (intro allI impI)
  fix w
  assume "left k w"
  show "post (m w) (\<lambda>_. left k) (\<lambda>e v. if e = OutOfFuel then mild_end k e v
      else post (h e v) (\<lambda>_. left k) (mild_end k))"
    by (rule post_mono [OF mildD [OF assms(1) \<open>left k w\<close>]]) (auto intro: mildD assms(2))
qed

lemma mild_foldM [mild_intros]:
  assumes "\<And>s x. mild k (f s x)"
  shows "mild k (foldM f s xs)"
  by (induction xs arbitrary: s) (auto intro: mild_intros assms)

lemma mild_state: "(\<And>v. mild k (\<lambda>w. m v w)) \<Longrightarrow> mild k (\<lambda>w. m w w)"
  by (simp add: mild_def)

lemma mild_publish [mild_intros]: "mild k (publish_call s d)"
  by (auto simp: mild_def post_simps Let_def left_def)

lemma count_no_fuel: "count m msgs \<noteq> Inl OutOfFuel"
  by (auto simp: count_def split: sum.split)

lemma measure_context_mild [mild_intros]: "mild k (measure_context s msgs)"
  using count_no_fuel
  by (auto simp: mild_def measure_context_def post_def left_def bindE_eq_Inl split: sum.split if_splits)

lemma measure_mild [mild_intros]: "mild k (measure s msgs o')"
  unfolding mild_def
proof (intro allI impI)
  fix w
  assume "left k w"
  with measure_context_mild [of k s msgs] show "post (measure s msgs o' w) (\<lambda>_. left k) (mild_end k)"
    by (cases "measure_context s msgs w" rule: outcome_cases)
       (auto simp: measure_def post_pair mild_def left_def dest!: spec [of _ w])
qed

lemma ask_compactor_mild [mild_intros]: "mild k (ask_compactor s msgs ph)"
  by (auto simp: mild_def ask_compactor_def left_def Let_def post_def split: list.split sum.split)

lemma context_boundary_mild [mild_intros]: "mild k (context_boundary s msgs ph)"
  unfolding context_boundary_def by (auto intro!: mild_intros split: prod.split)

lemma stream_one_mild [mild_intros]: "mild k (stream_one s st d)"
  unfolding stream_one_def
  by (intro mild_bind mild_update, simp) (rule mild_state, intro mild_intros)

lemma read_stream_mild [mild_intros]: "mild k (read_stream s st f xs got)"
  by (induction s st f xs got rule: read_stream.induct) (auto intro!: mild_intros)

text \<open>An attempt takes one stream; three attempts return only with one taken.\<close>

lemma left_mono: "left j w \<Longrightarrow> j \<le> k \<Longrightarrow> left k w"
  by (simp add: left_def)

definition one_taken :: "nat \<Rightarrow> exec \<Rightarrow> bool" where
  "one_taken k w \<longleftrightarrow> 0 < k \<and> left (k - 1) w"

lemma mild_later: "mild (k - 1) m \<Longrightarrow> one_taken k v \<Longrightarrow> post (m v) (\<lambda>_. one_taken k) (mild_end k)"
  unfolding one_taken_def
  by (erule conjE, rule post_mono [OF mildD], assumption+) (auto elim: left_mono)

lemma left_updates [simp]:
  "left k (w\<lparr>log := l, step_text := t\<rparr>) = left k w"
  by (simp add: left_def)

lemma open_stream_take: "left k w \<Longrightarrow> post (open_stream s st w) (\<lambda>_. one_taken k) (mild_end k)"
proof (cases "streams w")
  case (Cons m ms)
  assume "left k w"
  with Cons have "one_taken k (w\<lparr>streams := ms\<rparr>)" by (auto simp: left_def one_taken_def)
  then show ?thesis
    unfolding open_stream_def Cons
    by simp (rule mild_later [OF read_stream_mild])
qed (simp add: open_stream_def post_pair)

lemma attempts_take:
  "left k w \<Longrightarrow> post (attempts (Suc n) s st w) (\<lambda>_. one_taken k) (mild_end k)"
proof (induction n arbitrary: w)
  case 0
  with open_stream_take [OF 0, of s st] show ?case
    by (cases "open_stream s st w" rule: outcome_cases) (auto simp: post_pair)
next
  case (Suc n)
  from open_stream_take [OF Suc.prems, of s st] show ?case
    using Suc.IH unfolding attempts.simps(2) [of "Suc n"]
    by (cases "open_stream s st w" rule: outcome_cases) (auto simp: post_pair simp del: attempts.simps)
qed

lemma attempts_3: "left k w \<Longrightarrow> post (attempts 3 s st w) (\<lambda>_. one_taken k) (mild_end k)"
  using attempts_take [of k w 2 s st] by (simp add: eval_nat_numeral)

lemma ask_model_take: "left k w \<Longrightarrow> post (ask_model s st w) (\<lambda>_. one_taken k) (mild_end k)"
  unfolding ask_model_def Let_def post_bind [of "measure s m o'" for m o']
  by (rule post_mono [OF mildD [OF measure_mild]])
     (auto simp: post_bind [of "update f" for f] post_update intro!: attempts_3)

lemma call_tool_mild [mild_intros]: "mild k (call_tool s n)"
  by (auto simp: mild_def call_tool_def left_def Let_def post_def split: list.split tool_outcome.split)

lemma recall_call_mild [mild_intros]: "mild k (recall_call s msgs c)"
  by (auto simp: mild_def recall_call_def left_def Let_def post_def split: prod.split)

lemma sandbox_step_mild [mild_intros]: "mild k (sandbox_step s st n)"
  unfolding sandbox_step_def Let_def by (auto intro!: mild_intros)

lemma publish_local_mild [mild_intros]: "mild k (publish_local s st c)"
  unfolding publish_local_def Let_def by (auto intro!: mild_intros)

lemma recall_step_mild [mild_intros]: "mild k (recall_step s st c)"
  unfolding recall_step_def Let_def by (auto intro!: mild_intros split: prod.split)

lemma local_turn_mild [mild_intros]: "mild k (local_turn s st ns)"
  unfolding local_turn_def Let_def by (auto intro!: mild_intros)

lemma tools_turn_mild [mild_intros]: "mild k (tools_turn s st r)"
  unfolding mild_def
proof (intro allI impI)
  fix w
  assume w: "left k w"
  show "post (tools_turn s st r w) (\<lambda>_. left k) (mild_end k)"
  proof (cases "admit r (tools w)")
    case (Inl e)
    then have "e \<noteq> OutOfFuel" by (auto simp: admit_def split: if_splits option.splits)
    with Inl w show ?thesis by (simp add: tools_turn_def post_pair)
  next
    case (Inr t)
    have "left k (w\<lparr>tools := t\<rparr>)" using w by (simp add: left_def)
    from mildD [OF mild_foldM [OF sandbox_step_mild] this] Inr show ?thesis
      by (simp add: tools_turn_def)
  qed
qed

lemma complete_turn_mild [mild_intros]: "mild k (complete_turn s st r)"
  unfolding complete_turn_def
  by (rule mild_state, intro mild_bind, simp add: mild_basic, rule mild_state) (auto intro!: mild_intros)

lemma mild_with_text:
  assumes "\<And>st'. mild k (m st')" "\<And>x. mild k (f x)"
  shows "mild k (\<lambda>a. bindM (m (st\<lparr>active := with_text (active st) (step_text a)\<rparr>)) f a)"
  by (rule mild_state) (intro mild_bind assms)

lemma model_step_take: "left k w \<Longrightarrow> post (model_step s st w) (\<lambda>_. one_taken k) (mild_end k)"
proof -
  assume w: "left k w"
  show ?thesis
    unfolding model_step_def post_bind [of "ask_model s st"]
    by (rule post_mono [OF ask_model_take [OF w]])
       (auto simp: Let_def intro!: mild_later mild_intros mild_with_text)
qed

lemma boundary_mild [mild_intros]: "mild k (boundary s st)"
  unfolding boundary_def by (auto intro!: mild_intros split: sum.split)

lemma graph_pass_take: "left k w \<Longrightarrow> post (graph_pass s st w) (\<lambda>_. one_taken k) (mild_end k)"
proof -
  assume w: "left k w"
  show ?thesis
    unfolding graph_pass_def post_bind
    by (rule post_mono [OF mildD [OF boundary_mild w]], rule post_mono [OF model_step_take], assumption)
       (auto intro!: mild_later mild_intros)
qed

lemma passes_settle: "left k w \<Longrightarrow> k < n \<Longrightarrow> post (passes n s st w) (\<lambda>st' _. finished_turn st') (\<lambda>e _. e \<noteq> OutOfFuel)"
proof (induction n arbitrary: st w k)
  case (Suc n)
  have "post (bindM (graph_pass s st) (passes n s) w) (\<lambda>st' _. finished_turn st') (\<lambda>e _. e \<noteq> OutOfFuel)"
    unfolding post_bind
    by (rule post_mono [OF graph_pass_take [OF Suc.prems(1)]]) (use Suc in \<open>auto simp: one_taken_def\<close>)
  then show ?case by (simp add: post_ret)
qed simp

text \<open>A recall from the executor gets as much fuel as its provider has outcomes, and one more.\<close>

lemma top_level_settles: "settles k (recall_top_level py_str (run k dumps py_str meter rt) meter rt context c)"
  unfolding recall_top_level_def Let_def
  by (auto intro!: settles_intros fuelled.child_answer_settles split: prod.split option.split)

section \<open>A run\<close>

text \<open>One sandbox call, after which the context is too large and its compaction fails.\<close>

definition shell_call :: native_call where
  "shell_call = \<lparr>native_id = Some ''c1'', native_name = ''exec_shell'', native_args = [(''command'', JStr ''ls'')]\<rparr>"

definition shell_combine :: "chunk list \<Rightarrow> model_response" where
  "shell_combine cs =
     \<lparr>response_calls = (if map chunk_content cs = [JStr ''run''] then [shell_call] else []),
      response_invalid = False\<rparr>"

definition shell_setup :: engine_setup where
  "shell_setup =
     \<lparr>s_history = [], s_input = ''q'', s_instructions = [], s_total = 100, s_trigger = 80, s_target = 50,
      s_schemas = [''exec_shell'', ''exec_python''], s_runtime = example_runtime, s_accepts = None,
      s_meter = (\<lambda>t ts. Inr (int (length ts) * 30)), s_combine = shell_combine,
      s_dumps = (\<lambda>j. []), s_encode = (\<lambda>j. []), s_loads = (\<lambda>x. None), s_str = (\<lambda>j. [])\<rparr>"

definition says :: "string \<Rightarrow> model_stream" where
  "says t = \<lparr>items = [ChunkItem \<lparr>chunk_kwargs = [], chunk_content = JStr t\<rparr>], breaks = False\<rparr>"

definition shell_log :: "engine_event list" where
  "shell_log = log (snd (execute 3 shell_setup (Inr ()) (first_exec 2 [says ''run'', says ''done'']
     example_provider [ToolReply ''ok'' False] [Inl (ContextFailure ''x'')])))"

definition shell_shape :: "engine_event list \<Rightarrow> bool" where
  "shell_shape es \<longleftrightarrow> 7 < length es \<and> es ! 3 = Dispatched shell_call
     \<and> es ! 7 = Warned ''context_compaction_complete_only''"

lemma shell_events:
  "7 < length shell_log" "shell_log ! 3 = Dispatched shell_call"
  "shell_log ! 7 = Warned ''context_compaction_complete_only''"
proof -
  have "shell_shape shell_log" by code_simp
  then show "7 < length shell_log" "shell_log ! 3 = Dispatched shell_call"
    "shell_log ! 7 = Warned ''context_compaction_complete_only''"
    by (simp_all add: shell_shape_def)
qed

lemma shell_ends:
  "map_sum id finished_turn (fst (execute 3 shell_setup (Inr ()) (first_exec 2 [says ''run'', says ''done'']
     example_provider [ToolReply ''ok'' False] [Inl (ContextFailure ''x'')]))) = Inr True"
  by code_simp

section \<open>Properties\<close>

text \<open>C17: Whatever the model, the sandbox, the compactor, the meter and the consumer do, the events of a
  run of the executor are a run of the abstract protocol of tools, budget and completion mode.\<close>

theorem engine_follows_protocol:
  "protocol_run s (protocol_start b) (log (snd (execute fuel s opened (first_exec b ms p ts cs)))) \<noteq> None"
  using execute_lawful [of s b fuel opened ms p ts cs] by (simp add: lawful_def)

text \<open>C18: Every sandbox call comes directly after the delta that published it, which the consumer
  accepted, and is followed directly by its own result or by the end of the run; it is an admissible call
  with an id no call before it had, and the calls stay within the budget.\<close>

theorem sandbox_calls_disciplined:
  assumes "log (snd (execute fuel s opened (first_exec b ms p ts cs))) = xs @ Dispatched n # ys"
  shows "(\<exists>us d. xs = us @ [Emitted d] \<and> sd_kind d = KToolCall \<and> sd_call d = Some (tool_call_from_native n)
        \<and> accepts_part s (emitted_count xs))
    \<and> (case ys of [] \<Rightarrow> True | e # _ \<Rightarrow> \<exists>d. e = Emitted d \<and> answers n d)
    \<and> call_admissible (map (the \<circ> native_id) (dispatched_calls xs)) n
    \<and> int (length (dispatched_calls (xs @ Dispatched n # ys))) \<le> max 0 b"
proof -
  from execute_lawful [of s b fuel opened ms p ts cs] assms obtain r where
    r: "protocol_run s (protocol_start b) (xs @ Dispatched n # ys) = Some r"
    by (auto simp: lawful_def)
  then obtain q q' where q: "protocol_run s (protocol_start b) xs = Some q"
    "protocol_step s q (Dispatched n) = Some q'" "protocol_run s q' ys = Some r"
    by (rule protocol_run_split)
  from q(2) have now: "offered q = Some (tool_call_from_native n)" "call_admissible (used_ids q) n"
    "in_sandbox q' = Some n"
    by (auto simp: step_cases split: if_splits)
  have "case ys of [] \<Rightarrow> True | e # _ \<Rightarrow> \<exists>d. e = Emitted d \<and> answers n d"
    using q(3) now(3)
    by (auto simp: step_cases split: list.split option.splits engine_event.splits if_splits)
  with offered_run [OF q(1) now(1)] now(2) used_ids_run [OF q(1)] used_ids_run [OF r] show ?thesis by auto
qed

theorem sandbox_calls_disciplined_witness:
  "\<exists>us d ys. shell_log = (us @ [Emitted d]) @ Dispatched shell_call # ys \<and> sd_kind d = KToolCall"
proof -
  have split: "shell_log = take 3 shell_log @ Dispatched shell_call # drop 4 shell_log"
    using id_take_nth_drop [of 3 shell_log] shell_events(1,2) by simp
  note sandbox_calls_disciplined [OF split [unfolded shell_log_def], folded shell_log_def]
  then obtain us d where "take 3 shell_log = us @ [Emitted d]" "sd_kind d = KToolCall" by blast
  with split have "shell_log = (us @ [Emitted d]) @ Dispatched shell_call # drop 4 shell_log" by simp
  with \<open>sd_kind d = KToolCall\<close> show ?thesis by blast
qed



text \<open>C22: A run ends: with one unit of fuel more than the model has streams, it finishes its turn, is
  closed by its consumer, or fails with one of the two errors of the executor; and no recall in it, given
  one unit of fuel per provider outcome, stops for lack of fuel.\<close>

theorem engine_run_ends:
  assumes "length ms < fuel" "Inl OutOfFuel \<notin> set cs" "opened \<noteq> Inl OutOfFuel"
  shows "(case fst (execute fuel s opened (first_exec b ms p ts cs)) of
      Inr st \<Rightarrow> finished_turn st
    | Inl e \<Rightarrow> e = StreamClosed \<or> e = ExecutionFailed ''sandbox executor failed''
        \<or> (\<exists>r. e = ExecutionFailed (''context compaction failed: '' @ r)))
    \<and> fst (recall_top_level (s_str s) (run (Suc (length (outcomes q))) (s_dumps s) (s_str s) m (s_runtime s))
         m (s_runtime s) msgs c q) \<noteq> Inl OutOfFuel"
proof -
  have "left (length ms) (first_exec b ms p ts cs)" using assms(2) by (simp add: left_def first_exec_def)
  from passes_settle [OF this assms(1), of s "first_state s"] assms(3)
  have "post (bindM (lift opened) (\<lambda>_. passes fuel s (first_state s)) (first_exec b ms p ts cs))
      (\<lambda>st _. finished_turn st) (\<lambda>e _. e \<noteq> OutOfFuel)"
    by (auto simp: post_bind post_lift split: sum.split)
  then have "case fst (execute fuel s opened (first_exec b ms p ts cs)) of
      Inr st \<Rightarrow> finished_turn st
    | Inl e \<Rightarrow> e = StreamClosed \<or> e = ExecutionFailed ''sandbox executor failed''
        \<or> (\<exists>r. e = ExecutionFailed (''context compaction failed: '' @ r))"
    unfolding execute_def
    by (cases "bindM (lift opened) (\<lambda>_. passes fuel s (first_state s)) (first_exec b ms p ts cs)" rule: outcome_cases)
       (auto simp: post_pair split: option.split)
  moreover have "fst (recall_top_level (s_str s) (run (Suc (length (outcomes q))) (s_dumps s) (s_str s) m
      (s_runtime s)) m (s_runtime s) msgs c q) \<noteq> Inl OutOfFuel"
    using top_level_settles unfolding settles_def by blast
  ultimately show ?thesis by blast
qed

theorem engine_run_ends_witness:
  "case fst (execute 3 shell_setup (Inr ()) (first_exec 2 [says ''run'', says ''done'']
     example_provider [ToolReply ''ok'' False] [Inl (ContextFailure ''x'')])) of
     Inr st \<Rightarrow> finished_turn st | Inl e \<Rightarrow> False"
proof -
  obtain st where st: "fst (execute 3 shell_setup (Inr ()) (first_exec 2 [says ''run'', says ''done'']
      example_provider [ToolReply ''ok'' False] [Inl (ContextFailure ''x'')])) = Inr st"
    using shell_ends by (cases "fst (execute 3 shell_setup (Inr ()) (first_exec 2 [says ''run'', says ''done'']
      example_provider [ToolReply ''ok'' False] [Inl (ContextFailure ''x'')]))") auto
  then show ?thesis
    using engine_run_ends [of "[says ''run'', says ''done'']" 3 "[Inl (ContextFailure ''x'')]" "Inr ()"
        shell_setup 2 example_provider "[ToolReply ''ok'' False]" example_provider example_meter "[]"] by simp
qed

end
