(* ===== verification/Engine_Replay.thy ===== *)
theory Engine_Replay
  imports Engine_Runs
begin

text \<open>
  What the consumer of a run can rebuild: while the meter answers, the context the executor ends with is
  the replay of the deltas it emitted. A meter that fails during the first attempt breaks this, because
  the text of the failed attempt is kept.
\<close>

section \<open>Replay\<close>

text \<open>The turns so far and the text of the assistant turn that is still open.\<close>

definition replay_delta :: "turn list \<times> string \<Rightarrow> stream_delta \<Rightarrow> turn list \<times> string" where
  "replay_delta = (\<lambda>(msgs, t) d.
     case sd_kind d of
       KReasoning \<Rightarrow> (msgs, t)
     | KMessage \<Rightarrow> (msgs, t @ sd_text d)
     | KToolCall \<Rightarrow> (with_text msgs t @ [Plain (CallTurn (the (sd_call d)))], [])
     | KToolResult \<Rightarrow> (with_text msgs t @ [Plain (ResultTurn (the (sd_result d)))], [])
     | KCompaction \<Rightarrow> (msgs, t)
     | KTombstone \<Rightarrow> (active_context (the (sd_tombstone d)), []))"

definition emitted_deltas :: "engine_event list \<Rightarrow> stream_delta list" where
  "emitted_deltas es = List.map_filter (\<lambda>e. case e of Emitted d \<Rightarrow> Some d | _ \<Rightarrow> None) es"

definition replay :: "turn list \<Rightarrow> stream_delta list \<Rightarrow> turn list" where
  "replay msgs ds = (case foldl replay_delta (msgs, []) ds of (ms, t) \<Rightarrow> with_text ms t)"

abbreviation shown :: "turn list \<Rightarrow> engine_event list \<Rightarrow> turn list \<times> string" where
  "shown h es \<equiv> foldl replay_delta (h, []) (emitted_deltas es)"

lemma emitted_deltas_simps [simp]:
  "emitted_deltas [] = []"
  "emitted_deltas (xs @ ys) = emitted_deltas xs @ emitted_deltas ys"
  "emitted_deltas (Emitted d # es) = d # emitted_deltas es"
  "emitted_deltas (Asked m ts # es) = emitted_deltas es" "emitted_deltas (Warned x # es) = emitted_deltas es"
  "emitted_deltas (Dispatched n # es) = emitted_deltas es" "emitted_deltas (Recalled c # es) = emitted_deltas es"
  "emitted_deltas (CompactAsked c' ph # es) = emitted_deltas es"
  by (auto simp: emitted_deltas_def map_filter_def)

lemma replay_delta_simps [simp]:
  "sd_kind d = KReasoning \<Longrightarrow> replay_delta v d = v"
  "sd_kind d = KCompaction \<Longrightarrow> replay_delta v d = v"
  "sd_kind d = KMessage \<Longrightarrow> replay_delta v d = (fst v, snd v @ sd_text d)"
  "sd_kind d = KTombstone \<Longrightarrow> replay_delta v d = (active_context (the (sd_tombstone d)), [])"
  "sd_kind d = KToolCall \<Longrightarrow>
     replay_delta v d = (with_text (fst v) (snd v) @ [Plain (CallTurn (the (sd_call d)))], [])"
  "sd_kind d = KToolResult \<Longrightarrow>
     replay_delta v d = (with_text (fst v) (snd v) @ [Plain (ResultTurn (the (sd_result d)))], [])"
  by (auto simp: replay_delta_def split: prod.split)

text \<open>\<open>clean\<close>: the context is shown and no turn is open; \<open>settled\<close>: closing the open turn gives the context.\<close>

definition clean :: "turn list \<Rightarrow> exec_state \<Rightarrow> exec \<Rightarrow> bool" where
  "clean h st w \<longleftrightarrow> shown h (log w) = (active st, [])"

definition settled :: "turn list \<Rightarrow> exec_state \<Rightarrow> exec \<Rightarrow> bool" where
  "settled h st w \<longleftrightarrow> active st = with_text (fst (shown h (log w))) (snd (shown h (log w)))"

lemma with_text_empty [simp]: "with_text ms [] = ms"
  by (simp add: with_text_def)

lemma clean_settled: "clean h st w \<Longrightarrow> settled h st w"
  by (simp add: clean_def settled_def)

section \<open>The run\<close>

definition meter_answers :: "engine_setup \<Rightarrow> bool" where
  "meter_answers s \<longleftrightarrow> 0 < s_total s \<and> (\<forall>t ts. \<exists>n\<ge>0. s_meter s t ts = Inr n)"

lemma measure_context_answers:
  assumes "meter_answers s"
  shows "post (measure_context s msgs w) (\<lambda>_ v. log v = log w \<and> step_text v = step_text w) E"
proof -
  from assms obtain n where "s_meter s (clock w) msgs = Inr n" "0 \<le> n" "0 < s_total s"
    unfolding meter_answers_def by blast
  then show ?thesis by (simp add: measure_context_def count_def post_pair)
qed

lemma measure_answers:
  assumes "meter_answers s"
  shows "post (measure s msgs o' w) (\<lambda>_ v. log v = log w \<and> step_text v = step_text w) E"
  using measure_context_answers [OF assms, of msgs w "\<lambda>_ _. False"]
  by (cases "measure_context s msgs w" rule: outcome_cases) (auto simp: measure_def post_pair)

abbreviation any_end :: "error \<Rightarrow> exec \<Rightarrow> bool" where
  "any_end e w \<equiv> True"

lemma ask_compactor_shown:
  "post (ask_compactor s msgs ph w) (\<lambda>_ v. shown h (log v) = shown h (log w)) (\<lambda>_ v. shown h (log v) = shown h (log w))"
  by (auto simp: ask_compactor_def Let_def post_def split: list.split sum.split)

lemma context_boundary_shown:
  assumes meter: "meter_answers s"
  shows "post (context_boundary s msgs ph w)
    (\<lambda>r v. case r of Inl reason \<Rightarrow> shown h (log v) = shown h (log w)
       | Inr ms \<Rightarrow> ms = msgs \<and> shown h (log v) = shown h (log w) \<or> shown h (log v) = (ms, [])) any_end"
    (is "post _ ?Q _")
proof -
  let ?attempt_ok = "bindM (ask_compactor s msgs ph) (\<lambda>memory.
      bindM (measure_context s (active_context memory)) (\<lambda>pressure.
      bindM (emit (compaction_delta ''compacted_context'' (Some pressure))) (\<lambda>_.
      bindM (emit (tombstone_delta memory (Some pressure))) (\<lambda>_. ret (Inr (active_context memory))))))"
  have inner: "post (?attempt_ok v) ?Q (\<lambda>_ v. shown h (log v) = shown h (log w))"
    if "shown h (log v) = shown h (log w)" for v
    unfolding post_bind [of "ask_compactor s msgs ph"]
    by (rule post_mono [OF ask_compactor_shown [where h = h]])
       (auto simp: that post_simps intro!: post_mono [OF measure_context_answers [OF meter]])
  show ?thesis
    unfolding context_boundary_def post_bind [of "measure_context s msgs"]
    by (rule post_mono [OF measure_context_answers [OF meter]])
       (auto simp: post_bind [of "emit d" for d] post_catch post_events post_ret post_if
          split: prod.split intro!: post_mono [OF inner])
qed

text \<open>While a stream is read, what is shown is the context and the text of the step.\<close>

abbreviation reading :: "turn list \<Rightarrow> exec_state \<Rightarrow> exec \<Rightarrow> bool" where
  "reading h st w \<equiv> shown h (log w) = (active st, step_text w)"

lemma block_delta_kinds:
  "d \<in> set (block_delta b) \<Longrightarrow> sd_kind d = KReasoning \<or> sd_kind d = KMessage"
  by (auto simp: block_delta_def Let_def split: if_splits)

lemma chunk_delta_kind:
  "d \<in> set (deltas_from_chunk c) \<Longrightarrow> sd_kind d = KReasoning \<or> sd_kind d = KMessage"
  by (auto simp: deltas_from_chunk_def Let_def split: if_splits json.splits dest: block_delta_kinds)

lemma stream_one_shown:
  assumes "meter_answers s" "reading h st w" "sd_kind d = KReasoning \<or> sd_kind d = KMessage"
  shows "post (stream_one s st d w) (\<lambda>_. reading h st) (\<lambda>_. reading h st)"
  unfolding stream_one_def post_bind post_update
  by (rule post_mono [OF measure_answers [OF assms(1)]]) (use assms(2,3) in \<open>auto simp: post_simps\<close>)

lemma read_stream_shown:
  assumes "meter_answers s"
  shows "reading h st w \<Longrightarrow> post (read_stream s st f xs got w) (\<lambda>_. reading h st) (\<lambda>_. reading h st)"
proof (induction xs arbitrary: got w)
  case (Cons x xs)
  show ?case
  proof (cases x)
    case (ChunkItem c)
    let ?I = "\<lambda>(ds :: stream_delta list) (_ :: unit) w.
      reading h st w \<and> (\<forall>d \<in> set ds. sd_kind d = KReasoning \<or> sd_kind d = KMessage)"
    have "post (foldM (\<lambda>_. stream_one s st) () (deltas_from_chunk c) w) (?I []) (\<lambda>_. reading h st)"
      by (rule post_foldM [of ?I])
         (use Cons.prems chunk_delta_kind in \<open>auto intro!: post_mono [OF stream_one_shown [OF assms]]\<close>)
    then show ?thesis
      unfolding ChunkItem read_stream.simps post_bind by (rule post_mono) (auto intro: Cons.IH)
  next
    case OtherItem
    with Cons show ?thesis by simp
  qed
qed (simp add: post_simps)

lemma attempts_shown:
  assumes "meter_answers s"
  shows "reading h st w \<Longrightarrow> post (attempts n s st w) (\<lambda>_. reading h st) (\<lambda>_. reading h st)"
proof (induction n arbitrary: w)
  case (Suc n)
  have "post (open_stream s st w) (\<lambda>_. reading h st) (\<lambda>_. reading h st)"
    using Suc.prems by (auto simp: open_stream_def post_pair intro!: read_stream_shown [OF assms] split: list.split)
  then show ?case
    by (cases "open_stream s st w" rule: outcome_cases) (auto simp: post_simps intro: Suc.IH)
qed (simp add: post_simps)

lemma ask_model_shown:
  assumes "meter_answers s" "clean h st w"
  shows "post (ask_model s st w) (\<lambda>_. reading h st) any_end"
  unfolding ask_model_def Let_def post_bind post_update
  by (rule post_mono [OF measure_answers [OF assms(1)]])
     (use assms in \<open>auto simp: clean_def intro!: post_mono [OF attempts_shown [OF assms(1)]]\<close>)

lemma complete_turn_shown:
  assumes "meter_answers s" "reading h st w"
  shows "post (complete_turn s st r w) (\<lambda>st' v. settled h st' v \<and> finished_turn st') any_end"
  using assms(2)
  by (auto simp: complete_turn_def post_simps settled_def with_text_def empty_completion_def
      intro!: post_mono [OF measure_answers [OF assms(1)]])

lemma sandbox_step_shown:
  assumes "meter_answers s" "settled h st w"
  shows "post (sandbox_step s st n w) (clean h) any_end"
  unfolding sandbox_step_def Let_def post_bind
proof (rule post_mono [OF measure_context_answers [OF assms(1)]], goal_cases)
  case (1 p v)
  let ?c = "tool_call_from_native n"
  let ?st = "\<lambda>r. st\<lparr>active := active st @ [Plain (CallTurn ?c), Plain (ResultTurn r)]\<rparr>"
  have call: "post (call_tool s n u) (\<lambda>r x. shown h (log x) = shown h (log u)) any_end" for u
    by (auto simp: call_tool_def Let_def post_def split: list.split tool_outcome.split)
  from 1 assms(2) have now: "with_text (fst (shown h (log v))) (snd (shown h (log v))) = active st"
    by (simp add: settled_def)
  have shut: "post (measure_context s (active st @ [Plain (CallTurn ?c), Plain (ResultTurn r)]) x)
      (\<lambda>p y. post (emit (result_delta r (Some p)) y) (\<lambda>_ y. post (ret (?st r) y) (clean h) any_end) any_end) any_end"
    if "shown h (log x) = (active st @ [Plain (CallTurn ?c)], [])" for r x
    by (rule post_mono [OF measure_context_answers [OF assms(1)]]) (auto simp: that post_simps clean_def)
  show ?case
    by (auto simp: post_publish post_update Let_def now intro!: post_mono [OF call] shut)
qed simp

lemma tools_turn_shown:
  assumes "meter_answers s" "settled h st w"
  shows "post (tools_turn s st r w) (\<lambda>st' v. settled h st' v \<and> (response_calls r = [] \<or> clean h st' v)) any_end"
proof (cases "admit r (tools w)")
  case (Inr t)
  let ?I = "\<lambda>ns st' v. settled h st' v \<and> (ns = response_calls r \<or> clean h st' v)"
  have "post (foldM (sandbox_step s) st (response_calls r) (w\<lparr>tools := t\<rparr>)) (?I []) any_end"
    by (rule post_foldM [of ?I])
       (use assms in \<open>auto simp: settled_def intro!: post_mono [OF sandbox_step_shown] clean_settled [unfolded settled_def]\<close>)
  then show ?thesis unfolding tools_turn_def Inr sum.case by (rule post_mono) auto
qed (simp add: tools_turn_def post_pair)

lemma publish_local_shown:
  assumes "meter_answers s" "settled h st w"
  shows "post (publish_local s st c w) (clean h) any_end"
  unfolding publish_local_def Let_def post_bind
  by (rule post_mono [OF measure_context_answers [OF assms(1)]])
     (use assms(2) in \<open>auto simp: post_simps Let_def clean_def settled_def\<close>)

lemma recall_step_shown:
  assumes "meter_answers s" "clean h st w"
  shows "post (recall_step s st c w) (clean h) any_end"
proof -
  have rest: "post (measure s (active st @ [Plain (ResultTurn r)]) o' v)
      (\<lambda>_ y. with_text (fst (shown h (log y))) (snd (shown h (log y))) = active st) any_end"
    if "shown h (log v) = (active st, [])" for v r o'
    by (rule post_mono [OF measure_answers [OF assms(1)]]) (auto simp: that)
  have recall: "post (recall_call s (active st) c w) (\<lambda>_ v. shown h (log v) = (active st, [])) any_end"
    using assms(2) by (auto simp: recall_call_def Let_def post_pair clean_def split: prod.split)
  show ?thesis
    using assms(2)
    by (auto simp: recall_step_def post_bind post_ret post_if post_events Let_def clean_def
        intro!: rest post_mono [OF recall])
qed

lemma local_turn_shown:
  assumes "meter_answers s" "settled h st w" "ns \<noteq> []"
  shows "post (local_turn s st ns w) (clean h) any_end"
proof -
  let ?cs = "map tool_call_from_native ns"
  let ?I = "\<lambda>cs st' v. settled h st' v \<and> (cs = ?cs \<or> clean h st' v)"
  let ?J = "\<lambda>(cs :: tool_call list) st' v. clean h st' v"
  have "post (foldM (publish_local s) st ?cs w) (?I []) any_end"
    by (rule post_foldM [of ?I])
       (use assms in \<open>auto intro!: post_mono [OF publish_local_shown] dest: clean_settled\<close>)
  moreover have "post (foldM (recall_step s) st' ?cs v) (?J []) any_end" if "clean h st' v" for st' v
    by (rule post_foldM [of ?J]) (use that assms in \<open>auto intro!: recall_step_shown\<close>)
  ultimately have "post (bindM (foldM (publish_local s) st ?cs) (\<lambda>st1. foldM (recall_step s) st1 ?cs) w)
      (clean h) any_end"
    unfolding post_bind by (rule post_mono) (use assms(3) in auto)
  then show ?thesis by (simp add: local_turn_def Let_def post_if post_lift)
qed

text \<open>Between the parts of a turn: what is shown is settled, and closed unless the turn is finished.\<close>

definition in_step :: "turn list \<Rightarrow> exec_state \<Rightarrow> exec \<Rightarrow> bool" where
  "in_step h st w \<longleftrightarrow> settled h st w \<and> (finished_turn st \<or> clean h st w)"

lemma in_step_clean: "shown h (log v) = (active st, []) \<Longrightarrow> in_step h st v"
  by (simp add: in_step_def settled_def clean_def)

lemma in_step_cong:
  assumes "in_step h st w" "shown h (log v) = shown h (log w)" "active st' = active st"
    "finished_turn st' = finished_turn st"
  shows "in_step h st' v"
  using assms(1) unfolding in_step_def settled_def clean_def assms(2-4) .

lemma model_step_shown:
  assumes "meter_answers s" "clean h st w"
  shows "post (model_step s st w) (in_step h) any_end"
proof -
  have closing: "post (bindM m (\<lambda>st2. ret (st2\<lparr>started := True, finished_turn := f\<rparr>)) v) (in_step h) any_end"
    if "post (m v) (\<lambda>st' v. settled h st' v \<and> (f \<or> clean h st' v)) any_end" for m :: "exec_state exe" and f v
    unfolding post_bind
    by (rule post_mono [OF that]) (auto simp: post_ret in_step_def settled_def clean_def)
  have open_turn: "settled h (st\<lparr>active := with_text (active st) (step_text v)\<rparr>) v" if "reading h st v" for v
    using that by (simp add: settled_def)
  show ?thesis
    unfolding model_step_def post_bind [of "ask_model s st"]
    by (rule post_mono [OF ask_model_shown [OF assms]])
       (auto simp: Let_def post_if post_lift in_step_def
         intro!: post_mono [OF complete_turn_shown [OF assms(1)]] closing open_turn
           post_mono [OF tools_turn_shown [OF assms(1)]] post_mono [OF local_turn_shown [OF assms(1)]]
         dest: clean_settled)
qed

lemma boundary_shown:
  assumes "meter_answers s" "in_step h st w"
  shows "post (boundary s st w) (\<lambda>st' v. in_step h st' v \<and> finished_turn st' = finished_turn st) any_end"
proof (cases "complete_only st")
  case False
  show ?thesis
    unfolding boundary_def if_not_P [OF False] post_bind [of "context_boundary s m p" for m p]
  proof (intro post_mono [OF context_boundary_shown [OF assms(1), where h = h]], goal_cases)
    case (1 r v)
    then show ?case
      using assms(2)
      by (cases r) (auto simp: post_simps intro: in_step_clean elim: in_step_cong)
  qed simp
qed (use assms in \<open>simp add: boundary_def post_ret\<close>)

lemma graph_pass_shown:
  assumes "meter_answers s" "clean h st w" "\<not> finished_turn st"
  shows "post (graph_pass s st w) (in_step h) any_end"
  unfolding graph_pass_def post_bind
  by (rule post_mono [OF boundary_shown [OF assms(1)]])
     (use assms in \<open>auto simp: in_step_def intro!: clean_settled post_mono [OF model_step_shown [OF assms(1)]]
        post_mono [OF boundary_shown [OF assms(1)]]\<close>)

lemma passes_shown:
  assumes "meter_answers s"
  shows "in_step h st w \<Longrightarrow> post (passes n s st w) (\<lambda>st' v. settled h st' v) any_end"
proof (induction n arbitrary: st w)
  case (Suc n)
  have "post (bindM (graph_pass s st) (passes n s) w) (\<lambda>st' v. settled h st' v) any_end" if "\<not> finished_turn st"
    unfolding post_bind
    by (rule post_mono [OF graph_pass_shown [OF assms]]) (use Suc that in \<open>auto simp: in_step_def\<close>)
  with Suc.prems show ?case by (auto simp: post_ret in_step_def)
qed (simp add: post_lift)

section \<open>Properties\<close>

lemma shell_meter: "meter_answers shell_setup"
  by (simp add: meter_answers_def shell_setup_def)

text \<open>C23: While the meter answers, the context a finished run ends with is what its consumer rebuilds from
  the emitted deltas alone: the history, the user's turn, and then the replay of the deltas, compactions
  included. Text, calls and results reach the context of the model exactly as they were published.\<close>

theorem emitted_is_context:
  assumes "meter_answers s"
    "execute fuel s opened (first_exec b ms p ts cs) = (Inr st, w)"
  shows "active st = replay (s_history s @ [Plain (UserTurn (s_input s))]) (emitted_deltas (log w))"
proof -
  let ?h = "s_history s @ [Plain (UserTurn (s_input s))]"
  have "in_step ?h (first_state s) (first_exec b ms p ts cs)"
    by (rule in_step_clean) (simp add: first_exec_def first_state_def)
  from passes_shown [OF assms(1) this, of fuel]
  have "post (bindM (lift opened) (\<lambda>_. passes fuel s (first_state s)) (first_exec b ms p ts cs))
      (\<lambda>st' v. settled ?h st' v) any_end"
    by (simp add: post_bind post_lift split: sum.split)
  with assms(2) have "settled ?h st w"
    unfolding execute_def
    by (cases "bindM (lift opened) (\<lambda>_. passes fuel s (first_state s)) (first_exec b ms p ts cs)" rule: outcome_cases)
       (auto simp: post_pair)
  then show ?thesis by (simp add: settled_def replay_def split: prod.split)
qed

theorem emitted_is_context_witness:
  "\<exists>st w. execute 3 shell_setup (Inr ()) (first_exec 2 [says ''run'', says ''done''] example_provider
       [ToolReply ''ok'' False] [Inl (ContextFailure ''x'')]) = (Inr st, w)
     \<and> active st = replay [Plain (UserTurn ''q'')] (emitted_deltas (log w))"
proof -
  let ?r = "execute 3 shell_setup (Inr ()) (first_exec 2 [says ''run'', says ''done''] example_provider
       [ToolReply ''ok'' False] [Inl (ContextFailure ''x'')])"
  obtain st w where r: "?r = (Inr st, w)"
    using shell_ends by (cases ?r rule: outcome_cases) auto
  from emitted_is_context [OF shell_meter r] show ?thesis
    unfolding r by (intro exI [of _ st] exI [of _ w]) (simp add: shell_setup_def)
qed

section \<open>A meter that fails once\<close>

text \<open>
  The hypothesis on the meter is needed: the text of a delta is added before the context is measured. When
  the first measure of an attempt fails nothing was emitted yet, so the attempt is repeated, and the text
  of the failed attempt stays in front of the text of the second one, in the context but not in the deltas.
\<close>

definition stale_run :: "(error + exec_state) \<times> exec" where
  "stale_run = execute 2 (shell_setup\<lparr>s_meter := (\<lambda>t ts. if t = 2 then Inl (OtherError []) else Inr 1)\<rparr>) (Inr ())
     (first_exec 2 [says ''a'', says ''ab''] example_provider [] [])"

lemma retry_keeps_stale_text:
  "map_sum id active (fst stale_run) = Inr [Plain (UserTurn ''q''), Plain (AssistantTurn ''aab'')]"
  "replay [Plain (UserTurn ''q'')] (emitted_deltas (log (snd stale_run)))
     = [Plain (UserTurn ''q''), Plain (AssistantTurn ''ab'')]"
  by code_simp+

end
