(* ===== verification/Threads.thy ===== *)
theory Threads
  imports History Security
begin

text \<open>
  The tables of the \<open>ads\<close> service and its repositories (\<open>services/ads/src/ads/models.py\<close>,
  \<open>repository.py\<close>): projects, chat sessions, the bi-linked entries of a session, the runs of the
  engine and the deltas buffered for them; and the entry list helpers of \<open>domain.py\<close>.

  A table is the list of its rows in order of insertion. A query is a list function; \<open>first()\<close> is
  the first match. Ids are natural numbers, times are integers (microseconds). What
  \<open>msgspec\<close> decodes and encodes is a parameter. The fresh ids of \<open>uuid4()\<close> and the clock are arguments.
\<close>

section \<open>Rows\<close>

datatype run_status = Pending | Running | Finishing | Finished

record project =
  p_id :: nat
  p_user :: nat
  p_name :: string
  p_description :: string
  p_created :: int
  p_updated :: int

record chat =
  s_id :: nat
  s_project :: nat
  s_user :: nat
  s_name :: string
  s_description :: string
  s_latest :: "nat option"
  s_committed :: "nat option"
  s_created :: int
  s_updated :: int

record entry =
  e_id :: nat
  e_session :: nat
  e_prev :: "nat option"
  e_next :: "nat option"
  e_kind :: string
  e_role :: "string option"
  e_text :: string
  e_run :: "nat option"
  e_at :: int

record run_row =
  r_id :: nat
  r_session :: nat
  r_message :: nat
  r_user_entry :: nat
  r_model :: nat
  r_status :: run_status
  r_watermark :: int
  r_last :: "int option"
  r_event :: int
  r_finish_at :: "int option"
  r_error :: "string option"
  r_candidate :: "nat option"
  r_total :: "int option"
  r_used :: "int option"
  r_created :: int
  r_updated :: int

record delta =
  d_run :: nat
  d_order :: int
  d_kind :: string
  d_text :: string
  d_total :: "int option"
  d_used :: "int option"

text \<open>The tables, and the in-memory tokens of \<open>abort_subjects.py\<close>.\<close>

record db =
  projects :: "project list"
  chats :: "chat list"
  entries :: "entry list"
  runs :: "run_row list"
  deltas :: "delta list"
  subjects :: "(nat \<times> string) list"

definition kind_message :: string where "kind_message = ''message''"
definition kind_reasoning :: string where "kind_reasoning = ''reasoning''"
definition kind_tool_call :: string where "kind_tool_call = ''tool_call''"
definition kind_tool_result :: string where "kind_tool_result = ''tool_result''"
definition kind_tombstone :: string where "kind_tombstone = ''tombstone''"
definition role_user :: string where "role_user = ''user''"
definition role_assistant :: string where "role_assistant = ''assistant''"

lemmas kind_simps = kind_message_def kind_reasoning_def kind_tool_call_def kind_tool_result_def
  kind_tombstone_def role_user_def role_assistant_def

fun in_flight :: "run_status \<Rightarrow> bool" where
  "in_flight Finished = False"
| "in_flight _ = True"

section \<open>Queries and updates\<close>

definition get_project_for :: "db \<Rightarrow> nat \<Rightarrow> nat \<Rightarrow> project option" where
  "get_project_for d user p = find (\<lambda>r. p_user r = user \<and> p_id r = p) (projects d)"

text \<open>\<open>order_by(a.asc(), b.asc())\<close>: a stable sort by the second key, then by the first. The order of
  texts is the collation of the database, a parameter.\<close>

fun insert_by :: "('a \<Rightarrow> 'a \<Rightarrow> bool) \<Rightarrow> 'a \<Rightarrow> 'a list \<Rightarrow> 'a list" where
  "insert_by le x [] = [x]"
| "insert_by le x (y # ys) = (if le x y then x # y # ys else y # insert_by le x ys)"

definition order_by :: "('a \<Rightarrow> 'a \<Rightarrow> bool) \<Rightarrow> 'a list \<Rightarrow> 'a list" where
  "order_by le xs = foldr (insert_by le) xs []"

definition list_projects :: "(string \<Rightarrow> string \<Rightarrow> bool) \<Rightarrow> db \<Rightarrow> nat \<Rightarrow> project list" where
  "list_projects collate d user =
     order_by (\<lambda>a b. collate (p_name a) (p_name b))
       (sort_key p_id (filter (\<lambda>r. p_user r = user) (projects d)))"

definition list_chats :: "db \<Rightarrow> nat \<Rightarrow> nat \<Rightarrow> chat list" where
  "list_chats d user p =
     sort_key s_created (sort_key s_id (filter (\<lambda>r. s_user r = user \<and> s_project r = p) (chats d)))"

definition get_chat :: "db \<Rightarrow> nat \<Rightarrow> chat option" where
  "get_chat d s = find (\<lambda>r. s_id r = s) (chats d)"

definition get_entry :: "db \<Rightarrow> nat \<Rightarrow> entry option" where
  "get_entry d i = find (\<lambda>r. e_id r = i) (entries d)"

definition list_entries :: "db \<Rightarrow> nat \<Rightarrow> entry list" where
  "list_entries d s = filter (\<lambda>r. e_session r = s) (entries d)"

definition get_run :: "db \<Rightarrow> nat \<Rightarrow> run_row option" where
  "get_run d r = find (\<lambda>x. r_id x = r) (runs d)"

definition in_flight_for_session :: "db \<Rightarrow> nat \<Rightarrow> run_row option" where
  "in_flight_for_session d s = find (\<lambda>r. r_session r = s \<and> in_flight (r_status r)) (runs d)"

definition in_flight_sessions :: "db \<Rightarrow> nat list \<Rightarrow> nat set" where
  "in_flight_sessions d ss =
     set (map r_session (filter (\<lambda>r. r_session r \<in> set ss \<and> in_flight (r_status r)) (runs d)))"

definition all_in_flight :: "db \<Rightarrow> run_row list" where
  "all_in_flight d = filter (\<lambda>r. in_flight (r_status r)) (runs d)"

text \<open>The newest run, the greatest id among those of one instant.\<close>

definition last_model_for_session :: "db \<Rightarrow> nat \<Rightarrow> nat option" where
  "last_model_for_session d s =
     (case rev (sort_key r_created (sort_key r_id (filter (\<lambda>r. r_session r = s) (runs d)))) of
        [] \<Rightarrow> None | r # _ \<Rightarrow> Some (r_model r))"

definition get_delta :: "db \<Rightarrow> nat \<Rightarrow> int \<Rightarrow> delta option" where
  "get_delta d r n = find (\<lambda>x. d_run x = r \<and> d_order x = n) (deltas d)"

definition run_deltas :: "db \<Rightarrow> nat \<Rightarrow> delta list" where
  "run_deltas d r = filter (\<lambda>x. d_run x = r) (deltas d)"

definition orders :: "db \<Rightarrow> nat \<Rightarrow> int list" where
  "orders d r = map d_order (run_deltas d r)"

definition list_after :: "db \<Rightarrow> nat \<Rightarrow> int \<Rightarrow> delta list" where
  "list_after d r n = sort_key d_order (filter (\<lambda>x. d_run x = r \<and> n < d_order x) (deltas d))"

definition update_chat :: "nat \<Rightarrow> (chat \<Rightarrow> chat) \<Rightarrow> db \<Rightarrow> db" where
  "update_chat s f d = d\<lparr>chats := map (\<lambda>r. if s_id r = s then f r else r) (chats d)\<rparr>"

definition update_entry :: "nat \<Rightarrow> (entry \<Rightarrow> entry) \<Rightarrow> db \<Rightarrow> db" where
  "update_entry i f d = d\<lparr>entries := map (\<lambda>r. if e_id r = i then f r else r) (entries d)\<rparr>"

definition update_run :: "nat \<Rightarrow> (run_row \<Rightarrow> run_row) \<Rightarrow> db \<Rightarrow> db" where
  "update_run i f d = d\<lparr>runs := map (\<lambda>r. if r_id r = i then f r else r) (runs d)\<rparr>"

definition delete_deltas :: "nat \<Rightarrow> db \<Rightarrow> db" where
  "delete_deltas r d = d\<lparr>deltas := filter (\<lambda>x. d_run x \<noteq> r) (deltas d)\<rparr>"

definition delete_run :: "nat \<Rightarrow> db \<Rightarrow> db" where
  "delete_run r d = d\<lparr>runs := filter (\<lambda>x. r_id x \<noteq> r) (runs d)\<rparr>"

text \<open>The links of the rows are cleared before they are deleted; no row that stays is touched.\<close>

definition delete_run_entries :: "nat \<Rightarrow> nat \<Rightarrow> db \<Rightarrow> db" where
  "delete_run_entries s r d =
     d\<lparr>entries := filter (\<lambda>x. \<not> (e_session x = s \<and> e_run x = Some r)) (entries d)\<rparr>"

definition delete_entry :: "nat \<Rightarrow> db \<Rightarrow> db" where
  "delete_entry i d = d\<lparr>entries := filter (\<lambda>x. e_id x \<noteq> i) (entries d)\<rparr>"

text \<open>\<open>walk\<close>: follow \<open>prev\<close> from \<open>latest\<close>, each row once, and read it back. A row that has been
  visited is taken out of the rows still to be found.\<close>

function walk_back :: "entry list \<Rightarrow> nat option \<Rightarrow> entry list" where
  "walk_back rows None = []"
| "walk_back rows (Some i) =
     (case find (\<lambda>r. e_id r = i) rows of
        None \<Rightarrow> []
      | Some row \<Rightarrow> row # walk_back (filter (\<lambda>r. e_id r \<noteq> i) rows) (e_prev row))"
  by pat_completeness auto
termination
proof (relation "measure (\<lambda>(rows, _). length rows)")
  fix rows :: "entry list" and i row
  assume "find (\<lambda>r. e_id r = i) rows = Some row"
  then have "row \<in> set rows" "\<not> e_id row \<noteq> i" by (auto simp: find_Some_iff)
  from length_filter_less [of row rows "\<lambda>r. e_id r \<noteq> i", OF this]
  show "((filter (\<lambda>r. e_id r \<noteq> i) rows, e_prev row), (rows, Some i))
      \<in> measure (\<lambda>(rows, _). length rows)"
    by simp
qed simp

definition walk :: "db \<Rightarrow> chat \<Rightarrow> entry list" where
  "walk d c = rev (walk_back (list_entries d (s_id c)) (s_latest c))"

section \<open>The abort subjects\<close>

definition remember_subject :: "nat \<Rightarrow> string option \<Rightarrow> db \<Rightarrow> db" where
  "remember_subject s token d =
     (case token of
        None \<Rightarrow> d
      | Some t \<Rightarrow> if strip is_space t = [] then d
                  else d\<lparr>subjects := (s, strip is_space t) # filter (\<lambda>(k, _). k \<noteq> s) (subjects d)\<rparr>)"

definition get_subject :: "db \<Rightarrow> nat \<Rightarrow> string option" where
  "get_subject d s = map_of (subjects d) s"

definition forget_subject :: "nat \<Rightarrow> db \<Rightarrow> db" where
  "forget_subject s d = d\<lparr>subjects := filter (\<lambda>(k, _). k \<noteq> s) (subjects d)\<rparr>"

section \<open>The entry list\<close>

text \<open>\<open>append_entry\<close>: link a new tail after the latest entry and move \<open>latest\<close> onto it.\<close>

definition append_entry ::
  "nat \<Rightarrow> nat \<Rightarrow> string \<Rightarrow> string option \<Rightarrow> string \<Rightarrow> nat option \<Rightarrow> int \<Rightarrow> db \<Rightarrow> db" where
  "append_entry new s kind role txt run now d =
     (case get_chat d s of
        None \<Rightarrow> d
      | Some c \<Rightarrow>
          let row = \<lparr>e_id = new, e_session = s, e_prev = s_latest c, e_next = None, e_kind = kind,
                     e_role = role, e_text = txt, e_run = run, e_at = now\<rparr>;
              d1 = d\<lparr>entries := entries d @ [row]\<rparr>;
              d2 = (case s_latest c of None \<Rightarrow> d1
                    | Some p \<Rightarrow> update_entry p (\<lambda>e. e\<lparr>e_next := Some new\<rparr>) d1)
          in update_chat s (\<lambda>c. c\<lparr>s_latest := Some new, s_updated := now\<rparr>) d2)"

text \<open>What the code gets from \<open>msgspec\<close> and \<open>json\<close>.\<close>

record codec =
  decode_call :: "string \<Rightarrow> tool_call option"
  decode_result :: "string \<Rightarrow> tool_result option"
  decode_tombstone :: "string \<Rightarrow> tombstone option"
  encode :: "json \<Rightarrow> string option" \<comment> \<open>\<open>None\<close>: an encoding error\<close>
  render_str :: "json \<Rightarrow> string"

fun entry_turn :: "codec \<Rightarrow> entry \<Rightarrow> turn list" where
  "entry_turn k e =
     (if e_kind e = kind_message
      then (if e_role e = Some role_user then [Plain (UserTurn (e_text e))]
            else if e_role e = Some role_assistant then [Plain (AssistantTurn (e_text e))]
            else [])
      else if e_kind e = kind_tool_call
      then (case decode_call k (e_text e) of None \<Rightarrow> [] | Some c \<Rightarrow> [Plain (CallTurn c)])
      else if e_kind e = kind_tool_result
      then (case decode_result k (e_text e) of None \<Rightarrow> [] | Some r \<Rightarrow> [Plain (ResultTurn r)])
      else [])"

text \<open>The entries from the committed memory on.\<close>

fun split_at_entry :: "nat \<Rightarrow> entry list \<Rightarrow> (entry \<times> entry list) option" where
  "split_at_entry i [] = None"
| "split_at_entry i (e # es) = (if e_id e = i then Some (e, es) else split_at_entry i es)"

definition history_from_entries ::
  "codec \<Rightarrow> entry list \<Rightarrow> nat option \<Rightarrow> error + turn list" where
  "history_from_entries k es committed =
     (case committed of
        None \<Rightarrow> Inr (concat (map (entry_turn k) es))
      | Some i \<Rightarrow>
          (case split_at_entry i es of
             None \<Rightarrow> Inl (OtherError ''invalid committed memory pointer'')
           | Some (e, rest) \<Rightarrow>
               if e_kind e \<noteq> kind_tombstone then Inl (OtherError ''invalid committed memory pointer'')
               else (case decode_tombstone k (e_text e) of
                       None \<Rightarrow> Inl (OtherError ''DecodeError'')
                     | Some m \<Rightarrow> Inr (active_context m @ concat (map (entry_turn k) rest)))))"

section \<open>The transcript\<close>

definition tool_call_display :: "codec \<Rightarrow> tool_call \<Rightarrow> string option" where
  "tool_call_display k c =
     (case (call_name c = ''exec_shell'', map_of (arguments c) ''command'',
            call_name c = ''exec_python'', map_of (arguments c) ''code'') of
        (True, Some (JStr command), _) \<Rightarrow> Some command
      | (_, _, True, Some (JStr script)) \<Rightarrow> Some script
      | _ \<Rightarrow> encode k (JObj (arguments c)))"

fun block_text :: "json \<Rightarrow> string list" where
  "block_text (JObj kvs) = (case map_of kvs ''text'' of Some (JStr t) \<Rightarrow> [t] | _ \<Rightarrow> [])"
| "block_text _ = []"

definition tool_result_display :: "codec \<Rightarrow> tool_result \<Rightarrow> string" where
  "tool_result_display k r =
     (let fallback = (case encode k (content r) of Some t \<Rightarrow> t | None \<Rightarrow> render_str k (content r)) in
      case content r of
        JStr t \<Rightarrow> t
      | JObj kvs \<Rightarrow>
          (let blocks = (case map_of kvs ''content'' of
                           Some (JList bs) \<Rightarrow>
                             if concat (map block_text bs) = [] then fallback
                             else concat (concat (map block_text bs))
                         | _ \<Rightarrow> fallback)
           in case map_of kvs ''structuredContent'' of
                Some (JObj sc) \<Rightarrow>
                  (case map_of sc ''stdout'' of
                     Some (JStr out) \<Rightarrow> if out \<noteq> [] then out else blocks
                   | _ \<Rightarrow> blocks)
              | _ \<Rightarrow> blocks)
      | _ \<Rightarrow> fallback)"

record part_view =
  v_kind :: string
  v_role :: "string option"
  v_text :: string
  v_live :: bool
  v_name :: "string option"
  v_call_id :: "string option"
  v_status :: "bool option" \<comment> \<open>success or error\<close>
  v_arguments :: "(string \<times> json) list option"
  v_content :: "json option"

definition plain_part :: "string \<Rightarrow> string option \<Rightarrow> string \<Rightarrow> bool \<Rightarrow> part_view" where
  "plain_part kind role txt live =
     \<lparr>v_kind = kind, v_role = role, v_text = txt, v_live = live, v_name = None, v_call_id = None,
      v_status = None, v_arguments = None, v_content = None\<rparr>"

definition part_from_stored ::
  "codec \<Rightarrow> string \<Rightarrow> string \<Rightarrow> string option \<Rightarrow> bool \<Rightarrow> error + part_view" where
  "part_from_stored k kind txt role live =
     (if kind = kind_tool_call
      then (case decode_call k txt of
              None \<Rightarrow> Inr (plain_part kind role txt live)
            | Some c \<Rightarrow>
                (case tool_call_display k c of
                   None \<Rightarrow> Inl (OtherError ''EncodeError'')
                 | Some shown \<Rightarrow>
                     Inr ((plain_part kind role shown live)
                       \<lparr>v_name := Some (call_name c), v_call_id := Some (call_id c),
                        v_arguments := Some (arguments c)\<rparr>)))
      else if kind = kind_tool_result
      then (case decode_result k txt of
              None \<Rightarrow> Inr (plain_part kind role txt live)
            | Some r \<Rightarrow>
                Inr ((plain_part kind role (tool_result_display k r) live)
                  \<lparr>v_name := Some (result_name r), v_call_id := Some (tool_call_id r),
                   v_status := Some (success r), v_content := Some (content r)\<rparr>))
      else Inr (plain_part kind role txt live))"

datatype speaker = You | Ads

record turn_view =
  who :: speaker
  shown_at :: "int option"
  parts :: "part_view list"
  turn_entry :: "nat option"

text \<open>The turns so far, and the parts of the trailing turn with its time and its first entry.\<close>

record rendering =
  rendered :: "turn_view list"
  pending_parts :: "part_view list"
  pending_at :: "int option"
  pending_id :: "nat option"

definition flush :: "rendering \<Rightarrow> rendering" where
  "flush v =
     \<lparr>rendered = rendered v @ (if pending_parts v = [] then []
        else [\<lparr>who = Ads, shown_at = pending_at v, parts = pending_parts v, turn_entry = pending_id v\<rparr>]),
      pending_parts = [], pending_at = None, pending_id = None\<rparr>"

definition render_entry :: "codec \<Rightarrow> rendering \<Rightarrow> entry \<Rightarrow> error + rendering" where
  "render_entry k v e =
     (if e_kind e = kind_tombstone then Inr v
      else if e_kind e = kind_message \<and> e_role e = Some role_user
      then Inr ((flush v)\<lparr>rendered := rendered (flush v)
             @ [\<lparr>who = You, shown_at = Some (e_at e),
                 parts = [plain_part kind_message (Some role_user) (e_text e) False],
                 turn_entry = Some (e_id e)\<rparr>]\<rparr>)
      else
        let v' = (if pending_at v = None then v\<lparr>pending_at := Some (e_at e), pending_id := Some (e_id e)\<rparr>
                  else v)
        in bindE (part_from_stored k (e_kind e) (e_text e) (e_role e) False) (\<lambda>p.
             Inr (v'\<lparr>pending_parts := pending_parts v' @ [p]\<rparr>)))"

definition turns_from_entries ::
  "codec \<Rightarrow> entry list \<Rightarrow> part_view list \<Rightarrow> int \<Rightarrow> error + turn_view list" where
  "turns_from_entries k es live now =
     bindE (foldE (render_entry k)
              \<lparr>rendered = [], pending_parts = [], pending_at = None, pending_id = None\<rparr> es) (\<lambda>v.
       let v1 = (if live \<noteq> [] \<and> pending_at v = None then v\<lparr>pending_at := Some now\<rparr> else v)
       in Inr (rendered (flush (v1\<lparr>pending_parts := pending_parts v1 @ live\<rparr>))))"

end
