(* ===== verification/Thread_Ops.thy ===== *)
theory Thread_Ops
  imports Threads
begin

text \<open>
  The services that write threads (\<open>services/ads/src/ads\<close>): sending a turn (\<open>send_service.py\<close>), the
  output of the engine (\<open>engine_output_service.py\<close>, \<open>engine_output_controller.py\<close>), the watchdog
  (\<open>watchdog.py\<close>), and the sessions and projects read back (\<open>session_service.py\<close>, \<open>project_service.py\<close>).

  One database transaction is one definition that gives the tables after its commit. What is sent
  out (notifications, Kafka records) is a list of effects. \<open>fresh n\<close> is the \<open>uuid4()\<close> of the entry
  made for the delta with order \<open>n\<close>.
\<close>

datatype effect =
    Notify nat
  | SendAck nat nat
  | SendAbort nat nat

abbreviation NotFound :: error where "NotFound \<equiv> OtherError ''NotFound''"
abbreviation SessionForbidden :: error where "SessionForbidden \<equiv> OtherError ''SessionForbidden''"
abbreviation Conflict :: error where "Conflict \<equiv> OtherError ''Conflict''"
abbreviation InvalidInput :: error where "InvalidInput \<equiv> OtherError ''InvalidInput''"
abbreviation ComposerRejected :: error where "ComposerRejected \<equiv> OtherError ''ComposerRejected''"
abbreviation ProducerFailed :: error where "ProducerFailed \<equiv> OtherError ''ProducerFailed''"

section \<open>Promotion of deltas\<close>

text \<open>\<open>while watermark + 1 in orders\<close>: each order is used once.\<close>

function climb :: "int list \<Rightarrow> int \<Rightarrow> int" where
  "climb ns w = (if w + 1 \<in> set ns then climb (removeAll (w + 1) ns) (w + 1) else w)"
  by pat_completeness auto
termination
  by (relation "measure (\<lambda>(ns, _). length ns)") (auto simp: length_removeAll_less)

declare climb.simps [simp del]

text \<open>A delta joins the tail when that is of the same run and kind, else it is a new entry.\<close>

definition append_delta :: "nat \<Rightarrow> delta \<Rightarrow> int \<Rightarrow> nat \<Rightarrow> db \<Rightarrow> db" where
  "append_delta s x now new d =
     (let kind = d_kind x;
          fresh_entry = (\<lambda>role. append_entry new s kind role (d_text x) (Some (d_run x)) now d)
      in if kind = kind_message \<or> kind = kind_reasoning
         then (case Option.bind (Option.bind (get_chat d s) s_latest) (get_entry d) of
                 Some tail \<Rightarrow>
                   if e_run tail = Some (d_run x) \<and> e_kind tail = kind
                   then update_entry (e_id tail) (\<lambda>e. e\<lparr>e_text := e_text e @ d_text x\<rparr>) d
                   else fresh_entry (if kind = kind_reasoning then None else Some role_assistant)
               | None \<Rightarrow> fresh_entry (if kind = kind_reasoning then None else Some role_assistant))
         else if kind = kind_tombstone
         then update_run (d_run x) (\<lambda>r. r\<lparr>r_candidate := Some new\<rparr>) (fresh_entry None)
         else fresh_entry None)"

text \<open>\<open>_finish_run\<close>\<close>

definition finish_run :: "run_row \<Rightarrow> db \<Rightarrow> db" where
  "finish_run r d =
     (let d1 = (case r_candidate r of None \<Rightarrow> d
                | Some i \<Rightarrow> update_chat (r_session r) (\<lambda>c. c\<lparr>s_committed := Some i\<rparr>) d)
      in forget_subject (r_session r)
           (update_run (r_id r) (\<lambda>r. r\<lparr>r_status := Finished, r_finish_at := None,
              r_total := None, r_used := None\<rparr>) d1))"

text \<open>One pass of the loop of \<open>_promote\<close>.\<close>

definition promote_delta :: "nat \<Rightarrow> nat \<Rightarrow> int \<Rightarrow> (int \<Rightarrow> nat) \<Rightarrow> db \<Rightarrow> int \<Rightarrow> db" where
  "promote_delta s rid now fresh d n =
     (case get_delta d rid n of
        None \<Rightarrow> d
      | Some x \<Rightarrow>
          (let d1 = append_delta s x now (fresh n) d
           in case (d_total x, d_used x) of
                (Some t, Some u) \<Rightarrow> update_run rid (\<lambda>r. r\<lparr>r_total := Some t, r_used := Some u\<rparr>) d1
              | _ \<Rightarrow> d1))"

definition set_watermark :: "nat \<Rightarrow> int \<Rightarrow> int \<Rightarrow> db \<Rightarrow> db" where
  "set_watermark rid w now d = update_run rid (\<lambda>r. r\<lparr>r_watermark := w, r_updated := now\<rparr>) d"

text \<open>\<open>if run.last_order is not None and run.watermark >= run.last_order\<close>\<close>

definition complete :: "run_row \<Rightarrow> bool" where
  "complete r \<longleftrightarrow> (case r_last r of None \<Rightarrow> False | Some n \<Rightarrow> n \<le> r_watermark r)"

definition promote :: "run_row \<Rightarrow> int \<Rightarrow> (int \<Rightarrow> nat) \<Rightarrow> db \<Rightarrow> db" where
  "promote r now fresh d =
     (case get_chat d (r_session r) of
        None \<Rightarrow> d
      | Some _ \<Rightarrow>
          let w = climb (orders d (r_id r)) (r_watermark r) in
          if w = r_watermark r then d
          else
            let d1 = set_watermark (r_id r) w now
                       (foldl (promote_delta (r_session r) (r_id r) now fresh) d [r_watermark r + 1 .. w])
            in (case get_run d1 (r_id r) of
                  None \<Rightarrow> d1
                | Some r1 \<Rightarrow> if complete r1 then finish_run r1 d1 else d1))"

section \<open>Breaking a run\<close>

text \<open>\<open>_break_run\<close>: unlink the turn, drop the buffer, the run, its entries and the user entry.\<close>

definition unlink_turn :: "run_row \<Rightarrow> int \<Rightarrow> db \<Rightarrow> db" where
  "unlink_turn r now d =
     (case get_chat d (r_session r) of
        None \<Rightarrow> d
      | Some _ \<Rightarrow>
          let previous = Option.bind (get_entry d (r_user_entry r)) e_prev;
              d1 = update_chat (r_session r) (\<lambda>c. c\<lparr>s_latest := previous, s_updated := now\<rparr>) d
          in (case previous of None \<Rightarrow> d1
              | Some p \<Rightarrow> update_entry p (\<lambda>e. e\<lparr>e_next := None\<rparr>) d1))"

definition break_run_rows :: "run_row \<Rightarrow> int \<Rightarrow> db \<Rightarrow> db" where
  "break_run_rows r now d =
     (if r_status r = Finished then d
      else
        let d1 = update_entry (r_user_entry r) (\<lambda>e. e\<lparr>e_prev := None, e_next := None\<rparr>) (unlink_turn r now d);
            d2 = delete_run_entries (r_session r) (r_id r) (delete_run (r_id r) (delete_deltas (r_id r) d1));
            d3 = delete_entry (r_user_entry r) d2
        in forget_subject (r_session r) d3)"

section \<open>The output of the engine\<close>

text \<open>The two transactions of \<open>acknowledge\<close>: the second one repeats the guard of the first.\<close>

definition pending_run :: "db \<Rightarrow> nat \<Rightarrow> nat \<Rightarrow> run_row option" where
  "pending_run d s m =
     (case in_flight_for_session d s of
        None \<Rightarrow> None
      | Some r \<Rightarrow> if r_status r \<noteq> Pending \<or> r_message r \<noteq> m then None else Some r)"

definition ack_commit :: "nat \<Rightarrow> nat \<Rightarrow> int \<Rightarrow> db \<Rightarrow> db \<times> effect list" where
  "ack_commit s m now d =
     (case pending_run d s m of
        None \<Rightarrow> (d, [])
      | Some r \<Rightarrow>
          (update_run (r_id r) (\<lambda>r. r\<lparr>r_status := Running, r_event := now, r_updated := now\<rparr>) d,
           [Notify s, SendAck s m]))"

text \<open>\<open>authenticate\<close> and \<open>exchange\<close> are the identity provider; \<open>meanwhile\<close> is what other processes
  commit between the two transactions.\<close>

definition acknowledge ::
  "(string \<Rightarrow> error + security_context) \<Rightarrow> string list \<Rightarrow> (string \<Rightarrow> error + string) \<Rightarrow> (db \<Rightarrow> db)
   \<Rightarrow> nat \<Rightarrow> nat \<Rightarrow> string option \<Rightarrow> int \<Rightarrow> db \<Rightarrow> db \<times> effect list" where
  "acknowledge authenticate allowed exchange meanwhile s m token now d =
     (case token of
        None \<Rightarrow> (d, [])
      | Some t \<Rightarrow>
          (case bindE (authenticate t) (\<lambda>c. ensure_caller c allowed) of
             Inl _ \<Rightarrow> (d, [])
           | Inr _ \<Rightarrow>
               if pending_run d s m = None then (d, [])
               else (case exchange t of
                       Inl _ \<Rightarrow> (d, [])
                     | Inr _ \<Rightarrow> ack_commit s m now (meanwhile (remember_subject s (Some t) d)))))"

text \<open>\<open>message\<close> is \<open>None\<close> when the caller gives no message id.\<close>

definition partial_response ::
  "nat \<Rightarrow> int \<Rightarrow> string \<Rightarrow> string \<Rightarrow> (int \<times> int) option \<Rightarrow> nat option \<Rightarrow> int \<Rightarrow> (int \<Rightarrow> nat)
   \<Rightarrow> db \<Rightarrow> db \<times> effect list" where
  "partial_response s order kind txt pressure message now fresh d =
     (case in_flight_for_session d s of
        None \<Rightarrow> (d, [])
      | Some r \<Rightarrow>
          if (case message of None \<Rightarrow> False | Some m \<Rightarrow> r_message r \<noteq> m) then (d, [])
          else if order < 0 then (d, [])
          else if (case r_last r of None \<Rightarrow> False | Some n \<Rightarrow> order > n) then (d, [])
          else if get_delta d (r_id r) order \<noteq> None then (d, [])
          else
            let x = \<lparr>d_run = r_id r, d_order = order, d_kind = kind, d_text = txt,
                     d_total = map_option fst pressure, d_used = map_option snd pressure\<rparr>;
                d1 = update_run (r_id r) (\<lambda>r. r\<lparr>r_event := now, r_updated := now\<rparr>)
                       (d\<lparr>deltas := deltas d @ [x]\<rparr>)
            in (promote r now fresh d1, [Notify s]))"

definition ping :: "nat \<Rightarrow> int \<Rightarrow> db \<Rightarrow> db" where
  "ping s now d =
     (case in_flight_for_session d s of
        None \<Rightarrow> d
      | Some r \<Rightarrow>
          if r_status r = Finishing then d
          else update_run (r_id r) (\<lambda>r. r\<lparr>r_event := now, r_updated := now\<rparr>) d)"

definition finish :: "nat \<Rightarrow> int option \<Rightarrow> nat option \<Rightarrow> int \<Rightarrow> db \<Rightarrow> db \<times> effect list" where
  "finish s last_order message now d =
     (case in_flight_for_session d s of
        None \<Rightarrow> (d, [])
      | Some r \<Rightarrow>
          if (case message of None \<Rightarrow> False | Some m \<Rightarrow> r_message r \<noteq> m) then (d, [])
          else
            let d1 = update_run (r_id r) (\<lambda>r. r\<lparr>r_event := now, r_updated := now\<rparr>) d in
            (case last_order of
               None \<Rightarrow> (break_run_rows r now d1, [Notify s])
             | Some n \<Rightarrow>
                 if n < 0 \<or> n < r_watermark r then (break_run_rows r now d1, [Notify s])
                 else
                   let limit = (case r_last r of None \<Rightarrow> n | Some l \<Rightarrow> l);
                       d2 = update_run (r_id r) (\<lambda>r. r\<lparr>r_last := Some limit\<rparr>) d1
                   in (if limit \<le> r_watermark r then finish_run r d2
                       else if r_status r \<noteq> Finishing
                       then update_run (r_id r) (\<lambda>r. r\<lparr>r_status := Finishing, r_finish_at := Some now\<rparr>) d2
                       else d2, [Notify s])))"

definition engine_error :: "nat \<Rightarrow> nat \<Rightarrow> string \<Rightarrow> int \<Rightarrow> db \<Rightarrow> db \<times> effect list" where
  "engine_error s m txt now d =
     (case in_flight_for_session d s of
        None \<Rightarrow> (d, [])
      | Some r \<Rightarrow>
          if r_message r \<noteq> m then (d, [])
          else (break_run_rows r now (update_run (r_id r) (\<lambda>r. r\<lparr>r_error := Some txt\<rparr>) d), [Notify s]))"

section \<open>Ping death\<close>

text \<open>The second transaction of \<open>abort_and_break\<close>, and \<open>break_run\<close>, with the reason recorded.\<close>

definition break_run :: "nat \<Rightarrow> string \<Rightarrow> int \<Rightarrow> db \<Rightarrow> db \<times> effect list" where
  "break_run rid reason now d =
     (case get_run d rid of
        None \<Rightarrow> (d, [])
      | Some r \<Rightarrow>
          (break_run_rows r now (update_run rid (\<lambda>r. r\<lparr>r_error := Some reason\<rparr>) d),
           [Notify (r_session r)]))"

text \<open>\<open>produced\<close>: the exchange of the subject and the abort record succeeded.\<close>

definition abort_and_break ::
  "(string option \<Rightarrow> bool) \<Rightarrow> (db \<Rightarrow> db) \<Rightarrow> nat \<Rightarrow> int \<Rightarrow> db \<Rightarrow> db \<times> effect list" where
  "abort_and_break produced meanwhile rid now d =
     (case get_run d rid of
        None \<Rightarrow> (d, [])
      | Some r \<Rightarrow>
          if r_status r = Finished then (d, [])
          else
            let sent = (if produced (get_subject d (r_session r)) then [SendAbort (r_session r) (r_message r)] else []);
                (d', out) = break_run rid ''ping death'' now (meanwhile d)
            in (d', sent @ out))"

definition overdue :: "int \<Rightarrow> int \<Rightarrow> db \<Rightarrow> nat list" where
  "overdue ping_death now d =
     map r_id (filter (\<lambda>r. r_status r \<in> {Pending, Running} \<and> r_event r + ping_death \<le> now) (all_in_flight d))"

definition gapped :: "int \<Rightarrow> int \<Rightarrow> db \<Rightarrow> nat list" where
  "gapped finish_gap now d =
     map r_id (filter (\<lambda>r. r_status r = Finishing \<and> \<not> complete r
       \<and> (case r_finish_at r of None \<Rightarrow> False | Some t \<Rightarrow> t + finish_gap \<le> now)) (all_in_flight d))"

text \<open>One tick: both lists are taken from one snapshot.\<close>

definition tick ::
  "(string option \<Rightarrow> bool) \<Rightarrow> (db \<Rightarrow> db) \<Rightarrow> int \<Rightarrow> int \<Rightarrow> int \<Rightarrow> db \<Rightarrow> db \<times> effect list" where
  "tick produced meanwhile ping_death finish_gap now d0 =
     foldl (\<lambda>(d, out) rid. let (d', out') = break_run rid ''gapped finish timed out'' now (meanwhile d)
                           in (d', out @ out'))
       (foldl (\<lambda>(d, out) rid. let (d', out') = abort_and_break produced meanwhile rid now (meanwhile d)
                              in (d', out @ out')) (d0, []) (overdue ping_death now d0))
       (gapped finish_gap now d0)"

end
