(* ===== verification/Thread_Api.thy ===== *)
theory Thread_Api
  imports Thread_Ops Egress_Settings
begin

text \<open>
  What users and the engine call (\<open>services/ads/src/ads\<close>): \<open>send_service.py\<close>, \<open>session_service.py\<close>,
  \<open>project_service.py\<close> and the records of the engine (\<open>engine_output_controller.py\<close>). The current
  security context is an argument; the preferences service, the identity provider, Kafka and the
  egress service are functions that give what the remote call gave.
\<close>

definition require_text :: "string \<Rightarrow> error + string" where
  "require_text v = (if strip is_space v = [] then Inl InvalidInput else Inr (strip is_space v))"

text \<open>\<open>SecurityContextHolder.require().user_id\<close>, after \<open>@require_role("user")\<close> where that stands.\<close>

definition current_user :: "security_context option \<Rightarrow> error + nat" where
  "current_user current = bindE (require_context current) user_id"

definition role_user_id :: "security_context option \<Rightarrow> error + nat" where
  "role_user_id current = bindE (check_role current ''user'') (\<lambda>_. current_user current)"

definition load_owned :: "db \<Rightarrow> nat \<Rightarrow> nat \<Rightarrow> error + chat" where
  "load_owned d user s =
     (case get_chat d s of
        None \<Rightarrow> Inl NotFound
      | Some c \<Rightarrow> if s_user c \<noteq> user then Inl SessionForbidden else Inr c)"

section \<open>Sending a turn\<close>

record model_info =
  m_url :: string
  m_authentication :: string

text \<open>The transaction that claims the session: the user entry and the pending run, and the history
  that goes to the engine. The unique index on runs in flight is the same test once more.\<close>

definition send_claim ::
  "codec \<Rightarrow> nat \<Rightarrow> nat \<Rightarrow> string \<Rightarrow> nat \<Rightarrow> nat \<times> nat \<times> nat \<Rightarrow> int \<Rightarrow> db \<Rightarrow> error + (turn list \<times> db)" where
  "send_claim k user s txt model ids now d =
     (let (entry_id, run_id, message_id) = ids in
      bindE (load_owned d user s) (\<lambda>c.
        if in_flight_for_session d s \<noteq> None then Inl Conflict
        else bindE (history_from_entries k (walk d c) (s_committed c)) (\<lambda>history.
          let d1 = append_entry entry_id s kind_message (Some role_user) txt None now d;
              row = \<lparr>r_id = run_id, r_session = s, r_message = message_id, r_user_entry = entry_id,
                     r_model = model, r_status = Pending, r_watermark = -1, r_last = None,
                     r_event = now, r_finish_at = None, r_error = None, r_candidate = None,
                     r_total = None, r_used = None, r_created = now, r_updated = now\<rparr>
          in Inr (history, d1\<lparr>runs := runs d1 @ [row]\<rparr>))))"

record engine_request =
  q_session :: nat
  q_message :: nat
  q_history :: "turn list"
  q_input :: string
  q_model :: model_info
  q_token :: string

text \<open>After the request was produced: a sign of life of the run.\<close>

definition send_done :: "nat \<Rightarrow> int \<Rightarrow> db \<Rightarrow> db" where
  "send_done rid now d = update_run rid (\<lambda>r. r\<lparr>r_event := now, r_updated := now\<rparr>) d"

text \<open>\<open>get_model\<close> is a remote call, \<open>exchanged\<close> what the token exchange gave, \<open>produce\<close> tells whether Kafka
  took the request; when it did not the run stays pending. \<open>d0\<close> are the tables at the first check,
  \<open>d\<close> those at the claim, after the model was awaited; \<open>later\<close> is the clock after the request was
  produced.\<close>

definition send ::
  "codec \<Rightarrow> security_context option \<Rightarrow> (nat \<Rightarrow> error + model_info) \<Rightarrow> error + string
   \<Rightarrow> (engine_request \<Rightarrow> bool) \<Rightarrow> nat \<Rightarrow> string \<Rightarrow> nat option \<Rightarrow> string option
   \<Rightarrow> nat \<times> nat \<times> nat \<Rightarrow> int \<Rightarrow> int \<Rightarrow> db \<Rightarrow> db \<Rightarrow> (error + nat) \<times> db" where
  "send k current get_model exchanged produce s user_input model_id access_token ids now later d0 d =
     (case bindE (role_user_id current) (\<lambda>user.
             bindE (load_owned d0 user s) (\<lambda>_.
               let txt = strip is_space user_input in
               if txt = [] then Inl ComposerRejected
               else (case model_id of
                       None \<Rightarrow> Inl ComposerRejected
                     | Some m \<Rightarrow>
                         bindE (case get_model m of
                                  Inl e \<Rightarrow> Inl (if e = NotFound then ComposerRejected else e)
                                | Inr i \<Rightarrow> Inr i) (\<lambda>info.
                           bindE (send_claim k user s txt m ids now d) (\<lambda>(history, d1).
                             Inr (info, txt, history, d1)))))) of
        Inl e \<Rightarrow> (Inl e, d)
      | Inr (info, txt, history, d1) \<Rightarrow>
          let d2 = remember_subject s access_token d1 in
          (case exchanged of
             Inl e \<Rightarrow> (Inl e, d2)
           | Inr token \<Rightarrow>
               if produce \<lparr>q_session = s, q_message = snd (snd ids), q_history = history,
                           q_input = txt, q_model = info, q_token = token\<rparr>
               then (Inr (snd (snd ids)), send_done (fst (snd ids)) later d2)
               else (Inl ProducerFailed, d2)))"

section \<open>Sessions\<close>

record session_view =
  vs_id :: nat
  vs_project :: nat
  vs_name :: string
  vs_description :: string
  vs_running :: bool

definition view_chat :: "chat \<Rightarrow> bool \<Rightarrow> session_view" where
  "view_chat c running =
     \<lparr>vs_id = s_id c, vs_project = s_project c, vs_name = s_name c,
      vs_description = s_description c, vs_running = running\<rparr>"

definition create_session ::
  "security_context option \<Rightarrow> nat \<Rightarrow> string \<Rightarrow> string \<Rightarrow> nat \<Rightarrow> int \<Rightarrow> db \<Rightarrow> error + (session_view \<times> db)" where
  "create_session current p name description new now d =
     bindE (role_user_id current) (\<lambda>user.
     bindE (require_text name) (\<lambda>clean_name.
     bindE (require_text description) (\<lambda>clean_description.
       case get_project_for d user p of
         None \<Rightarrow> Inl NotFound
       | Some pr \<Rightarrow>
           let row = \<lparr>s_id = new, s_project = p_id pr, s_user = user, s_name = clean_name,
                      s_description = clean_description, s_latest = None, s_committed = None,
                      s_created = now, s_updated = now\<rparr>
           in Inr (view_chat row False, d\<lparr>chats := chats d @ [row]\<rparr>))))"

definition get_session ::
  "security_context option \<Rightarrow> nat \<Rightarrow> db \<Rightarrow> error + session_view" where
  "get_session current s d =
     bindE (current_user current) (\<lambda>user.
     bindE (load_owned d user s) (\<lambda>c.
       Inr (view_chat c (in_flight_for_session d (s_id c) \<noteq> None))))"

definition session_entries ::
  "security_context option \<Rightarrow> nat \<Rightarrow> db \<Rightarrow> error + entry list" where
  "session_entries current s d =
     bindE (current_user current) (\<lambda>user. bindE (load_owned d user s) (\<lambda>c. Inr (walk d c)))"

record run_view =
  w_status :: run_status
  w_message :: nat
  w_total :: "int option"
  w_used :: "int option"

record transcript_view =
  t_session :: session_view
  t_project_name :: string
  t_turns :: "turn_view list"
  t_run :: "run_view option"
  t_model :: "nat option"

definition live_parts :: "codec \<Rightarrow> db \<Rightarrow> run_row \<Rightarrow> error + part_view list" where
  "live_parts k d r =
     mapE (\<lambda>x. part_from_stored k (d_kind x) (d_text x)
                 (if d_kind x = kind_message then Some role_assistant else None) True)
       (filter (\<lambda>x. d_kind x \<noteq> kind_tombstone) (list_after d (r_id r) (r_watermark r)))"

definition transcript ::
  "codec \<Rightarrow> security_context option \<Rightarrow> nat \<Rightarrow> int \<Rightarrow> db \<Rightarrow> error + transcript_view" where
  "transcript k current s now d =
     bindE (current_user current) (\<lambda>user.
     bindE (load_owned d user s) (\<lambda>c.
       let name = (case get_project_for d (s_user c) (s_project c) of None \<Rightarrow> [] | Some p \<Rightarrow> p_name p);
           run = in_flight_for_session d (s_id c)
       in bindE (case run of None \<Rightarrow> Inr [] | Some r \<Rightarrow> live_parts k d r) (\<lambda>live.
          bindE (turns_from_entries k (walk d c) live now) (\<lambda>turns.
            Inr \<lparr>t_session = view_chat c (run \<noteq> None), t_project_name = name, t_turns = turns,
                 t_run = map_option (\<lambda>r. \<lparr>w_status = r_status r, w_message = r_message r,
                           w_total = r_total r, w_used = r_used r\<rparr>) run,
                 t_model = last_model_for_session d (s_id c)\<rparr>))))"

section \<open>Projects\<close>

record project_view =
  vp_id :: nat
  vp_name :: string
  vp_description :: string
  vp_sessions :: "session_view list"

text \<open>\<open>save\<close> is what \<open>save_egress\<close> of the initial settings gives for the new project. The second result
  tells that the compensating \<open>delete_egress\<close> was called.\<close>

definition deny_all :: egress_settings where
  "deny_all = \<lparr>rules = [], mode = Whitelist\<rparr>"

definition create_project ::
  "security_context option \<Rightarrow> (nat \<Rightarrow> error + egress_snapshot) \<Rightarrow> string \<Rightarrow> string \<Rightarrow> nat \<Rightarrow> int
   \<Rightarrow> db \<Rightarrow> (error + (project_view \<times> db)) \<times> bool" where
  "create_project current save name description new now d =
     (case bindE (role_user_id current) (\<lambda>user.
           bindE (require_text name) (\<lambda>n. bindE (require_text description) (\<lambda>t. Inr (user, n, t)))) of
        Inl e \<Rightarrow> (Inl e, False)
      | Inr (user, n, t) \<Rightarrow>
          (case save new of
             Inl e \<Rightarrow> (Inl e, True)
           | Inr snapshot \<Rightarrow>
               if revision snapshot \<noteq> 1 \<or> settings snapshot \<noteq> deny_all then (Inl InvalidInput, True)
               else
                 let row = \<lparr>p_id = new, p_user = user, p_name = n, p_description = t,
                            p_created = now, p_updated = now\<rparr>
                 in (Inr (\<lparr>vp_id = new, vp_name = n, vp_description = t, vp_sessions = []\<rparr>,
                          d\<lparr>projects := projects d @ [row]\<rparr>), False)))"

definition get_project ::
  "security_context option \<Rightarrow> nat \<Rightarrow> db \<Rightarrow> error + project_view" where
  "get_project current p d =
     bindE (current_user current) (\<lambda>user.
       case get_project_for d user p of
         None \<Rightarrow> Inl NotFound
       | Some r \<Rightarrow> Inr \<lparr>vp_id = p_id r, vp_name = p_name r, vp_description = p_description r, vp_sessions = []\<rparr>)"

definition get_project_egress ::
  "security_context option \<Rightarrow> (nat \<Rightarrow> error + egress_snapshot) \<Rightarrow> nat \<Rightarrow> db \<Rightarrow> error + egress_snapshot" where
  "get_project_egress current fetch p d =
     bindE (check_role current ''user'') (\<lambda>_. bindE (get_project current p d) (\<lambda>_. fetch p))"

text \<open>\<open>decode_settings\<close> is the trip of the settings through JSON, with all their checks.\<close>

definition save_project_egress ::
  "security_context option \<Rightarrow> (egress_settings \<Rightarrow> error + egress_settings)
   \<Rightarrow> (nat \<Rightarrow> egress_settings \<Rightarrow> error + egress_snapshot) \<Rightarrow> (nat \<Rightarrow> egress_snapshot \<Rightarrow> bool)
   \<Rightarrow> nat \<Rightarrow> egress_settings \<Rightarrow> db \<Rightarrow> error + egress_snapshot" where
  "save_project_egress current decode_settings save publish p st d =
     bindE (check_role current ''user'') (\<lambda>_.
     bindE (get_project current p d) (\<lambda>_.
     bindE (decode_settings st) (\<lambda>decoded.
     bindE (save p decoded) (\<lambda>snapshot.
       if publish p snapshot then Inr snapshot else Inl (OtherError ''EgressPublicationFailed'')))))"

text \<open>\<open>needle in text.lower()\<close>\<close>

definition mentions :: "string \<Rightarrow> chat \<Rightarrow> bool" where
  "mentions needle c \<longleftrightarrow> sublist needle (str_lower (s_name c)) \<or> sublist needle (str_lower (s_description c))"

definition list_tree ::
  "(string \<Rightarrow> string \<Rightarrow> bool) \<Rightarrow> security_context option \<Rightarrow> string option \<Rightarrow> db \<Rightarrow> error + project_view list" where
  "list_tree collate current q d =
     bindE (current_user current) (\<lambda>user.
       let needle = str_lower (strip is_space (case q of None \<Rightarrow> [] | Some t \<Rightarrow> t)) in
       Inr (concat (map (\<lambda>p.
         let every = list_chats d user (p_id p);
             rows = (if needle = [] then every else filter (mentions needle) every)
         in if needle \<noteq> [] \<and> rows = [] then []
            else [\<lparr>vp_id = p_id p, vp_name = p_name p, vp_description = p_description p,
                   vp_sessions = map (\<lambda>c. view_chat c (s_id c \<in> in_flight_sessions d (map s_id rows))) rows\<rparr>])
         (list_projects collate d user))))"

section \<open>Records of the engine\<close>

record partial_output =
  po_session :: nat
  po_order :: int
  po_reasoning :: "string option"
  po_message :: "string option"
  po_tool_call :: "tool_call option"
  po_tool_result :: "tool_result option"
  po_compaction :: "string option"
  po_tombstone :: "tombstone option"
  po_pressure :: "(int \<times> int) option"
  po_message_id :: "nat option"

datatype engine_output =
    AcknowledgeOutput nat nat
  | PartialOutput partial_output
  | PingOutput nat
  | FinishOutput nat int "nat option"
  | ErrorOutput nat nat string

record finish_peek =
  peek_type :: "string option"
  peek_session :: "string option"
  peek_last :: "int option"
  peek_message :: "nat option"

text \<open>\<open>msgspec\<close> on the records: encoded calls, results and memories, and the two ways to decode a record.\<close>

record wire_codec =
  encode_call :: "tool_call \<Rightarrow> string"
  encode_result :: "tool_result \<Rightarrow> string"
  encode_tombstone :: "tombstone \<Rightarrow> string"
  decode_output :: "bytes \<Rightarrow> engine_output option"
  decode_peek :: "bytes \<Rightarrow> finish_peek option"

text \<open>\<open>_delta\<close>: the one primitive of a partial response, as kind and text.\<close>

definition primitive_count :: "partial_output \<Rightarrow> nat" where
  "primitive_count o' =
     length (filter id [po_reasoning o' \<noteq> None, po_message o' \<noteq> None, po_tool_call o' \<noteq> None,
       po_tool_result o' \<noteq> None, po_compaction o' \<noteq> None, po_tombstone o' \<noteq> None])"

definition delta_of :: "wire_codec \<Rightarrow> partial_output \<Rightarrow> (string \<times> string) option" where
  "delta_of k o' =
     (if primitive_count o' \<noteq> 1 then None
      else case po_compaction o' of
        Some kind \<Rightarrow> Some (kind, if kind = ''compacting_context'' then ''Compacting context''
                               else ''Context compacted'')
      | None \<Rightarrow>
      (case po_tombstone o' of Some t \<Rightarrow> Some (kind_tombstone, encode_tombstone k t)
      | None \<Rightarrow>
      (case po_reasoning o' of Some t \<Rightarrow> Some (kind_reasoning, t)
      | None \<Rightarrow>
      (case po_message o' of Some t \<Rightarrow> Some (kind_message, t)
      | None \<Rightarrow>
      (case po_tool_call o' of Some c \<Rightarrow> Some (kind_tool_call, encode_call k c)
      | None \<Rightarrow>
      (case po_tool_result o' of Some r \<Rightarrow> Some (kind_tool_result, encode_result k r)
      | None \<Rightarrow> None))))))"

text \<open>\<open>authorization_token\<close> of \<open>ads_commons/engine.py\<close> on decoded headers.\<close>

fun authorization_token :: "(string \<times> string option) list \<Rightarrow> string option" where
  "authorization_token [] = None"
| "authorization_token ((name, v) # hs) =
     (if str_lower name \<noteq> ''authorization'' then authorization_token hs
      else (case v of None \<Rightarrow> None | Some t \<Rightarrow> if t = [] then None else Some t))"

text \<open>What serves a record besides the record itself.\<close>

record listener =
  wire :: wire_codec
  l_authenticate :: "string \<Rightarrow> error + security_context"
  l_allowed :: "string list"
  l_exchange :: "string \<Rightarrow> error + string"
  l_meanwhile :: "db \<Rightarrow> db"

definition dispatch_output ::
  "listener \<Rightarrow> (string \<times> string option) list \<Rightarrow> int \<Rightarrow> (int \<Rightarrow> nat) \<Rightarrow> engine_output \<Rightarrow> db
   \<Rightarrow> db \<times> effect list" where
  "dispatch_output l hs now fresh o' d =
     (case o' of
        AcknowledgeOutput s m \<Rightarrow>
          acknowledge (l_authenticate l) (l_allowed l) (l_exchange l) (l_meanwhile l) s m
            (authorization_token hs) now d
      | PartialOutput p \<Rightarrow>
          (case delta_of (wire l) p of
             None \<Rightarrow> (d, [])
           | Some (kind, txt) \<Rightarrow>
               partial_response (po_session p) (po_order p) kind txt (po_pressure p) (po_message_id p)
                 now fresh d)
      | PingOutput s \<Rightarrow> (ping s now d, [])
      | FinishOutput s n m \<Rightarrow> finish s (Some n) m now d
      | ErrorOutput s m txt \<Rightarrow> engine_error s m txt now d)"

text \<open>A finish without \<open>last_order\<close> does not decode, but still breaks the run.\<close>

definition on_record ::
  "listener \<Rightarrow> (string \<times> string option) list \<Rightarrow> int \<Rightarrow> (int \<Rightarrow> nat) \<Rightarrow> bytes \<Rightarrow> db \<Rightarrow> db \<times> effect list" where
  "on_record l hs now fresh raw d =
     (case decode_output (wire l) raw of
        Some o' \<Rightarrow>
          if (case o' of PartialOutput p \<Rightarrow> po_message_id p = None
              | FinishOutput s n m \<Rightarrow> m = None | _ \<Rightarrow> False) then (d, [])
          else dispatch_output l hs now fresh o' d
      | None \<Rightarrow>
          (case decode_peek (wire l) raw of
             None \<Rightarrow> (d, [])
           | Some p \<Rightarrow>
               (case (peek_session p, peek_message p) of
                  (Some s, Some m) \<Rightarrow>
                    if peek_type p \<noteq> Some ''finish'' then (d, [])
                    else (case parse_uuid s of
                            None \<Rightarrow> (d, [])
                          | Some sid \<Rightarrow> finish sid (peek_last p) (Some m) now d)
                | _ \<Rightarrow> (d, []))))"

end
