(* ===== verification/Engine_Service.thy ===== *)
theory Engine_Service
  imports Engine_Exec Thread_Api
begin

text \<open>
  The service of the engine (\<open>services/ads-engine/src/ads_engine\<close>): \<open>service.py\<close>, \<open>store.py\<close> and
  \<open>listener.py\<close>. A request becomes a run; a run is a coroutine, so it is split at its awaits, and each
  definition below is the code between two of them. Runs of different sessions, acknowledgements, aborts
  and pings may come in between. Each run has a number, \<open>tag\<close>, which stands for its task and its event
  object. Publication is the environment: it succeeds, or it fails with a text, and then the record
  may have been sent all the same.
\<close>

section \<open>The state\<close>

text \<open>Where a run stands: publishing its acknowledgement, waiting for the response to it, reading the
  stream (attempt and number of parts), publishing a part, stopping its pings, publishing its end,
  and past its \<open>finally\<close> block with only the row to give back.\<close>

datatype run_phase =
    PAck | PWait | PRead nat int | PSend nat int stream_delta | PStop int | PFinish int
  | PRelease "string option"

record engine_run =
  tag :: nat
  of_session :: nat
  of_message :: nat
  phase :: run_phase
  acked :: bool       \<comment> \<open>its event is set\<close>
  cancelled :: bool   \<comment> \<open>\<open>task.cancel()\<close> was called\<close>

record engine_service =
  active_rows :: "(nat \<times> nat) list"               \<comment> \<open>the table \<open>active_sessions\<close>\<close>
  ack_waiters :: "nat \<Rightarrow> (nat \<times> nat) option"     \<comment> \<open>session to message and tag\<close>
  running :: "nat \<Rightarrow> (nat \<times> nat) option"
  aborted :: "nat set"
  live :: "engine_run list"
  outputs :: "(nat \<times> engine_output) list"         \<comment> \<open>what was published, with the tag of its run\<close>
  next_tag :: nat

definition new_service :: engine_service where
  "new_service = \<lparr>active_rows = [], ack_waiters = (\<lambda>_. None), running = (\<lambda>_. None), aborted = {},
     live = [], outputs = [], next_tag = 0\<rparr>"

definition find_run :: "engine_service \<Rightarrow> nat \<Rightarrow> engine_run option" where
  "find_run st t = find (\<lambda>r. tag r = t) (live st)"

definition update_live :: "nat \<Rightarrow> (engine_run \<Rightarrow> engine_run) \<Rightarrow> engine_service \<Rightarrow> engine_service" where
  "update_live t f st = st\<lparr>live := map (\<lambda>r. if tag r = t then f r else r) (live st)\<rparr>"

definition publish :: "nat \<Rightarrow> engine_output \<Rightarrow> engine_service \<Rightarrow> engine_service" where
  "publish t o' st = st\<lparr>outputs := outputs st @ [(t, o')]\<rparr>"

section \<open>The table of active sessions\<close>

definition claim :: "nat \<Rightarrow> nat \<Rightarrow> engine_service \<Rightarrow> engine_service option" where
  "claim s m st =
     (if map_of (active_rows st) s \<noteq> None then None
      else Some (st\<lparr>active_rows := active_rows st @ [(s, m)]\<rparr>))"

definition release :: "nat \<Rightarrow> engine_service \<Rightarrow> engine_service" where
  "release s st = st\<lparr>active_rows := filter (\<lambda>(s', _). s' \<noteq> s) (active_rows st)\<rparr>"

section \<open>Requests\<close>

record inbound_request =
  ir_session :: nat
  ir_message :: nat
  ir_input :: string
  ir_model_name :: string
  ir_url :: string
  ir_model_token :: string
  ir_token :: string

definition validate_request :: "inbound_request \<Rightarrow> string option" where
  "validate_request q =
     (if ir_input q = [] then Some ''user_input is required''
      else if strip is_space (ir_model_name q) = [] then Some ''model.options.model-name is required''
      else if strip is_space (ir_url q) = [] then Some ''model.url is required''
      else if strip is_space (ir_model_token q) = [] then Some ''model authentication token is required''
      else None)"

text \<open>The \<open>finally\<close> block of \<open>handle\<close> up to its last await; \<open>why\<close> is the text of what is raised.\<close>

definition leave :: "engine_run \<Rightarrow> string option \<Rightarrow> engine_service \<Rightarrow> engine_service" where
  "leave r why st =
     update_live (tag r) (\<lambda>r. r\<lparr>phase := PRelease why, cancelled := False\<rparr>)
       (st\<lparr>running := (running st)(of_session r := None), aborted := aborted st - {of_session r},
           ack_waiters := (ack_waiters st)(of_session r := None)\<rparr>)"

text \<open>\<open>handle\<close> up to its first publication. \<open>minted\<close> is the exchanged token, or the text of the error; the
  result is the text of an exception that leaves \<open>handle\<close> at once.\<close>

definition handle_request ::
  "string list \<Rightarrow> security_context \<Rightarrow> string + string option \<Rightarrow> inbound_request \<Rightarrow> engine_service
   \<Rightarrow> string option \<times> engine_service" where
  "handle_request allowed c minted q st =
     (case check_caller (Some c) allowed of
        Inl _ \<Rightarrow> (Some ''caller is not allowed'', st)
      | Inr _ \<Rightarrow>
     (case validate_request q of
        Some why \<Rightarrow> (Some why, st)
      | None \<Rightarrow>
     (case claim (ir_session q) (ir_message q) st of
        None \<Rightarrow> (Some ''session already active'', st)
      | Some st1 \<Rightarrow>
          let t = next_tag st;
              r = \<lparr>tag = t, of_session = ir_session q, of_message = ir_message q, phase = PAck,
                   acked = False, cancelled = False\<rparr>;
              st2 = st1\<lparr>running := (running st1)(ir_session q \<mapsto> (ir_message q, t)),
                        live := live st1 @ [r], next_tag := Suc t\<rparr>
          in (case minted of
                Inl why \<Rightarrow> (None, leave r (Some why) st2)
              | Inr token \<Rightarrow>
                  if token = None \<or> token = Some [] then (None, leave r (Some ''exchanged token is missing'') st2)
                  else (None, st2\<lparr>ack_waiters := (ack_waiters st2)(ir_session q \<mapsto> (ir_message q, t))\<rparr>)))))"

section \<open>The steps of a run\<close>

text \<open>A publication: \<open>Inr\<close> when it succeeded, else whether the record was sent and the text.\<close>

type_synonym publication = "bool \<times> string + unit"

definition sent :: "publication \<Rightarrow> nat \<Rightarrow> engine_output \<Rightarrow> engine_service \<Rightarrow> engine_service" where
  "sent p t o' st = (case p of Inr _ \<Rightarrow> publish t o' st | Inl (out, _) \<Rightarrow> if out then publish t o' st else st)"

text \<open>A run that was cancelled goes nowhere but out.\<close>

definition on_run :: "nat \<Rightarrow> (engine_run \<Rightarrow> engine_service \<Rightarrow> engine_service) \<Rightarrow> engine_service \<Rightarrow> engine_service" where
  "on_run t f st =
     (case find_run st t of
        None \<Rightarrow> st
      | Some r \<Rightarrow> if cancelled r then st else f r st)"

definition go :: "engine_run \<Rightarrow> run_phase \<Rightarrow> engine_service \<Rightarrow> engine_service" where
  "go r p = update_live (tag r) (\<lambda>r. r\<lparr>phase := p\<rparr>)"

definition published ::
  "engine_run \<Rightarrow> publication \<Rightarrow> engine_output \<Rightarrow> (engine_service \<Rightarrow> engine_service) \<Rightarrow> engine_service \<Rightarrow> engine_service" where
  "published r p o' after st =
     (let st1 = sent p (tag r) o' st in
      case p of Inr _ \<Rightarrow> after st1 | Inl (_, why) \<Rightarrow> leave r (Some why) st1)"

definition ack_published :: "nat \<Rightarrow> publication \<Rightarrow> engine_service \<Rightarrow> engine_service" where
  "ack_published t p = on_run t (\<lambda>r st.
     if phase r = PAck
     then published r p (AcknowledgeOutput (of_session r) (of_message r)) (go r PWait) st
     else st)"

definition ack_awaited :: "nat \<Rightarrow> engine_service \<Rightarrow> engine_service" where
  "ack_awaited t = on_run t (\<lambda>r st.
     if phase r = PWait \<and> acked r
     then go r (PRead 0 0) (st\<lparr>ack_waiters := (ack_waiters st)(of_session r := None)\<rparr>)
     else st)"

definition ack_timed_out :: "nat \<Rightarrow> engine_service \<Rightarrow> engine_service" where
  "ack_timed_out t = on_run t (\<lambda>r st.
     if phase r = PWait \<and> \<not> acked r then leave r (Some ''ack-response timed out'') st else st)"

text \<open>\<open>_partial\<close>; a call or result without its payload would become an empty message.\<close>

definition partial_of :: "nat \<Rightarrow> nat \<Rightarrow> int \<Rightarrow> stream_delta \<Rightarrow> partial_output" where
  "partial_of s m order d =
     (let blank = \<lparr>po_session = s, po_order = order, po_reasoning = None, po_message = None,
                   po_tool_call = None, po_tool_result = None, po_compaction = None, po_tombstone = None,
                   po_pressure = sd_pressure d, po_message_id = Some m\<rparr>
      in case sd_kind d of
           KCompaction \<Rightarrow> blank\<lparr>po_compaction := sd_compaction d\<rparr>
         | KTombstone \<Rightarrow> blank\<lparr>po_tombstone := sd_tombstone d\<rparr>
         | KReasoning \<Rightarrow> blank\<lparr>po_reasoning := Some (sd_text d)\<rparr>
         | KToolCall \<Rightarrow>
             if sd_call d \<noteq> None then blank\<lparr>po_tool_call := sd_call d\<rparr>
             else blank\<lparr>po_message := Some (sd_text d)\<rparr>
         | KToolResult \<Rightarrow>
             if sd_result d \<noteq> None then blank\<lparr>po_tool_result := sd_result d\<rparr>
             else blank\<lparr>po_message := Some (sd_text d)\<rparr>
         | KMessage \<Rightarrow> blank\<lparr>po_message := Some (sd_text d)\<rparr>)"

definition delta_read :: "nat \<Rightarrow> stream_delta \<Rightarrow> engine_service \<Rightarrow> engine_service" where
  "delta_read t d = on_run t (\<lambda>r st. case phase r of PRead a k \<Rightarrow> go r (PSend a k d) st | _ \<Rightarrow> st)"

definition delta_published :: "nat \<Rightarrow> publication \<Rightarrow> engine_service \<Rightarrow> engine_service" where
  "delta_published t p = on_run t (\<lambda>r st.
     case phase r of
       PSend a k d \<Rightarrow>
         published r p (PartialOutput (partial_of (of_session r) (of_message r) k d)) (go r (PRead a (k + 1))) st
     | _ \<Rightarrow> st)"

text \<open>The stream raised: another attempt only after an error that is not \<open>ExecutionFailed\<close>, while nothing
  was published, three times at most.\<close>

definition stream_raised :: "nat \<Rightarrow> bool \<Rightarrow> string \<Rightarrow> engine_service \<Rightarrow> engine_service" where
  "stream_raised t execution_failed why = on_run t (\<lambda>r st.
     case phase r of
       PRead a k \<Rightarrow>
         if execution_failed \<or> 0 < k \<or> 3 \<le> Suc a then leave r (Some why) st
         else go r (PRead (Suc a) k) st
     | _ \<Rightarrow> st)"

definition stream_ended :: "nat \<Rightarrow> engine_service \<Rightarrow> engine_service" where
  "stream_ended t = on_run t (\<lambda>r st.
     case phase r of
       PRead a k \<Rightarrow> if k = 0 then leave r (Some ''no partial-response'') st else go r (PStop (k - 1)) st
     | _ \<Rightarrow> st)"

definition pings_stopped :: "nat \<Rightarrow> engine_service \<Rightarrow> engine_service" where
  "pings_stopped t = on_run t (\<lambda>r st. case phase r of PStop n \<Rightarrow> go r (PFinish n) st | _ \<Rightarrow> st)"

definition finish_published :: "nat \<Rightarrow> publication \<Rightarrow> engine_service \<Rightarrow> engine_service" where
  "finish_published t p = on_run t (\<lambda>r st.
     case phase r of
       PFinish n \<Rightarrow>
         published r p (FinishOutput (of_session r) n (Some (of_message r))) (leave r None) st
     | _ \<Rightarrow> st)"

definition pings :: "run_phase \<Rightarrow> bool" where
  "pings p \<longleftrightarrow> (case p of PRead a k \<Rightarrow> True | PSend a k d \<Rightarrow> True | PStop n \<Rightarrow> True | _ \<Rightarrow> False)"

definition ping_sent :: "nat \<Rightarrow> engine_service \<Rightarrow> engine_service" where
  "ping_sent t = on_run t (\<lambda>r st. if pings (phase r) then publish t (PingOutput (of_session r)) st else st)"

text \<open>\<open>release\<close>, and the listener's report of what was raised; \<open>reported\<close>: it was published.\<close>

definition released :: "nat \<Rightarrow> bool \<Rightarrow> engine_service \<Rightarrow> engine_service" where
  "released t reported st =
     (case find_run st t of
        Some r \<Rightarrow>
          (case phase r of
             PRelease why \<Rightarrow>
               (let st1 = (release (of_session r) st)\<lparr>live := filter (\<lambda>r. tag r \<noteq> t) (live st)\<rparr> in
                case why of
                  None \<Rightarrow> st1
                | Some x \<Rightarrow>
                    if reported then publish t (ErrorOutput (of_session r) (of_message r) x) st1 else st1)
           | _ \<Rightarrow> st)
      | None \<Rightarrow> st)"

section \<open>Acknowledgements and aborts\<close>

definition handle_ack_response :: "nat \<Rightarrow> nat \<Rightarrow> engine_service \<Rightarrow> engine_service" where
  "handle_ack_response s m st =
     (case ack_waiters st s of
        None \<Rightarrow> st
      | Some (m', t) \<Rightarrow> if m' \<noteq> m then st else update_live t (\<lambda>r. r\<lparr>acked := True\<rparr>) st)"

definition handle_abort :: "nat \<Rightarrow> nat \<Rightarrow> engine_service \<Rightarrow> engine_service" where
  "handle_abort s m st =
     (case running st s of
        None \<Rightarrow> st
      | Some (m', t) \<Rightarrow>
          if m' \<noteq> m then st
          else update_live t (\<lambda>r. r\<lparr>cancelled := True\<rparr>) (st\<lparr>aborted := insert s (aborted st)\<rparr>))"

text \<open>What a run was about to publish.\<close>

definition pending_output :: "engine_run \<Rightarrow> engine_output option" where
  "pending_output r =
     (case phase r of
        PAck \<Rightarrow> Some (AcknowledgeOutput (of_session r) (of_message r))
      | PSend a k d \<Rightarrow> Some (PartialOutput (partial_of (of_session r) (of_message r) k d))
      | PFinish n \<Rightarrow> Some (FinishOutput (of_session r) n (Some (of_message r)))
      | _ \<Rightarrow> None)"

text \<open>The cancellation arrives at the await where the run stands. \<open>_cancel(ping_task)\<close> takes it for the
  cancellation of the pings, and the run goes on.\<close>

definition cancel_delivered :: "nat \<Rightarrow> bool \<Rightarrow> engine_service \<Rightarrow> engine_service" where
  "cancel_delivered t out st =
     (case find_run st t of
        None \<Rightarrow> st
      | Some r \<Rightarrow>
          if \<not> cancelled r then st
          else (case phase r of
                  PStop n \<Rightarrow> update_live t (\<lambda>r. r\<lparr>phase := PFinish n, cancelled := False\<rparr>) st
                | _ \<Rightarrow>
                    leave r None (case pending_output r of
                        Some o' \<Rightarrow> if out then publish t o' st else st
                      | None \<Rightarrow> st)))"

section \<open>Messages\<close>

datatype engine_inbound =
    RequestMessage inbound_request
  | AckResponseMessage nat nat
  | AbortMessage nat nat

record engine_listener =
  el_peek :: "bytes \<Rightarrow> (nat \<times> nat) option"
  el_decode :: "bytes \<Rightarrow> string + engine_inbound"
  el_authenticate :: "string \<Rightarrow> string + security_context"  \<comment> \<open>\<open>Inl\<close>: \<open>InvalidAccessToken\<close>\<close>
  el_allowed :: "string list"
  el_mint :: "string + string option"

definition emit_error :: "nat \<Rightarrow> nat \<Rightarrow> string \<Rightarrow> engine_service \<Rightarrow> engine_service" where
  "emit_error s m x st = (publish (next_tag st) (ErrorOutput s m x) st)\<lparr>next_tag := Suc (next_tag st)\<rparr>"

definition authorized_control :: "engine_listener \<Rightarrow> (string \<times> string option) list \<Rightarrow> bool" where
  "authorized_control l hs =
     (case authorization_token hs of
        None \<Rightarrow> False
      | Some t \<Rightarrow>
          (case el_authenticate l t of
             Inl _ \<Rightarrow> False
           | Inr c \<Rightarrow> ensure_caller c (el_allowed l) = Inr ()))"

definition bind_and_run :: "engine_listener \<Rightarrow> inbound_request \<Rightarrow> engine_service \<Rightarrow> engine_service" where
  "bind_and_run l q st =
     (case el_authenticate l (ir_token q) of
        Inl detail \<Rightarrow> emit_error (ir_session q) (ir_message q) (''invalid authorization: '' @ detail) st
      | Inr c \<Rightarrow>
          if ensure_caller c (el_allowed l) \<noteq> Inr ()
          then emit_error (ir_session q) (ir_message q) ''caller is not allowed'' st
          else (case handle_request (el_allowed l) c (el_mint l) q st of
                  (None, st') \<Rightarrow> st'
                | (Some why, st') \<Rightarrow> emit_error (ir_session q) (ir_message q) why st'))"

definition on_message ::
  "engine_listener \<Rightarrow> bytes \<Rightarrow> (string \<times> string option) list \<Rightarrow> engine_service \<Rightarrow> engine_service" where
  "on_message l raw hs st =
     (case el_peek l raw of
        None \<Rightarrow> st
      | Some (s, m) \<Rightarrow>
          (case el_decode l raw of
             Inl why \<Rightarrow> emit_error s m (''invalid request: '' @ why) st
           | Inr (AbortMessage s' m') \<Rightarrow> if authorized_control l hs then handle_abort s' m' st else st
           | Inr (AckResponseMessage s' m') \<Rightarrow>
               if authorized_control l hs then handle_ack_response s' m' st else st
           | Inr (RequestMessage q) \<Rightarrow> bind_and_run l q st))"

section \<open>The service as a transition system\<close>

inductive estep :: "engine_service \<Rightarrow> engine_service \<Rightarrow> bool" where
  message: "estep st (on_message l raw hs st)"
| acked: "estep st (ack_published t p st)"
| awaited: "estep st (ack_awaited t st)"
| timed_out: "estep st (ack_timed_out t st)"
| read: "estep st (delta_read t d st)"
| partial: "estep st (delta_published t p st)"
| raised: "estep st (stream_raised t ex why st)"
| ended: "estep st (stream_ended t st)"
| stopped: "estep st (pings_stopped t st)"
| finished: "estep st (finish_published t p st)"
| ping: "estep st (ping_sent t st)"
| cancel: "estep st (cancel_delivered t out st)"
| release: "estep st (released t reported st)"

end
