(* ===== verification/Engine_Service_Facts.thy ===== *)
theory Engine_Service_Facts
  imports Engine_Service
begin

text \<open>
  What the service of the engine guarantees over every interleaving: one run per session, which is the
  row of the session, and for every run the outputs acknowledgement, parts numbered from zero without a
  gap, end, with at most one error last.
\<close>

section \<open>Transcripts\<close>

definition not_ping :: "engine_output \<Rightarrow> bool" where
  "not_ping o' = (case o' of PingOutput _ \<Rightarrow> False | _ \<Rightarrow> True)"

definition outs :: "engine_service \<Rightarrow> nat \<Rightarrow> engine_output list" where
  "outs st t = filter not_ping (map snd (filter (\<lambda>x. fst x = t) (outputs st)))"

definition partials :: "nat \<Rightarrow> nat \<Rightarrow> stream_delta list \<Rightarrow> engine_output list" where
  "partials s m ds = map (\<lambda>(i, d). PartialOutput (partial_of s m (int i) d)) (enumerate 0 ds)"

text \<open>What a run has published so far, the pings left out.\<close>

definition started_with :: "nat \<Rightarrow> nat \<Rightarrow> stream_delta list \<Rightarrow> engine_output list" where
  "started_with s m ds = AcknowledgeOutput s m # partials s m ds"

definition run_body :: "nat \<Rightarrow> nat \<Rightarrow> engine_output list \<Rightarrow> bool" where
  "run_body s m xs \<longleftrightarrow> xs = [] \<or> (\<exists>ds. xs = started_with s m ds
     \<or> ds \<noteq> [] \<and> xs = started_with s m ds @ [FinishOutput s (int (length ds) - 1) (Some m)])"

definition run_transcript :: "nat \<Rightarrow> nat \<Rightarrow> engine_output list \<Rightarrow> bool" where
  "run_transcript s m xs \<longleftrightarrow> run_body s m xs \<or> (\<exists>ys x. run_body s m ys \<and> xs = ys @ [ErrorOutput s m x])"

definition expects :: "engine_run \<Rightarrow> engine_output list \<Rightarrow> bool" where
  "expects r xs \<longleftrightarrow>
     (let s = of_session r; m = of_message r in
      case phase r of
        PAck \<Rightarrow> xs = []
      | PWait \<Rightarrow> xs = started_with s m []
      | PRead a k \<Rightarrow> (\<exists>ds. xs = started_with s m ds \<and> k = int (length ds))
      | PSend a k d \<Rightarrow> (\<exists>ds. xs = started_with s m ds \<and> k = int (length ds))
      | PStop n \<Rightarrow> (\<exists>ds. ds \<noteq> [] \<and> xs = started_with s m ds \<and> n = int (length ds) - 1)
      | PFinish n \<Rightarrow> (\<exists>ds. ds \<noteq> [] \<and> xs = started_with s m ds \<and> n = int (length ds) - 1)
      | PRelease why \<Rightarrow> run_body s m xs)"

lemma partials_snoc:
  "partials s m (ds @ [d]) = partials s m ds @ [PartialOutput (partial_of s m (int (length ds)) d)]"
  by (simp add: partials_def enumerate_append_eq)

lemma started_snoc:
  "started_with s m (ds @ [d]) = started_with s m ds @ [PartialOutput (partial_of s m (int (length ds)) d)]"
  by (simp add: started_with_def partials_snoc)

lemma expects_body: "expects r xs \<Longrightarrow> run_body (of_session r) (of_message r) xs"
  by (auto simp: expects_def run_body_def Let_def split: run_phase.splits)

text \<open>Leaving is always possible, and what was about to be published may have gone out.\<close>

lemma expects_pending:
  assumes "expects r xs" "pending_output r = Some o'"
  shows "run_body (of_session r) (of_message r) (xs @ [o'])"
  using assms
  by (auto simp: expects_def run_body_def pending_output_def Let_def started_snoc [symmetric]
      split: run_phase.splits) (auto simp: started_with_def partials_def intro: exI [of _ "[]"])

section \<open>The invariant\<close>

definition is_released :: "run_phase \<Rightarrow> bool" where
  "is_released p = (case p of PRelease why \<Rightarrow> True | _ \<Rightarrow> False)"

definition row_of :: "engine_run \<Rightarrow> nat \<times> nat" where
  "row_of r = (of_session r, of_message r)"

definition known :: "engine_service \<Rightarrow> nat \<Rightarrow> nat \<times> nat \<Rightarrow> bool" where
  "known st s x \<longleftrightarrow> (\<exists>r \<in> set (live st). of_session r = s \<and> x = (of_message r, tag r)
     \<and> \<not> is_released (phase r))"

definition einv :: "engine_service \<Rightarrow> bool" where
  "einv st \<longleftrightarrow> distinct (map tag (live st)) \<and> distinct (map of_session (live st))
     \<and> active_rows st = map row_of (live st)
     \<and> (\<forall>r \<in> set (live st). tag r < next_tag st \<and> expects r (outs st (tag r)))
     \<and> (\<forall>x \<in> set (outputs st). fst x < next_tag st)
     \<and> (\<forall>t. \<exists>s m. run_transcript s m (outs st t))
     \<and> (\<forall>s x. running st s = Some x \<longrightarrow> known st s x)
     \<and> (\<forall>s x. ack_waiters st s = Some x \<longrightarrow> known st s x)"

lemma einv_expects: "einv st \<Longrightarrow> r \<in> set (live st) \<Longrightarrow> tag r = t \<Longrightarrow> expects r (outs st t)"
  by (auto simp: einv_def)

lemma find_run_Some: "find_run st t = Some r \<Longrightarrow> r \<in> set (live st) \<and> tag r = t"
  by (auto simp: find_run_def find_Some_iff)

lemma update_live_eq:
  assumes "einv st" "r \<in> set (live st)"
  shows "live (update_live (tag r) f st) = map (\<lambda>x. if tag x = tag r then f r else x) (live st)"
proof -
  have "x = r" if "x \<in> set (live st)" "tag x = tag r" for x
    using assms that by (auto simp: einv_def distinct_map inj_on_def)
  then show ?thesis by (auto simp: update_live_def)
qed

lemma outs_append:
  "outputs st' = outputs st @ map (Pair t) new \<Longrightarrow>
     outs st' t' = outs st t' @ (if t' = t then filter not_ping new else [])"
  by (auto simp: outs_def filter_map comp_def)

text \<open>One run moves on.\<close>

lemma einv_change:
  assumes st: "einv st" "r \<in> set (live st)"
    and f: "tag (f r) = tag r" "of_session (f r) = of_session r" "of_message (f r) = of_message r"
      "expects (f r) (outs st (tag r) @ filter not_ping new)"
    and moved: "live st' = live (update_live (tag r) f st)"
    and same: "outputs st' = outputs st @ map (Pair (tag r)) new" "active_rows st' = active_rows st"
      "next_tag st' = next_tag st"
    and maps: "\<And>s x. running st' s = Some x \<Longrightarrow> running st s = Some x \<and> (s = of_session r \<longrightarrow> \<not> is_released (phase (f r)))"
      "\<And>s x. ack_waiters st' s = Some x \<Longrightarrow> ack_waiters st s = Some x \<and> (s = of_session r \<longrightarrow> \<not> is_released (phase (f r)))"
  shows "einv st'"
proof -
  define r' where "r' = f r"
  note r' = f [folded r'_def] and live = moved [unfolded update_live_eq [OF st], folded r'_def]
  have names: "map tag (live st') = map tag (live st)" "map of_session (live st') = map of_session (live st)"
    "map row_of (live st') = map row_of (live st)"
  proof -
    have "x = r" if "x \<in> set (live st)" "tag x = tag r" for x
      using st that by (auto simp: einv_def distinct_map inj_on_def)
    with r' live show "map tag (live st') = map tag (live st)" "map of_session (live st') = map of_session (live st)"
      "map row_of (live st') = map row_of (live st)"
      by (auto simp: row_of_def)
  qed
  have outs: "outs st' t = outs st t @ (if t = tag r then filter not_ping new else [])" for t
    by (rule outs_append [OF same(1)])
  have member: "x \<in> set (live st') \<longleftrightarrow> x = r' \<or> x \<in> set (live st) \<and> tag x \<noteq> tag r" for x
    using st(2) by (auto simp: live)
  have known: "known st' s x" if "known st s x" "s = of_session r \<longrightarrow> \<not> is_released (phase r')" for s x
  proof -
    from that(1) obtain q where q: "q \<in> set (live st)" "of_session q = s" "x = (of_message q, tag q)"
      "\<not> is_released (phase q)" by (auto simp: known_def)
    show ?thesis
    proof (cases "tag q = tag r")
      case True
      then have "q = r" using st q(1) by (auto simp: einv_def distinct_map inj_on_def)
      with q that(2) r' show ?thesis unfolding known_def by (intro bexI [of _ r']) (auto simp: member)
    next
      case False
      with q show ?thesis unfolding known_def by (intro bexI [of _ q]) (auto simp: member)
    qed
  qed
  have "run_transcript (of_session r) (of_message r) (outs st' (tag r))"
    using expects_body [OF r'(4)] r'(2,3) by (simp add: outs run_transcript_def)
  then have trans: "\<exists>s m. run_transcript s m (outs st' t)" for t
    using st(1) by (cases "t = tag r") (auto simp: outs einv_def)
  have bound: "fst x < next_tag st'" if "x \<in> set (outputs st')" for x
    using that st by (auto simp: same einv_def)
  have each: "tag x < next_tag st' \<and> expects x (outs st' (tag x))" if "x \<in> set (live st')" for x
    using that st r' by (auto simp: member outs same einv_def)
  show ?thesis
    unfolding einv_def
    using names same st(1) trans bound each maps [folded r'_def] known by (auto simp: einv_def)
qed

section \<open>The steps keep it\<close>

lemma live_simps [simp]:
  "live (update_live t f st) = map (\<lambda>r. if tag r = t then f r else r) (live st)"
  "outputs (update_live t f st) = outputs st" "active_rows (update_live t f st) = active_rows st"
  "next_tag (update_live t f st) = next_tag st" "running (update_live t f st) = running st"
  "ack_waiters (update_live t f st) = ack_waiters st"
  "live (publish t o' st) = live st" "outputs (publish t o' st) = outputs st @ [(t, o')]"
  "active_rows (publish t o' st) = active_rows st" "next_tag (publish t o' st) = next_tag st"
  "running (publish t o' st) = running st" "ack_waiters (publish t o' st) = ack_waiters st"
  by (simp_all add: update_live_def publish_def)

lemma einv_go:
  assumes "einv st" "r \<in> set (live st)" "expects (r\<lparr>phase := p\<rparr>) (outs st (tag r))" "\<not> is_released p"
    and "ws = ack_waiters st \<or> ws = (ack_waiters st)(of_session r := None)"
  shows "einv (go r p (st\<lparr>ack_waiters := ws\<rparr>))"
  by (rule einv_change [OF assms(1,2), where f = "\<lambda>r. r\<lparr>phase := p\<rparr>" and new = "[]"])
     (use assms in \<open>auto simp: go_def split: if_splits\<close>)

lemma einv_leave:
  assumes "einv st" "r \<in> set (live st)" "run_body (of_session r) (of_message r) (outs st (tag r) @ filter not_ping new)"
    and "outputs st' = outputs st @ map (Pair (tag r)) new" "live st' = live st" "active_rows st' = active_rows st"
      "next_tag st' = next_tag st" "running st' = running st" "ack_waiters st' = ack_waiters st"
  shows "einv (leave r why st')"
  by (rule einv_change [OF assms(1,2), where f = "\<lambda>r. r\<lparr>phase := PRelease why, cancelled := False\<rparr>" and new = new])
     (use assms in \<open>auto simp: leave_def expects_def split: if_splits\<close>)

lemma known_going:
  assumes "einv st" "r \<in> set (live st)" "running st (of_session r) = Some x \<or> ack_waiters st (of_session r) = Some x"
  shows "\<not> is_released (phase r)"
proof -
  from assms obtain q where "q \<in> set (live st)" "of_session q = of_session r" "\<not> is_released (phase q)"
    unfolding einv_def known_def by blast
  moreover have "q = r" using assms(1,2) calculation by (auto simp: einv_def distinct_map inj_on_def)
  ultimately show ?thesis by simp
qed

lemma einv_flag:
  assumes "einv st" "\<And>r. tag (f r) = tag r \<and> of_session (f r) = of_session r \<and> of_message (f r) = of_message r
     \<and> phase (f r) = phase r"
  shows "einv (update_live t f (st\<lparr>aborted := a\<rparr>))"
proof (cases "\<exists>r \<in> set (live st). tag r = t")
  case True
  then obtain r where r: "r \<in> set (live st)" "t = tag r" by blast
  then have e: "expects r (outs st (tag r))" using assms(1) by (simp add: einv_def)
  show ?thesis
    by (rule einv_change [OF assms(1) r(1), where f = f and new = "[]"])
       (use assms e r known_going [OF assms(1) r(1)] in \<open>auto simp: expects_def Let_def\<close>)
next
  case False
  then have "live (update_live t f st) = live st" by (auto intro: map_idI)
  then have "update_live t f (st\<lparr>aborted := a\<rparr>) = st\<lparr>aborted := a\<rparr>" by (simp add: update_live_def)
  with assms(1) show ?thesis by (simp add: einv_def known_def outs_def)
qed

lemma einv_published:
  assumes "einv st" "r \<in> set (live st)" "pending_output r = Some o'" "not_ping o'"
    and after: "\<And>st'. outputs st' = outputs st @ [(tag r, o')] \<Longrightarrow> live st' = live st \<Longrightarrow> active_rows st' = active_rows st
      \<Longrightarrow> next_tag st' = next_tag st \<Longrightarrow> running st' = running st \<Longrightarrow> ack_waiters st' = ack_waiters st
      \<Longrightarrow> einv (after st')"
  shows "einv (published r p o' after st)"
proof (cases p)
  case (Inr u)
  then show ?thesis by (auto simp: published_def sent_def intro: after)
next
  case (Inl e)
  then obtain out why where p: "p = Inl (out, why)" by (cases e) auto
  have e: "expects r (outs st (tag r))" using assms(1,2) by (simp add: einv_def)
  show ?thesis
  proof (cases out)
    case True
    then show ?thesis
      using expects_pending [OF e assms(3)] assms(1,2,4)
      by (auto simp: published_def sent_def p intro!: einv_leave [where st = st and new = "[o']"])
  next
    case False
    then show ?thesis
      using expects_body [OF e] assms(1,2)
      by (auto simp: published_def sent_def p intro!: einv_leave [where st = st and new = "[]"])
  qed
qed

lemma einv_sent_go:
  assumes "einv st" "r \<in> set (live st)" "expects (r\<lparr>phase := p\<rparr>) (outs st (tag r) @ [o'])" "not_ping o'"
    "\<not> is_released p" "outputs st' = outputs st @ [(tag r, o')]" "live st' = live st" "active_rows st' = active_rows st"
    "next_tag st' = next_tag st" "running st' = running st" "ack_waiters st' = ack_waiters st"
  shows "einv (go r p st')"
  by (rule einv_change [OF assms(1,2), where f = "\<lambda>r. r\<lparr>phase := p\<rparr>" and new = "[o']"])
     (use assms in \<open>auto simp: go_def\<close>)

lemma on_run_einv:
  assumes "einv st" "\<And>r. r \<in> set (live st) \<Longrightarrow> \<not> cancelled r \<Longrightarrow> expects r (outs st (tag r)) \<Longrightarrow> tag r = t
     \<Longrightarrow> einv (f r st)"
  shows "einv (on_run t f st)"
  using assms(1) find_run_Some [of st t]
  by (auto simp: on_run_def split: option.split intro!: assms(2)) (auto simp: einv_def)

lemma go_frame: "go r p st = go r p (st\<lparr>ack_waiters := ack_waiters st\<rparr>)"
  by simp

lemma outs_not_pings [simp]:
  "not_ping (AcknowledgeOutput s m)" "not_ping (PartialOutput p)" "not_ping (FinishOutput s n m')"
  "not_ping (ErrorOutput s m x)" "\<not> not_ping (PingOutput s)"
  by (simp_all add: not_ping_def)

lemma ack_published_einv: "einv st \<Longrightarrow> einv (ack_published t p st)"
  unfolding ack_published_def
  by (rule on_run_einv, assumption)
     (auto simp: pending_output_def expects_def started_with_def partials_def is_released_def
       intro!: einv_published einv_sent_go)

lemma ack_awaited_einv: "einv st \<Longrightarrow> einv (ack_awaited t st)"
  unfolding ack_awaited_def
  by (rule on_run_einv, assumption) (auto simp: expects_def is_released_def intro!: einv_go)

lemma leave_einv: "einv st \<Longrightarrow> r \<in> set (live st) \<Longrightarrow> einv (leave r why st)"
  by (rule einv_leave [where st = st and new = "[]"]) (auto simp: einv_def intro: expects_body)

lemma ack_timed_out_einv: "einv st \<Longrightarrow> einv (ack_timed_out t st)"
  unfolding ack_timed_out_def by (rule on_run_einv, assumption) (auto intro: leave_einv)

lemma go_einv:
  assumes "einv st" "r \<in> set (live st)" "expects (r\<lparr>phase := p\<rparr>) (outs st (tag r))" "\<not> is_released p"
  shows "einv (go r p st)"
  using einv_go [OF assms, of "ack_waiters st"] by simp

lemma delta_read_einv: "einv st \<Longrightarrow> einv (delta_read t d st)"
  unfolding delta_read_def
  by (rule on_run_einv, assumption)
     (auto simp: expects_def is_released_def intro!: go_einv split: run_phase.split)

lemma delta_published_einv: "einv st \<Longrightarrow> einv (delta_published t p st)"
  unfolding delta_published_def
proof (rule on_run_einv, assumption, goal_cases)
  case (1 r)
  show ?case
  proof (cases "phase r")
    case (PSend a k d)
    with 1(4) obtain ds where ds: "outs st (tag r) = started_with (of_session r) (of_message r) ds" "k = int (length ds)"
      by (auto simp: expects_def)
    have "started_with (of_session r) (of_message r) (ds @ [d])
        = outs st (tag r) @ [PartialOutput (partial_of (of_session r) (of_message r) k d)]"
      by (simp add: started_snoc ds)
    then have "expects (r\<lparr>phase := PRead a (k + 1)\<rparr>)
        (outs st (tag r) @ [PartialOutput (partial_of (of_session r) (of_message r) k d)])"
      unfolding expects_def by (auto simp: ds(2) intro!: exI [of _ "ds @ [d]"])
    with 1 PSend show ?thesis
      by (auto simp: pending_output_def is_released_def intro!: einv_published einv_sent_go)
  qed (use 1 in auto)
qed

lemma stream_raised_einv: "einv st \<Longrightarrow> einv (stream_raised t ex why st)"
  unfolding stream_raised_def
  by (rule on_run_einv, assumption)
     (auto simp: expects_def is_released_def intro!: go_einv leave_einv split: run_phase.split)

lemma stream_ended_einv: "einv st \<Longrightarrow> einv (stream_ended t st)"
  unfolding stream_ended_def
proof (rule on_run_einv, assumption, goal_cases)
  case (1 r)
  show ?case
  proof (cases "phase r")
    case (PRead a k)
    with 1(4) obtain ds where "outs st (tag r) = started_with (of_session r) (of_message r) ds" "k = int (length ds)"
      by (auto simp: expects_def)
    then have "k \<noteq> 0 \<Longrightarrow> expects (r\<lparr>phase := PStop (k - 1)\<rparr>) (outs st (tag r))"
      unfolding expects_def by (auto intro!: exI [of _ ds])
    with 1 PRead show ?thesis by (auto simp: is_released_def intro!: go_einv leave_einv)
  qed (use 1 in auto)
qed

lemma pings_stopped_einv: "einv st \<Longrightarrow> einv (pings_stopped t st)"
  unfolding pings_stopped_def
  by (rule on_run_einv, assumption)
     (auto simp: expects_def is_released_def intro!: go_einv split: run_phase.split)

lemma finish_published_einv: "einv st \<Longrightarrow> einv (finish_published t p st)"
  unfolding finish_published_def
proof (rule on_run_einv, assumption, goal_cases)
  case (1 r)
  show ?case
  proof (cases "phase r")
    case (PFinish n)
    let ?o = "FinishOutput (of_session r) n (Some (of_message r))"
    have p: "pending_output r = Some ?o" using PFinish by (simp add: pending_output_def)
    have "einv (leave r None st')"
      if "outputs st' = outputs st @ [(tag r, ?o)]" "live st' = live st" "active_rows st' = active_rows st"
        "next_tag st' = next_tag st" "running st' = running st" "ack_waiters st' = ack_waiters st" for st'
      by (rule einv_leave [where st = st and new = "[?o]"])
         (use 1 that expects_pending [OF 1(4) p] in auto)
    with 1 PFinish p show ?thesis by (auto intro!: einv_published)
  qed (use 1 in auto)
qed

lemma ping_sent_einv: "einv st \<Longrightarrow> einv (ping_sent t st)"
  unfolding ping_sent_def
proof (rule on_run_einv, assumption, goal_cases)
  case (1 r)
  have "einv (publish t (PingOutput (of_session r)) st)"
    by (rule einv_change [OF 1(1,2), where f = "\<lambda>r. r" and new = "[PingOutput (of_session r)]"])
       (use 1 known_going [OF 1(1,2)] in \<open>auto simp: update_live_def\<close>)
  with 1 show ?case by simp
qed

lemma cancel_delivered_einv:
  assumes "einv st"
  shows "einv (cancel_delivered t out st)"
proof (cases "find_run st t")
  case (Some r)
  note r = find_run_Some [OF Some]
  have e: "expects r (outs st (tag r))" using einv_expects [OF assms] r by blast
  have left: "einv (leave r None st')" if "st' = (case pending_output r of
      Some o' \<Rightarrow> if out then publish t o' st else st | None \<Rightarrow> st)" for st'
  proof (cases "pending_output r")
    case None
    then show ?thesis using that leave_einv [OF assms] r by simp
  next
    case (Some o')
    then have "not_ping o'" by (auto simp: pending_output_def split: run_phase.splits)
    then show ?thesis
      using that Some expects_pending [OF e Some] assms r leave_einv [OF assms, of r]
      by (auto intro!: einv_leave [where st = st and new = "[o']"])
  qed
  have stop: "einv (update_live t (\<lambda>r. r\<lparr>phase := PFinish n, cancelled := False\<rparr>) st)" if "phase r = PStop n" for n
    by (rule einv_change [OF assms, of r, where f = "\<lambda>r. r\<lparr>phase := PFinish n, cancelled := False\<rparr>" and new = "[]"])
       (use r e that in \<open>auto simp: expects_def is_released_def\<close>)
  show ?thesis
    using left stop assms by (auto simp: cancel_delivered_def Some split: run_phase.split)
qed (simp add: cancel_delivered_def assms)

lemma released_einv:
  assumes "einv st"
  shows "einv (released t reported st)"
proof (cases "find_run st t")
  case (Some r)
  note r = find_run_Some [OF Some]
  show ?thesis
  proof (cases "phase r")
    case (PRelease why)
    define st1 where "st1 = (release (of_session r) st)\<lparr>live := filter (\<lambda>r. tag r \<noteq> t) (live st)\<rparr>"
    have uniq: "x = r" if "x \<in> set (live st)" "of_session x = of_session r \<or> tag x = tag r" for x
      using assms r that by (auto simp: einv_def distinct_map inj_on_def)
    have fields: "outputs st1 = outputs st" "next_tag st1 = next_tag st" "running st1 = running st"
      "ack_waiters st1 = ack_waiters st" "live st1 = filter (\<lambda>r. tag r \<noteq> t) (live st)"
      by (simp_all add: st1_def release_def)
    have "filter (\<lambda>x. of_session x \<noteq> of_session r) (live st) = filter (\<lambda>x. tag x \<noteq> t) (live st)"
      by (rule filter_cong) (use uniq r in auto)
    then have rows: "active_rows st1 = map row_of (live st1)"
      using assms by (auto simp: st1_def release_def einv_def filter_map comp_def row_of_def case_prod_beta)
    have known: "known st1 s x" if "known st s x" for s x
    proof -
      from that obtain q where q: "q \<in> set (live st)" "of_session q = s" "x = (of_message q, tag q)"
        "\<not> is_released (phase q)" by (auto simp: known_def)
      with PRelease r have "tag q \<noteq> t" using uniq [of q] by (auto simp: is_released_def)
      with q show ?thesis unfolding known_def by (intro bexI [of _ q]) (auto simp: fields)
    qed
    have st1: "einv st1"
      using assms rows known unfolding einv_def
      by (auto simp: fields outs_def distinct_map intro: inj_on_subset)
    have "run_body (of_session r) (of_message r) (outs st t)"
      using einv_expects [OF assms, of r t] r PRelease by (auto simp: expects_def)
    then have "run_transcript (of_session r) (of_message r) (outs st1 t @ [ErrorOutput (of_session r) (of_message r) x])" for x
      by (auto simp: run_transcript_def outs_def fields)
    moreover have "outs (publish t o' st1) t' = outs st1 t' @ (if t' = t then filter not_ping [o'] else [])" for o' t'
      by (rule outs_append) simp
    moreover have "t < next_tag st" using assms r by (auto simp: einv_def)
    ultimately have "einv (publish t (ErrorOutput (of_session r) (of_message r) x) st1)" for x
      using st1 unfolding einv_def
      by (auto simp: fields known_def)
    with st1 show ?thesis by (auto simp: released_def Some PRelease st1_def [symmetric] split: option.split)
  qed (auto simp: released_def Some assms)
qed (simp add: released_def assms)

text \<open>A request that is taken.\<close>

lemma emit_error_einv:
  assumes "einv st"
  shows "einv (emit_error s m x st)"
proof -
  have "outs st (next_tag st) = []"
    using assms by (auto simp: einv_def outs_def filter_empty_conv)
  moreover have "outs (emit_error s m x st) t = outs st t @ (if t = next_tag st then filter not_ping [ErrorOutput s m x] else [])" for t
    by (rule outs_append) (simp add: emit_error_def)
  moreover have "run_transcript s m [ErrorOutput s m x]"
    unfolding run_transcript_def run_body_def by (intro disjI2 exI [of _ "[]"] exI [of _ x]) simp
  moreover have "\<exists>s m. run_transcript s m (outs st t)" for t
    using assms by (simp add: einv_def)
  ultimately have "\<exists>s m. run_transcript s m (outs (emit_error s' m' x st) t)"
    if "s' = s" "m' = m" for t s' m'
    using that by (cases "t = next_tag st") auto
  moreover have "outs (emit_error s m x st) (tag r) = outs st (tag r)" if "r \<in> set (live st)" for r
    using that assms by (auto simp: emit_error_def outs_def einv_def)
  ultimately show ?thesis
    using assms unfolding einv_def by (auto simp: emit_error_def known_def less_Suc_eq)
qed

text \<open>The session is claimed and the run is on the list.\<close>

definition taken :: "inbound_request \<Rightarrow> engine_service \<Rightarrow> engine_service" where
  "taken q st = st\<lparr>active_rows := active_rows st @ [(ir_session q, ir_message q)],
     running := (running st)(ir_session q \<mapsto> (ir_message q, next_tag st)),
     live := live st @ [\<lparr>tag = next_tag st, of_session = ir_session q, of_message = ir_message q,
       phase = PAck, acked = False, cancelled = False\<rparr>], next_tag := Suc (next_tag st)\<rparr>"

lemma taken_einv:
  assumes "einv st" "map_of (active_rows st) (ir_session q) = None"
    and "ws = ack_waiters st \<or> ws = (ack_waiters st)(ir_session q \<mapsto> (ir_message q, next_tag st))"
  shows "einv ((taken q st)\<lparr>ack_waiters := ws\<rparr>)"
proof -
  have none: "outs st (next_tag st) = []"
    using assms(1) by (auto simp: einv_def outs_def filter_empty_conv)
  have fresh: "ir_session q \<notin> of_session ` set (live st)"
    using assms(1,2) by (auto simp: einv_def map_of_eq_None_iff row_of_def image_comp comp_def)
  let ?st = "(taken q st)\<lparr>ack_waiters := ws\<rparr>"
  have outs: "outs ?st t = outs st t" for t by (simp add: taken_def outs_def)
  have old: "known ?st s x" if "known st s x" for s x
    using that by (auto simp: taken_def known_def)
  have new: "known ?st (ir_session q) (ir_message q, next_tag st)"
    by (auto simp: taken_def known_def is_released_def)
  have maps: "known ?st s x" if "running ?st s = Some x \<or> ack_waiters ?st s = Some x" for s x
  proof -
    have "s = ir_session q \<and> x = (ir_message q, next_tag st) \<or> running st s = Some x \<or> ack_waiters st s = Some x"
      using that assms(3) by (auto simp: taken_def split: if_splits)
    moreover have "running st s = Some x \<or> ack_waiters st s = Some x \<Longrightarrow> known st s x"
      using assms(1) unfolding einv_def by blast
    ultimately show ?thesis using old new by blast
  qed
  have names: "distinct (map tag (live ?st))" "distinct (map of_session (live ?st))"
    "active_rows ?st = map row_of (live ?st)"
    using assms(1) fresh by (auto simp: taken_def einv_def row_of_def)
  have each: "tag r < next_tag ?st \<and> expects r (outs ?st (tag r))" if "r \<in> set (live ?st)" for r
  proof -
    have "r \<in> set (live st) \<or> tag r = next_tag st \<and> phase r = PAck" "next_tag ?st = Suc (next_tag st)"
      using that by (auto simp: taken_def)
    then show ?thesis
      using assms(1) none unfolding outs einv_def by (auto simp: expects_def [of r "[]"] less_Suc_eq)
  qed
  have bound: "fst x < next_tag ?st" if "x \<in> set (outputs ?st)" for x
    using that assms(1) by (auto simp: taken_def einv_def less_Suc_eq)
  have trans: "\<exists>s m. run_transcript s m (outs ?st t)" for t
    using assms(1) by (simp add: outs einv_def)
  show ?thesis
    unfolding einv_def using names each bound trans maps by blast
qed

lemma handle_request_einv:
  assumes "einv st"
  shows "einv (snd (handle_request allowed c minted q st))"
proof (cases "check_caller (Some c) allowed")
  case (Inr u)
  show ?thesis
  proof (cases "validate_request q = None \<and> map_of (active_rows st) (ir_session q) = None")
    case True
    let ?r = "\<lparr>tag = next_tag st, of_session = ir_session q, of_message = ir_message q, phase = PAck,
       acked = False, cancelled = False\<rparr>"
    have st2: "einv (taken q st)" "?r \<in> set (live (taken q st))"
      using taken_einv [OF assms, of q "ack_waiters st"] True by (auto simp: taken_def)
    have "einv ((taken q st)\<lparr>ack_waiters := (ack_waiters st)(ir_session q \<mapsto> (ir_message q, next_tag st))\<rparr>)"
      using taken_einv [OF assms] True by blast
    with leave_einv [OF st2] True Inr show ?thesis
      by (auto simp: handle_request_def claim_def Let_def taken_def split: sum.split)
  qed (use assms Inr in \<open>auto simp: handle_request_def claim_def split: option.split\<close>)
qed (simp add: handle_request_def assms)

lemma on_message_einv:
  assumes "einv st"
  shows "einv (on_message l raw hs st)"
proof -
  have flag: "einv (update_live t f st)" if "\<And>r. tag (f r) = tag r \<and> of_session (f r) = of_session r
      \<and> of_message (f r) = of_message r \<and> phase (f r) = phase r" for t f
    using einv_flag [OF assms, of f t "aborted st"] that by simp
  have "einv (bind_and_run l q st)" for q
    using handle_request_einv [OF assms, of "el_allowed l" _ "el_mint l" q]
    by (auto simp: bind_and_run_def emit_error_einv assms split: sum.split prod.split option.split)
       (metis emit_error_einv snd_conv)+
  moreover have "einv (handle_ack_response s m st)" for s m
    by (auto simp: handle_ack_response_def assms intro!: flag split: option.split prod.split)
  moreover have "einv (handle_abort s m st)" for s m
    by (auto simp: handle_abort_def assms intro!: einv_flag split: option.split prod.split)
  ultimately show ?thesis
    by (auto simp: on_message_def assms emit_error_einv split: option.split prod.split sum.split engine_inbound.split)
qed

lemma estep_einv: "estep st st' \<Longrightarrow> einv st \<Longrightarrow> einv st'"
  by (induction rule: estep.induct)
     (auto intro: on_message_einv ack_published_einv ack_awaited_einv ack_timed_out_einv delta_read_einv
       delta_published_einv stream_raised_einv stream_ended_einv pings_stopped_einv finish_published_einv
       ping_sent_einv cancel_delivered_einv released_einv)

lemma new_service_einv: "einv new_service"
  by (auto simp: einv_def new_service_def outs_def run_transcript_def run_body_def)

interpretation engine: invariant_system "\<lambda>st. st = new_service" "\<lambda>st (_ :: unit) st'. estep st st'" einv
  by unfold_locales (auto intro: new_service_einv estep_einv)

abbreviation engine_reachable :: "engine_service \<Rightarrow> bool" where
  "engine_reachable st \<equiv> reachable (\<lambda>st. st = new_service) (\<lambda>st (_ :: unit) st'. estep st st') st"

section \<open>A run\<close>

definition open_listener :: engine_listener where
  "open_listener =
     \<lparr>el_peek = (\<lambda>_. Some (1, 2)),
      el_decode = (\<lambda>raw. if raw = ''r'' then Inr (RequestMessage
         \<lparr>ir_session = 1, ir_message = 2, ir_input = ''q'', ir_model_name = ''m'', ir_url = ''u'',
          ir_model_token = ''t'', ir_token = ''x''\<rparr>)
         else if raw = ''k'' then Inr (AckResponseMessage 1 2) else Inr (AbortMessage 1 2)),
      el_authenticate = (\<lambda>_. Inr \<lparr>subject = ''s'', sc_name = [], roles = {}, email = None,
         authorized_party = Some ''ads''\<rparr>),
      el_allowed = [''ads''], el_mint = Inr (Some ''tok'')\<rparr>"

definition control_headers :: "(string \<times> string option) list" where
  "control_headers = [(''Authorization'', Some ''x'')]"

text \<open>One part, and the end of the stream.\<close>

definition streamed_service :: engine_service where
  "streamed_service =
     stream_ended 0 (delta_published 0 (Inr ()) (delta_read 0 (text_delta KMessage ''a'')
       (ack_awaited 0 (on_message open_listener ''k'' control_headers (ack_published 0 (Inr ())
         (on_message open_listener ''r'' [] new_service))))))"

definition served :: engine_service where
  "served = finish_published 0 (Inr ()) (pings_stopped 0 streamed_service)"

lemma engine_step: "engine_reachable st \<Longrightarrow> estep st st' \<Longrightarrow> engine_reachable st'"
  by (erule reachable_step)

lemma streamed_reachable: "engine_reachable streamed_service"
  unfolding streamed_service_def
  by (intro engine_step [OF _ estep.ended] engine_step [OF _ estep.partial] engine_step [OF _ estep.read]
      engine_step [OF _ estep.awaited] engine_step [OF _ estep.acked] engine_step [OF _ estep.message]
      reachable_start refl)

lemma served_reachable: "engine_reachable served"
  unfolding served_def
  by (intro engine_step [OF _ estep.finished] engine_step [OF _ estep.stopped] streamed_reachable)

lemma served_outputs: "outs served 0 = started_with 1 2 [text_delta KMessage ''a''] @ [FinishOutput 1 0 (Some 2)]"
  by code_simp

section \<open>An abort that is lost\<close>

text \<open>
  An abort that arrives while a run waits for its pings to stop is accepted, but \<open>_cancel\<close> takes the
  cancellation for that of the ping task, and the run publishes its end all the same.
\<close>

lemma abort_lost_while_pings_stop:
  "outs (finish_published 0 (Inr ()) (cancel_delivered 0 False
      (on_message open_listener ''a'' control_headers streamed_service))) 0
     = started_with 1 2 [text_delta KMessage ''a''] @ [FinishOutput 1 0 (Some 2)]"
  "aborted (on_message open_listener ''a'' control_headers streamed_service) = {1}"
  by code_simp+

section \<open>Properties\<close>

text \<open>C26: Under every interleaving of requests, acknowledgements, aborts, pings, publication failures and
  retries, what the engine publishes for one run is: nothing, or its acknowledgement, then parts numbered
  0, 1, 2 and so on without a gap, then at most its end with the number of the last part; and at most one
  error, last. A part follows only after the acknowledgement.\<close>

theorem engine_outputs_ordered:
  assumes "engine_reachable st"
  shows "\<exists>s m. run_transcript s m (outs st t)"
  using engine.reachable_inv [OF assms] by (simp add: einv_def)

theorem engine_outputs_ordered_witness:
  "\<exists>s m. run_transcript s m (outs served 0)"
  using engine_outputs_ordered [OF served_reachable] .

text \<open>C27: A session has at most one run at a time, the rows of active sessions are exactly the runs that are
  not over, a second request for the session is refused and leaves the run alone, and an abort cancels at
  most the run with its session and its message.\<close>

theorem one_run_per_session:
  assumes "engine_reachable st" "r \<in> set (live st)"
  shows "distinct (map of_session (live st)) \<and> active_rows st = map row_of (live st)
    \<and> (ir_session q = of_session r \<longrightarrow> (\<exists>why. handle_request allowed c minted q st = (Some why, st)))
    \<and> (\<forall>r' \<in> set (live (handle_abort s m st)).
          cancelled r' \<longrightarrow> r' \<in> set (live st) \<or> of_session r' = s \<and> of_message r' = m)"
proof -
  note inv = engine.reachable_inv [OF assms(1)]
  then have rows: "distinct (map of_session (live st))" "active_rows st = map row_of (live st)"
    by (auto simp: einv_def)
  have "map_of (active_rows st) (of_session r) \<noteq> None"
    using assms(2) by (auto simp: rows(2) map_of_eq_None_iff row_of_def image_comp comp_def)
  then have refused: "ir_session q = of_session r \<longrightarrow> (\<exists>why. handle_request allowed c minted q st = (Some why, st))"
    by (auto simp: handle_request_def claim_def split: sum.split option.split)
  have "of_session r' = s \<and> of_message r' = m"
    if r': "r' \<in> set (live (handle_abort s m st))" "r' \<notin> set (live st)" for r'
  proof -
    from r' obtain t where t: "running st s = Some (m, t)"
      "live (handle_abort s m st) = map (\<lambda>r. if tag r = t then r\<lparr>cancelled := True\<rparr> else r) (live st)"
      by (auto simp: handle_abort_def split: option.splits if_splits)
    with inv have "known st s (m, t)" by (auto simp: einv_def)
    then obtain x where x: "x \<in> set (live st)" "of_session x = s" "of_message x = m" "tag x = t"
      by (auto simp: known_def)
    from r' t obtain y where y: "y \<in> set (live st)" "tag y = t" "r' = y\<lparr>cancelled := True\<rparr>"
      by (auto split: if_splits)
    have "y = x" using inv x y by (auto simp: einv_def distinct_map inj_on_def)
    with x y show ?thesis by simp
  qed
  with rows refused show ?thesis by blast
qed

theorem one_run_per_session_witness:
  "active_rows streamed_service = map row_of (live streamed_service) \<and> live streamed_service \<noteq> []"
proof -
  have "live streamed_service \<noteq> []" by code_simp
  then obtain r where "r \<in> set (live streamed_service)" by (cases "live streamed_service") auto
  from one_run_per_session [OF streamed_reachable this] \<open>live streamed_service \<noteq> []\<close> show ?thesis by blast
qed

end
