(* ===== verification/Thread_Facts.thy ===== *)
theory Thread_Facts
  imports Thread_Api
begin

text \<open>
  What the threads guarantee: the entries of a session are one properly linked list, a run in
  flight owns its tail, its committed entries are its deltas in order, and a broken run leaves
  the thread as it was.
\<close>

section \<open>Linked lists\<close>

definition tail_id :: "entry list \<Rightarrow> nat option" where
  "tail_id es = (if es = [] then None else Some (e_id (last es)))"

definition head_id :: "entry list \<Rightarrow> nat option" where
  "head_id es = (case es of [] \<Rightarrow> None | e # _ \<Rightarrow> Some (e_id e))"

fun linked_from :: "nat option \<Rightarrow> entry list \<Rightarrow> bool" where
  "linked_from p [] = True"
| "linked_from p (e # es) = (e_prev e = p \<and> e_next e = head_id es \<and> linked_from (Some (e_id e)) es)"

definition set_next :: "nat option \<Rightarrow> nat option \<Rightarrow> entry list \<Rightarrow> entry list" where
  "set_next i n es = map (\<lambda>e. if i = Some (e_id e) then e\<lparr>e_next := n\<rparr> else e) es"

lemma tail_id_simps [simp]: "tail_id [] = None" "tail_id (es @ [e]) = Some (e_id e)"
  by (simp_all add: tail_id_def)

lemma head_id_simps [simp]: "head_id [] = None" "head_id (e # es) = Some (e_id e)"
  by (simp_all add: head_id_def)

lemma set_next_simps [simp]:
  "set_next i n [] = []" "set_next None n es = es" "map e_id (set_next i n es) = map e_id es"
  "set_next i n (es @ fs) = set_next i n es @ set_next i n fs"
  "set_next i n (e # es) = (if i = Some (e_id e) then e\<lparr>e_next := n\<rparr> else e) # set_next i n es"
  by (simp_all add: set_next_def)

lemma set_next_Nil_iff [simp]: "set_next i n es = [] \<longleftrightarrow> es = []"
  by (simp add: set_next_def)

lemma set_next_other: "(\<And>e. e \<in> set es \<Longrightarrow> i \<noteq> Some (e_id e)) \<Longrightarrow> set_next i n es = es"
  by (induction es) auto

lemma head_set_next [simp]: "head_id (set_next i n es) = head_id es"
  by (cases es) auto

lemma tail_set_next [simp]: "tail_id (set_next i n es) = tail_id es"
  by (cases es rule: rev_cases) auto

lemma head_append: "head_id (es @ fs) = (if es = [] then head_id fs else head_id es)"
  by (cases es) auto

lemma tail_append: "tail_id (es @ fs) = (if fs = [] then tail_id es else tail_id fs)"
  by (simp add: tail_id_def)

lemma linked_append:
  "linked_from p (es @ e # fs) \<longleftrightarrow> linked_from p (set_next (tail_id es) None es)
     \<and> (es \<noteq> [] \<longrightarrow> e_next (last es) = Some (e_id e))
     \<and> e_prev e = (if es = [] then p else tail_id es) \<and> e_next e = head_id fs
     \<and> linked_from (Some (e_id e)) fs"
  if "distinct (map e_id es)"
  using that
proof (induction es arbitrary: p)
  case Nil
  then show ?case by auto
next
  case (Cons x xs)
  show ?case
  proof (cases xs)
    case Nil
    then show ?thesis by (auto simp: tail_id_def)
  next
    case (Cons y ys)
    with Cons.prems have "e_id x \<noteq> e_id (last xs)" by (auto simp: image_iff)
    with Cons.IH [of "Some (e_id x)"] Cons.prems Cons show ?thesis
      by (auto simp: tail_id_def head_append)
  qed
qed

lemma linked_clear_tail:
  "linked_from p es \<Longrightarrow> distinct (map e_id es) \<Longrightarrow> set_next (tail_id es) None es = es"
proof (cases es rule: rev_cases)
  case (snoc xs x)
  assume l: "linked_from p es" and d: "distinct (map e_id es)"
  from l d snoc have "e_next x = None" using linked_append [of xs p x "[]"] by simp
  moreover have "set_next (Some (e_id x)) None xs = xs"
    by (rule set_next_other) (use d snoc in force)
  ultimately show ?thesis by (simp add: snoc)
qed simp

lemma linked_snoc:
  assumes "linked_from p es" "distinct (map e_id es)"
    "e_prev x = (if es = [] then p else tail_id es)" "e_next x = None"
  shows "linked_from p (set_next (tail_id es) (Some (e_id x)) es @ [x])"
proof -
  have clear: "set_next (tail_id es) None (set_next (tail_id es) n es) = set_next (tail_id es) None es" for n
    by (simp add: set_next_def)
  have "es \<noteq> [] \<Longrightarrow> e_next (last (set_next (tail_id es) (Some (e_id x)) es)) = Some (e_id x)"
    by (cases es rule: rev_cases) simp_all
  with assms linked_clear_tail [OF assms(1,2)] show ?thesis
    by (subst linked_append) (auto simp: clear)
qed

text \<open>Changing what is neither an id nor a link.\<close>

lemma linked_map:
  "(\<And>e. e \<in> set es \<Longrightarrow> e_id (f e) = e_id e \<and> e_prev (f e) = e_prev e \<and> e_next (f e) = e_next e) \<Longrightarrow>
   linked_from p (map f es) = linked_from p es"
  by (induction es arbitrary: p) (auto simp: head_id_def split: list.splits)

text \<open>Walking back from the tail of a linked list reads it.\<close>

lemma find_key:
  "distinct (map k xs) \<Longrightarrow> find (\<lambda>x. k x = i) xs = Some x \<longleftrightarrow> x \<in> set xs \<and> k x = i"
  by (induction xs) force+

lemma find_distinct:
  "distinct (map e_id es) \<Longrightarrow> e \<in> set es \<Longrightarrow> find (\<lambda>r. e_id r = e_id e) es = Some e"
  by (simp add: find_key)

fun back_linked :: "nat option \<Rightarrow> entry list \<Rightarrow> bool" where
  "back_linked p [] = True"
| "back_linked p (e # es) = (e_prev e = p \<and> back_linked (Some (e_id e)) es)"

lemma linked_back: "linked_from p es \<Longrightarrow> back_linked p es"
  by (induction p es rule: linked_from.induct) auto

lemma back_linked_snoc:
  "back_linked p (es @ [x]) \<longleftrightarrow> back_linked p es \<and> e_prev x = (if es = [] then p else tail_id es)"
  by (induction es arbitrary: p) (auto simp: tail_id_def)

lemma walk_back_linked:
  "back_linked None es \<Longrightarrow> distinct (map e_id es) \<Longrightarrow> walk_back es (tail_id es) = rev es"
proof (induction es rule: rev_induct)
  case (snoc x xs)
  from snoc.prems have d: "distinct (map e_id xs)" "e_id x \<notin> e_id ` set xs" by simp_all
  have "find (\<lambda>r. e_id r = e_id x) (xs @ [x]) = Some x"
    using find_distinct [OF snoc.prems(2), of x] by simp
  moreover have "filter (\<lambda>r. e_id r \<noteq> e_id x) (xs @ [x]) = xs"
  proof -
    from d(2) have "\<forall>r \<in> set xs. e_id r \<noteq> e_id x" by (metis imageI)
    then show ?thesis by simp
  qed
  moreover have "e_prev x = tail_id xs" "back_linked None xs"
    using snoc.prems(1) by (auto simp: back_linked_snoc)
  ultimately show ?case using snoc.IH d(1) by simp
qed simp

section \<open>Table lemmas\<close>

lemma update_simps [simp]:
  "chats (update_entry i f d) = chats d" "runs (update_entry i f d) = runs d"
  "deltas (update_entry i f d) = deltas d" "projects (update_entry i f d) = projects d"
  "entries (update_run i g d) = entries d" "chats (update_run i g d) = chats d"
  "deltas (update_run i g d) = deltas d" "projects (update_run i g d) = projects d"
  "entries (update_chat i h d) = entries d" "runs (update_chat i h d) = runs d"
  "deltas (update_chat i h d) = deltas d" "projects (update_chat i h d) = projects d"
  "entries (forget_subject s d) = entries d" "runs (forget_subject s d) = runs d"
  "chats (forget_subject s d) = chats d" "deltas (forget_subject s d) = deltas d"
  "entries (remember_subject s t d) = entries d" "runs (remember_subject s t d) = runs d"
  "chats (remember_subject s t d) = chats d" "deltas (remember_subject s t d) = deltas d"
  by (simp_all add: update_entry_def update_run_def update_chat_def forget_subject_def
      remember_subject_def split: option.split)

lemma list_entries_update:
  "(\<And>e. e_session (f e) = e_session e) \<Longrightarrow>
   list_entries (update_entry i f d) s = map (\<lambda>e. if e_id e = i then f e else e) (list_entries d s)"
  unfolding list_entries_def update_entry_def by (induction "entries d") (auto simp: filter_map o_def)

lemma list_entries_cong [simp]:
  "list_entries (update_run i g d) = list_entries d" "list_entries (update_chat i h d) = list_entries d"
  "list_entries (forget_subject s d) = list_entries d" "list_entries (remember_subject s t d) = list_entries d"
  by (simp_all add: list_entries_def fun_eq_iff)

text \<open>Lookups in tables with distinct keys.\<close>

lemma get_chat_iff:
  "distinct (map s_id (chats d)) \<Longrightarrow> get_chat d s = Some c \<longleftrightarrow> c \<in> set (chats d) \<and> s_id c = s"
  by (simp add: get_chat_def find_key)

lemma get_entry_iff:
  "distinct (map e_id (entries d)) \<Longrightarrow> get_entry d i = Some e \<longleftrightarrow> e \<in> set (entries d) \<and> e_id e = i"
  by (simp add: get_entry_def find_key)

lemma get_run_iff:
  "distinct (map r_id (runs d)) \<Longrightarrow> get_run d i = Some r \<longleftrightarrow> r \<in> set (runs d) \<and> r_id r = i"
  by (simp add: get_run_def find_key)

lemma in_flight_forD:
  "in_flight_for_session d s = Some r \<Longrightarrow> r \<in> set (runs d) \<and> r_session r = s \<and> in_flight (r_status r)"
  by (auto simp: in_flight_for_session_def find_Some_iff)

lemma get_chat_update:
  "(\<And>c. s_id (f c) = s_id c) \<Longrightarrow>
   get_chat (update_chat i f d) s = map_option (\<lambda>c. if s_id c = i then f c else c) (get_chat d s)"
proof -
  assume f: "\<And>c. s_id (f c) = s_id c"
  have "find (\<lambda>r. s_id r = s) (map (\<lambda>r. if s_id r = i then f r else r) cs)
      = map_option (\<lambda>c. if s_id c = i then f c else c) (find (\<lambda>r. s_id r = s) cs)" for cs
    by (induction cs) (auto simp: f)
  then show ?thesis by (simp add: get_chat_def update_chat_def)
qed

lemma get_run_update:
  "(\<And>c. r_id (f c) = r_id c) \<Longrightarrow>
   get_run (update_run i f d) s = map_option (\<lambda>c. if r_id c = i then f c else c) (get_run d s)"
proof -
  assume f: "\<And>c. r_id (f c) = r_id c"
  have "find (\<lambda>r. r_id r = s) (map (\<lambda>r. if r_id r = i then f r else r) cs)
      = map_option (\<lambda>c. if r_id c = i then f c else c) (find (\<lambda>r. r_id r = s) cs)" for cs
    by (induction cs) (auto simp: f)
  then show ?thesis by (simp add: get_run_def update_run_def)
qed

section \<open>The invariant\<close>

abbreviation run_entries :: "nat \<Rightarrow> entry list \<Rightarrow> entry list" where
  "run_entries rid es \<equiv> filter (\<lambda>e. e_run e = Some rid) es"

text \<open>Keys are unique and references lead to rows; the run of an entry is one of its session.\<close>

definition run_key :: "run_row \<Rightarrow> nat \<times> nat" where
  "run_key r = (r_id r, r_session r)"

definition keys_ok :: "db \<Rightarrow> bool" where
  "keys_ok d \<longleftrightarrow> distinct (map e_id (entries d)) \<and> distinct (map s_id (chats d))
     \<and> distinct (map r_id (runs d))
     \<and> (\<forall>e \<in> set (entries d). e_session e \<in> s_id ` set (chats d))
     \<and> (\<forall>e \<in> set (entries d). \<forall>rid. e_run e = Some rid \<longrightarrow>
           (rid, e_session e) \<in> run_key ` set (runs d))
     \<and> r_session ` set (runs d) \<subseteq> s_id ` set (chats d)
     \<and> (\<forall>x \<in> set (deltas d). d_run x \<in> r_id ` set (runs d))
     \<and> distinct (map r_session (all_in_flight d))"

text \<open>The entries of a session are linked in order and \<open>latest\<close> is their tail.\<close>

definition chat_linked :: "db \<Rightarrow> chat \<Rightarrow> bool" where
  "chat_linked d c \<longleftrightarrow> linked_from None (list_entries d (s_id c)) \<and> s_latest c = tail_id (list_entries d (s_id c))"

text \<open>A run in flight owns the tail of its session: its user entry and its own entries.\<close>

definition owns_tail :: "db \<Rightarrow> run_row \<Rightarrow> bool" where
  "owns_tail d r \<longleftrightarrow> (\<exists>pre u mine. list_entries d (r_session r) = pre @ u # mine
     \<and> e_id u = r_user_entry r \<and> e_run u = None
     \<and> (\<forall>e \<in> set mine. e_run e = Some (r_id r)) \<and> (\<forall>e \<in> set pre. e_run e \<noteq> Some (r_id r)))"

text \<open>What an entry keeps as long as it stays: its id, kind and run.\<close>

definition tag :: "entry \<Rightarrow> nat \<times> string \<times> nat option" where
  "tag e = (e_id e, e_kind e, e_run e)"

text \<open>A candidate memory is a tombstone of its run; a committed one of a finished run.\<close>

definition candidate_ok :: "db \<Rightarrow> run_row \<Rightarrow> bool" where
  "candidate_ok d r \<longleftrightarrow> (\<forall>i. r_candidate r = Some i \<longrightarrow>
     (i, kind_tombstone, Some (r_id r)) \<in> tag ` set (list_entries d (r_session r)))"

definition committed_ok :: "db \<Rightarrow> chat \<Rightarrow> bool" where
  "committed_ok d c \<longleftrightarrow> (\<forall>i. s_committed c = Some i \<longrightarrow>
     (\<exists>r \<in> set (runs d). r_status r = Finished
        \<and> (i, kind_tombstone, Some (r_id r)) \<in> tag ` set (list_entries d (s_id c))))"

lemma committed_mono:
  assumes "committed_ok d c" "s_id c' = s_id c" "s_committed c' = s_committed c"
    "\<And>r. r \<in> set (runs d) \<Longrightarrow> r_status r = Finished \<Longrightarrow>
       \<exists>r' \<in> set (runs d'). r_id r' = r_id r \<and> r_status r' = Finished"
    "\<And>i k rid r. r \<in> set (runs d) \<Longrightarrow> r_id r = rid \<Longrightarrow> r_status r = Finished \<Longrightarrow>
       (i, k, Some rid) \<in> tag ` set (list_entries d (s_id c)) \<Longrightarrow>
       (i, k, Some rid) \<in> tag ` set (list_entries d' (s_id c))"
  shows "committed_ok d' c'"
  unfolding committed_ok_def
proof (intro allI impI)
  fix i
  assume "s_committed c' = Some i"
  then have "s_committed c = Some i" by (simp add: assms(3))
  with assms(1) obtain r where r: "r \<in> set (runs d)" "r_status r = Finished"
    "(i, kind_tombstone, Some (r_id r)) \<in> tag ` set (list_entries d (s_id c))"
    unfolding committed_ok_def by blast
  with assms(4) obtain r' where "r' \<in> set (runs d')" "r_id r' = r_id r" "r_status r' = Finished"
    by blast
  with assms(2) assms(5) [OF r(1) refl r(2,3)] show "\<exists>r \<in> set (runs d'). r_status r = Finished
      \<and> (i, kind_tombstone, Some (r_id r)) \<in> tag ` set (list_entries d' (s_id c'))"
    by metis
qed

definition threads_ok :: "db \<Rightarrow> bool" where
  "threads_ok d \<longleftrightarrow> keys_ok d \<and> (\<forall>c \<in> set (chats d). chat_linked d c \<and> committed_ok d c)
     \<and> (\<forall>r \<in> set (runs d). candidate_ok d r \<and> (in_flight (r_status r) \<longrightarrow> owns_tail d r))"

lemma threads_okD:
  assumes "threads_ok d"
  shows "keys_ok d" "c \<in> set (chats d) \<Longrightarrow> chat_linked d c" "c \<in> set (chats d) \<Longrightarrow> committed_ok d c"
    "r \<in> set (runs d) \<Longrightarrow> candidate_ok d r"
    "r \<in> set (runs d) \<Longrightarrow> in_flight (r_status r) \<Longrightarrow> owns_tail d r"
  using assms by (auto simp: threads_ok_def)

lemma distinct_thread: "keys_ok d \<Longrightarrow> distinct (map e_id (list_entries d s))"
  unfolding keys_ok_def list_entries_def by (auto intro: distinct_map_filter)

text \<open>Walking a session reads its entries in order.\<close>

lemma walk_thread:
  assumes "threads_ok d" "c \<in> set (chats d)"
  shows "walk d c = list_entries d (s_id c)"
proof -
  from threads_okD(2) [OF assms] have l: "linked_from None (list_entries d (s_id c))"
    "s_latest c = tail_id (list_entries d (s_id c))"
    by (simp_all add: chat_linked_def)
  from walk_back_linked [OF linked_back [OF l(1)] distinct_thread [OF threads_okD(1) [OF assms(1)]]] l(2)
  show ?thesis by (simp add: walk_def)
qed

text \<open>Changes of runs that keep what the invariant reads.\<close>

definition same_run :: "run_row \<Rightarrow> run_row \<Rightarrow> bool" where
  "same_run r r' \<longleftrightarrow> r_id r' = r_id r \<and> r_session r' = r_session r \<and> r_user_entry r' = r_user_entry r
     \<and> r_candidate r' = r_candidate r \<and> in_flight (r_status r') = in_flight (r_status r)"

lemma in_flight_iff: "in_flight x \<longleftrightarrow> x \<noteq> Finished"
  by (cases x) auto

lemma map_runs_keys:
  assumes "\<forall>r \<in> set rs. same_run r (g r)"
  shows "map r_id (map g rs) = map r_id rs" "map r_session (map g rs) = map r_session rs"
    "map r_session (filter (\<lambda>r. in_flight (r_status r)) (map g rs))
       = map r_session (filter (\<lambda>r. in_flight (r_status r)) rs)"
  using assms by (induction rs) (auto simp: same_run_def)

lemma threads_ok_map_runs:
  assumes ok: "threads_ok d" and g: "\<forall>r \<in> set (runs d). same_run r (g r)"
  shows "threads_ok (d\<lparr>runs := map g (runs d)\<rparr>)" (is "threads_ok ?d")
proof -
  have le: "list_entries ?d = list_entries d" by (simp add: list_entries_def fun_eq_iff)
  have keys: "keys_ok ?d"
  proof -
    have "set (map r_id (map g (runs d))) = set (map r_id (runs d))"
      by (simp only: map_runs_keys(1) [OF g])
    then have ids: "r_id ` g ` set (runs d) = r_id ` set (runs d)"
      by (simp only: list.set_map)
    have "set (map r_session (map g (runs d))) = set (map r_session (runs d))"
      by (simp only: map_runs_keys(2) [OF g])
    then have sess: "r_session ` g ` set (runs d) = r_session ` set (runs d)"
      by (simp only: list.set_map)
    have "map run_key (map g (runs d)) = map run_key (runs d)"
      using g by (simp add: run_key_def same_run_def)
    then have keys: "run_key ` g ` set (runs d) = run_key ` set (runs d)"
      by (metis list.set_map)
    from threads_okD(1) [OF ok] show ?thesis
      unfolding keys_ok_def all_in_flight_def
      by (elim conjE, intro conjI)
         (simp_all add: ids sess keys map_runs_keys [OF g] del: map_map)
  qed
  have cand: "candidate_ok ?d (g r)" if "r \<in> set (runs d)" for r
    using threads_okD(4) [OF ok that] g that by (simp add: candidate_ok_def le same_run_def)
  have tail: "owns_tail ?d (g r)" if "r \<in> set (runs d)" "in_flight (r_status (g r))" for r
    using threads_okD(5) [OF ok that(1)] g that by (simp add: owns_tail_def le same_run_def)
  have com: "committed_ok ?d c" if "c \<in> set (chats d)" for c
  proof (rule committed_mono [OF threads_okD(3) [OF ok that] refl refl])
    fix r
    assume "r \<in> set (runs d)" "r_status r = Finished"
    with g show "\<exists>r' \<in> set (runs ?d). r_id r' = r_id r \<and> r_status r' = Finished"
      by (intro bexI [of _ "g r"]) (auto simp: same_run_def in_flight_iff)
  qed (simp add: le)
  show ?thesis
    using keys cand tail com threads_okD(2) [OF ok]
    by (auto simp: threads_ok_def chat_linked_def le)
qed

lemma threads_ok_update_run:
  assumes "threads_ok d" "\<And>r. r \<in> set (runs d) \<Longrightarrow> r_id r = i \<Longrightarrow> same_run r (f r)"
  shows "threads_ok (update_run i f d)"
  unfolding update_run_def
  by (rule threads_ok_map_runs [OF assms(1)]) (auto simp: assms(2), auto simp: same_run_def)

text \<open>Changes of what the invariant does not read.\<close>

lemma threads_ok_subjects: "threads_ok (d\<lparr>subjects := x\<rparr>) \<longleftrightarrow> threads_ok d"
  by (simp add: threads_ok_def keys_ok_def all_in_flight_def chat_linked_def committed_ok_def
      candidate_ok_def owns_tail_def list_entries_def)

lemma threads_ok_remember [simp]: "threads_ok (remember_subject s t d) \<longleftrightarrow> threads_ok d"
  by (simp add: remember_subject_def threads_ok_subjects split: option.split)

lemma threads_ok_forget [simp]: "threads_ok (forget_subject s d) \<longleftrightarrow> threads_ok d"
  by (simp add: forget_subject_def threads_ok_subjects)

lemma threads_ok_deltas:
  assumes "threads_ok d" "\<forall>x \<in> set xs. d_run x \<in> r_id ` set (runs d)"
  shows "threads_ok (d\<lparr>deltas := xs\<rparr>)"
  using assms
  by (simp add: threads_ok_def keys_ok_def all_in_flight_def chat_linked_def committed_ok_def
      candidate_ok_def owns_tail_def list_entries_def)

lemma get_chat_member: "get_chat d s = Some c \<Longrightarrow> c \<in> set (chats d) \<and> s_id c = s"
  by (auto simp: get_chat_def find_Some_iff)

section \<open>Appending an entry\<close>

text \<open>The row that is appended, and the sessions afterwards.\<close>

definition new_entry :: "db \<Rightarrow> nat \<Rightarrow> nat \<Rightarrow> string \<Rightarrow> string option \<Rightarrow> string \<Rightarrow> nat option \<Rightarrow> int \<Rightarrow> entry" where
  "new_entry d new s kind role txt run now =
     \<lparr>e_id = new, e_session = s, e_prev = tail_id (list_entries d s), e_next = None, e_kind = kind,
      e_role = role, e_text = txt, e_run = run, e_at = now\<rparr>"

lemma append_entry_simps [simp]:
  "runs (append_entry new s kind role txt run now d) = runs d"
  "deltas (append_entry new s kind role txt run now d) = deltas d"
  by (simp_all add: append_entry_def Let_def split: option.split)

lemma tail_member: "tail_id (list_entries d s) = Some i \<Longrightarrow> \<exists>e \<in> set (entries d). e_id e = i \<and> e_session e = s"
  using last_in_set [of "list_entries d s"]
  by (auto simp: tail_id_def list_entries_def split: if_split_asm)

lemma append_entry_eq:
  assumes "threads_ok d" "get_chat d s = Some c" "new \<notin> e_id ` set (entries d)"
  shows "entries (append_entry new s kind role txt run now d)
      = set_next (tail_id (list_entries d s)) (Some new) (entries d) @ [new_entry d new s kind role txt run now]"
    (is "?E")
    and "chats (append_entry new s kind role txt run now d)
      = map (\<lambda>c. if s_id c = s then c\<lparr>s_latest := Some new, s_updated := now\<rparr> else c) (chats d)" (is "?C")
proof -
  from assms(2) have c: "c \<in> set (chats d)" "s_id c = s" by (auto simp: get_chat_def find_Some_iff)
  with threads_okD(2) [OF assms(1) c(1)] have "s_latest c = tail_id (list_entries d s)"
    by (simp add: chat_linked_def)
  moreover have "tail_id (list_entries d s) \<noteq> Some new" using tail_member [of d s new] assms(3) by blast
  ultimately show ?E ?C
    using assms(2)
    by (auto simp: append_entry_def Let_def update_entry_def update_chat_def set_next_def new_entry_def
        split: option.split)
qed

lemma list_set_next:
  "filter (\<lambda>e. e_session e = s) (set_next i n es) = set_next i n (filter (\<lambda>e. e_session e = s) es)"
  by (induction es) auto

lemma append_entry_threads:
  assumes "threads_ok d" "get_chat d s = Some c" "new \<notin> e_id ` set (entries d)"
  shows "list_entries (append_entry new s kind role txt run now d) s
      = set_next (tail_id (list_entries d s)) (Some new) (list_entries d s) @ [new_entry d new s kind role txt run now]"
    and "s' \<noteq> s \<Longrightarrow> list_entries (append_entry new s kind role txt run now d) s' = list_entries d s'"
proof -
  show "list_entries (append_entry new s kind role txt run now d) s
      = set_next (tail_id (list_entries d s)) (Some new) (list_entries d s) @ [new_entry d new s kind role txt run now]"
    by (simp add: list_entries_def append_entry_eq [OF assms] list_set_next new_entry_def)
  assume s': "s' \<noteq> s"
  have "set_next (tail_id (list_entries d s)) (Some new) (list_entries d s') = list_entries d s'"
  proof (rule set_next_other)
    fix e
    assume e: "e \<in> set (list_entries d s')"
    show "tail_id (list_entries d s) \<noteq> Some (e_id e)"
    proof
      assume "tail_id (list_entries d s) = Some (e_id e)"
      then obtain e' where "e' \<in> set (entries d)" "e_id e' = e_id e" "e_session e' = s"
        using tail_member by blast
      moreover have "inj_on e_id (set (entries d))"
        using threads_okD(1) [OF assms(1)] by (simp add: keys_ok_def distinct_map)
      ultimately show False using e s' by (auto simp: list_entries_def inj_on_def)
    qed
  qed
  with s' show "list_entries (append_entry new s kind role txt run now d) s' = list_entries d s'"
    unfolding list_entries_def by (simp add: append_entry_eq [OF assms] list_set_next new_entry_def list_entries_def)
qed

lemma set_next_runs: "(\<forall>e \<in> set (set_next i n es). P (e_run e)) \<longleftrightarrow> (\<forall>e \<in> set es. P (e_run e))"
  by (induction es) auto

lemma owns_tail_snoc:
  assumes "list_entries d (r_session r) = pre @ u # mine" "e_id u = r_user_entry r" "e_run u = None"
    "\<forall>e \<in> set mine. e_run e = Some (r_id r)" "\<forall>e \<in> set pre. e_run e \<noteq> Some (r_id r)"
    "list_entries d' (r_session r) = set_next i n (list_entries d (r_session r)) @ [x]"
    "e_run x = Some (r_id r)"
  shows "owns_tail d' r"
proof -
  have "list_entries d' (r_session r) = set_next i n pre
      @ (if i = Some (e_id u) then u\<lparr>e_next := n\<rparr> else u) # (set_next i n mine @ [x])"
    by (simp add: assms(1,6))
  moreover have "\<forall>e \<in> set (set_next i n mine @ [x]). e_run e = Some (r_id r)"
    "\<forall>e \<in> set (set_next i n pre). e_run e \<noteq> Some (r_id r)"
    using assms(4,5,7) set_next_runs [of i n mine "\<lambda>x. x = Some (r_id r)"]
      set_next_runs [of i n pre "\<lambda>x. x \<noteq> Some (r_id r)"] by simp_all
  ultimately show ?thesis
    unfolding owns_tail_def using assms(2,3)
    by (intro exI [of _ "set_next i n pre"] exI [of _ "if i = Some (e_id u) then u\<lparr>e_next := n\<rparr> else u"]
          exI [of _ "set_next i n mine @ [x]"]) simp
qed

text \<open>The invariant survives an append when the run in flight of the session, if any, is the one
  that appends.\<close>

lemma append_chat:
  assumes ok: "threads_ok d" "get_chat d s = Some c" "new \<notin> e_id ` set (entries d)"
    and c': "c' \<in> set (chats (append_entry new s kind role txt run now d))"
  shows "(s_id c' = s \<longrightarrow> s_latest c' = Some new) \<and> (s_id c' \<noteq> s \<longrightarrow> c' \<in> set (chats d))
    \<and> (\<exists>c0 \<in> set (chats d). s_id c0 = s_id c' \<and> s_committed c0 = s_committed c')"
proof -
  from c' obtain c0 where c0: "c0 \<in> set (chats d)"
    "c' = (if s_id c0 = s then c0\<lparr>s_latest := Some new, s_updated := now\<rparr> else c0)"
    unfolding append_entry_eq(2) [OF ok] by auto
  then show ?thesis by (cases "s_id c0 = s") (auto intro!: bexI [of _ c0])
qed

lemma chat_linked_append:
  assumes ok: "threads_ok d" "get_chat d s = Some c" "new \<notin> e_id ` set (entries d)"
    and c': "c' \<in> set (chats (append_entry new s kind role txt run now d))"
  shows "chat_linked (append_entry new s kind role txt run now d) c'"
proof (cases "s_id c' = s")
  case True
  let ?es = "list_entries d s"
  from ok(2) have c: "c \<in> set (chats d)" "s_id c = s" by (auto simp: get_chat_def find_Some_iff)
  from threads_okD(2) [OF ok(1) c(1)] c(2) have "linked_from None ?es" by (simp add: chat_linked_def)
  then have "linked_from None (set_next (tail_id ?es) (Some (e_id (new_entry d new s kind role txt run now))) ?es
      @ [new_entry d new s kind role txt run now])"
    using distinct_thread [OF threads_okD(1) [OF ok(1)]]
    by (rule linked_snoc) (simp_all add: new_entry_def)
  moreover have "s_latest c' = Some new"
    using append_chat [OF ok c'] True by simp
  ultimately show ?thesis
    unfolding chat_linked_def True append_entry_threads(1) [OF ok]
    by (simp add: new_entry_def)
next
  case False
  with append_chat [OF ok c'] have "c' \<in> set (chats d)" by simp
  from threads_okD(2) [OF ok(1) this] show ?thesis
    using append_entry_threads(2) [OF ok False] by (simp add: chat_linked_def)
qed

lemma tag_set_next [simp]: "tag ` set (set_next i n es) = tag ` set es"
  by (induction es) (auto simp: tag_def)

lemma append_tags:
  assumes "threads_ok d" "get_chat d s = Some c" "new \<notin> e_id ` set (entries d)"
  shows "tag ` set (list_entries d s') \<subseteq> tag ` set (list_entries (append_entry new s kind role txt run now d) s')"
  by (cases "s' = s") (auto simp: append_entry_threads [OF assms])

lemma append_entry_ok:
  assumes ok: "threads_ok d" "get_chat d s = Some c" "new \<notin> e_id ` set (entries d)"
    and run: "\<And>r. r \<in> set (runs d) \<Longrightarrow> in_flight (r_status r) \<Longrightarrow> r_session r = s \<Longrightarrow> run = Some (r_id r)"
    and known: "\<And>rid. run = Some rid \<Longrightarrow> (rid, s) \<in> run_key ` set (runs d)"
  shows "threads_ok (append_entry new s kind role txt run now d)" (is "threads_ok ?d")
proof -
  note keys = threads_okD(1) [OF ok(1)]
  from ok(2) have c: "c \<in> set (chats d)" "s_id c = s" by (auto simp: get_chat_def find_Some_iff)
  have chat_ids: "map s_id (chats ?d) = map s_id (chats d)"
    unfolding append_entry_eq(2) [OF ok] by simp
  then have chat_set: "s_id ` set (chats ?d) = s_id ` set (chats d)" by (metis list.set_map)
  have sub: "e \<in> set (set_next i n es) \<Longrightarrow> \<exists>e' \<in> set es. e_session e = e_session e' \<and> e_run e = e_run e'"
    for e i n es by (auto simp: set_next_def)
  have K: "keys_ok ?d"
    using keys ok(3) c known
    unfolding keys_ok_def all_in_flight_def append_entry_simps chat_ids chat_set append_entry_eq(1) [OF ok]
    by (elim conjE, intro conjI)
       (auto simp: new_entry_def dest!: sub)
  have cand: "candidate_ok ?d r" if "r \<in> set (runs d)" for r
    using threads_okD(4) [OF ok(1) that] append_tags [OF ok, of "r_session r"]
    unfolding candidate_ok_def append_entry_simps by blast
  have com: "committed_ok ?d c'" if "c' \<in> set (chats ?d)" for c'
  proof -
    from append_chat [OF ok that] obtain c0 where c0: "c0 \<in> set (chats d)" "s_id c0 = s_id c'"
      "s_committed c0 = s_committed c'" by blast
    have sub: "tag ` set (list_entries d (s_id c')) \<subseteq> tag ` set (list_entries ?d (s_id c'))"
      by (rule append_tags [OF ok])
    from sub show ?thesis
      by (intro committed_mono [OF threads_okD(3) [OF ok(1) c0(1)]]) (auto simp: c0)
  qed
  have tail: "owns_tail ?d r" if r: "r \<in> set (runs d)" "in_flight (r_status r)" for r
  proof -
    from threads_okD(5) [OF ok(1) r] obtain pre u mine where t:
      "list_entries d (r_session r) = pre @ u # mine" "e_id u = r_user_entry r" "e_run u = None"
      "\<forall>e \<in> set mine. e_run e = Some (r_id r)" "\<forall>e \<in> set pre. e_run e \<noteq> Some (r_id r)"
      unfolding owns_tail_def by blast
    show ?thesis
    proof (cases "r_session r = s")
      case True
      show ?thesis
        by (rule owns_tail_snoc [OF t]) (auto simp: True append_entry_threads [OF ok] new_entry_def run [OF r True])
    next
      case False
      with t show ?thesis by (auto simp: owns_tail_def append_entry_threads(2) [OF ok])
    qed
  qed
  from K cand com tail chat_linked_append [OF ok] show ?thesis by (simp add: threads_ok_def)
qed

section \<open>The other changes\<close>

text \<open>Changing texts only.\<close>

definition same_entry :: "entry \<Rightarrow> entry \<Rightarrow> bool" where
  "same_entry e e' \<longleftrightarrow> e_id e' = e_id e \<and> e_session e' = e_session e \<and> e_prev e' = e_prev e
     \<and> e_next e' = e_next e \<and> e_kind e' = e_kind e \<and> e_run e' = e_run e"

lemma tail_map: "(\<And>e. e_id (f e) = e_id e) \<Longrightarrow> tail_id (map f es) = tail_id es"
  by (simp add: tail_id_def last_map)

lemma threads_ok_map_entries:
  assumes ok: "threads_ok d" and g: "\<And>e. same_entry e (g e)"
  shows "threads_ok (d\<lparr>entries := map g (entries d)\<rparr>)" (is "threads_ok ?d")
proof -
  from g have [simp]: "e_id (g e) = e_id e" "e_session (g e) = e_session e" "e_run (g e) = e_run e"
    "e_prev (g e) = e_prev e" "e_next (g e) = e_next e" "e_kind (g e) = e_kind e" for e
    by (simp_all add: same_entry_def)
  have le: "list_entries ?d s = map g (list_entries d s)" for s
    by (simp add: list_entries_def filter_map o_def)
  have tags: "tag ` set (list_entries ?d s) = tag ` set (list_entries d s)" for s
    by (auto simp: le tag_def image_image)
  have K: "keys_ok ?d"
    using threads_okD(1) [OF ok] by (simp add: keys_ok_def all_in_flight_def o_def)
  have tail: "owns_tail ?d r" if "owns_tail d r" for r
  proof -
    from that obtain pre u mine where "list_entries d (r_session r) = pre @ u # mine"
      "e_id u = r_user_entry r" "e_run u = None"
      "\<forall>e \<in> set mine. e_run e = Some (r_id r)" "\<forall>e \<in> set pre. e_run e \<noteq> Some (r_id r)"
      unfolding owns_tail_def by blast
    then show ?thesis
      unfolding owns_tail_def
      by (intro exI [of _ "map g pre"] exI [of _ "g u"] exI [of _ "map g mine"]) (simp add: le)
  qed
  have C: "chat_linked ?d c \<and> committed_ok ?d c" if "c \<in> set (chats d)" for c
    using threads_okD(2,3) [OF ok that]
    by (simp_all add: chat_linked_def committed_ok_def tags) (simp add: le linked_map tail_map)
  have R: "candidate_ok ?d r" if "r \<in> set (runs d)" for r
    using threads_okD(4) [OF ok that] by (simp add: candidate_ok_def tags)
  from K C R tail threads_okD(5) [OF ok] show ?thesis by (simp add: threads_ok_def)
qed

lemma threads_ok_update_text:
  "threads_ok d \<Longrightarrow> (\<And>e. same_entry e (f e)) \<Longrightarrow> threads_ok (update_entry i f d)"
  unfolding update_entry_def by (rule threads_ok_map_entries) (auto simp: same_entry_def)

text \<open>Recording a candidate memory.\<close>

lemma threads_ok_candidate:
  assumes ok: "threads_ok d"
    and new: "\<And>r. r \<in> set (runs d) \<Longrightarrow> r_id r = i \<Longrightarrow>
      (new, kind_tombstone, Some i) \<in> tag ` set (list_entries d (r_session r))"
  shows "threads_ok (update_run i (\<lambda>r. r\<lparr>r_candidate := Some new\<rparr>) d)" (is "threads_ok ?d")
proof -
  let ?g = "\<lambda>r. if r_id r = i then r\<lparr>r_candidate := Some new\<rparr> else r"
  have le: "list_entries ?d = list_entries d" by simp
  have g: "r_id (?g r) = r_id r" "r_session (?g r) = r_session r" "r_user_entry (?g r) = r_user_entry r"
    "r_status (?g r) = r_status r" for r by simp_all
  have runs: "runs ?d = map ?g (runs d)" by (simp add: update_run_def)
  have "map r_id (map ?g xs) = map r_id xs" "map r_session (map ?g xs) = map r_session xs"
    "map r_session (filter (\<lambda>r. in_flight (r_status r)) (map ?g xs))
       = map r_session (filter (\<lambda>r. in_flight (r_status r)) xs)" "map run_key (map ?g xs) = map run_key xs" for xs
    by (induction xs) (auto simp: run_key_def)
  then have ids: "map r_id (runs ?d) = map r_id (runs d)" "map r_session (runs ?d) = map r_session (runs d)"
    "map r_session (all_in_flight ?d) = map r_session (all_in_flight d)"
    "map run_key (runs ?d) = map run_key (runs d)"
    unfolding runs all_in_flight_def by blast+
  then have sets: "r_id ` set (runs ?d) = r_id ` set (runs d)" "r_session ` set (runs ?d) = r_session ` set (runs d)"
    "run_key ` set (runs ?d) = run_key ` set (runs d)"
    by (metis list.set_map)+
  have K: "keys_ok ?d"
    using threads_okD(1) [OF ok] unfolding keys_ok_def ids sets
    by (elim conjE, intro conjI) simp_all
  have R: "candidate_ok ?d r' \<and> (in_flight (r_status r') \<longrightarrow> owns_tail ?d r')" if "r' \<in> set (runs ?d)" for r'
  proof -
    from that obtain r where r: "r \<in> set (runs d)" "r' = ?g r" by (auto simp: runs)
    have "candidate_ok ?d r'"
      using threads_okD(4) [OF ok r(1)] new [OF r(1)] unfolding r(2) candidate_ok_def le by simp
    moreover have "in_flight (r_status r') \<Longrightarrow> owns_tail ?d r'"
      using threads_okD(5) [OF ok r(1)] unfolding r(2) owns_tail_def le g by simp
    ultimately show ?thesis by simp
  qed
  have C: "committed_ok ?d c" if "c \<in> set (chats d)" for c
  proof (rule committed_mono [OF threads_okD(3) [OF ok that] refl refl])
    fix r
    assume "r \<in> set (runs d)" "r_status r = Finished"
    then show "\<exists>r' \<in> set (runs ?d). r_id r' = r_id r \<and> r_status r' = Finished"
      by (intro bexI [of _ "?g r"]) (auto simp: runs)
  qed (simp add: le)
  from K R C threads_okD(2) [OF ok] show ?thesis
    by (simp add: threads_ok_def chat_linked_def)
qed

text \<open>Finishing a run commits its candidate memory.\<close>

lemma finish_run_simps:
  "entries (finish_run r d) = entries d" "deltas (finish_run r d) = deltas d"
  "list_entries (finish_run r d) = list_entries d"
  "runs (finish_run r d) = map (\<lambda>x. if r_id x = r_id r
     then x\<lparr>r_status := Finished, r_finish_at := None, r_total := None, r_used := None\<rparr> else x) (runs d)"
  "chats (finish_run r d) = map (\<lambda>c. if s_id c = r_session r
     then c\<lparr>s_committed := (case r_candidate r of None \<Rightarrow> s_committed c | Some i \<Rightarrow> Some i)\<rparr> else c) (chats d)"
proof -
  have "map (\<lambda>c. if s_id c = x then c\<lparr>s_committed := s_committed c\<rparr> else c) cs = cs" for x and cs :: "chat list"
    by (induction cs) auto
  then show "chats (finish_run r d) = map (\<lambda>c. if s_id c = r_session r
     then c\<lparr>s_committed := (case r_candidate r of None \<Rightarrow> s_committed c | Some i \<Rightarrow> Some i)\<rparr> else c) (chats d)"
    by (cases "r_candidate r") (simp_all add: finish_run_def Let_def update_chat_def cong: if_cong)
qed (auto simp: finish_run_def Let_def update_run_def update_chat_def list_entries_def fun_eq_iff
       split: option.split)

lemma finish_run_ok:
  assumes ok: "threads_ok d" and r: "r \<in> set (runs d)"
  shows "threads_ok (finish_run r d)" (is "threads_ok ?d")
proof -
  let ?g = "\<lambda>x. if r_id x = r_id r
     then x\<lparr>r_status := Finished, r_finish_at := None, r_total := None, r_used := None\<rparr> else x"
  have g: "map r_id (map ?g xs) = map r_id xs" "map r_session (map ?g xs) = map r_session xs"
    "map run_key (map ?g xs) = map run_key xs"
    "map r_session (filter (\<lambda>r. in_flight (r_status r)) (map ?g xs))
       = map r_session (filter (\<lambda>x. in_flight (r_status x) \<and> r_id x \<noteq> r_id r) xs)" for xs
    by (induction xs) (auto simp: run_key_def)
  then have sets: "r_id ` set (runs ?d) = r_id ` set (runs d)"
    "r_session ` set (runs ?d) = r_session ` set (runs d)" "run_key ` set (runs ?d) = run_key ` set (runs d)"
    by (simp_all only: finish_run_simps list.set_map [symmetric] g)
  have chat_ids: "map s_id (chats ?d) = map s_id (chats d)" by (simp add: finish_run_simps)
  then have chat_set: "s_id ` set (chats ?d) = s_id ` set (chats d)" by (metis list.set_map)
  have "distinct (map r_session (filter P (all_in_flight d)))" for P
    using threads_okD(1) [OF ok] by (auto simp: keys_ok_def intro: distinct_map_filter)
  then have flight: "distinct (map r_session (all_in_flight ?d))"
    unfolding all_in_flight_def finish_run_simps g filter_filter
    by (simp add: conj_commute [of "in_flight (r_status x)" for x])
  have K: "keys_ok ?d"
    using threads_okD(1) [OF ok] flight
    unfolding keys_ok_def sets chat_ids chat_set
    by (elim conjE, intro conjI) (simp_all add: finish_run_simps g del: map_map)
  have R: "candidate_ok ?d r' \<and> (in_flight (r_status r') \<longrightarrow> owns_tail ?d r')" if "r' \<in> set (runs ?d)" for r'
  proof -
    from that obtain r0 where r0: "r0 \<in> set (runs d)" "r' = ?g r0" by (auto simp: finish_run_simps)
    from threads_okD(4) [OF ok r0(1)] have "candidate_ok ?d r'"
      unfolding candidate_ok_def r0(2) finish_run_simps by auto
    moreover have "in_flight (r_status r') \<Longrightarrow> r' = r0 \<and> in_flight (r_status r0)"
      unfolding r0(2) by (auto split: if_split_asm)
    ultimately show ?thesis
      using threads_okD(5) [OF ok r0(1)] by (auto simp: owns_tail_def finish_run_simps)
  qed
  have mem: "\<exists>x \<in> set (runs ?d). r_id x = r_id y \<and> r_status x = Finished"
    if "y \<in> set (runs d)" "r_status y = Finished \<or> r_id y = r_id r" for y
    using that by (intro bexI [of _ "?g y"]) (auto simp: finish_run_simps)
  have C: "chat_linked ?d c \<and> committed_ok ?d c" if "c \<in> set (chats ?d)" for c
  proof -
    from that obtain c0 where c0: "c0 \<in> set (chats d)" "c = (if s_id c0 = r_session r
     then c0\<lparr>s_committed := (case r_candidate r of None \<Rightarrow> s_committed c0 | Some i \<Rightarrow> Some i)\<rparr> else c0)"
      by (auto simp: finish_run_simps)
    then have same: "s_id c = s_id c0" "s_latest c = s_latest c0" by auto
    have "committed_ok ?d c"
    proof (cases "s_id c0 = r_session r \<and> r_candidate r \<noteq> None")
      case True
      then obtain i where i: "r_candidate r = Some i" "s_committed c = Some i" "s_id c = r_session r"
        using c0(2) by auto
      obtain x where x: "x \<in> set (runs ?d)" "r_id x = r_id r" "r_status x = Finished"
        using mem [OF r] by blast
      from threads_okD(4) [OF ok r] i(1) have "(i, kind_tombstone, Some (r_id x)) \<in> tag ` set (list_entries ?d (s_id c))"
        unfolding candidate_ok_def i(3) x(2) finish_run_simps by simp
      with x i(2) show ?thesis unfolding committed_ok_def by auto
    next
      case False
      with c0(2) have "s_committed c = s_committed c0" by auto
      then show ?thesis
        by (rule committed_mono [OF threads_okD(3) [OF ok c0(1)] same(1)])
           (use mem in \<open>auto simp: finish_run_simps\<close>)
    qed
    with threads_okD(2) [OF ok c0(1)] same show ?thesis by (simp add: chat_linked_def finish_run_simps)
  qed
  from K C R show ?thesis by (simp add: threads_ok_def)
qed

section \<open>Breaking a run\<close>

lemma owns_tail_rows:
  assumes ok: "threads_ok d" and r: "r \<in> set (runs d)"
    and t: "list_entries d (r_session r) = pre @ u # mine" "e_id u = r_user_entry r"
  shows "get_entry d (r_user_entry r) = Some u" "e_prev u = tail_id pre"
    "set_next (tail_id pre) None pre = pre \<or> pre \<noteq> []"
    "linked_from None (set_next (tail_id pre) None pre)"
    "\<exists>c \<in> set (chats d). s_id c = r_session r \<and> get_chat d (r_session r) = Some c"
proof -
  note keys = threads_okD(1) [OF ok]
  from keys r have "r_session r \<in> s_id ` set (chats d)" by (auto simp: keys_ok_def)
  then obtain c where c: "c \<in> set (chats d)" "s_id c = r_session r" by auto
  with keys show "\<exists>c \<in> set (chats d). s_id c = r_session r \<and> get_chat d (r_session r) = Some c"
    by (auto simp: get_chat_iff keys_ok_def)
  have "u \<in> set (list_entries d (r_session r))" by (simp add: t(1))
  then have "u \<in> set (entries d)" by (simp add: list_entries_def)
  with keys t(2) show "get_entry d (r_user_entry r) = Some u" by (simp add: keys_ok_def get_entry_iff)
  have "linked_from None (pre @ u # mine)"
    using threads_okD(2) [OF ok c(1)] c(2) t(1) by (simp add: chat_linked_def)
  moreover have "distinct (map e_id pre)"
    using distinct_thread [OF keys, of "r_session r"] t(1) by simp
  ultimately show "e_prev u = tail_id pre" "linked_from None (set_next (tail_id pre) None pre)"
    by (simp_all add: linked_append split: if_split_asm)
  show "set_next (tail_id pre) None pre = pre \<or> pre \<noteq> []" by auto
qed

text \<open>The tables after a break, for a run in flight.\<close>

lemma break_run_rows_simps:
  assumes ok: "threads_ok d" and r: "r \<in> set (runs d)" "in_flight (r_status r)"
    and t: "list_entries d (r_session r) = pre @ u # mine" "e_id u = r_user_entry r"
  shows "runs (break_run_rows r now d) = filter (\<lambda>x. r_id x \<noteq> r_id r) (runs d)"
    "deltas (break_run_rows r now d) = filter (\<lambda>x. d_run x \<noteq> r_id r) (deltas d)"
    "chats (break_run_rows r now d) = map (\<lambda>c. if s_id c = r_session r
        then c\<lparr>s_latest := tail_id pre, s_updated := now\<rparr> else c) (chats d)"
    "entries (break_run_rows r now d) =
       filter (\<lambda>x. e_id x \<noteq> r_user_entry r \<and> \<not> (e_session x = r_session r \<and> e_run x = Some (r_id r)))
         (set_next (tail_id pre) None (entries d))"
proof -
  from owns_tail_rows [OF ok r(1) t] obtain c where rows: "get_entry d (r_user_entry r) = Some u"
    "e_prev u = tail_id pre" "get_chat d (r_session r) = Some c" by blast
  have nf: "r_status r \<noteq> Finished" using r(2) by (simp add: in_flight_iff)
  have un: "unlink_turn r now d = (case tail_id pre of
      None \<Rightarrow> update_chat (r_session r) (\<lambda>c. c\<lparr>s_latest := tail_id pre, s_updated := now\<rparr>) d
    | Some p \<Rightarrow> update_entry p (\<lambda>e. e\<lparr>e_next := None\<rparr>)
        (update_chat (r_session r) (\<lambda>c. c\<lparr>s_latest := tail_id pre, s_updated := now\<rparr>) d))"
    by (simp add: unlink_turn_def rows Let_def)
  have E: "entries (unlink_turn r now d) = set_next (tail_id pre) None (entries d)"
    unfolding un by (cases "tail_id pre") (auto simp: update_entry_def set_next_def)
  have fm: "filter (\<lambda>x. e_id x \<noteq> i) (filter (\<lambda>x. e_session x = s \<longrightarrow> e_run x \<noteq> Some rid)
        (map (\<lambda>e. if e_id e = i then e\<lparr>e_prev := None, e_next := None\<rparr> else e) es))
      = filter (\<lambda>x. e_id x \<noteq> i \<and> (e_session x = s \<longrightarrow> e_run x \<noteq> Some rid)) es" for i s rid es
    by (induction es) auto
  show "runs (break_run_rows r now d) = filter (\<lambda>x. r_id x \<noteq> r_id r) (runs d)"
    "deltas (break_run_rows r now d) = filter (\<lambda>x. d_run x \<noteq> r_id r) (deltas d)"
    "chats (break_run_rows r now d) = map (\<lambda>c. if s_id c = r_session r
        then c\<lparr>s_latest := tail_id pre, s_updated := now\<rparr> else c) (chats d)"
    by (cases "tail_id pre"; simp add: break_run_rows_def nf un Let_def delete_entry_def
        delete_run_entries_def delete_run_def delete_deltas_def update_chat_def)+
  show "entries (break_run_rows r now d) =
       filter (\<lambda>x. e_id x \<noteq> r_user_entry r \<and> \<not> (e_session x = r_session r \<and> e_run x = Some (r_id r)))
         (set_next (tail_id pre) None (entries d))"
    by (simp add: break_run_rows_def nf Let_def delete_entry_def delete_run_entries_def delete_run_def
        delete_deltas_def update_entry_def E fm del: filter_filter)
qed

lemma tail_append_member:
  "list_entries d s = pre @ u # mine \<Longrightarrow> tail_id pre = Some i \<Longrightarrow> \<exists>e \<in> set (entries d). e_id e = i \<and> e_session e = s"
proof -
  assume "list_entries d s = pre @ u # mine" "tail_id pre = Some i"
  then have "last pre \<in> set (list_entries d s)" "e_id (last pre) = i"
    by (auto simp: tail_id_def split: if_split_asm)
  then show ?thesis by (auto simp: list_entries_def)
qed

lemma break_run_threads:
  assumes ok: "threads_ok d" and r: "r \<in> set (runs d)" "in_flight (r_status r)"
    and t: "list_entries d (r_session r) = pre @ u # mine" "e_id u = r_user_entry r"
      "e_run u = None" "\<forall>e \<in> set mine. e_run e = Some (r_id r)" "\<forall>e \<in> set pre. e_run e \<noteq> Some (r_id r)"
  shows "list_entries (break_run_rows r now d) (r_session r) = set_next (tail_id pre) None pre"
    and "s \<noteq> r_session r \<Longrightarrow> list_entries (break_run_rows r now d) s = list_entries d s"
proof -
  note keys = threads_okD(1) [OF ok]
  note E = break_run_rows_simps(4) [OF ok r t(1,2)]
  let ?P = "\<lambda>x. e_id x \<noteq> r_user_entry r \<and> \<not> (e_session x = r_session r \<and> e_run x = Some (r_id r))"
  have swap: "list_entries (break_run_rows r now d) s = filter ?P (set_next (tail_id pre) None (list_entries d s))" for s
    by (simp add: list_entries_def E list_set_next [symmetric] conj_commute)
  have inj: "inj_on e_id (set (entries d))" using keys by (simp add: keys_ok_def distinct_map)
  have sess: "e_session e = r_session r" if "e \<in> set (pre @ u # mine)" for e
    using that unfolding t(1) [symmetric] by (simp add: list_entries_def)
  have ids: "distinct (map e_id (pre @ u # mine))"
    using distinct_thread [OF keys, of "r_session r"] by (simp only: t(1))
  have "filter ?P (set_next (tail_id pre) None mine) = []"
    using sess t(4) by (auto simp: filter_empty_conv set_next_def)
  moreover have "filter ?P (set_next (tail_id pre) None pre) = set_next (tail_id pre) None pre"
  proof (rule filter_True, rule ballI)
    fix x
    assume "x \<in> set (set_next (tail_id pre) None pre)"
    then obtain y where y: "y \<in> set pre" "e_id x = e_id y" "e_run x = e_run y"
      by (auto simp: set_next_def)
    with ids t(2,5) show "?P x" by (auto simp: image_iff)
  qed
  ultimately show "list_entries (break_run_rows r now d) (r_session r) = set_next (tail_id pre) None pre"
    by (simp add: swap t(1,2))
  assume s: "s \<noteq> r_session r"
  have other: "e_id e \<noteq> i" if "e \<in> set (list_entries d s)" "\<exists>e' \<in> set (entries d). e_id e' = i \<and> e_session e' = r_session r"
    for e i using that s inj by (auto simp: list_entries_def inj_on_def)
  have u: "\<exists>e' \<in> set (entries d). e_id e' = r_user_entry r \<and> e_session e' = r_session r"
  proof -
    have "u \<in> set (list_entries d (r_session r))" by (simp add: t(1))
    with t(2) show ?thesis by (auto simp: list_entries_def)
  qed
  have "set_next (tail_id pre) None (list_entries d s) = list_entries d s"
    using other tail_append_member [OF t(1)] by (intro set_next_other) metis
  moreover have "filter ?P (list_entries d s) = list_entries d s"
  proof (rule filter_True, rule ballI)
    fix x
    assume x: "x \<in> set (list_entries d s)"
    with s have "e_session x \<noteq> r_session r" by (simp add: list_entries_def)
    with other [OF x u] show "?P x" by simp
  qed
  ultimately show "list_entries (break_run_rows r now d) s = list_entries d s"
    by (simp add: swap)
qed

lemma linked_in_flight:
  "keys_ok d \<Longrightarrow> r \<in> set (all_in_flight d) \<Longrightarrow> r' \<in> set (all_in_flight d) \<Longrightarrow>
   r_session r = r_session r' \<Longrightarrow> r = r'"
  unfolding keys_ok_def distinct_map by (auto dest: inj_onD)

lemma run_id_inj:
  "keys_ok d \<Longrightarrow> r \<in> set (runs d) \<Longrightarrow> r' \<in> set (runs d) \<Longrightarrow> r_id r = r_id r' \<Longrightarrow> r = r'"
  unfolding keys_ok_def distinct_map by (auto dest: inj_onD)

lemma break_run_ok:
  assumes ok: "threads_ok d" and r: "r \<in> set (runs d)" "in_flight (r_status r)"
  shows "threads_ok (break_run_rows r now d)" (is "threads_ok ?d")
proof -
  note keys = threads_okD(1) [OF ok]
  from threads_okD(5) [OF ok r] obtain pre u mine where t:
    "list_entries d (r_session r) = pre @ u # mine" "e_id u = r_user_entry r"
    "e_run u = None" "\<forall>e \<in> set mine. e_run e = Some (r_id r)" "\<forall>e \<in> set pre. e_run e \<noteq> Some (r_id r)"
    unfolding owns_tail_def by blast
  note S = break_run_rows_simps [OF ok r t(1,2), where now = now] and L = break_run_threads [OF ok r t, where now = now]
  have kept: "(i, k, Some rid) \<in> tag ` set (list_entries ?d s)"
    if "(i, k, Some rid) \<in> tag ` set (list_entries d s)" "rid \<noteq> r_id r" for i k rid s
  proof (cases "s = r_session r")
    case True
    have "(i, k, Some rid) \<notin> tag ` set (u # mine)" using t(3,4) that(2) by (auto simp: tag_def)
    with that(1) have "(i, k, Some rid) \<in> tag ` set pre" unfolding True t(1) by auto
    then show ?thesis unfolding True L(1) tag_set_next .
  next
    case False
    from that(1) show ?thesis unfolding L(2) [OF False] .
  qed
  have chat_ids: "map s_id (chats ?d) = map s_id (chats d)" by (simp add: S)
  then have chat_set: "s_id ` set (chats ?d) = s_id ` set (chats d)" by (metis list.set_map)
  have K: "keys_ok ?d"
    unfolding keys_ok_def chat_ids chat_set
  proof (intro conjI)
    show "distinct (map e_id (entries ?d))"
      unfolding S using keys by (intro distinct_map_filter) (simp add: keys_ok_def)
    show "distinct (map s_id (chats d))" using keys by (simp add: keys_ok_def)
    show "distinct (map r_id (runs ?d))"
      unfolding S using keys by (intro distinct_map_filter) (simp add: keys_ok_def)
    show "\<forall>e \<in> set (entries ?d). e_session e \<in> s_id ` set (chats d)"
      using keys by (auto simp: S keys_ok_def set_next_def)
    show "\<forall>e \<in> set (entries ?d). \<forall>rid. e_run e = Some rid \<longrightarrow> (rid, e_session e) \<in> run_key ` set (runs ?d)"
    proof (intro ballI allI impI)
      fix e rid
      assume e: "e \<in> set (entries ?d)" "e_run e = Some rid"
      then obtain e0 where e0: "e0 \<in> set (entries d)" "e_run e0 = Some rid" "e_session e0 = e_session e"
        by (auto simp: S set_next_def split: if_split_asm)
      with keys have "(rid, e_session e0) \<in> run_key ` set (runs d)" unfolding keys_ok_def by blast
      then obtain x where x: "x \<in> set (runs d)" "rid = r_id x" "e_session e = r_session x"
        using e0(3) by (auto simp: run_key_def)
      from e have "\<not> (e_session e = r_session r \<and> e_run e = Some (r_id r))" by (auto simp: S)
      with x e(2) run_id_inj [OF keys x(1) r(1)] have "r_id x \<noteq> r_id r" by auto
      with x show "(rid, e_session e) \<in> run_key ` set (runs ?d)" by (auto simp: S run_key_def)
    qed
    show "r_session ` set (runs ?d) \<subseteq> s_id ` set (chats d)" using keys by (auto simp: S keys_ok_def)
    show "\<forall>x \<in> set (deltas ?d). d_run x \<in> r_id ` set (runs ?d)"
      using keys by (auto simp: S keys_ok_def image_iff) metis
    show "distinct (map r_session (all_in_flight ?d))"
      using distinct_map_filter [of r_session "all_in_flight d" "\<lambda>x. r_id x \<noteq> r_id r"] keys
      by (simp add: keys_ok_def all_in_flight_def S conj_commute)
  qed
  have C: "chat_linked ?d c \<and> committed_ok ?d c" if "c \<in> set (chats ?d)" for c
  proof -
    from that obtain c0 where c0: "c0 \<in> set (chats d)" "c = (if s_id c0 = r_session r
        then c0\<lparr>s_latest := tail_id pre, s_updated := now\<rparr> else c0)" by (auto simp: S)
    then have same: "s_id c = s_id c0" "s_committed c = s_committed c0" by auto
    have "chat_linked ?d c"
    proof (cases "s_id c0 = r_session r")
      case True
      with c0(2) owns_tail_rows(4) [OF ok r(1) t(1,2)] L(1) show ?thesis by (simp add: chat_linked_def)
    next
      case False
      with c0 threads_okD(2) [OF ok c0(1)] L(2) [OF False] show ?thesis by (simp add: chat_linked_def)
    qed
    moreover have "committed_ok ?d c"
    proof (rule committed_mono [OF threads_okD(3) [OF ok c0(1)] same])
      fix x
      assume "x \<in> set (runs d)" "r_status x = Finished"
      moreover from this r have "r_id x \<noteq> r_id r"
        using run_id_inj [OF keys _ r(1)] by (auto simp: in_flight_iff)
      ultimately show "\<exists>x' \<in> set (runs ?d). r_id x' = r_id x \<and> r_status x' = Finished"
        by (auto simp: S)
    next
      fix i k rid x
      assume x: "x \<in> set (runs d)" "r_id x = rid" "r_status x = Finished"
        "(i, k, Some rid) \<in> tag ` set (list_entries d (s_id c0))"
      then have "rid \<noteq> r_id r" using run_id_inj [OF keys x(1) r(1)] r(2) by (auto simp: in_flight_iff)
      with x(4) show "(i, k, Some rid) \<in> tag ` set (list_entries ?d (s_id c0))" by (rule kept)
    qed
    ultimately show ?thesis by simp
  qed
  have R: "candidate_ok ?d x \<and> (in_flight (r_status x) \<longrightarrow> owns_tail ?d x)" if "x \<in> set (runs ?d)" for x
  proof -
    from that have x: "x \<in> set (runs d)" "r_id x \<noteq> r_id r" by (auto simp: S)
    have "candidate_ok ?d x"
      unfolding candidate_ok_def
    proof (intro allI impI)
      fix i
      assume "r_candidate x = Some i"
      with threads_okD(4) [OF ok x(1)] have "(i, kind_tombstone, Some (r_id x)) \<in> tag ` set (list_entries d (r_session x))"
        by (simp add: candidate_ok_def)
      then show "(i, kind_tombstone, Some (r_id x)) \<in> tag ` set (list_entries ?d (r_session x))"
        using x(2) by (rule kept)
    qed
    moreover have "owns_tail ?d x" if f: "in_flight (r_status x)"
    proof -
      have "r_session x \<noteq> r_session r"
        using linked_in_flight [OF keys, of x r] x r f by (auto simp: all_in_flight_def)
      with threads_okD(5) [OF ok x(1) f] L(2) show ?thesis by (simp add: owns_tail_def)
    qed
    ultimately show ?thesis by simp
  qed
  from K C R show ?thesis by (simp add: threads_ok_def)
qed

section \<open>Sending and creating\<close>

lemma no_run_in_flight:
  "in_flight_for_session d s = None \<Longrightarrow> r \<in> set (runs d) \<Longrightarrow> in_flight (r_status r) \<Longrightarrow> r_session r \<noteq> s"
  by (auto simp: in_flight_for_session_def find_None_iff)

lemma threads_ok_add_run:
  assumes ok: "threads_ok d" and new: "r_id row \<notin> r_id ` set (runs d)"
    and s: "r_session row \<in> s_id ` set (chats d)" and cand: "r_candidate row = None"
    and free: "\<And>r. r \<in> set (runs d) \<Longrightarrow> in_flight (r_status r) \<Longrightarrow> r_session r \<noteq> r_session row"
    and u: "list_entries d (r_session row) = es @ [u]" "e_id u = r_user_entry row" "e_run u = None"
  shows "threads_ok (d\<lparr>runs := runs d @ [row]\<rparr>)" (is "threads_ok ?d")
proof -
  note keys = threads_okD(1) [OF ok]
  have le: "list_entries ?d = list_entries d" by (simp add: list_entries_def fun_eq_iff)
  have "r_session row \<notin> r_session ` set (all_in_flight d)" using free by (force simp: all_in_flight_def)
  then have "distinct (map r_session (all_in_flight ?d))"
    using keys by (simp add: all_in_flight_def keys_ok_def)
  then have K: "keys_ok ?d"
    using keys new s unfolding keys_ok_def by (elim conjE, intro conjI) auto
  have fresh: "e_run e \<noteq> Some (r_id row)" if "e \<in> set (list_entries d (r_session row))" for e
  proof
    assume "e_run e = Some (r_id row)"
    moreover from that have "e \<in> set (entries d)" by (simp add: list_entries_def)
    ultimately have "(r_id row, e_session e) \<in> run_key ` set (runs d)" using keys by (simp add: keys_ok_def)
    with new show False by (auto simp: run_key_def)
  qed
  have tail: "owns_tail ?d row"
    unfolding owns_tail_def le
    using u fresh by (intro exI [of _ es] exI [of _ u] exI [of _ "[]"]) (simp add: u(1))
  have R: "candidate_ok ?d r \<and> (in_flight (r_status r) \<longrightarrow> owns_tail ?d r)" if "r \<in> set (runs d)" for r
    using threads_okD(4,5) [OF ok that] by (simp add: candidate_ok_def owns_tail_def le)
  have C: "committed_ok ?d c" if "c \<in> set (chats d)" for c
    by (rule committed_mono [OF threads_okD(3) [OF ok that] refl refl]) (auto simp: le)
  from K R C tail cand threads_okD(2) [OF ok] show ?thesis
    by (auto simp: threads_ok_def chat_linked_def le candidate_ok_def)
qed

text \<open>What a successful claim leaves behind.\<close>

lemma send_claimD:
  assumes claim: "send_claim k user s txt model (eid, rid, mid) now d = Inr (h, d')"
  obtains c where "get_chat d s = Some c" "s_user c = user" "in_flight_for_session d s = None"
    "history_from_entries k (walk d c) (s_committed c) = Inr h"
    "d' = (append_entry eid s kind_message (Some role_user) txt None now d)
       \<lparr>runs := runs d @ [\<lparr>r_id = rid, r_session = s, r_message = mid, r_user_entry = eid,
          r_model = model, r_status = Pending, r_watermark = -1, r_last = None,
          r_event = now, r_finish_at = None, r_error = None, r_candidate = None,
          r_total = None, r_used = None, r_created = now, r_updated = now\<rparr>]\<rparr>"
  using assms
  by (auto simp: send_claim_def load_owned_def Let_def result_simps split: option.split_asm if_split_asm)

lemma send_claim_ok:
  assumes ok: "threads_ok d" and claim: "send_claim k user s txt model (eid, rid, mid) now d = Inr (h, d')"
    and eid: "eid \<notin> e_id ` set (entries d)" and rid: "rid \<notin> r_id ` set (runs d)"
  shows "threads_ok d'"
proof -
  from claim obtain c where c: "get_chat d s = Some c" "in_flight_for_session d s = None"
    "d' = (append_entry eid s kind_message (Some role_user) txt None now d)
       \<lparr>runs := runs d @ [\<lparr>r_id = rid, r_session = s, r_message = mid, r_user_entry = eid,
          r_model = model, r_status = Pending, r_watermark = -1, r_last = None,
          r_event = now, r_finish_at = None, r_error = None, r_candidate = None,
          r_total = None, r_used = None, r_created = now, r_updated = now\<rparr>]\<rparr>"
    by (rule send_claimD) blast
  let ?d1 = "append_entry eid s kind_message (Some role_user) txt None now d"
  have d1: "threads_ok ?d1"
    using no_run_in_flight [OF c(2)] by (intro append_entry_ok [OF ok c(1) eid]) auto
  have "map s_id (chats ?d1) = map s_id (chats d)" by (simp add: append_entry_eq(2) [OF ok c(1) eid])
  then have "s_id ` set (chats ?d1) = s_id ` set (chats d)" by (metis list.set_map)
  with get_chat_member [OF c(1)] have "s \<in> s_id ` set (chats ?d1)" by auto
  then have "threads_ok (?d1\<lparr>runs := runs ?d1 @ [\<lparr>r_id = rid, r_session = s, r_message = mid, r_user_entry = eid,
          r_model = model, r_status = Pending, r_watermark = -1, r_last = None,
          r_event = now, r_finish_at = None, r_error = None, r_candidate = None,
          r_total = None, r_used = None, r_created = now, r_updated = now\<rparr>]\<rparr>)"
    using no_run_in_flight [OF c(2)] rid append_entry_threads(1) [OF ok c(1) eid]
    by (intro threads_ok_add_run [OF d1]) (auto simp: new_entry_def)
  then show ?thesis by (simp add: c(3))
qed

lemma create_session_ok:
  assumes ok: "threads_ok d" and create: "create_session current p name description new now d = Inr (v, d')"
    and new: "new \<notin> s_id ` set (chats d)"
  shows "threads_ok d'"
proof -
  note keys = threads_okD(1) [OF ok]
  from create obtain pr user n t where "d' = d\<lparr>chats := chats d @ [\<lparr>s_id = new, s_project = pr,
      s_user = user, s_name = n, s_description = t, s_latest = None, s_committed = None,
      s_created = now, s_updated = now\<rparr>]\<rparr>"
    by (auto simp: create_session_def Let_def result_simps split: option.split_asm)
  then obtain row where row: "s_id row = new" "s_latest row = None" "s_committed row = None"
    "d' = d\<lparr>chats := chats d @ [row]\<rparr>"
    by (metis chat.select_convs(1,6,7))
  have le: "list_entries d' = list_entries d" by (simp add: row list_entries_def fun_eq_iff)
  from keys new have "list_entries d new = []"
    by (force simp: list_entries_def keys_ok_def filter_empty_conv)
  moreover from keys new row(1) have "keys_ok d'" by (auto simp: keys_ok_def row(4) all_in_flight_def)
  ultimately show ?thesis
    using ok row(1-3)
    by (auto simp: threads_ok_def chat_linked_def committed_ok_def candidate_ok_def owns_tail_def le)
       (auto simp: row(4) chat_linked_def committed_ok_def)
qed

end
