(* ===== verification/Thread_Content.thy ===== *)
theory Thread_Content
  imports Thread_Facts
begin

text \<open>
  What stands in a thread: the committed entries of a run are its deltas in order, neighbouring
  pieces of a message joined, however they arrived.
\<close>

section \<open>The contents of a run\<close>

type_synonym part = "string \<times> string option \<times> string"

definition entry_part :: "entry \<Rightarrow> part" where
  "entry_part e = (e_kind e, e_role e, e_text e)"

text \<open>What one more delta makes of the parts of a run.\<close>

definition add_part :: "part list \<Rightarrow> delta \<Rightarrow> part list" where
  "add_part ps x =
     (let k = d_kind x in
      if k = kind_message \<or> k = kind_reasoning
      then (if ps \<noteq> [] \<and> fst (last ps) = k
            then butlast ps @ [(k, fst (snd (last ps)), snd (snd (last ps)) @ d_text x)]
            else ps @ [(k, if k = kind_reasoning then None else Some role_assistant, d_text x)])
      else ps @ [(k, None, d_text x)])"

definition parts_of :: "delta list \<Rightarrow> part list" where
  "parts_of xs = foldl add_part [] xs"

definition run_parts :: "db \<Rightarrow> nat \<Rightarrow> nat \<Rightarrow> part list" where
  "run_parts d rid s = map entry_part (run_entries rid (list_entries d s))"

definition delta_seq :: "db \<Rightarrow> nat \<Rightarrow> int \<Rightarrow> delta list" where
  "delta_seq d rid w = map (\<lambda>n. the (get_delta d rid n)) [0..w]"

lemma run_entries_set_next [simp]:
  "map entry_part (run_entries rid (set_next i n es)) = map entry_part (run_entries rid es)"
  by (induction es) (auto simp: entry_part_def)

lemma run_parts_cong [simp]:
  "run_parts (update_run i f d) = run_parts d" "run_parts (update_chat i h d) = run_parts d"
  "run_parts (forget_subject s d) = run_parts d" "run_parts (remember_subject s t d) = run_parts d"
  "run_parts (finish_run r d) = run_parts d"
  by (simp_all add: run_parts_def fun_eq_iff finish_run_simps)

lemma get_delta_cong [simp]:
  "get_delta (update_run i f d) = get_delta d" "get_delta (update_chat i h d) = get_delta d"
  "get_delta (forget_subject s d) = get_delta d" "get_delta (remember_subject s t d) = get_delta d"
  "get_delta (finish_run r d) = get_delta d"
  by (simp_all add: get_delta_def fun_eq_iff finish_run_simps)

lemma run_parts_append:
  assumes "threads_ok d" "get_chat d s = Some c" "new \<notin> e_id ` set (entries d)"
  shows "run_parts (append_entry new s kind role txt run now d) rid s'
      = run_parts d rid s' @ (if s' = s \<and> run = Some rid then [(kind, role, txt)] else [])"
  by (cases "s' = s") (simp_all add: run_parts_def append_entry_threads [OF assms] new_entry_def entry_part_def)

section \<open>One delta\<close>

text \<open>The session and its run in flight, as the promotion sees them.\<close>

definition active :: "db \<Rightarrow> nat \<Rightarrow> nat \<Rightarrow> bool" where
  "active d rid s \<longleftrightarrow> (\<exists>r \<in> set (runs d). r_id r = rid \<and> r_session r = s \<and> in_flight (r_status r))"

lemma active_chat: "threads_ok d \<Longrightarrow> active d rid s \<Longrightarrow> \<exists>c. get_chat d s = Some c"
proof -
  assume ok: "threads_ok d" and "active d rid s"
  then have "s \<in> s_id ` set (chats d)" using threads_okD(1) [OF ok] by (auto simp: active_def keys_ok_def)
  then show ?thesis using threads_okD(1) [OF ok] by (auto simp: get_chat_iff keys_ok_def)
qed

lemma active_only:
  "threads_ok d \<Longrightarrow> active d rid s \<Longrightarrow> r \<in> set (runs d) \<Longrightarrow> in_flight (r_status r) \<Longrightarrow> r_session r = s \<Longrightarrow> r_id r = rid"
  using linked_in_flight [OF threads_okD(1)] by (fastforce simp: active_def all_in_flight_def)

lemma active_session:
  "threads_ok d \<Longrightarrow> active d rid s \<Longrightarrow> r \<in> set (runs d) \<Longrightarrow> r_id r = rid \<Longrightarrow> r_session r = s"
  using run_id_inj [OF threads_okD(1)] by (fastforce simp: active_def)

text \<open>The last entry of the session, and the last one of the run.\<close>

lemma active_tail:
  assumes ok: "threads_ok d" and act: "active d rid s"
  obtains pre u mine where "list_entries d s = pre @ u # mine" "e_run u = None"
    "\<forall>e \<in> set mine. e_run e = Some rid" "run_entries rid (list_entries d s) = mine"
    "Option.bind (Option.bind (get_chat d s) s_latest) (get_entry d) = Some (last (u # mine))"
proof -
  from act obtain r where r: "r \<in> set (runs d)" "r_id r = rid" "r_session r = s" "in_flight (r_status r)"
    by (auto simp: active_def)
  from threads_okD(5) [OF ok r(1,4)] obtain pre u mine where t:
    "list_entries d s = pre @ u # mine" "e_run u = None" "\<forall>e \<in> set mine. e_run e = Some rid"
    "\<forall>e \<in> set pre. e_run e \<noteq> Some rid"
    unfolding owns_tail_def r(2,3) by blast
  have mine: "run_entries rid (list_entries d s) = mine"
    using t(2-4) by (simp add: t(1) filter_empty_conv)
  obtain c where c: "get_chat d s = Some c" using active_chat [OF ok act] by blast
  then have c': "c \<in> set (chats d)" "s_id c = s" by (auto dest: get_chat_member)
  have latest: "s_latest c = Some (e_id (last (u # mine)))"
    using threads_okD(2) [OF ok c'(1)] by (simp add: chat_linked_def c'(2) t(1) tail_id_def)
  have "last (u # mine) \<in> set (list_entries d s)" unfolding t(1) by simp
  then have "last (u # mine) \<in> set (entries d)" by (simp add: list_entries_def)
  then have "get_entry d (e_id (last (u # mine))) = Some (last (u # mine))"
    using threads_okD(1) [OF ok] by (simp add: get_entry_iff keys_ok_def)
  with latest c have "Option.bind (Option.bind (get_chat d s) s_latest) (get_entry d) = Some (last (u # mine))"
    by simp
  from that [OF t(1-3) mine this] show thesis .
qed

text \<open>What a promoted delta leaves of a run row.\<close>

definition run_fixed :: "run_row \<Rightarrow> run_row" where
  "run_fixed r = r\<lparr>r_candidate := None, r_total := None, r_used := None\<rparr>"

lemma run_fixed_update:
  "(\<And>r. run_fixed (f r) = run_fixed r) \<Longrightarrow> map run_fixed (runs (update_run i f d)) = map run_fixed (runs d)"
  by (simp add: update_run_def)

lemma run_fixed_active:
  assumes "map run_fixed (runs d') = map run_fixed (runs d)"
  shows "active d' rid s \<longleftrightarrow> active d rid s"
proof -
  have "active d rid s \<longleftrightarrow> (\<exists>x \<in> set (map run_fixed (runs d)). r_id x = rid \<and> r_session x = s \<and> in_flight (r_status x))"
    for d by (simp add: active_def run_fixed_def)
  then show ?thesis by (simp only: assms)
qed

definition delta_effect :: "db \<Rightarrow> db \<Rightarrow> nat \<Rightarrow> nat \<Rightarrow> nat \<Rightarrow> delta \<Rightarrow> bool" where
  "delta_effect d d' rid s new x \<longleftrightarrow> threads_ok d'
     \<and> run_parts d' rid s = add_part (run_parts d rid s) x
     \<and> (\<forall>rid' s'. rid' \<noteq> rid \<longrightarrow> run_parts d' rid' s' = run_parts d rid' s')
     \<and> deltas d' = deltas d \<and> e_id ` set (entries d') \<subseteq> insert new (e_id ` set (entries d))
     \<and> map run_fixed (runs d') = map run_fixed (runs d) \<and> map s_id (chats d') = map s_id (chats d)"

lemma append_fresh_effect:
  assumes ok: "threads_ok d" and act: "active d rid s" and new: "new \<notin> e_id ` set (entries d)"
    and part: "add_part (run_parts d rid s) x = run_parts d rid s @ [(kind, role, txt)]"
  shows "delta_effect d (append_entry new s kind role txt (Some rid) now d) rid s new x"
proof -
  obtain c where c: "get_chat d s = Some c" using active_chat [OF ok act] by blast
  have "(rid, s) \<in> run_key ` set (runs d)" using act by (auto simp: active_def run_key_def)
  then have "threads_ok (append_entry new s kind role txt (Some rid) now d)"
    using active_only [OF ok act] by (intro append_entry_ok [OF ok c new]) auto
  then show ?thesis
    unfolding delta_effect_def
    using part by (auto simp: run_parts_append [OF ok c new] append_entry_eq [OF ok c new] new_entry_def)
      (auto simp: set_next_def)
qed

lemma join_effect:
  assumes ok: "threads_ok d" and tail: "tail \<in> set (list_entries d s)" "e_run tail = Some rid"
    and mine: "run_entries rid (list_entries d s) = mine" "mine \<noteq> []" "tail = last mine"
    and part: "add_part (run_parts d rid s) x
      = butlast (run_parts d rid s) @ [(e_kind tail, e_role tail, e_text tail @ d_text x)]"
  shows "delta_effect d (update_entry (e_id tail) (\<lambda>e. e\<lparr>e_text := e_text e @ d_text x\<rparr>) d) rid s new x"
proof -
  let ?f = "\<lambda>e. e\<lparr>e_text := e_text e @ d_text x\<rparr>"
  let ?g = "\<lambda>e. if e_id e = e_id tail then ?f e else e"
  let ?d = "update_entry (e_id tail) ?f d"
  have le: "list_entries ?d s' = map ?g (list_entries d s')" for s'
    by (rule list_entries_update) simp
  have re: "run_entries rid' (map ?g es) = map ?g (run_entries rid' es)" for rid' es
    by (induction es) auto
  have inj: "inj_on e_id (set (entries d))"
    using threads_okD(1) [OF ok] by (simp add: keys_ok_def distinct_map)
  have other: "map entry_part (map ?g (run_entries rid' (list_entries d s'))) = map entry_part (run_entries rid' (list_entries d s'))"
    if "rid' \<noteq> rid" for rid' s'
  proof -
    have "?g e = e" if e: "e \<in> set (run_entries rid' (list_entries d s'))" for e
    proof (cases "e_id e = e_id tail")
      case True
      from e tail(1) have "e \<in> set (entries d)" "tail \<in> set (entries d)" by (simp_all add: list_entries_def)
      with inj True have "e = tail" by (simp add: inj_on_def)
      with e tail(2) \<open>rid' \<noteq> rid\<close> show ?thesis by simp
    qed simp
    then show ?thesis by (simp add: map_idI)
  qed
  have "map ?g mine = butlast mine @ [?f tail]"
  proof -
    have split: "mine = butlast mine @ [tail]" using mine(2,3) by simp
    have "distinct (map e_id mine)"
      using distinct_thread [OF threads_okD(1) [OF ok], of s] unfolding mine(1) [symmetric]
      by (rule distinct_map_filter)
    then have "e_id tail \<notin> e_id ` set (butlast mine)" by (subst (asm) split) simp
    then have "e_id e \<noteq> e_id tail" if "e \<in> set (butlast mine)" for e
      using that by (metis imageI)
    then have "map ?g (butlast mine) = butlast mine" by (auto intro: map_idI)
    then show ?thesis by (subst split) simp
  qed
  then have "run_parts ?d rid s = map entry_part (butlast mine) @ [(e_kind tail, e_role tail, e_text tail @ d_text x)]"
    unfolding run_parts_def le re mine(1) by (simp add: entry_part_def)
  then have "run_parts ?d rid s = add_part (run_parts d rid s) x"
    unfolding part by (simp add: run_parts_def mine(1) map_butlast)
  moreover have "threads_ok ?d" by (rule threads_ok_update_text [OF ok]) (simp add: same_entry_def)
  moreover have "run_parts ?d rid' s' = run_parts d rid' s'" if "rid' \<noteq> rid" for rid' s'
    unfolding run_parts_def le re by (rule other [OF that])
  moreover have "map e_id (entries ?d) = map e_id (entries d)" by (simp add: update_entry_def)
  then have "e_id ` set (entries ?d) = e_id ` set (entries d)" by (metis list.set_map)
  ultimately show ?thesis
    unfolding delta_effect_def by auto
qed

lemma candidate_effect:
  assumes eff: "delta_effect d d1 rid s new x"
    and mem: "\<And>r. r \<in> set (runs d1) \<Longrightarrow> r_id r = rid \<Longrightarrow>
      (new, kind_tombstone, Some rid) \<in> tag ` set (list_entries d1 (r_session r))"
  shows "delta_effect d (update_run rid (\<lambda>r. r\<lparr>r_candidate := Some new\<rparr>) d1) rid s new x"
  using eff threads_ok_candidate [of d1 rid new] mem
    run_fixed_update [of "\<lambda>r. r\<lparr>r_candidate := Some new\<rparr>" rid d1]
  unfolding delta_effect_def by (simp add: run_fixed_def)

lemma kinds_distinct [simp]:
  "kind_message \<noteq> kind_reasoning" "kind_reasoning \<noteq> kind_message" "kind_tombstone \<noteq> kind_message"
  "kind_tombstone \<noteq> kind_reasoning"
  by (simp_all add: kind_simps)

lemma append_delta_effect:
  assumes ok: "threads_ok d" and act: "active d (d_run x) s" and new: "new \<notin> e_id ` set (entries d)"
  shows "delta_effect d (append_delta s x now new d) (d_run x) s new x"
proof -
  obtain pre u mine where t: "list_entries d s = pre @ u # mine" "e_run u = None"
    "\<forall>e \<in> set mine. e_run e = Some (d_run x)" "run_entries (d_run x) (list_entries d s) = mine"
    "Option.bind (Option.bind (get_chat d s) s_latest) (get_entry d) = Some (last (u # mine))"
    by (rule active_tail [OF ok act])
  have parts: "run_parts d (d_run x) s = map entry_part mine" by (simp add: run_parts_def t(4))
  consider (join) "d_kind x = kind_message \<or> d_kind x = kind_reasoning" "mine \<noteq> []" "e_kind (last mine) = d_kind x"
    | (piece) "d_kind x = kind_message \<or> d_kind x = kind_reasoning" "mine = [] \<or> e_kind (last mine) \<noteq> d_kind x"
    | (memory) "d_kind x = kind_tombstone"
    | (other) "d_kind x \<notin> {kind_message, kind_reasoning, kind_tombstone}"
    by auto
  then show ?thesis
  proof cases
    case join
    have run: "e_run (last mine) = Some (d_run x)" using t(3) join(2) by simp
    have "append_delta s x now new d = update_entry (e_id (last mine)) (\<lambda>e. e\<lparr>e_text := e_text e @ d_text x\<rparr>) d"
      using join run unfolding append_delta_def Let_def t(5) by auto
    moreover have "last mine \<in> set (list_entries d s)" using join(2) by (simp add: t(1))
    moreover have "add_part (run_parts d (d_run x) s) x
        = butlast (run_parts d (d_run x) s) @ [(e_kind (last mine), e_role (last mine), e_text (last mine) @ d_text x)]"
      using join by (auto simp: parts add_part_def Let_def last_map entry_part_def)
    ultimately show ?thesis
      using join_effect [OF ok _ run t(4) join(2) refl] by simp
  next
    case piece
    let ?role = "if d_kind x = kind_reasoning then None else Some role_assistant"
    have "append_delta s x now new d = append_entry new s (d_kind x) ?role (d_text x) (Some (d_run x)) now d"
      using piece t(2,3) unfolding append_delta_def Let_def t(5) by auto
    moreover have "add_part (run_parts d (d_run x) s) x = run_parts d (d_run x) s @ [(d_kind x, ?role, d_text x)]"
      using piece by (auto simp: parts add_part_def Let_def last_map entry_part_def)
    ultimately show ?thesis using append_fresh_effect [OF ok act new] by simp
  next
    case memory
    let ?d1 = "append_entry new s kind_tombstone None (d_text x) (Some (d_run x)) now d"
    have "add_part (run_parts d (d_run x) s) x = run_parts d (d_run x) s @ [(kind_tombstone, None, d_text x)]"
      using memory by (auto simp: add_part_def)
    then have eff: "delta_effect d ?d1 (d_run x) s new x" by (rule append_fresh_effect [OF ok act new])
    obtain c where c: "get_chat d s = Some c" using active_chat [OF ok act] by blast
    have "(new, kind_tombstone, Some (d_run x)) \<in> tag ` set (list_entries ?d1 s)"
      unfolding append_entry_threads(1) [OF ok c new] by (simp add: tag_def new_entry_def)
    then have "(new, kind_tombstone, Some (d_run x)) \<in> tag ` set (list_entries ?d1 (r_session r))"
      if "r \<in> set (runs ?d1)" "r_id r = d_run x" for r
      using that active_session [OF ok act] by simp
    from candidate_effect [OF eff this] show ?thesis
      using memory by (simp add: append_delta_def Let_def)
  next
    case other
    have "append_delta s x now new d = append_entry new s (d_kind x) None (d_text x) (Some (d_run x)) now d"
      using other by (simp add: append_delta_def Let_def)
    moreover have "add_part (run_parts d (d_run x) s) x = run_parts d (d_run x) s @ [(d_kind x, None, d_text x)]"
      using other by (simp add: add_part_def Let_def)
    ultimately show ?thesis using append_fresh_effect [OF ok act new] by simp
  qed
qed

lemma same_run_totals: "threads_ok d \<Longrightarrow> threads_ok (update_run i (\<lambda>r. r\<lparr>r_total := t, r_used := u\<rparr>) d)"
  by (rule threads_ok_update_run) (simp_all add: same_run_def)

lemma promote_delta_effect:
  assumes ok: "threads_ok d" and act: "active d rid s" and new: "fresh n \<notin> e_id ` set (entries d)"
    and x: "get_delta d rid n = Some x"
  shows "delta_effect d (promote_delta s rid now fresh d n) rid s (fresh n) x"
proof -
  from x have run: "d_run x = rid" by (auto simp: get_delta_def find_Some_iff)
  have eff: "delta_effect d (append_delta s x now (fresh n) d) rid s (fresh n) x"
    using append_delta_effect [OF ok _ new, of x] act by (simp add: run)
  then have "delta_effect d (update_run rid (\<lambda>r. r\<lparr>r_total := t, r_used := u\<rparr>) (append_delta s x now (fresh n) d)) rid s (fresh n) x" for t u
    using run_fixed_update [of "\<lambda>r. r\<lparr>r_total := t, r_used := u\<rparr>" rid "append_delta s x now (fresh n) d"]
    unfolding delta_effect_def by (simp add: same_run_totals run_fixed_def)
  with eff show ?thesis
    by (simp add: promote_delta_def x Let_def split: option.split)
qed

section \<open>Promotion\<close>

text \<open>Climbing stops at the first order that is missing.\<close>

lemma climb_spec:
  "w \<le> climb ns w \<and> {w + 1..climb ns w} \<subseteq> set ns \<and> climb ns w + 1 \<notin> set ns"
proof (induction ns w rule: climb.induct)
  case (1 ns w)
  show ?case
  proof (cases "w + 1 \<in> set ns")
    case True
    let ?v = "climb (removeAll (w + 1) ns) (w + 1)"
    have eq: "climb ns w = ?v" using True by (subst climb.simps) simp
    from 1 [OF True] have v: "w + 1 \<le> ?v" "{w + 1 + 1..?v} \<subseteq> set ns" "?v + 1 \<notin> set (removeAll (w + 1) ns)"
      by auto
    moreover from v(1) have "{w + 1..?v} = insert (w + 1) {w + 1 + 1..?v}" by auto
    moreover from v(1,3) have "?v + 1 \<notin> set ns" by auto
    ultimately show ?thesis using True unfolding eq by auto
  next
    case False
    then have "climb ns w = w" by (subst climb.simps) simp
    with False show ?thesis by simp
  qed
qed

lemma orders_iff: "n \<in> set (orders d rid) \<longleftrightarrow> get_delta d rid n \<noteq> None"
  by (auto simp: orders_def run_deltas_def get_delta_def find_None_iff)

text \<open>The effect of several deltas; \<open>N\<close> are the ids that were used.\<close>

definition deltas_effect :: "db \<Rightarrow> db \<Rightarrow> nat \<Rightarrow> nat \<Rightarrow> nat set \<Rightarrow> delta list \<Rightarrow> bool" where
  "deltas_effect d d' rid s N xs \<longleftrightarrow> threads_ok d'
     \<and> run_parts d' rid s = foldl add_part (run_parts d rid s) xs
     \<and> (\<forall>rid' s'. rid' \<noteq> rid \<longrightarrow> run_parts d' rid' s' = run_parts d rid' s')
     \<and> deltas d' = deltas d \<and> e_id ` set (entries d') \<subseteq> N \<union> e_id ` set (entries d)
     \<and> map run_fixed (runs d') = map run_fixed (runs d) \<and> map s_id (chats d') = map s_id (chats d)"

lemma deltas_effect_Nil: "threads_ok d \<Longrightarrow> deltas_effect d d rid s {} []"
  by (simp add: deltas_effect_def)

lemma deltas_effect_Cons:
  assumes one: "delta_effect d d1 rid s n x" and rest: "deltas_effect d1 d2 rid s N xs"
  shows "deltas_effect d d2 rid s (insert n N) (x # xs)"
  unfolding deltas_effect_def
proof (intro conjI)
  from one rest have "e_id ` set (entries d1) \<subseteq> insert n (e_id ` set (entries d))"
    "e_id ` set (entries d2) \<subseteq> N \<union> e_id ` set (entries d1)"
    unfolding delta_effect_def deltas_effect_def by blast+
  then show "e_id ` set (entries d2) \<subseteq> insert n N \<union> e_id ` set (entries d)" by blast
qed (use one rest in \<open>simp_all add: delta_effect_def deltas_effect_def\<close>)

lemma promote_deltas_effect:
  assumes "threads_ok d" "active d rid s" "distinct ns" "inj_on fresh (set ns)"
    "\<forall>n \<in> set ns. get_delta d rid n \<noteq> None" "\<forall>n \<in> set ns. fresh n \<notin> e_id ` set (entries d)"
  shows "deltas_effect d (foldl (promote_delta s rid now fresh) d ns) rid s (fresh ` set ns)
           (map (\<lambda>n. the (get_delta d rid n)) ns)"
  using assms
proof (induction ns arbitrary: d)
  case Nil
  then show ?case by (simp add: deltas_effect_Nil)
next
  case (Cons n ns)
  let ?d = "promote_delta s rid now fresh d n"
  obtain x where x: "get_delta d rid n = Some x" using Cons.prems(5) by auto
  have eff: "delta_effect d ?d rid s (fresh n) x"
    using Cons.prems(6) by (intro promote_delta_effect [OF Cons.prems(1,2) _ x]) simp
  then have same: "threads_ok ?d" "deltas ?d = deltas d" "map run_fixed (runs ?d) = map run_fixed (runs d)"
    "e_id ` set (entries ?d) \<subseteq> insert (fresh n) (e_id ` set (entries d))"
    by (simp_all add: delta_effect_def)
  have "get_delta ?d rid = get_delta d rid" by (simp add: get_delta_def same(2) fun_eq_iff)
  moreover have "active ?d rid s" using run_fixed_active [OF same(3)] Cons.prems(2) by blast
  moreover have "fresh m \<notin> e_id ` set (entries ?d)" if "m \<in> set ns" for m
  proof -
    from that Cons.prems(3,4) have "fresh m \<noteq> fresh n" by (auto simp: inj_on_def)
    moreover from that Cons.prems(6) have "fresh m \<notin> e_id ` set (entries d)" by simp
    ultimately show ?thesis using same(4) by blast
  qed
  ultimately have "deltas_effect ?d (foldl (promote_delta s rid now fresh) ?d ns) rid s (fresh ` set ns)
      (map (\<lambda>n. the (get_delta d rid n)) ns)"
    using Cons.IH [OF same(1)] Cons.prems(3-5) by simp
  from deltas_effect_Cons [OF eff this] show ?case by (simp add: x)
qed

section \<open>The contents of every run\<close>

text \<open>The committed part of a run is its deltas up to the watermark, which a run in flight could not
  move further. Only a finishing run has a last order and a time of finish; it lacks an order, a
  finished one lacks none.\<close>

definition run_content :: "db \<Rightarrow> run_row \<Rightarrow> bool" where
  "run_content d r \<longleftrightarrow> -1 \<le> r_watermark r \<and> (\<forall>n \<in> {0..r_watermark r}. get_delta d (r_id r) n \<noteq> None)
     \<and> run_parts d (r_id r) (r_session r) = parts_of (delta_seq d (r_id r) (r_watermark r))
     \<and> (in_flight (r_status r) \<longrightarrow> get_delta d (r_id r) (r_watermark r + 1) = None \<and> \<not> complete r)
     \<and> (r_status r = Finished \<longrightarrow> complete r)
     \<and> (r_status r = Finishing \<longleftrightarrow> in_flight (r_status r) \<and> r_last r \<noteq> None)
     \<and> (r_status r = Finishing \<longleftrightarrow> r_finish_at r \<noteq> None)"

definition contents_ok :: "db \<Rightarrow> bool" where
  "contents_ok d \<longleftrightarrow> threads_ok d \<and> (\<forall>r \<in> set (runs d). run_content d r)"

lemma contents_okD: "contents_ok d \<Longrightarrow> threads_ok d" "contents_ok d \<Longrightarrow> r \<in> set (runs d) \<Longrightarrow> run_content d r"
  by (auto simp: contents_ok_def)

text \<open>What of a run row the contents depend on.\<close>

definition run_sig :: "run_row \<Rightarrow> nat \<times> nat \<times> int \<times> run_status \<times> int option \<times> int option" where
  "run_sig r = (r_id r, r_session r, r_watermark r, r_status r, r_last r, r_finish_at r)"

lemma complete_iff: "complete r \<longleftrightarrow> (\<exists>n. r_last r = Some n \<and> n \<le> r_watermark r)"
  by (simp add: complete_def split: option.split)

lemma run_content_frame:
  assumes "run_sig r' = run_sig r" "get_delta d' (r_id r) = get_delta d (r_id r)"
    "run_parts d' (r_id r) (r_session r) = run_parts d (r_id r) (r_session r)"
  shows "run_content d' r' \<longleftrightarrow> run_content d r"
proof -
  from assms(1) have "complete r' \<longleftrightarrow> complete r" by (simp add: run_sig_def complete_iff)
  with assms show ?thesis by (simp add: run_sig_def run_content_def delta_seq_def)
qed

lemma run_sig_fixed: "run_fixed r' = run_fixed r \<Longrightarrow> run_sig r' = run_sig r"
  by (cases r; cases r') (simp add: run_fixed_def run_sig_def)

lemma in_map_eqD: "x \<in> set xs \<Longrightarrow> map f xs = map g ys \<Longrightarrow> \<exists>y \<in> set ys. g y = f x"
  by (metis (no_types, opaque_lifting) image_iff list.set_map)

text \<open>One run is changed, the others keep what their contents depend on.\<close>

lemma contents_ok_one:
  assumes ok: "contents_ok d" and threads: "threads_ok d'"
    and rows: "\<And>r'. r' \<in> set (runs d') \<Longrightarrow> r_id r' \<noteq> rid \<Longrightarrow> \<exists>r \<in> set (runs d). run_sig r' = run_sig r"
    and frame: "\<And>i s. i \<noteq> rid \<Longrightarrow> run_parts d' i s = run_parts d i s"
      "\<And>i. i \<noteq> rid \<Longrightarrow> get_delta d' i = get_delta d i"
    and one: "\<And>r'. r' \<in> set (runs d') \<Longrightarrow> r_id r' = rid \<Longrightarrow> run_content d' r'"
  shows "contents_ok d'"
  unfolding contents_ok_def
proof (intro conjI ballI)
  fix r'
  assume r': "r' \<in> set (runs d')"
  show "run_content d' r'"
  proof (cases "r_id r' = rid")
    case False
    with rows [OF r'] obtain r where r: "r \<in> set (runs d)" "run_sig r' = run_sig r" by blast
    then have "r_id r \<noteq> rid" using False by (simp add: run_sig_def)
    then show ?thesis
      using run_content_frame [OF r(2)] contents_okD(2) [OF ok r(1)] frame by simp
  qed (rule one [OF r'])
qed (rule threads)

lemma contents_ok_update:
  assumes ok: "contents_ok d" and f: "\<And>r. same_run r (f r)" "\<And>r. run_sig (f r) = run_sig r"
  shows "contents_ok (update_run i f d)"
  unfolding contents_ok_def
proof (intro conjI ballI)
  show "threads_ok (update_run i f d)" by (rule threads_ok_update_run [OF contents_okD(1) [OF ok]]) (rule f(1))
  fix r'
  assume "r' \<in> set (runs (update_run i f d))"
  then obtain r where r: "r \<in> set (runs d)" "run_sig r' = run_sig r"
    by (auto simp: update_run_def f(2))
  show "run_content (update_run i f d) r'"
    using run_content_frame [OF r(2)] contents_okD(2) [OF ok r(1)] by simp
qed

section \<open>A partial response\<close>

lemma delta_seq_extend:
  assumes "-1 \<le> v" "v \<le> w"
  shows "delta_seq d rid w = delta_seq d rid v @ map (\<lambda>n. the (get_delta d rid n)) [v + 1..w]"
proof (cases "v = -1")
  case False
  with assms have "[0..w] = [0..v] @ [v + 1..w]" by (intro upto_split2) auto
  then show ?thesis by (simp add: delta_seq_def)
qed (simp add: delta_seq_def)

lemma delta_seq_cong:
  "(\<And>n. n \<in> {0..w} \<Longrightarrow> get_delta d' rid n = get_delta d rid n) \<Longrightarrow> delta_seq d' rid w = delta_seq d rid w"
  by (simp add: delta_seq_def)

lemma parts_of_append: "parts_of (xs @ ys) = foldl add_part (parts_of xs) ys"
  by (simp add: parts_of_def)

text \<open>A finished run keeps its contents.\<close>

lemma finish_run_content:
  assumes ok: "threads_ok d" and r: "r \<in> set (runs d)" "complete r"
    and c: "-1 \<le> r_watermark r" "\<forall>n \<in> {0..r_watermark r}. get_delta d (r_id r) n \<noteq> None"
      "run_parts d (r_id r) (r_session r) = parts_of (delta_seq d (r_id r) (r_watermark r))"
    and r': "r' \<in> set (runs (finish_run r d))" "r_id r' = r_id r"
  shows "run_content (finish_run r d) r'"
proof -
  from r' obtain x where x: "x \<in> set (runs d)" "r_id x = r_id r"
    "r' = x\<lparr>r_status := Finished, r_finish_at := None, r_total := None, r_used := None\<rparr>"
    by (auto simp: finish_run_simps split: if_split_asm)
  with run_id_inj [OF threads_okD(1) [OF ok]] r(1) have "x = r" by blast
  from c r(2) show ?thesis by (simp add: x(3) \<open>x = r\<close> run_content_def delta_seq_def complete_iff)
qed

lemma finish_run_contents:
  assumes ok: "contents_ok d" and threads: "threads_ok d'" and r: "r \<in> set (runs d')" "complete r" "r_id r = rid"
    and rows: "\<And>r'. r' \<in> set (runs d') \<Longrightarrow> r_id r' \<noteq> rid \<Longrightarrow> \<exists>r \<in> set (runs d). run_sig r' = run_sig r"
    and frame: "\<And>i s. i \<noteq> rid \<Longrightarrow> run_parts d' i s = run_parts d i s"
      "\<And>i. i \<noteq> rid \<Longrightarrow> get_delta d' i = get_delta d i"
    and c: "-1 \<le> r_watermark r" "\<forall>n \<in> {0..r_watermark r}. get_delta d' rid n \<noteq> None"
      "run_parts d' rid (r_session r) = parts_of (delta_seq d' rid (r_watermark r))"
  shows "contents_ok (finish_run r d')"
proof (rule contents_ok_one [OF ok, where rid = rid])
  show "threads_ok (finish_run r d')" by (rule finish_run_ok [OF threads r(1)])
  fix r'
  assume r': "r' \<in> set (runs (finish_run r d'))"
  show "r_id r' \<noteq> rid \<Longrightarrow> \<exists>r \<in> set (runs d). run_sig r' = run_sig r"
    using r' rows by (auto simp: finish_run_simps r(3))
  show "r_id r' = rid \<Longrightarrow> run_content (finish_run r d') r'"
    using finish_run_content [OF threads r(1,2)] c r' by (simp add: r(3))
next
  fix i s
  assume i: "i \<noteq> rid"
  with frame(1) show "run_parts (finish_run r d') i s = run_parts d i s" by simp
  from i frame(2) show "get_delta (finish_run r d') i = get_delta d i" by simp
qed

text \<open>A run with more deltas buffered: everything but its watermark is as it should be.\<close>

definition buffered :: "db \<Rightarrow> db \<Rightarrow> run_row \<Rightarrow> bool" where
  "buffered d d' r \<longleftrightarrow> contents_ok d \<and> threads_ok d' \<and> r \<in> set (runs d) \<and> in_flight (r_status r)
     \<and> run_sig ` set (runs d') = run_sig ` set (runs d) \<and> run_parts d' = run_parts d
     \<and> (\<forall>i. i \<noteq> r_id r \<longrightarrow> get_delta d' i = get_delta d i)
     \<and> (\<forall>n \<in> {0..r_watermark r}. get_delta d' (r_id r) n = get_delta d (r_id r) n)"

lemma buffered_row:
  assumes "buffered d d' r" "r' \<in> set (runs d')"
  shows "\<exists>x \<in> set (runs d). run_sig r' = run_sig x" "r_id r' = r_id r \<Longrightarrow> run_sig r' = run_sig r"
proof -
  from assms have "run_sig r' \<in> run_sig ` set (runs d)" unfolding buffered_def by blast
  then show "\<exists>x \<in> set (runs d). run_sig r' = run_sig x" by blast
  then obtain x where x: "x \<in> set (runs d)" "run_sig r' = run_sig x" by blast
  assume "r_id r' = r_id r"
  with x have "r_id x = r_id r" by (simp add: run_sig_def)
  with x(1) assms(1) have "x = r"
    using run_id_inj [OF threads_okD(1)] by (auto simp: buffered_def contents_ok_def)
  with x(2) show "run_sig r' = run_sig r" by simp
qed

lemma buffered_run:
  assumes "buffered d d' r"
  shows "-1 \<le> r_watermark r" "\<forall>n \<in> {0..r_watermark r}. get_delta d' (r_id r) n \<noteq> None"
    "run_parts d' (r_id r) (r_session r) = parts_of (delta_seq d' (r_id r) (r_watermark r))"
    "\<not> complete r" "r_status r = Finishing \<longleftrightarrow> r_last r \<noteq> None" "r_status r = Finishing \<longleftrightarrow> r_finish_at r \<noteq> None"
    "active d' (r_id r) (r_session r)"
proof -
  have b: "contents_ok d" "r \<in> set (runs d)" "in_flight (r_status r)" "run_parts d' = run_parts d"
    "\<forall>n \<in> {0..r_watermark r}. get_delta d' (r_id r) n = get_delta d (r_id r) n"
    using assms by (simp_all add: buffered_def)
  then have c: "run_content d r" by (simp add: contents_okD)
  have "delta_seq d' (r_id r) (r_watermark r) = delta_seq d (r_id r) (r_watermark r)"
    by (rule delta_seq_cong) (use b(5) in blast)
  with b(4) c show "run_parts d' (r_id r) (r_session r) = parts_of (delta_seq d' (r_id r) (r_watermark r))"
    by (simp add: run_content_def)
  from b(3,5) c show "-1 \<le> r_watermark r" "\<forall>n \<in> {0..r_watermark r}. get_delta d' (r_id r) n \<noteq> None"
    "\<not> complete r" by (simp_all add: run_content_def)
  from b(3) c show "r_status r = Finishing \<longleftrightarrow> r_last r \<noteq> None" "r_status r = Finishing \<longleftrightarrow> r_finish_at r \<noteq> None"
    unfolding run_content_def by blast+
  from b(2) assms have "run_sig r \<in> run_sig ` set (runs d')" by (simp add: buffered_def)
  then obtain x where "x \<in> set (runs d')" "run_sig x = run_sig r" by auto
  with b(3) show "active d' (r_id r) (r_session r)" by (auto simp: active_def run_sig_def)
qed

lemma promote_still:
  assumes b: "buffered d d' r" and gap: "get_delta d' (r_id r) (r_watermark r + 1) = None"
  shows "contents_ok d'"
proof (rule contents_ok_one [where d = d and rid = "r_id r"])
  show "contents_ok d" "threads_ok d'" using b by (simp_all add: buffered_def)
  fix r'
  assume r': "r' \<in> set (runs d')"
  show "\<exists>r \<in> set (runs d). run_sig r' = run_sig r" by (rule buffered_row(1) [OF b r'])
  assume "r_id r' = r_id r"
  then have sig: "run_sig r' = run_sig r" by (rule buffered_row(2) [OF b r'])
  have "in_flight (r_status r)" using b by (simp add: buffered_def)
  then have "run_content d' r"
    using buffered_run [OF b] gap by (simp add: run_content_def in_flight_iff)
  then show "run_content d' r'" by (simp add: run_content_frame [OF sig])
qed (use b in \<open>simp_all add: buffered_def\<close>)

text \<open>The promotion as a whole, up to the test whether the run is complete.\<close>

lemma promote_moves:
  fixes now :: int
  assumes b: "buffered d d' r" and w: "climb (orders d' (r_id r)) (r_watermark r) = w"
    and fresh: "inj fresh" "\<forall>n. fresh n \<notin> e_id ` set (entries d')"
  defines "m \<equiv> set_watermark (r_id r) w now (foldl (promote_delta (r_session r) (r_id r) now fresh) d' [r_watermark r + 1..w])"
  shows "threads_ok m" "deltas m = deltas d'" "i \<noteq> r_id r \<Longrightarrow> run_parts m i s = run_parts d i s"
    "run_parts m (r_id r) (r_session r) = parts_of (delta_seq m (r_id r) w)"
    "r' \<in> set (runs m) \<Longrightarrow> r_id r' \<noteq> r_id r \<Longrightarrow> \<exists>x \<in> set (runs d). run_sig r' = run_sig x"
    "r' \<in> set (runs m) \<Longrightarrow> r_id r' = r_id r \<Longrightarrow> run_sig r' = run_sig (r\<lparr>r_watermark := w\<rparr>)"
    "get_run m (r_id r) \<noteq> None" "\<forall>n \<in> {0..w}. get_delta m (r_id r) n \<noteq> None"
    "get_delta m (r_id r) (w + 1) = None"
proof -
  let ?l = "foldl (promote_delta (r_session r) (r_id r) now fresh) d' [r_watermark r + 1..w]"
  have m: "m = update_run (r_id r) (\<lambda>r. r\<lparr>r_watermark := w, r_updated := now\<rparr>) ?l"
    by (simp add: m_def set_watermark_def)
  note B = buffered_run [OF b]
  have ok: "threads_ok d'" and parts: "run_parts d' = run_parts d" using b by (simp_all add: buffered_def)
  from climb_spec [of "r_watermark r" "orders d' (r_id r)"]
  have climb: "r_watermark r \<le> w" "\<forall>n \<in> {r_watermark r + 1..w}. get_delta d' (r_id r) n \<noteq> None"
    "get_delta d' (r_id r) (w + 1) = None"
    unfolding w using orders_iff [of _ d' "r_id r"] by (auto simp del: not_None_eq)
  have eff: "deltas_effect d' ?l (r_id r) (r_session r) (fresh ` set [r_watermark r + 1..w])
      (map (\<lambda>n. the (get_delta d' (r_id r) n)) [r_watermark r + 1..w])"
    using climb(2) fresh(2) inj_on_subset [OF fresh(1) subset_UNIV]
    by (intro promote_deltas_effect [OF ok B(7)]) (simp_all add: set_upto del: not_None_eq)
  then show "threads_ok m"
    unfolding m by (intro threads_ok_update_run) (simp_all add: deltas_effect_def same_run_def)
  show del: "deltas m = deltas d'" using eff by (simp add: m deltas_effect_def)
  then have get: "get_delta m = get_delta d'" by (simp add: get_delta_def fun_eq_iff)
  show "i \<noteq> r_id r \<Longrightarrow> run_parts m i s = run_parts d i s"
    using eff by (simp add: m deltas_effect_def parts)
  have "run_parts m (r_id r) (r_session r)
      = foldl add_part (parts_of (delta_seq d' (r_id r) (r_watermark r)))
          (map (\<lambda>n. the (get_delta d' (r_id r) n)) [r_watermark r + 1..w])"
    using eff B(3) by (simp add: m deltas_effect_def)
  also have "\<dots> = parts_of (delta_seq d' (r_id r) w)"
    by (simp add: delta_seq_extend [OF B(1) climb(1)] parts_of_append)
  finally show "run_parts m (r_id r) (r_session r) = parts_of (delta_seq m (r_id r) w)"
    by (simp add: delta_seq_def get)
  have fixed: "map run_fixed (runs ?l) = map run_fixed (runs d')" using eff by (simp add: deltas_effect_def)
  have rows: "\<exists>x \<in> set (runs d'). run_sig y = run_sig x" if "y \<in> set (runs ?l)" for y
    using in_map_eqD [OF that fixed] by (metis run_sig_fixed)
  show "\<exists>x \<in> set (runs d). run_sig r' = run_sig x" if "r' \<in> set (runs m)" "r_id r' \<noteq> r_id r"
  proof -
    from that have "r' \<in> set (runs ?l)" by (auto simp: m update_run_def split: if_split_asm)
    with rows buffered_row(1) [OF b] show ?thesis by metis
  qed
  show "run_sig r' = run_sig (r\<lparr>r_watermark := w\<rparr>)" if "r' \<in> set (runs m)" "r_id r' = r_id r"
  proof -
    from that obtain y where y: "y \<in> set (runs ?l)" "r_id y = r_id r" "r' = y\<lparr>r_watermark := w, r_updated := now\<rparr>"
      by (auto simp: m update_run_def split: if_split_asm)
    from rows [OF y(1)] obtain x where x: "x \<in> set (runs d')" "run_sig y = run_sig x" by blast
    with y(2) have "run_sig y = run_sig r" using buffered_row(2) [OF b x(1)] by (simp add: run_sig_def)
    then show ?thesis by (simp add: y(3) run_sig_def)
  qed
  show "get_run m (r_id r) \<noteq> None"
  proof -
    from B(7) have "active ?l (r_id r) (r_session r)" using run_fixed_active [OF fixed] by blast
    then have "r_id r \<in> r_id ` set (runs ?l)" unfolding active_def by (metis imageI)
    moreover have "map r_id (runs m) = map r_id (runs ?l)" by (simp add: m update_run_def)
    ultimately have "r_id r \<in> r_id ` set (runs m)" by (metis list.set_map)
    then show ?thesis by (auto simp: get_run_def find_None_iff)
  qed
  show "\<forall>n \<in> {0..w}. get_delta m (r_id r) n \<noteq> None"
  proof
    fix n
    assume "n \<in> {0..w}"
    then have "n \<in> {0..r_watermark r} \<or> n \<in> {r_watermark r + 1..w}" by auto
    with B(2) climb(2) show "get_delta m (r_id r) n \<noteq> None" unfolding get by blast
  qed
  show "get_delta m (r_id r) (w + 1) = None" unfolding get by (rule climb(3))
qed

lemma promote_contents:
  assumes b: "buffered d d' r" and fresh: "inj fresh" "\<forall>n. fresh n \<notin> e_id ` set (entries d')"
  shows "contents_ok (promote r now fresh d')"
proof -
  let ?w = "climb (orders d' (r_id r)) (r_watermark r)"
  define m where "m = set_watermark (r_id r) ?w now
    (foldl (promote_delta (r_session r) (r_id r) now fresh) d' [r_watermark r + 1..?w])"
  have b': "contents_ok d" "threads_ok d'" "in_flight (r_status r)" "\<And>i. i \<noteq> r_id r \<Longrightarrow> get_delta d' i = get_delta d i"
    using b by (simp_all add: buffered_def)
  note B = buffered_run [OF b] and M = promote_moves [OF b refl fresh, where now = now, folded m_def]
  obtain c where c: "get_chat d' (r_session r) = Some c" using active_chat [OF b'(2) B(7)] by blast
  from climb_spec [of "r_watermark r" "orders d' (r_id r)"]
  have climb: "r_watermark r \<le> ?w" "get_delta d' (r_id r) (?w + 1) = None"
    using orders_iff [of _ d' "r_id r"] by auto
  have get: "get_delta m i = get_delta d i" if "i \<noteq> r_id r" for i
    using b'(4) [OF that] M(2) by (simp add: get_delta_def fun_eq_iff)
  obtain r1 where r1: "get_run m (r_id r) = Some r1" using M(7) by blast
  then have in1: "r1 \<in> set (runs m)" "r_id r1 = r_id r" by (auto simp: get_run_def find_Some_iff)
  note sig = M(6) [OF in1]
  have w: "r_watermark r1 = ?w" "r_session r1 = r_session r" using sig by (simp_all add: run_sig_def)
  consider "?w = r_watermark r" | "?w \<noteq> r_watermark r" "complete r1" | "?w \<noteq> r_watermark r" "\<not> complete r1" by blast
  then show ?thesis
  proof cases
    case 1
    with climb(2) promote_still [OF b] show ?thesis by (simp add: promote_def c)
  next
    case 2
    have "contents_ok (finish_run r1 m)"
      using finish_run_contents [OF b'(1) M(1) in1(1) 2(2) in1(2) M(5) M(3) get] M(4,8) B(1) climb(1)
      by (simp add: w)
    with 2 show ?thesis by (simp add: promote_def c Let_def r1 m_def [symmetric])
  next
    case 3
    have "contents_ok m"
    proof (rule contents_ok_one [OF b'(1) M(1,5,3) get])
      fix r'
      assume "r' \<in> set (runs m)" "r_id r' = r_id r"
      then have r': "r' = r1" using run_id_inj [OF threads_okD(1) [OF M(1)] _ in1(1)] in1(2) by simp
      have "in_flight (r_status r1)" "r_status r1 = r_status r" "r_last r1 = r_last r" "r_finish_at r1 = r_finish_at r"
        using sig b'(3) by (simp_all add: run_sig_def)
      then show "run_content m r'"
        using 3(2) M(4,8,9) B(1,5,6) climb(1)
        by (simp add: r' run_content_def w in1(2) in_flight_iff)
    qed
    with 3 show ?thesis by (simp add: promote_def c Let_def r1 m_def [symmetric])
  qed
qed

text \<open>The row of a new delta.\<close>

lemma get_delta_append:
  "get_delta (d\<lparr>deltas := deltas d @ [x]\<rparr>) i n
     = (case get_delta d i n of Some y \<Rightarrow> Some y
        | None \<Rightarrow> if d_run x = i \<and> d_order x = n then Some x else None)"
proof -
  have "find P (xs @ [x]) = (case find P xs of Some y \<Rightarrow> Some y | None \<Rightarrow> if P x then Some x else None)"
    for P :: "delta \<Rightarrow> bool" and xs by (induction xs) auto
  then show ?thesis by (simp add: get_delta_def)
qed

lemma partial_response_contents:
  assumes ok: "contents_ok d" and fresh: "inj fresh" "\<forall>n. fresh n \<notin> e_id ` set (entries d)"
  shows "contents_ok (fst (partial_response s order kind txt pressure message now fresh d))"
proof (cases "in_flight_for_session d s")
  case (Some r)
  note r = in_flight_forD [OF Some]
  let ?x = "\<lparr>d_run = r_id r, d_order = order, d_kind = kind, d_text = txt,
    d_total = map_option fst pressure, d_used = map_option snd pressure\<rparr>"
  let ?d = "update_run (r_id r) (\<lambda>r. r\<lparr>r_event := now, r_updated := now\<rparr>) (d\<lparr>deltas := deltas d @ [?x]\<rparr>)"
  have get: "get_delta ?d = get_delta (d\<lparr>deltas := deltas d @ [?x]\<rparr>)" by (simp add: get_delta_def fun_eq_iff)
  have "run_sig (if r_id x = r_id r then x\<lparr>r_event := now, r_updated := now\<rparr> else x) = run_sig x" for x
    by (simp add: run_sig_def)
  then have "map run_sig (runs ?d) = map run_sig (runs d)" by (simp add: update_run_def)
  then have sigs: "run_sig ` set (runs ?d) = run_sig ` set (runs d)" by (metis list.set_map)
  have "threads_ok (d\<lparr>deltas := deltas d @ [?x]\<rparr>)"
    using threads_okD(1) [OF contents_okD(1) [OF ok]] r
    by (intro threads_ok_deltas [OF contents_okD(1) [OF ok]]) (auto simp: keys_ok_def)
  then have threads: "threads_ok ?d" by (rule threads_ok_update_run) (simp add: same_run_def)
  have parts: "run_parts ?d = run_parts d" by (simp add: run_parts_def list_entries_def fun_eq_iff)
  have b: "buffered d ?d r" if "get_delta d (r_id r) order = None"
  proof -
    have "\<forall>n \<in> {0..r_watermark r}. get_delta d (r_id r) n \<noteq> None"
      using contents_okD(2) [OF ok, of r] r by (simp add: run_content_def)
    with that have "order \<notin> {0..r_watermark r}" by blast
    then have "\<forall>n \<in> {0..r_watermark r}. get_delta ?d (r_id r) n = get_delta d (r_id r) n"
      unfolding get get_delta_append by (auto split: option.split)
    moreover have "get_delta ?d i = get_delta d i" if "i \<noteq> r_id r" for i
      unfolding get get_delta_append using that by (auto simp: fun_eq_iff split: option.split)
    ultimately show ?thesis unfolding buffered_def using ok threads r sigs parts by blast
  qed
  have "contents_ok (promote r now fresh ?d)" if "get_delta d (r_id r) order = None"
    using promote_contents [OF b [OF that] fresh(1)] fresh(2) by simp
  then show ?thesis
    using ok by (simp add: partial_response_def Some Let_def)
qed (simp add: partial_response_def ok)

section \<open>The other transactions\<close>

lemma contents_ok_congs [simp]:
  "contents_ok (remember_subject i t d) \<longleftrightarrow> contents_ok d" "contents_ok (forget_subject i d) \<longleftrightarrow> contents_ok d"
  by (simp_all add: contents_ok_def run_content_def delta_seq_def get_delta_def)

text \<open>Changing the row of one run.\<close>

lemma contents_ok_set:
  assumes ok: "contents_ok d" and r: "r \<in> set (runs d)" and id: "\<And>x. r_id (f x) = r_id x"
    and f: "same_run r (f r)" and c: "run_content (update_run (r_id r) f d) (f r)"
  shows "contents_ok (update_run (r_id r) f d)"
proof (rule contents_ok_one [OF ok])
  have "x = r" if "x \<in> set (runs d)" "r_id x = r_id r" for x
    using run_id_inj [OF threads_okD(1) [OF contents_okD(1) [OF ok]]] that r by blast
  then show "threads_ok (update_run (r_id r) f d)"
    using f by (intro threads_ok_update_run [OF contents_okD(1) [OF ok]]) metis
  fix r'
  assume r': "r' \<in> set (runs (update_run (r_id r) f d))"
  show "r_id r' \<noteq> r_id r \<Longrightarrow> \<exists>r \<in> set (runs d). run_sig r' = run_sig r"
    using r' by (auto simp: update_run_def id split: if_split_asm)
  assume "r_id r' = r_id r"
  with r' obtain x where "x \<in> set (runs d)" "r_id x = r_id r" "r' = f x"
    by (auto simp: update_run_def id split: if_split_asm)
  with run_id_inj [OF threads_okD(1) [OF contents_okD(1) [OF ok]]] r c
  show "run_content (update_run (r_id r) f d) r'" by metis
qed simp_all

lemma ack_commit_contents:
  assumes ok: "contents_ok d"
  shows "contents_ok (fst (ack_commit s m now d))"
proof (cases "pending_run d s m")
  case (Some r)
  then have "in_flight_for_session d s = Some r" and p: "r_status r = Pending"
    by (auto simp: pending_run_def split: option.split_asm if_split_asm)
  then have r: "r \<in> set (runs d)" by (auto dest: in_flight_forD)
  let ?g = "\<lambda>r. r\<lparr>r_status := Running, r_event := now, r_updated := now\<rparr>"
  have "contents_ok (update_run (r_id r) ?g d)"
  proof (rule contents_ok_set [OF ok r])
    show "same_run r (?g r)" by (simp add: same_run_def p)
    show "run_content (update_run (r_id r) ?g d) (?g r)"
      using contents_okD(2) [OF ok r] p
      by (simp add: run_content_def delta_seq_def complete_iff)
  qed simp
  then show ?thesis by (simp add: ack_commit_def Some)
qed (simp add: ack_commit_def ok)

lemma ping_contents: "contents_ok d \<Longrightarrow> contents_ok (ping s now d)"
  by (auto simp: ping_def same_run_def run_sig_def intro: contents_ok_update split: option.split)

lemma send_done_contents: "contents_ok d \<Longrightarrow> contents_ok (send_done i now d)"
  by (simp add: send_done_def same_run_def run_sig_def contents_ok_update)

text \<open>Breaking a run leaves the others alone.\<close>

lemma break_run_rows_cong:
  "r_id r' = r_id r \<Longrightarrow> r_session r' = r_session r \<Longrightarrow> r_user_entry r' = r_user_entry r \<Longrightarrow> r_status r' = r_status r
   \<Longrightarrow> break_run_rows r' now d = break_run_rows r now d"
  by (simp add: break_run_rows_def unlink_turn_def cong: option.case_cong)

lemma break_run_contents:
  assumes ok: "contents_ok d" and r: "r \<in> set (runs d)"
  shows "contents_ok (break_run_rows r now d)"
proof (cases "in_flight (r_status r)")
  case True
  note threads = contents_okD(1) [OF ok]
  from threads_okD(5) [OF threads r True] obtain pre u mine where t:
    "list_entries d (r_session r) = pre @ u # mine" "e_id u = r_user_entry r"
    "e_run u = None" "\<forall>e \<in> set mine. e_run e = Some (r_id r)" "\<forall>e \<in> set pre. e_run e \<noteq> Some (r_id r)"
    unfolding owns_tail_def by blast
  note S = break_run_rows_simps [OF threads r True t(1,2), where now = now]
  note L = break_run_threads [OF threads r True t, where now = now]
  show ?thesis
  proof (rule contents_ok_one [OF ok break_run_ok [OF threads r True]])
    fix i s
    assume i: "i \<noteq> r_id r"
    have "run_entries i mine = []" using t(4) i by (simp add: filter_empty_conv)
    then have "map entry_part (run_entries i (list_entries d (r_session r))) = map entry_part (run_entries i pre)"
      using t(3) by (simp add: t(1))
    then show "run_parts (break_run_rows r now d) i s = run_parts d i s"
      by (cases "s = r_session r") (simp_all add: run_parts_def L)
    have F: "find (\<lambda>x. d_run x = i \<and> d_order x = n) (filter (\<lambda>x. d_run x \<noteq> r_id r) xs)
        = find (\<lambda>x. d_run x = i \<and> d_order x = n) xs" for n xs
      using i by (induction xs) auto
    show "get_delta (break_run_rows r now d) i = get_delta d i"
      unfolding get_delta_def S by (rule ext) (rule F)
  qed (auto simp: S)
qed (use ok in \<open>simp add: break_run_rows_def in_flight_iff\<close>)

lemma break_run_event:
  assumes ok: "contents_ok d" and r: "r \<in> set (runs d)" and f: "\<And>x. same_run x (f x)" "\<And>x. run_sig (f x) = run_sig x"
  shows "contents_ok (break_run_rows r now (update_run (r_id r) f d))"
proof -
  have "f r \<in> set (runs (update_run (r_id r) f d))" using r by (auto simp: update_run_def)
  from break_run_contents [OF contents_ok_update [OF ok f] this]
  have "contents_ok (break_run_rows (f r) now (update_run (r_id r) f d))" .
  moreover have "break_run_rows (f r) now = break_run_rows r now"
    using f [of r] by (intro ext break_run_rows_cong) (simp_all add: same_run_def run_sig_def)
  ultimately show ?thesis by simp
qed

lemma break_run_reason_contents: "contents_ok d \<Longrightarrow> contents_ok (fst (break_run i reason now d))"
  using break_run_event [where f = "\<lambda>r. r\<lparr>r_error := Some reason\<rparr>" and now = now]
  by (auto simp: break_run_def get_run_def find_Some_iff same_run_def run_sig_def split: option.split)

lemma engine_error_contents: "contents_ok d \<Longrightarrow> contents_ok (fst (engine_error s m txt now d))"
  using break_run_event [where f = "\<lambda>r. r\<lparr>r_error := Some txt\<rparr>" and now = now]
  by (auto simp: engine_error_def same_run_def run_sig_def dest!: in_flight_forD split: option.split)

text \<open>The end of a run is announced.\<close>

lemma update_run_update:
  "(\<And>r. r_id (f r) = r_id r) \<Longrightarrow> update_run i g (update_run i f d) = update_run i (\<lambda>r. g (f r)) d"
  by (auto simp: update_run_def)

lemma finish_run_cong:
  "r_id r' = r_id r \<Longrightarrow> r_session r' = r_session r \<Longrightarrow> r_candidate r' = r_candidate r
   \<Longrightarrow> finish_run r' d = finish_run r d"
  by (simp add: finish_run_def cong: option.case_cong)

lemma finish_contents:
  assumes ok: "contents_ok d"
  shows "contents_ok (fst (finish s last_order message now d))"
proof (cases "in_flight_for_session d s")
  case (Some r)
  note r = in_flight_forD [OF Some]
  note threads = contents_okD(1) [OF ok]
  have c: "run_content d r" using contents_okD(2) [OF ok] r by blast
  let ?e = "\<lambda>r. r\<lparr>r_event := now, r_updated := now\<rparr>"
  have broken: "contents_ok (break_run_rows r now (update_run (r_id r) ?e d))"
    using r by (intro break_run_event [OF ok]) (simp_all add: same_run_def run_sig_def)
  have ended: "contents_ok (finish_run r (update_run (r_id r) (\<lambda>r. r\<lparr>r_last := Some l\<rparr>) (update_run (r_id r) ?e d)))"
    (is "contents_ok (finish_run r ?d)") if "l \<le> r_watermark r" for l
  proof -
    let ?f = "\<lambda>r. r\<lparr>r_event := now, r_updated := now, r_last := Some l\<rparr>"
    have d': "?d = update_run (r_id r) ?f d" by (simp add: update_run_update)
    have row: "?f r \<in> set (runs ?d)" using r by (auto simp: d' update_run_def)
    have t: "threads_ok ?d"
      unfolding d' by (rule threads_ok_update_run [OF threads]) (simp add: same_run_def)
    have rows: "\<exists>x \<in> set (runs d). run_sig r' = run_sig x" if "r' \<in> set (runs ?d)" "r_id r' \<noteq> r_id r" for r'
      using that by (auto simp: d' update_run_def split: if_split_asm)
    have c': "-1 \<le> r_watermark (?f r)" "\<forall>n \<in> {0..r_watermark (?f r)}. get_delta ?d (r_id r) n \<noteq> None"
      "run_parts ?d (r_id r) (r_session (?f r)) = parts_of (delta_seq ?d (r_id r) (r_watermark (?f r)))"
      using c unfolding run_content_def by (simp_all add: delta_seq_def)
    have "contents_ok (finish_run (?f r) ?d)"
      using that by (intro finish_run_contents [OF ok t row _ _ rows _ _ c']) (simp_all add: complete_iff)
    then show ?thesis using finish_run_cong [of "?f r" r ?d] by simp
  qed
  have finishing: "contents_ok (update_run (r_id r) (\<lambda>r. r\<lparr>r_status := Finishing, r_finish_at := Some now\<rparr>)
      (update_run (r_id r) (\<lambda>r. r\<lparr>r_last := Some n\<rparr>) (update_run (r_id r) ?e d)))"
    if "r_watermark r < n" for n
    using c that r
    by (subst update_run_update, simp)+
      (auto intro!: contents_ok_set [OF ok] simp: same_run_def run_content_def delta_seq_def complete_iff)
  have again: "contents_ok (update_run (r_id r) (\<lambda>r. r\<lparr>r_last := Some l\<rparr>) (update_run (r_id r) ?e d))"
    if "r_last r = Some l" for l
    using c that r
    by (subst update_run_update, simp)+
      (auto intro!: contents_ok_set [OF ok] simp: same_run_def run_content_def delta_seq_def complete_iff)
  have fin: "r_status r = Finishing \<longleftrightarrow> r_last r \<noteq> None" using c r by (simp add: run_content_def)
  show ?thesis
    using ok broken ended finishing again fin
    by (auto simp: finish_def Some Let_def split: option.split)
qed (simp add: finish_def ok)

end
