(* ===== verification/Thread_Steps.thy ===== *)
theory Thread_Steps
  imports Thread_Content
begin

text \<open>
  All transactions of the \<open>ads\<close> service as one step relation, the invariant of the tables over every
  interleaving of them, and the handlers as sequences of such steps.
\<close>

section \<open>Sending and creating\<close>

lemma run_parts_unknown:
  assumes "keys_ok d" "rid \<notin> r_id ` set (runs d)"
  shows "run_parts d rid s = []" "get_delta d rid n = None"
proof -
  have "e_run e \<noteq> Some rid" if "e \<in> set (entries d)" for e
  proof
    assume "e_run e = Some rid"
    with assms(1) that have "(rid, e_session e) \<in> run_key ` set (runs d)" by (simp add: keys_ok_def)
    with assms(2) show False by (auto simp: run_key_def)
  qed
  then show "run_parts d rid s = []" by (simp add: run_parts_def list_entries_def filter_empty_conv)
  show "get_delta d rid n = None"
    using assms unfolding get_delta_def find_None_iff keys_ok_def by blast
qed

lemma send_claim_contents:
  assumes ok: "contents_ok d" and claim: "send_claim k user s txt model (eid, rid, mid) now d = Inr (h, d')"
    and eid: "eid \<notin> e_id ` set (entries d)" and rid: "rid \<notin> r_id ` set (runs d)"
  shows "contents_ok d'"
proof -
  note threads = contents_okD(1) [OF ok]
  from claim obtain c where c: "get_chat d s = Some c"
    "d' = (append_entry eid s kind_message (Some role_user) txt None now d)
       \<lparr>runs := runs d @ [\<lparr>r_id = rid, r_session = s, r_message = mid, r_user_entry = eid,
          r_model = model, r_status = Pending, r_watermark = -1, r_last = None,
          r_event = now, r_finish_at = None, r_error = None, r_candidate = None,
          r_total = None, r_used = None, r_created = now, r_updated = now\<rparr>]\<rparr>"
    by (rule send_claimD) blast
  have get: "get_delta d' = get_delta d" by (simp add: c(2) get_delta_def fun_eq_iff)
  have parts: "run_parts d' i s' = run_parts d i s'" for i s'
    using run_parts_append [OF threads c(1) eid, of kind_message "Some role_user" "txt" None now i s']
    by (simp add: c(2) run_parts_def list_entries_def)
  note none = run_parts_unknown [OF threads_okD(1) [OF threads] rid]
  show ?thesis
  proof (rule contents_ok_one [OF ok send_claim_ok [OF threads claim eid rid], where rid = rid])
    fix r'
    assume r': "r' \<in> set (runs d')"
    show "r_id r' \<noteq> rid \<Longrightarrow> \<exists>r \<in> set (runs d). run_sig r' = run_sig r"
      using r' by (auto simp: c(2))
    assume "r_id r' = rid"
    moreover from this rid have "r' \<notin> set (runs d)" by blast
    ultimately have "r_id r' = rid" "r_watermark r' = -1" "r_status r' = Pending" "r_last r' = None" "r_finish_at r' = None"
      using r' by (auto simp: c(2))
    then show "run_content d' r'"
      using none by (simp add: run_content_def parts get parts_of_def delta_seq_def complete_iff)
  qed (simp_all add: parts get)
qed

lemma run_content_same:
  "get_delta d' = get_delta d \<Longrightarrow> run_parts d' = run_parts d \<Longrightarrow> run_content d' = run_content d"
  by (simp add: fun_eq_iff run_content_def delta_seq_def)

lemma create_session_contents:
  assumes ok: "contents_ok d" and create: "create_session current p name description new now d = Inr (v, d')"
    and new: "new \<notin> s_id ` set (chats d)"
  shows "contents_ok d'"
proof -
  from create obtain pr user n t where "d' = d\<lparr>chats := chats d @ [\<lparr>s_id = new, s_project = pr,
      s_user = user, s_name = n, s_description = t, s_latest = None, s_committed = None,
      s_created = now, s_updated = now\<rparr>]\<rparr>"
    by (auto simp: create_session_def Let_def result_simps split: option.split_asm)
  then obtain row where row: "d' = d\<lparr>chats := chats d @ [row]\<rparr>" by blast
  have le: "list_entries d' = list_entries d" by (simp add: row list_entries_def fun_eq_iff)
  have "get_delta d' = get_delta d" by (simp add: row get_delta_def fun_eq_iff)
  moreover have "run_parts d' = run_parts d" by (simp add: run_parts_def le fun_eq_iff)
  ultimately have "run_content d' = run_content d" by (rule run_content_same)
  moreover have "runs d' = runs d" by (simp add: row)
  ultimately show ?thesis
    using create_session_ok [OF contents_okD(1) [OF ok] create new] contents_okD(2) [OF ok]
    unfolding contents_ok_def by simp
qed

lemma projects_contents: "contents_ok (d\<lparr>projects := ps\<rparr>) \<longleftrightarrow> contents_ok d"
proof -
  let ?d = "d\<lparr>projects := ps\<rparr>"
  have l: "list_entries ?d = list_entries d" and g: "get_delta ?d = get_delta d"
    by (simp_all add: list_entries_def get_delta_def fun_eq_iff)
  then have "run_content ?d = run_content d" by (intro run_content_same) (simp_all add: run_parts_def fun_eq_iff)
  moreover have "threads_ok ?d = threads_ok d"
    using l by (simp add: threads_ok_def keys_ok_def all_in_flight_def chat_linked_def committed_ok_def
        candidate_ok_def owns_tail_def)
  ultimately show ?thesis by (simp add: contents_ok_def)
qed

section \<open>The transactions\<close>

datatype thread_event =
    ProjectMade nat
  | SessionMade nat
  | Claimed nat nat "turn list"
  | Remembered nat
  | Produced nat
  | Out "effect list"

text \<open>Ids that \<open>uuid4()\<close> makes are new, and different for different entries.\<close>

definition fresh_ids :: "(int \<Rightarrow> nat) \<Rightarrow> db \<Rightarrow> bool" where
  "fresh_ids fresh d \<longleftrightarrow> inj fresh \<and> (\<forall>n. fresh n \<notin> e_id ` set (entries d))"

inductive tstep :: "codec \<Rightarrow> db \<Rightarrow> thread_event \<Rightarrow> db \<Rightarrow> bool" for k where
  t_project: "create_project current save name description new now d = (Inr (v, d'), undo)
     \<Longrightarrow> tstep k d (ProjectMade new) d'"
| t_session: "create_session current p name description new now d = Inr (v, d')
     \<Longrightarrow> new \<notin> s_id ` set (chats d) \<Longrightarrow> tstep k d (SessionMade new) d'"
| t_claim: "send_claim k user s txt model (eid, rid, mid) now d = Inr (h, d')
     \<Longrightarrow> eid \<notin> e_id ` set (entries d) \<Longrightarrow> rid \<notin> r_id ` set (runs d) \<Longrightarrow> tstep k d (Claimed s mid h) d'"
| t_remember: "tstep k d (Remembered s) (remember_subject s t d)"
| t_produced: "tstep k d (Produced rid) (send_done rid now d)"
| t_ack: "ack_commit s m now d = (d', out) \<Longrightarrow> tstep k d (Out out) d'"
| t_partial: "partial_response s order kind txt pressure message now fresh d = (d', out)
     \<Longrightarrow> fresh_ids fresh d \<Longrightarrow> tstep k d (Out out) d'"
| t_ping: "tstep k d (Out []) (ping s now d)"
| t_finish: "finish s last_order message now d = (d', out) \<Longrightarrow> tstep k d (Out out) d'"
| t_error: "engine_error s m txt now d = (d', out) \<Longrightarrow> tstep k d (Out out) d'"
| t_break: "break_run rid reason now d = (d', out) \<Longrightarrow> tstep k d (Out out) d'"

inductive_cases tstep_claimE: "tstep k d (Claimed s mid h) d'"

text \<open>The tables before the first turn: sessions without entries.\<close>

definition new_tables :: "db \<Rightarrow> bool" where
  "new_tables d \<longleftrightarrow> entries d = [] \<and> runs d = [] \<and> deltas d = [] \<and> distinct (map s_id (chats d))
     \<and> (\<forall>c \<in> set (chats d). s_latest c = None \<and> s_committed c = None)"

lemma new_contents: "new_tables d \<Longrightarrow> contents_ok d"
  by (simp add: new_tables_def contents_ok_def threads_ok_def keys_ok_def all_in_flight_def
      chat_linked_def list_entries_def committed_ok_def)

lemma tstep_contents: "tstep k d e d' \<Longrightarrow> contents_ok d \<Longrightarrow> contents_ok d'"
proof (induction rule: tstep.induct)
  case (t_project current save name description new now d v d' undo)
  then obtain ps where "d' = d\<lparr>projects := ps\<rparr>"
    by (auto simp: create_project_def Let_def split: sum.split_asm if_split_asm)
  with t_project show ?case by (simp add: projects_contents)
next
  case (t_session current p name description new now d v d')
  then show ?case by (blast intro: create_session_contents)
next
  case (t_claim user s t' model eid rid mid now d h d')
  then show ?case by (blast intro: send_claim_contents)
next
  case (t_ack s m now d d' out)
  then show ?case using ack_commit_contents [of d s m now] by simp
next
  case (t_partial s order kind t' pressure message now fresh d d' out)
  then show ?case
    using partial_response_contents [of d fresh s order kind t' pressure message now] by (simp add: fresh_ids_def)
next
  case (t_finish s last_order message now d d' out)
  then show ?case using finish_contents [of d s last_order message now] by simp
next
  case (t_error s m t' now d d' out)
  then show ?case using engine_error_contents [of d s m t' now] by simp
next
  case (t_break rid reason now d d' out)
  then show ?case using break_run_reason_contents [of d rid reason now] by simp
qed (simp_all add: send_done_contents ping_contents)

interpretation threads: invariant_system new_tables "tstep k" contents_ok for k
  by unfold_locales (auto intro: new_contents tstep_contents)

section \<open>The handlers\<close>

abbreviation tsteps :: "codec \<Rightarrow> db \<Rightarrow> db \<Rightarrow> bool" where
  "tsteps k d d' \<equiv> reachable (\<lambda>x. x = d) (tstep k) d'"

lemma tsteps_refl [simp]: "tsteps k d d"
  by (rule reachable_start) simp

lemma tsteps_one: "tstep k d e d' \<Longrightarrow> tsteps k d d'"
  by (rule reachable_step [OF tsteps_refl])

lemma tsteps_trans:
  assumes "tsteps k b c" "reachable start (tstep k) b"
  shows "reachable start (tstep k) c"
  using assms by (induction rule: reachable.induct) (auto intro: reachable_step)





lemma break_run_steps: "tsteps k d (fst (break_run rid reason now d))"
  by (rule tsteps_one, rule t_break [of rid reason now]) (rule prod.collapse [symmetric])

lemma abort_and_break_steps:
  assumes "\<And>d. tsteps k d (meanwhile d)"
  shows "tsteps k d (fst (abort_and_break produced meanwhile rid now d))"
proof -
  have "tsteps k d (fst (break_run rid reason now (meanwhile d)))" for reason
    by (rule tsteps_trans [OF break_run_steps assms])
  then show ?thesis by (simp add: abort_and_break_def Let_def split_beta split: option.split)
qed



section \<open>The watchdog\<close>

lemma break_in_flight:
  assumes ok: "contents_ok d"
  shows "all_in_flight (fst (break_run rid reason now d)) = filter (\<lambda>x. r_id x \<noteq> rid) (all_in_flight d)"
proof (cases "get_run d rid")
  case None
  then have "\<forall>x \<in> set (runs d). r_id x \<noteq> rid" by (simp add: get_run_def find_None_iff)
  then show ?thesis by (simp add: break_run_def None all_in_flight_def cong: filter_cong)
next
  case (Some r)
  then have r: "r \<in> set (runs d)" "r_id r = rid" by (auto simp: get_run_def find_Some_iff)
  note threads = contents_okD(1) [OF ok]
  have only: "x = r" if "x \<in> set (runs d)" "r_id x = rid" for x
    using run_id_inj [OF threads_okD(1) [OF threads]] that r by blast
  let ?f = "\<lambda>r. r\<lparr>r_error := Some reason\<rparr>"
  let ?d = "update_run rid ?f d"
  have filtered: "filter P (map (\<lambda>x. if r_id x = rid then ?f x else x) xs) = filter P xs"
    if "\<And>x. r_id x = rid \<Longrightarrow> \<not> P (?f x) \<and> \<not> P x" for P xs
    using that by (induction xs) auto
  show ?thesis
  proof (cases "in_flight (r_status r)")
    case True
    have ok': "threads_ok ?d" by (rule threads_ok_update_run [OF threads]) (simp add: same_run_def)
    have row: "?f r \<in> set (runs ?d)" "in_flight (r_status (?f r))"
      using r True by (auto simp: update_run_def)
    from threads_okD(5) [OF ok' row] obtain pre u mine where
      "list_entries ?d (r_session (?f r)) = pre @ u # mine" "e_id u = r_user_entry (?f r)"
      unfolding owns_tail_def by blast
    note S = break_run_rows_simps(1) [OF ok' row this, where now = now]
    have "break_run_rows r now ?d = break_run_rows (?f r) now ?d" by (rule break_run_rows_cong) simp_all
    then have "all_in_flight (fst (break_run rid reason now d))
        = filter (\<lambda>x. in_flight (r_status x) \<and> r_id x \<noteq> rid) (runs ?d)"
      by (simp add: break_run_def Some all_in_flight_def S r(2) conj_commute)
    also have "\<dots> = filter (\<lambda>x. in_flight (r_status x) \<and> r_id x \<noteq> rid) (runs d)"
      by (simp add: update_run_def filtered)
    finally show ?thesis by (simp add: all_in_flight_def conj_commute)
  next
    case False
    then have "break_run_rows r now ?d = ?d" by (simp add: break_run_rows_def in_flight_iff)
    moreover have "filter (\<lambda>x. in_flight (r_status x)) (runs ?d) = filter (\<lambda>x. in_flight (r_status x)) (runs d)"
    proof -
      have "filter Q (map g xs) = filter Q xs" if "\<forall>x \<in> set xs. g x = x \<or> \<not> Q (g x) \<and> \<not> Q x" for Q and g :: "run_row \<Rightarrow> run_row" and xs
        using that by (induction xs) auto
      moreover have "\<forall>x \<in> set (runs d). (if r_id x = rid then ?f x else x) = x
          \<or> \<not> in_flight (r_status (if r_id x = rid then ?f x else x)) \<and> \<not> in_flight (r_status x)"
        using only False by auto
      ultimately show ?thesis unfolding update_run_def by simp
    qed
    moreover have "filter (\<lambda>x. r_id x \<noteq> rid) (all_in_flight d) = all_in_flight d"
      using only False unfolding all_in_flight_def filter_filter by (intro filter_cong) auto
    ultimately show ?thesis by (simp add: break_run_def Some all_in_flight_def)
  qed
qed

lemma abort_in_flight:
  assumes ok: "contents_ok d" "contents_ok (meanwhile d)" "all_in_flight (meanwhile d) = all_in_flight d"
  shows "all_in_flight (fst (abort_and_break produced meanwhile rid now d)) = filter (\<lambda>x. r_id x \<noteq> rid) (all_in_flight d)"
proof -
  have "filter (\<lambda>x. r_id x \<noteq> rid) (all_in_flight d) = all_in_flight d"
    if "\<And>r. get_run d rid = Some r \<Longrightarrow> r_status r = Finished"
  proof -
    have "r_id x \<noteq> rid" if x: "x \<in> set (all_in_flight d)" for x
    proof
      assume "r_id x = rid"
      with x have "get_run d rid = Some x"
        using threads_okD(1) [OF contents_okD(1) [OF ok(1)]] by (simp add: get_run_iff all_in_flight_def keys_ok_def)
      with \<open>\<And>r. get_run d rid = Some r \<Longrightarrow> r_status r = Finished\<close> x show False
        by (simp add: all_in_flight_def)
    qed
    then show ?thesis by (simp add: filter_id_conv)
  qed
  then show ?thesis
    using break_in_flight [OF ok(2), of rid "''ping death''" now]
    by (auto simp: abort_and_break_def Let_def split_beta ok(3) split: option.split)
qed

lemma foldl_in_flight:
  assumes f: "\<And>d x. contents_ok d \<Longrightarrow> contents_ok (fst (f d x))
      \<and> all_in_flight (fst (f d x)) = filter (\<lambda>r. r_id r \<noteq> x) (all_in_flight d)"
    and ok: "contents_ok d"
  defines "g \<equiv> foldl (\<lambda>(d, out) x. let (d', out') = f d x in (d', out @ out'))"
  shows "contents_ok (fst (g (d, out) xs))
    \<and> all_in_flight (fst (g (d, out) xs)) = filter (\<lambda>r. r_id r \<notin> set xs) (all_in_flight d)"
  using ok
proof (induction xs arbitrary: d out)
  case (Cons x xs)
  from f [OF Cons.prems] Cons.IH [of "fst (f d x)"]
  show ?case by (simp add: g_def Let_def split_beta conj_commute)
qed (simp add: g_def)

text \<open>What the watchdog leaves: the runs whose deadline is still ahead.\<close>

definition due :: "int \<Rightarrow> int \<Rightarrow> int \<Rightarrow> run_row \<Rightarrow> bool" where
  "due ping_death finish_gap now r \<longleftrightarrow>
     (case r_finish_at r of None \<Rightarrow> r_event r + ping_death \<le> now | Some t \<Rightarrow> t + finish_gap \<le> now)"

lemma due_lists:
  assumes ok: "contents_ok d" and r: "r \<in> set (all_in_flight d)"
  shows "r_id r \<in> set (overdue ping_death now d) \<union> set (gapped finish_gap now d) \<longleftrightarrow> due ping_death finish_gap now r"
proof -
  have only: "x = r" if "x \<in> set (all_in_flight d)" "r_id x = r_id r" for x
    using run_id_inj [OF threads_okD(1) [OF contents_okD(1) [OF ok]]] that r by (simp add: all_in_flight_def)
  have listed: "r_id r \<in> set (map r_id (filter P (all_in_flight d))) \<longleftrightarrow> P r" for P
  proof
    assume "r_id r \<in> set (map r_id (filter P (all_in_flight d)))"
    then obtain x where "x \<in> set (all_in_flight d)" "P x" "r_id x = r_id r" by auto
    with only [of x] show "P r" by simp
  qed (use r in simp)
  have c: "run_content d r" "in_flight (r_status r)" using contents_okD(2) [OF ok] r by (simp_all add: all_in_flight_def)
  have "r_id r \<in> set (overdue ping_death now d) \<longleftrightarrow> r_status r \<in> {Pending, Running} \<and> r_event r + ping_death \<le> now"
    unfolding overdue_def listed by simp
  moreover have "r_id r \<in> set (gapped finish_gap now d) \<longleftrightarrow> r_status r = Finishing \<and> \<not> complete r
      \<and> (\<exists>t. r_finish_at r = Some t \<and> t + finish_gap \<le> now)"
    unfolding gapped_def listed by (simp split: option.split)
  moreover have fin: "r_status r = Finishing \<longleftrightarrow> r_finish_at r \<noteq> None" "\<not> complete r"
    using c unfolding run_content_def by blast+
  moreover from fin c(2) have "r_status r \<in> {Pending, Running} \<longleftrightarrow> r_finish_at r = None"
    by (cases "r_status r") simp_all
  ultimately show ?thesis by (cases "r_finish_at r") (simp_all add: due_def)
qed

lemma tick_survivors:
  assumes ok: "contents_ok d"
  shows "all_in_flight (fst (tick produced (\<lambda>d. d) ping_death finish_gap now d))
    = filter (\<lambda>r. \<not> due ping_death finish_gap now r) (all_in_flight d)"
proof -
  have kept: "contents_ok x \<Longrightarrow> contents_ok (fst (abort_and_break produced (\<lambda>d. d) rid now x))" for x rid
    by (rule threads.reachable_from_inv [OF abort_and_break_steps]) simp_all
  let ?abort = "\<lambda>d rid. abort_and_break produced (\<lambda>d. d) rid now d"
  let ?gap = "\<lambda>d rid. break_run rid ''gapped finish timed out'' now d"
  let ?r = "foldl (\<lambda>(d, out) rid. let (d', out') = ?abort d rid in (d', out @ out')) (d, []) (overdue ping_death now d)"
  have first: "contents_ok (fst ?r) \<and> all_in_flight (fst ?r)
      = filter (\<lambda>r. r_id r \<notin> set (overdue ping_death now d)) (all_in_flight d)"
    by (rule foldl_in_flight [where f = ?abort, OF _ ok]) (simp add: kept abort_in_flight)
  have "contents_ok (fst (foldl (\<lambda>(d, out) rid. let (d', out') = ?gap d rid in (d', out @ out')) (fst ?r, snd ?r) (gapped finish_gap now d)))
      \<and> all_in_flight (fst (foldl (\<lambda>(d, out) rid. let (d', out') = ?gap d rid in (d', out @ out')) (fst ?r, snd ?r) (gapped finish_gap now d)))
      = filter (\<lambda>r. r_id r \<notin> set (gapped finish_gap now d)) (all_in_flight (fst ?r))"
    using first by (intro foldl_in_flight [where f = ?gap]) (simp_all add: break_in_flight break_run_reason_contents)
  then have "all_in_flight (fst (tick produced (\<lambda>d. d) ping_death finish_gap now d))
      = filter (\<lambda>r. r_id r \<notin> set (overdue ping_death now d) \<union> set (gapped finish_gap now d)) (all_in_flight d)"
    using first by (simp add: tick_def conj_commute)
  also have "\<dots> = filter (\<lambda>r. \<not> due ping_death finish_gap now r) (all_in_flight d)"
    using due_lists [OF ok] by (intro filter_cong) blast+
  finally show ?thesis .
qed

section \<open>Properties\<close>

text \<open>A session of user 7 in which a turn is sent and answered in two pieces, the later one first.\<close>

definition example_codec :: codec where
  "example_codec = \<lparr>decode_call = (\<lambda>_. None), decode_result = (\<lambda>_. None), decode_tombstone = (\<lambda>_. None),
     encode = (\<lambda>_. None), render_str = (\<lambda>_. [])\<rparr>"

definition example_fresh :: "nat \<Rightarrow> int \<Rightarrow> nat" where
  "example_fresh base n = (if 0 \<le> n then 2 * nat n else 2 * nat (- n) + 1) + base"

definition example_chat :: "nat option \<Rightarrow> chat" where
  "example_chat latest = \<lparr>s_id = 1, s_project = 2, s_user = 7, s_name = ''n'', s_description = ''d'',
     s_latest = latest, s_committed = None, s_created = 0, s_updated = 0\<rparr>"

definition example_entry :: "nat \<Rightarrow> nat option \<Rightarrow> nat option \<Rightarrow> string \<Rightarrow> string \<Rightarrow> nat option \<Rightarrow> entry" where
  "example_entry i p n role t run = \<lparr>e_id = i, e_session = 1, e_prev = p, e_next = n, e_kind = kind_message,
     e_role = Some role, e_text = t, e_run = run, e_at = 0\<rparr>"

definition example_pending :: "int \<Rightarrow> run_row" where
  "example_pending w = \<lparr>r_id = 20, r_session = 1, r_message = 30, r_user_entry = 10, r_model = 5,
     r_status = Pending, r_watermark = w, r_last = None, r_event = 0, r_finish_at = None, r_error = None,
     r_candidate = None, r_total = None, r_used = None, r_created = 0, r_updated = 0\<rparr>"

definition example_delta :: "int \<Rightarrow> string \<Rightarrow> delta" where
  "example_delta n t = \<lparr>d_run = 20, d_order = n, d_kind = kind_message, d_text = t, d_total = None, d_used = None\<rparr>"

definition example_db :: "nat option \<Rightarrow> entry list \<Rightarrow> run_row list \<Rightarrow> delta list \<Rightarrow> db" where
  "example_db latest es rs xs = \<lparr>projects = [], chats = [example_chat latest], entries = es, runs = rs,
     deltas = xs, subjects = []\<rparr>"

definition example_sent :: db where
  "example_sent = example_db (Some 10) [example_entry 10 None None role_user ''hi'' None] [example_pending (-1)] []"

definition example_gap :: db where
  "example_gap = example_db (Some 10) [example_entry 10 None None role_user ''hi'' None] [example_pending (-1)]
     [example_delta 1 ''b'']"

definition example_full :: db where
  "example_full = example_db (Some 100) [example_entry 10 None (Some 100) role_user ''hi'' None,
     example_entry 100 (Some 10) None role_assistant ''ab'' (Some 20)] [example_pending 1]
     [example_delta 1 ''b'', example_delta 0 ''a'']"

text \<open>The same pieces in order.\<close>

definition example_first :: db where
  "example_first = example_db (Some 100) [example_entry 10 None (Some 100) role_user ''hi'' None,
     example_entry 100 (Some 10) None role_assistant ''a'' (Some 20)] [example_pending 0] [example_delta 0 ''a'']"

definition example_ordered :: db where
  "example_ordered = example_db (Some 100) [example_entry 10 None (Some 100) role_user ''hi'' None,
     example_entry 100 (Some 10) None role_assistant ''ab'' (Some 20)] [example_pending 1]
     [example_delta 0 ''a'', example_delta 1 ''b'']"

lemmas example_defs = example_db_def example_chat_def example_entry_def example_pending_def example_delta_def

lemma example_fresh_inj: "inj (example_fresh base)"
proof (rule inj_on_inverseI)
  fix n :: int
  have "\<not> 0 \<le> n \<Longrightarrow> (1 - 2 * n) div 2 = - n" by presburger
  then show "(\<lambda>m. if even (m - base) then int (m - base) div 2 else - (int (m - base) div 2)) (example_fresh base n) = n"
    by (simp add: example_fresh_def)
qed

lemma example_steps:
  "reachable new_tables (tstep example_codec) example_sent"
  "reachable new_tables (tstep example_codec) example_gap"
  "reachable new_tables (tstep example_codec) example_full"
  "reachable new_tables (tstep example_codec) example_first"
  "reachable new_tables (tstep example_codec) example_ordered"
proof -
  let ?start = "example_db None [] [] []"
  have "new_tables ?start" by (simp add: new_tables_def example_defs)
  then have start: "reachable new_tables (tstep example_codec) ?start" by (rule reachable_start)
  have "send_claim example_codec 7 1 ''hi'' 5 (10, 20, 30) 0 ?start = Inr ([], example_sent)" by code_simp
  then have "tstep example_codec ?start (Claimed 1 30 []) example_sent"
    by (rule t_claim) (simp_all add: example_defs)
  with start show sent: "reachable new_tables (tstep example_codec) example_sent" by (rule reachable_step)
  have "partial_response 1 1 kind_message ''b'' None None 0 (example_fresh 100) example_sent = (example_gap, [Notify 1])"
    by code_simp
  moreover have "fresh_ids (example_fresh 100) example_sent" using example_fresh_inj
    by (auto simp: fresh_ids_def example_sent_def example_defs example_fresh_def)
  note fresh = this
  ultimately have "tstep example_codec example_sent (Out [Notify 1]) example_gap" by (rule t_partial)
  with sent show gap: "reachable new_tables (tstep example_codec) example_gap" by (rule reachable_step)
  have "partial_response 1 0 kind_message ''a'' None None 0 (example_fresh 100) example_gap = (example_full, [Notify 1])"
    by code_simp
  moreover have "fresh_ids (example_fresh 100) example_gap" using example_fresh_inj
    by (auto simp: fresh_ids_def example_gap_def example_defs example_fresh_def)
  ultimately have "tstep example_codec example_gap (Out [Notify 1]) example_full" by (rule t_partial)
  with gap show "reachable new_tables (tstep example_codec) example_full" by (rule reachable_step)
  have "partial_response 1 0 kind_message ''a'' None None 0 (example_fresh 100) example_sent = (example_first, [Notify 1])"
    by code_simp
  then have "tstep example_codec example_sent (Out [Notify 1]) example_first" using fresh by (rule t_partial)
  with sent show first: "reachable new_tables (tstep example_codec) example_first" by (rule reachable_step)
  have "partial_response 1 1 kind_message ''b'' None None 0 (example_fresh 200) example_first = (example_ordered, [Notify 1])"
    by code_simp
  moreover have "fresh_ids (example_fresh 200) example_first" using example_fresh_inj
    by (simp add: fresh_ids_def example_first_def example_defs) (auto simp: example_fresh_def)
  ultimately have "tstep example_codec example_first (Out [Notify 1]) example_ordered" by (rule t_partial)
  with first show "reachable new_tables (tstep example_codec) example_ordered" by (rule reachable_step)
qed

text \<open>C4: However the transactions of senders, the engine and the watchdog interleave, the entries of a
  session form one list linked in both directions from no predecessor to the latest entry, walking it
  reads all of them, a session has at most one run in flight, and that run owns the tail of the list:
  its user entry followed by its own entries.\<close>

theorem thread_invariant:
  assumes "reachable new_tables (tstep k) d"
  shows "(\<forall>c \<in> set (chats d). walk d c = list_entries d (s_id c) \<and> linked_from None (walk d c)
       \<and> distinct (map e_id (walk d c)) \<and> s_latest c = tail_id (walk d c))
    \<and> distinct (map r_session (all_in_flight d)) \<and> (\<forall>r \<in> set (all_in_flight d). owns_tail d r)"
proof -
  have ok: "threads_ok d" by (rule contents_okD(1) [OF threads.reachable_inv [OF assms]])
  have "walk d c = list_entries d (s_id c) \<and> linked_from None (walk d c)
      \<and> distinct (map e_id (walk d c)) \<and> s_latest c = tail_id (walk d c)" if "c \<in> set (chats d)" for c
    using walk_thread [OF ok that] threads_okD(2) [OF ok that] distinct_thread [OF threads_okD(1) [OF ok]]
    by (simp add: chat_linked_def)
  moreover have "distinct (map r_session (all_in_flight d))" using threads_okD(1) [OF ok] by (simp add: keys_ok_def)
  moreover have "owns_tail d r" if "r \<in> set (all_in_flight d)" for r
    using threads_okD(5) [OF ok] that by (simp add: all_in_flight_def)
  ultimately show ?thesis by blast
qed

theorem thread_invariant_witness:
  "map e_id (walk example_full (example_chat (Some 100))) = [10, 100]
    \<and> linked_from None (walk example_full (example_chat (Some 100)))"
proof -
  have "example_chat (Some 100) \<in> set (chats example_full)" by (simp add: example_full_def example_defs)
  moreover have "map e_id (walk example_full (example_chat (Some 100))) = [10, 100]" by code_simp
  ultimately show ?thesis using thread_invariant [OF example_steps(3)] by blast
qed

text \<open>C5: In every reachable state the committed entries of a run, read along its session, are its deltas
  up to the watermark in the order of their numbers, neighbouring pieces of a message or of reasoning
  joined. The watermark of a run in flight ends the numbers that have arrived without a gap and is
  below the announced last number; a finished run has reached it.\<close>

theorem committed_in_order:
  assumes "reachable new_tables (tstep k) d" "r \<in> set (runs d)" "c \<in> set (chats d)" "s_id c = r_session r"
  shows "map entry_part (run_entries (r_id r) (walk d c))
      = parts_of (map (\<lambda>n. the (get_delta d (r_id r) n)) [0..r_watermark r])
    \<and> (\<forall>n \<in> {0..r_watermark r}. get_delta d (r_id r) n \<noteq> None)
    \<and> (in_flight (r_status r) \<longrightarrow> get_delta d (r_id r) (r_watermark r + 1) = None \<and> \<not> complete r)
    \<and> (r_status r = Finished \<longrightarrow> complete r)"
proof -
  note ok = threads.reachable_inv [OF assms(1)]
  have "walk d c = list_entries d (r_session r)"
    using walk_thread [OF contents_okD(1) [OF ok] assms(3)] by (simp add: assms(4))
  with contents_okD(2) [OF ok assms(2)] show ?thesis
    unfolding run_content_def run_parts_def delta_seq_def by simp
qed

theorem committed_in_order_witness:
  "map entry_part (run_entries 20 (walk example_full (example_chat (Some 100))))
      = [(kind_message, Some role_assistant, ''ab'')]"
proof -
  have "example_pending 1 \<in> set (runs example_full)" "example_chat (Some 100) \<in> set (chats example_full)"
    "s_id (example_chat (Some 100)) = r_session (example_pending 1)"
    by (simp_all add: example_full_def example_defs)
  from committed_in_order [OF example_steps(3) this]
  have "map entry_part (run_entries (r_id (example_pending 1)) (walk example_full (example_chat (Some 100))))
      = parts_of (map (\<lambda>n. the (get_delta example_full (r_id (example_pending 1)) n)) [0..r_watermark (example_pending 1)])"
    by blast
  moreover have "parts_of (map (\<lambda>n. the (get_delta example_full (r_id (example_pending 1)) n)) [0..r_watermark (example_pending 1)])
      = [(kind_message, Some role_assistant, ''ab'')]"
    by code_simp
  ultimately show ?thesis by (simp add: example_pending_def)
qed

text \<open>Two histories that gave a run in flight the same deltas, in whatever order and with whatever else
  between, have committed the same entries of it and stand at the same watermark.\<close>

theorem arrival_order_irrelevant:
  assumes "reachable new_tables (tstep k) d" "r \<in> set (all_in_flight d)"
    and "reachable new_tables (tstep k') d'" "r' \<in> set (all_in_flight d')"
    and "get_delta d' (r_id r') = get_delta d (r_id r)"
  shows "r_watermark r' = r_watermark r
    \<and> run_parts d' (r_id r') (r_session r') = run_parts d (r_id r) (r_session r)"
proof -
  have c: "run_content d r" "run_content d' r'" "in_flight (r_status r)" "in_flight (r_status r')"
    using contents_okD(2) [OF threads.reachable_inv [OF assms(1)]] assms(2)
      contents_okD(2) [OF threads.reachable_inv [OF assms(3)]] assms(4) by (simp_all add: all_in_flight_def)
  have w: "w \<le> w'" if "-1 \<le> w'" "\<forall>n \<in> {0..w}. get_delta d (r_id r) n \<noteq> None" "get_delta d (r_id r) (w' + 1) = None"
    for w w' :: int
  proof (rule ccontr)
    assume "\<not> w \<le> w'"
    with that(1) have "w' + 1 \<in> {0..w}" by simp
    with that(2,3) show False by blast
  qed
  have "r_watermark r' = r_watermark r"
    using c w [of "r_watermark r" "r_watermark r'"] w [of "r_watermark r'" "r_watermark r"]
    unfolding run_content_def assms(5) by force
  moreover from this c(1,2) have "run_parts d' (r_id r') (r_session r') = run_parts d (r_id r) (r_session r)"
    by (simp add: run_content_def delta_seq_def assms(5))
  ultimately show ?thesis by simp
qed

theorem arrival_order_irrelevant_witness:
  "run_parts example_full 20 1 = run_parts example_ordered 20 1"
proof -
  have r: "example_pending 1 \<in> set (all_in_flight example_full)" "example_pending 1 \<in> set (all_in_flight example_ordered)"
    by (simp_all add: example_full_def example_ordered_def example_defs all_in_flight_def)
  have "get_delta example_full (r_id (example_pending 1)) = get_delta example_ordered (r_id (example_pending 1))"
    by (auto simp: get_delta_def example_full_def example_ordered_def example_defs fun_eq_iff)
  from arrival_order_irrelevant [OF example_steps(5) r(2) example_steps(3) r(1) this]
  show ?thesis by (simp add: example_pending_def)
qed

text \<open>C19: When a turn fails, its user entry and everything the engine had committed of it are gone, with the
  run and its deltas: what stays of the session is the list in front of the user entry, properly ended,
  with the session pointing at its end. Every other session, run and delta and every committed memory
  is untouched.\<close>

theorem break_undoes_turn:
  assumes "reachable new_tables (tstep k) d" "r \<in> set (runs d)" "in_flight (r_status r)"
  shows "\<exists>pre u mine. list_entries d (r_session r) = pre @ u # mine \<and> e_id u = r_user_entry r
    \<and> (\<forall>e \<in> set mine. e_run e = Some (r_id r))
    \<and> list_entries (break_run_rows r now d) (r_session r) = set_next (tail_id pre) None pre
    \<and> (\<forall>s. s \<noteq> r_session r \<longrightarrow> list_entries (break_run_rows r now d) s = list_entries d s)
    \<and> runs (break_run_rows r now d) = filter (\<lambda>x. r_id x \<noteq> r_id r) (runs d)
    \<and> deltas (break_run_rows r now d) = filter (\<lambda>x. d_run x \<noteq> r_id r) (deltas d)
    \<and> chats (break_run_rows r now d) = map (\<lambda>c. if s_id c = r_session r
        then c\<lparr>s_latest := tail_id pre, s_updated := now\<rparr> else c) (chats d)
    \<and> contents_ok (break_run_rows r now d)"
proof -
  have ok: "contents_ok d" by (rule threads.reachable_inv [OF assms(1)])
  note t = contents_okD(1) [OF ok]
  from threads_okD(5) [OF t assms(2,3)] obtain pre u mine where o':
    "list_entries d (r_session r) = pre @ u # mine" "e_id u = r_user_entry r"
    "e_run u = None" "\<forall>e \<in> set mine. e_run e = Some (r_id r)" "\<forall>e \<in> set pre. e_run e \<noteq> Some (r_id r)"
    unfolding owns_tail_def by blast
  note break_run_threads [OF t assms(2,3) o', where now = now]
    break_run_rows_simps(1-3) [OF t assms(2,3) o'(1,2), where now = now]
    break_run_contents [OF ok assms(2), where now = now]
  with o'(1,2,4) show ?thesis by blast
qed

theorem break_undoes_turn_witness:
  "list_entries (break_run_rows (example_pending 1) 9 example_full) 1 = []"
proof -
  have "example_pending 1 \<in> set (runs example_full)" "in_flight (r_status (example_pending 1))"
    by (simp_all add: example_full_def example_defs)
  from break_undoes_turn [OF example_steps(3) this, of 9] obtain pre u mine where
    "list_entries example_full 1 = pre @ u # mine" "e_id u = 10"
    "list_entries (break_run_rows (example_pending 1) 9 example_full) 1 = set_next (tail_id pre) None pre"
    by (auto simp: example_pending_def)
  moreover have "map e_id (list_entries example_full 1) = [10, 100]" by code_simp
  ultimately show ?thesis by (cases pre) (auto simp: append_eq_Cons_conv)
qed

text \<open>The committed memory of a session always is a tombstone on its list, so the history for the next
  request never fails on an invalid pointer: it fails only where the text of that memory does not
  decode, and an owner whose session has no run in flight otherwise always gets the turn in.\<close>

theorem history_available:
  assumes "reachable new_tables (tstep k) d" "c \<in> set (chats d)"
  shows "history_from_entries k (walk d c) (s_committed c) \<noteq> Inl (OtherError ''invalid committed memory pointer'')
    \<and> ((\<forall>t. decode_tombstone k t \<noteq> None) \<and> in_flight_for_session d (s_id c) = None
       \<longrightarrow> (\<exists>h d'. send_claim k (s_user c) (s_id c) t model ids now d = Inr (h, d')))"
proof -
  note ok = contents_okD(1) [OF threads.reachable_inv [OF assms(1)]]
  have split: "\<exists>e rest. split_at_entry i es = Some (e, rest) \<and> e_kind e = k'"
    if "(i, k', x) \<in> tag ` set es" "distinct (map e_id es)" for i k' x es
    using that by (induction es) (auto simp: tag_def)
  have tomb: "\<exists>e rest. split_at_entry i (walk d c) = Some (e, rest) \<and> e_kind e = kind_tombstone"
    if "s_committed c = Some i" for i
  proof -
    from threads_okD(3) [OF ok assms(2)] that obtain r :: run_row where
      "(i, kind_tombstone, Some (r_id r)) \<in> tag ` set (list_entries d (s_id c))"
      unfolding committed_ok_def by metis
    from split [OF this distinct_thread [OF threads_okD(1) [OF ok]]] walk_thread [OF ok assms(2)]
    show ?thesis by simp
  qed
  have some: "(\<exists>h. history_from_entries k (walk d c) (s_committed c) = Inr h)
      \<or> (\<exists>t. decode_tombstone k t = None) \<and> history_from_entries k (walk d c) (s_committed c) = Inl (OtherError ''DecodeError'')"
  proof (cases "s_committed c")
    case (Some i)
    from tomb [OF this] obtain e rest where "split_at_entry i (walk d c) = Some (e, rest)" "e_kind e = kind_tombstone"
      by blast
    then show ?thesis
      by (cases "decode_tombstone k (e_text e)") (auto simp: history_from_entries_def Some)
  qed (simp add: history_from_entries_def)
  then have "history_from_entries k (walk d c) (s_committed c) \<noteq> Inl (OtherError ''invalid committed memory pointer'')"
    by auto
  moreover have "\<exists>h d'. send_claim k (s_user c) (s_id c) t model ids now d = Inr (h, d')"
    if "\<forall>t. decode_tombstone k t \<noteq> None" "in_flight_for_session d (s_id c) = None"
  proof -
    have "\<exists>h. history_from_entries k (walk d c) (s_committed c) = Inr h"
      using some that(1) by blast
    moreover have "get_chat d (s_id c) = Some c"
      using threads_okD(1) [OF ok] assms(2) by (simp add: get_chat_iff keys_ok_def)
    ultimately show ?thesis
      using that(2) by (cases ids) (auto simp: send_claim_def load_owned_def Let_def result_simps)
  qed
  ultimately show ?thesis by blast
qed

theorem history_available_witness:
  "history_from_entries example_codec (walk example_full (example_chat (Some 100))) None
    \<noteq> Inl (OtherError ''invalid committed memory pointer'')"
proof -
  have "example_chat (Some 100) \<in> set (chats example_full)" by (simp add: example_full_def example_defs)
  from history_available [OF example_steps(3) this] show ?thesis by (simp add: example_chat_def)
qed

text \<open>C40: A user reaches no session of another: sending, reading the session, its entries and its
  transcript all fail with a refusal, an unknown session with not-found, and nothing changes.\<close>

theorem sessions_private:
  assumes "role_user_id current = Inr user" "current_user current = Inr user"
    and "case get_chat d0 s of None \<Rightarrow> e = NotFound | Some c \<Rightarrow> s_user c \<noteq> user \<and> e = SessionForbidden"
  shows "send k current get_model exchanged produce s t model token ids now later d0 d = (Inl e, d)
    \<and> get_session current s d0 = Inl e \<and> session_entries current s d0 = Inl e
    \<and> transcript k current s now d0 = Inl e"
proof -
  have "load_owned d0 user s = Inl e" using assms(3) by (auto simp: load_owned_def split: option.splits)
  with assms(1,2) show ?thesis
    by (simp add: send_def get_session_def session_entries_def transcript_def result_simps)
qed

theorem sessions_private_witness:
  "\<exists>current. session_entries current 1 example_full = Inl SessionForbidden
     \<and> session_entries current 2 example_full = Inl NotFound"
proof -
  let ?current = "Some \<lparr>subject = ''00000000-0000-0000-0000-000000000008'', sc_name = ''x'',
    roles = {''user''}, email = None, authorized_party = None\<rparr>"
  have u: "role_user_id ?current = Inr 8" "current_user ?current = Inr 8"
    by (simp_all add: role_user_id_def current_user_def check_role_def ensure_role_def has_role_def
        require_context_def user_id_def parse_uuid_def eval_simps Let_def result_simps)
  have "get_chat example_full 1 = Some (example_chat (Some 100))" "get_chat example_full 2 = None"
    by (simp_all add: get_chat_def example_full_def example_defs)
  then have "case get_chat example_full 1 of None \<Rightarrow> SessionForbidden = NotFound | Some c \<Rightarrow> s_user c \<noteq> 8 \<and> SessionForbidden = SessionForbidden"
    "case get_chat example_full 2 of None \<Rightarrow> NotFound = NotFound | Some c \<Rightarrow> s_user c \<noteq> 8 \<and> NotFound = SessionForbidden"
    by (simp_all add: example_chat_def)
  from sessions_private [OF u this(1)] sessions_private [OF u this(2)]
  show ?thesis by (intro exI [of _ ?current]) simp
qed

text \<open>C39: A tick of the watchdog breaks exactly the runs that are due: pending or running ones without a sign
  of life for the ping limit, finishing ones whose missing deltas did not come within the gap limit.
  So after the limits no run is left in flight.\<close>

theorem watchdog_exact:
  assumes "reachable new_tables (tstep k) d"
  shows "all_in_flight (fst (tick produced (\<lambda>d. d) ping_death finish_gap now d))
    = filter (\<lambda>r. \<not> (case r_finish_at r of None \<Rightarrow> r_event r + ping_death \<le> now
                     | Some t \<Rightarrow> t + finish_gap \<le> now)) (all_in_flight d)"
  using tick_survivors [OF threads.reachable_inv [OF assms]] by (simp add: due_def)

theorem watchdog_exact_witness:
  "all_in_flight (fst (tick (\<lambda>_. True) (\<lambda>d. d) 30 10 30 example_gap)) = []"
  using watchdog_exact [OF example_steps(2), of "\<lambda>_. True" 30 10 30]
  by (simp add: example_gap_def example_defs all_in_flight_def)




end
