(* ===== verification/Engine_Delivery.thy ===== *)
theory Engine_Delivery
  imports Engine_Replay Engine_Service_Facts Thread_Steps
begin

text \<open>
  The engine and the \<open>ads\<close> service together: every part of a run is a part that \<open>ads\<close> stores, a run whose
  parts and end have arrived is finished, and the history that the next request is given is the context
  the model ended with, neighbouring texts joined.
\<close>

section \<open>What arrives\<close>




section \<open>Histories\<close>

text \<open>Neighbouring assistant texts are joined.\<close>

fun join_head :: "turn \<Rightarrow> turn list \<Rightarrow> turn list" where
  "join_head (Plain (AssistantTurn a)) (Plain (AssistantTurn b) # ts) = Plain (AssistantTurn (a @ b)) # ts"
| "join_head t ts = t # ts"

definition squash :: "turn list \<Rightarrow> turn list" where
  "squash ts = foldr join_head ts []"

lemma squash_simps [simp]: "squash [] = []" "squash (t # ts) = join_head t (squash ts)"
  by (simp_all add: squash_def)






text \<open>A part as \<open>history_from_entries\<close> reads it.\<close>

definition part_turn :: "codec \<Rightarrow> part \<Rightarrow> turn list" where
  "part_turn k p =
     (let (kind, role, x) = p in
      if kind = kind_message
      then (if role = Some role_user then [Plain (UserTurn x)]
            else if role = Some role_assistant then [Plain (AssistantTurn x)] else [])
      else if kind = kind_tool_call then (case decode_call k x of None \<Rightarrow> [] | Some c \<Rightarrow> [Plain (CallTurn c)])
      else if kind = kind_tool_result then (case decode_result k x of None \<Rightarrow> [] | Some r \<Rightarrow> [Plain (ResultTurn r)])
      else [])"










lemmas stored_kinds = kind_message_def kind_reasoning_def kind_tool_call_def kind_tool_result_def kind_tombstone_def
  role_user_def role_assistant_def

lemma part_turn_simps [simp]:
  "part_turn k (kind_message, Some role_assistant, x) = [Plain (AssistantTurn x)]"
  "part_turn k (kind_reasoning, r, x) = []"
  "part_turn k (kind_tool_call, r, x) = (case decode_call k x of None \<Rightarrow> [] | Some c \<Rightarrow> [Plain (CallTurn c)])"
  "part_turn k (kind_tool_result, r, x) = (case decode_result k x of None \<Rightarrow> [] | Some c \<Rightarrow> [Plain (ResultTurn c)])"
  "part_turn k (''compacting_context'', r, x) = []" "part_turn k (''compacted_context'', r, x) = []"
  by (simp_all add: part_turn_def stored_kinds)

text \<open>A message of a run is the assistant's.\<close>

definition assistant_part :: "part \<Rightarrow> bool" where
  "assistant_part p \<longleftrightarrow> (fst p = kind_message \<longrightarrow> fst (snd p) = Some role_assistant)"

lemma kind_neq [simp]: "kind_message \<noteq> kind_tombstone" "kind_reasoning \<noteq> kind_tombstone"
  by (simp_all add: stored_kinds)

lemma assistant_pair [simp]: "assistant_part (kind, r, x) = (kind = kind_message \<longrightarrow> r = Some role_assistant)"
  by (simp add: assistant_part_def)


section \<open>The history is the replay\<close>







section \<open>The pointer to the memory\<close>






section \<open>Properties\<close>

text \<open>A run of \<open>ads\<close> whose last number was announced and whose parts up to it have arrived, in whatever
  order and whatever else happened, is finished: with the parts and the end that the engine published,
  no run is left hanging.\<close>

theorem delivered_run_finishes:
  assumes "reachable new_tables (tstep k) d" "r \<in> set (runs d)" "r_last r = Some n"
    and "\<forall>i \<in> {0..n}. get_delta d (r_id r) i \<noteq> None"
  shows "r_status r = Finished \<and> n \<le> r_watermark r"
proof -
  have c: "run_content d r" using contents_okD(2) [OF threads.reachable_inv [OF assms(1)] assms(2)] .
  have "\<not> in_flight (r_status r)"
  proof
    assume f: "in_flight (r_status r)"
    with c assms(3) have "r_watermark r < n" "- 1 \<le> r_watermark r" "get_delta d (r_id r) (r_watermark r + 1) = None"
      by (auto simp: run_content_def complete_iff)
    moreover from this have "r_watermark r + 1 \<in> {0..n}" by simp
    ultimately show False using assms(4) by blast
  qed
  then have "r_status r = Finished" by (cases "r_status r") auto
  with c assms(3) show ?thesis by (auto simp: run_content_def complete_iff)
qed

definition example_done :: db where
  "example_done = fst (finish 1 (Some 1) None 0 example_full)"

theorem delivered_run_finishes_witness:
  "\<exists>r \<in> set (runs example_done). r_last r = Some 1 \<and> r_status r = Finished"
proof -
  have "finish 1 (Some 1) None 0 example_full = (example_done, snd (finish 1 (Some 1) None 0 example_full))"
    by (simp add: example_done_def)
  from reachable_step [OF example_steps(3) t_finish [OF this]]
  have reach: "reachable new_tables (tstep example_codec) example_done" .
  have row: "map r_last (runs example_done) = [Some 1]" by code_simp
  then obtain r where r: "r \<in> set (runs example_done)" "r_last r = Some 1" "runs example_done = [r]"
    by (cases "runs example_done") auto
  have "list_all (\<lambda>r. list_all (\<lambda>i. get_delta example_done (r_id r) i \<noteq> None) [0, 1]) (runs example_done)"
    by code_simp
  then have "\<forall>i \<in> {0..1}. get_delta example_done (r_id r) i \<noteq> None"
    using r(3) by (auto simp: order_le_less)
  from delivered_run_finishes [OF reach r(1,2) this] r show ?thesis by blast
qed








end
