(* ===== verification/Manager_Tables.thy ===== *)
theory Manager_Tables
  imports Effect_Logic "HOL-Library.AList"
begin

text \<open>
  The database of the sandbox manager (\<open>services/ads-sandbox-manager\<close>): the rows of \<open>store.py\<close>,
  \<open>lifecycle_store.py\<close>, \<open>pair_store.py\<close>, \<open>egress_state_store.py\<close>, \<open>pair_transfer.py\<close> and
  \<open>pair_disposal.py\<close>, and the evidence that stands in their JSON columns. A table is the list of its
  rows. A repository method runs in a transaction of its caller and is rolled back when it raises, so it
  is a function from the database to an error, or to a value and the database after it. Instants and
  durations are microseconds, UUIDs numbers, and a UUID that the code draws is an argument.
\<close>

section \<open>Errors and transactions\<close>

abbreviation RuntimeError :: "string \<Rightarrow> error" where
  "RuntimeError t \<equiv> OtherError (''RuntimeError: '' @ t)"

abbreviation PairClaimLost :: "string \<Rightarrow> error" where
  "PairClaimLost t \<equiv> OtherError (''PairClaimLost: '' @ t)"

definition require :: "bool \<Rightarrow> error \<Rightarrow> error + unit" where
  "require b e = (if b then Inr () else Inl e)"

lemma require_simps [simp]: "require b e = Inr u \<longleftrightarrow> b" "require b e = Inl e' \<longleftrightarrow> \<not> b \<and> e' = e"
  by (auto simp: require_def)

lemma bindE_require: "bindE (require b e) f = (if b then f () else Inl e)"
  by (simp add: require_def)

definition is_uid :: "string \<Rightarrow> bool" where
  "is_uid u \<longleftrightarrow> strip is_space u \<noteq> []"

definition uid_ok :: "string option \<Rightarrow> bool" where
  "uid_ok u \<longleftrightarrow> (case u of None \<Rightarrow> True | Some x \<Rightarrow> is_uid x)"

section \<open>Sessions and disks\<close>

datatype session_status =
    SPending | SCreating | SReady | SShuttingDown | SStopped | SService | SFailed | SRecovering

record sandbox_session =
  ss_session :: nat
  ss_sandbox :: nat
  ss_project :: nat
  ss_status :: session_status
  ss_golden :: string
  ss_pvc_uid :: "string option"
  ss_pvc :: "nat option"
  ss_deadline :: "int option"
  ss_guest :: "string option"      \<comment> \<open>\<open>guest_deployment_uid\<close>\<close>
  ss_ipc :: "string option"        \<comment> \<open>\<open>ipc_deployment_uid\<close>\<close>
  ss_pod :: "string option"        \<comment> \<open>\<open>ipc_pod_uid\<close>\<close>
  ss_ipc_pvc :: "string option"
  ss_ca_attempt :: "nat option"
  ss_ca_sources :: "(string \<times> string) list option"
  ss_ca_clones :: "(string \<times> string) list option"
  ss_owner :: "nat option"         \<comment> \<open>\<open>claimed_by\<close>\<close>
  ss_created :: int
  ss_changed :: int                \<comment> \<open>\<open>status_changed_at\<close>\<close>
  ss_last_execution :: int
  ss_last_ping :: "int option"
  ss_ping_sent :: "int option"

record ping_probe =
  pp_id :: nat
  pp_sandbox :: nat
  pp_sent :: int
  pp_published :: "int option"

datatype pvc_state = VDetached | VAttaching | VAttached | VDetaching | VDestroying | VFailed

text \<open>\<open>release_evidence.py\<close>: what was captured of the volume while its claim was alive.\<close>

datatype release_evidence = NeverBound | BoundVolume string string "string option"

definition release_ok :: "release_evidence option \<Rightarrow> bool" where
  "release_ok v \<longleftrightarrow>
     (case v of
        None \<Rightarrow> True
      | Some NeverBound \<Rightarrow> True
      | Some (BoundVolume name uid key) \<Rightarrow> is_uid name \<and> is_uid uid \<and> uid_ok key)"

text \<open>A captured target of a cleanup: \<open>target()\<close>, and the evidence and marks that later steps add.\<close>

record cleanup_target =
  t_kind :: string
  t_name :: string
  t_uid :: "string option"
  t_retain :: bool
  t_captured :: bool
  t_release :: "release_evidence option"
  t_cleaned :: bool
  t_ids :: "(nat \<times> nat) option"   \<comment> \<open>\<open>session_id\<close>, \<open>sandbox_id\<close> of an orphan's target\<close>

record session_pvc =
  sp_id :: nat
  sp_session :: nat
  sp_sandbox :: nat
  sp_uid :: "string option"
  sp_evidence :: "cleanup_target option"
  sp_state :: pvc_state
  sp_last_execution :: int
  sp_changed :: int                \<comment> \<open>\<open>last_state_change\<close>\<close>

definition advance :: "int \<Rightarrow> int \<Rightarrow> int" where
  "advance previous now = max now (previous + 1)"

lemma advance_less [simp]: "previous < advance previous now"
  and advance_neq [simp]: "advance previous now \<noteq> previous" "previous \<noteq> advance previous now"
  and advance_ge: "now \<le> advance previous now"
  by (auto simp: advance_def)

section \<open>The pair ledger\<close>

text \<open>A write to the cluster: never issued, reserved by its only writer, or returned to it.\<close>

datatype dispatch_state = Unissued | Inflight | Settled

record 'p ledger_entry =
  en_payload :: "'p option"
  en_uid :: "string option"
  en_dispatch :: dispatch_state
  en_release :: "release_evidence option"

definition blank_entry :: "'p ledger_entry" where
  "blank_entry = \<lparr>en_payload = None, en_uid = None, en_dispatch = Unissued, en_release = None\<rparr>"

record custody =
  cu_keys :: "(string \<times> string) list option"   \<comment> \<open>\<open>public_keys\<close>\<close>
  cu_uid :: "string option"
  cu_dispatch :: dispatch_state

record clone_source =
  cs_name :: string
  cs_uid :: string
  cs_job :: nat
  cs_bytes :: int

record volume_payload =
  vp_pvc :: nat
  vp_changed :: int
  vp_sources :: "(string \<times> clone_source) list"
  vp_manifest :: json

record ipc_payload =
  ip_controls :: "(string \<times> string) list"
  ip_computes :: "(string \<times> string) list"
  ip_inputs :: "(string \<times> string) list"
  ip_custody :: string
  ip_state :: nat
  ip_manifest :: json
  ip_pod :: "(string \<times> nat) option"   \<comment> \<open>\<open>volume_uid\<close>, \<open>ads_service_subject\<close>: the Pod's only\<close>

record input_payload =
  rp_runtime :: json
  rp_keys :: "(string \<times> string) list"
  rp_custody :: string
  rp_pods :: "(string \<times> string) list"
  rp_service :: string
  rp_ipv4 :: string
  rp_configuration :: json

record egress_state =
  es_id :: nat
  es_session :: nat
  es_sandbox :: nat
  es_project :: nat
  es_creator :: nat
  es_owner :: nat
  es_changed :: int
  es_namespace :: string
  es_bytes :: int
  es_fingerprint :: string
  es_key_dispatch :: dispatch_state
  es_key_uid :: "string option"
  es_volume_dispatch :: dispatch_state
  es_volume_uid :: "string option"
  es_volume_release :: "release_evidence option"

text \<open>The runtime of a Pod: of its fields only these two are compared; the rest is one value.\<close>

record pod_runtime =
  rt_mtu :: int
  rt_class :: string
  rt_rest :: json

record guest_inputs =
  gi_pvc :: nat
  gi_pvc_uid :: string
  gi_attempt :: nat
  gi_clone :: string      \<comment> \<open>\<open>ca_guest_uid\<close>\<close>
  gi_source :: string     \<comment> \<open>\<open>ca_source_uid\<close>\<close>
  gi_golden :: string

record egress_inputs =
  ei_from :: "nat option"   \<comment> \<open>\<open>retained_from\<close>\<close>
  ei_attempt :: nat
  ei_clones :: "(string \<times> string) list"
  ei_sources :: "(string \<times> string) list"
  ei_golden :: string
  ei_state :: egress_state

datatype compute_inputs = GuestInputs guest_inputs | EgressInputs egress_inputs | RelayInputs

record compute_payload =
  cp_runtime :: pod_runtime
  cp_manifest :: json
  cp_controls :: "(string \<times> string) list"
  cp_inputs :: compute_inputs

text \<open>The fields of \<open>PairIntent\<close> that a snapshot captures, and the row.\<close>

record pair_ledger =
  pl_generation :: nat
  pl_from :: "nat option"     \<comment> \<open>\<open>retained_from\<close>\<close>
  pl_session :: nat
  pl_sandbox :: nat
  pl_project :: nat
  pl_owner :: nat             \<comment> \<open>\<open>claim_owner\<close>\<close>
  pl_changed :: int           \<comment> \<open>\<open>claim_changed\<close>\<close>
  pl_namespace :: string
  pl_golden :: string
  pl_control_uids :: "(string \<times> string option) list"
  pl_control :: "(string \<times> dispatch_state) list"
  pl_compute_uids :: "(string \<times> string option) list"
  pl_compute :: "(string \<times> dispatch_state) list"
  pl_payloads :: "(string \<times> compute_payload option) list"
  pl_custody :: custody
  pl_inputs :: "(string \<times> input_payload ledger_entry) list"
  pl_state :: "nat option"    \<comment> \<open>\<open>egress_state_id\<close>\<close>
  pl_ipc :: "(string \<times> ipc_payload ledger_entry) list"
  pl_volumes :: "(string \<times> volume_payload ledger_entry) list"
  pl_topics :: dispatch_state

record pair_intent = pair_ledger +
  pi_fenced :: bool
  pi_journal :: "json option"
  pi_retired :: "int option"

record pair_snapshot = pair_ledger +
  sn_egress :: "egress_state option"

record pair_transfer =
  tr_generation :: nat
  tr_predecessor :: nat
  tr_session :: nat
  tr_sandbox :: nat
  tr_project :: nat
  tr_owner :: nat
  tr_changed :: int
  tr_state :: egress_state
  tr_workspace :: "volume_payload ledger_entry"
  tr_validated :: "int option"

record pair_disposal =
  pd_generation :: nat
  pd_work :: nat
  pd_session :: nat
  pd_sandbox :: nat
  pd_project :: nat
  pd_pvc :: nat
  pd_pvc_uid :: string
  pd_created :: int
  pd_completed :: "int option"

section \<open>Cleanup work and the database\<close>

datatype work_kind = WIdle | WReap | WService | WOrphan | WRecovery

record cleanup_work =
  cw_id :: nat
  cw_session :: "nat option"
  cw_sandbox :: nat
  cw_pvc :: "nat option"
  cw_kind :: work_kind
  cw_changed :: int               \<comment> \<open>\<open>state_changed\<close>\<close>
  cw_pvc_changed :: "int option"
  cw_deadline :: int
  cw_acknowledged :: bool
  cw_targets :: "cleanup_target list"
  cw_pair :: "pair_snapshot option"

record manager_db =
  sessions :: "sandbox_session list"
  pvcs :: "session_pvc list"
  works :: "cleanup_work list"
  probes :: "ping_probe list"
  intents :: "pair_intent list"
  states :: "egress_state list"
  transfers :: "pair_transfer list"
  disposals :: "pair_disposal list"

type_synonym 'a tx = "manager_db \<Rightarrow> error + 'a \<times> manager_db"

text \<open>\<open>async with sessions.begin()\<close>: commit, or leave the database as it was.\<close>

definition transaction :: "'a tx \<Rightarrow> manager_db \<Rightarrow> (error + 'a) \<times> manager_db" where
  "transaction m d = (case m d of Inl e \<Rightarrow> (Inl e, d) | Inr (x, d') \<Rightarrow> (Inr x, d'))"

section \<open>Rows by key\<close>

definition pick :: "('r \<Rightarrow> nat) \<Rightarrow> nat \<Rightarrow> 'r list \<Rightarrow> 'r option" where
  "pick key i rs = find (\<lambda>r. key r = i) rs"

definition put :: "('r \<Rightarrow> nat) \<Rightarrow> 'r \<Rightarrow> 'r list \<Rightarrow> 'r list" where
  "put key r rs = map (\<lambda>x. if key x = key r then r else x) rs"

definition cut :: "('r \<Rightarrow> nat) \<Rightarrow> nat \<Rightarrow> 'r list \<Rightarrow> 'r list" where
  "cut key i rs = filter (\<lambda>r. key r \<noteq> i) rs"

lemma pick_simps [simp]:
  "pick key i [] = None"
  "pick key i (r # rs) = (if key r = i then Some r else pick key i rs)"
  by (simp_all add: pick_def)

lemma pick_Some: "pick key i rs = Some r \<Longrightarrow> r \<in> set rs \<and> key r = i"
  by (auto simp: pick_def find_Some_iff)

lemma pick_key: "pick key i rs = Some r \<Longrightarrow> key r = i"
  by (drule pick_Some) simp

lemma pick_None: "pick key i rs = None \<longleftrightarrow> (\<forall>r \<in> set rs. key r \<noteq> i)"
  by (auto simp: pick_def find_None_iff)

lemma pick_unique: "distinct (map key rs) \<Longrightarrow> r \<in> set rs \<Longrightarrow> pick key (key r) rs = Some r"
  by (induction rs) auto

lemma pick_append: "pick key i (rs @ ss) = (case pick key i rs of None \<Rightarrow> pick key i ss | Some r \<Rightarrow> Some r)"
  by (induction rs) auto

lemma pick_put: "pick key i (put key r rs) = (if i = key r \<and> pick key i rs \<noteq> None then Some r else pick key i rs)"
  by (induction rs) (auto simp: put_def)

lemma pick_cut: "pick key i (cut key j rs) = (if i = j then None else pick key i rs)"
  by (induction rs) (auto simp: cut_def)

lemma keys_put [simp]: "map key (put key r rs) = map key rs"
  by (simp add: put_def)

lemma keys_cut [simp]: "map key (cut key i rs) = filter (\<lambda>j. j \<noteq> i) (map key rs)"
  by (induction rs) (auto simp: cut_def)

lemma set_put: "x \<in> set (put key r rs) \<Longrightarrow> x = r \<and> (\<exists>y \<in> set rs. key y = key r) \<or> x \<in> set rs \<and> key x \<noteq> key r"
  by (auto simp: put_def split: if_splits)

lemma set_cut [simp]: "set (cut key i rs) = {r \<in> set rs. key r \<noteq> i}"
  by (auto simp: cut_def)

abbreviation session_row :: "manager_db \<Rightarrow> nat \<Rightarrow> sandbox_session option" where
  "session_row d i \<equiv> pick ss_session i (sessions d)"

abbreviation get_pvc :: "manager_db \<Rightarrow> nat \<Rightarrow> session_pvc option" where
  "get_pvc d i \<equiv> pick sp_id i (pvcs d)"

abbreviation get_work :: "manager_db \<Rightarrow> nat \<Rightarrow> cleanup_work option" where
  "get_work d i \<equiv> pick cw_id i (works d)"

abbreviation get_probe :: "manager_db \<Rightarrow> nat \<Rightarrow> ping_probe option" where
  "get_probe d i \<equiv> pick pp_id i (probes d)"

abbreviation get_intent :: "manager_db \<Rightarrow> nat \<Rightarrow> pair_intent option" where
  "get_intent d i \<equiv> pick pl_generation i (intents d)"

abbreviation get_state :: "manager_db \<Rightarrow> nat \<Rightarrow> egress_state option" where
  "get_state d i \<equiv> pick es_id i (states d)"

definition put_session :: "sandbox_session \<Rightarrow> manager_db \<Rightarrow> manager_db" where
  "put_session r d = d\<lparr>sessions := put ss_session r (sessions d)\<rparr>"

definition put_pvc :: "session_pvc \<Rightarrow> manager_db \<Rightarrow> manager_db" where
  "put_pvc v d = d\<lparr>pvcs := put sp_id v (pvcs d)\<rparr>"

definition put_work :: "cleanup_work \<Rightarrow> manager_db \<Rightarrow> manager_db" where
  "put_work w d = d\<lparr>works := put cw_id w (works d)\<rparr>"

definition put_intent :: "pair_intent \<Rightarrow> manager_db \<Rightarrow> manager_db" where
  "put_intent p d = d\<lparr>intents := put pl_generation p (intents d)\<rparr>"

definition put_state :: "egress_state \<Rightarrow> manager_db \<Rightarrow> manager_db" where
  "put_state s d = d\<lparr>states := put es_id s (states d)\<rparr>"

lemmas put_defs = put_session_def put_pvc_def put_work_def put_intent_def put_state_def

text \<open>\<open>by_sandbox\<close>: \<open>sandbox_id\<close> is unique.\<close>

definition by_sandbox :: "manager_db \<Rightarrow> nat \<Rightarrow> sandbox_session option" where
  "by_sandbox d b = pick ss_sandbox b (sessions d)"

end
