(* ===== verification/Pair_Evidence.thy ===== *)
theory Pair_Evidence
  imports Manager_Tables Base64
begin

text \<open>
  What the ledger of a sandbox pair may hold (\<open>pair_store.py\<close>, \<open>pair_volume_inputs.py\<close>,
  \<open>pair_ipc_inputs.py\<close>, \<open>relay_inputs.py\<close>, \<open>pair_compute_inputs.py\<close>, \<open>egress_state_store.py\<close>), the
  receipt of a transfer (\<open>pair_transfer.py\<close>), and the snapshot that a cleanup captures
  (\<open>lifecycle_store.py\<close>). A dictionary is the list of its items. The rules for a Pod's runtime and for the
  configuration of a relay are an argument: they do not look at the ledger.
\<close>

section \<open>Keys and roles\<close>

definition control_keys :: "string list" where
  "control_keys =
     [''PodGroup/guest'', ''PodGroup/egress'', ''Service/egress'', ''Service/guest-relay'',
      ''Service/egress-relay'', ''NetworkPolicy/egress'', ''NetworkPolicy/guest-relay'',
      ''NetworkPolicy/egress-relay'']"

definition compute_roles :: "string list" where
  "compute_roles = [''guest'', ''egress'', ''guest-relay'', ''egress-relay'']"

definition compute_key :: "string \<Rightarrow> string" where
  "compute_key role = ''Pod/'' @ role"

definition volume_roles :: "string list" where
  "volume_roles = [''workspace'', ''guest'', ''egress'', ''key'']"

definition ipc_roles :: "string list" where "ipc_roles = [''volume'', ''pod'']"

definition input_roles :: "string list" where "input_roles = [''guest-relay'', ''egress-relay'']"

definition relay_sides :: "string list" where "relay_sides = [''guest'', ''egress'']"

definition has_keys :: "string list \<Rightarrow> (string \<times> 'v) list \<Rightarrow> bool" where
  "has_keys ks al \<longleftrightarrow> distinct (map fst al) \<and> set (map fst al) = set ks"

text \<open>\<open>d[k]\<close> of a dictionary that has the key.\<close>

definition at :: "(string \<times> 'v) list \<Rightarrow> string \<Rightarrow> 'v" where
  "at al k = the (map_of al k)"

section \<open>Entries\<close>

record pair_binding =
  pb_session :: nat
  pb_sandbox :: nat
  pb_project :: nat
  pb_generation :: nat

record ledger_rules =
  lr_runtime :: "string \<Rightarrow> pod_runtime \<Rightarrow> bool"       \<comment> \<open>\<open>PrivateGuestRuntime\<close>, \<open>EgressRuntime\<close>, \<open>RelayRuntime\<close>\<close>
  lr_input :: "pair_binding \<Rightarrow> string \<Rightarrow> input_payload \<Rightarrow> bool"  \<comment> \<open>\<open>payload == input_payload(...)\<close>\<close>

definition key_ok :: "string \<Rightarrow> bool" where
  "key_ok k \<longleftrightarrow>
     (case b64_decode k of
        None \<Rightarrow> False
      | Some raw \<Rightarrow> length raw = 32 \<and> \<not> list_all (\<lambda>c. code c = 0) raw \<and> b64_encode raw = k)"

definition relay_keys_ok :: "(string \<times> string) list \<Rightarrow> bool" where
  "relay_keys_ok ks \<longleftrightarrow> has_keys relay_sides ks \<and> list_all (key_ok \<circ> snd) ks \<and> at ks ''guest'' \<noteq> at ks ''egress''"

definition custody_ok :: "custody \<Rightarrow> bool" where
  "custody_ok c \<longleftrightarrow>
     (if cu_dispatch c = Unissued then cu_keys c = None \<and> cu_uid c = None
      else uid_ok (cu_uid c) \<and> (case cu_keys c of None \<Rightarrow> False | Some ks \<Rightarrow> relay_keys_ok ks))"

definition entry_ok :: "('p \<Rightarrow> bool) \<Rightarrow> 'p ledger_entry \<Rightarrow> bool" where
  "entry_ok P e \<longleftrightarrow>
     release_ok (en_release e) \<and>
     (if en_dispatch e = Unissued then e = blank_entry
      else uid_ok (en_uid e) \<and> (case en_payload e of None \<Rightarrow> False | Some p \<Rightarrow> P p))"

definition source_ok :: "clone_source \<Rightarrow> bool" where
  "source_ok c \<longleftrightarrow> is_uid (cs_name c) \<and> is_uid (cs_uid c) \<and> 0 < cs_bytes c \<and> cs_bytes c < 2 ^ 63"

definition volume_payload_ok :: "string \<Rightarrow> volume_payload \<Rightarrow> bool" where
  "volume_payload_ok role p \<longleftrightarrow>
     role \<in> set volume_roles \<and>
     has_keys (if role = ''workspace'' then [''workspace''] else [''public'', ''private'']) (vp_sources p) \<and>
     list_all (source_ok \<circ> snd) (vp_sources p) \<and>
     (role \<noteq> ''workspace'' \<longrightarrow>
        cs_job (at (vp_sources p) ''public'') = cs_job (at (vp_sources p) ''private'') \<and>
        cs_uid (at (vp_sources p) ''public'') \<noteq> cs_uid (at (vp_sources p) ''private''))"

definition volumes_ok :: "(string \<times> volume_payload ledger_entry) list \<Rightarrow> bool" where
  "volumes_ok vs \<longleftrightarrow> has_keys volume_roles vs \<and> list_all (\<lambda>(role, e). entry_ok (volume_payload_ok role) e) vs"

definition uids_ok :: "nat \<Rightarrow> (string \<times> string) list \<Rightarrow> bool" where
  "uids_ok n us \<longleftrightarrow> distinct (map fst us) \<and> length us = n \<and> list_all (is_uid \<circ> snd) us"

definition ipc_payload_ok :: "string \<Rightarrow> ipc_payload \<Rightarrow> bool" where
  "ipc_payload_ok role p \<longleftrightarrow>
     role \<in> set ipc_roles \<and>
     uids_ok 8 (ip_controls p) \<and> uids_ok 4 (ip_computes p) \<and> uids_ok 2 (ip_inputs p) \<and>
     is_uid (ip_custody p) \<and>
     (case ip_pod p of None \<Rightarrow> role = ''volume'' | Some (volume, _) \<Rightarrow> role = ''pod'' \<and> is_uid volume)"

definition ipc_ok :: "(string \<times> ipc_payload ledger_entry) list \<Rightarrow> bool" where
  "ipc_ok rs \<longleftrightarrow> has_keys ipc_roles rs \<and> list_all (\<lambda>(role, e). entry_ok (ipc_payload_ok role) e) rs"

definition inputs_ok :: "ledger_rules \<Rightarrow> pair_binding \<Rightarrow> (string \<times> input_payload ledger_entry) list \<Rightarrow> bool" where
  "inputs_ok k b is \<longleftrightarrow>
     has_keys input_roles is \<and>
     list_all (\<lambda>(role, e). entry_ok (lr_input k b role) e \<and> en_release e = None) is"

definition state_ok :: "egress_state \<Rightarrow> bool" where
  "state_ok s \<longleftrightarrow>
     release_ok (es_volume_release s) \<and> 0 < es_bytes s \<and> es_bytes s < 2 ^ 63 \<and> is_uid (es_namespace s) \<and>
     length (es_fingerprint s) = 64 \<and>
     list_all (\<lambda>c. is_digit c \<or> c \<in> set ''abcdef'') (es_fingerprint s) \<and>
     es_key_dispatch s \<noteq> Unissued \<and> uid_ok (es_key_uid s) \<and> uid_ok (es_volume_uid s) \<and>
     (es_volume_dispatch s = Unissued \<longrightarrow> es_volume_uid s = None) \<and>
     (es_volume_dispatch s \<noteq> Unissued \<longrightarrow> es_key_dispatch s = Settled \<and> es_key_uid s \<noteq> None)"

definition egress_payload_ok :: "egress_inputs \<Rightarrow> bool" where
  "egress_payload_ok p \<longleftrightarrow>
     is_uid (ei_golden p) \<and>
     has_keys [''egress'', ''key''] (ei_clones p) \<and> list_all (is_uid \<circ> snd) (ei_clones p) \<and>
     has_keys [''public'', ''private''] (ei_sources p) \<and> list_all (is_uid \<circ> snd) (ei_sources p) \<and>
     state_ok (ei_state p) \<and> es_key_dispatch (ei_state p) = Settled \<and> es_volume_dispatch (ei_state p) = Settled \<and>
     es_key_uid (ei_state p) \<noteq> None \<and> es_volume_uid (ei_state p) \<noteq> None"

definition compute_payload_ok :: "ledger_rules \<Rightarrow> string \<Rightarrow> compute_payload \<Rightarrow> bool" where
  "compute_payload_ok k role p \<longleftrightarrow>
     (case cp_inputs p of
        GuestInputs g \<Rightarrow>
          role = ''guest'' \<and> is_uid (gi_pvc_uid g) \<and> is_uid (gi_clone g) \<and> is_uid (gi_source g) \<and> is_uid (gi_golden g)
      | EgressInputs e \<Rightarrow> role = ''egress'' \<and> egress_payload_ok e
      | RelayInputs \<Rightarrow> role \<in> set input_roles) \<and>
     lr_runtime k role (cp_runtime p) \<and> uids_ok 8 (cp_controls p)"

definition payloads_ok :: "ledger_rules \<Rightarrow> (string \<times> compute_payload option) list \<Rightarrow> bool" where
  "payloads_ok k ps \<longleftrightarrow>
     has_keys compute_roles ps \<and>
     list_all (\<lambda>(role, p). case p of None \<Rightarrow> True | Some q \<Rightarrow> compute_payload_ok k role q) ps"

definition control_ok :: "'a pair_ledger_scheme \<Rightarrow> bool" where
  "control_ok i \<longleftrightarrow> has_keys control_keys (pl_control i)"

definition compute_ok :: "'a pair_ledger_scheme \<Rightarrow> bool" where
  "compute_ok i \<longleftrightarrow>
     has_keys (map compute_key compute_roles) (pl_compute_uids i) \<and> list_all (uid_ok \<circ> snd) (pl_compute_uids i) \<and>
     has_keys (map compute_key compute_roles) (pl_compute i)"

definition binding :: "'a pair_ledger_scheme \<Rightarrow> pair_binding" where
  "binding i =
     \<lparr>pb_session = pl_session i, pb_sandbox = pl_sandbox i, pb_project = pl_project i,
      pb_generation = pl_generation i\<rparr>"

text \<open>\<open>PairIntentRepository._validate\<close>\<close>

definition validate_intent :: "ledger_rules \<Rightarrow> pair_intent \<Rightarrow> error + unit" where
  "validate_intent k i =
     (if (case pl_from i of None \<Rightarrow> False | Some g \<Rightarrow> g = pl_generation i \<or> pl_state i = None)
      then Inl (RuntimeError ''invalid retained generation provenance'')
      else if pi_retired i \<noteq> None \<and> \<not> pi_fenced i
      then Inl (RuntimeError ''retired pair lacks permanent creator fence'')
      else if pi_journal i \<noteq> None then Inl (RuntimeError ''pair cleanup journal must stay unset'')
      else require
        (control_ok i \<and> compute_ok i \<and> payloads_ok k (pl_payloads i) \<and> custody_ok (pl_custody i) \<and>
         inputs_ok k (binding i) (pl_inputs i) \<and> ipc_ok (pl_ipc i) \<and> volumes_ok (pl_volumes i) \<and>
         has_keys control_keys (pl_control_uids i) \<and> list_all (uid_ok \<circ> snd) (pl_control_uids i))
        (RuntimeError ''incomplete or corrupt pair control intent''))"

section \<open>The persistent egress state\<close>

text \<open>\<open>_scope\<close>: what never changes in a reservation.\<close>

definition same_scope :: "egress_state \<Rightarrow> egress_state \<Rightarrow> bool" where
  "same_scope s t \<longleftrightarrow>
     es_id s = es_id t \<and> es_session s = es_session t \<and> es_sandbox s = es_sandbox t \<and>
     es_project s = es_project t \<and> es_creator s = es_creator t \<and> es_owner s = es_owner t \<and>
     es_changed s = es_changed t \<and> es_namespace s = es_namespace t \<and> es_bytes s = es_bytes t \<and>
     es_fingerprint s = es_fingerprint t"

text \<open>\<open>_matches\<close> of \<open>egress_state_store.py\<close>\<close>

definition state_matches :: "egress_state \<Rightarrow> 'a pair_ledger_scheme \<Rightarrow> error + unit" where
  "state_matches s i =
     (if pl_from i \<noteq> None
      then require
        (es_session s = pl_session i \<and> es_sandbox s = pl_sandbox i \<and> es_project s = pl_project i \<and>
         es_namespace s = pl_namespace i \<and> Some (es_id s) = pl_state i)
        (PairClaimLost ''retained persistent state ownership changed'')
      else require
        (es_session s = pl_session i \<and> es_sandbox s = pl_sandbox i \<and> es_project s = pl_project i \<and>
         es_creator s = pl_generation i \<and> es_owner s = pl_owner i \<and> es_changed s = pl_changed i \<and>
         es_namespace s = pl_namespace i)
        (PairClaimLost ''persistent egress state ownership changed''))"

definition moved :: "dispatch_state \<Rightarrow> dispatch_state \<Rightarrow> bool" where
  "moved before now \<longleftrightarrow> now = before \<or> before = Inflight \<and> now = Settled"

definition uid_kept :: "string option \<Rightarrow> string option \<Rightarrow> bool" where
  "uid_kept captured now \<longleftrightarrow> now = None \<or> now = captured"

definition require_cleanup_state ::
  "egress_state \<Rightarrow> 'a pair_ledger_scheme \<Rightarrow> egress_state option \<Rightarrow> error + unit" where
  "require_cleanup_state s i captured =
     bindE (require (state_ok s) (RuntimeError ''corrupt egress state reservation'')) (\<lambda>_.
     bindE (state_matches s i) (\<lambda>_.
     if Some (es_id s) \<noteq> pl_state i then Inl (PairClaimLost ''persistent egress cleanup anchor changed'')
     else (case captured of
             None \<Rightarrow> Inr ()
           | Some c \<Rightarrow>
               if \<not> state_ok c then Inl (RuntimeError ''corrupt egress state reservation'')
               else if \<not> same_scope s c then Inl (PairClaimLost ''persistent egress cleanup reservation changed'')
               else if \<not> moved (es_key_dispatch c) (es_key_dispatch s) \<or>
                       \<not> moved (es_volume_dispatch c) (es_volume_dispatch s)
               then Inl (PairClaimLost ''persistent egress cleanup dispatch changed'')
               else require (uid_kept (es_key_uid c) (es_key_uid s) \<and> uid_kept (es_volume_uid c) (es_volume_uid s))
                      (PairClaimLost ''persistent egress cleanup UID changed''))))"

section \<open>The receipt of a transfer\<close>

text \<open>\<open>PairTransferRepository.verify\<close>; the workspace is the predecessor's, re-attached later.\<close>

definition reattached :: "int \<Rightarrow> volume_payload ledger_entry \<Rightarrow> volume_payload ledger_entry" where
  "reattached t e = e\<lparr>en_payload := map_option (\<lambda>p. p\<lparr>vp_changed := t\<rparr>) (en_payload e)\<rparr>"

definition attach_time :: "volume_payload ledger_entry \<Rightarrow> int" where
  "attach_time e = (case en_payload e of None \<Rightarrow> 0 | Some p \<Rightarrow> vp_changed p)"

definition verify_transfer :: "manager_db \<Rightarrow> 'a pair_ledger_scheme \<Rightarrow> error + pair_transfer option" where
  "verify_transfer d i =
     (case pick tr_generation (pl_generation i) (transfers d) of
        None \<Rightarrow>
          if pl_from i \<noteq> None then Inl (PairClaimLost ''retained generation transfer receipt missing'')
          else Inr None
      | Some t \<Rightarrow>
     (case get_intent d (tr_predecessor t) of
        None \<Rightarrow> Inl (PairClaimLost ''retained ownership receipt changed'')
      | Some p \<Rightarrow>
          if (case pi_retired p of None \<Rightarrow> True | Some r \<Rightarrow> pl_changed i \<le> r) \<or>
             pi_journal p \<noteq> None \<or> pl_from i \<noteq> Some (tr_predecessor t) \<or>
             (tr_session t, tr_sandbox t, tr_project t, tr_owner t, tr_changed t)
               \<noteq> (pl_session i, pl_sandbox i, pl_project i, pl_owner i, pl_changed i) \<or>
             (pl_session p, pl_sandbox p, pl_project p) \<noteq> (pl_session i, pl_sandbox i, pl_project i) \<or>
             pl_state i \<noteq> Some (es_id (tr_state t)) \<or>
             at (pl_volumes i) ''workspace'' \<noteq> tr_workspace t \<or> pl_topics i \<noteq> Settled
          then Inl (PairClaimLost ''retained ownership receipt changed'')
          else if reattached (attach_time (tr_workspace t)) (at (pl_volumes p) ''workspace'') \<noteq> tr_workspace t
          then Inl (PairClaimLost ''retained workspace provenance changed'')
          else if (case tr_validated t of
                     Some v \<Rightarrow> v \<le> tr_changed t
                   | None \<Rightarrow> list_ex (\<lambda>x. x \<noteq> Unissued) (map snd (pl_compute i)))
          then Inl (PairClaimLost ''retained attachment lacks prior external validation'')
          else (case get_state d (es_id (tr_state t)) of
                  None \<Rightarrow> Inl (PairClaimLost ''retained state provenance changed'')
                | Some s \<Rightarrow>
                    if \<not> state_ok s then Inl (RuntimeError ''corrupt egress state reservation'')
                    else if s \<noteq> tr_state t then Inl (PairClaimLost ''retained state provenance changed'')
                    else Inr (Some t))))"

section \<open>Snapshots\<close>

definition the_intent :: "manager_db \<Rightarrow> nat \<Rightarrow> nat option \<Rightarrow> pair_intent option" where
  "the_intent d b generation =
     find (\<lambda>i. pl_sandbox i = b \<and>
        (case generation of Some g \<Rightarrow> pl_generation i = g | None \<Rightarrow> pi_retired i = None)) (intents d)"

text \<open>\<open>pair_snapshot\<close>: the ledger of the original pair with its egress state.\<close>

definition pair_snapshot_of :: "ledger_rules \<Rightarrow> nat \<Rightarrow> nat \<Rightarrow> nat option \<Rightarrow> manager_db \<Rightarrow> error + pair_snapshot option" where
  "pair_snapshot_of k s b generation d =
     (case the_intent d b generation of
        None \<Rightarrow> Inr None
      | Some i \<Rightarrow>
          if pl_session i \<noteq> s then Inl (RuntimeError ''pair cleanup session identity mismatch'')
          else
     bindE (if pi_retired i = None then bindE (verify_transfer d i) (\<lambda>_. Inr ()) else Inr ()) (\<lambda>_.
     bindE (require (custody_ok (pl_custody i) \<and> payloads_ok k (pl_payloads i) \<and> ipc_ok (pl_ipc i) \<and>
              volumes_ok (pl_volumes i) \<and> control_ok i \<and> compute_ok i \<and> inputs_ok k (binding i) (pl_inputs i))
            (RuntimeError ''corrupt pair evidence'')) (\<lambda>_.
     bindE (case pl_state i of
              None \<Rightarrow> Inr None
            | Some n \<Rightarrow>
                (case get_state d n of
                   None \<Rightarrow> Inl (RuntimeError ''anchored persistent egress state missing'')
                 | Some e \<Rightarrow>
                     if es_sandbox e \<noteq> pl_sandbox i
                     then Inl (RuntimeError ''anchored persistent egress state missing'')
                     else bindE (require_cleanup_state e i None) (\<lambda>_. Inr (Some e)))) (\<lambda>persistent.
     if pi_journal i \<noteq> None then Inl (RuntimeError ''retained pair cleanup journal must stay unset'')
     else Inr (Some (pair_ledger.extend (pair_ledger.truncate i) (pair_snapshot.fields persistent)))))))"

end
