(* ===== verification/Pair_Cleanup.thy ===== *)
theory Pair_Cleanup
  imports Pair_Evidence
begin

text \<open>
  Who may clean a pair up (\<open>lifecycle_store.py\<close>): the claim of a cleanup on its session and disk, the fence
  that stops the creators of the pair, the check that every write of the pair came back, and the records
  that a capture adds to the snapshot. A work that a caller holds is a copy; the row is read again under
  the locks.
\<close>

section \<open>Ownership of a cleanup\<close>

definition locked :: "manager_db \<Rightarrow> nat \<Rightarrow> nat \<Rightarrow> sandbox_session option \<times> session_pvc option" where
  "locked d s b =
     (case session_row d s of
        None \<Rightarrow> (None, None)
      | Some r \<Rightarrow>
          if ss_sandbox r \<noteq> b then (None, None)
          else (Some r, case ss_pvc r of None \<Rightarrow> None | Some p \<Rightarrow> get_pvc d p))"

definition work_status :: "work_kind \<Rightarrow> session_status option" where
  "work_status k =
     (case k of WIdle \<Rightarrow> Some SShuttingDown | WReap \<Rightarrow> Some SStopped | WService \<Rightarrow> Some SService | _ \<Rightarrow> None)"

definition work_disk :: "work_kind \<Rightarrow> pvc_state" where
  "work_disk k = (case k of WIdle \<Rightarrow> VDetaching | WReap \<Rightarrow> VDestroying | _ \<Rightarrow> VDetached)"

definition owns :: "manager_db \<Rightarrow> cleanup_work \<Rightarrow> bool" where
  "owns d w \<longleftrightarrow>
     cw_kind w = WOrphan \<or>
     (case cw_session w of
        None \<Rightarrow> False
      | Some s \<Rightarrow>
          (case locked d s (cw_sandbox w) of
             (None, _) \<Rightarrow> False
           | (Some r, v) \<Rightarrow>
               work_status (cw_kind w) = Some (ss_status r) \<and> ss_changed r = cw_changed w \<and> ss_pvc r = cw_pvc w \<and>
               (case v of
                  None \<Rightarrow> cw_pvc w = None
                | Some p \<Rightarrow> Some (sp_changed p) = cw_pvc_changed w \<and> sp_state p = work_disk (cw_kind w))))"

text \<open>\<open>cleanup_pair\<close>: what a captured snapshot must still say.\<close>

definition snapshot_state_ok :: "pair_snapshot \<Rightarrow> cleanup_work \<Rightarrow> bool" where
  "snapshot_state_ok p w \<longleftrightarrow>
     (case sn_egress p of
        None \<Rightarrow> pl_state p = None \<and> pl_from p = None
      | Some s \<Rightarrow>
          state_ok s \<and> pl_state p = Some (es_id s) \<and> es_sandbox s = pl_sandbox p \<and> es_session s = pl_session p \<and>
          es_project s = pl_project p \<and> (pl_from p = None \<longrightarrow> es_creator s = pl_generation p) \<and>
          pl_from p \<noteq> Some (pl_generation p) \<and> es_namespace s = pl_namespace p \<and> es_sandbox s = cw_sandbox w)"

definition snapshot_scope_ok :: "pair_snapshot \<Rightarrow> cleanup_work \<Rightarrow> bool" where
  "snapshot_scope_ok p w \<longleftrightarrow>
     pl_sandbox p = cw_sandbox w \<and> (cw_kind w \<noteq> WOrphan \<longrightarrow> cw_session w = Some (pl_session p)) \<and>
     (cw_kind w = WOrphan \<longrightarrow> cw_session w = None) \<and> is_uid (pl_namespace p) \<and> is_uid (pl_golden p) \<and>
     has_keys control_keys (pl_control_uids p) \<and> list_all (uid_ok \<circ> snd) (pl_control_uids p) \<and>
     has_keys (map compute_key compute_roles) (pl_compute_uids p) \<and> list_all (uid_ok \<circ> snd) (pl_compute_uids p)"

definition cleanup_pair :: "ledger_rules \<Rightarrow> cleanup_work \<Rightarrow> error + pair_binding" where
  "cleanup_pair k w =
     (case cw_pair w of
        None \<Rightarrow> Inl (RuntimeError ''incomplete pair cleanup snapshot'')
      | Some p \<Rightarrow>
     bindE (require (control_ok p \<and> has_keys (map compute_key compute_roles) (pl_compute p))
            (RuntimeError ''corrupt captured pair dispatch'')) (\<lambda>_.
     bindE (require (custody_ok (pl_custody p) \<and> ipc_ok (pl_ipc p) \<and> volumes_ok (pl_volumes p))
            (RuntimeError ''corrupt captured pair evidence'')) (\<lambda>_.
     bindE (require (snapshot_state_ok p w) (RuntimeError ''persistent egress cleanup state identity changed'')) (\<lambda>_.
     bindE (require (inputs_ok k (binding p) (pl_inputs p) \<and> payloads_ok k (pl_payloads p))
            (RuntimeError ''corrupt relay input evidence'')) (\<lambda>_.
     bindE (require (snapshot_scope_ok p w) (RuntimeError ''pair cleanup scope or controls changed'')) (\<lambda>_.
     Inr (binding p)))))))"

text \<open>The identity of a work: all but its deadline, acknowledgement, targets and snapshot.\<close>

definition same_work :: "cleanup_work \<Rightarrow> cleanup_work \<Rightarrow> bool" where
  "same_work v w \<longleftrightarrow>
     cw_id v = cw_id w \<and> cw_session v = cw_session w \<and> cw_sandbox v = cw_sandbox w \<and> cw_pvc v = cw_pvc w \<and>
     cw_kind v = cw_kind w \<and> cw_changed v = cw_changed w \<and> cw_pvc_changed v = cw_pvc_changed w"

text \<open>The session that recovers, as the executor read it, and its limit.\<close>

type_synonym recovery_claim = "(sandbox_session \<times> int) option"

definition recovery_owned :: "manager_db \<Rightarrow> pair_binding \<Rightarrow> cleanup_work \<Rightarrow> int \<Rightarrow> recovery_claim \<Rightarrow> error + unit" where
  "recovery_owned d b w now claim =
     (case claim of
        None \<Rightarrow> Inl (PairClaimLost ''pair recovery claim required'')
      | Some (o', limit) \<Rightarrow>
          if ss_session o' \<noteq> pb_session b then Inl (PairClaimLost ''pair recovery claim required'')
          else (case session_row d (ss_session o') of
                  None \<Rightarrow> Inl (PairClaimLost ''pair recovery claim changed'')
                | Some r \<Rightarrow>
                    if (ss_sandbox r, ss_project r, ss_changed r) \<noteq> (ss_sandbox o', ss_project o', ss_changed o') \<or>
                       ss_status r \<noteq> SRecovering \<or> ss_project r \<noteq> pb_project b \<or> ss_pvc r \<noteq> None \<or>
                       ss_owner r \<noteq> None \<or> ss_changed r + limit \<le> now \<or> list_ex t_retain (cw_targets w)
                    then Inl (PairClaimLost ''pair recovery claim changed'')
                    else (case cw_pvc w of
                            None \<Rightarrow> Inr ()
                          | Some v \<Rightarrow>
                              require (case get_pvc d v of
                                         None \<Rightarrow> False
                                       | Some p \<Rightarrow> sp_session p = pb_session b \<and> sp_state p = VFailed)
                                (PairClaimLost ''pair recovery PVC ownership changed''))))"

definition recovery_work_of :: "pair_binding \<Rightarrow> cleanup_work \<Rightarrow> bool" where
  "recovery_work_of b w \<longleftrightarrow>
     cw_kind w = WRecovery \<and> (cw_session w = Some (pb_session b) \<or> cw_sandbox w = pb_sandbox b)"

definition orphan_owned :: "manager_db \<Rightarrow> pair_binding \<Rightarrow> cleanup_work \<Rightarrow> recovery_claim \<Rightarrow> error + unit" where
  "orphan_owned d b w claim =
     (if claim \<noteq> None \<or> cw_pvc w \<noteq> None then Inl (PairClaimLost ''invalid pair orphan claim'')
      else if list_ex (\<lambda>r. ss_session r = pb_session b \<or> ss_sandbox r = pb_sandbox b) (sessions d) \<or>
              list_ex (\<lambda>v. sp_session v = pb_session b) (pvcs d) \<or> list_ex (recovery_work_of b) (works d)
      then Inl (PairClaimLost ''pair orphan acquired an owner'')
      else require (case (get_intent d (pb_generation b), cw_pair w) of
                      (Some i, Some p) \<Rightarrow>
                        binding i = b \<and> pl_namespace i = pl_namespace p \<and> pl_golden i = pl_golden p
                    | _ \<Rightarrow> False)
             (PairClaimLost ''pair orphan durable identity changed''))"

text \<open>\<open>owned_pair_cleanup\<close>: the stored work, once its claim is seen to hold.\<close>

definition owned_pair_cleanup ::
  "ledger_rules \<Rightarrow> cleanup_work \<Rightarrow> int \<Rightarrow> recovery_claim \<Rightarrow> manager_db \<Rightarrow> error + cleanup_work" where
  "owned_pair_cleanup k w now claim d =
     (if cw_kind w = WOrphan \<and> cw_session w \<noteq> None then Inl (PairClaimLost ''invalid pair orphan claim'')
      else if cw_kind w = WRecovery \<and> claim = None then Inl (PairClaimLost ''pair recovery claim required'')
      else if cw_kind w = WOrphan \<and> cw_pair w = None then Inr w
      else
     bindE (cleanup_pair k w) (\<lambda>b.
     bindE (if cw_kind w = WRecovery then recovery_owned d b w now claim
            else if cw_kind w = WOrphan then orphan_owned d b w claim
            else require (claim = None \<and> owns d w) (PairClaimLost ''pair cleanup claim changed'')) (\<lambda>_.
     (case get_work d (cw_id w) of
        None \<Rightarrow> Inl (PairClaimLost ''pair cleanup work changed or not drained'')
      | Some st \<Rightarrow>
          if \<not> same_work st w \<or> cw_pair st \<noteq> cw_pair w \<or> cw_targets st \<noteq> cw_targets w \<or>
             cw_kind st \<in> {WIdle, WService, WReap} \<and> cw_deadline st \<le> now \<or>
             cw_kind st = WIdle \<and> \<not> cw_acknowledged st
          then Inl (PairClaimLost ''pair cleanup work changed or not drained'')
          else
     bindE (cleanup_pair k st) (\<lambda>b.
     bindE (if cw_kind st = WOrphan then Inr ()
            else require (case session_row d (pb_session b) of None \<Rightarrow> False | Some r \<Rightarrow> ss_project r = pb_project b)
              (PairClaimLost ''pair cleanup project identity changed'')) (\<lambda>_. Inr st))))))"

section \<open>The fence\<close>

definition entry_kept :: "'p ledger_entry \<Rightarrow> 'p ledger_entry \<Rightarrow> bool" where
  "entry_kept captured e \<longleftrightarrow>
     en_payload e = en_payload captured \<and> uid_kept (en_uid captured) (en_uid e) \<and>
     moved (en_dispatch captured) (en_dispatch e)"

definition fence_identity :: "pair_intent \<Rightarrow> pair_snapshot \<Rightarrow> pair_binding \<Rightarrow> bool" where
  "fence_identity i p b \<longleftrightarrow>
     pi_retired i = None \<and> binding i = b \<and> pl_namespace i = pl_namespace p \<and> pl_golden i = pl_golden p \<and>
     pl_owner i = pl_owner p \<and> pl_changed i = pl_changed p"

definition fence_evidence :: "pair_intent \<Rightarrow> pair_snapshot \<Rightarrow> bool" where
  "fence_evidence i p \<longleftrightarrow>
     moved (pl_topics p) (pl_topics i) \<and>
     list_all (\<lambda>(role, e). entry_kept (at (pl_volumes p) role) e) (pl_volumes i) \<and>
     list_all (\<lambda>(role, e). entry_kept (at (pl_ipc p) role) e) (pl_ipc i) \<and>
     pl_state i = pl_state p \<and> pl_payloads i = pl_payloads p \<and>
     list_all (\<lambda>(role, e). en_payload (at (pl_inputs i) role) = en_payload e) (pl_inputs p) \<and>
     cu_keys (pl_custody i) = cu_keys (pl_custody p)"

definition fence_pair_creators :: "ledger_rules \<Rightarrow> cleanup_work \<Rightarrow> pair_intent tx" where
  "fence_pair_creators k w d =
     bindE (cleanup_pair k w) (\<lambda>b.
     (case (get_intent d (pb_generation b), cw_pair w) of
        (Some i, Some p) \<Rightarrow>
          bindE (require (fence_identity i p b) (PairClaimLost ''pair creator fence identity changed'')) (\<lambda>_.
          bindE (require (control_ok i \<and> compute_ok i \<and> custody_ok (pl_custody i) \<and> inputs_ok k b (pl_inputs i) \<and>
                   payloads_ok k (pl_payloads i) \<and> ipc_ok (pl_ipc i) \<and> volumes_ok (pl_volumes i))
                 (RuntimeError ''corrupt pair evidence'')) (\<lambda>_.
          bindE (require (fence_evidence i p) (PairClaimLost ''pair cleanup ownership changed'')) (\<lambda>_.
          bindE (case pl_state i of
                   None \<Rightarrow> Inr ()
                 | Some n \<Rightarrow>
                     (case get_state d n of
                        None \<Rightarrow> Inl (PairClaimLost ''persistent egress cleanup reservation missing'')
                      | Some s \<Rightarrow> require_cleanup_state s i (sn_egress p))) (\<lambda>_.
          let i' = i\<lparr>pi_fenced := True\<rparr> in Inr (i', put_intent i' d)))))
      | _ \<Rightarrow> Inl (PairClaimLost ''pair creator fence identity changed'')))"

section \<open>Every writer has returned\<close>

definition writer_done :: "dispatch_state \<times> string option \<Rightarrow> bool" where
  "writer_done ev \<longleftrightarrow>
     (case ev of (x, u) \<Rightarrow> x = Unissued \<and> u = None \<or> x = Settled \<and> u \<noteq> None)"

text \<open>A ledger of dispatches with its identities, against what was captured: no drift but a return.\<close>

definition family_kept ::
  "(string \<times> dispatch_state) list \<Rightarrow> (string \<times> string option) list
   \<Rightarrow> (string \<times> dispatch_state) list \<Rightarrow> (string \<times> string option) list \<Rightarrow> bool" where
  "family_kept before uids now live \<longleftrightarrow>
     list_all (\<lambda>(key, x). moved (at before key) x \<and> uid_kept (at uids key) (at live key)) now"

definition family_evidence ::
  "(string \<times> dispatch_state) list \<Rightarrow> (string \<times> string option) list \<Rightarrow> (dispatch_state \<times> string option) list" where
  "family_evidence now uids = map (\<lambda>(key, x). (x, at uids key)) now"

definition entries_kept :: "(string \<times> 'p ledger_entry) list \<Rightarrow> (string \<times> 'p ledger_entry) list \<Rightarrow> error + unit" where
  "entries_kept captured now =
     (if list_ex (\<lambda>(role, e). \<not> moved (en_dispatch (at captured role)) (en_dispatch e)) now
      then Inl (PairClaimLost ''pair cleanup resource dispatch changed'')
      else require (list_all (\<lambda>(role, e). uid_kept (en_uid (at captured role)) (en_uid e)) now)
        (PairClaimLost ''pair cleanup resource identity changed''))"

definition entries_evidence ::
  "(string \<times> 'p ledger_entry) list \<Rightarrow> (string \<times> 'p ledger_entry) list \<Rightarrow> (dispatch_state \<times> string option) list" where
  "entries_evidence captured now = map (\<lambda>(role, e). (en_dispatch e, en_uid (at captured role))) now"

definition state_evidence :: "egress_state option \<Rightarrow> egress_state option \<Rightarrow> (dispatch_state \<times> string option) list" where
  "state_evidence captured now =
     (case (captured, now) of
        (Some c, Some s) \<Rightarrow> [(es_key_dispatch s, es_key_uid c), (es_volume_dispatch s, es_volume_uid c)]
      | _ \<Rightarrow> [])"

definition writer_evidence :: "pair_snapshot \<Rightarrow> pair_intent \<Rightarrow> egress_state option \<Rightarrow> (dispatch_state \<times> string option) list" where
  "writer_evidence p i s =
     family_evidence (pl_control i) (pl_control_uids p) @ family_evidence (pl_compute i) (pl_compute_uids p)
     @ entries_evidence (pl_inputs p) (pl_inputs i) @ entries_evidence (pl_volumes p) (pl_volumes i)
     @ entries_evidence (pl_ipc p) (pl_ipc i)
     @ [(cu_dispatch (pl_custody i), cu_uid (pl_custody p))] @ state_evidence (sn_egress p) s"

definition custody_kept :: "custody \<Rightarrow> custody \<Rightarrow> bool" where
  "custody_kept captured c \<longleftrightarrow>
     moved (cu_dispatch captured) (cu_dispatch c) \<and> uid_kept (cu_uid captured) (cu_uid c)"

definition pair_writers_settled :: "ledger_rules \<Rightarrow> cleanup_work \<Rightarrow> int \<Rightarrow> recovery_claim \<Rightarrow> bool tx" where
  "pair_writers_settled k w0 now claim d =
     bindE (owned_pair_cleanup k w0 now claim d) (\<lambda>w.
     bindE (fence_pair_creators k w d) (\<lambda>(i, d').
     (case cw_pair w of
        None \<Rightarrow> Inl (OtherError ''AssertionError'')
      | Some p \<Rightarrow>
          if \<not> family_kept (pl_control p) (pl_control_uids p) (pl_control i) (pl_control_uids i) \<or>
             \<not> family_kept (pl_compute p) (pl_compute_uids p) (pl_compute i) (pl_compute_uids i)
          then Inr (False, d')
          else
     bindE (entries_kept (pl_inputs p) (pl_inputs i)) (\<lambda>_.
     bindE (entries_kept (pl_volumes p) (pl_volumes i)) (\<lambda>_.
     bindE (entries_kept (pl_ipc p) (pl_ipc i)) (\<lambda>_.
     bindE (require (custody_kept (pl_custody p) (pl_custody i))
            (PairClaimLost ''pair cleanup custody evidence changed'')) (\<lambda>_.
     let s = (case pl_state i of None \<Rightarrow> None | Some n \<Rightarrow> get_state d' n) in
     Inr (pl_topics i \<noteq> Inflight \<and> list_all writer_done (writer_evidence p i s), d'))))))))"

end
