(* ===== verification/Pair_Records.thy ===== *)
theory Pair_Records
  imports Pair_Cleanup
begin

text \<open>
  What a capture records in the snapshot of a cleanup (\<open>lifecycle_store.py\<close>): the identity of an object
  that was observed, the evidence of its volume, and the seal, which compares the capture with what the
  pair still owns before anything is deleted.
\<close>

section \<open>Observed identities\<close>

text \<open>An identity that is known never changes; an observation of nothing forgets nothing.\<close>

definition observe_uid :: "error \<Rightarrow> string option \<Rightarrow> string option \<Rightarrow> error + string option" where
  "observe_uid e previous uid =
     (case uid of
        None \<Rightarrow> Inr previous
      | Some u \<Rightarrow> if previous \<noteq> None \<and> previous \<noteq> Some u then Inl e else Inr (Some u))"

definition store_snapshot :: "cleanup_work \<Rightarrow> pair_snapshot \<Rightarrow> cleanup_work tx" where
  "store_snapshot w p d = (let w' = w\<lparr>cw_pair := Some p\<rparr> in Inr (w', put_work w' d))"

definition uid_argument :: "string option \<Rightarrow> error + unit" where
  "uid_argument uid = require (uid_ok uid) (ValueError ''invalid observed UID'')"

text \<open>The common frame: the claim, the fence where the method takes it, and the new snapshot.\<close>

definition record_in ::
  "ledger_rules \<Rightarrow> bool \<Rightarrow> cleanup_work \<Rightarrow> int \<Rightarrow> recovery_claim \<Rightarrow> (pair_snapshot \<Rightarrow> error + pair_snapshot) \<Rightarrow> cleanup_work tx" where
  "record_in k fence w0 now claim f d =
     bindE (owned_pair_cleanup k w0 now claim d) (\<lambda>w.
     bindE (if fence then bindE (fence_pair_creators k w d) (\<lambda>(_, d'). Inr d') else Inr d) (\<lambda>d'.
     (case cw_pair w of
        None \<Rightarrow> Inl (OtherError ''AssertionError'')
      | Some p \<Rightarrow> bindE (f p) (\<lambda>p'. if p' = p then Inr (w, d') else store_snapshot w p' d'))))"

definition record_pair_control ::
  "ledger_rules \<Rightarrow> cleanup_work \<Rightarrow> string \<Rightarrow> string option \<Rightarrow> int \<Rightarrow> recovery_claim \<Rightarrow> cleanup_work tx" where
  "record_pair_control k w key uid now claim d =
     bindE (require (key \<in> set control_keys) (ValueError ''unsupported pair control resource'')) (\<lambda>_.
     bindE (uid_argument uid) (\<lambda>_.
     record_in k False w now claim (\<lambda>p.
       bindE (observe_uid (RuntimeError ''pair cleanup UID replacement refused'') (at (pl_control_uids p) key) uid) (\<lambda>u.
       Inr (p\<lparr>pl_control_uids := AList.update key u (pl_control_uids p)\<rparr>))) d))"

definition record_pair_compute ::
  "ledger_rules \<Rightarrow> cleanup_work \<Rightarrow> string \<Rightarrow> string option \<Rightarrow> int \<Rightarrow> recovery_claim \<Rightarrow> cleanup_work tx" where
  "record_pair_compute k w role uid now claim d =
     bindE (require (role \<in> set compute_roles) (ValueError ''unsupported pair compute role'')) (\<lambda>_.
     bindE (uid_argument uid) (\<lambda>_.
     record_in k False w now claim (\<lambda>p.
       bindE (observe_uid (RuntimeError ''pair cleanup compute UID replacement refused'')
                (at (pl_compute_uids p) (compute_key role)) uid) (\<lambda>u.
       Inr (p\<lparr>pl_compute_uids := AList.update (compute_key role) u (pl_compute_uids p)\<rparr>))) d))"

definition observe_entry :: "string \<Rightarrow> string option \<Rightarrow> (string \<times> 'p ledger_entry) list \<Rightarrow> error + (string \<times> 'p ledger_entry) list" where
  "observe_entry role uid es =
     (let e = at es role in
      if en_dispatch e = Unissued then Inl (RuntimeError ''resource was never dispatched'')
      else bindE (observe_uid (RuntimeError ''cleanup UID replacement refused'') (en_uid e) uid) (\<lambda>u.
        Inr (AList.update role (e\<lparr>en_uid := u\<rparr>) es)))"

definition record_clone ::
  "ledger_rules \<Rightarrow> cleanup_work \<Rightarrow> string \<Rightarrow> string option \<Rightarrow> int \<Rightarrow> recovery_claim \<Rightarrow> cleanup_work tx" where
  "record_clone k w role uid now claim d =
     bindE (require (role \<in> set volume_roles) (ValueError ''unsupported paired clone role'')) (\<lambda>_.
     bindE (uid_argument uid) (\<lambda>_.
     record_in k True w now claim (\<lambda>p.
       bindE (observe_entry role uid (pl_volumes p)) (\<lambda>vs. Inr (p\<lparr>pl_volumes := vs\<rparr>))) d))"

definition record_ipc_resource ::
  "ledger_rules \<Rightarrow> cleanup_work \<Rightarrow> string \<Rightarrow> string option \<Rightarrow> int \<Rightarrow> recovery_claim \<Rightarrow> cleanup_work tx" where
  "record_ipc_resource k w role uid now claim d =
     bindE (require (role \<in> set ipc_roles) (ValueError ''unsupported paired IPC resource'')) (\<lambda>_.
     bindE (uid_argument uid) (\<lambda>_.
     record_in k True w now claim (\<lambda>p.
       bindE (observe_entry role uid (pl_ipc p)) (\<lambda>rs. Inr (p\<lparr>pl_ipc := rs\<rparr>))) d))"

definition record_relay_custody ::
  "ledger_rules \<Rightarrow> cleanup_work \<Rightarrow> string option \<Rightarrow> int \<Rightarrow> recovery_claim \<Rightarrow> cleanup_work tx" where
  "record_relay_custody k w uid now claim d =
     bindE (uid_argument uid) (\<lambda>_.
     record_in k False w now claim (\<lambda>p.
       if cu_keys (pl_custody p) = None then Inl (RuntimeError ''relay custody was never dispatched'')
       else bindE (observe_uid (RuntimeError ''relay custody cleanup UID replacement refused'')
                     (cu_uid (pl_custody p)) uid) (\<lambda>u.
         Inr (p\<lparr>pl_custody := (pl_custody p)\<lparr>cu_uid := u\<rparr>\<rparr>))) d)"

definition record_relay_input ::
  "ledger_rules \<Rightarrow> cleanup_work \<Rightarrow> string \<Rightarrow> string option \<Rightarrow> int \<Rightarrow> recovery_claim \<Rightarrow> cleanup_work tx" where
  "record_relay_input k w role uid now claim d =
     bindE (require (role \<in> set input_roles) (ValueError ''invalid relay input role'')) (\<lambda>_.
     bindE (uid_argument uid) (\<lambda>_.
     record_in k False w now claim (\<lambda>p.
       let e = at (pl_inputs p) role in
       if en_payload e = None then Inl (RuntimeError ''relay input was never dispatched'')
       else bindE (observe_uid (RuntimeError ''relay input cleanup UID replacement refused'') (en_uid e) uid) (\<lambda>u.
         Inr (p\<lparr>pl_inputs := AList.update role (e\<lparr>en_uid := u\<rparr>) (pl_inputs p)\<rparr>))) d))"

definition observe_state :: "string \<Rightarrow> string option \<Rightarrow> egress_state \<Rightarrow> error + egress_state" where
  "observe_state role uid s =
     (let (x, previous) = (if role = ''key'' then (es_key_dispatch s, es_key_uid s)
                           else (es_volume_dispatch s, es_volume_uid s)) in
      if x = Unissued then Inl (RuntimeError ''persistent egress resource was never dispatched'')
      else bindE (observe_uid (RuntimeError ''persistent egress cleanup UID replacement refused'') previous uid) (\<lambda>u.
        let s' = (if role = ''key'' then s\<lparr>es_key_uid := u\<rparr> else s\<lparr>es_volume_uid := u\<rparr>) in
        bindE (require (state_ok s') (RuntimeError ''corrupt egress state reservation'')) (\<lambda>_. Inr s')))"

definition record_egress_state ::
  "ledger_rules \<Rightarrow> cleanup_work \<Rightarrow> string \<Rightarrow> string option \<Rightarrow> int \<Rightarrow> recovery_claim \<Rightarrow> cleanup_work tx" where
  "record_egress_state k w role uid now claim d =
     bindE (require (role \<in> {''key'', ''volume''}) (ValueError ''unsupported persistent egress cleanup role'')) (\<lambda>_.
     bindE (uid_argument uid) (\<lambda>_.
     record_in k True w now claim (\<lambda>p.
       case sn_egress p of
         None \<Rightarrow> Inl (RuntimeError ''persistent egress state was never reserved'')
       | Some s \<Rightarrow> bindE (observe_state role uid s) (\<lambda>s'. Inr (p\<lparr>sn_egress := Some s'\<rparr>))) d))"

section \<open>Release evidence\<close>

text \<open>The first evidence stays.\<close>

definition first_release :: "release_evidence option \<Rightarrow> release_evidence \<Rightarrow> error + release_evidence" where
  "first_release stored ev =
     (case stored of
        None \<Rightarrow> Inr ev
      | Some x \<Rightarrow> if x \<noteq> ev then Inl (RuntimeError ''stored release evidence changed'') else Inr x)"

definition release_entry :: "string \<Rightarrow> release_evidence \<Rightarrow> (string \<times> 'p ledger_entry) list \<Rightarrow> error + (string \<times> 'p ledger_entry) list" where
  "release_entry role ev es =
     (let e = at es role in
      if en_dispatch e = Unissued \<or> en_uid e = None
      then Inl (RuntimeError ''bound paired resource release evidence required'')
      else bindE (first_release (en_release e) ev) (\<lambda>x. Inr (AList.update role (e\<lparr>en_release := Some x\<rparr>) es)))"

definition record_pair_release ::
  "ledger_rules \<Rightarrow> cleanup_work \<Rightarrow> string \<Rightarrow> string \<Rightarrow> release_evidence option \<Rightarrow> int \<Rightarrow> recovery_claim \<Rightarrow> cleanup_work tx" where
  "record_pair_release k w family role ev now claim d =
     bindE (require (release_ok ev) (RuntimeError ''corrupt release evidence'')) (\<lambda>_.
     (case ev of
        None \<Rightarrow> Inr (w, d)
      | Some x \<Rightarrow>
          if family \<notin> {''volume_resources'', ''ipc_resources''} then Inr (w, d)
          else record_in k True w now claim (\<lambda>p.
            if family = ''volume_resources''
            then bindE (release_entry role x (pl_volumes p)) (\<lambda>vs. Inr (p\<lparr>pl_volumes := vs\<rparr>))
            else bindE (release_entry role x (pl_ipc p)) (\<lambda>rs. Inr (p\<lparr>pl_ipc := rs\<rparr>))) d))"

definition record_state_release ::
  "ledger_rules \<Rightarrow> cleanup_work \<Rightarrow> release_evidence option \<Rightarrow> int \<Rightarrow> recovery_claim \<Rightarrow> cleanup_work tx" where
  "record_state_release k w0 ev now claim d =
     bindE (require (release_ok ev) (RuntimeError ''corrupt release evidence'')) (\<lambda>_.
     (case ev of
        None \<Rightarrow> Inr (w0, d)
      | Some x \<Rightarrow>
     bindE (owned_pair_cleanup k w0 now claim d) (\<lambda>w.
     bindE (fence_pair_creators k w d) (\<lambda>(_, d').
     (case cw_pair w of
        None \<Rightarrow> Inl (OtherError ''AssertionError'')
      | Some p \<Rightarrow>
     (case sn_egress p of
        None \<Rightarrow> Inl (RuntimeError ''persistent egress state was never reserved'')
      | Some s \<Rightarrow>
          if es_volume_dispatch s = Unissued \<or> es_volume_uid s = None
          then Inl (RuntimeError ''bound persistent egress volume release evidence required'')
          else if es_volume_release s \<noteq> None
          then bindE (first_release (es_volume_release s) x) (\<lambda>_. Inr (w, d'))
          else (case get_state d' (es_id s) of
                  None \<Rightarrow> Inl (RuntimeError ''persistent egress state row missing'')
                | Some row \<Rightarrow>
                    bindE (first_release (es_volume_release row) x) (\<lambda>y.
                    bindE (store_snapshot w (p\<lparr>sn_egress := Some (s\<lparr>es_volume_release := Some x\<rparr>)\<rparr>) d') (\<lambda>(w', d'').
                      Inr (w', put_state (row\<lparr>es_volume_release := Some y\<rparr>) d''))))))))))"

section \<open>The seal\<close>

text \<open>A write that came back between the capture and the seal.\<close>

definition late_entry :: "'p ledger_entry \<Rightarrow> 'p ledger_entry \<Rightarrow> 'p ledger_entry" where
  "late_entry captured live =
     (if en_dispatch captured = Inflight \<and> en_dispatch live = Settled
      then captured\<lparr>en_dispatch := Settled, en_uid := en_uid live\<rparr> else captured)"

definition release_onto :: "'p ledger_entry \<Rightarrow> 'p ledger_entry \<Rightarrow> 'p ledger_entry" where
  "release_onto e other = (if en_release e = None then e\<lparr>en_release := en_release other\<rparr> else e)"

definition entries_with :: "('e \<Rightarrow> 'e \<Rightarrow> 'e) \<Rightarrow> (string \<times> 'e) list \<Rightarrow> (string \<times> 'e) list \<Rightarrow> (string \<times> 'e) list" where
  "entries_with f es others = map (\<lambda>(role, e). (role, f e (at others role))) es"

text \<open>A dispatch that returned with another identity than the captured one is left.\<close>

definition late_write :: "dispatch_state \<Rightarrow> dispatch_state \<Rightarrow> string option \<Rightarrow> string option \<Rightarrow> bool" where
  "late_write captured live uid uid' \<longleftrightarrow>
     captured = Inflight \<and> live = Settled \<and> (uid = None \<or> uid' = None \<or> uid = uid')"

definition late_family ::
  "(string \<times> dispatch_state) list \<Rightarrow> (string \<times> string option) list \<Rightarrow> (string \<times> dispatch_state) list
   \<Rightarrow> (string \<times> string option) list \<Rightarrow> (string \<times> dispatch_state) list \<times> (string \<times> string option) list" where
  "late_family xs uids xs' uids' =
     (let late = (\<lambda>key x. late_write x (at xs' key) (at uids key) (at uids' key)) in
      (map (\<lambda>(key, x). (key, if late key x then Settled else x)) xs,
       map (\<lambda>(key, u). (key, if late key (at xs key) then at uids' key else u)) uids))"

definition late_state :: "egress_state \<Rightarrow> egress_state \<Rightarrow> egress_state" where
  "late_state c s =
     (let c1 = (if es_volume_release c = None then c\<lparr>es_volume_release := es_volume_release s\<rparr> else c);
          c2 = (if late_write (es_key_dispatch c1) (es_key_dispatch s) (es_key_uid c1) (es_key_uid s)
                then c1\<lparr>es_key_dispatch := Settled, es_key_uid := es_key_uid s\<rparr> else c1)
      in if late_write (es_volume_dispatch c2) (es_volume_dispatch s) (es_volume_uid c2) (es_volume_uid s)
         then c2\<lparr>es_volume_dispatch := Settled, es_volume_uid := es_volume_uid s\<rparr> else c2)"

definition late_custody :: "custody \<Rightarrow> custody \<Rightarrow> custody" where
  "late_custody c live =
     (if cu_dispatch c = Inflight \<and> cu_dispatch live = Settled
      then c\<lparr>cu_dispatch := Settled, cu_uid := cu_uid live\<rparr> else c)"

definition sealed_expectation :: "pair_snapshot \<Rightarrow> pair_snapshot \<Rightarrow> pair_snapshot" where
  "sealed_expectation p q =
     (let (ctl, ctlu) = late_family (pl_control p) (pl_control_uids p) (pl_control q) (pl_control_uids q);
          (cmp, cmpu) = late_family (pl_compute p) (pl_compute_uids p) (pl_compute q) (pl_compute_uids q)
      in p\<lparr>pl_topics := (if pl_topics p = Inflight \<and> pl_topics q = Settled then Settled else pl_topics p),
           pl_inputs := entries_with late_entry (pl_inputs p) (pl_inputs q),
           pl_volumes := entries_with release_onto (entries_with late_entry (pl_volumes p) (pl_volumes q)) (pl_volumes q),
           pl_ipc := entries_with release_onto (entries_with late_entry (pl_ipc p) (pl_ipc q)) (pl_ipc q),
           pl_custody := late_custody (pl_custody p) (pl_custody q),
           pl_control := ctl, pl_control_uids := ctlu, pl_compute := cmp, pl_compute_uids := cmpu,
           sn_egress := (case (sn_egress p, sn_egress q) of
              (Some c, Some s) \<Rightarrow> Some (late_state c s) | _ \<Rightarrow> sn_egress p)\<rparr>)"

text \<open>What the pair owns, with the evidence that only the capture holds.\<close>

definition sealed_retention :: "pair_snapshot \<Rightarrow> pair_snapshot \<Rightarrow> pair_snapshot" where
  "sealed_retention p q =
     q\<lparr>pl_volumes := entries_with release_onto (pl_volumes q) (pl_volumes p),
       pl_ipc := entries_with release_onto (pl_ipc q) (pl_ipc p)\<rparr>"

definition seal_pair_cleanup :: "ledger_rules \<Rightarrow> cleanup_work \<Rightarrow> int \<Rightarrow> recovery_claim \<Rightarrow> bool tx" where
  "seal_pair_cleanup k w now claim d =
     bindE (pair_writers_settled k w now claim d) (\<lambda>(all_back, d').
     if \<not> all_back then Inr (False, d')
     else
     bindE (cleanup_pair k w) (\<lambda>b.
     bindE (require (case get_intent d' (pb_generation b) of None \<Rightarrow> False | Some i \<Rightarrow> pi_journal i = None)
            (RuntimeError ''pair cleanup journal must stay unset'')) (\<lambda>_.
     bindE (pair_snapshot_of k (pb_session b) (pb_sandbox b) None d') (\<lambda>q.
     (case (cw_pair w, q) of
        (Some p, Some q) \<Rightarrow>
          bindE (require (sealed_retention p q = sealed_expectation p q)
                 (PairClaimLost ''cleanup claim differs from retained ownership'')) (\<lambda>_. Inr (True, d'))
      | _ \<Rightarrow> Inl (OtherError ''AssertionError''))))))"

end
