(* ===== verification/Pair_Lifetime.thy ===== *)
theory Pair_Lifetime
  imports Pair_Records
begin

text \<open>
  The end of a pair and what comes after it: its retirement (\<open>pair_retirement.py\<close>), the one-way claim that
  expires what an idle pair left (\<open>pair_disposal.py\<close>), and the transfer of it to the next generation of the
  sandbox (\<open>pair_transfer.py\<close>).
\<close>

section \<open>Names of objects\<close>

definition session_name :: "nat \<Rightarrow> string" where "session_name n = ''ads-sandbox-'' @ nat_str n"

definition ipc_name :: "nat \<Rightarrow> string" where "ipc_name b = ''ads-sandbox-ipc-'' @ nat_str b"

definition ca_consumer_name :: "nat \<Rightarrow> string \<Rightarrow> string" where
  "ca_consumer_name b role = ''ads-ca-'' @ role @ ''-'' @ nat_str b"

definition pair_name :: "pair_binding \<Rightarrow> string \<Rightarrow> string" where
  "pair_name b role = ''ads-'' @ role @ ''-'' @ nat_str (pb_sandbox b)"

definition relay_input_name :: "pair_binding \<Rightarrow> string \<Rightarrow> string" where
  "relay_input_name b role = pair_name b role @ ''.'' @ nat_str (pb_generation b)"

definition target :: "string \<Rightarrow> string \<Rightarrow> string option \<Rightarrow> bool \<Rightarrow> cleanup_target" where
  "target kind name uid retain =
     \<lparr>t_kind = kind, t_name = name, t_uid = uid, t_retain = retain, t_captured = False, t_release = None,
      t_cleaned = False, t_ids = None\<rparr>"

text \<open>\<open>{**evidence, **target(...)}\<close>\<close>

definition with_release :: "release_evidence option \<Rightarrow> cleanup_target \<Rightarrow> cleanup_target" where
  "with_release ev t = (if ev = None then t else t\<lparr>t_captured := True, t_release := ev\<rparr>)"

definition over_target :: "cleanup_target option \<Rightarrow> cleanup_target \<Rightarrow> cleanup_target" where
  "over_target ev t =
     (case ev of
        None \<Rightarrow> t
      | Some x \<Rightarrow> x\<lparr>t_kind := t_kind t, t_name := t_name t, t_uid := t_uid t, t_retain := t_retain t\<rparr>)"

section \<open>Retirement\<close>

text \<open>\<open>verify\<close>: a retired generation, whose original snapshot can still be built.\<close>

definition verify_retired :: "ledger_rules \<Rightarrow> nat \<Rightarrow> manager_db \<Rightarrow> error + int" where
  "verify_retired k g d =
     (case get_intent d g of
        None \<Rightarrow> Inl (PairClaimLost ''retirement tombstone or original ownership changed'')
      | Some i \<Rightarrow>
     (case pi_retired i of
        None \<Rightarrow> Inl (PairClaimLost ''retirement tombstone or original ownership changed'')
      | Some t \<Rightarrow>
          if \<not> pi_fenced i \<or> pi_journal i \<noteq> None
          then Inl (PairClaimLost ''retirement tombstone or original ownership changed'')
          else bindE (pair_snapshot_of k (pl_session i) (pl_sandbox i) (Some g) d) (\<lambda>_. Inr t)))"

definition retire :: "ledger_rules \<Rightarrow> cleanup_work \<Rightarrow> int \<Rightarrow> recovery_claim \<Rightarrow> bool tx" where
  "retire k w0 now claim d =
     bindE (owned_pair_cleanup k w0 now claim d) (\<lambda>w.
     bindE (cleanup_pair k w) (\<lambda>b.
     (case get_intent d (pb_generation b) of
        None \<Rightarrow> Inl (PairClaimLost ''retirement original intent missing'')
      | Some i \<Rightarrow>
          if pi_retired i \<noteq> None then Inr (True, d)
          else bindE (pair_writers_settled k w now claim d) (\<lambda>(all_back, d').
            if \<not> all_back then Inr (False, d')
            else (case get_intent d' (pb_generation b) of
                    None \<Rightarrow> Inl (PairClaimLost ''retirement original intent missing'')
                  | Some i \<Rightarrow> Inr (True, put_intent (i\<lparr>pi_retired := Some now\<rparr>) d'))))))"

text \<open>\<open>require_destroyed_history\<close>: a fresh pair only after every generation of the session is retired.\<close>

definition require_destroyed_history :: "ledger_rules \<Rightarrow> sandbox_session \<Rightarrow> manager_db \<Rightarrow> error + unit" where
  "require_destroyed_history k r d =
     (let mine = filter (\<lambda>i. pl_session i = ss_session r) (intents d) in
      bindE (foldE (\<lambda>_ i.
               if pi_retired i = None \<or> pl_sandbox i = ss_sandbox r
               then Inl (PairClaimLost ''fresh admission precedes original generation retirement'')
               else bindE (verify_retired k (pl_generation i) d) (\<lambda>_. Inr ())) () mine) (\<lambda>_.
      if set (map es_id (filter (\<lambda>s. es_session s = ss_session r) (states d)))
           \<noteq> set (concat (map (\<lambda>i. case pl_state i of None \<Rightarrow> [] | Some n \<Rightarrow> [n]) mine))
      then Inl (PairClaimLost ''fresh admission has untracked persistent ownership'')
      else require (ss_pod r = None \<and> ss_pvc r = None \<and>
                    \<not> list_ex (\<lambda>v. sp_session v = ss_session r) (pvcs d))
             (PairClaimLost ''fresh admission has unfinished session bindings'')))"

text \<open>What every end of a sandbox clears in the session.\<close>

definition cleared :: "sandbox_session \<Rightarrow> sandbox_session" where
  "cleared r =
     r\<lparr>ss_guest := None, ss_ipc := None, ss_ipc_pvc := None, ss_ca_attempt := None, ss_ca_sources := None,
       ss_ca_clones := None\<rparr>"

definition stopped_pair :: "int \<Rightarrow> sandbox_session \<Rightarrow> sandbox_session" where
  "stopped_pair now r =
     (cleared r)\<lparr>ss_status := SStopped, ss_changed := advance (ss_changed r) now, ss_deadline := None,
       ss_owner := None, ss_pod := None\<rparr>"

definition drop_work :: "nat \<Rightarrow> manager_db \<Rightarrow> manager_db" where
  "drop_work i d = d\<lparr>works := cut cw_id i (works d)\<rparr>"

definition drop_pvc :: "nat \<Rightarrow> manager_db \<Rightarrow> manager_db" where
  "drop_pvc i d = d\<lparr>pvcs := cut sp_id i (pvcs d)\<rparr>"

definition finish_idle :: "ledger_rules \<Rightarrow> cleanup_work \<Rightarrow> int \<Rightarrow> bool tx" where
  "finish_idle k w now d =
     (case (cw_kind w, cw_session w, cw_pvc w) of
        (WIdle, Some s, Some v) \<Rightarrow>
     bindE (retire k w now None d) (\<lambda>(retired, d').
     if \<not> retired then Inr (False, d')
     else (case (session_row d' s, get_pvc d' v) of
             (Some r, Some p) \<Rightarrow>
               (case find t_retain (cw_targets w) of
                  None \<Rightarrow> Inl (PairClaimLost ''idle retirement workspace proof changed'')
                | Some t \<Rightarrow>
                    if t_uid t \<noteq> sp_uid p then Inl (PairClaimLost ''idle retirement workspace proof changed'')
                    else Inr (True, drop_work (cw_id w)
                      (put_pvc (p\<lparr>sp_state := VDetached, sp_changed := advance (sp_changed p) now, sp_evidence := Some t\<rparr>)
                        (put_session (stopped_pair now r) d'))))
           | _ \<Rightarrow> Inl (PairClaimLost ''idle retirement lifetime missing'')))
      | _ \<Rightarrow> Inl (PairClaimLost ''idle retirement claim required''))"

text \<open>The session after its lifetime was destroyed: \<open>fresh\<close> is the next identity of the sandbox.\<close>

definition destroyed_session :: "nat \<Rightarrow> int \<Rightarrow> sandbox_session \<Rightarrow> sandbox_session" where
  "destroyed_session fresh now r =
     (stopped_pair now r)\<lparr>ss_pvc := None, ss_pvc_uid := None, ss_sandbox := fresh\<rparr>"

definition finish_destroyed :: "ledger_rules \<Rightarrow> nat \<Rightarrow> cleanup_work \<Rightarrow> int \<Rightarrow> bool tx" where
  "finish_destroyed k fresh w now d =
     (if cw_kind w \<notin> {WOrphan, WService, WReap}
      then Inl (PairClaimLost ''destructive completion requires a destructive claim'')
      else
     bindE (retire k w now None d) (\<lambda>(retired, d').
     if \<not> retired then Inr (False, d')
     else (case cw_session w of
             None \<Rightarrow> Inr (True, drop_work (cw_id w) d')
           | Some s \<Rightarrow>
               (case locked d' s (cw_sandbox w) of
                  (None, _) \<Rightarrow> Inl (PairClaimLost ''destructive completion lacks original lifetime'')
                | (Some r, v) \<Rightarrow>
                    (case v of
                       None \<Rightarrow> Inr (True, drop_work (cw_id w) (put_session (destroyed_session fresh now r) d'))
                     | Some p \<Rightarrow>
                         if list_ex (\<lambda>t. t_retain t \<and> t_name t = session_name (sp_id p)) (cw_targets w)
                         then Inl (PairClaimLost ''destructive completion deletes retained workspace'')
                         else Inr (True, drop_work (cw_id w)
                                (put_session (destroyed_session fresh now r) (drop_pvc (sp_id p) d'))))))))"

section \<open>Disposal\<close>

definition retained_workspace :: "nat \<Rightarrow> manager_db \<Rightarrow> error + pair_intent" where
  "retained_workspace g d =
     (case get_intent d g of
        None \<Rightarrow> Inl (PairClaimLost ''retained lifetime is not idle-retained original storage'')
      | Some i \<Rightarrow>
          if pi_retired i = None \<or> \<not> pi_fenced i \<or> pi_journal i \<noteq> None \<or>
             list_ex (\<lambda>j. pl_from j = Some g) (intents d)
          then Inl (PairClaimLost ''retained lifetime is not idle-retained original storage'')
          else if en_dispatch (at (pl_volumes i) ''workspace'') = Unissued
          then Inl (PairClaimLost ''retained lifetime never held its workspace storage'')
          else Inr i)"

definition orphan_scope :: "'a pair_ledger_scheme \<Rightarrow> manager_db \<Rightarrow> error + unit" where
  "orphan_scope i d =
     require
       (\<not> list_ex (\<lambda>r. ss_session r = pl_session i \<or> ss_sandbox r = pl_sandbox i) (sessions d) \<and>
        \<not> list_ex (\<lambda>v. sp_session v = pl_session i) (pvcs d) \<and>
        \<not> list_ex (\<lambda>w. cw_kind w = WRecovery \<and> (cw_session w = Some (pl_session i) \<or> cw_sandbox w = pl_sandbox i)) (works d))
       (PairClaimLost ''retained orphan has a live ownership claim'')"

definition workspace_id :: "'a pair_ledger_scheme \<Rightarrow> nat" where
  "workspace_id i = (case en_payload (at (pl_volumes i) ''workspace'') of None \<Rightarrow> 0 | Some p \<Rightarrow> vp_pvc p)"

definition workspace_uid :: "'a pair_ledger_scheme \<Rightarrow> string option" where
  "workspace_uid i = en_uid (at (pl_volumes i) ''workspace'')"

definition begin_disposal :: "cleanup_work \<Rightarrow> nat \<Rightarrow> int \<Rightarrow> pair_disposal tx" where
  "begin_disposal w g now d =
     bindE (retained_workspace g d) (\<lambda>i.
     if cw_kind w \<notin> {WReap, WOrphan} \<or> \<not> owns d w \<or> cw_sandbox w \<noteq> pl_sandbox i
     then Inl (PairClaimLost ''retained expiry claim changed'')
     else
     bindE (if cw_kind w = WOrphan
            then (if cw_session w \<noteq> None \<or> cw_pvc w \<noteq> None
                  then Inl (PairClaimLost ''retained orphan work has a session binding'')
                  else orphan_scope i d)
            else require (cw_session w = Some (pl_session i) \<and>
                    (case cw_pvc w of
                       None \<Rightarrow> False
                     | Some v \<Rightarrow>
                         (case get_pvc d v of
                            None \<Rightarrow> False
                          | Some p \<Rightarrow> sp_id p = workspace_id i \<and> sp_uid p = workspace_uid i)))
              (PairClaimLost ''retained expiry workspace changed'')) (\<lambda>_.
     (case workspace_uid i of
        None \<Rightarrow> Inl (OtherError ''IntegrityError'')
      | Some u \<Rightarrow>
          let receipt = \<lparr>pd_generation = g, pd_work = cw_id w, pd_session = pl_session i, pd_sandbox = pl_sandbox i,
                pd_project = pl_project i, pd_pvc = workspace_id i, pd_pvc_uid = u, pd_created = now,
                pd_completed = None\<rparr>
          in if pick pd_generation g (disposals d) \<noteq> None \<or> pick pd_work (cw_id w) (disposals d) \<noteq> None
             then Inl (OtherError ''IntegrityError'')
             else Inr (receipt, d\<lparr>disposals := disposals d @ [receipt]\<rparr>))))"

definition verify_disposal :: "nat \<Rightarrow> manager_db \<Rightarrow> error + pair_disposal" where
  "verify_disposal g d =
     bindE (retained_workspace g d) (\<lambda>i.
     (case pick pd_generation g (disposals d) of
        None \<Rightarrow> Inl (PairClaimLost ''retained disposal ownership or proof changed'')
      | Some x \<Rightarrow>
          bindE (require
            ((pd_session x, pd_sandbox x, pd_project x) = (pl_session i, pl_sandbox i, pl_project i) \<and>
             Some (pd_pvc_uid x) = workspace_uid i \<and> pd_pvc x = workspace_id i \<and>
             (case pi_retired i of Some t \<Rightarrow> t \<le> pd_created x | None \<Rightarrow> pl_changed i \<le> pd_created x) \<and>
             (case pd_completed x of None \<Rightarrow> True | Some t \<Rightarrow> pd_created x \<le> t))
            (PairClaimLost ''retained disposal ownership or proof changed'')) (\<lambda>_. Inr x)))"

definition disposal_work_ok :: "cleanup_work \<Rightarrow> cleanup_work \<Rightarrow> pair_disposal \<Rightarrow> bool" where
  "disposal_work_ok st w x \<longleftrightarrow>
     pd_completed x = None \<and> cw_kind st \<in> {WReap, WOrphan} \<and>
     (cw_session st, cw_sandbox st, cw_pvc st, cw_changed st, cw_pvc_changed st)
       = (cw_session w, cw_sandbox w, cw_pvc w, cw_changed w, cw_pvc_changed w) \<and>
     cw_sandbox st = pd_sandbox x \<and>
     (cw_kind st = WReap \<longrightarrow> cw_session st = Some (pd_session x) \<and> cw_pvc st = Some (pd_pvc x)) \<and>
     (cw_kind st = WOrphan \<longrightarrow> cw_session st = None \<and> cw_pvc st = None)"

definition owned_disposal :: "cleanup_work \<Rightarrow> manager_db \<Rightarrow> error + pair_disposal" where
  "owned_disposal w d =
     (if cw_session w = None \<and> cw_kind w \<noteq> WOrphan
      then Inl (PairClaimLost ''retained expiry requires a session claim'')
      else if \<not> owns d w then Inl (PairClaimLost ''retained expiry claim lost'')
      else (case pick pd_work (cw_id w) (disposals d) of
              None \<Rightarrow> Inl (PairClaimLost ''retained expiry receipt missing'')
            | Some x0 \<Rightarrow>
     bindE (verify_disposal (pd_generation x0) d) (\<lambda>x.
     bindE (if cw_kind w = WOrphan
            then bindE (retained_workspace (pd_generation x) d) (\<lambda>i. orphan_scope i d)
            else Inr ()) (\<lambda>_.
     (case get_work d (cw_id w) of
        None \<Rightarrow> Inl (PairClaimLost ''retained expiry work identity changed'')
      | Some st \<Rightarrow>
          bindE (require (disposal_work_ok st w x) (PairClaimLost ''retained expiry work identity changed''))
            (\<lambda>_. Inr x))))))"

definition complete_disposal :: "int \<Rightarrow> pair_disposal \<Rightarrow> manager_db \<Rightarrow> manager_db" where
  "complete_disposal now x d = d\<lparr>disposals := put pd_generation (x\<lparr>pd_completed := Some now\<rparr>) (disposals d)\<rparr>"

definition finish_disposal :: "nat \<Rightarrow> cleanup_work \<Rightarrow> int \<Rightarrow> bool tx" where
  "finish_disposal fresh w now d =
     bindE (owned_disposal w d) (\<lambda>x.
     bindE (if cw_kind w = WOrphan then Inr d
            else (case locked d (pd_session x) (pd_sandbox x) of
                    (Some r, Some p) \<Rightarrow>
                      if sp_uid p \<noteq> Some (pd_pvc_uid x)
                      then Inl (PairClaimLost ''retained expiry lifetime changed'')
                      else Inr (drop_pvc (sp_id p)
                             (put_session (r\<lparr>ss_pvc := None, ss_pvc_uid := None, ss_sandbox := fresh,
                                ss_changed := advance (ss_changed r) now\<rparr>) d))
                  | _ \<Rightarrow> Inl (PairClaimLost ''retained expiry lifetime changed''))) (\<lambda>d'.
     Inr (True, drop_work (cw_id w) (complete_disposal now x d'))))"

section \<open>Transfer\<close>

text \<open>The latest generation of a sandbox: \<open>order_by(claim_changed.desc()).limit(1)\<close>.\<close>

definition latest_intent :: "nat \<Rightarrow> manager_db \<Rightarrow> pair_intent option" where
  "latest_intent b d =
     (case filter (\<lambda>i. pl_sandbox i = b) (intents d) of
        [] \<Rightarrow> None
      | i # is \<Rightarrow> Some (foldl (\<lambda>m j. if pl_changed m < pl_changed j then j else m) i is))"

definition workspace_available :: "sandbox_session \<Rightarrow> pair_intent \<Rightarrow> session_pvc \<Rightarrow> bool" where
  "workspace_available r prior p \<longleftrightarrow>
     (sp_session p, sp_sandbox p, sp_uid p) = (ss_session r, ss_sandbox r, ss_pvc_uid r) \<and>
     sp_id p = workspace_id prior \<and> sp_uid p = workspace_uid prior \<and>
     sp_state p \<in> {VDetached, VAttaching} \<and> (ss_status r = SStopped \<longrightarrow> sp_state p = VDetached) \<and>
     (ss_status r = SCreating \<longrightarrow> sp_state p = VAttaching) \<and> ss_status r \<in> {SStopped, SCreating} \<and>
     ss_golden r = pl_golden prior"

definition available :: "ledger_rules \<Rightarrow> sandbox_session \<Rightarrow> manager_db \<Rightarrow> error + pair_intent \<times> egress_state \<times> session_pvc" where
  "available k r d =
     (case latest_intent (ss_sandbox r) d of
        None \<Rightarrow> Inl (PairClaimLost ''retained sandbox has no retired original generation'')
      | Some prior \<Rightarrow>
          if pi_retired prior = None
          then Inl (PairClaimLost ''retained sandbox has no retired original generation'')
          else
     bindE (verify_retired k (pl_generation prior) d) (\<lambda>_.
     if pl_project prior \<noteq> ss_project r then Inl (PairClaimLost ''retained generation acquired a foreign project'')
     else if list_ex (\<lambda>t. tr_predecessor t = pl_generation prior) (transfers d) \<or>
             pick pd_generation (pl_generation prior) (disposals d) \<noteq> None
     then Inl (PairClaimLost ''retained generation is not available for exclusive transfer'')
     else (case (case ss_pvc r of None \<Rightarrow> None | Some v \<Rightarrow> get_pvc d v) of
             None \<Rightarrow> Inl (PairClaimLost ''retained workspace lifetime or claim changed'')
           | Some p \<Rightarrow>
               if \<not> workspace_available r prior p
               then Inl (PairClaimLost ''retained workspace lifetime or claim changed'')
               else (case pl_state prior of
                       None \<Rightarrow> Inl (ValueError ''badly formed hexadecimal UUID string'')
                     | Some n \<Rightarrow>
                         (case get_state d n of
                            None \<Rightarrow> Inl (PairClaimLost ''retained persistent state or wrapping identity changed'')
                          | Some s \<Rightarrow> Inr (prior, s, p))))))"

definition inherit_scope :: "sandbox_session \<Rightarrow> pair_intent \<Rightarrow> pair_intent \<Rightarrow> session_pvc \<Rightarrow> bool" where
  "inherit_scope r i saved p \<longleftrightarrow>
     pl_generation i \<noteq> pl_generation saved \<and> pi_retired i = None \<and> \<not> pi_fenced i \<and>
     (pl_session i, pl_sandbox i, pl_project i, pl_changed i) = (ss_session r, ss_sandbox r, ss_project r, ss_changed r) \<and>
     pl_namespace i = pl_namespace saved \<and> pl_golden i = pl_golden saved \<and>
     (case pi_retired saved of Some t \<Rightarrow> t < pl_changed i | None \<Rightarrow> False) \<and>
     pl_state i = None \<and> pl_from i = None \<and> en_dispatch (at (pl_volumes i) ''workspace'') = Unissued \<and>
     pl_topics i = Unissued \<and> sp_state p = VAttaching \<and> Some (sp_id p) = ss_pvc r \<and> sp_uid p = ss_pvc_uid r \<and>
     (pl_session saved, pl_sandbox saved, pl_project saved) = (pl_session i, pl_sandbox i, pl_project i) \<and>
     sp_id p = workspace_id saved \<and> sp_uid p = workspace_uid saved"

text \<open>\<open>inherit\<close>, after the caller's claim was checked: the receipt, and the intent that it changes.\<close>

definition inherit_pair ::
  "ledger_rules \<Rightarrow> sandbox_session \<Rightarrow> pair_intent \<Rightarrow> pair_intent \<Rightarrow> egress_state \<Rightarrow> session_pvc \<Rightarrow> pair_intent tx" where
  "inherit_pair k r i saved s p d =
     bindE (require (inherit_scope r i saved p) (PairClaimLost ''new retained ownership scope changed'')) (\<lambda>_.
     bindE (verify_retired k (pl_generation saved) d) (\<lambda>t.
     bindE (require (Some t = pi_retired saved) (PairClaimLost ''retained predecessor proof changed'')) (\<lambda>_.
     bindE (require (state_ok s) (RuntimeError ''corrupt egress state reservation'')) (\<lambda>_.
     let workspace = reattached (sp_changed p) (at (pl_volumes saved) ''workspace'');
         receipt = \<lparr>tr_generation = pl_generation i, tr_predecessor = pl_generation saved, tr_session = pl_session i,
           tr_sandbox = pl_sandbox i, tr_project = pl_project i, tr_owner = pl_owner i, tr_changed = pl_changed i,
           tr_state = s, tr_workspace = workspace, tr_validated = None\<rparr>;
         i' = i\<lparr>pl_from := Some (pl_generation saved), pl_state := Some (es_id s),
           pl_volumes := AList.update ''workspace'' workspace (pl_volumes i), pl_topics := Settled\<rparr>
     in if list_ex (\<lambda>x. tr_predecessor x = pl_generation saved) (transfers d)
        then Inl (OtherError ''IntegrityError'')
        else Inr (i', put_intent i' (d\<lparr>transfers := transfers d @ [receipt]\<rparr>))))))"

end
