(* ===== verification/Pair_Writers.thy ===== *)
theory Pair_Writers
  imports Pair_Lifetime
begin

text \<open>
  The creators of a pair (\<open>pair_store.py\<close>, \<open>pair_volume_store.py\<close>, \<open>pair_ipc_store.py\<close>,
  \<open>egress_state_store.py\<close>). Every write to the cluster is reserved once before it is made, bound to the
  identity that was observed, and settled by the return of the very call that was reserved; all three under
  the claim of the session, but the settlement, which only records that a call came back.
\<close>

section \<open>The claim of a creator\<close>

definition owned_session ::
  "session_status list \<Rightarrow> sandbox_session \<Rightarrow> nat \<Rightarrow> manager_db \<Rightarrow> error + sandbox_session" where
  "owned_session statuses x owner d =
     (case session_row d (ss_session x) of
        None \<Rightarrow> Inl (PairClaimLost ''session provisioning claim changed'')
      | Some r \<Rightarrow>
          if (ss_sandbox r, ss_project r, ss_changed r) \<noteq> (ss_sandbox x, ss_project x, ss_changed x) \<or>
             ss_status r \<notin> set statuses \<or> ss_owner r \<noteq> Some owner
          then Inl (PairClaimLost ''session provisioning claim changed'') else Inr r)"

definition intent_matches :: "session_status list \<Rightarrow> pair_intent \<Rightarrow> sandbox_session \<Rightarrow> nat \<Rightarrow> error + unit" where
  "intent_matches statuses i r owner =
     (if pl_session i \<noteq> ss_session r \<or> pl_sandbox i \<noteq> ss_sandbox r \<or> pl_project i \<noteq> ss_project r \<or>
         pl_owner i \<noteq> owner \<or> (pl_changed i \<noteq> ss_changed r \<and> ss_status r \<notin> set statuses)
      then Inl (PairClaimLost ''prior pair requires fenced retirement'')
      else require (\<not> pi_fenced i \<and> pi_retired i = None) (PairClaimLost ''pair creation is fenced''))"

definition owned_intent ::
  "ledger_rules \<Rightarrow> session_status list \<Rightarrow> sandbox_session \<Rightarrow> nat \<Rightarrow> nat \<Rightarrow> manager_db \<Rightarrow> error + pair_intent" where
  "owned_intent k statuses x owner g d =
     bindE (owned_session statuses x owner d) (\<lambda>r.
     (case get_intent d g of
        None \<Rightarrow> Inl (PairClaimLost ''pair intent missing'')
      | Some i \<Rightarrow>
          bindE (intent_matches statuses i r owner) (\<lambda>_.
          bindE (validate_intent k i) (\<lambda>_.
          bindE (verify_transfer d i) (\<lambda>_. Inr i)))))"

abbreviation creating_intent where "creating_intent k \<equiv> owned_intent k [SCreating]"

definition new_intent :: "sandbox_session \<Rightarrow> nat \<Rightarrow> nat \<Rightarrow> string \<Rightarrow> string \<Rightarrow> pair_intent" where
  "new_intent r owner g namespace golden =
     \<lparr>pl_generation = g, pl_from = None, pl_session = ss_session r, pl_sandbox = ss_sandbox r,
      pl_project = ss_project r, pl_owner = owner, pl_changed = ss_changed r, pl_namespace = namespace,
      pl_golden = golden, pl_control_uids = map (\<lambda>x. (x, None)) control_keys,
      pl_control = map (\<lambda>x. (x, Unissued)) control_keys,
      pl_compute_uids = map (\<lambda>x. (compute_key x, None)) compute_roles,
      pl_compute = map (\<lambda>x. (compute_key x, Unissued)) compute_roles,
      pl_payloads = map (\<lambda>x. (x, None)) compute_roles,
      pl_custody = \<lparr>cu_keys = None, cu_uid = None, cu_dispatch = Unissued\<rparr>,
      pl_inputs = map (\<lambda>x. (x, blank_entry)) input_roles, pl_state = None,
      pl_ipc = map (\<lambda>x. (x, blank_entry)) ipc_roles, pl_volumes = map (\<lambda>x. (x, blank_entry)) volume_roles,
      pl_topics = Unissued, pi_fenced = False, pi_journal = None, pi_retired = None\<rparr>"

text \<open>\<open>begin\<close>: the intent in force, or a fresh generation, which may inherit the retained one.\<close>

definition allocate_intent ::
  "ledger_rules \<Rightarrow> nat \<Rightarrow> sandbox_session \<Rightarrow> nat \<Rightarrow> string \<Rightarrow> string \<Rightarrow> bool \<Rightarrow> pair_intent tx" where
  "allocate_intent k g r owner namespace golden resume d =
     (if list_ex (\<lambda>i. pl_sandbox i = ss_sandbox r) (intents d) \<and> \<not> resume
      then Inl (PairClaimLost ''retired sandbox requires explicit ownership transfer'')
      else
     bindE (if resume then bindE (available k r d) (\<lambda>x. Inr (Some x)) else Inr None) (\<lambda>retained.
     let i = new_intent r owner g namespace golden in
     if list_ex (\<lambda>j. pl_session j = pl_session i \<and> pl_owner j = owner \<and> pl_changed j = pl_changed i) (intents d)
     then Inl (OtherError ''IntegrityError'')
     else
       let d1 = d\<lparr>intents := intents d @ [i]\<rparr> in
       case retained of
         None \<Rightarrow> Inr (i, d1)
       | Some (saved, s, p) \<Rightarrow>
           bindE (owned_session [SCreating] r owner d1) (\<lambda>_. inherit_pair k r i saved s p d1)))"

definition begin_pair ::
  "ledger_rules \<Rightarrow> nat \<Rightarrow> sandbox_session \<Rightarrow> nat \<Rightarrow> string \<Rightarrow> string \<Rightarrow> bool \<Rightarrow> pair_intent tx" where
  "begin_pair k g x owner namespace golden resume d =
     (if namespace = [] \<or> golden = []
      then Inl (ValueError ''pair namespace and builder version are required'')
      else
     bindE (owned_session [SCreating] x owner d) (\<lambda>r.
     bindE (case the_intent d (ss_sandbox r) None of
              Some i \<Rightarrow> Inr (i, d)
            | None \<Rightarrow> allocate_intent k g r owner namespace golden resume d) (\<lambda>(i, d').
     if resume \<noteq> (pl_from i \<noteq> None)
     then Inl (PairClaimLost ''paired resume mode differs from committed generation'')
     else
     bindE (intent_matches [SCreating] i r owner) (\<lambda>_.
     if pl_namespace i \<noteq> namespace \<or> pl_golden i \<noteq> golden
     then Inl (RuntimeError ''pair builder configuration changed'')
     else
     bindE (validate_intent k i) (\<lambda>_.
     bindE (verify_transfer d' i) (\<lambda>_. Inr (i, d')))))))"

section \<open>Reserving, binding and settling\<close>

text \<open>The same three moves for every kind of object: \<open>f\<close> changes the intent.\<close>

definition change_intent ::
  "ledger_rules \<Rightarrow> sandbox_session \<Rightarrow> nat \<Rightarrow> nat \<Rightarrow> (pair_intent \<Rightarrow> error + pair_intent \<times> 'a) \<Rightarrow> (pair_intent \<times> 'a) tx" where
  "change_intent k x owner g f d =
     bindE (creating_intent k x owner g d) (\<lambda>i.
     bindE (f i) (\<lambda>(i', y). Inr ((i', y), put_intent i' d)))"

definition bind_uid :: "error \<Rightarrow> string option \<Rightarrow> string \<Rightarrow> error + unit" where
  "bind_uid e previous uid = require (previous = None \<or> previous = Some uid) e"

definition uid_given :: "string \<Rightarrow> error + unit" where
  "uid_given uid = require (is_uid uid) (ValueError ''an observed UID is required'')"

definition same_claim :: "pair_intent \<Rightarrow> pair_intent \<Rightarrow> bool" where
  "same_claim i x \<longleftrightarrow>
     binding i = binding x \<and> pl_namespace i = pl_namespace x \<and> pl_golden i = pl_golden x \<and>
     pl_owner i = pl_owner x \<and> pl_changed i = pl_changed x"

definition settlement_intent :: "ledger_rules \<Rightarrow> pair_intent \<Rightarrow> manager_db \<Rightarrow> error + pair_intent" where
  "settlement_intent k x d =
     (case get_intent d (pl_generation x) of
        None \<Rightarrow> Inl (PairClaimLost ''pair intent missing'')
      | Some i \<Rightarrow>
          bindE (validate_intent k i) (\<lambda>_.
          if pi_retired i \<noteq> None then Inl (PairClaimLost ''retired generation cannot settle writes'')
          else bindE (require (same_claim i x) (PairClaimLost ''pair dispatch identity changed'')) (\<lambda>_. Inr i)))"

definition settle_intent :: "ledger_rules \<Rightarrow> pair_intent \<Rightarrow> (pair_intent \<Rightarrow> error + pair_intent) \<Rightarrow> unit tx" where
  "settle_intent k x f d =
     bindE (settlement_intent k x d) (\<lambda>i. bindE (f i) (\<lambda>i'. Inr ((), put_intent i' d)))"

definition returned :: "dispatch_state \<Rightarrow> string \<Rightarrow> error + unit" where
  "returned x what = require (x \<noteq> Unissued) (RuntimeError (what @ '' was never dispatched''))"

subsection \<open>Control objects\<close>

definition bind_control :: "ledger_rules \<Rightarrow> sandbox_session \<Rightarrow> nat \<Rightarrow> nat \<Rightarrow> string \<Rightarrow> string \<Rightarrow> (pair_intent \<times> unit) tx" where
  "bind_control k x owner g key uid d =
     bindE (require (key \<in> set control_keys) (ValueError ''unsupported pair control resource'')) (\<lambda>_.
     bindE (uid_given uid) (\<lambda>_.
     change_intent k x owner g (\<lambda>i.
       bindE (bind_uid (RuntimeError ''pair control UID replacement refused'') (at (pl_control_uids i) key) uid) (\<lambda>_.
       Inr (i\<lparr>pl_control_uids := AList.update key (Some uid) (pl_control_uids i)\<rparr>, ()))) d))"

definition dispatch_control :: "ledger_rules \<Rightarrow> sandbox_session \<Rightarrow> nat \<Rightarrow> nat \<Rightarrow> string \<Rightarrow> (pair_intent \<times> bool) tx" where
  "dispatch_control k x owner g key d =
     bindE (require (key \<in> set control_keys) (ValueError ''unsupported pair control resource'')) (\<lambda>_.
     change_intent k x owner g (\<lambda>i.
       if at (pl_control_uids i) key = None \<and> at (pl_control i) key = Unissued
       then Inr (i\<lparr>pl_control := AList.update key Inflight (pl_control i)\<rparr>, True) else Inr (i, False)) d)"

definition settle_control :: "ledger_rules \<Rightarrow> pair_intent \<Rightarrow> string \<Rightarrow> unit tx" where
  "settle_control k x key d =
     bindE (require (key \<in> set control_keys) (ValueError ''unsupported pair control resource'')) (\<lambda>_.
     settle_intent k x (\<lambda>i.
       bindE (returned (at (pl_control i) key) ''pair control'') (\<lambda>_.
       Inr (i\<lparr>pl_control := AList.update key Settled (pl_control i)\<rparr>))) d)"

subsection \<open>Pods\<close>

definition clone_uid :: "sandbox_session \<Rightarrow> string \<Rightarrow> string option" where
  "clone_uid r role = (case ss_ca_clones r of None \<Rightarrow> None | Some cs \<Rightarrow> map_of cs role)"

definition source_uid :: "sandbox_session \<Rightarrow> string \<Rightarrow> string option" where
  "source_uid r role = (case ss_ca_sources r of None \<Rightarrow> None | Some cs \<Rightarrow> map_of cs role)"

text \<open>\<open>require_egress_dependencies\<close>\<close>

definition egress_inputs_of :: "sandbox_session \<Rightarrow> egress_state \<Rightarrow> nat option \<Rightarrow> error + egress_inputs" where
  "egress_inputs_of r s from =
     (case (ss_ca_attempt r, ss_ca_clones r, ss_ca_sources r) of
        (Some a, Some cs, Some ss) \<Rightarrow>
          if \<not> has_keys [''guest'', ''egress'', ''key''] cs \<or> \<not> has_keys [''public'', ''private''] ss \<or>
             \<not> list_all (is_uid \<circ> snd) (cs @ ss)
          then Inl (ValueError ''exact paired CA identities required'')
          else if \<not> state_ok s then Inl (RuntimeError ''corrupt egress state reservation'')
          else Inr \<lparr>ei_from = from, ei_attempt = a,
                 ei_clones = [(''egress'', at cs ''egress''), (''key'', at cs ''key'')], ei_sources = ss,
                 ei_golden = ss_golden r, ei_state = s\<rparr>
      | _ \<Rightarrow> Inl (ValueError ''exact paired CA identities required''))"

definition egress_dependencies :: "manager_db \<Rightarrow> pair_intent \<Rightarrow> sandbox_session \<Rightarrow> egress_inputs \<Rightarrow> error + unit" where
  "egress_dependencies d i r e =
     (case (case pl_state i of None \<Rightarrow> None | Some n \<Rightarrow> get_state d n) of
        None \<Rightarrow> Inl (PairClaimLost ''persistent egress compute reservation missing'')
      | Some s \<Rightarrow>
          bindE (require_cleanup_state s i None) (\<lambda>_.
          bindE (egress_inputs_of r s (pl_from i)) (\<lambda>x.
          require (e = x) (PairClaimLost ''egress compute dependency identity changed''))))"

definition guest_inputs_current :: "sandbox_session \<Rightarrow> guest_inputs \<Rightarrow> bool" where
  "guest_inputs_current r g \<longleftrightarrow>
     Some (gi_pvc g) = ss_pvc r \<and> Some (gi_pvc_uid g) = ss_pvc_uid r \<and> Some (gi_attempt g) = ss_ca_attempt r \<and>
     Some (gi_clone g) = clone_uid r ''guest'' \<and> Some (gi_source g) = source_uid r ''public'' \<and>
     gi_golden g = ss_golden r"

definition runtime_conflict :: "string \<Rightarrow> compute_payload \<Rightarrow> string \<times> compute_payload option \<Rightarrow> error + unit" where
  "runtime_conflict role p = (\<lambda>(member, previous).
     case previous of
       None \<Rightarrow> Inr ()
     | Some q \<Rightarrow>
         if rt_mtu (cp_runtime q) \<noteq> rt_mtu (cp_runtime p)
         then Inl (PairClaimLost ''paired compute transport MTU changed'')
         else require
           (\<not> ({member, role} = {''guest'', ''egress''} \<and> rt_class (cp_runtime q) = rt_class (cp_runtime p)))
           (PairClaimLost ''guest and egress RuntimeClasses must differ''))"

definition compute_dependencies ::
  "manager_db \<Rightarrow> pair_intent \<Rightarrow> sandbox_session \<Rightarrow> string \<Rightarrow> compute_payload \<Rightarrow> error + unit" where
  "compute_dependencies d i r role p =
     (if map (\<lambda>(key, u). (key, Some u)) (cp_controls p) \<noteq> pl_control_uids i
      then Inl (PairClaimLost ''compute control identities changed'')
      else
     bindE (foldE (\<lambda>_. runtime_conflict role p) () (pl_payloads i)) (\<lambda>_.
     (case cp_inputs p of
        GuestInputs g \<Rightarrow>
          require (role = ''guest'' \<longrightarrow> guest_inputs_current r g) (PairClaimLost ''guest volume identity changed'')
      | EgressInputs e \<Rightarrow> if role = ''egress'' then egress_dependencies d i r e else Inr ()
      | RelayInputs \<Rightarrow> Inr ())))"

definition dispatch_compute :: "ledger_rules \<Rightarrow> sandbox_session \<Rightarrow> nat \<Rightarrow> nat \<Rightarrow> string \<Rightarrow> (pair_intent \<times> bool) tx" where
  "dispatch_compute k x owner g role d =
     bindE (require (role \<in> set compute_roles) (ValueError ''unsupported pair compute role'')) (\<lambda>_.
     change_intent k x owner g (\<lambda>i.
       if at (pl_compute_uids i) (compute_key role) = None \<and> at (pl_compute i) (compute_key role) = Unissued
       then Inr (i\<lparr>pl_compute := AList.update (compute_key role) Inflight (pl_compute i)\<rparr>, True)
       else Inr (i, False)) d)"

definition reserve_payload :: "string \<Rightarrow> compute_payload \<Rightarrow> pair_intent \<Rightarrow> error + pair_intent \<times> bool" where
  "reserve_payload role p i =
     (let previous = at (pl_payloads i) role;
          fresh = at (pl_compute_uids i) (compute_key role) = None \<and> at (pl_compute i) (compute_key role) = Unissued
      in if previous \<noteq> None \<and> previous \<noteq> Some p then Inl (RuntimeError ''committed pair compute payload changed'')
         else if \<not> fresh \<and> previous = None then Inl (RuntimeError ''compute reservation has no committed payload'')
         else if fresh
         then Inr (i\<lparr>pl_payloads := AList.update role (Some p) (pl_payloads i),
                     pl_compute := AList.update (compute_key role) Inflight (pl_compute i)\<rparr>, True)
         else Inr (i, False))"

definition reserve_compute ::
  "ledger_rules \<Rightarrow> sandbox_session \<Rightarrow> nat \<Rightarrow> nat \<Rightarrow> string \<Rightarrow> compute_payload \<Rightarrow> (pair_intent \<times> bool) tx" where
  "reserve_compute k x owner g role p d =
     bindE (require (role \<in> set compute_roles) (ValueError ''unsupported pair compute role'')) (\<lambda>_.
     bindE (require (compute_payload_ok k role p) (RuntimeError ''corrupt pair compute payload'')) (\<lambda>_.
     change_intent k x owner g (\<lambda>i.
       (case session_row d (ss_session x) of
          None \<Rightarrow> Inl (OtherError ''AssertionError'')
        | Some r \<Rightarrow> bindE (compute_dependencies d i r role p) (\<lambda>_. reserve_payload role p i))) d))"

definition bind_compute :: "ledger_rules \<Rightarrow> sandbox_session \<Rightarrow> nat \<Rightarrow> nat \<Rightarrow> string \<Rightarrow> string \<Rightarrow> (pair_intent \<times> unit) tx" where
  "bind_compute k x owner g role uid d =
     bindE (require (role \<in> set compute_roles) (ValueError ''unsupported pair compute role'')) (\<lambda>_.
     bindE (uid_given uid) (\<lambda>_.
     change_intent k x owner g (\<lambda>i.
       bindE (case (at (pl_payloads i) role, session_row d (ss_session x)) of
                (None, _) \<Rightarrow> Inr ()
              | (Some p, Some r) \<Rightarrow> compute_dependencies d i r role p
              | _ \<Rightarrow> Inl (OtherError ''AssertionError'')) (\<lambda>_.
       bindE (bind_uid (RuntimeError ''pair compute UID replacement refused'')
                (at (pl_compute_uids i) (compute_key role)) uid) (\<lambda>_.
       Inr (i\<lparr>pl_compute_uids := AList.update (compute_key role) (Some uid) (pl_compute_uids i)\<rparr>, ())))) d))"

definition settle_compute :: "ledger_rules \<Rightarrow> pair_intent \<Rightarrow> string \<Rightarrow> unit tx" where
  "settle_compute k x role d =
     bindE (require (role \<in> set compute_roles) (ValueError ''unsupported pair compute role'')) (\<lambda>_.
     settle_intent k x (\<lambda>i.
       if at (pl_payloads i) role \<noteq> at (pl_payloads x) role
       then Inl (PairClaimLost ''compute settlement payload changed'')
       else bindE (returned (at (pl_compute i) (compute_key role)) ''pair compute'') (\<lambda>_.
         Inr (i\<lparr>pl_compute := AList.update (compute_key role) Settled (pl_compute i)\<rparr>))) d)"

subsection \<open>Relay keys and inputs\<close>

definition reserve_relay_keys ::
  "ledger_rules \<Rightarrow> sandbox_session \<Rightarrow> nat \<Rightarrow> nat \<Rightarrow> (string \<times> string) list \<Rightarrow> (pair_intent \<times> bool) tx" where
  "reserve_relay_keys k x owner g keys d =
     bindE (require (relay_keys_ok keys) (ValueError ''invalid paired relay public keys'')) (\<lambda>_.
     change_intent k x owner g (\<lambda>i.
       if cu_dispatch (pl_custody i) = Unissued
       then Inr (i\<lparr>pl_custody := \<lparr>cu_keys = Some keys, cu_uid = None, cu_dispatch = Inflight\<rparr>\<rparr>, True)
       else Inr (i, False)) d)"

definition bind_relay_keys :: "ledger_rules \<Rightarrow> sandbox_session \<Rightarrow> nat \<Rightarrow> nat \<Rightarrow> string \<Rightarrow> (pair_intent \<times> unit) tx" where
  "bind_relay_keys k x owner g uid d =
     bindE (uid_given uid) (\<lambda>_.
     change_intent k x owner g (\<lambda>i.
       bindE (returned (cu_dispatch (pl_custody i)) ''relay custody'') (\<lambda>_.
       bindE (bind_uid (RuntimeError ''relay custody UID replacement refused'') (cu_uid (pl_custody i)) uid) (\<lambda>_.
       Inr (i\<lparr>pl_custody := (pl_custody i)\<lparr>cu_uid := Some uid\<rparr>\<rparr>, ())))) d)"

definition settle_relay_keys :: "ledger_rules \<Rightarrow> pair_intent \<Rightarrow> unit tx" where
  "settle_relay_keys k x =
     settle_intent k x (\<lambda>i.
       if cu_keys (pl_custody i) \<noteq> cu_keys (pl_custody x) then Inl (PairClaimLost ''relay custody identity changed'')
       else bindE (returned (cu_dispatch (pl_custody i)) ''relay custody'') (\<lambda>_.
         Inr (i\<lparr>pl_custody := (pl_custody i)\<lparr>cu_dispatch := Settled\<rparr>\<rparr>)))"

text \<open>An entry: reserved with its payload, bound, settled.\<close>

definition reserve_entry :: "error \<Rightarrow> string \<Rightarrow> 'p \<Rightarrow> (string \<times> 'p ledger_entry) list \<Rightarrow> error + (string \<times> 'p ledger_entry) list \<times> bool" where
  "reserve_entry e role p es =
     (let x = at es role in
      if en_payload x \<noteq> None \<and> en_payload x \<noteq> Some p then Inl e
      else if en_dispatch x = Unissued
      then Inr (AList.update role \<lparr>en_payload = Some p, en_uid = None, en_dispatch = Inflight,
             en_release = en_release x\<rparr> es, True)
      else Inr (es, False))"

definition bind_entry :: "string \<Rightarrow> string \<Rightarrow> (string \<times> 'p ledger_entry) list \<Rightarrow> (string \<times> 'p ledger_entry) list" where
  "bind_entry role uid es = AList.update role ((at es role)\<lparr>en_uid := Some uid\<rparr>) es"

definition settle_entry ::
  "string \<Rightarrow> 'p option \<Rightarrow> (string \<times> 'p ledger_entry) list \<Rightarrow> error + (string \<times> 'p ledger_entry) list" where
  "settle_entry role payload es =
     (let e = at es role in
      if en_payload e \<noteq> payload then Inl (PairClaimLost ''settlement payload changed'')
      else bindE (returned (en_dispatch e) ''resource'') (\<lambda>_. Inr (AList.update role (e\<lparr>en_dispatch := Settled\<rparr>) es)))"

definition input_dependencies :: "pair_intent \<Rightarrow> input_payload \<Rightarrow> bool" where
  "input_dependencies i p \<longleftrightarrow>
     Some (rp_keys p) = cu_keys (pl_custody i) \<and> Some (rp_custody p) = cu_uid (pl_custody i) \<and>
     map (\<lambda>(role, u). (role, Some u)) (rp_pods p)
       = map (\<lambda>role. (role, at (pl_compute_uids i) (compute_key role))) input_roles \<and>
     Some (rp_service p) = at (pl_control_uids i) ''Service/egress-relay''"

definition reserve_relay_input ::
  "ledger_rules \<Rightarrow> sandbox_session \<Rightarrow> nat \<Rightarrow> nat \<Rightarrow> string \<Rightarrow> input_payload \<Rightarrow> (pair_intent \<times> bool) tx" where
  "reserve_relay_input k x owner g role p d =
     bindE (require (role \<in> set input_roles) (ValueError ''invalid relay input role'')) (\<lambda>_.
     change_intent k x owner g (\<lambda>i.
       if \<not> lr_input k (binding i) role p then Inl (RuntimeError ''corrupt relay input payload'')
       else if \<not> input_dependencies i p then Inl (PairClaimLost ''relay input dependency identity changed'')
       else bindE (reserve_entry (RuntimeError ''committed relay input payload changed'') role p (pl_inputs i))
              (\<lambda>(es, fresh). Inr (i\<lparr>pl_inputs := es\<rparr>, fresh))) d)"

definition bind_relay_input :: "ledger_rules \<Rightarrow> sandbox_session \<Rightarrow> nat \<Rightarrow> nat \<Rightarrow> string \<Rightarrow> string \<Rightarrow> (pair_intent \<times> unit) tx" where
  "bind_relay_input k x owner g role uid d =
     bindE (require (role \<in> set input_roles) (ValueError ''invalid relay input role'')) (\<lambda>_.
     bindE (uid_given uid) (\<lambda>_.
     change_intent k x owner g (\<lambda>i.
       bindE (returned (en_dispatch (at (pl_inputs i) role)) ''relay input'') (\<lambda>_.
       bindE (bind_uid (RuntimeError ''relay input UID replacement refused'') (en_uid (at (pl_inputs i) role)) uid) (\<lambda>_.
       Inr (i\<lparr>pl_inputs := bind_entry role uid (pl_inputs i)\<rparr>, ())))) d))"

definition settle_relay_input :: "ledger_rules \<Rightarrow> pair_intent \<Rightarrow> string \<Rightarrow> unit tx" where
  "settle_relay_input k x role d =
     bindE (require (role \<in> set input_roles) (ValueError ''invalid relay input role'')) (\<lambda>_.
     settle_intent k x (\<lambda>i.
       bindE (settle_entry role (en_payload (at (pl_inputs x) role)) (pl_inputs i)) (\<lambda>es.
       Inr (i\<lparr>pl_inputs := es\<rparr>))) d)"

end
