(* ===== verification/Pair_Stores.thy ===== *)
theory Pair_Stores
  imports Pair_Writers
begin

text \<open>
  The disks, the IPC objects and the persistent egress state of a pair (\<open>pair_volume_store.py\<close>,
  \<open>pair_ipc_store.py\<close>, \<open>egress_state_store.py\<close>), and when a pair is ready (\<open>pair_ready.py\<close>).
\<close>

section \<open>Clones\<close>

definition clone_scope :: "sandbox_session \<Rightarrow> pair_intent \<Rightarrow> session_pvc \<Rightarrow> volume_payload \<Rightarrow> bool" where
  "clone_scope r i v p \<longleftrightarrow>
     ss_pvc r = Some (vp_pvc p) \<and> ss_golden r = pl_golden i \<and> sp_changed v = vp_changed p \<and>
     (sp_session v, sp_sandbox v, sp_state v) = (ss_session r, ss_sandbox r, VAttaching) \<and> sp_uid v = ss_pvc_uid r \<and>
     list_all (\<lambda>(_, u). u \<noteq> None \<and> u \<noteq> Some []) (pl_control_uids i) \<and> list_all (\<lambda>(_, x). x = Settled) (pl_control i)"

definition clone_prerequisite :: "sandbox_session \<Rightarrow> pair_intent \<Rightarrow> volume_payload \<Rightarrow> bool" where
  "clone_prerequisite r i p \<longleftrightarrow>
     (let w = at (pl_volumes i) ''workspace'' in
      (case en_payload w of None \<Rightarrow> False | Some q \<Rightarrow> vp_changed q = vp_changed p) \<and>
      en_uid w \<noteq> None \<and> en_uid w \<noteq> Some [] \<and> en_uid w = ss_pvc_uid r)"

text \<open>The sources of the certificate authority: bound with the first clone, the same for the others.\<close>

definition clone_sources :: "sandbox_session \<Rightarrow> pair_intent \<Rightarrow> volume_payload \<Rightarrow> error + sandbox_session" where
  "clone_sources r i p =
     (let attempt = cs_job (at (vp_sources p) ''public'');
          identities = map (\<lambda>(role, c). (role, cs_uid c)) (vp_sources p)
      in case ss_ca_attempt r of
           None \<Rightarrow>
             if ss_ca_sources r \<noteq> None \<or> ss_ca_clones r \<noteq> None \<or>
                list_ex (\<lambda>m. en_dispatch (at (pl_volumes i) m) \<noteq> Unissued) [''guest'', ''egress'', ''key'']
             then Inl (PairClaimLost ''untracked CA clone bindings'')
             else Inr (r\<lparr>ss_ca_attempt := Some attempt, ss_ca_sources := Some identities, ss_ca_clones := Some []\<rparr>)
         | Some a \<Rightarrow>
             if a \<noteq> attempt \<or> ss_ca_sources r \<noteq> Some identities
             then Inl (PairClaimLost ''paired CA source identities changed'') else Inr r)"

text \<open>\<open>_current\<close>: the intent and the session, which the first clone of the authority changes.\<close>

definition current_clone ::
  "ledger_rules \<Rightarrow> sandbox_session \<Rightarrow> nat \<Rightarrow> nat \<Rightarrow> string \<Rightarrow> volume_payload \<Rightarrow> manager_db
   \<Rightarrow> error + pair_intent \<times> sandbox_session" where
  "current_clone k x owner g role p d =
     bindE (require (volume_payload_ok role p) (RuntimeError ''corrupt paired clone payload'')) (\<lambda>_.
     bindE (creating_intent k x owner g d) (\<lambda>i.
     (case (session_row d (ss_session x), get_pvc d (vp_pvc p)) of
        (Some r, Some v) \<Rightarrow>
          if \<not> clone_scope r i v p then Inl (PairClaimLost ''paired clone workspace or control scope changed'')
          else if role = ''workspace'' then Inr (i, r)
          else if \<not> clone_prerequisite r i p
          then Inl (PairClaimLost ''paired workspace clone prerequisite changed'')
          else bindE (clone_sources r i p) (\<lambda>r'. Inr (i, r'))
      | _ \<Rightarrow> Inl (PairClaimLost ''paired clone workspace or control scope changed''))))"

definition bound_clone :: "sandbox_session \<Rightarrow> string \<Rightarrow> string option" where
  "bound_clone r role = (if role = ''workspace'' then ss_pvc_uid r else clone_uid r role)"

definition reserve_clone ::
  "ledger_rules \<Rightarrow> sandbox_session \<Rightarrow> nat \<Rightarrow> nat \<Rightarrow> string \<Rightarrow> volume_payload \<Rightarrow> (pair_intent \<times> bool) tx" where
  "reserve_clone k x owner g role p d =
     bindE (current_clone k x owner g role p d) (\<lambda>(i, r).
     if bound_clone r role \<noteq> en_uid (at (pl_volumes i) role)
     then Inl (PairClaimLost ''untracked or replaced paired clone binding'')
     else bindE (reserve_entry (RuntimeError ''committed paired clone payload changed'') role p (pl_volumes i))
            (\<lambda>(es, fresh). let i' = i\<lparr>pl_volumes := es\<rparr> in Inr ((i', fresh), put_intent i' (put_session r d))))"

definition bind_clone :: "ledger_rules \<Rightarrow> sandbox_session \<Rightarrow> nat \<Rightarrow> nat \<Rightarrow> string \<Rightarrow> string \<Rightarrow> pair_intent tx" where
  "bind_clone k x owner g role uid d =
     bindE (require (role \<in> set volume_roles) (ValueError ''unsupported paired clone role'')) (\<lambda>_.
     bindE (uid_given uid) (\<lambda>_.
     bindE (creating_intent k x owner g d) (\<lambda>i0.
     (case en_payload (at (pl_volumes i0) role) of
        None \<Rightarrow> Inl (RuntimeError ''paired clone was never dispatched'')
      | Some p \<Rightarrow>
     bindE (current_clone k x owner g role p d) (\<lambda>(i, r).
     bindE (bind_uid (RuntimeError ''paired clone UID replacement refused'') (bound_clone r role) uid) (\<lambda>_.
     bindE (bind_uid (RuntimeError ''paired clone UID replacement refused'') (en_uid (at (pl_volumes i) role)) uid) (\<lambda>_.
     let i' = i\<lparr>pl_volumes := bind_entry role uid (pl_volumes i)\<rparr>;
         r' = (if role = ''workspace'' then r\<lparr>ss_pvc_uid := Some uid\<rparr>
               else r\<lparr>ss_ca_clones := Some (AList.update role uid (case ss_ca_clones r of None \<Rightarrow> [] | Some cs \<Rightarrow> cs))\<rparr>);
         d1 = put_intent i' (put_session r' d)
     in Inr (i', if role \<noteq> ''workspace'' then d1
                 else (case get_pvc d (vp_pvc p) of
                         None \<Rightarrow> d1 | Some v \<Rightarrow> put_pvc (v\<lparr>sp_uid := Some uid\<rparr>) d1)))))))))"

definition settle_clone :: "ledger_rules \<Rightarrow> pair_intent \<Rightarrow> string \<Rightarrow> unit tx" where
  "settle_clone k x role d =
     bindE (require (role \<in> set volume_roles) (ValueError ''unsupported paired clone role'')) (\<lambda>_.
     settle_intent k x (\<lambda>i.
       bindE (settle_entry role (en_payload (at (pl_volumes x) role)) (pl_volumes i)) (\<lambda>es.
       Inr (i\<lparr>pl_volumes := es\<rparr>))) d)"

text \<open>\<open>record_release\<close> of the volumes and of the IPC objects, while the pair lives.\<close>

definition release_live :: "string \<Rightarrow> release_evidence option \<Rightarrow> (string \<times> 'p ledger_entry) list \<Rightarrow> error + (string \<times> 'p ledger_entry) list" where
  "release_live role ev es = (case ev of None \<Rightarrow> Inr es | Some x \<Rightarrow> release_entry role x es)"

definition record_clone_release ::
  "ledger_rules \<Rightarrow> session_status list \<Rightarrow> sandbox_session \<Rightarrow> nat \<Rightarrow> nat \<Rightarrow> string \<Rightarrow> release_evidence option \<Rightarrow> pair_intent tx" where
  "record_clone_release k statuses x owner g role ev d =
     bindE (require (release_ok ev) (RuntimeError ''corrupt release evidence'')) (\<lambda>_.
     bindE (owned_intent k statuses x owner g d) (\<lambda>i.
     bindE (release_live role ev (pl_volumes i)) (\<lambda>es.
     let i' = i\<lparr>pl_volumes := es\<rparr> in Inr (i', put_intent i' d))))"

section \<open>IPC objects\<close>

definition given :: "string option \<Rightarrow> bool" where
  "given u \<longleftrightarrow> u \<noteq> None \<and> u \<noteq> Some []"

definition complete_pair :: "pair_intent \<Rightarrow> bool" where
  "complete_pair i \<longleftrightarrow>
     list_all (given \<circ> snd) (pl_control_uids i) \<and> list_all (\<lambda>(_, x). x = Settled) (pl_control i) \<and>
     list_all (given \<circ> snd) (pl_compute_uids i) \<and> list_all (\<lambda>(_, x). x = Settled) (pl_compute i) \<and>
     list_all (\<lambda>(_, p). p \<noteq> None) (pl_payloads i) \<and> pl_state i \<noteq> None \<and>
     cu_dispatch (pl_custody i) = Settled \<and> given (cu_uid (pl_custody i)) \<and>
     list_all (\<lambda>(_, e). en_dispatch e = Settled \<and> given (en_uid e)) (pl_inputs i)"

definition ipc_identities :: "pair_intent \<Rightarrow> ipc_payload \<Rightarrow> bool" where
  "ipc_identities i p \<longleftrightarrow>
     map (\<lambda>(a, u). (a, Some u)) (ip_controls p) = pl_control_uids i \<and>
     map (\<lambda>(a, u). (a, Some u)) (ip_computes p) = pl_compute_uids i \<and>
     map (\<lambda>(a, u). (a, Some u)) (ip_inputs p) = map (\<lambda>(a, e). (a, en_uid e)) (pl_inputs i) \<and>
     Some (ip_custody p) = cu_uid (pl_custody i) \<and> Some (ip_state p) = pl_state i"

definition ipc_dependencies :: "manager_db \<Rightarrow> pair_intent \<Rightarrow> sandbox_session \<Rightarrow> string \<Rightarrow> ipc_payload \<Rightarrow> error + unit" where
  "ipc_dependencies d i r role p =
     (if ss_ipc r \<noteq> None
      then Inl (PairClaimLost ''legacy IPC Deployment binding blocks paired Pod publication'')
      else if \<not> complete_pair i then Inl (RuntimeError ''settled UID-bound complete pair required before IPC'')
      else if \<not> ipc_identities i p then Inl (PairClaimLost ''paired IPC dependency identities changed'')
      else
     bindE (foldE (\<lambda>_ (member, q). case q of None \<Rightarrow> Inr () | Some q \<Rightarrow> compute_dependencies d i r member q) ()
              (pl_payloads i)) (\<lambda>_.
     if role \<noteq> ''pod'' then Inr ()
     else let v = at (pl_ipc i) ''volume'' in
       require (en_dispatch v = Settled \<and> given (en_uid v) \<and> en_uid v = map_option fst (ip_pod p) \<and>
                ss_ipc_pvc r = en_uid v)
         (PairClaimLost ''settled UID-bound IPC volume required'')))"

definition bound_ipc :: "sandbox_session \<Rightarrow> string \<Rightarrow> string option" where
  "bound_ipc r role = (if role = ''volume'' then ss_ipc_pvc r else ss_pod r)"

definition reserve_ipc ::
  "ledger_rules \<Rightarrow> sandbox_session \<Rightarrow> nat \<Rightarrow> nat \<Rightarrow> string \<Rightarrow> ipc_payload \<Rightarrow> (pair_intent \<times> bool) tx" where
  "reserve_ipc k x owner g role p d =
     bindE (require (ipc_payload_ok role p) (RuntimeError ''corrupt paired IPC payload'')) (\<lambda>_.
     change_intent k x owner g (\<lambda>i.
       (case session_row d (ss_session x) of
          None \<Rightarrow> Inl (OtherError ''AssertionError'')
        | Some r \<Rightarrow>
            bindE (ipc_dependencies d i r role p) (\<lambda>_.
            if bound_ipc r role \<noteq> en_uid (at (pl_ipc i) role)
            then Inl (PairClaimLost ''untracked or replaced IPC session binding'')
            else bindE (reserve_entry (RuntimeError ''committed paired IPC payload changed'') role p (pl_ipc i))
                   (\<lambda>(es, fresh). Inr (i\<lparr>pl_ipc := es\<rparr>, fresh))))) d)"

definition bind_ipc :: "ledger_rules \<Rightarrow> sandbox_session \<Rightarrow> nat \<Rightarrow> nat \<Rightarrow> string \<Rightarrow> string \<Rightarrow> pair_intent tx" where
  "bind_ipc k x owner g role uid d =
     bindE (require (role \<in> set ipc_roles) (ValueError ''unsupported paired IPC resource'')) (\<lambda>_.
     bindE (uid_given uid) (\<lambda>_.
     bindE (creating_intent k x owner g d) (\<lambda>i.
     (case (session_row d (ss_session x), en_payload (at (pl_ipc i) role)) of
        (None, _) \<Rightarrow> Inl (OtherError ''AssertionError'')
      | (_, None) \<Rightarrow> Inl (RuntimeError ''paired IPC resource was never dispatched'')
      | (Some r, Some p) \<Rightarrow>
     bindE (ipc_dependencies d i r role p) (\<lambda>_.
     bindE (bind_uid (RuntimeError ''paired IPC UID replacement refused'') (en_uid (at (pl_ipc i) role)) uid) (\<lambda>_.
     bindE (bind_uid (RuntimeError ''paired IPC UID replacement refused'') (bound_ipc r role) uid) (\<lambda>_.
     let i' = i\<lparr>pl_ipc := bind_entry role uid (pl_ipc i)\<rparr>;
         r' = (if role = ''volume'' then r\<lparr>ss_ipc_pvc := Some uid\<rparr> else r\<lparr>ss_pod := Some uid\<rparr>)
     in Inr (i', put_intent i' (put_session r' d)))))))))"

definition settle_ipc :: "ledger_rules \<Rightarrow> pair_intent \<Rightarrow> string \<Rightarrow> unit tx" where
  "settle_ipc k x role d =
     bindE (require (role \<in> set ipc_roles) (ValueError ''unsupported paired IPC resource'')) (\<lambda>_.
     settle_intent k x (\<lambda>i.
       bindE (settle_entry role (en_payload (at (pl_ipc x) role)) (pl_ipc i)) (\<lambda>es.
       Inr (i\<lparr>pl_ipc := es\<rparr>))) d)"

definition record_ipc_release ::
  "ledger_rules \<Rightarrow> session_status list \<Rightarrow> sandbox_session \<Rightarrow> nat \<Rightarrow> nat \<Rightarrow> string \<Rightarrow> release_evidence option \<Rightarrow> pair_intent tx" where
  "record_ipc_release k statuses x owner g role ev d =
     bindE (require (release_ok ev) (RuntimeError ''corrupt release evidence'')) (\<lambda>_.
     bindE (owned_intent k statuses x owner g d) (\<lambda>i.
     bindE (release_live role ev (pl_ipc i)) (\<lambda>es.
     let i' = i\<lparr>pl_ipc := es\<rparr> in Inr (i', put_intent i' d))))"

section \<open>The persistent egress state\<close>

definition anchored :: "pair_intent \<Rightarrow> egress_state \<Rightarrow> error + unit" where
  "anchored i s =
     bindE (require (state_ok s) (RuntimeError ''corrupt egress state reservation'')) (\<lambda>_.
     bindE (state_matches s i) (\<lambda>_.
     require (pl_state i = Some (es_id s)) (RuntimeError ''persistent egress state anchor changed'')))"

text \<open>\<open>reserve\<close>: \<open>key\<close> is the wrapping key that was drawn, \<open>fingerprint\<close> its digest; only the first reservation
  gives the key out.\<close>

definition new_state :: "pair_intent \<Rightarrow> nat \<Rightarrow> int \<Rightarrow> string \<Rightarrow> egress_state" where
  "new_state i n bytes fingerprint =
     \<lparr>es_id = n, es_session = pl_session i, es_sandbox = pl_sandbox i, es_project = pl_project i,
      es_creator = pl_generation i, es_owner = pl_owner i, es_changed = pl_changed i,
      es_namespace = pl_namespace i, es_bytes = bytes, es_fingerprint = fingerprint, es_key_dispatch = Inflight,
      es_key_uid = None, es_volume_dispatch = Unissued, es_volume_uid = None, es_volume_release = None\<rparr>"

definition reserve_state ::
  "ledger_rules \<Rightarrow> (bytes \<Rightarrow> string) \<Rightarrow> nat \<Rightarrow> bytes \<Rightarrow> sandbox_session \<Rightarrow> nat \<Rightarrow> nat \<Rightarrow> int
   \<Rightarrow> (egress_state \<times> bytes option) tx" where
  "reserve_state k digest fresh key x owner g bytes d =
     bindE (require (0 < bytes \<and> bytes < 2 ^ 63) (ValueError ''explicit positive egress storage bytes required'')) (\<lambda>_.
     bindE (creating_intent k x owner g d) (\<lambda>i0.
     bindE (case find (\<lambda>s. es_sandbox s = pl_sandbox i0) (states d) of
              Some s \<Rightarrow> Inr (i0, s, None, d)
            | None \<Rightarrow>
                if pl_state i0 \<noteq> None then Inl (RuntimeError ''reserved persistent egress state disappeared'')
                else
                  let s = new_state i0 fresh bytes (digest key); i = i0\<lparr>pl_state := Some fresh\<rparr>
                  in Inr (i, s, Some key, put_intent i (d\<lparr>states := states d @ [s]\<rparr>))) (\<lambda>(i, s, given_key, d').
     bindE (anchored i s) (\<lambda>_.
     if es_bytes s \<noteq> bytes then Inl (RuntimeError ''egress state storage reservation changed'')
     else Inr ((s, given_key), d')))))"

definition owned_state ::
  "ledger_rules \<Rightarrow> sandbox_session \<Rightarrow> nat \<Rightarrow> nat \<Rightarrow> nat \<Rightarrow> manager_db \<Rightarrow> error + egress_state" where
  "owned_state k x owner g n d =
     bindE (creating_intent k x owner g d) (\<lambda>i.
     (case get_state d n of
        None \<Rightarrow> Inl (PairClaimLost ''persistent egress state reservation missing'')
      | Some s \<Rightarrow> bindE (anchored i s) (\<lambda>_. Inr s)))"

definition reserve_state_volume ::
  "ledger_rules \<Rightarrow> sandbox_session \<Rightarrow> nat \<Rightarrow> nat \<Rightarrow> nat \<Rightarrow> (egress_state \<times> bool) tx" where
  "reserve_state_volume k x owner g n d =
     bindE (owned_state k x owner g n d) (\<lambda>s.
     if es_key_uid s = None \<or> es_key_dispatch s \<noteq> Settled
     then Inl (RuntimeError ''wrapping key custody must be bound and settled'')
     else if es_volume_dispatch s = Unissued
     then let s' = s\<lparr>es_volume_dispatch := Inflight\<rparr> in Inr ((s', True), put_state s' d)
     else Inr ((s, False), d))"

definition bind_state ::
  "ledger_rules \<Rightarrow> sandbox_session \<Rightarrow> nat \<Rightarrow> nat \<Rightarrow> nat \<Rightarrow> string \<Rightarrow> string \<Rightarrow> egress_state tx" where
  "bind_state k x owner g n role uid d =
     bindE (require (role \<in> {''key'', ''volume''}) (ValueError ''unsupported egress state resource'')) (\<lambda>_.
     bindE (uid_given uid) (\<lambda>_.
     bindE (owned_state k x owner g n d) (\<lambda>s.
     let (x', previous) = (if role = ''key'' then (es_key_dispatch s, es_key_uid s)
                           else (es_volume_dispatch s, es_volume_uid s)) in
     bindE (returned x' ''egress state resource'') (\<lambda>_.
     bindE (bind_uid (RuntimeError ''egress state resource UID replacement refused'') previous uid) (\<lambda>_.
     let s' = (if role = ''key'' then s\<lparr>es_key_uid := Some uid\<rparr> else s\<lparr>es_volume_uid := Some uid\<rparr>)
     in Inr (s', put_state s' d))))))"

definition settle_state :: "egress_state \<Rightarrow> string \<Rightarrow> unit tx" where
  "settle_state x role d =
     bindE (require (role \<in> {''key'', ''volume''}) (ValueError ''unsupported egress state resource'')) (\<lambda>_.
     bindE (require (state_ok x) (RuntimeError ''corrupt egress state reservation'')) (\<lambda>_.
     if (case get_intent d (es_creator x) of None \<Rightarrow> False | Some i \<Rightarrow> pi_retired i \<noteq> None)
     then Inl (PairClaimLost ''retired state creator cannot settle writes'')
     else (case get_state d (es_id x) of
             None \<Rightarrow> Inl (PairClaimLost ''egress state settlement identity changed'')
           | Some s \<Rightarrow>
               if \<not> same_scope s x then Inl (PairClaimLost ''egress state settlement identity changed'')
               else if \<not> state_ok s then Inl (RuntimeError ''corrupt egress state reservation'')
               else if role = ''volume'' \<and> es_key_uid s \<noteq> es_key_uid x
               then Inl (PairClaimLost ''egress state settlement custody changed'')
               else bindE (returned (if role = ''key'' then es_key_dispatch s else es_volume_dispatch s)
                      ''egress state resource'') (\<lambda>_.
                 Inr ((), put_state (if role = ''key'' then s\<lparr>es_key_dispatch := Settled\<rparr>
                                     else s\<lparr>es_volume_dispatch := Settled\<rparr>) d)))))"

definition record_volume_release ::
  "ledger_rules \<Rightarrow> sandbox_session \<Rightarrow> nat \<Rightarrow> nat \<Rightarrow> nat \<Rightarrow> release_evidence option \<Rightarrow> egress_state tx" where
  "record_volume_release k x owner g n ev d =
     bindE (require (release_ok ev) (RuntimeError ''corrupt release evidence'')) (\<lambda>_.
     bindE (creating_intent k x owner g d) (\<lambda>i.
     (case (ev, get_state d n) of
        (None, None) \<Rightarrow> Inl (RuntimeError ''persistent egress state row missing'')
      | (None, Some s) \<Rightarrow> Inr (s, d)
      | (Some e, row) \<Rightarrow>
          if pl_state i \<noteq> Some n then Inl (PairClaimLost ''persistent egress state anchor changed'')
          else (case row of
                  None \<Rightarrow> Inl (RuntimeError ''persistent egress state row missing'')
                | Some s \<Rightarrow>
                    if es_sandbox s \<noteq> pl_sandbox i then Inl (RuntimeError ''persistent egress state row missing'')
                    else if es_volume_dispatch s = Unissued \<or> \<not> given (es_volume_uid s)
                    then Inl (RuntimeError ''bound persistent egress volume release evidence required'')
                    else bindE (first_release (es_volume_release s) e) (\<lambda>y.
                      let s' = s\<lparr>es_volume_release := Some y\<rparr> in Inr (s', put_state s' d))))))"

section \<open>Readiness\<close>

text \<open>\<open>paired_ready\<close>: nothing for a session without a pair; errors of the checks mean not ready.\<close>

definition touches :: "sandbox_session \<Rightarrow> nat \<Rightarrow> nat \<Rightarrow> bool" where
  "touches r s b \<longleftrightarrow> s = ss_session r \<or> b = ss_sandbox r"

definition clones_ready :: "ledger_rules \<Rightarrow> sandbox_session \<Rightarrow> nat \<Rightarrow> pair_intent \<Rightarrow> manager_db \<Rightarrow> bool" where
  "clones_ready k r owner i d \<longleftrightarrow>
     list_all (\<lambda>(role, e).
       case en_payload e of
         None \<Rightarrow> False
       | Some p \<Rightarrow>
           (case current_clone k r owner (pl_generation i) role p d of
              Inl _ \<Rightarrow> False
            | Inr (_, r') \<Rightarrow> bound_clone r' role = en_uid e)) (pl_volumes i)"

definition ipc_ready :: "sandbox_session \<Rightarrow> pair_intent \<Rightarrow> manager_db \<Rightarrow> bool" where
  "ipc_ready r i d \<longleftrightarrow>
     list_all (\<lambda>(role, e).
       case en_payload e of
         None \<Rightarrow> False
       | Some p \<Rightarrow> ipc_dependencies d i r role p = Inr () \<and> bound_ipc r role = en_uid e) (pl_ipc i)"

definition settled_bound :: "'p ledger_entry \<Rightarrow> bool" where
  "settled_bound e \<longleftrightarrow> en_dispatch e = Settled \<and> given (en_uid e)"

definition paired_ready :: "ledger_rules \<Rightarrow> sandbox_session \<Rightarrow> manager_db \<Rightarrow> bool option" where
  "paired_ready k r d =
     (case find (\<lambda>i. pi_retired i = None \<and> touches r (pl_session i) (pl_sandbox i)) (intents d) of
        None \<Rightarrow>
          if list_ex (\<lambda>s. touches r (es_session s) (es_sandbox s)) (states d) \<or>
             list_ex (\<lambda>i. touches r (pl_session i) (pl_sandbox i)) (intents d)
          then Some False else None
      | Some i0 \<Rightarrow>
          Some (case ss_owner r of
                  None \<Rightarrow> False
                | Some owner \<Rightarrow>
                    ss_status r = SCreating \<and> ss_guest r = None \<and> ss_ipc r = None \<and>
                    (case creating_intent k r owner (pl_generation i0) d of
                       Inl _ \<Rightarrow> False
                     | Inr i \<Rightarrow>
                         pl_topics i = Settled \<and> list_all (settled_bound \<circ> snd) (pl_volumes i) \<and>
                         list_all (settled_bound \<circ> snd) (pl_ipc i) \<and> clones_ready k r owner i d \<and> ipc_ready r i d)))"

end
