(* ===== verification/Session_Store.thy ===== *)
theory Session_Store
  imports Pair_Stores
begin

text \<open>
  The sessions of the sandbox manager (\<open>store.py\<close>): the row that a first request inserts, the claim that one
  creator wins, what it records, readiness, and the admission of an execution. Every method locks the
  session before its disk. \<open>paired\<close> tells whether the manager builds pairs.
\<close>

section \<open>Claims\<close>

definition require_unpaired :: "nat \<Rightarrow> nat \<Rightarrow> manager_db \<Rightarrow> error + unit" where
  "require_unpaired s b d =
     (if list_ex (\<lambda>r. ss_pod r \<noteq> None \<and> (ss_session r = s \<or> ss_sandbox r = b)) (sessions d)
      then Inl (RuntimeError ''paired IPC Pod binding blocks legacy session admission'')
      else if list_ex (\<lambda>i. pl_session i = s \<or> pl_sandbox i = b) (intents d)
      then Inl (RuntimeError ''retained pair ownership blocks legacy session admission'')
      else require (\<not> list_ex (\<lambda>x. es_session x = s \<or> es_sandbox x = b) (states d))
             (RuntimeError ''retained egress state blocks legacy session admission''))"

definition pending_session :: "nat \<Rightarrow> nat \<Rightarrow> string \<Rightarrow> int \<Rightarrow> nat \<Rightarrow> sandbox_session" where
  "pending_session s b golden now project =
     \<lparr>ss_session = s, ss_sandbox = b, ss_project = project, ss_status = SPending, ss_golden = golden,
      ss_pvc_uid = None, ss_pvc = None, ss_deadline = None, ss_guest = None, ss_ipc = None, ss_pod = None,
      ss_ipc_pvc = None, ss_ca_attempt = None, ss_ca_sources = None, ss_ca_clones = None, ss_owner = None,
      ss_created = now, ss_changed = now, ss_last_execution = now, ss_last_ping = None, ss_ping_sent = None\<rparr>"

text \<open>\<open>INSERT ... ON CONFLICT (session_id) DO NOTHING\<close>; a conflict on \<open>sandbox_id\<close> raises.\<close>

definition insert_pending :: "nat \<Rightarrow> nat \<Rightarrow> string \<Rightarrow> int \<Rightarrow> nat \<Rightarrow> bool tx" where
  "insert_pending s b golden now project d =
     (if session_row d s \<noteq> None then Inr (False, d)
      else if by_sandbox d b \<noteq> None then Inl (OtherError ''IntegrityError'')
      else
        let d' = d\<lparr>sessions := sessions d @ [pending_session s b golden now project]\<rparr> in
        bindE (require_unpaired s b d') (\<lambda>_. Inr (True, d')))"

definition new_pvc :: "nat \<Rightarrow> sandbox_session \<Rightarrow> int \<Rightarrow> session_pvc" where
  "new_pvc v r now =
     \<lparr>sp_id = v, sp_session = ss_session r, sp_sandbox = ss_sandbox r, sp_uid = None, sp_evidence = None,
      sp_state = VAttaching, sp_last_execution = now, sp_changed = now\<rparr>"

definition claimed_session :: "nat \<Rightarrow> int \<Rightarrow> sandbox_session \<Rightarrow> sandbox_session" where
  "claimed_session owner now r =
     (cleared r)\<lparr>ss_status := SCreating, ss_owner := Some owner, ss_changed := advance (ss_changed r) now\<rparr>"

text \<open>\<open>claim\<close>; \<open>fresh\<close> is the identity of a new disk. A session that was stopped keeps its disk.\<close>

definition claim_session ::
  "ledger_rules \<Rightarrow> nat \<Rightarrow> sandbox_session \<Rightarrow> nat \<Rightarrow> int \<Rightarrow> bool \<Rightarrow> sandbox_session option tx" where
  "claim_session k fresh x owner now paired d =
     (case session_row d (ss_session x) of
        None \<Rightarrow> Inr (None, d)
      | Some r \<Rightarrow>
          if ss_status r \<notin> {SPending, SStopped} \<or>
             (ss_sandbox r, ss_status r, ss_changed r, ss_pvc r) \<noteq> (ss_sandbox x, ss_status x, ss_changed x, ss_pvc x)
          then Inr (None, d)
          else
     bindE (if paired \<and> ss_status r = SStopped \<and> ss_pvc r \<noteq> None
            then bindE (available k r d) (\<lambda>_. Inr ())
            else if paired \<and> ss_status r = SStopped \<and> ss_pvc r = None then require_destroyed_history k r d
            else require_unpaired (ss_session r) (ss_sandbox r) d) (\<lambda>_.
     (case ss_pvc r of
        None \<Rightarrow>
          let r' = claimed_session owner now (r\<lparr>ss_pvc := Some fresh, ss_pvc_uid := None\<rparr>)
          in Inr (Some r', put_session r' (d\<lparr>pvcs := pvcs d @ [new_pvc fresh r now]\<rparr>))
      | Some v \<Rightarrow>
          (case get_pvc d v of
             None \<Rightarrow> Inr (None, d)
           | Some p \<Rightarrow>
               if sp_state p \<noteq> VDetached then Inr (None, d)
               else let r' = claimed_session owner now r in
                 Inr (Some r', put_session r'
                   (put_pvc (p\<lparr>sp_state := VAttaching, sp_changed := advance (sp_changed p) now\<rparr>) d))))))"

definition still_owned :: "sandbox_session \<Rightarrow> nat \<Rightarrow> manager_db \<Rightarrow> sandbox_session option" where
  "still_owned x owner d =
     (case session_row d (ss_session x) of
        None \<Rightarrow> None
      | Some r \<Rightarrow>
          if ss_sandbox r = ss_sandbox x \<and> ss_owner r = Some owner \<and> ss_status r = SCreating \<and> ss_changed r = ss_changed x
          then Some r else None)"

text \<open>What a creator records of its progress, or its failure with the instant of it.\<close>

datatype record_values =
    PvcBound string string                \<comment> \<open>\<open>pvc_uid\<close>, \<open>golden_version\<close>\<close>
  | GuestBound string | IpcBound string | IpcPvcBound string
  | CaSources nat "(string \<times> string) list"
  | CaClone string string
  | BuildFailed int

definition recorded :: "record_values \<Rightarrow> sandbox_session \<Rightarrow> sandbox_session \<Rightarrow> sandbox_session" where
  "recorded v x r =
     (case v of
        PvcBound uid golden \<Rightarrow> r\<lparr>ss_pvc_uid := Some uid, ss_golden := golden\<rparr>
      | GuestBound uid \<Rightarrow> r\<lparr>ss_guest := Some uid\<rparr>
      | IpcBound uid \<Rightarrow> r\<lparr>ss_ipc := Some uid\<rparr>
      | IpcPvcBound uid \<Rightarrow> r\<lparr>ss_ipc_pvc := Some uid\<rparr>
      | CaSources attempt ids \<Rightarrow> r\<lparr>ss_ca_attempt := Some attempt, ss_ca_sources := Some ids, ss_ca_clones := Some []\<rparr>
      | CaClone role uid \<Rightarrow>
          r\<lparr>ss_ca_clones := Some (AList.update role uid (case ss_ca_clones x of None \<Rightarrow> [] | Some cs \<Rightarrow> cs))\<rparr>
      | BuildFailed now \<Rightarrow> r\<lparr>ss_status := SFailed, ss_changed := advance (ss_changed r) now\<rparr>)"

definition recorded_pvc :: "record_values \<Rightarrow> session_pvc \<Rightarrow> session_pvc" where
  "recorded_pvc v p =
     (case v of
        PvcBound uid _ \<Rightarrow> p\<lparr>sp_uid := Some uid\<rparr>
      | BuildFailed now \<Rightarrow> p\<lparr>sp_state := VFailed, sp_changed := advance (sp_changed p) now\<rparr>
      | _ \<Rightarrow> p)"

definition record_progress :: "sandbox_session \<Rightarrow> nat \<Rightarrow> record_values \<Rightarrow> sandbox_session option tx" where
  "record_progress x owner v d =
     (case still_owned x owner d of
        None \<Rightarrow> Inr (None, d)
      | Some r \<Rightarrow>
          let d1 = (case (case ss_pvc x of None \<Rightarrow> None | Some p \<Rightarrow> get_pvc d p) of
                      None \<Rightarrow> d | Some p \<Rightarrow> put_pvc (recorded_pvc v p) d);
              r' = recorded v x r
          in Inr (Some r', put_session r' d1))"

section \<open>Readiness and executions\<close>

definition ca_bound :: "sandbox_session \<Rightarrow> bool" where
  "ca_bound r \<longleftrightarrow>
     ss_ca_attempt r = None \<or>
     (case (ss_ca_sources r, ss_ca_clones r) of
        (Some ss, Some cs) \<Rightarrow>
          has_keys [''public'', ''private''] ss \<and> has_keys [''guest'', ''egress'', ''key''] cs \<and>
          list_all (\<lambda>(_, u). u \<noteq> []) cs
      | _ \<Rightarrow> False)"

definition ready_session :: "int \<Rightarrow> sandbox_session \<Rightarrow> sandbox_session" where
  "ready_session now r =
     r\<lparr>ss_status := SReady, ss_changed := advance (ss_changed r) now, ss_last_execution := now,
       ss_last_ping := Some now, ss_ping_sent := None\<rparr>"

definition ready_pvc :: "int \<Rightarrow> session_pvc \<Rightarrow> session_pvc" where
  "ready_pvc now p =
     p\<lparr>sp_state := VAttached, sp_changed := advance (sp_changed p) now, sp_last_execution := now\<rparr>"

definition compute_bound :: "bool option \<Rightarrow> sandbox_session \<Rightarrow> bool" where
  "compute_bound pair r \<longleftrightarrow>
     ss_pvc_uid r \<noteq> None \<and> ss_ipc_pvc r \<noteq> None \<and>
     (if pair = Some True then ss_pod r \<noteq> None else ss_guest r \<noteq> None \<and> ss_ipc r \<noteq> None)"

definition mark_ready :: "ledger_rules \<Rightarrow> nat \<Rightarrow> int \<Rightarrow> int \<Rightarrow> bool tx" where
  "mark_ready k b now expected d =
     (case by_sandbox d b of
        None \<Rightarrow> Inr (False, d)
      | Some r \<Rightarrow>
          if ss_changed r \<noteq> expected then Inr (False, d)
          else (case ss_pvc r of
                  None \<Rightarrow> Inr (False, d)
                | Some v \<Rightarrow>
                    let pair = paired_ready k r d in
                    if pair = Some False \<or> (pair = None \<and> ss_pod r \<noteq> None) \<or> \<not> ca_bound r then Inr (False, d)
                    else (case get_pvc d v of
                            None \<Rightarrow> Inr (False, d)
                          | Some p \<Rightarrow>
                              if sp_state p \<noteq> VAttaching \<or> ss_status r \<noteq> SCreating \<or> \<not> compute_bound pair r
                              then Inr (False, d)
                              else Inr (True, put_pvc (ready_pvc now p) (put_session (ready_session now r) d)))))"

definition touched :: "int \<Rightarrow> sandbox_session \<Rightarrow> sandbox_session" where
  "touched now r = r\<lparr>ss_last_execution := max (ss_last_execution r) now\<rparr>"

definition touched_pvc :: "int \<Rightarrow> session_pvc \<Rightarrow> session_pvc" where
  "touched_pvc now p = p\<lparr>sp_last_execution := max (sp_last_execution p) now\<rparr>"

definition stamp_result :: "nat \<Rightarrow> int \<Rightarrow> unit tx" where
  "stamp_result b now d =
     (case by_sandbox d b of
        None \<Rightarrow> Inr ((), d)
      | Some r \<Rightarrow>
          let d1 = put_session (touched now r) d in
          Inr ((), case (case ss_pvc r of None \<Rightarrow> None | Some v \<Rightarrow> get_pvc d v) of
                     None \<Rightarrow> d1 | Some p \<Rightarrow> put_pvc (touched_pvc now p) d1))"

definition admit_execution :: "nat \<Rightarrow> int \<Rightarrow> sandbox_session option tx" where
  "admit_execution s now d =
     (case session_row d s of
        None \<Rightarrow> Inr (None, d)
      | Some r \<Rightarrow>
          if ss_status r \<noteq> SReady then Inr (None, d)
          else (case (case ss_pvc r of None \<Rightarrow> None | Some v \<Rightarrow> get_pvc d v) of
                  None \<Rightarrow> Inr (None, d)
                | Some p \<Rightarrow>
                    if sp_state p \<noteq> VAttached then Inr (None, d)
                    else Inr (Some (touched now r), put_pvc (touched_pvc now p) (put_session (touched now r) d))))"

end
