(* ===== verification/Session_Lifecycle.thy ===== *)
theory Session_Lifecycle
  imports Session_Store
begin

text \<open>
  The transitions of a sandbox after its creation (\<open>lifecycle_store.py\<close>): idle, retention, maintenance and
  recovery, each of which leaves a work with the exact objects it may delete, and the completion of a
  work. \<open>fresh\<close> arguments are identities that the code draws.
\<close>

section \<open>Works\<close>

definition sandbox_targets :: "sandbox_session \<Rightarrow> bool \<Rightarrow> cleanup_target list" where
  "sandbox_targets r retain =
     [target (if ss_pod r \<noteq> None then ''Pod'' else ''Deployment'') (ipc_name (ss_sandbox r))
        (if ss_pod r \<noteq> None then ss_pod r else ss_ipc r) False,
      target ''Deployment'' (session_name (ss_sandbox r)) (ss_guest r) False,
      target ''PersistentVolumeClaim'' (ipc_name (ss_sandbox r)) (ss_ipc_pvc r) False]
     @ (if ss_ca_attempt r \<noteq> None
        then map (\<lambda>role. target ''PersistentVolumeClaim'' (ca_consumer_name (ss_sandbox r) role) (clone_uid r role) False)
               [''guest'', ''egress'', ''key'']
        else [])
     @ (case ss_pvc r of
          None \<Rightarrow> []
        | Some v \<Rightarrow> [target ''PersistentVolumeClaim'' (session_name v) (ss_pvc_uid r) retain])"

definition ipc_pod_uid :: "pair_snapshot \<Rightarrow> string option" where
  "ipc_pod_uid p = en_uid (at (pl_ipc p) ''pod'')"

definition pod_target :: "nat \<Rightarrow> pair_snapshot \<Rightarrow> cleanup_target \<Rightarrow> cleanup_target" where
  "pod_target b p t =
     (if t_name t = ipc_name b \<and> t_kind t \<in> {''Deployment'', ''Pod''}
      then t\<lparr>t_kind := ''Pod'', t_uid := ipc_pod_uid p\<rparr> else t)"

definition new_work ::
  "ledger_rules \<Rightarrow> nat \<Rightarrow> sandbox_session \<Rightarrow> session_pvc option \<Rightarrow> work_kind \<Rightarrow> int \<Rightarrow> int \<Rightarrow> cleanup_target list
   \<Rightarrow> cleanup_work tx" where
  "new_work k fresh r v kind now timeout targets d =
     bindE (pair_snapshot_of k (ss_session r) (ss_sandbox r) None d) (\<lambda>snapshot.
     bindE (case (ss_pod r, snapshot) of
              (None, _) \<Rightarrow> Inr ()
            | (Some u, None) \<Rightarrow> Inl (RuntimeError ''paired IPC Pod has no retained generation ownership'')
            | (Some u, Some p) \<Rightarrow>
                require (ipc_pod_uid p = Some u) (RuntimeError ''paired IPC Pod session identity changed'')) (\<lambda>_.
     let w = \<lparr>cw_id = fresh, cw_session = Some (ss_session r), cw_sandbox = ss_sandbox r,
           cw_pvc = map_option sp_id v, cw_kind = kind, cw_changed = ss_changed r,
           cw_pvc_changed = map_option sp_changed v, cw_deadline = now + timeout, cw_acknowledged = False,
           cw_targets = (case snapshot of None \<Rightarrow> targets | Some p \<Rightarrow> map (pod_target (ss_sandbox r) p) targets),
           cw_pair = snapshot\<rparr>
     in Inr (w, d\<lparr>works := works d @ [w]\<rparr>)))"

section \<open>Idle, retention, maintenance\<close>

definition shutting_down :: "int \<Rightarrow> sandbox_session \<Rightarrow> sandbox_session" where
  "shutting_down now r = r\<lparr>ss_status := SShuttingDown, ss_changed := advance (ss_changed r) now\<rparr>"

definition moved_pvc :: "pvc_state \<Rightarrow> int \<Rightarrow> session_pvc \<Rightarrow> session_pvc" where
  "moved_pvc x now p = p\<lparr>sp_state := x, sp_changed := advance (sp_changed p) now\<rparr>"

definition idle_due :: "sandbox_session \<Rightarrow> session_pvc \<Rightarrow> int \<Rightarrow> bool" where
  "idle_due r p cutoff \<longleftrightarrow>
     ss_status r = SReady \<and> ss_last_execution r \<le> cutoff \<and> sp_state p = VAttached \<and> sp_last_execution p \<le> cutoff"

definition idle_session ::
  "ledger_rules \<Rightarrow> nat \<Rightarrow> nat \<Rightarrow> nat \<Rightarrow> int \<Rightarrow> int \<Rightarrow> int \<Rightarrow> cleanup_work option tx" where
  "idle_session k fresh s b now inactivity timeout d =
     (case locked d s b of
        (Some r, Some p) \<Rightarrow>
          if \<not> idle_due r p (now - inactivity) then Inr (None, d)
          else
            let r' = shutting_down now r; p' = moved_pvc VDetaching now p in
            bindE (new_work k fresh r' (Some p') WIdle now timeout (sandbox_targets r' True)
                     (put_pvc p' (put_session r' d))) (\<lambda>(w, d'). Inr (Some w, d'))
      | _ \<Rightarrow> Inr (None, d))"

text \<open>\<open>retired_targets\<close>: the inventory of a retired generation, for the whole-lifetime teardown.\<close>

definition key_role :: "string \<Rightarrow> string \<times> string" where
  "key_role key = (let (a, _, b) = partition_on (CHR ''/'') key in (a, b))"

definition uid_target :: "string \<Rightarrow> string \<Rightarrow> string option \<Rightarrow> cleanup_target list" where
  "uid_target kind name uid = (case uid of None \<Rightarrow> [] | Some u \<Rightarrow> [target kind name (Some u) False])"

definition claim_target :: "string \<Rightarrow> 'p ledger_entry \<Rightarrow> cleanup_target" where
  "claim_target name e = with_release (en_release e) (target ''PersistentVolumeClaim'' name (en_uid e) False)"

definition state_targets :: "egress_state \<Rightarrow> cleanup_target list" where
  "state_targets s =
     [target ''Secret'' (''ads-egress-key-'' @ nat_str (es_id s)) (es_key_uid s) False,
      with_release (es_volume_release s)
        (target ''PersistentVolumeClaim'' (''ads-egress-volume-'' @ nat_str (es_id s)) (es_volume_uid s) False)]"

definition custody_targets :: "'a pair_ledger_scheme \<Rightarrow> cleanup_target list" where
  "custody_targets i =
     uid_target ''Secret'' (''ads-relay-keys-'' @ nat_str (pl_sandbox i) @ ''.'' @ nat_str (pl_generation i))
       (cu_uid (pl_custody i))"

definition base_targets :: "'a pair_ledger_scheme \<Rightarrow> cleanup_target list" where
  "base_targets i =
     concat (map (\<lambda>(key, u). uid_target ''Pod'' (pair_name (binding i) (removeprefix ''Pod/'' key)) u) (pl_compute_uids i))
     @ concat (map (\<lambda>(key, u). uid_target (fst (key_role key)) (pair_name (binding i) (snd (key_role key))) u)
         (pl_control_uids i))
     @ [claim_target (ipc_name (pl_sandbox i)) (at (pl_ipc i) ''volume'')]
     @ concat (map (\<lambda>role. let e = at (pl_volumes i) role in
           if en_uid e = None then [] else [claim_target (ca_consumer_name (pl_sandbox i) role) e])
         [''guest'', ''egress'', ''key''])"

definition input_targets :: "'a pair_ledger_scheme \<Rightarrow> cleanup_target list" where
  "input_targets i =
     concat (map (\<lambda>(role, e). uid_target ''Secret'' (relay_input_name (binding i) role) (en_uid e)) (pl_inputs i))"

definition retired_targets :: "pair_intent \<Rightarrow> manager_db \<Rightarrow> cleanup_target list \<Rightarrow> cleanup_target list" where
  "retired_targets i d keep =
     [target ''Pod'' (ipc_name (pl_sandbox i)) (en_uid (at (pl_ipc i) ''pod'')) False] @ base_targets i @ input_targets i
     @ (case pl_state i of
          None \<Rightarrow> []
        | Some n \<Rightarrow> (case get_state d n of None \<Rightarrow> [] | Some s \<Rightarrow> state_targets s) @ custody_targets i)
     @ keep"

definition reap_due :: "sandbox_session \<Rightarrow> session_pvc \<Rightarrow> nat \<Rightarrow> int \<Rightarrow> int \<Rightarrow> int \<Rightarrow> bool" where
  "reap_due r p v now inactivity detached \<longleftrightarrow>
     ss_status r = SStopped \<and> sp_id p = v \<and> sp_state p = VDetached \<and>
     sp_last_execution p \<le> now - inactivity \<and> ss_last_execution r \<le> now - inactivity \<and>
     sp_changed p \<le> now - detached"

text \<open>\<open>reap\<close>. A sandbox with a history of pairs must still be available for a transfer; its inventory and its
  one-way claim are then part of the work.\<close>

definition reap ::
  "ledger_rules \<Rightarrow> nat \<Rightarrow> nat \<Rightarrow> nat \<Rightarrow> nat \<Rightarrow> int \<Rightarrow> int \<Rightarrow> int \<Rightarrow> int \<Rightarrow> cleanup_work option tx" where
  "reap k fresh s b v now inactivity detached timeout d =
     (case locked d s b of
        (Some r, Some p) \<Rightarrow>
          if \<not> reap_due r p v now inactivity detached then Inr (None, d)
          else
     let history = find (\<lambda>i. pl_sandbox i = b) (intents d) in
     bindE (case history of
              None \<Rightarrow> Inr None
            | Some _ \<Rightarrow> bindE (available k r d) (\<lambda>(saved, _, _). Inr (Some saved))) (\<lambda>saved.
     let p' = moved_pvc VDestroying now p in
     bindE (new_work k fresh r (Some p') WReap now timeout
              [over_target (sp_evidence p') (target ''PersistentVolumeClaim'' (session_name v) (sp_uid p') False)]
              (put_pvc p' d)) (\<lambda>(w, d1).
     bindE (case history of
              Some i \<Rightarrow>
                if cw_pair w = None \<and> pi_retired i \<noteq> None
                then bindE (pair_snapshot_of k (pl_session i) (pl_sandbox i) (Some (pl_generation i)) d1) (\<lambda>snapshot.
                       Inr (w\<lparr>cw_pair := snapshot, cw_targets := retired_targets i d1 (cw_targets w)\<rparr>))
                else Inr w
            | None \<Rightarrow> Inr w) (\<lambda>w'.
     let d2 = put_work w' d1 in
     case saved of
       None \<Rightarrow> Inr (Some w', d2)
     | Some i \<Rightarrow> bindE (begin_disposal w' (pl_generation i) now d2) (\<lambda>(_, d3). Inr (Some w', d3)))))
      | _ \<Rightarrow> Inr (None, d))"

definition in_service :: "int \<Rightarrow> int \<Rightarrow> sandbox_session \<Rightarrow> sandbox_session" where
  "in_service now timeout r =
     r\<lparr>ss_status := SService, ss_changed := advance (ss_changed r) now, ss_deadline := Some (now + timeout)\<rparr>"

definition service ::
  "ledger_rules \<Rightarrow> nat \<Rightarrow> nat \<Rightarrow> nat \<Rightarrow> int \<Rightarrow> int \<Rightarrow> cleanup_target list \<Rightarrow> cleanup_work option tx" where
  "service k fresh s b now timeout targets d =
     (case locked d s b of
        (None, _) \<Rightarrow> Inr (None, d)
      | (Some r, v) \<Rightarrow>
          if ss_status r \<noteq> SStopped \<or> (case v of None \<Rightarrow> False | Some p \<Rightarrow> sp_state p \<noteq> VDetached)
          then Inr (None, d)
          else if (case latest_intent b d of None \<Rightarrow> False | Some i \<Rightarrow> pi_retired i \<noteq> None) then Inr (None, d)
          else let r' = in_service now timeout r in
            bindE (new_work k fresh r' v WService now timeout targets (put_session r' d)) (\<lambda>(w, d'). Inr (Some w, d')))"

section \<open>Completion\<close>

text \<open>\<open>complete\<close>, for a work without a pair; a work with a pair is ended by its retirement.\<close>

definition completed_session :: "work_kind \<Rightarrow> int \<Rightarrow> sandbox_session \<Rightarrow> sandbox_session" where
  "completed_session kind now r =
     (if kind = WReap then r\<lparr>ss_pvc := None, ss_pvc_uid := None\<rparr>
      else (cleared r)\<lparr>ss_status := SStopped, ss_changed := advance (ss_changed r) now, ss_deadline := None\<rparr>)"

definition complete_work :: "cleanup_work \<Rightarrow> int \<Rightarrow> bool tx" where
  "complete_work w now d =
     (if \<not> owns d w then Inr (False, d)
      else (case get_work d (cw_id w) of
              None \<Rightarrow> Inr (False, d)
            | Some st \<Rightarrow>
                if cw_pair st \<noteq> None then Inr (False, d)
                else (case cw_session w of
                        None \<Rightarrow> Inr (True, drop_work (cw_id st) d)
                      | Some s \<Rightarrow>
     (case locked d s (cw_sandbox w) of
        (None, _) \<Rightarrow> Inl (OtherError ''AssertionError'')
      | (Some r, v) \<Rightarrow>
          if ss_pod r \<noteq> None then Inr (False, d)
          else
            let d1 = put_session (completed_session (cw_kind w) now r) d in
            (case (cw_kind w, v) of
               (WReap, Some p) \<Rightarrow> Inr (True, drop_work (cw_id st) (drop_pvc (sp_id p) d1))
             | (WReap, None) \<Rightarrow> Inl (OtherError ''AssertionError'')
             | (WIdle, None) \<Rightarrow> Inl (OtherError ''AssertionError'')
             | (WIdle, Some p) \<Rightarrow>
                 (case find t_retain (cw_targets w) of
                    None \<Rightarrow> Inl (OtherError ''StopIteration'')
                  | Some t \<Rightarrow>
                      Inr (True, drop_work (cw_id st)
                        (put_pvc ((moved_pvc VDetached now p)\<lparr>sp_evidence := Some t\<rparr>) d1)))
             | _ \<Rightarrow> Inr (True, drop_work (cw_id st) d1))))))"

section \<open>Recovery\<close>

definition recovering_session :: "nat \<Rightarrow> int \<Rightarrow> sandbox_session \<Rightarrow> sandbox_session" where
  "recovering_session fresh now r =
     (cleared r)\<lparr>ss_sandbox := fresh, ss_status := SRecovering, ss_changed := advance (ss_changed r) now,
       ss_deadline := None, ss_owner := None, ss_pvc := None, ss_pvc_uid := None, ss_pod := None,
       ss_last_ping := None, ss_ping_sent := None\<rparr>"

definition recovery_refused :: "sandbox_session \<Rightarrow> session_pvc option \<Rightarrow> int \<Rightarrow> int \<Rightarrow> manager_db \<Rightarrow> bool" where
  "recovery_refused r v now timeout d \<longleftrightarrow>
     list_ex (\<lambda>x. pd_session x = ss_session r \<and> pd_completed x = None) (disposals d) \<or>
     ss_status r = SShuttingDown \<or>
     (ss_status r = SStopped \<and> (case v of None \<Rightarrow> True | Some p \<Rightarrow> sp_state p \<noteq> VDestroying)) \<or>
     list_ex (\<lambda>w. cw_session w = Some (ss_session r) \<and> list_ex t_retain (cw_targets w)) (works d) \<or>
     (ss_status r = SRecovering \<and> now - timeout < ss_changed r)"

text \<open>The earlier works of the session keep their evidence and are carried into the recovery.\<close>

definition carried_work :: "ledger_rules \<Rightarrow> nat \<Rightarrow> manager_db \<Rightarrow> cleanup_work \<Rightarrow> error + cleanup_work" where
  "carried_work k s d w =
     (if cw_session w \<noteq> Some s then Inr w
      else bindE (case cw_pair w of
                    Some p \<Rightarrow> Inr (Some p)
                  | None \<Rightarrow> pair_snapshot_of k s (cw_sandbox w) None d) (\<lambda>p.
        Inr (w\<lparr>cw_kind := WRecovery, cw_pair := p\<rparr>)))"

definition recover :: "ledger_rules \<Rightarrow> nat \<Rightarrow> nat \<Rightarrow> nat \<Rightarrow> nat \<Rightarrow> int \<Rightarrow> int \<Rightarrow> bool tx" where
  "recover k fresh_work fresh s b now timeout d =
     (case locked d s b of
        (None, _) \<Rightarrow> Inr (False, d)
      | (Some r, v) \<Rightarrow>
          if recovery_refused r v now timeout d then Inr (False, d)
          else
     bindE (new_work k fresh_work r v WRecovery now timeout (sandbox_targets r False) d) (\<lambda>(old, d1).
     let old' = old\<lparr>cw_targets := map (\<lambda>t.
           case v of
             Some p \<Rightarrow>
               if sp_evidence p \<noteq> None \<and> t_name t = session_name (sp_id p) then over_target (sp_evidence p) t else t
           | None \<Rightarrow> t) (cw_targets old)\<rparr> in
     bindE (mapE (carried_work k s d1) (works d)) (\<lambda>previous.
     let d2 = (put_session (recovering_session fresh now r) d1)
           \<lparr>works := previous @ [old'], probes := filter (\<lambda>x. pp_sandbox x \<noteq> b) (probes d1)\<rparr>
     in Inr (True, case v of None \<Rightarrow> d2 | Some p \<Rightarrow> put_pvc (moved_pvc VFailed now p) d2))))"

end
