(* ===== verification/Lifecycle_Service.thy ===== *)
theory Lifecycle_Service
  imports Session_Lifecycle "HOL-Library.List_Lexorder" "HOL-Library.Char_ord"
begin

text \<open>
  The transactions of the lifecycle and recovery services (\<open>lifecycle.py\<close>, \<open>recovery.py\<close>): the scans that
  suggest work, the admission of a signal, acknowledgements and pings, what an executor saves, and the
  end of a recovery.
\<close>

record manager_settings =
  idle_seconds :: int
  detached_seconds :: int
  cleanup_seconds :: int
  pvc_timeout_seconds :: int
  recovery_seconds :: int
  ready_seconds :: int
  create_seconds :: "int option"   \<comment> \<open>of \<open>session_objects\<close>, when it is configured\<close>
  ping_interval_seconds :: int
  ping_timeout_seconds :: int
  lifecycle_batch :: nat

section \<open>Signals\<close>

record signal =
  sg_session :: nat
  sg_sandbox :: nat
  sg_pvc :: "nat option"
  sg_kind :: "string option"
  sg_name :: "string option"
  sg_uid :: "string option"

datatype topic = IdleTopic | ReapTopic | OrphanTopic | RecoverTopic

definition row_signal :: "sandbox_session \<Rightarrow> signal" where
  "row_signal r =
     \<lparr>sg_session = ss_session r, sg_sandbox = ss_sandbox r, sg_pvc = None, sg_kind = None, sg_name = None, sg_uid = None\<rparr>"

definition pvc_signal :: "session_pvc \<Rightarrow> bool \<Rightarrow> signal" where
  "pvc_signal p named =
     \<lparr>sg_session = sp_session p, sg_sandbox = sp_sandbox p, sg_pvc = (if named then Some (sp_id p) else None),
      sg_kind = None, sg_name = None, sg_uid = None\<rparr>"

text \<open>\<open>ORDER BY ... LIMIT\<close>\<close>

definition oldest :: "nat \<Rightarrow> ('r \<Rightarrow> int) \<Rightarrow> 'r list \<Rightarrow> 'r list" where
  "oldest n at' rs = take n (sort_key at' rs)"

definition scan_idle :: "manager_settings \<Rightarrow> int \<Rightarrow> manager_db \<Rightarrow> (topic \<times> signal) list" where
  "scan_idle s now d =
     map (\<lambda>r. (IdleTopic, row_signal r))
       (oldest (lifecycle_batch s) ss_last_execution
         (filter (\<lambda>r. ss_status r = SReady \<and> ss_last_execution r \<le> now - idle_seconds s) (sessions d)))"

definition scan_reap :: "manager_settings \<Rightarrow> int \<Rightarrow> manager_db \<Rightarrow> (topic \<times> signal) list" where
  "scan_reap s now d =
     map (\<lambda>p. (ReapTopic, pvc_signal p True))
       (oldest (lifecycle_batch s) sp_changed
         (filter (\<lambda>p. sp_state p = VDetached \<and> sp_last_execution p \<le> now - idle_seconds s \<and>
                      sp_changed p \<le> now - detached_seconds s) (pvcs d)))"

definition stalled :: "manager_settings \<Rightarrow> int \<Rightarrow> sandbox_session \<Rightarrow> bool" where
  "stalled s now r \<longleftrightarrow>
     (let create = (case create_seconds s of None \<Rightarrow> ready_seconds s | Some c \<Rightarrow> max (ready_seconds s) c) in
      ss_status r = SFailed \<or>
      ss_status r \<in> {SPending, SCreating} \<and> ss_changed r \<le> now - create \<or>
      ss_status r = SRecovering \<and> ss_changed r \<le> now - recovery_seconds s)"

definition scan_watchdog :: "manager_settings \<Rightarrow> int \<Rightarrow> manager_db \<Rightarrow> (topic \<times> signal) list" where
  "scan_watchdog s now d =
     map (\<lambda>p. (RecoverTopic, pvc_signal p False))
       (oldest (lifecycle_batch s) sp_changed
         (filter (\<lambda>p. sp_state p \<in> {VAttaching, VDestroying} \<and> sp_changed p \<le> now - pvc_timeout_seconds s) (pvcs d)))
     @ map (\<lambda>r. (RecoverTopic, row_signal r))
         (take (lifecycle_batch s)
           (filter (\<lambda>r. ss_status r = SService \<and> (case ss_deadline r of None \<Rightarrow> False | Some t \<Rightarrow> t \<le> now)) (sessions d)))
     @ map (\<lambda>r. (RecoverTopic, row_signal r))
         (oldest (lifecycle_batch s) ss_changed (filter (stalled s now) (sessions d)))"

section \<open>Acknowledgements and pings\<close>

definition acknowledge_work :: "manager_db \<Rightarrow> nat \<Rightarrow> int \<Rightarrow> cleanup_work \<Rightarrow> cleanup_work" where
  "acknowledge_work d b t w =
     (if cw_sandbox w = b \<and> cw_kind w = WIdle \<and> cw_changed w = t \<and> owns d w then w\<lparr>cw_acknowledged := True\<rparr> else w)"

definition shutdown_ack :: "nat \<Rightarrow> int option \<Rightarrow> unit tx" where
  "shutdown_ack b transition d =
     (case transition of
        None \<Rightarrow> Inr ((), d)
      | Some t \<Rightarrow> Inr ((), d\<lparr>works := map (acknowledge_work d b t) (works d)\<rparr>))"

definition ping_reply :: "manager_settings \<Rightarrow> nat \<Rightarrow> nat \<Rightarrow> int \<Rightarrow> unit tx" where
  "ping_reply s i b now d =
     (case by_sandbox d b of
        None \<Rightarrow> Inr ((), d)
      | Some r \<Rightarrow>
          if ss_status r \<noteq> SReady then Inr ((), d)
          else (case get_probe d i of
                  None \<Rightarrow> Inr ((), d)
                | Some x \<Rightarrow>
                    if pp_sandbox x \<noteq> ss_sandbox r \<or> pp_sent x < now - ping_timeout_seconds s then Inr ((), d)
                    else
                      let r' = r\<lparr>ss_last_ping := Some (max (case ss_last_ping r of None \<Rightarrow> now | Some t \<Rightarrow> t) now)\<rparr>
                      in Inr ((), (put_session r' d)\<lparr>probes := cut pp_id i (probes d)\<rparr>)))"

text \<open>\<open>ping_scan\<close>, one transaction after the other: what is reclaimed, who is due, the probe of one of them.\<close>

definition probe_counts :: "manager_db \<Rightarrow> ping_probe \<Rightarrow> bool" where
  "probe_counts d x \<longleftrightarrow>
     list_ex (\<lambda>r. ss_sandbox r = pp_sandbox x \<and> ss_status r = SReady \<and>
        (case (ss_last_ping r, pp_published x) of
           (None, _) \<Rightarrow> True | (Some t, Some p) \<Rightarrow> t < p | _ \<Rightarrow> False)) (sessions d)"

definition reclaim_probes :: "manager_settings \<Rightarrow> int \<Rightarrow> manager_db \<Rightarrow> manager_db" where
  "reclaim_probes s now d =
     d\<lparr>probes := filter (\<lambda>x. \<not> (pp_sent x < now - ping_timeout_seconds s \<and>
          (pp_published x = None \<or> \<not> probe_counts d x))) (probes d)\<rparr>"

definition ping_due :: "manager_settings \<Rightarrow> int \<Rightarrow> sandbox_session \<Rightarrow> bool" where
  "ping_due s now r \<longleftrightarrow>
     ss_status r = SReady \<and> (case ss_ping_sent r of None \<Rightarrow> True | Some t \<Rightarrow> t \<le> now - ping_interval_seconds s)"

definition ping_timed_out :: "manager_settings \<Rightarrow> int \<Rightarrow> sandbox_session \<Rightarrow> manager_db \<Rightarrow> bool" where
  "ping_timed_out s now r d \<longleftrightarrow>
     (let alive = (case ss_last_ping r of None \<Rightarrow> ss_changed r | Some t \<Rightarrow> t) in
      list_ex (\<lambda>x. pp_sandbox x = ss_sandbox r \<and>
        (case pp_published x of None \<Rightarrow> False | Some t \<Rightarrow> t \<le> now - ping_timeout_seconds s \<and> alive < t)) (probes d))"

datatype ping_verdict = NotDue | Dead | Probe nat

definition ping_claim :: "manager_settings \<Rightarrow> nat \<Rightarrow> sandbox_session \<Rightarrow> int \<Rightarrow> ping_verdict tx" where
  "ping_claim s fresh x now d =
     (case session_row d (ss_session x) of
        None \<Rightarrow> Inr (NotDue, d)
      | Some r \<Rightarrow>
          if ss_sandbox r \<noteq> ss_sandbox x \<or> ss_status r \<noteq> SReady then Inr (NotDue, d)
          else
            let d1 = put_session (r\<lparr>ss_ping_sent := Some now\<rparr>) d in
            if ping_timed_out s now r d then Inr (Dead, d1)
            else Inr (Probe fresh, d1\<lparr>probes := probes d1 @ [\<lparr>pp_id = fresh, pp_sandbox = ss_sandbox r, pp_sent = now,
                   pp_published = None\<rparr>]\<rparr>))"

definition ping_published :: "nat \<Rightarrow> int \<Rightarrow> manager_db \<Rightarrow> manager_db" where
  "ping_published i now d =
     d\<lparr>probes := map (\<lambda>x. if pp_id x = i then x\<lparr>pp_published := Some now\<rparr> else x) (probes d)\<rparr>"

definition ping_failed :: "nat \<Rightarrow> manager_db \<Rightarrow> manager_db" where
  "ping_failed i d = d\<lparr>probes := cut pp_id i (probes d)\<rparr>"

section \<open>Orphans\<close>

text \<open>An object of the cluster, as an inventory shows it: kind, name, identity and the labels that count.\<close>

record cluster_object =
  co_kind :: string
  co_name :: string
  co_uid :: string
  co_component :: string
  co_session :: "nat option"
  co_sandbox :: "nat option"
  co_ca_role :: "string option"
  co_paired :: bool        \<comment> \<open>a label of a generation, a project or an egress state\<close>
  co_owned :: bool         \<comment> \<open>\<open>ownerReferences\<close>\<close>

definition uuid_of :: "string \<Rightarrow> nat option" where
  "uuid_of t = (if t \<noteq> [] \<and> list_all is_digit t then Some (dec_value t) else None)"

definition object_valid :: "cluster_object \<Rightarrow> nat \<Rightarrow> bool" where
  "object_valid x b \<longleftrightarrow>
     (if co_component x = ''ads-sandbox-ipc'' then co_name x = ipc_name b
      else if co_component x = ''ads-sandbox-ca-consumer''
      then co_kind x = ''PersistentVolumeClaim'' \<and>
           (case co_ca_role x of
              None \<Rightarrow> False
            | Some role \<Rightarrow> role \<in> {''guest'', ''egress'', ''key''} \<and> co_name x = ca_consumer_name b role) \<and> \<not> co_owned x
      else if co_component x = ''ads-sandbox''
      then (if co_kind x = ''Deployment'' then co_name x = session_name b
            else (case uuid_of (removeprefix ''ads-sandbox-'' (co_name x)) of
                    None \<Rightarrow> False | Some v \<Rightarrow> co_name x = session_name v))
      else False)"

definition object_signal :: "cluster_object \<Rightarrow> signal option" where
  "object_signal x =
     (if co_paired x then None
      else (case (co_session x, co_sandbox x) of
              (Some s, Some b) \<Rightarrow>
                if co_kind x \<notin> {''Deployment'', ''PersistentVolumeClaim''} \<or> co_uid x = [] \<or> \<not> object_valid x b then None
                else Some \<lparr>sg_session = s, sg_sandbox = b, sg_pvc = None, sg_kind = Some (co_kind x),
                       sg_name = Some (co_name x), sg_uid = Some (co_uid x)\<rparr>
            | _ \<Rightarrow> None))"

datatype ownership = Owned | OwnedStopped | Ownerless

definition held_by_recovery :: "signal \<Rightarrow> cleanup_work \<Rightarrow> bool" where
  "held_by_recovery m w \<longleftrightarrow>
     cw_kind w = WRecovery \<and> cw_session w = Some (sg_session m) \<and>
     list_ex (\<lambda>t. Some (t_kind t) = sg_kind m \<and> Some (t_name t) = sg_name m \<and>
        (t_uid t = None \<or> t_uid t = sg_uid m) \<and> \<not> t_cleaned t) (cw_targets w)"

definition ownership_of :: "signal \<Rightarrow> manager_db \<Rightarrow> ownership" where
  "ownership_of m d =
     (if list_ex (\<lambda>i. pl_sandbox i = sg_sandbox m) (intents d) then Owned
      else if list_ex (held_by_recovery m) (works d) then Owned
      else if sg_kind m = Some ''PersistentVolumeClaim'' \<and>
              list_ex (\<lambda>p. sp_session p = sg_session m \<and> Some (session_name (sp_id p)) = sg_name m) (pvcs d)
      then Owned
      else (case session_row d (sg_session m) of
              Some r \<Rightarrow>
                if ss_sandbox r = sg_sandbox m then (if ss_status r = SStopped then OwnedStopped else Owned)
                else Ownerless
            | None \<Rightarrow> Ownerless))"

definition orphan_target :: "signal \<Rightarrow> cluster_object \<Rightarrow> cleanup_target" where
  "orphan_target m x =
     (target (co_kind x) (co_name x) (Some (co_uid x)) False)\<lparr>t_ids := Some (sg_session m, sg_sandbox m)\<rparr>"

definition orphan_objects :: "signal \<Rightarrow> ownership \<Rightarrow> manager_db \<Rightarrow> cluster_object list \<Rightarrow> cleanup_target list" where
  "orphan_objects m ow d observed =
     map (orphan_target m)
       (filter (\<lambda>x. case object_signal x of
            None \<Rightarrow> False
          | Some c \<Rightarrow> (sg_session c, sg_sandbox c) = (sg_session m, sg_sandbox m) \<and> ownership_of c d = ow \<and> ow \<noteq> Owned) observed)"

text \<open>\<open>_orphan\<close>, for a sandbox without a pair; \<open>registry\<close> is the reconciliation of its ledger.\<close>

definition orphan_work :: "nat \<Rightarrow> nat \<Rightarrow> int \<Rightarrow> int \<Rightarrow> cleanup_target list \<Rightarrow> pair_snapshot option \<Rightarrow> cleanup_work" where
  "orphan_work fresh b now timeout objects p =
     \<lparr>cw_id = fresh, cw_session = None, cw_sandbox = b, cw_pvc = None, cw_kind = WOrphan, cw_changed = now,
      cw_pvc_changed = None, cw_deadline = now + timeout, cw_acknowledged = True, cw_targets = objects, cw_pair = p\<rparr>"

definition admit_orphan ::
  "ledger_rules \<Rightarrow> unit tx \<Rightarrow> nat \<Rightarrow> signal \<Rightarrow> int \<Rightarrow> int \<Rightarrow> cluster_object list \<Rightarrow> unit tx" where
  "admit_orphan k registry fresh m now timeout observed d =
     (if sg_kind m = None \<or> sg_name m = None \<or> sg_uid m = None then Inr ((), d)
      else if list_ex (\<lambda>i. pl_session i = sg_session m \<and> pl_sandbox i = sg_sandbox m) (intents d) then registry d
      else
        let ow = ownership_of m d;
            objects = sort_key (\<lambda>t. (if t_kind t \<noteq> ''Deployment'' then 1 else 0 :: nat))
                        (sort_key t_name (orphan_objects m ow d observed))
        in if \<not> list_ex (\<lambda>t. t_uid t = sg_uid m \<and> Some (t_name t) = sg_name m \<and> Some (t_kind t) = sg_kind m) objects
           then Inr ((), d)
           else (case ow of
                   Owned \<Rightarrow> Inr ((), d)
                 | OwnedStopped \<Rightarrow>
                     bindE (service k fresh (sg_session m) (sg_sandbox m) now timeout objects d) (\<lambda>(_, d'). Inr ((), d'))
                 | Ownerless \<Rightarrow>
                     if list_ex (\<lambda>w. cw_kind w = WOrphan \<and> cw_sandbox w = sg_sandbox m) (works d) then Inr ((), d)
                     else bindE (pair_snapshot_of k (sg_session m) (sg_sandbox m) None d) (\<lambda>p.
                            Inr ((), d\<lparr>works := works d @ [orphan_work fresh (sg_sandbox m) now timeout objects p]\<rparr>))))"

text \<open>\<open>admit\<close>: one signal, revalidated in one transaction.\<close>

definition admit_signal ::
  "ledger_rules \<Rightarrow> manager_settings \<Rightarrow> unit tx \<Rightarrow> nat \<Rightarrow> nat \<Rightarrow> topic \<Rightarrow> signal \<Rightarrow> int \<Rightarrow> cluster_object list \<Rightarrow> unit tx" where
  "admit_signal k s registry fresh fresh' t m now observed d =
     (case t of
        IdleTopic \<Rightarrow>
          bindE (idle_session k fresh (sg_session m) (sg_sandbox m) now (idle_seconds s) (cleanup_seconds s) d)
            (\<lambda>(_, d'). Inr ((), d'))
      | ReapTopic \<Rightarrow>
          (case sg_pvc m of
             None \<Rightarrow> Inr ((), d)
           | Some v \<Rightarrow>
               bindE (reap k fresh (sg_session m) (sg_sandbox m) v now (idle_seconds s) (detached_seconds s)
                        (cleanup_seconds s) d) (\<lambda>(_, d'). Inr ((), d')))
      | RecoverTopic \<Rightarrow>
          bindE (recover k fresh fresh' (sg_session m) (sg_sandbox m) now (recovery_seconds s) d) (\<lambda>(_, d'). Inr ((), d'))
      | OrphanTopic \<Rightarrow> admit_orphan k registry fresh m now (cleanup_seconds s) observed d)"

section \<open>What the executors save\<close>

definition save_targets :: "cleanup_work \<Rightarrow> cleanup_target list \<Rightarrow> bool tx" where
  "save_targets w targets d =
     (if \<not> owns d w then Inr (False, d)
      else (case get_work d (cw_id w) of
              None \<Rightarrow> Inr (False, d)
            | Some st \<Rightarrow> Inr (True, put_work (st\<lparr>cw_targets := targets\<rparr>) d)))"

text \<open>The deadline of an idle work, or of a retained expiry, is renewed; nothing else of it changes.\<close>

definition renew_deadline :: "cleanup_work \<Rightarrow> int \<Rightarrow> bool tx" where
  "renew_deadline w deadline d =
     (if \<not> owns d w then Inr (False, d)
      else (case get_work d (cw_id w) of
              None \<Rightarrow> Inr (False, d)
            | Some st \<Rightarrow> Inr (True, put_work (st\<lparr>cw_deadline := deadline\<rparr>) d)))"

text \<open>The check before each object of a work: an orphan that acquired an owner is given up.\<close>

definition revalidate_target :: "signal \<Rightarrow> cleanup_work \<Rightarrow> bool tx" where
  "revalidate_target m w d =
     (if \<not> owns d w then Inr (False, d)
      else if cw_kind w = WOrphan \<and> ownership_of m d \<noteq> Ownerless
      then (case get_work d (cw_id w) of
              None \<Rightarrow> Inl (OtherError ''UnmappedInstanceError'')
            | Some st \<Rightarrow> Inr (False, drop_work (cw_id w) d))
      else Inr (True, d))"

definition recovering_row :: "sandbox_session \<Rightarrow> manager_db \<Rightarrow> sandbox_session option" where
  "recovering_row x d =
     (case session_row d (ss_session x) of
        None \<Rightarrow> None
      | Some r \<Rightarrow>
          if ss_sandbox r = ss_sandbox x \<and> ss_status r = SRecovering \<and> ss_changed r = ss_changed x then Some r else None)"

definition save_recovery_targets :: "sandbox_session \<Rightarrow> cleanup_work \<Rightarrow> cleanup_target list \<Rightarrow> bool tx" where
  "save_recovery_targets x w targets d =
     (case recovering_row x d of
        None \<Rightarrow> Inr (False, d)
      | Some _ \<Rightarrow>
          (case get_work d (cw_id w) of
             None \<Rightarrow> Inr (False, d)
           | Some st \<Rightarrow>
               if cw_kind st \<noteq> WRecovery then Inr (False, d)
               else Inr (True, put_work (st\<lparr>cw_targets := targets\<rparr>) d)))"

definition fail_recovery :: "sandbox_session \<Rightarrow> int \<Rightarrow> bool tx" where
  "fail_recovery x now d =
     (case recovering_row x d of
        None \<Rightarrow> Inr (False, d)
      | Some r \<Rightarrow> Inr (True, put_session (r\<lparr>ss_status := SFailed, ss_changed := advance (ss_changed r) now\<rparr>) d))"

text \<open>The end of a recovery: the records go only with their proof, and the fresh claim is made at once.\<close>

definition proven_cleaned :: "cleanup_work list \<Rightarrow> session_pvc \<Rightarrow> bool" where
  "proven_cleaned ws p \<longleftrightarrow>
     list_ex (\<lambda>w. list_ex (\<lambda>t. t_kind t = ''PersistentVolumeClaim'' \<and> t_name t = session_name (sp_id p) \<and>
        (sp_uid p = None \<or> t_uid t = sp_uid p) \<and> t_cleaned t) (cw_targets w)) ws"

definition recovered_session :: "int \<Rightarrow> sandbox_session \<Rightarrow> sandbox_session" where
  "recovered_session now r =
     (cleared r)\<lparr>ss_pvc := None, ss_pvc_uid := None, ss_status := SStopped, ss_changed := advance (ss_changed r) now\<rparr>"

definition drop_session_rows :: "nat \<Rightarrow> cleanup_work list \<Rightarrow> manager_db \<Rightarrow> manager_db" where
  "drop_session_rows s ws d =
     d\<lparr>pvcs := filter (\<lambda>p. sp_session p \<noteq> s) (pvcs d), works := filter (\<lambda>w. cw_id w \<notin> set (map cw_id ws)) (works d)\<rparr>"

definition finish_recovery ::
  "ledger_rules \<Rightarrow> nat \<Rightarrow> nat \<Rightarrow> sandbox_session \<Rightarrow> cleanup_work list \<Rightarrow> int \<Rightarrow> int \<Rightarrow> sandbox_session option tx" where
  "finish_recovery k fresh owner x ws now now' d =
     (case recovering_row x d of
        None \<Rightarrow> Inr (None, d)
      | Some r \<Rightarrow>
          if \<not> list_all (proven_cleaned ws) (filter (\<lambda>p. sp_session p = ss_session x) (pvcs d))
          then Inl (RuntimeError ''PVC record has no proven cleanup'')
          else
            let r' = recovered_session now r in
            bindE (claim_session k fresh r' owner now' False (put_session r' (drop_session_rows (ss_session x) ws d)))
              (\<lambda>(claimed, d'). if claimed = None then Inl (RuntimeError ''rebuild claim lost'') else Inr (claimed, d')))"

text \<open>The same for pairs: every generation of the works is retired first.\<close>

definition unissued_work :: "bool \<Rightarrow> cleanup_work \<Rightarrow> manager_db \<Rightarrow> bool" where
  "unissued_work paired w d \<longleftrightarrow>
     paired \<and> \<not> list_ex (\<lambda>t. t_uid t \<noteq> None) (cw_targets w) \<and>
     \<not> list_ex (\<lambda>i. pl_sandbox i = cw_sandbox w) (intents d) \<and> \<not> list_ex (\<lambda>s. es_sandbox s = cw_sandbox w) (states d)"

definition retire_work ::
  "ledger_rules \<Rightarrow> bool \<Rightarrow> int \<Rightarrow> recovery_claim \<Rightarrow> (cleanup_work list \<times> nat list) \<times> manager_db \<Rightarrow> cleanup_work
   \<Rightarrow> error + (cleanup_work list \<times> nat list) \<times> manager_db" where
  "retire_work k paired now claim = (\<lambda>((retired, unissued), d) w.
     case cw_pair w of
       None \<Rightarrow>
         if unissued_work paired w d then Inr ((retired, unissued @ [cw_sandbox w]), d)
         else Inl (PairClaimLost ''mixed recovery lacks original unissued evidence'')
     | Some p \<Rightarrow>
         bindE (cleanup_pair k w) (\<lambda>b.
         if list_ex (\<lambda>v. map_option pl_generation (cw_pair v) = Some (pb_generation b)) retired
         then Inr ((retired, unissued), d)
         else bindE (retire k w now claim d) (\<lambda>(saved, d').
           if \<not> saved then Inl (PairClaimLost ''paired recovery terminal proof incomplete'')
           else Inr ((retired @ [w], unissued), d'))))"

definition pvc_given_up :: "cleanup_work list \<Rightarrow> nat list \<Rightarrow> session_pvc \<Rightarrow> bool" where
  "pvc_given_up retired unissued p \<longleftrightarrow>
     list_ex (\<lambda>w. list_ex (\<lambda>t. t_kind t = ''PersistentVolumeClaim'' \<and> t_name t = session_name (sp_id p) \<and>
        (sp_uid p = None \<or> t_uid t = sp_uid p)) (cw_targets w)) retired \<or>
     sp_sandbox p \<in> set unissued \<and> sp_uid p = None"

definition finish_paired_recovery ::
  "ledger_rules \<Rightarrow> bool \<Rightarrow> nat \<Rightarrow> nat \<Rightarrow> sandbox_session \<Rightarrow> cleanup_work list \<Rightarrow> int \<Rightarrow> int \<Rightarrow> sandbox_session option tx" where
  "finish_paired_recovery k paired fresh owner x ws limit now d =
     (case recovering_row x d of
        None \<Rightarrow> Inr (None, d)
      | Some _ \<Rightarrow>
     bindE (foldE (retire_work k paired now (Some (x, limit))) (([], []), d) ws) (\<lambda>((retired, unissued), d1).
     if \<not> list_all (pvc_given_up retired unissued) (filter (\<lambda>p. sp_session p = ss_session x) (pvcs d1))
     then Inl (PairClaimLost ''paired recovery workspace not proven destroyed'')
     else if \<not> list_all (\<lambda>w. case get_work d1 (cw_id w) of None \<Rightarrow> False | Some st \<Rightarrow> cw_kind st = WRecovery) ws
     then Inl (PairClaimLost ''paired recovery work changed before retirement'')
     else (case session_row d1 (ss_session x) of
             None \<Rightarrow> Inl (OtherError ''AssertionError'')
           | Some r \<Rightarrow>
               let r' = (recovered_session now r)\<lparr>ss_pod := None\<rparr> in
               bindE (claim_session k fresh r' owner now True (put_session r' (drop_session_rows (ss_session x) ws d1)))
                 (\<lambda>(claimed, d').
                   if claimed = None then Inl (PairClaimLost ''paired fresh recovery claim lost'')
                   else Inr (claimed, d')))))"

end
