(* ===== verification/Pair_Registry.thy ===== *)
theory Pair_Registry
  imports Lifecycle_Service
begin

text \<open>
  The registry of pairs (\<open>pair_registry.py\<close>): a work that was lost is built again from the ledger of its
  generation, with the exact objects of it.
\<close>

definition pvc_of_pair :: "pair_intent \<Rightarrow> manager_db \<Rightarrow> session_pvc option" where
  "pvc_of_pair i d = find (\<lambda>p. sp_session p = pl_session i \<and> sp_sandbox p = pl_sandbox i) (pvcs d)"

definition rebuilt_work ::
  "nat \<Rightarrow> sandbox_session option \<Rightarrow> session_pvc option \<Rightarrow> pair_intent \<Rightarrow> work_kind \<Rightarrow> int \<Rightarrow> int \<Rightarrow> bool
   \<Rightarrow> cleanup_target list \<Rightarrow> pair_snapshot option \<Rightarrow> cleanup_work" where
  "rebuilt_work n row v i kind now timeout ack targets p =
     \<lparr>cw_id = n, cw_session = map_option ss_session row, cw_sandbox = pl_sandbox i,
      cw_pvc = (if row = None then None else map_option sp_id v), cw_kind = kind,
      cw_changed = (case row of None \<Rightarrow> now | Some r \<Rightarrow> ss_changed r),
      cw_pvc_changed = (if row = None then None else map_option sp_changed v),
      cw_deadline = now + timeout, cw_acknowledged = ack, cw_targets = targets, cw_pair = p\<rparr>"

subsection \<open>A retired generation whose storage was retained\<close>

definition retained_storage :: "pair_intent \<Rightarrow> bool" where
  "retained_storage i \<longleftrightarrow> en_dispatch (at (pl_volumes i) ''workspace'') \<noteq> Unissued \<and> pl_from i = None"

definition expiry_targets :: "pair_intent \<Rightarrow> session_pvc option \<Rightarrow> manager_db \<Rightarrow> cleanup_target list" where
  "expiry_targets i v d =
     [target ''Pod'' (ipc_name (pl_sandbox i)) (en_uid (at (pl_ipc i) ''pod'')) False] @ base_targets i @ input_targets i
     @ (case pl_state i of
          None \<Rightarrow> []
        | Some n \<Rightarrow> (case get_state d n of None \<Rightarrow> [] | Some s \<Rightarrow> state_targets s))
     @ [claim_target (session_name (case v of None \<Rightarrow> workspace_id i | Some p \<Rightarrow> sp_id p)) (at (pl_volumes i) ''workspace'')]
     @ custody_targets i"

definition expiry_kind ::
  "sandbox_session option \<Rightarrow> session_pvc option \<Rightarrow> pair_intent \<Rightarrow> pair_disposal option \<Rightarrow> manager_db
   \<Rightarrow> error + work_kind option" where
  "expiry_kind row v i receipt d =
     (case row of
        None \<Rightarrow> bindE (orphan_scope i d) (\<lambda>_. Inr (Some WOrphan))
      | Some r \<Rightarrow>
          Inr (case (receipt, v) of
                 (Some x, Some p) \<Rightarrow>
                   if ss_status r = SStopped \<and> ss_sandbox r = pl_sandbox i \<and> ss_project r = pl_project i \<and>
                      ss_pvc r = Some (pd_pvc x) \<and> ss_pvc_uid r = Some (pd_pvc_uid x) \<and> sp_state p = VDestroying
                   then Some WReap else None
               | _ \<Rightarrow> None))"

definition reconcile_retired ::
  "ledger_rules \<Rightarrow> nat \<Rightarrow> sandbox_session option \<Rightarrow> session_pvc option \<Rightarrow> pair_intent \<Rightarrow> int \<Rightarrow> int
   \<Rightarrow> cleanup_work option tx" where
  "reconcile_retired k fresh row v i now timeout d =
     (if \<not> retained_storage i then Inr (None, d)
      else
     bindE (case pick pd_generation (pl_generation i) (disposals d) of
              None \<Rightarrow> Inr None
            | Some _ \<Rightarrow> bindE (verify_disposal (pl_generation i) d) (\<lambda>x. Inr (Some x))) (\<lambda>receipt.
     if (case receipt of None \<Rightarrow> False | Some x \<Rightarrow> pd_completed x \<noteq> None) then Inr (None, d)
     else
     bindE (expiry_kind row v i receipt d) (\<lambda>kind.
     (case kind of
        None \<Rightarrow> Inr (None, d)
      | Some kd \<Rightarrow>
     bindE (if kd = WOrphan then Inr None
            else pair_snapshot_of k (pl_session i) (pl_sandbox i) (Some (pl_generation i)) d) (\<lambda>snapshot.
     let w = rebuilt_work (case receipt of None \<Rightarrow> fresh | Some x \<Rightarrow> pd_work x) row v i kd now timeout True
               (expiry_targets i v d) snapshot;
         d1 = d\<lparr>works := works d @ [w]\<rparr>
     in if receipt \<noteq> None then Inr (Some w, d1)
        else bindE (begin_disposal w (pl_generation i) now d1) (\<lambda>(_, d2). Inr (Some w, d2)))))))"

subsection \<open>A generation in force\<close>

definition rebuilt_kind ::
  "sandbox_session option \<Rightarrow> session_pvc option \<Rightarrow> pair_intent \<Rightarrow> error + work_kind option" where
  "rebuilt_kind row v i =
     (case row of
        None \<Rightarrow> Inr (if v \<noteq> None then None else Some WOrphan)
      | Some r \<Rightarrow>
          if ss_project r \<noteq> pl_project i
          then Inl (PairClaimLost ''durable pair inventory acquired a foreign project'')
          else if ss_status r = SRecovering \<and> (case v of None \<Rightarrow> True | Some p \<Rightarrow> sp_state p = VFailed)
          then Inr (Some WRecovery)
          else if ss_sandbox r = pl_sandbox i \<and> ss_pvc r = map_option sp_id v
          then Inr (if ss_status r = SShuttingDown \<and> (case v of None \<Rightarrow> False | Some p \<Rightarrow> sp_state p = VDetaching)
                    then Some WIdle
                    else if ss_status r = SService \<and> (case v of None \<Rightarrow> True | Some p \<Rightarrow> sp_state p = VDetached)
                    then Some WService else None)
          else Inr None)"

definition rebuilt_targets :: "pair_intent \<Rightarrow> session_pvc option \<Rightarrow> work_kind \<Rightarrow> pair_snapshot \<Rightarrow> manager_db \<Rightarrow> cleanup_target list" where
  "rebuilt_targets i v kind p d =
     (case v of
        None \<Rightarrow> []
      | Some q \<Rightarrow>
          [with_release (en_release (at (pl_volumes i) ''workspace''))
             (target ''PersistentVolumeClaim'' (session_name (sp_id q)) (sp_uid q) (kind = WIdle))])
     @ (if kind \<noteq> WIdle then []
        else base_targets p @ custody_targets p @ input_targets p
          @ (case pl_state p of
               None \<Rightarrow> []
             | Some n \<Rightarrow>
                 (case get_state d n of
                    None \<Rightarrow> []
                  | Some s \<Rightarrow> filter (\<lambda>t. t_uid t \<noteq> None) (state_targets s)))
          @ [target ''Pod'' (ipc_name (pl_sandbox i)) (ipc_pod_uid p) False])"

definition reconcile_active ::
  "ledger_rules \<Rightarrow> nat \<Rightarrow> sandbox_session option \<Rightarrow> session_pvc option \<Rightarrow> pair_intent \<Rightarrow> int \<Rightarrow> int
   \<Rightarrow> cleanup_work option tx" where
  "reconcile_active k fresh row v i now timeout d =
     bindE (pair_snapshot_of k (pl_session i) (pl_sandbox i) (Some (pl_generation i)) d) (\<lambda>snapshot.
     (case snapshot of
        None \<Rightarrow> Inl (PairClaimLost ''durable pair inventory lost its original snapshot'')
      | Some p \<Rightarrow>
     bindE (rebuilt_kind row v i) (\<lambda>kind.
     (case kind of
        None \<Rightarrow> Inr (None, d)
      | Some kd \<Rightarrow>
          let w = rebuilt_work fresh row v i kd now timeout (kd \<noteq> WIdle \<or> pl_topics i = Settled)
                    (rebuilt_targets i v kd p d) (Some p);
              d1 = d\<lparr>works := works d @ [w]\<rparr>
          in if kd = WOrphan
             then bindE (owned_pair_cleanup k w now None d1) (\<lambda>_. Inr (Some w, d1))
             else Inr (Some w, d1)))))"

definition reconcile :: "ledger_rules \<Rightarrow> nat \<Rightarrow> nat \<Rightarrow> int \<Rightarrow> int \<Rightarrow> cleanup_work option tx" where
  "reconcile k fresh g now timeout d =
     (case get_intent d g of
        None \<Rightarrow> Inr (None, d)
      | Some i \<Rightarrow>
          if list_ex (\<lambda>w. cw_sandbox w = pl_sandbox i) (works d) \<or>
             list_ex (\<lambda>t. tr_predecessor t = g) (transfers d)
          then Inr (None, d)
          else
            let row = session_row d (pl_session i); v = pvc_of_pair i d in
            if pi_retired i \<noteq> None then reconcile_retired k fresh row v i now timeout d
            else reconcile_active k fresh row v i now timeout d)"

text \<open>
  \<open>candidates\<close>: a page of generations that may have lost their work, from the cursor of the last scan, or
  from the start where nothing follows it. The dispatch of the workspace is compared as the text of a
  JSON value, which keeps its quotes.
\<close>

definition dispatch_text :: "dispatch_state \<Rightarrow> string" where
  "dispatch_text x =
     (case x of Unissued \<Rightarrow> ''\"unissued\"'' | Inflight \<Rightarrow> ''\"inflight\"'' | Settled \<Rightarrow> ''\"settled\"'')"

definition candidate :: "manager_db \<Rightarrow> pair_intent \<Rightarrow> bool" where
  "candidate d i \<longleftrightarrow>
     (session_row d (pl_session i) = None \<or>
      list_ex (\<lambda>r. ss_session r = pl_session i \<and> ss_status r \<in> {SShuttingDown, SRecovering, SService}) (sessions d) \<or>
      list_ex (\<lambda>x. pd_generation x = pl_generation i \<and> pd_completed x = None) (disposals d)) \<and>
     \<not> list_ex (\<lambda>w. cw_sandbox w = pl_sandbox i) (works d) \<and>
     (pi_retired i = None \<or>
      dispatch_text (en_dispatch (at (pl_volumes i) ''workspace'')) \<noteq> ''unissued'' \<and> pl_from i = None \<or>
      pl_from i \<noteq> None) \<and>
     \<not> list_ex (\<lambda>t. tr_predecessor t = pl_generation i) (transfers d) \<and>
     \<not> list_ex (\<lambda>x. pd_generation x = pl_generation i \<and> pd_completed x \<noteq> None) (disposals d)"

definition candidates :: "nat \<Rightarrow> nat option \<Rightarrow> manager_db \<Rightarrow> nat list" where
  "candidates limit cursor d =
     (let rows = sort_key pl_changed (sort_key pl_generation (filter (candidate d) (intents d)));
          page = (case (case cursor of None \<Rightarrow> None | Some g \<Rightarrow> get_intent d g) of
                    None \<Rightarrow> []
                  | Some c \<Rightarrow>
                      take limit (filter (\<lambda>i. pl_changed c < pl_changed i \<or>
                        pl_changed c = pl_changed i \<and> pl_generation c < pl_generation i) rows))
      in map pl_generation (if page \<noteq> [] then page else take limit rows))"

text \<open>What \<open>_orphan\<close> calls for a sandbox with a pair.\<close>

definition reconcile_signal :: "ledger_rules \<Rightarrow> nat \<Rightarrow> signal \<Rightarrow> int \<Rightarrow> int \<Rightarrow> unit tx" where
  "reconcile_signal k fresh m now timeout d =
     (case filter (\<lambda>i. pl_session i = sg_session m \<and> pl_sandbox i = sg_sandbox m) (intents d) of
        [] \<Rightarrow> Inr ((), d)
      | i # is \<Rightarrow>
          bindE (reconcile k fresh (pl_generation (foldl (\<lambda>a j. if pl_changed a < pl_changed j then j else a) i is))
                   now timeout d) (\<lambda>(_, d'). Inr ((), d')))"

end
