(* ===== verification/Manager_Steps.thy ===== *)
theory Manager_Steps
  imports Pair_Registry
begin

text \<open>
  The sandbox manager as a transition system: each step is one committed transaction, of any replica, at
  any instant (clocks may differ and go backwards). A replica works with copies of rows that it read
  earlier, so a step may use any row that was ever stored; an identity that is drawn was never used before.
\<close>

record world =
  wd :: manager_db
  used :: "nat set"
  seen :: "sandbox_session set"
  held :: "cleanup_work set"
  copies :: "pair_intent set"
  state_copies :: "egress_state set"

definition after :: "manager_db \<Rightarrow> nat set \<Rightarrow> world \<Rightarrow> world" where
  "after d new w =
     \<lparr>wd = d, used = used w \<union> new, seen = seen w \<union> set (sessions d), held = held w \<union> set (works d),
      copies = copies w \<union> set (intents d), state_copies = state_copies w \<union> set (states d)\<rparr>"

definition commits :: "world \<Rightarrow> nat set \<Rightarrow> 'a tx \<Rightarrow> world \<Rightarrow> bool" where
  "commits w new m w' \<longleftrightarrow> new \<inter> used w = {} \<and> (\<exists>x d'. m (wd w) = Inr (x, d') \<and> w' = after d' new w)"

definition empty_db :: manager_db where
  "empty_db = \<lparr>sessions = [], pvcs = [], works = [], probes = [], intents = [], states = [], transfers = [], disposals = []\<rparr>"

definition new_world :: world where
  "new_world = \<lparr>wd = empty_db, used = {}, seen = {}, held = {}, copies = {}, state_copies = {}\<rparr>"

text \<open>What an executor may write over the targets of a work: evidence and marks, never other objects.\<close>

definition same_targets :: "cleanup_target list \<Rightarrow> cleanup_target list \<Rightarrow> bool" where
  "same_targets ts us \<longleftrightarrow>
     map (\<lambda>t. (t_kind t, t_name t, t_uid t, t_retain t)) us = map (\<lambda>t. (t_kind t, t_name t, t_uid t, t_retain t)) ts"

definition same_names :: "cleanup_target list \<Rightarrow> cleanup_target list \<Rightarrow> bool" where
  "same_names ts us \<longleftrightarrow>
     map (\<lambda>t. (t_kind t, t_name t, t_retain t)) us = map (\<lambda>t. (t_kind t, t_name t, t_retain t)) ts"

inductive manager_step :: "ledger_rules \<Rightarrow> world \<Rightarrow> world \<Rightarrow> bool" for k where
  insert: "commits w {b} (insert_pending s b golden now project) w' \<Longrightarrow> manager_step k w w'"
| claimed: "x \<in> seen w \<Longrightarrow> commits w {v} (claim_session k v x owner now paired) w' \<Longrightarrow> manager_step k w w'"
| progress: "x \<in> seen w \<Longrightarrow> commits w {} (record_progress x owner v) w' \<Longrightarrow> manager_step k w w'"
| ready: "commits w {} (mark_ready k b now expected) w' \<Longrightarrow> manager_step k w w'"
| result: "commits w {} (stamp_result b now) w' \<Longrightarrow> manager_step k w w'"
| admitted: "commits w {} (admit_execution s now) w' \<Longrightarrow> manager_step k w w'"
| signalled: "n \<noteq> b \<Longrightarrow> commits w {n, b} (admit_signal k c (reconcile_signal k n m now timeout) n b t m now observed) w'
    \<Longrightarrow> manager_step k w w'"
| reconciled: "commits w {n} (reconcile k n g now timeout) w' \<Longrightarrow> manager_step k w w'"
| acknowledged: "commits w {} (shutdown_ack b t) w' \<Longrightarrow> manager_step k w w'"
| replied: "commits w {} (ping_reply c i b now) w' \<Longrightarrow> manager_step k w w'"
| probed: "x \<in> seen w \<Longrightarrow> commits w {n} (ping_claim c n x now) w' \<Longrightarrow> manager_step k w w'"
| probes_changed: "m \<in> {reclaim_probes c now, ping_published i now, ping_failed i} \<Longrightarrow>
    commits w {} (\<lambda>d. Inr ((), m d)) w' \<Longrightarrow> manager_step k w w'"
| saved: "u \<in> held w \<Longrightarrow> same_targets (cw_targets u) ts \<Longrightarrow> commits w {} (save_targets u ts) w' \<Longrightarrow> manager_step k w w'"
| renewed: "u \<in> held w \<Longrightarrow> commits w {} (renew_deadline u deadline) w' \<Longrightarrow> manager_step k w w'"
| revalidated: "u \<in> held w \<Longrightarrow> commits w {} (revalidate_target m u) w' \<Longrightarrow> manager_step k w w'"
| completed: "u \<in> held w \<Longrightarrow> commits w {} (complete_work u now) w' \<Longrightarrow> manager_step k w w'"
| idle_ended: "u \<in> held w \<Longrightarrow> commits w {} (finish_idle k u now) w' \<Longrightarrow> manager_step k w w'"
| destroyed: "u \<in> held w \<Longrightarrow> commits w {b} (finish_destroyed k b u now) w' \<Longrightarrow> manager_step k w w'"
| expired: "u \<in> held w \<Longrightarrow> commits w {b} (finish_disposal b u now) w' \<Longrightarrow> manager_step k w w'"
| saved_recovery: "x \<in> seen w \<Longrightarrow> u \<in> held w \<Longrightarrow> same_names (cw_targets u) ts \<Longrightarrow>
    commits w {} (save_recovery_targets x u ts) w' \<Longrightarrow> manager_step k w w'"
| recovery_failed: "x \<in> seen w \<Longrightarrow> commits w {} (fail_recovery x now) w' \<Longrightarrow> manager_step k w w'"
| recovered: "x \<in> seen w \<Longrightarrow> set us \<subseteq> {u \<in> held w. cw_session u = Some (ss_session x) \<and> cw_kind u = WRecovery} \<Longrightarrow>
    commits w {v} (finish_recovery k v owner x us now now') w' \<Longrightarrow> manager_step k w w'"
| pairs_recovered: "x \<in> seen w \<Longrightarrow>
    set us \<subseteq> {u \<in> held w. cw_session u = Some (ss_session x) \<and> cw_kind u = WRecovery} \<Longrightarrow>
    commits w {v} (finish_paired_recovery k paired v owner x us limit now) w' \<Longrightarrow> manager_step k w w'"
| sealed: "u \<in> held w \<Longrightarrow> x \<in> seen w \<Longrightarrow> claim = None \<or> claim = Some (x, limit) \<Longrightarrow>
    commits w {} (seal_pair_cleanup k u now claim) w' \<Longrightarrow> manager_step k w w'"
| fenced: "u \<in> held w \<Longrightarrow> x \<in> seen w \<Longrightarrow> claim = None \<or> claim = Some (x, limit) \<Longrightarrow>
    commits w {} (\<lambda>d. bindE (owned_pair_cleanup k u now claim d) (\<lambda>u'. fence_pair_creators k u' d)) w' \<Longrightarrow> manager_step k w w'"
| captured: "u \<in> held w \<Longrightarrow> x \<in> seen w \<Longrightarrow> claim = None \<or> claim = Some (x, limit) \<Longrightarrow>
    m \<in> {record_pair_control k u key uid now claim, record_pair_compute k u key uid now claim,
          record_clone k u key uid now claim, record_ipc_resource k u key uid now claim,
          record_relay_custody k u uid now claim, record_relay_input k u key uid now claim,
          record_egress_state k u key uid now claim, record_pair_release k u family key ev now claim,
          record_state_release k u ev now claim} \<Longrightarrow>
    commits w {} m w' \<Longrightarrow> manager_step k w w'"
| begun: "x \<in> seen w \<Longrightarrow> commits w {g} (begin_pair k g x owner namespace golden resume) w' \<Longrightarrow> manager_step k w w'"
| bound: "x \<in> seen w \<Longrightarrow>
    m \<in> {bind_control k x owner g key uid, bind_compute k x owner g key uid, bind_relay_keys k x owner g uid,
          bind_relay_input k x owner g key uid} \<Longrightarrow> commits w {} m w' \<Longrightarrow> manager_step k w w'"
| bound_object: "x \<in> seen w \<Longrightarrow> m \<in> {bind_clone k x owner g key uid, bind_ipc k x owner g key uid} \<Longrightarrow>
    commits w {} m w' \<Longrightarrow> manager_step k w w'"
| reserved: "x \<in> seen w \<Longrightarrow>
    m \<in> {dispatch_control k x owner g key, dispatch_compute k x owner g key, reserve_compute k x owner g key p,
          reserve_relay_keys k x owner g keys, reserve_relay_input k x owner g key ip,
          reserve_clone k x owner g key vp, reserve_ipc k x owner g key pp} \<Longrightarrow>
    commits w {} m w' \<Longrightarrow> manager_step k w w'"
| settled: "i \<in> copies w \<Longrightarrow>
    m \<in> {settle_control k i key, settle_compute k i key, settle_relay_keys k i, settle_relay_input k i key,
          settle_clone k i key, settle_ipc k i key} \<Longrightarrow> commits w {} m w' \<Longrightarrow> manager_step k w w'"
| released: "x \<in> seen w \<Longrightarrow> set statuses \<subseteq> {SCreating, SReady} \<Longrightarrow>
    m \<in> {record_clone_release k statuses x owner g key ev, record_ipc_release k statuses x owner g key ev} \<Longrightarrow>
    commits w {} m w' \<Longrightarrow> manager_step k w w'"
| state_reserved: "x \<in> seen w \<Longrightarrow> commits w {n} (reserve_state k digest n secret x owner g bytes) w' \<Longrightarrow> manager_step k w w'"
| state_changed: "x \<in> seen w \<Longrightarrow> m \<in> {bind_state k x owner g n key uid, record_volume_release k x owner g n ev} \<Longrightarrow>
    commits w {} m w' \<Longrightarrow> manager_step k w w'"
| volume_reserved: "x \<in> seen w \<Longrightarrow> commits w {} (reserve_state_volume k x owner g n) w' \<Longrightarrow> manager_step k w w'"
| state_settled: "s \<in> state_copies w \<Longrightarrow> commits w {} (settle_state s key) w' \<Longrightarrow> manager_step k w w'"

end
