(* ===== verification/Session_Facts.thy ===== *)
theory Session_Facts
  imports Manager_Steps
begin

text \<open>
  What holds of the sessions, their disks and their works in every state of the sandbox manager. The
  statement is local: a transaction touches the rows of one session, and what is said of a session only
  looks at its row, its disks and its works.
\<close>

section \<open>The rows of one session\<close>

definition disks :: "manager_db \<Rightarrow> nat \<Rightarrow> session_pvc set" where
  "disks d s = {p \<in> set (pvcs d). sp_session p = s}"

definition claims :: "manager_db \<Rightarrow> nat \<Rightarrow> cleanup_work set" where
  "claims d s = {w \<in> set (works d). cw_session w = Some s}"

definition live_disk :: "session_status \<Rightarrow> pvc_state \<Rightarrow> bool" where
  "live_disk x v \<longleftrightarrow>
     (case x of
        SCreating \<Rightarrow> v = VAttaching | SReady \<Rightarrow> v = VAttached | SShuttingDown \<Rightarrow> v = VDetaching
      | SStopped \<Rightarrow> v = VDetached \<or> v = VDestroying | SService \<Rightarrow> v = VDetached | SFailed \<Rightarrow> v = VFailed
      | _ \<Rightarrow> False)"

definition disk_of :: "sandbox_session \<Rightarrow> session_pvc set \<Rightarrow> session_pvc \<Rightarrow> bool" where
  "disk_of r ps p \<longleftrightarrow>
     p \<in> ps \<and> ss_pvc r = Some (sp_id p) \<and> sp_sandbox p = ss_sandbox r \<and> sp_uid p = ss_pvc_uid r \<and>
     live_disk (ss_status r) (sp_state p)"

definition disks_ok :: "sandbox_session \<Rightarrow> session_pvc set \<Rightarrow> bool" where
  "disks_ok r ps \<longleftrightarrow>
     (case ss_pvc r of
        None \<Rightarrow> ss_pvc_uid r = None \<and> ss_status r \<notin> {SCreating, SReady, SShuttingDown}
      | Some v \<Rightarrow> \<exists>p. disk_of r ps p) \<and>
     (\<forall>p \<in> ps. ss_pvc r \<noteq> Some (sp_id p) \<longrightarrow> sp_state p = VFailed)"

definition in_force :: "sandbox_session \<Rightarrow> session_pvc set \<Rightarrow> cleanup_work \<Rightarrow> bool" where
  "in_force r ps w \<longleftrightarrow>
     cw_sandbox w = ss_sandbox r \<and> work_status (cw_kind w) = Some (ss_status r) \<and> cw_changed w = ss_changed r \<and>
     cw_pvc w = ss_pvc r \<and>
     (case ss_pvc r of
        None \<Rightarrow> cw_kind w = WService
      | Some v \<Rightarrow> \<exists>p \<in> ps. sp_id p = v \<and> cw_pvc_changed w = Some (sp_changed p) \<and> sp_state p = work_disk (cw_kind w))"

definition winding_down :: "sandbox_session \<Rightarrow> session_pvc set \<Rightarrow> bool" where
  "winding_down r ps \<longleftrightarrow>
     ss_status r \<in> {SShuttingDown, SService} \<or>
     ss_status r = SStopped \<and> (\<exists>p \<in> ps. ss_pvc r = Some (sp_id p) \<and> sp_state p = VDestroying)"

definition works_ok :: "sandbox_session \<Rightarrow> session_pvc set \<Rightarrow> cleanup_work set \<Rightarrow> bool" where
  "works_ok r ps ws \<longleftrightarrow>
     (\<forall>w \<in> ws. cw_kind w \<noteq> WOrphan \<and> cw_changed w \<le> ss_changed r \<and> (cw_kind w \<noteq> WRecovery \<longrightarrow> in_force r ps w)) \<and>
     (\<forall>w \<in> ws. \<forall>v \<in> ws. cw_kind w \<noteq> WRecovery \<longrightarrow> cw_kind v \<noteq> WRecovery \<longrightarrow> cw_id w = cw_id v) \<and>
     (winding_down r ps \<longrightarrow> (\<exists>w \<in> ws. cw_kind w \<noteq> WRecovery))"

definition local_ok :: "sandbox_session option \<Rightarrow> session_pvc set \<Rightarrow> cleanup_work set \<Rightarrow> bool" where
  "local_ok row ps ws \<longleftrightarrow>
     (case row of None \<Rightarrow> ps = {} \<and> ws = {} | Some r \<Rightarrow> disks_ok r ps \<and> works_ok r ps ws)"

definition keys_ok_db :: "manager_db \<Rightarrow> bool" where
  "keys_ok_db d \<longleftrightarrow>
     distinct (map ss_session (sessions d)) \<and>
     distinct (map sp_id (pvcs d)) \<and> distinct (map cw_id (works d))"

definition session_inv :: "manager_db \<Rightarrow> bool" where
  "session_inv d \<longleftrightarrow>
     keys_ok_db d \<and> (\<forall>s. local_ok (session_row d s) (disks d s) (claims d s)) \<and>
     (\<forall>w \<in> set (works d). cw_session w = None \<longrightarrow> cw_kind w = WOrphan) \<and>
     (\<forall>i \<in> set (intents d). session_row d (pl_session i) \<noteq> None)"

section \<open>How the parts change\<close>

named_theorems view_simps \<open>what a change of the database does to the rows of a session\<close>

lemma set_put_eq: "key r \<in> key ` set rs \<Longrightarrow> set (put key r rs) = insert r {x \<in> set rs. key x \<noteq> key r}"
  by (auto simp: put_def)

lemma pick_in: "pick key i rs = Some r \<Longrightarrow> i \<in> key ` set rs"
  by (auto dest: pick_Some)

lemma put_session_view [view_simps]:
  "session_row (put_session r d) s = (if s = ss_session r \<and> session_row d s \<noteq> None then Some r else session_row d s)"
  "disks (put_session r d) s = disks d s" "claims (put_session r d) s = claims d s"
  "intents (put_session r d) = intents d" "works (put_session r d) = works d" "pvcs (put_session r d) = pvcs d"
  by (simp_all add: put_session_def pick_put disks_def claims_def)

lemma put_pvc_view [view_simps]:
  "session_row (put_pvc p d) s = session_row d s" "claims (put_pvc p d) s = claims d s"
  "intents (put_pvc p d) = intents d" "works (put_pvc p d) = works d" "sessions (put_pvc p d) = sessions d"
  by (simp_all add: put_pvc_def claims_def)

lemma disks_put_pvc [view_simps]:
  assumes "distinct (map sp_id (pvcs d))" "q \<in> disks d (sp_session p)" "sp_id q = sp_id p"
  shows "disks (put_pvc p d) s = (if s = sp_session p then insert p {x \<in> disks d s. sp_id x \<noteq> sp_id p} else disks d s)"
proof -
  have q: "q \<in> set (pvcs d)" "sp_session q = sp_session p" using assms(2) by (auto simp: disks_def)
  have "x = q" if "x \<in> set (pvcs d)" "sp_id x = sp_id p" for x
    using that q(1) assms(1,3) by (simp add: distinct_map inj_on_def)
  moreover have "set (pvcs (put_pvc p d)) = insert p {x \<in> set (pvcs d). sp_id x \<noteq> sp_id p}"
    using set_put_eq [OF imageI [OF q(1), of sp_id, unfolded assms(3)]] by (simp add: put_pvc_def)
  ultimately show ?thesis using q(2) by (auto simp: disks_def)
qed

lemma drop_view [view_simps]:
  "session_row (drop_pvc v d) s = session_row d s" "claims (drop_pvc v d) s = claims d s"
  "intents (drop_pvc v d) = intents d" "works (drop_pvc v d) = works d" "sessions (drop_pvc v d) = sessions d"
  "disks (drop_pvc v d) s = {p \<in> disks d s. sp_id p \<noteq> v}"
  "session_row (drop_work i d) s = session_row d s" "disks (drop_work i d) s = disks d s"
  "intents (drop_work i d) = intents d" "pvcs (drop_work i d) = pvcs d" "sessions (drop_work i d) = sessions d"
  "claims (drop_work i d) s = {w \<in> claims d s. cw_id w \<noteq> i}"
  by (auto simp: drop_pvc_def drop_work_def disks_def claims_def)

lemma keys_change [view_simps]:
  "keys_ok_db (put_pvc p d) = keys_ok_db d" "keys_ok_db (put_work w d) = keys_ok_db d"
  "keys_ok_db (put_session r d) = keys_ok_db d"
  "keys_ok_db d \<Longrightarrow> keys_ok_db (drop_pvc v d)" "keys_ok_db d \<Longrightarrow> keys_ok_db (drop_work i d)"
  by (simp_all add: keys_ok_db_def put_session_def put_pvc_def put_work_def drop_pvc_def drop_work_def)

lemma claims_put_work [view_simps]:
  assumes "distinct (map cw_id (works d))" "v \<in> set (works d)" "cw_id v = cw_id w" "cw_session v = cw_session w"
  shows "claims (put_work w d) s
    = (if cw_session w = Some s then insert w {x \<in> claims d s. cw_id x \<noteq> cw_id w} else claims d s)"
proof -
  have "x = v" if "x \<in> set (works d)" "cw_id x = cw_id w" for x
    using that assms by (simp add: distinct_map inj_on_def)
  moreover have "set (works (put_work w d)) = insert w {x \<in> set (works d). cw_id x \<noteq> cw_id w}"
    using set_put_eq [OF imageI [OF assms(2), of cw_id, unfolded assms(3)]] by (simp add: put_work_def)
  ultimately show ?thesis using assms(4) by (auto simp: claims_def)
qed

lemma put_work_view [view_simps]:
  "session_row (put_work w d) s = session_row d s" "disks (put_work w d) s = disks d s"
  "intents (put_work w d) = intents d" "pvcs (put_work w d) = pvcs d" "sessions (put_work w d) = sessions d"
  by (simp_all add: put_work_def disks_def)

lemma get_pvc_view [view_simps]:
  "get_pvc (put_session r d) v = get_pvc d v" "get_pvc (put_work w d) v = get_pvc d v"
  "get_pvc (drop_work i d) v = get_pvc d v"
  "get_pvc (put_pvc p d) v = (if v = sp_id p \<and> get_pvc d v \<noteq> None then Some p else get_pvc d v)"
  "get_pvc (drop_pvc u d) v = (if v = u then None else get_pvc d v)"
  by (simp_all add: put_session_def put_work_def drop_work_def put_pvc_def drop_pvc_def pick_put pick_cut)

lemma disk_found:
  assumes "keys_ok_db d"
  shows "p \<in> disks d s \<Longrightarrow> get_pvc d (sp_id p) = Some p"
    and "get_pvc d v = Some p \<Longrightarrow> p \<in> disks d (sp_session p) \<and> sp_id p = v"
  using assms pick_unique [of sp_id "pvcs d" p] pick_Some [of sp_id v "pvcs d" p]
  by (auto simp: keys_ok_db_def disks_def)

section \<open>What a step may do to a session\<close>

text \<open>The life of a sandbox: the status of its session with its disk.\<close>

type_synonym phase = "session_status \<times> (nat \<times> pvc_state) option"

definition disk_state :: "manager_db \<Rightarrow> sandbox_session \<Rightarrow> (nat \<times> pvc_state) option" where
  "disk_state d r =
     (case ss_pvc r of None \<Rightarrow> None | Some v \<Rightarrow> map_option (\<lambda>p. (sp_id p, sp_state p)) (get_pvc d v))"

definition lifecycle :: "manager_db \<Rightarrow> nat \<Rightarrow> phase option" where
  "lifecycle d s = map_option (\<lambda>r. (ss_status r, disk_state d r)) (session_row d s)"

inductive lifecycle_move :: "phase option \<Rightarrow> phase option \<Rightarrow> bool" where
  move_insert: "lifecycle_move None (Some (SPending, None))"
| move_claim: "x \<in> {SPending, SStopped} \<Longrightarrow> lifecycle_move (Some (x, None)) (Some (SCreating, Some (v, VAttaching)))"
| move_resume: "lifecycle_move (Some (SStopped, Some (v, VDetached))) (Some (SCreating, Some (v, VAttaching)))"
| move_ready: "lifecycle_move (Some (SCreating, Some (v, VAttaching))) (Some (SReady, Some (v, VAttached)))"
| move_fail: "lifecycle_move (Some (SCreating, Some (v, VAttaching))) (Some (SFailed, Some (v, VFailed)))"
| move_idle: "lifecycle_move (Some (SReady, Some (v, VAttached))) (Some (SShuttingDown, Some (v, VDetaching)))"
| move_retain: "lifecycle_move (Some (SShuttingDown, Some (v, VDetaching))) (Some (SStopped, Some (v, VDetached)))"
| move_expire: "lifecycle_move (Some (SStopped, Some (v, VDetached))) (Some (SStopped, Some (v, VDestroying)))"
| move_destroyed: "lifecycle_move (Some (SStopped, Some (v, VDestroying))) (Some (SStopped, None))"
| move_service: "p = None \<or> p = Some (v, VDetached) \<Longrightarrow> lifecycle_move (Some (SStopped, p)) (Some (SService, p))"
| move_served: "lifecycle_move (Some (SService, p)) (Some (SStopped, p))"
| move_emptied: "lifecycle_move (Some (SService, p)) (Some (SStopped, None))"
| move_recover: "x \<notin> {SShuttingDown, SStopped} \<Longrightarrow> lifecycle_move (Some (x, p)) (Some (SRecovering, None))"
| move_rescue: "lifecycle_move (Some (SStopped, Some (v, VDestroying))) (Some (SRecovering, None))"
| move_give_up: "lifecycle_move (Some (SRecovering, None)) (Some (SFailed, None))"
| move_rebuild: "lifecycle_move (Some (SRecovering, None)) (Some (SCreating, Some (v, VAttaching)))"

text \<open>A row that keeps its instant keeps its status, its sandbox and its owner.\<close>

definition row_evolves :: "sandbox_session \<Rightarrow> sandbox_session \<Rightarrow> bool" where
  "row_evolves r r' \<longleftrightarrow>
     ss_session r' = ss_session r \<and> ss_project r' = ss_project r \<and>
     (ss_changed r < ss_changed r' \<or>
      ss_changed r' = ss_changed r \<and> ss_status r' = ss_status r \<and> ss_sandbox r' = ss_sandbox r \<and>
      ss_owner r' = ss_owner r \<and> (ss_status r \<noteq> SStopped \<longrightarrow> ss_pvc r' = ss_pvc r))"

lemma row_evolves_refl [simp]: "row_evolves r r"
  by (simp add: row_evolves_def)

lemma row_evolves_trans: "row_evolves r s \<Longrightarrow> row_evolves s t \<Longrightarrow> row_evolves r t"
  by (auto simp: row_evolves_def)

text \<open>A work keeps its identity; its kind changes only when a recovery carries it on.\<close>

definition same_identity :: "cleanup_work \<Rightarrow> cleanup_work \<Rightarrow> bool" where
  "same_identity w v \<longleftrightarrow>
     cw_id v = cw_id w \<and> cw_session v = cw_session w \<and> cw_sandbox v = cw_sandbox w \<and> cw_pvc v = cw_pvc w \<and>
     cw_changed v = cw_changed w \<and> cw_pvc_changed v = cw_pvc_changed w"

lemma same_identity_refl [simp]: "same_identity w w"
  by (simp add: same_identity_def)

definition work_evolves :: "manager_db \<Rightarrow> cleanup_work \<Rightarrow> cleanup_work \<Rightarrow> bool" where
  "work_evolves d w v \<longleftrightarrow>
     same_identity w v \<and>
     (cw_kind v = cw_kind w \<or>
      cw_kind v = WRecovery \<and>
      (case cw_session w of
         None \<Rightarrow> False
       | Some s \<Rightarrow> (case session_row d s of None \<Rightarrow> False | Some r \<Rightarrow> cw_changed w < ss_changed r)))"

lemma work_evolves_refl [simp]: "work_evolves d w w"
  by (simp add: work_evolves_def)

definition row_ids :: "manager_db \<Rightarrow> nat set" where
  "row_ids d = sp_id ` set (pvcs d) \<union> cw_id ` set (works d)"

lemma row_ids_view [view_simps]:
  "row_ids (put_session r d) = row_ids d" "row_ids (put_pvc p d) = row_ids d" "row_ids (put_work w d) = row_ids d"
  "row_ids (drop_pvc v d) \<subseteq> row_ids d" "row_ids (drop_work i d) \<subseteq> row_ids d"
proof -
  have key: "key ` set (put key r rs) = key ` set rs" for key :: "'r \<Rightarrow> nat" and r rs
    by (metis keys_put set_map)
  show "row_ids (put_session r d) = row_ids d" "row_ids (put_pvc p d) = row_ids d"
    "row_ids (put_work w d) = row_ids d" by (simp_all add: row_ids_def put_session_def put_pvc_def put_work_def key)
  show "row_ids (drop_pvc v d) \<subseteq> row_ids d" "row_ids (drop_work i d) \<subseteq> row_ids d"
    by (auto simp: row_ids_def drop_pvc_def drop_work_def)
qed

definition step_ok :: "nat set \<Rightarrow> manager_db \<Rightarrow> manager_db \<Rightarrow> bool" where
  "step_ok new d d' \<longleftrightarrow>
     session_inv d' \<and> row_ids d' \<subseteq> row_ids d \<union> new \<and>
     (\<forall>s r. session_row d s = Some r \<longrightarrow> (\<exists>r'. session_row d' s = Some r' \<and> row_evolves r r')) \<and>
     (\<forall>v \<in> set (works d'). cw_id v \<in> new \<or> (\<exists>w \<in> set (works d). work_evolves d' w v)) \<and>
     (\<forall>s. lifecycle_move\<^sup>=\<^sup>= (lifecycle d s) (lifecycle d' s))"

lemma session_invD:
  assumes "session_inv d"
  shows "keys_ok_db d" "local_ok (session_row d s) (disks d s) (claims d s)"
    and "w \<in> set (works d) \<Longrightarrow> cw_session w = None \<Longrightarrow> cw_kind w = WOrphan"
    and "i \<in> set (intents d) \<Longrightarrow> session_row d (pl_session i) \<noteq> None"
  using assms unfolding session_inv_def by blast+

lemma lifecycle_same:
  assumes inv: "session_inv d" and keys: "keys_ok_db d'"
    and eq: "session_row d' t = session_row d t" "disks d' t = disks d t"
  shows "lifecycle d' t = lifecycle d t"
proof (cases "session_row d t")
  case (Some r)
  have "disk_state d' r = disk_state d r"
  proof (cases "ss_pvc r")
    case (Some v)
    with \<open>session_row d t = Some r\<close> session_invD(2) [OF inv, of t] obtain p
      where p: "p \<in> disks d t" "sp_id p = v"
      by (auto simp: local_ok_def disks_ok_def disk_of_def)
    then have "p \<in> disks d' t" using eq(2) by simp
    with p have "get_pvc d v = Some p" "get_pvc d' v = Some p"
      using disk_found(1) [OF session_invD(1) [OF inv] p(1)] disk_found(1) [OF keys] by auto
    then show ?thesis by (simp add: disk_state_def Some)
  qed (simp add: disk_state_def)
  with Some eq show ?thesis by (simp add: lifecycle_def)
qed (simp add: lifecycle_def eq)

lemma claims_iff: "w \<in> claims d s \<longleftrightarrow> w \<in> set (works d) \<and> cw_session w = Some s"
  by (auto simp: claims_def)

text \<open>The local rule: what is not of session \<open>s\<close> stays as it is.\<close>

lemma step_okI:
  assumes inv: "session_inv d" and keys: "keys_ok_db d'"
    and others: "\<And>t. t \<noteq> s \<Longrightarrow>
        session_row d' t = session_row d t \<and> disks d' t = disks d t \<and> claims d' t = claims d t"
    and here: "local_ok (session_row d' s) (disks d' s) (claims d' s)"
    and row: "\<And>r. session_row d s = Some r \<Longrightarrow> \<exists>r'. session_row d' s = Some r' \<and> row_evolves r r'"
    and works: "\<And>v. v \<in> claims d' s \<Longrightarrow> cw_id v \<in> new \<or> (\<exists>w \<in> claims d s. work_evolves d' w v)"
    and orphans: "\<And>v. v \<in> set (works d') \<Longrightarrow> cw_session v = None \<Longrightarrow>
        cw_kind v = WOrphan \<and> (cw_id v \<in> new \<or> (\<exists>w \<in> set (works d). work_evolves d' w v))"
    and ints: "pl_session ` set (intents d') \<subseteq> pl_session ` set (intents d) \<union> {i. session_row d' i \<noteq> None}"
    and ids: "row_ids d' \<subseteq> row_ids d \<union> new"
    and move: "lifecycle_move\<^sup>=\<^sup>= (lifecycle d s) (lifecycle d' s)"
  shows "step_ok new d d'"
  unfolding step_ok_def
proof (intro conjI allI impI ballI ids)
  have kept: "session_row d' t \<noteq> None" if "session_row d t \<noteq> None" for t
    using that row others [of t] by (cases "t = s") auto
  show "session_inv d'"
    unfolding session_inv_def
  proof (intro conjI allI ballI impI keys)
    fix t show "local_ok (session_row d' t) (disks d' t) (claims d' t)"
      using session_invD(2) [OF inv, of t] here others [of t] by (cases "t = s") auto
  next
    fix i assume "i \<in> set (intents d')"
    then have "pl_session i \<in> pl_session ` set (intents d) \<union> {i. session_row d' i \<noteq> None}" using ints by blast
    then show "session_row d' (pl_session i) \<noteq> None" using session_invD(4) [OF inv] kept by fastforce
  qed (use orphans in blast)
next
  fix t r assume "session_row d t = Some r"
  then show "\<exists>r'. session_row d' t = Some r' \<and> row_evolves r r'" using row others [of t] by (cases "t = s") auto
next
  fix v assume v: "v \<in> set (works d')"
  show "cw_id v \<in> new \<or> (\<exists>w \<in> set (works d). work_evolves d' w v)"
  proof (cases "cw_session v")
    case None
    with orphans [OF v] show ?thesis by blast
  next
    case (Some t)
    show ?thesis
    proof (cases "t = s")
      case True
      with v Some works [of v] show ?thesis by (auto simp: claims_iff)
    next
      case False
      with v Some others [of t] have "v \<in> set (works d)" by (auto simp: claims_iff set_eq_iff)
      then show ?thesis using work_evolves_refl by blast
    qed
  qed
next
  fix t show "lifecycle_move\<^sup>=\<^sup>= (lifecycle d t) (lifecycle d' t)"
    using move lifecycle_same [OF inv keys, of t] others [of t] by (cases "t = s") auto
qed

section \<open>Disks and works of one session\<close>

lemma in_force_winding: "in_force r ps w \<Longrightarrow> winding_down r ps"
  by (cases "cw_kind w") (auto simp: in_force_def winding_down_def work_status_def work_disk_def split: option.splits)

lemma quiet_claims:
  "works_ok r ps ws \<Longrightarrow> \<not> winding_down r ps \<Longrightarrow> w \<in> ws \<Longrightarrow> cw_kind w = WRecovery \<and> cw_changed w \<le> ss_changed r"
  unfolding works_ok_def using in_force_winding by blast

lemma works_quiet:
  "(\<And>w. w \<in> ws \<Longrightarrow> cw_kind w = WRecovery \<and> cw_changed w \<le> ss_changed r) \<Longrightarrow> \<not> winding_down r ps \<Longrightarrow> works_ok r ps ws"
  by (auto simp: works_ok_def)

lemma works_claimed:
  assumes "\<And>w. w \<in> ws \<Longrightarrow> cw_kind w = WRecovery \<and> cw_changed w \<le> ss_changed r" "in_force r ps v"
  shows "works_ok r ps (insert v ws)"
proof -
  have "cw_kind v \<noteq> WOrphan" "cw_kind v \<noteq> WRecovery" "cw_changed v = ss_changed r"
    using assms(2) by (auto simp: in_force_def work_status_def)
  with assms show ?thesis by (auto simp: works_ok_def)
qed

text \<open>The one work that is in force goes: only recoveries are left.\<close>

lemma works_ended:
  assumes "works_ok r ps ws" "v \<in> ws" "cw_kind v \<noteq> WRecovery" "w \<in> {x \<in> ws. cw_id x \<noteq> cw_id v}"
  shows "cw_kind w = WRecovery \<and> cw_changed w \<le> ss_changed r"
  using assms unfolding works_ok_def by blast

lemma disks_moved:
  assumes "disks_ok r ps" "ss_pvc r = Some (sp_id p')" "ss_pvc r' = ss_pvc r"
    and "sp_sandbox p' = ss_sandbox r'" "sp_uid p' = ss_pvc_uid r'" "live_disk (ss_status r') (sp_state p')"
  shows "disks_ok r' (insert p' {x \<in> ps. sp_id x \<noteq> sp_id p'})"
proof -
  have "disk_of r' (insert p' {x \<in> ps. sp_id x \<noteq> sp_id p'}) p'" using assms(2-) by (simp add: disk_of_def)
  then show ?thesis using assms(1-3) by (auto simp: disks_ok_def)
qed

lemma disks_new:
  assumes "disks_ok r ps" "ss_pvc r = None" "ss_pvc r' = Some (sp_id p)" "sp_id p \<notin> sp_id ` ps"
    and "sp_sandbox p = ss_sandbox r'" "sp_uid p = ss_pvc_uid r'" "live_disk (ss_status r') (sp_state p)"
  shows "disks_ok r' (insert p ps)"
proof -
  have "disk_of r' (insert p ps) p" using assms(3-) by (simp add: disk_of_def)
  then show ?thesis using assms(1-4) by (auto simp: disks_ok_def)
qed

lemma disks_gone:
  assumes "disks_ok r ps" "ss_pvc r = Some v" "ss_pvc r' = None" "ss_pvc_uid r' = None"
    and "ss_status r' \<notin> {SCreating, SReady, SShuttingDown}"
  shows "disks_ok r' {x \<in> ps. sp_id x \<noteq> v}"
  using assms by (auto simp: disks_ok_def)

lemma disks_none:
  assumes "disks_ok r ps" "ss_pvc r = None" "ss_pvc r' = None" "ss_pvc_uid r' = None"
    and "ss_status r' \<notin> {SCreating, SReady, SShuttingDown}"
  shows "disks_ok r' ps"
  using assms by (auto simp: disks_ok_def)

lemma disks_failed:
  assumes "disks_ok r ps" "ss_pvc r = Some (sp_id p')" "ss_pvc r' = None" "ss_pvc_uid r' = None"
    and "ss_status r' \<notin> {SCreating, SReady, SShuttingDown}" "sp_state p' = VFailed"
  shows "disks_ok r' (insert p' {x \<in> ps. sp_id x \<noteq> sp_id p'})"
  using assms by (auto simp: disks_ok_def)

lemma session_rows:
  assumes "session_inv d" "session_row d s = Some r"
  shows "disks_ok r (disks d s)" "works_ok r (disks d s) (claims d s)" "ss_session r = s"
  using session_invD(2) [OF assms(1), of s] assms(2) pick_key [OF assms(2)] by (auto simp: local_ok_def)

lemma current_disk:
  assumes "session_inv d" "session_row d s = Some r" "ss_pvc r = Some v"
  obtains p where "get_pvc d v = Some p" "p \<in> disks d s" "sp_id p = v" "sp_session p = s"
    "sp_sandbox p = ss_sandbox r" "sp_uid p = ss_pvc_uid r" "live_disk (ss_status r) (sp_state p)"
    "disk_state d r = Some (v, sp_state p)"
proof -
  obtain p where "disk_of r (disks d s) p"
    using session_rows(1) [OF assms(1,2)] assms(3) by (auto simp: disks_ok_def)
  then have p: "p \<in> disks d s" "sp_sandbox p = ss_sandbox r" "sp_uid p = ss_pvc_uid r"
      "live_disk (ss_status r) (sp_state p)" and v: "sp_id p = v"
    using assms(3) by (simp_all add: disk_of_def)
  from disk_found(1) [OF session_invD(1) [OF assms(1)] p(1)] have get: "get_pvc d v = Some p" unfolding v .
  then have "disk_state d r = Some (v, sp_state p)" by (simp only: disk_state_def assms(3) option.case option.map v)
  moreover have "sp_session p = s" using p(1) by (simp add: disks_def)
  ultimately show thesis using that [OF get p(1) v] p(2-4) by blast
qed

lemma same_disk:
  assumes "session_inv d" "p \<in> disks d s" "q \<in> disks d s" "sp_id p = sp_id q"
  shows "p = q"
  using disk_found(1) [OF session_invD(1) [OF assms(1)] assms(2)]
    disk_found(1) [OF session_invD(1) [OF assms(1)] assms(3)] unfolding assms(4) by simp

section \<open>Quiet steps\<close>

text \<open>What the statements about a session look at in its row, its disks and its works.\<close>

definition row_key :: "sandbox_session \<Rightarrow> nat \<times> nat \<times> nat \<times> session_status \<times> nat option \<times> string option \<times> nat option \<times> int" where
  "row_key r =
     (ss_session r, ss_sandbox r, ss_project r, ss_status r, ss_pvc r, ss_pvc_uid r, ss_owner r, ss_changed r)"

definition pvc_key :: "session_pvc \<Rightarrow> nat \<times> nat \<times> nat \<times> string option \<times> pvc_state \<times> int" where
  "pvc_key p = (sp_id p, sp_session p, sp_sandbox p, sp_uid p, sp_state p, sp_changed p)"

definition work_key :: "cleanup_work \<Rightarrow> nat \<times> nat option \<times> nat \<times> nat option \<times> work_kind \<times> int \<times> int option" where
  "work_key w = (cw_id w, cw_session w, cw_sandbox w, cw_pvc w, cw_kind w, cw_changed w, cw_pvc_changed w)"

definition quiet :: "manager_db \<Rightarrow> manager_db \<Rightarrow> bool" where
  "quiet d d' \<longleftrightarrow>
     map row_key (sessions d') = map row_key (sessions d) \<and> map pvc_key (pvcs d') = map pvc_key (pvcs d) \<and>
     map work_key (works d') = map work_key (works d) \<and>
     pl_session ` set (intents d') \<subseteq> pl_session ` set (intents d) \<union> {i. session_row d i \<noteq> None}"

lemma pick_map:
  assumes "map g rs' = map g rs" "\<And>x y. g x = g y \<Longrightarrow> key x = key y"
  shows "map_option g (pick key i rs') = map_option g (pick key i rs)"
  using assms(1)
proof (induction rs arbitrary: rs')
  case (Cons r rs)
  then obtain r' qs where eq: "rs' = r' # qs" "g r' = g r" "map g qs = map g rs" by (cases rs') auto
  from Cons.IH [OF eq(3)] assms(2) [OF eq(2)] eq(1,2) show ?case by auto
qed simp

lemma image_twin:
  assumes "g ` A = g ` B" "x \<in> A"
  obtains y where "y \<in> B" "g y = g x"
proof -
  from assms have "g x \<in> g ` B" by blast
  then show thesis by (auto intro: that)
qed

lemma map_image_filter:
  assumes "map g rs' = map g rs" "\<And>x y. g x = g y \<Longrightarrow> P x = P y"
  shows "g ` {x \<in> set rs'. P x} = g ` {x \<in> set rs. P x}"
proof -
  have "g ` {x \<in> set qs. P x} \<subseteq> g ` {x \<in> set ps. P x}" if "map g qs = map g ps" for qs ps
  proof
    fix y assume "y \<in> g ` {x \<in> set qs. P x}"
    then obtain x where x: "x \<in> set qs" "P x" "y = g x" by blast
    then have "y \<in> set (map g ps)" unfolding that [symmetric] by simp
    then obtain z where z: "z \<in> set ps" "y = g z" by auto
    then have "P z" using x assms(2) [of x z] by simp
    with z show "y \<in> g ` {x \<in> set ps. P x}" by (intro image_eqI [of y g z]) auto
  qed
  from this [OF assms(1)] this [OF assms(1) [symmetric]] show ?thesis by blast
qed

lemma quiet_views:
  assumes "quiet d d'"
  shows "map_option row_key (session_row d' s) = map_option row_key (session_row d s)"
    and "map_option pvc_key (get_pvc d' v) = map_option pvc_key (get_pvc d v)"
    and "pvc_key ` disks d' s = pvc_key ` disks d s" "work_key ` claims d' s = work_key ` claims d s"
    and "work_key ` set (works d') = work_key ` set (works d)"
    and "keys_ok_db d' = keys_ok_db d" "row_ids d' = row_ids d"
proof -
  note q = assms [unfolded quiet_def]
  show "map_option row_key (session_row d' s) = map_option row_key (session_row d s)"
    using q by (intro pick_map) (auto simp: row_key_def)
  show "map_option pvc_key (get_pvc d' v) = map_option pvc_key (get_pvc d v)"
    using q by (intro pick_map) (auto simp: pvc_key_def)
  show "pvc_key ` disks d' s = pvc_key ` disks d s" unfolding disks_def
    using q by (intro map_image_filter) (auto simp: pvc_key_def)
  show "work_key ` claims d' s = work_key ` claims d s" unfolding claims_def
    using q by (intro map_image_filter) (auto simp: work_key_def)
  have fst_eq: "map (\<lambda>x. fst (g x)) as = map (\<lambda>x. fst (g x)) bs" if "map g as = map g bs"
    for g :: "'r \<Rightarrow> nat \<times> 'k" and as bs
    using arg_cong [OF that, of "map fst"] by (simp add: o_def)
  have ids: "map ss_session (sessions d') = map ss_session (sessions d)" "map sp_id (pvcs d') = map sp_id (pvcs d)"
    "map cw_id (works d') = map cw_id (works d)"
    using fst_eq [of row_key "sessions d'" "sessions d"] fst_eq [of pvc_key "pvcs d'" "pvcs d"]
      fst_eq [of work_key "works d'" "works d"] q by (simp_all add: row_key_def pvc_key_def work_key_def)
  then show "keys_ok_db d' = keys_ok_db d" by (simp add: keys_ok_db_def)
  show "row_ids d' = row_ids d" unfolding row_ids_def using ids by (metis set_map)
  show "work_key ` set (works d') = work_key ` set (works d)" using q by (metis set_map)
qed

lemma image_bex:
  assumes "g ` A = g ` B" "\<And>x y. g x = g y \<Longrightarrow> P x = P y"
  shows "(\<exists>x \<in> A. P x) = (\<exists>x \<in> B. P x)"
proof -
  have "\<exists>x \<in> D. P x" if "g ` C \<subseteq> g ` D" "\<exists>x \<in> C. P x" for C D
  proof -
    from that(2) obtain x where "x \<in> C" "P x" by blast
    with that(1) obtain y where "y \<in> D" "g x = g y" by blast
    with assms(2) [of x y] \<open>P x\<close> show ?thesis by blast
  qed
  from this [of A B] this [of B A] assms(1) show ?thesis by blast
qed

lemma image_ball:
  assumes "g ` A = g ` B" "\<And>x y. g x = g y \<Longrightarrow> P x = P y"
  shows "(\<forall>x \<in> A. P x) = (\<forall>x \<in> B. P x)"
proof -
  have "(\<exists>x \<in> A. \<not> P x) = (\<exists>x \<in> B. \<not> P x)"
    by (rule image_bex [OF assms(1)]) (use assms(2) in blast)
  then show ?thesis by blast
qed

lemma row_key_eq:
  "row_key r' = row_key r \<longleftrightarrow>
     ss_session r' = ss_session r \<and> ss_sandbox r' = ss_sandbox r \<and> ss_project r' = ss_project r \<and>
     ss_status r' = ss_status r \<and> ss_pvc r' = ss_pvc r \<and> ss_pvc_uid r' = ss_pvc_uid r \<and>
     ss_owner r' = ss_owner r \<and> ss_changed r' = ss_changed r"
  by (simp add: row_key_def)

lemma pvc_key_eq:
  "pvc_key p = pvc_key q \<longleftrightarrow>
     sp_id p = sp_id q \<and> sp_session p = sp_session q \<and> sp_sandbox p = sp_sandbox q \<and> sp_uid p = sp_uid q \<and>
     sp_state p = sp_state q \<and> sp_changed p = sp_changed q"
  by (simp add: pvc_key_def)

lemma work_key_eq:
  "work_key w = work_key v \<longleftrightarrow>
     cw_id w = cw_id v \<and> cw_session w = cw_session v \<and> cw_sandbox w = cw_sandbox v \<and> cw_pvc w = cw_pvc v \<and>
     cw_kind w = cw_kind v \<and> cw_changed w = cw_changed v \<and> cw_pvc_changed w = cw_pvc_changed v"
  by (simp add: work_key_def)

lemmas key_eqs = row_key_eq pvc_key_eq work_key_eq

lemma disks_cong:
  assumes "row_key r' = row_key r" "pvc_key ` ps' = pvc_key ` ps"
  shows "disks_ok r' ps' = disks_ok r ps" "winding_down r' ps' = winding_down r ps"
proof -
  note r = assms(1) [unfolded row_key_eq]
  have "(\<exists>p \<in> ps'. disk_of r' UNIV p) = (\<exists>p \<in> ps. disk_of r UNIV p)"
    using r by (subst image_bex [OF assms(2)]) (auto simp: disk_of_def pvc_key_eq)
  then have "(\<exists>p. disk_of r' ps' p) = (\<exists>p. disk_of r ps p)" by (auto simp: disk_of_def)
  moreover have "(\<forall>p \<in> ps'. ss_pvc r' \<noteq> Some (sp_id p) \<longrightarrow> sp_state p = VFailed)
      = (\<forall>p \<in> ps. ss_pvc r \<noteq> Some (sp_id p) \<longrightarrow> sp_state p = VFailed)"
    using r by (subst image_ball [OF assms(2)]) (auto simp: pvc_key_eq)
  ultimately show "disks_ok r' ps' = disks_ok r ps" using r by (simp add: disks_ok_def split: option.split)
  have "(\<exists>p \<in> ps'. ss_pvc r' = Some (sp_id p) \<and> sp_state p = VDestroying)
      = (\<exists>p \<in> ps. ss_pvc r = Some (sp_id p) \<and> sp_state p = VDestroying)"
    using r by (subst image_bex [OF assms(2)]) (auto simp: pvc_key_eq)
  then show "winding_down r' ps' = winding_down r ps" using r by (simp add: winding_down_def)
qed

lemma in_force_cong:
  assumes "row_key r' = row_key r" "pvc_key ` ps' = pvc_key ` ps" "work_key w' = work_key w"
  shows "in_force r' ps' w' = in_force r ps w"
proof -
  note r = assms(1) [unfolded row_key_eq] and w = assms(3) [unfolded work_key_eq]
  have "(\<exists>p \<in> ps'. sp_id p = v \<and> cw_pvc_changed w = Some (sp_changed p) \<and> sp_state p = work_disk (cw_kind w))
      = (\<exists>p \<in> ps. sp_id p = v \<and> cw_pvc_changed w = Some (sp_changed p) \<and> sp_state p = work_disk (cw_kind w))" for v
    by (subst image_bex [OF assms(2)]) (auto simp: pvc_key_eq)
  with r w show ?thesis by (simp add: in_force_def split: option.split)
qed

lemma works_cong:
  assumes "row_key r' = row_key r" "pvc_key ` ps' = pvc_key ` ps" "work_key ` ws' = work_key ` ws"
  shows "works_ok r' ps' ws' = works_ok r ps ws"
proof -
  have r: "ss_changed r' = ss_changed r" using assms(1) by (simp add: row_key_eq)
  have force: "in_force r' ps' w = in_force r ps w" for w by (rule in_force_cong [OF assms(1,2) refl])
  have kinds: "(\<forall>w \<in> ws'. cw_kind w \<noteq> WOrphan \<and> cw_changed w \<le> ss_changed r \<and> (cw_kind w \<noteq> WRecovery \<longrightarrow> in_force r ps w))
      = (\<forall>w \<in> ws. cw_kind w \<noteq> WOrphan \<and> cw_changed w \<le> ss_changed r \<and> (cw_kind w \<noteq> WRecovery \<longrightarrow> in_force r ps w))"
  proof (rule image_ball [OF assms(3)])
    fix w v :: cleanup_work assume "work_key w = work_key v"
    then show "(cw_kind w \<noteq> WOrphan \<and> cw_changed w \<le> ss_changed r \<and> (cw_kind w \<noteq> WRecovery \<longrightarrow> in_force r ps w))
        = (cw_kind v \<noteq> WOrphan \<and> cw_changed v \<le> ss_changed r \<and> (cw_kind v \<noteq> WRecovery \<longrightarrow> in_force r ps v))"
      using in_force_cong [OF refl refl, of w v r ps] by (simp add: work_key_eq)
  qed
  have single: "(\<forall>w \<in> ws'. \<forall>v \<in> ws'. cw_kind w \<noteq> WRecovery \<longrightarrow> cw_kind v \<noteq> WRecovery \<longrightarrow> cw_id w = cw_id v)
      = (\<forall>w \<in> ws. \<forall>v \<in> ws. cw_kind w \<noteq> WRecovery \<longrightarrow> cw_kind v \<noteq> WRecovery \<longrightarrow> cw_id w = cw_id v)"
  proof -
    have inner: "(\<forall>v \<in> ws'. cw_kind w \<noteq> WRecovery \<longrightarrow> cw_kind v \<noteq> WRecovery \<longrightarrow> cw_id w = cw_id v)
        = (\<forall>v \<in> ws. cw_kind w \<noteq> WRecovery \<longrightarrow> cw_kind v \<noteq> WRecovery \<longrightarrow> cw_id w = cw_id v)" for w
      by (rule image_ball [OF assms(3)]) (auto simp: work_key_eq)
    show ?thesis unfolding inner by (rule image_ball [OF assms(3)]) (simp add: work_key_eq)
  qed
  have some: "(\<exists>w \<in> ws'. cw_kind w \<noteq> WRecovery) = (\<exists>w \<in> ws. cw_kind w \<noteq> WRecovery)"
    by (rule image_bex [OF assms(3)]) (auto simp: work_key_eq)
  show ?thesis unfolding works_ok_def disks_cong(2) [OF assms(1,2)] r force kinds single some ..
qed

lemma quiet_local:
  assumes "quiet d d'"
  shows "local_ok (session_row d' s) (disks d' s) (claims d' s) = local_ok (session_row d s) (disks d s) (claims d s)"
proof (cases "session_row d s")
  case None
  then have "session_row d' s = None" using quiet_views(1) [OF assms, of s] by simp
  moreover have "disks d' s = {} \<longleftrightarrow> disks d s = {}" "claims d' s = {} \<longleftrightarrow> claims d s = {}"
    using quiet_views(3,4) [OF assms, of s] image_is_empty by metis+
  ultimately show ?thesis using None by (simp add: local_ok_def)
next
  case (Some r)
  then obtain r' where r': "session_row d' s = Some r'" "row_key r' = row_key r"
    using quiet_views(1) [OF assms, of s] by auto
  show ?thesis
    using disks_cong(1) [OF r'(2) quiet_views(3) [OF assms]]
      works_cong [OF r'(2) quiet_views(3) [OF assms] quiet_views(4) [OF assms]]
    by (simp add: local_ok_def Some r'(1))
qed

lemma quiet_row:
  assumes "quiet d d'" "session_row d s = Some r"
  obtains r' where "session_row d' s = Some r'" "row_key r' = row_key r"
  using quiet_views(1) [OF assms(1), of s] assms(2) by auto

lemma quiet_lifecycle:
  assumes "quiet d d'"
  shows "lifecycle d' s = lifecycle d s"
proof (cases "session_row d s")
  case None
  with quiet_views(1) [OF assms, of s] show ?thesis by (simp add: lifecycle_def)
next
  case (Some r)
  then obtain r' where r': "session_row d' s = Some r'" "row_key r' = row_key r" by (rule quiet_row [OF assms])
  have "map_option (\<lambda>p. (sp_id p, sp_state p)) (get_pvc d' v) = map_option (\<lambda>p. (sp_id p, sp_state p)) (get_pvc d v)" for v
    using quiet_views(2) [OF assms, of v] by (cases "get_pvc d v"; cases "get_pvc d' v") (auto simp: pvc_key_eq)
  with r' show ?thesis by (simp add: lifecycle_def disk_state_def Some row_key_eq split: option.split)
qed

lemma quiet_sessions: "quiet d d' \<Longrightarrow> session_row d' i = None \<longleftrightarrow> session_row d i = None"
  using quiet_views(1) [of d d' i] by (cases "session_row d i"; cases "session_row d' i") auto

lemma quiet_inv:
  assumes q: "quiet d d'" and inv: "session_inv d"
  shows "session_inv d'"
  unfolding session_inv_def
proof (intro conjI allI ballI impI)
  show "keys_ok_db d'" using session_invD(1) [OF inv] quiet_views(6) [OF q] by simp
  show "local_ok (session_row d' s) (disks d' s) (claims d' s)" for s
    using session_invD(2) [OF inv] quiet_local [OF q] by simp
  show "cw_kind w = WOrphan" if w: "w \<in> set (works d')" and none: "cw_session w = None" for w
  proof -
    obtain v where "v \<in> set (works d)" "work_key v = work_key w"
      by (rule image_twin [OF quiet_views(5) [OF q] w])
    with none session_invD(3) [OF inv, of v] show ?thesis by (simp add: work_key_eq)
  qed
  show "session_row d' (pl_session i) \<noteq> None" if "i \<in> set (intents d')" for i
  proof -
    have "pl_session i \<in> pl_session ` set (intents d) \<union> {i. session_row d i \<noteq> None}"
      using that q unfolding quiet_def by blast
    then show ?thesis using session_invD(4) [OF inv] quiet_sessions [OF q] by auto
  qed
qed

lemma quiet_refl [simp]: "quiet d d"
  by (auto simp: quiet_def)

lemma quiet_trans:
  assumes "quiet d e" "quiet e f"
  shows "quiet d f"
proof -
  have same: "{i. session_row e i \<noteq> None} = {i. session_row d i \<noteq> None}" using quiet_sessions [OF assms(1)] by auto
  show ?thesis
    using assms(1) assms(2) [unfolded quiet_def same] unfolding quiet_def by (intro conjI) (auto simp only:, blast)
qed

text \<open>A step between quiet changes.\<close>

lemma step_okD:
  assumes "step_ok new d d'"
  shows "session_inv d'" "row_ids d' \<subseteq> row_ids d \<union> new"
    and "session_row d s = Some r \<Longrightarrow> \<exists>r'. session_row d' s = Some r' \<and> row_evolves r r'"
    and "v \<in> set (works d') \<Longrightarrow> cw_id v \<in> new \<or> (\<exists>w \<in> set (works d). work_evolves d' w v)"
    and "lifecycle_move\<^sup>=\<^sup>= (lifecycle d s) (lifecycle d' s)"
  using assms by (simp_all add: step_ok_def)

lemma step_quiet:
  assumes "step_ok new d e" "quiet e f"
  shows "step_ok new d f"
  unfolding step_ok_def
proof (intro conjI allI impI ballI)
  note st = step_okD [OF assms(1)]
  show "session_inv f" by (rule quiet_inv [OF assms(2) st(1)])
  show "row_ids f \<subseteq> row_ids d \<union> new" using st(2) quiet_views(7) [OF assms(2)] by simp
  show "lifecycle_move\<^sup>=\<^sup>= (lifecycle d s) (lifecycle f s)" for s
    using st(5) [of s] quiet_lifecycle [OF assms(2)] by simp
  show "\<exists>r'. session_row f s = Some r' \<and> row_evolves r r'" if r: "session_row d s = Some r" for s r
  proof -
    obtain x where x: "session_row e s = Some x" "row_evolves r x" using st(3) [OF r] by blast
    obtain y where "session_row f s = Some y" "row_key y = row_key x" by (rule quiet_row [OF assms(2) x(1)])
    with x(2) show ?thesis by (auto simp: row_evolves_def row_key_eq)
  qed
  show "cw_id v \<in> new \<or> (\<exists>w \<in> set (works d). work_evolves f w v)" if v: "v \<in> set (works f)" for v
  proof -
    obtain u where u: "u \<in> set (works e)" "work_key u = work_key v"
      by (rule image_twin [OF quiet_views(5) [OF assms(2)] v])
    have "work_evolves f w v = work_evolves e w u" for w
    proof -
      have "(case session_row f s of None \<Rightarrow> False | Some r \<Rightarrow> cw_changed w < ss_changed r)
          = (case session_row e s of None \<Rightarrow> False | Some r \<Rightarrow> cw_changed w < ss_changed r)" for s
        using quiet_views(1) [OF assms(2), of s] by (auto simp: row_key_eq split: option.splits)
      then show ?thesis using u(2) by (simp add: work_evolves_def same_identity_def work_key_eq cong: option.case_cong)
    qed
    with st(4) [OF u(1)] u(2) show ?thesis by (simp add: work_key_eq)
  qed
qed

lemma quiet_step:
  assumes "quiet d e" "step_ok new e f"
  shows "step_ok new d f"
  unfolding step_ok_def
proof (intro conjI allI impI ballI)
  note st = step_okD [OF assms(2)]
  show "session_inv f" by (rule st(1))
  show "row_ids f \<subseteq> row_ids d \<union> new" using st(2) quiet_views(7) [OF assms(1)] by simp
  show "lifecycle_move\<^sup>=\<^sup>= (lifecycle d s) (lifecycle f s)" for s
    using st(5) [of s] quiet_lifecycle [OF assms(1)] by simp
  show "\<exists>r'. session_row f s = Some r' \<and> row_evolves r r'" if r: "session_row d s = Some r" for s r
  proof -
    obtain x where x: "session_row e s = Some x" "row_key x = row_key r" by (rule quiet_row [OF assms(1) r])
    then obtain y where "session_row f s = Some y" "row_evolves x y" using st(3) by blast
    with x(2) show ?thesis by (auto simp: row_evolves_def row_key_eq)
  qed
  show "cw_id v \<in> new \<or> (\<exists>w \<in> set (works d). work_evolves f w v)" if v: "v \<in> set (works f)" for v
  proof (cases "cw_id v \<in> new")
    case False
    then obtain u where u: "u \<in> set (works e)" "work_evolves f u v" using st(4) [OF v] by blast
    obtain w where "w \<in> set (works d)" "work_key w = work_key u"
      by (rule image_twin [OF quiet_views(5) [OF assms(1)] u(1)])
    moreover from this(2) u(2) have "work_evolves f w v"
      by (auto simp: work_evolves_def same_identity_def work_key_eq split: option.splits)
    ultimately show ?thesis by blast
  qed simp
qed

lemma step_ok_refl: "session_inv d \<Longrightarrow> step_ok new d d"
  by (auto simp: step_ok_def intro: work_evolves_refl row_evolves_refl)

lemma quiet_ok: "session_inv d \<Longrightarrow> quiet d e \<Longrightarrow> step_ok new d e"
  by (rule step_quiet [OF step_ok_refl])

lemma step_ok_mono: "step_ok new d e \<Longrightarrow> new \<subseteq> new' \<Longrightarrow> step_ok new' d e"
  unfolding step_ok_def by blast

subsection \<open>Changes that are quiet\<close>

named_theorems quiet_intros \<open>changes that no statement about a session looks at\<close>

lemma map_put:
  "distinct (map key rs) \<Longrightarrow> pick key (key r') rs = Some r \<Longrightarrow> g r' = g r \<Longrightarrow> map g (put key r' rs) = map g rs"
proof (induction rs)
  case (Cons x rs)
  show ?case
  proof (cases "key x = key r'")
    case True
    then have "put key r' rs = rs" using Cons.prems(1) by (auto simp: put_def image_iff intro!: map_idI)
    with True Cons.prems(2,3) show ?thesis by (simp add: put_def)
  next
    case False
    with Cons show ?thesis by (simp add: put_def)
  qed
qed simp

lemma quiet_put_session [quiet_intros]:
  assumes "quiet d e" "keys_ok_db d" "session_row e (ss_session r') = Some r" "row_key r' = row_key r"
  shows "quiet d (put_session r' e)"
proof (rule quiet_trans [OF assms(1)])
  have "keys_ok_db e" using quiet_views(6) [OF assms(1)] assms(2) by simp
  then show "quiet e (put_session r' e)"
    using map_put [OF _ assms(3,4)] by (auto simp: quiet_def put_session_def keys_ok_db_def)
qed

lemma quiet_put_pvc [quiet_intros]:
  assumes "quiet d e" "keys_ok_db d" "get_pvc e (sp_id p') = Some p" "pvc_key p' = pvc_key p"
  shows "quiet d (put_pvc p' e)"
proof (rule quiet_trans [OF assms(1)])
  have "keys_ok_db e" using quiet_views(6) [OF assms(1)] assms(2) by simp
  then show "quiet e (put_pvc p' e)"
    using map_put [OF _ assms(3,4)] by (auto simp: quiet_def put_pvc_def keys_ok_db_def)
qed

lemma quiet_put_work [quiet_intros]:
  assumes "quiet d e" "keys_ok_db d" "get_work e (cw_id w') = Some w" "work_key w' = work_key w"
  shows "quiet d (put_work w' e)"
proof (rule quiet_trans [OF assms(1)])
  have "keys_ok_db e" using quiet_views(6) [OF assms(1)] assms(2) by simp
  then show "quiet e (put_work w' e)"
    using map_put [OF _ assms(3,4)] by (auto simp: quiet_def put_work_def keys_ok_db_def)
qed

lemma quiet_put_intent [quiet_intros]:
  assumes "quiet d e" "get_intent e (pl_generation i') = Some i" "pl_session i' = pl_session i"
  shows "quiet d (put_intent i' e)"
proof (rule quiet_trans [OF assms(1)])
  have "i \<in> set (intents e)" using pick_Some [OF assms(2)] by simp
  then have "pl_session ` set (put pl_generation i' (intents e)) \<subseteq> pl_session ` set (intents e)"
    using assms(3) by (auto dest!: set_put)
  then show "quiet e (put_intent i' e)" by (auto simp: quiet_def put_intent_def)
qed

lemma quiet_add_intent [quiet_intros]:
  assumes "quiet d e" "session_row e (pl_session i) \<noteq> None"
  shows "quiet d (e\<lparr>intents := intents e @ [i]\<rparr>)"
  by (rule quiet_trans [OF assms(1)]) (use assms(2) in \<open>auto simp: quiet_def\<close>)

lemma quiet_other [quiet_intros]:
  "quiet d e \<Longrightarrow> quiet d (put_state s e)"
  "quiet d e \<Longrightarrow> quiet d (e\<lparr>states := ss\<rparr>)"
  "quiet d e \<Longrightarrow> quiet d (e\<lparr>transfers := ts\<rparr>)"
  "quiet d e \<Longrightarrow> quiet d (e\<lparr>disposals := ds\<rparr>)"
  "quiet d e \<Longrightarrow> quiet d (e\<lparr>probes := ps\<rparr>)"
  by (auto simp: quiet_def put_state_def)

lemma quiet_works [quiet_intros]:
  assumes "quiet d e" "\<And>w. w \<in> set (works e) \<Longrightarrow> work_key (f w) = work_key w"
  shows "quiet d (e\<lparr>works := map f (works e)\<rparr>)"
  by (rule quiet_trans [OF assms(1)]) (use assms(2) in \<open>auto simp: quiet_def\<close>)

end
