(* ===== verification/Session_Quiet.thy ===== *)
theory Session_Quiet
  imports Session_Facts
begin

text \<open>
  The ledger of a pair is kept beside its session: no transaction of the creators, of a capture or of a
  retirement changes what is said of a session, its disks or its works.
\<close>

section \<open>What the claims give\<close>

lemma owned_sessionD:
  "owned_session sts x owner d = Inr r \<Longrightarrow> session_row d (ss_session x) = Some r \<and> ss_status r \<in> set sts \<and>
     ss_owner r = Some owner \<and> ss_sandbox r = ss_sandbox x \<and> ss_changed r = ss_changed x"
  by (auto simp: owned_session_def split: option.splits if_splits)

lemma owned_intentD:
  "owned_intent k sts x owner g d = Inr i \<Longrightarrow> get_intent d g = Some i \<and> pl_generation i = g"
  by (auto simp: owned_intent_def bindE_eq_Inr split: option.splits dest: pick_key)

lemma settlement_intentD:
  "settlement_intent k x d = Inr i \<Longrightarrow> get_intent d (pl_generation x) = Some i \<and> pl_generation i = pl_generation x"
  by (auto simp: settlement_intent_def bindE_eq_Inr split: option.splits if_splits dest: pick_key)

lemma owned_cleanupD:
  assumes "owned_pair_cleanup k w now claim d = Inr st" "cw_pair st \<noteq> None"
  shows "get_work d (cw_id w) = Some st" "same_work st w" "cw_pair st = cw_pair w" "cw_targets st = cw_targets w"
    and "cw_kind w \<in> {WIdle, WReap, WService} \<Longrightarrow> owns d w"
    and "cw_kind w = WIdle \<Longrightarrow> cw_acknowledged st"
  using assms
  by (auto simp: owned_pair_cleanup_def same_work_def bindE_eq_Inr split: if_splits option.splits)

lemma cleanup_pairD: "cleanup_pair k w = Inr b \<Longrightarrow> \<exists>p. cw_pair w = Some p \<and> b = binding p"
  by (auto simp: cleanup_pair_def bindE_eq_Inr split: option.splits)

section \<open>The frames\<close>

lemma change_intent_quiet:
  assumes "change_intent k x owner g f d = Inr (y, d')"
    and "\<And>i i' y. f i = Inr (i', y) \<Longrightarrow> pl_generation i' = pl_generation i \<and> pl_session i' = pl_session i"
  shows "quiet d d'"
proof -
  obtain i i' z where i: "get_intent d g = Some i" "pl_generation i = g" "f i = Inr (i', z)" "d' = put_intent i' d"
    using assms(1) by (auto simp: change_intent_def bindE_eq_Inr dest!: owned_intentD)
  with assms(2) [OF i(3)] show ?thesis by (auto intro: quiet_put_intent [OF quiet_refl])
qed

lemma settle_intent_quiet:
  assumes "settle_intent k x f d = Inr (y, d')"
    and "\<And>i i'. f i = Inr i' \<Longrightarrow> pl_generation i' = pl_generation i \<and> pl_session i' = pl_session i"
  shows "quiet d d'"
proof -
  obtain i i' where i: "get_intent d (pl_generation x) = Some i" "pl_generation i = pl_generation x" "f i = Inr i'"
    "d' = put_intent i' d"
    using assms(1) by (auto simp: settle_intent_def bindE_eq_Inr dest!: settlement_intentD)
  with assms(2) [OF i(3)] show ?thesis by (auto intro: quiet_put_intent [OF quiet_refl])
qed

lemma fenceD:
  assumes "fence_pair_creators k w d = Inr (i', d')"
  obtains i where "get_intent d (pl_generation i) = Some i" "i' = i\<lparr>pi_fenced := True\<rparr>" "d' = put_intent i' d"
proof -
  obtain b where b: "cleanup_pair k w = Inr b" using assms by (auto simp: fence_pair_creators_def bindE_eq_Inr)
  obtain i p where i: "get_intent d (pb_generation b) = Some i" "cw_pair w = Some p"
    using assms b by (cases "get_intent d (pb_generation b)"; cases "cw_pair w") (auto simp: fence_pair_creators_def)
  then have "i' = i\<lparr>pi_fenced := True\<rparr> \<and> d' = put_intent i' d"
    using assms b by (auto simp: fence_pair_creators_def bindE_eq_Inr Let_def)
  with i(1) pick_key [OF i(1)] show thesis by (intro that) auto
qed

lemma fence_quiet: "fence_pair_creators k w d = Inr (i, d') \<Longrightarrow> quiet d d'"
  by (erule fenceD) (auto intro: quiet_put_intent [OF quiet_refl])

lemma fence_rows:
  "fence_pair_creators k w d = Inr (i, d') \<Longrightarrow> works d' = works d \<and> sessions d' = sessions d \<and> pvcs d' = pvcs d"
  by (erule fenceD) (auto simp: put_intent_def)

lemma snapshot_quiet:
  assumes "keys_ok_db d" "quiet d e" "get_work e (cw_id st) = Some st"
  shows "quiet d (put_work (st\<lparr>cw_pair := p\<rparr>) e)" "quiet d (put_work (st\<lparr>cw_targets := ts\<rparr>) e)"
    "quiet d (put_work (st\<lparr>cw_deadline := t\<rparr>) e)"
  using assms by (auto intro!: quiet_put_work [OF assms(2,1)] simp: work_key_eq)

lemma record_in_quiet:
  assumes "keys_ok_db d" "record_in k fence w now claim f d = Inr (y, d')"
  shows "quiet d d'"
proof -
  obtain st d1 where st: "owned_pair_cleanup k w now claim d = Inr st" "works d1 = works d" "quiet d d1"
    and rest: "(case cw_pair st of None \<Rightarrow> Inl (OtherError ''AssertionError'')
      | Some p \<Rightarrow> bindE (f p) (\<lambda>p'. if p' = p then Inr (st, d1) else store_snapshot st p' d1)) = Inr (y, d')"
    using assms(2) by (auto simp: record_in_def bindE_eq_Inr split: if_splits dest: fence_quiet fence_rows)
  from rest obtain p p' where p: "cw_pair st = Some p" "d' = d1 \<or> d' = put_work (st\<lparr>cw_pair := Some p'\<rparr>) d1"
    by (auto simp: bindE_eq_Inr store_snapshot_def Let_def split: option.splits if_splits)
  with owned_cleanupD(1) [OF st(1)] have "get_work d1 (cw_id st) = Some st" using st(2) pick_key by fastforce
  with snapshot_quiet(1) [OF assms(1) st(3)] p(2) st(3) show ?thesis by auto
qed

section \<open>The transactions\<close>

named_theorems quiet_txs \<open>transactions that no statement about a session looks at\<close>

lemma bind_quiet [quiet_txs]:
  "bind_control k x owner g key uid d = Inr (y, d') \<Longrightarrow> quiet d d'"
  "bind_compute k x owner g key uid d = Inr (y, d') \<Longrightarrow> quiet d d'"
  "bind_relay_keys k x owner g uid d = Inr (y, d') \<Longrightarrow> quiet d d'"
  "bind_relay_input k x owner g key uid d = Inr (y, d') \<Longrightarrow> quiet d d'"
  unfolding bind_control_def bind_compute_def bind_relay_keys_def bind_relay_input_def
  by (auto simp: bindE_eq_Inr elim!: change_intent_quiet)

lemma reserve_payload_same: "reserve_payload role p i = Inr (i', y) \<Longrightarrow> pl_generation i' = pl_generation i \<and> pl_session i' = pl_session i"
  by (auto simp: reserve_payload_def Let_def split: if_splits)

lemma reserve_quiet [quiet_txs]:
  "dispatch_control k x owner g key d = Inr (y, d') \<Longrightarrow> quiet d d'"
  "dispatch_compute k x owner g key d = Inr (y, d') \<Longrightarrow> quiet d d'"
  "reserve_compute k x owner g key p d = Inr (y, d') \<Longrightarrow> quiet d d'"
  "reserve_relay_keys k x owner g keys d = Inr (y, d') \<Longrightarrow> quiet d d'"
  "reserve_relay_input k x owner g key q d = Inr (y, d') \<Longrightarrow> quiet d d'"
  "reserve_ipc k x owner g key r d = Inr (y, d') \<Longrightarrow> quiet d d'"
  unfolding dispatch_control_def dispatch_compute_def reserve_compute_def reserve_relay_keys_def
    reserve_relay_input_def reserve_ipc_def
  by (auto simp: bindE_eq_Inr split: if_splits option.splits dest: reserve_payload_same elim!: change_intent_quiet)

lemma settle_quiet [quiet_txs]:
  "settle_control k i key d = Inr (y, d') \<Longrightarrow> quiet d d'"
  "settle_compute k i key d = Inr (y, d') \<Longrightarrow> quiet d d'"
  "settle_relay_keys k i d = Inr (y, d') \<Longrightarrow> quiet d d'"
  "settle_relay_input k i key d = Inr (y, d') \<Longrightarrow> quiet d d'"
  "settle_clone k i key d = Inr (y, d') \<Longrightarrow> quiet d d'"
  "settle_ipc k i key d = Inr (y, d') \<Longrightarrow> quiet d d'"
  unfolding settle_control_def settle_compute_def settle_relay_keys_def settle_relay_input_def settle_clone_def settle_ipc_def
  by (auto simp: bindE_eq_Inr split: if_splits elim!: settle_intent_quiet)

lemma release_quiet [quiet_txs]:
  "record_clone_release k sts x owner g key ev d = Inr (y, d') \<Longrightarrow> quiet d d'"
  "record_ipc_release k sts x owner g key ev d = Inr (y, d') \<Longrightarrow> quiet d d'"
  unfolding record_clone_release_def record_ipc_release_def
  by (auto simp: bindE_eq_Inr Let_def dest!: owned_intentD intro!: quiet_put_intent [OF quiet_refl])

lemma clone_sources_key: "clone_sources r i p = Inr r' \<Longrightarrow> row_key r' = row_key r"
  by (auto simp: clone_sources_def Let_def row_key_eq split: option.splits if_splits)

lemma current_cloneD:
  assumes "current_clone k x owner g role p d = Inr (i, r')"
  obtains r v where "session_row d (ss_session x) = Some r" "row_key r' = row_key r" "get_pvc d (vp_pvc p) = Some v"
    "get_intent d g = Some i" "pl_generation i = g" "ss_pvc r = Some (vp_pvc p)" "sp_uid v = ss_pvc_uid r"
    "sp_session v = ss_session r" "owned_intent k [SCreating] x owner g d = Inr i"
proof -
  have i: "owned_intent k [SCreating] x owner g d = Inr i" using assms
    by (auto simp: current_clone_def bindE_eq_Inr split: option.splits if_splits)
  obtain r v where rv: "session_row d (ss_session x) = Some r" "get_pvc d (vp_pvc p) = Some v" using assms i
    by (cases "session_row d (ss_session x)"; cases "get_pvc d (vp_pvc p)") (auto simp: current_clone_def bindE_eq_Inr)
  then have "clone_scope r i v p" "row_key r' = row_key r" using assms i
    by (auto simp: current_clone_def bindE_eq_Inr dest: clone_sources_key split: if_splits)
  with that [of r v] rv i owned_intentD [OF i] show thesis by (simp add: clone_scope_def)
qed

lemma reserve_clone_quiet [quiet_txs]:
  assumes "keys_ok_db d" "reserve_clone k x owner g role p d = Inr (y, d')"
  shows "quiet d d'"
proof -
  obtain i r es where c: "current_clone k x owner g role p d = Inr (i, r)"
      and i': "d' = put_intent (i\<lparr>pl_volumes := es\<rparr>) (put_session r d)"
    using assms(2) by (auto simp: reserve_clone_def bindE_eq_Inr Let_def split: if_splits)
  from c obtain r0 where "session_row d (ss_session x) = Some r0" "row_key r = row_key r0"
    and g: "get_intent d g = Some i" "pl_generation i = g" by (elim current_cloneD)
  moreover from this(1) have "ss_session x = ss_session r0" by (simp add: pick_key)
  ultimately have "quiet d (put_session r d)"
    by (intro quiet_put_session [OF quiet_refl assms(1), of r r0]) (auto simp: row_key_eq)
  then show ?thesis unfolding i' using g by (intro quiet_put_intent [of _ _ _ i]) (auto simp: put_session_def)
qed

lemma bind_ipc_quiet [quiet_txs]:
  assumes "keys_ok_db d" "bind_ipc k x owner g role uid d = Inr (y, d')"
  shows "quiet d d'"
proof -
  obtain i where i: "owned_intent k [SCreating] x owner g d = Inr i"
    using assms(2) by (auto simp: bind_ipc_def bindE_eq_Inr)
  obtain r p where r: "session_row d (ss_session x) = Some r" "en_payload (at (pl_ipc i) role) = Some p"
    using assms(2) i by (cases "session_row d (ss_session x)"; cases "en_payload (at (pl_ipc i) role)")
      (auto simp: bind_ipc_def bindE_eq_Inr)
  define r' where "r' = (if role = ''volume'' then r\<lparr>ss_ipc_pvc := Some uid\<rparr> else r\<lparr>ss_pod := Some uid\<rparr>)"
  have r': "row_key r' = row_key r" "d' = put_intent (i\<lparr>pl_ipc := bind_entry role uid (pl_ipc i)\<rparr>) (put_session r' d)"
    using assms(2) i r unfolding r'_def by (auto simp: bind_ipc_def bindE_eq_Inr Let_def row_key_eq)
  have "ss_session x = ss_session r" using r(1) by (simp add: pick_key)
  then have "quiet d (put_session r' d)" using r(1) r'(1)
    by (intro quiet_put_session [OF quiet_refl assms(1), of r' r]) (auto simp: row_key_eq)
  then show ?thesis unfolding r'(2) using owned_intentD [OF i]
    by (intro quiet_put_intent [of _ _ _ i]) (auto simp: put_session_def)
qed

lemma state_quiet [quiet_txs]:
  "bind_state k x owner g n key uid d = Inr (y, d') \<Longrightarrow> quiet d d'"
  "record_volume_release k x owner g n ev d = Inr (z, d') \<Longrightarrow> quiet d d'"
  "reserve_state_volume k x owner g n d = Inr (v, d') \<Longrightarrow> quiet d d'"
  "settle_state s key d = Inr (u, d') \<Longrightarrow> quiet d d'"
proof -
  show "quiet d d'" if "bind_state k x owner g n key uid d = Inr (y, d')"
    using that by (auto simp: bind_state_def bindE_eq_Inr Let_def intro!: quiet_other(1) [OF quiet_refl] split: prod.splits)
  show "quiet d d'" if "record_volume_release k x owner g n ev d = Inr (z, d')"
    using that by (cases ev; cases "get_state d n")
      (auto simp: record_volume_release_def bindE_eq_Inr Let_def intro!: quiet_other(1) [OF quiet_refl] split: if_splits)
  show "quiet d d'" if "reserve_state_volume k x owner g n d = Inr (v, d')"
    using that by (auto simp: reserve_state_volume_def bindE_eq_Inr Let_def intro!: quiet_other(1) [OF quiet_refl] split: if_splits)
  show "quiet d d'" if "settle_state s key d = Inr (u, d')"
    using that by (cases "get_state d (es_id s)")
      (auto simp: settle_state_def bindE_eq_Inr Let_def intro!: quiet_other(1) [OF quiet_refl] split: if_splits)
qed

lemma reserve_state_quiet [quiet_txs]:
  assumes "reserve_state k digest n secret x owner g bytes d = Inr (y, d')"
  shows "quiet d d'"
proof -
  obtain i where i: "owned_intent k [SCreating] x owner g d = Inr i" using assms
    by (auto simp: reserve_state_def bindE_eq_Inr)
  have "quiet d (put_intent (i\<lparr>pl_state := Some n\<rparr>) (d\<lparr>states := states d @ [new_state i n bytes (digest secret)]\<rparr>))"
    using owned_intentD [OF i] by (intro quiet_put_intent [OF quiet_other(2) [OF quiet_refl], where i = i]) auto
  moreover have "d' = d \<or>
      d' = put_intent (i\<lparr>pl_state := Some n\<rparr>) (d\<lparr>states := states d @ [new_state i n bytes (digest secret)]\<rparr>)"
    using assms i by (auto simp: reserve_state_def bindE_eq_Inr Let_def split: option.splits if_splits)
  ultimately show ?thesis by auto
qed

lemma writersD:
  assumes "pair_writers_settled k w now claim d = Inr (y, d')"
  obtains st i where "owned_pair_cleanup k w now claim d = Inr st" "fence_pair_creators k st d = Inr (i, d')"
proof -
  obtain st i e where st: "owned_pair_cleanup k w now claim d = Inr st" "fence_pair_creators k st d = Inr (i, e)"
    using assms by (auto simp: pair_writers_settled_def bindE_eq_Inr)
  then have "e = d'" using assms
    by (cases "cw_pair st") (auto simp: pair_writers_settled_def bindE_eq_Inr Let_def split: if_splits)
  with st that show thesis by blast
qed

lemma writers_quiet [quiet_txs]: "pair_writers_settled k w now claim d = Inr (y, d') \<Longrightarrow> quiet d d'"
  by (erule writersD) (rule fence_quiet)

lemma seal_quiet [quiet_txs]:
  assumes "seal_pair_cleanup k w now claim d = Inr (y, d')"
  shows "quiet d d'"
proof -
  obtain b e where st: "pair_writers_settled k w now claim d = Inr (b, e)"
    using assms by (auto simp: seal_pair_cleanup_def bindE_eq_Inr)
  then have "e = d'" using assms
    by (cases "cw_pair w") (auto simp: seal_pair_cleanup_def bindE_eq_Inr Let_def split: if_splits option.splits)
  with writers_quiet [OF st] show ?thesis by simp
qed

lemma retire_quiet [quiet_txs]:
  assumes "retire k w now claim d = Inr (y, d')"
  shows "quiet d d'"
proof -
  obtain st b where st: "owned_pair_cleanup k w now claim d = Inr st" "cleanup_pair k st = Inr b"
    using assms by (auto simp: retire_def bindE_eq_Inr)
  then obtain i where i: "get_intent d (pb_generation b) = Some i"
    using assms by (cases "get_intent d (pb_generation b)") (auto simp: retire_def)
  show ?thesis
  proof (cases "pi_retired i = None")
    case True
    with assms st i obtain c e where e: "pair_writers_settled k st now claim d = Inr (c, e)"
      by (auto simp: retire_def bindE_eq_Inr)
    have q: "quiet d e" by (rule writers_quiet [OF e])
    consider "d' = e" | j where "get_intent e (pb_generation b) = Some j" "d' = put_intent (j\<lparr>pi_retired := Some now\<rparr>) e"
      using assms st i e True by (cases "get_intent e (pb_generation b)") (auto simp: retire_def split: if_splits)
    then show ?thesis
    proof cases
      case (2 j)
      then show ?thesis using pick_key [OF 2(1)] by (auto intro: quiet_put_intent [OF q, where i = j])
    qed (simp add: q)
  qed (use assms st i in \<open>auto simp: retire_def\<close>)
qed

lemma fenced_quiet [quiet_txs]:
  "bindE (owned_pair_cleanup k u now claim d) (\<lambda>v. fence_pair_creators k v d) = Inr (y, d') \<Longrightarrow> quiet d d'"
  by (auto simp: bindE_eq_Inr dest: fence_quiet)

lemma record_quiet [quiet_txs]:
  assumes "keys_ok_db d"
  shows "record_pair_control k u key uid now claim d = Inr (y, d') \<Longrightarrow> quiet d d'"
    "record_pair_compute k u key uid now claim d = Inr (y, d') \<Longrightarrow> quiet d d'"
    "record_clone k u key uid now claim d = Inr (y, d') \<Longrightarrow> quiet d d'"
    "record_ipc_resource k u key uid now claim d = Inr (y, d') \<Longrightarrow> quiet d d'"
    "record_relay_custody k u uid now claim d = Inr (y, d') \<Longrightarrow> quiet d d'"
    "record_relay_input k u key uid now claim d = Inr (y, d') \<Longrightarrow> quiet d d'"
    "record_egress_state k u key uid now claim d = Inr (y, d') \<Longrightarrow> quiet d d'"
    "record_pair_release k u family key ev now claim d = Inr (y, d') \<Longrightarrow> quiet d d'"
  unfolding record_pair_control_def record_pair_compute_def record_clone_def record_ipc_resource_def
    record_relay_custody_def record_relay_input_def record_egress_state_def record_pair_release_def
  by (auto simp: bindE_eq_Inr split: option.splits if_splits dest: record_in_quiet [OF assms])

lemma state_release_quiet [quiet_txs]:
  assumes "keys_ok_db d" "record_state_release k u ev now claim d = Inr (y, d')"
  shows "quiet d d'"
proof (cases ev)
  case None
  with assms(2) show ?thesis by (auto simp: record_state_release_def bindE_eq_Inr)
next
  case (Some ev')
  obtain st i e where st: "owned_pair_cleanup k u now claim d = Inr st" and e: "fence_pair_creators k st d = Inr (i, e)"
    using assms(2) Some by (auto simp: record_state_release_def bindE_eq_Inr)
  obtain p s where p: "cw_pair st = Some p" "sn_egress p = Some s" using assms(2) Some st e
    by (cases "cw_pair st"; cases "sn_egress (the (cw_pair st))") (auto simp: record_state_release_def bindE_eq_Inr)
  have q: "quiet d e" by (rule fence_quiet [OF e])
  have "get_work d (cw_id u) = Some st" by (rule owned_cleanupD(1) [OF st]) (simp add: p)
  then have "get_work d (cw_id st) = Some st" using pick_key [of cw_id "cw_id u" "works d" st] by simp
  then have work: "get_work e (cw_id st) = Some st" using fence_rows [OF e] by simp
  have "d' = e \<or> (\<exists>row y s'. d' = put_state (row\<lparr>es_volume_release := y\<rparr>) (put_work (st\<lparr>cw_pair := s'\<rparr>) e))"
    using assms(2) Some st e p by (cases "get_state e (es_id s)")
      (auto simp: record_state_release_def store_snapshot_def Let_def bindE_eq_Inr split: if_splits)
  with q snapshot_quiet(1) [OF assms(1) q work] show ?thesis by (auto intro: quiet_other(1))
qed

text \<open>A new intent belongs to a session that exists.\<close>

lemma quiet_intents:
  assumes "sessions d' = sessions d" "pvcs d' = pvcs d" "works d' = works d"
    and "pl_session ` set (intents d') \<subseteq> pl_session ` set (intents d) \<union> {i. session_row d i \<noteq> None}"
  shows "quiet d d'"
  using assms by (simp add: quiet_def)

lemma inherit_rows:
  assumes "inherit_pair k r i saved s p d = Inr (i', d')" "session_row d (pl_session i) \<noteq> None"
  shows "quiet d d'"
proof -
  obtain f ts where d': "d' = put_intent (f i :: pair_intent) (d\<lparr>transfers := ts\<rparr>)" "pl_session (f i) = pl_session i"
    using assms(1) by (auto simp: inherit_pair_def bindE_eq_Inr Let_def split: if_splits)
  then show ?thesis using assms(2) by (intro quiet_intents) (auto simp: put_intent_def dest!: set_put)
qed

lemma begin_quiet [quiet_txs]:
  assumes "begin_pair k g x owner namespace golden resume d = Inr (y, d')"
  shows "quiet d d'"
proof -
  obtain r where r: "owned_session [SCreating] x owner d = Inr r"
    using assms by (auto simp: begin_pair_def bindE_eq_Inr split: if_splits)
  have row: "session_row d (ss_session r) \<noteq> None"
    using owned_sessionD [OF r] pick_key [of ss_session "ss_session x" "sessions d" r] by auto
  have new: "quiet d e" if "allocate_intent k g r owner namespace golden resume d = Inr (i, e)" for i e
  proof -
    let ?i = "new_intent r owner g namespace golden" and ?d = "d\<lparr>intents := intents d @ [new_intent r owner g namespace golden]\<rparr>"
    have q: "quiet d ?d" using row by (intro quiet_add_intent [OF quiet_refl]) (simp add: new_intent_def)
    have "e = ?d \<or> (\<exists>saved s p i'. inherit_pair k r ?i saved s p ?d = Inr (i', e))"
      using that by (auto simp: allocate_intent_def bindE_eq_Inr Let_def split: if_splits option.splits)
    moreover have "session_row ?d (pl_session ?i) \<noteq> None" using row by (simp add: new_intent_def)
    ultimately show ?thesis using q quiet_trans [OF q inherit_rows] by blast
  qed
  have "d' = d \<or> (\<exists>i. allocate_intent k g r owner namespace golden resume d = Inr (i, d'))"
    using assms r by (auto simp: begin_pair_def bindE_eq_Inr split: if_splits option.splits)
  then show ?thesis using new by auto
qed

end
