(* ===== verification/Session_Steps.thy ===== *)
theory Session_Steps
  imports Session_Quiet
begin

text \<open>
  Every transaction of the manager keeps what is said of the sessions, and moves each sandbox at most by
  one move of its lifecycle.
\<close>

section \<open>Executions, pings and marks\<close>

lemma sandbox_row: "by_sandbox d b = Some r \<Longrightarrow> keys_ok_db d \<Longrightarrow> session_row d (ss_session r) = Some r"
  by (auto simp: by_sandbox_def keys_ok_db_def intro!: pick_unique dest: pick_Some)

lemma touched_quiet:
  assumes "keys_ok_db d" "session_row d (ss_session r) = Some r"
  shows "quiet d (put_session (touched now r) d)"
    and "get_pvc d v = Some p \<Longrightarrow> quiet d (put_pvc (touched_pvc now p) (put_session (touched now r) d))"
proof -
  show q: "quiet d (put_session (touched now r) d)"
    using assms by (intro quiet_put_session [OF quiet_refl, where r = r]) (auto simp: touched_def row_key_eq)
  show "quiet d (put_pvc (touched_pvc now p) (put_session (touched now r) d))" if p: "get_pvc d v = Some p"
    using p pick_key [OF p] assms(1)
    by (intro quiet_put_pvc [OF q, where p = p]) (auto simp: touched_pvc_def pvc_key_eq view_simps)
qed

lemma stamp_quiet [quiet_txs]:
  assumes "keys_ok_db d" "stamp_result b now d = Inr (y, d')"
  shows "quiet d d'"
  using assms(2) touched_quiet [OF assms(1)] sandbox_row [OF _ assms(1), of b]
  by (auto simp: stamp_result_def Let_def split: option.splits)

lemma admit_quiet [quiet_txs]:
  assumes "keys_ok_db d" "admit_execution s now d = Inr (y, d')"
  shows "quiet d d'"
proof (cases "session_row d s")
  case (Some r)
  then have "session_row d (ss_session r) = Some r" by (simp add: pick_key)
  then show ?thesis using assms(2) touched_quiet(2) [OF assms(1), of r] Some
    by (auto simp: admit_execution_def split: option.splits if_splits)
qed (use assms(2) in \<open>simp add: admit_execution_def\<close>)

lemma reply_quiet [quiet_txs]:
  assumes "keys_ok_db d" "ping_reply c i b now d = Inr (y, d')"
  shows "quiet d d'"
proof (cases "by_sandbox d b")
  case (Some r)
  have "quiet d (put_session (r\<lparr>ss_last_ping := t\<rparr>) d)" for t
    using sandbox_row [OF Some assms(1)]
    by (intro quiet_put_session [OF quiet_refl assms(1), where r = r]) (auto simp: row_key_eq)
  then show ?thesis using assms(2) Some
    by (auto simp: ping_reply_def Let_def intro!: quiet_other(5) split: option.splits if_splits)
qed (use assms(2) in \<open>simp add: ping_reply_def\<close>)

lemma probe_quiet [quiet_txs]:
  assumes "keys_ok_db d" "ping_claim c n x now d = Inr (y, d')"
  shows "quiet d d'"
proof (cases "session_row d (ss_session x)")
  case (Some r)
  have "quiet d (put_session (r\<lparr>ss_ping_sent := t\<rparr>) d)" for t
    using Some by (intro quiet_put_session [OF quiet_refl assms(1), where r = r]) (auto simp: row_key_eq pick_key)
  then show ?thesis using assms(2) Some
    by (auto simp: ping_claim_def Let_def intro!: quiet_other(5) split: if_splits)
qed (use assms(2) in \<open>simp add: ping_claim_def\<close>)

lemma probes_quiet [quiet_txs]:
  "quiet d (reclaim_probes c now d)" "quiet d (ping_published i now d)" "quiet d (ping_failed i d)"
  by (simp_all add: reclaim_probes_def ping_published_def ping_failed_def quiet_other(5))

lemma ack_quiet [quiet_txs]: "shutdown_ack b t d = Inr (y, d') \<Longrightarrow> quiet d d'"
  by (auto simp: shutdown_ack_def acknowledge_work_def work_key_eq intro!: quiet_works split: option.splits)

lemma saved_quiet [quiet_txs]:
  assumes "keys_ok_db d"
  shows "save_targets w ts d = Inr (y, d') \<Longrightarrow> quiet d d'" "renew_deadline w t d = Inr (y, d') \<Longrightarrow> quiet d d'"
    "save_recovery_targets x w ts d = Inr (y, d') \<Longrightarrow> quiet d d'"
proof -
  have st: "quiet d (put_work (st\<lparr>cw_targets := ts\<rparr>) d)" "quiet d (put_work (st\<lparr>cw_deadline := t\<rparr>) d)"
    if "get_work d (cw_id w) = Some st" for st
    using snapshot_quiet [OF assms quiet_refl, of st] that pick_key [OF that] by auto
  show "save_targets w ts d = Inr (y, d') \<Longrightarrow> quiet d d'" "renew_deadline w t d = Inr (y, d') \<Longrightarrow> quiet d d'"
    "save_recovery_targets x w ts d = Inr (y, d') \<Longrightarrow> quiet d d'"
    using st by (auto simp: save_targets_def renew_deadline_def save_recovery_targets_def split: option.splits if_splits)
qed

lemma disposal_quiet [quiet_txs]:
  "begin_disposal w g now d = Inr (y, d') \<Longrightarrow> quiet d d'"
  "quiet d e \<Longrightarrow> quiet d (complete_disposal now x e)"
  by (auto simp: begin_disposal_def complete_disposal_def bindE_eq_Inr Let_def intro!: quiet_other(4)
      split: option.splits if_splits)

end
