(* ===== verification/Session_Moves.thy ===== *)
theory Session_Moves
  imports Session_Steps
begin

text \<open>
  The transactions that move a sandbox: each is one move of the lifecycle of its session, and leaves every
  other session as it is.
\<close>

section \<open>One session\<close>

lemma add_work_view [view_simps]:
  "session_row (d\<lparr>works := works d @ [w]\<rparr>) s = session_row d s" "disks (d\<lparr>works := works d @ [w]\<rparr>) s = disks d s"
  "claims (d\<lparr>works := works d @ [w]\<rparr>) s = (if cw_session w = Some s then insert w (claims d s) else claims d s)"
  "row_ids (d\<lparr>works := works d @ [w]\<rparr>) = insert (cw_id w) (row_ids d)"
  "cw_id w \<notin> row_ids d \<Longrightarrow> keys_ok_db (d\<lparr>works := works d @ [w]\<rparr>) = keys_ok_db d"
  by (auto simp: disks_def claims_def row_ids_def keys_ok_db_def)

lemma add_pvc_view [view_simps]:
  "session_row (d\<lparr>pvcs := pvcs d @ [p]\<rparr>) s = session_row d s" "claims (d\<lparr>pvcs := pvcs d @ [p]\<rparr>) s = claims d s"
  "disks (d\<lparr>pvcs := pvcs d @ [p]\<rparr>) s = (if sp_session p = s then insert p (disks d s) else disks d s)"
  "row_ids (d\<lparr>pvcs := pvcs d @ [p]\<rparr>) = insert (sp_id p) (row_ids d)"
  "sp_id p \<notin> row_ids d \<Longrightarrow> keys_ok_db (d\<lparr>pvcs := pvcs d @ [p]\<rparr>) = keys_ok_db d"
  by (auto simp: disks_def claims_def row_ids_def keys_ok_db_def)

lemma disk_state_at:
  assumes "keys_ok_db d" "p \<in> disks d s" "ss_pvc r = Some (sp_id p)"
  shows "disk_state d r = Some (sp_id p, sp_state p)"
  using disk_found(1) [OF assms(1,2)] by (simp only: disk_state_def assms(3) option.case option.map)

lemma advance_le [simp]: "previous \<le> advance previous now"
  by (simp add: advance_def)

lemma disk_state_same: "pvcs d' = pvcs d \<Longrightarrow> disk_state d' r = disk_state d r"
  by (cases "ss_pvc r") (simp_all add: disk_state_def)

lemma disk_state_none [simp]: "ss_pvc r = None \<Longrightarrow> disk_state d r = None"
  by (simp add: disk_state_def)

text \<open>The rule for a transaction that changes the row of one session, its disks and its works.\<close>

lemma row_step:
  assumes inv: "session_inv d" and row: "session_row d s = Some r" and keys: "keys_ok_db d'"
    and sess: "\<And>t. session_row d' t = (if t = s then Some r' else session_row d t)"
    and others: "\<And>t. t \<noteq> s \<Longrightarrow> disks d' t = disks d t" "\<And>t. t \<noteq> s \<Longrightarrow> claims d' t = claims d t"
    and evolves: "row_evolves r r'"
    and disks: "disks_ok r' (disks d' s)" and works: "works_ok r' (disks d' s) (claims d' s)"
    and old: "\<And>v. v \<in> claims d' s \<Longrightarrow> cw_id v \<in> new \<or> (\<exists>w \<in> claims d s. work_evolves d' w v)"
    and orphans: "\<And>v. v \<in> set (works d') \<Longrightarrow> cw_session v = None \<Longrightarrow> v \<in> set (works d)"
    and ints: "intents d' = intents d"
    and ids: "row_ids d' \<subseteq> row_ids d \<union> new"
    and move: "lifecycle_move\<^sup>=\<^sup>= (Some (ss_status r, disk_state d r)) (Some (ss_status r', disk_state d' r'))"
  shows "step_ok new d d'"
proof (rule step_okI [OF inv keys])
  show "session_row d' t = session_row d t \<and> disks d' t = disks d t \<and> claims d' t = claims d t" if "t \<noteq> s" for t
    using that sess others by simp
  show "local_ok (session_row d' s) (disks d' s) (claims d' s)" using disks works by (simp add: local_ok_def sess)
  show "\<exists>r'. session_row d' s = Some r' \<and> row_evolves x r'" if "session_row d s = Some x" for x
    using that row evolves sess by simp
  show "cw_kind v = WOrphan \<and> (cw_id v \<in> new \<or> (\<exists>w \<in> set (works d). work_evolves d' w v))"
    if "v \<in> set (works d')" "cw_session v = None" for v
    using orphans [OF that] session_invD(3) [OF inv] that(2) work_evolves_refl by blast
  show "lifecycle_move\<^sup>=\<^sup>= (lifecycle d s) (lifecycle d' s)" using move by (simp add: lifecycle_def row sess)
qed (use old ids in \<open>auto simp: ints\<close>)

lemma lockedD:
  assumes "locked d s b = (Some r, v)"
  shows "session_row d s = Some r" "ss_sandbox r = b" "ss_session r = s"
    and "v = (case ss_pvc r of None \<Rightarrow> None | Some i \<Rightarrow> get_pvc d i)"
  using assms pick_key [of ss_session s "sessions d" r] by (auto simp: locked_def split: option.splits if_splits)

lemma locked_disk:
  assumes "session_inv d" "locked d s b = (Some r, v)"
  shows "v = None \<Longrightarrow> ss_pvc r = None"
    and "v = Some p \<Longrightarrow> p \<in> disks d s \<and> ss_pvc r = Some (sp_id p) \<and> sp_session p = s \<and> sp_sandbox p = ss_sandbox r \<and>
      sp_uid p = ss_pvc_uid r \<and> live_disk (ss_status r) (sp_state p) \<and> disk_state d r = Some (sp_id p, sp_state p)"
proof -
  note l = lockedD [OF assms(2)]
  have disk: "\<exists>q. get_pvc d i = Some q \<and> q \<in> disks d s \<and> sp_id q = i \<and> sp_session q = s \<and> sp_sandbox q = ss_sandbox r \<and>
      sp_uid q = ss_pvc_uid r \<and> live_disk (ss_status r) (sp_state q) \<and> disk_state d r = Some (i, sp_state q)"
    if "ss_pvc r = Some i" for i
    by (rule current_disk [OF assms(1) l(1) that]) blast
  show "ss_pvc r = None" if "v = None" using that disk l(4) by (cases "ss_pvc r") auto
  show "p \<in> disks d s \<and> ss_pvc r = Some (sp_id p) \<and> sp_session p = s \<and> sp_sandbox p = ss_sandbox r \<and>
      sp_uid p = ss_pvc_uid r \<and> live_disk (ss_status r) (sp_state p) \<and> disk_state d r = Some (sp_id p, sp_state p)"
    if "v = Some p"
    using that disk l(4) by (cases "ss_pvc r") auto
qed

lemma new_workD:
  assumes "new_work k n r v kind now timeout ts d = Inr (w, d')"
  shows "d' = d\<lparr>works := works d @ [w]\<rparr>" "cw_id w = n" "cw_session w = Some (ss_session r)" "cw_sandbox w = ss_sandbox r"
    "cw_pvc w = map_option sp_id v" "cw_kind w = kind" "cw_changed w = ss_changed r" "cw_pvc_changed w = map_option sp_changed v"
  using assms by (auto simp: new_work_def bindE_eq_Inr Let_def)

text \<open>A claim: the rows change to \<open>d1\<close>, and the work that stands for the claim is stored.\<close>

lemma claim_step:
  assumes inv: "session_inv d" and row: "session_row d s = Some r" and keys: "keys_ok_db d1" and ids: "row_ids d1 = row_ids d"
    and sess: "\<And>t. session_row d1 t = (if t = s then Some r' else session_row d t)"
    and disks: "\<And>t. disks d1 t = (if t = s then ps else disks d t)"
    and same: "works d1 = works d" "intents d1 = intents d"
    and evolves: "row_evolves r r'" "ss_changed r \<le> ss_changed r'" and still: "\<not> winding_down r (disks d s)"
    and ok: "disks_ok r' ps" "in_force r' ps w"
    and work: "cw_session w = Some s" "cw_id w = n" "n \<notin> row_ids d"
    and move: "lifecycle_move (Some (ss_status r, disk_state d r)) (Some (ss_status r', disk_state d1 r'))"
  shows "step_ok {n} d (d1\<lparr>works := works d1 @ [w]\<rparr>)"
proof (rule row_step [OF inv row])
  have cl: "claims d1 t = claims d t" for t using same(1) by (simp add: claims_def)
  have "cw_kind v = WRecovery \<and> cw_changed v \<le> ss_changed r'" if "v \<in> claims d s" for v
    using quiet_claims [OF session_rows(2) [OF inv row] still that] evolves(2) by simp
  from works_claimed [OF this ok(2)]
  show "works_ok r' (disks (d1\<lparr>works := works d1 @ [w]\<rparr>) s) (claims (d1\<lparr>works := works d1 @ [w]\<rparr>) s)"
    using work(1) disks [of s] cl by (simp add: view_simps)
  show "keys_ok_db (d1\<lparr>works := works d1 @ [w]\<rparr>)" using keys work(2,3) ids add_work_view(5) [of w d1] by simp
  show "disks_ok r' (disks (d1\<lparr>works := works d1 @ [w]\<rparr>) s)" using ok(1) disks [of s] by (simp add: view_simps)
  have "disk_state (d1\<lparr>works := works d1 @ [w]\<rparr>) r' = disk_state d1 r'" by (rule disk_state_same) simp
  then show "lifecycle_move\<^sup>=\<^sup>= (Some (ss_status r, disk_state d r))
      (Some (ss_status r', disk_state (d1\<lparr>works := works d1 @ [w]\<rparr>) r'))" using move by simp
  show "cw_id v \<in> {n} \<or> (\<exists>u \<in> claims d s. work_evolves (d1\<lparr>works := works d1 @ [w]\<rparr>) u v)"
    if "v \<in> claims (d1\<lparr>works := works d1 @ [w]\<rparr>) s" for v
    using that work cl by (auto simp: view_simps split: if_splits intro!: bexI [of _ v] work_evolves_refl)
  show "claims (d1\<lparr>works := works d1 @ [w]\<rparr>) t = claims d t" if "t \<noteq> s" for t
    using that work(1) cl by (simp add: view_simps)
  show "v \<in> set (works d)" if "v \<in> set (works (d1\<lparr>works := works d1 @ [w]\<rparr>))" "cw_session v = None" for v
    using that work(1) same(1) by auto
  show "session_row (d1\<lparr>works := works d1 @ [w]\<rparr>) t = (if t = s then Some r' else session_row d t)" for t
    using sess by simp
  show "disks (d1\<lparr>works := works d1 @ [w]\<rparr>) t = disks d t" if "t \<noteq> s" for t
    using disks [of t] that by (simp add: view_simps)
  show "row_ids (d1\<lparr>works := works d1 @ [w]\<rparr>) \<subseteq> row_ids d \<union> {n}" using ids work(2) by (auto simp: view_simps)
qed (use evolves same in simp_all)

text \<open>The row and the disk of a session move together.\<close>

lemma bound_rows:
  assumes inv: "session_inv d" and row: "session_row d s = Some r" and p: "p \<in> disks d s" "ss_pvc r = Some (sp_id p)"
    and r': "ss_session r' = s" "ss_pvc r' = ss_pvc r"
    and p': "sp_id p' = sp_id p" "sp_session p' = s" "sp_sandbox p' = ss_sandbox r'" "sp_uid p' = ss_pvc_uid r'"
      "live_disk (ss_status r') (sp_state p')"
    and d1: "d1 = put_pvc p' (put_session r' d)"
  defines "ps \<equiv> insert p' {x \<in> disks d s. sp_id x \<noteq> sp_id p'}"
  shows "session_row d1 t = (if t = s then Some r' else session_row d t)" "disks d1 t = (if t = s then ps else disks d t)"
    "works d1 = works d" "intents d1 = intents d" "keys_ok_db d1" "row_ids d1 = row_ids d" "disks_ok r' ps"
    "disk_state d1 r' = Some (sp_id p, sp_state p')" "p' \<in> ps" "claims d1 t = claims d t"
    "disk_state d r = Some (sp_id p, sp_state p)"
proof -
  note keys = session_invD(1) [OF inv]
  show ds: "disks d1 t = (if t = s then ps else disks d t)" for t
    unfolding d1 ps_def using disks_put_pvc [of "put_session r' d" p p' t] keys p p' by (auto simp: view_simps keys_ok_db_def)
  show k: "keys_ok_db d1" using keys by (simp add: d1 view_simps)
  show "session_row d1 t = (if t = s then Some r' else session_row d t)" "works d1 = works d" "intents d1 = intents d"
    "row_ids d1 = row_ids d" "claims d1 t = claims d t" using row r'(1) by (simp_all add: d1 view_simps)
  show "disks_ok r' ps" unfolding ps_def
    using disks_moved [OF session_rows(1) [OF inv row], of p' r'] p(2) r' p' by simp
  show "p' \<in> ps" by (simp add: ps_def)
  show "disk_state d1 r' = Some (sp_id p, sp_state p')"
    using disk_state_at [OF k, of p' s r'] ds [of s] p(2) r'(2) p'(1) by (simp add: ps_def)
  show "disk_state d r = Some (sp_id p, sp_state p)" by (rule disk_state_at [OF keys p])
qed

lemma current_binding:
  assumes "session_inv d" "session_row d s = Some r" "p \<in> disks d s" "ss_pvc r = Some (sp_id p)"
  shows "sp_session p = s" "sp_sandbox p = ss_sandbox r" "sp_uid p = ss_pvc_uid r" "live_disk (ss_status r) (sp_state p)"
proof -
  obtain q where q: "q \<in> disks d s" "sp_id q = sp_id p" "sp_session q = s" "sp_sandbox q = ss_sandbox r" "sp_uid q = ss_pvc_uid r"
      "live_disk (ss_status r) (sp_state q)"
    by (rule current_disk [OF assms(1,2,4)])
  then have "q = p" using same_disk [OF assms(1) q(1) assms(3)] by simp
  with q show "sp_session p = s" "sp_sandbox p = ss_sandbox r" "sp_uid p = ss_pvc_uid r" "live_disk (ss_status r) (sp_state p)"
    by auto
qed

lemma current_state:
  assumes "session_inv d" "p \<in> disks d s" "ss_pvc r = Some (sp_id p)"
  shows "(\<exists>q \<in> disks d s. ss_pvc r = Some (sp_id q) \<and> sp_state q = x) \<longleftrightarrow> sp_state p = x"
proof -
  have "q = p" if "q \<in> disks d s" "ss_pvc r = Some (sp_id q)" for q
    by (rule same_disk [OF assms(1) that(1) assms(2)]) (use that(2) assms(3) in simp)
  with assms(2,3) show ?thesis by blast
qed

section \<open>Idle\<close>

lemma idle_step:
  assumes inv: "session_inv d" and new: "n \<notin> row_ids d"
    and tx: "idle_session k n s b now inactivity timeout d = Inr (y, d')"
  shows "step_ok {n} d d'"
proof (cases "\<exists>r p. locked d s b = (Some r, Some p) \<and> idle_due r p (now - inactivity)")
  case False
  then have "d' = d" using tx by (auto simp: idle_session_def split: prod.splits option.splits if_splits)
  then show ?thesis using step_ok_refl [OF inv] by simp
next
  case True
  then obtain r p where l: "locked d s b = (Some r, Some p)" and due: "idle_due r p (now - inactivity)" by blast
  note row = lockedD [OF l] and p = locked_disk(2) [OF inv l refl]
  define r' p' where "r' = shutting_down now r" and "p' = moved_pvc VDetaching now p"
  have st: "ss_status r = SReady" "sp_state p = VAttached" using due by (simp_all add: idle_due_def)
  obtain w where w: "new_work k n r' (Some p') WIdle now timeout (sandbox_targets r' True) (put_pvc p' (put_session r' d)) = Inr (w, d')"
    using tx l due by (auto simp: idle_session_def r'_def p'_def bindE_eq_Inr Let_def)
  note w = new_workD [OF w]
  have rp: "ss_session r' = s" "ss_pvc r' = ss_pvc r"
    "sp_id p' = sp_id p" "sp_session p' = s" "sp_sandbox p' = ss_sandbox r'" "sp_uid p' = ss_pvc_uid r'"
    "live_disk (ss_status r') (sp_state p')"
    using row(3) p by (simp_all add: r'_def p'_def shutting_down_def moved_pvc_def live_disk_def)
  note d1 = bound_rows [OF inv row(1) conjunct1 [OF p] conjunct1 [OF conjunct2 [OF p]] rp refl]
  show ?thesis unfolding w(1)
  proof (rule claim_step [OF inv row(1) d1(5,6,1,2,3,4) _ _ _ d1(7) _ _ w(2) new])
    show "in_force r' (insert p' {x \<in> disks d s. sp_id x \<noteq> sp_id p'}) w"
      using w p rp by (simp add: in_force_def work_status_def work_disk_def r'_def p'_def shutting_down_def moved_pvc_def)
    show "lifecycle_move (Some (ss_status r, disk_state d r)) (Some (ss_status r', disk_state (put_pvc p' (put_session r' d)) r'))"
      unfolding d1(8,11) using st move_idle by (simp add: r'_def p'_def shutting_down_def moved_pvc_def)
  qed (use st w rp in \<open>simp_all add: r'_def shutting_down_def row_evolves_def winding_down_def\<close>)
qed

section \<open>The end of retention\<close>

lemma begin_disposalD: "begin_disposal w g now d = Inr (y, d') \<Longrightarrow> quiet d d'"
  by (rule disposal_quiet(1))

lemma reap_step:
  assumes inv: "session_inv d" and new: "n \<notin> row_ids d"
    and tx: "reap k n s b v now inactivity detached timeout d = Inr (y, d')"
  shows "step_ok {n} d d'"
proof (cases "\<exists>r p. locked d s b = (Some r, Some p) \<and> reap_due r p v now inactivity detached")
  case False
  then have "d' = d" using tx by (auto simp: reap_def split: prod.splits option.splits if_splits)
  then show ?thesis using step_ok_refl [OF inv] by simp
next
  case True
  then obtain r p where l: "locked d s b = (Some r, Some p)" and due: "reap_due r p v now inactivity detached" by blast
  note row = lockedD [OF l] and p = locked_disk(2) [OF inv l refl] and keys = session_invD(1) [OF inv]
  define p' where "p' = moved_pvc VDestroying now p"
  have st: "ss_status r = SStopped" "sp_state p = VDetached" using due by (simp_all add: reap_due_def)
  obtain ts w e w' and saved :: "pair_intent option" where w: "new_work k n r (Some p') WReap now timeout ts (put_pvc p' d) = Inr (w, e)"
    and w': "(case find (\<lambda>i. pl_sandbox i = b) (intents d) of
        Some i \<Rightarrow>
          if cw_pair w = None \<and> pi_retired i \<noteq> None
          then bindE (pair_snapshot_of k (pl_session i) (pl_sandbox i) (Some (pl_generation i)) e) (\<lambda>snapshot.
                 Inr (w\<lparr>cw_pair := snapshot, cw_targets := retired_targets i e (cw_targets w)\<rparr>))
          else Inr w
      | None \<Rightarrow> Inr w) = Inr w'"
    and last: "(case saved of None \<Rightarrow> Inr (Some w', put_work w' e)
      | Some i \<Rightarrow> bindE (begin_disposal w' (pl_generation i) now (put_work w' e)) (\<lambda>(_, d3). Inr (Some w', d3))) = Inr (y, d')"
    using tx l due unfolding reap_def p'_def by (auto simp: bindE_eq_Inr Let_def)
  have w': "work_key w' = work_key w"
    using w' by (auto simp: bindE_eq_Inr work_key_eq split: option.splits if_splits)
  have last: "d' = put_work w' e \<or> (\<exists>g y. begin_disposal w' g now (put_work w' e) = Inr (y, d'))"
    using last by (auto simp: bindE_eq_Inr split: option.splits)
  note w = new_workD [OF w]
  have rp: "ss_session r = s" "ss_pvc r = ss_pvc r"
    "sp_id p' = sp_id p" "sp_session p' = s" "sp_sandbox p' = ss_sandbox r" "sp_uid p' = ss_pvc_uid r"
    "live_disk (ss_status r) (sp_state p')"
    using row(3) p st by (simp_all add: p'_def moved_pvc_def live_disk_def)
  have same: "put_session r d = d"
  proof -
    have "put ss_session r (sessions d) = sessions d"
      using row(1,3) keys by (auto simp: put_def keys_ok_db_def distinct_map inj_on_def intro!: map_idI dest!: pick_Some)
    then show ?thesis by (simp add: put_session_def)
  qed
  note d1 = bound_rows [OF inv row(1) conjunct1 [OF p] conjunct1 [OF conjunct2 [OF p]] rp refl, unfolded same]
  have "step_ok {n} d e" unfolding w(1)
  proof (rule claim_step [OF inv row(1) d1(5,6,1,2,3,4) _ _ _ d1(7) _ _ w(2) new])
    show "in_force r (insert p' {x \<in> disks d s. sp_id x \<noteq> sp_id p'}) w"
      using w p st rp by (simp add: in_force_def work_status_def work_disk_def p'_def moved_pvc_def)
    show "lifecycle_move (Some (ss_status r, disk_state d r)) (Some (ss_status r, disk_state (put_pvc p' d) r))"
      unfolding d1(8,11) using st move_expire by (simp add: p'_def moved_pvc_def)
    show "\<not> winding_down r (disks d s)"
      using st p current_state [OF inv, of p s r VDestroying] by (simp add: winding_down_def)
  qed (use w rp in simp_all)
  moreover have "quiet e (put_work w' e)"
  proof (rule quiet_put_work [OF quiet_refl, where w = w])
    show "keys_ok_db e" using \<open>step_ok {n} d e\<close> step_okD(1) session_invD(1) by blast
    then show "get_work e (cw_id w') = Some w"
      using w' w(1) pick_unique [of cw_id "works e" w] by (simp add: keys_ok_db_def work_key_eq)
  qed (fact w')
  ultimately show ?thesis using last step_quiet quiet_trans disposal_quiet(1) by metis
qed

section \<open>Maintenance\<close>

lemma service_step:
  assumes inv: "session_inv d" and new: "n \<notin> row_ids d"
    and tx: "service k n s b now timeout ts d = Inr (y, d')"
  shows "step_ok {n} d d'"
proof (cases "d' = d")
  case False
  obtain r v where l: "locked d s b = (Some r, v)"
    using tx False by (cases "locked d s b"; cases "fst (locked d s b)") (auto simp: service_def)
  note row = lockedD [OF l] and keys = session_invD(1) [OF inv]
  have st: "ss_status r = SStopped" "\<And>p. v = Some p \<Longrightarrow> sp_state p = VDetached"
    using tx False l by (auto simp: service_def split: if_splits option.splits)
  define r' where "r' = in_service now timeout r"
  obtain w where w: "new_work k n r' v WService now timeout ts (put_session r' d) = Inr (w, d')"
    using tx l False by (auto simp: service_def r'_def bindE_eq_Inr Let_def split: if_splits)
  note w = new_workD [OF w]
  have r': "ss_session r' = s" "ss_pvc r' = ss_pvc r" "ss_pvc_uid r' = ss_pvc_uid r" "ss_sandbox r' = ss_sandbox r"
    "ss_status r' = SService" "ss_changed r \<le> ss_changed r'"
    using row(3) by (simp_all add: r'_def in_service_def)
  have view: "session_row (put_session r' d) t = (if t = s then Some r' else session_row d t)" for t
    using row(1) r' by (simp add: view_simps)
  have ds: "disk_state (put_session r' d) x = disk_state d x" for x by (rule disk_state_same) (simp add: view_simps)
  have rows: "disks_ok r (disks d s)" by (rule session_rows [OF inv row(1)])
  show ?thesis
  proof (cases v)
    case None
    then have none: "ss_pvc r = None" using locked_disk(1) [OF inv l] by simp
    have "step_ok {n} d ((put_session r' d)\<lparr>works := works (put_session r' d) @ [w]\<rparr>)"
    proof (rule claim_step [OF inv row(1), where ps = "disks d s" and r' = r'])
      show "disks_ok r' (disks d s)" using disks_none [OF rows none] rows none r' by (simp add: disks_ok_def)
      show "in_force r' (disks d s) w" using w r' none None by (simp add: in_force_def work_status_def)
      show "lifecycle_move (Some (ss_status r, disk_state d r)) (Some (ss_status r', disk_state (put_session r' d) r'))"
        unfolding ds using st none r' move_service by (simp add: disk_state_def)
    qed (use st w r' row none keys new in \<open>simp_all add: view view_simps r'_def in_service_def row_evolves_def winding_down_def\<close>)
    then show ?thesis using w(1) by simp
  next
    case (Some p)
    note p = locked_disk(2) [OF inv l Some]
    have "step_ok {n} d ((put_session r' d)\<lparr>works := works (put_session r' d) @ [w]\<rparr>)"
    proof (rule claim_step [OF inv row(1), where ps = "disks d s" and r' = r'])
      have "disk_of r' (disks d s) p" using p r' st(2) [OF Some] by (simp add: disk_of_def live_disk_def)
      then show "disks_ok r' (disks d s)" using rows p r' by (auto simp: disks_ok_def)
      show "in_force r' (disks d s) w" using w r' p Some st(2) [OF Some] by (auto simp: in_force_def work_status_def work_disk_def)
      have "disk_state d r' = disk_state d r" using r' by (simp add: disk_state_def)
      then show "lifecycle_move (Some (ss_status r, disk_state d r)) (Some (ss_status r', disk_state (put_session r' d) r'))"
        unfolding ds using st p Some r' move_service by simp
      show "\<not> winding_down r (disks d s)"
        using st Some p current_state [OF inv, of p s r VDestroying] by (simp add: winding_down_def)
    qed (use st w r' row keys new in \<open>simp_all add: view view_simps r'_def in_service_def row_evolves_def\<close>)
    then show ?thesis using w(1) by simp
  qed
qed (use step_ok_refl [OF inv] in simp)

end
