(* ===== verification/Session_Ends.thy ===== *)
theory Session_Ends
  imports Session_Moves
begin

text \<open>
  The transactions that end a claim: the completion of a work, with a pair or without, and the end of a
  retention. A caller holds copies of rows, which later transactions may have changed.
\<close>

section \<open>Copies\<close>

definition copy_ok :: "manager_db \<Rightarrow> cleanup_work \<Rightarrow> bool" where
  "copy_ok d u \<longleftrightarrow>
     (cw_kind u = WOrphan \<longleftrightarrow> cw_session u = None) \<and>
     (\<forall>v \<in> set (works d). cw_id v = cw_id u \<longrightarrow> work_evolves d u v)"

definition row_seen :: "manager_db \<Rightarrow> sandbox_session \<Rightarrow> bool" where
  "row_seen d x \<longleftrightarrow> (\<exists>r. session_row d (ss_session x) = Some r \<and> row_evolves x r)"

lemma ownsD:
  assumes "owns d u" "cw_session u = Some s" "cw_kind u \<noteq> WOrphan"
  obtains r v where "locked d s (cw_sandbox u) = (Some r, v)" "work_status (cw_kind u) = Some (ss_status r)"
    "ss_changed r = cw_changed u" "ss_pvc r = cw_pvc u"
    "\<And>p. v = Some p \<Longrightarrow> sp_state p = work_disk (cw_kind u)" "v = None \<Longrightarrow> cw_pvc u = None"
proof -
  obtain r v where l: "locked d s (cw_sandbox u) = (Some r, v)"
    using assms by (cases "locked d s (cw_sandbox u)"; cases "fst (locked d s (cw_sandbox u))") (auto simp: owns_def)
  with assms that [OF l] show thesis by (cases v) (auto simp: owns_def)
qed

text \<open>The stored row of a copy that owns its session is the work in force.\<close>

lemma copy_current:
  assumes "copy_ok d u" "get_work d (cw_id u) = Some st" "owns d u" "cw_session u = Some s"
  shows "st \<in> claims d s" "cw_id st = cw_id u" "cw_kind st = cw_kind u" "cw_kind u \<notin> {WOrphan, WRecovery}" "same_identity u st"
proof -
  from assms(1,4) have kind: "cw_kind u \<noteq> WOrphan" by (auto simp: copy_ok_def)
  obtain r v where l: "locked d s (cw_sandbox u) = (Some r, v)" "work_status (cw_kind u) = Some (ss_status r)" "ss_changed r = cw_changed u"
    by (rule ownsD [OF assms(3,4) kind])
  from pick_Some [OF assms(2)] have st: "st \<in> set (works d)" "cw_id st = cw_id u" by auto
  with assms(1) have ev: "work_evolves d u st" by (simp add: copy_ok_def)
  then show id: "same_identity u st" by (simp add: work_evolves_def)
  show "cw_kind st = cw_kind u" using ev l(3) lockedD(1) [OF l(1)] assms(4) by (auto simp: work_evolves_def)
  show "cw_kind u \<notin> {WOrphan, WRecovery}" using kind l(2) by (auto simp: work_status_def)
  show "st \<in> claims d s" using st(1) id assms(4) by (simp add: claims_iff same_identity_def)
qed (use pick_key [OF assms(2)] in simp)

section \<open>The end of a claim\<close>

lemma release_step:
  assumes inv: "session_inv d" and row: "session_row d s = Some r" and keys: "keys_ok_db d1" and ids: "row_ids d1 \<subseteq> row_ids d"
    and sess: "\<And>t. session_row d1 t = (if t = s then Some r' else session_row d t)"
    and disks: "\<And>t. disks d1 t = (if t = s then ps else disks d t)"
    and same: "works d1 = works d" "intents d1 = intents d"
    and evolves: "row_evolves r r'" "ss_changed r \<le> ss_changed r'" and still: "\<not> winding_down r' ps"
    and ok: "disks_ok r' ps" and st: "st \<in> claims d s" "cw_kind st \<noteq> WRecovery"
    and move: "lifecycle_move (Some (ss_status r, disk_state d r)) (Some (ss_status r', disk_state d1 r'))"
  shows "step_ok new d (drop_work (cw_id st) d1)"
proof (rule row_step [OF inv row])
  have cl: "claims d1 t = claims d t" for t using same(1) by (simp add: claims_def)
  have left: "cw_kind v = WRecovery \<and> cw_changed v \<le> ss_changed r'" if "v \<in> {x \<in> claims d s. cw_id x \<noteq> cw_id st}" for v
    using works_ended [OF session_rows(2) [OF inv row] st that] evolves(2) by auto
  show "works_ok r' (Session_Facts.disks (drop_work (cw_id st) d1) s) (claims (drop_work (cw_id st) d1) s)"
    by (simp add: view_simps cl disks, rule works_quiet [OF left still], simp)
  show "keys_ok_db (drop_work (cw_id st) d1)" using keys by (simp add: view_simps)
  show "disks_ok r' (Session_Facts.disks (drop_work (cw_id st) d1) s)" using ok disks [of s] by (simp add: view_simps)
  have "disk_state (drop_work (cw_id st) d1) r' = disk_state d1 r'" by (rule disk_state_same) (simp add: view_simps)
  then show "lifecycle_move\<^sup>=\<^sup>= (Some (ss_status r, disk_state d r)) (Some (ss_status r', disk_state (drop_work (cw_id st) d1) r'))"
    using move by simp
  show "cw_id v \<in> new \<or> (\<exists>u \<in> claims d s. work_evolves (drop_work (cw_id st) d1) u v)"
    if "v \<in> claims (drop_work (cw_id st) d1) s" for v
    using that cl by (auto simp: view_simps intro!: bexI [of _ v] work_evolves_refl)
  show "claims (drop_work (cw_id st) d1) t = claims d t" if "t \<noteq> s" for t
  proof -
    have "cw_id x \<noteq> cw_id st" if "x \<in> claims d t" for x
    proof
      assume "cw_id x = cw_id st"
      moreover have "distinct (map cw_id (works d))" using session_invD(1) [OF inv] by (simp add: keys_ok_db_def)
      ultimately have "x = st" using that st(1) by (auto simp: claims_iff distinct_map inj_on_def)
      then show False using that st(1) \<open>t \<noteq> s\<close> by (simp add: claims_iff)
    qed
    then show ?thesis using cl by (auto simp: view_simps)
  qed
  show "v \<in> set (works d)" if "v \<in> set (works (drop_work (cw_id st) d1))" "cw_session v = None" for v
    using that same(1) by (auto simp: drop_work_def)
  show "session_row (drop_work (cw_id st) d1) t = (if t = s then Some r' else session_row d t)" for t
    using sess by (simp add: view_simps)
  show "Session_Facts.disks (drop_work (cw_id st) d1) t = Session_Facts.disks d t" if "t \<noteq> s" for t
    using disks [of t] that by (simp add: view_simps)
  show "row_ids (drop_work (cw_id st) d1) \<subseteq> row_ids d \<union> new" using ids row_ids_view(5) by blast
qed (use evolves same in \<open>simp_all add: view_simps\<close>)

text \<open>The disk goes with the binding of the session to it.\<close>

lemma dropped_rows:
  assumes inv: "session_inv d" and row: "session_row d s = Some r" and p: "p \<in> disks d s" "ss_pvc r = Some (sp_id p)"
    and r': "ss_session r' = s" "ss_pvc r' = None" "ss_pvc_uid r' = None" "ss_status r' = SStopped"
    and d1: "d1 = drop_pvc (sp_id p) (put_session r' d)"
  defines "ps \<equiv> {x \<in> disks d s. sp_id x \<noteq> sp_id p}"
  shows "session_row d1 t = (if t = s then Some r' else session_row d t)" "disks d1 t = (if t = s then ps else disks d t)"
    "works d1 = works d" "intents d1 = intents d" "keys_ok_db d1" "row_ids d1 \<subseteq> row_ids d" "disks_ok r' ps"
    "disk_state d1 r' = None" "\<not> winding_down r' ps" "disk_state d r = Some (sp_id p, sp_state p)"
proof -
  note keys = session_invD(1) [OF inv]
  have "sp_id x \<noteq> sp_id p" if "x \<in> disks d t" "t \<noteq> s" for x t
  proof
    assume "sp_id x = sp_id p"
    from disk_found(1) [OF keys that(1)] disk_found(1) [OF keys p(1), folded this] have "x = p" by simp
    then show False using that p(1) by (simp add: disks_def)
  qed
  then have "{x \<in> disks d t. sp_id x \<noteq> sp_id p} = disks d t" if "t \<noteq> s" for t using that by blast
  then show "disks d1 t = (if t = s then ps else disks d t)" by (simp add: d1 ps_def view_simps)
  show "keys_ok_db d1" using keys by (simp add: d1 view_simps)
  show "session_row d1 t = (if t = s then Some r' else session_row d t)" "works d1 = works d" "intents d1 = intents d"
    using row r'(1) by (simp_all add: d1 view_simps)
  have "row_ids d1 \<subseteq> row_ids (put_session r' d)" unfolding d1 by (rule row_ids_view)
  then show "row_ids d1 \<subseteq> row_ids d" by (simp add: view_simps)
  show "disks_ok r' ps" unfolding ps_def using disks_gone [OF session_rows(1) [OF inv row] p(2) r'(2,3)] r'(4) by simp
  show "disk_state d1 r' = None" "\<not> winding_down r' ps" using r' by (simp_all add: winding_down_def)
  show "disk_state d r = Some (sp_id p, sp_state p)" by (rule disk_state_at [OF keys p])
qed

lemma orphan_gone:
  assumes inv: "session_inv d" and kind: "\<And>v. v \<in> set (works d) \<Longrightarrow> cw_id v = i \<Longrightarrow> cw_session v = None"
  shows "step_ok new d (drop_work i d)"
proof -
  have cl: "claims (drop_work i d) t = claims d t" for t using kind by (auto simp: view_simps claims_iff)
  show ?thesis
    unfolding step_ok_def
  proof (intro conjI allI impI ballI)
    show "session_inv (drop_work i d)"
      unfolding session_inv_def
    proof (intro conjI allI ballI impI)
      show "keys_ok_db (drop_work i d)" using session_invD(1) [OF inv] by (simp add: view_simps)
      show "local_ok (session_row (drop_work i d) t) (disks (drop_work i d) t) (claims (drop_work i d) t)" for t
        using session_invD(2) [OF inv, of t] cl by (simp add: view_simps)
    qed (use session_invD(3,4) [OF inv] in \<open>auto simp: view_simps drop_work_def\<close>)
    have "disk_state (drop_work i d) r = disk_state d r" for r by (rule disk_state_same) (simp add: view_simps)
    then show "lifecycle_move\<^sup>=\<^sup>= (lifecycle d t) (lifecycle (drop_work i d) t)" for t by (simp add: lifecycle_def view_simps)
    show "row_ids (drop_work i d) \<subseteq> row_ids d \<union> new" using row_ids_view(5) by blast
    show "\<exists>r'. session_row (drop_work i d) t = Some r' \<and> row_evolves r r'" if "session_row d t = Some r" for t r
      using that by (simp add: view_simps)
    show "cw_id v \<in> new \<or> (\<exists>w \<in> set (works d). work_evolves (drop_work i d) w v)" if "v \<in> set (works (drop_work i d))" for v
      using that by (auto simp: drop_work_def intro!: bexI [of _ v] work_evolves_refl)
  qed
qed

lemma copy_orphan:
  assumes "copy_ok d u" "cw_session u = None" "v \<in> set (works d)" "cw_id v = cw_id u"
  shows "cw_session v = None"
  using assms by (auto simp: copy_ok_def work_evolves_def same_identity_def)

text \<open>A copy of the work in force, with the row and the disk under the locks.\<close>

definition claim_held :: "manager_db \<Rightarrow> cleanup_work \<Rightarrow> cleanup_work \<Rightarrow> nat \<Rightarrow> sandbox_session \<Rightarrow> session_pvc option \<Rightarrow> bool" where
  "claim_held d u st s r v \<longleftrightarrow>
     copy_ok d u \<and> get_work d (cw_id u) = Some st \<and> owns d u \<and> cw_session u = Some s \<and>
     locked d s (cw_sandbox u) = (Some r, v)"

lemma claim_heldD:
  assumes "claim_held d u st s r v"
  shows "st \<in> claims d s" "cw_kind st \<noteq> WRecovery" "cw_id st = cw_id u" "cw_kind u \<in> {WIdle, WReap, WService}"
    "work_status (cw_kind u) = Some (ss_status r)" "v = Some p \<Longrightarrow> sp_state p = work_disk (cw_kind u)"
    "session_row d s = Some r" "ss_session r = s" "locked d s (cw_sandbox u) = (Some r, v)" "ss_pvc r = cw_pvc u"
proof -
  note h = assms [unfolded claim_held_def]
  have cur: "st \<in> claims d s" "cw_id st = cw_id u" "cw_kind st = cw_kind u" "cw_kind u \<notin> {WOrphan, WRecovery}"
    using copy_current h by blast+
  then show "st \<in> claims d s" "cw_id st = cw_id u" "cw_kind st \<noteq> WRecovery" "cw_kind u \<in> {WIdle, WReap, WService}"
    by simp_all (cases "cw_kind u"; simp)
  obtain r0 v0 where "locked d s (cw_sandbox u) = (Some r0, v0)" "work_status (cw_kind u) = Some (ss_status r0)"
    "\<And>p. v0 = Some p \<Longrightarrow> sp_state p = work_disk (cw_kind u)" "ss_pvc r0 = cw_pvc u" using ownsD [of d u s thesis] h cur(4) that by simp
  with h show "work_status (cw_kind u) = Some (ss_status r)" "v = Some p \<Longrightarrow> sp_state p = work_disk (cw_kind u)"
    "ss_pvc r = cw_pvc u" by auto
  show "session_row d s = Some r" "ss_session r = s" "locked d s (cw_sandbox u) = (Some r, v)"
    using h lockedD [of d s "cw_sandbox u" r v] by auto
qed

lemma retained_end:
  assumes inv: "session_inv d" and held: "claim_held d u st s r (Some p)" and kind: "cw_kind u = WIdle"
    and r': "ss_session r' = ss_session r" "ss_pvc r' = ss_pvc r" "ss_pvc_uid r' = ss_pvc_uid r" "ss_sandbox r' = ss_sandbox r"
      "ss_project r' = ss_project r" "ss_status r' = SStopped" "ss_changed r < ss_changed r'"
    and p': "sp_id p' = sp_id p" "sp_session p' = sp_session p" "sp_sandbox p' = sp_sandbox p" "sp_uid p' = sp_uid p" "sp_state p' = VDetached"
  shows "step_ok new d (drop_work (cw_id u) (put_pvc p' (put_session r' d)))"
proof -
  note h = claim_heldD [OF held] and p = locked_disk(2) [OF inv claim_heldD(9) [OF held] refl]
  have st: "ss_status r = SShuttingDown" "sp_state p = VDetaching" using h(5) h(6) [OF refl] kind by (simp_all add: work_status_def work_disk_def)
  have rp: "ss_session r' = s" "sp_session p' = s" "sp_sandbox p' = ss_sandbox r'" "sp_uid p' = ss_pvc_uid r'"
    "live_disk (ss_status r') (sp_state p')" using r' p' p h(8) by (simp_all add: live_disk_def)
  note dd = bound_rows [OF inv h(7) conjunct1 [OF p] conjunct1 [OF conjunct2 [OF p]] rp(1) r'(2) p'(1) rp(2-5) refl]
  show ?thesis unfolding h(3) [symmetric]
  proof (rule release_step [OF inv h(7) dd(5) _ dd(1,2,3,4) _ _ _ dd(7) h(1,2)])
    show "lifecycle_move (Some (ss_status r, disk_state d r)) (Some (ss_status r', disk_state (put_pvc p' (put_session r' d)) r'))"
      unfolding dd(8,11) using st r'(6) p'(5) move_retain by simp
    show "\<not> winding_down r' (insert p' {x \<in> disks d s. sp_id x \<noteq> sp_id p'})"
      using r'(2,6) p p' by (auto simp: winding_down_def)
  qed (use r' dd(6) in \<open>simp_all add: row_evolves_def\<close>)
qed

lemma destroyed_end:
  assumes inv: "session_inv d" and held: "claim_held d u st s r (Some p)" and kind: "cw_kind u \<in> {WReap, WService}"
    and r': "ss_session r' = ss_session r" "ss_pvc r' = None" "ss_pvc_uid r' = None" "row_evolves r r'" "ss_status r' = SStopped"
      "ss_changed r \<le> ss_changed r'"
  shows "step_ok new d (drop_work (cw_id u) (drop_pvc (sp_id p) (put_session r' d)))"
proof -
  note h = claim_heldD [OF held] and p = locked_disk(2) [OF inv claim_heldD(9) [OF held] refl]
  have sess: "ss_session r' = s" using r'(1) h(8) by simp
  note dd = dropped_rows [OF inv h(7) conjunct1 [OF p] conjunct1 [OF conjunct2 [OF p]] sess r'(2,3,5) refl]
  show ?thesis unfolding h(3) [symmetric]
  proof (rule release_step [OF inv h(7) dd(5,6,1,2,3,4) r'(4,6) dd(9,7) h(1,2)])
    show "lifecycle_move (Some (ss_status r, disk_state d r))
        (Some (ss_status r', disk_state (drop_pvc (sp_id p) (put_session r' d)) r'))"
      unfolding dd(8,10) using kind h(5) h(6) [OF refl] r'(5) move_destroyed move_emptied
      by (auto simp: work_status_def work_disk_def)
  qed
qed

lemma row_only:
  assumes "session_inv d" "session_row d s = Some r" "ss_session r' = s"
  shows "session_row (put_session r' d) t = (if t = s then Some r' else session_row d t)"
    "disks (put_session r' d) t = (if t = s then disks d s else disks d t)" "keys_ok_db (put_session r' d)"
    "disk_state (put_session r' d) x = disk_state d x" "claims (put_session r' d) t = claims d t"
  using assms session_invD(1) [OF assms(1)] disk_state_same [of "put_session r' d" d x] by (simp_all add: view_simps)

lemma emptied_end:
  assumes inv: "session_inv d" and held: "claim_held d u st s r None" and kind: "cw_kind u = WService"
    and r': "ss_session r' = ss_session r" "ss_pvc r' = None" "ss_pvc_uid r' = None" "row_evolves r r'" "ss_status r' = SStopped"
      "ss_changed r \<le> ss_changed r'"
  shows "step_ok new d (drop_work (cw_id u) (put_session r' d))"
proof -
  note h = claim_heldD [OF held] and none = locked_disk(1) [OF inv claim_heldD(9) [OF held] refl]
  note view = row_only [OF inv h(7), of r', unfolded r'(1) h(8), OF refl]
  show ?thesis unfolding h(3) [symmetric]
  proof (rule release_step [OF inv h(7), where r' = r' and ps = "disks d s"])
    show "disks_ok r' (disks d s)" using disks_none [OF session_rows(1) [OF inv h(7)] none] r' by simp
    show "lifecycle_move (Some (ss_status r, disk_state d r)) (Some (ss_status r', disk_state (put_session r' d) r'))"
      unfolding view(4) using h(5) kind r' none move_emptied by (simp add: work_status_def)
  qed (use h(1,2) r' view in \<open>simp_all add: view_simps winding_down_def\<close>)
qed

lemma served_end:
  assumes inv: "session_inv d" and held: "claim_held d u st s r (Some p)" and kind: "cw_kind u = WService"
    and r': "ss_session r' = ss_session r" "ss_pvc r' = ss_pvc r" "ss_pvc_uid r' = ss_pvc_uid r" "ss_sandbox r' = ss_sandbox r"
      "row_evolves r r'" "ss_status r' = SStopped" "ss_changed r \<le> ss_changed r'"
  shows "step_ok new d (drop_work (cw_id u) (put_session r' d))"
proof -
  note h = claim_heldD [OF held] and p = locked_disk(2) [OF inv claim_heldD(9) [OF held] refl]
  note view = row_only [OF inv h(7), of r', unfolded r'(1) h(8), OF refl]
  have st: "ss_status r = SService" "sp_state p = VDetached" using h(5) h(6) [OF refl] kind by (simp_all add: work_status_def work_disk_def)
  show ?thesis unfolding h(3) [symmetric]
  proof (rule release_step [OF inv h(7), where r' = r' and ps = "disks d s"])
    have "disk_of r' (disks d s) p" using p r' st by (simp add: disk_of_def live_disk_def)
    then show "disks_ok r' (disks d s)" using session_rows(1) [OF inv h(7)] p r' by (auto simp: disks_ok_def)
    have "disk_state d r' = disk_state d r" using r' by (simp add: disk_state_def)
    then show "lifecycle_move (Some (ss_status r, disk_state d r)) (Some (ss_status r', disk_state (put_session r' d) r'))"
      unfolding view(4) using st r' move_served by simp
    show "\<not> winding_down r' (disks d s)"
      using r' p st current_state [OF inv, of p s r VDestroying] by (simp add: winding_down_def)
  qed (use h(1,2) r' view in \<open>simp_all add: view_simps\<close>)
qed

section \<open>Completion without a pair\<close>

lemma complete_step:
  assumes inv: "session_inv d" and copy: "copy_ok d u" and tx: "complete_work u now d = Inr (y, d')"
  shows "step_ok new d d'"
proof (cases "d' = d")
  case False
  with tx obtain st where own: "owns d u" and st: "get_work d (cw_id u) = Some st"
    by (auto simp: complete_work_def split: if_splits option.splits)
  then have id: "cw_id st = cw_id u" by (simp add: pick_key)
  show ?thesis
  proof (cases "cw_session u")
    case None
    then have "d' = drop_work (cw_id u) d" using tx False own st id by (auto simp: complete_work_def split: if_splits)
    then show ?thesis using orphan_gone [OF inv] copy_orphan [OF copy None] by simp
  next
    case (Some s)
    obtain r v where l: "locked d s (cw_sandbox u) = (Some r, v)"
      using tx False own st Some by (cases "locked d s (cw_sandbox u)"; cases "fst (locked d s (cw_sandbox u))")
        (auto simp: complete_work_def split: if_splits)
    then have held: "claim_held d u st s r v" using copy own st Some by (simp add: claim_held_def)
    note h = claim_heldD [OF held]
    define r' where "r' = completed_session (cw_kind u) now r"
    have tx': "(case (cw_kind u, v) of
               (WReap, Some p) \<Rightarrow> Inr (True, drop_work (cw_id u) (drop_pvc (sp_id p) (put_session r' d)))
             | (WReap, None) \<Rightarrow> Inl (OtherError ''AssertionError'')
             | (WIdle, None) \<Rightarrow> Inl (OtherError ''AssertionError'')
             | (WIdle, Some p) \<Rightarrow>
                 (case find t_retain (cw_targets u) of
                    None \<Rightarrow> Inl (OtherError ''StopIteration'')
                  | Some t \<Rightarrow>
                      Inr (True, drop_work (cw_id u) (put_pvc ((moved_pvc VDetached now p)\<lparr>sp_evidence := Some t\<rparr>) (put_session r' d))))
             | _ \<Rightarrow> Inr (True, drop_work (cw_id u) (put_session r' d))) = Inr (y, d')"
      using tx False own st Some l unfolding r'_def id [symmetric] by (simp add: complete_work_def Let_def id split: if_splits)
    consider (idle) p t where "cw_kind u = WIdle" "v = Some p"
        "d' = drop_work (cw_id u) (put_pvc ((moved_pvc VDetached now p)\<lparr>sp_evidence := Some t\<rparr>) (put_session r' d))"
      | (reap) p where "cw_kind u = WReap" "v = Some p" "d' = drop_work (cw_id u) (drop_pvc (sp_id p) (put_session r' d))"
      | (service) "cw_kind u = WService" "d' = drop_work (cw_id u) (put_session r' d)"
      using tx' h(4) by (auto split: option.splits)
    then show ?thesis
    proof cases
      case (idle p t)
      then show ?thesis using retained_end [OF inv held [unfolded idle(2)]]
        by (simp add: r'_def completed_session_def cleared_def moved_pvc_def)
    next
      case (reap p)
      then show ?thesis using destroyed_end [OF inv held [unfolded reap(2)], of r'] h(5)
        by (simp add: r'_def completed_session_def row_evolves_def work_status_def)
    next
      case service
      show ?thesis
      proof (cases v)
        case None
        then show ?thesis using emptied_end [OF inv held [unfolded None], of r'] service locked_disk(1) [OF inv l None]
            session_rows(1) [OF inv h(7)]
          by (simp add: r'_def completed_session_def cleared_def row_evolves_def disks_ok_def)
      next
        case (Some p)
        then show ?thesis using served_end [OF inv held [unfolded Some], of r'] service
          by (simp add: r'_def completed_session_def cleared_def row_evolves_def)
      qed
    qed
  qed
qed (use step_ok_refl [OF inv] in simp)

section \<open>Completion with a pair\<close>

lemma quiet_locked:
  assumes "quiet d d'"
  shows "map_prod (map_option row_key) (map_option pvc_key) (locked d' s b)
    = map_prod (map_option row_key) (map_option pvc_key) (locked d s b)"
proof (cases "session_row d s")
  case None
  with quiet_sessions [OF assms, of s] show ?thesis by (simp add: locked_def)
next
  case (Some r)
  then obtain r' where r': "session_row d' s = Some r'" "row_key r' = row_key r" by (rule quiet_row [OF assms])
  with Some quiet_views(2) [OF assms] show ?thesis by (cases "ss_pvc r") (simp_all add: locked_def row_key_eq)
qed

lemma quiet_owns:
  assumes "quiet d d'"
  shows "owns d' w = owns d w"
proof (cases "cw_session w")
  case (Some s)
  obtain a v a' v' where l: "locked d s (cw_sandbox w) = (a, v)" "locked d' s (cw_sandbox w) = (a', v')" by fastforce
  with quiet_locked [OF assms, of s "cw_sandbox w"]
  have "map_option row_key a' = map_option row_key a" "map_option pvc_key v' = map_option pvc_key v" by simp_all
  then show ?thesis unfolding owns_def Some option.case l prod.case
    by (cases a; cases a'; cases v; cases v') (simp_all add: row_key_eq pvc_key_eq)
qed (simp add: owns_def)

lemma quiet_copy:
  assumes "quiet d d'" "copy_ok d u"
  shows "copy_ok d' u"
  unfolding copy_ok_def
proof (intro conjI ballI impI)
  show "(cw_kind u = WOrphan) = (cw_session u = None)" using assms(2) by (simp add: copy_ok_def)
  fix v assume v: "v \<in> set (works d')" "cw_id v = cw_id u"
  obtain w where w: "w \<in> set (works d)" "work_key w = work_key v" by (rule image_twin [OF quiet_views(5) [OF assms(1)] v(1)])
  then have "work_evolves d u w" using assms(2) v(2) by (simp add: copy_ok_def work_key_eq)
  moreover have "(case session_row d' s of None \<Rightarrow> False | Some r \<Rightarrow> t < ss_changed r)
      = (case session_row d s of None \<Rightarrow> False | Some r \<Rightarrow> t < ss_changed r)" for s t
    using quiet_views(1) [OF assms(1), of s] by (cases "session_row d s"; cases "session_row d' s") (auto simp: row_key_eq)
  ultimately show "work_evolves d' u v"
    using w(2) by (simp add: work_evolves_def same_identity_def work_key_eq cong: option.case_cong)
qed

lemma quiet_found: "quiet d d' \<Longrightarrow> get_work d i = None \<longleftrightarrow> get_work d' i = None"
  using pick_map [of work_key "works d'" "works d" cw_id i] by (auto simp: quiet_def work_key_eq)

lemma retireD:
  assumes "retire k u now claim d = Inr (y, d')"
  shows "cw_kind u \<in> {WIdle, WReap, WService} \<Longrightarrow> owns d u" "cw_kind u = WOrphan \<Longrightarrow> cw_session u = None"
    "cw_kind u \<in> {WIdle, WReap, WService} \<Longrightarrow> get_work d (cw_id u) \<noteq> None" "quiet d d'"
proof -
  obtain st b where st: "owned_pair_cleanup k u now claim d = Inr st" "cleanup_pair k st = Inr b"
    using assms by (auto simp: retire_def bindE_eq_Inr)
  show "cw_kind u = WOrphan \<Longrightarrow> cw_session u = None" using st(1) by (auto simp: owned_pair_cleanup_def split: if_splits)
  have "cw_pair st \<noteq> None" using cleanup_pairD [OF st(2)] by auto
  then show "owns d u" "get_work d (cw_id u) \<noteq> None" if "cw_kind u \<in> {WIdle, WReap, WService}"
    using owned_cleanupD [OF st(1)] that by auto
  show "quiet d d'" by (rule retire_quiet [OF assms])
qed

lemma retired_held:
  assumes "copy_ok d u" "retire k u now claim d = Inr (y, e)" "cw_session u = Some s"
    and "cw_kind u \<in> {WIdle, WReap, WService}"
  obtains st r v where "claim_held e u st s r v"
proof -
  note q = retireD(4) [OF assms(2)]
  have own: "owns e u" using retireD(1) [OF assms(2,4)] quiet_owns [OF q] by simp
  obtain st where st: "get_work e (cw_id u) = Some st" using retireD(3) [OF assms(2,4)] quiet_found [OF q] by auto
  have "cw_kind u \<noteq> WOrphan" using assms(4) by auto
  then obtain r v where "locked e s (cw_sandbox u) = (Some r, v)" using ownsD [OF own assms(3)] by blast
  with own st quiet_copy [OF q assms(1)] assms(3) that show thesis by (simp add: claim_held_def)
qed

lemma diskless_held:
  assumes "session_inv d" "claim_held d u st s r None"
  shows "cw_kind u = WService"
proof -
  note h = claim_heldD [OF assms(2)]
  have "in_force r (disks d s) st" using session_rows(2) [OF assms(1) h(7)] h(1,2) by (simp add: works_ok_def)
  then have "cw_kind st = WService" using locked_disk(1) [OF assms(1) h(9) refl] by (simp add: in_force_def)
  moreover have "cw_kind st = cw_kind u" using assms(2) unfolding claim_held_def by (blast intro: copy_current(3))
  ultimately show ?thesis by simp
qed

lemma finish_idle_step:
  assumes inv: "session_inv d" and copy: "copy_ok d u" and tx: "finish_idle k u now d = Inr (y, d')"
  shows "step_ok new d d'"
proof -
  obtain s i where u: "cw_kind u = WIdle" "cw_session u = Some s" "cw_pvc u = Some i"
    using tx by (auto simp: finish_idle_def split: work_kind.splits option.splits)
  obtain b e where ret: "retire k u now None d = Inr (b, e)"
    using tx u by (auto simp: finish_idle_def bindE_eq_Inr)
  note q = retireD(4) [OF ret] and inv' = quiet_inv [OF retireD(4) [OF ret] inv]
  obtain st r v where held: "claim_held e u st s r v" using retired_held [OF copy ret u(2)] u(1) by blast
  note h = claim_heldD [OF held]
  have "e = d' \<and> \<not> b \<or> b \<and> (\<exists>p t. get_pvc e i = Some p \<and>
      d' = drop_work (cw_id u) (put_pvc (p\<lparr>sp_state := VDetached, sp_changed := advance (sp_changed p) now, sp_evidence := Some t\<rparr>)
             (put_session (stopped_pair now r) e)))"
    using tx u ret h(7) by (auto simp: finish_idle_def split: option.splits if_splits)
  then show ?thesis
  proof (elim disjE conjE exE)
    fix p t
    assume p: "get_pvc e i = Some p" and d': "d' = drop_work (cw_id u) (put_pvc (p\<lparr>sp_state := VDetached,
      sp_changed := advance (sp_changed p) now, sp_evidence := Some t\<rparr>) (put_session (stopped_pair now r) e))"
    have "v = Some p" using h(9,10) u(3) p lockedD(4) [OF h(9)] by simp
    then have "step_ok new e d'" unfolding d' using retained_end [OF inv' _ u(1)] held
      by (simp add: stopped_pair_def cleared_def)
    then show ?thesis by (rule quiet_step [OF q])
  qed (use quiet_ok [OF inv q] in simp)
qed

lemma finish_destroyed_step:
  assumes inv: "session_inv d" and copy: "copy_ok d u" and tx: "finish_destroyed k n u now d = Inr (y, d')"
  shows "step_ok new d d'"
proof -
  have kind: "cw_kind u \<in> {WOrphan, WService, WReap}" using tx by (auto simp: finish_destroyed_def split: if_splits)
  obtain b e where ret: "retire k u now None d = Inr (b, e)"
    using tx kind by (auto simp: finish_destroyed_def bindE_eq_Inr)
  note q = retireD(4) [OF ret] and inv' = quiet_inv [OF retireD(4) [OF ret] inv]
  consider "\<not> b" "d' = e" | (orphan) "cw_session u = None" "d' = drop_work (cw_id u) e"
    | (claim) s where b "cw_session u = Some s"
    using tx ret kind by (cases "cw_session u") (auto simp: finish_destroyed_def split: if_splits)
  then show ?thesis
  proof cases
    case orphan
    show ?thesis unfolding orphan(2)
      using quiet_step [OF q orphan_gone [OF inv']] copy_orphan [OF quiet_copy [OF q copy] orphan(1)] by blast
  next
    case (claim s)
    have k: "cw_kind u \<in> {WReap, WService}" using kind claim(2) copy by (auto simp: copy_ok_def)
    then obtain st r v where held: "claim_held e u st s r v" using retired_held [OF copy ret claim(2)] by blast
    note h = claim_heldD [OF held]
    define r' where "r' = destroyed_session n now r"
    have r': "ss_session r' = ss_session r" "ss_pvc r' = None" "ss_pvc_uid r' = None" "row_evolves r r'" "ss_status r' = SStopped"
      "ss_changed r \<le> ss_changed r'"
      by (simp_all add: r'_def destroyed_session_def stopped_pair_def cleared_def row_evolves_def)
    have "step_ok new e d'"
    proof (cases v)
      case None
      have "cw_kind u = WService" by (rule diskless_held [OF inv' held [unfolded None]])
      with emptied_end [OF inv' held [unfolded None] _ r'] tx kind ret claim h(9) None show ?thesis
        by (simp add: finish_destroyed_def r'_def)
    next
      case (Some p)
      have "drop_pvc i (put_session x e) = put_session x (drop_pvc i e)" for i x
        by (simp add: drop_pvc_def put_session_def)
      with Some destroyed_end [OF inv' held [unfolded Some] k r'] tx kind ret claim h(9) show ?thesis
        by (simp add: finish_destroyed_def r'_def split: if_splits)
    qed
    then show ?thesis by (rule quiet_step [OF q])
  qed (use quiet_ok [OF inv q] in simp)
qed

section \<open>The end of an expiry\<close>

lemma owned_disposalD:
  assumes "owned_disposal w d = Inr x"
  obtains st where "owns d w" "get_work d (cw_id w) = Some st" "cw_kind st = WReap \<Longrightarrow> cw_session st = Some (pd_session x)"
    "cw_kind st \<in> {WReap, WOrphan}" "cw_sandbox st = pd_sandbox x" "cw_sandbox w = cw_sandbox st" "cw_session w = cw_session st"
proof -
  have own: "owns d w" using assms by (simp add: owned_disposal_def split: if_splits)
  then obtain st where st: "get_work d (cw_id w) = Some st" "disposal_work_ok st w x"
    using assms by (cases "get_work d (cw_id w)"; cases "pick pd_work (cw_id w) (disposals d)")
      (auto simp: owned_disposal_def bindE_eq_Inr split: if_splits)
  show thesis by (rule that [OF own st(1)]) (use st(2) in \<open>auto simp: disposal_work_ok_def\<close>)
qed

lemma finish_disposal_step:
  assumes inv: "session_inv d" and copy: "copy_ok d u" and tx: "finish_disposal n u now d = Inr (y, d')"
  shows "step_ok new d d'"
proof -
  obtain x where x: "owned_disposal u d = Inr x" using tx by (auto simp: finish_disposal_def bindE_eq_Inr)
  obtain st where st: "owns d u" "get_work d (cw_id u) = Some st" "cw_kind st = WReap \<Longrightarrow> cw_session st = Some (pd_session x)"
    "cw_kind st \<in> {WReap, WOrphan}" "cw_sandbox st = pd_sandbox x" "cw_sandbox u = cw_sandbox st" "cw_session u = cw_session st"
    using owned_disposalD [OF x] by blast
  have swap: "drop_work i (complete_disposal now x e) = complete_disposal now x (drop_work i e)" for i e
    by (simp add: drop_work_def complete_disposal_def)
  show ?thesis
  proof (cases "cw_session u")
    case None
    then have "cw_kind u = WOrphan" using copy by (simp add: copy_ok_def)
    then have "d' = complete_disposal now x (drop_work (cw_id u) d)"
      using tx x by (simp add: finish_disposal_def swap)
    moreover have "step_ok new d (drop_work (cw_id u) d)" using orphan_gone [OF inv] copy_orphan [OF copy None] by blast
    ultimately show ?thesis using step_quiet [OF _ disposal_quiet(2) [OF quiet_refl]] by simp
  next
    case (Some s)
    note cur = copy_current [OF copy st(2,1) Some]
    have kind: "cw_kind u = WReap" using cur(3,4) st(4) by auto
    then have ids: "pd_session x = s" "pd_sandbox x = cw_sandbox u" using st cur Some by simp_all
    obtain r p where l: "locked d s (cw_sandbox u) = (Some r, Some p)"
      and d': "d' = drop_work (cw_id u) (complete_disposal now x (drop_pvc (sp_id p)
        (put_session (r\<lparr>ss_pvc := None, ss_pvc_uid := None, ss_sandbox := n, ss_changed := advance (ss_changed r) now\<rparr>) d)))"
      using tx x kind by (auto simp: finish_disposal_def bindE_eq_Inr ids split: option.splits prod.splits if_splits)
    have held: "claim_held d u st s r (Some p)" using copy st Some l by (simp add: claim_held_def)
    have "ss_status r = SStopped" using claim_heldD(5) [OF held] kind by (simp add: work_status_def)
    then have "step_ok new d (drop_work (cw_id u) (drop_pvc (sp_id p)
        (put_session (r\<lparr>ss_pvc := None, ss_pvc_uid := None, ss_sandbox := n, ss_changed := advance (ss_changed r) now\<rparr>) d)))"
      using destroyed_end [OF inv held] kind by (simp add: row_evolves_def)
    then show ?thesis unfolding d' swap by (rule step_quiet) (rule disposal_quiet(2) [OF quiet_refl])
  qed
qed

lemma revalidate_step:
  assumes inv: "session_inv d" and copy: "copy_ok d u" and tx: "revalidate_target m u d = Inr (y, d')"
  shows "step_ok new d d'"
proof (cases "d' = d")
  case False
  then have "d' = drop_work (cw_id u) d" "cw_kind u = WOrphan"
    using tx by (auto simp: revalidate_target_def split: if_splits option.splits)
  then show ?thesis using orphan_gone [OF inv] copy_orphan [OF copy] copy by (auto simp: copy_ok_def)
qed (use step_ok_refl [OF inv] in simp)

end
