(* ===== verification/Session_Begins.thy ===== *)
theory Session_Begins
  imports Session_Ends
begin

text \<open>
  The transactions that begin a life of a sandbox: the first row, the claim of a creator, what it records,
  readiness, failure, and recovery.
\<close>

section \<open>A session without a claim on it\<close>

text \<open>The rule for a transaction that only recoveries accompany: nothing winds down before or after it.\<close>

lemma open_step:
  assumes inv: "session_inv d" and row: "session_row d s = Some r" and keys: "keys_ok_db d'"
    and sess: "\<And>t. session_row d' t = (if t = s then Some r' else session_row d t)"
    and disks: "\<And>t. disks d' t = (if t = s then ps else disks d t)"
    and same: "works d' = works d" "intents d' = intents d"
    and evolves: "row_evolves r r'" "ss_changed r \<le> ss_changed r'"
    and still: "\<not> winding_down r (disks d s)" "\<not> winding_down r' ps" and ok: "disks_ok r' ps"
    and ids: "row_ids d' \<subseteq> row_ids d \<union> new"
    and move: "lifecycle_move\<^sup>=\<^sup>= (Some (ss_status r, disk_state d r)) (Some (ss_status r', disk_state d' r'))"
  shows "step_ok new d d'"
proof (rule row_step [OF inv row keys sess _ _ evolves(1) _ _ _ _ same(2) ids move])
  have cl: "claims d' t = claims d t" for t using same(1) by (simp add: claims_def)
  have "cw_kind v = WRecovery \<and> cw_changed v \<le> ss_changed r'" if "v \<in> claims d s" for v
    using quiet_claims [OF session_rows(2) [OF inv row] still(1) that] evolves(2) by simp
  from works_quiet [OF this still(2)] show "works_ok r' (Session_Facts.disks d' s) (claims d' s)"
    using disks [of s] cl by simp
  show "cw_id v \<in> new \<or> (\<exists>w \<in> claims d s. work_evolves d' w v)" if "v \<in> claims d' s" for v
    using that cl by (auto intro!: bexI [of _ v] work_evolves_refl)
  show "claims d' t = claims d t" for t by (rule cl)
qed (use disks ok same in auto)

lemma bare_row:
  assumes "session_inv d" "session_row d s = Some r" "ss_status r \<in> {SPending, SRecovering}"
  shows "ss_pvc r = None" "\<not> winding_down r (disks d s)" "ss_pvc_uid r = None"
proof -
  have d: "disks_ok r (disks d s)" by (rule session_rows [OF assms(1,2)])
  then show "ss_pvc r = None" using assms(3) by (cases "ss_pvc r") (auto simp: disks_ok_def disk_of_def live_disk_def)
  with d show "ss_pvc_uid r = None" by (simp add: disks_ok_def)
  show "\<not> winding_down r (disks d s)" using assms(3) by (auto simp: winding_down_def)
qed

section \<open>The first row\<close>

lemma insert_step:
  assumes inv: "session_inv d" and tx: "insert_pending s b golden now project d = Inr (y, d')"
  shows "step_ok new d d'"
proof (cases "d' = d")
  case False
  define r where "r = pending_session s b golden now project"
  have none: "session_row d s = None" and d': "d' = d\<lparr>sessions := sessions d @ [r]\<rparr>"
    using tx False by (auto simp: insert_pending_def r_def bindE_eq_Inr Let_def split: if_splits)
  note keys = session_invD(1) [OF inv]
  have r: "ss_session r = s" "ss_status r = SPending" "ss_pvc r = None" "ss_pvc_uid r = None"
    by (simp_all add: r_def pending_session_def)
  have empty: "disks d s = {}" "claims d s = {}" using session_invD(2) [OF inv, of s] none by (simp_all add: local_ok_def)
  have rows: "session_row d' t = (if t = s then Some r else session_row d t)" for t
    using none r(1) by (simp add: d' pick_append split: option.split)
  have same: "disks d' t = disks d t" "claims d' t = claims d t" for t by (simp_all add: d' disks_def claims_def)
  show ?thesis
  proof (rule step_okI [OF inv, where s = s])
    have "s \<notin> ss_session ` set (sessions d)" using none by (auto simp: pick_None)
    then show "keys_ok_db d'" using keys r(1) by (auto simp: d' keys_ok_db_def)
    show "local_ok (session_row d' s) (disks d' s) (claims d' s)"
      using r by (simp add: rows same empty local_ok_def disks_ok_def works_ok_def winding_down_def)
    show "cw_kind v = WOrphan \<and> (cw_id v \<in> new \<or> (\<exists>w \<in> set (works d). work_evolves d' w v))"
      if "v \<in> set (works d')" "cw_session v = None" for v
      using that session_invD(3) [OF inv, of v] by (auto simp: d' intro!: bexI [of _ v] work_evolves_refl)
    show "lifecycle_move\<^sup>=\<^sup>= (lifecycle d s) (lifecycle d' s)"
      using none r move_insert by (simp add: lifecycle_def rows)
  qed (use none rows same empty in \<open>auto simp: d' row_ids_def\<close>)
qed (use step_ok_refl [OF inv] in simp)

section \<open>The claim of a creator\<close>

definition claimed_db :: "nat \<Rightarrow> sandbox_session \<Rightarrow> nat \<Rightarrow> int \<Rightarrow> manager_db \<Rightarrow> manager_db" where
  "claimed_db n r owner now d =
     put_session (claimed_session owner now (r\<lparr>ss_pvc := Some n, ss_pvc_uid := None\<rparr>)) (d\<lparr>pvcs := pvcs d @ [new_pvc n r now]\<rparr>)"

lemma claim_sessionD:
  assumes "claim_session k n x owner now paired d = Inr (y, d')"
  obtains "d' = d" "y = None"
    | r where "session_row d (ss_session x) = Some r" "ss_status r \<in> {SPending, SStopped}" "ss_pvc r = None"
        "d' = claimed_db n r owner now d"
    | r p where "session_row d (ss_session x) = Some r" "ss_status r \<in> {SPending, SStopped}" "ss_pvc r \<noteq> None"
        "get_pvc d (the (ss_pvc r)) = Some p" "sp_state p = VDetached"
        "d' = put_session (claimed_session owner now r) (put_pvc (p\<lparr>sp_state := VAttaching, sp_changed := advance (sp_changed p) now\<rparr>) d)"
proof (cases "session_row d (ss_session x)")
  case None
  with assms that(1) show thesis by (simp add: claim_session_def)
next
  case (Some r)
  show thesis
  proof (cases "ss_status r \<in> {SPending, SStopped} \<and> y \<noteq> None")
    case False
    then have "d' = d \<and> y = None" using assms Some
      by (auto simp: claim_session_def claimed_db_def bindE_eq_Inr Let_def put_session_def split: if_splits option.splits)
    then show thesis using that(1) by simp
  next
    case True
    have tail: "(case ss_pvc r of
        None \<Rightarrow> Inr (Some (claimed_session owner now (r\<lparr>ss_pvc := Some n, ss_pvc_uid := None\<rparr>)), claimed_db n r owner now d)
      | Some v \<Rightarrow>
          (case get_pvc d v of
             None \<Rightarrow> Inr (None, d)
           | Some p \<Rightarrow>
               if sp_state p \<noteq> VDetached then Inr (None, d)
               else let r' = claimed_session owner now r in
                 Inr (Some r', put_session r'
                   (put_pvc (p\<lparr>sp_state := VAttaching, sp_changed := advance (sp_changed p) now\<rparr>) d))))
        = (Inr (y, d') :: error + sandbox_session option \<times> manager_db)"
      using True assms Some
      by (auto simp: claim_session_def claimed_db_def bindE_eq_Inr Let_def split: if_splits option.split)
    show thesis
    proof (cases "ss_pvc r")
      case None
      then show thesis using tail True by (intro that(2) [OF Some]) auto
    next
      case i: (Some i)
      obtain p where "get_pvc d i = Some p" "sp_state p = VDetached"
        "d' = put_session (claimed_session owner now r) (put_pvc (p\<lparr>sp_state := VAttaching, sp_changed := advance (sp_changed p) now\<rparr>) d)"
        using tail True i by (cases "get_pvc d i") (auto simp: Let_def split: if_splits)
      then show thesis using True i by (intro that(3) [OF Some]) auto
    qed
  qed
qed

text \<open>A row without a disk takes a new one.\<close>

lemma claimed_views:
  fixes owner :: nat and now :: int
  assumes "session_row d s = Some r" "ss_session r = s" "n \<notin> row_ids d" "keys_ok_db d"
  defines "r' \<equiv> claimed_session owner now (r\<lparr>ss_pvc := Some n, ss_pvc_uid := None\<rparr>)"
  shows "session_row (claimed_db n r owner now d) t = (if t = s then Some r' else session_row d t)"
    "disks (claimed_db n r owner now d) t = (if t = s then insert (new_pvc n r now) (disks d s) else disks d t)"
    "works (claimed_db n r owner now d) = works d" "intents (claimed_db n r owner now d) = intents d"
    "keys_ok_db (claimed_db n r owner now d)" "row_ids (claimed_db n r owner now d) = insert n (row_ids d)"
    "disk_state (claimed_db n r owner now d) r' = Some (n, VAttaching)"
    "claims (claimed_db n r owner now d) t = claims d t"
    "ss_pvc r' = Some n" "ss_pvc_uid r' = None" "ss_status r' = SCreating" "ss_session r' = s" "ss_project r' = ss_project r"
    "ss_sandbox r' = ss_sandbox r" "ss_changed r' = advance (ss_changed r) now"
    "sp_id (new_pvc n r now) = n" "sp_session (new_pvc n r now) = s" "sp_sandbox (new_pvc n r now) = ss_sandbox r"
    "sp_uid (new_pvc n r now) = None" "sp_state (new_pvc n r now) = VAttaching"
proof -
  let ?d = "claimed_db n r owner now d"
  show r': "ss_pvc r' = Some n" "ss_pvc_uid r' = None" "ss_status r' = SCreating" "ss_session r' = s" "ss_project r' = ss_project r"
    "ss_sandbox r' = ss_sandbox r" "ss_changed r' = advance (ss_changed r) now"
    using assms(2) by (simp_all add: r'_def claimed_session_def cleared_def)
  show p: "sp_id (new_pvc n r now) = n" "sp_session (new_pvc n r now) = s" "sp_sandbox (new_pvc n r now) = ss_sandbox r"
    "sp_uid (new_pvc n r now) = None" "sp_state (new_pvc n r now) = VAttaching"
    using assms(2) by (simp_all add: new_pvc_def)
  have db: "?d = put_session r' (d\<lparr>pvcs := pvcs d @ [new_pvc n r now]\<rparr>)" by (simp add: claimed_db_def r'_def)
  show k: "keys_ok_db ?d" using assms(3,4) p(1) add_pvc_view(5) [of "new_pvc n r now" d] by (simp add: db view_simps)
  show ds: "disks ?d t = (if t = s then insert (new_pvc n r now) (disks d s) else disks d t)" for t
    using p(2) by (simp add: db view_simps)
  show "session_row ?d t = (if t = s then Some r' else session_row d t)" "works ?d = works d" "intents ?d = intents d"
    "row_ids ?d = insert n (row_ids d)" "claims ?d t = claims d t"
    using assms(1) p r'(4) by (simp_all add: db view_simps)
  show "disk_state ?d r' = Some (n, VAttaching)"
    using disk_state_at [OF k, of "new_pvc n r now" s r'] ds [of s] r'(1) p by simp
qed

lemma claim_step_ok:
  assumes inv: "session_inv d" and new: "n \<notin> row_ids d" and tx: "claim_session k n x owner now paired d = Inr (y, d')"
  shows "step_ok {n} d d'"
  using tx
proof (cases rule: claim_sessionD)
  case (2 r)
  define s where "s = ss_session x"
  note row = 2(1) [folded s_def] and keys = session_invD(1) [OF inv]
  note rows = session_rows [OF inv row]
  note v = claimed_views [OF row rows(3) new keys]
  have fresh: "n \<notin> sp_id ` disks d s" using new by (auto simp: row_ids_def disks_def)
  have still: "\<not> winding_down r (disks d s)" using 2(2,3) by (auto simp: winding_down_def)
  show ?thesis unfolding 2(4)
  proof (rule open_step [OF inv row v(5,1,2,3,4) _ _ still])
    show "disks_ok (claimed_session owner now (r\<lparr>ss_pvc := Some n, ss_pvc_uid := None\<rparr>)) (insert (new_pvc n r now) (disks d s))"
      using v(9-20) fresh by (intro disks_new [OF rows(1) 2(3)]) (simp_all add: live_disk_def)
    show "lifecycle_move\<^sup>=\<^sup>= (Some (ss_status r, disk_state d r))
       (Some (ss_status (claimed_session owner now (r\<lparr>ss_pvc := Some n, ss_pvc_uid := None\<rparr>)),
         disk_state (claimed_db n r owner now d) (claimed_session owner now (r\<lparr>ss_pvc := Some n, ss_pvc_uid := None\<rparr>))))"
      unfolding v(7,11) using 2(2,3) move_claim by simp
  qed (use v rows(3) in \<open>simp_all add: row_evolves_def winding_down_def\<close>)
next
  case (3 r p)
  define s where "s = ss_session x"
  note row = 3(1) [folded s_def]
  note rows = session_rows [OF inv row]
  obtain i where i: "ss_pvc r = Some i" using 3(3) by blast
  obtain q where q: "get_pvc d i = Some q" "q \<in> disks d s" "sp_id q = i"
    by (rule current_disk [OF inv row i])
  then have p: "p \<in> disks d s" "sp_id p = i" using 3(4) i by auto
  then have bind: "ss_pvc r = Some (sp_id p)" using i by simp
  note b = current_binding [OF inv row p(1) bind]
  define p' r' where "p' = p\<lparr>sp_state := VAttaching, sp_changed := advance (sp_changed p) now\<rparr>" and "r' = claimed_session owner now r"
  have st: "ss_status r = SStopped" using 3(2,5) b(4) by (auto simp: live_disk_def)
  have swap: "put_session r' (put_pvc p' d) = put_pvc p' (put_session r' d)" by (simp add: put_session_def put_pvc_def)
  have rp: "ss_session r' = s" "ss_pvc r' = ss_pvc r" "sp_id p' = sp_id p" "sp_session p' = s" "sp_sandbox p' = ss_sandbox r'"
    "sp_uid p' = ss_pvc_uid r'" "live_disk (ss_status r') (sp_state p')"
    using rows(3) b by (simp_all add: r'_def p'_def claimed_session_def cleared_def live_disk_def)
  note dd = bound_rows [OF inv row p(1) bind rp refl]
  have d': "d' = put_pvc p' (put_session r' d)" using 3(6) swap by (simp add: p'_def r'_def)
  show ?thesis unfolding d'
  proof (rule open_step [OF inv row dd(5,1,2,3,4) _ _ _ _ dd(7)])
    show "\<not> winding_down r (disks d s)"
      using st 3(5) current_state [OF inv p(1) bind, of VDestroying] by (simp add: winding_down_def)
    show "lifecycle_move\<^sup>=\<^sup>= (Some (ss_status r, disk_state d r)) (Some (ss_status r', disk_state (put_pvc p' (put_session r' d)) r'))"
      unfolding dd(8,11) using st 3(5) move_resume by (simp add: r'_def p'_def claimed_session_def)
  qed (use dd(6) rp(1) rows(3) in \<open>simp_all add: subset_insertI r'_def claimed_session_def cleared_def row_evolves_def winding_down_def\<close>)
qed (use step_ok_refl [OF inv] in simp)

section \<open>What a creator records\<close>

text \<open>The row and the disk of a creator change together; nothing winds down before or after.\<close>

lemma creator_step:
  assumes inv: "session_inv d" and row: "session_row d s = Some r" and st: "ss_status r = SCreating"
    and p: "p \<in> disks d s" "ss_pvc r = Some (sp_id p)"
    and r': "ss_session r' = s" "ss_pvc r' = ss_pvc r" "row_evolves r r'" "ss_changed r \<le> ss_changed r'"
      "ss_status r' \<in> {SCreating, SReady, SFailed}"
    and p': "sp_id p' = sp_id p" "sp_session p' = s" "sp_sandbox p' = ss_sandbox r'" "sp_uid p' = ss_pvc_uid r'"
      "live_disk (ss_status r') (sp_state p')"
  shows "step_ok new d (put_pvc p' (put_session r' d))"
proof -
  note dd = bound_rows [OF inv row p r'(1,2) p' refl]
  have "sp_state p = VAttaching" using current_binding(4) [OF inv row p] st by (simp add: live_disk_def)
  then have move: "lifecycle_move\<^sup>=\<^sup>= (Some (ss_status r, disk_state d r))
      (Some (ss_status r', disk_state (put_pvc p' (put_session r' d)) r'))"
    unfolding dd(8,11) using st r'(5) p'(5) move_ready move_fail by (auto simp: live_disk_def)
  show ?thesis
    by (rule open_step [OF inv row dd(5,1,2,3,4) r'(3,4) _ _ dd(7) _ move])
      (use st r'(5) dd(6) in \<open>auto simp: winding_down_def\<close>)
qed

lemma creator_disk:
  assumes "session_inv d" "session_row d s = Some r" "ss_status r = SCreating"
  obtains p where "ss_pvc r = Some (sp_id p)" "get_pvc d (sp_id p) = Some p" "p \<in> disks d s" "sp_session p = s"
    "sp_sandbox p = ss_sandbox r" "sp_uid p = ss_pvc_uid r" "sp_state p = VAttaching"
proof -
  obtain i where i: "ss_pvc r = Some i"
    using session_rows(1) [OF assms(1,2)] assms(3) by (cases "ss_pvc r") (auto simp: disks_ok_def)
  obtain p where p: "get_pvc d i = Some p" "p \<in> disks d s" "sp_id p = i" by (rule current_disk [OF assms(1,2) i])
  then have bind: "ss_pvc r = Some (sp_id p)" using i by simp
  note b = current_binding [OF assms(1,2) p(2) bind]
  show thesis
  proof (rule that [OF bind _ p(2) b(1-3)])
    show "get_pvc d (sp_id p) = Some p" unfolding p(3) by (rule p(1))
    show "sp_state p = VAttaching" using b(4) assms(3) by (simp add: live_disk_def)
  qed
qed

lemma seen_disk:
  assumes "row_seen d x" "session_row d (ss_session x) = Some r" "ss_changed r = ss_changed x" "ss_status r \<noteq> SStopped"
  shows "ss_pvc x = ss_pvc r" "ss_status x = ss_status r" "ss_sandbox x = ss_sandbox r" "ss_project x = ss_project r"
  using assms by (auto simp: row_seen_def row_evolves_def)

lemma still_ownedD:
  "still_owned x owner d = Some r \<Longrightarrow> session_row d (ss_session x) = Some r \<and> ss_status r = SCreating \<and> ss_changed r = ss_changed x"
  by (auto simp: still_owned_def split: option.splits if_splits)

lemma progress_step:
  assumes inv: "session_inv d" and seen: "row_seen d x" and tx: "record_progress x owner v d = Inr (y, d')"
  shows "step_ok new d d'"
proof (cases "still_owned x owner d")
  case None
  with tx step_ok_refl [OF inv] show ?thesis by (simp add: record_progress_def)
next
  case (Some r)
  note r = still_ownedD [OF Some]
  define s where "s = ss_session x"
  have row: "session_row d s = Some r" and st: "ss_status r = SCreating" using r by (simp_all add: s_def)
  obtain p where p: "ss_pvc r = Some (sp_id p)" "get_pvc d (sp_id p) = Some p" "p \<in> disks d s" "sp_session p = s"
    "sp_sandbox p = ss_sandbox r" "sp_uid p = ss_pvc_uid r" "sp_state p = VAttaching" by (rule creator_disk [OF inv row st])
  have "ss_pvc x = Some (sp_id p)" using seen_disk(1) [OF seen] r p(1) by simp
  then have "d' = put_session (recorded v x r) (put_pvc (recorded_pvc v p) d)"
    using tx Some p(2) by (auto simp: record_progress_def Let_def)
  then have d': "d' = put_pvc (recorded_pvc v p) (put_session (recorded v x r) d)" by (simp add: put_session_def put_pvc_def)
  show ?thesis unfolding d'
    by (rule creator_step [OF inv row st p(3,1)])
      (use pick_key [OF row] st p in \<open>auto simp: recorded_def recorded_pvc_def row_evolves_def live_disk_def split: record_values.split\<close>)
qed

lemma ready_step:
  assumes inv: "session_inv d" and tx: "mark_ready k b now expected d = Inr (y, d')"
  shows "step_ok new d d'"
proof (cases "d' = d")
  case False
  obtain r where r: "by_sandbox d b = Some r" using tx False by (auto simp: mark_ready_def split: option.splits)
  define s where "s = ss_session r"
  have row: "session_row d s = Some r" unfolding s_def by (rule sandbox_row [OF r session_invD(1) [OF inv]])
  have st: "ss_status r = SCreating"
    using tx False r by (auto simp: mark_ready_def Let_def split: if_splits option.splits)
  obtain p where p: "ss_pvc r = Some (sp_id p)" "get_pvc d (sp_id p) = Some p" "p \<in> disks d s" "sp_session p = s"
    "sp_sandbox p = ss_sandbox r" "sp_uid p = ss_pvc_uid r" by (rule creator_disk [OF inv row st])
  have d': "d' = put_pvc (ready_pvc now p) (put_session (ready_session now r) d)"
    using tx False r p(1,2) by (auto simp: mark_ready_def Let_def split: if_splits)
  show ?thesis unfolding d'
    by (rule creator_step [OF inv row st p(3,1)])
      (use p in \<open>simp_all add: ready_session_def ready_pvc_def row_evolves_def live_disk_def s_def\<close>)
qed (use step_ok_refl [OF inv] in simp)

lemma bind_clone_step:
  assumes inv: "session_inv d" and tx: "bind_clone k x owner g role uid d = Inr (y, d')"
  shows "step_ok new d d'"
proof -
  obtain i0 p where i0: "owned_intent k [SCreating] x owner g d = Inr i0" "en_payload (at (pl_volumes i0) role) = Some p"
    using tx by (auto simp: bind_clone_def bindE_eq_Inr split: option.splits)
  then obtain i r' where c: "current_clone k x owner g role p d = Inr (i, r')"
    using tx by (auto simp: bind_clone_def bindE_eq_Inr)
  obtain r v where r: "session_row d (ss_session x) = Some r" "row_key r' = row_key r" "get_pvc d (vp_pvc p) = Some v"
    "get_intent d g = Some i" "pl_generation i = g" "ss_pvc r = Some (vp_pvc p)" "sp_uid v = ss_pvc_uid r" "sp_session v = ss_session r"
    by (rule current_cloneD [OF c])
  have st: "ss_status r = SCreating" using i0(1) r(1) by (auto simp: owned_intent_def bindE_eq_Inr dest!: owned_sessionD)
  define s where "s = ss_session x"
  note row = r(1) [folded s_def] and keys = session_invD(1) [OF inv]
  define i' where "i' = i\<lparr>pl_volumes := bind_entry role uid (pl_volumes i)\<rparr>"
  have i': "get_intent e (pl_generation i') = Some i" "pl_session i' = pl_session i" if "intents e = intents d" for e
    using r(4,5) that by (simp_all add: i'_def)
  note key = r(2) [unfolded row_key_eq] and sess = pick_key [OF row]
  show ?thesis
  proof (cases "role = ''workspace''")
    case False
    define r'' where "r'' = r'\<lparr>ss_ca_clones := Some (AList.update role uid (case ss_ca_clones r' of None \<Rightarrow> [] | Some cs \<Rightarrow> cs))\<rparr>"
    have d': "d' = put_intent i' (put_session r'' d)"
      using tx i0 c False by (auto simp: bind_clone_def bindE_eq_Inr Let_def i'_def r''_def)
    have "quiet d (put_session r'' d)" using row key sess
      by (intro quiet_put_session [OF quiet_refl keys, where r = r]) (auto simp: r''_def row_key_eq)
    then have "quiet d d'" unfolding d' using i' by (intro quiet_put_intent [where i = i]) (simp_all add: view_simps)
    then show ?thesis by (rule quiet_ok [OF inv])
  next
    case True
    have v: "v \<in> disks d s" "sp_id v = vp_pvc p" using disk_found(2) [OF keys r(3)] r(8) sess by auto
    then have bind: "ss_pvc r = Some (sp_id v)" using r(6) by simp
    note b = current_binding [OF inv row v(1) bind]
    define r'' v' where "r'' = r'\<lparr>ss_pvc_uid := Some uid\<rparr>" and "v' = v\<lparr>sp_uid := Some uid\<rparr>"
    have d': "d' = put_intent i' (put_pvc v' (put_session r'' d))"
      using tx i0 c True r(3) by (auto simp: bind_clone_def bindE_eq_Inr Let_def i'_def r''_def v'_def put_intent_def put_pvc_def)
    have "step_ok new d (put_pvc v' (put_session r'' d))"
      by (rule creator_step [OF inv row st v(1) bind])
        (use key sess b st in \<open>simp_all add: r''_def v'_def row_evolves_def\<close>)
    then show ?thesis unfolding d'
      by (rule step_quiet) (use i' in \<open>intro quiet_put_intent [OF quiet_refl, where i = i], simp_all add: view_simps\<close>)
  qed
qed

section \<open>Failure and recovery\<close>

lemma fail_step:
  assumes inv: "session_inv d" and tx: "fail_recovery x now d = Inr (y, d')"
  shows "step_ok new d d'"
proof (cases "recovering_row x d")
  case (Some r)
  then have row: "session_row d (ss_session x) = Some r" and st: "ss_status r = SRecovering"
    by (auto simp: recovering_row_def split: option.splits if_splits)
  define r' where "r' = r\<lparr>ss_status := SFailed, ss_changed := advance (ss_changed r) now\<rparr>"
  have d': "d' = put_session r' d" using tx Some by (simp add: fail_recovery_def r'_def)
  have bare: "ss_pvc r = None" "\<not> winding_down r (disks d (ss_session x))" "ss_pvc_uid r = None"
    using bare_row [OF inv row] st by auto
  have "ss_session r' = ss_session x" using pick_key [OF row] by (simp add: r'_def)
  note view = row_only [OF inv row this]
  show ?thesis unfolding d'
  proof (rule open_step [OF inv row view(3,1,2) _ _ _ _ bare(2)])
    show "disks_ok r' (disks d (ss_session x))"
      by (rule disks_none [OF session_rows(1) [OF inv row] bare(1)]) (simp_all add: r'_def bare)
    show "lifecycle_move\<^sup>=\<^sup>= (Some (ss_status r, disk_state d r)) (Some (ss_status r', disk_state (put_session r' d) r'))"
      unfolding view(4) using st bare(1) move_give_up by (simp add: r'_def)
  qed (simp_all add: view_simps r'_def row_evolves_def winding_down_def)
qed (use tx step_ok_refl [OF inv] in \<open>simp add: fail_recovery_def\<close>)

end
