(* ===== verification/Session_Recovery.thy ===== *)
theory Session_Recovery
  imports Session_Begins
begin

text \<open>
  Recovery: the works of the session are carried on, its disk is given up, and it takes another sandbox.
\<close>

section \<open>Carried works\<close>

definition carried :: "nat \<Rightarrow> cleanup_work \<Rightarrow> cleanup_work \<Rightarrow> bool" where
  "carried s w v \<longleftrightarrow> (if cw_session w \<noteq> Some s then v = w else \<exists>p. v = w\<lparr>cw_kind := WRecovery, cw_pair := p\<rparr>)"

lemma carried_workD: "carried_work k s d w = Inr v \<Longrightarrow> carried s w v"
  by (auto simp: carried_work_def carried_def bindE_eq_Inr split: if_splits)

lemma carriedD:
  assumes "list_all2 (carried s) ws vs"
  shows "map cw_id vs = map cw_id ws" "v \<in> set vs \<Longrightarrow> \<exists>w \<in> set ws. carried s w v"
    "t \<noteq> s \<Longrightarrow> {v \<in> set vs. cw_session v = Some t} = {w \<in> set ws. cw_session w = Some t}"
    "v \<in> set vs \<Longrightarrow> cw_session v = None \<Longrightarrow> v \<in> set ws"
proof -
  have one: "cw_id v = cw_id w" "cw_session v = cw_session w" "cw_session v \<noteq> Some s \<Longrightarrow> v = w" if "carried s w v" for w v
    using that by (auto simp: carried_def split: if_splits)
  from assms show "map cw_id vs = map cw_id ws" by (induction rule: list_all2_induct) (simp_all add: one)
  from assms show "v \<in> set vs \<Longrightarrow> \<exists>w \<in> set ws. carried s w v" by (induction rule: list_all2_induct) auto
  show "{v \<in> set vs. cw_session v = Some t} = {w \<in> set ws. cw_session w = Some t}" if "t \<noteq> s"
  proof -
    from assms have "filter (\<lambda>v. cw_session v = Some t) vs = filter (\<lambda>w. cw_session w = Some t) ws"
    proof (induction rule: list_all2_induct)
      case (Cons w ws v vs)
      then show ?case using one(2,3) [OF Cons.hyps(1)] that by (cases "cw_session v = Some t") simp_all
    qed simp
    then show ?thesis by (metis set_filter)
  qed
  from assms show "v \<in> set vs \<Longrightarrow> cw_session v = None \<Longrightarrow> v \<in> set ws"
  proof (induction rule: list_all2_induct)
    case (Cons w ws u us)
    then show ?case using one(3) [of w u] by auto
  qed simp
qed

section \<open>Recovery\<close>

lemma recover_db:
  assumes "recover k n m s b now timeout d = Inr (y, d')" "d' \<noteq> d"
  obtains r v old previous ps where "locked d s b = (Some r, v)" "\<not> recovery_refused r v now timeout d"
    "cw_id old = n" "cw_session old = Some (ss_session r)" "cw_kind old = WRecovery" "cw_changed old = ss_changed r"
    "list_all2 (carried s) (works d) previous"
    "d' = (case v of None \<Rightarrow> id | Some p \<Rightarrow> put_pvc (moved_pvc VFailed now p))
       ((put_session (recovering_session m now r) d)\<lparr>works := previous @ [old], probes := ps\<rparr>)"
proof -
  obtain r v where l: "locked d s b = (Some r, v)" using assms
    by (cases "locked d s b"; cases "fst (locked d s b)") (auto simp: recover_def)
  have ref: "\<not> recovery_refused r v now timeout d" using assms l by (auto simp: recover_def split: if_splits)
  then obtain old e previous where w: "new_work k n r v WRecovery now timeout (sandbox_targets r False) d = Inr (old, e)"
    and prev: "mapE (carried_work k s e) (works d) = Inr previous"
    using assms l by (auto simp: recover_def bindE_eq_Inr Let_def)
  note w' = new_workD [OF w]
  define old' where "old' = old\<lparr>cw_targets := map (\<lambda>t.
     case v of Some p \<Rightarrow> if sp_evidence p \<noteq> None \<and> t_name t = session_name (sp_id p) then over_target (sp_evidence p) t else t
     | None \<Rightarrow> t) (cw_targets old)\<rparr>"
  have car: "list_all2 (carried s) (works d) previous"
    by (rule list_all2_mono [OF prev [unfolded mapE_eq_Inr]]) (rule carried_workD)
  show thesis
  proof (rule that [OF l ref, of old' previous "filter (\<lambda>x. pp_sandbox x \<noteq> b) (probes e)"])
    show "d' = (case v of None \<Rightarrow> id | Some p \<Rightarrow> put_pvc (moved_pvc VFailed now p))
       ((put_session (recovering_session m now r) d)\<lparr>works := previous @ [old'], probes := filter (\<lambda>x. pp_sandbox x \<noteq> b) (probes e)\<rparr>)"
      using assms l ref w prev unfolding old'_def
      by (auto simp: recover_def Let_def w'(1) put_session_def split: option.splits)
  qed (use w' car in \<open>simp_all add: old'_def\<close>)
qed

text \<open>The works after it: only recoveries, that were claims of the session before.\<close>

lemma recovery_works:
  assumes inv: "session_inv d" and row: "session_row d s = Some r" and new: "n \<notin> row_ids d"
    and old: "cw_id old = n" "cw_session old = Some s" "cw_kind old = WRecovery" "cw_changed old = ss_changed r"
    and car: "list_all2 (carried s) (works d) previous" and r': "ss_session r' = s" "ss_changed r < ss_changed r'"
    and d2: "d2 = (put_session r' d)\<lparr>works := previous @ [old], probes := ps\<rparr>"
  shows "session_row d2 t = (if t = s then Some r' else session_row d t)" "disks d2 t = disks d t" "keys_ok_db d2"
    "row_ids d2 = insert n (row_ids d)" "intents d2 = intents d" "pvcs d2 = pvcs d" "t \<noteq> s \<Longrightarrow> claims d2 t = claims d t"
    "v \<in> set (works d2) \<Longrightarrow> cw_session v = None \<Longrightarrow> v \<in> set (works d)"
    "v \<in> claims d2 s \<Longrightarrow> cw_kind v = WRecovery \<and> cw_changed v \<le> ss_changed r'"
    "v \<in> claims d2 s \<Longrightarrow> cw_id v \<in> {n} \<or> (\<exists>w \<in> claims d s. work_evolves d2 w v)"
proof -
  note keys = session_invD(1) [OF inv] and c = carriedD [OF car]
  have ws: "works d2 = previous @ [old]" "sessions d2 = sessions (put_session r' d)" "pvcs d2 = pvcs d"
    by (simp_all add: d2 put_session_def)
  show sess: "session_row d2 t = (if t = s then Some r' else session_row d t)" for t
    using row r'(1) unfolding ws(2) by (simp add: view_simps)
  show "disks d2 t = disks d t" "intents d2 = intents d" "pvcs d2 = pvcs d" by (simp_all add: d2 disks_def put_session_def)
  have ids: "cw_id ` set previous = cw_id ` set (works d)" using c(1) by (metis set_map)
  then show "row_ids d2 = insert n (row_ids d)" using old(1) by (auto simp: row_ids_def ws)
  have "n \<notin> cw_id ` set previous" "n \<notin> cw_id ` set (works d)" using new ids by (simp_all add: row_ids_def)
  then show "keys_ok_db d2" using keys c(1) old(1) by (simp add: keys_ok_db_def ws put_session_def)
  show "claims d2 t = claims d t" if "t \<noteq> s" 
  proof -
    have "{w \<in> set (previous @ [old]). cw_session w = Some t} = {w \<in> set previous. cw_session w = Some t}"
      using old(2) that by auto
    then show ?thesis unfolding claims_def ws using c(3) [OF that] by simp
  qed
  show "v \<in> set (works d2) \<Longrightarrow> cw_session v = None \<Longrightarrow> v \<in> set (works d)" using c(4) old(2) by (auto simp: ws)
  have mine: "v = old \<or> (\<exists>w \<in> claims d s. \<exists>p. v = w\<lparr>cw_kind := WRecovery, cw_pair := p\<rparr>)" if "v \<in> claims d2 s" for v
  proof -
    have v: "v = old \<or> v \<in> set previous" "cw_session v = Some s" using that by (auto simp: claims_iff ws)
    then show ?thesis using c(2) [of v] by (auto simp: carried_def claims_iff split: if_splits)
  qed
  have before: "cw_changed w \<le> ss_changed r" if "w \<in> claims d s" for w
    using session_rows(2) [OF inv row] that by (simp add: works_ok_def)
  show "v \<in> claims d2 s \<Longrightarrow> cw_kind v = WRecovery \<and> cw_changed v \<le> ss_changed r'"
    using mine [of v] old(3,4) r'(2) before by fastforce
  show "cw_id v \<in> {n} \<or> (\<exists>w \<in> claims d s. work_evolves d2 w v)" if "v \<in> claims d2 s"
    using mine [OF that]
  proof (elim disjE bexE exE)
    fix w p assume w: "w \<in> claims d s" "v = w\<lparr>cw_kind := WRecovery, cw_pair := p\<rparr>"
    then have "work_evolves d2 w v" using before [OF w(1)] r'(2) sess [of s]
      by (auto simp: work_evolves_def same_identity_def claims_iff)
    with w(1) show ?thesis by blast
  qed (use old(1) in simp)
qed

lemma recover_step:
  assumes inv: "session_inv d" and new: "n \<notin> row_ids d" and tx: "recover k n m s b now timeout d = Inr (y, d')"
  shows "step_ok {n, m} d d'"
proof (cases "d' = d")
  case False
  obtain r v old previous ps where l: "locked d s b = (Some r, v)" and ref: "\<not> recovery_refused r v now timeout d"
    and old: "cw_id old = n" "cw_session old = Some (ss_session r)" "cw_kind old = WRecovery" "cw_changed old = ss_changed r"
    and car: "list_all2 (carried s) (works d) previous"
    and d': "d' = (case v of None \<Rightarrow> id | Some p \<Rightarrow> put_pvc (moved_pvc VFailed now p))
       ((put_session (recovering_session m now r) d)\<lparr>works := previous @ [old], probes := ps\<rparr>)"
    by (rule recover_db [OF tx False])
  define r' d2 where "r' = recovering_session m now r"
    and "d2 = (put_session r' d)\<lparr>works := previous @ [old], probes := ps\<rparr>"
  note row = lockedD [OF l] and rows = session_rows [OF inv lockedD(1) [OF l]]
  have r': "ss_session r' = s" "ss_changed r < ss_changed r'" "ss_pvc r' = None" "ss_pvc_uid r' = None" "ss_status r' = SRecovering"
    "ss_project r' = ss_project r" using row(3) by (simp_all add: r'_def recovering_session_def cleared_def)
  note w = recovery_works [OF inv row(1) new old(1) old(2) [unfolded row(3)] old(3,4) car r'(1,2) d2_def]
  have still: "\<not> winding_down r' qs" for qs using r'(5) by (simp add: winding_down_def)
  have wk: "works_ok r' qs (claims d2 s)" for qs by (rule works_quiet [OF w(9) still])
  have start: "ss_status r \<noteq> SShuttingDown" "ss_status r = SStopped \<Longrightarrow> \<exists>p. v = Some p \<and> sp_state p = VDestroying"
    using ref by (auto simp: recovery_refused_def split: option.splits)
  show ?thesis
  proof (cases v)
    case None
    then have none: "ss_pvc r = None" by (rule locked_disk(1) [OF inv l])
    have d2: "d' = d2" unfolding d' d2_def r'_def None by simp
    show ?thesis unfolding d2
    proof (rule row_step [OF inv row(1) w(3,1,2,7) _ _ wk _ w(8,5)])
      show "disks_ok r' (disks d2 s)" using disks_none [OF rows(1) none r'(3,4)] r'(5) w(2) by simp
      show "lifecycle_move\<^sup>=\<^sup>= (Some (ss_status r, disk_state d r)) (Some (ss_status r', disk_state d2 r'))"
        using start None r'(3,5) move_recover by auto
    qed (use w(4,10) r' row(3) in \<open>auto simp: row_evolves_def\<close>)
  next
    case (Some p)
    note p = locked_disk(2) [OF inv l Some]
    define p' where "p' = moved_pvc VFailed now p"
    have p': "sp_id p' = sp_id p" "sp_session p' = s" "sp_state p' = VFailed" using p by (simp_all add: p'_def moved_pvc_def)
    have d2: "d' = put_pvc p' d2" unfolding d' d2_def r'_def p'_def Some by simp
    have ds: "disks (put_pvc p' d2) t = (if t = s then insert p' {x \<in> disks d s. sp_id x \<noteq> sp_id p'} else disks d t)" for t
      using disks_put_pvc [of d2 p p' t] w(2,3) p p' by (auto simp: keys_ok_db_def)
    show ?thesis unfolding d2
    proof (rule row_step [OF inv row(1), where r' = r'])
      show "disks_ok r' (disks (put_pvc p' d2) s)" unfolding ds
        using disks_failed [OF rows(1) _ r'(3,4) _ p'(3)] p p'(1) r'(5) by simp
      show "lifecycle_move\<^sup>=\<^sup>= (Some (ss_status r, disk_state d r)) (Some (ss_status r', disk_state (put_pvc p' d2) r'))"
        using start p Some r'(3,5) move_recover move_rescue by (cases "ss_status r = SStopped") auto
      show "cw_id u \<in> {n, m} \<or> (\<exists>x \<in> claims d s. work_evolves (put_pvc p' d2) x u)" if "u \<in> claims (put_pvc p' d2) s" for u
        using w(10) [of u] that by (auto simp: view_simps work_evolves_def cong: option.case_cong)
    qed (use w(1,3,4,5,7,8) wk ds r' row(3) in \<open>auto simp: view_simps row_evolves_def\<close>)
  qed
qed (use step_ok_refl [OF inv] in simp)

end
