(* ===== verification/Session_Rebuild.thy ===== *)
theory Session_Rebuild
  imports Session_Recovery
begin

text \<open>
  Orphans, works that are built again from the ledger, and the end of a recovery.
\<close>

section \<open>Orphans\<close>

text \<open>A work of no session: whatever it holds, no session is concerned.\<close>

lemma orphan_added:
  assumes inv: "session_inv d" and w: "cw_id w \<notin> row_ids d" "cw_session w = None" "cw_kind w = WOrphan"
  shows "step_ok {cw_id w} d (d\<lparr>works := works d @ [w]\<rparr>)"
  unfolding step_ok_def
proof (intro conjI allI impI ballI)
  let ?d = "d\<lparr>works := works d @ [w]\<rparr>"
  show "session_inv ?d"
    unfolding session_inv_def
  proof (intro conjI allI ballI impI)
    show "keys_ok_db ?d" using session_invD(1) [OF inv] w(1) by (simp add: view_simps)
    show "local_ok (session_row ?d t) (disks ?d t) (claims ?d t)" for t
      using session_invD(2) [OF inv, of t] w(2) by (simp add: view_simps)
  qed (use session_invD(3,4) [OF inv] w in auto)
  show "row_ids ?d \<subseteq> row_ids d \<union> {cw_id w}" by (simp add: view_simps)
  have "disk_state ?d r = disk_state d r" for r by (rule disk_state_same) simp
  then show "lifecycle_move\<^sup>=\<^sup>= (lifecycle d t) (lifecycle ?d t)" for t by (simp add: lifecycle_def)
  show "\<exists>r'. session_row ?d t = Some r' \<and> row_evolves r r'" if "session_row d t = Some r" for t r using that by simp
  show "cw_id v \<in> {cw_id w} \<or> (\<exists>u \<in> set (works d). work_evolves ?d u v)" if "v \<in> set (works ?d)" for v
    using that by (auto intro!: bexI [of _ v] work_evolves_refl)
qed

lemma admit_orphan_step:
  assumes inv: "session_inv d" and new: "n \<notin> row_ids d"
    and reg: "\<And>e. registry d = Inr ((), e) \<Longrightarrow> step_ok {n} d e"
    and tx: "admit_orphan k registry n m now timeout observed d = Inr (y, d')"
  shows "step_ok {n} d d'"
proof -
  define ts where "ts = sort_key (\<lambda>t. (if t_kind t \<noteq> ''Deployment'' then 1 else 0 :: nat))
    (sort_key t_name (orphan_objects m (ownership_of m d) d observed))"
  have "d' = d \<or> registry d = Inr ((), d') \<or>
      (\<exists>x. service k n (sg_session m) (sg_sandbox m) now timeout ts d = Inr (x, d')) \<or>
      (\<exists>p. d' = d\<lparr>works := works d @ [orphan_work n (sg_sandbox m) now timeout ts p]\<rparr>)"
    using tx unfolding admit_orphan_def Let_def ts_def [symmetric]
    by (cases "ownership_of m d") (auto simp: bindE_eq_Inr split: if_splits)
  then consider "d' = d" | "registry d = Inr ((), d')"
    | x where "service k n (sg_session m) (sg_sandbox m) now timeout ts d = Inr (x, d')"
    | p where "d' = d\<lparr>works := works d @ [orphan_work n (sg_sandbox m) now timeout ts p]\<rparr>"
    by blast
  then show ?thesis
  proof cases
    case (4 p)
    show ?thesis unfolding 4
      using orphan_added [OF inv, of "orphan_work n (sg_sandbox m) now timeout ts p"] new by (simp add: orphan_work_def)
  qed (use step_ok_refl [OF inv] reg service_step [OF inv new] in auto)
qed

section \<open>The registry\<close>

text \<open>
  A work is rebuilt only for a session that recovers: whatever winds down has its work, and a session is
  never forgotten.
\<close>

lemma rebuilt_step:
  assumes inv: "session_inv d" and row: "session_row d s = Some r" and st: "ss_status r = SRecovering" and new: "n \<notin> row_ids d"
    and w: "cw_id w = n" "cw_session w = Some s" "cw_kind w = WRecovery" "cw_changed w = ss_changed r"
  shows "step_ok {n} d (d\<lparr>works := works d @ [w]\<rparr>)"
proof (rule row_step [OF inv row, where r' = r])
  let ?d = "d\<lparr>works := works d @ [w]\<rparr>"
  have bare: "\<not> winding_down r (disks d s)" using bare_row(2) [OF inv row] st by simp
  show "keys_ok_db ?d" using session_invD(1) [OF inv] w(1) new by (simp add: view_simps)
  show "session_row ?d t = (if t = s then Some r else session_row d t)" for t using row by simp
  have "cw_kind v = WRecovery \<and> cw_changed v \<le> ss_changed r" if "v \<in> claims ?d s" for v
    using that w(2-4) quiet_claims [OF session_rows(2) [OF inv row] bare, of v] by (auto simp: view_simps)
  from works_quiet [OF this bare] show "works_ok r (disks ?d s) (claims ?d s)" by (simp add: view_simps)
  have "disk_state ?d r = disk_state d r" by (rule disk_state_same) simp
  then show "lifecycle_move\<^sup>=\<^sup>= (Some (ss_status r, disk_state d r)) (Some (ss_status r, disk_state ?d r))" by simp
  show "cw_id v \<in> {n} \<or> (\<exists>u \<in> claims d s. work_evolves ?d u v)" if "v \<in> claims ?d s" for v
    using that w by (auto simp: view_simps intro!: bexI [of _ v] work_evolves_refl)
  show "v \<in> set (works d)" if "v \<in> set (works ?d)" "cw_session v = None" for v using that w(2) by auto
qed (use w session_rows(1) [OF inv row] in \<open>auto simp: view_simps\<close>)

lemma winding_work:
  assumes inv: "session_inv d" and row: "session_row d s = Some r" and wind: "winding_down r (disks d s)"
  shows "list_ex (\<lambda>w. cw_sandbox w = ss_sandbox r) (works d)"
proof -
  obtain w where "w \<in> claims d s" "cw_kind w \<noteq> WRecovery"
    using session_rows(2) [OF inv row] wind by (auto simp: works_ok_def)
  moreover from this have "in_force r (disks d s) w" using session_rows(2) [OF inv row] by (simp add: works_ok_def)
  ultimately show ?thesis by (auto simp: list_ex_iff in_force_def claims_iff)
qed

lemma reconcile_step:
  assumes inv: "session_inv d" and new: "n \<notin> row_ids d" and tx: "reconcile k n g now timeout d = Inr (y, d')"
  shows "step_ok {n} d d'"
proof (cases "d' = d")
  case False
  obtain i where i: "get_intent d g = Some i" using tx False by (cases "get_intent d g") (auto simp: reconcile_def)
  have idle: "\<not> list_ex (\<lambda>w. cw_sandbox w = pl_sandbox i) (works d)" using tx False i by (auto simp: reconcile_def split: if_splits)
  define s v where "s = pl_session i" and "v = pvc_of_pair i d"
  have "i \<in> set (intents d)" using pick_Some [OF i] by simp
  then obtain r where row: "session_row d s = Some r" using session_invD(4) [OF inv] unfolding s_def by blast
  have v: "p \<in> disks d s \<and> sp_sandbox p = pl_sandbox i" if "v = Some p" for p
    using that by (auto simp: v_def s_def pvc_of_pair_def find_Some_iff disks_def)
  have kind: "kd = WRecovery \<and> ss_status r = SRecovering" if "rebuilt_kind (Some r) v i = Inr (Some kd)" for kd
  proof -
    have "\<not> winding_down r (disks d s)" if "ss_sandbox r = pl_sandbox i"
      using winding_work [OF inv row] idle that by auto
    then show ?thesis using that by (auto simp: rebuilt_kind_def winding_down_def split: if_splits option.splits)
  qed
  show ?thesis
  proof (cases "pi_retired i = None")
    case True
    have tx': "reconcile_active k n (Some r) v i now timeout d = Inr (y, d')"
      using tx False i True row by (auto simp: reconcile_def s_def v_def Let_def split: if_splits)
    then obtain kd where kd: "rebuilt_kind (Some r) v i = Inr (Some kd)" using False
      by (auto simp: reconcile_active_def bindE_eq_Inr split: option.splits)
    then have "kd = WRecovery" "ss_status r = SRecovering" using kind by auto
    with tx' kd False obtain w where "d' = d\<lparr>works := works d @ [w]\<rparr>" "cw_id w = n" "cw_session w = Some s"
        "cw_kind w = WRecovery" "cw_changed w = ss_changed r"
      using pick_key [OF row] by (auto simp: reconcile_active_def rebuilt_work_def bindE_eq_Inr Let_def split: option.splits)
    then show ?thesis using rebuilt_step [OF inv row \<open>ss_status r = SRecovering\<close> new] by simp
  next
    case retired: False
    have tx': "reconcile_retired k n (Some r) v i now timeout d = Inr (y, d')"
      using tx False i retired row by (auto simp: reconcile_def s_def v_def Let_def split: if_splits)
    then obtain receipt kd where kd: "expiry_kind (Some r) v i receipt d = Inr (Some kd)" using False
      by (auto simp: reconcile_retired_def bindE_eq_Inr split: option.splits if_splits)
    then obtain p where p: "v = Some p" "ss_status r = SStopped" "ss_sandbox r = pl_sandbox i" "sp_state p = VDestroying"
      by (auto simp: expiry_kind_def split: option.splits if_splits)
    have "ss_pvc r = Some (sp_id p)"
      using session_rows(1) [OF inv row] v [OF p(1)] p(4) by (auto simp: disks_ok_def)
    then have "winding_down r (disks d s)" using p(2,4) v [OF p(1)] by (auto simp: winding_down_def)
    with winding_work [OF inv row] idle p(3) show ?thesis by simp
  qed
qed (use step_ok_refl [OF inv] in simp)

lemma reconcile_signal_step:
  assumes "session_inv d" "n \<notin> row_ids d" "reconcile_signal k n m now timeout d = Inr (y, d')"
  shows "step_ok {n} d d'"
  using assms reconcile_step [OF assms(1,2)] step_ok_refl [OF assms(1)]
  by (auto simp: reconcile_signal_def bindE_eq_Inr split: list.splits)

section \<open>The end of a recovery\<close>

text \<open>The disks and the works of the session go, and the fresh claim is made in the same transaction.\<close>

lemma rebuild_step:
  assumes inv: "session_inv d" and row: "session_row d s = Some r" and st: "ss_status r = SRecovering" and new: "n \<notin> row_ids d"
    and ws: "\<And>u. u \<in> set us \<Longrightarrow> cw_session u = Some s \<and> copy_ok d u"
    and r1: "ss_session r1 = s" "ss_pvc r1 = None" "ss_project r1 = ss_project r" "ss_changed r < ss_changed r1"
    and d1: "d1 = put_session r1 (drop_session_rows s us d)"
  shows "step_ok {n} d (claimed_db n r1 owner now d1)"
proof -
  note keys = session_invD(1) [OF inv]
  have bare: "ss_pvc r = None" "\<not> winding_down r (disks d s)" using bare_row [OF inv row] st by auto
  have rows: "session_row d1 t = (if t = s then Some r1 else session_row d t)" "intents d1 = intents d" for t
    using row r1(1) by (simp_all add: d1 drop_session_rows_def put_session_def pick_put)
  have ds: "disks d1 t = (if t = s then {} else disks d t)" for t
    by (auto simp: d1 drop_session_rows_def put_session_def disks_def)
  have sub: "works d1 = filter (\<lambda>w. cw_id w \<notin> cw_id ` set us) (works d)" "sessions d1 = put ss_session r1 (sessions d)"
    "pvcs d1 = filter (\<lambda>p. sp_session p \<noteq> s) (pvcs d)"
    by (simp_all add: d1 drop_session_rows_def put_session_def)
  have gone: "cw_session w = Some s" if "w \<in> set (works d)" "cw_id w \<in> cw_id ` set us" for w
    using that ws by (fastforce simp: copy_ok_def work_evolves_def same_identity_def)
  have cl: "claims d1 t = claims d t" if "t \<noteq> s" for t using gone that by (auto simp: claims_def sub)
  have mine: "claims d1 s \<subseteq> claims d s" by (auto simp: claims_def sub)
  have k1: "keys_ok_db d1" using keys by (simp add: keys_ok_db_def sub distinct_map_filter)
  have ids: "row_ids d1 \<subseteq> row_ids d" by (auto simp: row_ids_def sub)
  then have new1: "n \<notin> row_ids d1" using new by blast
  have row1: "session_row d1 s = Some r1" using rows by simp
  note v = claimed_views [OF row1 r1(1) new1 k1]
  let ?r = "claimed_session owner now (r1\<lparr>ss_pvc := Some n, ss_pvc_uid := None\<rparr>)"
  show ?thesis
  proof (rule row_step [OF inv row v(5), where r' = ?r])
    show "session_row (claimed_db n r1 owner now d1) t = (if t = s then Some ?r else session_row d t)" for t
      unfolding v(1) rows(1) by simp
    show "disks (claimed_db n r1 owner now d1) t = disks d t" "claims (claimed_db n r1 owner now d1) t = claims d t" if "t \<noteq> s" for t
      using v(2,8) ds cl that by simp_all
    have disk: "disks (claimed_db n r1 owner now d1) s = {new_pvc n r1 now}" using v(2) ds by simp
    have "disk_of ?r {new_pvc n r1 now} (new_pvc n r1 now)" using v(9-20) by (simp add: disk_of_def live_disk_def)
    then show "disks_ok ?r (disks (claimed_db n r1 owner now d1) s)" unfolding disk using v(9,16) by (auto simp: disks_ok_def)
    have "cw_kind w = WRecovery \<and> cw_changed w \<le> ss_changed ?r" if "w \<in> claims (claimed_db n r1 owner now d1) s" for w
    proof -
      have "w \<in> claims d s" using that mine unfolding v(8) by blast
      from quiet_claims [OF session_rows(2) [OF inv row] bare(2) this] show ?thesis
        unfolding v(15) using r1(4) by (auto simp: advance_def)
    qed
    then show "works_ok ?r (disks (claimed_db n r1 owner now d1) s) (claims (claimed_db n r1 owner now d1) s)"
      using v(11) by (intro works_quiet) (auto simp: winding_down_def)
    show "lifecycle_move\<^sup>=\<^sup>= (Some (ss_status r, disk_state d r)) (Some (ss_status ?r, disk_state (claimed_db n r1 owner now d1) ?r))"
      unfolding v(7,11) using st bare(1) move_rebuild by simp
    show "cw_id w \<in> {n} \<or> (\<exists>u \<in> claims d s. work_evolves (claimed_db n r1 owner now d1) u w)"
      if "w \<in> claims (claimed_db n r1 owner now d1) s" for w
      using that mine v(8) by (auto intro!: bexI [of _ w] work_evolves_refl)
    show "w \<in> set (works d)" if "w \<in> set (works (claimed_db n r1 owner now d1))" for w using that v(3) sub(1) by auto
    have "ss_changed r < ss_changed ?r" unfolding v(15) using r1(4) by (auto simp: advance_def)
    then show "row_evolves r ?r" using pick_key [OF row] r1 v(12,13) by (simp add: row_evolves_def)
  qed (use v(4,6) rows(2) ids in auto)
qed

lemma recovering_rowD:
  "recovering_row x d = Some r \<Longrightarrow> session_row d (ss_session x) = Some r \<and> ss_status r = SRecovering"
  by (auto simp: recovering_row_def split: option.splits if_splits)

lemma claimed_after:
  assumes "claim_session k n r1 owner now paired d1 = Inr (Some y, d')" "session_row d1 (ss_session r1) = Some r1" "ss_pvc r1 = None"
  shows "d' = claimed_db n r1 owner now d1"
  using assms(1) by (cases rule: claim_sessionD) (use assms(2,3) in auto)

lemma finish_recovery_step:
  assumes inv: "session_inv d" and new: "n \<notin> row_ids d"
    and ws: "\<And>u. u \<in> set us \<Longrightarrow> cw_session u = Some (ss_session x) \<and> copy_ok d u"
    and tx: "finish_recovery k n owner x us now now' d = Inr (y, d')"
  shows "step_ok {n} d d'"
proof (cases "recovering_row x d")
  case (Some r)
  note r = recovering_rowD [OF Some]
  define r1 where "r1 = recovered_session now r"
  have r1: "ss_session r1 = ss_session x" "ss_pvc r1 = None" "ss_project r1 = ss_project r" "ss_changed r < ss_changed r1"
    using pick_key [of ss_session "ss_session x" "sessions d" r] r by (simp_all add: r1_def recovered_session_def cleared_def)
  define d1 where "d1 = put_session r1 (drop_session_rows (ss_session x) us d)"
  obtain c where c: "claim_session k n r1 owner now' False d1 = Inr (Some c, d')"
    using tx Some by (auto simp: finish_recovery_def r1_def d1_def bindE_eq_Inr Let_def split: if_splits)
  have "session_row d1 (ss_session r1) = Some r1" using r r1(1) by (simp add: d1_def drop_session_rows_def put_session_def pick_put)
  from claimed_after [OF c this r1(2)] rebuild_step [OF inv conjunct1 [OF r] conjunct2 [OF r] new ws r1 d1_def]
  show ?thesis by simp
qed (use tx step_ok_refl [OF inv] in \<open>simp add: finish_recovery_def\<close>)

lemma retire_work_quiet:
  assumes "retire_work k paired now claim (acc, d) u = Inr (acc', d')"
  shows "quiet d d'"
  using assms retire_quiet by (auto simp: retire_work_def bindE_eq_Inr split: option.splits prod.splits if_splits)

lemma retire_works_quiet: "foldE (retire_work k paired now claim) (acc, d) us = Inr (acc', d') \<Longrightarrow> quiet d d'"
proof (induction us arbitrary: acc d)
  case (Cons u us)
  then obtain acc1 e where "retire_work k paired now claim (acc, d) u = Inr (acc1, e)"
    "foldE (retire_work k paired now claim) (acc1, e) us = Inr (acc', d')" by (auto simp: bindE_eq_Inr)
  with Cons.IH retire_work_quiet quiet_trans show ?case by blast
qed simp

lemma finish_paired_recovery_step:
  assumes inv: "session_inv d" and new: "n \<notin> row_ids d"
    and ws: "\<And>u. u \<in> set us \<Longrightarrow> cw_session u = Some (ss_session x) \<and> copy_ok d u"
    and tx: "finish_paired_recovery k paired n owner x us limit now d = Inr (y, d')"
  shows "step_ok {n} d d'"
proof (cases "recovering_row x d")
  case (Some r0)
  obtain ret un e where fold: "foldE (retire_work k paired now (Some (x, limit))) (([], []), d) us = Inr ((ret, un), e)"
    using tx Some by (auto simp: finish_paired_recovery_def bindE_eq_Inr)
  have q: "quiet d e" by (rule retire_works_quiet [OF fold])
  have inv': "session_inv e" by (rule quiet_inv [OF q inv])
  have new': "n \<notin> row_ids e" using new quiet_views(7) [OF q] by simp
  obtain r where r: "session_row e (ss_session x) = Some r" "ss_status r = SRecovering"
    using recovering_rowD [OF Some] quiet_row [OF q] by (metis row_key_eq)
  define r1 where "r1 = (recovered_session now r)\<lparr>ss_pod := None\<rparr>"
  have r1: "ss_session r1 = ss_session x" "ss_pvc r1 = None" "ss_project r1 = ss_project r" "ss_changed r < ss_changed r1"
    using pick_key [OF r(1)] by (simp_all add: r1_def recovered_session_def cleared_def)
  define d1 where "d1 = put_session r1 (drop_session_rows (ss_session x) us e)"
  obtain c where c: "claim_session k n r1 owner now True d1 = Inr (Some c, d')"
    using tx Some fold r(1) by (auto simp: finish_paired_recovery_def r1_def d1_def bindE_eq_Inr Let_def split: if_splits)
  have "session_row d1 (ss_session r1) = Some r1" using r r1(1) by (simp add: d1_def drop_session_rows_def put_session_def pick_put)
  from claimed_after [OF c this r1(2)] rebuild_step [OF inv' r new' _ r1 d1_def] ws quiet_copy [OF q]
  have "step_ok {n} e d'" by simp
  then show ?thesis by (rule quiet_step [OF q])
qed (use tx step_ok_refl [OF inv] in \<open>simp add: finish_paired_recovery_def\<close>)

end
