(* ===== verification/Session_World.thy ===== *)
theory Session_World
  imports Session_Rebuild
begin

text \<open>
  The invariant of the sandbox manager: in every state that transactions of any replicas can lead to, every
  session has its disk and at most one claim that winds it down, and every step of the manager is a move
  of the lifecycle of one sandbox, or leaves all of them as they are.
\<close>

section \<open>The world\<close>

definition world_inv :: "world \<Rightarrow> bool" where
  "world_inv w \<longleftrightarrow>
     session_inv (wd w) \<and> row_ids (wd w) \<subseteq> used w \<and> (\<forall>x \<in> seen w. row_seen (wd w) x) \<and>
     (\<forall>u \<in> held w. cw_id u \<in> used w \<and> copy_ok (wd w) u)"

definition moves :: "world \<Rightarrow> world \<Rightarrow> bool" where
  "moves w w' \<longleftrightarrow> (\<exists>new d. new \<inter> used w = {} \<and> step_ok new (wd w) d \<and> w' = after d new w)"

lemma commits_moves:
  assumes "commits w new m w'" "\<And>y d. m (wd w) = Inr (y, d) \<Longrightarrow> new \<inter> row_ids (wd w) = {} \<Longrightarrow> step_ok new (wd w) d"
    and "row_ids (wd w) \<subseteq> used w"
  shows "moves w w'"
proof -
  obtain y d where "new \<inter> used w = {}" "m (wd w) = Inr (y, d)" "w' = after d new w"
    using assms(1) by (auto simp: commits_def)
  moreover from this(1) assms(3) have "new \<inter> row_ids (wd w) = {}" by blast
  ultimately show ?thesis using assms(2) unfolding moves_def by blast
qed

lemma work_evolves_alt:
  "work_evolves d w v \<longleftrightarrow> same_identity w v \<and> (cw_kind v = cw_kind w \<or> cw_kind v = WRecovery \<and>
     (\<exists>s r. cw_session w = Some s \<and> session_row d s = Some r \<and> cw_changed w < ss_changed r))"
  by (auto simp: work_evolves_def split: option.splits)

lemma work_evolves_trans:
  assumes "work_evolves d u w" "work_evolves d' w v"
    and rows: "\<And>s r. session_row d s = Some r \<Longrightarrow> \<exists>r'. session_row d' s = Some r' \<and> row_evolves r r'"
  shows "work_evolves d' u v"
proof -
  have "same_identity u w" "same_identity w v" using assms(1,2) by (simp_all add: work_evolves_def)
  then have same: "same_identity u v" "cw_session w = cw_session u" "cw_changed w = cw_changed u"
    by (simp_all add: same_identity_def)
  have "\<exists>r'. session_row d' s = Some r' \<and> t < ss_changed r'" if "session_row d s = Some r" "t < ss_changed r" for s r t
    using rows [OF that(1)] that(2) by (auto simp: row_evolves_def)
  then show ?thesis using assms(1,2) unfolding work_evolves_alt same(2,3) using same(1) by metis
qed

lemma stored_copy:
  assumes inv: "session_inv d" and v: "v \<in> set (works d)"
  shows "copy_ok d v"
  unfolding copy_ok_def
proof (intro conjI ballI impI)
  show "(cw_kind v = WOrphan) = (cw_session v = None)"
  proof (cases "cw_session v")
    case (Some s)
    then have "v \<in> claims d s" using v by (simp add: claims_iff)
    then have "cw_kind v \<noteq> WOrphan" using session_invD(2) [OF inv, of s]
      by (cases "session_row d s") (auto simp: local_ok_def works_ok_def)
    with Some show ?thesis by simp
  qed (use session_invD(3) [OF inv v] in simp)
  fix w assume "w \<in> set (works d)" "cw_id w = cw_id v"
  then have "w = v" using v session_invD(1) [OF inv] by (auto simp: keys_ok_db_def distinct_map inj_on_def)
  then show "work_evolves d v w" by simp
qed

lemma moves_inv:
  assumes "world_inv w" "moves w w'"
  shows "world_inv w'"
proof -
  obtain new d where new: "new \<inter> used w = {}" and st: "step_ok new (wd w) d" and w': "w' = after d new w"
    using assms(2) by (auto simp: moves_def)
  note i = assms(1) [unfolded world_inv_def] and s = step_okD [OF st]
  have views: "wd w' = d" "used w' = used w \<union> new" "seen w' = seen w \<union> set (sessions d)" "held w' = held w \<union> set (works d)"
    by (simp_all add: w' after_def)
  have ids: "row_ids d \<subseteq> used w'" using s(2) i views(2) by auto
  have seen: "row_seen d x" if "x \<in> seen w'" for x
  proof (cases "x \<in> seen w")
    case True
    then obtain r where "session_row (wd w) (ss_session x) = Some r" "row_evolves x r" using i by (auto simp: row_seen_def)
    with s(3) show ?thesis unfolding row_seen_def using row_evolves_trans by blast
  next
    case False
    then have "x \<in> set (sessions d)" using that views by simp
    then have "session_row d (ss_session x) = Some x"
      using pick_unique [of ss_session "sessions d" x] session_invD(1) [OF s(1)] by (simp add: keys_ok_db_def)
    then show ?thesis by (simp add: row_seen_def)
  qed
  have held: "cw_id u \<in> used w' \<and> copy_ok d u" if u: "u \<in> held w'" for u
  proof (cases "u \<in> held w")
    case True
    then have c: "copy_ok (wd w) u" "cw_id u \<in> used w" using i by auto
    have "work_evolves d u v" if v: "v \<in> set (works d)" "cw_id v = cw_id u" for v
    proof -
      have "cw_id v \<notin> new" using c(2) new v(2) by auto
      then obtain x where x: "x \<in> set (works (wd w))" "work_evolves d x v" using s(4) [OF v(1)] by blast
      then have "work_evolves (wd w) u x" using c(1) v(2) by (simp add: copy_ok_def work_evolves_def same_identity_def)
      then show ?thesis by (rule work_evolves_trans [OF _ x(2) s(3)])
    qed
    with c views(2) show ?thesis by (simp add: copy_ok_def)
  next
    case False
    then have v: "u \<in> set (works d)" using u views by simp
    then show ?thesis using stored_copy [OF s(1)] ids by (auto simp: row_ids_def)
  qed
  show ?thesis using s(1) ids seen held views unfolding world_inv_def by blast
qed

lemma new_world_inv: "world_inv new_world"
  by (simp add: world_inv_def new_world_def empty_db_def session_inv_def keys_ok_db_def local_ok_def disks_def claims_def row_ids_def)

section \<open>Every step\<close>

lemma admit_signal_step:
  assumes inv: "session_inv d" and new: "n \<notin> row_ids d"
    and tx: "admit_signal k c (reconcile_signal k n m now timeout) n b t m now observed d = Inr (y, d')"
  shows "step_ok {n, b} d d'"
proof (cases t)
  case OrphanTopic
  then have "admit_orphan k (reconcile_signal k n m now timeout) n m now (cleanup_seconds c) observed d = Inr (y, d')"
    using tx by (simp add: admit_signal_def)
  then have "step_ok {n} d d'"
    by (rule admit_orphan_step [OF inv new, rotated]) (rule reconcile_signal_step [OF inv new])
  then show ?thesis by (rule step_ok_mono) simp
next
  case RecoverTopic
  then show ?thesis using tx recover_step [OF inv new] by (auto simp: admit_signal_def bindE_eq_Inr)
next
  case IdleTopic
  then show ?thesis using tx idle_step [OF inv new, THEN step_ok_mono, of _ _ _ _ _ _ _ _ "{n, b}"]
    by (auto simp: admit_signal_def bindE_eq_Inr)
next
  case ReapTopic
  then show ?thesis using tx reap_step [OF inv new, THEN step_ok_mono, of _ _ _ _ _ _ _ _ _ _ "{n, b}"] step_ok_refl [OF inv]
    by (auto simp: admit_signal_def bindE_eq_Inr split: option.splits)
qed

lemma quiet_moves:
  assumes "world_inv w" "commits w new m w'" "\<And>y d. m (wd w) = Inr (y, d) \<Longrightarrow> quiet (wd w) d"
  shows "moves w w'"
  using assms(1) quiet_ok by (intro commits_moves [OF assms(2)]) (auto simp: world_inv_def dest: assms(3))

lemma held_copies:
  assumes "world_inv w" "set us \<subseteq> {u \<in> held w. cw_session u = Some s \<and> cw_kind u = WRecovery}" "u \<in> set us"
  shows "cw_session u = Some s \<and> copy_ok (wd w) u"
  using assms by (auto simp: world_inv_def)

lemma manager_moves:
  assumes inv: "world_inv w" and step: "manager_step k w w'"
  shows "moves w w'"
proof -
  have i: "session_inv (wd w)" and ids: "row_ids (wd w) \<subseteq> used w" using inv by (simp_all add: world_inv_def)
  have seen: "row_seen (wd w) x" if "x \<in> seen w" for x using that inv by (simp add: world_inv_def)
  have copy: "copy_ok (wd w) u" if "u \<in> held w" for u using that inv by (simp add: world_inv_def)
  note keys = session_invD(1) [OF i] and rule = commits_moves [OF _ _ ids] and quiet = quiet_moves [OF inv]
  from step show ?thesis
  proof cases
    case insert then show ?thesis by (rule rule) (rule insert_step [OF i])
  next
    case claimed show ?thesis by (rule rule [OF claimed(2)]) (auto intro: claim_step_ok [OF i])
  next
    case progress show ?thesis by (rule rule [OF progress(2)]) (rule progress_step [OF i seen [OF progress(1)]])
  next
    case ready then show ?thesis by (rule rule) (rule ready_step [OF i])
  next
    case signalled show ?thesis by (rule rule [OF signalled(2)]) (auto intro: admit_signal_step [OF i])
  next
    case reconciled show ?thesis by (rule rule [OF reconciled]) (auto intro: reconcile_step [OF i])
  next
    case revalidated show ?thesis by (rule rule [OF revalidated(2)]) (rule revalidate_step [OF i copy [OF revalidated(1)]])
  next
    case completed show ?thesis by (rule rule [OF completed(2)]) (rule complete_step [OF i copy [OF completed(1)]])
  next
    case idle_ended show ?thesis by (rule rule [OF idle_ended(2)]) (rule finish_idle_step [OF i copy [OF idle_ended(1)]])
  next
    case destroyed show ?thesis by (rule rule [OF destroyed(2)]) (rule finish_destroyed_step [OF i copy [OF destroyed(1)]])
  next
    case expired show ?thesis by (rule rule [OF expired(2)]) (rule finish_disposal_step [OF i copy [OF expired(1)]])
  next
    case recovery_failed show ?thesis by (rule rule [OF recovery_failed(2)]) (rule fail_step [OF i])
  next
    case recovered show ?thesis
      by (rule rule [OF recovered(3)]) (auto intro: finish_recovery_step [OF i _ held_copies [OF inv recovered(2)]])
  next
    case pairs_recovered show ?thesis
      by (rule rule [OF pairs_recovered(3)]) (auto intro: finish_paired_recovery_step [OF i _ held_copies [OF inv pairs_recovered(2)]])
  next
    case bound_object show ?thesis
      by (rule rule [OF bound_object(3)]) (use bound_object(2) in \<open>auto intro: bind_clone_step [OF i] quiet_ok [OF i] dest: bind_ipc_quiet [OF keys]\<close>)
  next
    case probes_changed show ?thesis
      by (rule quiet [OF probes_changed(2)]) (use probes_changed(1) probes_quiet in auto)
  next
    case captured show ?thesis
      by (rule quiet [OF captured(5)]) (use captured(4) in \<open>auto dest: record_quiet [OF keys] state_release_quiet [OF keys]\<close>)
  next
    case bound show ?thesis by (rule quiet [OF bound(3)]) (use bound(2) in \<open>auto dest: bind_quiet\<close>)
  next
    case reserved show ?thesis
      by (rule quiet [OF reserved(3)]) (use reserved(2) in \<open>auto dest: reserve_quiet reserve_clone_quiet [OF keys]\<close>)
  next
    case settled show ?thesis by (rule quiet [OF settled(3)]) (use settled(2) in \<open>auto dest: settle_quiet\<close>)
  next
    case released show ?thesis by (rule quiet [OF released(4)]) (use released(3) in \<open>auto dest: release_quiet\<close>)
  next
    case state_changed show ?thesis by (rule quiet [OF state_changed(3)]) (use state_changed(2) in \<open>auto dest: state_quiet\<close>)
  next
    case fenced show ?thesis by (rule quiet [OF fenced(4)]) (rule fenced_quiet)
  qed (auto intro: stamp_quiet [OF keys] admit_quiet [OF keys] ack_quiet reply_quiet [OF keys] probe_quiet [OF keys]
      saved_quiet [OF keys] seal_quiet begin_quiet reserve_state_quiet state_quiet elim!: quiet)
qed

interpretation manager: invariant_system "\<lambda>w. w = new_world" "\<lambda>w (_ :: unit) w'. manager_step k w w'" world_inv for k
  by unfold_locales (auto intro: new_world_inv moves_inv manager_moves)

end
