(* ===== verification/Session_Demo.thy ===== *)
theory Session_Demo
  imports Session_World
begin

text \<open>
  What the invariant of the sandbox manager means, and a run of it: a session that is created, claimed,
  bound, made ready and idled out.
\<close>

abbreviation reached :: "ledger_rules \<Rightarrow> world \<Rightarrow> bool" where
  "reached k \<equiv> reachable (\<lambda>w. w = new_world) (\<lambda>w (_ :: unit) w'. manager_step k w w')"

lemma reached_inv: "reached k w \<Longrightarrow> world_inv w"
  by (rule manager.reachable_inv)

lemma reached_session_inv: "reached k w \<Longrightarrow> session_inv (wd w)"
  using reached_inv by (simp add: world_inv_def)

lemma owns_claim:
  assumes inv: "session_inv d" and u: "u \<in> set (works d)" "owns d u" "cw_session u = Some s"
  obtains r where "session_row d s = Some r" "u \<in> claims d s" "cw_kind u \<noteq> WRecovery" "in_force r (disks d s) u"
proof -
  have cl: "u \<in> claims d s" using u by (simp add: claims_iff)
  then have kind: "cw_kind u \<noteq> WOrphan" using stored_copy [OF inv u(1)] u(3) by (simp add: copy_ok_def)
  obtain r v where l: "locked d s (cw_sandbox u) = (Some r, v)" "work_status (cw_kind u) = Some (ss_status r)"
    by (rule ownsD [OF u(2,3) kind])
  have rec: "cw_kind u \<noteq> WRecovery" using l(2) by (auto simp: work_status_def)
  have "in_force r (disks d s) u" using session_rows(2) [OF inv lockedD(1) [OF l(1)]] cl rec by (simp add: works_ok_def)
  with that lockedD(1) [OF l(1)] cl rec show thesis by blast
qed

section \<open>A run\<close>

definition after_tx :: "'a tx \<Rightarrow> manager_db \<Rightarrow> manager_db" where
  "after_tx m d = snd (projr (m d))"

lemma after_tx: "\<not> isl (m d) \<Longrightarrow> \<exists>x. m d = Inr (x, after_tx m d)"
  by (cases "m d") (auto simp: after_tx_def)

lemma commits_after: "\<not> isl (m (wd w)) \<Longrightarrow> new \<inter> used w = {} \<Longrightarrow> commits w new m (after (after_tx m (wd w)) new w)"
  using after_tx [of m "wd w"] by (auto simp: commits_def)

definition demo_rules :: ledger_rules where
  "demo_rules = \<lparr>lr_runtime = \<lambda>_ _. True, lr_input = \<lambda>_ _ _. True\<rparr>"

definition demo_settings :: manager_settings where
  "demo_settings =
     \<lparr>idle_seconds = 100, detached_seconds = 100, cleanup_seconds = 50, pvc_timeout_seconds = 50, recovery_seconds = 50,
      ready_seconds = 50, create_seconds = None, ping_interval_seconds = 10, ping_timeout_seconds = 10, lifecycle_batch = 8\<rparr>"

definition demo_signal :: signal where
  "demo_signal = \<lparr>sg_session = 1, sg_sandbox = 2, sg_pvc = None, sg_kind = None, sg_name = None, sg_uid = None\<rparr>"

definition demo_row :: "manager_db \<Rightarrow> sandbox_session" where
  "demo_row d = the (session_row d 1)"

definition demo_claim :: "nat \<Rightarrow> nat \<Rightarrow> int \<Rightarrow> manager_db \<Rightarrow> manager_db" where
  "demo_claim n owner now d = after_tx (claim_session demo_rules n (demo_row d) owner now False) d"

definition demo_record :: "record_values \<Rightarrow> manager_db \<Rightarrow> manager_db" where
  "demo_record v d = after_tx (record_progress (demo_row d) 4 v) d"

definition demo_complete :: "manager_db \<Rightarrow> manager_db" where
  "demo_complete d = after_tx (complete_work (hd (works d)) 1100) d"

definition demo1 :: manager_db where "demo1 = after_tx (insert_pending 1 2 ''golden'' 10 9) empty_db"
definition demo2 :: manager_db where "demo2 = demo_claim 3 4 20 demo1"
definition demo3 :: manager_db where "demo3 = demo_record (PvcBound ''disk'' ''golden'') demo2"
definition demo4 :: manager_db where "demo4 = demo_record (IpcPvcBound ''ipc'') demo3"
definition demo5 :: manager_db where "demo5 = demo_record (GuestBound ''guest'') demo4"
definition demo6 :: manager_db where "demo6 = demo_record (IpcBound ''pod'') demo5"
definition demo7 :: manager_db where "demo7 = after_tx (mark_ready demo_rules 2 30 20) demo6"
definition demo8 :: manager_db where
  "demo8 = after_tx (admit_signal demo_rules demo_settings (reconcile_signal demo_rules 5 demo_signal 1000 50) 5 6
     IdleTopic demo_signal 1000 []) demo7"
definition demo9 :: manager_db where "demo9 = demo_complete demo8"
definition demo10 :: manager_db where "demo10 = demo_claim 7 8 1200 demo9"

lemmas demo_defs = demo_claim_def demo_record_def demo_complete_def

lemma demo_runs:
  "\<not> isl (insert_pending 1 2 ''golden'' 10 9 empty_db)"
  "\<not> isl (claim_session demo_rules 3 (demo_row demo1) 4 20 False demo1)" "demo_row demo1 \<in> set (sessions demo1)"
  "\<not> isl (record_progress (demo_row demo2) 4 (PvcBound ''disk'' ''golden'') demo2)" "demo_row demo2 \<in> set (sessions demo2)"
  "\<not> isl (record_progress (demo_row demo3) 4 (IpcPvcBound ''ipc'') demo3)" "demo_row demo3 \<in> set (sessions demo3)"
  "\<not> isl (record_progress (demo_row demo4) 4 (GuestBound ''guest'') demo4)" "demo_row demo4 \<in> set (sessions demo4)"
  "\<not> isl (record_progress (demo_row demo5) 4 (IpcBound ''pod'') demo5)" "demo_row demo5 \<in> set (sessions demo5)"
  "\<not> isl (mark_ready demo_rules 2 30 20 demo6)"
  "\<not> isl (admit_signal demo_rules demo_settings (reconcile_signal demo_rules 5 demo_signal 1000 50) 5 6 IdleTopic demo_signal 1000 [] demo7)"
  by code_simp+

lemma demo_ends:
  "\<not> isl (complete_work (hd (works demo8)) 1100 demo8)" "hd (works demo8) \<in> set (works demo8)"
  "\<not> isl (claim_session demo_rules 7 (demo_row demo9) 8 1200 False demo9)" "demo_row demo9 \<in> set (sessions demo9)"
  by code_simp+

lemma demo_rows:
  "map_option ss_status (session_row demo8 1) = Some SShuttingDown" "map cw_id (works demo8) = [5]"
  "map ss_status (sessions demo7) = [SReady]"
  "map (\<lambda>r. (ss_session r, ss_status r, ss_pvc r)) (sessions demo9) = [(1, SStopped, Some 3)]"
  "map (\<lambda>p. (sp_id p, sp_state p)) (pvcs demo9) = [(3, VDetached)]"
  by code_simp+

text \<open>The worlds of the run.\<close>

lemma reached_next: "reached k w \<Longrightarrow> manager_step k w w' \<Longrightarrow> reached k w'"
  by (rule reachable_step)

lemma seen_after: "x \<in> set (sessions d) \<Longrightarrow> x \<in> seen (after d new w)"
  by (simp add: after_def)

definition world1 :: world where "world1 = after demo1 {2} new_world"
definition world2 :: world where "world2 = after demo2 {3} world1"
definition world3 :: world where "world3 = after demo3 {} world2"
definition world4 :: world where "world4 = after demo4 {} world3"
definition world5 :: world where "world5 = after demo5 {} world4"
definition world6 :: world where "world6 = after demo6 {} world5"
definition world7 :: world where "world7 = after demo7 {} world6"
definition world8 :: world where "world8 = after demo8 {5, 6} world7"
definition world9 :: world where "world9 = after demo9 {} world8"
definition world10 :: world where "world10 = after demo10 {7} world9"

lemmas world_defs = world1_def world2_def world3_def world4_def world5_def world6_def world7_def world8_def
  world9_def world10_def

lemma world_views [simp]:
  "wd world1 = demo1" "wd world2 = demo2" "wd world3 = demo3" "wd world4 = demo4" "wd world5 = demo5" "wd world6 = demo6"
  "wd world7 = demo7" "wd world8 = demo8" "wd world9 = demo9" "wd world10 = demo10"
  "used world1 = {2}" "used world2 = {2, 3}" "used world3 = {2, 3}" "used world4 = {2, 3}" "used world5 = {2, 3}"
  "used world6 = {2, 3}" "used world7 = {2, 3}" "used world8 = {2, 3, 5, 6}" "used world9 = {2, 3, 5, 6}" "wd new_world = empty_db" "used new_world = {}"
  by (auto simp: world_defs after_def new_world_def)

lemma demo_seen:
  "demo_row demo1 \<in> seen world1" "demo_row demo2 \<in> seen world2" "demo_row demo3 \<in> seen world3"
  "demo_row demo4 \<in> seen world4" "demo_row demo5 \<in> seen world5" "demo_row demo9 \<in> seen world9"
  unfolding world_defs by (rule seen_after, rule demo_runs demo_ends)+

lemma demo_held: "hd (works demo8) \<in> held world8"
  using demo_ends by (simp add: world8_def after_def)

lemma demo_steps:
  "manager_step demo_rules new_world world1" "manager_step demo_rules world1 world2" "manager_step demo_rules world2 world3"
  "manager_step demo_rules world3 world4" "manager_step demo_rules world4 world5" "manager_step demo_rules world5 world6"
  "manager_step demo_rules world6 world7" "manager_step demo_rules world7 world8"
  "manager_step demo_rules world8 world9" "manager_step demo_rules world9 world10"
proof -
  note c = commits_after [where w = new_world, simplified] commits_after [where w = world1, simplified]
    commits_after [where w = world2, simplified] commits_after [where w = world3, simplified]
    commits_after [where w = world4, simplified] commits_after [where w = world5, simplified]
    commits_after [where w = world6, simplified] commits_after [where w = world7, simplified]
    commits_after [where w = world8, simplified] commits_after [where w = world9, simplified]
  show "manager_step demo_rules new_world world1" unfolding world1_def demo1_def
    by (rule manager_step.insert, rule c(1)) (rule demo_runs)
  show "manager_step demo_rules world1 world2" unfolding world2_def demo2_def demo_defs
    by (rule manager_step.claimed [OF demo_seen(1)], rule c(2)) (rule demo_runs, simp)
  show "manager_step demo_rules world2 world3" unfolding world3_def demo3_def demo_defs
    by (rule manager_step.progress [OF demo_seen(2)], rule c(3)) (rule demo_runs, simp)
  show "manager_step demo_rules world3 world4" unfolding world4_def demo4_def demo_defs
    by (rule manager_step.progress [OF demo_seen(3)], rule c(4)) (rule demo_runs, simp)
  show "manager_step demo_rules world4 world5" unfolding world5_def demo5_def demo_defs
    by (rule manager_step.progress [OF demo_seen(4)], rule c(5)) (rule demo_runs, simp)
  show "manager_step demo_rules world5 world6" unfolding world6_def demo6_def demo_defs
    by (rule manager_step.progress [OF demo_seen(5)], rule c(6)) (rule demo_runs, simp)
  show "manager_step demo_rules world6 world7" unfolding world7_def demo7_def
    by (rule manager_step.ready, rule c(7)) (rule demo_runs, simp)
  show "manager_step demo_rules world7 world8" unfolding world8_def demo8_def
    by (rule manager_step.signalled [rotated], rule c(8)) (rule demo_runs, simp_all)
  show "manager_step demo_rules world8 world9" unfolding world9_def demo9_def demo_defs
    by (rule manager_step.completed [OF demo_held], rule c(9)) (rule demo_ends, simp)
  show "manager_step demo_rules world9 world10" unfolding world10_def demo10_def demo_defs
    by (rule manager_step.claimed [OF demo_seen(6)], rule c(10)) (rule demo_ends, simp)
qed

lemma demo_reached: "reached demo_rules world7" "reached demo_rules world8" "reached demo_rules world9"
proof -
  have "reached demo_rules new_world" by (rule reachable_start) simp
  then have "reached demo_rules world1" using demo_steps(1) by (rule reached_next)
  then have "reached demo_rules world2" using demo_steps(2) by (rule reached_next)
  then have "reached demo_rules world3" using demo_steps(3) by (rule reached_next)
  then have "reached demo_rules world4" using demo_steps(4) by (rule reached_next)
  then have "reached demo_rules world5" using demo_steps(5) by (rule reached_next)
  then have "reached demo_rules world6" using demo_steps(6) by (rule reached_next)
  then show seven: "reached demo_rules world7" using demo_steps(7) by (rule reached_next)
  from seven show eight: "reached demo_rules world8" using demo_steps(8) by (rule reached_next)
  from eight show "reached demo_rules world9" using demo_steps(9) by (rule reached_next)
qed

end
