(* ===== verification/Session_Safety.thy ===== *)
theory Session_Safety
  imports Session_Demo
begin

text \<open>
  What holds of the sandboxes in every state that the manager can reach, and of every step it takes.
\<close>

inductive_cases lifecycle_stopped: "lifecycle_move (Some (SStopped, Some (v, VDetached))) p"

lemma reached_move:
  assumes "reached k w" "manager_step k w w'"
  shows "lifecycle_move\<^sup>=\<^sup>= (lifecycle (wd w) s) (lifecycle (wd w') s)"
proof -
  obtain new d where "step_ok new (wd w) d" "w' = after d new w"
    using manager_moves [OF reached_inv [OF assms(1)] assms(2)] by (auto simp: moves_def)
  then show ?thesis using step_okD(5) [of new "wd w" d s] by (simp add: after_def)
qed

text \<open>C6: In every state that transactions of any replicas can lead to, at any interleaving and with clocks that
  disagree, the rows have distinct keys, every session has the disk its status needs and no other disk in use,
  what winds down has exactly one work in force, and no work and no ledger belongs to a session that is gone.\<close>

theorem sandbox_invariant:
  assumes "reachable (\<lambda>w. w = new_world) (\<lambda>w (_ :: unit) w'. manager_step k w w') w"
  shows "session_inv (wd w)"
  using reached_session_inv [OF assms] .

lemma sandbox_invariant_witness:
  "session_inv demo8 \<and> map_option ss_status (session_row demo8 1) = Some SShuttingDown"
  using sandbox_invariant [OF demo_reached(2)] demo_rows(1) by simp

text \<open>C7: Every step of the manager is, for every session, one move of the lifecycle of a sandbox, or leaves its
  status and its disk as they are: no transaction of the thirty-odd kinds takes a sandbox another way.\<close>

theorem lifecycle_refines:
  assumes "reachable (\<lambda>w. w = new_world) (\<lambda>w (_ :: unit) w'. manager_step k w w') w" "manager_step k w w'"
  shows "lifecycle (wd w') s = lifecycle (wd w) s \<or> lifecycle_move (lifecycle (wd w) s) (lifecycle (wd w') s)"
  using reached_move [OF assms, of s] by auto

lemma lifecycle_refines_witness:
  "lifecycle demo8 1 = lifecycle demo7 1 \<or> lifecycle_move (lifecycle demo7 1) (lifecycle demo8 1)"
  using lifecycle_refines [OF demo_reached(1) demo_steps(8), of 1] by simp

text \<open>C8: A sandbox is wound down by one claim at a time: two stored works that own the same session are the
  same work, so two executors never delete or keep the objects of one sandbox under different claims.\<close>

theorem works_exclusive:
  assumes "reachable (\<lambda>w. w = new_world) (\<lambda>w (_ :: unit) w'. manager_step k w w') w"
    and "u \<in> set (works (wd w))" "v \<in> set (works (wd w))" "owns (wd w) u" "owns (wd w) v"
    and "cw_session u = Some s" "cw_session v = Some s"
  shows "u = v"
proof -
  note inv = reached_session_inv [OF assms(1)]
  obtain r where r: "session_row (wd w) s = Some r" "u \<in> claims (wd w) s" "cw_kind u \<noteq> WRecovery"
    by (rule owns_claim [OF inv assms(2,4,6)])
  obtain r' where v: "v \<in> claims (wd w) s" "cw_kind v \<noteq> WRecovery" by (rule owns_claim [OF inv assms(3,5,7)])
  have "cw_id u = cw_id v" using session_rows(2) [OF inv r(1)] r v unfolding works_ok_def by blast
  then show ?thesis using session_invD(1) [OF inv] assms(2,3) by (auto simp: keys_ok_db_def distinct_map inj_on_def)
qed

lemma works_exclusive_witness:
  "hd (works demo8) = last (works demo8)"
proof -
  have "hd (works demo8) \<in> set (works demo8)" "last (works demo8) \<in> set (works demo8)"
    "owns demo8 (hd (works demo8))" "owns demo8 (last (works demo8))"
    "cw_session (hd (works demo8)) = Some 1" "cw_session (last (works demo8)) = Some 1" by code_simp+
  with works_exclusive [OF demo_reached(2), of "hd (works demo8)" "last (works demo8)" 1] show ?thesis by simp
qed

text \<open>C24: A sandbox that shuts down always has the work that ends it: the work is stored, it is the session's own
  and its claim on the session and the disk holds, so its executor is never refused for want of a claim.\<close>

theorem shutdown_has_work:
  assumes "reachable (\<lambda>w. w = new_world) (\<lambda>w (_ :: unit) w'. manager_step k w w') w"
    and "session_row (wd w) s = Some r" "ss_status r = SShuttingDown"
  shows "\<exists>u \<in> set (works (wd w)). cw_session u = Some s \<and> cw_kind u = WIdle \<and> owns (wd w) u"
proof -
  note inv = reached_session_inv [OF assms(1)]
  have "winding_down r (disks (wd w) s)" using assms(3) by (simp add: winding_down_def)
  then obtain u where u: "u \<in> claims (wd w) s" "cw_kind u \<noteq> WRecovery" "in_force r (disks (wd w) s) u"
    using session_rows(2) [OF inv assms(2)] unfolding works_ok_def by blast
  have kind: "cw_kind u = WIdle" using u(2,3) assms(3) by (cases "cw_kind u") (auto simp: in_force_def work_status_def)
  then obtain v p where v: "ss_pvc r = Some v" "p \<in> disks (wd w) s" "sp_id p = v" "cw_pvc_changed u = Some (sp_changed p)"
      "sp_state p = VDetaching" using u(3) by (cases "ss_pvc r") (auto simp: in_force_def work_disk_def)
  have "get_pvc (wd w) v = Some p" using disk_found(1) [OF session_invD(1) [OF inv] v(2)] unfolding v(3) .
  then have "locked (wd w) s (cw_sandbox u) = (Some r, Some p)" using assms(2) u(3) v(1) by (simp add: locked_def in_force_def)
  then have "owns (wd w) u" using u v kind by (simp add: owns_def claims_iff in_force_def work_status_def work_disk_def)
  with u(1) kind show ?thesis by (auto simp: claims_iff)
qed

lemma shutdown_has_work_witness:
  "\<exists>u \<in> set (works demo8). cw_session u = Some 1 \<and> cw_kind u = WIdle \<and> owns demo8 u"
proof -
  obtain r where "session_row demo8 1 = Some r" "ss_status r = SShuttingDown" using demo_rows(1) by auto
  then show ?thesis using shutdown_has_work [OF demo_reached(2), of 1 r] by simp
qed

text \<open>C25: The disk of a stopped sandbox is kept: one step can only attach it again for the next creator, take
  the sandbox in maintenance with it, or claim its expiry, and never drops it or the session's hold on it.\<close>

theorem stopped_disk_kept:
  assumes "reachable (\<lambda>w. w = new_world) (\<lambda>w (_ :: unit) w'. manager_step k w w') w" "manager_step k w w'"
    and "lifecycle (wd w) s = Some (SStopped, Some (v, VDetached))"
  shows "lifecycle (wd w') s \<in>
    {Some (SStopped, Some (v, VDetached)), Some (SCreating, Some (v, VAttaching)), Some (SService, Some (v, VDetached)),
     Some (SStopped, Some (v, VDestroying))}"
  using reached_move [OF assms(1,2), of s] unfolding assms(3) by (auto elim: lifecycle_stopped)

lemma stopped_disk_kept_witness:
  "lifecycle demo9 1 = Some (SStopped, Some (3, VDetached)) \<and> lifecycle demo10 1 \<in>
    {Some (SStopped, Some (3, VDetached)), Some (SCreating, Some (3, VAttaching)), Some (SService, Some (3, VDetached)),
     Some (SStopped, Some (3, VDestroying))}"
proof -
  have "lifecycle demo9 1 = Some (SStopped, Some (3, VDetached))" by code_simp
  then show ?thesis using stopped_disk_kept [OF demo_reached(3) demo_steps(10), of 1 3] by simp
qed

end
