(* ===== verification/Dns_Evidence.thy ===== *)
theory Dns_Evidence
  imports Prelude Complex_Main "HOL-Library.List_Lexorder" "HOL-Library.Char_ord"
begin

text \<open>
  DNS data and the bounded signature checks of \<open>ads_sandbox_egress/dnssec_validation.py\<close>.

  A name is its list of labels, an absolute name ends in the empty label. The library compares, hashes
  and orders names without regard to case, so a name stands for its canonical form. What the code
  takes from \<open>dnspython\<close> and \<open>cryptography\<close> is the record \<open>dns_lib\<close>: the relations on names, wire
  forms, key tags, the digest of a key and the verifiers. A record stands up to the library's
  equality; clocks return finite numbers.
\<close>

section \<open>Names, records and the library\<close>

type_synonym name = "bytes list"
type_synonym rdtype = nat

definition root :: name where "root = [[]]"

text \<open>The record types of the IANA registry that the code names.\<close>

definition A_type :: rdtype where "A_type = 1"
definition NS_type :: rdtype where "NS_type = 2"
definition CNAME_type :: rdtype where "CNAME_type = 5"
definition SOA_type :: rdtype where "SOA_type = 6"
definition AAAA_type :: rdtype where "AAAA_type = 28"
definition DNAME_type :: rdtype where "DNAME_type = 39"
definition DS_type :: rdtype where "DS_type = 43"
definition RRSIG_type :: rdtype where "RRSIG_type = 46"
definition NSEC_type :: rdtype where "NSEC_type = 47"
definition DNSKEY_type :: rdtype where "DNSKEY_type = 48"
definition NSEC3_type :: rdtype where "NSEC3_type = 50"
definition NSEC3PARAM_type :: rdtype where "NSEC3PARAM_type = 51"
definition ANY_type :: rdtype where "ANY_type = 255"

lemmas rdtypes [eval_simps] = A_type_def NS_type_def CNAME_type_def SOA_type_def AAAA_type_def
  DNAME_type_def DS_type_def RRSIG_type_def NSEC_type_def DNSKEY_type_def NSEC3_type_def
  NSEC3PARAM_type_def ANY_type_def

record rrsig =
  rs_covered :: rdtype
  rs_algorithm :: nat
  rs_labels :: nat
  rs_original_ttl :: nat
  rs_expiration :: nat
  rs_inception :: nat
  rs_tag :: nat
  rs_signer :: name
  rs_signature :: bytes

record dnskey =
  k_flags :: nat
  k_protocol :: nat
  k_algorithm :: nat
  k_key :: bytes

record ds_record =
  ds_tag :: nat
  ds_algorithm :: nat
  ds_digest_type :: nat
  ds_digest :: bytes

record nsec =
  n_next :: name
  n_windows :: "(nat \<times> bytes) list"

record nsec3 =
  n3_algorithm :: nat
  n3_flags :: nat
  n3_iterations :: nat
  n3_salt :: bytes
  n3_next :: bytes
  n3_windows :: "(nat \<times> bytes) list"

text \<open>A service record keeps its address hints as the text of the addresses.\<close>

datatype rdata =
    Rrsig rrsig
  | Dnskey dnskey
  | Ds ds_record
  | Nsec nsec
  | Nsec3 nsec3
  | Cname name
  | Dname name
  | Address4 string
  | Address6 string
  | Service nat name "string list"
  | Names "name list" bytes \<comment> \<open>other records, with the \<open>target\<close>, \<open>exchange\<close> or \<open>replacement\<close> they have\<close>

record rrset =
  rr_name :: name
  rr_class :: nat
  rr_type :: rdtype
  rr_covers :: rdtype
  rr_ttl :: nat
  rr_items :: "rdata list"

datatype verify_result = Accepted | Unsupported | Rejected

record dns_lib =
  absolute :: "name \<Rightarrow> bool"                  \<comment> \<open>\<open>Name.is_absolute\<close>\<close>
  below :: "name \<Rightarrow> name \<Rightarrow> bool"             \<comment> \<open>\<open>Name.is_subdomain\<close>\<close>
  before :: "name \<Rightarrow> name \<Rightarrow> bool"            \<comment> \<open>\<open>Name.__lt__\<close>\<close>
  parent :: "name \<Rightarrow> name"                    \<comment> \<open>\<open>Name.parent\<close>\<close>
  name_wire :: "name \<Rightarrow> bytes"
  name_digestable :: "name \<Rightarrow> bytes"
  wire_of :: "rdata \<Rightarrow> bytes"
  digestable :: "rdata \<Rightarrow> bytes"
  hexdigest :: "bytes \<Rightarrow> string"             \<comment> \<open>\<open>hashlib.sha256(wire).hexdigest()\<close>\<close>
  known_algorithm :: "nat \<Rightarrow> bool"           \<comment> \<open>\<open>get_algorithm_cls\<close> finds a class\<close>
  ok_to_validate :: "dnskey \<Rightarrow> bool"         \<comment> \<open>\<open>default_policy\<close>\<close>
  ok_to_validate_ds :: "nat \<Rightarrow> bool"
  key_id :: "dnskey \<Rightarrow> nat"
  make_ds :: "name \<Rightarrow> dnskey \<Rightarrow> nat \<Rightarrow> ds_record"
  validate_rrsig :: "rrset \<Rightarrow> rrsig \<Rightarrow> name \<Rightarrow> dnskey \<Rightarrow> rat \<Rightarrow> verify_result"
  public_verify :: "dnskey \<Rightarrow> bytes \<Rightarrow> bytes \<Rightarrow> verify_result"
  nsec3_hash :: "name \<Rightarrow> bytes \<Rightarrow> nat \<Rightarrow> bytes"
  relativize :: "name \<Rightarrow> name \<Rightarrow> name"
  concatenate :: "name \<Rightarrow> name \<Rightarrow> name option"  \<comment> \<open>\<open>None\<close>: \<open>NameTooLong\<close>\<close>

text \<open>What the code relies on in the relations on names: a name lies below another one iff it ends in it,
  and the order is linear, puts a name before the names below it and keeps those together.\<close>

definition names_ok :: "dns_lib \<Rightarrow> bool" where
  "names_ok L \<longleftrightarrow>
     (\<forall>a b. below L a b \<longleftrightarrow> suffix b a) \<and>
     (\<forall>l n. n \<noteq> [] \<longrightarrow> parent L (l # n) = n) \<and>
     (\<forall>n. absolute L n \<longleftrightarrow> n \<noteq> [] \<and> last n = []) \<and>
     (\<forall>a. \<not> before L a a) \<and>
     (\<forall>a b c. before L a b \<longrightarrow> before L b c \<longrightarrow> before L a c) \<and>
     (\<forall>a b. a = b \<or> before L a b \<or> before L b a) \<and>
     (\<forall>a b. strict_suffix b a \<longrightarrow> before L b a) \<and>
     (\<forall>a b c. suffix a c \<longrightarrow> before L a b \<longrightarrow> before L b c \<longrightarrow> suffix a b)"

section \<open>Signature checks\<close>

datatype defect =
    Signature_expired
  | Signature_not_yet_valid
  | Signature_invalid
  | Signature_missing
  | Signer_scope
  | Dnskey_missing
  | Dnskey_flags
  | Dnskey_protocol
  | Ds_mismatch

record failure =
  f_defect :: defect
  f_record :: "string option"
  f_key :: "string option"

record verified_signature =
  vs_signature :: rrsig
  vs_key :: dnskey
  vs_wildcard :: bool

record signature_check =
  sc_verified :: "verified_signature list"
  sc_failures :: "failure list"
  sc_unsupported :: "string list"
  sc_limitations :: "string list"

definition check_valid :: "signature_check \<Rightarrow> bool" where
  "check_valid c \<longleftrightarrow> sc_verified c \<noteq> []"

record ds_check =
  dc_matched :: "dnskey list"
  dc_failures :: "failure list"
  dc_unsupported :: "string list"
  dc_supported :: nat

text \<open>The budget is the state: what \<open>CryptoBudget.remaining\<close> still allows.\<close>

definition consume_budget :: "int \<Rightarrow> (int, unit) eff" where
  "consume_budget count =
     (\<lambda>remaining.
        if count < 1 then (Inl (ValueError ''positive verification work required''), remaining)
        else if remaining < count then (Inl (RequestDenied ''dnssec_crypto_budget''), remaining)
        else (Inr (), remaining - count))"

definition fingerprint :: "dns_lib \<Rightarrow> rdata \<Rightarrow> string" where
  "fingerprint L r = hexdigest L (wire_of L r)"

definition wire_total :: "dns_lib \<Rightarrow> name \<Rightarrow> nat \<Rightarrow> rdata \<Rightarrow> error + nat" where
  "wire_total L owner octets r =
     (let octets' = octets + length (name_wire L owner) + length (wire_of L r) + 10 in
      if octets' > 65535 then Inl (RequestDenied ''dnssec_evidence_wire_limit'') else Inr octets')"

definition bounded :: "dns_lib \<Rightarrow> nat \<Rightarrow> rrset \<Rightarrow> error + unit" where
  "bounded L maximum rrset =
     (if \<not> absolute L (rr_name rrset) \<or> rr_class rrset \<noteq> 1 \<or> length (rr_items rrset) > maximum
      then Inl (RequestDenied ''dnssec_evidence_scope_or_limit'')
      else bindE (foldE (wire_total L (rr_name rrset)) 0 (rr_items rrset)) (\<lambda>_. Inr ()))"

definition probe_key :: "nat \<Rightarrow> dnskey" where
  "probe_key algorithm = \<lparr>k_flags = 256, k_protocol = 3, k_algorithm = algorithm, k_key = [CHR 0x00]\<rparr>"

definition algorithm_supported :: "dns_lib \<Rightarrow> nat \<Rightarrow> bool" where
  "algorithm_supported L algorithm \<longleftrightarrow>
     known_algorithm L algorithm \<and> ok_to_validate L (probe_key algorithm)"

text \<open>\<open>struct.pack\<close> of an unsigned number in network order.\<close>

definition pack :: "nat \<Rightarrow> nat \<Rightarrow> bytes" where
  "pack octets v = map (\<lambda>i. char_of (v div 256 ^ i mod 256)) (rev [0..<octets])"

definition last_labels :: "nat \<Rightarrow> name \<Rightarrow> name" where
  "last_labels k n = drop (length n - k) n"

definition star :: bytes where "star = ''*''"

definition is_wild :: "name \<Rightarrow> bool" where
  "is_wild n \<longleftrightarrow> n \<noteq> [] \<and> hd n = star"

definition verify_ineligible_signature :: "dns_lib \<Rightarrow> rrset \<Rightarrow> rrsig \<Rightarrow> dnskey \<Rightarrow> verify_result" where
  "verify_ineligible_signature L records sig key =
     (let owner = rr_name records in
      if is_wild owner \<and> int (rs_labels sig) \<noteq> int (length owner) - 2 then Rejected
      else
        let owner' = (if int (rs_labels sig) < int (length owner) - 1
                      then star # last_labels (rs_labels sig + 1) owner else owner);
            pre = name_digestable L owner' @ pack 2 (rr_type records) @ pack 2 (rr_class records)
                    @ pack 4 (rs_original_ttl sig);
            data = take 18 (wire_of L (Rrsig sig)) @ name_digestable L (rs_signer sig)
                     @ concat (map (\<lambda>item. pre @ pack 2 (length item) @ item)
                                (sort (map (digestable L) (rr_items records))))
        in public_verify L key (rs_signature sig) data)"

definition zone_key :: "dnskey \<Rightarrow> bool" where
  "zone_key k \<longleftrightarrow> odd (k_flags k div 256)"

definition eligible :: "dnskey \<Rightarrow> bool" where
  "eligible k \<longleftrightarrow> zone_key k \<and> k_protocol k = 3"

definition crypto_time :: "rrsig \<Rightarrow> rat \<Rightarrow> rat" where
  "crypto_time sig now = max (of_nat (rs_inception sig)) (min now (of_nat (rs_expiration sig)))"

definition sig_in_force :: "rrsig \<Rightarrow> rat \<Rightarrow> bool" where
  "sig_in_force sig now \<longleftrightarrow> of_nat (rs_inception sig) \<le> now \<and> now \<le> of_nat (rs_expiration sig)"

text \<open>Whether the signed owner was a wildcard that the answer expanded.\<close>

definition expanded :: "name \<Rightarrow> rrsig \<Rightarrow> bool" where
  "expanded owner sig \<longleftrightarrow>
     int (rs_labels sig) < int (length owner) - 1 \<and>
     \<not> (is_wild owner \<and> int (rs_labels sig) = int (length owner) - 2)"

definition add_failure :: "defect \<Rightarrow> string \<Rightarrow> string option \<Rightarrow> signature_check \<Rightarrow> signature_check" where
  "add_failure d record key c = c\<lparr>sc_failures := sc_failures c @ [\<lparr>f_defect = d, f_record = Some record, f_key = key\<rparr>]\<rparr>"

definition check_key ::
  "dns_lib \<Rightarrow> rrset \<Rightarrow> name \<Rightarrow> rat \<Rightarrow> rrsig \<Rightarrow> signature_check \<Rightarrow> dnskey \<Rightarrow> (int, signature_check) eff" where
  "check_key L records zone now sig c key =
     (let sig_id = fingerprint L (Rrsig sig);
          key_id = fingerprint L (Dnskey key);
          c1 = (if zone_key key then c else add_failure Dnskey_flags sig_id (Some key_id) c);
          c2 = (if k_protocol key = 3 then c1 else add_failure Dnskey_protocol sig_id (Some key_id) c1)
      in bindM (consume_budget 1) (\<lambda>_.
           ret (case if eligible key then validate_rrsig L records sig zone key (crypto_time sig now)
                     else verify_ineligible_signature L records sig key of
                  Unsupported \<Rightarrow> c2\<lparr>sc_limitations := sc_limitations c2 @ [sig_id]\<rparr>
                | Rejected \<Rightarrow> add_failure Signature_invalid sig_id (Some key_id) c2
                | Accepted \<Rightarrow>
                    if eligible key \<and> sig_in_force sig now
                    then c2\<lparr>sc_verified := sc_verified c2 @
                             [\<lparr>vs_signature = sig, vs_key = key, vs_wildcard = expanded (rr_name records) sig\<rparr>]\<rparr>
                    else c2)))"

definition key_candidates :: "dns_lib \<Rightarrow> rrset \<Rightarrow> nat \<Rightarrow> nat \<Rightarrow> dnskey list" where
  "key_candidates L keys algorithm tag =
     [k. Dnskey k \<leftarrow> rr_items keys, k_algorithm k = algorithm \<and> key_id L k = tag]"

definition check_signature ::
  "dns_lib \<Rightarrow> rrset \<Rightarrow> rrset \<Rightarrow> rat \<Rightarrow> signature_check \<Rightarrow> rrsig \<Rightarrow> (int, signature_check) eff" where
  "check_signature L records keys now c sig =
     (let sig_id = fingerprint L (Rrsig sig) in
      if rs_signer sig \<noteq> rr_name keys \<or> int (rs_labels sig) > int (length (rr_name records)) - 1
      then ret (add_failure Signer_scope sig_id None c)
      else if \<not> algorithm_supported L (rs_algorithm sig)
      then ret (c\<lparr>sc_unsupported := sc_unsupported c @ [sig_id]\<rparr>)
      else if rs_expiration sig < rs_inception sig \<or> rs_expiration sig - rs_inception sig \<ge> 2 ^ 31
      then ret (c\<lparr>sc_limitations := sc_limitations c @ [sig_id]\<rparr>)
      else
        let c1 = (if of_nat (rs_expiration sig) < now then add_failure Signature_expired sig_id None c else c);
            c2 = (if of_nat (rs_inception sig) > now then add_failure Signature_not_yet_valid sig_id None c1 else c1)
        in (case key_candidates L keys (rs_algorithm sig) (rs_tag sig) of
              [] \<Rightarrow> ret (add_failure Dnskey_missing sig_id None c2)
            | candidates \<Rightarrow> foldM (check_key L records (rr_name keys) now sig) c2 candidates))"

definition is_dnskey :: "rdata \<Rightarrow> bool" where
  "is_dnskey r = (case r of Dnskey _ \<Rightarrow> True | _ \<Rightarrow> False)"

definition is_rrsig :: "rdata \<Rightarrow> bool" where
  "is_rrsig r = (case r of Rrsig _ \<Rightarrow> True | _ \<Rightarrow> False)"

definition is_ds :: "rdata \<Rightarrow> bool" where
  "is_ds r = (case r of Ds _ \<Rightarrow> True | _ \<Rightarrow> False)"

definition rrsigs :: "rrset \<Rightarrow> rrsig list" where
  "rrsigs s = [r. Rrsig r \<leftarrow> rr_items s]"

definition empty_check :: signature_check where
  "empty_check = \<lparr>sc_verified = [], sc_failures = [], sc_unsupported = [], sc_limitations = []\<rparr>"

definition missing_check :: signature_check where
  "missing_check = empty_check\<lparr>sc_failures := [\<lparr>f_defect = Signature_missing, f_record = None, f_key = None\<rparr>]\<rparr>"

definition check_signatures ::
  "dns_lib \<Rightarrow> rrset \<Rightarrow> rrset option \<Rightarrow> rrset \<Rightarrow> rat \<Rightarrow> (int, signature_check) eff" where
  "check_signatures L records signatures keys now =
     bindM (lift (bounded L 128 records)) (\<lambda>_.
     bindM (lift (bounded L 64 keys)) (\<lambda>_.
     if \<not> (0 \<le> now \<and> now < 2 ^ 32) \<or> rr_items records = [] \<or> rr_type keys \<noteq> DNSKEY_type
        \<or> \<not> below L (rr_name records) (rr_name keys) \<or> \<not> list_all is_dnskey (rr_items keys)
     then throw (RequestDenied ''dnssec_verification_inputs'')
     else case signatures of
       None \<Rightarrow> ret missing_check
     | Some sigs \<Rightarrow>
         if rr_items sigs = [] then ret missing_check
         else bindM (lift (bounded L 64 sigs)) (\<lambda>_.
           if rr_name sigs \<noteq> rr_name records \<or> rr_type sigs \<noteq> RRSIG_type
              \<or> rr_covers sigs \<noteq> rr_type records \<or> \<not> list_all is_rrsig (rr_items sigs)
           then throw (RequestDenied ''dnssec_signature_scope'')
           else foldM (check_signature L records keys now) empty_check (rrsigs sigs))))"

section \<open>Delegations\<close>

definition add_ds_failure :: "defect \<Rightarrow> string \<Rightarrow> string option \<Rightarrow> ds_check \<Rightarrow> ds_check" where
  "add_ds_failure d record key c = c\<lparr>dc_failures := dc_failures c @ [\<lparr>f_defect = d, f_record = Some record, f_key = key\<rparr>]\<rparr>"

definition check_ds_key :: "dns_lib \<Rightarrow> name \<Rightarrow> ds_record \<Rightarrow> ds_check \<Rightarrow> dnskey \<Rightarrow> (int, ds_check) eff" where
  "check_ds_key L zone d c key =
     bindM (consume_budget 1) (\<lambda>_.
       let ds_id = fingerprint L (Ds d);
           key_id = fingerprint L (Dnskey key);
           c1 = (if zone_key key then c else add_ds_failure Dnskey_flags ds_id (Some key_id) c);
           c2 = (if k_protocol key = 3 then c1 else add_ds_failure Dnskey_protocol ds_id (Some key_id) c1)
       in ret (if make_ds L zone key (ds_digest_type d) \<noteq> d
               then add_ds_failure Ds_mismatch ds_id (Some key_id) c2
               else if key \<notin> set (dc_matched c2) then c2\<lparr>dc_matched := dc_matched c2 @ [key]\<rparr>
               else c2))"

definition check_ds_record :: "dns_lib \<Rightarrow> rrset \<Rightarrow> ds_check \<Rightarrow> ds_record \<Rightarrow> (int, ds_check) eff" where
  "check_ds_record L keys c d =
     (let ds_id = fingerprint L (Ds d) in
      if \<not> algorithm_supported L (ds_algorithm d) \<or> ds_digest_type d \<notin> {1, 2, 4}
         \<or> \<not> ok_to_validate_ds L (ds_digest_type d)
      then ret (c\<lparr>dc_unsupported := dc_unsupported c @ [ds_id]\<rparr>)
      else
        let candidates = key_candidates L keys (ds_algorithm d) (ds_tag d);
            c1 = c\<lparr>dc_supported := dc_supported c + 1\<rparr>;
            c2 = (if candidates = [] then add_ds_failure Dnskey_missing ds_id None c1 else c1)
        in foldM (check_ds_key L (rr_name keys) d) c2 candidates)"

definition check_ds :: "dns_lib \<Rightarrow> rrset \<Rightarrow> rrset \<Rightarrow> (int, ds_check) eff" where
  "check_ds L delegation keys =
     bindM (lift (bounded L 64 delegation)) (\<lambda>_.
     bindM (lift (bounded L 64 keys)) (\<lambda>_.
     if rr_items delegation = [] \<or> rr_type delegation \<noteq> DS_type \<or> rr_type keys \<noteq> DNSKEY_type
        \<or> rr_name delegation \<noteq> rr_name keys \<or> \<not> list_all is_ds (rr_items delegation)
        \<or> \<not> list_all is_dnskey (rr_items keys)
     then throw (RequestDenied ''dnssec_delegation_inputs'')
     else foldM (check_ds_record L keys) \<lparr>dc_matched = [], dc_failures = [], dc_unsupported = [], dc_supported = 0\<rparr>
            [d. Ds d \<leftarrow> rr_items delegation]))"

section \<open>What a verified path is\<close>

text \<open>The keys a signature is tried under: none when it is out of scope, of an algorithm that is not
  supported, or has an interval that the verifier cannot represent.\<close>

definition tried_keys :: "dns_lib \<Rightarrow> rrset \<Rightarrow> rrset \<Rightarrow> rrsig \<Rightarrow> dnskey list" where
  "tried_keys L records keys sig =
     (if rs_signer sig = rr_name keys \<and> int (rs_labels sig) \<le> int (length (rr_name records)) - 1
         \<and> algorithm_supported L (rs_algorithm sig) \<and> rs_inception sig \<le> rs_expiration sig
         \<and> rs_expiration sig - rs_inception sig < 2 ^ 31
      then key_candidates L keys (rs_algorithm sig) (rs_tag sig) else [])"

definition accepted :: "dns_lib \<Rightarrow> rrset \<Rightarrow> name \<Rightarrow> rat \<Rightarrow> rrsig \<Rightarrow> dnskey \<Rightarrow> bool" where
  "accepted L records zone now sig key \<longleftrightarrow>
     eligible key \<and> sig_in_force sig now \<and> validate_rrsig L records sig zone key now = Accepted"

definition path_of :: "rrset \<Rightarrow> rrsig \<Rightarrow> dnskey \<Rightarrow> verified_signature" where
  "path_of records sig key =
     \<lparr>vs_signature = sig, vs_key = key, vs_wildcard = expanded (rr_name records) sig\<rparr>"

lemma crypto_time_in_force: "sig_in_force sig now \<Longrightarrow> crypto_time sig now = now"
  by (auto simp: sig_in_force_def crypto_time_def)

lemma add_failure_verified [simp]: "sc_verified (add_failure d r k c) = sc_verified c"
  by (simp add: add_failure_def)

lemma consume_budget_result:
  "consume_budget n b = (Inr u, b') \<longleftrightarrow> 1 \<le> n \<and> n \<le> b \<and> b' = b - n"
  by (auto simp: consume_budget_def)

lemma bindM_result:
  "bindM m f b = (Inr y, b') \<longleftrightarrow> (\<exists>x b1. m b = (Inr x, b1) \<and> f x b1 = (Inr y, b'))"
  by (auto simp: bindM_def split: prod.splits sum.splits)

lemma lift_result: "lift r b = (Inr y, b') \<longleftrightarrow> r = Inr y \<and> b' = b"
  by (auto simp: lift_def)

lemma ret_result: "ret x b = (Inr y, b') \<longleftrightarrow> y = x \<and> b' = b"
  by (auto simp: ret_def)

lemmas run_results = bindM_result lift_result ret_result consume_budget_result

text \<open>A loop whose body appends to a list and charges the budget, as one run.\<close>

lemma foldM_collects:
  assumes "foldM f s xs b = (Inr s', b')"
    and step: "\<And>s x b s' b'. x \<in> set xs \<Longrightarrow> f s x b = (Inr s', b') \<Longrightarrow>
      out s' = out s @ g x \<and> b' = b - int (cost x) \<and> (0 \<le> b \<longrightarrow> 0 \<le> b')"
  shows "out s' = out s @ concat (map g xs) \<and> b' = b - int (sum_list (map cost xs))
    \<and> (0 \<le> b \<longrightarrow> 0 \<le> b')"
  using assms
proof (induction xs arbitrary: s b)
  case Nil
  then show ?case by (simp add: ret_result)
next
  case (Cons x xs)
  then obtain s1 b1 where 1: "f s x b = (Inr s1, b1)" and 2: "foldM f s1 xs b1 = (Inr s', b')"
    by (auto simp: bindM_result)
  have "out s1 = out s @ g x \<and> b1 = b - int (cost x) \<and> (0 \<le> b \<longrightarrow> 0 \<le> b1)"
    using 1 by (rule Cons.prems(2) [rotated]) simp
  moreover have "out s' = out s1 @ concat (map g xs) \<and> b' = b1 - int (sum_list (map cost xs))
      \<and> (0 \<le> b1 \<longrightarrow> 0 \<le> b')"
    using 2 by (rule Cons.IH) (rule Cons.prems(2), auto)
  ultimately show ?case by auto
qed

lemma check_key_result:
  assumes "check_key L records zone now sig c key b = (Inr c', b')"
  shows "sc_verified c' = sc_verified c @ (if accepted L records zone now sig key then [path_of records sig key] else [])
    \<and> b' = b - 1 \<and> 0 \<le> b'"
  using assms
  by (auto simp: check_key_def Let_def run_results accepted_def path_of_def crypto_time_in_force
      split: verify_result.splits if_splits)

lemma check_signature_result:
  assumes "check_signature L records keys now c sig b = (Inr c', b')"
  shows "sc_verified c' = sc_verified c @
      map (path_of records sig) (filter (accepted L records (rr_name keys) now sig) (tried_keys L records keys sig))
    \<and> b' = b - int (length (tried_keys L records keys sig)) \<and> (0 \<le> b \<longrightarrow> 0 \<le> b')"
proof -
  let ?g = "\<lambda>k. if accepted L records (rr_name keys) now sig k then [path_of records sig k] else []"
  have collect: "concat (map ?g ks) = map (path_of records sig) (filter (accepted L records (rr_name keys) now sig) ks)"
    "sum_list (map (\<lambda>_. 1) ks) = length ks" for ks
    by (induction ks) auto
  have loop: "sc_verified c' = sc_verified s @ concat (map ?g ks) \<and> b' = b - int (sum_list (map (\<lambda>_. 1) ks))
      \<and> (0 \<le> b \<longrightarrow> 0 \<le> b')"
    if "foldM (check_key L records (rr_name keys) now sig) s ks b = (Inr c', b')" for s ks
    by (rule foldM_collects [OF that, where out = sc_verified]) (drule check_key_result, simp)
  show ?thesis
  proof (cases "rs_signer sig = rr_name keys \<and> int (rs_labels sig) \<le> int (length (rr_name records)) - 1
         \<and> algorithm_supported L (rs_algorithm sig) \<and> rs_inception sig \<le> rs_expiration sig
         \<and> rs_expiration sig - rs_inception sig < 2 ^ 31")
    case True
    then have tried: "tried_keys L records keys sig = key_candidates L keys (rs_algorithm sig) (rs_tag sig)"
      by (simp add: tried_keys_def)
    show ?thesis
    proof (cases "key_candidates L keys (rs_algorithm sig) (rs_tag sig)")
      case Nil
      with assms True tried show ?thesis
        by (auto simp: check_signature_def Let_def ret_result split: if_splits)
    next
      case (Cons k ks)
      with assms True obtain s where "foldM (check_key L records (rr_name keys) now sig) s (k # ks) b = (Inr c', b')"
        and "sc_verified s = sc_verified c"
        by (auto simp: check_signature_def Let_def simp del: foldM.simps split: if_splits)
      with loop [of s "k # ks"] show ?thesis unfolding tried Cons collect by auto
    qed
  next
    case False
    with assms show ?thesis
      by (auto simp: check_signature_def tried_keys_def Let_def ret_result split: if_splits)
  qed
qed

text \<open>A finished check has found exactly the paths that the verifier accepts, of signatures in scope under
  eligible keys in their interval, whatever else was supplied, and was charged one unit for each key tried.\<close>

lemma check_signatures_run:
  assumes "check_signatures L records signatures keys now b = (Inr c, b')"
  shows "sc_verified c = (case signatures of None \<Rightarrow> [] | Some sigs \<Rightarrow>
      concat (map (\<lambda>sig. map (path_of records sig)
        (filter (accepted L records (rr_name keys) now sig) (tried_keys L records keys sig))) (rrsigs sigs)))"
    and "b' = b - int (case signatures of None \<Rightarrow> 0 | Some sigs \<Rightarrow>
      sum_list (map (\<lambda>sig. length (tried_keys L records keys sig)) (rrsigs sigs)))"
    and "0 \<le> b \<Longrightarrow> 0 \<le> b'"
proof -
  have missing: "sc_verified missing_check = []" "sc_verified empty_check = []"
    by (simp_all add: missing_check_def empty_check_def)
  have loop: "sc_verified c = sc_verified s @ concat (map (\<lambda>sig. map (path_of records sig)
        (filter (accepted L records (rr_name keys) now sig) (tried_keys L records keys sig))) sigs)
      \<and> b' = b - int (sum_list (map (\<lambda>sig. length (tried_keys L records keys sig)) sigs))
      \<and> (0 \<le> b \<longrightarrow> 0 \<le> b')"
    if "foldM (check_signature L records keys now) s sigs b = (Inr c, b')" for s sigs
    by (rule foldM_collects [OF that, where out = sc_verified]) (rule check_signature_result)
  have "sc_verified c = (case signatures of None \<Rightarrow> [] | Some sigs \<Rightarrow>
      concat (map (\<lambda>sig. map (path_of records sig)
        (filter (accepted L records (rr_name keys) now sig) (tried_keys L records keys sig))) (rrsigs sigs)))
    \<and> b' = b - int (case signatures of None \<Rightarrow> 0 | Some sigs \<Rightarrow>
      sum_list (map (\<lambda>sig. length (tried_keys L records keys sig)) (rrsigs sigs))) \<and> (0 \<le> b \<longrightarrow> 0 \<le> b')"
  proof (cases "signatures = None \<or> rr_items (the signatures) = []")
    case True
    with assms show ?thesis
      by (auto simp: check_signatures_def run_results missing rrsigs_def split: if_splits option.splits)
  next
    case False
    with assms obtain sigs where "signatures = Some sigs"
      "foldM (check_signature L records keys now) empty_check (rrsigs sigs) b = (Inr c, b')"
      by (auto simp: check_signatures_def run_results split: if_splits)
    with loop [of empty_check "rrsigs sigs"] missing show ?thesis by auto
  qed
  then show "sc_verified c = (case signatures of None \<Rightarrow> [] | Some sigs \<Rightarrow>
      concat (map (\<lambda>sig. map (path_of records sig)
        (filter (accepted L records (rr_name keys) now sig) (tried_keys L records keys sig))) (rrsigs sigs)))"
    and "b' = b - int (case signatures of None \<Rightarrow> 0 | Some sigs \<Rightarrow>
      sum_list (map (\<lambda>sig. length (tried_keys L records keys sig)) (rrsigs sigs)))"
    and "0 \<le> b \<Longrightarrow> 0 \<le> b'" by auto
qed

definition authentic :: "dns_lib \<Rightarrow> rrset \<Rightarrow> rrset \<Rightarrow> rrset \<Rightarrow> rat \<Rightarrow> verified_signature \<Rightarrow> bool" where
  "authentic L records sigs keys now p \<longleftrightarrow>
     vs_signature p \<in> set (rrsigs sigs) \<and> vs_key p \<in> set (tried_keys L records keys (vs_signature p))
     \<and> accepted L records (rr_name keys) now (vs_signature p) (vs_key p)
     \<and> vs_wildcard p = expanded (rr_name records) (vs_signature p)"

lemma verified_iff:
  assumes "check_signatures L records signatures keys now b = (Inr c, b')"
  shows "p \<in> set (sc_verified c) \<longleftrightarrow> (\<exists>sigs. signatures = Some sigs \<and> authentic L records sigs keys now p)"
  unfolding check_signatures_run(1) [OF assms]
  by (cases p) (auto simp: authentic_def path_of_def split: option.splits)

lemma check_signatures_scope:
  assumes "check_signatures L records signatures keys now b = (Inr c, b')"
  shows "rr_items records \<noteq> []" "rr_type keys = DNSKEY_type" "below L (rr_name records) (rr_name keys)"
    and "list_all is_dnskey (rr_items keys)"
  using assms by (auto simp: check_signatures_def run_results split: if_splits)

text \<open>A digest that matches, of a key of the zone with the algorithm and the tag of the record.\<close>

definition ds_matches :: "dns_lib \<Rightarrow> rrset \<Rightarrow> rrset \<Rightarrow> dnskey \<Rightarrow> bool" where
  "ds_matches L delegation keys key \<longleftrightarrow>
     (\<exists>d. Ds d \<in> set (rr_items delegation) \<and> algorithm_supported L (ds_algorithm d)
        \<and> ds_digest_type d \<in> {1, 2, 4} \<and> ok_to_validate_ds L (ds_digest_type d)
        \<and> key \<in> set (key_candidates L keys (ds_algorithm d) (ds_tag d))
        \<and> make_ds L (rr_name keys) key (ds_digest_type d) = d)"

lemma add_ds_failure_matched [simp]:
  "dc_matched (add_ds_failure d r k c) = dc_matched c" "dc_supported (add_ds_failure d r k c) = dc_supported c"
  by (simp_all add: add_ds_failure_def)

lemma check_ds_keys_result:
  "foldM (check_ds_key L zone d) c ks b = (Inr c', b') \<Longrightarrow>
     set (dc_matched c') = set (dc_matched c) \<union> {k \<in> set ks. make_ds L zone k (ds_digest_type d) = d}
     \<and> dc_supported c' = dc_supported c \<and> b' = b - int (length ks) \<and> (0 \<le> b \<longrightarrow> 0 \<le> b')"
proof (induction ks arbitrary: c b)
  case Nil
  then show ?case by (simp add: ret_result)
next
  case (Cons k ks)
  then obtain c1 b1 where 1: "check_ds_key L zone d c k b = (Inr c1, b1)"
    and 2: "foldM (check_ds_key L zone d) c1 ks b1 = (Inr c', b')"
    by (auto simp: bindM_result)
  from 1 have "set (dc_matched c1) = set (dc_matched c) \<union> {k' \<in> {k}. make_ds L zone k' (ds_digest_type d) = d}
      \<and> dc_supported c1 = dc_supported c \<and> b1 = b - 1 \<and> 0 \<le> b1"
    by (auto simp: check_ds_key_def run_results Let_def split: if_splits)
  with Cons.IH [OF 2] show ?case by auto
qed

end
