(* ===== verification/Dns_Denial.thy ===== *)
theory Dns_Denial
  imports Dns_Evidence
begin

text \<open>
  Authenticated denial of existence, \<open>ads_sandbox_egress/dnssec_denial.py\<close>: which verified NSEC and
  NSEC3 records prove that a name or a type does not exist.
\<close>

section \<open>Type bitmaps\<close>

record denial_proof =
  dp_valid :: bool
  dp_opt_out :: bool
  dp_checks :: "signature_check list"
  dp_closest :: "name option"
  dp_limitation :: "string option"

datatype kind = Nodata | Nxdomain | Wildcard | Wildcard_nodata | Unsigned_delegation

type_synonym windows = "(nat \<times> bytes) list"

definition has_type :: "windows \<Rightarrow> rdtype \<Rightarrow> bool" where
  "has_type ws kind \<longleftrightarrow>
     list_ex (\<lambda>(number, bitmap).
       number = kind div 256 \<and> length bitmap > kind mod 256 div 8
       \<and> odd (code (bitmap ! (kind mod 256 div 8)) div 2 ^ (7 - kind mod 8))) ws"

definition authoritative :: "windows \<Rightarrow> bool" where
  "authoritative ws \<longleftrightarrow> \<not> has_type ws DNAME_type \<and> \<not> (has_type ws NS_type \<and> \<not> has_type ws SOA_type)"

definition denies_type :: "windows \<Rightarrow> rdtype \<Rightarrow> bool" where
  "denies_type ws kind \<longleftrightarrow>
     (if kind = ANY_type then ws = []
      else \<not> has_type ws kind \<and> \<not> has_type ws CNAME_type
        \<and> (kind = DS_type \<or> \<not> (has_type ws NS_type \<and> \<not> has_type ws SOA_type))
        \<and> \<not> (kind = DS_type \<and> has_type ws SOA_type))"

definition is_delegation :: "windows \<Rightarrow> bool" where
  "is_delegation ws \<longleftrightarrow>
     has_type ws NS_type \<and> \<not> has_type ws DS_type \<and> \<not> has_type ws SOA_type
     \<and> \<not> has_type ws CNAME_type \<and> \<not> has_type ws DNAME_type"

section \<open>Base 32 with the extended hex alphabet\<close>

definition b32_digit :: "char \<Rightarrow> nat option" where
  "b32_digit c =
     (if is_digit c then Some (code c - 48)
      else if 65 \<le> code c \<and> code c \<le> 86 then Some (code c - 55) else None)"

fun b32_value :: "nat \<Rightarrow> bytes \<Rightarrow> nat option" where
  "b32_value acc [] = Some acc"
| "b32_value acc (c # cs) = (case b32_digit c of None \<Rightarrow> None | Some d \<Rightarrow> b32_value (acc * 32 + d) cs)"

text \<open>\<open>base64.b32hexdecode\<close>: quanta of eight digits, five octets each; the last one may be padded.\<close>

fun b32_quanta :: "bytes \<Rightarrow> bytes option" where
  "b32_quanta (a # b # c # d # e # f # g # h # rest) =
     (case b32_value 0 [a, b, c, d, e, f, g, h] of
        None \<Rightarrow> None
      | Some v \<Rightarrow> (case b32_quanta rest of None \<Rightarrow> None | Some t \<Rightarrow> Some (pack 5 v @ t)))"
| "b32_quanta [] = Some []"
| "b32_quanta (x # xs) =
     (case b32_value 0 (x # xs) of
        None \<Rightarrow> None
      | Some v \<Rightarrow>
          let pad = 8 - length (x # xs) in
          if pad \<in> {1, 3, 4, 6} then Some (take ((43 - 5 * pad) div 8) (pack 5 (v * 32 ^ pad))) else None)"

definition b32hexdecode :: "bytes \<Rightarrow> error + bytes" where
  "b32hexdecode s =
     (let digits = rstrip (\<lambda>c. c = CHR ''='') s in
      if length s mod 8 \<noteq> 0 \<or> length s - length digits \<notin> {0, 1, 3, 4, 6}
      then Inl (ValueError ''Incorrect padding'')
      else (case b32_quanta digits of
              None \<Rightarrow> Inl (ValueError ''Non-base32 digit found'')
            | Some octets \<Rightarrow> Inr octets))"

section \<open>The verified records\<close>

record denial_evidence =
  de_checks :: "signature_check list"
  de_nsec :: "(name \<times> nsec) list"
  de_nsec3 :: "(bytes \<times> nsec3) list"
  de_parameters :: "(nat \<times> bytes) option"
  de_malformed :: bool

definition upper_bytes :: "bytes \<Rightarrow> bytes" where
  "upper_bytes = map (\<lambda>c. if is_lower_alpha c then char_of (code c - 32) else c)"

definition add_nsec :: "dns_lib \<Rightarrow> name \<Rightarrow> name \<Rightarrow> nsec \<Rightarrow> denial_evidence \<Rightarrow> denial_evidence" where
  "add_nsec L zone owner item ev =
     (if \<not> below L (n_next item) zone \<or> owner \<in> fst ` set (de_nsec ev)
      then ev\<lparr>de_malformed := True\<rparr> else ev\<lparr>de_nsec := de_nsec ev @ [(owner, item)]\<rparr>)"

definition nsec3_owner :: "dns_lib \<Rightarrow> name \<Rightarrow> name \<Rightarrow> nsec3 \<Rightarrow> error + bytes" where
  "nsec3_owner L zone owner item =
     (let label = upper_bytes (hd owner) in
      if length label \<noteq> 32 \<or> parent L owner \<noteq> zone \<or> length (n3_next item) \<noteq> 20
      then Inl (ValueError []) else b32hexdecode label)"

definition add_nsec3 :: "dns_lib \<Rightarrow> name \<Rightarrow> name \<Rightarrow> nsec3 \<Rightarrow> denial_evidence \<Rightarrow> denial_evidence" where
  "add_nsec3 L zone owner item ev =
     (if n3_algorithm item \<noteq> 1 \<or> n3_flags item \<notin> {0, 1} then ev
      else (case nsec3_owner L zone owner item of
              Inl _ \<Rightarrow> ev\<lparr>de_malformed := True\<rparr>
            | Inr hash \<Rightarrow>
                let config = (n3_iterations item, n3_salt item) in
                if (de_parameters ev \<noteq> None \<and> de_parameters ev \<noteq> Some config)
                   \<or> hash \<in> fst ` set (de_nsec3 ev)
                then ev\<lparr>de_malformed := True\<rparr>
                else ev\<lparr>de_parameters := Some config, de_nsec3 := de_nsec3 ev @ [(hash, item)]\<rparr>))"

definition has_direct_path :: "signature_check \<Rightarrow> bool" where
  "has_direct_path c \<longleftrightarrow> list_ex (\<lambda>p. \<not> vs_wildcard p) (sc_verified c)"

definition add_evidence ::
  "dns_lib \<Rightarrow> rrset \<Rightarrow> rat \<Rightarrow> denial_evidence \<Rightarrow> rrset \<times> rrset option \<Rightarrow> (int, denial_evidence) eff" where
  "add_evidence L keys now ev item =
     (case item of (records, signatures) \<Rightarrow>
        if rr_type records \<noteq> NSEC_type \<and> rr_type records \<noteq> NSEC3_type
        then throw (RequestDenied ''dnssec_denial_record_type'')
        else bindM (check_signatures L records signatures keys now) (\<lambda>checked.
          let ev1 = ev\<lparr>de_checks := de_checks ev @ [checked]\<rparr> in
          ret (if \<not> has_direct_path checked then ev1
               else (case rr_items records of
                       [Nsec r] \<Rightarrow> add_nsec L (rr_name keys) (rr_name records) r ev1
                     | [Nsec3 r] \<Rightarrow> add_nsec3 L (rr_name keys) (rr_name records) r ev1
                     | [_] \<Rightarrow> ev1
                     | _ \<Rightarrow> ev1\<lparr>de_malformed := True\<rparr>))))"

definition no_evidence :: denial_evidence where
  "no_evidence = \<lparr>de_checks = [], de_nsec = [], de_nsec3 = [], de_parameters = None, de_malformed = False\<rparr>"

section \<open>Matching and covering records\<close>

text \<open>While a proof is searched, the state is the budget and the hashes computed so far.\<close>

record proof_state =
  ps_remaining :: int
  ps_hashes :: "(name \<times> bytes) list"

definition charge :: "int \<Rightarrow> (proof_state, unit) eff" where
  "charge n s = (case consume_budget n (ps_remaining s) of (r, b) \<Rightarrow> (r, s\<lparr>ps_remaining := b\<rparr>))"

definition hashed :: "dns_lib \<Rightarrow> denial_evidence \<Rightarrow> name \<Rightarrow> (proof_state, bytes) eff" where
  "hashed L ev n s =
     (case map_of (ps_hashes s) n of
        Some h \<Rightarrow> ret h s
      | None \<Rightarrow>
          (case de_parameters ev of
             None \<Rightarrow> throw (OtherError ''AssertionError'') s
           | Some (iterations, salt) \<Rightarrow>
               bindM (charge (int iterations + 1)) (\<lambda>_.
               bindM (lift (b32hexdecode (nsec3_hash L n salt iterations))) (\<lambda>h s'.
                 (Inr h, s'\<lparr>ps_hashes := ps_hashes s' @ [(n, h)]\<rparr>))) s))"

datatype denial_record = By_nsec nsec | By_nsec3 nsec3

definition windows_of :: "denial_record \<Rightarrow> windows" where
  "windows_of r = (case r of By_nsec x \<Rightarrow> n_windows x | By_nsec3 x \<Rightarrow> n3_windows x)"

definition exact_record :: "dns_lib \<Rightarrow> denial_evidence \<Rightarrow> name \<Rightarrow> (proof_state, denial_record option) eff" where
  "exact_record L ev n =
     (if de_nsec ev \<noteq> [] then ret (map_option By_nsec (map_of (de_nsec ev) n))
      else bindM (hashed L ev n) (\<lambda>h. ret (map_option By_nsec3 (map_of (de_nsec3 ev) h))))"

definition nsec_covers :: "dns_lib \<Rightarrow> name \<Rightarrow> name \<Rightarrow> name \<times> nsec \<Rightarrow> bool" where
  "nsec_covers L zone n entry =
     (case entry of (owner, item) \<Rightarrow>
        \<not> (n = owner \<or> n = n_next item)
        \<and> \<not> (below L n owner \<and> n \<noteq> owner \<and> \<not> authoritative (n_windows item))
        \<and> ((before L owner n \<and> before L n (n_next item))
           \<or> (before L (n_next item) owner \<and> (before L owner n \<or> before L n (n_next item)))
           \<or> (owner = n_next item \<and> n_next item = zone)))"

definition nsec3_covers :: "bytes \<Rightarrow> bytes \<times> nsec3 \<Rightarrow> bool" where
  "nsec3_covers target entry =
     (case entry of (owner, item) \<Rightarrow>
        \<not> (target = owner \<or> target = n3_next item)
        \<and> ((owner < target \<and> target < n3_next item)
           \<or> (owner > n3_next item \<and> (target > owner \<or> target < n3_next item))
           \<or> owner = n3_next item))"

definition covering_record ::
  "dns_lib \<Rightarrow> name \<Rightarrow> denial_evidence \<Rightarrow> name \<Rightarrow> (proof_state, denial_record option) eff" where
  "covering_record L zone ev n =
     (if de_nsec ev \<noteq> [] then ret (map_option (By_nsec \<circ> snd) (find (nsec_covers L zone n) (de_nsec ev)))
      else bindM (hashed L ev n) (\<lambda>h.
             ret (map_option (By_nsec3 \<circ> snd) (find (nsec3_covers h) (de_nsec3 ev)))))"

text \<open>The loop of \<open>_ancestors\<close>; a name has at most as many ancestors as labels.\<close>

fun ancestors_upto :: "nat \<Rightarrow> dns_lib \<Rightarrow> name \<Rightarrow> name \<Rightarrow> name list" where
  "ancestors_upto 0 L n zone = []"
| "ancestors_upto (Suc k) L n zone =
     (if below L n zone
      then n # (if n = zone then [] else ancestors_upto k L (parent L n) zone) else [])"

definition ancestors :: "dns_lib \<Rightarrow> name \<Rightarrow> name \<Rightarrow> name list" where
  "ancestors L n zone = ancestors_upto (length n) L n zone"

fun first_exact :: "dns_lib \<Rightarrow> denial_evidence \<Rightarrow> name list \<Rightarrow> (proof_state, name option) eff" where
  "first_exact L ev [] = ret None"
| "first_exact L ev (n # ns) =
     bindM (exact_record L ev n) (\<lambda>r. if r \<noteq> None then ret (Some n) else first_exact L ev ns)"

section \<open>The proof\<close>

definition conclude ::
  "denial_evidence \<Rightarrow> bool \<Rightarrow> bool \<Rightarrow> name option \<Rightarrow> string option \<Rightarrow> (proof_state, denial_proof) eff" where
  "conclude ev valid opt_out closest limitation =
     ret \<lparr>dp_valid = valid, dp_opt_out = opt_out, dp_checks = de_checks ev, dp_closest = closest,
          dp_limitation = limitation\<rparr>"

definition opts_out :: "denial_record \<Rightarrow> bool" where
  "opts_out r = (case r of By_nsec _ \<Rightarrow> False | By_nsec3 x \<Rightarrow> odd (n3_flags x))"

text \<open>The part after the closest encloser is known.\<close>

definition prove_below ::
  "dns_lib \<Rightarrow> name \<Rightarrow> name \<Rightarrow> rdtype \<Rightarrow> kind \<Rightarrow> denial_evidence \<Rightarrow> name option \<Rightarrow> (proof_state, denial_proof) eff" where
  "prove_below L zone qname qtype kind ev found =
     (case found of
        None \<Rightarrow> conclude ev False False None (Some ''closest_encloser_missing'')
      | Some closest \<Rightarrow>
          if closest = qname then conclude ev False False None (Some ''closest_encloser_missing'')
          else
            bindM (exact_record L ev closest) (\<lambda>closest_record.
            if (case closest_record of None \<Rightarrow> False | Some r \<Rightarrow> \<not> authoritative (windows_of r))
            then conclude ev False False None None
            else
              bindM (covering_record L zone ev (last_labels (length closest + 1) qname)) (\<lambda>covering.
              case covering of
                None \<Rightarrow> conclude ev False False None (Some ''next_closer_proof_missing'')
              | Some c \<Rightarrow>
                  let opt_out = opts_out c; wild = star # closest in
                  if kind = Wildcard then conclude ev True opt_out (Some closest) None
                  else if kind = Unsigned_delegation \<or> kind = Nodata \<and> qtype = DS_type
                  then conclude ev (de_nsec3 ev \<noteq> [] \<and> opt_out) opt_out (Some closest) None
                  else if kind = Nxdomain
                  then bindM (covering_record L zone ev wild) (\<lambda>w.
                         conclude ev (w \<noteq> None) opt_out (Some closest) None)
                  else if kind = Wildcard_nodata
                  then bindM (exact_record L ev wild) (\<lambda>w.
                         conclude ev (case w of None \<Rightarrow> False | Some r \<Rightarrow> denies_type (windows_of r) qtype)
                           opt_out (Some closest) None)
                  else conclude ev False False None None)))"

definition prove_absence ::
  "dns_lib \<Rightarrow> name \<Rightarrow> name \<Rightarrow> rdtype \<Rightarrow> kind \<Rightarrow> name option \<Rightarrow> denial_evidence \<Rightarrow> (proof_state, denial_proof) eff" where
  "prove_absence L zone qname qtype kind wildcard ev =
     bindM (exact_record L ev qname) (\<lambda>matching.
     case matching of
       Some r \<Rightarrow>
         if kind = Nodata then conclude ev (denies_type (windows_of r) qtype) False None None
         else if kind = Unsigned_delegation then conclude ev (is_delegation (windows_of r)) False None None
         else conclude ev False False None None
     | None \<Rightarrow>
         if kind = Wildcard
         then (case wildcard of
                 None \<Rightarrow> conclude ev False False None (Some ''verified_wildcard_scope_required'')
               | Some w \<Rightarrow>
                   if hd w \<noteq> star \<or> \<not> below L w zone \<or> qname = w \<or> \<not> below L qname (parent L w)
                   then conclude ev False False None (Some ''verified_wildcard_scope_required'')
                   else prove_below L zone qname qtype kind ev (Some (parent L w)))
         else if de_nsec ev \<noteq> []
         then
           let existing = map fst (de_nsec ev) @ map (n_next \<circ> snd) (de_nsec ev);
               closest = find (\<lambda>n. list_ex (\<lambda>e. below L e n) existing) (ancestors L qname zone)
           in if closest = Some qname
              then if kind = Nodata
                   then bindM (covering_record L zone ev qname) (\<lambda>c.
                          conclude ev (c \<noteq> None) False closest None)
                   else conclude ev False False closest None
              else prove_below L zone qname qtype kind ev closest
         else bindM (first_exact L ev (ancestors L qname zone)) (prove_below L zone qname qtype kind ev))"

definition validate_denial ::
  "dns_lib \<Rightarrow> name \<Rightarrow> rdtype \<Rightarrow> kind \<Rightarrow> (rrset \<times> rrset option) list \<Rightarrow> rrset \<Rightarrow> rat \<Rightarrow> name option
   \<Rightarrow> (int, denial_proof) eff" where
  "validate_denial L qname qtype kind evidence keys now wildcard =
     (let zone = rr_name keys in
      if \<not> absolute L qname \<or> \<not> below L qname zone \<or> length evidence > 64
         \<or> kind = Unsigned_delegation \<and> (qtype \<noteq> DS_type \<or> qname = zone)
      then throw (RequestDenied ''dnssec_denial_scope_or_limit'')
      else bindM (foldM (add_evidence L keys now) no_evidence evidence) (\<lambda>ev remaining.
        case (if de_malformed ev \<or> de_nsec ev \<noteq> [] \<and> de_nsec3 ev \<noteq> []
              then conclude ev False False None (Some ''inconsistent_denial_evidence'')
              else if de_nsec ev = [] \<and> de_nsec3 ev = []
              then conclude ev False False None (Some ''no_verified_denial_evidence'')
              else prove_absence L zone qname qtype kind wildcard ev)
             \<lparr>ps_remaining = remaining, ps_hashes = []\<rparr>
        of (r, s) \<Rightarrow> (r, ps_remaining s)))"

end
