(* ===== verification/Dns_Demo.thy ===== *)
theory Dns_Demo
  imports Dns_Evidence
begin

text \<open>
  A library with the canonical order of names, for examples: a signature is accepted when it repeats
  the key. It shows that what the code relies on in the library can hold.
\<close>

lemma strict_prefix_less: "strict_prefix p (q :: 'a :: linorder list) \<Longrightarrow> p < q"
proof (induction p arbitrary: q)
  case Nil
  then show ?case by (cases q) auto
next
  case (Cons x p)
  then show ?case by (cases q) auto
qed

lemma prefix_between:
  "prefix p r \<Longrightarrow> p < q \<Longrightarrow> q < r \<Longrightarrow> prefix p (q :: 'a :: linorder list)"
proof (induction p arbitrary: q r)
  case (Cons x p)
  then obtain r' where r: "r = x # r'" "prefix p r'" by (cases r) auto
  obtain y q' where q: "q = y # q'" using Cons.prems(2) by (cases q) auto
  with Cons.prems(2,3) r have "y = x" "p < q'" "q' < r'" by auto
  with Cons.IH [OF r(2)] q show ?case by simp
qed simp

definition canonical_before :: "name \<Rightarrow> name \<Rightarrow> bool" where
  "canonical_before a b \<longleftrightarrow> rev a < rev b"

definition demo_lib :: dns_lib where
  "demo_lib = \<lparr>
     absolute = (\<lambda>n. n \<noteq> [] \<and> last n = []), below = (\<lambda>a b. suffix b a), before = canonical_before,
     parent = tl, name_wire = concat, name_digestable = concat, wire_of = (\<lambda>_. []),
     digestable = (\<lambda>_. []), hexdigest = id, known_algorithm = (\<lambda>a. a = 13), ok_to_validate = (\<lambda>_. True),
     ok_to_validate_ds = (\<lambda>_. True), key_id = (\<lambda>_. 0),
     make_ds = (\<lambda>_ k d. \<lparr>ds_tag = 0, ds_algorithm = k_algorithm k, ds_digest_type = d, ds_digest = k_key k\<rparr>),
     validate_rrsig = (\<lambda>_ sig _ key _. if rs_signature sig = k_key key then Accepted else Rejected),
     public_verify = (\<lambda>_ _ _. Rejected), nsec3_hash = (\<lambda>_ _ _. []),
     relativize = (\<lambda>a b. take (length a - length b) a), concatenate = (\<lambda>a b. Some (a @ b))\<rparr>"

lemma demo_lib_simps [simp]:
  "absolute demo_lib n \<longleftrightarrow> n \<noteq> [] \<and> last n = []" "below demo_lib a b \<longleftrightarrow> suffix b a"
  "before demo_lib = canonical_before" "parent demo_lib = tl" "name_wire demo_lib = concat"
  "wire_of demo_lib r = []" "hexdigest demo_lib d = d" "known_algorithm demo_lib v \<longleftrightarrow> v = 13"
  "ok_to_validate demo_lib k" "ok_to_validate_ds demo_lib t" "key_id demo_lib k = 0"
  "make_ds demo_lib z k t = \<lparr>ds_tag = 0, ds_algorithm = k_algorithm k, ds_digest_type = t, ds_digest = k_key k\<rparr>"
  "validate_rrsig demo_lib records sig z k now = (if rs_signature sig = k_key k then Accepted else Rejected)"
  "concatenate demo_lib m n = Some (m @ n)" "relativize demo_lib m n = take (length m - length n) m"
  by (simp_all add: demo_lib_def)

lemma demo_names_ok: "names_ok demo_lib"
proof -
  have "canonical_before b a" if "strict_suffix b a" for a b
    using that strict_prefix_less [of "rev b" "rev a"]
    by (auto simp: canonical_before_def strict_suffix_def strict_prefix_def suffix_to_prefix)
  moreover have "suffix a b" if "suffix a c" "canonical_before a b" "canonical_before b c" for a b c
    using that prefix_between [of "rev a" "rev c" "rev b"] by (auto simp: canonical_before_def suffix_to_prefix)
  moreover have "a = b \<or> canonical_before a b \<or> canonical_before b a" for a b
    using less_linear [of "rev a" "rev b"] by (auto simp: canonical_before_def)
  ultimately show ?thesis
    by (auto simp: names_ok_def canonical_before_def)
qed

text \<open>The definitions that a signature check unfolds on a concrete input.\<close>

lemmas check_evals = check_signatures_def check_signature_def check_key_def bounded_def wire_total_def
  algorithm_supported_def key_candidates_def is_dnskey_def is_rrsig_def rrsigs_def fingerprint_def empty_check_def
  missing_check_def add_failure_def eligible_def zone_key_def sig_in_force_def crypto_time_def expanded_def is_wild_def
  star_def bindM_def lift_def ret_def consume_budget_def Let_def

definition demo_key :: dnskey where
  "demo_key = \<lparr>k_flags = 256, k_protocol = 3, k_algorithm = 13, k_key = ''k''\<rparr>"

definition demo_set :: "name \<Rightarrow> rdtype \<Rightarrow> rdtype \<Rightarrow> rdata list \<Rightarrow> rrset" where
  "demo_set n t c items = \<lparr>rr_name = n, rr_class = 1, rr_type = t, rr_covers = c, rr_ttl = 60, rr_items = items\<rparr>"

definition demo_sig :: "name \<Rightarrow> rdtype \<Rightarrow> nat \<Rightarrow> name \<Rightarrow> rrset" where
  "demo_sig n t labels signer = demo_set n RRSIG_type t
     [Rrsig \<lparr>rs_covered = t, rs_algorithm = 13, rs_labels = labels, rs_original_ttl = 60, rs_expiration = 2000,
             rs_inception = 1000, rs_tag = 0, rs_signer = signer, rs_signature = ''k''\<rparr>]"

definition demo_keys :: "name \<Rightarrow> rrset" where
  "demo_keys zone = demo_set zone DNSKEY_type 0 [Dnskey demo_key]"

lemmas demo_evals = demo_key_def demo_set_def demo_sig_def demo_keys_def

end
