(* ===== verification/Denial_Facts.thy ===== *)
theory Denial_Facts
  imports Dns_Denial Dns_Demo
begin

text \<open>
  What a valid denial proof shows. A zone is given by the types at each name, as the zone and its
  children publish them; a truthful NSEC or NSEC3 record is one whose bitmap and whose gap agree
  with it. If the records signed by the zone are truthful, a valid proof denies what it claims to.
\<close>

section \<open>Names\<close>

lemma names_okD:
  assumes "names_ok L"
  shows below_suffix: "below L a b \<longleftrightarrow> suffix b a"
    and parent_Cons: "n \<noteq> [] \<Longrightarrow> parent L (l # n) = n"
    and absolute_iff: "absolute L n \<longleftrightarrow> n \<noteq> [] \<and> last n = []"
    and before_irrefl: "\<not> before L a a"
    and before_trans: "before L a b \<Longrightarrow> before L b c \<Longrightarrow> before L a c"
    and before_total: "a = b \<or> before L a b \<or> before L b a"
    and before_below: "strict_suffix b a \<Longrightarrow> before L b a"
    and below_between: "suffix a c \<Longrightarrow> before L a b \<Longrightarrow> before L b c \<Longrightarrow> suffix a b"
  using assms unfolding names_ok_def by meson+

section \<open>Zones\<close>

type_synonym zone_types = "name \<Rightarrow> rdtype set"

text \<open>Below a delegation or an alias of a subtree the zone has nothing to say.\<close>

definition zone_cut :: "zone_types \<Rightarrow> name \<Rightarrow> bool" where
  "zone_cut T n \<longleftrightarrow> DNAME_type \<in> T n \<or> (NS_type \<in> T n \<and> SOA_type \<notin> T n)"

definition occluded :: "zone_types \<Rightarrow> name \<Rightarrow> name \<Rightarrow> bool" where
  "occluded T zone n \<longleftrightarrow> (\<exists>c. suffix zone c \<and> strict_suffix c n \<and> zone_cut T c)"

text \<open>No records at the name or below it.\<close>

definition absent :: "zone_types \<Rightarrow> name \<Rightarrow> bool" where
  "absent T n \<longleftrightarrow> (\<forall>m. suffix n m \<longrightarrow> T m = {})"

definition insecure_delegation :: "zone_types \<Rightarrow> name \<Rightarrow> bool" where
  "insecure_delegation T n \<longleftrightarrow> NS_type \<in> T n \<and> DS_type \<notin> T n \<and> SOA_type \<notin> T n"

definition opted_out :: "zone_types \<Rightarrow> name \<Rightarrow> name \<Rightarrow> bool" where
  "opted_out T zone n \<longleftrightarrow>
     (\<forall>m. suffix n m \<longrightarrow> T m \<noteq> {} \<longrightarrow> \<not> occluded T zone m \<longrightarrow> insecure_delegation T m)"

definition in_gap :: "dns_lib \<Rightarrow> name \<Rightarrow> name \<Rightarrow> name \<Rightarrow> name \<Rightarrow> bool" where
  "in_gap L zone owner next n \<longleftrightarrow> n \<noteq> owner \<and> n \<noteq> next \<and>
     (before L owner n \<and> before L n next
      \<or> before L next owner \<and> (before L owner n \<or> before L n next)
      \<or> owner = next \<and> next = zone)"

definition truthful_nsec :: "dns_lib \<Rightarrow> name \<Rightarrow> zone_types \<Rightarrow> name \<Rightarrow> nsec \<Rightarrow> bool" where
  "truthful_nsec L zone T owner item \<longleftrightarrow>
     suffix zone owner \<and> \<not> occluded T zone owner
     \<and> (\<forall>t. has_type (n_windows item) t \<longleftrightarrow> t \<in> T owner)
     \<and> (\<forall>n. suffix zone n \<longrightarrow> T n \<noteq> {} \<longrightarrow> \<not> occluded T zone n \<longrightarrow> \<not> in_gap L zone owner (n_next item) n)"

definition hash_of :: "dns_lib \<Rightarrow> nat \<times> bytes \<Rightarrow> name \<Rightarrow> error + bytes" where
  "hash_of L config n = b32hexdecode (nsec3_hash L n (snd config) (fst config))"

definition truthful_nsec3 :: "dns_lib \<Rightarrow> name \<Rightarrow> zone_types \<Rightarrow> bytes \<Rightarrow> nsec3 \<Rightarrow> bool" where
  "truthful_nsec3 L zone T hash item \<longleftrightarrow>
     (let config = (n3_iterations item, n3_salt item) in
      (\<forall>n. hash_of L config n = Inr hash \<longrightarrow>
         \<not> occluded T zone n \<and> (\<forall>t. has_type (n3_windows item) t \<longleftrightarrow> t \<in> T n))
      \<and> (\<forall>n h. suffix zone n \<longrightarrow> \<not> absent T n \<longrightarrow> \<not> occluded T zone n \<longrightarrow> hash_of L config n = Inr h \<longrightarrow>
           nsec3_covers h (hash, item) \<longrightarrow> odd (n3_flags item) \<and> opted_out T zone n))"

text \<open>The owner of the keys signs only truthful records.\<close>

definition honest_zone :: "dns_lib \<Rightarrow> rrset \<Rightarrow> rat \<Rightarrow> zone_types \<Rightarrow> (rrset \<times> rrset option) list \<Rightarrow> bool" where
  "honest_zone L keys now T evidence \<longleftrightarrow>
     (\<forall>records sigs p. (records, Some sigs) \<in> set evidence \<longrightarrow> authentic L records sigs keys now p \<longrightarrow> \<not> vs_wildcard p \<longrightarrow>
        (\<forall>r. Nsec r \<in> set (rr_items records) \<longrightarrow> truthful_nsec L (rr_name keys) T (rr_name records) r) \<and>
        (\<forall>r h. Nsec3 r \<in> set (rr_items records) \<longrightarrow> nsec3_owner L (rr_name keys) (rr_name records) r = Inr h \<longrightarrow>
               truthful_nsec3 L (rr_name keys) T h r))"

section \<open>Gaps are empty\<close>

lemma occluded_top:
  assumes "occluded T zone n"
  obtains c where "suffix zone c" "strict_suffix c n" "zone_cut T c" "\<not> occluded T zone c"
proof -
  define P where "P c \<longleftrightarrow> suffix zone c \<and> strict_suffix c n \<and> zone_cut T c" for c
  have "\<exists>c. P c" using assms by (auto simp: occluded_def P_def)
  then obtain c where c: "P c" and least: "\<And>d. P d \<Longrightarrow> length c \<le> length d"
    using ex_has_least_nat [of P _ length] by blast
  have "\<not> occluded T zone c"
  proof
    assume "occluded T zone c"
    then obtain d where d: "suffix zone d" "strict_suffix d c" "zone_cut T d" by (auto simp: occluded_def)
    then have "P d" using c unfolding P_def by (meson suffix_order.less_trans)
    from least [OF this] d(2) show False
      using suffix_length_less [of d c] by auto
  qed
  with c that show thesis by (auto simp: P_def)
qed

lemma cut_data: "zone_cut T n \<Longrightarrow> T n \<noteq> {}"
  by (auto simp: zone_cut_def)

lemma cut_windows:
  assumes "\<And>t. has_type ws t \<longleftrightarrow> t \<in> T n"
  shows "authoritative ws \<longleftrightarrow> \<not> zone_cut T n"
  using assms by (simp add: authoritative_def zone_cut_def)

lemma nsec_covers_gap:
  assumes "names_ok L"
  shows "nsec_covers L zone n (owner, item) \<longleftrightarrow>
    in_gap L zone owner (n_next item) n \<and> \<not> (strict_suffix owner n \<and> \<not> authoritative (n_windows item))"
  using assms by (auto simp: nsec_covers_def in_gap_def below_suffix strict_suffix_def)

text \<open>A delegation above a covered name would have to stand in the gap, be its owner, or stand above the owner.\<close>

lemma covered_not_occluded:
  assumes L: "names_ok L" and tr: "truthful_nsec L zone T owner item"
    and cov: "nsec_covers L zone n (owner, item)" and zn: "suffix zone n"
  shows "\<not> occluded T zone n"
proof
  assume "occluded T zone n"
  then obtain c where c: "suffix zone c" "strict_suffix c n" "zone_cut T c" "\<not> occluded T zone c"
    by (rule occluded_top)
  have gap: "in_gap L zone owner (n_next item) n" and auth: "strict_suffix owner n \<Longrightarrow> authoritative (n_windows item)"
    using cov unfolding nsec_covers_gap [OF L] by auto
  have away: "\<not> in_gap L zone owner (n_next item) c"
    using tr c cut_data unfolding truthful_nsec_def by blast
  have cn: "before L c n" using before_below [OF L c(2)] .
  have "c \<noteq> owner"
  proof
    assume "c = owner"
    with c auth have "authoritative (n_windows item)" by simp
    moreover have "authoritative (n_windows item) \<longleftrightarrow> \<not> zone_cut T owner"
      using tr by (intro cut_windows) (auto simp: truthful_nsec_def)
    ultimately show False using c(3) \<open>c = owner\<close> by simp
  qed
  moreover have "\<not> (before L c owner \<and> before L owner n)"
  proof
    assume "before L c owner \<and> before L owner n"
    with below_between [OF L, of c n owner] c(2) have "suffix c owner" by (auto simp: strict_suffix_def)
    with \<open>c \<noteq> owner\<close> c have "occluded T zone owner" by (auto simp: occluded_def strict_suffix_def)
    with tr show False by (simp add: truthful_nsec_def)
  qed
  ultimately show False
    using gap away cn before_total [OF L, of c owner] before_total [OF L, of c "n_next item"]
      before_trans [OF L] before_irrefl [OF L] unfolding in_gap_def by metis
qed

lemma covered_no_data:
  assumes L: "names_ok L" and tr: "truthful_nsec L zone T owner item"
    and cov: "nsec_covers L zone n (owner, item)" and zn: "suffix zone n"
  shows "T n = {}"
proof (rule ccontr)
  assume "T n \<noteq> {}"
  with tr zn covered_not_occluded [OF assms] have "\<not> in_gap L zone owner (n_next item) n"
    unfolding truthful_nsec_def by blast
  with cov show False unfolding nsec_covers_gap [OF L] by simp
qed

lemma covered_absent:
  assumes L: "names_ok L" and tr: "truthful_nsec L zone T owner item"
    and cov: "nsec_covers L zone n (owner, item)" and zn: "suffix zone n"
    and next_apart: "\<not> suffix n (n_next item)"
  shows "absent T n"
proof -
  have clear: "T m = {}" if m: "suffix n m" and "\<not> occluded T zone m" for m
  proof (rule ccontr)
    assume "T m \<noteq> {}"
    moreover have "suffix zone m" using zn m by (rule suffix_order.trans)
    ultimately have away: "\<not> in_gap L zone owner (n_next item) m"
      using tr that unfolding truthful_nsec_def by blast
    have gap: "in_gap L zone owner (n_next item) n" using cov unfolding nsec_covers_gap [OF L] by simp
    with away have "m \<noteq> n" by auto
    with m have nm: "before L n m" using before_below [OF L] by (auto simp: strict_suffix_def)
    have "\<not> (before L n (n_next item) \<and> before L (n_next item) m)" "n_next item \<noteq> m"
      using below_between [OF L, of n m "n_next item"] m next_apart by auto
    moreover have "owner = n_next item \<Longrightarrow> n_next item = zone \<Longrightarrow> m \<noteq> owner"
      using m zn gap unfolding in_gap_def by (metis suffix_order.antisym)
    ultimately show False
      using gap away nm before_total [OF L, of m "n_next item"] before_total [OF L, of m owner]
        before_trans [OF L] before_irrefl [OF L] unfolding in_gap_def by metis
  qed
  have "T m = {}" if m: "suffix n m" for m
  proof (cases "occluded T zone m")
    case True
    then obtain c where c: "suffix zone c" "strict_suffix c m" "zone_cut T c" "\<not> occluded T zone c"
      by (rule occluded_top)
    have "suffix n c \<or> strict_suffix c n"
      using c(2) m by (metis strict_suffix_def suffix_same_cases suffix_order.le_less)
    then show ?thesis
    proof
      assume "suffix n c"
      with clear c cut_data show ?thesis by blast
    next
      assume "strict_suffix c n"
      with c have "occluded T zone n" by (auto simp: occluded_def)
      with covered_not_occluded [OF L tr cov zn] show ?thesis by simp
    qed
  next
    case False
    with m clear show ?thesis by simp
  qed
  then show ?thesis by (simp add: absent_def)
qed

text \<open>A name whose parent has a record of its own, and whose hash lies in a gap, does not exist.\<close>

lemma hashed_gap_absent:
  assumes closest: "truthful_nsec3 L zone T h item" "hash_of L (n3_iterations item, n3_salt item) n = Inr h"
      "authoritative (n3_windows item)" "suffix zone n"
    and gap: "truthful_nsec3 L zone T h' item'" "hash_of L (n3_iterations item', n3_salt item') (l # n) = Inr k"
      "nsec3_covers k (h', item')"
  shows "\<not> occluded T zone (l # n)"
    and "absent T (l # n) \<or> odd (n3_flags item') \<and> opted_out T zone (l # n)"
proof -
  have n: "\<not> occluded T zone n" "\<And>t. has_type (n3_windows item) t \<longleftrightarrow> t \<in> T n"
    using closest(1,2) by (auto simp: truthful_nsec3_def Let_def)
  have "\<not> zone_cut T n" using cut_windows [of "n3_windows item" T n, OF n(2)] closest(3) by simp
  show free: "\<not> occluded T zone (l # n)"
  proof
    assume "occluded T zone (l # n)"
    then obtain c where c: "suffix zone c" "strict_suffix c (l # n)" "zone_cut T c" by (auto simp: occluded_def)
    then have "c = n \<or> strict_suffix c n" by (auto simp: strict_suffix_def suffix_Cons)
    with c n(1) \<open>\<not> zone_cut T n\<close> show False by (auto simp: occluded_def)
  qed
  have "suffix zone (l # n)" using closest(4) by (simp add: suffix_Cons)
  with free gap show "absent T (l # n) \<or> odd (n3_flags item') \<and> opted_out T zone (l # n)"
    unfolding truthful_nsec3_def Let_def by blast
qed

section \<open>The evidence\<close>

definition signed_in :: "dns_lib \<Rightarrow> rrset \<Rightarrow> rat \<Rightarrow> (rrset \<times> rrset option) list \<Rightarrow> rrset \<Rightarrow> bool" where
  "signed_in L keys now evidence records \<longleftrightarrow>
     (\<exists>sigs p. (records, Some sigs) \<in> set evidence \<and> authentic L records sigs keys now p \<and> \<not> vs_wildcard p)"

definition evidence_ok :: "dns_lib \<Rightarrow> rrset \<Rightarrow> rat \<Rightarrow> (rrset \<times> rrset option) list \<Rightarrow> denial_evidence \<Rightarrow> bool" where
  "evidence_ok L keys now evidence ev \<longleftrightarrow>
     (\<forall>(owner, item) \<in> set (de_nsec ev). \<exists>records. signed_in L keys now evidence records
        \<and> rr_name records = owner \<and> Nsec item \<in> set (rr_items records)) \<and>
     (\<forall>(h, item) \<in> set (de_nsec3 ev). de_parameters ev = Some (n3_iterations item, n3_salt item)
        \<and> (\<exists>records. signed_in L keys now evidence records \<and> Nsec3 item \<in> set (rr_items records)
             \<and> nsec3_owner L (rr_name keys) (rr_name records) item = Inr h))"

lemma direct_path:
  assumes "check_signatures L records signatures keys now b = (Inr c, b')" "has_direct_path c"
    and "(records, signatures) \<in> set evidence"
  shows "signed_in L keys now evidence records"
  using assms unfolding has_direct_path_def list_ex_iff signed_in_def by (metis verified_iff)

lemma add_evidence_ok:
  assumes "evidence_ok L keys now evidence ev" "item \<in> set evidence"
    and "add_evidence L keys now ev item b = (Inr ev', b')"
  shows "evidence_ok L keys now evidence ev'" "0 \<le> b \<Longrightarrow> 0 \<le> b'"
proof -
  obtain records signatures where item: "item = (records, signatures)" by (cases item)
  with assms(3) obtain c where check: "check_signatures L records signatures keys now b = (Inr c, b')"
    and ev': "ev' = (let ev1 = ev\<lparr>de_checks := de_checks ev @ [c]\<rparr> in
        if \<not> has_direct_path c then ev1
        else (case rr_items records of
                [Nsec r] \<Rightarrow> add_nsec L (rr_name keys) (rr_name records) r ev1
              | [Nsec3 r] \<Rightarrow> add_nsec3 L (rr_name keys) (rr_name records) r ev1
              | [_] \<Rightarrow> ev1
              | _ \<Rightarrow> ev1\<lparr>de_malformed := True\<rparr>))"
    by (auto simp: add_evidence_def run_results Let_def split: if_splits)
  from check_signatures_run(3) [OF check] show "0 \<le> b \<Longrightarrow> 0 \<le> b'" .
  let ?ev1 = "ev\<lparr>de_checks := de_checks ev @ [c]\<rparr>"
  have keep: "evidence_ok L keys now evidence (ev\<lparr>de_checks := x\<rparr>)"
    "evidence_ok L keys now evidence (ev\<lparr>de_checks := x, de_malformed := y\<rparr>)" for x y
    using assms(1) by (simp_all add: evidence_ok_def)
  show "evidence_ok L keys now evidence ev'"
  proof (cases "has_direct_path c")
    case True
    then have signed: "signed_in L keys now evidence records"
      using direct_path [OF check] assms(2) item by simp
    have "(\<exists>r. rr_items records = [Nsec r]) \<or> (\<exists>r. rr_items records = [Nsec3 r])
        \<or> ev' = ?ev1 \<or> ev' = ?ev1\<lparr>de_malformed := True\<rparr>"
    proof (cases "rr_items records")
      case (Cons x xs)
      with True show ?thesis unfolding ev' by (cases x; cases xs) simp_all
    qed (simp add: ev' True)
    then consider (nsec) r where "rr_items records = [Nsec r]" | (nsec3) r where "rr_items records = [Nsec3 r]"
      | (other) "ev' = ?ev1 \<or> ev' = ?ev1\<lparr>de_malformed := True\<rparr>"
      by blast
    then show ?thesis
    proof cases
      case nsec
      with True have "ev' = add_nsec L (rr_name keys) (rr_name records) r ?ev1" by (simp add: ev')
      with assms(1) signed nsec show ?thesis by (auto simp: add_nsec_def evidence_ok_def)
    next
      case nsec3
      with True have ev'': "ev' = add_nsec3 L (rr_name keys) (rr_name records) r ?ev1" by (simp add: ev')
      show ?thesis
      proof (cases "n3_algorithm r \<noteq> 1 \<or> n3_flags r \<notin> {0, 1}")
        case True
        then show ?thesis using keep unfolding ev'' add_nsec3_def by simp
      next
        case False
        with assms(1) signed nsec3 show ?thesis unfolding ev'' add_nsec3_def
          by (auto simp: evidence_ok_def Let_def split: sum.splits)
      qed
    next
      case other
      then show ?thesis using keep by auto
    qed
  next
    case False
    then show ?thesis using keep by (simp add: ev')
  qed
qed

lemma gather_ok:
  assumes "foldM (add_evidence L keys now) ev items b = (Inr ev', b')"
    and "evidence_ok L keys now evidence ev" "set items \<subseteq> set evidence"
  shows "evidence_ok L keys now evidence ev' \<and> (0 \<le> b \<longrightarrow> 0 \<le> b')"
  using assms
proof (induction items arbitrary: ev b)
  case Nil
  then show ?case by (simp add: ret_result)
next
  case (Cons x xs)
  then obtain ev1 b1 where "add_evidence L keys now ev x b = (Inr ev1, b1)"
    and rest: "foldM (add_evidence L keys now) ev1 xs b1 = (Inr ev', b')"
    by (auto simp: bindM_result)
  with add_evidence_ok [of L keys now evidence ev x b ev1 b1] Cons.prems
  have "evidence_ok L keys now evidence ev1" "0 \<le> b \<Longrightarrow> 0 \<le> b1" by auto
  with Cons.IH [OF rest] Cons.prems show ?case by auto
qed

section \<open>The search as a function of the evidence\<close>

text \<open>A hash kept is the hash of its name.\<close>

definition memo_ok :: "dns_lib \<Rightarrow> denial_evidence \<Rightarrow> proof_state \<Rightarrow> bool" where
  "memo_ok L ev s \<longleftrightarrow>
     (\<forall>(n, h) \<in> set (ps_hashes s). \<exists>config. de_parameters ev = Some config \<and> hash_of L config n = Inr h)"

definition exact_spec :: "dns_lib \<Rightarrow> denial_evidence \<Rightarrow> name \<Rightarrow> denial_record option \<Rightarrow> bool" where
  "exact_spec L ev n r \<longleftrightarrow>
     (if de_nsec ev \<noteq> [] then map_option By_nsec (map_of (de_nsec ev) n) = r
      else \<exists>config h. de_parameters ev = Some config \<and> hash_of L config n = Inr h
             \<and> map_option By_nsec3 (map_of (de_nsec3 ev) h) = r)"

definition cover_spec :: "dns_lib \<Rightarrow> name \<Rightarrow> denial_evidence \<Rightarrow> name \<Rightarrow> denial_record option \<Rightarrow> bool" where
  "cover_spec L zone ev n r \<longleftrightarrow>
     (if de_nsec ev \<noteq> [] then map_option (By_nsec \<circ> snd) (find (nsec_covers L zone n) (de_nsec ev)) = r
      else \<exists>config h. de_parameters ev = Some config \<and> hash_of L config n = Inr h
             \<and> map_option (By_nsec3 \<circ> snd) (find (nsec3_covers h) (de_nsec3 ev)) = r)"

text \<open>What a step of the search keeps.\<close>

definition kept :: "dns_lib \<Rightarrow> denial_evidence \<Rightarrow> proof_state \<Rightarrow> proof_state \<Rightarrow> bool" where
  "kept L ev s s' \<longleftrightarrow> (memo_ok L ev s \<longrightarrow> memo_ok L ev s') \<and> (0 \<le> ps_remaining s \<longrightarrow> 0 \<le> ps_remaining s')"

lemma kept_refl [simp]: "kept L ev s s"
  by (simp add: kept_def)

lemma kept_trans: "kept L ev a b \<Longrightarrow> kept L ev b c \<Longrightarrow> kept L ev a c"
  by (auto simp: kept_def)

lemma hashed_run:
  assumes "hashed L ev n s = (Inr h, s')" "memo_ok L ev s"
  shows "(\<exists>config. de_parameters ev = Some config \<and> hash_of L config n = Inr h) \<and> kept L ev s s'"
proof (cases "map_of (ps_hashes s) n")
  case None
  with assms(1) obtain it salt b where p: "de_parameters ev = Some (it, salt)"
    and "consume_budget (int it + 1) (ps_remaining s) = (Inr (), b)"
    and "hash_of L (it, salt) n = Inr h" "s' = s\<lparr>ps_remaining := b, ps_hashes := ps_hashes s @ [(n, h)]\<rparr>"
    by (auto simp: hashed_def run_results charge_def hash_of_def split: option.splits prod.splits)
  with assms(2) show ?thesis by (auto simp: kept_def memo_ok_def consume_budget_result)
next
  case (Some k)
  with assms have "h = k" "s' = s" by (auto simp: hashed_def ret_result)
  with Some assms(2) show ?thesis by (auto simp: memo_ok_def dest: map_of_SomeD)
qed

lemma exact_run:
  "exact_record L ev n s = (Inr r, s') \<Longrightarrow> memo_ok L ev s \<Longrightarrow> exact_spec L ev n r \<and> kept L ev s s'"
  by (auto simp: exact_record_def exact_spec_def run_results split: if_splits dest!: hashed_run)

lemma cover_run:
  "covering_record L zone ev n s = (Inr r, s') \<Longrightarrow> memo_ok L ev s \<Longrightarrow> cover_spec L zone ev n r \<and> kept L ev s s'"
  by (auto simp: covering_record_def cover_spec_def run_results split: if_splits dest!: hashed_run)

lemma first_exact_run:
  "first_exact L ev ns s = (Inr r, s') \<Longrightarrow> memo_ok L ev s \<Longrightarrow>
     kept L ev s s' \<and> (\<forall>n. r = Some n \<longrightarrow> n \<in> set ns \<and> (\<exists>e. exact_spec L ev n (Some e)))"
proof (induction ns arbitrary: s)
  case Nil
  then show ?case by (simp add: ret_result)
next
  case (Cons n ns)
  then obtain e s1 where 1: "exact_record L ev n s = (Inr e, s1)"
    and 2: "(if e \<noteq> None then ret (Some n) else first_exact L ev ns) s1 = (Inr r, s')"
    by (auto simp: bindM_result)
  from exact_run [OF 1 Cons.prems(2)] have e: "exact_spec L ev n e" "kept L ev s s1" by auto
  with Cons.prems(2) have "memo_ok L ev s1" by (simp add: kept_def)
  show ?case
  proof (cases "e = None")
    case True
    with Cons.IH [of s1] 2 \<open>memo_ok L ev s1\<close> e(2) show ?thesis by (auto intro: kept_trans)
  next
    case False
    with 2 e show ?thesis by (auto simp: ret_result)
  qed
qed

section \<open>What the records say\<close>

definition trusted_evidence :: "dns_lib \<Rightarrow> name \<Rightarrow> zone_types \<Rightarrow> denial_evidence \<Rightarrow> bool" where
  "trusted_evidence L zone T ev \<longleftrightarrow>
     (\<forall>(owner, item) \<in> set (de_nsec ev). truthful_nsec L zone T owner item) \<and>
     (\<forall>(h, item) \<in> set (de_nsec3 ev). de_parameters ev = Some (n3_iterations item, n3_salt item)
        \<and> truthful_nsec3 L zone T h item)"

lemma evidence_trusted:
  assumes "evidence_ok L keys now evidence ev" "honest_zone L keys now T evidence"
  shows "trusted_evidence L (rr_name keys) T ev"
proof -
  have nsec: "truthful_nsec L (rr_name keys) T owner item" if "(owner, item) \<in> set (de_nsec ev)" for owner item
  proof -
    from that assms(1) obtain records where "signed_in L keys now evidence records"
      "rr_name records = owner" "Nsec item \<in> set (rr_items records)" by (fastforce simp: evidence_ok_def)
    with assms(2) show ?thesis unfolding honest_zone_def signed_in_def by blast
  qed
  have nsec3: "de_parameters ev = Some (n3_iterations item, n3_salt item) \<and> truthful_nsec3 L (rr_name keys) T h item"
    if "(h, item) \<in> set (de_nsec3 ev)" for h item
  proof -
    from that assms(1) obtain records where "de_parameters ev = Some (n3_iterations item, n3_salt item)"
      "signed_in L keys now evidence records" "Nsec3 item \<in> set (rr_items records)"
      "nsec3_owner L (rr_name keys) (rr_name records) item = Inr h" by (fastforce simp: evidence_ok_def)
    with assms(2) show ?thesis unfolding honest_zone_def signed_in_def by blast
  qed
  show ?thesis using nsec nsec3 by (auto simp: trusted_evidence_def)
qed

lemma exact_types:
  assumes "trusted_evidence L zone T ev" "exact_spec L ev n (Some r)"
  shows "\<not> occluded T zone n" "has_type (windows_of r) t \<longleftrightarrow> t \<in> T n"
proof -
  have "\<not> occluded T zone n \<and> (\<forall>t. has_type (windows_of r) t \<longleftrightarrow> t \<in> T n)"
  proof (cases "de_nsec ev = []")
    case True
    with assms(2) obtain config h item where *: "de_parameters ev = Some config" "hash_of L config n = Inr h"
      "(h, item) \<in> set (de_nsec3 ev)" "r = By_nsec3 item"
      by (auto simp: exact_spec_def dest: map_of_SomeD)
    with assms(1) have "config = (n3_iterations item, n3_salt item)" "truthful_nsec3 L zone T h item"
      by (auto simp: trusted_evidence_def)
    with * show ?thesis by (auto simp: truthful_nsec3_def windows_of_def Let_def)
  next
    case False
    with assms(2) obtain item where "(n, item) \<in> set (de_nsec ev)" "r = By_nsec item"
      by (auto simp: exact_spec_def dest: map_of_SomeD)
    with assms(1) show ?thesis by (auto simp: trusted_evidence_def truthful_nsec_def windows_of_def)
  qed
  then show "\<not> occluded T zone n" "has_type (windows_of r) t \<longleftrightarrow> t \<in> T n" by auto
qed

lemma exact_authoritative:
  assumes "trusted_evidence L zone T ev" "exact_spec L ev n (Some r)"
  shows "authoritative (windows_of r) \<longleftrightarrow> \<not> zone_cut T n"
  by (rule cut_windows) (rule exact_types(2) [OF assms])

lemma cover_cases:
  assumes "trusted_evidence L zone T ev" "cover_spec L zone ev n (Some c)"
  obtains (nsec) owner item where "de_nsec ev \<noteq> []" "(owner, item) \<in> set (de_nsec ev)" "c = By_nsec item"
      "truthful_nsec L zone T owner item" "nsec_covers L zone n (owner, item)"
    | (nsec3) h item k where "de_nsec ev = []" "(h, item) \<in> set (de_nsec3 ev)" "c = By_nsec3 item"
      "truthful_nsec3 L zone T h item" "hash_of L (n3_iterations item, n3_salt item) n = Inr k"
      "nsec3_covers k (h, item)"
proof (cases "de_nsec ev = []")
  case True
  with assms(2) obtain config k e where "de_parameters ev = Some config" "hash_of L config n = Inr k"
    and "find (nsec3_covers k) (de_nsec3 ev) = Some e" "c = By_nsec3 (snd e)"
    by (auto simp: cover_spec_def)
  moreover from this have "(fst e, snd e) \<in> set (de_nsec3 ev)" "nsec3_covers k (fst e, snd e)"
    by (auto simp: find_Some_iff)
  moreover from this have "config = (n3_iterations (snd e), n3_salt (snd e))" "truthful_nsec3 L zone T (fst e) (snd e)"
    using assms(1) \<open>de_parameters ev = Some config\<close> unfolding trusted_evidence_def by auto
  ultimately show thesis using True nsec3 [of "fst e" "snd e" k] by simp
next
  case False
  with assms(2) obtain e where "find (nsec_covers L zone n) (de_nsec ev) = Some e" "c = By_nsec (snd e)"
    by (auto simp: cover_spec_def)
  moreover from this have "e \<in> set (de_nsec ev)" "nsec_covers L zone n e"
    by (auto simp: find_Some_iff)
  ultimately show thesis
    using assms(1) False nsec [of "fst e" "snd e"] by (auto simp: trusted_evidence_def)
qed

section \<open>The closest encloser\<close>

lemma find_ancestor:
  assumes "names_ok L" "find P (ancestors_upto (length n) L n zone) = Some c"
  shows "P c \<and> suffix zone c \<and> suffix c n \<and> (\<forall>x. strict_suffix c x \<longrightarrow> suffix x n \<longrightarrow> \<not> P x)"
  using assms(2)
proof (induction "length n" arbitrary: n)
  case 0
  then show ?case by simp
next
  case (Suc k)
  then obtain l m where n: "n = l # m" "length m = k" by (metis Suc_length_conv)
  have zone: "suffix zone n" using Suc.prems Suc.hyps(2) [symmetric] by (simp add: below_suffix [OF assms(1)] split: if_splits)
  show ?case
  proof (cases "P n")
    case True
    with Suc.prems Suc.hyps(2) [symmetric] have "c = n" by (simp split: if_splits)
    with True zone show ?thesis by (auto simp: strict_suffix_def)
  next
    case False
    with Suc.prems Suc.hyps(2) [symmetric] zone have "find P (ancestors_upto k L (parent L n) zone) = Some c"
      by (simp split: if_splits)
    moreover from this have "m \<noteq> []" using n by auto
    ultimately have "find P (ancestors_upto (length m) L m zone) = Some c"
      using n parent_Cons [OF assms(1)] by simp
    from Suc.hyps(1) [OF n(2) [symmetric] this] False n(1) show ?thesis
      by (auto simp: suffix_Cons)
  qed
qed

lemma set_ancestors:
  assumes "names_ok L"
  shows "x \<in> set (ancestors_upto (length n) L n zone) \<Longrightarrow> suffix zone x \<and> suffix x n"
proof (induction "length n" arbitrary: n)
  case 0
  then show ?case by simp
next
  case (Suc k)
  then obtain l m where n: "n = l # m" "length m = k" by (metis Suc_length_conv)
  consider "x = n" "suffix zone n" | "x \<in> set (ancestors_upto k L (parent L n) zone)"
    using Suc.prems Suc.hyps(2) [symmetric] by (auto simp: below_suffix [OF assms] split: if_splits)
  then show ?case
  proof cases
    case 2
    then have "m \<noteq> []" using n by auto
    with 2 n parent_Cons [OF assms] have "x \<in> set (ancestors_upto (length m) L m zone)" by simp
    with Suc.hyps(1) [of m] n show ?thesis by (auto simp: suffix_Cons)
  qed simp
qed

lemma next_closer:
  assumes "strict_suffix c q"
  obtains l where "last_labels (length c + 1) q = l # c" "suffix (l # c) q"
proof -
  from assms obtain xs where q: "q = xs @ c" "xs \<noteq> []" by (auto simp: strict_suffix_def suffix_def)
  then have "q = butlast xs @ last xs # c" by (metis append_butlast_last_id append.assoc append_Cons append_Nil)
  then have "last_labels (length c + 1) q = last xs # c" "suffix (last xs # c) q"
    by (auto simp: last_labels_def suffix_def)
  with that show thesis .
qed

lemma prove_below_found:
  assumes "prove_below L zone q t k ev found s = (Inr p, s')" "dp_valid p"
  obtains c where "found = Some c"
  using assms by (cases found) (auto simp: prove_below_def conclude_def ret_result)

text \<open>What a valid result of the search below an encloser rests on.\<close>

lemma prove_below_run:
  assumes run: "prove_below L zone q t k ev (Some c) s = (Inr p, s')" and memo: "memo_ok L ev s" and valid: "dp_valid p"
  obtains cov where "c \<noteq> q" "dp_closest p = Some c"
    "\<And>r. exact_spec L ev c (Some r) \<Longrightarrow> authoritative (windows_of r)"
    "cover_spec L zone ev (last_labels (length c + 1) q) (Some cov)" "dp_opt_out p = opts_out cov"
    "k = Unsigned_delegation \<or> k = Nodata \<Longrightarrow> dp_opt_out p"
    "k = Nxdomain \<Longrightarrow> \<exists>w. cover_spec L zone ev (star # c) (Some w)"
    "k = Wildcard_nodata \<Longrightarrow> \<exists>w. exact_spec L ev (star # c) (Some w) \<and> denies_type (windows_of w) t"
proof -
  from run valid have c: "c \<noteq> q"
    by (auto simp: prove_below_def conclude_def ret_result)
  with run obtain e s1 where e: "exact_record L ev c s = (Inr e, s1)"
    by (auto simp: prove_below_def bindM_result)
  from exact_run [OF this memo] have espec: "exact_spec L ev c e" and m1: "memo_ok L ev s1"
    using memo by (auto simp: kept_def)
  have auth: "authoritative (windows_of r)" if "exact_spec L ev c (Some r)" for r
  proof -
    have "e = Some r" using espec that by (auto simp: exact_spec_def split: if_splits)
    with run valid c e show ?thesis
      by (auto simp: prove_below_def conclude_def ret_result bindM_result split: if_splits)
  qed
  from run valid c e obtain cov s2 where
    cov: "covering_record L zone ev (last_labels (length c + 1) q) s1 = (Inr (Some cov), s2)"
    and rest: "(if k = Wildcard then conclude ev True (opts_out cov) (Some c) None
                else if k = Unsigned_delegation \<or> k = Nodata \<and> t = DS_type
                then conclude ev (de_nsec3 ev \<noteq> [] \<and> opts_out cov) (opts_out cov) (Some c) None
                else if k = Nxdomain
                then bindM (covering_record L zone ev (star # c)) (\<lambda>w.
                       conclude ev (w \<noteq> None) (opts_out cov) (Some c) None)
                else if k = Wildcard_nodata
                then bindM (exact_record L ev (star # c)) (\<lambda>w.
                       conclude ev (case w of None \<Rightarrow> False | Some r \<Rightarrow> denies_type (windows_of r) t)
                         (opts_out cov) (Some c) None)
                else conclude ev False False None None) s2 = (Inr p, s')"
    by (auto simp: prove_below_def Let_def conclude_def ret_result bindM_result split: if_splits option.splits)
  from cover_run [OF cov m1] have cspec: "cover_spec L zone ev (last_labels (length c + 1) q) (Some cov)"
    and m2: "memo_ok L ev s2" using m1 by (auto simp: kept_def)
  have result: "dp_closest p = Some c" "dp_opt_out p = opts_out cov"
    "k = Unsigned_delegation \<or> k = Nodata \<Longrightarrow> dp_opt_out p"
    using rest valid by (cases k; auto simp: conclude_def ret_result bindM_result split: if_splits)+
  have nx: "\<exists>w. cover_spec L zone ev (star # c) (Some w)" if "k = Nxdomain"
    using rest valid that m2 by (auto simp: conclude_def ret_result bindM_result dest!: cover_run)
  have wn: "\<exists>w. exact_spec L ev (star # c) (Some w) \<and> denies_type (windows_of w) t" if "k = Wildcard_nodata"
    using rest valid that m2
    by (auto simp: conclude_def ret_result bindM_result dest!: exact_run split: option.splits)
  show thesis using that [OF c result(1) auth cspec result(2,3) nx wn] by blast
qed

section \<open>A valid proof denies what it claims\<close>

lemma exact_nsec3:
  assumes "trusted_evidence L zone T ev" "exact_spec L ev n (Some r)" "de_nsec ev = []"
  obtains h item where "r = By_nsec3 item" "truthful_nsec3 L zone T h item"
    "hash_of L (n3_iterations item, n3_salt item) n = Inr h" "de_parameters ev = Some (n3_iterations item, n3_salt item)"
proof -
  from assms(2,3) obtain config h item where *: "de_parameters ev = Some config" "hash_of L config n = Inr h"
    "(h, item) \<in> set (de_nsec3 ev)" "r = By_nsec3 item"
    by (auto simp: exact_spec_def dest: map_of_SomeD)
  with assms(1) have "config = (n3_iterations item, n3_salt item)" "truthful_nsec3 L zone T h item"
    by (auto simp: trusted_evidence_def)
  with * that show thesis by blast
qed

text \<open>The name one label below the closest encloser, and the wildcard below it.\<close>

lemma child_covered:
  assumes L: "names_ok L" and tr: "trusted_evidence L zone T ev" and zc: "suffix zone c"
    and auth: "\<And>r. exact_spec L ev c (Some r) \<Longrightarrow> authoritative (windows_of r)"
    and known: "de_nsec ev = [] \<Longrightarrow> \<exists>r. exact_spec L ev c (Some r)"
    and cov: "cover_spec L zone ev (l # c) (Some w)"
  shows "T (l # c) = {} \<or> opts_out w \<and> opted_out T zone (l # c)"
    and "(\<And>owner item. (owner, item) \<in> set (de_nsec ev) \<Longrightarrow> \<not> suffix (l # c) (n_next item)) \<Longrightarrow>
         absent T (l # c) \<or> opts_out w \<and> opted_out T zone (l # c)"
    and "\<not> occluded T zone (l # c)"
proof -
  have zl: "suffix zone (l # c)" using zc by (simp add: suffix_Cons)
  have "(T (l # c) = {} \<or> opts_out w \<and> opted_out T zone (l # c))
      \<and> ((\<forall>(owner, item) \<in> set (de_nsec ev). \<not> suffix (l # c) (n_next item)) \<longrightarrow>
           absent T (l # c) \<or> opts_out w \<and> opted_out T zone (l # c))
      \<and> \<not> occluded T zone (l # c)"
    using tr cov
  proof (cases rule: cover_cases)
    case (nsec owner item)
    with covered_no_data [OF L nsec(4,5) zl] covered_absent [OF L nsec(4,5) zl]
      covered_not_occluded [OF L nsec(4,5) zl] show ?thesis by auto
  next
    case (nsec3 h item k)
    then obtain r where r: "exact_spec L ev c (Some r)" using known by blast
    from exact_nsec3 [OF tr r nsec3(1)] obtain h' item' where "r = By_nsec3 item'"
      "truthful_nsec3 L zone T h' item'" "hash_of L (n3_iterations item', n3_salt item') c = Inr h'" by metis
    moreover from this auth [OF r] have "authoritative (n3_windows item')" by (simp add: windows_of_def)
    ultimately have gap: "\<not> occluded T zone (l # c)"
      "absent T (l # c) \<or> odd (n3_flags item) \<and> opted_out T zone (l # c)"
      using hashed_gap_absent [of L zone T h' item' c h item l k] zc nsec3 by auto
    moreover have "absent T (l # c) \<longrightarrow> T (l # c) = {}" by (simp add: absent_def)
    ultimately show ?thesis using nsec3(3) by (auto simp: opts_out_def)
  qed
  then show "T (l # c) = {} \<or> opts_out w \<and> opted_out T zone (l # c)"
    and "(\<And>owner item. (owner, item) \<in> set (de_nsec ev) \<Longrightarrow> \<not> suffix (l # c) (n_next item)) \<Longrightarrow>
         absent T (l # c) \<or> opts_out w \<and> opted_out T zone (l # c)"
    and "\<not> occluded T zone (l # c)" by auto
qed

lemma opted_out_data: "opted_out T zone n \<Longrightarrow> \<not> occluded T zone n \<Longrightarrow> T n = {} \<or> insecure_delegation T n"
  by (auto simp: opted_out_def)

lemma absent_below: "absent T n \<Longrightarrow> suffix n m \<Longrightarrow> absent T m"
  unfolding absent_def by (meson suffix_order.trans)

lemma denies_types:
  assumes "\<And>t. has_type ws t \<longleftrightarrow> t \<in> T n" "denies_type ws t"
  shows "t \<notin> T n \<and> CNAME_type \<notin> T n"
proof -
  have "ws = [] \<Longrightarrow> \<not> has_type ws t'" for t' by (simp add: has_type_def)
  with assms(2) have "\<not> has_type ws t \<and> \<not> has_type ws CNAME_type"
    by (auto simp: denies_type_def split: if_splits)
  then show ?thesis unfolding assms(1) .
qed

text \<open>What each kind of proof claims, when no record that opts out was used.\<close>

definition denied :: "zone_types \<Rightarrow> name \<Rightarrow> rdtype \<Rightarrow> kind \<Rightarrow> name option \<Rightarrow> bool" where
  "denied T q t k closest =
     (case k of
        Nodata \<Rightarrow> t \<notin> T q \<and> CNAME_type \<notin> T q
      | Unsigned_delegation \<Rightarrow> insecure_delegation T q
      | Nxdomain \<Rightarrow> absent T q \<and> (\<exists>c. closest = Some c \<and> strict_suffix c q
          \<and> (T (star # c) = {} \<or> insecure_delegation T (star # c)))
      | Wildcard_nodata \<Rightarrow> absent T q \<and> (\<exists>c. closest = Some c \<and> strict_suffix c q
          \<and> t \<notin> T (star # c) \<and> CNAME_type \<notin> T (star # c))
      | Wildcard \<Rightarrow> (\<exists>c l. closest = Some c \<and> suffix (l # c) q \<and> T (l # c) = {}))"

text \<open>The part below an encloser that was found from the records.\<close>

lemma below_encloser_sound:
  assumes L: "names_ok L" and tr: "trusted_evidence L zone T ev" and memo: "memo_ok L ev s"
    and run: "prove_below L zone q t k ev (Some c) s = (Inr p, s')" and valid: "dp_valid p" "\<not> dp_opt_out p"
    and k: "k \<noteq> Wildcard" and c: "suffix zone c" "suffix c q"
    and known: "de_nsec ev = [] \<Longrightarrow> \<exists>r. exact_spec L ev c (Some r)"
    and apart: "\<And>owner item x. (owner, item) \<in> set (de_nsec ev) \<Longrightarrow> strict_suffix c x \<Longrightarrow> suffix x q \<Longrightarrow>
      \<not> suffix x (n_next item)"
  shows "denied T q t k (dp_closest p)"
proof -
  from prove_below_run [OF run memo valid(1)] obtain cov where neq: "c \<noteq> q" and closest: "dp_closest p = Some c"
    and auth: "\<And>r. exact_spec L ev c (Some r) \<Longrightarrow> authoritative (windows_of r)"
    and cov: "cover_spec L zone ev (last_labels (length c + 1) q) (Some cov)" and opt: "dp_opt_out p = opts_out cov"
    and other: "k = Unsigned_delegation \<or> k = Nodata \<Longrightarrow> dp_opt_out p"
    and nx: "k = Nxdomain \<Longrightarrow> \<exists>w. cover_spec L zone ev (star # c) (Some w)"
    and wn: "k = Wildcard_nodata \<Longrightarrow> \<exists>w. exact_spec L ev (star # c) (Some w) \<and> denies_type (windows_of w) t"
    by blast
  have cq: "strict_suffix c q" using c(2) neq by (simp add: strict_suffix_def)
  then obtain l where l: "last_labels (length c + 1) q = l # c" "suffix (l # c) q" by (rule next_closer)
  have apart': "\<not> suffix (l # c) (n_next item)" if "(owner, item) \<in> set (de_nsec ev)" for owner item
    using apart [OF that _ l(2)] by (simp add: strict_suffix_def suffix_def)
  have "absent T (l # c)"
    using child_covered(2) [OF L tr c(1) auth known cov [unfolded l(1)] apart'] opt valid(2) by auto
  then have gone: "absent T q" using l(2) by (rule absent_below)
  consider "k = Nxdomain" | "k = Wildcard_nodata" using k other valid(2) by (cases k) auto
  then show ?thesis
  proof cases
    case 1
    with nx obtain w where w: "cover_spec L zone ev (star # c) (Some w)" by blast
    from child_covered(1,3) [OF L tr c(1) auth known w] opted_out_data [of T zone "star # c"]
    have "T (star # c) = {} \<or> insecure_delegation T (star # c)" by auto
    with 1 gone closest cq show ?thesis by (simp add: denied_def)
  next
    case 2
    with wn obtain w where w: "exact_spec L ev (star # c) (Some w)" "denies_type (windows_of w) t" by blast
    from denies_types [of "windows_of w" T "star # c", OF exact_types(2) [OF tr w(1)] w(2)] 2 gone closest cq show ?thesis
      by (simp add: denied_def)
  qed
qed

lemma delegation_types:
  assumes "\<And>t. has_type ws t \<longleftrightarrow> t \<in> T n" "is_delegation ws"
  shows "insecure_delegation T n"
  using assms by (simp add: is_delegation_def insecure_delegation_def)

lemma bindM_step: "m s = (Inr x, s1) \<Longrightarrow> bindM m f s = f x s1"
  by (simp add: bindM_def)

lemma prove_absence_sound:
  assumes L: "names_ok L" and tr: "trusted_evidence L zone T ev" and memo: "memo_ok L ev s"
    and run: "prove_absence L zone q t k w ev s = (Inr p, s')" and valid: "dp_valid p" "\<not> dp_opt_out p"
    and k: "k \<noteq> Wildcard" and q: "suffix zone q"
  shows "denied T q t k (dp_closest p)"
proof -
  from run obtain e s1 where e: "exact_record L ev q s = (Inr e, s1)"
    by (auto simp: prove_absence_def bindM_result)
  from exact_run [OF e memo] memo have espec: "exact_spec L ev q e" and m1: "memo_ok L ev s1"
    by (auto simp: kept_def)
  show ?thesis
  proof (cases e)
    case (Some r)
    with espec have r: "exact_spec L ev q (Some r)" by simp
    from run e Some valid(1) have "k = Nodata \<and> denies_type (windows_of r) t \<or>
        k = Unsigned_delegation \<and> is_delegation (windows_of r)"
      by (auto simp: prove_absence_def bindM_result conclude_def ret_result split: if_splits)
    then show ?thesis
      using denies_types [of "windows_of r" T q, OF exact_types(2) [OF tr r]]
        delegation_types [of "windows_of r" T q, OF exact_types(2) [OF tr r]]
      by (auto simp: denied_def)
  next
    case None
    show ?thesis
    proof (cases "de_nsec ev = []")
      case True
      with run e None k obtain f s2 where f: "first_exact L ev (ancestors L q zone) s1 = (Inr f, s2)"
        and below: "prove_below L zone q t k ev f s2 = (Inr p, s')"
        by (auto simp: prove_absence_def bindM_result)
      from first_exact_run [OF f m1] m1 have m2: "memo_ok L ev s2"
        and known: "\<And>n. f = Some n \<Longrightarrow> n \<in> set (ancestors L q zone) \<and> (\<exists>r. exact_spec L ev n (Some r))"
        by (auto simp: kept_def)
      from below valid(1) obtain c where c: "f = Some c" by (rule prove_below_found)
      with known [OF c] set_ancestors [OF L, of c q zone] have "suffix zone c" "suffix c q"
        "\<exists>r. exact_spec L ev c (Some r)" by (auto simp: ancestors_def)
      with below_encloser_sound [OF L tr m2 below [unfolded c] valid k] True show ?thesis by simp
    next
      case False
      define existing where "existing = map fst (de_nsec ev) @ map (n_next \<circ> snd) (de_nsec ev)"
      define f where "f = find (\<lambda>n. list_ex (\<lambda>e. below L e n) existing) (ancestors L q zone)"
      have run': "(if f = Some q
              then if k = Nodata
                   then bindM (covering_record L zone ev q) (\<lambda>c. conclude ev (c \<noteq> None) False f None)
                   else conclude ev False False f None
              else prove_below L zone q t k ev f) s1 = (Inr p, s')"
        using run False k unfolding prove_absence_def bindM_step [of "exact_record L ev q", OF e] None
        by (simp only: option.case if_False if_True Let_def f_def existing_def not_False_eq_True)
      show ?thesis
      proof (cases "f = Some q")
        case True
        with run' valid(1) obtain c s2 where "k = Nodata" and c: "covering_record L zone ev q s1 = (Inr (Some c), s2)"
          by (auto simp: bindM_result conclude_def ret_result split: if_splits)
        from cover_run [OF c m1] have "cover_spec L zone ev q (Some c)" by simp
        from cover_cases [OF tr this] False covered_no_data [OF L _ _ q] have "T q = {}" by metis
        with \<open>k = Nodata\<close> show ?thesis by (simp add: denied_def)
      next
        case other: False
        with run' have below: "prove_below L zone q t k ev f s1 = (Inr p, s')" by simp
        from below valid(1) obtain c where c: "f = Some c" by (rule prove_below_found)
        have "suffix zone c \<and> suffix c q \<and> (\<forall>x. strict_suffix c x \<longrightarrow> suffix x q \<longrightarrow>
            \<not> list_ex (\<lambda>e. below L e x) existing)"
          using find_ancestor [OF L c [unfolded f_def ancestors_def]] by blast
        then have "suffix zone c" "suffix c q"
          and away: "\<And>x e. strict_suffix c x \<Longrightarrow> suffix x q \<Longrightarrow> e \<in> set existing \<Longrightarrow> \<not> suffix x e"
          by (auto simp: list_ex_iff below_suffix [OF L])
        moreover have "n_next item \<in> set existing" if "(owner, item) \<in> set (de_nsec ev)" for owner item
          using that by (force simp: existing_def)
        ultimately show ?thesis
          using below_encloser_sound [OF L tr m1 below [unfolded c] valid k] False by blast
      qed
    qed
  qed
qed

lemma gathered:
  assumes "validate_denial L q t k evidence keys now w b = (Inr p, b')" "dp_valid p" "honest_zone L keys now T evidence"
  obtains ev s s' where "prove_absence L (rr_name keys) q t k w ev s = (Inr p, s')" "memo_ok L ev s"
    "trusted_evidence L (rr_name keys) T ev" "below L q (rr_name keys)"
proof -
  from assms(1) obtain ev b1 where ev: "foldM (add_evidence L keys now) no_evidence evidence b = (Inr ev, b1)"
    and scope: "below L q (rr_name keys)"
    by (auto simp: validate_denial_def Let_def bindM_result lift_result split: if_splits)
  with assms(1,2) obtain s' where
    "prove_absence L (rr_name keys) q t k w ev \<lparr>ps_remaining = b1, ps_hashes = []\<rparr> = (Inr p, s')"
    by (auto simp: validate_denial_def Let_def bindM_result lift_result conclude_def ret_def split: if_splits prod.splits)
  moreover have "evidence_ok L keys now evidence no_evidence" by (simp add: evidence_ok_def no_evidence_def)
  with gather_ok [OF ev] have "evidence_ok L keys now evidence ev" by simp
  with assms(3) have "trusted_evidence L (rr_name keys) T ev" by (rule evidence_trusted [rotated])
  ultimately show thesis using that scope by (auto simp: memo_ok_def)
qed

text \<open>C9: A valid proof of nonexistence is true. If the owner of the zone's keys signs only NSEC and NSEC3
  records that agree with the zone, then whatever evidence an attacker selects, a proof that is valid
  without opt-out denies what its kind claims: for \<open>nxdomain\<close> no records exist at the name or below it and
  none at the wildcard below the closest encloser (but for a delegation without DS), for \<open>nodata\<close> the name
  has neither the type nor an alias, for \<open>wildcard_nodata\<close> the name is absent and the wildcard lacks the type,
  for an unsigned delegation the name is delegated without DS.\<close>

theorem denial_sound:
  assumes "names_ok L" "validate_denial L q t k evidence keys now w b = (Inr p, b')"
    and "dp_valid p" "\<not> dp_opt_out p" "honest_zone L keys now T evidence" "k \<noteq> Wildcard"
  shows "denied T q t k (dp_closest p)"
proof -
  from assms(2,3,5) obtain ev s s' where "prove_absence L (rr_name keys) q t k w ev s = (Inr p, s')"
    "memo_ok L ev s" "trusted_evidence L (rr_name keys) T ev" "below L q (rr_name keys)" by (rule gathered)
  with prove_absence_sound [of L "rr_name keys" T ev s q t k w p s'] assms show ?thesis
    by (simp add: below_suffix)
qed

text \<open>For an expanded wildcard the proof shows less: the name one label below the wildcard's parent has no
  records of its own. With NSEC3 nothing exists below it either.\<close>

lemma wildcard_sound:
  assumes L: "names_ok L" and run: "validate_denial L q t Wildcard evidence keys now (Some w) b = (Inr p, b')"
    and valid: "dp_valid p" "\<not> dp_opt_out p" and honest: "honest_zone L keys now T evidence"
    and w: "\<not> occluded T (rr_name keys) w" "absolute L w"
  shows "denied T q t Wildcard (dp_closest p)"
proof -
  let ?zone = "rr_name keys"
  from run valid(1) honest obtain ev s s' where run': "prove_absence L ?zone q t Wildcard (Some w) ev s = (Inr p, s')"
    and memo: "memo_ok L ev s" and tr: "trusted_evidence L ?zone T ev" and q: "below L q ?zone" by (rule gathered)
  from run' obtain e s1 where e: "exact_record L ev q s = (Inr e, s1)" by (auto simp: prove_absence_def bindM_result)
  from exact_run [OF e memo] memo have m1: "memo_ok L ev s1" by (auto simp: kept_def)
  from run' e valid(1) have scope: "hd w = star" "below L w ?zone" "q \<noteq> w" "below L q (parent L w)"
    and below: "prove_below L ?zone q t Wildcard ev (Some (parent L w)) s1 = (Inr p, s')"
    by (auto simp: prove_absence_def bindM_result conclude_def ret_result split: option.splits if_splits)
  let ?c = "parent L w"
  from prove_below_run [OF below m1 valid(1)] obtain cov where neq: "?c \<noteq> q" and closest: "dp_closest p = Some ?c"
    and cov: "cover_spec L ?zone ev (last_labels (length ?c + 1) q) (Some cov)" and opt: "dp_opt_out p = opts_out cov"
    by blast
  have cq: "strict_suffix ?c q" using scope(4) neq by (simp add: below_suffix [OF L] strict_suffix_def)
  then obtain l where l: "last_labels (length ?c + 1) q = l # ?c" "suffix (l # ?c) q" by (rule next_closer)
  have wc: "w = star # ?c" and "suffix ?zone w"
  proof -
    from w(2) scope(1) obtain n where "w = star # n" "n \<noteq> []"
      by (cases w; cases "tl w") (auto simp: absolute_iff [OF L] star_def)
    with parent_Cons [OF L] show "w = star # ?c" by simp
  qed (use scope(2) in \<open>simp add: below_suffix [OF L]\<close>)
  then have "length ?zone \<le> length (l # ?c)" by (metis length_Cons suffix_length_le)
  moreover have "suffix ?zone q" using q by (simp add: below_suffix [OF L])
  ultimately have zl: "suffix ?zone (l # ?c)"
    using l(2) suffix_length_suffix by blast
  have clear: "\<not> occluded T ?zone (l # ?c)"
  proof
    assume "occluded T ?zone (l # ?c)"
    then obtain d where "suffix ?zone d" "strict_suffix d (l # ?c)" "zone_cut T d" by (auto simp: occluded_def)
    moreover from this have "strict_suffix d (star # ?c)" by (auto simp: strict_suffix_def suffix_Cons dest: suffix_length_le)
    ultimately show False using w(1) wc by (auto simp: occluded_def)
  qed
  have "T (l # ?c) = {}"
    using tr cov [unfolded l(1)]
  proof (cases rule: cover_cases)
    case (nsec owner item)
    with covered_no_data [OF L nsec(4,5) zl] show ?thesis by simp
  next
    case (nsec3 h item k)
    with opt valid(2) zl clear have "absent T (l # ?c)"
      unfolding truthful_nsec3_def Let_def opts_out_def by auto
    then show ?thesis by (simp add: absent_def)
  qed
  with closest l(2) show ?thesis by (auto simp: denied_def)
qed

end
