(* ===== verification/Denial_Demo.thy ===== *)
theory Denial_Demo
  imports Denial_Facts
begin

text \<open>
  A zone with two names, evidence that denies a third one, and a zone in which an expanded wildcard
  is accepted for a name that exists.
\<close>

lemma has_type_window:
  assumes "length bitmap \<le> 32"
    and "\<forall>t \<in> {0..<8 * length bitmap}. has_type [(0, bitmap)] t \<longleftrightarrow> t \<in> S" "\<forall>t \<in> S. t < 8 * length bitmap"
  shows "has_type [(0, bitmap)] t \<longleftrightarrow> t \<in> S"
proof (cases "t < 8 * length bitmap")
  case False
  then have "\<not> (t div 256 = 0 \<and> t mod 256 div 8 < length bitmap)" by (auto simp: div_eq_0_iff)
  with False assms(3) show ?thesis by (auto simp: has_type_def)
qed (use assms(2) in simp)

lemmas proof_evals = validate_denial_def prove_absence_def exact_record_def ancestors_def prove_below_def conclude_def
  covering_record_def authoritative_def windows_of_def nsec_covers_def last_labels_def canonical_before_def opts_out_def
  add_evidence_def add_nsec_def has_direct_path_def no_evidence_def suffix_Cons star_def bindM_def ret_def lift_def
  Let_def

definition demo_zone :: name where "demo_zone = [''example'', '''']"

definition demo_types :: zone_types where
  "demo_types n =
     (if n = demo_zone then {NS_type, SOA_type, RRSIG_type, NSEC_type}
      else if n = ''www'' # demo_zone then {A_type, RRSIG_type, NSEC_type} else {})"

definition demo_nsec :: nsec where
  "demo_nsec = \<lparr>n_next = ''www'' # demo_zone, n_windows = [(0, [CHR 0x22, CHR 0x00, CHR 0x00, CHR 0x00, CHR 0x00, CHR 0x03])]\<rparr>"

definition demo_evidence :: "(rrset \<times> rrset option) list" where
  "demo_evidence = [(demo_set demo_zone NSEC_type 0 [Nsec demo_nsec], Some (demo_sig demo_zone NSEC_type 1 demo_zone))]"

lemma less_48: "{0..<48} = set [0..<48 :: nat]" by simp

lemma demo_bitmap: "has_type (n_windows demo_nsec) t \<longleftrightarrow> t \<in> {NS_type, SOA_type, RRSIG_type, NSEC_type}"
  unfolding demo_nsec_def nsec.simps
  by (rule has_type_window) (simp, simp add: less_48 upt_rec has_type_def rdtypes, simp add: rdtypes)

lemma demo_gathered:
  "foldM (add_evidence demo_lib (demo_keys demo_zone) 1500) no_evidence demo_evidence 128 =
   (Inr \<lparr>de_checks = [empty_check\<lparr>sc_verified := [\<lparr>vs_signature = hd (rrsigs (demo_sig demo_zone NSEC_type 1 demo_zone)),
            vs_key = demo_key, vs_wildcard = False\<rparr>]\<rparr>],
      de_nsec = [(demo_zone, demo_nsec)], de_nsec3 = [], de_parameters = None, de_malformed = False\<rparr>, 127)"
  by (simp add: demo_evidence_def proof_evals check_evals demo_evals rdtypes demo_zone_def demo_nsec_def)

lemma demo_nxdomain:
  "\<exists>p. validate_denial demo_lib (''a'' # demo_zone) A_type Nxdomain demo_evidence (demo_keys demo_zone) 1500 None 128 = (Inr p, 127)
     \<and> dp_valid p \<and> \<not> dp_opt_out p"
proof -
  have scope: "absolute demo_lib (''a'' # demo_zone)" "below demo_lib (''a'' # demo_zone) (rr_name (demo_keys demo_zone))"
    "length demo_evidence \<le> 64" "rr_name (demo_keys demo_zone) = demo_zone"
    by (simp_all add: demo_zone_def demo_evals demo_evidence_def suffix_Cons)
  show ?thesis
    using scope by (simp add: validate_denial_def Let_def bindM_def demo_gathered)
      (simp add: proof_evals has_type_def rdtypes demo_zone_def demo_nsec_def)
qed

text \<open>A record for a zone without delegations is truthful when its bitmap is that of the owner and no
  name of the zone lies in its gap.\<close>

lemma truthful_without_cuts:
  assumes "\<And>n. \<not> zone_cut T n" "suffix zone owner" "\<And>t. has_type (n_windows item) t \<longleftrightarrow> t \<in> T owner"
    and "\<And>n. T n \<noteq> {} \<Longrightarrow> \<not> in_gap L zone owner (n_next item) n"
  shows "truthful_nsec L zone T owner item"
  using assms by (auto simp: truthful_nsec_def occluded_def)

lemma demo_honest: "honest_zone demo_lib (demo_keys demo_zone) 1500 demo_types demo_evidence"
proof -
  have "truthful_nsec demo_lib demo_zone demo_types demo_zone demo_nsec"
  proof (rule truthful_without_cuts)
    show "\<not> zone_cut demo_types n" for n by (simp add: zone_cut_def demo_types_def rdtypes)
    show "has_type (n_windows demo_nsec) t \<longleftrightarrow> t \<in> demo_types demo_zone" for t
      unfolding demo_bitmap by (simp add: demo_types_def)
    show "\<not> in_gap demo_lib demo_zone demo_zone (n_next demo_nsec) n" if "demo_types n \<noteq> {}" for n
      using that by (auto simp: in_gap_def demo_types_def demo_nsec_def split: if_splits)
  qed simp
  then show ?thesis by (simp add: honest_zone_def demo_evidence_def demo_evals)
qed

text \<open>The name \<open>a.example\<close> is proved absent.\<close>

lemma denial_sound_witness:
  "denied demo_types (''a'' # demo_zone) A_type Nxdomain (Some demo_zone)"
proof -
  from demo_nxdomain obtain p where run: "validate_denial demo_lib (''a'' # demo_zone) A_type Nxdomain
      demo_evidence (demo_keys demo_zone) 1500 None 128 = (Inr p, 127)"
    and p: "dp_valid p" "\<not> dp_opt_out p" by blast
  have "denied demo_types (''a'' # demo_zone) A_type Nxdomain (dp_closest p)"
    by (rule denial_sound [OF demo_names_ok run p demo_honest]) simp
  then obtain c where "absent demo_types (''a'' # demo_zone)" "dp_closest p = Some c"
    "strict_suffix c (''a'' # demo_zone)" "demo_types (star # c) = {} \<or> insecure_delegation demo_types (star # c)"
    by (auto simp: denied_def)
  then show ?thesis
    by (auto simp: denied_def strict_suffix_def demo_types_def demo_zone_def star_def suffix_def)
qed

section \<open>An expanded wildcard for a name that exists\<close>

text \<open>\<open>www.corp.example\<close> exists, \<open>corp.example\<close> has no records, and \<open>*.example\<close> is a wildcard.\<close>

definition corp_types :: zone_types where
  "corp_types n =
     (if n = demo_zone then {NS_type, SOA_type, RRSIG_type, NSEC_type}
      else if n = star # demo_zone \<or> n = ''www'' # ''corp'' # demo_zone then {A_type, RRSIG_type, NSEC_type} else {})"

definition corp_nsec :: nsec where
  "corp_nsec = \<lparr>n_next = ''www'' # ''corp'' # demo_zone,
                n_windows = [(0, [CHR 0x40, CHR 0x00, CHR 0x00, CHR 0x00, CHR 0x00, CHR 0x03])]\<rparr>"

definition corp_evidence :: "(rrset \<times> rrset option) list" where
  "corp_evidence = [(demo_set (star # demo_zone) NSEC_type 0 [Nsec corp_nsec],
                     Some (demo_sig (star # demo_zone) NSEC_type 1 demo_zone))]"

lemma corp_honest: "honest_zone demo_lib (demo_keys demo_zone) 1500 corp_types corp_evidence"
proof -
  have bitmap: "has_type (n_windows corp_nsec) t \<longleftrightarrow> t \<in> {A_type, RRSIG_type, NSEC_type}" for t
    unfolding corp_nsec_def nsec.simps
    by (rule has_type_window) (simp, simp add: less_48 upt_rec has_type_def rdtypes, simp add: rdtypes)
  have "truthful_nsec demo_lib demo_zone corp_types (star # demo_zone) corp_nsec"
  proof (rule truthful_without_cuts)
    show "\<not> zone_cut corp_types n" for n by (simp add: zone_cut_def corp_types_def rdtypes)
    show "has_type (n_windows corp_nsec) t \<longleftrightarrow> t \<in> corp_types (star # demo_zone)" for t
      unfolding bitmap by (simp add: corp_types_def demo_zone_def)
    show "\<not> in_gap demo_lib demo_zone (star # demo_zone) (n_next corp_nsec) n" if "corp_types n \<noteq> {}" for n
      using that by (auto simp: in_gap_def corp_types_def corp_nsec_def canonical_before_def demo_zone_def star_def
          split: if_splits)
  qed (simp add: suffix_Cons)
  then show ?thesis by (simp add: honest_zone_def corp_evidence_def demo_evals)
qed

lemma corp_gathered:
  "foldM (add_evidence demo_lib (demo_keys demo_zone) 1500) no_evidence corp_evidence 128 =
   (Inr \<lparr>de_checks = [empty_check\<lparr>sc_verified := [\<lparr>vs_signature = hd (rrsigs (demo_sig (star # demo_zone) NSEC_type 1 demo_zone)),
            vs_key = demo_key, vs_wildcard = False\<rparr>]\<rparr>],
      de_nsec = [(star # demo_zone, corp_nsec)], de_nsec3 = [], de_parameters = None, de_malformed = False\<rparr>, 127)"
  by (simp add: corp_evidence_def proof_evals check_evals demo_evals rdtypes demo_zone_def corp_nsec_def)

text \<open>C10: An NSEC proof for an expanded wildcard does not show that the name does not exist. The zone is
  honest, the name has an address of its own two labels below the wildcard's parent, and the record at the
  wildcard, whose gap contains the empty name in between and ends at the name itself, is accepted as proof
  that the wildcard may answer for the name.\<close>

theorem nsec_wildcard_for_existing_name:
  "honest_zone demo_lib (demo_keys demo_zone) 1500 corp_types corp_evidence
   \<and> A_type \<in> corp_types (''www'' # ''corp'' # demo_zone)
   \<and> (\<exists>p. validate_denial demo_lib (''www'' # ''corp'' # demo_zone) A_type Wildcard corp_evidence (demo_keys demo_zone) 1500
          (Some (star # demo_zone)) 128 = (Inr p, 127) \<and> dp_valid p \<and> \<not> dp_opt_out p)"
proof (intro conjI)
  show "honest_zone demo_lib (demo_keys demo_zone) 1500 corp_types corp_evidence" by (rule corp_honest)
  let ?q = "''www'' # ''corp'' # demo_zone"
  have scope: "absolute demo_lib ?q" "below demo_lib ?q (rr_name (demo_keys demo_zone))"
    "length corp_evidence \<le> 64" "rr_name (demo_keys demo_zone) = demo_zone"
    by (simp_all add: demo_zone_def demo_evals corp_evidence_def suffix_Cons)
  show "\<exists>p. validate_denial demo_lib ?q A_type Wildcard corp_evidence (demo_keys demo_zone) 1500
          (Some (star # demo_zone)) 128 = (Inr p, 127) \<and> dp_valid p \<and> \<not> dp_opt_out p"
    using scope by (simp add: validate_denial_def Let_def bindM_def corp_gathered)
      (simp add: proof_evals has_type_def rdtypes demo_zone_def corp_nsec_def)
qed (simp add: corp_types_def demo_zone_def star_def)

end
