(* ===== verification/Dns_Resolution.thy ===== *)
theory Dns_Resolution
  imports Dns_Evidence Destinations Effect_Logic
begin

text \<open>
  Acquisition of DNS evidence, \<open>ads_sandbox_egress/resolution.py\<close>: one bounded exchange with the
  configured upstreams, the inspection of everything received, and the pursuit of aliases and services.

  The network and the clocks are the environment: what comes back for the n-th query sent and what
  the n-th reading of a clock shows are arbitrary. A query ends in a message, an error that the loop
  over the upstreams catches, a refusal by the decoder, or the cancellation by a deadline above.
\<close>

section \<open>Messages\<close>

datatype flag = QR | AA | TC | RD | RA | AD | CD

datatype edns_option = Ede nat string | Other_option nat bytes

record dns_message =
  m_flags :: "flag set"
  m_opcode :: nat
  m_rcode :: nat
  m_question :: "rrset list"
  m_answer :: "rrset list"
  m_authority :: "rrset list"
  m_additional :: "rrset list"
  m_edns :: int
  m_do :: bool
  m_payload :: nat
  m_options :: "edns_option list"

definition NOERROR :: nat where "NOERROR = 0"
definition SERVFAIL :: nat where "SERVFAIL = 2"
definition NXDOMAIN :: nat where "NXDOMAIN = 3"

lemmas rcodes [eval_simps] = NOERROR_def SERVFAIL_def NXDOMAIN_def

record resolution_limits =
  l_deadline :: rat
  l_exchange :: rat
  l_subqueries :: nat
  l_aliases :: nat
  l_endpoints :: nat

definition limits_post_init :: "resolution_limits \<Rightarrow> error + resolution_limits" where
  "limits_post_init l =
     (if 0 < l_exchange l \<and> l_exchange l \<le> l_deadline l \<and> l_deadline l \<le> 60
         \<and> 1 \<le> l_subqueries l \<and> l_subqueries l \<le> 256 \<and> 1 \<le> l_aliases l \<and> l_aliases l \<le> 64
         \<and> 1 \<le> l_endpoints l \<and> l_endpoints l \<le> 64
      then Inr l else Inl (ValueError ''invalid DNS resolution limits''))"

record dns_resolver =
  r_boundary :: resolver_boundary
  r_limits :: resolution_limits

record query =
  q_name :: name
  q_type :: rdtype
  q_dnssec :: bool

datatype net_reply = Reply dns_message | Net_error | Refused string | Cancelled

text \<open>The job of a resolution and its budget, the clocks, the network and what was sent.\<close>

record net_world =
  remaining :: int
  subqueries :: nat
  endpoints :: nat
  job_deadline :: rat
  monotonic :: "nat \<Rightarrow> rat"
  monotonic_reads :: nat
  wall :: "nat \<Rightarrow> rat"
  wall_reads :: nat
  network :: "nat \<Rightarrow> net_reply"
  sent :: "(query \<times> ip_address \<times> bool) list"

definition read_monotonic :: "(net_world, rat) eff" where
  "read_monotonic w = (Inr (monotonic w (monotonic_reads w)), w\<lparr>monotonic_reads := monotonic_reads w + 1\<rparr>)"

definition read_wall :: "(net_world, rat) eff" where
  "read_wall w = (Inr (wall w (wall_reads w)), w\<lparr>wall_reads := wall_reads w + 1\<rparr>)"

definition on_budget :: "(int, 'a) eff \<Rightarrow> (net_world, 'a) eff" where
  "on_budget m w = (case m (remaining w) of (r, b) \<Rightarrow> (r, w\<lparr>remaining := b\<rparr>))"

section \<open>Inspection\<close>

definition resolver_name :: "dns_lib \<Rightarrow> dns_resolver \<Rightarrow> name \<Rightarrow> error + unit" where
  "resolver_name L r n =
     (if \<not> absolute L n then Inl (RequestDenied ''relative_dns_evidence'')
      else
        let text = (if n = root then ''.'' else join_with (CHR ''.'') (butlast n)) in
        if \<not> list_all is_ascii text then Inl (RequestDenied ''unsupported_dns_name'')
        else bindE (check_name (r_boundary r) text) (\<lambda>_. Inr ()))"

definition record_addresses :: "rdata \<Rightarrow> string list" where
  "record_addresses rd = (case rd of Address4 a \<Rightarrow> [a] | Address6 a \<Rightarrow> [a] | _ \<Rightarrow> [])"

definition record_targets :: "rdata \<Rightarrow> name list" where
  "record_targets rd =
     (case rd of Cname t \<Rightarrow> [t] | Dname t \<Rightarrow> [t] | Service _ t _ \<Rightarrow> [t] | Names ts _ \<Rightarrow> ts | _ \<Rightarrow> [])"

definition record_hints :: "rdata \<Rightarrow> string list" where
  "record_hints rd = (case rd of Service _ _ hints \<Rightarrow> hints | _ \<Rightarrow> [])"

definition check_public :: "dns_resolver \<Rightarrow> unit \<Rightarrow> string \<Rightarrow> error + unit" where
  "check_public r _ a = bindE (require_public (addresses (r_boundary r)) a False) (\<lambda>_. Inr ())"

definition inspect_record :: "dns_lib \<Rightarrow> dns_resolver \<Rightarrow> unit \<Rightarrow> rdata \<Rightarrow> error + unit" where
  "inspect_record L r _ rd =
     bindE (foldE (check_public r) () (record_addresses rd)) (\<lambda>_.
     bindE (foldE (\<lambda>_. resolver_name L r) () (record_targets rd)) (\<lambda>_.
     foldE (check_public r) () (record_hints rd)))"

definition inspect_rrset :: "dns_lib \<Rightarrow> dns_resolver \<Rightarrow> unit \<Rightarrow> rrset \<Rightarrow> error + unit" where
  "inspect_rrset L r _ s =
     bindE (resolver_name L r (rr_name s)) (\<lambda>_. foldE (inspect_record L r) () (rr_items s))"

definition inspect :: "dns_lib \<Rightarrow> dns_resolver \<Rightarrow> dns_message \<Rightarrow> error + unit" where
  "inspect L r m = foldE (inspect_rrset L r) () (m_answer m @ m_authority m @ m_additional m)"

section \<open>One exchange\<close>

text \<open>One query to one upstream: \<open>None\<close> when the loop goes on to the next one.\<close>

definition transmit :: "dns_resolver \<Rightarrow> query \<Rightarrow> ip_address \<Rightarrow> bool \<Rightarrow> (net_world, dns_message option) eff" where
  "transmit r q upstream tcp w =
     (let w1 = w\<lparr>subqueries := subqueries w + 1\<rparr> in
      if subqueries w1 > l_subqueries (r_limits r) then (Inl (RequestDenied ''dns_subquery_limit''), w1)
      else bindM read_monotonic (\<lambda>now w2.
        if job_deadline w2 - now \<le> 0 then (Inl (RequestDenied ''dns_resolution_deadline''), w2)
        else
          let w3 = w2\<lparr>sent := sent w2 @ [(q, upstream, tcp)]\<rparr> in
          case network w2 (length (sent w2)) of
            Reply m \<Rightarrow> (Inr (Some m), w3)
          | Net_error \<Rightarrow> (Inr None, w3)
          | Refused reason \<Rightarrow> (Inl (RequestDenied reason), w3)
          | Cancelled \<Rightarrow> (Inl (OtherError ''CancelledError''), w3)) w1)"

text \<open>An answer that came back whole: a failure of any but the last upstream is passed over.\<close>

definition accept_reply ::
  "dns_resolver \<Rightarrow> ip_address \<Rightarrow> (net_world, dns_message) eff \<Rightarrow> dns_message \<Rightarrow> (net_world, dns_message) eff" where
  "accept_reply r u rest m =
     (if m_rcode m \<notin> {NOERROR, NXDOMAIN} \<and> u \<noteq> last (upstreams (r_boundary r)) then rest else ret m)"

definition retry_by_tcp ::
  "dns_lib \<Rightarrow> dns_resolver \<Rightarrow> query \<Rightarrow> ip_address \<Rightarrow> (net_world, dns_message) eff \<Rightarrow> (net_world, dns_message) eff" where
  "retry_by_tcp L r q u rest =
     bindM (transmit r q u True) (\<lambda>reply.
       case reply of
         None \<Rightarrow> rest
       | Some m \<Rightarrow>
           bindM (lift (inspect L r m)) (\<lambda>_.
             if TC \<in> m_flags m then throw (RequestDenied ''dns_truncated_tcp'') else accept_reply r u rest m))"

fun ask_upstreams :: "dns_lib \<Rightarrow> dns_resolver \<Rightarrow> query \<Rightarrow> ip_address list \<Rightarrow> (net_world, dns_message) eff" where
  "ask_upstreams L r q [] = throw (RequestDenied ''dns_upstream_unavailable'')"
| "ask_upstreams L r q (u # us) =
     bindM (transmit r q u False) (\<lambda>reply.
       case reply of
         None \<Rightarrow> ask_upstreams L r q us
       | Some m \<Rightarrow>
           bindM (lift (inspect L r m)) (\<lambda>_.
             if TC \<in> m_flags m then retry_by_tcp L r q u (ask_upstreams L r q us)
             else accept_reply r u (ask_upstreams L r q us) m))"

definition exchange :: "dns_lib \<Rightarrow> dns_resolver \<Rightarrow> name \<Rightarrow> rdtype \<Rightarrow> bool \<Rightarrow> (net_world, dns_message) eff" where
  "exchange L r n t want_dnssec =
     bindM (lift (resolver_name L r n)) (\<lambda>_.
       ask_upstreams L r \<lparr>q_name = n, q_type = t, q_dnssec = want_dnssec\<rparr> (upstreams (r_boundary r)))"

section \<open>Pursuit of aliases and services\<close>

text \<open>An expiry is a time, or \<open>None\<close> for infinity.\<close>

definition soonest :: "rat option \<Rightarrow> rat option \<Rightarrow> rat option" where
  "soonest a b = (case (a, b) of (None, y) \<Rightarrow> y | (x, None) \<Rightarrow> x | (Some x, Some y) \<Rightarrow> Some (min x y))"

record acquired_service =
  as_owner :: name
  as_target :: name
  as_record :: rdata
  as_addresses :: "ip_address set"
  as_expires :: "rat option"
  as_fallback :: bool

record acquisition =
  aq_world :: net_world
  aq_messages :: "dns_message list"
  aq_received :: "rat list"
  aq_addresses :: "ip_address set"
  aq_services :: "acquired_service list"

definition at_world :: "(net_world, 'a) eff \<Rightarrow> (acquisition, 'a) eff" where
  "at_world m s = (case m (aq_world s) of (r, w) \<Rightarrow> (r, s\<lparr>aq_world := w\<rparr>))"

record findings =
  fi_resolved :: "ip_address set"
  fi_expires :: "rat option"
  fi_next :: "name option"
  fi_services :: "rdata list"

definition note_alias :: "name \<Rightarrow> rat option \<Rightarrow> findings \<Rightarrow> error + findings" where
  "note_alias target until f =
     (if fi_next f \<noteq> None \<and> fi_next f \<noteq> Some target then Inl (RequestDenied ''conflicting_dns_alias'')
      else Inr (f\<lparr>fi_next := Some target, fi_expires := soonest (fi_expires f) until\<rparr>))"

definition note_record ::
  "dns_lib \<Rightarrow> dns_resolver \<Rightarrow> name \<Rightarrow> rdtype \<Rightarrow> rat \<Rightarrow> rrset \<Rightarrow> findings \<Rightarrow> rdata \<Rightarrow> error + findings" where
  "note_record L r current kind now s f rd =
     (let here = rr_name s = current; asked = here \<and> rr_type s = kind;
          until = Some (now + of_nat (rr_ttl s));
          address = (\<lambda>a. bindE (require_public (addresses (r_boundary r)) a False) (\<lambda>ip.
            Inr (f\<lparr>fi_resolved := insert ip (fi_resolved f), fi_expires := soonest (fi_expires f) until\<rparr>)))
      in case rd of
           Address4 a \<Rightarrow> if asked then address a else Inr f
         | Address6 a \<Rightarrow> if asked then address a else Inr f
         | Cname target \<Rightarrow> if here \<and> kind \<noteq> CNAME_type then note_alias target until f else Inr f
         | Dname target \<Rightarrow>
             if current \<noteq> rr_name s \<and> below L current (rr_name s)
             then (case concatenate L (relativize L current (rr_name s)) target of
                     None \<Rightarrow> Inl (OtherError ''NameTooLong'')
                   | Some redirected \<Rightarrow> note_alias redirected until f)
             else Inr f
         | Service _ _ _ \<Rightarrow>
             if asked then Inr (f\<lparr>fi_services := fi_services f @ [rd], fi_expires := soonest (fi_expires f) until\<rparr>)
             else Inr f
         | _ \<Rightarrow> Inr f)"

definition note_rrset ::
  "dns_lib \<Rightarrow> dns_resolver \<Rightarrow> name \<Rightarrow> rdtype \<Rightarrow> rat \<Rightarrow> findings \<Rightarrow> rrset \<Rightarrow> error + findings" where
  "note_rrset L r current kind now f s = foldE (note_record L r current kind now s) f (rr_items s)"

definition count_endpoint :: "dns_resolver \<Rightarrow> (acquisition, unit) eff" where
  "count_endpoint r s =
     (let w = aq_world s; s' = s\<lparr>aq_world := w\<lparr>endpoints := endpoints w + 1\<rparr>\<rparr> in
      if endpoints (aq_world s') > l_endpoints (r_limits r) then (Inl (RequestDenied ''dns_endpoint_limit''), s')
      else (Inr (), s'))"

definition is_alias :: "rdata \<Rightarrow> bool" where
  "is_alias rd = (case rd of Service priority _ _ \<Rightarrow> priority = 0 | _ \<Rightarrow> False)"

definition service_target :: "rdata \<Rightarrow> name" where
  "service_target rd = (case rd of Service _ target _ \<Rightarrow> target | _ \<Rightarrow> root)"

type_synonym pursuit =
  "name \<Rightarrow> rdtype \<Rightarrow> name set \<Rightarrow> nat \<Rightarrow> rat option \<Rightarrow> rdata option \<Rightarrow> (acquisition, ip_address set \<times> rat option) eff"

text \<open>The two address families of a target, each a branch of its own; an upstream that does not answer is skipped.\<close>

definition family_branch ::
  "pursuit \<Rightarrow> name \<Rightarrow> nat \<Rightarrow> rat option \<Rightarrow> ip_address set \<times> rat option \<Rightarrow> rdtype
   \<Rightarrow> (acquisition, ip_address set \<times> rat option) eff" where
  "family_branch follow target depth expires found family =
     catchE
       (bindM (follow target family {} depth expires None) (\<lambda>(branch, branch_expiry).
          ret (fst found \<union> branch, if branch \<noteq> {} then soonest (snd found) branch_expiry else snd found)))
       (\<lambda>e. if e = RequestDenied ''dns_upstream_unavailable'' then ret found else throw e)"

definition add_service :: "acquired_service \<Rightarrow> (acquisition, unit) eff" where
  "add_service service s =
     (Inr (), s\<lparr>aq_addresses := aq_addresses s \<union> as_addresses service, aq_services := aq_services s @ [service]\<rparr>)"

definition follow_alias ::
  "dns_resolver \<Rightarrow> pursuit \<Rightarrow> rdtype \<Rightarrow> name set \<Rightarrow> nat \<Rightarrow> ip_address set \<times> rat option \<Rightarrow> rdata
   \<Rightarrow> (acquisition, ip_address set \<times> rat option) eff" where
  "follow_alias r follow kind visited depth found rd =
     bindM (count_endpoint r) (\<lambda>_.
       if service_target rd \<noteq> root
       then bindM (follow (service_target rd) kind visited (depth + 1) (snd found) (Some rd)) (\<lambda>(branch, expiry).
              ret (fst found \<union> branch, soonest (snd found) expiry))
       else ret found)"

definition follow_service ::
  "dns_resolver \<Rightarrow> pursuit \<Rightarrow> name \<Rightarrow> nat \<Rightarrow> rat option \<Rightarrow> unit \<Rightarrow> rdata \<Rightarrow> (acquisition, unit) eff" where
  "follow_service r follow current depth expires _ rd =
     bindM (count_endpoint r) (\<lambda>_.
       let target = (if service_target rd = root then current else service_target rd) in
       bindM (foldM (family_branch follow target depth expires) ({}, expires) [A_type, AAAA_type]) (\<lambda>(found, expiry).
         add_service \<lparr>as_owner = current, as_target = target, as_record = rd, as_addresses = found,
                      as_expires = expiry, as_fallback = False\<rparr>))"

definition follow_fallback ::
  "dns_resolver \<Rightarrow> pursuit \<Rightarrow> name \<Rightarrow> nat \<Rightarrow> rat option \<Rightarrow> rdata \<Rightarrow> (acquisition, unit) eff" where
  "follow_fallback r follow current depth expires rd =
     bindM (count_endpoint r) (\<lambda>_.
       bindM (foldM (family_branch follow current depth expires) ({}, expires) [A_type, AAAA_type]) (\<lambda>(found, expiry).
         add_service \<lparr>as_owner = current, as_target = current, as_record = rd, as_addresses = found,
                      as_expires = expiry, as_fallback = True\<rparr>))"

definition received :: "dns_message \<Rightarrow> (acquisition, unit) eff" where
  "received m = bindM (at_world read_monotonic) (\<lambda>now s.
     (Inr (), s\<lparr>aq_messages := aq_messages s @ [m], aq_received := aq_received s @ [now]\<rparr>))"

text \<open>The alias of the name, if the records have one.\<close>

definition follow_next ::
  "pursuit \<Rightarrow> rdtype \<Rightarrow> name set \<Rightarrow> nat \<Rightarrow> rdata option \<Rightarrow> findings \<Rightarrow> (acquisition, ip_address set \<times> rat option) eff" where
  "follow_next follow kind visited depth alias_record f =
     (case fi_next f of
        None \<Rightarrow> ret (fi_resolved f, fi_expires f)
      | Some next_name \<Rightarrow>
          if kind = CNAME_type then ret (fi_resolved f, fi_expires f)
          else if fi_resolved f \<noteq> {} \<or> fi_services f \<noteq> []
          then throw (RequestDenied ''conflicting_dns_alias'')
          else bindM (follow next_name kind visited (depth + 1) (fi_expires f) alias_record)
                 (\<lambda>(branch, expiry). ret (fi_resolved f \<union> branch, soonest (fi_expires f) expiry)))"

text \<open>The services of the name: aliases hide the others; after aliases the last name itself is a fallback.\<close>

definition follow_services ::
  "dns_resolver \<Rightarrow> pursuit \<Rightarrow> name \<Rightarrow> rdtype \<Rightarrow> name set \<Rightarrow> nat \<Rightarrow> rdata option \<Rightarrow> findings
   \<Rightarrow> ip_address set \<times> rat option \<Rightarrow> (acquisition, ip_address set \<times> rat option) eff" where
  "follow_services r follow current kind visited depth alias_record f found =
     (if list_ex is_alias (fi_services f)
      then foldM (follow_alias r follow kind visited depth) found (filter is_alias (fi_services f))
      else
        bindM (foldM (follow_service r follow current depth (snd found)) () (fi_services f)) (\<lambda>_.
        bindM (case alias_record of
                 None \<Rightarrow> ret ()
               | Some rd \<Rightarrow> if fi_next f = None then follow_fallback r follow current depth (snd found) rd else ret ())
          (\<lambda>_. ret found)))"

definition keep_addresses :: "ip_address set \<times> rat option \<Rightarrow> (acquisition, ip_address set \<times> rat option) eff" where
  "keep_addresses found s = (Inr found, s\<lparr>aq_addresses := aq_addresses s \<union> fst found\<rparr>)"

text \<open>What happens with a response; \<open>None\<close> stands for upstreams that did not answer an alias.\<close>

definition pursue ::
  "dns_lib \<Rightarrow> dns_resolver \<Rightarrow> pursuit \<Rightarrow> name \<Rightarrow> rdtype \<Rightarrow> name set \<Rightarrow> nat \<Rightarrow> rat option \<Rightarrow> rdata option
   \<Rightarrow> dns_message option \<Rightarrow> (acquisition, ip_address set \<times> rat option) eff" where
  "pursue L r follow current kind visited depth dependency_expiry alias_record response =
     bindM (case response of None \<Rightarrow> ret () | Some m \<Rightarrow> received m) (\<lambda>_.
     let rcode = (case response of None \<Rightarrow> SERVFAIL | Some m \<Rightarrow> m_rcode m) in
     bindM (at_world read_monotonic) (\<lambda>now.
     if rcode \<noteq> NOERROR \<and> (alias_record = None \<or> rcode = NXDOMAIN) then ret ({}, Some now)
     else
       bindM (lift (foldE (note_rrset L r current kind now)
                \<lparr>fi_resolved = {}, fi_expires = dependency_expiry, fi_next = None, fi_services = []\<rparr>
                (case response of None \<Rightarrow> [] | Some m \<Rightarrow> if rcode = NOERROR then m_answer m else []))) (\<lambda>f.
       bindM (follow_next follow kind visited depth alias_record f) (\<lambda>found.
       bindM (follow_services r follow current kind visited depth alias_record f found) keep_addresses))))"

text \<open>The recursion of \<open>follow\<close>: every level sends a query, and the queries of a job are limited.\<close>

primrec follow :: "nat \<Rightarrow> dns_lib \<Rightarrow> dns_resolver \<Rightarrow> bool \<Rightarrow> pursuit" where
  "follow 0 L r want = (\<lambda>_ _ _ _ _ _. throw OutOfFuel)"
| "follow (Suc n) L r want = (\<lambda>current kind visited depth dependency_expiry alias_record.
     if current \<in> visited then throw (RequestDenied ''dns_alias_loop'')
     else if depth > l_aliases (r_limits r) then throw (RequestDenied ''dns_alias_limit'')
     else
       bindM (catchE (bindM (at_world (exchange L r current kind want)) (\<lambda>m. ret (Some m)))
                (\<lambda>e. if e \<noteq> RequestDenied ''dns_upstream_unavailable'' \<or> alias_record = None then throw e
                     else ret None))
         (pursue L r (follow n L r want) current kind (insert current visited) depth dependency_expiry alias_record))"

record acquired_answer =
  aa_name :: name
  aa_type :: rdtype
  aa_messages :: "dns_message list"
  aa_addresses :: "ip_address set"
  aa_expires :: "rat option"
  aa_direct :: "ip_address set"
  aa_services :: "acquired_service list"
  aa_received :: "rat list"

definition AXFR_type :: rdtype where "AXFR_type = 252"
definition IXFR_type :: rdtype where "IXFR_type = 251"

definition started :: "net_world \<Rightarrow> acquisition" where
  "started w = \<lparr>aq_world = w, aq_messages = [], aq_received = [], aq_addresses = {}, aq_services = []\<rparr>"

definition acquired ::
  "name \<Rightarrow> rdtype \<Rightarrow> rat \<Rightarrow> (error + ip_address set \<times> rat option) \<times> acquisition \<Rightarrow> (error + acquired_answer) \<times> net_world" where
  "acquired n t deadline outcome =
     (case outcome of
        (Inl e, s) \<Rightarrow>
          (Inl (if e = OtherError ''CancelledError'' then RequestDenied ''dns_resolution_deadline'' else e), aq_world s)
      | (Inr (direct, expires), s) \<Rightarrow>
          bindM read_monotonic (\<lambda>now.
            if now \<ge> deadline then throw (RequestDenied ''dns_resolution_deadline'')
            else ret \<lparr>aa_name = n, aa_type = t, aa_messages = aq_messages s, aa_addresses = aq_addresses s,
                      aa_expires = fold (\<lambda>x. soonest (as_expires x)) (aq_services s) expires,
                      aa_direct = direct, aa_services = aq_services s, aa_received = aq_received s\<rparr>) (aq_world s))"

definition acquire :: "dns_lib \<Rightarrow> dns_resolver \<Rightarrow> name \<Rightarrow> rdtype \<Rightarrow> bool \<Rightarrow> (net_world, acquired_answer) eff" where
  "acquire L r n t want =
     (if t = AXFR_type \<or> t = IXFR_type then throw (RequestDenied ''unsupported_dns_query'')
      else
        bindM (lift (resolver_name L r n)) (\<lambda>_.
        bindM read_monotonic (\<lambda>start w.
          acquired n t (min (job_deadline w) (start + l_deadline (r_limits r)))
            (follow (l_subqueries (r_limits r) + 2) L r want n t {} 0 None None (started w)))))"

end
