(* ===== verification/Dns_Chain.thy ===== *)
theory Dns_Chain
  imports Dns_Denial Dns_Resolution "HOL-Library.AList"
begin

text \<open>
  Acquisition of a chain of zone keys from explicit anchors, \<open>ads_sandbox_egress/dnssec_chain.py\<close>.

  The dictionaries that the code keys by \<open>id(...)\<close> are association lists over serial numbers: an object
  gets the next number when it is made. The memo of a request and the serial are part of the state.
\<close>

datatype zone_state = Secure | Insecure | Bogus | Indeterminate

record chain_evidence =
  ce_messages :: "(nat \<times> dns_message) list"
  ce_checks :: "(nat \<times> signature_check) list"
  ce_delegations :: "(nat \<times> ds_check) list"
  ce_denials :: "(nat \<times> denial_proof) list"

record zone_auth =
  za_zone :: name
  za_state :: zone_state
  za_keys :: "rrset option"
  za_evidence :: chain_evidence
  za_limitation :: "string option"

type_synonym anchors = "(name \<times> rrset) list"

record chain_world =
  ch_world :: net_world
  ch_serial :: nat
  ch_memo :: "(name \<times> zone_auth) list"

definition on_net :: "(net_world, 'a) eff \<Rightarrow> (chain_world, 'a) eff" where
  "on_net m s = (case m (ch_world s) of (r, w) \<Rightarrow> (r, s\<lparr>ch_world := w\<rparr>))"

text \<open>A cryptographic operation on the wall clock and the budget of the request.\<close>

definition timed :: "(rat \<Rightarrow> (int, 'a) eff) \<Rightarrow> (chain_world, 'a) eff" where
  "timed m = on_net (bindM read_wall (\<lambda>now. on_budget (m now)))"

definition fresh :: "(chain_world, nat) eff" where
  "fresh s = (Inr (ch_serial s), s\<lparr>ch_serial := ch_serial s + 1\<rparr>)"

section \<open>Anchors\<close>

definition anchor_step :: "dns_lib \<Rightarrow> anchors \<Rightarrow> name \<times> rrset \<Rightarrow> error + anchors" where
  "anchor_step L acc entry =
     (case entry of (n, a) \<Rightarrow>
        bindE (bounded L 64 a) (\<lambda>_.
          if n \<noteq> rr_name a \<or> rr_items a = [] \<or> rr_type a \<notin> {DS_type, DNSKEY_type}
          then Inl (ValueError ''invalid upstream anchor scope'') else Inr (AList.update n a acc)))"

definition positive_chains :: "dns_lib \<Rightarrow> anchors \<Rightarrow> error + anchors" where
  "positive_chains L given =
     (if given = [] \<or> length given > 16
      then Inl (ValueError ''explicit bounded upstream DNSSEC anchors required'')
      else foldE (anchor_step L) [] given)"

text \<open>\<open>max\<close> keeps the first of several longest names.\<close>

fun longest :: "name list \<Rightarrow> name option" where
  "longest [] = None"
| "longest (n # ns) =
     (case longest ns of None \<Rightarrow> Some n | Some m \<Rightarrow> Some (if length m > length n then m else n))"

definition closest_anchor :: "dns_lib \<Rightarrow> anchors \<Rightarrow> name \<Rightarrow> name option" where
  "closest_anchor L as n = longest (filter (below L n) (map fst as))"

section \<open>Parts of an authentication\<close>

definition exact_set :: "dns_message \<Rightarrow> name \<Rightarrow> rdtype \<Rightarrow> rdtype \<Rightarrow> rrset option" where
  "exact_set m n kind covers =
     (case filter (\<lambda>s. rr_name s = n \<and> rr_type s = kind \<and> rr_covers s = covers) (m_answer m) of
        [s] \<Rightarrow> Some s | _ \<Rightarrow> None)"

definition merge_evidence :: "chain_evidence \<Rightarrow> chain_evidence \<Rightarrow> chain_evidence" where
  "merge_evidence ev other =
     \<lparr>ce_messages = AList.updates (map fst (ce_messages other)) (map snd (ce_messages other)) (ce_messages ev),
      ce_checks = AList.updates (map fst (ce_checks other)) (map snd (ce_checks other)) (ce_checks ev),
      ce_delegations = AList.updates (map fst (ce_delegations other)) (map snd (ce_delegations other)) (ce_delegations ev),
      ce_denials = AList.updates (map fst (ce_denials other)) (map snd (ce_denials other)) (ce_denials ev)\<rparr>"

definition settle ::
  "name \<Rightarrow> chain_evidence \<Rightarrow> zone_state \<Rightarrow> rrset option \<Rightarrow> string option \<Rightarrow> (chain_world, zone_auth) eff" where
  "settle zone ev st keys limitation =
     bindM (on_net read_monotonic) (\<lambda>now s.
       if now \<ge> job_deadline (ch_world s) then (Inl (RequestDenied ''dns_resolution_deadline''), s)
       else
         let value = \<lparr>za_zone = zone, za_state = st, za_keys = keys, za_evidence = ev, za_limitation = limitation\<rparr>
         in (Inr value, s\<lparr>ch_memo := AList.update zone value (ch_memo s)\<rparr>))"

definition key_set :: "name \<Rightarrow> nat \<Rightarrow> rdata list \<Rightarrow> rrset" where
  "key_set zone ttl items =
     \<lparr>rr_name = zone, rr_class = 1, rr_type = DNSKEY_type, rr_covers = 0, rr_ttl = ttl, rr_items = items\<rparr>"

text \<open>The end that an anchored and a delegated zone share: the key set has to be signed by a candidate.\<close>

definition verify_keys ::
  "dns_lib \<Rightarrow> name \<Rightarrow> rrset \<Rightarrow> rrset option \<Rightarrow> rdata list \<Rightarrow> chain_evidence \<Rightarrow> string \<Rightarrow> (chain_world, zone_auth) eff" where
  "verify_keys L zone keys sigs candidates ev limitation =
     bindM (timed (check_signatures L keys sigs (key_set zone (rr_ttl keys) candidates))) (\<lambda>checked.
     bindM fresh (\<lambda>serial.
       let ev' = ev\<lparr>ce_checks := AList.update serial checked (ce_checks ev)\<rparr> in
       if has_direct_path checked then settle zone ev' Secure (Some keys) None
       else settle zone ev'
              (if sc_limitations checked \<noteq> [] \<or> check_valid checked
                  \<or> sc_unsupported checked \<noteq> [] \<and> sc_failures checked = []
               then Indeterminate else Bogus) None (Some limitation)))"

definition checked_ds ::
  "dns_lib \<Rightarrow> rrset \<Rightarrow> rrset \<Rightarrow> chain_evidence \<Rightarrow> (chain_world, ds_check \<times> chain_evidence) eff" where
  "checked_ds L ds keys ev =
     bindM (on_net (on_budget (check_ds L ds keys))) (\<lambda>matched.
     bindM fresh (\<lambda>serial.
       ret (matched, ev\<lparr>ce_delegations := AList.update serial matched (ce_delegations ev)\<rparr>)))"

definition anchored_zone ::
  "dns_lib \<Rightarrow> name \<Rightarrow> rrset \<Rightarrow> rrset option \<Rightarrow> rrset option \<Rightarrow> chain_evidence \<Rightarrow> (chain_world, zone_auth) eff" where
  "anchored_zone L zone anchor found sigs ev =
     (case found of
        None \<Rightarrow> settle zone ev Indeterminate None (Some ''anchor_dnskey_absence_requires_proof'')
      | Some keys \<Rightarrow>
          if rr_items keys = []
          then settle zone ev Indeterminate None (Some ''anchor_dnskey_absence_requires_proof'')
          else if rr_type anchor = DS_type
          then bindM (checked_ds L anchor keys ev) (\<lambda>(matched, ev').
                 if dc_supported matched = 0
                 then settle zone ev' Indeterminate None (Some ''unsupported_upstream_anchor'')
                 else if dc_matched matched = [] then settle zone ev' Bogus None (Some ''anchor_key_mismatch'')
                 else verify_keys L zone keys sigs (map Dnskey (dc_matched matched)) ev' ''anchor_dnskey_verification'')
          else
            let candidates = filter (\<lambda>k. k \<in> set (rr_items anchor)) (rr_items keys) in
            if candidates = [] then settle zone ev Bogus None (Some ''anchor_key_mismatch'')
            else verify_keys L zone keys sigs candidates ev ''anchor_dnskey_verification'')"

text \<open>A signer that may be the parent: above the zone and not above the closest anchor.\<close>

definition parent_signer :: "dns_lib \<Rightarrow> name \<Rightarrow> name option \<Rightarrow> rrsig \<Rightarrow> bool" where
  "parent_signer L zone boundary sig \<longleftrightarrow>
     rs_signer sig \<noteq> zone \<and> below L zone (rs_signer sig)
     \<and> (case boundary of None \<Rightarrow> True | Some b \<Rightarrow> below L (rs_signer sig) b)"

definition is_denial_set :: "rrset \<Rightarrow> bool" where
  "is_denial_set s \<longleftrightarrow> rr_type s = NSEC_type \<or> rr_type s = NSEC3_type"

definition covers_denial :: "rrset \<Rightarrow> bool" where
  "covers_denial s \<longleftrightarrow> rr_type s = RRSIG_type \<and> (rr_covers s = NSEC_type \<or> rr_covers s = NSEC3_type)"

definition denial_evidence_of :: "dns_lib \<Rightarrow> dns_message \<Rightarrow> name \<Rightarrow> (rrset \<times> rrset option) list" where
  "denial_evidence_of L delegation upper =
     map (\<lambda>s. (s, case filter (\<lambda>g. rr_name g = rr_name s \<and> rr_type g = RRSIG_type \<and> rr_covers g = rr_type s)
                         (m_authority delegation) of [g] \<Rightarrow> Some g | _ \<Rightarrow> None))
       (filter (\<lambda>s. is_denial_set s \<and> below L (rr_name s) upper) (m_authority delegation))"

type_synonym authenticator = "name \<Rightarrow> (chain_world, zone_auth) eff"

section \<open>A zone without DS\<close>

fun denied_by_parents ::
  "dns_lib \<Rightarrow> authenticator \<Rightarrow> name \<Rightarrow> dns_message \<Rightarrow> chain_evidence \<Rightarrow> name list \<Rightarrow> (chain_world, zone_auth) eff" where
  "denied_by_parents L auth zone delegation ev [] =
     settle zone ev Indeterminate None (Some ''delegation_absence_requires_proof'')"
| "denied_by_parents L auth zone delegation ev (upper # parents) =
     bindM (auth upper) (\<lambda>pa.
       let ev1 = merge_evidence ev (za_evidence pa) in
       case za_keys pa of
         None \<Rightarrow> denied_by_parents L auth zone delegation ev1 parents
       | Some keys \<Rightarrow>
           if za_state pa \<noteq> Secure then denied_by_parents L auth zone delegation ev1 parents
           else
             bindM (timed (\<lambda>now. validate_denial L zone DS_type Unsigned_delegation
                             (denial_evidence_of L delegation upper) keys now None)) (\<lambda>proof.
             bindM fresh (\<lambda>serial.
               let ev2 = ev1\<lparr>ce_denials := AList.update serial proof (ce_denials ev1)\<rparr> in
               if dp_valid proof then settle zone ev2 Insecure None None
               else denied_by_parents L auth zone delegation ev2 parents)))"

definition unsigned_zone ::
  "dns_lib \<Rightarrow> authenticator \<Rightarrow> name \<Rightarrow> name option \<Rightarrow> dns_message \<Rightarrow> chain_evidence \<Rightarrow> (chain_world, zone_auth) eff" where
  "unsigned_zone L auth zone boundary delegation ev =
     (if length (filter is_denial_set (m_authority delegation)) > 64
      then throw (RequestDenied ''dnssec_denial_scope_or_limit'')
      else
        let signatures = filter covers_denial (m_authority delegation) in
        bindM (lift (foldE (\<lambda>_. bounded L 64) () signatures)) (\<lambda>_.
          denied_by_parents L auth zone delegation ev
            (dedup (map rs_signer (filter (parent_signer L zone boundary) (concat (map rrsigs signatures)))))))"

section \<open>A zone with DS\<close>

definition no_parent_path :: "name \<Rightarrow> chain_evidence \<Rightarrow> zone_state list \<Rightarrow> (chain_world, zone_auth) eff" where
  "no_parent_path zone ev states =
     (if Indeterminate \<in> set states
         \<or> list_ex (\<lambda>(_, c). sc_limitations c \<noteq> [] \<or> check_valid c \<and> \<not> has_direct_path c) (ce_checks ev)
      then settle zone ev Indeterminate None (Some ''parent_evidence_incomplete'')
      else if Insecure \<in> set states
      then settle zone ev Insecure None (Some ''signed_island_below_unsigned_cut'')
      else settle zone ev Bogus None (Some ''no_valid_parent_path''))"

text \<open>A parent whose signature of the DS set holds decides; the others are passed over.\<close>

definition decided_by_ds ::
  "dns_lib \<Rightarrow> name \<Rightarrow> rrset \<Rightarrow> rrset \<Rightarrow> rrset option \<Rightarrow> bool \<Rightarrow> chain_evidence \<Rightarrow> (chain_world, zone_auth) eff" where
  "decided_by_ds L zone ds keys sigs missing ev =
     bindM (checked_ds L ds keys ev) (\<lambda>(matched, ev').
       if dc_supported matched = 0
       then settle zone ev' Insecure None (Some ''unsupported_only_delegation'')
       else if dc_matched matched = []
       then settle zone ev' Bogus None
              (Some (if missing then ''authenticated_delegation_missing_dnskey'' else ''delegation_key_mismatch''))
       else verify_keys L zone keys sigs (map Dnskey (dc_matched matched)) ev' ''child_dnskey_verification'')"

fun delegated_by_parents ::
  "dns_lib \<Rightarrow> authenticator \<Rightarrow> name \<Rightarrow> rrset \<Rightarrow> rrset \<Rightarrow> rrset \<Rightarrow> rrset option \<Rightarrow> bool \<Rightarrow> chain_evidence \<Rightarrow> zone_state list
   \<Rightarrow> name list \<Rightarrow> (chain_world, zone_auth) eff" where
  "delegated_by_parents L auth zone ds ds_sigs keys sigs missing ev states [] = no_parent_path zone ev states"
| "delegated_by_parents L auth zone ds ds_sigs keys sigs missing ev states (upper # parents) =
     bindM (auth upper) (\<lambda>pa.
       let ev1 = merge_evidence ev (za_evidence pa); states' = states @ [za_state pa] in
       case za_keys pa of
         None \<Rightarrow> delegated_by_parents L auth zone ds ds_sigs keys sigs missing ev1 states' parents
       | Some parent_keys \<Rightarrow>
           if za_state pa \<noteq> Secure
           then delegated_by_parents L auth zone ds ds_sigs keys sigs missing ev1 states' parents
           else
             bindM (timed (check_signatures L ds (Some ds_sigs) parent_keys)) (\<lambda>checked.
             bindM fresh (\<lambda>serial.
               let ev2 = ev1\<lparr>ce_checks := AList.update serial checked (ce_checks ev1)\<rparr> in
               if \<not> has_direct_path checked
               then delegated_by_parents L auth zone ds ds_sigs keys sigs missing ev2 states' parents
               else decided_by_ds L zone ds keys sigs missing ev2)))"

definition apex_absence :: "dns_message \<Rightarrow> name \<Rightarrow> bool" where
  "apex_absence m zone \<longleftrightarrow>
     m_answer m = [] \<and>
     (case filter (\<lambda>s. rr_type s = SOA_type \<and> rr_name s = zone) (m_authority m) of
        [soa] \<Rightarrow> length (rr_items soa) = 1 | _ \<Rightarrow> False)"

definition delegated_zone ::
  "dns_lib \<Rightarrow> authenticator \<Rightarrow> name \<Rightarrow> name option \<Rightarrow> dns_message \<Rightarrow> rrset \<Rightarrow> rrset option \<Rightarrow> rrset option \<Rightarrow> rrset option
   \<Rightarrow> chain_evidence \<Rightarrow> (chain_world, zone_auth) eff" where
  "delegated_zone L auth zone boundary m ds ds_sigs found sigs ev =
     (case ds_sigs of
        None \<Rightarrow> settle zone ev Indeterminate None (Some ''delegation_signature_requires_parent'')
      | Some ds_signatures \<Rightarrow>
          let missing = (case found of None \<Rightarrow> True | Some k \<Rightarrow> rr_items k = []) in
          if missing \<and> \<not> apex_absence m zone
          then settle zone ev Indeterminate None (Some ''dnskey_absence_requires_proof'')
          else
            let keys = (if missing then key_set zone 0 [] else the found) in
            bindM (lift (bounded L 64 ds_signatures)) (\<lambda>_.
              case dedup (map rs_signer (filter (parent_signer L zone boundary) (rrsigs ds_signatures))) of
                [] \<Rightarrow> settle zone ev Indeterminate None (Some ''no_observed_parent_signer'')
              | parents \<Rightarrow> delegated_by_parents L auth zone ds ds_signatures keys sigs missing ev [] parents))"

section \<open>A zone\<close>

definition asked_for :: "dns_lib \<Rightarrow> dns_resolver \<Rightarrow> name \<Rightarrow> rdtype \<Rightarrow> chain_evidence \<Rightarrow> (chain_world, dns_message \<times> chain_evidence) eff" where
  "asked_for L r zone t ev =
     bindM (on_net (exchange L r zone t True)) (\<lambda>m.
     bindM fresh (\<lambda>serial. ret (m, ev\<lparr>ce_messages := AList.update serial m (ce_messages ev)\<rparr>)))"

definition no_chain_evidence :: chain_evidence where
  "no_chain_evidence = \<lparr>ce_messages = [], ce_checks = [], ce_delegations = [], ce_denials = []\<rparr>"

definition chain_step ::
  "dns_lib \<Rightarrow> dns_resolver \<Rightarrow> anchors \<Rightarrow> authenticator \<Rightarrow> name \<Rightarrow> (chain_world, zone_auth) eff" where
  "chain_step L r as auth zone =
     bindM (asked_for L r zone DNSKEY_type no_chain_evidence) (\<lambda>(m, ev).
       let keys = exact_set m zone DNSKEY_type 0; sigs = exact_set m zone RRSIG_type DNSKEY_type in
       if m_rcode m \<noteq> NOERROR then settle zone ev Indeterminate None (Some ''dnskey_resolution_failure'')
       else
         bindM (lift (case keys of None \<Rightarrow> Inr () | Some k \<Rightarrow> bounded L 64 k)) (\<lambda>_.
           case map_of as zone of
             Some anchor \<Rightarrow> anchored_zone L zone anchor keys sigs ev
           | None \<Rightarrow>
               bindM (asked_for L r zone DS_type ev) (\<lambda>(delegation, ev').
                 if m_rcode delegation \<noteq> NOERROR
                 then settle zone ev' Indeterminate None (Some ''delegation_resolution_failure'')
                 else
                   case exact_set delegation zone DS_type 0 of
                     None \<Rightarrow> unsigned_zone L auth zone (closest_anchor L as zone) delegation ev'
                   | Some ds \<Rightarrow>
                       if rr_items ds = []
                       then unsigned_zone L auth zone (closest_anchor L as zone) delegation ev'
                       else delegated_zone L auth zone (closest_anchor L as zone) m ds
                              (exact_set delegation zone RRSIG_type DS_type) keys sigs ev')))"

text \<open>The recursion of \<open>_zone\<close>: at most 32 zones are visited on the way up.\<close>

primrec zone_chain :: "nat \<Rightarrow> dns_lib \<Rightarrow> dns_resolver \<Rightarrow> anchors \<Rightarrow> name list \<Rightarrow> authenticator" where
  "zone_chain 0 L r as visiting = (\<lambda>_. throw OutOfFuel)"
| "zone_chain (Suc n) L r as visiting = (\<lambda>zone s.
     case map_of (ch_memo s) zone of
       Some value \<Rightarrow> (Inr value, s)
     | None \<Rightarrow>
         if zone \<in> set visiting \<or> length visiting \<ge> 32
         then (Inl (RequestDenied ''dnssec_chain_depth_or_cycle''), s)
         else chain_step L r as (zone_chain n L r as (zone # visiting)) zone s)"

text \<open>A new memo for each request; the serial goes on.\<close>

definition authenticate ::
  "dns_lib \<Rightarrow> dns_resolver \<Rightarrow> anchors \<Rightarrow> name \<Rightarrow> nat \<Rightarrow> (net_world, zone_auth) eff" where
  "authenticate L r as zone serial w =
     (if \<not> absolute L zone then (Inl (ValueError ''absolute observed signer required''), w)
      else (case zone_chain 33 L r as [] zone \<lparr>ch_world = w, ch_serial = serial, ch_memo = []\<rparr> of
              (res, s) \<Rightarrow> (res, ch_world s)))"

end
