(* ===== verification/Resolution_Facts.thy ===== *)
theory Resolution_Facts
  imports Dns_Resolution Dns_Demo
begin

text \<open>
  What an acquisition does to the outside and what it brings back: the queries it sends are few, go to
  the configured upstreams and name nothing of the infrastructure; every address is public; it ends.
\<close>

definition public_only :: "dns_resolver \<Rightarrow> ip_address set \<Rightarrow> bool" where
  "public_only r as \<longleftrightarrow> (\<forall>a \<in> as. public_address (addresses (r_boundary r)) a)"

lemma public_only_simps [simp]:
  "public_only r {}" "public_only r (A \<union> B) \<longleftrightarrow> public_only r A \<and> public_only r B"
  by (auto simp: public_only_def)

text \<open>A query that may leave: a name the boundary admits, to a configured upstream.\<close>

definition confined :: "dns_lib \<Rightarrow> dns_resolver \<Rightarrow> net_world \<Rightarrow> bool" where
  "confined L r w \<longleftrightarrow>
     length (sent w) \<le> subqueries w \<and> length (sent w) \<le> l_subqueries (r_limits r)
     \<and> (\<forall>(q, u, tcp) \<in> set (sent w). resolver_name L r (q_name q) = Inr () \<and> u \<in> set (upstreams (r_boundary r)))"

definition unavailable :: error where "unavailable = RequestDenied ''dns_upstream_unavailable''"

section \<open>Errors of the boundary\<close>

definition plain_error :: "error \<Rightarrow> bool" where
  "plain_error e \<longleftrightarrow> e \<noteq> OutOfFuel \<and> e \<noteq> unavailable"

lemma dns_name_error: "dns_name v = Inl e \<Longrightarrow> plain_error e"
  by (auto simp: dns_name_def Let_def plain_error_def unavailable_def split: if_splits)

lemma parse_address_error: "parse_address v p = Inl e \<Longrightarrow> plain_error e"
  by (auto simp: parse_address_def plain_error_def unavailable_def split: if_splits option.splits)

lemma excluded_by_reason: "excluded_by a cs = Some reason \<Longrightarrow> reason \<in> fst ` set cs"
  by (induction a cs rule: excluded_by.induct) (auto split: if_splits)

lemma require_public_error:
  assumes "require_public b v p = Inl e"
  shows "plain_error e"
proof (cases "parse_address v p")
  case (Inl e')
  with assms parse_address_error show ?thesis by (auto simp: require_public_def)
next
  case (Inr a)
  show ?thesis
  proof (cases "excluded_by a (prefix_classes b)")
    case (Some reason)
    with excluded_by_reason have "reason \<in> {''translation'', ''infrastructure'', ''special_purpose''}"
      by (fastforce simp: prefix_classes_def)
    with Inr Some assms show ?thesis by (auto simp: require_public_def plain_error_def unavailable_def)
  next
    case None
    with Inr assms show ?thesis
      by (auto simp: require_public_def plain_error_def unavailable_def split: if_splits)
  qed
qed

lemma check_name_error: "check_name b v = Inl e \<Longrightarrow> plain_error e"
  by (auto simp: check_name_def bindE_eq_Inl dns_name_error require_public_error split: if_splits option.splits)
     (auto simp: plain_error_def unavailable_def)

lemma resolver_name_error: "resolver_name L r n = Inl e \<Longrightarrow> plain_error e"
  by (auto simp: resolver_name_def Let_def bindE_eq_Inl check_name_error split: if_splits)
     (auto simp: plain_error_def unavailable_def)

lemma foldE_plain:
  assumes "foldE f s xs = Inl e" "\<And>s x. x \<in> set xs \<Longrightarrow> f s x = Inl e \<Longrightarrow> P e"
  shows "P e"
  using assms by (induction xs arbitrary: s) (auto simp: bindE_eq_Inl)

lemma check_public_error: "check_public r u a = Inl e \<Longrightarrow> plain_error e"
  by (auto simp: check_public_def bindE_eq_Inl require_public_error)

lemma inspect_record_error: "inspect_record L r u rd = Inl e \<Longrightarrow> plain_error e"
  unfolding inspect_record_def bindE_eq_Inl
  by (elim disjE exE conjE) (erule foldE_plain, blast intro: check_public_error resolver_name_error)+

lemma inspect_rrset_error: "inspect_rrset L r u s = Inl e \<Longrightarrow> plain_error e"
  unfolding inspect_rrset_def bindE_eq_Inl
  by (elim disjE exE conjE) (blast intro: resolver_name_error, erule foldE_plain, blast intro: inspect_record_error)

lemma inspect_error: "inspect L r m = Inl e \<Longrightarrow> plain_error e"
  unfolding inspect_def by (erule foldE_plain) (blast intro: inspect_rrset_error)

section \<open>The exchange\<close>

lemma read_monotonic_post:
  "post (read_monotonic w) Q E = Q (monotonic w (monotonic_reads w)) (w\<lparr>monotonic_reads := monotonic_reads w + 1\<rparr>)"
  by (simp add: read_monotonic_def post_pair)

lemma transmit_post:
  assumes "confined L r w" "resolver_name L r (q_name q) = Inr ()" "u \<in> set (upstreams (r_boundary r))" "b \<le> subqueries w"
  shows "post (transmit r q u tcp w)
    (\<lambda>m w'. confined L r w' \<and> b + 1 \<le> subqueries w' \<and> b + 1 \<le> l_subqueries (r_limits r))
    (\<lambda>e w'. confined L r w' \<and> b \<le> subqueries w' \<and> e \<noteq> OutOfFuel
       \<and> (e = unavailable \<longrightarrow> b + 1 \<le> subqueries w' \<and> b + 1 \<le> l_subqueries (r_limits r)))"
  using assms
  by (auto simp: transmit_def Let_def post_simps read_monotonic_post confined_def unavailable_def
      split: net_reply.splits)

definition good_reply :: "dns_lib \<Rightarrow> dns_resolver \<Rightarrow> dns_message \<Rightarrow> bool" where
  "good_reply L r m \<longleftrightarrow> inspect L r m = Inr () \<and> TC \<notin> m_flags m"

text \<open>What holds after a query has been sent, \<open>b\<close> being the count before it.\<close>

definition asked :: "dns_lib \<Rightarrow> dns_resolver \<Rightarrow> nat \<Rightarrow> (error + dns_message) \<times> net_world \<Rightarrow> bool" where
  "asked L r b outcome \<longleftrightarrow> post outcome
     (\<lambda>m w. confined L r w \<and> b + 1 \<le> subqueries w \<and> b + 1 \<le> l_subqueries (r_limits r) \<and> good_reply L r m)
     (\<lambda>e w. confined L r w \<and> b \<le> subqueries w \<and> e \<noteq> OutOfFuel
        \<and> (e = unavailable \<longrightarrow> b + 1 \<le> subqueries w \<and> b + 1 \<le> l_subqueries (r_limits r)))"

abbreviation counted :: "dns_lib \<Rightarrow> dns_resolver \<Rightarrow> nat \<Rightarrow> net_world \<Rightarrow> bool" where
  "counted L r b w \<equiv> confined L r w \<and> b + 1 \<le> subqueries w \<and> b + 1 \<le> l_subqueries (r_limits r)"

lemma asked_transmit:
  assumes "confined L r w" "resolver_name L r (q_name q) = Inr ()" "u \<in> set (upstreams (r_boundary r))" "b \<le> subqueries w"
    and "\<And>reply v. counted L r b v \<Longrightarrow> asked L r b (k reply v)"
  shows "asked L r b (bindM (transmit r q u tcp) k w)"
  unfolding asked_def post_bind
  by (rule post_mono [OF transmit_post [OF assms(1-4)]]) (use assms(5) in \<open>auto simp: asked_def\<close>)

lemma asked_inspect:
  assumes "counted L r b v" "inspect L r m = Inr () \<Longrightarrow> asked L r b (k () v)"
  shows "asked L r b (bindM (lift (inspect L r m)) k v)"
  using assms inspect_error [of L r m]
  by (cases "inspect L r m") (auto simp: asked_def post_simps plain_error_def)

lemma asked_accept:
  assumes "counted L r b v" "asked L r b (rest v)" "good_reply L r m"
  shows "asked L r b (accept_reply r u rest m v)"
  using assms by (auto simp: accept_reply_def asked_def post_simps)

lemma asked_tcp:
  assumes "counted L r b v" "resolver_name L r (q_name q) = Inr ()" "u \<in> set (upstreams (r_boundary r))"
    and rest: "\<And>v. counted L r b v \<Longrightarrow> asked L r b (rest v)"
  shows "asked L r b (retry_by_tcp L r q u rest v)"
  unfolding retry_by_tcp_def
proof (rule asked_transmit [OF _ assms(2,3)])
  fix reply v assume v: "counted L r b v"
  have "asked L r b ((if TC \<in> m_flags m then throw (RequestDenied ''dns_truncated_tcp'') else accept_reply r u rest m) v)"
    if "inspect L r m = Inr ()" for m
    using asked_accept [where rest = rest and v = v and b = b and r = r and L = L] v rest [OF v] that
    by (auto simp: asked_def good_reply_def post_simps unavailable_def)
  with rest [OF v] asked_inspect [OF v] show "asked L r b ((case reply of None \<Rightarrow> rest
      | Some m \<Rightarrow> bindM (lift (inspect L r m)) (\<lambda>_.
          if TC \<in> m_flags m then throw (RequestDenied ''dns_truncated_tcp'') else accept_reply r u rest m)) v)"
    by (cases reply) auto
qed (use assms(1) in auto)

lemma asked_upstreams:
  assumes "resolver_name L r (q_name q) = Inr ()"
  shows "set us \<subseteq> set (upstreams (r_boundary r)) \<Longrightarrow> counted L r b w \<or> us \<noteq> [] \<and> confined L r w \<and> b \<le> subqueries w \<Longrightarrow>
    asked L r b (ask_upstreams L r q us w)"
proof (induction us arbitrary: w)
  case Nil
  then show ?case by (simp add: asked_def post_simps)
next
  case (Cons u us)
  have rest: "asked L r b (ask_upstreams L r q us v)" if "counted L r b v" for v
    using Cons.IH [where w = v] Cons.prems(1) that by simp
  have u: "u \<in> set (upstreams (r_boundary r))" using Cons.prems(1) by simp
  show ?case
    unfolding ask_upstreams.simps
  proof (rule asked_transmit [OF _ assms u])
    fix reply v assume v: "counted L r b v"
    have "asked L r b ((if TC \<in> m_flags m then retry_by_tcp L r q u (ask_upstreams L r q us)
        else accept_reply r u (ask_upstreams L r q us) m) v)" if "inspect L r m = Inr ()" for m
      using asked_accept [where rest = "ask_upstreams L r q us" and v = v and b = b and r = r and L = L] v rest [OF v] asked_tcp [OF v assms u rest] that
      by (simp add: good_reply_def)
    with rest [OF v] asked_inspect [OF v] show "asked L r b ((case reply of None \<Rightarrow> ask_upstreams L r q us
        | Some m \<Rightarrow> bindM (lift (inspect L r m)) (\<lambda>_.
            if TC \<in> m_flags m then retry_by_tcp L r q u (ask_upstreams L r q us)
            else accept_reply r u (ask_upstreams L r q us) m)) v)"
      by (cases reply) auto
  qed (use Cons.prems in auto)
qed

lemma exchange_asked:
  assumes "confined L r w" "b \<le> subqueries w" "upstreams (r_boundary r) \<noteq> []"
  shows "asked L r b (exchange L r n t want w)"
proof (cases "resolver_name L r n")
  case (Inl e)
  with assms resolver_name_error [OF Inl] show ?thesis
    by (auto simp: exchange_def asked_def post_simps plain_error_def)
next
  case (Inr u)
  then show ?thesis
    using asked_upstreams [of L r "\<lparr>q_name = n, q_type = t, q_dnssec = want\<rparr>" "upstreams (r_boundary r)" w b] assms
    by (simp add: exchange_def asked_def post_simps)
qed

section \<open>The pursuit\<close>

definition acquiring :: "dns_lib \<Rightarrow> dns_resolver \<Rightarrow> nat \<Rightarrow> acquisition \<Rightarrow> bool" where
  "acquiring L r b s \<longleftrightarrow> confined L r (aq_world s) \<and> b \<le> subqueries (aq_world s) \<and> public_only r (aq_addresses s)
     \<and> (\<forall>x \<in> set (aq_services s). public_only r (as_addresses x))"

abbreviation pursued ::
  "dns_lib \<Rightarrow> dns_resolver \<Rightarrow> nat \<Rightarrow> ('a \<Rightarrow> bool) \<Rightarrow> (error + 'a) \<times> acquisition \<Rightarrow> bool" where
  "pursued L r b \<equiv> maintains (acquiring L r b)"

definition found_public :: "dns_resolver \<Rightarrow> ip_address set \<times> rat option \<Rightarrow> bool" where
  "found_public r found \<longleftrightarrow> public_only r (fst found)"

lemma pursued_read: "acquiring L r b s \<Longrightarrow> pursued L r b (\<lambda>_. True) (at_world read_monotonic s)"
  by (simp add: maintains_def at_world_def read_monotonic_def acquiring_def confined_def post_pair)

lemma pursued_received: "acquiring L r b s \<Longrightarrow> pursued L r b (\<lambda>_. True) (received m s)"
  unfolding received_def
  by (rule maintains_bind [OF pursued_read]) (auto simp: maintains_def acquiring_def post_pair)

lemma pursued_count: "acquiring L r b s \<Longrightarrow> pursued L r b (\<lambda>_. True) (count_endpoint r s)"
  by (auto simp: maintains_def count_endpoint_def Let_def acquiring_def confined_def post_pair)

lemma pursued_service:
  "acquiring L r b s \<Longrightarrow> public_only r (as_addresses x) \<Longrightarrow> pursued L r b (\<lambda>_. True) (add_service x s)"
  by (auto simp: maintains_def add_service_def acquiring_def post_pair)

lemma note_alias_result:
  "note_alias t u f = Inr f' \<Longrightarrow> fi_resolved f' = fi_resolved f" "note_alias t u f \<noteq> Inl OutOfFuel"
  by (auto simp: note_alias_def split: if_splits)

lemma note_record_result:
  shows "note_record L r cur kind now s f rd = Inr f' \<Longrightarrow> public_only r (fi_resolved f) \<Longrightarrow> public_only r (fi_resolved f')"
    and "note_record L r cur kind now s f rd \<noteq> Inl OutOfFuel"
  by (auto simp: note_record_def Let_def bindE_eq_Inr bindE_eq_Inl public_only_def require_public_Inr plain_error_def
      note_alias_result(2) dest!: note_alias_result(1) require_public_error split: rdata.splits if_splits option.splits)

lemma note_rrset_result:
  shows "note_rrset L r cur kind now f s = Inr f' \<Longrightarrow> public_only r (fi_resolved f) \<Longrightarrow> public_only r (fi_resolved f')"
    and "note_rrset L r cur kind now f s \<noteq> Inl OutOfFuel"
proof -
  have "foldE (note_record L r cur kind now s) f rds = Inr f' \<Longrightarrow> public_only r (fi_resolved f) \<Longrightarrow> public_only r (fi_resolved f')"
    for rds f
    by (induction rds arbitrary: f) (auto simp: bindE_eq_Inr dest: note_record_result(1))
  then show "note_rrset L r cur kind now f s = Inr f' \<Longrightarrow> public_only r (fi_resolved f) \<Longrightarrow> public_only r (fi_resolved f')"
    by (simp add: note_rrset_def)
  show "note_rrset L r cur kind now f s \<noteq> Inl OutOfFuel"
    using foldE_plain [of "note_record L r cur kind now s" f "rr_items s" OutOfFuel "\<lambda>_. False"] note_record_result(2)
    by (auto simp: note_rrset_def)
qed

lemma notes_result:
  shows "foldE (note_rrset L r cur kind now) f sets = Inr f' \<Longrightarrow> public_only r (fi_resolved f) \<Longrightarrow> public_only r (fi_resolved f')"
    and "foldE (note_rrset L r cur kind now) f sets \<noteq> Inl OutOfFuel"
proof -
  show "foldE (note_rrset L r cur kind now) f sets = Inr f' \<Longrightarrow> public_only r (fi_resolved f) \<Longrightarrow> public_only r (fi_resolved f')"
    by (induction sets arbitrary: f) (auto simp: bindE_eq_Inr dest: note_rrset_result(1))
  show "foldE (note_rrset L r cur kind now) f sets \<noteq> Inl OutOfFuel"
    using foldE_plain [of "note_rrset L r cur kind now" f sets OutOfFuel "\<lambda>_. False"] note_rrset_result(2) by blast
qed

text \<open>A pursuit that keeps to this may be used for the branches.\<close>

definition pursuit_ok :: "dns_lib \<Rightarrow> dns_resolver \<Rightarrow> nat \<Rightarrow> pursuit \<Rightarrow> bool" where
  "pursuit_ok L r b F \<longleftrightarrow> (\<forall>n k v d e a s. acquiring L r b s \<longrightarrow> pursued L r b (found_public r) (F n k v d e a s))"

lemma pursuit_okD:
  "pursuit_ok L r b F \<Longrightarrow> acquiring L r b s \<Longrightarrow> pursued L r b (found_public r) (F n k v d e a s)"
  by (simp add: pursuit_ok_def)

lemma pursued_family:
  assumes F: "pursuit_ok L r b F" and s: "acquiring L r b s" and found: "found_public r found"
  shows "pursued L r b (found_public r) (family_branch F n d e found t s)"
proof -
  have "pursued L r b (found_public r) (bindM (F n t {} d e None) (\<lambda>(branch, branch_expiry).
      ret (fst found \<union> branch, if branch \<noteq> {} then soonest (snd found) branch_expiry else snd found)) s)"
    by (rule maintains_bind, rule pursuit_okD [OF F s])
      (use found in \<open>auto simp: found_public_def intro!: maintains_ret\<close>)
  then show ?thesis
    unfolding family_branch_def maintains_def post_catch
    by (rule post_mono) (use found in \<open>auto simp: post_simps\<close>)
qed

lemma pursued_families:
  assumes "pursuit_ok L r b F" "acquiring L r b s"
  shows "pursued L r b (found_public r) (foldM (family_branch F n d e) ({}, e) ts s)"
  by (rule maintains_foldM) (use assms pursued_family in \<open>auto simp: found_public_def\<close>)

lemma pursued_alias:
  assumes "pursuit_ok L r b F" "acquiring L r b s" "found_public r found"
  shows "pursued L r b (found_public r) (follow_alias r F k v d found rd s)"
  unfolding follow_alias_def
proof (rule maintains_bind, rule pursued_count [OF assms(2)])
  fix s' assume s': "acquiring L r b s'"
  have "pursued L r b (found_public r) (bindM (F (service_target rd) k v (d + 1) (snd found) (Some rd)) (\<lambda>(branch, expiry).
      ret (fst found \<union> branch, soonest (snd found) expiry)) s')"
    by (rule maintains_bind, rule pursuit_okD [OF assms(1) s'])
      (use assms(3) in \<open>auto simp: found_public_def intro!: maintains_ret\<close>)
  with s' assms(3) show "pursued L r b (found_public r) ((if service_target rd \<noteq> root
       then bindM (F (service_target rd) k v (d + 1) (snd found) (Some rd)) (\<lambda>(branch, expiry).
              ret (fst found \<union> branch, soonest (snd found) expiry))
       else ret found) s')"
    by (auto intro: maintains_ret)
qed

lemma pursued_follow_service:
  assumes "pursuit_ok L r b F" "acquiring L r b s"
  shows "pursued L r b (\<lambda>_. True) (follow_service r F cur d e u rd s)"
    and "pursued L r b (\<lambda>_. True) (follow_fallback r F cur d e rd s)"
proof -
  show "pursued L r b (\<lambda>_. True) (follow_service r F cur d e u rd s)"
    unfolding follow_service_def Let_def
    by (rule maintains_bind, rule pursued_count [OF assms(2)], rule maintains_bind,
        rule pursued_families [OF assms(1)], assumption)
      (auto simp: found_public_def intro!: pursued_service)
  show "pursued L r b (\<lambda>_. True) (follow_fallback r F cur d e rd s)"
    unfolding follow_fallback_def
    by (rule maintains_bind, rule pursued_count [OF assms(2)], rule maintains_bind,
        rule pursued_families [OF assms(1)], assumption)
      (auto simp: found_public_def intro!: pursued_service)
qed

lemma pursued_next:
  assumes F: "pursuit_ok L r b F" and s: "acquiring L r b s" and f: "public_only r (fi_resolved f)"
  shows "pursued L r b (found_public r) (follow_next F kind v d al f s)"
proof -
  have "pursued L r b (found_public r) (bindM (F n kind v (d + 1) (fi_expires f) al)
      (\<lambda>(branch, expiry). ret (fi_resolved f \<union> branch, soonest (fi_expires f) expiry)) s)" for n
    by (rule maintains_bind, rule pursuit_okD [OF F s]) (use f in \<open>auto simp: found_public_def intro!: maintains_ret\<close>)
  with f s show ?thesis
    by (auto simp: follow_next_def found_public_def intro: maintains_ret maintains_throw split: option.splits)
qed

lemma pursued_services:
  assumes F: "pursuit_ok L r b F" and s: "acquiring L r b s" and found: "found_public r found"
  shows "pursued L r b (found_public r) (follow_services r F cur kind v d al f found s)"
proof (cases "list_ex is_alias (fi_services f)")
  case True
  have "pursued L r b (found_public r) (foldM (follow_alias r F kind v d) found (filter is_alias (fi_services f)) s)"
    by (rule maintains_foldM) (use F s found pursued_alias in auto)
  with True show ?thesis by (simp add: follow_services_def)
next
  case False
  have fallback: "pursued L r b (\<lambda>_. True) ((case al of None \<Rightarrow> ret ()
      | Some rd \<Rightarrow> if fi_next f = None then follow_fallback r F cur d (snd found) rd else ret ()) s')"
    if "acquiring L r b s'" for s'
    using that F by (auto intro: maintains_ret pursued_follow_service split: option.splits)
  show ?thesis
    unfolding follow_services_def
    by (simp only: False if_False, rule maintains_bind [where Q = "\<lambda>_. True"], rule maintains_foldM)
      (use F s found fallback pursued_follow_service in \<open>auto intro!: maintains_bind [where Q = "\<lambda>_. True"] maintains_ret\<close>)
qed

lemma pursued_keep: "acquiring L r b s \<Longrightarrow> found_public r found \<Longrightarrow> pursued L r b (found_public r) (keep_addresses found s)"
  by (auto simp: maintains_def keep_addresses_def acquiring_def found_public_def post_pair)

lemma pursued_pursue:
  assumes F: "pursuit_ok L r b F" and s: "acquiring L r b s"
  shows "pursued L r b (found_public r) (pursue L r F cur kind v d e al response s)"
  unfolding pursue_def Let_def
proof (rule maintains_bind [where Q = "\<lambda>_. True"], goal_cases received rest)
  case received
  show ?case using s by (auto intro: maintains_ret pursued_received split: option.splits)
next
  case (rest u s1)
  show ?case
  proof (rule maintains_bind, rule pursued_read [OF rest(1)], goal_cases)
    case (1 now s2)
    have "pursued L r b (found_public r) (bindM (lift (foldE (note_rrset L r cur kind now)
          \<lparr>fi_resolved = {}, fi_expires = e, fi_next = None, fi_services = []\<rparr> sets)) (\<lambda>f.
        bindM (follow_next F kind v d al f) (\<lambda>found.
        bindM (follow_services r F cur kind v d al f found) keep_addresses)) s2)" for sets
    proof (rule maintains_bind [where Q = "\<lambda>f. public_only r (fi_resolved f)"], goal_cases)
      case 1
      show ?case by (rule maintains_lift) (use \<open>acquiring L r b s2\<close> notes_result in auto)
    next
      case (2 f s3)
      then show ?case
        by (blast intro: maintains_bind pursued_next [OF F] pursued_services [OF F] pursued_keep)
    qed
    with 1 show ?case by (auto simp: found_public_def intro: maintains_ret)
  qed
qed

section \<open>The recursion\<close>

lemma acquiring_weaken: "acquiring L r (b + 1) s \<Longrightarrow> acquiring L r b s"
  by (simp add: acquiring_def)

lemma pursued_weaken: "pursued L r (b + 1) P out \<Longrightarrow> pursued L r b P out"
  unfolding maintains_def by (erule post_mono) (auto intro: acquiring_weaken)

text \<open>As many levels as queries are left, and one more, are enough.\<close>

lemma follow_pursued:
  assumes "upstreams (r_boundary r) \<noteq> []"
  shows "0 < n \<Longrightarrow> l_subqueries (r_limits r) < b + n \<Longrightarrow> acquiring L r b s \<Longrightarrow>
    pursued L r b (found_public r) (follow n L r want cur kind v d e al s)"
proof (induction n arbitrary: b s cur kind v d e al)
  case (Suc n)
  have on: "pursued L r b (found_public r) (pursue L r (follow n L r want) cur kind (insert cur v) d e al response s')"
    if s': "acquiring L r (b + 1) s'" and lim: "b + 1 \<le> l_subqueries (r_limits r)" for response s'
  proof -
    from lim Suc.prems(2) have "0 < n" "l_subqueries (r_limits r) < (b + 1) + n" by auto
    then have "pursuit_ok L r (b + 1) (follow n L r want)"
      using Suc.IH unfolding pursuit_ok_def by blast
    from pursued_weaken [OF pursued_pursue [OF this s']] show ?thesis .
  qed
  have world: "confined L r (aq_world s)" "b \<le> subqueries (aq_world s)" using Suc.prems(3) by (auto simp: acquiring_def)
  have keep: "acquiring L r c (s\<lparr>aq_world := w\<rparr>)" if "confined L r w" "c \<le> subqueries w" for c w
    using Suc.prems(3) that by (simp add: acquiring_def)
  have "pursued L r b (found_public r) (bindM (catchE (bindM (at_world (exchange L r cur kind want)) (\<lambda>m. ret (Some m)))
        (\<lambda>e. if e \<noteq> RequestDenied ''dns_upstream_unavailable'' \<or> al = None then throw e else ret None))
      (pursue L r (follow n L r want) cur kind (insert cur v) d e al) s)"
    using exchange_asked [OF world assms, of cur kind want] on keep
    unfolding asked_def
    by (cases "exchange L r cur kind want (aq_world s)"; cases "fst (exchange L r cur kind want (aq_world s))")
      (auto simp: maintains_def at_world_def post_simps post_def bindM_def catchE_def ret_def lift_def unavailable_def)
  with Suc.prems(3) show ?case by (auto intro: maintains_throw)
qed simp

lemma confined_fresh: "sent w = [] \<Longrightarrow> confined L r w"
  by (simp add: confined_def)

lemma acquire_run:
  assumes "upstreams (r_boundary r) \<noteq> []" "sent w = []" "acquire L r n t want w = (res, w')"
  shows "confined L r w'" "res \<noteq> Inl OutOfFuel"
    and "res = Inr a \<Longrightarrow> public_only r (aa_addresses a) \<and> public_only r (aa_direct a)
      \<and> (\<forall>x \<in> set (aa_services a). public_only r (as_addresses x))"
proof -
  have "confined L r w' \<and> res \<noteq> Inl OutOfFuel \<and> (\<forall>a. res = Inr a \<longrightarrow> public_only r (aa_addresses a)
      \<and> public_only r (aa_direct a) \<and> (\<forall>x \<in> set (aa_services a). public_only r (as_addresses x)))"
  proof (cases "t = AXFR_type \<or> t = IXFR_type \<or> resolver_name L r n \<noteq> Inr ()")
    case True
    with assms(3) resolver_name_error [of L r n] confined_fresh [OF assms(2)] show ?thesis
      by (cases "resolver_name L r n")
        (auto simp: acquire_def bindM_def lift_def plain_error_def split: if_splits)
  next
    case False
    define w1 where "w1 = w\<lparr>monotonic_reads := monotonic_reads w + 1\<rparr>"
    define deadline where "deadline = min (job_deadline w) (monotonic w (monotonic_reads w) + l_deadline (r_limits r))"
    have "acquiring L r 0 (started w1)" using assms(2) by (simp add: acquiring_def started_def w1_def confined_def)
    then have run: "pursued L r 0 (found_public r)
        (follow (l_subqueries (r_limits r) + 2) L r want n t {} 0 None None (started w1))" (is "pursued _ _ _ _ ?out")
      by (intro follow_pursued [OF assms(1)]) simp_all
    have res: "(res, w') = acquired n t deadline ?out"
      using assms(3) False unfolding w1_def deadline_def
      by (simp add: acquire_def bindM_def lift_def read_monotonic_def del: follow.simps)
    obtain out s where out: "?out = (out, s)" by (cases ?out)
    show ?thesis
    proof (cases out)
      case (Inl e)
      with run out have "acquiring L r 0 s" "e \<noteq> OutOfFuel" by (auto simp: maintains_def post_def)
      with res out Inl show ?thesis by (auto simp: acquiring_def acquired_def)
    next
      case (Inr found)
      with run out have "acquiring L r 0 s" "found_public r found" by (auto simp: maintains_def post_def)
      with res out Inr show ?thesis
        by (cases found) (auto simp: acquired_def acquiring_def found_public_def confined_def bindM_def read_monotonic_def
            ret_def lift_def split: if_splits)
    qed
  qed
  then show "confined L r w'" "res \<noteq> Inl OutOfFuel"
    and "res = Inr a \<Longrightarrow> public_only r (aa_addresses a) \<and> public_only r (aa_direct a)
      \<and> (\<forall>x \<in> set (aa_services a). public_only r (as_addresses x))" by auto
qed

section \<open>The properties\<close>

definition demo_resolver :: dns_resolver where
  "demo_resolver = \<lparr>r_boundary = \<lparr>upstreams = [IPv4 16843009], zones = {''cluster.local''}, exact_names = {},
       addresses = example_boundary\<rparr>,
     r_limits = \<lparr>l_deadline = 10, l_exchange = 2, l_subqueries = 64, l_aliases = 16, l_endpoints = 16\<rparr>\<rparr>"

definition demo_name :: name where "demo_name = [''example'', ''com'', '''']"

definition demo_reply :: dns_message where
  "demo_reply = \<lparr>m_flags = {QR, RA}, m_opcode = 0, m_rcode = NOERROR, m_question = [],
     m_answer = [demo_set demo_name A_type 0 [Address4 ''1.1.1.1'']], m_authority = [], m_additional = [],
     m_edns = 0, m_do = True, m_payload = 1232, m_options = []\<rparr>"

definition demo_world :: net_world where
  "demo_world = \<lparr>remaining = 128, subqueries = 0, endpoints = 0, job_deadline = 10, monotonic = (\<lambda>_. 1), monotonic_reads = 0,
     wall = (\<lambda>_. 1), wall_reads = 0, network = (\<lambda>_. Reply demo_reply), sent = []\<rparr>"

text \<open>C13: Every address that an acquisition brings back, of the name, of its services and of their
  fallbacks, is public, whatever the upstreams send and however aliases lead on.\<close>

theorem acquired_public:
  assumes "upstreams (r_boundary r) \<noteq> []" "sent w = []" "acquire L r n t want w = (Inr a, w')"
  shows "\<forall>x \<in> aa_addresses a \<union> aa_direct a \<union> \<Union> (as_addresses ` set (aa_services a)).
           public_address (addresses (r_boundary r)) x"
  using acquire_run(3) [OF assms refl] unfolding public_only_def by blast

lemma demo_resolver_name: "resolver_name demo_lib demo_resolver demo_name = Inr ()"
  by (simp add: resolver_name_def demo_resolver_def demo_name_def root_def eval_simps suffix_to_prefix)

lemma demo_public: "require_public example_boundary ''1.1.1.1'' False = Inr (IPv4 16843009)"
  by (simp add: eval_simps special_eq example_boundary_def)

lemma demo_inspect: "inspect demo_lib demo_resolver demo_reply = Inr ()"
  using demo_resolver_name demo_public
  by (simp add: inspect_def demo_reply_def inspect_rrset_def inspect_record_def record_addresses_def record_targets_def
      record_hints_def demo_set_def check_public_def demo_resolver_def)

lemma demo_exchange:
  "exchange demo_lib demo_resolver demo_name A_type True (demo_world\<lparr>monotonic_reads := k\<rparr>) =
   (Inr demo_reply, demo_world\<lparr>monotonic_reads := k + 1, subqueries := 1,
      sent := [(\<lparr>q_name = demo_name, q_type = A_type, q_dnssec = True\<rparr>, IPv4 16843009, False)]\<rparr>)"
proof -
  have "upstreams (r_boundary demo_resolver) = [IPv4 16843009]" "l_subqueries (r_limits demo_resolver) = 64"
    by (simp_all add: demo_resolver_def)
  moreover have "TC \<notin> m_flags demo_reply" "m_rcode demo_reply = NOERROR" by (simp_all add: demo_reply_def)
  ultimately show ?thesis
    by (simp add: exchange_def demo_resolver_name bindM_def lift_def ret_def transmit_def read_monotonic_def
        demo_inspect accept_reply_def demo_world_def)
qed

lemma demo_acquire:
  "\<exists>a w. acquire demo_lib demo_resolver demo_name A_type True demo_world = (Inr a, w) \<and> aa_addresses a = {IPv4 16843009}"
proof -
  have limits: "l_subqueries (r_limits demo_resolver) = 64" "l_deadline (r_limits demo_resolver) = 10"
    "l_aliases (r_limits demo_resolver) = 16" "addresses (r_boundary demo_resolver) = example_boundary"
    "(64 :: nat) + 2 = Suc 65" by (simp_all add: demo_resolver_def)
  have noted: "foldE (note_rrset demo_lib demo_resolver demo_name A_type 1)
      \<lparr>fi_resolved = {}, fi_expires = None, fi_next = None, fi_services = []\<rparr> (m_answer demo_reply) =
    Inr \<lparr>fi_resolved = {IPv4 16843009}, fi_expires = Some 61, fi_next = None, fi_services = []\<rparr>"
    by (simp add: demo_reply_def note_rrset_def note_record_def demo_set_def demo_public limits soonest_def)
  have types: "A_type \<noteq> AXFR_type" "A_type \<noteq> IXFR_type" by (simp_all add: rdtypes AXFR_type_def IXFR_type_def)
  have reply: "m_rcode demo_reply = NOERROR" by (simp add: demo_reply_def)
  have world: "monotonic demo_world k = 1" "job_deadline demo_world = 10" "monotonic_reads demo_world = 0" for k
    by (simp_all add: demo_world_def)
  show ?thesis
    unfolding acquire_def limits follow.simps
    by (simp add: demo_resolver_name bindM_def lift_def read_monotonic_def Let_def types started_def acquired_def
        at_world_def demo_exchange [of 1, simplified] catchE_def ret_def pursue_def received_def reply noted
        follow_next_def follow_services_def keep_addresses_def limits world del: follow.simps)
qed

lemma acquired_public_witness: "public_address example_boundary (IPv4 16843009)"
proof -
  obtain a w where "acquire demo_lib demo_resolver demo_name A_type True demo_world = (Inr a, w)"
    and "aa_addresses a = {IPv4 16843009}" using demo_acquire by blast
  with acquired_public [of demo_resolver demo_world demo_lib demo_name A_type True a w] show ?thesis
    by (simp add: demo_resolver_def demo_world_def)
qed

text \<open>C14: However the upstreams behave and whatever an acquisition ends with, the queries it has sent are at
  most as many as its job allows, each went to a configured upstream, and each names something that the
  boundary lets out, never the infrastructure.\<close>

theorem queries_confined:
  assumes "upstreams (r_boundary r) \<noteq> []" "sent w = []" "acquire L r n t want w = (res, w')"
  shows "length (sent w') \<le> l_subqueries (r_limits r) \<and> (\<forall>(q, u, tcp) \<in> set (sent w').
           resolver_name L r (q_name q) = Inr () \<and> u \<in> set (upstreams (r_boundary r)))"
  using acquire_run(1) [OF assms] by (simp add: confined_def)

lemma queries_confined_witness:
  "length (sent (snd (acquire demo_lib demo_resolver demo_name A_type True demo_world))) \<le> 64"
  using queries_confined [of demo_resolver demo_world demo_lib demo_name A_type True] prod.collapse
  by (metis (no_types, lifting) demo_resolver_def demo_world_def dns_resolver.select_convs(1,2) list.distinct(1)
      net_world.select_convs(10) resolution_limits.select_convs(3) resolver_boundary.select_convs(1))

text \<open>C15: An acquisition ends: one level of recursion more than the queries its job allows is enough, whatever
  aliases and services the upstreams make up, in an answer or an error.\<close>

theorem acquire_ends:
  assumes "upstreams (r_boundary r) \<noteq> []" "sent w = []"
  shows "fst (acquire L r n t want w) \<noteq> Inl OutOfFuel"
  using acquire_run(2) [OF assms, of L n t want] by (metis prod.collapse)

lemma acquire_ends_witness: "fst (acquire demo_lib demo_resolver demo_name A_type True demo_world) \<noteq> Inl OutOfFuel"
  by (rule acquire_ends) (simp_all add: demo_resolver_def demo_world_def)

end
