(* ===== verification/Chain_Facts.thy ===== *)
theory Chain_Facts
  imports Dns_Chain Resolution_Facts
begin

text \<open>
  What an authenticated zone rests on: a chain of signed key sets and digests from an anchor, and for an
  insecure zone a proof under such a chain, never the mere absence of records. The recursion ends.
\<close>

section \<open>Chains of trust\<close>

definition signed_under :: "dns_lib \<Rightarrow> rrset \<Rightarrow> rrset \<Rightarrow> bool" where
  "signed_under L keys records \<longleftrightarrow> (\<exists>sigs now p. authentic L records sigs keys now p \<and> \<not> vs_wildcard p)"

definition ds_unsupported :: "dns_lib \<Rightarrow> ds_record \<Rightarrow> bool" where
  "ds_unsupported L d \<longleftrightarrow> \<not> algorithm_supported L (ds_algorithm d) \<or> ds_digest_type d \<notin> {1, 2, 4}
     \<or> \<not> ok_to_validate_ds L (ds_digest_type d)"

definition strictly_below :: "dns_lib \<Rightarrow> name \<Rightarrow> name \<Rightarrow> bool" where
  "strictly_below L z p \<longleftrightarrow> below L z p \<and> p \<noteq> z"

inductive trusted :: "dns_lib \<Rightarrow> anchors \<Rightarrow> name \<Rightarrow> rrset \<Rightarrow> bool" for L as where
  by_digest: "map_of as z = Some a \<Longrightarrow> rr_type a = DS_type \<Longrightarrow> (\<And>k. k \<in> set ks \<Longrightarrow> ds_matches L a keys k) \<Longrightarrow>
     signed_under L (key_set z ttl (map Dnskey ks)) keys \<Longrightarrow> trusted L as z keys"
| by_key: "map_of as z = Some a \<Longrightarrow> rr_type a \<noteq> DS_type \<Longrightarrow>
     (\<And>k. k \<in> set ks \<Longrightarrow> k \<in> set (rr_items a) \<and> k \<in> set (rr_items keys)) \<Longrightarrow>
     signed_under L (key_set z ttl ks) keys \<Longrightarrow> trusted L as z keys"
| delegated: "map_of as z = None \<Longrightarrow> trusted L as p parent_keys \<Longrightarrow> strictly_below L z p \<Longrightarrow>
     rr_name ds = z \<Longrightarrow> rr_type ds = DS_type \<Longrightarrow> signed_under L parent_keys ds \<Longrightarrow>
     (\<And>k. k \<in> set ks \<Longrightarrow> ds_matches L ds keys k) \<Longrightarrow>
     signed_under L (key_set z ttl (map Dnskey ks)) keys \<Longrightarrow> trusted L as z keys"

inductive proved_insecure :: "dns_lib \<Rightarrow> anchors \<Rightarrow> name \<Rightarrow> bool" for L as where
  denied: "trusted L as p parent_keys \<Longrightarrow> strictly_below L z p \<Longrightarrow>
     validate_denial L z DS_type Unsigned_delegation evidence parent_keys now None b = (Inr proof, b') \<Longrightarrow>
     dp_valid proof \<Longrightarrow> proved_insecure L as z"
| unsupported: "trusted L as p parent_keys \<Longrightarrow> strictly_below L z p \<Longrightarrow> rr_name ds = z \<Longrightarrow> rr_type ds = DS_type \<Longrightarrow>
     signed_under L parent_keys ds \<Longrightarrow> (\<And>d. Ds d \<in> set (rr_items ds) \<Longrightarrow> ds_unsupported L d) \<Longrightarrow> proved_insecure L as z"
| under: "proved_insecure L as p \<Longrightarrow> strictly_below L z p \<Longrightarrow> proved_insecure L as z"

section \<open>The operations do not run out of fuel\<close>

abbreviation total_run :: "(error + 'a) \<times> 'env \<Rightarrow> bool" where
  "total_run \<equiv> maintains (\<lambda>_. True) (\<lambda>_. True)"

lemma total_run_iff: "total_run out \<longleftrightarrow> fst out \<noteq> Inl OutOfFuel"
  by (cases out; cases "fst out") (auto simp: maintains_def post_def)

lemma total_bind: "total_run (m s) \<Longrightarrow> (\<And>x s. total_run (k x s)) \<Longrightarrow> total_run (bindM m k s)"
  by (rule maintains_bind)

lemma total_basic [simp]: "total_run (ret x s)" "e \<noteq> OutOfFuel \<Longrightarrow> total_run (throw e s)"
  "total_run (lift m s) \<longleftrightarrow> m \<noteq> Inl OutOfFuel"
  by (simp_all add: total_run_iff ret_def lift_def)

lemma total_foldM: "(\<And>acc x s. total_run (f acc x s)) \<Longrightarrow> total_run (foldM f acc xs s)"
  by (rule maintains_foldM) auto

lemma bounded_fuel [simp]: "bounded L n s \<noteq> Inl OutOfFuel"
proof -
  have "foldE (wire_total L o') k rs \<noteq> Inl OutOfFuel" for o' k rs
    by (induction rs arbitrary: k) (auto simp: wire_total_def Let_def bindE_eq_Inl split: if_splits)
  then show ?thesis by (auto simp: bounded_def bindE_eq_Inl)
qed

lemma consume_fuel [simp]: "total_run (consume_budget n b)"
  by (auto simp: total_run_iff consume_budget_def)

lemma check_key_fuel: "total_run (check_key L records zone now sig c key b)"
  unfolding check_key_def Let_def by (intro total_bind) simp_all

lemma check_signature_fuel: "total_run (check_signature L records keys now c sig b)"
  unfolding check_signature_def Let_def
  by (auto intro!: total_bind total_foldM check_key_fuel simp del: foldM.simps split: list.splits)

lemma check_signatures_fuel: "total_run (check_signatures L records sigs keys now b)"
  unfolding check_signatures_def
  by (auto intro!: total_bind total_foldM check_signature_fuel split: option.splits)

lemma check_ds_fuel: "total_run (check_ds L ds keys b)"
  unfolding check_ds_def check_ds_record_def check_ds_key_def Let_def
  by (auto intro!: total_bind total_foldM)

lemma hashed_fuel: "total_run (hashed L ev n s)"
proof -
  have "b32hexdecode x \<noteq> Inl OutOfFuel" for x by (auto simp: b32hexdecode_def Let_def split: option.splits)
  then show ?thesis
    by (auto simp: hashed_def total_run_iff bindM_def lift_def ret_def charge_def consume_budget_def
        split: option.splits prod.splits sum.splits if_splits)
qed

lemma exact_fuel: "total_run (exact_record L ev n s)" and cover_fuel: "total_run (covering_record L zone ev n s)"
  unfolding exact_record_def covering_record_def by (auto intro!: total_bind hashed_fuel)

lemma first_exact_fuel: "total_run (first_exact L ev ns s)"
  by (induction ns arbitrary: s) (auto intro!: total_bind exact_fuel)

lemma conclude_fuel: "total_run (conclude ev v oo c l s)"
  by (simp add: conclude_def)

lemma prove_below_fuel: "total_run (prove_below L zone q t k ev found s)"
  unfolding prove_below_def Let_def
  by (auto intro!: total_bind exact_fuel cover_fuel conclude_fuel split: option.splits)

lemma prove_absence_fuel: "total_run (prove_absence L zone q t k w ev s)"
  unfolding prove_absence_def Let_def
  by (auto intro!: total_bind exact_fuel cover_fuel conclude_fuel first_exact_fuel prove_below_fuel split: option.splits)

lemma add_evidence_fuel: "total_run (add_evidence L keys now ev item b)"
  unfolding add_evidence_def
  by (auto intro!: total_bind check_signatures_fuel simp: Let_def split: prod.splits)

lemma proof_result_fuel: "total_run (f s) \<Longrightarrow> total_run (case f s of (r, s') \<Rightarrow> (r, ps_remaining s'))"
  by (auto simp: total_run_iff split: prod.splits)

lemma validate_denial_fuel: "total_run (validate_denial L q t k evidence keys now w b)"
  unfolding validate_denial_def Let_def
  by (auto intro!: total_bind total_foldM add_evidence_fuel proof_result_fuel conclude_fuel prove_absence_fuel)

section \<open>What the operations establish\<close>

lemma direct_signed:
  assumes "check_signatures L records sigs keys now b = (Inr c, b')" "has_direct_path c"
  shows "signed_under L keys records"
  using assms unfolding has_direct_path_def list_ex_iff signed_under_def by (metis verified_iff)

lemma check_ds_record_result:
  assumes "check_ds_record L keys c d b = (Inr c', b')"
  shows "set (dc_matched c') = set (dc_matched c) \<union> (if ds_unsupported L d then {} else
      {k \<in> set (key_candidates L keys (ds_algorithm d) (ds_tag d)). make_ds L (rr_name keys) k (ds_digest_type d) = d})
    \<and> dc_supported c' = dc_supported c + (if ds_unsupported L d then 0 else 1)"
proof (cases "ds_unsupported L d")
  case True
  with assms show ?thesis by (auto simp: check_ds_record_def ds_unsupported_def Let_def ret_result)
next
  case False
  with assms obtain c0 where "foldM (check_ds_key L (rr_name keys) d) c0 (key_candidates L keys (ds_algorithm d) (ds_tag d)) b = (Inr c', b')"
    "dc_matched c0 = dc_matched c" "dc_supported c0 = dc_supported c + 1"
    by (auto simp: check_ds_record_def ds_unsupported_def Let_def simp del: foldM.simps split: if_splits)
  with check_ds_keys_result [OF this(1)] False show ?thesis by simp
qed

lemma check_ds_records_result:
  "foldM (check_ds_record L keys) c ds b = (Inr c', b') \<Longrightarrow>
     (\<forall>k \<in> set (dc_matched c'). k \<in> set (dc_matched c) \<or> (\<exists>d \<in> set ds. \<not> ds_unsupported L d
        \<and> k \<in> set (key_candidates L keys (ds_algorithm d) (ds_tag d)) \<and> make_ds L (rr_name keys) k (ds_digest_type d) = d))
     \<and> (dc_supported c' = 0 \<longrightarrow> (\<forall>d \<in> set ds. ds_unsupported L d))"
proof (induction ds arbitrary: c b)
  case Nil
  then show ?case by (simp add: ret_result)
next
  case (Cons d ds)
  then obtain c1 b1 where 1: "check_ds_record L keys c d b = (Inr c1, b1)"
    and 2: "foldM (check_ds_record L keys) c1 ds b1 = (Inr c', b')" by (auto simp: bindM_result)
  have grows: "foldM (check_ds_record L keys) c ds b = (Inr c', b') \<Longrightarrow> dc_supported c \<le> dc_supported c'" for c ds b
    by (induction ds arbitrary: c b)
      (force simp: ret_result bindM_result dest: check_ds_record_result)+
  have "dc_supported c' = 0 \<Longrightarrow> ds_unsupported L d"
    using grows [OF 2] check_ds_record_result [OF 1] by (auto split: if_splits)
  with Cons.IH [OF 2] check_ds_record_result [OF 1] show ?case by (auto split: if_splits)
qed

lemma check_ds_result:
  assumes "check_ds L ds keys b = (Inr c, b')"
  shows "rr_name ds = rr_name keys" "rr_type ds = DS_type"
    and "k \<in> set (dc_matched c) \<Longrightarrow> ds_matches L ds keys k"
    and "dc_supported c = 0 \<Longrightarrow> Ds d \<in> set (rr_items ds) \<Longrightarrow> ds_unsupported L d"
proof -
  from assms have scope: "rr_name ds = rr_name keys" "rr_type ds = DS_type"
    and run: "\<exists>b1. foldM (check_ds_record L keys) \<lparr>dc_matched = [], dc_failures = [], dc_unsupported = [], dc_supported = 0\<rparr>
        [d. Ds d \<leftarrow> rr_items ds] b1 = (Inr c, b')"
    by (auto simp: check_ds_def bindM_result lift_result split: if_splits)
  show "rr_name ds = rr_name keys" "rr_type ds = DS_type" by fact+
  from run check_ds_records_result
  have *: "\<forall>k \<in> set (dc_matched c). \<exists>d \<in> set [d. Ds d \<leftarrow> rr_items ds]. \<not> ds_unsupported L d
        \<and> k \<in> set (key_candidates L keys (ds_algorithm d) (ds_tag d)) \<and> make_ds L (rr_name keys) k (ds_digest_type d) = d"
    "dc_supported c = 0 \<longrightarrow> (\<forall>d \<in> set [d. Ds d \<leftarrow> rr_items ds]. ds_unsupported L d)"
    by fastforce+
  have items: "d \<in> set [d. Ds d \<leftarrow> rr_items ds] \<longleftrightarrow> Ds d \<in> set (rr_items ds)" for d
    by (force split: rdata.splits)
  show "k \<in> set (dc_matched c) \<Longrightarrow> ds_matches L ds keys k"
    using *(1) unfolding items ds_matches_def Bex_def ds_unsupported_def by blast
  show "dc_supported c = 0 \<Longrightarrow> Ds d \<in> set (rr_items ds) \<Longrightarrow> ds_unsupported L d"
    using *(2) items by blast
qed

section \<open>The invariant of a request\<close>

definition zone_ok :: "dns_lib \<Rightarrow> anchors \<Rightarrow> name \<Rightarrow> zone_auth \<Rightarrow> bool" where
  "zone_ok L as zone v \<longleftrightarrow> za_zone v = zone
     \<and> (za_state v = Secure \<longrightarrow> (\<exists>keys. za_keys v = Some keys \<and> trusted L as zone keys))
     \<and> (za_state v = Insecure \<longrightarrow> proved_insecure L as zone)
     \<and> (za_state v \<noteq> Secure \<longrightarrow> za_keys v = None)"

definition chain_ok :: "dns_lib \<Rightarrow> dns_resolver \<Rightarrow> anchors \<Rightarrow> chain_world \<Rightarrow> bool" where
  "chain_ok L r as s \<longleftrightarrow> confined L r (ch_world s) \<and> (\<forall>z v. map_of (ch_memo s) z = Some v \<longrightarrow> zone_ok L as z v)"

abbreviation chained :: "dns_lib \<Rightarrow> dns_resolver \<Rightarrow> anchors \<Rightarrow> ('a \<Rightarrow> bool) \<Rightarrow> (error + 'a) \<times> chain_world \<Rightarrow> bool" where
  "chained L r as \<equiv> maintains (chain_ok L r as)"

lemma chained_fresh: "chain_ok L r as s \<Longrightarrow> chained L r as (\<lambda>_. True) (fresh s)"
  by (simp add: maintains_def fresh_def chain_ok_def post_pair)

lemma chained_exchange:
  assumes "chain_ok L r as s" "upstreams (r_boundary r) \<noteq> []"
  shows "chained L r as (\<lambda>_. True) (on_net (exchange L r z t want) s)"
proof -
  have "asked L r 0 (exchange L r z t want (ch_world s))"
    using assms by (intro exchange_asked) (auto simp: chain_ok_def)
  with assms(1) show ?thesis
    by (auto simp: asked_def maintains_def on_net_def post_def chain_ok_def split: prod.splits sum.splits)
qed

lemma chained_budget:
  assumes "chain_ok L r as s" "\<And>b. total_run (m b)" "\<And>b x b'. m b = (Inr x, b') \<Longrightarrow> P x"
  shows "chained L r as P (on_net (on_budget m) s)"
  using assms(1) assms(2) [of "remaining (ch_world s)"] assms(3) [of "remaining (ch_world s)"]
  by (cases "m (remaining (ch_world s))"; cases "fst (m (remaining (ch_world s)))")
    (auto simp: total_run_iff maintains_def on_net_def on_budget_def post_def chain_ok_def confined_def)

lemma chained_timed:
  assumes "chain_ok L r as s" "\<And>now b. total_run (m now b)" "\<And>now b x b'. m now b = (Inr x, b') \<Longrightarrow> P x"
  shows "chained L r as P (timed m s)"
proof -
  have "timed m s = on_net (on_budget (m (wall (ch_world s) (wall_reads (ch_world s)))))
          (s\<lparr>ch_world := (ch_world s)\<lparr>wall_reads := wall_reads (ch_world s) + 1\<rparr>\<rparr>)"
    by (simp add: timed_def on_net_def bindM_def read_wall_def split: prod.splits sum.splits)
  moreover have "chain_ok L r as (s\<lparr>ch_world := (ch_world s)\<lparr>wall_reads := wall_reads (ch_world s) + 1\<rparr>\<rparr>)"
    using assms(1) by (simp add: chain_ok_def confined_def)
  ultimately show ?thesis using chained_budget assms(2,3) by metis
qed

lemma chained_settle:
  assumes "chain_ok L r as s"
    and "st = Secure \<Longrightarrow> \<exists>k. keys = Some k \<and> trusted L as zone k" "st = Insecure \<Longrightarrow> proved_insecure L as zone"
    and "st \<noteq> Secure \<Longrightarrow> keys = None"
  shows "chained L r as (zone_ok L as zone) (settle zone ev st keys why s)"
  using assms
  by (auto simp: settle_def bindM_def on_net_def read_monotonic_def maintains_def post_def chain_ok_def confined_def
      zone_ok_def Let_def update_conv split: if_splits)

lemma chained_verify:
  assumes s: "chain_ok L r as s"
    and trust: "signed_under L (key_set zone (rr_ttl keys) candidates) keys \<Longrightarrow> trusted L as zone keys"
  shows "chained L r as (zone_ok L as zone) (verify_keys L zone keys sigs candidates ev why s)"
  unfolding verify_keys_def Let_def
proof (rule maintains_bind [where Q = "\<lambda>c. has_direct_path c \<longrightarrow> trusted L as zone keys"], goal_cases)
  case 1
  show ?case by (rule chained_timed [OF s]) (auto intro: check_signatures_fuel trust direct_signed)
next
  case (2 c s1)
  then show ?case
    by (intro maintains_bind [where Q = "\<lambda>_. True"] chained_fresh) (auto intro!: chained_settle)
qed

lemma chained_ds:
  assumes "chain_ok L r as s"
  shows "chained L r as (\<lambda>(c, ev'). rr_name ds = rr_name keys \<and> (\<forall>k \<in> set (dc_matched c). ds_matches L ds keys k)
      \<and> (dc_supported c = 0 \<longrightarrow> (\<forall>d. Ds d \<in> set (rr_items ds) \<longrightarrow> ds_unsupported L d))) (checked_ds L ds keys ev s)"
  unfolding checked_ds_def
proof (rule maintains_bind [where Q = "\<lambda>c. rr_name ds = rr_name keys \<and> (\<forall>k \<in> set (dc_matched c). ds_matches L ds keys k)
      \<and> (dc_supported c = 0 \<longrightarrow> (\<forall>d. Ds d \<in> set (rr_items ds) \<longrightarrow> ds_unsupported L d))"], goal_cases)
  case 1
  show ?case by (rule chained_budget [OF assms]) (auto intro: check_ds_fuel check_ds_result)
next
  case (2 c s1)
  then show ?case
    by (intro maintains_bind [where Q = "\<lambda>_. True"] chained_fresh) (auto intro!: maintains_ret)
qed

section \<open>Anchors\<close>

definition scoped_anchor :: "name \<Rightarrow> rrset \<Rightarrow> bool" where
  "scoped_anchor n a \<longleftrightarrow> rr_name a = n \<and> rr_items a \<noteq> [] \<and> rr_type a \<in> {DS_type, DNSKEY_type}"

lemma anchor_steps_scoped:
  "foldE (anchor_step L) acc given = Inr as \<Longrightarrow> \<forall>(n, a) \<in> set acc. scoped_anchor n a \<Longrightarrow>
     set as \<subseteq> set acc \<union> set given \<and> (\<forall>(n, a) \<in> set as. scoped_anchor n a)"
proof (induction given arbitrary: acc)
  case (Cons e given)
  from Cons.prems(1) obtain acc1 where 1: "anchor_step L acc e = Inr acc1" and 2: "foldE (anchor_step L) acc1 given = Inr as"
    by (auto simp: bindE_eq_Inr)
  from 1 obtain n a where *: "acc1 = AList.update n a acc" "scoped_anchor n a" "e = (n, a)"
    by (auto simp: anchor_step_def scoped_anchor_def bindE_eq_Inr split: prod.splits if_splits)
  have update: "set (AList.update n a acc) \<subseteq> insert (n, a) (set acc)" by (induction acc) auto
  with * Cons.prems(2) have "\<forall>(n, a) \<in> set acc1. scoped_anchor n a" by blast
  with Cons.IH [OF 2] * update show ?case by auto
qed simp

lemma positive_chains_scoped:
  "positive_chains L given = Inr as \<Longrightarrow> set as \<subseteq> set given \<and> (\<forall>(n, a) \<in> set as. scoped_anchor n a)"
  using anchor_steps_scoped [of L "[]" given as] by (auto simp: positive_chains_def split: if_splits)

section \<open>Zones\<close>

lemma chained_anchored:
  assumes s: "chain_ok L r as s" and anchor: "map_of as zone = Some anchor"
  shows "chained L r as (zone_ok L as zone) (anchored_zone L zone anchor found sigs ev s)"
proof (cases found)
  case None
  then show ?thesis using s by (auto simp: anchored_zone_def intro!: chained_settle)
next
  case (Some keys)
  have digest: "chained L r as (zone_ok L as zone) (bindM (checked_ds L anchor keys ev) (\<lambda>(matched, ev').
      if dc_supported matched = 0 then settle zone ev' Indeterminate None (Some ''unsupported_upstream_anchor'')
      else if dc_matched matched = [] then settle zone ev' Bogus None (Some ''anchor_key_mismatch'')
      else verify_keys L zone keys sigs (map Dnskey (dc_matched matched)) ev' ''anchor_dnskey_verification'') s)"
    if "rr_type anchor = DS_type"
  proof (rule maintains_bind, rule chained_ds [OF s], goal_cases)
    case (1 x s1)
    have "trusted L as zone keys"
      if "\<forall>k \<in> set ks. ds_matches L anchor keys k" "signed_under L (key_set zone (rr_ttl keys) (map Dnskey ks)) keys" for ks
      using that \<open>rr_type anchor = DS_type\<close> by (intro by_digest [OF anchor]) auto
    with 1 show ?case by (auto intro!: chained_settle chained_verify split: prod.splits)
  qed
  have key: "signed_under L (key_set zone (rr_ttl keys) (filter (\<lambda>k. k \<in> set (rr_items anchor)) (rr_items keys))) keys \<Longrightarrow>
      trusted L as zone keys" if "rr_type anchor \<noteq> DS_type"
    by (rule by_key [OF anchor that]) auto
  show ?thesis
    using Some s digest key by (auto simp: anchored_zone_def Let_def intro!: chained_settle chained_verify)
qed

definition authenticator_ok :: "dns_lib \<Rightarrow> dns_resolver \<Rightarrow> anchors \<Rightarrow> authenticator \<Rightarrow> bool" where
  "authenticator_ok L r as auth \<longleftrightarrow> (\<forall>z s. chain_ok L r as s \<longrightarrow> chained L r as (zone_ok L as z) (auth z s))"

lemma chained_denied:
  assumes auth: "authenticator_ok L r as auth"
  shows "chain_ok L r as s \<Longrightarrow> \<forall>p \<in> set parents. strictly_below L zone p \<Longrightarrow>
    chained L r as (zone_ok L as zone) (denied_by_parents L auth zone m ev parents s)"
proof (induction parents arbitrary: ev s)
  case Nil
  then show ?case by (auto intro!: chained_settle)
next
  case (Cons p ps)
  show ?case
    unfolding denied_by_parents.simps Let_def
  proof (rule maintains_bind [where Q = "zone_ok L as p"], goal_cases)
    case 1
    show ?case using auth Cons.prems(1) unfolding authenticator_ok_def by blast
  next
    case (2 pa s1)
    have proof_step: "chained L r as (zone_ok L as zone)
        (bindM (timed (\<lambda>now. validate_denial L zone DS_type Unsigned_delegation (denial_evidence_of L m p) keys now None)) (\<lambda>proof.
         bindM fresh (\<lambda>serial.
           if dp_valid proof then settle zone (ev1\<lparr>ce_denials := AList.update serial proof (ce_denials ev1)\<rparr>) Insecure None None
           else denied_by_parents L auth zone m (ev1\<lparr>ce_denials := AList.update serial proof (ce_denials ev1)\<rparr>) ps)) s1)"
      if keys: "trusted L as p keys" for keys ev1
    proof (rule maintains_bind [where Q = "\<lambda>proof. dp_valid proof \<longrightarrow> proved_insecure L as zone"], goal_cases)
      case 1
      show ?case
        by (rule chained_timed [OF 2(1)])
          (use keys Cons.prems(2) in \<open>auto intro: validate_denial_fuel proved_insecure.denied\<close>)
    next
      case (2 pf s2)
      then show ?case
        by (intro maintains_bind [where Q = "\<lambda>_. True"] chained_fresh)
          (use Cons in \<open>auto intro!: chained_settle\<close>)
    qed
    have "za_keys pa = Some keys \<Longrightarrow> za_state pa = Secure \<Longrightarrow> trusted L as p keys" for keys
      using 2(2) by (simp add: zone_ok_def)
    then show ?case
      using 2(1) Cons proof_step by (auto split: option.splits)
  qed
qed

lemma parents_below: "p \<in> set (dedup (map rs_signer (filter (parent_signer L zone boundary) sigs))) \<Longrightarrow> strictly_below L zone p"
  by (auto simp: dedup_def parent_signer_def strictly_below_def)

lemma fold_bounded_fuel [simp]: "foldE (\<lambda>_. bounded L n) u sets \<noteq> Inl OutOfFuel"
  by (induction sets arbitrary: u) (auto simp: bindE_eq_Inl)

lemma chained_unsigned:
  assumes "authenticator_ok L r as auth" "chain_ok L r as s"
  shows "chained L r as (zone_ok L as zone) (unsigned_zone L auth zone boundary m ev s)"
  unfolding unsigned_zone_def Let_def
  using assms
  by (auto intro!: maintains_throw maintains_bind [where Q = "\<lambda>_. True"] maintains_lift chained_denied dest: parents_below)

lemma chained_no_path:
  assumes "chain_ok L r as s" "Insecure \<in> set states \<longrightarrow> proved_insecure L as zone"
  shows "chained L r as (zone_ok L as zone) (no_parent_path zone ev states s)"
  using assms by (auto simp: no_parent_path_def intro!: chained_settle)

lemma chained_decided:
  assumes s: "chain_ok L r as s" and none: "map_of as zone = None" and ds: "rr_name ds = zone" "rr_type ds = DS_type"
    and upper: "trusted L as p parent_keys" "strictly_below L zone p" "signed_under L parent_keys ds"
  shows "chained L r as (zone_ok L as zone) (decided_by_ds L zone ds keys sigs missing ev s)"
  unfolding decided_by_ds_def
proof (rule maintains_bind, rule chained_ds [OF s], goal_cases)
  case (1 x s1)
  have "trusted L as zone keys"
    if "\<forall>k \<in> set ks. ds_matches L ds keys k" "signed_under L (key_set zone (rr_ttl keys) (map Dnskey ks)) keys" for ks
    using that by (intro trusted.delegated [OF none upper(1,2) ds upper(3)]) auto
  moreover have "proved_insecure L as zone" if "\<forall>d. Ds d \<in> set (rr_items ds) \<longrightarrow> ds_unsupported L d"
    using that by (intro proved_insecure.unsupported [OF upper(1,2) ds upper(3)]) auto
  ultimately show ?case using 1 by (auto intro!: chained_settle chained_verify split: prod.splits)
qed

lemma chained_delegated_by:
  assumes auth: "authenticator_ok L r as auth" and none: "map_of as zone = None"
    and ds: "rr_name ds = zone" "rr_type ds = DS_type"
  shows "chain_ok L r as s \<Longrightarrow> \<forall>p \<in> set parents. strictly_below L zone p \<Longrightarrow>
    Insecure \<in> set states \<longrightarrow> proved_insecure L as zone \<Longrightarrow>
    chained L r as (zone_ok L as zone) (delegated_by_parents L auth zone ds ds_sigs keys sigs missing ev states parents s)"
proof (induction parents arbitrary: ev states s)
  case Nil
  then show ?case by (auto intro!: chained_no_path)
next
  case (Cons p ps)
  show ?case
    unfolding delegated_by_parents.simps Let_def
  proof (rule maintains_bind [where Q = "zone_ok L as p"], goal_cases)
    case 1
    show ?case using auth Cons.prems(1) unfolding authenticator_ok_def by blast
  next
    case (2 pa s1)
    then have states: "Insecure \<in> set (states @ [za_state pa]) \<longrightarrow> proved_insecure L as zone"
      using Cons.prems(2,3) by (auto simp: zone_ok_def intro: proved_insecure.under)
    have next_parent: "chained L r as (zone_ok L as zone)
        (delegated_by_parents L auth zone ds ds_sigs keys sigs missing ev1 (states @ [za_state pa]) ps s2)"
      if "chain_ok L r as s2" for ev1 s2
      by (rule Cons.IH [OF that]) (use Cons.prems states in auto)
    have decide: "chained L r as (zone_ok L as zone)
        (bindM (timed (check_signatures L ds (Some ds_sigs) parent_keys)) (\<lambda>checked.
         bindM fresh (\<lambda>serial.
           if \<not> has_direct_path checked
           then delegated_by_parents L auth zone ds ds_sigs keys sigs missing
                  (ev1\<lparr>ce_checks := AList.update serial checked (ce_checks ev1)\<rparr>) (states @ [za_state pa]) ps
           else decided_by_ds L zone ds keys sigs missing (ev1\<lparr>ce_checks := AList.update serial checked (ce_checks ev1)\<rparr>))) s1)"
      if keys: "trusted L as p parent_keys" for parent_keys ev1
    proof (rule maintains_bind [where Q = "\<lambda>c. has_direct_path c \<longrightarrow> signed_under L parent_keys ds"], goal_cases)
      case 1
      show ?case
        by (rule chained_timed [OF 2(1)]) (auto intro: check_signatures_fuel direct_signed)
    next
      case (2 c s2)
      then show ?case
        by (intro maintains_bind [where Q = "\<lambda>_. True"] chained_fresh)
          (use next_parent chained_decided [OF _ none ds keys] Cons.prems(2) in auto)
    qed
    have "za_keys pa = Some keys \<Longrightarrow> za_state pa = Secure \<Longrightarrow> trusted L as p keys" for keys
      using 2(2) by (simp add: zone_ok_def)
    then show ?case
      using 2(1) next_parent decide by (auto split: option.splits)
  qed
qed

lemma chained_delegated:
  assumes auth: "authenticator_ok L r as auth" and s: "chain_ok L r as s" and none: "map_of as zone = None"
    and ds: "rr_name ds = zone" "rr_type ds = DS_type"
  shows "chained L r as (zone_ok L as zone) (delegated_zone L auth zone boundary m ds ds_sigs found sigs ev s)"
proof (cases ds_sigs)
  case None
  then show ?thesis using s by (auto simp: delegated_zone_def intro!: chained_settle)
next
  case (Some ss)
  define parents where "parents = dedup (map rs_signer (filter (parent_signer L zone boundary) (rrsigs ss)))"
  have "chained L r as (zone_ok L as zone) ((case parents of
      [] \<Rightarrow> settle zone ev Indeterminate None (Some ''no_observed_parent_signer'')
    | ps \<Rightarrow> delegated_by_parents L auth zone ds ss keys sigs missing ev [] ps) s1)"
    if "chain_ok L r as s1" for keys missing s1
  proof -
    have "\<forall>p \<in> set parents. strictly_below L zone p" using parents_below unfolding parents_def by blast
    with that show ?thesis
      by (cases parents) (auto simp del: delegated_by_parents.simps
          intro!: chained_settle chained_delegated_by [OF auth none ds])
  qed
  then show ?thesis
    unfolding delegated_zone_def Some option.case Let_def parents_def [symmetric]
    by (auto intro!: chained_settle s maintains_bind [where Q = "\<lambda>_. True"] maintains_lift)
qed

lemma chained_asked:
  assumes "chain_ok L r as s" "upstreams (r_boundary r) \<noteq> []"
  shows "chained L r as (\<lambda>_. True) (asked_for L r zone t ev s)"
  unfolding asked_for_def
  by (rule maintains_bind, rule chained_exchange [OF assms])
    (auto intro!: maintains_bind [where Q = "\<lambda>_. True"] chained_fresh maintains_ret)

lemma exact_set_kind: "exact_set m n kind covers = Some s \<Longrightarrow> rr_name s = n \<and> rr_type s = kind"
  by (auto simp: exact_set_def filter_eq_Cons_iff split: list.splits)

lemma chained_step:
  assumes auth: "authenticator_ok L r as auth" and s: "chain_ok L r as s" and up: "upstreams (r_boundary r) \<noteq> []"
  shows "chained L r as (zone_ok L as zone) (chain_step L r as auth zone s)"
proof -
  have unanchored: "chained L r as (zone_ok L as zone) (bindM (asked_for L r zone DS_type ev) (\<lambda>(delegation, ev').
      if m_rcode delegation \<noteq> NOERROR
      then settle zone ev' Indeterminate None (Some ''delegation_resolution_failure'')
      else case exact_set delegation zone DS_type 0 of
          None \<Rightarrow> unsigned_zone L auth zone (closest_anchor L as zone) delegation ev'
        | Some ds \<Rightarrow>
            if rr_items ds = [] then unsigned_zone L auth zone (closest_anchor L as zone) delegation ev'
            else delegated_zone L auth zone (closest_anchor L as zone) m ds
                   (exact_set delegation zone RRSIG_type DS_type) keys sigs ev') s1)"
    if "chain_ok L r as s1" "map_of as zone = None" for s1 ev m keys sigs
    by (rule maintains_bind, rule chained_asked [OF that(1) up])
      (auto split: option.splits dest: exact_set_kind
        intro!: chained_settle chained_unsigned [OF auth] chained_delegated [OF auth _ that(2)])
  have bound: "chained L r as (\<lambda>_. True) (lift (case keys of None \<Rightarrow> Inr () | Some k \<Rightarrow> bounded L 64 k) s1)"
    if "chain_ok L r as s1" for keys s1
    using that by (auto intro!: maintains_lift split: option.splits)
  have rest: "chained L r as (zone_ok L as zone)
      ((case map_of as zone of
          Some anchor \<Rightarrow> anchored_zone L zone anchor keys sigs ev
        | None \<Rightarrow> bindM (asked_for L r zone DS_type ev) (\<lambda>(delegation, ev').
            if m_rcode delegation \<noteq> NOERROR
            then settle zone ev' Indeterminate None (Some ''delegation_resolution_failure'')
            else case exact_set delegation zone DS_type 0 of
                None \<Rightarrow> unsigned_zone L auth zone (closest_anchor L as zone) delegation ev'
              | Some ds \<Rightarrow>
                  if rr_items ds = [] then unsigned_zone L auth zone (closest_anchor L as zone) delegation ev'
                  else delegated_zone L auth zone (closest_anchor L as zone) m ds
                         (exact_set delegation zone RRSIG_type DS_type) keys sigs ev')) s1)"
    if "chain_ok L r as s1" for s1 ev m keys sigs
    using chained_anchored [OF that] unanchored [OF that] by (cases "map_of as zone") simp_all
  show ?thesis
    unfolding chain_step_def Let_def
  proof (rule maintains_bind, rule chained_asked [OF s up], goal_cases)
    case (1 x s1)
    then show ?case
      by (auto split: prod.splits intro!: chained_settle maintains_bind [OF bound rest])
  qed
qed

lemma zone_chain_ok:
  assumes up: "upstreams (r_boundary r) \<noteq> []"
  shows "0 < n \<Longrightarrow> 33 \<le> length visiting + n \<Longrightarrow> authenticator_ok L r as (zone_chain n L r as visiting)"
proof (induction n arbitrary: visiting)
  case (Suc n)
  have "authenticator_ok L r as (zone_chain n L r as (z # visiting))" if "length visiting < 32" for z
    using that Suc.prems by (intro Suc.IH) auto
  then have "chained L r as (zone_ok L as z) (chain_step L r as (zone_chain n L r as (z # visiting)) z s)"
    if "chain_ok L r as s" "length visiting < 32" for z s
    using that chained_step [OF _ that(1) up] by blast
  moreover have "chained L r as (zone_ok L as z) (Inr v, s)" if "chain_ok L r as s" "map_of (ch_memo s) z = Some v" for z s v
    using that by (simp add: maintains_def post_pair chain_ok_def)
  moreover have "chained L r as (zone_ok L as z) (Inl (RequestDenied ''dnssec_chain_depth_or_cycle''), s)"
    if "chain_ok L r as s" for z s
    using that by (simp add: maintains_def post_def)
  ultimately show ?case
    by (auto simp: authenticator_ok_def split: option.splits)
qed simp

lemma authenticate_ok:
  assumes "upstreams (r_boundary r) \<noteq> []" "confined L r w"
  shows "maintains (confined L r) (zone_ok L as zone) (authenticate L r as zone serial w)"
proof -
  have "chain_ok L r as \<lparr>ch_world = w, ch_serial = serial, ch_memo = []\<rparr>"
    using assms(2) by (simp add: chain_ok_def)
  then have "chained L r as (zone_ok L as zone) (zone_chain 33 L r as [] zone \<lparr>ch_world = w, ch_serial = serial, ch_memo = []\<rparr>)"
    using zone_chain_ok [OF assms(1), of 33 "[]"] by (simp add: authenticator_ok_def)
  then show ?thesis
    using assms(2) by (auto simp: authenticate_def maintains_def post_def chain_ok_def split: prod.splits sum.splits)
qed

lemma trusted_from_anchor: "trusted L as z keys \<Longrightarrow> \<exists>a \<in> fst ` set as. (strictly_below L)\<^sup>*\<^sup>* z a"
proof (induction rule: trusted.induct)
  case (delegated z p)
  then show ?case by (meson converse_rtranclp_into_rtranclp)
qed (metis image_eqI map_of_SomeD fst_conv rtranclp.rtrancl_refl)+

lemma fresh_confined: "sent w = [] \<Longrightarrow> confined L r w"
  by (simp add: confined_def)

text \<open>C11: A zone is called secure only with a chain of trust: from a configured anchor of DS or DNSKEY records, at the
  zone or above it, down to the zone, every step is a digest signed by the keys above and every key set is signed by a key that the
  digest or the anchor names. A zone is called insecure only by a proof under such a chain, and keys come with
  secure zones alone, whatever the upstreams send.\<close>

theorem zone_authenticated:
  assumes "upstreams (r_boundary r) \<noteq> []" "sent w = []" "positive_chains L given = Inr as"
    "authenticate L r as zone serial w = (Inr v, w')"
  shows "(za_state v = Secure \<longrightarrow> (\<exists>keys. za_keys v = Some keys \<and> trusted L as zone keys)
            \<and> (\<exists>(n, a) \<in> set given. scoped_anchor n a \<and> (strictly_below L)\<^sup>*\<^sup>* zone n))
         \<and> (za_state v = Insecure \<longrightarrow> proved_insecure L as zone) \<and> (za_state v \<noteq> Secure \<longrightarrow> za_keys v = None)"
proof -
  have "zone_ok L as zone v"
    using authenticate_ok [OF assms(1) fresh_confined [OF assms(2)], of L as zone serial] assms(4)
    by (simp add: maintains_def post_pair)
  moreover have "\<exists>(n, a) \<in> set given. scoped_anchor n a \<and> (strictly_below L)\<^sup>*\<^sup>* zone n" if "trusted L as zone keys" for keys
    using trusted_from_anchor [OF that] positive_chains_scoped [OF assms(3)] by fastforce
  ultimately show ?thesis by (auto simp: zone_ok_def)
qed

text \<open>C12: The recursion over the signers ends at the 32nd zone, whatever signers the upstreams make up, and
  however it ends the queries are within the limits and the boundary.\<close>

theorem authenticate_ends:
  assumes "upstreams (r_boundary r) \<noteq> []" "sent w = []" "authenticate L r as zone serial w = (res, w')"
  shows "res \<noteq> Inl OutOfFuel \<and> length (sent w') \<le> l_subqueries (r_limits r)
    \<and> (\<forall>(q, u, tcp) \<in> set (sent w'). resolver_name L r (q_name q) = Inr () \<and> u \<in> set (upstreams (r_boundary r)))"
  using authenticate_ok [OF assms(1) fresh_confined [OF assms(2)], of L as zone serial] assms(3)
  by (cases res) (auto simp: maintains_def post_def confined_def)

end
