(* ===== verification/Chain_Demo.thy ===== *)
theory Chain_Demo
  imports Chain_Facts
begin

text \<open>
  A signed zone below an anchored root: three queries, for the keys of the zone, the digest of its key
  and the keys of the root, give the zone its keys.
\<close>

definition demo_top :: name where "demo_top = [''example'', '''']"

definition demo_ds :: ds_record where
  "demo_ds = \<lparr>ds_tag = 0, ds_algorithm = 13, ds_digest_type = 2, ds_digest = ''k''\<rparr>"

definition demo_anchors :: anchors where "demo_anchors = [(root, demo_keys root)]"

definition demo_answers :: "nat \<Rightarrow> rrset list" where
  "demo_answers n =
     (if n = 0 then [demo_keys demo_top, demo_sig demo_top DNSKEY_type 1 demo_top]
      else if n = 1 then [demo_set demo_top DS_type 0 [Ds demo_ds], demo_sig demo_top DS_type 1 root]
      else [demo_keys root, demo_sig root DNSKEY_type 0 root])"

definition demo_message :: "nat \<Rightarrow> dns_message" where
  "demo_message n = demo_reply\<lparr>m_answer := demo_answers n\<rparr>"

definition signed_world :: net_world where
  "signed_world = demo_world\<lparr>wall := (\<lambda>_. 1500), network := (\<lambda>n. Reply (demo_message n))\<rparr>"

lemma demo_top_name: "resolver_name demo_lib demo_resolver demo_top = Inr ()"
  by (simp add: resolver_name_def demo_resolver_def demo_top_def root_def eval_simps suffix_to_prefix)

lemma root_name: "resolver_name demo_lib demo_resolver root = Inr ()"
  by (simp add: resolver_name_def demo_resolver_def root_def eval_simps suffix_to_prefix)

lemma demo_message_inspect: "inspect demo_lib demo_resolver (demo_message n) = Inr ()"
  by (simp add: inspect_def demo_message_def demo_reply_def demo_answers_def inspect_rrset_def inspect_record_def
      record_addresses_def record_targets_def record_hints_def demo_evals demo_top_name root_name)

lemma demo_message_simps: "m_rcode (demo_message n) = NOERROR" "TC \<notin> m_flags (demo_message n)"
  "m_answer (demo_message n) = demo_answers n"
  by (simp_all add: demo_message_def demo_reply_def)

lemma signed_exchange:
  assumes "resolver_name demo_lib demo_resolver n = Inr ()" "subqueries w < 64"
    "monotonic w = (\<lambda>_. 1)" "job_deadline w = 10" "network w = (\<lambda>n. Reply (demo_message n))"
  shows "exchange demo_lib demo_resolver n t True w =
    (Inr (demo_message (length (sent w))), w\<lparr>subqueries := subqueries w + 1, monotonic_reads := monotonic_reads w + 1,
       sent := sent w @ [(\<lparr>q_name = n, q_type = t, q_dnssec = True\<rparr>, IPv4 16843009, False)]\<rparr>)"
proof -
  have "upstreams (r_boundary demo_resolver) = [IPv4 16843009]" "l_subqueries (r_limits demo_resolver) = 64"
    by (simp_all add: demo_resolver_def)
  with assms show ?thesis
    by (simp add: exchange_def bindM_def lift_def ret_def transmit_def read_monotonic_def
        demo_message_inspect accept_reply_def demo_message_simps)
qed

definition demo_checked :: "name \<Rightarrow> rdtype \<Rightarrow> nat \<Rightarrow> name \<Rightarrow> signature_check" where
  "demo_checked n t labels signer = empty_check\<lparr>sc_verified :=
     [\<lparr>vs_signature = hd (rrsigs (demo_sig n t labels signer)), vs_key = demo_key, vs_wildcard = False\<rparr>]\<rparr>"

lemma demo_checked_direct: "has_direct_path (demo_checked n t labels signer)"
  by (simp add: demo_checked_def has_direct_path_def)

lemma signed_checks:
  assumes "1 \<le> b"
  shows "check_signatures demo_lib (demo_keys root) (Some (demo_sig root DNSKEY_type 0 root)) (key_set root 60 [Dnskey demo_key]) 1500 b =
      (Inr (demo_checked root DNSKEY_type 0 root), b - 1)"
    and "check_signatures demo_lib (demo_keys demo_top) (Some (demo_sig demo_top DNSKEY_type 1 demo_top))
        (key_set demo_top 60 [Dnskey demo_key]) 1500 b = (Inr (demo_checked demo_top DNSKEY_type 1 demo_top), b - 1)"
    and "check_signatures demo_lib (demo_set demo_top DS_type 0 [Ds demo_ds]) (Some (demo_sig demo_top DS_type 1 root))
        (demo_keys root) 1500 b = (Inr (demo_checked demo_top DS_type 1 root), b - 1)"
  using assms
  by (simp_all add: check_evals demo_evals key_set_def rdtypes root_def demo_top_def demo_checked_def suffix_Cons)

lemma demo_ds_check:
  assumes "1 \<le> b"
  shows "check_ds demo_lib (demo_set demo_top DS_type 0 [Ds demo_ds]) (demo_keys demo_top) b =
    (Inr \<lparr>dc_matched = [demo_key], dc_failures = [], dc_unsupported = [], dc_supported = 1\<rparr>, b - 1)"
  using assms
  by (simp add: check_ds_def check_ds_record_def check_ds_key_def is_ds_def check_evals demo_evals rdtypes root_def
      demo_top_def demo_ds_def)

lemma demo_sets:
  "exact_set (demo_message 0) demo_top DNSKEY_type 0 = Some (demo_keys demo_top)"
  "exact_set (demo_message 0) demo_top RRSIG_type DNSKEY_type = Some (demo_sig demo_top DNSKEY_type 1 demo_top)"
  "exact_set (demo_message 1) demo_top DS_type 0 = Some (demo_set demo_top DS_type 0 [Ds demo_ds])"
  "exact_set (demo_message 1) demo_top RRSIG_type DS_type = Some (demo_sig demo_top DS_type 1 root)"
  "exact_set (demo_message 2) root DNSKEY_type 0 = Some (demo_keys root)"
  "exact_set (demo_message 2) root RRSIG_type DNSKEY_type = Some (demo_sig root DNSKEY_type 0 root)"
  by (simp_all add: exact_set_def demo_message_simps demo_answers_def demo_evals rdtypes)

lemma demo_bounded: "bounded demo_lib 64 (demo_keys root) = Inr ()" "bounded demo_lib 64 (demo_keys demo_top) = Inr ()"
  "bounded demo_lib 64 (demo_sig demo_top DS_type 1 root) = Inr ()"
  by (simp_all add: check_evals demo_evals root_def demo_top_def)

lemmas chain_evals = bindM_def lift_def ret_def on_net_def on_budget_def timed_def read_wall_def read_monotonic_def
  fresh_def settle_def verify_keys_def checked_ds_def asked_for_def no_chain_evidence_def Let_def

text \<open>A world in which \<open>k\<close> more queries and checks are possible.\<close>

definition quiet :: "nat \<Rightarrow> net_world \<Rightarrow> bool" where
  "quiet k w \<longleftrightarrow> monotonic w = (\<lambda>_. 1) \<and> job_deadline w = 10 \<and> wall w = (\<lambda>_. 1500)
     \<and> network w = (\<lambda>n. Reply (demo_message n)) \<and> subqueries w + k \<le> 64 \<and> int k \<le> remaining w"

lemma demo_parts: "map_of demo_anchors root = Some (demo_keys root)" "map_of demo_anchors demo_top = None"
  "rr_type (demo_keys n) = DNSKEY_type" "DNSKEY_type \<noteq> DS_type" "rr_items (demo_keys n) = [Dnskey demo_key]"
  "rr_ttl (demo_keys n) = 60" "rr_items (demo_set n t c items) = items"
  by (simp_all add: demo_anchors_def demo_evals rdtypes root_def demo_top_def)

lemma root_chain:
  assumes "quiet (Suc k) (ch_world s)" "length (sent (ch_world s)) = 2"
  shows "\<exists>v s'. chain_step demo_lib demo_resolver demo_anchors auth root s = (Inr v, s')
    \<and> za_state v = Secure \<and> za_keys v = Some (demo_keys root) \<and> quiet k (ch_world s')"
  using assms
  by (auto simp: quiet_def chain_step_def chain_evals signed_exchange [OF root_name] demo_sets demo_message_simps demo_parts
      anchored_zone_def demo_bounded signed_checks demo_checked_direct)

lemma demo_parents:
  "dedup (map rs_signer (filter (parent_signer demo_lib demo_top (Some root)) (rrsigs (demo_sig demo_top DS_type 1 root)))) = [root]"
  by (simp add: dedup_def parent_signer_def rrsigs_def demo_evals root_def demo_top_def suffix_Cons)

lemma demo_closest: "closest_anchor demo_lib demo_anchors demo_top = Some root"
  by (simp add: closest_anchor_def demo_anchors_def root_def demo_top_def suffix_Cons)

lemma top_chain:
  assumes auth: "\<And>s k. quiet (Suc k) (ch_world s) \<Longrightarrow> length (sent (ch_world s)) = 2 \<Longrightarrow> ch_memo s = [] \<Longrightarrow>
    \<exists>v s'. auth root s = (Inr v, s') \<and> za_state v = Secure \<and> za_keys v = Some (demo_keys root) \<and> quiet k (ch_world s')"
    and s: "quiet 8 (ch_world s)" "sent (ch_world s) = []" "ch_memo s = []"
  shows "\<exists>v s'. chain_step demo_lib demo_resolver demo_anchors auth demo_top s = (Inr v, s') \<and> za_state v = Secure
    \<and> za_keys v = Some (demo_keys demo_top) \<and> quiet 2 (ch_world s')"
proof -
  have decide: "\<exists>v s'. delegated_by_parents demo_lib auth demo_top (demo_set demo_top DS_type 0 [Ds demo_ds])
      (demo_sig demo_top DS_type 1 root) (demo_keys demo_top) (Some (demo_sig demo_top DNSKEY_type 1 demo_top)) False ev [] [root] s1
      = (Inr v, s') \<and> za_state v = Secure \<and> za_keys v = Some (demo_keys demo_top) \<and> quiet 2 (ch_world s')"
    if s1: "quiet 6 (ch_world s1)" "length (sent (ch_world s1)) = 2" "ch_memo s1 = []" for ev s1
  proof -
    from s1 auth [of 5 s1] obtain v s' where *: "auth root s1 = (Inr v, s')" "za_state v = Secure"
      "za_keys v = Some (demo_keys root)" "quiet 5 (ch_world s')" by auto
    then show ?thesis
      by (auto simp: quiet_def chain_evals decided_by_ds_def demo_ds_check demo_parts signed_checks demo_checked_direct
          simp del: One_nat_def)
  qed
  note w = s(1) [unfolded quiet_def]
  have "\<exists>ev s1. chain_step demo_lib demo_resolver demo_anchors auth demo_top s = delegated_by_parents demo_lib auth demo_top
        (demo_set demo_top DS_type 0 [Ds demo_ds]) (demo_sig demo_top DS_type 1 root) (demo_keys demo_top)
        (Some (demo_sig demo_top DNSKEY_type 1 demo_top)) False ev [] [root] s1
      \<and> quiet 6 (ch_world s1) \<and> length (sent (ch_world s1)) = 2 \<and> ch_memo s1 = []"
    using w s
    by (simp add: chain_step_def chain_evals signed_exchange [OF demo_top_name] demo_sets demo_message_simps demo_parts
        demo_bounded delegated_zone_def demo_parents demo_closest One_nat_def [symmetric] del: delegated_by_parents.simps One_nat_def)
      (intro exI conjI, rule refl, simp_all add: quiet_def)
  then show ?thesis using decide by auto
qed

lemma demo_authenticate:
  "\<exists>v w. authenticate demo_lib demo_resolver demo_anchors demo_top 0 signed_world = (Inr v, w) \<and> za_state v = Secure
     \<and> za_keys v = Some (demo_keys demo_top) \<and> quiet 2 w"
proof -
  define s0 where "s0 = \<lparr>ch_world = signed_world, ch_serial = 0, ch_memo = []\<rparr>"
  have world: "quiet 8 (ch_world s0)" "sent (ch_world s0) = []" "ch_memo s0 = []"
    by (simp_all add: s0_def quiet_def signed_world_def demo_world_def)
  have root_top: "root \<noteq> demo_top" by (simp add: demo_top_def root_def)
  have upper: "\<exists>v s'. zone_chain (Suc n) demo_lib demo_resolver demo_anchors [demo_top] root s = (Inr v, s')
      \<and> za_state v = Secure \<and> za_keys v = Some (demo_keys root) \<and> quiet k (ch_world s')"
    if "quiet (Suc k) (ch_world s)" "length (sent (ch_world s)) = 2" "ch_memo s = []" for n k s
    using root_chain [OF that(1,2)] that(3) root_top by simp
  have "zone_chain 32 demo_lib demo_resolver demo_anchors [demo_top] = zone_chain (Suc 31) demo_lib demo_resolver demo_anchors [demo_top]"
    by (simp del: zone_chain.simps)
  then obtain v s' where "chain_step demo_lib demo_resolver demo_anchors (zone_chain 32 demo_lib demo_resolver demo_anchors [demo_top])
      demo_top s0 = (Inr v, s')" "za_state v = Secure" "za_keys v = Some (demo_keys demo_top)" "quiet 2 (ch_world s')"
    using top_chain [of "zone_chain 32 demo_lib demo_resolver demo_anchors [demo_top]" s0] upper world by metis
  moreover have "zone_chain 33 demo_lib demo_resolver demo_anchors [] demo_top s0 =
      chain_step demo_lib demo_resolver demo_anchors (zone_chain 32 demo_lib demo_resolver demo_anchors [demo_top]) demo_top s0"
  proof -
    have "zone_chain 33 demo_lib demo_resolver demo_anchors [] = zone_chain (Suc 32) demo_lib demo_resolver demo_anchors []"
      by (simp del: zone_chain.simps)
    then show ?thesis using world(3) by (simp only: zone_chain.simps) simp
  qed
  ultimately show ?thesis
    by (simp add: authenticate_def demo_top_def s0_def [symmetric])
qed

lemma demo_anchored: "positive_chains demo_lib [(root, demo_keys root)] = Inr demo_anchors"
  by (simp add: positive_chains_def anchor_step_def demo_bounded demo_anchors_def demo_parts)
    (simp add: demo_evals bindE_def)

lemma zone_authenticated_witness:
  "\<exists>keys. trusted demo_lib demo_anchors demo_top keys"
proof -
  obtain v w where "authenticate demo_lib demo_resolver demo_anchors demo_top 0 signed_world = (Inr v, w)" "za_state v = Secure"
    using demo_authenticate by blast
  then show ?thesis
    using zone_authenticated [OF _ _ demo_anchored, of demo_resolver signed_world demo_top 0 v w]
    by (auto simp: demo_resolver_def signed_world_def demo_world_def)
qed

lemma authenticate_ends_witness:
  "length (sent (snd (authenticate demo_lib demo_resolver demo_anchors demo_top 0 signed_world))) \<le> 64"
proof -
  obtain res w where run: "authenticate demo_lib demo_resolver demo_anchors demo_top 0 signed_world = (res, w)"
    by (cases "authenticate demo_lib demo_resolver demo_anchors demo_top 0 signed_world")
  then show ?thesis
    using authenticate_ends [of demo_resolver signed_world demo_lib demo_anchors demo_top 0 res w]
    by (simp add: demo_resolver_def signed_world_def demo_world_def)
qed

end
