(* ===== verification/Spec2Isabelle.thy ===== *)
theory Spec2Isabelle
  imports Chunked_Wire Websocket Authorization Frame_Facts Compactor_Facts Engine_Delivery Session_Safety
    Denial_Demo Chain_Demo
begin

text \<open>
  Verification library for the ADS services.

  ADS runs language-model agents in sandboxes. A user turn enters the \<open>ads\<close> service, which claims a
  run on the session and publishes a request; the engine streams model output and tool calls back as
  ordered parts; \<open>ads\<close> buffers them and commits them in order to the session's thread. When the
  context of a session grows too large, the compactor replaces a prefix of the history by a
  tombstone, and the model may ask for archived memory by a recall, which is answered in a child
  frame. What the sandbox sends to the outside passes the egress proxy, which decides by the policy
  of the project. The theories follow these parts.

  \<^bold>\<open>Shared.\<close> \<open>Prelude\<close>: exceptions as the datatype \<open>error\<close>, results as \<open>error + 'a\<close>, the
  state-and-error monad \<open>eff\<close> with its rules, the text operations of Python that the code calls.
  \<open>Base64\<close>, \<open>Ip_Address\<close>: the parts of \<open>base64\<close> and \<open>ipaddress\<close> in use. \<open>History\<close>
  (\<open>ads_commons/engine.py\<close>, \<open>context_compactor.py\<close>): turns and tombstones.

  \<^bold>\<open>Egress\<close> (\<open>services/ads-sandbox-egress\<close>, \<open>libraries/ads-commons\<close>). \<open>Egress_Settings\<close>
  (\<open>egress.py\<close>): settings and their constructor checks. \<open>Egress_Policy\<close> (\<open>policy.py\<close>): hosts,
  authorities, the budgeted Ant matcher and \<open>permitted\<close>, proved equal to a declarative policy.
  \<open>Framing\<close>, \<open>Chunked_Wire\<close> (\<open>framing.py\<close>): header gates, body length, the chunk observer, which
  does not depend on how its input is split and recognises every encoded body. \<open>Websocket\<close>,
  \<open>Normalization\<close>: the handshake and the exchange with the path helper. \<open>Destinations\<close>: excluded
  networks, reverse names, resolver discovery. \<open>Security\<close> (\<open>ads_commons/security\<close>) and
  \<open>Policy_Store\<close> (\<open>configuration.py\<close>): identities and the policy in force. \<open>Membership\<close>
  (\<open>membership.py\<close>): DNS evidence, split at its awaits, as an \<open>inductive\<close> step relation.
  \<open>Authorization\<close> (\<open>request_authorization.py\<close>): the composed decision. \<open>Dns_Evidence\<close>
  (\<open>dnssec_validation.py\<close>): DNS records and signature checks under a budget. \<open>Dns_Denial\<close>
  (\<open>dnssec_denial.py\<close>): proofs of nonexistence; \<open>Denial_Facts\<close>: they are true of an honest zone, but for
  expanded wildcards under NSEC, of which \<open>Denial_Demo\<close> has an example; \<open>Dns_Demo\<close>: a library for examples.
  \<open>Dns_Resolution\<close> (\<open>resolution.py\<close>): queries to the upstreams, inspection of what they send, aliases and
  services, over an environment record of the network and the clocks; \<open>Resolution_Facts\<close>: its queries are
  few and confined, its addresses public, and it ends. \<open>Dns_Chain\<close> (\<open>dnssec_chain.py\<close>): the keys of a zone,
  from its signers up to an anchor; \<open>Chain_Facts\<close>: a zone is secure by a chain of trust, given as an
  \<open>inductive\<close> predicate, and insecure by a proof under one; \<open>Chain_Demo\<close>: a zone below an anchored root.

  \<^bold>\<open>Recall and compaction.\<close> \<open>Recall_Frames\<close> (\<open>ads_context_runtime/frames.py\<close>, \<open>failures.py\<close>) and
  \<open>Frame_Facts\<close>: frames end with one unit of fuel per provider outcome, every admitted call is
  closed by one result. \<open>Compactor\<close> (\<open>ads_context_compactor/service.py\<close>) and \<open>Compactor_Facts\<close>:
  nothing is lost, the result fits, the rounds end (as many as there are turns).

  \<^bold>\<open>Threads\<close> (\<open>services/ads/src/ads\<close>). \<open>Threads\<close> (\<open>models.py\<close>, \<open>repository.py\<close>, \<open>domain.py\<close>):
  tables as lists of rows. \<open>Thread_Ops\<close> (\<open>engine_output_service.py\<close>, \<open>watchdog.py\<close>) and \<open>Thread_Api\<close>
  (\<open>send_service.py\<close>, \<open>session_service.py\<close>, \<open>project_service.py\<close>, \<open>engine_output_controller.py\<close>): one
  definition per transaction, and the handlers. \<open>Thread_Facts\<close>, \<open>Thread_Content\<close>, \<open>Thread_Steps\<close>: the
  invariant of the tables over every interleaving of the transactions, what stands in a thread, and
  the handlers as sequences of transactions.

  \<^bold>\<open>Engine\<close> (\<open>services/ads-engine/src/ads_engine\<close>). \<open>Engine_Chat\<close> (\<open>chat.py\<close>): deltas of a chunk,
  provider messages of a history. \<open>Engine_Exec\<close> (\<open>executor.py\<close>, \<open>context.py\<close>, \<open>mcp_client.py\<close>): the
  loop of model turns, tool calls and compactions over an environment record that holds what the
  model, the sandbox, the compactor and the meter will answer. \<open>Effect_Logic\<close>: postconditions of
  programs in \<open>eff\<close>. \<open>Engine_Protocol\<close>, \<open>Engine_Runs\<close>: the abstract protocol of tools, budget and
  completion mode, and that every run keeps to it and ends. \<open>Engine_Replay\<close>: the context is the replay
  of the emitted deltas. \<open>Engine_Service\<close> (\<open>service.py\<close>, \<open>store.py\<close>, \<open>listener.py\<close>) and
  \<open>Engine_Service_Facts\<close>: runs, split at their awaits, as an \<open>inductive\<close> step relation; one run per
  session, outputs in order. \<open>Engine_Delivery\<close>: the engine and \<open>ads\<close> together, from the emitted
  deltas over the stored parts to the history of the next request.

  \<^bold>\<open>Sandbox manager\<close> (\<open>services/ads-sandbox-manager/src/ads_sandbox_manager\<close>). A session owns a sandbox and a
  disk; a pair is the guest and the egress of a sandbox, and its ledger holds every write to the cluster
  that was reserved, bound and settled. \<open>Manager_Tables\<close>: the rows, and transactions as functions from the
  database to an error or a value and a database. \<open>Pair_Evidence\<close> (the \<open>validate\<close> functions and
  \<open>pair_snapshot\<close>): what a ledger and a captured snapshot may hold. \<open>Pair_Cleanup\<close>, \<open>Pair_Records\<close>
  (\<open>lifecycle_store.py\<close>): the claim of a cleanup, the fence of the creators, the evidence that a capture
  adds, the seal. \<open>Pair_Lifetime\<close> (\<open>pair_retirement.py\<close>, \<open>pair_disposal.py\<close>, \<open>pair_transfer.py\<close>),
  \<open>Pair_Writers\<close> (\<open>pair_store.py\<close>), \<open>Pair_Stores\<close> (\<open>pair_volume_store.py\<close>, \<open>pair_ipc_store.py\<close>,
  \<open>egress_state_store.py\<close>, \<open>pair_ready.py\<close>), \<open>Session_Store\<close> (\<open>store.py\<close>), \<open>Session_Lifecycle\<close>
  (\<open>lifecycle_store.py\<close>), \<open>Lifecycle_Service\<close> (\<open>lifecycle.py\<close>, \<open>recovery.py\<close>), \<open>Pair_Registry\<close>
  (\<open>pair_registry.py\<close>): one definition per transaction. \<open>Manager_Steps\<close>: all of them as an \<open>inductive\<close>
  step relation over copies of rows that were read earlier. \<open>Session_Facts\<close>: what is said of one session,
  the abstract lifecycle of a sandbox, and the rules that a transaction needs only to be looked at in the
  session it changes; \<open>Session_Quiet\<close>, \<open>Session_Steps\<close>: the transactions that no such statement looks at;
  \<open>Session_Moves\<close>, \<open>Session_Ends\<close>, \<open>Session_Begins\<close>, \<open>Session_Recovery\<close>, \<open>Session_Rebuild\<close>: the others, one
  lemma each; \<open>Session_World\<close>, \<open>Session_Demo\<close>, \<open>Session_Safety\<close>: the invariant of all reachable states, a run,
  and what follows for sandboxes, their disks and the works that end them.
  One error text stands for the several messages of a group of checks; a dictionary is the list of its
  items; manifests are opaque.

  \<^bold>\<open>Interfaces.\<close> The locales state what one part relies on. \<open>Prelude.invariant_system\<close> is
  interpreted on the thread steps (\<open>threads\<close>), the membership steps (\<open>membership\<close>), the policy store
  (\<open>policy_store\<close>, \<open>policy_history\<close>), the engine service (\<open>engine\<close>) and the sandbox manager (\<open>manager\<close>).
  \<open>Authorization.request_evidence\<close>, what a decision relies on, is interpreted as \<open>egress_authorizer\<close>;
  \<open>Frame_Facts.frame_runner\<close> and \<open>logging_runner\<close>, what a recall relies on in the runner of the child
  frame, as \<open>fuelled\<close> and \<open>logged\<close>.

  \<^bold>\<open>Bounds and fuel.\<close> \<open>run\<close> (recall) takes one unit of fuel per provider outcome plus one,
  \<open>compact_rounds\<close> one per turn, \<open>passes\<close> (the executor) one per stream of the model plus one: every
  pass reads a stream, \<open>follow\<close> (DNS acquisition) one per query its job allows plus two,
  \<open>zone_chain\<close> 33, one more than the zones it may visit. All are proved sufficient.

  \<^bold>\<open>Not modelled.\<close> Sockets, TLS, the HTTP libraries, the classification and publication of answers, Kafka and database adapters,
  dependency injection, configuration and logging: they are I/O around the decisions above. JSON
  codecs, token meters, digests and the language model are parameters. Code points above U+00FF are
  outside the string model. Of the sandbox manager: the calls to the cluster between two transactions,
  manifests, the rules for a Pod's runtime and a relay's configuration (the parameter \<open>ledger_rules\<close>).
\<close>

end
